(* ===== verification/Prelude.thy ===== *)
theory Prelude
  imports
    Complex_Main
    "HOL-Library.Char_ord"
    "HOL-Library.List_Lexorder"
    "HOL-Library.Product_Lexorder"
    "HOL-Library.Multiset"
begin

text \<open>
  What the components share: Python exceptions as values, the two combinators that
  sequence fallible code, strings, datetimes, and the generic lemmas on lists and sorting
  that carry the component proofs.

  A Python function that may raise is a function into \<open>exn + 'a\<close>: \<open>Inl\<close> is the exception
  with its message, \<open>Inr\<close> the value returned.
\<close>

section \<open>Automation\<close>

named_theorems validity \<open>what a successful run of a validator says about its argument\<close>
named_theorems spec_simps \<open>characterisations of operations by their abstract specification\<close>

section \<open>Exceptions as values\<close>

datatype exn =
    ValueError string
  | TypeError string
  | RuntimeError string
  | KeyError string
  | AssertionError
  | FileExistsError string
  | LateStreamEventError string

type_synonym 'a result = "exn + 'a"

text \<open>
  \<open>raise_if b e\<close> is \<open>if b: raise e\<close>; \<open>seq\<close> runs a check and goes on when it did not raise;
  \<open>bnd\<close> passes the value of a call on to the rest of the function.
\<close>

definition raise_if :: "bool \<Rightarrow> exn \<Rightarrow> unit result" where
  "raise_if b e = (if b then Inl e else Inr ())"

fun seq :: "unit result \<Rightarrow> 'a result \<Rightarrow> 'a result" where
  "seq (Inl e) k = Inl e"
| "seq (Inr u) k = k"

fun bnd :: "'a result \<Rightarrow> ('a \<Rightarrow> 'b result) \<Rightarrow> 'b result" where
  "bnd (Inl e) f = Inl e"
| "bnd (Inr x) f = f x"

lemma raise_if_ok [simp]: "raise_if b e = Inr u \<longleftrightarrow> \<not> b"
  by (cases u) (simp add: raise_if_def)

lemma raise_if_err [simp]: "raise_if b e = Inl e' \<longleftrightarrow> b \<and> e' = e"
  by (auto simp: raise_if_def)

lemma raise_if_True [simp]: "raise_if True e = Inl e"
  by (simp add: raise_if_def)

lemma raise_if_False [simp]: "raise_if False e = Inr ()"
  by (simp add: raise_if_def)

lemma seq_ok [simp]: "seq c k = Inr y \<longleftrightarrow> c = Inr () \<and> k = Inr y"
  by (cases c) auto

lemma seq_err: "seq c k = Inl e \<longleftrightarrow> c = Inl e \<or> (c = Inr () \<and> k = Inl e)"
  by (cases c) auto

lemma bnd_ok [simp]: "bnd m f = Inr y \<longleftrightarrow> (\<exists>x. m = Inr x \<and> f x = Inr y)"
  by (cases m) auto

lemma bnd_err: "bnd m f = Inl e \<longleftrightarrow> m = Inl e \<or> (\<exists>x. m = Inr x \<and> f x = Inl e)"
  by (cases m) auto

text \<open>A run of consecutive \<open>if b: raise e\<close> statements.\<close>

fun raise_first :: "(bool \<times> exn) list \<Rightarrow> unit result" where
  "raise_first [] = Inr ()"
| "raise_first ((b, e) # rest) = (if b then Inl e else raise_first rest)"

lemma if_Inl_ok [simp]: "(if b then Inl e else k) = Inr y \<longleftrightarrow> \<not> b \<and> k = Inr y"
  by simp

text \<open>A loop whose body only raises: the first element that raises decides.\<close>

fun check_each :: "('a \<Rightarrow> unit result) \<Rightarrow> 'a list \<Rightarrow> unit result" where
  "check_each f [] = Inr ()"
| "check_each f (x # xs) = seq (f x) (check_each f xs)"

lemma check_each_ok [simp]: "check_each f xs = Inr u \<longleftrightarrow> (\<forall>x \<in> set xs. f x = Inr ())"
  by (cases u, induction xs) auto

text \<open>A comprehension whose element expression may raise.\<close>

fun map_result :: "('a \<Rightarrow> 'b result) \<Rightarrow> 'a list \<Rightarrow> 'b list result" where
  "map_result f [] = Inr []"
| "map_result f (x # xs) = bnd (f x) (\<lambda>y. bnd (map_result f xs) (\<lambda>ys. Inr (y # ys)))"

lemma map_result_ok: "map_result f xs = Inr ys \<longleftrightarrow> list_all2 (\<lambda>x y. f x = Inr y) xs ys"
  by (induction xs arbitrary: ys) (auto simp: list_all2_Cons1)

lemma map_result_total:
  "(\<And>x. x \<in> set xs \<Longrightarrow> f x = Inr (g x)) \<Longrightarrow> map_result f xs = Inr (map g xs)"
  by (induction xs) auto

text \<open>\<open>x is not None and P(x)\<close>\<close>

definition is_some_and :: "'a option \<Rightarrow> ('a \<Rightarrow> bool) \<Rightarrow> bool" where
  "is_some_and x P = (case x of None \<Rightarrow> False | Some v \<Rightarrow> P v)"

lemma is_some_and_iff [simp]: "is_some_and x P \<longleftrightarrow> (\<exists>v. x = Some v \<and> P v)"
  by (cases x) (simp_all add: is_some_and_def)

section \<open>Strings\<close>

text \<open>
  Python strings are modelled on the code points below 256. \<open>isspace\<close> and \<open>casefold\<close> follow
  the Unicode tables on that range; only U+00B5 folds outside it and is left as it is (no
  other character of the range folds to the same one).
\<close>

definition code_point :: "char \<Rightarrow> nat" where
  "code_point c = of_char c"

definition is_space :: "char \<Rightarrow> bool" where
  "is_space c = (let n = code_point c in
     (9 \<le> n \<and> n \<le> 13) \<or> (28 \<le> n \<and> n \<le> 32) \<or> n = 133 \<or> n = 160)"

definition str_strip :: "string \<Rightarrow> string" where
  "str_strip s = rev (dropWhile is_space (rev (dropWhile is_space s)))"

definition fold_char :: "char \<Rightarrow> string" where
  "fold_char c = (let n = code_point c in
     if (65 \<le> n \<and> n \<le> 90) \<or> (192 \<le> n \<and> n \<le> 222 \<and> n \<noteq> 215) then [char_of (n + 32)]
     else if n = 223 then ''ss''
     else [c])"

definition str_casefold :: "string \<Rightarrow> string" where
  "str_casefold s = concat (map fold_char s)"

text \<open>\<open>not value.strip()\<close>: the string is empty or all blanks.\<close>

definition blank :: "string \<Rightarrow> bool" where
  "blank s = (str_strip s = [])"

text \<open>\<open>value == value.strip()\<close>: no leading or trailing blanks.\<close>

definition unpadded :: "string \<Rightarrow> bool" where
  "unpadded s = (s = str_strip s)"

lemma blank_iff: "blank s \<longleftrightarrow> (\<forall>c \<in> set s. is_space c)"
proof -
  have "dropWhile is_space (rev (dropWhile is_space s)) = [] \<longleftrightarrow>
      (\<forall>c \<in> set (dropWhile is_space s). is_space c)"
    by (simp add: dropWhile_eq_Nil_conv)
  also have "\<dots> \<longleftrightarrow> (\<forall>c \<in> set s. is_space c)"
  proof
    assume all: "\<forall>c \<in> set (dropWhile is_space s). is_space c"
    have "dropWhile is_space s = []"
    proof (rule ccontr)
      assume ne: "dropWhile is_space s \<noteq> []"
      then have "\<not> is_space (hd (dropWhile is_space s))" by (rule hd_dropWhile)
      with all ne show False by simp
    qed
    then show "\<forall>c \<in> set s. is_space c" by (simp add: dropWhile_eq_Nil_conv)
  qed (meson set_dropWhileD)
  finally show ?thesis by (simp add: blank_def str_strip_def)
qed

lemma blank_Nil [simp]: "blank []"
  by (simp add: blank_iff)

lemma not_blank_nonempty: "\<not> blank s \<Longrightarrow> s \<noteq> []"
  by auto

section \<open>Decimal numerals\<close>

text \<open>\<open>str(n)\<close> and \<open>f"{n:03d}"\<close> of a natural number.\<close>

fun dec_digits :: "nat \<Rightarrow> string" where
  "dec_digits n = (if n < 10 then [char_of (48 + n)]
     else dec_digits (n div 10) @ [char_of (48 + n mod 10)])"

declare dec_digits.simps [simp del]

lemma dec_digits_nonempty [simp]: "dec_digits n \<noteq> []"
  by (simp add: dec_digits.simps [of n])

lemma dec_digits_hd: "0 < n \<Longrightarrow> hd (dec_digits n) \<noteq> CHR ''0''"
proof (induction n rule: dec_digits.induct)
  case (1 n)
  show ?case
  proof (cases "n < 10")
    case True
    have "char_of (48 + n) \<noteq> CHR ''0''"
    proof
      assume "char_of (48 + n) = CHR ''0''"
      then have "(of_char (char_of (48 + n)) :: nat) = of_char (CHR ''0'')" by simp
      with True 1 show False by (simp add: of_char_of)
    qed
    with True show ?thesis by (simp add: dec_digits.simps [of n])
  next
    case False
    with 1 show ?thesis by (simp add: dec_digits.simps [of n] dec_digits_nonempty)
  qed
qed

definition zero_pad :: "nat \<Rightarrow> string \<Rightarrow> string" where
  "zero_pad w s = replicate (w - length s) (CHR ''0'') @ s"

definition dec_value :: "string \<Rightarrow> nat" where
  "dec_value s = foldl (\<lambda>a c. 10 * a + (of_char c - 48)) 0 s"

lemma dec_value_snoc: "dec_value (s @ [c]) = 10 * dec_value s + (of_char c - 48)"
  by (simp add: dec_value_def)

lemma dec_value_digits [simp]: "dec_value (dec_digits n) = n"
proof (induction n rule: dec_digits.induct)
  case (1 n)
  show ?case
  proof (cases "n < 10")
    case True
    then show ?thesis
      by (simp add: dec_digits.simps [of n] dec_value_def of_char_of)
  next
    case False
    with 1 show ?thesis
      by (simp add: dec_digits.simps [of n] dec_value_snoc of_char_of)
  qed
qed

lemma dec_value_zero_pad [simp]: "dec_value (zero_pad w s) = dec_value s"
proof -
  have "foldl (\<lambda>a c. 10 * a + (of_char c - 48)) 0 (replicate n (CHR ''0'')) = (0::nat)" for n
    by (induction n) auto
  then show ?thesis by (simp add: dec_value_def zero_pad_def)
qed

lemma zero_pad_digits_inject [simp]:
  "zero_pad w (dec_digits m) = zero_pad w (dec_digits n) \<longleftrightarrow> m = n"
  by (metis dec_value_digits dec_value_zero_pad)

section \<open>Datetimes\<close>

text \<open>
  A \<open>datetime\<close> is its wall clock in microseconds since the epoch and its UTC offset
  (\<open>None\<close> for a naive datetime). Aware datetimes compare by instant. The range limits of
  \<open>datetime\<close> (years 1 to 9999) are not modelled; a \<open>timedelta\<close> is an integer number of
  microseconds.
\<close>

record datetime =
  wall :: int
  utcoffset :: "int option"

definition instant :: "datetime \<Rightarrow> int" where
  "instant d = wall d - (case utcoffset d of None \<Rightarrow> 0 | Some off \<Rightarrow> off)"

definition utc :: "int \<Rightarrow> datetime" where
  "utc t = \<lparr>wall = t, utcoffset = Some 0\<rparr>"

definition is_utc :: "datetime \<Rightarrow> bool" where
  "is_utc d = (utcoffset d = Some 0)"

definition add_delta :: "datetime \<Rightarrow> int \<Rightarrow> datetime" where
  "add_delta d delta = d\<lparr>wall := wall d + delta\<rparr>"

definition microsecond :: "datetime \<Rightarrow> int" where
  "microsecond d = wall d mod 1000000"

definition ms_aligned :: "datetime \<Rightarrow> bool" where
  "ms_aligned d = (microsecond d mod 1000 = 0)"

text \<open>\<open>value.astimezone(UTC)\<close> on an aware datetime.\<close>

definition astimezone_utc :: "datetime \<Rightarrow> datetime" where
  "astimezone_utc d = utc (instant d)"

text \<open>\<open>isoformat(timespec="milliseconds")\<close> keeps the millisecond the datetime falls in.\<close>

definition truncate_ms :: "datetime \<Rightarrow> datetime" where
  "truncate_ms d = d\<lparr>wall := wall d - wall d mod 1000\<rparr>"

lemma instant_utc [simp]: "instant (utc t) = t"
  by (simp add: instant_def utc_def)

lemma is_utc_utc [simp]: "is_utc (utc t)"
  by (simp add: is_utc_def utc_def)

lemma utc_inject [simp]: "utc s = utc t \<longleftrightarrow> s = t"
  by (simp add: utc_def)

lemma utc_of_instant: "is_utc d \<Longrightarrow> utc (instant d) = d"
  by (cases d) (simp add: is_utc_def utc_def instant_def)

lemma astimezone_of_utc [simp]: "is_utc d \<Longrightarrow> astimezone_utc d = d"
  by (simp add: astimezone_utc_def utc_of_instant)

lemma instant_inject: "is_utc d \<Longrightarrow> is_utc d' \<Longrightarrow> instant d = instant d' \<longleftrightarrow> d = d'"
  by (metis utc_of_instant)

lemma instant_add_delta [simp]: "instant (add_delta d x) = instant d + x"
  by (simp add: instant_def add_delta_def)

lemma is_utc_add_delta [simp]: "is_utc (add_delta d x) \<longleftrightarrow> is_utc d"
  by (simp add: is_utc_def add_delta_def)

lemma ms_aligned_iff: "ms_aligned d \<longleftrightarrow> wall d mod 1000 = 0"
  by (simp add: ms_aligned_def microsecond_def mod_mod_cancel)

lemma ms_aligned_truncate [simp]: "ms_aligned (truncate_ms d)"
  by (simp add: ms_aligned_iff truncate_ms_def minus_mod_eq_mult_div)

lemma truncate_ms_id [simp]: "ms_aligned d \<Longrightarrow> truncate_ms d = d"
  by (simp add: ms_aligned_iff truncate_ms_def)

lemma is_utc_truncate [simp]: "is_utc (truncate_ms d) \<longleftrightarrow> is_utc d"
  by (simp add: is_utc_def truncate_ms_def)

lemma truncate_ms_mono:
  assumes "is_utc a" "is_utc b" "instant a \<le> instant b"
  shows "instant (truncate_ms a) \<le> instant (truncate_ms b)"
proof -
  have "wall a \<le> wall b" using assms by (simp add: is_utc_def instant_def)
  then have "1000 * (wall a div 1000) \<le> 1000 * (wall b div 1000)"
    by (simp add: zdiv_mono1)
  then show ?thesis
    using assms(1,2) by (simp add: is_utc_def instant_def truncate_ms_def minus_mod_eq_mult_div)
qed

text \<open>The check \<open>value.tzinfo is None\<close> / \<open>value.utcoffset() != timedelta(0)\<close> that every UTC
  validator performs, with the subject of its two messages.\<close>

definition require_utc :: "string \<Rightarrow> datetime \<Rightarrow> unit result" where
  "require_utc subject d =
     seq (raise_if (utcoffset d = None) (ValueError (subject @ '' must include timezone information'')))
         (raise_if (utcoffset d \<noteq> Some 0) (ValueError (subject @ '' must be UTC'')))"

lemma require_utc_ok [simp]: "require_utc subject d = Inr u \<longleftrightarrow> is_utc d"
  by (cases u) (auto simp: require_utc_def is_utc_def)

section \<open>Lists and sorting\<close>

text \<open>\<open>min(xs, key=f)\<close> on a non-empty list given as head and tail: the first least element.\<close>

fun min_key :: "('a \<Rightarrow> 'b::linorder) \<Rightarrow> 'a \<Rightarrow> 'a list \<Rightarrow> 'a" where
  "min_key f x [] = x"
| "min_key f x (y # ys) = min_key f (if f y < f x then y else x) ys"

lemma min_key_head: "\<forall>y \<in> set ys. f x \<le> f y \<Longrightarrow> min_key f x ys = x"
  by (induction ys) (auto simp: not_less)

lemma min_key_in: "min_key f x ys \<in> set (x # ys)"
  by (induction ys arbitrary: x) (auto split: if_splits)

lemma min_key_le: "y \<in> set (x # ys) \<Longrightarrow> f (min_key f x ys) \<le> f y"
proof (induction ys arbitrary: x y)
  case Nil
  then show ?case by simp
next
  case (Cons z zs)
  let ?h = "if f z < f x then z else x"
  have h: "f (min_key f ?h zs) \<le> f ?h" by (rule Cons.IH) simp
  show ?case
  proof (cases "y \<in> set zs")
    case True
    then have "f (min_key f ?h zs) \<le> f y" by (intro Cons.IH) simp
    then show ?thesis by simp
  next
    case False
    with Cons.prems have "f ?h \<le> f y" by auto
    with h show ?thesis by (auto intro: order_trans)
  qed
qed

text \<open>\<open>len(xs) != len(set(xs))\<close>, the duplicate test the code uses throughout.\<close>

definition has_duplicates :: "'a list \<Rightarrow> bool" where
  "has_duplicates xs = (length xs \<noteq> card (set xs))"

lemma has_duplicates_iff [simp]: "has_duplicates xs \<longleftrightarrow> \<not> distinct xs"
  unfolding has_duplicates_def by (metis card_distinct distinct_card)

lemma sorted_le_last: "sorted xs \<Longrightarrow> y \<in> set xs \<Longrightarrow> y \<le> last xs"
  by (induction xs) auto

lemma strict_sorted_snoc:
  fixes x :: "'a::linorder"
  shows "sorted_wrt (<) (xs @ [x]) \<longleftrightarrow> sorted_wrt (<) xs \<and> (xs \<noteq> [] \<longrightarrow> last xs < x)"
proof (cases "xs = []")
  case False
  have "y < x" if "sorted_wrt (<) xs" "last xs < x" "y \<in> set xs" for y
    using that sorted_le_last [OF strict_sorted_imp_sorted] by (meson le_less_trans)
  with False show ?thesis by (auto simp: sorted_wrt_append)
qed simp

lemma dropWhile_eq_filter_sorted:
  fixes f :: "'a \<Rightarrow> int"
  shows "sorted (map f xs) \<Longrightarrow> dropWhile (\<lambda>x. f x < c) xs = filter (\<lambda>x. c \<le> f x) xs"
proof (induction xs)
  case Nil
  then show ?case by simp
next
  case (Cons x xs)
  show ?case
  proof (cases "f x < c")
    case True
    with Cons show ?thesis by auto
  next
    case False
    with Cons.prems have "filter (\<lambda>x. c \<le> f x) xs = xs"
      by (intro filter_True) fastforce
    with False show ?thesis by auto
  qed
qed

lemma takeWhile_eq_filter_sorted:
  fixes f :: "'a \<Rightarrow> int"
  shows "sorted (map f xs) \<Longrightarrow> takeWhile (\<lambda>x. f x \<le> c) xs = filter (\<lambda>x. f x \<le> c) xs"
proof (induction xs)
  case Nil
  then show ?case by simp
next
  case (Cons x xs)
  show ?case
  proof (cases "f x \<le> c")
    case True
    with Cons show ?thesis by simp
  next
    case False
    with Cons.prems have "filter (\<lambda>x. f x \<le> c) xs = []"
      by (intro filter_False) fastforce
    with False show ?thesis by auto
  qed
qed

text \<open>
  \<open>sorted(batch, key=...)\<close> with a key that tells the elements apart gives the same list for
  every order of the batch.
\<close>

lemma filter_key_eq_replicate:
  assumes "inj_on f (set xs)" "k \<in> set xs"
  shows "filter (\<lambda>x. f k = f x) xs = replicate (count (mset xs) k) k"
proof -
  have "filter (\<lambda>x. f k = f x) xs = filter (HOL.eq k) xs"
    using assms by (intro filter_cong) (auto simp: inj_on_def)
  then show ?thesis by (simp add: replicate_count_mset_eq_filter_eq)
qed

lemma dropWhile_sorted_gt:
  fixes f :: "'a \<Rightarrow> int"
  shows "sorted (map f xs) \<Longrightarrow> x \<in> set (dropWhile (\<lambda>x. f x \<le> c) xs) \<Longrightarrow> c < f x"
  by (induction xs) (fastforce split: if_splits)+

lemma sort_key_perm_eq:
  assumes "mset xs = mset ys" "inj_on f (set xs)"
  shows "sort_key f xs = sort_key f ys"
proof (rule properties_for_sort_key)
  have same: "set xs = set ys" using assms(1) by (rule mset_eq_setD)
  fix k assume "k \<in> set (sort_key f ys)"
  then have k: "k \<in> set ys" by simp
  have "filter (\<lambda>x. f k = f x) (sort_key f ys) = filter (\<lambda>x. f k = f x) ys"
    unfolding eq_commute [of "f k"] by (rule sort_key_stable)
  also have "\<dots> = filter (\<lambda>x. f k = f x) xs"
    using k same assms by (simp add: filter_key_eq_replicate)
  finally show "filter (\<lambda>x. f k = f x) (sort_key f ys) = filter (\<lambda>x. f k = f x) xs" .
qed (use assms(1) in auto)

end
