(* ===== verification/Floats.thy ===== *)
theory Floats
  imports Prelude
begin

text \<open>
  Python floats as far as the engine uses them: comparisons (false on a NaN), the
  finiteness test, the correctly rounded quotient of two integers (\<open>int / int\<close>), and
  \<open>timedelta(seconds=x)\<close>. A finite float is the rational number it denotes.
\<close>

section \<open>Values and comparisons\<close>

datatype py_float = Finite rat | PosInf | NegInf | NaN

fun isfinite :: "py_float \<Rightarrow> bool" where
  "isfinite (Finite q) = True"
| "isfinite _ = False"

fun fle :: "py_float \<Rightarrow> py_float \<Rightarrow> bool" where
  "fle NaN y = False"
| "fle x NaN = False"
| "fle (Finite a) (Finite b) = (a \<le> b)"
| "fle NegInf y = True"
| "fle x PosInf = True"
| "fle x y = False"

fun flt :: "py_float \<Rightarrow> py_float \<Rightarrow> bool" where
  "flt NaN y = False"
| "flt x NaN = False"
| "flt (Finite a) (Finite b) = (a < b)"
| "flt NegInf NegInf = False"
| "flt NegInf y = True"
| "flt PosInf y = False"
| "flt x PosInf = True"
| "flt (Finite a) NegInf = False"

text \<open>\<open>==\<close> on floats: a NaN is not equal to itself.\<close>

definition feq :: "py_float \<Rightarrow> py_float \<Rightarrow> bool" where
  "feq x y = (x \<noteq> NaN \<and> x = y)"

text \<open>\<open>0.0 <= x <= 1.0\<close>\<close>

definition in_unit :: "py_float \<Rightarrow> bool" where
  "in_unit x = (fle (Finite 0) x \<and> fle x (Finite 1))"

lemma in_unit_Finite: "in_unit x \<longleftrightarrow> (\<exists>q. x = Finite q \<and> 0 \<le> q \<and> q \<le> 1)"
  by (cases x) (auto simp: in_unit_def)

lemma fle_Finite_trans: "fle (Finite a) x \<Longrightarrow> fle x (Finite b) \<Longrightarrow> a \<le> b"
  by (cases x) auto

section \<open>The quotient of two integers\<close>

text \<open>
  CPython computes \<open>n / d\<close> on integers as the double nearest to the exact quotient, ties to
  an even significand. The quotient is scaled by a power of two into \<open>[1, 2)\<close>, its 53-bit
  significand rounded, and scaled back. Overflow and subnormal results do not occur for the
  counts the engine divides.
\<close>

definition round_half_even :: "nat \<Rightarrow> nat \<Rightarrow> nat" where
  "round_half_even a b = (let q = a div b; r = a mod b in
     if 2 * r < b then q else if b < 2 * r then q + 1 else if even q then q else q + 1)"

function scale_up :: "nat \<Rightarrow> nat \<Rightarrow> nat" where
  "scale_up n d = (if n = 0 \<or> d \<le> n then 0 else Suc (scale_up (2 * n) d))"
  by pat_completeness auto
termination
  by (relation "measure (\<lambda>(n, d). d - n)") auto

function scale_down :: "nat \<Rightarrow> nat \<Rightarrow> nat" where
  "scale_down n d = (if d = 0 \<or> n < 2 * d then 0 else Suc (scale_down n (2 * d)))"
  by pat_completeness auto
termination
  by (relation "measure (\<lambda>(n, d). n - d)") auto

declare scale_up.simps [simp del] scale_down.simps [simp del]

definition true_div :: "nat \<Rightarrow> nat \<Rightarrow> rat" where
  "true_div n d = (if n = 0 then 0 else
     let k = scale_up n d; j = scale_down n d;
         m = round_half_even (n * 2 ^ (52 + k)) (d * 2 ^ j)
     in of_nat m * 2 ^ j / 2 ^ (52 + k))"

lemma round_half_even_le:
  assumes "0 < b" "a \<le> c * b"
  shows "round_half_even a b \<le> c"
proof -
  have le: "a div b \<le> c" using assms by (metis div_le_mono div_mult_self_is_m)
  show ?thesis
  proof (cases "a div b = c")
    case True
    with assms have "a mod b = 0"
      by (metis add_diff_cancel_left' diff_is_0_eq div_mult_mod_eq)
    with True assms(1) show ?thesis by (simp add: round_half_even_def Let_def)
  next
    case False
    with le show ?thesis by (simp add: round_half_even_def Let_def)
  qed
qed

lemma round_half_even_ge:
  assumes "0 < b" "c * b \<le> a"
  shows "c \<le> round_half_even a b"
proof -
  have "c \<le> a div b" using assms by (metis div_le_mono div_mult_self_is_m)
  then show ?thesis by (simp add: round_half_even_def Let_def)
qed

lemma round_half_even_mono:
  assumes "0 < b" "a \<le> a'"
  shows "round_half_even a b \<le> round_half_even a' b"
proof (cases "a div b = a' div b")
  case True
  then have "a mod b \<le> a' mod b" using assms
    by (metis add_le_cancel_left div_mult_mod_eq)
  with True show ?thesis by (simp add: round_half_even_def Let_def)
next
  case False
  with assms have less: "a div b < a' div b" by (metis div_le_mono le_neq_implies_less)
  have "round_half_even a b \<le> a div b + 1" by (simp add: round_half_even_def Let_def)
  also have "\<dots> \<le> a' div b" using less by simp
  also have "\<dots> \<le> round_half_even a' b" by (simp add: round_half_even_def Let_def)
  finally show ?thesis .
qed

lemma round_half_even_exact [simp]: "0 < b \<Longrightarrow> round_half_even (c * b) b = c"
  by (simp add: round_half_even_def Let_def)

lemma scale_up_lower: "0 < n \<Longrightarrow> d \<le> n * 2 ^ scale_up n d"
proof (induction n d rule: scale_up.induct)
  case (1 n d)
  show ?case
  proof (cases "d \<le> n")
    case True
    then show ?thesis by (simp add: scale_up.simps [of n d])
  next
    case False
    with 1 have "d \<le> 2 * n * 2 ^ scale_up (2 * n) d" by auto
    with False 1 show ?thesis by (simp add: scale_up.simps [of n d] mult_ac)
  qed
qed

lemma scale_up_upper: "0 < n \<Longrightarrow> n \<le> d \<Longrightarrow> n * 2 ^ scale_up n d < 2 * d"
proof (induction n d rule: scale_up.induct)
  case (1 n d)
  show ?case
  proof (cases "d \<le> n")
    case True
    with 1 show ?thesis by (auto simp: scale_up.simps [of d d])
  next
    case False
    show ?thesis
    proof (cases "2 * n \<le> d")
      case True
      with False 1 have "2 * n * 2 ^ scale_up (2 * n) d < 2 * d" by auto
      with False 1 show ?thesis by (simp add: scale_up.simps [of n d] mult_ac)
    next
      case gt: False
      with False 1 show ?thesis
        by (simp add: scale_up.simps [of n d] scale_up.simps [of "2 * n" d])
    qed
  qed
qed

lemma scale_down_small [simp]: "n < 2 * d \<Longrightarrow> scale_down n d = 0"
  by (simp add: scale_down.simps)

lemma scale_up_large [simp]: "d \<le> n \<Longrightarrow> scale_up n d = 0"
  by (simp add: scale_up.simps)

lemma true_div_0 [simp]: "true_div 0 d = 0"
  by (simp add: true_div_def)

lemma true_div_self: "0 < n \<Longrightarrow> true_div n n = 1"
  by (simp add: true_div_def mult.commute [of n])

text \<open>The quotient of a part by its whole lies in the unit interval and is positive for a
  non-empty part, rounding included.\<close>

lemma true_div_part:
  assumes "0 < n" "n \<le> d"
  shows "true_div n d = of_nat (round_half_even (n * 2 ^ (52 + scale_up n d)) d) / 2 ^ (52 + scale_up n d)"
  using assms by (simp add: true_div_def Let_def)

lemma true_div_nonneg: "0 \<le> true_div n d"
  by (simp add: true_div_def Let_def)

lemma true_div_le_1:
  assumes "n \<le> d"
  shows "true_div n d \<le> 1"
proof (cases "n = 0")
  case True
  then show ?thesis by simp
next
  case False
  show ?thesis
  proof (cases "n = d")
    case True
    with False show ?thesis by (simp add: true_div_self)
  next
    case neq: False
    with assms have nd: "n < d" by simp
    define k where "k = scale_up n d"
    have "k \<noteq> 0" using False nd by (simp add: k_def scale_up.simps [of n d])
    then obtain k' where k': "k = Suc k'" by (cases k) auto
    have "n * 2 ^ k < 2 * d" using False assms by (simp add: k_def scale_up_upper)
    then have "n * 2 ^ k' \<le> d" by (simp add: k')
    then have "n * 2 ^ k' * 2 ^ 53 \<le> d * 2 ^ 53" by (rule mult_le_mono1)
    then have "n * 2 ^ (52 + k) \<le> 2 ^ 53 * d"
      by (simp add: k' power_add mult_ac)
    then have "round_half_even (n * 2 ^ (52 + k)) d \<le> 2 ^ 53"
      using nd by (intro round_half_even_le) auto
    also have "(2::nat) ^ 53 \<le> 2 ^ (52 + k)"
      using k' by (intro power_increasing) auto
    finally have "of_nat (round_half_even (n * 2 ^ (52 + k)) d) \<le> (2 ^ (52 + k) :: rat)"
      by (metis of_nat_le_iff of_nat_numeral of_nat_power)
    then show ?thesis using False assms by (simp add: true_div_part k_def)
  qed
qed

lemma true_div_pos:
  assumes "0 < n" "n \<le> d"
  shows "0 < true_div n d"
proof -
  let ?k = "scale_up n d"
  have "d \<le> n * 2 ^ ?k" using assms by (simp add: scale_up_lower)
  then have "2 ^ 52 * d \<le> 2 ^ 52 * (n * 2 ^ ?k)" by (rule mult_le_mono2)
  then have "2 ^ 52 * d \<le> n * 2 ^ (52 + ?k)" by (simp add: power_add mult_ac)
  then have "2 ^ 52 \<le> round_half_even (n * 2 ^ (52 + ?k)) d"
    using assms by (intro round_half_even_ge) auto
  then have "0 < round_half_even (n * 2 ^ (52 + ?k)) d"
    by (rule less_le_trans [rotated]) simp
  then show ?thesis using assms by (simp add: true_div_part)
qed

text \<open>More parts never lower the quotient, whatever binade the two quotients fall in.\<close>

lemma true_div_mono:
  assumes "n \<le> n'" "n' \<le> d"
  shows "true_div n d \<le> true_div n' d"
proof (cases "n = 0")
  case True
  then show ?thesis by (simp add: true_div_nonneg)
next
  case False
  let ?k = "scale_up n d" and ?k' = "scale_up n' d"
  have pos: "0 < n" "0 < n'" "0 < d" using False assms by auto
  have up: "n * 2 ^ ?k < 2 * d" using pos assms by (simp add: scale_up_upper)
  have lo': "d \<le> n' * 2 ^ ?k'" using pos by (simp add: scale_up_lower)
  let ?m = "round_half_even (n * 2 ^ (52 + ?k)) d"
  let ?m' = "round_half_even (n' * 2 ^ (52 + ?k')) d"
  have le: "?m * 2 ^ ?k' \<le> ?m' * 2 ^ ?k"
  proof (cases "?k \<le> ?k'")
    case True
    have "?k = ?k'"
    proof (rule ccontr)
      assume "?k \<noteq> ?k'"
      with True obtain i where i: "?k' = Suc (?k + i)" using less_imp_Suc_add by fastforce
      have "d \<le> n * 2 ^ ?k" using pos by (simp add: scale_up_lower)
      also have "\<dots> \<le> n' * 2 ^ (?k + i)" using assms by (intro mult_le_mono) (auto intro: power_increasing)
      finally have "2 * d \<le> n' * 2 ^ ?k'" by (simp add: i)
      moreover have "n' * 2 ^ ?k' < 2 * d" using pos assms by (simp add: scale_up_upper)
      ultimately show False by simp
    qed
    then show ?thesis using assms pos by (auto intro!: mult_le_mono1 round_half_even_mono)
  next
    case False
    then obtain i where i: "?k = Suc (?k' + i)" using less_imp_Suc_add by fastforce
    have "n * 2 ^ (52 + ?k) \<le> 2 ^ 53 * d"
      using up by (simp add: power_add mult_ac)
    then have m: "?m \<le> 2 ^ 53" using pos by (intro round_half_even_le) auto
    have "2 ^ 52 * d \<le> n' * 2 ^ (52 + ?k')"
      using lo' by (simp add: power_add mult_ac)
    then have m': "2 ^ 52 \<le> ?m'" using pos by (intro round_half_even_ge) auto
    have "?m * 2 ^ ?k' \<le> 2 ^ 53 * 2 ^ ?k'" using m by (rule mult_le_mono1)
    also have "\<dots> \<le> 2 ^ 52 * 2 ^ ?k" by (simp add: i power_add)
    also have "\<dots> \<le> ?m' * 2 ^ ?k" using m' by (rule mult_le_mono1)
    finally show ?thesis .
  qed
  have "of_nat (?m * 2 ^ ?k') \<le> (of_nat (?m' * 2 ^ ?k) :: rat)"
    using le by (rule of_nat_mono)
  then have "of_nat ?m / 2 ^ (52 + ?k) \<le> (of_nat ?m' / 2 ^ (52 + ?k') :: rat)"
    by (simp add: power_add field_simps)
  then show ?thesis using pos assms by (simp add: true_div_part)
qed

lemma scale_down_lower: "0 < d \<Longrightarrow> d \<le> n \<Longrightarrow> d * 2 ^ scale_down n d \<le> n"
proof (induction n d rule: scale_down.induct)
  case (1 n d)
  show ?case
  proof (cases "n < 2 * d")
    case True
    with 1 show ?thesis by simp
  next
    case False
    with 1 show ?thesis by (simp add: scale_down.simps [of n d] mult_ac)
  qed
qed

lemma round_half_even_near:
  assumes "0 < b"
  shows "2 * a \<le> 2 * (round_half_even a b * b) + b \<and> 2 * (round_half_even a b * b) \<le> 2 * a + b"
proof -
  define q r where "q = a div b" and "r = a mod b"
  have "a = q * b + r" "r < b" using assms by (simp_all add: q_def r_def)
  moreover have "round_half_even a b = (if 2 * r < b then q else if b < 2 * r then q + 1
      else if even q then q else q + 1)"
    by (simp add: round_half_even_def Let_def q_def r_def)
  ultimately show ?thesis by (auto simp: distrib_right)
qed

lemma twice_abs_diff_le: "2 * x \<le> 2 * y + b \<Longrightarrow> 2 * y \<le> 2 * x + b \<Longrightarrow> 2 * \<bar>y - x\<bar> \<le> b"
  for x y b :: rat
  by (simp add: abs_if)

text \<open>The relative error of the quotient is at most \<open>2 ^ -53\<close>.\<close>

lemma true_div_error:
  assumes "0 < d"
  shows "\<bar>true_div n d * of_nat d - of_nat n\<bar> * 2 ^ 53 \<le> of_nat n"
proof (cases "n = 0")
  case True
  then show ?thesis by simp
next
  case False
  define k where "k = scale_up n d"
  define j where "j = scale_down n d"
  let ?a = "n * 2 ^ (52 + k)" and ?b = "d * 2 ^ j"
  let ?m = "round_half_even ?a ?b"
  have pos: "0 < ?b" using assms by simp
  have bound: "?b \<le> n * 2 ^ k"
  proof (cases "d \<le> n")
    case True
    then show ?thesis using scale_down_lower [OF assms True] by (simp add: k_def j_def)
  next
    case False
    then have "n < 2 * d" by simp
    with \<open>n \<noteq> 0\<close> show ?thesis using scale_up_lower [of n d] by (simp add: k_def j_def)
  qed
  have lift: "2 * x \<le> 2 * (m * b) + b \<Longrightarrow> 2 * of_nat x \<le> (2 * (of_nat m * of_nat b) + of_nat b :: rat)"
      "2 * (m * b) \<le> 2 * x + b \<Longrightarrow> 2 * (of_nat m * of_nat b) \<le> (2 * of_nat x + of_nat b :: rat)"
    for x m b :: nat
    by (metis of_nat_add of_nat_mult of_nat_numeral of_nat_le_iff)+
  have "2 * of_nat ?a \<le> (2 * (of_nat ?m * of_nat ?b) + of_nat ?b :: rat)"
    "2 * (of_nat ?m * of_nat ?b) \<le> (2 * of_nat ?a + of_nat ?b :: rat)"
    using round_half_even_near [OF pos, of ?a] lift by blast+
  then have near: "2 * \<bar>of_nat ?m * of_nat ?b - of_nat ?a\<bar> \<le> (of_nat ?b :: rat)"
    by (rule twice_abs_diff_le)
  have eq: "true_div n d * of_nat d - of_nat n = (of_nat ?m * of_nat ?b - of_nat ?a) / 2 ^ (52 + k)"
    using False by (simp add: true_div_def k_def j_def Let_def field_simps)
  have "\<bar>true_div n d * of_nat d - of_nat n\<bar> * 2 ^ 53
      = 2 * \<bar>of_nat ?m * of_nat ?b - of_nat ?a\<bar> / 2 ^ k"
    unfolding eq abs_divide by (simp add: power_add)
  also have "\<dots> \<le> of_nat ?b / 2 ^ k" using near by (intro divide_right_mono) auto
  also have "\<dots> \<le> of_nat n"
  proof -
    have "of_nat ?b \<le> (of_nat (n * 2 ^ k) :: rat)" using bound by (rule of_nat_mono)
    then show ?thesis by (simp add: pos_divide_le_eq)
  qed
  finally show ?thesis .
qed

section \<open>Durations\<close>

text \<open>
  \<open>timedelta(seconds=x)\<close> for a finite \<open>x \<ge> 0\<close>: the whole seconds, and the double product of the
  fractional part with 10^6 rounded to the nearest microsecond, ties to even. \<open>None\<close> is the
  \<open>OverflowError\<close> beyond 999999999 days.
\<close>

definition day_us :: int where
  "day_us = 86400 * 1000000"

definition round_rat :: "rat \<Rightarrow> int" where
  "round_rat q = (let n = floor q; r = q - of_int n in
     if r < 1/2 then n else if 1/2 < r then n + 1 else if even n then n else n + 1)"

definition fraction_us :: "rat \<Rightarrow> rat" where
  "fraction_us f = (case quotient_of f of (a, b) \<Rightarrow> true_div (nat (1000000 * a)) (nat b))"

definition timedelta_seconds :: "rat \<Rightarrow> int option" where
  "timedelta_seconds q = (let us = floor q * 1000000 + round_rat (fraction_us (q - of_int (floor q))) in
     if us < 1000000000 * day_us then Some us else None)"

text \<open>
  \<open>Decimal(str(x)) * 1000\<close> is integral. \<open>str\<close> prints the shortest decimal that reads back as
  \<open>x\<close>; it has at most three fractional digits iff some multiple of 1/1000 reads back as \<open>x\<close>,
  and then the nearest one does.
\<close>

definition str_ms_aligned :: "rat \<Rightarrow> bool" where
  "str_ms_aligned q = (true_div (nat (round_rat (q * 1000))) 1000 = q)"

lemma round_rat_near: "\<bar>q - of_int n\<bar> < 1/2 \<Longrightarrow> round_rat q = n"
proof -
  assume near: "\<bar>q - of_int n\<bar> < 1/2"
  show ?thesis
  proof (cases "of_int n \<le> q")
    case True
    moreover from this near have "q - of_int n < 1/2" by linarith
    ultimately have "floor q = n" by (intro floor_unique) linarith+
    with \<open>q - of_int n < 1/2\<close> show ?thesis by (simp add: round_rat_def Let_def)
  next
    case False
    with near have gt: "of_int n - q < 1/2" by linarith
    with False have "floor q = n - 1" by (intro floor_unique) simp_all
    moreover have "1/2 < q - of_int (n - 1)" using gt by simp
    ultimately show ?thesis by (simp add: round_rat_def Let_def)
  qed
qed

lemma round_rat_add_int: "even n \<Longrightarrow> round_rat (of_int n + q) = n + round_rat q"
  by (simp add: round_rat_def Let_def)

lemma fraction_us_error:
  assumes "0 \<le> f" "f < 1"
  shows "\<bar>fraction_us f - 1000000 * f\<bar> < 1/8"
proof -
  obtain a b where ab: "quotient_of f = (a, b)" by (cases "quotient_of f") auto
  then have b: "0 < b" and f: "f = of_int a / of_int b"
    using quotient_of_denom_pos quotient_of_div by auto
  have a: "0 \<le> a" "a < b" using assms b unfolding f by (simp_all add: zero_le_divide_iff divide_less_eq)
  let ?t = "true_div (nat (1000000 * a)) (nat b)"
  have err: "\<bar>?t * of_int b - 1000000 * of_int a\<bar> * 2 ^ 53 \<le> (1000000 * of_int a :: rat)"
    using true_div_error [of "nat b" "nat (1000000 * a)"] a b by simp
  have "?t * of_int b - 1000000 * of_int a = (?t - 1000000 * f) * of_int b"
    using b unfolding f by (simp add: field_simps)
  then have "\<bar>?t * of_int b - 1000000 * of_int a\<bar> = \<bar>?t - 1000000 * f\<bar> * of_int b"
    using b by (simp add: abs_mult)
  with err have "\<bar>?t - 1000000 * f\<bar> * of_int b * 2 ^ 53 \<le> 1000000 * of_int a" by simp
  also have "(1000000 * of_int a :: rat) < 1000000 * of_int b" using a by simp
  finally have "(\<bar>?t - 1000000 * f\<bar> * 2 ^ 53) * of_int b < 1000000 * of_int b" by (simp add: mult_ac)
  then have "\<bar>?t - 1000000 * f\<bar> * 2 ^ 53 < 1000000"
    by (rule mult_right_less_imp_less) (use b in simp)
  then show ?thesis by (simp add: fraction_us_def ab)
qed

lemma timedelta_seconds_ms:
  assumes "0 \<le> q" "q \<le> 1000000000" "str_ms_aligned q"
  shows "timedelta_seconds q = Some (1000 * round_rat (q * 1000))"
proof -
  define m where "m = round_rat (q * 1000)"
  have m: "0 \<le> m" "of_int m \<le> q * 1000 + 1"
    using assms(1) by (auto simp: m_def round_rat_def Let_def) linarith+
  have q: "q = true_div (nat m) 1000" using assms(3) by (simp add: str_ms_aligned_def m_def)
  have "\<bar>q * 1000 - of_int m\<bar> * 2 ^ 53 \<le> of_int m"
    using true_div_error [of 1000 "nat m"] m(1) by (simp add: q)
  then have err: "\<bar>1000000 * q - of_int (1000 * m)\<bar> < 1/4"
  proof -
    have "1000000 * q - of_int (1000 * m) = 1000 * (q * 1000 - of_int m)" by simp
    then have "\<bar>1000000 * q - of_int (1000 * m)\<bar> = 1000 * \<bar>q * 1000 - of_int m\<bar>"
      by (simp only: abs_mult abs_numeral)
    moreover have "(of_int m :: rat) \<le> 1000000000001" using m(2) assms(2) by linarith
    ultimately show ?thesis using \<open>\<bar>q * 1000 - of_int m\<bar> * 2 ^ 53 \<le> of_int m\<close> by simp
  qed
  let ?f = "q - of_int (floor q)"
  have "0 \<le> ?f" "?f < 1" by linarith+
  then have "\<bar>fraction_us ?f - 1000000 * ?f\<bar> < 1/8" by (rule fraction_us_error)
  moreover have "of_int (floor q * 1000000) + fraction_us ?f - of_int (1000 * m)
      = (fraction_us ?f - 1000000 * ?f) + (1000000 * q - of_int (1000 * m))"
    by (simp add: algebra_simps)
  ultimately have "\<bar>of_int (floor q * 1000000) + fraction_us ?f - of_int (1000 * m)\<bar> < 1/2"
    using err by (simp only:)
  then have "round_rat (of_int (floor q * 1000000) + fraction_us ?f) = 1000 * m" by (rule round_rat_near)
  then have "floor q * 1000000 + round_rat (fraction_us ?f) = 1000 * m"
    using round_rat_add_int [of "floor q * 1000000" "fraction_us ?f"] by simp
  moreover have "1000 * m < 1000000000 * day_us"
  proof -
    have "of_int m \<le> (1000000000001 :: rat)" using m(2) assms(2) by linarith
    then have "m \<le> 1000000000001" by (metis of_int_le_iff of_int_numeral)
    then show ?thesis by (simp add: day_us_def)
  qed
  ultimately show ?thesis by (simp add: timedelta_seconds_def Let_def m_def)
qed

end
