(* ===== verification/FusionModels.thy ===== *)
theory FusionModels
  imports Floats
begin

text \<open>
  The Evidence model and the Fusion result models (\<open>common/models/evidence.py\<close>,
  \<open>common/models/fusion.py\<close>): their data as records and their pydantic validators as
  fallible functions. A \<open>validate_\<dots>\<close> function takes the candidate field values and runs the
  field validators in field order, then the model validators; where pydantic reports every
  failing field at once, the model returns the error of the first.
\<close>

section \<open>Evidence\<close>

datatype source_layer = RawTelemetry | DetectorOutput | MixedLayers
datatype feature_channel = FusionFeature | DiagnosticOnly
datatype feature_value = FeatNone | FeatStr string | FeatInt int

record evidence =
  evd_id :: string
  evd_run_id :: string
  evd_timestamp :: datetime
  evd_entity_id :: string
  evd_type :: string
  evd_event_ids :: "string list"
  evd_source_layer :: source_layer
  evd_channel :: feature_channel
  evd_extractor_version :: string
  evd_technique_ids :: "string list"
  evd_features :: "(string \<times> feature_value) list"

text \<open>\<open>timestamp_must_be_utc\<close>, and the length constraint on \<open>event_ids\<close>.\<close>

definition timestamp_must_be_utc :: "datetime \<Rightarrow> datetime result" where
  "timestamp_must_be_utc d = seq (require_utc ''timestamp'' d) (Inr d)"

definition validate_evidence :: "evidence \<Rightarrow> evidence result" where
  "validate_evidence e =
     bnd (timestamp_must_be_utc (evd_timestamp e)) (\<lambda>t.
     seq (raise_if (evd_event_ids e = []) (ValueError ''event_ids min_length''))
     (Inr (e\<lparr>evd_timestamp := t\<rparr>)))"

lemma validate_evidence_ok [validity]:
  "validate_evidence e = Inr e' \<longleftrightarrow> e' = e \<and> is_utc (evd_timestamp e) \<and> evd_event_ids e \<noteq> []"
  by (auto simp: validate_evidence_def timestamp_must_be_utc_def)

section \<open>Shared helpers of the Fusion models\<close>

datatype detection_status = Detected | Miss | NotEvaluated
datatype fusion_end_reason = Released | RunEnd | ReplayEnd
datatype policy_state = Off | On

definition fusion_validate_utc_datetime :: "string \<Rightarrow> datetime option \<Rightarrow> datetime option result" where
  "fusion_validate_utc_datetime subject v = (case v of
     None \<Rightarrow> Inr None
   | Some d \<Rightarrow> seq (require_utc subject d) (Inr (Some (astimezone_utc d))))"

lemma fusion_validate_utc_datetime_ok [simp]:
  "fusion_validate_utc_datetime subject v = Inr v' \<longleftrightarrow> v' = v \<and> (\<forall>d. v = Some d \<longrightarrow> is_utc d)"
  by (cases v) (auto simp: fusion_validate_utc_datetime_def)

section \<open>Stopping traces\<close>

record trace_point =
  tp_timestamp :: datetime
  tp_score :: py_float
  tp_persistence :: "int option"
  tp_state :: policy_state

definition validate_trace_point :: "trace_point \<Rightarrow> trace_point result" where
  "validate_trace_point p =
     bnd (fusion_validate_utc_datetime ''FusionStoppingTracePoint timestamp'' (Some (tp_timestamp p))) (\<lambda>v.
     case v of None \<Rightarrow> Inl AssertionError | Some t \<Rightarrow>
     seq (raise_if (\<not> ms_aligned t)
       (ValueError ''FusionStoppingTracePoint timestamp must be aligned to millisecond precision''))
     (seq (raise_if (\<not> isfinite (tp_score p) \<or> \<not> in_unit (tp_score p)) (ValueError ''score''))
     (seq (raise_if (is_some_and (tp_persistence p) (\<lambda>n. n < 1)) (ValueError ''persistence_count''))
     (Inr (p\<lparr>tp_timestamp := t\<rparr>)))))"

lemma validate_trace_point_ok [validity]:
  "validate_trace_point p = Inr p' \<longleftrightarrow>
     p' = p \<and> is_utc (tp_timestamp p) \<and> ms_aligned (tp_timestamp p) \<and> in_unit (tp_score p)
     \<and> (\<forall>n. tp_persistence p = Some n \<longrightarrow> 1 \<le> n)"
  by (cases p) (auto simp: validate_trace_point_def in_unit_Finite not_less)

record stopping_trace =
  tr_run_id :: string
  tr_entity_id :: string
  tr_config_version :: string
  tr_points :: "trace_point list"

fun validate_point_timestamps :: "datetime option \<Rightarrow> trace_point list \<Rightarrow> unit result" where
  "validate_point_timestamps prev [] = Inr ()"
| "validate_point_timestamps prev (p # ps) =
     seq (raise_if (is_some_and prev (\<lambda>t. instant (tp_timestamp p) \<le> instant t))
       (ValueError ''FusionStoppingTrace point timestamps must be strictly increasing''))
     (validate_point_timestamps (Some (tp_timestamp p)) ps)"

definition validate_stopping_trace :: "stopping_trace \<Rightarrow> stopping_trace result" where
  "validate_stopping_trace t =
     seq (raise_if (tr_run_id t = []) (ValueError ''run_id min_length''))
     (seq (raise_if (tr_entity_id t = []) (ValueError ''entity_id min_length''))
     (seq (raise_if (tr_config_version t = []) (ValueError ''scoring_config_version min_length''))
     (seq (validate_point_timestamps None (tr_points t)) (Inr t))))"

lemma validate_point_timestamps_Some:
  "validate_point_timestamps (Some d) ps = Inr u \<longleftrightarrow>
     sorted_wrt (<) (instant d # map (instant \<circ> tp_timestamp) ps)"
proof (cases u, induction ps arbitrary: d)
  case Nil
  then show ?case by simp
next
  case (Cons p ps)
  then show ?case by (auto simp: not_le)
qed

lemma validate_point_timestamps_ok:
  "validate_point_timestamps None ps = Inr u \<longleftrightarrow> sorted_wrt (<) (map (instant \<circ> tp_timestamp) ps)"
  by (cases ps; cases u) (auto simp: validate_point_timestamps_Some)

lemma validate_stopping_trace_ok [validity]:
  "validate_stopping_trace t = Inr t' \<longleftrightarrow> t' = t \<and> tr_run_id t \<noteq> [] \<and> tr_entity_id t \<noteq> []
     \<and> tr_config_version t \<noteq> [] \<and> sorted_wrt (<) (map (instant \<circ> tp_timestamp) (tr_points t))"
  by (auto simp: validate_stopping_trace_def validate_point_timestamps_ok)

section \<open>Episodes\<close>

record episode_result =
  fer_id :: string
  fer_run_id :: string
  fer_entity_id :: string
  fer_start :: datetime
  fer_end :: "datetime option"
  fer_end_reason :: "fusion_end_reason option"
  fer_score_at_start :: py_float
  fer_peak :: py_float
  fer_evidence_ids :: "string list option"

definition validate_episode_contract :: "episode_result \<Rightarrow> unit result" where
  "validate_episode_contract e =
     raise_first
      [(fer_end e = None \<and> fer_end_reason e \<noteq> None,
          ValueError ''FusionEpisodeResult without end_time must not include end_reason''),
       (fer_end e \<noteq> None \<and> fer_end_reason e = None,
          ValueError ''FusionEpisodeResult with end_time must include end_reason''),
       (is_some_and (fer_end e) (\<lambda>t. instant t < instant (fer_start e)),
          ValueError ''FusionEpisodeResult end_time must not be earlier than start_time'')]"

definition validate_episode :: "episode_result \<Rightarrow> episode_result result" where
  "validate_episode e =
     seq (raise_if (fer_id e = []) (ValueError ''episode_id min_length''))
     (seq (raise_if (fer_run_id e = []) (ValueError ''run_id min_length''))
     (seq (raise_if (fer_entity_id e = []) (ValueError ''entity_id min_length''))
     (bnd (fusion_validate_utc_datetime ''FusionEpisode timestamp'' (Some (fer_start e))) (\<lambda>s.
     bnd (fusion_validate_utc_datetime ''FusionEpisode timestamp'' (fer_end e)) (\<lambda>t.
     seq (validate_episode_contract e) (Inr e))))))"

lemma validate_episode_ok [validity]:
  "validate_episode e = Inr e' \<longleftrightarrow> e' = e \<and> fer_id e \<noteq> [] \<and> fer_run_id e \<noteq> [] \<and> fer_entity_id e \<noteq> []
     \<and> is_utc (fer_start e) \<and> (fer_end e = None \<longleftrightarrow> fer_end_reason e = None)
     \<and> (\<forall>t. fer_end e = Some t \<longrightarrow> is_utc t \<and> instant (fer_start e) \<le> instant t)"
  by (auto simp: validate_episode_def validate_episode_contract_def not_less)

section \<open>Fusion results\<close>

record fusion_result =
  fr_run_id :: string
  fr_entity_id :: string
  fr_time :: "datetime option"
  fr_status :: detection_status
  fr_score :: "py_float option"
  fr_evidence_ids :: "string list"
  fr_config_version :: string
  fr_profile_id :: string
  fr_model_version :: "string option"
  fr_scoring_method :: string
  fr_scorer_version :: string
  fr_episodes :: "episode_result list"

definition first_episode :: "episode_result list \<Rightarrow> episode_result" where
  "first_episode es = min_key (\<lambda>e. instant (fer_start e)) (hd es) (tl es)"

definition validate_detected_contract :: "fusion_result \<Rightarrow> unit result" where
  "validate_detected_contract r = (case fr_time r of
     None \<Rightarrow> Inl (ValueError ''detected FusionResult must include fusion_time'')
   | Some ft \<Rightarrow>
     seq (raise_if (fr_episodes r = [])
       (ValueError ''detected FusionResult must include fusion_episodes''))
     (let first = first_episode (fr_episodes r) in
     seq (raise_if (instant ft \<noteq> instant (fer_start first))
       (ValueError ''detected FusionResult fusion_time must match the first FusionEpisode start_time''))
     (case fr_score r of
       None \<Rightarrow> Inl (ValueError ''detected FusionResult must include score_at_decision'')
     | Some sc \<Rightarrow>
       seq (raise_if (\<not> feq sc (fer_score_at_start first))
         (ValueError ''detected FusionResult score_at_decision must match the first FusionEpisode score_at_start''))
       (seq (raise_if (fr_evidence_ids r = [])
         (ValueError ''detected FusionResult must include contributing_evidence_ids''))
       (raise_if (is_some_and (fer_evidence_ids first) (\<lambda>ids. fr_evidence_ids r \<noteq> ids))
         (ValueError ''detected FusionResult contributing_evidence_ids must match the first FusionEpisode contributing_evidence_ids''))))))"

definition validate_status_contract :: "fusion_result \<Rightarrow> unit result" where
  "validate_status_contract r =
     seq (check_each (\<lambda>e.
       seq (raise_if (fer_run_id e \<noteq> fr_run_id r)
         (ValueError ''FusionEpisodeResult run_id must match FusionResult run_id''))
       (raise_if (fer_entity_id e \<noteq> fr_entity_id r)
         (ValueError ''FusionEpisodeResult entity_id must match FusionResult entity_id''))) (fr_episodes r))
     (seq (raise_if (has_duplicates (map fer_id (fr_episodes r)))
       (ValueError ''FusionEpisodeResult episode_id must be unique within FusionResult''))
     (case fr_status r of
       Detected \<Rightarrow> validate_detected_contract r
     | Miss \<Rightarrow>
         seq (raise_if (fr_time r \<noteq> None) (ValueError ''miss FusionResult must not include fusion_time''))
         (raise_if (fr_episodes r \<noteq> []) (ValueError ''miss FusionResult must not include fusion_episodes''))
     | NotEvaluated \<Rightarrow>
         seq (raise_if (fr_time r \<noteq> None)
           (ValueError ''not_evaluated FusionResult must not include fusion_time''))
         (seq (raise_if (fr_score r \<noteq> None)
           (ValueError ''not_evaluated FusionResult must not include score_at_decision''))
         (raise_if (fr_episodes r \<noteq> [])
           (ValueError ''not_evaluated FusionResult must not include fusion_episodes'')))))"

definition validate_fusion_result :: "fusion_result \<Rightarrow> fusion_result result" where
  "validate_fusion_result r =
     seq (raise_first
       [(fr_run_id r = [], ValueError ''run_id min_length''),
        (fr_entity_id r = [], ValueError ''entity_id min_length'')])
     (bnd (fusion_validate_utc_datetime ''fusion_time'' (fr_time r)) (\<lambda>t.
     seq (raise_first
       [(fr_config_version r = [], ValueError ''scoring_config_version min_length''),
        (fr_profile_id r = [], ValueError ''scoring_profile_id min_length''),
        (fr_model_version r = Some [], ValueError ''model_version min_length''),
        (fr_scoring_method r = [], ValueError ''scoring_method min_length''),
        (fr_scorer_version r = [], ValueError ''scorer_version min_length'')])
     (bnd (map_result validate_episode (fr_episodes r)) (\<lambda>es.
     seq (validate_status_contract r) (Inr r)))))"

text \<open>What the Fusion result contract promises its readers.\<close>

definition detected_contract :: "fusion_result \<Rightarrow> bool" where
  "detected_contract r = (case (fr_time r, fr_score r) of
     (Some ft, Some sc) \<Rightarrow> fr_episodes r \<noteq> [] \<and>
       (let first = first_episode (fr_episodes r) in
         instant ft = instant (fer_start first) \<and> feq sc (fer_score_at_start first)
         \<and> fr_evidence_ids r \<noteq> []
         \<and> (\<forall>ids. fer_evidence_ids first = Some ids \<longrightarrow> fr_evidence_ids r = ids))
   | _ \<Rightarrow> False)"

definition fusion_contract :: "fusion_result \<Rightarrow> bool" where
  "fusion_contract r \<longleftrightarrow>
     (\<forall>e \<in> set (fr_episodes r). fer_run_id e = fr_run_id r \<and> fer_entity_id e = fr_entity_id r)
     \<and> distinct (map fer_id (fr_episodes r))
     \<and> (fr_status r = Detected \<longrightarrow> detected_contract r)
     \<and> (fr_status r \<noteq> Detected \<longrightarrow> fr_time r = None \<and> fr_episodes r = [])
     \<and> (fr_status r = NotEvaluated \<longrightarrow> fr_score r = None)"

definition metadata_nonempty :: "fusion_result \<Rightarrow> bool" where
  "metadata_nonempty r \<longleftrightarrow> fr_run_id r \<noteq> [] \<and> fr_entity_id r \<noteq> [] \<and> fr_config_version r \<noteq> []
     \<and> fr_profile_id r \<noteq> [] \<and> fr_model_version r \<noteq> Some [] \<and> fr_scoring_method r \<noteq> []
     \<and> fr_scorer_version r \<noteq> []"

lemma validate_detected_contract_ok:
  "validate_detected_contract r = Inr u \<longleftrightarrow> detected_contract r"
  by (cases u) (auto simp: validate_detected_contract_def detected_contract_def Let_def
      split: option.splits)

lemma validate_status_contract_ok:
  "validate_status_contract r = Inr u \<longleftrightarrow> fusion_contract r"
  by (cases u; cases "fr_status r")
    (auto simp: validate_status_contract_def fusion_contract_def validate_detected_contract_ok)

lemma map_result_validate_episode:
  "map_result validate_episode es = Inr es' \<longleftrightarrow>
     es' = es \<and> (\<forall>e \<in> set es. validate_episode e = Inr e)"
proof (induction es arbitrary: es')
  case (Cons e es)
  then show ?case by (auto simp: validate_episode_ok)
qed auto

lemma validate_fusion_result_ok [validity]:
  "validate_fusion_result r = Inr r' \<longleftrightarrow> r' = r \<and> metadata_nonempty r
     \<and> (\<forall>t. fr_time r = Some t \<longrightarrow> is_utc t)
     \<and> (\<forall>e \<in> set (fr_episodes r). validate_episode e = Inr e) \<and> fusion_contract r"
  by (auto simp: validate_fusion_result_def map_result_validate_episode validate_status_contract_ok
      metadata_nonempty_def)

end
