(* ===== verification/WindowEngine.thy ===== *)
theory WindowEngine
  imports FusionModels
begin

text \<open>
  \<open>decision/fusion/window_engine.py\<close>: the sliding event-time window the replay keeps per
  run and entity. The engine's three dictionaries are maps; every operation returns the new
  engine or the exception, and checks everything before it changes anything, so an exception
  leaves the engine as it was. The interface the replay relies on is the locale
  \<open>evidence_window\<close>, interpreted on the engine at the end.
\<close>

section \<open>State and operations\<close>

type_synonym state_key = "string \<times> string"

record window_engine =
  we_window_size :: int
  we_states :: "state_key \<rightharpoonup> evidence list"
  we_last_timestamp :: "state_key \<rightharpoonup> datetime"
  we_last_advance :: "state_key \<rightharpoonup> datetime"

definition new_window_engine :: "int \<Rightarrow> window_engine result" where
  "new_window_engine window_size =
     seq (raise_if (window_size \<le> 0) (ValueError ''window_size must be greater than zero''))
     (Inr \<lparr>we_window_size = window_size, we_states = Map.empty,
           we_last_timestamp = Map.empty, we_last_advance = Map.empty\<rparr>)"

definition evidence_key :: "evidence \<Rightarrow> state_key" where
  "evidence_key e = (evd_run_id e, evd_entity_id e)"

definition earlier_than :: "datetime \<Rightarrow> datetime option \<Rightarrow> bool" where
  "earlier_than d prev = (case prev of None \<Rightarrow> False | Some p \<Rightarrow> instant d < instant p)"

definition deque_of :: "window_engine \<Rightarrow> state_key \<Rightarrow> evidence list" where
  "deque_of w k = (case we_states w k of None \<Rightarrow> [] | Some state \<Rightarrow> state)"

definition ingest :: "window_engine \<Rightarrow> evidence \<Rightarrow> window_engine result" where
  "ingest w e = (let key = evidence_key e in
     seq (raise_first
       [(earlier_than (evd_timestamp e) (we_last_advance w key),
           ValueError ''cannot ingest evidence before latest window advance timestamp''),
        (earlier_than (evd_timestamp e) (we_last_timestamp w key),
           ValueError ''Evidence timestamps must be non-decreasing within the same run_id/entity_id'')])
     (Inr (w\<lparr>we_states := (we_states w)(key \<mapsto> deque_of w key @ [e]),
             we_last_timestamp := (we_last_timestamp w)(key \<mapsto> evd_timestamp e)\<rparr>)))"

definition advance_to :: "window_engine \<Rightarrow> state_key \<Rightarrow> datetime \<Rightarrow> window_engine result" where
  "advance_to w key timestamp =
     seq (require_utc ''timestamp'' timestamp)
     (seq (raise_first
       [(earlier_than timestamp (we_last_advance w key),
           ValueError ''advance timestamp must be non-decreasing''),
        (is_some_and (we_last_timestamp w key) (\<lambda>latest. instant timestamp < instant latest),
           ValueError ''cannot advance window before latest ingested evidence timestamp'')])
     (let w' = w\<lparr>we_last_advance := (we_last_advance w)(key \<mapsto> timestamp)\<rparr>;
          cutoff = instant timestamp - we_window_size w
      in case we_states w' key of
           None \<Rightarrow> Inr w'
         | Some state \<Rightarrow>
             Inr (w'\<lparr>we_states := (we_states w')(key \<mapsto>
               dropWhile (\<lambda>e. instant (evd_timestamp e) < cutoff) state)\<rparr>)))"

definition get_active_evidence :: "window_engine \<Rightarrow> state_key \<Rightarrow> evidence list" where
  "get_active_evidence w key = (case we_states w key of
     None \<Rightarrow> []
   | Some state \<Rightarrow> (case we_last_advance w key of
       None \<Rightarrow> state
     | Some adv \<Rightarrow> filter (\<lambda>e. instant (evd_timestamp e) \<le> instant adv) state))"

definition filter_by_event_time_window ::
  "window_engine \<Rightarrow> evidence list \<Rightarrow> datetime \<Rightarrow> evidence list result" where
  "filter_by_event_time_window w evidences timestamp =
     seq (require_utc ''timestamp'' timestamp)
     (let cutoff = instant timestamp - we_window_size w
      in Inr (filter (\<lambda>e. cutoff \<le> instant (evd_timestamp e)
                \<and> instant (evd_timestamp e) \<le> instant timestamp) evidences))"

definition reset :: "window_engine \<Rightarrow> state_key \<Rightarrow> window_engine" where
  "reset w key = w\<lparr>we_states := (we_states w)(key := None),
                   we_last_timestamp := (we_last_timestamp w)(key := None),
                   we_last_advance := (we_last_advance w)(key := None)\<rparr>"

section \<open>The window as an abstract set of Evidence\<close>

text \<open>What is active at \<open>t\<close> among the Evidence seen so far: the closed interval
  \<open>[t - width, t]\<close> of event times.\<close>

definition in_window :: "int \<Rightarrow> int \<Rightarrow> evidence \<Rightarrow> bool" where
  "in_window width t e \<longleftrightarrow>
     t - width \<le> instant (evd_timestamp e) \<and> instant (evd_timestamp e) \<le> t"

abbreviation evd_at :: "evidence \<Rightarrow> int" where
  "evd_at e \<equiv> instant (evd_timestamp e)"

lemma filter_by_event_time_window_eq [spec_simps]:
  "is_utc t \<Longrightarrow> filter_by_event_time_window w es t
     = Inr (filter (in_window (we_window_size w) (instant t)) es)"
  by (auto simp: filter_by_event_time_window_def in_window_def require_utc_def is_utc_def Let_def
      intro!: filter_cong)

section \<open>The interface the replay relies on\<close>

text \<open>
  \<open>rel k w seen a\<close>: since its last reset, the window \<open>w\<close> took in the Evidence \<open>seen\<close> for the
  key \<open>k\<close> (oldest first) and was last advanced to \<open>a\<close>.
\<close>

locale evidence_window =
  fixes reset :: "'w \<Rightarrow> state_key \<Rightarrow> 'w"
    and ingest :: "'w \<Rightarrow> evidence \<Rightarrow> 'w result"
    and advance :: "'w \<Rightarrow> state_key \<Rightarrow> datetime \<Rightarrow> 'w result"
    and active :: "'w \<Rightarrow> state_key \<Rightarrow> evidence list"
    and size_of :: "'w \<Rightarrow> int"
    and rel :: "state_key \<Rightarrow> 'w \<Rightarrow> evidence list \<Rightarrow> int option \<Rightarrow> bool"
  assumes reset_rel: "0 < size_of w \<Longrightarrow> rel k (reset w k) [] None"
    and size_reset: "size_of (reset w k) = size_of w"
    and ingest_rel: "rel k w seen a \<Longrightarrow> evidence_key e = k \<Longrightarrow> \<forall>x \<in> set seen. evd_at x \<le> evd_at e \<Longrightarrow>
       \<forall>t. a = Some t \<longrightarrow> t \<le> evd_at e \<Longrightarrow>
       \<exists>w'. ingest w e = Inr w' \<and> rel k w' (seen @ [e]) a \<and> size_of w' = size_of w"
    and advance_rel: "rel k w seen a \<Longrightarrow> is_utc d \<Longrightarrow> \<forall>x \<in> set seen. evd_at x \<le> instant d \<Longrightarrow>
       \<forall>t'. a = Some t' \<longrightarrow> t' \<le> instant d \<Longrightarrow>
       \<exists>w'. advance w k d = Inr w' \<and> rel k w' seen (Some (instant d)) \<and> size_of w' = size_of w"
    and active_rel: "rel k w seen (Some t) \<Longrightarrow> active w k = filter (in_window (size_of w) t) seen"

section \<open>The engine provides it\<close>

definition engine_rel :: "state_key \<Rightarrow> window_engine \<Rightarrow> evidence list \<Rightarrow> int option \<Rightarrow> bool" where
  "engine_rel k w seen a \<longleftrightarrow>
     0 < we_window_size w \<and> sorted (map evd_at seen)
     \<and> deque_of w k = filter (\<lambda>e. \<forall>t. a = Some t \<longrightarrow> t - we_window_size w \<le> evd_at e) seen
     \<and> map_option instant (we_last_timestamp w k) = (if seen = [] then None else Some (evd_at (last seen)))
     \<and> map_option instant (we_last_advance w k) = a"

lemma earlier_than_iff: "earlier_than d prev \<longleftrightarrow> (\<exists>t. map_option instant prev = Some t \<and> instant d < t)"
  by (cases prev) (auto simp: earlier_than_def)

lemma engine_reset_rel: "0 < we_window_size w \<Longrightarrow> engine_rel k (reset w k) [] None"
  by (simp add: engine_rel_def reset_def deque_of_def)

lemma ingest_ok_iff [validity]:
  "ingest w e = Inr w' \<longleftrightarrow>
     \<not> earlier_than (evd_timestamp e) (we_last_advance w (evidence_key e))
     \<and> \<not> earlier_than (evd_timestamp e) (we_last_timestamp w (evidence_key e))
     \<and> w' = w\<lparr>we_states := (we_states w)(evidence_key e \<mapsto> deque_of w (evidence_key e) @ [e]),
             we_last_timestamp := (we_last_timestamp w)(evidence_key e \<mapsto> evd_timestamp e)\<rparr>"
  by (auto simp: ingest_def Let_def)

lemma engine_ingest_rel:
  assumes rel: "engine_rel k w seen a" and key: "evidence_key e = k"
    and newest: "\<forall>x \<in> set seen. evd_at x \<le> evd_at e"
    and after: "\<forall>t. a = Some t \<longrightarrow> t \<le> evd_at e"
  shows "\<exists>w'. ingest w e = Inr w' \<and> engine_rel k w' (seen @ [e]) a
    \<and> we_window_size w' = we_window_size w"
proof -
  have adv: "map_option instant (we_last_advance w k) = a"
    and last: "map_option instant (we_last_timestamp w k)
        = (if seen = [] then None else Some (evd_at (last seen)))"
    and pos: "0 < we_window_size w"
    using rel by (auto simp: engine_rel_def)
  have last_le: "seen \<noteq> [] \<Longrightarrow> evd_at (last seen) \<le> evd_at e"
    using newest by simp
  have "\<not> earlier_than (evd_timestamp e) (we_last_advance w k)"
    using after by (auto simp: earlier_than_iff adv)
  moreover have "\<not> earlier_than (evd_timestamp e) (we_last_timestamp w k)"
    using last_le last by (auto simp: earlier_than_iff split: if_splits)
  ultimately obtain w' where w': "ingest w e = Inr w'"
    and eq: "w' = w\<lparr>we_states := (we_states w)(k \<mapsto> deque_of w k @ [e]),
             we_last_timestamp := (we_last_timestamp w)(k \<mapsto> evd_timestamp e)\<rparr>"
    by (simp add: ingest_ok_iff key)
  have "\<forall>t. a = Some t \<longrightarrow> t - we_window_size w \<le> evd_at e"
    using after pos by force
  then have "engine_rel k w' (seen @ [e]) a"
    using rel newest by (auto simp: engine_rel_def eq deque_of_def sorted_append)
  with w' eq show ?thesis by auto
qed

lemma deque_of_None: "we_states w k = None \<Longrightarrow> deque_of w k = []"
  by (simp add: deque_of_def)

lemma engine_advance_rel:
  assumes rel: "engine_rel k w seen a" and utc: "is_utc t"
    and newest: "\<forall>x \<in> set seen. evd_at x \<le> instant t"
    and after: "\<forall>t'. a = Some t' \<longrightarrow> t' \<le> instant t"
  shows "\<exists>w'. advance_to w k t = Inr w' \<and> engine_rel k w' seen (Some (instant t))
    \<and> we_window_size w' = we_window_size w"
proof -
  let ?cut = "instant t - we_window_size w"
  let ?old = "\<lambda>e. \<forall>t'. a = Some t' \<longrightarrow> t' - we_window_size w \<le> evd_at e"
  have adv: "map_option instant (we_last_advance w k) = a"
    and last: "map_option instant (we_last_timestamp w k)
        = (if seen = [] then None else Some (evd_at (last seen)))"
    and deq: "deque_of w k = filter ?old seen" and sorted: "sorted (map evd_at seen)"
    using rel by (auto simp: engine_rel_def)
  have last_le: "seen \<noteq> [] \<Longrightarrow> evd_at (last seen) \<le> instant t"
    using newest by simp
  have ok1: "\<not> earlier_than t (we_last_advance w k)"
    using after by (auto simp: earlier_than_iff adv)
  have ok2: "\<not> (\<exists>l. we_last_timestamp w k = Some l \<and> instant t < instant l)"
    using last_le last by (auto split: if_splits)
  have "sorted (map evd_at (deque_of w k))"
    unfolding deq using sorted by (simp add: sorted_filter)
  then have "dropWhile (\<lambda>e. evd_at e < ?cut) (deque_of w k) = filter (\<lambda>e. ?cut \<le> evd_at e) (deque_of w k)"
    by (rule dropWhile_eq_filter_sorted)
  also have "\<dots> = filter (\<lambda>e. ?cut \<le> evd_at e) seen"
    unfolding deq filter_filter using after by (intro filter_cong) force+
  finally have drop: "dropWhile (\<lambda>e. evd_at e < ?cut) (deque_of w k) = filter (\<lambda>e. ?cut \<le> evd_at e) seen" .
  define w' where "w' = (let w1 = w\<lparr>we_last_advance := (we_last_advance w)(k \<mapsto> t)\<rparr> in
      case we_states w k of None \<Rightarrow> w1
      | Some s \<Rightarrow> w1\<lparr>we_states := (we_states w)(k \<mapsto> dropWhile (\<lambda>e. evd_at e < ?cut) s)\<rparr>)"
  have "advance_to w k t = Inr w'"
    using utc ok1 ok2
    by (auto simp: advance_to_def w'_def require_utc_def is_utc_def Let_def split: option.splits)
  moreover have "we_window_size w' = we_window_size w" "we_last_timestamp w' = we_last_timestamp w"
    "we_last_advance w' k = Some t"
    by (auto simp: w'_def Let_def split: option.splits)
  moreover have "deque_of w' k = dropWhile (\<lambda>e. evd_at e < ?cut) (deque_of w k)"
    by (auto simp: w'_def Let_def deque_of_def split: option.splits)
  ultimately show ?thesis using rel last drop by (auto simp: engine_rel_def)
qed

lemma engine_active_rel:
  assumes "engine_rel k w seen (Some t)"
  shows "get_active_evidence w k = filter (in_window (we_window_size w) t) seen"
proof -
  from assms obtain l where l: "we_last_advance w k = Some l" "instant l = t"
    by (auto simp: engine_rel_def)
  have "get_active_evidence w k = filter (\<lambda>e. evd_at e \<le> t) (deque_of w k)"
    by (auto simp: get_active_evidence_def deque_of_def l split: option.splits)
  also have "\<dots> = filter (in_window (we_window_size w) t) seen"
    using assms by (auto simp: engine_rel_def in_window_def intro!: filter_cong)
  finally show ?thesis .
qed

interpretation engine: evidence_window reset ingest advance_to get_active_evidence
  we_window_size engine_rel
proof unfold_locales
  show "we_window_size (reset w k) = we_window_size w" for w k
    by (simp add: reset_def)
qed (simp_all add: engine_reset_rel engine_ingest_rel engine_advance_rel engine_active_rel)

text \<open>Operations on one key never touch another.\<close>

lemma ingest_other_key:
  "ingest w e = Inr w' \<Longrightarrow> k \<noteq> evidence_key e \<Longrightarrow> get_active_evidence w' k = get_active_evidence w k"
  by (auto simp: ingest_ok_iff get_active_evidence_def split: option.splits)

lemma advance_other_key:
  "advance_to w k t = Inr w' \<Longrightarrow> k' \<noteq> k \<Longrightarrow> get_active_evidence w' k' = get_active_evidence w k'"
  by (auto simp: advance_to_def Let_def get_active_evidence_def split: option.splits)

section \<open>Any use of the engine\<close>

text \<open>
  A client calls the operations in any order, on any keys, and goes on after an exception (which
  leaves the engine as it was). The abstract engine keeps, per key, all Evidence accepted since
  the last reset and the time of the last advance.
\<close>

datatype window_op = OpIngest evidence | OpAdvance state_key datetime | OpReset state_key

fun window_op_result :: "window_engine \<Rightarrow> window_op \<Rightarrow> window_engine result" where
  "window_op_result w (OpIngest e) = ingest w e"
| "window_op_result w (OpAdvance k t) = advance_to w k t"
| "window_op_result w (OpReset k) = Inr (reset w k)"

definition window_apply :: "window_engine \<Rightarrow> window_op \<Rightarrow> window_engine" where
  "window_apply w op = (case window_op_result w op of Inl e \<Rightarrow> w | Inr w' \<Rightarrow> w')"

type_synonym window_history = "state_key \<Rightarrow> evidence list \<times> int option"

fun reaches :: "int \<Rightarrow> evidence list \<times> int option \<Rightarrow> bool" where
  "reaches t (seen, adv) \<longleftrightarrow> (\<forall>a. adv = Some a \<longrightarrow> a \<le> t) \<and> (seen \<noteq> [] \<longrightarrow> evd_at (last seen) \<le> t)"

fun history_apply :: "window_history \<Rightarrow> window_op \<Rightarrow> window_history" where
  "history_apply h (OpIngest e) = (let k = evidence_key e in
     if reaches (evd_at e) (h k) then h(k := (fst (h k) @ [e], snd (h k))) else h)"
| "history_apply h (OpAdvance k t) =
     (if is_utc t \<and> reaches (instant t) (h k) then h(k := (fst (h k), Some (instant t))) else h)"
| "history_apply h (OpReset k) = h(k := ([], None))"

definition history_active :: "int \<Rightarrow> evidence list \<times> int option \<Rightarrow> evidence list" where
  "history_active width s = (case snd s of None \<Rightarrow> fst s | Some t \<Rightarrow> filter (in_window width t) (fst s))"

definition tracks :: "window_engine \<Rightarrow> window_history \<Rightarrow> bool" where
  "tracks w h \<longleftrightarrow> (\<forall>k. engine_rel k w (fst (h k)) (snd (h k)))"

lemma tracksD: "tracks w h \<Longrightarrow> engine_rel k w (fst (h k)) (snd (h k))"
  unfolding tracks_def by blast

lemma tracksI: "(\<And>k. engine_rel k w (fst (h k)) (snd (h k))) \<Longrightarrow> tracks w h"
  unfolding tracks_def by blast

lemma tracks_upd:
  "engine_rel k w' seen a \<Longrightarrow> (\<And>k'. k' \<noteq> k \<Longrightarrow> engine_rel k' w' (fst (h k')) (snd (h k'))) \<Longrightarrow>
    tracks w' (h(k := (seen, a)))"
  by (rule tracksI) simp

lemma engine_rel_cong:
  "engine_rel k w seen a \<Longrightarrow> we_window_size w' = we_window_size w \<Longrightarrow> we_states w' k = we_states w k \<Longrightarrow>
   we_last_timestamp w' k = we_last_timestamp w k \<Longrightarrow> we_last_advance w' k = we_last_advance w k \<Longrightarrow>
   engine_rel k w' seen a"
  by (simp add: engine_rel_def deque_of_def)

lemma reaches_iff:
  assumes "engine_rel k w (fst s) (snd s)"
  shows "reaches t s \<longleftrightarrow> (\<forall>a. snd s = Some a \<longrightarrow> a \<le> t) \<and> (\<forall>x \<in> set (fst s). evd_at x \<le> t)"
proof -
  have sorted: "sorted (map evd_at (fst s))" using assms by (simp add: engine_rel_def)
  have "\<forall>x \<in> set (fst s). evd_at x \<le> evd_at (last (fst s))"
  proof
    fix x assume x: "x \<in> set (fst s)"
    then have "fst s \<noteq> []" by auto
    with sorted_le_last [OF sorted, of "evd_at x"] x show "evd_at x \<le> evd_at (last (fst s))"
      by (simp add: last_map)
  qed
  then show ?thesis by (cases s) (force dest: last_in_set)
qed

lemma rejected_iff:
  assumes "engine_rel k w (fst s) (snd s)"
  shows "earlier_than d (we_last_advance w k) \<or> earlier_than d (we_last_timestamp w k) \<longleftrightarrow> \<not> reaches (instant d) s"
proof -
  have adv: "map_option instant (we_last_advance w k) = snd s"
    and last: "map_option instant (we_last_timestamp w k)
        = (if fst s = [] then None else Some (evd_at (last (fst s))))"
    using assms by (auto simp: engine_rel_def)
  show ?thesis by (cases s) (auto simp: earlier_than_iff adv last not_le)
qed

lemma window_apply_ingest:
  assumes "tracks w h"
  shows "tracks (window_apply w (OpIngest e)) (history_apply h (OpIngest e))"
proof -
  let ?k = "evidence_key e"
  have rel: "engine_rel k w (fst (h k)) (snd (h k))" for k using assms by (rule tracksD)
  show ?thesis
  proof (cases "reaches (evd_at e) (h ?k)")
    case True
    then obtain w' where w': "ingest w e = Inr w'" "engine_rel ?k w' (fst (h ?k) @ [e]) (snd (h ?k))"
      using engine_ingest_rel [OF rel, of e] by (auto simp: reaches_iff [OF rel])
    then have "engine_rel k w' (fst (h k)) (snd (h k))" if "k \<noteq> ?k" for k
      using rel [of k] that by (auto simp: ingest_ok_iff intro: engine_rel_cong)
    with w' True show ?thesis by (simp add: tracks_upd window_apply_def Let_def)
  next
    case False
    then have "earlier_than (evd_timestamp e) (we_last_advance w ?k)
        \<or> earlier_than (evd_timestamp e) (we_last_timestamp w ?k)"
      using rejected_iff [OF rel] by blast
    then have "\<forall>w'. ingest w e \<noteq> Inr w'" by (auto simp: ingest_ok_iff)
    then have "window_apply w (OpIngest e) = w" by (auto simp: window_apply_def split: sum.splits)
    with assms False show ?thesis by (simp add: Let_def)
  qed
qed

lemma window_apply_advance:
  assumes "tracks w h"
  shows "tracks (window_apply w (OpAdvance k t)) (history_apply h (OpAdvance k t))"
proof -
  have rel: "engine_rel k w (fst (h k)) (snd (h k))" for k using assms by (rule tracksD)
  show ?thesis
  proof (cases "is_utc t \<and> reaches (instant t) (h k)")
    case True
    then obtain w' where w': "advance_to w k t = Inr w'" "engine_rel k w' (fst (h k)) (Some (instant t))"
      using engine_advance_rel [OF rel, of t k] by (auto simp: reaches_iff [OF rel])
    then have "engine_rel k' w' (fst (h k')) (snd (h k'))" if "k' \<noteq> k" for k'
      using rel [of k'] that
      by (auto simp: advance_to_def Let_def intro: engine_rel_cong split: option.splits)
    with w' True show ?thesis by (simp add: tracks_upd window_apply_def)
  next
    case False
    then have "\<not> is_utc t \<or> earlier_than t (we_last_advance w k) \<or> earlier_than t (we_last_timestamp w k)"
      using rejected_iff [OF rel] by blast
    then have "\<forall>w'. advance_to w k t \<noteq> Inr w'" by (auto simp: advance_to_def earlier_than_iff)
    then have "window_apply w (OpAdvance k t) = w" by (auto simp: window_apply_def split: sum.splits)
    with assms False show ?thesis by auto
  qed
qed

lemma window_apply_reset:
  assumes "tracks w h"
  shows "tracks (window_apply w (OpReset k)) (history_apply h (OpReset k))"
proof -
  have "0 < we_window_size w" using tracksD [OF assms] by (simp add: engine_rel_def)
  then have "engine_rel k (reset w k) [] None" by (rule engine_reset_rel)
  moreover have "engine_rel k' (reset w k) (fst (h k')) (snd (h k'))" if "k' \<noteq> k" for k'
    using tracksD [OF assms, of k'] that by (auto simp: reset_def intro: engine_rel_cong)
  ultimately show ?thesis by (simp add: tracks_upd window_apply_def)
qed

lemma window_apply_tracks: "tracks w h \<Longrightarrow> tracks (window_apply w op) (history_apply h op)"
  by (cases op) (simp_all only: window_apply_ingest window_apply_advance window_apply_reset)

lemma window_run_tracks: "tracks w h \<Longrightarrow> tracks (foldl window_apply w ops) (foldl history_apply h ops)"
  by (induction ops arbitrary: w h) (simp_all add: window_apply_tracks del: history_apply.simps)

lemma tracks_active:
  assumes "tracks w h"
  shows "get_active_evidence w k = history_active (we_window_size w) (h k)"
proof (cases "snd (h k)")
  case None
  with tracksD [OF assms, of k] have "engine_rel k w (fst (h k)) None" by simp
  with None show ?thesis
    by (auto simp: engine_rel_def history_active_def get_active_evidence_def deque_of_def split: option.splits)
next
  case (Some t)
  with tracksD [OF assms, of k] have "engine_rel k w (fst (h k)) (Some t)" by simp
  with Some show ?thesis by (simp add: engine_active_rel history_active_def)
qed

lemma window_apply_size: "we_window_size (window_apply w op) = we_window_size w"
  by (cases op) (auto simp: window_apply_def ingest_ok_iff advance_to_def reset_def Let_def
      split: sum.splits option.splits)

lemma window_run_size: "we_window_size (foldl window_apply w ops) = we_window_size w"
  by (induction ops arbitrary: w) (simp_all add: window_apply_size)

lemma new_window_engine_ok [validity]:
  "new_window_engine width = Inr w \<longleftrightarrow> 0 < width \<and>
     w = \<lparr>we_window_size = width, we_states = Map.empty, we_last_timestamp = Map.empty,
          we_last_advance = Map.empty\<rparr>"
  by (auto simp: new_window_engine_def)

lemma new_window_engine_tracks: "new_window_engine width = Inr w \<Longrightarrow> tracks w (\<lambda>k. ([], None))"
  by (rule tracksI) (auto simp: new_window_engine_ok engine_rel_def deque_of_def)

text \<open>C6: After any sequence of calls on a new engine, on any keys, with rejected calls among
  them, the active Evidence of a key is what the abstract history says: everything accepted for
  the key since its last reset whose event time lies in the closed window ending at the last
  advance (everything, before the first advance). What the engine evicted never matters.\<close>

theorem window_engine_refines_history:
  assumes "new_window_engine width = Inr w"
  shows "get_active_evidence (foldl window_apply w ops) k
    = history_active width (foldl history_apply (\<lambda>k. ([], None)) ops k)"
proof -
  have "we_window_size w = width" using assms by (auto simp: new_window_engine_ok)
  with assms show ?thesis
    using tracks_active [OF window_run_tracks [OF new_window_engine_tracks], of width w ops k]
    by (simp add: window_run_size)
qed

definition sample_evidence :: "string \<Rightarrow> int \<Rightarrow> evidence" where
  "sample_evidence ident t = \<lparr>evd_id = ident, evd_run_id = ''R'', evd_timestamp = utc t, evd_entity_id = ''H'',
     evd_type = ''execution'', evd_event_ids = [''E1''], evd_source_layer = RawTelemetry,
     evd_channel = FusionFeature, evd_extractor_version = ''v1'', evd_technique_ids = [], evd_features = []\<rparr>"

definition sample_engine :: window_engine where
  "sample_engine = \<lparr>we_window_size = 10, we_states = Map.empty, we_last_timestamp = Map.empty,
     we_last_advance = Map.empty\<rparr>"

lemma window_engine_refines_history_witness:
  "get_active_evidence (foldl window_apply sample_engine
      [OpIngest (sample_evidence ''A'' 0), OpIngest (sample_evidence ''B'' 8),
       OpAdvance (''R'', ''H'') (utc 15), OpIngest (sample_evidence ''C'' 3)]) (''R'', ''H'')
   = [sample_evidence ''B'' 8]"
proof -
  have new: "new_window_engine 10 = Inr sample_engine" by (simp add: new_window_engine_def sample_engine_def)
  show ?thesis unfolding window_engine_refines_history [OF new]
    by (simp add: sample_evidence_def evidence_key_def history_active_def in_window_def Let_def)
qed

end
