(* ===== verification/SimpleScore.thy ===== *)
theory SimpleScore
  imports FusionModels
begin

text \<open>
  \<open>decision/fusion/simple_score.py\<close>: the share of the profile's Evidence types that are
  active, and the ids of the Evidence that contributes. \<open>evidence_scorer\<close> is the interface the
  replay and the result builder rely on.
\<close>

section \<open>The scorer\<close>

record simple_scorer =
  ss_profile_types :: "string set"

definition new_simple_scorer :: "string list \<Rightarrow> simple_scorer result" where
  "new_simple_scorer profile_types =
     seq (raise_first
       [(profile_types = [], ValueError ''evidence_types must not be empty''),
        (\<exists>ty \<in> set profile_types. blank ty, ValueError ''evidence_types must not contain blank values''),
        (has_duplicates profile_types, ValueError ''evidence_types must not contain duplicates'')])
     (Inr \<lparr>ss_profile_types = set profile_types\<rparr>)"

definition denominator :: "simple_scorer \<Rightarrow> nat" where
  "denominator s = card (ss_profile_types s)"

definition is_scoring_evidence :: "simple_scorer \<Rightarrow> evidence \<Rightarrow> bool" where
  "is_scoring_evidence s e = (evd_channel e = FusionFeature \<and> evd_type e \<in> ss_profile_types s)"

definition active_types :: "simple_scorer \<Rightarrow> evidence list \<Rightarrow> string set" where
  "active_types s es = evd_type ` set (filter (is_scoring_evidence s) es)"

definition score :: "simple_scorer \<Rightarrow> evidence list \<Rightarrow> py_float" where
  "score s es = Finite (true_div (card (active_types s es)) (denominator s))"

definition contributing_evidence_ids :: "simple_scorer \<Rightarrow> evidence list \<Rightarrow> string list" where
  "contributing_evidence_ids s es =
     sorted_list_of_set (evd_id ` set (filter (is_scoring_evidence s) es))"

section \<open>The interface\<close>

locale evidence_scorer =
  fixes wf :: "'s \<Rightarrow> bool"
    and score_of :: "'s \<Rightarrow> evidence list \<Rightarrow> py_float"
    and ids_of :: "'s \<Rightarrow> evidence list \<Rightarrow> string list"
  assumes score_unit: "wf s \<Longrightarrow> in_unit (score_of s es)"
    and ids_of_positive: "wf s \<Longrightarrow> flt (Finite 0) (score_of s es) \<Longrightarrow> ids_of s es \<noteq> []"
    and score_of_set: "set es = set es' \<Longrightarrow> score_of s es = score_of s es'"
    and ids_of_set: "set es = set es' \<Longrightarrow> ids_of s es = ids_of s es'"
begin

lemma score_finite: "wf s \<Longrightarrow> isfinite (score_of s es)"
  using score_unit [of s es] by (auto simp: in_unit_Finite)

lemma threshold_needs_evidence:
  assumes "wf s" "0 < q" "fle (Finite q) (score_of s es)"
  shows "ids_of s es \<noteq> []"
proof -
  obtain r where r: "score_of s es = Finite r" using score_unit [OF assms(1), of es] by (auto simp: in_unit_Finite)
  with assms have "flt (Finite 0) (score_of s es)" by simp
  with assms(1) show ?thesis by (rule ids_of_positive)
qed

end

section \<open>The scorer provides it\<close>

definition scorer_wf :: "simple_scorer \<Rightarrow> bool" where
  "scorer_wf s \<longleftrightarrow> finite (ss_profile_types s) \<and> ss_profile_types s \<noteq> {}"

lemma new_simple_scorer_ok [validity]:
  "new_simple_scorer ts = Inr s \<longleftrightarrow>
     ts \<noteq> [] \<and> (\<forall>ty \<in> set ts. \<not> blank ty) \<and> distinct ts \<and> s = \<lparr>ss_profile_types = set ts\<rparr>"
  by (auto simp: new_simple_scorer_def)

lemma new_simple_scorer_wf: "new_simple_scorer ts = Inr s \<Longrightarrow> scorer_wf s"
  by (auto simp: new_simple_scorer_ok scorer_wf_def)

lemma new_simple_scorer_denominator:
  "new_simple_scorer ts = Inr s \<Longrightarrow> denominator s = length ts"
  by (auto simp: new_simple_scorer_ok denominator_def distinct_card)

lemma active_types_subset: "active_types s es \<subseteq> ss_profile_types s"
  by (auto simp: active_types_def is_scoring_evidence_def)

lemma card_active_le: "scorer_wf s \<Longrightarrow> card (active_types s es) \<le> denominator s"
  unfolding denominator_def scorer_wf_def by (intro card_mono active_types_subset) auto

lemma score_in_unit: "scorer_wf s \<Longrightarrow> in_unit (score s es)"
  by (auto simp: score_def in_unit_Finite true_div_nonneg true_div_le_1 card_active_le)

lemma ids_nonempty_iff: "contributing_evidence_ids s es \<noteq> [] \<longleftrightarrow> (\<exists>e \<in> set es. is_scoring_evidence s e)"
  by (auto simp: contributing_evidence_ids_def)

lemma set_contributing_evidence_ids:
  "set (contributing_evidence_ids s es) = evd_id ` {e \<in> set es. is_scoring_evidence s e}"
  by (auto simp: contributing_evidence_ids_def)

lemma score_positive_iff:
  assumes "scorer_wf s"
  shows "flt (Finite 0) (score s es) \<longleftrightarrow> (\<exists>e \<in> set es. is_scoring_evidence s e)"
proof -
  have "(0 < card (active_types s es)) = (\<exists>e \<in> set es. is_scoring_evidence s e)"
    by (auto simp: active_types_def card_gt_0_iff)
  moreover have "0 < true_div (card (active_types s es)) (denominator s)
      \<longleftrightarrow> 0 < card (active_types s es)"
    using true_div_pos [OF _ card_active_le [OF assms]]
    by (metis less_irrefl neq0_conv true_div_0)
  ultimately show ?thesis by (simp add: score_def)
qed

lemma active_types_cong: "set es = set es' \<Longrightarrow> active_types s es = active_types s es'"
  by (auto simp: active_types_def)

interpretation simple: evidence_scorer scorer_wf score contributing_evidence_ids
proof unfold_locales
  show "contributing_evidence_ids s es \<noteq> []"
    if "scorer_wf s" "flt (Finite 0) (score s es)" for s es
    using that by (simp add: ids_nonempty_iff score_positive_iff)
  show "score s es = score s es'" if "set es = set es'" for s es es'
    using active_types_cong [OF that, of s] by (simp add: score_def)
  show "contributing_evidence_ids s es = contributing_evidence_ids s es'"
    if "set es = set es'" for s es es'
    using that by (simp add: contributing_evidence_ids_def)
qed (rule score_in_unit)

text \<open>More active Evidence never lowers the score.\<close>

lemma score_mono:
  assumes "scorer_wf s" "set es \<subseteq> set es'"
  shows "fle (score s es) (score s es')"
proof -
  have sub: "active_types s es \<subseteq> active_types s es'" using assms(2) by (auto simp: active_types_def)
  have "card (active_types s es) \<le> card (active_types s es')"
    by (rule card_mono [OF _ sub]) (simp add: active_types_def)
  then show ?thesis using assms(1) by (simp add: score_def true_div_mono card_active_le)
qed

lemma score_full:
  assumes "scorer_wf s" "ss_profile_types s \<subseteq> evd_type ` {e \<in> set es. evd_channel e = FusionFeature}"
  shows "score s es = Finite 1"
proof -
  have "active_types s es = ss_profile_types s"
    using assms(2) by (fastforce simp: active_types_def is_scoring_evidence_def)
  moreover have "0 < card (ss_profile_types s)" using assms(1) by (auto simp: scorer_wf_def card_gt_0_iff)
  ultimately show ?thesis by (simp add: score_def denominator_def true_div_self)
qed

end
