(* ===== verification/StoppingPolicy.thy ===== *)
theory StoppingPolicy
  imports FusionModels
begin

text \<open>
  \<open>decision/fusion/stopping_policy.py\<close>: the hysteresis policy with persistence. The loop of
  \<open>evaluate\<close> is a fold of \<open>eval_point\<close> over its local variables (the record
  \<open>policy_run\<close>); the observer is the list of trace points it was called with. The abstract
  specification speaks about the trajectory only: when a point fires
  (\<open>fires\<close>), and that an episode is a maximal stretch of it (\<open>episode_of\<close>).
\<close>

section \<open>Data\<close>

record score_point =
  sp_timestamp :: datetime
  sp_score :: py_float

type_synonym stopping_trace_point = trace_point

record fusion_episode =
  fep_id :: string
  fep_run_id :: string
  fep_entity_id :: string
  fep_start :: datetime
  fep_end :: datetime
  fep_end_reason :: fusion_end_reason
  fep_score_at_start :: py_float
  fep_peak :: py_float

record stopping_result =
  sr_status :: detection_status
  sr_time :: "datetime option"
  sr_score :: "py_float option"
  sr_episodes :: "fusion_episode list"

record stopping_policy =
  threshold_on :: py_float
  threshold_off :: py_float
  persistence_k :: int

section \<open>Validators and constructor\<close>

definition sp_validate_utc_datetime :: "string \<Rightarrow> datetime \<Rightarrow> unit result" where
  "sp_validate_utc_datetime field_name d = require_utc field_name d"

definition validate_score :: "py_float \<Rightarrow> unit result" where
  "validate_score x = raise_first
     [(\<not> isfinite x, ValueError ''ScorePoint score must be finite''),
      (\<not> in_unit x, ValueError ''ScorePoint score must be between 0 and 1'')]"

definition validate_entity_id :: "string \<Rightarrow> unit result" where
  "validate_entity_id s = raise_if (blank s) (ValueError ''entity_id must be a non-empty string'')"

definition new_stopping_policy :: "py_float \<Rightarrow> py_float \<Rightarrow> int \<Rightarrow> stopping_policy result" where
  "new_stopping_policy th_on th_off k =
     seq (raise_first
       [(\<not> in_unit th_on, ValueError ''threshold_on must be between 0.0 and 1.0''),
        (\<not> in_unit th_off, ValueError ''threshold_off must be between 0.0 and 1.0''),
        (fle th_on th_off, ValueError ''threshold_off must be less than threshold_on''),
        (k < 1, ValueError ''persistence_k must be at least 1'')])
     (Inr \<lparr>threshold_on = th_on, threshold_off = th_off, persistence_k = k\<rparr>)"

section \<open>Evaluation\<close>

record policy_run =
  pr_consecutive :: int
  pr_active :: bool
  pr_fusion_time :: "datetime option"
  pr_score_at_decision :: "py_float option"
  pr_start :: "datetime option"
  pr_start_score :: "py_float option"
  pr_peak :: "py_float option"
  pr_episodes :: "fusion_episode list"
  pr_previous :: "datetime option"
  pr_trace :: "stopping_trace_point list"

record policy_args =
  pa_run_id :: string
  pa_entity_id :: string
  pa_run_end :: datetime
  pa_reason :: fusion_end_reason

definition initial_run :: policy_run where
  "initial_run = \<lparr>pr_consecutive = 0, pr_active = False, pr_fusion_time = None,
     pr_score_at_decision = None, pr_start = None, pr_start_score = None, pr_peak = None,
     pr_episodes = [], pr_previous = None, pr_trace = []\<rparr>"

definition episode_id :: "nat \<Rightarrow> string" where
  "episode_id n = ''FEP-'' @ zero_pad 3 (dec_digits n)"

definition close_episode ::
  "policy_args \<Rightarrow> policy_run \<Rightarrow> datetime \<Rightarrow> fusion_end_reason \<Rightarrow> fusion_episode result" where
  "close_episode a s t reason = (case (pr_start s, pr_start_score s, pr_peak s) of
     (Some start, Some sc, Some peak) \<Rightarrow> Inr
       \<lparr>fep_id = episode_id (length (pr_episodes s) + 1), fep_run_id = pa_run_id a,
        fep_entity_id = pa_entity_id a, fep_start = start, fep_end = t, fep_end_reason = reason,
        fep_score_at_start = sc, fep_peak = peak\<rparr>
   | _ \<Rightarrow> Inl AssertionError)"

definition observe :: "score_point \<Rightarrow> int option \<Rightarrow> policy_run \<Rightarrow> policy_run" where
  "observe p cnt s = s\<lparr>pr_trace := pr_trace s @
     [\<lparr>tp_timestamp = sp_timestamp p, tp_score = sp_score p, tp_persistence = cnt,
       tp_state = (if pr_active s then On else Off)\<rparr>]\<rparr>"

text \<open>The branch of the loop body taken inside an episode, and the one outside.\<close>

definition active_point ::
  "stopping_policy \<Rightarrow> policy_args \<Rightarrow> policy_run \<Rightarrow> score_point \<Rightarrow> policy_run result" where
  "active_point pol a s p =
     (if flt (sp_score p) (threshold_off pol) then
        bnd (close_episode a s (sp_timestamp p) Released) (\<lambda>ep.
        Inr (observe p None (s\<lparr>pr_episodes := pr_episodes s @ [ep], pr_active := False,
          pr_consecutive := 0, pr_start := None, pr_start_score := None, pr_peak := None\<rparr>)))
      else if (case pr_peak s of None \<Rightarrow> True | Some pk \<Rightarrow> flt pk (sp_score p)) then
        Inr (observe p None (s\<lparr>pr_peak := Some (sp_score p)\<rparr>))
      else Inr (observe p None s))"

definition idle_point :: "stopping_policy \<Rightarrow> policy_run \<Rightarrow> score_point \<Rightarrow> policy_run" where
  "idle_point pol s p =
     (let hot = fle (threshold_on pol) (sp_score p);
          n = (if hot then pr_consecutive s + 1 else 0);
          cnt = (if hot then Some n else None)
      in if persistence_k pol \<le> n then
           observe p cnt (s\<lparr>pr_active := True, pr_start := Some (sp_timestamp p),
             pr_start_score := Some (sp_score p), pr_peak := Some (sp_score p),
             pr_fusion_time := (if pr_fusion_time s = None then Some (sp_timestamp p) else pr_fusion_time s),
             pr_score_at_decision :=
               (if pr_fusion_time s = None then Some (sp_score p) else pr_score_at_decision s),
             pr_consecutive := 0\<rparr>)
         else observe p cnt (s\<lparr>pr_consecutive := n\<rparr>))"

definition eval_point ::
  "stopping_policy \<Rightarrow> policy_args \<Rightarrow> policy_run \<Rightarrow> score_point \<Rightarrow> policy_run result" where
  "eval_point pol a s p =
     seq (sp_validate_utc_datetime ''ScorePoint timestamp'' (sp_timestamp p))
     (seq (validate_score (sp_score p))
     (seq (raise_first
       [(is_some_and (pr_previous s) (\<lambda>t. instant (sp_timestamp p) \<le> instant t),
           ValueError ''ScorePoint timestamps must be strictly increasing''),
        (is_some_and (pr_previous s) (\<lambda>t. instant (sp_timestamp p) \<le> instant t),
           ValueError ''ScorePoint timestamps must be strictly increasing''),
        (instant (pa_run_end a) < instant (sp_timestamp p),
           ValueError ''ScorePoint timestamp must not exceed run_end'')])
     (let s' = s\<lparr>pr_previous := Some (sp_timestamp p)\<rparr>
      in if pr_active s' then active_point pol a s' p else Inr (idle_point pol s' p))))"

fun eval_points ::
  "stopping_policy \<Rightarrow> policy_args \<Rightarrow> policy_run \<Rightarrow> score_point list \<Rightarrow> policy_run result" where
  "eval_points pol a s [] = Inr s"
| "eval_points pol a s (p # ps) = bnd (eval_point pol a s p) (\<lambda>s'. eval_points pol a s' ps)"

definition finish_run :: "policy_args \<Rightarrow> policy_run \<Rightarrow> stopping_result result" where
  "finish_run a s = (case pr_fusion_time s of
     None \<Rightarrow> Inr \<lparr>sr_status = Miss, sr_time = None, sr_score = None, sr_episodes = []\<rparr>
   | Some t \<Rightarrow>
       bnd (if pr_active s
            then bnd (close_episode a s (pa_run_end a) (pa_reason a)) (\<lambda>ep. Inr (pr_episodes s @ [ep]))
            else Inr (pr_episodes s)) (\<lambda>eps.
       Inr \<lparr>sr_status = Detected, sr_time = Some t, sr_score = pr_score_at_decision s,
            sr_episodes = eps\<rparr>))"

definition evaluate ::
  "stopping_policy \<Rightarrow> policy_args \<Rightarrow> score_point list
     \<Rightarrow> (stopping_result \<times> stopping_trace_point list) result" where
  "evaluate pol a trajectory =
     seq (validate_entity_id (pa_entity_id a))
     (seq (sp_validate_utc_datetime ''run_end'' (pa_run_end a))
     (seq (raise_if (pa_reason a \<noteq> RunEnd \<and> pa_reason a \<noteq> ReplayEnd)
       (ValueError ''boundary_end_reason must be run_end or replay_end''))
     (bnd (eval_points pol a initial_run trajectory) (\<lambda>s.
      bnd (finish_run a s) (\<lambda>r. Inr (r, pr_trace s))))))"

section \<open>The abstract specification\<close>

definition policy_wf :: "stopping_policy \<Rightarrow> bool" where
  "policy_wf pol \<longleftrightarrow> in_unit (threshold_on pol) \<and> in_unit (threshold_off pol)
     \<and> \<not> fle (threshold_on pol) (threshold_off pol) \<and> 1 \<le> persistence_k pol"

definition trajectory_ok :: "datetime \<Rightarrow> score_point list \<Rightarrow> bool" where
  "trajectory_ok run_end ps \<longleftrightarrow>
     (\<forall>p \<in> set ps. is_utc (sp_timestamp p) \<and> in_unit (sp_score p)
        \<and> instant (sp_timestamp p) \<le> instant run_end)
     \<and> sorted_wrt (<) (map (instant \<circ> sp_timestamp) ps)"

definition hot :: "stopping_policy \<Rightarrow> score_point \<Rightarrow> bool" where
  "hot pol p = fle (threshold_on pol) (sp_score p)"

definition cold :: "stopping_policy \<Rightarrow> score_point \<Rightarrow> bool" where
  "cold pol p = flt (sp_score p) (threshold_off pol)"

text \<open>The last point of \<open>ps\<close> completes \<open>k\<close> consecutive points at or above the on-threshold.\<close>

definition fires :: "stopping_policy \<Rightarrow> score_point list \<Rightarrow> bool" where
  "fires pol ps \<longleftrightarrow> persistence_k pol \<le> int (length ps)
     \<and> (\<forall>p \<in> set (drop (length ps - nat (persistence_k pol)) ps). hot pol p)"

text \<open>\<open>ep\<close> is a stretch of the trajectory: it starts at a point that fires, holds no cold
  point, carries its start and peak score, and runs up to the next cold point (released) or to
  the end of the trajectory.\<close>

definition is_peak :: "score_point list \<Rightarrow> py_float \<Rightarrow> bool" where
  "is_peak seg x \<longleftrightarrow> x \<in> sp_score ` set seg \<and> (\<forall>q \<in> set seg. fle (sp_score q) x)"

definition stretch_of ::
  "stopping_policy \<Rightarrow> score_point list \<Rightarrow> score_point list \<Rightarrow> datetime \<Rightarrow> py_float \<Rightarrow> py_float \<Rightarrow> bool" where
  "stretch_of pol pre seg start sc peak \<longleftrightarrow> seg \<noteq> [] \<and> fires pol (pre @ [hd seg])
     \<and> start = sp_timestamp (hd seg) \<and> sc = sp_score (hd seg)
     \<and> (\<forall>p \<in> set seg. \<not> cold pol p) \<and> is_peak seg peak"

definition episode_of :: "stopping_policy \<Rightarrow> policy_args \<Rightarrow> score_point list \<Rightarrow> fusion_episode \<Rightarrow> bool" where
  "episode_of pol a traj ep \<longleftrightarrow> fep_run_id ep = pa_run_id a \<and> fep_entity_id ep = pa_entity_id a \<and>
     (\<exists>pre seg post. traj = pre @ seg @ post
        \<and> stretch_of pol pre seg (fep_start ep) (fep_score_at_start ep) (fep_peak ep)
        \<and> (if fep_end_reason ep = Released
           then post \<noteq> [] \<and> cold pol (hd post) \<and> fep_end ep = sp_timestamp (hd post)
           else post = [] \<and> fep_end_reason ep = pa_reason a \<and> fep_end ep = pa_run_end a))"

section \<open>One step of the loop\<close>

lemma new_stopping_policy_ok [validity]:
  "new_stopping_policy x y k = Inr pol \<longleftrightarrow>
     pol = \<lparr>threshold_on = x, threshold_off = y, persistence_k = k\<rparr> \<and> policy_wf pol"
  by (auto simp: new_stopping_policy_def policy_wf_def)

lemma validate_score_ok [simp]: "validate_score x = Inr u \<longleftrightarrow> in_unit x"
  by (cases u) (auto simp: validate_score_def in_unit_Finite)

lemma cold_not_hot:
  assumes "policy_wf pol" "cold pol p"
  shows "\<not> hot pol p"
proof -
  obtain q r where "threshold_on pol = Finite q" "threshold_off pol = Finite r" "r < q"
    using assms(1) by (auto simp: policy_wf_def in_unit_Finite)
  with assms(2) show ?thesis by (cases "sp_score p") (auto simp: cold_def hot_def)
qed

definition hot_suffix :: "stopping_policy \<Rightarrow> score_point list \<Rightarrow> nat" where
  "hot_suffix pol ps = length (takeWhile (hot pol) (rev ps))"

lemma hot_suffix_Nil [simp]: "hot_suffix pol [] = 0"
  by (simp add: hot_suffix_def)

lemma hot_suffix_snoc: "hot_suffix pol (ps @ [p]) = (if hot pol p then Suc (hot_suffix pol ps) else 0)"
  by (simp add: hot_suffix_def)

lemma all_take_iff_takeWhile:
  "n \<le> length xs \<Longrightarrow> (\<forall>x \<in> set (take n xs). P x) \<longleftrightarrow> n \<le> length (takeWhile P xs)"
proof (induction xs arbitrary: n)
  case Nil
  then show ?case by simp
next
  case (Cons x xs)
  then show ?case by (cases n) auto
qed

lemma fires_iff_hot_suffix:
  assumes "1 \<le> persistence_k pol"
  shows "fires pol ps \<longleftrightarrow> persistence_k pol \<le> int (hot_suffix pol ps)"
proof (cases "persistence_k pol \<le> int (length ps)")
  case True
  then have le: "nat (persistence_k pol) \<le> length (rev ps)" by simp
  have "set (drop (length ps - nat (persistence_k pol)) ps) = set (take (nat (persistence_k pol)) (rev ps))"
    by (simp add: take_rev)
  with True le show ?thesis
    by (simp add: fires_def hot_suffix_def all_take_iff_takeWhile nat_le_iff)
next
  case False
  moreover have "hot_suffix pol ps \<le> length ps"
    unfolding hot_suffix_def by (metis length_rev length_takeWhile_le)
  ultimately show ?thesis by (simp add: fires_def)
qed

lemma not_fires_Nil: "1 \<le> persistence_k pol \<Longrightarrow> \<not> fires pol []"
  by (simp add: fires_def)

text \<open>What the local variables say about the points seen so far.\<close>

definition current_stretch :: "stopping_policy \<Rightarrow> score_point list \<Rightarrow> policy_run \<Rightarrow> bool" where
  "current_stretch pol seen s \<longleftrightarrow> (\<exists>pre seg start sc peak. seen = pre @ seg
     \<and> pr_start s = Some start \<and> pr_start_score s = Some sc \<and> pr_peak s = Some peak
     \<and> stretch_of pol pre seg start sc peak)"

definition loop_inv :: "stopping_policy \<Rightarrow> score_point list \<Rightarrow> policy_run \<Rightarrow> bool" where
  "loop_inv pol seen s \<longleftrightarrow>
     pr_previous s = (if seen = [] then None else Some (sp_timestamp (last seen)))
     \<and> (pr_active s \<longrightarrow> current_stretch pol seen s)
     \<and> (\<not> pr_active s \<longrightarrow> pr_consecutive s = int (hot_suffix pol seen) \<and> \<not> fires pol seen)"

lemma loop_inv_initial: "policy_wf pol \<Longrightarrow> loop_inv pol [] initial_run"
  by (simp add: loop_inv_def initial_run_def not_fires_Nil policy_wf_def)

lemma idle_fires_iff:
  assumes "policy_wf pol" "loop_inv pol seen s" "\<not> pr_active s"
  shows "persistence_k pol \<le> (if fle (threshold_on pol) (sp_score p) then pr_consecutive s + 1 else 0)
    \<longleftrightarrow> fires pol (seen @ [p])"
  using assms by (auto simp: fires_iff_hot_suffix policy_wf_def loop_inv_def hot_suffix_snoc hot_def)

lemma stretch_start: "fires pol (pre @ [p]) \<Longrightarrow> policy_wf pol \<Longrightarrow> in_unit (sp_score p)
    \<Longrightarrow> stretch_of pol pre [p] (sp_timestamp p) (sp_score p) (sp_score p)"
  using cold_not_hot [of pol p]
  by (auto simp: stretch_of_def is_peak_def in_unit_Finite fires_iff_hot_suffix policy_wf_def
      hot_suffix_snoc split: if_splits)

lemma stretch_extend:
  assumes "stretch_of pol pre seg start sc peak" "\<not> cold pol p" "in_unit (sp_score p)"
    "\<forall>q \<in> set seg. in_unit (sp_score q)"
  shows "stretch_of pol pre (seg @ [p]) start sc (if flt peak (sp_score p) then sp_score p else peak)"
proof -
  from assms(1,4) obtain pk where pk: "peak = Finite pk"
    by (auto simp: stretch_of_def is_peak_def in_unit_Finite)
  from assms(3) obtain q where q: "sp_score p = Finite q" by (auto simp: in_unit_Finite)
  have peak: "is_peak (seg @ [p]) (if flt peak (sp_score p) then sp_score p else peak)"
    unfolding is_peak_def
  proof (intro conjI ballI)
    show "(if flt peak (sp_score p) then sp_score p else peak) \<in> sp_score ` set (seg @ [p])"
      using assms(1) by (auto simp: stretch_of_def is_peak_def)
    fix x assume "x \<in> set (seg @ [p])"
    moreover have "\<exists>y. sp_score x = Finite y \<and> y \<le> pk" if "x \<in> set seg"
    proof -
      have "fle (sp_score x) peak" "in_unit (sp_score x)"
        using that assms(1,4) by (simp_all add: stretch_of_def is_peak_def)
      then show ?thesis by (auto simp: in_unit_Finite pk)
    qed
    ultimately show "fle (sp_score x) (if flt peak (sp_score p) then sp_score p else peak)"
      by (auto simp: pk q)
  qed
  then show ?thesis
    using assms(1,2) by (auto simp: stretch_of_def)
qed

section \<open>The loop as a step relation\<close>

text \<open>
  The four things a point can do, named: outside an episode it leaves the policy off or fires;
  inside, it continues the episode or releases it. \<open>eval_point\<close> takes exactly one of these
  steps on a valid point, so facts about runs are proved by cases on the relation.
\<close>

inductive policy_step ::
  "stopping_policy \<Rightarrow> policy_args \<Rightarrow> score_point list \<Rightarrow> policy_run \<Rightarrow> score_point \<Rightarrow> policy_run \<Rightarrow> bool"
  for pol a where
  stay: "\<not> pr_active s \<Longrightarrow> \<not> fires pol (seen @ [p]) \<Longrightarrow>
     n = int (hot_suffix pol (seen @ [p])) \<Longrightarrow>
     policy_step pol a seen s p (observe p (if hot pol p then Some n else None)
       (s\<lparr>pr_previous := Some (sp_timestamp p), pr_consecutive := n\<rparr>))"
| fire: "\<not> pr_active s \<Longrightarrow> fires pol (seen @ [p]) \<Longrightarrow>
     n = int (hot_suffix pol (seen @ [p])) \<Longrightarrow>
     policy_step pol a seen s p (observe p (Some n)
       (s\<lparr>pr_previous := Some (sp_timestamp p), pr_active := True, pr_start := Some (sp_timestamp p),
          pr_start_score := Some (sp_score p), pr_peak := Some (sp_score p),
          pr_fusion_time := (if pr_fusion_time s = None then Some (sp_timestamp p) else pr_fusion_time s),
          pr_score_at_decision :=
            (if pr_fusion_time s = None then Some (sp_score p) else pr_score_at_decision s),
          pr_consecutive := 0\<rparr>))"
| continue: "pr_active s \<Longrightarrow> \<not> cold pol p \<Longrightarrow> pr_peak s = Some peak \<Longrightarrow>
     policy_step pol a seen s p (observe p None
       (s\<lparr>pr_previous := Some (sp_timestamp p),
          pr_peak := Some (if flt peak (sp_score p) then sp_score p else peak)\<rparr>))"
| release: "pr_active s \<Longrightarrow> cold pol p \<Longrightarrow> close_episode a s (sp_timestamp p) Released = Inr ep \<Longrightarrow>
     policy_step pol a seen s p (observe p None
       (s\<lparr>pr_previous := Some (sp_timestamp p), pr_episodes := pr_episodes s @ [ep],
          pr_active := False, pr_consecutive := 0, pr_start := None, pr_start_score := None,
          pr_peak := None\<rparr>))"

inductive_cases policy_stepE: "policy_step pol a seen s p s'"

definition point_ok :: "policy_args \<Rightarrow> score_point list \<Rightarrow> score_point \<Rightarrow> bool" where
  "point_ok a seen p \<longleftrightarrow> is_utc (sp_timestamp p) \<and> in_unit (sp_score p)
     \<and> (seen \<noteq> [] \<longrightarrow> instant (sp_timestamp (last seen)) < instant (sp_timestamp p))
     \<and> instant (sp_timestamp p) \<le> instant (pa_run_end a)"

lemma observe_sel [simp]:
  "pr_consecutive (observe p c s) = pr_consecutive s" "pr_active (observe p c s) = pr_active s"
  "pr_fusion_time (observe p c s) = pr_fusion_time s"
  "pr_score_at_decision (observe p c s) = pr_score_at_decision s"
  "pr_start (observe p c s) = pr_start s" "pr_start_score (observe p c s) = pr_start_score s"
  "pr_peak (observe p c s) = pr_peak s" "pr_episodes (observe p c s) = pr_episodes s"
  "pr_previous (observe p c s) = pr_previous s"
  by (simp_all add: observe_def)

lemma close_episode_ok:
  "close_episode a s t r = Inr ep \<longleftrightarrow> (\<exists>start sc peak. pr_start s = Some start
     \<and> pr_start_score s = Some sc \<and> pr_peak s = Some peak
     \<and> ep = \<lparr>fep_id = episode_id (length (pr_episodes s) + 1), fep_run_id = pa_run_id a,
        fep_entity_id = pa_entity_id a, fep_start = start, fep_end = t, fep_end_reason = r,
        fep_score_at_start = sc, fep_peak = peak\<rparr>)"
  by (auto simp: close_episode_def split: option.splits)

lemma eval_point_guards:
  assumes "loop_inv pol seen s"
  shows "eval_point pol a s p = Inr s' \<longleftrightarrow> point_ok a seen p \<and>
    (let s1 = s\<lparr>pr_previous := Some (sp_timestamp p)\<rparr> in
      if pr_active s1 then active_point pol a s1 p = Inr s' else s' = idle_point pol s1 p)"
  using assms
  by (auto simp: eval_point_def point_ok_def loop_inv_def Let_def sp_validate_utc_datetime_def not_less not_le)

lemma idle_step:
  assumes "policy_wf pol" "loop_inv pol seen s" "\<not> pr_active s"
  shows "policy_step pol a seen s p (idle_point pol (s\<lparr>pr_previous := Some (sp_timestamp p)\<rparr>) p)"
proof -
  let ?n = "if fle (threshold_on pol) (sp_score p) then pr_consecutive s + 1 else 0"
  have n: "?n = int (hot_suffix pol (seen @ [p]))"
    using assms(2,3) by (simp add: loop_inv_def hot_suffix_snoc hot_def)
  have k: "persistence_k pol \<le> ?n \<longleftrightarrow> fires pol (seen @ [p])"
    using assms by (rule idle_fires_iff)
  have hot: "fires pol (seen @ [p]) \<Longrightarrow> fle (threshold_on pol) (sp_score p)"
    using assms(1) by (auto simp: fires_iff_hot_suffix policy_wf_def hot_suffix_snoc hot_def split: if_splits)
  show ?thesis
  proof (cases "fires pol (seen @ [p])")
    case True
    then show ?thesis
      using policy_step.fire [OF assms(3) True n] k hot
      by (cases "pr_fusion_time s") (simp_all add: idle_point_def Let_def)
  next
    case False
    then show ?thesis
      using policy_step.stay [OF assms(3) False n] k
      by (cases "fle (threshold_on pol) (sp_score p)") (simp_all add: idle_point_def Let_def hot_def)
  qed
qed

lemma active_step:
  assumes "loop_inv pol seen s" "pr_active s"
  shows "\<exists>s'. active_point pol a (s\<lparr>pr_previous := Some (sp_timestamp p)\<rparr>) p = Inr s'
    \<and> policy_step pol a seen s p s'"
proof -
  obtain start sc peak where cur: "pr_start s = Some start" "pr_start_score s = Some sc" "pr_peak s = Some peak"
    using assms by (auto simp: loop_inv_def current_stretch_def)
  show ?thesis
  proof (cases "cold pol p")
    case True
    obtain ep where ep: "close_episode a s (sp_timestamp p) Released = Inr ep"
      using cur by (simp add: close_episode_ok)
    moreover have "close_episode a (s\<lparr>pr_previous := Some (sp_timestamp p)\<rparr>) (sp_timestamp p) Released = Inr ep"
      using ep by (simp add: close_episode_ok)
    ultimately show ?thesis
      using policy_step.release [OF assms(2) True ep] True
      by (simp add: active_point_def cold_def)
  next
    case False
    have same: "s\<lparr>pr_previous := Some (sp_timestamp p), pr_peak := Some peak\<rparr>
        = s\<lparr>pr_previous := Some (sp_timestamp p)\<rparr>"
      using cur(3) by (cases s) simp
    show ?thesis
      using policy_step.continue [OF assms(2) False cur(3), of a seen] False same
      by (cases "flt peak (sp_score p)") (simp_all add: active_point_def cold_def cur)
  qed
qed

lemma step_loop_inv:
  assumes wf: "policy_wf pol" and inv: "loop_inv pol seen s" and step: "policy_step pol a seen s p s'"
    and ok: "in_unit (sp_score p)" "\<forall>q \<in> set seen. in_unit (sp_score q)"
  shows "loop_inv pol (seen @ [p]) s'"
  using step
proof cases
  case (stay n)
  then show ?thesis by (simp add: loop_inv_def)
next
  case (fire n)
  then have "current_stretch pol (seen @ [p]) s'"
    using stretch_start [OF fire(3) wf ok(1)] by (auto simp: current_stretch_def)
  with fire show ?thesis by (simp add: loop_inv_def)
next
  case (continue peak)
  obtain pre seg start sc where cur: "seen = pre @ seg" "pr_start s = Some start"
      "pr_start_score s = Some sc" "stretch_of pol pre seg start sc peak"
    using inv continue by (auto simp: loop_inv_def current_stretch_def)
  have "stretch_of pol pre (seg @ [p]) start sc (if flt peak (sp_score p) then sp_score p else peak)"
    using cur ok continue by (intro stretch_extend) auto
  moreover have "seen @ [p] = pre @ (seg @ [p])" using cur(1) by simp
  ultimately have "current_stretch pol (seen @ [p]) s'"
    using cur(2,3) continue unfolding current_stretch_def
    by (intro exI [of _ pre] exI [of _ "seg @ [p]"]) auto
  with continue show ?thesis by (simp add: loop_inv_def)
next
  case (release ep)
  have "\<not> hot pol p" using wf release by (intro cold_not_hot)
  then have "hot_suffix pol (seen @ [p]) = 0" by (simp add: hot_suffix_snoc)
  with release wf show ?thesis by (simp add: loop_inv_def fires_iff_hot_suffix policy_wf_def)
qed

lemma eval_point_step:
  assumes "policy_wf pol" "loop_inv pol seen s" "\<forall>q \<in> set seen. in_unit (sp_score q)" "point_ok a seen p"
  shows "\<exists>s'. eval_point pol a s p = Inr s' \<and> policy_step pol a seen s p s' \<and> loop_inv pol (seen @ [p]) s'"
proof -
  have "\<exists>s'. eval_point pol a s p = Inr s' \<and> policy_step pol a seen s p s'"
  proof (cases "pr_active s")
    case True
    then show ?thesis
      using active_step [OF assms(2) True, of a p] assms(4)
      by (simp add: eval_point_guards [OF assms(2)])
  next
    case False
    then show ?thesis
      using idle_step [OF assms(1,2) False, of a p] assms(4)
      by (simp add: eval_point_guards [OF assms(2)])
  qed
  then show ?thesis using step_loop_inv [OF assms(1,2)] assms(3,4) by (auto simp: point_ok_def)
qed

section \<open>The history of a run\<close>

text \<open>What the episodes closed so far, the detection time and the trace say about the points seen.\<close>

definition released_episode :: "stopping_policy \<Rightarrow> policy_args \<Rightarrow> score_point list \<Rightarrow> fusion_episode \<Rightarrow> bool" where
  "released_episode pol a seen ep \<longleftrightarrow> fep_run_id ep = pa_run_id a \<and> fep_entity_id ep = pa_entity_id a
     \<and> fep_end_reason ep = Released \<and> (\<exists>pre seg q rest. seen = pre @ seg @ q # rest
        \<and> stretch_of pol pre seg (fep_start ep) (fep_score_at_start ep) (fep_peak ep)
        \<and> cold pol q \<and> fep_end ep = sp_timestamp q)"

definition fires_at :: "stopping_policy \<Rightarrow> score_point list \<Rightarrow> nat \<Rightarrow> bool" where
  "fires_at pol ps i = fires pol (take (Suc i) ps)"

definition first_fire :: "stopping_policy \<Rightarrow> score_point list \<Rightarrow> nat \<Rightarrow> bool" where
  "first_fire pol ps i \<longleftrightarrow> i < length ps \<and> fires_at pol ps i \<and> (\<forall>j < i. \<not> fires_at pol ps j)"

definition first_detection ::
  "stopping_policy \<Rightarrow> score_point list \<Rightarrow> datetime \<Rightarrow> py_float \<Rightarrow> bool" where
  "first_detection pol ps t sc \<longleftrightarrow>
     (\<exists>i. first_fire pol ps i \<and> t = sp_timestamp (ps ! i) \<and> sc = sp_score (ps ! i))"

definition never_fires :: "stopping_policy \<Rightarrow> score_point list \<Rightarrow> bool" where
  "never_fires pol ps \<longleftrightarrow> (\<forall>i < length ps. \<not> fires_at pol ps i)"

definition detection_inv :: "stopping_policy \<Rightarrow> score_point list \<Rightarrow> policy_run \<Rightarrow> bool" where
  "detection_inv pol seen s \<longleftrightarrow> (case pr_fusion_time s of
     None \<Rightarrow> \<not> pr_active s \<and> pr_episodes s = [] \<and> never_fires pol seen
   | Some t \<Rightarrow> (\<exists>sc. pr_score_at_decision s = Some sc \<and> first_detection pol seen t sc
       \<and> (if pr_episodes s = [] then pr_active s \<and> pr_start s = Some t \<and> pr_start_score s = Some sc
          else fep_start (hd (pr_episodes s)) = t \<and> fep_score_at_start (hd (pr_episodes s)) = sc)))"

abbreviation ep_before :: "fusion_episode \<Rightarrow> fusion_episode \<Rightarrow> bool" where
  "ep_before e e' \<equiv> instant (fep_end e) < instant (fep_start e')"

definition episodes_inv :: "stopping_policy \<Rightarrow> policy_args \<Rightarrow> score_point list \<Rightarrow> policy_run \<Rightarrow> bool" where
  "episodes_inv pol a seen s \<longleftrightarrow>
     (\<forall>ep \<in> set (pr_episodes s). released_episode pol a seen ep)
     \<and> sorted_wrt ep_before (pr_episodes s)
     \<and> map fep_id (pr_episodes s) = map episode_id [1..<Suc (length (pr_episodes s))]
     \<and> (\<forall>ep \<in> set (pr_episodes s). instant (fep_end ep) \<le> instant (sp_timestamp (last seen)))
     \<and> (\<forall>ep \<in> set (pr_episodes s). \<forall>t. pr_start s = Some t \<longrightarrow> instant (fep_end ep) < instant t)
     \<and> (\<not> pr_active s \<longrightarrow> pr_start s = None)"

definition covered :: "stopping_policy \<Rightarrow> score_point list \<Rightarrow> policy_run \<Rightarrow> bool" where
  "covered pol seen s \<longleftrightarrow> (\<forall>i < length seen. fires_at pol seen i \<longrightarrow>
     (\<exists>ep \<in> set (pr_episodes s). instant (fep_start ep) \<le> instant (sp_timestamp (seen ! i))
        \<and> instant (sp_timestamp (seen ! i)) \<le> instant (fep_end ep))
     \<or> (\<exists>t. pr_active s \<and> pr_start s = Some t \<and> instant t \<le> instant (sp_timestamp (seen ! i))))"

lemma released_episode_append:
  "released_episode pol a seen ep \<Longrightarrow> released_episode pol a (seen @ xs) ep"
  unfolding released_episode_def by (metis append_Cons append_assoc)

lemma close_released:
  assumes "current_stretch pol seen s" "cold pol p" "close_episode a s (sp_timestamp p) Released = Inr ep"
  shows "released_episode pol a (seen @ [p]) ep"
proof -
  from assms(1) obtain pre seg start sc peak where cur: "seen = pre @ seg" "pr_start s = Some start"
      "pr_start_score s = Some sc" "pr_peak s = Some peak" "stretch_of pol pre seg start sc peak"
    by (auto simp: current_stretch_def)
  then have "seen @ [p] = pre @ seg @ p # []" by simp
  with cur assms(2,3) show ?thesis
    unfolding released_episode_def by (auto simp: close_episode_ok)
qed

lemma all_less_snoc: "(\<forall>i < length (xs @ [x]). Q i) \<longleftrightarrow> (\<forall>i < length xs. Q i) \<and> Q (length xs)"
  by (auto simp: less_Suc_eq)

lemma fires_at_old: "i < length ps \<Longrightarrow> fires_at pol (ps @ xs) i = fires_at pol ps i"
  by (simp add: fires_at_def)

lemma fires_at_new [simp]: "fires_at pol (ps @ [p]) (length ps) = fires pol (ps @ [p])"
  by (simp add: fires_at_def)

lemma never_fires_snoc: "never_fires pol (ps @ [p]) \<longleftrightarrow> never_fires pol ps \<and> \<not> fires pol (ps @ [p])"
  unfolding never_fires_def all_less_snoc by (simp add: fires_at_old)

lemma first_detection_append: "first_detection pol ps t sc \<Longrightarrow> first_detection pol (ps @ xs) t sc"
  unfolding first_detection_def first_fire_def
  by (force simp: fires_at_old nth_append)

lemma first_detection_new:
  assumes "never_fires pol ps" "fires pol (ps @ [p])"
  shows "first_detection pol (ps @ [p]) (sp_timestamp p) (sp_score p)"
proof -
  have "first_fire pol (ps @ [p]) (length ps)"
    using assms by (simp add: first_fire_def never_fires_def fires_at_old)
  then show ?thesis unfolding first_detection_def by (intro exI [of _ "length ps"]) simp
qed

lemma step_detection_inv:
  assumes inv: "detection_inv pol seen s" and step: "policy_step pol a seen s p s'"
  shows "detection_inv pol (seen @ [p]) s'"
proof (cases "pr_fusion_time s")
  case None
  with inv have "\<not> pr_active s" "pr_episodes s = []" "never_fires pol seen"
    by (auto simp: detection_inv_def)
  with step None show ?thesis
    by cases (simp_all add: detection_inv_def never_fires_snoc first_detection_new)
next
  case (Some t)
  with inv obtain sc where sc: "pr_score_at_decision s = Some sc"
      "first_detection pol (seen @ [p]) t sc"
    by (auto simp: detection_inv_def first_detection_append)
  from step show ?thesis
    by cases (use inv Some sc in \<open>auto simp: detection_inv_def close_episode_ok split: if_splits\<close>)
qed

lemma current_start_le:
  assumes "current_stretch pol seen s" "pr_start s = Some t"
    "\<forall>q \<in> set seen. instant (sp_timestamp q) < instant (sp_timestamp p)"
  shows "instant t < instant (sp_timestamp p)"
  using assms by (auto simp: current_stretch_def stretch_of_def)

text \<open>Every point of the trajectory seen so far lies before the next one.\<close>

definition newest :: "score_point list \<Rightarrow> score_point \<Rightarrow> bool" where
  "newest seen p \<longleftrightarrow> (\<forall>q \<in> set seen. instant (sp_timestamp q) < instant (sp_timestamp p))"

lemma newest_last:
  assumes "newest seen p" "seen \<noteq> []"
  shows "instant (sp_timestamp (last seen)) < instant (sp_timestamp p)"
  using assms by (simp add: newest_def)

lemma episodes_inv_other:
  assumes inv: "episodes_inv pol a seen s" and new: "newest seen p" and seen: "pr_episodes s \<noteq> [] \<longrightarrow> seen \<noteq> []"
    and eps: "pr_episodes s' = pr_episodes s"
    and start: "pr_start s' = pr_start s \<or> pr_start s' = Some (sp_timestamp p)"
    and idle: "\<not> pr_active s' \<longrightarrow> pr_start s' = None"
  shows "episodes_inv pol a (seen @ [p]) s'"
proof -
  have end_less: "\<forall>ep \<in> set (pr_episodes s). instant (fep_end ep) < instant (sp_timestamp p)"
  proof
    fix ep assume ep: "ep \<in> set (pr_episodes s)"
    with inv have "instant (fep_end ep) \<le> instant (sp_timestamp (last seen))"
      by (simp add: episodes_inv_def)
    also have "\<dots> < instant (sp_timestamp p)" using new seen ep by (auto intro!: newest_last)
    finally show "instant (fep_end ep) < instant (sp_timestamp p)" .
  qed
  show ?thesis
    unfolding episodes_inv_def eps
    using inv end_less start idle
    by (auto simp: episodes_inv_def released_episode_append less_imp_le)
qed

lemma released_nonempty: "released_episode pol a seen ep \<Longrightarrow> seen \<noteq> []"
  by (auto simp: released_episode_def)

lemma step_episodes_inv:
  assumes inv: "episodes_inv pol a seen s" and loop: "loop_inv pol seen s"
    and new: "newest seen p" and step: "policy_step pol a seen s p s'"
  shows "episodes_inv pol a (seen @ [p]) s'"
proof -
  have seen: "pr_episodes s \<noteq> [] \<longrightarrow> seen \<noteq> []"
    using inv by (metis episodes_inv_def last_in_set released_nonempty)
  note other = episodes_inv_other [OF inv new seen]
  from step show ?thesis
  proof cases
    case (stay n)
    with inv show ?thesis by (intro other) (auto simp: episodes_inv_def)
  next
    case (fire n)
    then show ?thesis by (intro other) auto
  next
    case (continue peak)
    then show ?thesis by (intro other) auto
  next
    case (release ep)
    have cur: "current_stretch pol seen s" using loop release by (simp add: loop_inv_def)
    have rel: "released_episode pol a (seen @ [p]) ep"
      using cur release by (intro close_released) auto
    have ep: "fep_end ep = sp_timestamp p" "pr_start s = Some (fep_start ep)"
        "fep_id ep = episode_id (length (pr_episodes s) + 1)"
      using release(4) by (auto simp: close_episode_ok)
    have last: "\<forall>e \<in> set (pr_episodes s). instant (fep_end e) \<le> instant (sp_timestamp p)"
      using inv newest_last [OF new] seen by (fastforce simp: episodes_inv_def)
    have ids: "map fep_id (pr_episodes s @ [ep]) = map episode_id [1..<Suc (length (pr_episodes s @ [ep]))]"
      using inv ep(3) by (simp add: episodes_inv_def)
    show ?thesis
      using inv rel ep last ids unfolding episodes_inv_def release(1)
      by (auto simp: sorted_wrt_append released_episode_append simp del: upt_Suc)
  qed
qed

lemma covered_snoc:
  "covered pol (seen @ [p]) s \<longleftrightarrow>
     (\<forall>i < length seen. fires_at pol seen i \<longrightarrow>
       (\<exists>ep \<in> set (pr_episodes s). instant (fep_start ep) \<le> instant (sp_timestamp (seen ! i))
          \<and> instant (sp_timestamp (seen ! i)) \<le> instant (fep_end ep))
       \<or> (\<exists>t. pr_active s \<and> pr_start s = Some t \<and> instant t \<le> instant (sp_timestamp (seen ! i))))
     \<and> (fires pol (seen @ [p]) \<longrightarrow>
       (\<exists>ep \<in> set (pr_episodes s). instant (fep_start ep) \<le> instant (sp_timestamp p)
          \<and> instant (sp_timestamp p) \<le> instant (fep_end ep))
       \<or> (\<exists>t. pr_active s \<and> pr_start s = Some t \<and> instant t \<le> instant (sp_timestamp p)))"
  unfolding covered_def all_less_snoc by (simp add: fires_at_old nth_append)

lemma step_covered:
  assumes wf: "policy_wf pol" and cov: "covered pol seen s" and loop: "loop_inv pol seen s"
    and new: "newest seen p" and step: "policy_step pol a seen s p s'"
  shows "covered pol (seen @ [p]) s'"
  using step
proof cases
  case (stay n)
  then show ?thesis using cov unfolding covered_snoc by (simp add: covered_def)
next
  case (fire n)
  then show ?thesis using cov unfolding covered_snoc by (auto simp: covered_def)
next
  case (continue peak)
  then have cur: "current_stretch pol seen s" using loop by (simp add: loop_inv_def)
  then obtain t where t: "pr_start s = Some t" by (auto simp: current_stretch_def)
  have "instant t < instant (sp_timestamp p)"
    using current_start_le [OF cur t] new by (simp add: newest_def)
  with continue cov t show ?thesis unfolding covered_snoc by (auto simp: covered_def)
next
  case (release ep)
  have ep: "fep_end ep = sp_timestamp p" "pr_start s = Some (fep_start ep)"
    using release(4) by (auto simp: close_episode_ok)
  have "\<not> fires pol (seen @ [p])"
    using cold_not_hot [OF wf release(3)] wf
    by (simp add: fires_iff_hot_suffix policy_wf_def hot_suffix_snoc)
  moreover have "instant (sp_timestamp (seen ! i)) \<le> instant (fep_end ep)" if "i < length seen" for i
    using new that by (auto simp: newest_def ep(1) less_imp_le)
  ultimately show ?thesis
    using cov release ep unfolding covered_snoc by (fastforce simp: covered_def)
qed

section \<open>Whole runs\<close>

definition traced :: "score_point \<Rightarrow> stopping_trace_point \<Rightarrow> bool" where
  "traced p t \<longleftrightarrow> tp_timestamp t = sp_timestamp p \<and> tp_score t = sp_score p
     \<and> (\<forall>n. tp_persistence t = Some n \<longrightarrow> 1 \<le> n)"

definition run_inv :: "stopping_policy \<Rightarrow> policy_args \<Rightarrow> score_point list \<Rightarrow> policy_run \<Rightarrow> bool" where
  "run_inv pol a seen s \<longleftrightarrow> loop_inv pol seen s \<and> detection_inv pol seen s \<and> episodes_inv pol a seen s
     \<and> covered pol seen s \<and> list_all2 traced seen (pr_trace s)"

lemma run_inv_initial: "policy_wf pol \<Longrightarrow> run_inv pol a [] initial_run"
  using loop_inv_initial [of pol]
  by (simp add: run_inv_def detection_inv_def initial_run_def episodes_inv_def covered_def never_fires_def)

lemma trajectory_ok_snoc:
  "trajectory_ok (pa_run_end a) (seen @ [p]) \<longleftrightarrow> trajectory_ok (pa_run_end a) seen \<and> point_ok a seen p"
  using strict_sorted_snoc [of "map (instant \<circ> sp_timestamp) seen" "instant (sp_timestamp p)"]
  by (auto simp: trajectory_ok_def point_ok_def last_map)

lemma trajectory_ok_newest: "trajectory_ok re (seen @ [p]) \<Longrightarrow> newest seen p"
  by (simp add: trajectory_ok_def newest_def sorted_wrt_append)

lemma step_traced:
  assumes "policy_wf pol" "list_all2 traced seen (pr_trace s)" "policy_step pol a seen s p s'"
  shows "list_all2 traced (seen @ [p]) (pr_trace s')"
  using assms(3)
proof cases
  case (fire n)
  then have "1 \<le> n" using assms(1) by (simp add: fires_iff_hot_suffix policy_wf_def)
  with fire assms(2) show ?thesis by (simp add: observe_def traced_def list_all2_appendI)
next
  case (stay n)
  then have "hot pol p \<Longrightarrow> 1 \<le> n" by (simp add: hot_suffix_snoc)
  with stay assms(2) show ?thesis by (auto simp: observe_def traced_def intro!: list_all2_appendI)
qed (use assms(2) in \<open>simp_all add: observe_def traced_def list_all2_appendI\<close>)

lemma eval_point_run_inv:
  assumes wf: "policy_wf pol" and inv: "run_inv pol a seen s"
    and ok: "trajectory_ok (pa_run_end a) (seen @ [p])"
  shows "\<exists>s'. eval_point pol a s p = Inr s' \<and> run_inv pol a (seen @ [p]) s'"
proof -
  have point: "point_ok a seen p" using ok by (simp add: trajectory_ok_snoc)
  have unit: "\<forall>q \<in> set seen. in_unit (sp_score q)" using ok by (simp add: trajectory_ok_def)
  have new: "newest seen p" using ok by (rule trajectory_ok_newest)
  obtain s' where s': "eval_point pol a s p = Inr s'" "policy_step pol a seen s p s'"
      "loop_inv pol (seen @ [p]) s'"
    using eval_point_step [OF wf _ unit point, of s] inv by (auto simp: run_inv_def)
  have "run_inv pol a (seen @ [p]) s'"
    using inv wf s'(2,3) new unfolding run_inv_def
    by (auto intro: step_detection_inv step_episodes_inv step_covered step_traced)
  with s'(1) show ?thesis by blast
qed

lemma eval_points_run:
  assumes "policy_wf pol" "run_inv pol a seen s" "trajectory_ok (pa_run_end a) (seen @ ps)"
  shows "\<exists>s'. eval_points pol a s ps = Inr s' \<and> run_inv pol a (seen @ ps) s'"
  using assms(2,3)
proof (induction ps arbitrary: seen s)
  case Nil
  then show ?case by simp
next
  case (Cons p ps)
  have "trajectory_ok (pa_run_end a) (seen @ [p])"
    using Cons.prems(2) by (auto simp: trajectory_ok_def sorted_wrt_append)
  then obtain s1 where "eval_point pol a s p = Inr s1" "run_inv pol a (seen @ [p]) s1"
    using eval_point_run_inv [OF assms(1) Cons.prems(1)] by blast
  with Cons.IH [of "seen @ [p]" s1] Cons.prems(2) show ?case by auto
qed

lemma eval_points_ok_only:
  assumes "policy_wf pol" "run_inv pol a seen s" "trajectory_ok (pa_run_end a) seen"
    "eval_points pol a s ps = Inr s'"
  shows "trajectory_ok (pa_run_end a) (seen @ ps)"
  using assms(2-4)
proof (induction ps arbitrary: seen s)
  case Nil
  then show ?case by simp
next
  case (Cons p ps)
  then obtain s1 where s1: "eval_point pol a s p = Inr s1" "eval_points pol a s1 ps = Inr s'" by auto
  have "loop_inv pol seen s" using Cons.prems(1) by (simp add: run_inv_def)
  with s1(1) have "point_ok a seen p" by (simp add: eval_point_guards)
  with Cons.prems(2) have ok: "trajectory_ok (pa_run_end a) (seen @ [p])" by (simp add: trajectory_ok_snoc)
  from eval_point_run_inv [OF assms(1) Cons.prems(1) ok] s1(1)
  have "run_inv pol a (seen @ [p]) s1" by simp
  from Cons.IH [OF this ok s1(2)] show ?case by simp
qed

text \<open>What a result of \<open>evaluate\<close> says about the trajectory.\<close>

definition detection_spec :: "stopping_policy \<Rightarrow> score_point list \<Rightarrow> stopping_result \<Rightarrow> bool" where
  "detection_spec pol traj r \<longleftrightarrow> (case sr_time r of
     None \<Rightarrow> sr_status r = Miss \<and> sr_score r = None \<and> sr_episodes r = [] \<and> never_fires pol traj
   | Some t \<Rightarrow> sr_status r = Detected \<and> (\<exists>sc. sr_score r = Some sc \<and> first_detection pol traj t sc
       \<and> sr_episodes r \<noteq> [] \<and> fep_start (hd (sr_episodes r)) = t
       \<and> fep_score_at_start (hd (sr_episodes r)) = sc))"

definition episodes_spec :: "stopping_policy \<Rightarrow> policy_args \<Rightarrow> score_point list \<Rightarrow> stopping_result \<Rightarrow> bool" where
  "episodes_spec pol a traj r \<longleftrightarrow>
     (\<forall>ep \<in> set (sr_episodes r). episode_of pol a traj ep) \<and> sorted_wrt ep_before (sr_episodes r)
     \<and> map fep_id (sr_episodes r) = map episode_id [1..<Suc (length (sr_episodes r))]
     \<and> (\<forall>i < length traj. fires_at pol traj i \<longrightarrow> (\<exists>ep \<in> set (sr_episodes r).
          instant (fep_start ep) \<le> instant (sp_timestamp (traj ! i))
          \<and> instant (sp_timestamp (traj ! i)) \<le> instant (fep_end ep)))"

lemma released_is_episode: "released_episode pol a traj ep \<Longrightarrow> episode_of pol a traj ep"
  unfolding released_episode_def episode_of_def
  by (elim conjE exE, intro conjI exI) (assumption | simp)+

lemma close_at_end:
  assumes "current_stretch pol traj s" "close_episode a s (pa_run_end a) (pa_reason a) = Inr ep"
    "pa_reason a \<noteq> Released"
  shows "episode_of pol a traj ep"
proof -
  from assms(1) obtain pre seg start sc peak where cur: "traj = pre @ seg" "pr_start s = Some start"
      "pr_start_score s = Some sc" "pr_peak s = Some peak" "stretch_of pol pre seg start sc peak"
    by (auto simp: current_stretch_def)
  have ep: "fep_run_id ep = pa_run_id a" "fep_entity_id ep = pa_entity_id a" "fep_start ep = start"
      "fep_score_at_start ep = sc" "fep_peak ep = peak" "fep_end ep = pa_run_end a"
      "fep_end_reason ep = pa_reason a"
    using assms(2) cur by (auto simp: close_episode_ok)
  have "\<exists>pre seg post. traj = pre @ seg @ post
      \<and> stretch_of pol pre seg (fep_start ep) (fep_score_at_start ep) (fep_peak ep)
      \<and> (if fep_end_reason ep = Released
         then post \<noteq> [] \<and> cold pol (hd post) \<and> fep_end ep = sp_timestamp (hd post)
         else post = [] \<and> fep_end_reason ep = pa_reason a \<and> fep_end ep = pa_run_end a)"
    by (intro exI [of _ pre] exI [of _ seg] exI [of _ "[]"]) (simp add: cur ep assms(3))
  with ep show ?thesis by (simp add: episode_of_def)
qed

text \<open>\<open>finish_run\<close> never raises, and its result meets the specification.\<close>

lemma finish_run_total:
  assumes inv: "run_inv pol a traj s" and ok: "trajectory_ok (pa_run_end a) traj"
    and reason: "pa_reason a \<noteq> Released"
  shows "\<exists>r. finish_run a s = Inr r \<and> detection_spec pol traj r \<and> episodes_spec pol a traj r"
proof (cases "pr_fusion_time s")
  case None
  with inv have "never_fires pol traj" by (simp add: run_inv_def detection_inv_def)
  then show ?thesis
    by (auto simp: finish_run_def None detection_spec_def episodes_spec_def never_fires_def)
next
  case (Some t)
  note eps = inv [unfolded run_inv_def episodes_inv_def]
  obtain sc where sc: "pr_score_at_decision s = Some sc" "first_detection pol traj t sc"
    using inv Some by (auto simp: run_inv_def detection_inv_def)
  have le_end: "instant (sp_timestamp (traj ! i)) \<le> instant (pa_run_end a)" if "i < length traj" for i
    using ok that by (simp add: trajectory_ok_def)
  show ?thesis
  proof (cases "pr_active s")
    case False
    then have "finish_run a s = Inr \<lparr>sr_status = Detected, sr_time = Some t,
        sr_score = Some sc, sr_episodes = pr_episodes s\<rparr>"
      by (simp add: finish_run_def Some sc)
    with inv Some sc False show ?thesis
      by (auto simp: run_inv_def detection_inv_def detection_spec_def episodes_spec_def episodes_inv_def
          covered_def released_is_episode simp del: upt_Suc split: if_splits)
  next
    case True
    then have cur: "current_stretch pol traj s" using inv by (simp add: run_inv_def loop_inv_def)
    then obtain ep where ep: "close_episode a s (pa_run_end a) (pa_reason a) = Inr ep"
      by (auto simp: current_stretch_def close_episode_ok)
    then have sel: "pr_start s = Some (fep_start ep)" "pr_start_score s = Some (fep_score_at_start ep)"
        "fep_id ep = episode_id (length (pr_episodes s) + 1)" "fep_end ep = pa_run_end a"
      by (auto simp: close_episode_ok)
    let ?r = "\<lparr>sr_status = Detected, sr_time = Some t, sr_score = Some sc,
        sr_episodes = pr_episodes s @ [ep]\<rparr>"
    have "finish_run a s = Inr ?r" using True by (simp add: finish_run_def Some sc ep)
    moreover have "detection_spec pol traj ?r"
      using inv Some sc sel by (auto simp: run_inv_def detection_inv_def detection_spec_def split: if_splits)
    moreover have "episodes_spec pol a traj ?r"
      unfolding episodes_spec_def
    proof (intro conjI)
      show "\<forall>e \<in> set (sr_episodes ?r). episode_of pol a traj e"
        using eps close_at_end [OF cur ep reason] by (auto simp: released_is_episode)
      show "sorted_wrt ep_before (sr_episodes ?r)"
        using eps sel by (auto simp: sorted_wrt_append)
      show "map fep_id (sr_episodes ?r) = map episode_id [1..<Suc (length (sr_episodes ?r))]"
        using eps sel by simp
      show "\<forall>i < length traj. fires_at pol traj i \<longrightarrow> (\<exists>e \<in> set (sr_episodes ?r).
          instant (fep_start e) \<le> instant (sp_timestamp (traj ! i))
          \<and> instant (sp_timestamp (traj ! i)) \<le> instant (fep_end e))"
        using inv sel le_end by (fastforce simp: run_inv_def covered_def)
    qed
    ultimately show ?thesis by blast
  qed
qed

lemma evaluate_total:
  assumes "policy_wf pol" "\<not> blank (pa_entity_id a)" "is_utc (pa_run_end a)"
    "pa_reason a \<noteq> Released" "trajectory_ok (pa_run_end a) traj"
  shows "\<exists>r tr. evaluate pol a traj = Inr (r, tr) \<and> detection_spec pol traj r
    \<and> episodes_spec pol a traj r \<and> list_all2 traced traj tr"
proof -
  obtain s where s: "eval_points pol a initial_run traj = Inr s" "run_inv pol a traj s"
    using eval_points_run [OF assms(1) run_inv_initial [OF assms(1)], of a traj] assms(5) by auto
  obtain r where r: "finish_run a s = Inr r" "detection_spec pol traj r" "episodes_spec pol a traj r"
    using finish_run_total [OF s(2) assms(5,4)] by blast
  have "pa_reason a = RunEnd \<or> pa_reason a = ReplayEnd" using assms(4) by (cases "pa_reason a") auto
  with assms(2,3) s r have "evaluate pol a traj = Inr (r, pr_trace s)"
    by (auto simp: evaluate_def validate_entity_id_def sp_validate_utc_datetime_def raise_if_def)
  with s(2) r show ?thesis by (auto simp: run_inv_def)
qed

lemma evaluate_ok_iff:
  assumes "policy_wf pol"
  shows "(\<exists>res. evaluate pol a traj = Inr res) \<longleftrightarrow>
    \<not> blank (pa_entity_id a) \<and> is_utc (pa_run_end a) \<and> pa_reason a \<noteq> Released
    \<and> trajectory_ok (pa_run_end a) traj" (is "?L \<longleftrightarrow> ?R")
proof
  assume ?R
  then show ?L using evaluate_total [OF assms, of a traj] by auto
next
  assume ?L
  then obtain s where s: "\<not> blank (pa_entity_id a)" "is_utc (pa_run_end a)"
      "pa_reason a = RunEnd \<or> pa_reason a = ReplayEnd" "eval_points pol a initial_run traj = Inr s"
    by (auto simp: evaluate_def validate_entity_id_def sp_validate_utc_datetime_def)
  have "trajectory_ok (pa_run_end a) []" by (simp add: trajectory_ok_def)
  from eval_points_ok_only [OF assms run_inv_initial [OF assms] this s(4)] s(1-3) show ?R by auto
qed

end
