(* ===== verification/TemporalReplay.thy ===== *)
theory TemporalReplay
  imports WindowEngine SimpleScore StoppingPolicy
begin

text \<open>
  \<open>decision/fusion/temporal_replay.py\<close>: the replay of a run on a fixed cadence. The runner
  is built around three collaborators; the loops take the operations they call on them in the
  record \<open>collaborators\<close>, so that the facts about the loop of \<open>run\<close> are proved once in the
  locale \<open>evidence_window\<close> and used through its interpretation on the window engine.

  The lists the loops append to are built front to back here, and the index into the ordered
  Evidence is the list of what is left. The cadence loops test \<open>0 < step\<close> beside their
  guard to be total; the constructor refuses any other step size.
\<close>

section \<open>Data\<close>

record evidence_snapshot =
  es_timestamp :: datetime
  es_evidence_ids :: "string list"

record scheduled_evidence =
  sch_evidence :: evidence
  sch_available_at :: datetime

record temporal_replay_result =
  rr_trajectory :: "score_point list"
  rr_snapshots :: "evidence_snapshot list"
  rr_stopping_result :: stopping_result
  rr_stopping_trace :: "stopping_trace_point list"

record temporal_replay_runner =
  rn_window_engine :: window_engine
  rn_scorer :: simple_scorer
  rn_stopping_policy :: stopping_policy
  rn_step_size :: int

definition new_replay_runner ::
  "window_engine \<Rightarrow> simple_scorer \<Rightarrow> stopping_policy \<Rightarrow> int \<Rightarrow> temporal_replay_runner result" where
  "new_replay_runner we sc pol step =
     seq (raise_if (step \<le> 0) (ValueError ''step_size must be greater than zero''))
     (Inr \<lparr>rn_window_engine = we, rn_scorer = sc, rn_stopping_policy = pol, rn_step_size = step\<rparr>)"

definition validate_run_time :: "string \<Rightarrow> datetime \<Rightarrow> unit result" where
  "validate_run_time field_name d = require_utc field_name d"

section \<open>The replay by event time\<close>

record 'w collaborators =
  co_ingest :: "'w \<Rightarrow> evidence \<Rightarrow> 'w result"
  co_advance :: "'w \<Rightarrow> state_key \<Rightarrow> datetime \<Rightarrow> 'w result"
  co_active :: "'w \<Rightarrow> state_key \<Rightarrow> evidence list"
  co_score :: "evidence list \<Rightarrow> py_float"
  co_ids :: "evidence list \<Rightarrow> string list"

fun ingest_due :: "('w \<Rightarrow> evidence \<Rightarrow> 'w result) \<Rightarrow> int \<Rightarrow> evidence list \<Rightarrow> 'w
    \<Rightarrow> ('w \<times> evidence list) result" where
  "ingest_due ing now [] w = Inr (w, [])"
| "ingest_due ing now (e # es) w =
     (if evd_at e \<le> now then bnd (ing w e) (\<lambda>w'. ingest_due ing now es w') else Inr (w, e # es))"

definition score_point_at :: "'w collaborators \<Rightarrow> datetime \<Rightarrow> evidence list \<Rightarrow> score_point" where
  "score_point_at co t active_evidence = \<lparr>sp_timestamp = t, sp_score = co_score co active_evidence\<rparr>"

definition snapshot_at :: "'w collaborators \<Rightarrow> datetime \<Rightarrow> evidence list \<Rightarrow> evidence_snapshot" where
  "snapshot_at co t active_evidence = \<lparr>es_timestamp = t, es_evidence_ids = co_ids co active_evidence\<rparr>"

function replay_loop :: "'w collaborators \<Rightarrow> state_key \<Rightarrow> int \<Rightarrow> datetime \<Rightarrow> datetime \<Rightarrow> evidence list \<Rightarrow> 'w
    \<Rightarrow> (score_point list \<times> evidence_snapshot list \<times> 'w) result" where
  "replay_loop co key step until t pending w =
     (if instant t \<le> instant until \<and> 0 < step then
        bnd (ingest_due (co_ingest co) (instant t) pending w) (\<lambda>(w1, rest).
        bnd (co_advance co w1 key t) (\<lambda>w2.
        let active_evidence = co_active co w2 key in
        bnd (replay_loop co key step until (add_delta t step) rest w2) (\<lambda>(points, snapshots, w3).
        Inr (score_point_at co t active_evidence # points,
             snapshot_at co t active_evidence # snapshots, w3))))
      else Inr ([], [], w))"
  by pat_completeness auto
termination
  by (relation "measure (\<lambda>(co, key, step, until, t, pending, w). nat (instant until - instant t + 1))") auto

declare replay_loop.simps [simp del]

definition replay_boundary ::
  "datetime \<Rightarrow> datetime \<Rightarrow> datetime option \<Rightarrow> (datetime \<times> fusion_end_reason \<times> string) result" where
  "replay_boundary run_start run_end replay_end = (case replay_end of
     None \<Rightarrow> Inr (run_end, RunEnd, ''run_end'')
   | Some re \<Rightarrow>
       seq (validate_run_time ''replay_end'' re)
       (seq (raise_first
         [(instant re < instant run_start, ValueError ''replay_end must not be earlier than run_start''),
          (instant run_end < instant re, ValueError ''replay_end must not be later than run_end'')])
       (Inr (if instant re < instant run_end then (re, ReplayEnd, ''replay_end'')
             else (re, RunEnd, ''run_end'')))))"

fun check_evidences :: "string \<Rightarrow> string \<Rightarrow> datetime \<Rightarrow> datetime \<Rightarrow> string \<Rightarrow> datetime option
    \<Rightarrow> evidence list \<Rightarrow> unit result" where
  "check_evidences run_id entity_id start until field prev [] = Inr ()"
| "check_evidences run_id entity_id start until field prev (e # es) =
     seq (validate_run_time ''Evidence timestamp'' (evd_timestamp e))
     (seq (raise_first
       [(evd_run_id e \<noteq> run_id, ValueError ''Evidence run_id must match replay run_id''),
        (evd_entity_id e \<noteq> entity_id, ValueError ''Evidence entity_id must match replay entity_id''),
        (evd_at e < instant start, ValueError ''Evidence timestamp must not be earlier than run_start''),
        (instant until < evd_at e, ValueError (''Evidence timestamp must not exceed '' @ field)),
        (earlier_than (evd_timestamp e) prev, ValueError ''Evidence timestamps must be non-decreasing'')])
     (check_evidences run_id entity_id start until field (Some (evd_timestamp e)) es))"

definition engine_collaborators :: "simple_scorer \<Rightarrow> window_engine collaborators" where
  "engine_collaborators sc = \<lparr>co_ingest = ingest, co_advance = advance_to,
     co_active = get_active_evidence, co_score = score sc, co_ids = contributing_evidence_ids sc\<rparr>"

record run_request =
  rq_run_id :: string
  rq_entity_id :: string
  rq_run_start :: datetime
  rq_run_end :: datetime

text \<open>The result, and the runner with the window engine the run leaves behind.\<close>

definition run :: "temporal_replay_runner \<Rightarrow> evidence list \<Rightarrow> run_request \<Rightarrow> datetime option
    \<Rightarrow> (temporal_replay_result \<times> temporal_replay_runner) result" where
  "run r evidences rq replay_end =
     seq (validate_run_time ''run_start'' (rq_run_start rq))
     (seq (validate_run_time ''run_end'' (rq_run_end rq))
     (seq (raise_if (instant (rq_run_end rq) < instant (rq_run_start rq))
       (ValueError ''run_end must not be earlier than run_start''))
     (bnd (replay_boundary (rq_run_start rq) (rq_run_end rq) replay_end) (\<lambda>(effective_end, reason, field).
     seq (raise_if ((instant effective_end - instant (rq_run_start rq)) mod rn_step_size r \<noteq> 0)
       (ValueError (field @ '' must align with step_size from run_start'')))
     (seq (check_evidences (rq_run_id rq) (rq_entity_id rq) (rq_run_start rq) effective_end field None evidences)
     (let key = (rq_run_id rq, rq_entity_id rq);
          w = reset (rn_window_engine r) key
      in bnd (replay_loop (engine_collaborators (rn_scorer r)) key (rn_step_size r) effective_end
           (rq_run_start rq) evidences w) (\<lambda>(points, snapshots, w').
         bnd (evaluate (rn_stopping_policy r)
           \<lparr>pa_run_id = rq_run_id rq, pa_entity_id = rq_entity_id rq, pa_run_end = effective_end,
            pa_reason = reason\<rparr> points) (\<lambda>(stopping, trace).
         Inr (\<lparr>rr_trajectory = points, rr_snapshots = snapshots, rr_stopping_result = stopping,
               rr_stopping_trace = trace\<rparr>, r\<lparr>rn_window_engine := w'\<rparr>)))))))))"

section \<open>The causal replay\<close>

fun check_scheduled :: "run_request \<Rightarrow> string set \<Rightarrow> scheduled_evidence list \<Rightarrow> unit result" where
  "check_scheduled rq ids [] = Inr ()"
| "check_scheduled rq ids (s # ss) = (let e = sch_evidence s in
     seq (validate_run_time ''Evidence timestamp'' (evd_timestamp e))
     (seq (validate_run_time ''available_at'' (sch_available_at s))
     (seq (raise_first
       [(evd_id e \<in> ids, ValueError ''scheduled Evidence IDs must be unique''),
        (evd_run_id e \<noteq> rq_run_id rq, ValueError ''Evidence run_id must match replay run_id''),
        (evd_entity_id e \<noteq> rq_entity_id rq, ValueError ''Evidence entity_id must match replay entity_id''),
        (\<not> (instant (rq_run_start rq) \<le> evd_at e \<and> evd_at e \<le> instant (rq_run_end rq)),
           ValueError ''Evidence timestamp must fall within replay boundaries''),
        (\<not> (instant (rq_run_start rq) \<le> instant (sch_available_at s)
             \<and> instant (sch_available_at s) \<le> instant (rq_run_end rq)),
           ValueError ''available_at must fall within replay boundaries''),
        (instant (sch_available_at s) < evd_at e,
           ValueError ''available_at must not be earlier than Evidence timestamp'')])
     (check_scheduled rq (insert (evd_id e) ids) ss))))"

definition schedule_key :: "scheduled_evidence \<Rightarrow> int \<times> int \<times> string" where
  "schedule_key s = (instant (sch_available_at s), evd_at (sch_evidence s), evd_id (sch_evidence s))"

function cadence :: "int \<Rightarrow> datetime \<Rightarrow> datetime \<Rightarrow> datetime list" where
  "cadence step until t =
     (if instant t \<le> instant until \<and> 0 < step then t # cadence step until (add_delta t step) else [])"
  by pat_completeness auto
termination
  by (relation "measure (\<lambda>(step, until, t). nat (instant until - instant t + 1))") auto

declare cadence.simps [simp del]

definition causal_replay_points :: "int \<Rightarrow> datetime \<Rightarrow> datetime \<Rightarrow> datetime list" where
  "causal_replay_points step run_start run_end =
     (let points = cadence step run_end run_start
      in if instant (last points) \<noteq> instant run_end then points @ [run_end] else points)"

fun causal_loop :: "temporal_replay_runner \<Rightarrow> datetime list \<Rightarrow> evidence list \<Rightarrow> scheduled_evidence list
    \<Rightarrow> (score_point list \<times> evidence_snapshot list) result" where
  "causal_loop r [] activated pending = Inr ([], [])"
| "causal_loop r (t # ts) activated pending =
     (let due = takeWhile (\<lambda>s. instant (sch_available_at s) \<le> instant t) pending;
          rest = dropWhile (\<lambda>s. instant (sch_available_at s) \<le> instant t) pending;
          activated' = activated @ map sch_evidence due;
          co = engine_collaborators (rn_scorer r)
      in bnd (filter_by_event_time_window (rn_window_engine r) activated' t) (\<lambda>active_evidence.
         bnd (causal_loop r ts activated' rest) (\<lambda>(points, snapshots).
         Inr (score_point_at co t active_evidence # points, snapshot_at co t active_evidence # snapshots))))"

definition run_causal :: "temporal_replay_runner \<Rightarrow> scheduled_evidence list \<Rightarrow> run_request
    \<Rightarrow> temporal_replay_result result" where
  "run_causal r scheduled rq =
     seq (validate_run_time ''run_start'' (rq_run_start rq))
     (seq (validate_run_time ''run_end'' (rq_run_end rq))
     (seq (raise_if (instant (rq_run_end rq) < instant (rq_run_start rq))
       (ValueError ''run_end must not be earlier than run_start''))
     (seq (check_scheduled rq {} scheduled)
     (let ordered = sort_key schedule_key scheduled;
          replay_points = causal_replay_points (rn_step_size r) (rq_run_start rq) (rq_run_end rq)
      in bnd (causal_loop r replay_points [] ordered) (\<lambda>(points, snapshots).
         bnd (evaluate (rn_stopping_policy r)
           \<lparr>pa_run_id = rq_run_id rq, pa_entity_id = rq_entity_id rq, pa_run_end = rq_run_end rq,
            pa_reason = RunEnd\<rparr> points) (\<lambda>(stopping, trace).
         Inr \<lparr>rr_trajectory = points, rr_snapshots = snapshots, rr_stopping_result = stopping,
              rr_stopping_trace = trace\<rparr>))))))"

end
