(* ===== verification/ReplayCorrectness.thy ===== *)
theory ReplayCorrectness
  imports TemporalReplay
begin

text \<open>
  What the replay computes: at every point of the cadence, the score of the Evidence whose
  event time lies in the window ending there (\<open>run\<close>), and that has become available
  (\<open>run_causal\<close>). The loop of \<open>run\<close> is proved against the interface
  \<open>evidence_window\<close> and used on the engine through its interpretation.
\<close>

section \<open>The cadence\<close>

lemma cadence_step: "instant t \<le> instant until \<Longrightarrow> 0 < step \<Longrightarrow>
    cadence step until t = t # cadence step until (add_delta t step)"
  by (subst cadence.simps) simp

lemma cadence_end: "instant until < instant t \<Longrightarrow> cadence step until t = []"
  by (subst cadence.simps) simp

lemma cadence_stop: "\<not> (instant t \<le> instant until \<and> 0 < step) \<Longrightarrow> cadence step until t = []"
  by (subst cadence.simps) auto

lemma cadence_ge: "p \<in> set (cadence step until t) \<Longrightarrow> instant t \<le> instant p"
proof (induction step until t rule: cadence.induct)
  case (1 step until t)
  then show ?case
    by (subst (asm) cadence.simps) (fastforce split: if_splits)
qed

lemma cadence_le: "p \<in> set (cadence step until t) \<Longrightarrow> instant p \<le> instant until"
proof (induction step until t rule: cadence.induct)
  case (1 step until t)
  then show ?case
    by (subst (asm) cadence.simps) (auto split: if_splits)
qed

lemma cadence_utc: "is_utc t \<Longrightarrow> p \<in> set (cadence step until t) \<Longrightarrow> is_utc p"
proof (induction step until t rule: cadence.induct)
  case (1 step until t)
  then show ?case
    by (subst (asm) (2) cadence.simps) (auto split: if_splits)
qed

lemma cadence_sorted: "sorted_wrt (<) (map instant (cadence step until t))"
proof (induction step until t rule: cadence.induct)
  case (1 step until t)
  show ?case
  proof (cases "instant t \<le> instant until \<and> 0 < step")
    case True
    then show ?thesis
      using "1.IH" cadence_ge [of _ step until "add_delta t step"] by (fastforce simp: cadence_step)
  next
    case False
    then show ?thesis by (simp add: cadence_stop)
  qed
qed

lemma cadence_congruent: "p \<in> set (cadence step until t) \<Longrightarrow> (instant p - instant t) mod step = 0"
proof (induction step until t rule: cadence.induct)
  case (1 step until t)
  show ?case
  proof (cases "instant t \<le> instant until \<and> 0 < step")
    case True
    then consider "p = t" | "p \<in> set (cadence step until (add_delta t step))"
      using "1.prems" by (auto simp: cadence_step)
    then show ?thesis
    proof cases
      case 2
      then have "(instant p - (instant t + step)) mod step = 0" using "1.IH" True by simp
      then show ?thesis by (metis diff_diff_eq minus_mod_self2)
    qed simp
  next
    case False
    with "1.prems" show ?thesis by (subst (asm) cadence.simps) simp
  qed
qed

lemma cadence_length:
  "0 < step \<Longrightarrow> instant t \<le> instant until \<Longrightarrow>
     int (length (cadence step until t)) = (instant until - instant t) div step + 1"
proof (induction step until t rule: cadence.induct)
  case (1 step until t)
  show ?case
  proof (cases "instant t + step \<le> instant until")
    case True
    have IH: "int (length (cadence step until (add_delta t step)))
        = (instant until - (instant t + step)) div step + 1"
      using "1.IH" [OF _ "1.prems"(1)] "1.prems" True by simp
    have "(instant until - (instant t + step)) div step = (instant until - instant t) div step - 1"
      using "1.prems"(1) div_add_self2 [of step "instant until - (instant t + step)"] by simp
    with IH "1.prems" show ?thesis by (simp add: cadence_step)
  next
    case False
    then have "(instant until - instant t) div step = 0"
      using "1.prems" by (intro div_pos_pos_trivial) auto
    with "1.prems" False show ?thesis by (simp add: cadence_step cadence_end)
  qed
qed

lemma cadence_last:
  assumes "0 < step" "instant t \<le> instant until" "(instant until - instant t) mod step = 0"
  shows "instant (last (cadence step until t)) = instant until"
  using assms
proof (induction step until t rule: cadence.induct)
  case (1 step until t)
  show ?case
  proof (cases "instant t = instant until")
    case True
    with "1.prems" show ?thesis by (simp add: cadence_step cadence_end)
  next
    case False
    have "step \<le> instant until - instant t"
      using "1.prems" False by (intro zdvd_imp_le) (auto simp: mod_eq_0_iff_dvd)
    then have le: "instant t + step \<le> instant until" by simp
    have "(instant until - (instant t + step)) mod step = 0"
      using "1.prems"(3) by (metis diff_diff_eq minus_mod_self2)
    then have "instant (last (cadence step until (add_delta t step))) = instant until"
      using "1.IH" [OF _ "1.prems"(1)] "1.prems"(1,2) le by simp
    moreover have "cadence step until (add_delta t step) \<noteq> []"
      using le "1.prems" by (simp add: cadence_step)
    ultimately show ?thesis using "1.prems" by (simp add: cadence_step)
  qed
qed

section \<open>The loop of the event-time replay\<close>

context evidence_window
begin

lemma ingest_due_rel:
  assumes "rel k w seen a" "\<forall>e \<in> set pending. evidence_key e = k" "sorted (map evd_at (seen @ pending))"
    "\<forall>t. a = Some t \<longrightarrow> (\<forall>e \<in> set pending. t \<le> evd_at e)"
  shows "\<exists>w'. ingest_due ingest now pending w
        = Inr (w', dropWhile (\<lambda>e. evd_at e \<le> now) pending)
      \<and> rel k w' (seen @ takeWhile (\<lambda>e. evd_at e \<le> now) pending) a \<and> size_of w' = size_of w"
  using assms
proof (induction pending arbitrary: seen w)
  case Nil
  then show ?case by simp
next
  case (Cons e es)
  show ?case
  proof (cases "evd_at e \<le> now")
    case True
    have "\<forall>x \<in> set seen. evd_at x \<le> evd_at e" using Cons.prems(3) by (auto simp: sorted_append)
    then have "\<exists>w1. ingest w e = Inr w1 \<and> rel k w1 (seen @ [e]) a \<and> size_of w1 = size_of w"
      using Cons.prems by (intro ingest_rel) auto
    then obtain w1 where w1: "ingest w e = Inr w1" "rel k w1 (seen @ [e]) a" "size_of w1 = size_of w"
      by blast
    then show ?thesis using Cons.IH [OF w1(2)] Cons.prems True by auto
  next
    case False
    then show ?thesis using Cons.prems(1) by simp
  qed
qed

text \<open>Points and snapshots of the loop from time \<open>t\<close> on, by the abstract window.\<close>

lemma replay_loop_spec:
  fixes co :: "'w collaborators"
  assumes co: "co_ingest co = ingest" "co_advance co = advance" "co_active co = active"
    and "rel k w seen a" "\<forall>e \<in> set pending. evidence_key e = k"
    "sorted (map evd_at (seen @ pending))" "is_utc t"
    "\<forall>e \<in> set seen. evd_at e \<le> instant t" "\<forall>t'. a = Some t' \<longrightarrow> t' \<le> instant t \<and> (\<forall>e \<in> set pending. t' \<le> evd_at e)"
  shows "\<exists>w'. replay_loop co k step until t pending w =
      Inr (map (\<lambda>p. score_point_at co p (filter (in_window (size_of w) (instant p)) (seen @ pending))) (cadence step until t),
           map (\<lambda>p. snapshot_at co p (filter (in_window (size_of w) (instant p)) (seen @ pending))) (cadence step until t), w')"
  using assms(4-)
proof (induction "nat (instant until - instant t + 1)" arbitrary: t pending w seen a rule: less_induct)
  case less
  show ?case
  proof (cases "instant t \<le> instant until \<and> 0 < step")
    case False
    then show ?thesis by (subst replay_loop.simps) (auto simp: cadence_stop)
  next
    case True
    let ?due = "takeWhile (\<lambda>e. evd_at e \<le> instant t) pending"
    let ?rest = "dropWhile (\<lambda>e. evd_at e \<le> instant t) pending"
    have split: "(seen @ ?due) @ ?rest = seen @ pending" by simp
    have sorted: "sorted (map evd_at pending)" using "less.prems"(3) by (simp add: sorted_append)
    obtain w1 where w1: "ingest_due ingest (instant t) pending w = Inr (w1, ?rest)"
        "rel k w1 (seen @ ?due) a" "size_of w1 = size_of w"
      using ingest_due_rel [OF "less.prems"(1-3)] "less.prems"(6) by blast
    have due_le: "\<forall>e \<in> set (seen @ ?due). evd_at e \<le> instant t"
      using "less.prems"(5) by (auto dest: set_takeWhileD)
    obtain w2 where w2: "advance w1 k t = Inr w2" "rel k w2 (seen @ ?due) (Some (instant t))"
        "size_of w2 = size_of w"
      using advance_rel [OF w1(2) "less.prems"(4) due_le] "less.prems"(6) w1(3) by auto
    have rest_gt: "\<forall>e \<in> set ?rest. instant t < evd_at e"
      using dropWhile_sorted_gt [OF sorted] by blast
    have act: "active w2 k = filter (in_window (size_of w) (instant t)) (seen @ pending)"
    proof -
      have "filter (in_window (size_of w) (instant t)) ?rest = []"
        using rest_gt by (auto simp: in_window_def filter_empty_conv)
      then have "filter (in_window (size_of w) (instant t)) ((seen @ ?due) @ ?rest)
          = filter (in_window (size_of w) (instant t)) (seen @ ?due)"
        by (simp only: filter_append append_Nil2)
      then show ?thesis using active_rel [OF w2(2)] w2(3) unfolding split by simp
    qed
    have prem1: "\<forall>e \<in> set ?rest. evidence_key e = k"
      using "less.prems"(2) by (auto dest: set_dropWhileD)
    have prem2: "sorted (map evd_at ((seen @ ?due) @ ?rest))" using "less.prems"(3) unfolding split .
    have prem3: "is_utc (add_delta t step)" using "less.prems"(4) by simp
    have prem4: "\<forall>e \<in> set (seen @ ?due). evd_at e \<le> instant (add_delta t step)"
      using due_le True by force
    have prem5: "\<forall>t'. Some (instant t) = Some t' \<longrightarrow>
        t' \<le> instant (add_delta t step) \<and> (\<forall>e \<in> set ?rest. t' \<le> evd_at e)"
      using rest_gt True by (auto intro: less_imp_le)
    note prem = prem1 prem2 prem3 prem4 prem5
    have dec: "nat (instant until - instant (add_delta t step) + 1) < nat (instant until - instant t + 1)"
      using True by simp
    obtain w3 where w3: "replay_loop co k step until (add_delta t step) ?rest w2 =
        Inr (map (\<lambda>p. score_point_at co p (filter (in_window (size_of w) (instant p)) (seen @ pending)))
               (cadence step until (add_delta t step)),
             map (\<lambda>p. snapshot_at co p (filter (in_window (size_of w) (instant p)) (seen @ pending)))
               (cadence step until (add_delta t step)), w3)"
      using less.hyps [OF dec w2(2) prem]
      unfolding split w2(3) by blast
    show ?thesis
      using True w1(1) w2(1) act w3 co
      by (subst replay_loop.simps) (simp add: cadence_step Let_def)
  qed
qed

end

section \<open>The replay by event time\<close>

text \<open>Runners the constructors build, and the requests \<open>run\<close> accepts.\<close>

definition runner_wf :: "temporal_replay_runner \<Rightarrow> bool" where
  "runner_wf r \<longleftrightarrow> 0 < rn_step_size r \<and> 0 < we_window_size (rn_window_engine r)
     \<and> scorer_wf (rn_scorer r) \<and> policy_wf (rn_stopping_policy r)"

definition request_wf :: "run_request \<Rightarrow> bool" where
  "request_wf rq \<longleftrightarrow> is_utc (rq_run_start rq) \<and> is_utc (rq_run_end rq)
     \<and> instant (rq_run_start rq) \<le> instant (rq_run_end rq) \<and> \<not> blank (rq_entity_id rq)"

definition boundary_wf :: "run_request \<Rightarrow> datetime option \<Rightarrow> bool" where
  "boundary_wf rq replay_end \<longleftrightarrow> (\<forall>d. replay_end = Some d \<longrightarrow>
     is_utc d \<and> instant (rq_run_start rq) \<le> instant d \<and> instant d \<le> instant (rq_run_end rq))"

definition effective_end :: "run_request \<Rightarrow> datetime option \<Rightarrow> datetime" where
  "effective_end rq replay_end = (case replay_end of None \<Rightarrow> rq_run_end rq | Some d \<Rightarrow> d)"

definition end_reason :: "run_request \<Rightarrow> datetime option \<Rightarrow> fusion_end_reason" where
  "end_reason rq replay_end =
     (if instant (effective_end rq replay_end) < instant (rq_run_end rq) then ReplayEnd else RunEnd)"

definition evidences_wf :: "run_request \<Rightarrow> datetime \<Rightarrow> evidence list \<Rightarrow> bool" where
  "evidences_wf rq until es \<longleftrightarrow> sorted (map evd_at es)
     \<and> (\<forall>e \<in> set es. is_utc (evd_timestamp e) \<and> evidence_key e = (rq_run_id rq, rq_entity_id rq)
          \<and> instant (rq_run_start rq) \<le> evd_at e \<and> evd_at e \<le> instant until)"

definition aligned :: "int \<Rightarrow> run_request \<Rightarrow> datetime option \<Rightarrow> bool" where
  "aligned step rq replay_end \<longleftrightarrow>
     (instant (effective_end rq replay_end) - instant (rq_run_start rq)) mod step = 0"

text \<open>The trajectory and the snapshots of a replay over \<open>points\<close> when \<open>active p\<close> is what the
  replay holds at \<open>p\<close>.\<close>

definition trajectory_over :: "temporal_replay_runner \<Rightarrow> datetime list \<Rightarrow> (datetime \<Rightarrow> evidence list)
    \<Rightarrow> score_point list" where
  "trajectory_over r points active =
     map (\<lambda>p. score_point_at (engine_collaborators (rn_scorer r)) p (active p)) points"

definition snapshots_over :: "temporal_replay_runner \<Rightarrow> datetime list \<Rightarrow> (datetime \<Rightarrow> evidence list)
    \<Rightarrow> evidence_snapshot list" where
  "snapshots_over r points active =
     map (\<lambda>p. snapshot_at (engine_collaborators (rn_scorer r)) p (active p)) points"

definition event_time_active :: "temporal_replay_runner \<Rightarrow> evidence list \<Rightarrow> datetime \<Rightarrow> evidence list" where
  "event_time_active r es p = filter (in_window (we_window_size (rn_window_engine r)) (instant p)) es"

definition run_args :: "run_request \<Rightarrow> datetime \<Rightarrow> fusion_end_reason \<Rightarrow> policy_args" where
  "run_args rq until reason = \<lparr>pa_run_id = rq_run_id rq, pa_entity_id = rq_entity_id rq,
     pa_run_end = until, pa_reason = reason\<rparr>"

lemma replay_boundary_ok:
  "replay_boundary start stop re = Inr (d, reason, field) \<longleftrightarrow>
     boundary_wf \<lparr>rq_run_id = i, rq_entity_id = n, rq_run_start = start, rq_run_end = stop\<rparr> re
     \<and> d = (case re of None \<Rightarrow> stop | Some d \<Rightarrow> d)
     \<and> reason = (if instant d < instant stop then ReplayEnd else RunEnd)
     \<and> field = (if instant d < instant stop then ''replay_end'' else ''run_end'')"
  by (cases re) (auto simp: replay_boundary_def boundary_wf_def validate_run_time_def)

lemma check_evidences_ok:
  "check_evidences run_id entity_id start until field prev es = Inr () \<longleftrightarrow>
     sorted (map evd_at es) \<and> (\<forall>e \<in> set es. is_utc (evd_timestamp e)
       \<and> evidence_key e = (run_id, entity_id) \<and> instant start \<le> evd_at e \<and> evd_at e \<le> instant until)
     \<and> (\<forall>t. prev = Some t \<longrightarrow> (\<forall>e \<in> set es. instant t \<le> evd_at e))"
proof (induction es arbitrary: prev)
  case Nil
  then show ?case by simp
next
  case (Cons e es)
  have "check_evidences run_id entity_id start until field prev (e # es) = Inr () \<longleftrightarrow>
      is_utc (evd_timestamp e) \<and> evidence_key e = (run_id, entity_id) \<and> instant start \<le> evd_at e
      \<and> evd_at e \<le> instant until \<and> (\<forall>t. prev = Some t \<longrightarrow> instant t \<le> evd_at e)
      \<and> check_evidences run_id entity_id start until field (Some (evd_timestamp e)) es = Inr ()"
    by (cases prev) (auto simp: validate_run_time_def evidence_key_def earlier_than_def)
  also have "\<dots> \<longleftrightarrow> is_utc (evd_timestamp e) \<and> evidence_key e = (run_id, entity_id)
      \<and> instant start \<le> evd_at e \<and> evd_at e \<le> instant until \<and> (\<forall>t. prev = Some t \<longrightarrow> instant t \<le> evd_at e)
      \<and> sorted (map evd_at es) \<and> (\<forall>e \<in> set es. is_utc (evd_timestamp e)
       \<and> evidence_key e = (run_id, entity_id) \<and> instant start \<le> evd_at e \<and> evd_at e \<le> instant until)
      \<and> (\<forall>x \<in> set es. evd_at e \<le> evd_at x)"
    by (simp add: Cons.IH)
  finally show ?case by (cases prev) (auto intro: order_trans)
qed

lemma trajectory_ok_over:
  assumes "scorer_wf (rn_scorer r)" "sorted_wrt (<) (map instant points)"
    "\<forall>p \<in> set points. is_utc p \<and> instant p \<le> instant until"
  shows "trajectory_ok until (trajectory_over r points active)"
  using assms
  by (auto simp: trajectory_ok_def trajectory_over_def score_point_at_def engine_collaborators_def
      score_in_unit comp_def)

lemma cadence_points_ok:
  assumes "is_utc start"
  shows "sorted_wrt (<) (map instant (cadence step until start))"
    "\<forall>p \<in> set (cadence step until start). is_utc p \<and> instant p \<le> instant until"
  using assms cadence_utc cadence_le cadence_sorted by blast+

text \<open>
  A request the checks accept never fails afterwards, and the result is a function of the
  Evidence in the window at each point: the engine's state before the run plays no part.
\<close>

definition replay_outcome :: "temporal_replay_runner \<Rightarrow> policy_args \<Rightarrow> score_point list
    \<Rightarrow> evidence_snapshot list \<Rightarrow> temporal_replay_result \<Rightarrow> bool" where
  "replay_outcome r a traj snaps res \<longleftrightarrow> rr_trajectory res = traj \<and> rr_snapshots res = snaps
     \<and> evaluate (rn_stopping_policy r) a traj = Inr (rr_stopping_result res, rr_stopping_trace res)
     \<and> detection_spec (rn_stopping_policy r) traj (rr_stopping_result res)
     \<and> episodes_spec (rn_stopping_policy r) a traj (rr_stopping_result res)
     \<and> list_all2 traced traj (rr_stopping_trace res)"

lemma run_spec:
  assumes r: "runner_wf r" and rq: "request_wf rq" and re: "boundary_wf rq replay_end"
    and al: "aligned (rn_step_size r) rq replay_end"
    and es: "evidences_wf rq (effective_end rq replay_end) es"
  defines "points \<equiv> cadence (rn_step_size r) (effective_end rq replay_end) (rq_run_start rq)"
  shows "\<exists>res w'. run r es rq replay_end = Inr (res, r\<lparr>rn_window_engine := w'\<rparr>)
    \<and> replay_outcome r (run_args rq (effective_end rq replay_end) (end_reason rq replay_end))
        (trajectory_over r points (event_time_active r es))
        (snapshots_over r points (event_time_active r es)) res"
proof -
  let ?until = "effective_end rq replay_end"
  let ?key = "(rq_run_id rq, rq_entity_id rq)"
  let ?a = "run_args rq ?until (end_reason rq replay_end)"
  let ?traj = "trajectory_over r points (event_time_active r es)"
  have utc: "is_utc (rq_run_start rq)" "is_utc ?until"
    using rq re by (auto simp: request_wf_def boundary_wf_def effective_end_def split: option.splits)
  have w: "0 < we_window_size (rn_window_engine r)" using r by (simp add: runner_wf_def)
  obtain field where bound: "replay_boundary (rq_run_start rq) (rq_run_end rq) replay_end
      = Inr (?until, end_reason rq replay_end, field)"
    using re replay_boundary_ok [of "rq_run_start rq" "rq_run_end rq" replay_end ?until
        "end_reason rq replay_end" _ "rq_run_id rq" "rq_entity_id rq"]
    by (auto simp: effective_end_def end_reason_def boundary_wf_def)
  have check: "check_evidences (rq_run_id rq) (rq_entity_id rq) (rq_run_start rq) ?until field None es = Inr ()"
    using es by (simp add: check_evidences_ok evidences_wf_def)
  have "engine_rel ?key (reset (rn_window_engine r) ?key) [] None" using w by (rule engine_reset_rel)
  then obtain w' where loop: "replay_loop (engine_collaborators (rn_scorer r)) ?key (rn_step_size r) ?until
      (rq_run_start rq) es (reset (rn_window_engine r) ?key)
      = Inr (?traj, snapshots_over r points (event_time_active r es), w')"
    using engine.replay_loop_spec [of "engine_collaborators (rn_scorer r)" ?key
        "reset (rn_window_engine r) ?key" "[]" None es "rq_run_start rq" "rn_step_size r" ?until] es utc
    by (auto simp: engine_collaborators_def evidences_wf_def trajectory_over_def snapshots_over_def
        event_time_active_def points_def engine.size_reset)
  have "trajectory_ok ?until ?traj"
    using r trajectory_ok_over [of r points ?until "event_time_active r es"]
      cadence_points_ok [OF utc(1), of "rn_step_size r" ?until] by (simp add: points_def runner_wf_def)
  moreover have "pa_reason ?a \<noteq> Released" "pa_run_end ?a = ?until" "\<not> blank (pa_entity_id ?a)"
    using rq by (simp_all add: run_args_def end_reason_def request_wf_def)
  ultimately obtain sr tr where ev: "evaluate (rn_stopping_policy r) ?a ?traj = Inr (sr, tr)"
      "detection_spec (rn_stopping_policy r) ?traj sr" "episodes_spec (rn_stopping_policy r) ?a ?traj sr"
      "list_all2 traced ?traj tr"
    using evaluate_total [of "rn_stopping_policy r" ?a ?traj] r utc(2) by (auto simp: runner_wf_def)
  let ?res = "\<lparr>rr_trajectory = ?traj, rr_snapshots = snapshots_over r points (event_time_active r es),
      rr_stopping_result = sr, rr_stopping_trace = tr\<rparr>"
  have "run r es rq replay_end = Inr (?res, r\<lparr>rn_window_engine := w'\<rparr>)"
    using rq al bound check loop ev(1)
    by (simp add: run_def request_wf_def validate_run_time_def aligned_def Let_def run_args_def not_less)
  with ev show ?thesis by (auto simp: replay_outcome_def)
qed

end
