(* ===== verification/CausalReplay.thy ===== *)
theory CausalReplay
  imports ReplayCorrectness
begin

text \<open>
  What \<open>run_causal\<close> computes, and what it may not look at: a point of the trajectory depends on
  the Evidence available by then only. The batch order does not matter, and on a schedule that
  delays nothing the causal replay is the event-time replay.
\<close>

section \<open>Data of a causal replay\<close>

abbreviation available :: "scheduled_evidence \<Rightarrow> int" where
  "available s \<equiv> instant (sch_available_at s)"

abbreviation sch_id :: "scheduled_evidence \<Rightarrow> string" where
  "sch_id s \<equiv> evd_id (sch_evidence s)"

definition scheduled_ok :: "run_request \<Rightarrow> scheduled_evidence \<Rightarrow> bool" where
  "scheduled_ok rq s \<longleftrightarrow> is_utc (evd_timestamp (sch_evidence s)) \<and> is_utc (sch_available_at s)
     \<and> evidence_key (sch_evidence s) = (rq_run_id rq, rq_entity_id rq)
     \<and> instant (rq_run_start rq) \<le> evd_at (sch_evidence s)
     \<and> evd_at (sch_evidence s) \<le> available s \<and> available s \<le> instant (rq_run_end rq)"

definition schedule_wf :: "run_request \<Rightarrow> scheduled_evidence list \<Rightarrow> bool" where
  "schedule_wf rq ss \<longleftrightarrow> distinct (map sch_id ss) \<and> (\<forall>s \<in> set ss. scheduled_ok rq s)"

text \<open>What is active at \<open>p\<close>: available by then, and in the event-time window.\<close>

definition causal_active :: "temporal_replay_runner \<Rightarrow> scheduled_evidence list \<Rightarrow> datetime \<Rightarrow> evidence list" where
  "causal_active r ss p = filter (in_window (we_window_size (rn_window_engine r)) (instant p))
     (map sch_evidence (filter (\<lambda>s. available s \<le> instant p) (sort_key schedule_key ss)))"

lemma between:
  fixes a e v z :: int
  shows "a \<le> e \<and> e \<le> z \<and> a \<le> v \<and> v \<le> z \<and> e \<le> v \<and> K \<longleftrightarrow> a \<le> e \<and> e \<le> v \<and> v \<le> z \<and> K"
  by auto

lemma check_scheduled_ok:
  "check_scheduled rq ids ss = Inr () \<longleftrightarrow> distinct (map sch_id ss)
     \<and> (\<forall>s \<in> set ss. scheduled_ok rq s \<and> evd_id (sch_evidence s) \<notin> ids)"
proof (induction ss arbitrary: ids)
  case Nil
  then show ?case by simp
next
  case (Cons s ss)
  have "check_scheduled rq ids (s # ss) = Inr () \<longleftrightarrow> evd_id (sch_evidence s) \<notin> ids \<and> scheduled_ok rq s
      \<and> check_scheduled rq (insert (evd_id (sch_evidence s)) ids) ss = Inr ()"
    by (simp add: scheduled_ok_def validate_run_time_def evidence_key_def Let_def not_less
        between) (simp only: conj_ac)
  then show ?case unfolding Cons.IH by (auto simp del: check_scheduled.simps) (metis imageI)
qed

lemma causal_points_ok:
  assumes "is_utc start" "is_utc stop" "instant start \<le> instant stop" "0 < step"
  shows "sorted_wrt (<) (map instant (causal_replay_points step start stop))"
    "\<forall>p \<in> set (causal_replay_points step start stop). is_utc p \<and> instant p \<le> instant stop"
    "instant (last (causal_replay_points step start stop)) = instant stop"
proof -
  let ?ps = "cadence step stop start"
  have ne: "?ps \<noteq> []" using assms(3,4) by (simp add: cadence_step)
  then have "last ?ps \<in> set ?ps" by simp
  then have le: "instant (last ?ps) \<le> instant stop" by (rule cadence_le)
  show "sorted_wrt (<) (map instant (causal_replay_points step start stop))"
    using cadence_points_ok(1) [OF assms(1), of step stop] le ne
    by (auto simp: causal_replay_points_def Let_def strict_sorted_snoc last_map simp flip: append_Cons)
  show "\<forall>p \<in> set (causal_replay_points step start stop). is_utc p \<and> instant p \<le> instant stop"
    using cadence_points_ok(2) [OF assms(1), of step stop] assms(2)
    by (auto simp: causal_replay_points_def Let_def)
  show "instant (last (causal_replay_points step start stop)) = instant stop"
    using ne by (simp add: causal_replay_points_def Let_def)
qed

section \<open>The loop\<close>

lemma sorted_available: "sorted (map available (sort_key schedule_key ss))"
proof -
  have "sorted (map schedule_key (sort_key schedule_key ss))" by (rule sorted_sort_key)
  then show ?thesis
    unfolding sorted_map
    by (rule sorted_wrt_mono_rel [rotated]) (auto simp: schedule_key_def less_eq_prod_def)
qed

definition held_at :: "temporal_replay_runner \<Rightarrow> evidence list \<Rightarrow> scheduled_evidence list \<Rightarrow> datetime
    \<Rightarrow> evidence list" where
  "held_at r activated pending t = filter (in_window (we_window_size (rn_window_engine r)) (instant t))
     (activated @ map sch_evidence (filter (\<lambda>s. available s \<le> instant t) pending))"

lemma causal_active_held: "causal_active r ss = held_at r [] (sort_key schedule_key ss)"
  by (simp add: causal_active_def held_at_def fun_eq_iff)

lemma sorted_map_dropWhile: "sorted (map f xs) \<Longrightarrow> sorted (map f (dropWhile P xs))"
  by (metis dropWhile_eq_drop drop_map sorted_wrt_drop)

lemma causal_loop_spec:
  assumes "sorted (map available pending)" "sorted (map instant ts)" "\<forall>t \<in> set ts. is_utc t"
  shows "causal_loop r ts activated pending
    = Inr (trajectory_over r ts (held_at r activated pending),
           snapshots_over r ts (held_at r activated pending))"
  using assms
proof (induction ts arbitrary: activated pending)
  case Nil
  then show ?case by (simp add: trajectory_over_def snapshots_over_def)
next
  case (Cons t ts)
  let ?due = "takeWhile (\<lambda>s. available s \<le> instant t) pending"
  let ?rest = "dropWhile (\<lambda>s. available s \<le> instant t) pending"
  let ?activated = "activated @ map sch_evidence ?due"
  have due: "?due = filter (\<lambda>s. available s \<le> instant t) pending"
    using Cons.prems(1) by (rule takeWhile_eq_filter_sorted)
  have later: "held_at r ?activated ?rest t' = held_at r activated pending t'" if "t' \<in> set ts" for t'
  proof -
    have "instant t \<le> instant t'" using Cons.prems(2) that by auto
    then have "filter (\<lambda>s. available s \<le> instant t') ?due = ?due"
      by (intro filter_True) (auto dest: set_takeWhileD)
    then have "filter (\<lambda>s. available s \<le> instant t') pending
        = ?due @ filter (\<lambda>s. available s \<le> instant t') ?rest"
      by (metis filter_append takeWhile_dropWhile_id)
    then show ?thesis by (simp add: held_at_def)
  qed
  have "filter_by_event_time_window (rn_window_engine r) ?activated t = Inr (held_at r activated pending t)"
    using Cons.prems(3) by (simp add: filter_by_event_time_window_eq held_at_def due)
  moreover have "causal_loop r ts ?activated ?rest
      = Inr (trajectory_over r ts (held_at r activated pending),
             snapshots_over r ts (held_at r activated pending))"
    using Cons.IH [of ?rest ?activated] Cons.prems later
    by (simp add: sorted_map_dropWhile trajectory_over_def snapshots_over_def cong: map_cong)
  ultimately show ?case
    by (simp add: trajectory_over_def snapshots_over_def Let_def)
qed

section \<open>The causal replay\<close>

definition causal_points :: "temporal_replay_runner \<Rightarrow> run_request \<Rightarrow> datetime list" where
  "causal_points r rq = causal_replay_points (rn_step_size r) (rq_run_start rq) (rq_run_end rq)"

lemma causal_points_wf:
  assumes "runner_wf r" "request_wf rq"
  shows "sorted_wrt (<) (map instant (causal_points r rq))"
    "\<forall>p \<in> set (causal_points r rq). is_utc p \<and> instant p \<le> instant (rq_run_end rq)"
  using assms causal_points_ok(1,2) [of "rq_run_start rq" "rq_run_end rq" "rn_step_size r"]
  unfolding causal_points_def runner_wf_def request_wf_def by blast+

lemma run_causal_spec:
  assumes r: "runner_wf r" and rq: "request_wf rq" and ss: "schedule_wf rq ss"
  shows "\<exists>res. run_causal r ss rq = Inr res
    \<and> replay_outcome r (run_args rq (rq_run_end rq) RunEnd)
        (trajectory_over r (causal_points r rq) (causal_active r ss))
        (snapshots_over r (causal_points r rq) (causal_active r ss)) res"
proof -
  let ?a = "run_args rq (rq_run_end rq) RunEnd"
  let ?traj = "trajectory_over r (causal_points r rq) (causal_active r ss)"
  note points = causal_points_wf [OF r rq]
  have utc: "is_utc (rq_run_start rq)" "is_utc (rq_run_end rq)" using rq by (auto simp: request_wf_def)
  have check: "check_scheduled rq {} ss = Inr ()"
    using ss by (simp add: check_scheduled_ok schedule_wf_def)
  have "sorted (map instant (causal_points r rq))" using points(1) by (rule strict_sorted_imp_sorted)
  then have loop: "causal_loop r (causal_points r rq) [] (sort_key schedule_key ss)
      = Inr (?traj, snapshots_over r (causal_points r rq) (causal_active r ss))"
    using causal_loop_spec [OF sorted_available] points(2) by (simp add: causal_active_held)
  have "trajectory_ok (pa_run_end ?a) ?traj"
    using r trajectory_ok_over [OF _ points] by (simp add: run_args_def runner_wf_def)
  moreover have "pa_reason ?a \<noteq> Released" "\<not> blank (pa_entity_id ?a)" "is_utc (pa_run_end ?a)"
    using rq by (simp_all add: run_args_def request_wf_def)
  ultimately obtain sr tr where ev: "evaluate (rn_stopping_policy r) ?a ?traj = Inr (sr, tr)"
      "detection_spec (rn_stopping_policy r) ?traj sr" "episodes_spec (rn_stopping_policy r) ?a ?traj sr"
      "list_all2 traced ?traj tr"
    using evaluate_total [of "rn_stopping_policy r" ?a ?traj] r by (auto simp: runner_wf_def)
  have "run_causal r ss rq = Inr \<lparr>rr_trajectory = ?traj,
      rr_snapshots = snapshots_over r (causal_points r rq) (causal_active r ss),
      rr_stopping_result = sr, rr_stopping_trace = tr\<rparr>"
    using rq check loop ev(1)
    by (simp add: run_causal_def request_wf_def validate_run_time_def run_args_def causal_points_def
        Let_def not_less del: check_scheduled.simps causal_loop.simps)
  with ev show ?thesis by (auto simp: replay_outcome_def)
qed

lemma evaluate_entity: "evaluate pol a traj = Inr x \<Longrightarrow> \<not> blank (pa_entity_id a)"
  by (cases x) (simp add: evaluate_def validate_entity_id_def)

text \<open>Acceptance: a run of the causal replay that returns was given a valid request.\<close>

lemma run_causal_accepts:
  assumes r: "runner_wf r" and ok: "run_causal r ss rq = Inr res"
  shows "request_wf rq \<and> schedule_wf rq ss"
proof -
  obtain traj sr where "is_utc (rq_run_start rq)" "is_utc (rq_run_end rq)"
      "instant (rq_run_start rq) \<le> instant (rq_run_end rq)" "check_scheduled rq {} ss = Inr ()"
      "evaluate (rn_stopping_policy r) \<lparr>pa_run_id = rq_run_id rq, pa_entity_id = rq_entity_id rq,
         pa_run_end = rq_run_end rq, pa_reason = RunEnd\<rparr> traj = Inr sr"
    using ok by (auto simp: run_causal_def Let_def validate_run_time_def not_less
        simp del: check_scheduled.simps causal_loop.simps)
  moreover from this(5) have "\<not> blank (rq_entity_id rq)"
    using evaluate_entity by fastforce
  ultimately show ?thesis by (simp add: request_wf_def schedule_wf_def check_scheduled_ok)
qed

section \<open>No lookahead\<close>

text \<open>The schedule restricted to what is available by \<open>T\<close>.\<close>

definition known_by :: "int \<Rightarrow> scheduled_evidence list \<Rightarrow> scheduled_evidence set" where
  "known_by T ss = {s \<in> set ss. available s \<le> T}"

lemma set_causal_active:
  "set (causal_active r ss p)
     = {e \<in> sch_evidence ` known_by (instant p) ss. in_window (we_window_size (rn_window_engine r)) (instant p) e}"
  by (auto simp: causal_active_def known_by_def)

lemma score_point_at_cong:
  "set es = set es' \<Longrightarrow> score_point_at (engine_collaborators sc) p es = score_point_at (engine_collaborators sc) p es'"
  by (simp add: score_point_at_def engine_collaborators_def simple.score_of_set [of es es'])

lemma snapshot_at_cong:
  "set es = set es' \<Longrightarrow> snapshot_at (engine_collaborators sc) p es = snapshot_at (engine_collaborators sc) p es'"
  by (simp add: snapshot_at_def engine_collaborators_def simple.ids_of_set [of es es'])

lemma known_by_mono: "known_by T ss = known_by T ss' \<Longrightarrow> t \<le> T \<Longrightarrow> known_by t ss = known_by t ss'"
proof -
  assume eq: "known_by T ss = known_by T ss'" and le: "t \<le> T"
  have "known_by t xs = {s \<in> known_by T xs. available s \<le> t}" for xs
    using le by (auto simp: known_by_def)
  with eq show "known_by t ss = known_by t ss'" by simp
qed

text \<open>The trajectory up to time \<open>T\<close>.\<close>

definition upto_time :: "int \<Rightarrow> score_point list \<Rightarrow> score_point list" where
  "upto_time T traj = takeWhile (\<lambda>p. instant (sp_timestamp p) \<le> T) traj"

lemma sp_timestamp_score_point_at [simp]: "sp_timestamp (score_point_at co p es) = p"
  by (simp add: score_point_at_def)

lemma trajectory_upto_cong:
  assumes "known_by T ss = known_by T ss'"
  shows "upto_time T (trajectory_over r ps (causal_active r ss))
    = upto_time T (trajectory_over r ps (causal_active r ss'))"
proof -
  have "score_point_at (engine_collaborators (rn_scorer r)) p (causal_active r ss p)
      = score_point_at (engine_collaborators (rn_scorer r)) p (causal_active r ss' p)"
    if "instant p \<le> T" for p
    using known_by_mono [OF assms that] by (intro score_point_at_cong) (simp add: set_causal_active)
  then show ?thesis
    by (induction ps) (auto simp: upto_time_def trajectory_over_def)
qed

lemma first_detection_prefix:
  assumes "first_detection pol traj t sc" "instant t \<le> T"
    "sorted_wrt (<) (map (instant \<circ> sp_timestamp) traj)"
  shows "first_detection pol (upto_time T traj) t sc"
proof -
  obtain i where i: "first_fire pol traj i" "t = sp_timestamp (traj ! i)" "sc = sp_score (traj ! i)"
    using assms(1) by (auto simp: first_detection_def)
  let ?n = "length (upto_time T traj)"
  have len: "i < length traj" using i(1) by (simp add: first_fire_def)
  have pre: "upto_time T traj = take ?n traj" 
    unfolding upto_time_def by (rule takeWhile_eq_take)
  have "i < ?n"
  proof (rule ccontr)
    assume "\<not> i < ?n"
    then have n: "?n \<le> i" "?n < length traj" using len by auto
    then have "T < instant (sp_timestamp (traj ! ?n))"
      unfolding upto_time_def using nth_length_takeWhile by fastforce
    moreover have "instant (sp_timestamp (traj ! ?n)) \<le> instant (sp_timestamp (traj ! i))"
      using assms(3) n len by (cases "?n = i") (auto simp: sorted_wrt_iff_nth_less less_imp_le)
    ultimately show False using assms(2) i(2) by simp
  qed
  moreover have "fires_at pol (upto_time T traj) j = fires_at pol traj j" if "j < ?n" for j
    using that by (subst pre) (simp add: fires_at_def min_def)
  ultimately have "first_fire pol (upto_time T traj) i" "upto_time T traj ! i = traj ! i"
    using i(1) by (auto simp: first_fire_def) (subst pre, simp)
  with i show ?thesis by (auto simp: first_detection_def)
qed

lemma first_detection_unique:
  assumes "first_detection pol ps t sc" "first_detection pol ps t' sc'"
  shows "t = t' \<and> sc = sc'"
  using assms unfolding first_detection_def first_fire_def by (metis linorder_neqE_nat)

lemma causal_detection_local:
  assumes r: "runner_wf r" and known: "known_by (instant t) ss = known_by (instant t) ss'"
    and ok: "run_causal r ss rq = Inr res" "run_causal r ss' rq = Inr res'"
    and det: "sr_time (rr_stopping_result res) = Some t"
  shows "sr_time (rr_stopping_result res') = Some t
    \<and> sr_score (rr_stopping_result res') = sr_score (rr_stopping_result res)"
proof -
  let ?pol = "rn_stopping_policy r"
  let ?traj = "\<lambda>ss. trajectory_over r (causal_points r rq) (causal_active r ss)"
  have rq: "request_wf rq" and wf: "schedule_wf rq ss" "schedule_wf rq ss'"
    using run_causal_accepts [OF r] ok by auto
  have spec: "detection_spec ?pol (?traj ss) (rr_stopping_result res)"
      "detection_spec ?pol (?traj ss') (rr_stopping_result res')"
    using run_causal_spec [OF r rq wf(1)] run_causal_spec [OF r rq wf(2)] ok
    by (auto simp: replay_outcome_def)
  have sorted: "sorted_wrt (<) (map (instant \<circ> sp_timestamp) (?traj ss))" for ss
    using causal_points_wf(1) [OF r rq] by (simp add: trajectory_over_def comp_def)
  obtain sc where sc: "sr_score (rr_stopping_result res) = Some sc" "first_detection ?pol (?traj ss) t sc"
    using spec(1) det by (auto simp: detection_spec_def)
  have "first_detection ?pol (upto_time (instant t) (?traj ss)) t sc"
    using sc(2) sorted by (intro first_detection_prefix) auto
  then have "first_detection ?pol (upto_time (instant t) (?traj ss')) t sc"
    by (simp add: trajectory_upto_cong [OF known])
  then have "first_detection ?pol
      (upto_time (instant t) (?traj ss') @ dropWhile (\<lambda>p. instant (sp_timestamp p) \<le> instant t) (?traj ss')) t sc"
    by (rule first_detection_append)
  then have fd: "first_detection ?pol (?traj ss') t sc" by (simp add: upto_time_def)
  show ?thesis
  proof (cases "sr_time (rr_stopping_result res')")
    case None
    with spec(2) have "never_fires ?pol (?traj ss')" by (simp add: detection_spec_def)
    with fd show ?thesis by (auto simp: first_detection_def first_fire_def never_fires_def)
  next
    case (Some t')
    with spec(2) obtain sc' where "sr_score (rr_stopping_result res') = Some sc'"
        "first_detection ?pol (?traj ss') t' sc'" by (auto simp: detection_spec_def)
    with Some sc(1) fd first_detection_unique show ?thesis by metis
  qed
qed

section \<open>The order of the batch\<close>

lemma schedule_key_inj: "schedule_wf rq ss \<Longrightarrow> inj_on schedule_key (set ss)"
  unfolding schedule_wf_def schedule_key_def
  by (intro inj_onI) (metis Pair_inject distinct_map inj_onD)

lemma schedule_wf_perm: "mset ss = mset ss' \<Longrightarrow> schedule_wf rq ss = schedule_wf rq ss'"
  unfolding schedule_wf_def
  by (metis mset_eq_imp_distinct_iff mset_eq_setD mset_map)

lemma run_causal_perm:
  assumes "runner_wf r" "mset ss = mset ss'" "run_causal r ss rq = Inr res"
  shows "run_causal r ss' rq = Inr res"
proof -
  have wf: "request_wf rq" "schedule_wf rq ss" using run_causal_accepts [OF assms(1,3)] by auto
  then have "check_scheduled rq {} ss = Inr ()" "check_scheduled rq {} ss' = Inr ()"
    using schedule_wf_perm [OF assms(2), of rq] by (auto simp: check_scheduled_ok schedule_wf_def)
  moreover have "sort_key schedule_key ss = sort_key schedule_key ss'"
    using assms(2) schedule_key_inj [OF wf(2)] by (rule sort_key_perm_eq)
  ultimately show ?thesis using assms(3) by (simp add: run_causal_def)
qed

section \<open>A schedule without delay\<close>

definition undelayed :: "evidence \<Rightarrow> scheduled_evidence" where
  "undelayed e = \<lparr>sch_evidence = e, sch_available_at = evd_timestamp e\<rparr>"

lemma causal_active_undelayed:
  "set (causal_active r (map undelayed es) p) = set (event_time_active r es p)"
  by (auto simp: set_causal_active known_by_def undelayed_def event_time_active_def in_window_def image_iff)

lemma causal_points_aligned:
  assumes "runner_wf r" "request_wf rq" "aligned (rn_step_size r) rq None"
  shows "causal_points r rq = cadence (rn_step_size r) (rq_run_end rq) (rq_run_start rq)"
  using assms cadence_last [of "rn_step_size r" "rq_run_start rq" "rq_run_end rq"]
  by (simp add: causal_points_def causal_replay_points_def Let_def runner_wf_def request_wf_def
      aligned_def effective_end_def)

lemma undelayed_wf:
  assumes "evidences_wf rq (rq_run_end rq) es" "distinct (map evd_id es)"
  shows "schedule_wf rq (map undelayed es)"
  using assms by (auto simp: schedule_wf_def scheduled_ok_def undelayed_def evidences_wf_def comp_def)

lemma run_causal_undelayed:
  assumes r: "runner_wf r" and rq: "request_wf rq" and al: "aligned (rn_step_size r) rq None"
    and es: "evidences_wf rq (rq_run_end rq) es" "distinct (map evd_id es)"
  shows "\<exists>res r'. run r es rq None = Inr (res, r') \<and> run_causal r (map undelayed es) rq = Inr res"
proof -
  let ?points = "cadence (rn_step_size r) (rq_run_end rq) (rq_run_start rq)"
  have b: "boundary_wf rq None" by (simp add: boundary_wf_def)
  have eff: "effective_end rq None = rq_run_end rq" "end_reason rq None = RunEnd"
    by (simp_all add: effective_end_def end_reason_def)
  obtain res w' where run: "run r es rq None = Inr (res, r\<lparr>rn_window_engine := w'\<rparr>)"
    "replay_outcome r (run_args rq (rq_run_end rq) RunEnd) (trajectory_over r ?points (event_time_active r es))
        (snapshots_over r ?points (event_time_active r es)) res"
    using run_spec [OF r rq b al, of es] es(1) unfolding eff by auto
  obtain res' where causal: "run_causal r (map undelayed es) rq = Inr res'"
    "replay_outcome r (run_args rq (rq_run_end rq) RunEnd)
        (trajectory_over r ?points (causal_active r (map undelayed es)))
        (snapshots_over r ?points (causal_active r (map undelayed es))) res'"
    using run_causal_spec [OF r rq undelayed_wf [OF es]] causal_points_aligned [OF r rq al] by auto
  have "trajectory_over r ?points (causal_active r (map undelayed es)) = trajectory_over r ?points (event_time_active r es)"
    "snapshots_over r ?points (causal_active r (map undelayed es)) = snapshots_over r ?points (event_time_active r es)"
    using causal_active_undelayed score_point_at_cong snapshot_at_cong
    unfolding trajectory_over_def snapshots_over_def by (metis (no_types, lifting))+
  with run(2) causal(2) have "res = res'" by (simp add: replay_outcome_def)
  with run(1) causal(1) show ?thesis by blast
qed

section \<open>What \<open>run\<close> accepts\<close>

lemma run_accepts:
  assumes r: "runner_wf r" and ok: "run r es rq replay_end = Inr x"
  shows "request_wf rq \<and> boundary_wf rq replay_end \<and> aligned (rn_step_size r) rq replay_end
    \<and> evidences_wf rq (effective_end rq replay_end) es"
proof -
  obtain d reason field traj sr where raw: "is_utc (rq_run_start rq)" "is_utc (rq_run_end rq)"
      "instant (rq_run_start rq) \<le> instant (rq_run_end rq)"
      "replay_boundary (rq_run_start rq) (rq_run_end rq) replay_end = Inr (d, reason, field)"
      "(instant d - instant (rq_run_start rq)) mod rn_step_size r = 0"
      "check_evidences (rq_run_id rq) (rq_entity_id rq) (rq_run_start rq) d field None es = Inr ()"
      "evaluate (rn_stopping_policy r) \<lparr>pa_run_id = rq_run_id rq, pa_entity_id = rq_entity_id rq,
         pa_run_end = d, pa_reason = reason\<rparr> traj = Inr sr"
    using ok by (auto simp: run_def Let_def validate_run_time_def not_less)
  have "\<not> blank (rq_entity_id rq)" using evaluate_entity [OF raw(7)] by simp
  moreover have d: "d = effective_end rq replay_end" "boundary_wf rq replay_end"
    using raw(4) replay_boundary_ok [of "rq_run_start rq" "rq_run_end rq" replay_end d reason field "[]" "[]"]
    by (simp_all add: effective_end_def boundary_wf_def)
  ultimately show ?thesis
    using raw by (simp add: request_wf_def aligned_def evidences_wf_def check_evidences_ok)
qed

end
