(* ===== verification/FusionPipeline.thy ===== *)
theory FusionPipeline
  imports CausalReplay
begin

text \<open>
  \<open>decision/fusion/result_builder.py\<close> and \<open>decision/fusion/pipeline.py\<close>: the replay outcome
  turned into the validated result models. The dictionary from snapshot times to Evidence ids is
  a map on instants, by which aware datetimes compare and hash.
\<close>

section \<open>The result builder\<close>

record fusion_metadata =
  fm_config_version :: string
  fm_profile_id :: string
  fm_method :: string
  fm_scorer_version :: string
  fm_model_version :: "string option"

definition evidence_ids_by_timestamp :: "evidence_snapshot list \<Rightarrow> int \<rightharpoonup> string list" where
  "evidence_ids_by_timestamp snaps =
     map_of (rev (map (\<lambda>s. (instant (es_timestamp s), es_evidence_ids s)) snaps))"

definition build_episode :: "(int \<rightharpoonup> string list) \<Rightarrow> fusion_episode \<Rightarrow> episode_result result" where
  "build_episode ids ep = (case ids (instant (fep_start ep)) of
     None \<Rightarrow> Inl (ValueError ''Missing Evidence snapshot for FusionEpisode start_time'')
   | Some contributing \<Rightarrow> validate_episode
       \<lparr>fer_id = fep_id ep, fer_run_id = fep_run_id ep, fer_entity_id = fep_entity_id ep,
        fer_start = fep_start ep, fer_end = Some (fep_end ep),
        fer_end_reason = Some (fep_end_reason ep), fer_score_at_start = fep_score_at_start ep,
        fer_peak = fep_peak ep, fer_evidence_ids = Some contributing\<rparr>)"

definition result_evidence_ids :: "(int \<rightharpoonup> string list) \<Rightarrow> stopping_result \<Rightarrow> string list result" where
  "result_evidence_ids ids sr =
     (if sr_status sr = Detected then
        (case sr_time sr of
           None \<Rightarrow> Inl (ValueError ''Detected StoppingResult must include fusion_time'')
         | Some t \<Rightarrow> (case ids (instant t) of
             None \<Rightarrow> Inl (ValueError ''Missing Evidence snapshot for fusion_time'')
           | Some contributing \<Rightarrow> Inr contributing))
      else Inr [])"

definition build_fusion_result ::
  "temporal_replay_result \<Rightarrow> string \<Rightarrow> string \<Rightarrow> fusion_metadata \<Rightarrow> fusion_result result" where
  "build_fusion_result rr run_id entity_id md =
     (let sr = rr_stopping_result rr; ids = evidence_ids_by_timestamp (rr_snapshots rr)
      in bnd (map_result (build_episode ids) (sr_episodes sr)) (\<lambda>episodes.
         bnd (result_evidence_ids ids sr) (\<lambda>contributing.
         validate_fusion_result
           \<lparr>fr_run_id = run_id, fr_entity_id = entity_id, fr_time = sr_time sr,
            fr_status = sr_status sr, fr_score = sr_score sr, fr_evidence_ids = contributing,
            fr_config_version = fm_config_version md, fr_profile_id = fm_profile_id md,
            fr_model_version = fm_model_version md, fr_scoring_method = fm_method md,
            fr_scorer_version = fm_scorer_version md, fr_episodes = episodes\<rparr>)))"

definition build_not_evaluated_fusion_result ::
  "string \<Rightarrow> string \<Rightarrow> fusion_metadata \<Rightarrow> fusion_result result" where
  "build_not_evaluated_fusion_result run_id entity_id md = validate_fusion_result
     \<lparr>fr_run_id = run_id, fr_entity_id = entity_id, fr_time = None,
      fr_status = NotEvaluated, fr_score = None, fr_evidence_ids = [],
      fr_config_version = fm_config_version md, fr_profile_id = fm_profile_id md,
      fr_model_version = fm_model_version md, fr_scoring_method = fm_method md,
      fr_scorer_version = fm_scorer_version md, fr_episodes = []\<rparr>"

section \<open>The pipeline\<close>

record pipeline_result =
  pl_replay :: temporal_replay_result
  pl_fusion :: fusion_result
  pl_trace :: stopping_trace

definition build_stopping_trace ::
  "string \<Rightarrow> string \<Rightarrow> string \<Rightarrow> stopping_trace_point list \<Rightarrow> stopping_trace result" where
  "build_stopping_trace run_id entity_id config_version trace =
     bnd (map_result validate_trace_point trace) (\<lambda>points.
     validate_stopping_trace \<lparr>tr_run_id = run_id, tr_entity_id = entity_id,
       tr_config_version = config_version, tr_points = points\<rparr>)"

definition run_fusion_pipeline ::
  "temporal_replay_runner \<Rightarrow> evidence list \<Rightarrow> run_request \<Rightarrow> datetime option \<Rightarrow> fusion_metadata
     \<Rightarrow> (pipeline_result \<times> temporal_replay_runner) result" where
  "run_fusion_pipeline r evidences rq replay_end md =
     bnd (run r evidences rq replay_end) (\<lambda>(rr, r').
     bnd (build_fusion_result rr (rq_run_id rq) (rq_entity_id rq) md) (\<lambda>fr.
     bnd (build_stopping_trace (rq_run_id rq) (rq_entity_id rq) (fm_config_version md)
       (rr_stopping_trace rr)) (\<lambda>trace.
     Inr (\<lparr>pl_replay = rr, pl_fusion = fr, pl_trace = trace\<rparr>, r'))))"

section \<open>The builder on a replay outcome\<close>

definition metadata_ok :: "fusion_metadata \<Rightarrow> bool" where
  "metadata_ok md \<longleftrightarrow> fm_config_version md \<noteq> [] \<and> fm_profile_id md \<noteq> [] \<and> fm_method md \<noteq> []
     \<and> fm_scorer_version md \<noteq> [] \<and> fm_model_version md \<noteq> Some []"

lemma snapshot_lookup:
  assumes "sorted_wrt (<) (map instant points)" "p \<in> set points"
  shows "evidence_ids_by_timestamp (snapshots_over r points active) (instant p)
    = Some (contributing_evidence_ids (rn_scorer r) (active p))"
proof -
  have "distinct (map instant points)" using assms(1) by (simp add: strict_sorted_iff)
  then have "distinct (map fst (rev (map (\<lambda>s. (instant (es_timestamp s), es_evidence_ids s))
      (snapshots_over r points active))))"
    by (simp add: snapshots_over_def snapshot_at_def comp_def rev_map [symmetric])
  then show ?thesis
    unfolding evidence_ids_by_timestamp_def using assms(2)
    by (intro map_of_is_SomeI) (auto simp: snapshots_over_def snapshot_at_def engine_collaborators_def)
qed

lemma threshold_on_positive:
  assumes "policy_wf pol"
  shows "\<exists>q. threshold_on pol = Finite q \<and> 0 < q"
  using assms by (auto simp: policy_wf_def in_unit_Finite)

lemma fires_last_hot: "policy_wf pol \<Longrightarrow> fires pol (ps @ [p]) \<Longrightarrow> hot pol p"
  by (auto simp: fires_iff_hot_suffix policy_wf_def hot_suffix_snoc split: if_splits)

lemma hot_has_evidence:
  assumes "runner_wf r" "hot (rn_stopping_policy r) (score_point_at (engine_collaborators (rn_scorer r)) p es)"
  shows "contributing_evidence_ids (rn_scorer r) es \<noteq> []"
proof -
  obtain q where q: "threshold_on (rn_stopping_policy r) = Finite q" "0 < q"
    using assms(1) threshold_on_positive by (auto simp: runner_wf_def)
  with assms show ?thesis
    by (intro simple.threshold_needs_evidence [of _ q])
      (auto simp: runner_wf_def hot_def score_point_at_def engine_collaborators_def)
qed

text \<open>An episode starts at a point of the trajectory that is hot, and ends no earlier.\<close>

lemma episode_start_point:
  assumes "policy_wf pol" "episode_of pol a traj ep"
  shows "\<exists>p \<in> set traj. sp_timestamp p = fep_start ep \<and> sp_score p = fep_score_at_start ep \<and> hot pol p"
proof -
  obtain pre seg post where st: "traj = pre @ seg @ post"
      "stretch_of pol pre seg (fep_start ep) (fep_score_at_start ep) (fep_peak ep)"
    using assms(2) by (auto simp: episode_of_def)
  then obtain p seg' where "seg = p # seg'" by (cases seg) (auto simp: stretch_of_def)
  with st fires_last_hot [OF assms(1)] show ?thesis by (auto simp: stretch_of_def)
qed

lemma episode_end_after:
  assumes "trajectory_ok (pa_run_end a) traj" "is_utc (pa_run_end a)" "episode_of pol a traj ep"
  shows "is_utc (fep_start ep) \<and> is_utc (fep_end ep) \<and> instant (fep_start ep) \<le> instant (fep_end ep)"
proof -
  obtain pre seg post where st: "traj = pre @ seg @ post"
      "stretch_of pol pre seg (fep_start ep) (fep_score_at_start ep) (fep_peak ep)"
      "if fep_end_reason ep = Released
           then post \<noteq> [] \<and> cold pol (hd post) \<and> fep_end ep = sp_timestamp (hd post)
           else post = [] \<and> fep_end_reason ep = pa_reason a \<and> fep_end ep = pa_run_end a"
    using assms(3) by (auto simp: episode_of_def)
  from st(2) obtain p seg' where seg: "seg = p # seg'" "fep_start ep = sp_timestamp p"
    by (cases seg) (auto simp: stretch_of_def)
  show ?thesis
  proof (cases "fep_end_reason ep = Released")
    case True
    with st(3) obtain q post' where post: "post = q # post'" "fep_end ep = sp_timestamp q"
      by (cases post) auto
    with assms(1) st(1) seg show ?thesis
      by (auto simp: trajectory_ok_def sorted_wrt_append intro: less_imp_le)
  next
    case False
    with st(3) have "fep_end ep = pa_run_end a" by simp
    with assms(1,2) st(1) seg show ?thesis by (auto simp: trajectory_ok_def)
  qed
qed

definition built_episode :: "temporal_replay_runner \<Rightarrow> (datetime \<Rightarrow> evidence list) \<Rightarrow> fusion_episode \<Rightarrow> episode_result" where
  "built_episode r active ep = \<lparr>fer_id = fep_id ep, fer_run_id = fep_run_id ep, fer_entity_id = fep_entity_id ep,
     fer_start = fep_start ep, fer_end = Some (fep_end ep), fer_end_reason = Some (fep_end_reason ep),
     fer_score_at_start = fep_score_at_start ep, fer_peak = fep_peak ep,
     fer_evidence_ids = Some (contributing_evidence_ids (rn_scorer r) (active (fep_start ep)))\<rparr>"

lemma episode_id_inject [simp]: "episode_id m = episode_id n \<longleftrightarrow> m = n"
  by (simp add: episode_id_def)

lemma distinct_episode_ids: "distinct (map episode_id ns) \<longleftrightarrow> distinct ns"
  by (simp add: distinct_map inj_on_def)

lemma episode_id_nonempty [simp]: "episode_id n \<noteq> []"
  by (simp add: episode_id_def)

lemma episodes_spec_ids:
  assumes "episodes_spec pol a traj sr"
  shows "distinct (map fep_id (sr_episodes sr))" "\<forall>ep \<in> set (sr_episodes sr). fep_id ep \<noteq> []"
proof -
  have ids: "map fep_id (sr_episodes sr) = map episode_id [1..<Suc (length (sr_episodes sr))]"
    using assms by (simp add: episodes_spec_def del: upt_Suc)
  show "distinct (map fep_id (sr_episodes sr))" unfolding ids distinct_episode_ids by simp
  have "fep_id ep \<in> set (map episode_id [1..<Suc (length (sr_episodes sr))])"
    if "ep \<in> set (sr_episodes sr)" for ep
    using that unfolding ids [symmetric] by simp
  then show "\<forall>ep \<in> set (sr_episodes sr). fep_id ep \<noteq> []" by fastforce
qed

text \<open>The first episode of a result the policy produced is the earliest one.\<close>

lemma first_episode_hd:
  assumes "sorted_wrt ep_before eps" "\<forall>ep \<in> set eps. instant (fep_start ep) \<le> instant (fep_end ep)" "eps \<noteq> []"
  shows "first_episode (map (built_episode r active) eps) = built_episode r active (hd eps)"
proof -
  obtain ep eps' where eps: "eps = ep # eps'" using assms(3) by (cases eps) auto
  have "\<forall>e \<in> set eps'. instant (fep_start ep) \<le> instant (fep_start e)"
    using assms(1,2) by (fastforce simp: eps)
  then show ?thesis
    unfolding first_episode_def eps by (auto simp: built_episode_def intro!: min_key_head)
qed

section \<open>The builder never fails on a replay outcome\<close>

lemma build_episodes:
  assumes r: "runner_wf r" and points: "sorted_wrt (<) (map instant points)"
    and traj: "trajectory_ok (pa_run_end a) (trajectory_over r points active)" and utc: "is_utc (pa_run_end a)"
    and ids: "pa_run_id a \<noteq> []" "pa_entity_id a \<noteq> []"
    and eps: "episodes_spec (rn_stopping_policy r) a (trajectory_over r points active) sr"
  shows "map_result (build_episode (evidence_ids_by_timestamp (snapshots_over r points active))) (sr_episodes sr)
      = Inr (map (built_episode r active) (sr_episodes sr))
    \<and> (\<forall>ep \<in> set (sr_episodes sr). validate_episode (built_episode r active ep) = Inr (built_episode r active ep))"
proof -
  have each: "validate_episode (built_episode r active ep) = Inr (built_episode r active ep)
      \<and> build_episode (evidence_ids_by_timestamp (snapshots_over r points active)) ep = Inr (built_episode r active ep)"
    if ep: "ep \<in> set (sr_episodes sr)" for ep
  proof -
    have of: "episode_of (rn_stopping_policy r) a (trajectory_over r points active) ep"
      using eps ep by (simp add: episodes_spec_def)
    have valid: "validate_episode (built_episode r active ep) = Inr (built_episode r active ep)"
      using episode_end_after [OF traj utc of] episodes_spec_ids(2) [OF eps] ep of ids
      by (auto simp: validate_episode_ok built_episode_def episode_of_def)
    have "fep_start ep \<in> set points"
      using episode_start_point [OF _ of] r by (fastforce simp: runner_wf_def trajectory_over_def)
    with valid show ?thesis
      using snapshot_lookup [OF points] by (simp add: build_episode_def built_episode_def)
  qed
  then show ?thesis using map_result_total by metis
qed

lemma build_fusion_result_total:
  assumes r: "runner_wf r" and points: "sorted_wrt (<) (map instant points)"
      "\<forall>p \<in> set points. is_utc p \<and> instant p \<le> instant until" and utc: "is_utc until"
    and rq: "rq_run_id rq \<noteq> []" "\<not> blank (rq_entity_id rq)" and md: "metadata_ok md"
    and out: "replay_outcome r (run_args rq until reason) (trajectory_over r points active)
        (snapshots_over r points active) res"
  shows "\<exists>fr. build_fusion_result res (rq_run_id rq) (rq_entity_id rq) md = Inr fr \<and> fusion_contract fr
    \<and> fr_run_id fr = rq_run_id rq \<and> fr_entity_id fr = rq_entity_id rq
    \<and> fr_status fr = sr_status (rr_stopping_result res) \<and> fr_time fr = sr_time (rr_stopping_result res)
    \<and> fr_score fr = sr_score (rr_stopping_result res)
    \<and> fr_evidence_ids fr = (case fr_time fr of None \<Rightarrow> []
         | Some t \<Rightarrow> contributing_evidence_ids (rn_scorer r) (active t))
    \<and> fr_episodes fr = map (built_episode r active) (sr_episodes (rr_stopping_result res))"
proof -
  let ?a = "run_args rq until reason" and ?pol = "rn_stopping_policy r" and ?sr = "rr_stopping_result res"
  let ?traj = "trajectory_over r points active"
  let ?eps = "map (built_episode r active) (sr_episodes ?sr)"
  let ?ids = "case sr_time ?sr of None \<Rightarrow> [] | Some t \<Rightarrow> contributing_evidence_ids (rn_scorer r) (active t)"
  let ?fr = "\<lparr>fr_run_id = rq_run_id rq, fr_entity_id = rq_entity_id rq, fr_time = sr_time ?sr,
            fr_status = sr_status ?sr, fr_score = sr_score ?sr, fr_evidence_ids = ?ids,
            fr_config_version = fm_config_version md, fr_profile_id = fm_profile_id md,
            fr_model_version = fm_model_version md, fr_scoring_method = fm_method md,
            fr_scorer_version = fm_scorer_version md, fr_episodes = ?eps\<rparr>"
  have det: "detection_spec ?pol ?traj ?sr" and epi: "episodes_spec ?pol ?a ?traj ?sr"
    and snaps: "rr_snapshots res = snapshots_over r points active"
    using out by (auto simp: replay_outcome_def)
  have args: "pa_run_end ?a = until" "pa_run_id ?a = rq_run_id rq" "pa_entity_id ?a = rq_entity_id rq"
    by (simp_all add: run_args_def)
  have traj: "trajectory_ok (pa_run_end ?a) ?traj"
    using r trajectory_ok_over [OF _ points] by (simp add: args runner_wf_def)
  have nonempty: "rq_entity_id rq \<noteq> []" using rq(2) by auto
  have built: "map_result (build_episode (evidence_ids_by_timestamp (rr_snapshots res))) (sr_episodes ?sr) = Inr ?eps"
      "\<forall>e \<in> set ?eps. validate_episode e = Inr e"
    using build_episodes [OF r points(1) traj _ _ _ epi] utc rq(1) nonempty by (auto simp: args snaps)
  have of: "\<forall>ep \<in> set (sr_episodes ?sr). episode_of ?pol ?a ?traj ep" using epi by (simp add: episodes_spec_def)
  have wf: "policy_wf ?pol" using r by (simp add: runner_wf_def)
  have detected: "is_utc t \<and> evidence_ids_by_timestamp (rr_snapshots res) (instant t) = Some ?ids
      \<and> sr_status ?sr = Detected \<and> detected_contract ?fr" if t: "sr_time ?sr = Some t" for t
  proof -
    obtain sc where sc: "sr_score ?sr = Some sc" "sr_episodes ?sr \<noteq> []" "sr_status ?sr = Detected"
        "fep_start (hd (sr_episodes ?sr)) = t" "fep_score_at_start (hd (sr_episodes ?sr)) = sc"
      using det t by (auto simp: detection_spec_def)
    let ?h = "hd (sr_episodes ?sr)"
    have h: "?h \<in> set (sr_episodes ?sr)" using sc(2) by simp
    obtain p where p: "p \<in> set points" "p = t" "sc = score (rn_scorer r) (active t)"
        "hot ?pol (score_point_at (engine_collaborators (rn_scorer r)) t (active t))"
      using episode_start_point [OF wf bspec [OF of h]] sc(4,5)
      by (auto simp: trajectory_over_def score_point_at_def engine_collaborators_def)
    have first: "first_episode ?eps = built_episode r active ?h"
      using epi episode_end_after [OF traj, of ?pol] utc of sc(2)
      by (intro first_episode_hd) (auto simp: episodes_spec_def args)
    have "feq sc sc" using r score_in_unit [of "rn_scorer r" "active t"] p(3)
      by (auto simp: runner_wf_def in_unit_Finite feq_def)
    then have "detected_contract ?fr"
      using sc t first hot_has_evidence [OF r p(4)] by (simp add: detected_contract_def built_episode_def)
    with p sc(3) points(2) t snapshot_lookup [OF points(1)] show ?thesis by (simp add: snaps)
  qed
  have miss: "sr_status ?sr = Miss \<and> sr_episodes ?sr = [] \<and> sr_score ?sr = None" if "sr_time ?sr = None"
    using det that by (simp add: detection_spec_def)
  have contract: "fusion_contract ?fr"
  proof -
    have "map fer_id ?eps = map fep_id (sr_episodes ?sr)" by (simp add: built_episode_def)
    then have "distinct (map fer_id ?eps)" using episodes_spec_ids(1) [OF epi] by (simp only:)
    moreover have "\<forall>e \<in> set ?eps. fer_run_id e = rq_run_id rq \<and> fer_entity_id e = rq_entity_id rq"
      using of by (auto simp: built_episode_def episode_of_def args)
    moreover have "sr_status ?sr = Detected \<longrightarrow> detected_contract ?fr"
      using detected miss by (cases "sr_time ?sr") (simp, blast)
    moreover have "sr_status ?sr \<noteq> Detected \<longrightarrow> sr_time ?sr = None \<and> ?eps = []"
      using detected miss by (cases "sr_time ?sr") (simp, blast)
    moreover have "sr_status ?sr = NotEvaluated \<longrightarrow> sr_score ?sr = None"
      using detected miss by (cases "sr_time ?sr") (simp, metis detection_status.distinct(3))
    ultimately show ?thesis unfolding fusion_contract_def by simp
  qed
  have "result_evidence_ids (evidence_ids_by_timestamp (rr_snapshots res)) ?sr = Inr ?ids"
    using detected miss by (cases "sr_time ?sr") (auto simp: result_evidence_ids_def)
  moreover have "validate_fusion_result ?fr = Inr ?fr"
    using contract built(2) detected md rq(1) nonempty
    by (auto simp: validate_fusion_result_ok metadata_nonempty_def metadata_ok_def)
  ultimately have "build_fusion_result res (rq_run_id rq) (rq_entity_id rq) md = Inr ?fr"
    using built(1) by (simp add: build_fusion_result_def Let_def)
  with contract show ?thesis by auto
qed

section \<open>The stopping trace and the pipeline\<close>

lemma map_result_trace_points:
  assumes "list_all2 traced traj trace" "trajectory_ok until traj"
  shows "map_result validate_trace_point trace = Inr trace'
    \<longleftrightarrow> trace' = trace \<and> (\<forall>p \<in> set traj. ms_aligned (sp_timestamp p))"
proof -
  have "map_result validate_trace_point trace = Inr trace'
    \<longleftrightarrow> trace' = trace \<and> (\<forall>p \<in> set traj. ms_aligned (sp_timestamp p))"
    if "\<forall>p \<in> set traj. is_utc (sp_timestamp p) \<and> in_unit (sp_score p)"
    using assms(1) that
  proof (induction arbitrary: trace' rule: list_all2_induct)
    case Nil
    then show ?case by auto
  next
    case (Cons p ps t ts)
    then have IH: "map_result validate_trace_point ts = Inr ts'
        \<longleftrightarrow> ts' = ts \<and> (\<forall>p \<in> set ps. ms_aligned (sp_timestamp p))" for ts'
      by simp
    have head: "validate_trace_point t = Inr t' \<longleftrightarrow> t' = t \<and> ms_aligned (sp_timestamp p)" for t'
      using Cons.hyps(1) Cons.prems by (auto simp: validate_trace_point_ok traced_def)
    show ?case by (auto simp: IH head)
  qed
  with assms(2) show ?thesis by (simp add: trajectory_ok_def)
qed

lemma list_all2_traced_times:
  "list_all2 traced traj trace \<Longrightarrow> map (instant \<circ> tp_timestamp) trace = map (instant \<circ> sp_timestamp) traj"
  by (induction rule: list_all2_induct) (auto simp: traced_def)

lemma build_stopping_trace_ok:
  assumes "list_all2 traced traj trace" "trajectory_ok until traj"
    "run_id \<noteq> []" "entity_id \<noteq> []" "version \<noteq> []"
  shows "build_stopping_trace run_id entity_id version trace = Inr t \<longleftrightarrow>
    (\<forall>p \<in> set traj. ms_aligned (sp_timestamp p))
    \<and> t = \<lparr>tr_run_id = run_id, tr_entity_id = entity_id, tr_config_version = version, tr_points = trace\<rparr>"
  using assms list_all2_traced_times [OF assms(1)]
  by (auto simp: build_stopping_trace_def map_result_trace_points [OF assms(1,2)]
      validate_stopping_trace_ok trajectory_ok_def)

lemma ms_aligned_add: "step mod 1000 = 0 \<Longrightarrow> ms_aligned (add_delta d step) \<longleftrightarrow> ms_aligned d"
  by (simp add: ms_aligned_iff add_delta_def mod_add_eq [symmetric] mod_add_left_eq [symmetric])

lemma cadence_ms_aligned:
  assumes "step mod 1000 = 0" "ms_aligned t" "p \<in> set (cadence step until t)"
  shows "ms_aligned p"
  using assms
proof (induction step until t rule: cadence.induct)
  case (1 step until t)
  then show ?case
    by (subst (asm) (2) cadence.simps) (auto simp: ms_aligned_add split: if_splits)
qed

definition pipeline_points :: "temporal_replay_runner \<Rightarrow> run_request \<Rightarrow> datetime option \<Rightarrow> datetime list" where
  "pipeline_points r rq replay_end =
     cadence (rn_step_size r) (effective_end rq replay_end) (rq_run_start rq)"

definition pipeline_input_ok :: "temporal_replay_runner \<Rightarrow> evidence list \<Rightarrow> run_request \<Rightarrow> datetime option
    \<Rightarrow> fusion_metadata \<Rightarrow> bool" where
  "pipeline_input_ok r es rq replay_end md \<longleftrightarrow> runner_wf r \<and> request_wf rq \<and> rq_run_id rq \<noteq> []
     \<and> boundary_wf rq replay_end \<and> aligned (rn_step_size r) rq replay_end
     \<and> evidences_wf rq (effective_end rq replay_end) es \<and> metadata_ok md"

lemma pipeline_parts:
  assumes "pipeline_input_ok r es rq replay_end md"
  defines "points \<equiv> pipeline_points r rq replay_end"
    and "a \<equiv> run_args rq (effective_end rq replay_end) (end_reason rq replay_end)"
    and "traj \<equiv> trajectory_over r (pipeline_points r rq replay_end) (event_time_active r es)"
  obtains res w' fr where "run r es rq replay_end = Inr (res, r\<lparr>rn_window_engine := w'\<rparr>)"
    "replay_outcome r a traj (snapshots_over r points (event_time_active r es)) res"
    "trajectory_ok (effective_end rq replay_end) traj"
    "build_fusion_result res (rq_run_id rq) (rq_entity_id rq) md = Inr fr" "fusion_contract fr"
    "fr_run_id fr = rq_run_id rq" "fr_entity_id fr = rq_entity_id rq"
    "fr_time fr = sr_time (rr_stopping_result res)"
    "fr_status fr = sr_status (rr_stopping_result res)"
    "fr_evidence_ids fr = (case fr_time fr of None \<Rightarrow> []
       | Some t \<Rightarrow> contributing_evidence_ids (rn_scorer r) (event_time_active r es t))"
    "fr_score fr = sr_score (rr_stopping_result res)"
proof -
  note in_ok = assms(1) [unfolded pipeline_input_ok_def]
  have utc: "is_utc (rq_run_start rq)" "is_utc (effective_end rq replay_end)"
    using in_ok by (auto simp: request_wf_def boundary_wf_def effective_end_def split: option.splits)
  have ok: "sorted_wrt (<) (map instant points)"
      "\<forall>p \<in> set points. is_utc p \<and> instant p \<le> instant (effective_end rq replay_end)"
    unfolding points_def pipeline_points_def using cadence_points_ok [OF utc(1)] by blast+
  have r: "runner_wf r" using in_ok by simp
  obtain res w' where run: "run r es rq replay_end = Inr (res, r\<lparr>rn_window_engine := w'\<rparr>)"
    "replay_outcome r a traj (snapshots_over r points (event_time_active r es)) res"
    using run_spec [OF r, of rq replay_end es] in_ok
    unfolding points_def pipeline_points_def a_def traj_def by blast
  have "trajectory_ok (effective_end rq replay_end) traj"
    using trajectory_ok_over [OF _ ok] r unfolding traj_def points_def by (simp add: runner_wf_def)
  with run build_fusion_result_total [OF r ok utc(2), of rq md "end_reason rq replay_end"
      "event_time_active r es" res] in_ok that
  show thesis unfolding a_def traj_def points_def by (auto simp: request_wf_def)
qed

lemma run_fusion_pipeline_cases:
  assumes ok: "pipeline_input_ok r es rq replay_end md"
  shows "(\<exists>x. run_fusion_pipeline r es rq replay_end md = Inr x)
    \<longleftrightarrow> (\<forall>p \<in> set (pipeline_points r rq replay_end). ms_aligned p)"
proof -
  have ne: "rq_run_id rq \<noteq> []" "rq_entity_id rq \<noteq> []" "fm_config_version md \<noteq> []"
    using ok by (auto simp: pipeline_input_ok_def metadata_ok_def request_wf_def)
  obtain res w' fr where parts: "run r es rq replay_end = Inr (res, r\<lparr>rn_window_engine := w'\<rparr>)"
      "list_all2 traced (trajectory_over r (pipeline_points r rq replay_end) (event_time_active r es))
         (rr_stopping_trace res)"
      "trajectory_ok (effective_end rq replay_end)
         (trajectory_over r (pipeline_points r rq replay_end) (event_time_active r es))"
      "build_fusion_result res (rq_run_id rq) (rq_entity_id rq) md = Inr fr"
    using pipeline_parts [OF ok] unfolding replay_outcome_def by blast
  show ?thesis
    using parts(1,4) build_stopping_trace_ok [OF parts(2,3) ne]
    by (auto simp: run_fusion_pipeline_def trajectory_over_def)
qed

lemma run_fusion_pipeline_result:
  assumes ok: "pipeline_input_ok r es rq replay_end md" and run: "run_fusion_pipeline r es rq replay_end md = Inr (pl, r')"
  defines "traj \<equiv> trajectory_over r (pipeline_points r rq replay_end) (event_time_active r es)"
  shows "fusion_contract (pl_fusion pl) \<and> fr_status (pl_fusion pl) \<noteq> NotEvaluated
    \<and> (case fr_time (pl_fusion pl) of None \<Rightarrow> never_fires (rn_stopping_policy r) traj
       | Some t \<Rightarrow> (\<exists>sc. fr_score (pl_fusion pl) = Some sc \<and> first_detection (rn_stopping_policy r) traj t sc
           \<and> fr_evidence_ids (pl_fusion pl) = contributing_evidence_ids (rn_scorer r) (event_time_active r es t)))
    \<and> map tp_timestamp (tr_points (pl_trace pl)) = pipeline_points r rq replay_end"
proof -
  have ne: "rq_run_id rq \<noteq> []" "rq_entity_id rq \<noteq> []" "fm_config_version md \<noteq> []"
    using ok by (auto simp: pipeline_input_ok_def metadata_ok_def request_wf_def)
  obtain res w' fr where parts: "run r es rq replay_end = Inr (res, r\<lparr>rn_window_engine := w'\<rparr>)"
      "list_all2 traced traj (rr_stopping_trace res)" "trajectory_ok (effective_end rq replay_end) traj"
      "build_fusion_result res (rq_run_id rq) (rq_entity_id rq) md = Inr fr" "fusion_contract fr"
      "detection_spec (rn_stopping_policy r) traj (rr_stopping_result res)"
      "fr_time fr = sr_time (rr_stopping_result res)" "fr_status fr = sr_status (rr_stopping_result res)"
      "fr_evidence_ids fr = (case fr_time fr of None \<Rightarrow> []
         | Some t \<Rightarrow> contributing_evidence_ids (rn_scorer r) (event_time_active r es t))"
      "fr_score fr = sr_score (rr_stopping_result res)"
    using pipeline_parts [OF ok] unfolding replay_outcome_def traj_def by blast
  obtain trace where trace: "build_stopping_trace (rq_run_id rq) (rq_entity_id rq) (fm_config_version md)
        (rr_stopping_trace res) = Inr trace" "pl = \<lparr>pl_replay = res, pl_fusion = fr, pl_trace = trace\<rparr>"
    using run parts(1,4) by (auto simp: run_fusion_pipeline_def)
  then have pl: "pl_fusion pl = fr" "tr_points (pl_trace pl) = rr_stopping_trace res"
    using build_stopping_trace_ok [OF parts(2,3) ne] by simp_all
  have "map tp_timestamp (rr_stopping_trace res) = map sp_timestamp traj"
    using parts(2) by (induction rule: list_all2_induct) (auto simp: traced_def)
  then have times: "map tp_timestamp (rr_stopping_trace res) = pipeline_points r rq replay_end"
    by (simp add: traj_def trajectory_over_def comp_def)
  show ?thesis
    using parts(5-10) times by (cases "sr_time (rr_stopping_result res)") (auto simp: pl detection_spec_def)
qed

end
