(* ===== verification/FusionConfig.thy ===== *)
theory FusionConfig
  imports FusionPipeline
begin

text \<open>
  \<open>decision/fusion/config.py\<close> and its persisted twin \<open>common/models/fusion_runtime_config.py\<close>:
  the validators of the versioned Fusion configuration and the construction of the runner.

  The managed Evidence vocabulary, a file the loader reads once, is the parameter \<open>managed\<close>; how
  a raw value is coerced to a float is pydantic's (a \<open>number\<close> is a coerced value, and
  \<open>Boolean\<close> a raw boolean); whether a bound constraint lets a NaN through is the parameter
  \<open>nan_ok\<close>.
\<close>

section \<open>Data\<close>

datatype config_number = Boolean bool | Number py_float

record window_config =
  wc_window_size_sec :: config_number

record replay_config =
  rc_step_size_sec :: config_number

record scoring_config =
  sc_method :: string
  sc_scorer_version :: string
  sc_profile_id :: string
  sc_evidence_types :: "string list"

record stopping_config =
  stc_threshold_on :: config_number
  stc_threshold_off :: config_number
  stc_persistence_k :: "bool + int"

record fusion_config =
  fc_config_version :: string
  fc_model_version :: "string option"
  fc_window :: window_config
  fc_replay :: replay_config
  fc_scoring :: scoring_config
  fc_stopping :: stopping_config

section \<open>Field validators\<close>

definition validate_managed_evidence_types :: "string set \<Rightarrow> string list \<Rightarrow> unit result" where
  "validate_managed_evidence_types managed types =
     raise_if (set types - managed \<noteq> {}) (ValueError ''evidence_types contains unmanaged values'')"

definition reject_boolean_numeric :: "config_number \<Rightarrow> py_float result" where
  "reject_boolean_numeric v = (case v of
     Boolean b \<Rightarrow> Inl (ValueError ''must not be boolean'') | Number x \<Rightarrow> Inr x)"

definition validate_positive_duration_seconds :: "py_float \<Rightarrow> rat result" where
  "validate_positive_duration_seconds x = (case x of
     Finite q \<Rightarrow> (case timedelta_seconds q of
         None \<Rightarrow> Inl (ValueError ''is outside timedelta supported range'')
       | Some duration \<Rightarrow>
           seq (raise_if (duration \<le> 0) (ValueError ''must produce a positive timedelta'')) (Inr q))
   | _ \<Rightarrow> Inl (ValueError ''must be finite''))"

text \<open>\<open>Field(gt=0)\<close> and \<open>Field(ge=0.0, le=1.0)\<close> on a coerced float.\<close>

definition check_positive :: "bool \<Rightarrow> py_float \<Rightarrow> unit result" where
  "check_positive nan_ok x =
     raise_if (\<not> (if x = NaN then nan_ok else flt (Finite 0) x)) (ValueError ''greater_than'')"

definition check_unit :: "bool \<Rightarrow> py_float \<Rightarrow> unit result" where
  "check_unit nan_ok x =
     raise_if (\<not> (if x = NaN then nan_ok else in_unit x)) (ValueError ''between 0 and 1'')"

definition validate_window_size_sec :: "bool \<Rightarrow> config_number \<Rightarrow> rat result" where
  "validate_window_size_sec nan_ok v =
     bnd (reject_boolean_numeric v) (\<lambda>x.
     seq (check_positive nan_ok x) (validate_positive_duration_seconds x))"

definition validate_step_size_sec :: "bool \<Rightarrow> config_number \<Rightarrow> rat result" where
  "validate_step_size_sec nan_ok v =
     bnd (reject_boolean_numeric v) (\<lambda>x.
     seq (check_positive nan_ok x)
     (bnd (validate_positive_duration_seconds x) (\<lambda>q.
     seq (raise_if (\<not> str_ms_aligned q) (ValueError ''step_size_sec must align to whole milliseconds''))
     (Inr q))))"

definition validate_non_blank :: "string \<Rightarrow> string \<Rightarrow> unit result" where
  "validate_non_blank msg s = raise_first
     [(s = [], ValueError ''string_too_short''), (blank s, ValueError msg)]"

definition validate_evidence_types :: "string list \<Rightarrow> unit result" where
  "validate_evidence_types types = raise_first
     [(types = [], ValueError ''evidence_types must not be empty''),
      (\<exists>t \<in> set types. blank t, ValueError ''evidence_types must not contain blank values''),
      (\<exists>t \<in> set types. \<not> unpadded t,
         ValueError ''evidence_types must not contain leading or trailing whitespace''),
      (has_duplicates types, ValueError ''evidence_types must not contain duplicates'')]"

definition validate_scoring_config :: "string set \<Rightarrow> scoring_config \<Rightarrow> unit result" where
  "validate_scoring_config managed c =
     seq (raise_if (sc_method c \<noteq> ''simple_score'') (ValueError ''literal_error''))
     (seq (validate_non_blank ''scoring metadata values must not be blank'' (sc_scorer_version c))
     (seq (validate_non_blank ''scoring metadata values must not be blank'' (sc_profile_id c))
     (seq (validate_evidence_types (sc_evidence_types c))
     (validate_managed_evidence_types managed (sc_evidence_types c)))))"

definition reject_boolean_count :: "bool + int \<Rightarrow> int result" where
  "reject_boolean_count v = (case v of
     Inl b \<Rightarrow> Inl (ValueError ''must not be boolean'')
   | Inr k \<Rightarrow> seq (raise_if (k < 1) (ValueError ''greater_than_equal'')) (Inr k))"

definition validate_stopping_config :: "bool \<Rightarrow> stopping_config \<Rightarrow> (py_float \<times> py_float \<times> int) result" where
  "validate_stopping_config nan_ok c =
     bnd (reject_boolean_numeric (stc_threshold_on c)) (\<lambda>x. seq (check_unit nan_ok x)
     (bnd (reject_boolean_numeric (stc_threshold_off c)) (\<lambda>y. seq (check_unit nan_ok y)
     (bnd (reject_boolean_count (stc_persistence_k c)) (\<lambda>k.
     seq (raise_if (fle x y) (ValueError ''threshold_off must be less than threshold_on''))
     (Inr (x, y, k)))))))"

section \<open>The configuration and its runner\<close>

record valid_config =
  vc_window_size :: rat
  vc_step_size :: rat
  vc_evidence_types :: "string list"
  vc_threshold_on :: py_float
  vc_threshold_off :: py_float
  vc_persistence_k :: int
  vc_metadata :: fusion_metadata

definition validate_fusion_config :: "bool \<Rightarrow> string set \<Rightarrow> fusion_config \<Rightarrow> valid_config result" where
  "validate_fusion_config nan_ok managed c =
     seq (validate_non_blank ''config_version must not be blank'' (fc_config_version c))
     (seq (case fc_model_version c of None \<Rightarrow> Inr ()
           | Some v \<Rightarrow> validate_non_blank ''model_version must not be blank'' v)
     (bnd (validate_window_size_sec nan_ok (wc_window_size_sec (fc_window c))) (\<lambda>window.
     bnd (validate_step_size_sec nan_ok (rc_step_size_sec (fc_replay c))) (\<lambda>step.
     seq (validate_scoring_config managed (fc_scoring c))
     (bnd (validate_stopping_config nan_ok (fc_stopping c)) (\<lambda>(x, y, k).
     Inr \<lparr>vc_window_size = window, vc_step_size = step,
          vc_evidence_types = sc_evidence_types (fc_scoring c),
          vc_threshold_on = x, vc_threshold_off = y, vc_persistence_k = k,
          vc_metadata = \<lparr>fm_config_version = fc_config_version c,
            fm_profile_id = sc_profile_id (fc_scoring c), fm_method = sc_method (fc_scoring c),
            fm_scorer_version = sc_scorer_version (fc_scoring c),
            fm_model_version = fc_model_version c\<rparr>\<rparr>))))))"

definition duration_of :: "rat \<Rightarrow> int result" where
  "duration_of q = (case timedelta_seconds q of
     None \<Rightarrow> Inl (ValueError ''OverflowError'') | Some us \<Rightarrow> Inr us)"

definition build_runner :: "valid_config \<Rightarrow> temporal_replay_runner result" where
  "build_runner c =
     bnd (duration_of (vc_window_size c)) (\<lambda>width.
     bnd (new_window_engine width) (\<lambda>engine.
     bnd (new_simple_scorer (vc_evidence_types c)) (\<lambda>scorer.
     bnd (new_stopping_policy (vc_threshold_on c) (vc_threshold_off c) (vc_persistence_k c)) (\<lambda>policy.
     bnd (duration_of (vc_step_size c)) (\<lambda>step.
     new_replay_runner engine scorer policy step)))))"

definition run_fusion_pipeline_from_config ::
  "valid_config \<Rightarrow> evidence list \<Rightarrow> run_request \<Rightarrow> datetime option \<Rightarrow> pipeline_result result" where
  "run_fusion_pipeline_from_config c evidences rq replay_end =
     bnd (build_runner c) (\<lambda>r.
     bnd (run_fusion_pipeline r evidences rq replay_end (vc_metadata c)) (\<lambda>(pl, r'). Inr pl))"

section \<open>The persisted snapshot of a configuration\<close>

definition validate_runtime_window_size_sec :: "bool \<Rightarrow> config_number \<Rightarrow> rat result" where
  "validate_runtime_window_size_sec nan_ok v =
     bnd (reject_boolean_numeric v) (\<lambda>x.
     seq (check_positive nan_ok x) (validate_positive_duration_seconds x))"

definition validate_runtime_step_size_sec :: "bool \<Rightarrow> config_number \<Rightarrow> rat result" where
  "validate_runtime_step_size_sec nan_ok v =
     bnd (reject_boolean_numeric v) (\<lambda>x.
     seq (check_positive nan_ok x)
     (bnd (validate_positive_duration_seconds x) (\<lambda>q.
     seq (raise_if (\<not> str_ms_aligned q) (ValueError ''step_size_sec must align to whole milliseconds''))
     (Inr q))))"

definition validate_runtime_scoring :: "scoring_config \<Rightarrow> unit result" where
  "validate_runtime_scoring c =
     seq (raise_if (sc_method c \<noteq> ''simple_score'') (ValueError ''literal_error''))
     (seq (validate_non_blank ''scoring metadata values must not be blank'' (sc_scorer_version c))
     (seq (validate_non_blank ''scoring metadata values must not be blank'' (sc_profile_id c))
     (validate_evidence_types (sc_evidence_types c))))"

text \<open>The thresholds carry \<open>allow_inf_nan=False\<close>.\<close>

definition validate_runtime_stopping :: "stopping_config \<Rightarrow> (py_float \<times> py_float \<times> int) result" where
  "validate_runtime_stopping c =
     bnd (reject_boolean_numeric (stc_threshold_on c)) (\<lambda>x. seq (check_unit False x)
     (bnd (reject_boolean_numeric (stc_threshold_off c)) (\<lambda>y. seq (check_unit False y)
     (bnd (reject_boolean_count (stc_persistence_k c)) (\<lambda>k.
     seq (raise_if (fle x y) (ValueError ''threshold_off must be less than threshold_on''))
     (Inr (x, y, k)))))))"

definition validate_runtime_config ::
  "bool \<Rightarrow> string \<Rightarrow> string \<Rightarrow> fusion_config \<Rightarrow> valid_config result" where
  "validate_runtime_config nan_ok run_id entity_id c =
     seq (validate_non_blank ''Runtime config snapshot identifiers must not be blank'' run_id)
     (seq (validate_non_blank ''Runtime config snapshot identifiers must not be blank'' entity_id)
     (seq (validate_non_blank ''Runtime config snapshot identifiers must not be blank'' (fc_config_version c))
     (seq (case fc_model_version c of None \<Rightarrow> Inr ()
           | Some v \<Rightarrow> validate_non_blank ''model_version must not be blank'' v)
     (bnd (validate_runtime_window_size_sec nan_ok (wc_window_size_sec (fc_window c))) (\<lambda>window.
     bnd (validate_runtime_step_size_sec nan_ok (rc_step_size_sec (fc_replay c))) (\<lambda>step.
     seq (validate_runtime_scoring (fc_scoring c))
     (bnd (validate_runtime_stopping (fc_stopping c)) (\<lambda>(x, y, k).
     Inr \<lparr>vc_window_size = window, vc_step_size = step,
          vc_evidence_types = sc_evidence_types (fc_scoring c),
          vc_threshold_on = x, vc_threshold_off = y, vc_persistence_k = k,
          vc_metadata = \<lparr>fm_config_version = fc_config_version c,
            fm_profile_id = sc_profile_id (fc_scoring c), fm_method = sc_method (fc_scoring c),
            fm_scorer_version = sc_scorer_version (fc_scoring c),
            fm_model_version = fc_model_version c\<rparr>\<rparr>))))))))"

section \<open>A validated configuration builds its runner\<close>

definition config_ok :: "bool \<Rightarrow> string set \<Rightarrow> valid_config \<Rightarrow> bool" where
  "config_ok nan_ok managed v \<longleftrightarrow>
     (\<exists>us. timedelta_seconds (vc_window_size v) = Some us \<and> 0 < us) \<and> 0 < vc_step_size v
     \<and> (\<exists>us. timedelta_seconds (vc_step_size v) = Some us \<and> 0 < us) \<and> str_ms_aligned (vc_step_size v)
     \<and> vc_evidence_types v \<noteq> [] \<and> distinct (vc_evidence_types v) \<and> set (vc_evidence_types v) \<subseteq> managed
     \<and> (\<forall>ty \<in> set (vc_evidence_types v). \<not> blank ty \<and> unpadded ty)
     \<and> (\<forall>x \<in> {vc_threshold_on v, vc_threshold_off v}. x = NaN \<and> nan_ok \<or> in_unit x)
     \<and> \<not> fle (vc_threshold_on v) (vc_threshold_off v) \<and> 1 \<le> vc_persistence_k v
     \<and> metadata_ok (vc_metadata v)"

lemma positive_duration_ok [validity]:
  "validate_positive_duration_seconds x = Inr q \<longleftrightarrow>
     x = Finite q \<and> (\<exists>us. timedelta_seconds q = Some us \<and> 0 < us)"
  by (auto simp: validate_positive_duration_seconds_def not_le split: py_float.splits option.splits)

lemma reject_boolean_ok [validity]: "reject_boolean_numeric v = Inr x \<longleftrightarrow> v = Number x"
  by (auto simp: reject_boolean_numeric_def split: config_number.splits)

lemma window_size_ok [validity]:
  "validate_window_size_sec nan_ok v = Inr q \<longleftrightarrow>
     v = Number (Finite q) \<and> 0 < q \<and> (\<exists>us. timedelta_seconds q = Some us \<and> 0 < us)"
  by (auto simp: validate_window_size_sec_def validity check_positive_def)

lemma step_size_ok [validity]:
  "validate_step_size_sec nan_ok v = Inr q \<longleftrightarrow> v = Number (Finite q) \<and> 0 < q
     \<and> (\<exists>us. timedelta_seconds q = Some us \<and> 0 < us) \<and> str_ms_aligned q"
  by (auto simp: validate_step_size_sec_def validity check_positive_def)

lemma non_blank_ok [validity]: "validate_non_blank msg s = Inr u \<longleftrightarrow> \<not> blank s"
  by (cases u) (auto simp: validate_non_blank_def)

lemma evidence_types_ok [validity]:
  "validate_evidence_types types = Inr u \<longleftrightarrow> types \<noteq> [] \<and> distinct types
     \<and> (\<forall>ty \<in> set types. \<not> blank ty \<and> unpadded ty)"
  by (cases u) (auto simp: validate_evidence_types_def)

lemma scoring_ok [validity]:
  "validate_scoring_config managed c = Inr u \<longleftrightarrow> sc_method c = ''simple_score''
     \<and> \<not> blank (sc_scorer_version c) \<and> \<not> blank (sc_profile_id c) \<and> sc_evidence_types c \<noteq> []
     \<and> distinct (sc_evidence_types c) \<and> (\<forall>ty \<in> set (sc_evidence_types c). \<not> blank ty \<and> unpadded ty)
     \<and> set (sc_evidence_types c) \<subseteq> managed"
  by (cases u) (auto simp: validate_scoring_config_def validity validate_managed_evidence_types_def)

lemma unit_ok: "check_unit nan_ok x = Inr u \<longleftrightarrow> x = NaN \<and> nan_ok \<or> in_unit x"
  by (cases u) (auto simp: check_unit_def in_unit_def)

lemma count_ok: "reject_boolean_count v = Inr k \<longleftrightarrow> v = Inr k \<and> 1 \<le> k"
  by (auto simp: reject_boolean_count_def not_less split: sum.splits)

lemma stopping_ok [validity]:
  "validate_stopping_config nan_ok c = Inr (x, y, k) \<longleftrightarrow> stc_threshold_on c = Number x
     \<and> stc_threshold_off c = Number y \<and> stc_persistence_k c = Inr k
     \<and> (\<forall>z \<in> {x, y}. z = NaN \<and> nan_ok \<or> in_unit z) \<and> \<not> fle x y \<and> 1 \<le> k"
  by (auto simp: validate_stopping_config_def validity unit_ok count_ok)

lemma fusion_config_ok:
  assumes "validate_fusion_config nan_ok managed c = Inr v"
  shows "config_ok nan_ok managed v"
  using assms
  by (cases "fc_model_version c")
    (auto simp: validate_fusion_config_def validity config_ok_def metadata_ok_def)

lemma seq_unit: "seq c (Inr ()) = c"
  by (cases c) auto

lemma runtime_config_ok:
  assumes "validate_runtime_config nan_ok run_id entity_id c = Inr v"
  shows "config_ok False UNIV v \<and> \<not> blank run_id \<and> \<not> blank entity_id"
proof -
  have eqs: "validate_runtime_window_size_sec = validate_window_size_sec"
    "validate_runtime_step_size_sec = validate_step_size_sec"
    "validate_runtime_scoring = validate_scoring_config UNIV"
    "validate_runtime_stopping = validate_stopping_config False"
    by (simp_all add: fun_eq_iff validate_runtime_window_size_sec_def validate_window_size_sec_def
        validate_runtime_step_size_sec_def validate_step_size_sec_def validate_runtime_scoring_def
        validate_scoring_config_def validate_managed_evidence_types_def validate_runtime_stopping_def
        validate_stopping_config_def seq_unit)
  show ?thesis
    using assms unfolding validate_runtime_config_def eqs
    by (cases "fc_model_version c") (auto simp: validity config_ok_def metadata_ok_def)
qed

lemma build_runner_ok:
  assumes "config_ok nan_ok managed v" "vc_threshold_on v \<noteq> NaN" "vc_threshold_off v \<noteq> NaN"
  shows "\<exists>r. build_runner v = Inr r \<and> runner_wf r
    \<and> timedelta_seconds (vc_step_size v) = Some (rn_step_size r)
    \<and> timedelta_seconds (vc_window_size v) = Some (we_window_size (rn_window_engine r))
    \<and> rn_scorer r = \<lparr>ss_profile_types = set (vc_evidence_types v)\<rparr>"
proof -
  obtain width step where us: "timedelta_seconds (vc_window_size v) = Some width" "0 < width"
      "timedelta_seconds (vc_step_size v) = Some step" "0 < step"
    using assms(1) by (auto simp: config_ok_def)
  let ?policy = "\<lparr>threshold_on = vc_threshold_on v, threshold_off = vc_threshold_off v,
      persistence_k = vc_persistence_k v\<rparr>"
  have "policy_wf ?policy" using assms by (auto simp: config_ok_def policy_wf_def)
  then have policy: "new_stopping_policy (vc_threshold_on v) (vc_threshold_off v) (vc_persistence_k v) = Inr ?policy"
    by (simp add: new_stopping_policy_ok)
  let ?scorer = "\<lparr>ss_profile_types = set (vc_evidence_types v)\<rparr>"
  have scorer: "new_simple_scorer (vc_evidence_types v) = Inr ?scorer"
    using assms(1) by (auto simp: new_simple_scorer_ok config_ok_def)
  show ?thesis
    using us policy scorer \<open>policy_wf ?policy\<close> new_simple_scorer_wf [OF scorer]
    by (simp add: build_runner_def duration_of_def new_window_engine_def new_replay_runner_def
        runner_wf_def not_le)
qed

lemma build_runner_nan:
  assumes "config_ok nan_ok managed v" "vc_threshold_on v = NaN \<or> vc_threshold_off v = NaN"
  shows "\<exists>e. build_runner v = Inl e"
proof -
  have "\<nexists>pol. new_stopping_policy (vc_threshold_on v) (vc_threshold_off v) (vc_persistence_k v) = Inr pol"
    using assms(2) by (auto simp: new_stopping_policy_ok policy_wf_def in_unit_def)
  then have "\<nexists>r. build_runner v = Inr r" by (auto simp: build_runner_def)
  then show ?thesis by (metis obj_sumE)
qed

section \<open>The pipeline of a configuration\<close>

lemma config_pipeline_total:
  assumes v: "config_ok nan_ok managed v" "vc_threshold_on v \<noteq> NaN" "vc_threshold_off v \<noteq> NaN"
      "vc_step_size v \<le> 1000000000"
    and step: "timedelta_seconds (vc_step_size v) = Some step"
    and rq: "request_wf rq" "rq_run_id rq \<noteq> []" "boundary_wf rq replay_end" "aligned step rq replay_end"
      "evidences_wf rq (effective_end rq replay_end) es" "ms_aligned (rq_run_start rq)"
  shows "\<exists>pl. run_fusion_pipeline_from_config v es rq replay_end = Inr pl \<and> fusion_contract (pl_fusion pl)
    \<and> fr_status (pl_fusion pl) \<noteq> NotEvaluated"
proof -
  obtain r where r: "build_runner v = Inr r" "runner_wf r" "rn_step_size r = step"
    using build_runner_ok [OF v(1-3)] step by auto
  have "metadata_ok (vc_metadata v)" using v(1) by (simp add: config_ok_def)
  then have ok: "pipeline_input_ok r es rq replay_end (vc_metadata v)"
    using r rq by (simp add: pipeline_input_ok_def)
  have "str_ms_aligned (vc_step_size v)" "0 \<le> vc_step_size v"
    using v(1) by (auto simp: config_ok_def)
  then have "step = 1000 * round_rat (vc_step_size v * 1000)"
    using timedelta_seconds_ms [of "vc_step_size v"] v(4) step by simp
  then have "step mod 1000 = 0" by simp
  then have "\<forall>p \<in> set (pipeline_points r rq replay_end). ms_aligned p"
    using cadence_ms_aligned rq(6) r(3) by (auto simp: pipeline_points_def)
  then obtain pl r' where pl: "run_fusion_pipeline r es rq replay_end (vc_metadata v) = Inr (pl, r')"
    using run_fusion_pipeline_cases [OF ok] by auto
  with run_fusion_pipeline_result [OF ok pl] r(1) show ?thesis
    by (auto simp: run_fusion_pipeline_from_config_def)
qed

end
