(* ===== verification/FusionProperties.thy ===== *)
theory FusionProperties
  imports FusionConfig
begin

text \<open>
  The properties of the Fusion path: scoring, stopping policy, replay, result models, pipeline and
  configuration; each with a concrete instance.
\<close>

section \<open>Sample inputs\<close>

definition sample_policy :: stopping_policy where
  "sample_policy = \<lparr>threshold_on = Finite (1/2), threshold_off = Finite (1/4), persistence_k = 2\<rparr>"

definition sample_scorer :: simple_scorer where
  "sample_scorer = \<lparr>ss_profile_types = {''execution'', ''network''}\<rparr>"

definition sample_runner :: temporal_replay_runner where
  "sample_runner = \<lparr>rn_window_engine = sample_engine\<lparr>we_window_size := 3000\<rparr>,
     rn_scorer = sample_scorer, rn_stopping_policy = sample_policy, rn_step_size = 1000\<rparr>"

definition sample_request :: run_request where
  "sample_request = \<lparr>rq_run_id = ''R'', rq_entity_id = ''H'', rq_run_start = utc 0, rq_run_end = utc 4000\<rparr>"

definition sample_metadata :: fusion_metadata where
  "sample_metadata = \<lparr>fm_config_version = ''c1'', fm_profile_id = ''p1'', fm_method = ''simple_score'',
     fm_scorer_version = ''v1'', fm_model_version = None\<rparr>"

definition sample_batch :: "evidence list" where
  "sample_batch = [sample_evidence ''A'' 500, sample_evidence ''B'' 1500]"

definition sample_schedule :: "scheduled_evidence list" where
  "sample_schedule = [\<lparr>sch_evidence = sample_evidence ''A'' 500, sch_available_at = utc 900\<rparr>,
     \<lparr>sch_evidence = sample_evidence ''B'' 1500, sch_available_at = utc 3500\<rparr>]"

definition sample_args :: policy_args where
  "sample_args = \<lparr>pa_run_id = ''R'', pa_entity_id = ''H'', pa_run_end = utc 4000, pa_reason = RunEnd\<rparr>"

definition sample_trajectory :: "score_point list" where
  "sample_trajectory = [\<lparr>sp_timestamp = utc 0, sp_score = Finite (1/2)\<rparr>,
     \<lparr>sp_timestamp = utc 1000, sp_score = Finite (3/4)\<rparr>, \<lparr>sp_timestamp = utc 2000, sp_score = Finite 0\<rparr>]"

lemma sample_policy_wf: "policy_wf sample_policy"
  by (simp add: policy_wf_def sample_policy_def in_unit_def)

lemma sample_scorer_wf: "scorer_wf sample_scorer"
  by (simp add: scorer_wf_def sample_scorer_def)

lemma sample_runner_wf: "runner_wf sample_runner"
  using sample_policy_wf sample_scorer_wf by (simp add: runner_wf_def sample_runner_def sample_engine_def)

lemma not_blank_H: "\<not> blank ''H''" "\<not> blank ''R''"
  by (simp_all add: blank_iff is_space_def code_point_def Let_def)

lemma sample_request_wf: "request_wf sample_request"
  using not_blank_H by (simp add: request_wf_def sample_request_def)

lemma sample_boundary: "boundary_wf sample_request None" "aligned (rn_step_size sample_runner) sample_request None"
    "effective_end sample_request None = utc 4000"
  by (simp_all add: boundary_wf_def aligned_def effective_end_def sample_request_def sample_runner_def)

lemma sample_batch_wf: "evidences_wf sample_request (utc 4000) sample_batch" "distinct (map evd_id sample_batch)"
  by (simp_all add: evidences_wf_def sample_batch_def sample_evidence_def sample_request_def evidence_key_def)

lemma sample_schedule_wf: "schedule_wf sample_request sample_schedule"
  by (simp add: schedule_wf_def scheduled_ok_def sample_schedule_def sample_evidence_def sample_request_def
      evidence_key_def)

lemma sample_args_ok: "\<not> blank (pa_entity_id sample_args)" "is_utc (pa_run_end sample_args)"
    "pa_reason sample_args \<noteq> Released" "trajectory_ok (pa_run_end sample_args) sample_trajectory"
  using not_blank_H by (simp_all add: sample_args_def trajectory_ok_def sample_trajectory_def in_unit_def)

lemma sample_pipeline_input: "pipeline_input_ok sample_runner sample_batch sample_request None sample_metadata"
  using sample_runner_wf sample_request_wf sample_boundary sample_batch_wf
  by (simp add: pipeline_input_ok_def) (simp add: sample_request_def metadata_ok_def sample_metadata_def)

section \<open>Scoring\<close>

text \<open>The score of any Evidence is in [0, 1] with float rounding included; it is positive exactly
  when some scoring Evidence is active, then the contributing ids are not empty; adding Evidence
  never lowers it; and it is 1 when every profile type is active.\<close>

theorem score_correct:
  assumes "scorer_wf s"
  shows "in_unit (score s es)
    \<and> (flt (Finite 0) (score s es)
        \<longleftrightarrow> (\<exists>e \<in> set es. evd_channel e = FusionFeature \<and> evd_type e \<in> ss_profile_types s))
    \<and> (flt (Finite 0) (score s es) \<longleftrightarrow> contributing_evidence_ids s es \<noteq> [])
    \<and> fle (score s es) (score s (es @ es'))
    \<and> (ss_profile_types s \<subseteq> evd_type ` {e \<in> set es. evd_channel e = FusionFeature}
        \<longrightarrow> score s es = Finite 1)"
  using assms score_in_unit score_positive_iff [OF assms, of es] score_mono [OF assms, of es "es @ es'"]
    score_full [OF assms, of es]
  by (simp add: ids_nonempty_iff is_scoring_evidence_def)

lemma score_correct_witness:
  "scorer_wf sample_scorer \<and> fle (score sample_scorer []) (score sample_scorer ([] @ sample_batch))"
  using sample_scorer_wf score_correct [OF sample_scorer_wf, of "[]" sample_batch] by blast

section \<open>The stopping policy\<close>

text \<open>\<open>evaluate\<close> returns exactly when the entity is not blank, the end is UTC, the reason is a
  boundary reason and the trajectory is UTC, in [0, 1], strictly increasing and within the end:
  no assertion inside it can fail and nothing else is refused.\<close>

theorem evaluate_accepts_iff:
  assumes "policy_wf pol"
  shows "(\<exists>res. evaluate pol a traj = Inr res) \<longleftrightarrow>
    \<not> blank (pa_entity_id a) \<and> is_utc (pa_run_end a) \<and> pa_reason a \<noteq> Released
    \<and> trajectory_ok (pa_run_end a) traj"
  using assms by (rule evaluate_ok_iff)

lemma evaluate_accepts_iff_witness: "\<exists>res. evaluate sample_policy sample_args sample_trajectory = Inr res"
  using evaluate_accepts_iff [OF sample_policy_wf, of sample_args sample_trajectory] sample_args_ok by blast

text \<open>C4: The detection is the first point that completes \<open>persistence_k\<close> consecutive points at or
  above the on-threshold, with the score at that point, and a miss means no point does.\<close>

theorem evaluate_detects_first:
  assumes "policy_wf pol" "evaluate pol a traj = Inr (r, tr)"
  shows "case sr_time r of
      None \<Rightarrow> sr_status r = Miss \<and> sr_episodes r = [] \<and> (\<forall>i < length traj. \<not> fires pol (take (Suc i) traj))
    | Some t \<Rightarrow> sr_status r = Detected \<and> (\<exists>i < length traj. t = sp_timestamp (traj ! i)
        \<and> sr_score r = Some (sp_score (traj ! i)) \<and> fires pol (take (Suc i) traj)
        \<and> (\<forall>j < i. \<not> fires pol (take (Suc j) traj)))"
proof -
  have "detection_spec pol traj r"
    using evaluate_ok_iff [OF assms(1), of a traj] evaluate_total [OF assms(1), of a traj] assms(2) by auto
  then show ?thesis
    by (auto simp: detection_spec_def never_fires_def fires_at_def first_detection_def first_fire_def
        split: option.splits)
qed

lemma first_episode_id: "episode_id (Suc 0) = ''FEP-001''"
  by code_simp

lemma sample_evaluate: "evaluate sample_policy sample_args sample_trajectory = Inr
    (\<lparr>sr_status = Detected, sr_time = Some (utc 1000), sr_score = Some (Finite (3/4)),
      sr_episodes = [\<lparr>fep_id = ''FEP-001'', fep_run_id = ''R'', fep_entity_id = ''H'', fep_start = utc 1000,
        fep_end = utc 2000, fep_end_reason = Released, fep_score_at_start = Finite (3/4),
        fep_peak = Finite (3/4)\<rparr>]\<rparr>,
     [\<lparr>tp_timestamp = utc 0, tp_score = Finite (1/2), tp_persistence = Some 1, tp_state = Off\<rparr>,
      \<lparr>tp_timestamp = utc 1000, tp_score = Finite (3/4), tp_persistence = Some 2, tp_state = On\<rparr>,
      \<lparr>tp_timestamp = utc 2000, tp_score = Finite 0, tp_persistence = None, tp_state = Off\<rparr>])"
  using sample_args_ok
  by (simp add: evaluate_def sample_args_def sample_trajectory_def sample_policy_def validate_entity_id_def
      sp_validate_utc_datetime_def require_utc_def utc_def eval_point_def validate_score_def in_unit_def
      initial_run_def idle_point_def active_point_def observe_def close_episode_def finish_run_def
      instant_def first_episode_id Let_def)

lemma evaluate_detects_first_witness:
  "sr_time (fst (case evaluate sample_policy sample_args sample_trajectory of Inr x \<Rightarrow> x)) = Some (utc 1000)
   \<and> (\<exists>i < length sample_trajectory. utc 1000 = sp_timestamp (sample_trajectory ! i)
        \<and> fires sample_policy (take (Suc i) sample_trajectory))"
  using evaluate_detects_first [OF sample_policy_wf sample_evaluate] by (auto simp: sample_evaluate)

text \<open>C5: The episodes are numbered in order, disjoint, each a stretch of the trajectory that starts
  at a firing point, holds no point below the off-threshold, carries its start and peak score and
  ends at the next point below the off-threshold or at the boundary; and every firing point lies
  in one.\<close>

theorem evaluate_episodes_correct:
  assumes "policy_wf pol" "evaluate pol a traj = Inr (r, tr)"
  shows "(\<forall>ep \<in> set (sr_episodes r). episode_of pol a traj ep) \<and> sorted_wrt ep_before (sr_episodes r)
    \<and> map fep_id (sr_episodes r) = map episode_id [1..<Suc (length (sr_episodes r))]
    \<and> (\<forall>i < length traj. fires pol (take (Suc i) traj) \<longrightarrow> (\<exists>ep \<in> set (sr_episodes r).
         instant (fep_start ep) \<le> instant (sp_timestamp (traj ! i))
         \<and> instant (sp_timestamp (traj ! i)) \<le> instant (fep_end ep)))"
proof -
  have "episodes_spec pol a traj r"
    using evaluate_ok_iff [OF assms(1), of a traj] evaluate_total [OF assms(1), of a traj] assms(2) by auto
  then show ?thesis by (simp add: episodes_spec_def fires_at_def del: upt_Suc)
qed

lemma evaluate_episodes_correct_witness:
  "\<exists>ep. episode_of sample_policy sample_args sample_trajectory ep \<and> fep_start ep = utc 1000
     \<and> fep_end ep = utc 2000"
  using evaluate_episodes_correct [OF sample_policy_wf sample_evaluate] by (auto simp del: upt_Suc)

section \<open>The replays\<close>

text \<open>C3: A replay by event time that its checks accept never fails afterwards: the trajectory and
  the snapshots are, at each point of the cadence, the score and contributing ids of the Evidence
  in the closed window ending there, whatever the engine held before, and the stopping result is
  the policy's verdict on that trajectory.\<close>

theorem run_exact:
  assumes "runner_wf r" "request_wf rq" "boundary_wf rq replay_end" "aligned (rn_step_size r) rq replay_end"
    "evidences_wf rq (effective_end rq replay_end) es"
  shows "\<exists>res w'. run r es rq replay_end = Inr (res, r\<lparr>rn_window_engine := w'\<rparr>)
    \<and> rr_trajectory res = map (\<lambda>p. \<lparr>sp_timestamp = p, sp_score = score (rn_scorer r)
          (filter (in_window (we_window_size (rn_window_engine r)) (instant p)) es)\<rparr>)
        (cadence (rn_step_size r) (effective_end rq replay_end) (rq_run_start rq))
    \<and> rr_snapshots res = map (\<lambda>p. \<lparr>es_timestamp = p, es_evidence_ids = contributing_evidence_ids (rn_scorer r)
          (filter (in_window (we_window_size (rn_window_engine r)) (instant p)) es)\<rparr>)
        (cadence (rn_step_size r) (effective_end rq replay_end) (rq_run_start rq))
    \<and> evaluate (rn_stopping_policy r) (run_args rq (effective_end rq replay_end) (end_reason rq replay_end))
        (rr_trajectory res) = Inr (rr_stopping_result res, rr_stopping_trace res)"
  using run_spec [OF assms]
  by (auto simp: replay_outcome_def trajectory_over_def snapshots_over_def score_point_at_def snapshot_at_def
      engine_collaborators_def event_time_active_def)

lemma run_exact_witness:
  "\<exists>res w'. run sample_runner sample_batch sample_request None = Inr (res, sample_runner\<lparr>rn_window_engine := w'\<rparr>)
    \<and> length (rr_trajectory res) = 5"
proof -
  have len: "int (length (cadence 1000 (utc 4000) (utc 0))) = 5" by (subst cadence_length) simp_all
  have "evidences_wf sample_request (effective_end sample_request None) sample_batch"
    using sample_batch_wf(1) sample_boundary(3) by simp
  from run_exact [OF sample_runner_wf sample_request_wf sample_boundary(1,2) this] len show ?thesis
    unfolding sample_boundary(3) by (fastforce simp: sample_runner_def sample_request_def)
qed

text \<open>The event-time replay accepts a request exactly when times are UTC and ordered, the end is
  on the cadence, the entity is not blank, and the Evidence is of the run and entity, inside the
  boundaries and in time order; every other request raises.\<close>

theorem run_accepts_iff:
  assumes "runner_wf r"
  shows "(\<exists>x. run r es rq replay_end = Inr x) \<longleftrightarrow> request_wf rq \<and> boundary_wf rq replay_end
    \<and> aligned (rn_step_size r) rq replay_end \<and> evidences_wf rq (effective_end rq replay_end) es"
  using run_spec [OF assms] run_accepts [OF assms] by blast

lemma run_accepts_iff_witness:
  "\<nexists>x. run sample_runner [sample_evidence ''B'' 1500, sample_evidence ''A'' 500] sample_request None = Inr x"
  unfolding run_accepts_iff [OF sample_runner_wf]
  by (simp add: evidences_wf_def sample_evidence_def)

text \<open>C7: The causal replay accepts a request exactly when it is well formed and the schedule has
  unique ids, Evidence of the run and entity, and activation times between the event time and the
  end; then at each replay point (the cadence, and the end when it is off the cadence) it scores
  what is available by then and in the window.\<close>

theorem run_causal_exact:
  assumes "runner_wf r"
  shows "(case run_causal r ss rq of
      Inl e \<Rightarrow> \<not> (request_wf rq \<and> schedule_wf rq ss)
    | Inr res \<Rightarrow> request_wf rq \<and> schedule_wf rq ss
        \<and> rr_trajectory res = map (\<lambda>p. \<lparr>sp_timestamp = p, sp_score = score (rn_scorer r) (causal_active r ss p)\<rparr>)
            (causal_replay_points (rn_step_size r) (rq_run_start rq) (rq_run_end rq))
        \<and> evaluate (rn_stopping_policy r) (run_args rq (rq_run_end rq) RunEnd) (rr_trajectory res)
            = Inr (rr_stopping_result res, rr_stopping_trace res))"
proof (cases "run_causal r ss rq")
  case (Inl e)
  then show ?thesis using run_causal_spec [OF assms, of rq ss] by auto
next
  case (Inr res)
  then have "request_wf rq \<and> schedule_wf rq ss" by (rule run_causal_accepts [OF assms])
  with Inr show ?thesis
    using run_causal_spec [OF assms, of rq ss]
    by (auto simp: replay_outcome_def trajectory_over_def score_point_at_def engine_collaborators_def
        causal_points_def)
qed

lemma run_causal_exact_witness:
  "\<exists>res. run_causal sample_runner sample_schedule sample_request = Inr res
    \<and> evaluate sample_policy (run_args sample_request (utc 4000) RunEnd) (rr_trajectory res)
        = Inr (rr_stopping_result res, rr_stopping_trace res)"
  using run_causal_exact [OF sample_runner_wf, of sample_request sample_schedule]
    sample_request_wf sample_schedule_wf
  by (auto simp: sample_runner_def sample_request_def split: sum.splits)

text \<open>C2: No lookahead: two schedules that agree on what is available by the detection time of the
  first have the same detection time and score; Evidence activated later can neither move nor
  undo a detection.\<close>

theorem run_causal_no_lookahead:
  assumes "runner_wf r" "run_causal r ss rq = Inr res" "run_causal r ss' rq = Inr res'"
    "sr_time (rr_stopping_result res) = Some t"
    "{s \<in> set ss. instant (sch_available_at s) \<le> instant t} = {s \<in> set ss'. instant (sch_available_at s) \<le> instant t}"
  shows "sr_time (rr_stopping_result res') = Some t
    \<and> sr_score (rr_stopping_result res') = sr_score (rr_stopping_result res)"
  using causal_detection_local [OF assms(1) _ assms(2-4)] assms(5) by (simp add: known_by_def)

definition sample_short_schedule :: "scheduled_evidence list" where
  "sample_short_schedule = [\<lparr>sch_evidence = sample_evidence ''A'' 500, sch_available_at = utc 900\<rparr>]"

lemma true_div_1_2: "true_div 1 2 = 1/2"
  by (simp add: true_div_def scale_up.simps scale_down.simps round_half_even_def Let_def del: One_nat_def)

lemma half: "true_div (Suc 0) (Suc (Suc 0)) = 1/2"
  using true_div_1_2 by (simp add: numeral_2_eq_2)

lemma sample_points: "causal_replay_points 1000 (utc 0) (utc 4000) = map utc [0, 1000, 2000, 3000, 4000]"
  by (simp add: causal_replay_points_def cadence_step cadence_end add_delta_def utc_def instant_def Let_def)

lemma sample_ordered: "sort_key schedule_key sample_schedule = sample_schedule"
  by (simp add: sample_schedule_def schedule_key_def sample_evidence_def less_eq_prod_def)

lemma sample_scores:
  "map (\<lambda>p. score sample_scorer (causal_active sample_runner sample_schedule p)) (map utc [0, 1000, 2000, 3000, 4000])
    = map Finite [0, 1/2, 1/2, 1/2, 1/2]"
  by (simp add: causal_active_def sample_ordered)
    (simp add: sample_schedule_def sample_evidence_def in_window_def sample_runner_def score_def active_types_def
      is_scoring_evidence_def denominator_def sample_scorer_def half)

lemma sample_causal_trajectory:
  "trajectory_over sample_runner (causal_points sample_runner sample_request) (causal_active sample_runner sample_schedule)
    = [\<lparr>sp_timestamp = utc 0, sp_score = Finite 0\<rparr>, \<lparr>sp_timestamp = utc 1000, sp_score = Finite (1/2)\<rparr>,
       \<lparr>sp_timestamp = utc 2000, sp_score = Finite (1/2)\<rparr>, \<lparr>sp_timestamp = utc 3000, sp_score = Finite (1/2)\<rparr>,
       \<lparr>sp_timestamp = utc 4000, sp_score = Finite (1/2)\<rparr>]"
  using sample_scores sample_points
  by (simp add: trajectory_over_def causal_points_def score_point_at_def engine_collaborators_def)
    (simp add: sample_runner_def sample_request_def)

lemma sample_detection_time:
  assumes "run_causal sample_runner sample_schedule sample_request = Inr res"
  shows "sr_time (rr_stopping_result res) = Some (utc 2000)"
proof -
  have "evaluate sample_policy (run_args sample_request (utc 4000) RunEnd)
      (trajectory_over sample_runner (causal_points sample_runner sample_request) (causal_active sample_runner sample_schedule))
      = Inr (rr_stopping_result res, rr_stopping_trace res)"
    using run_causal_spec [OF sample_runner_wf sample_request_wf sample_schedule_wf] assms
    by (simp add: replay_outcome_def) (simp add: sample_runner_def sample_request_def)
  then show ?thesis
    unfolding sample_causal_trajectory
    using not_blank_H
    by (simp add: evaluate_def run_args_def sample_request_def sample_policy_def validate_entity_id_def
      sp_validate_utc_datetime_def require_utc_def utc_def eval_point_def validate_score_def in_unit_def
      initial_run_def idle_point_def active_point_def observe_def close_episode_def finish_run_def
      instant_def first_episode_id Let_def) (auto dest!: sym [of _ "rr_stopping_result res"])
qed

lemma run_causal_no_lookahead_witness:
  "\<exists>res'. run_causal sample_runner sample_short_schedule sample_request = Inr res'
    \<and> sr_time (rr_stopping_result res') = Some (utc 2000)"
proof -
  obtain res where res: "run_causal sample_runner sample_schedule sample_request = Inr res"
      "sr_time (rr_stopping_result res) = Some (utc 2000)"
    using run_causal_spec [OF sample_runner_wf sample_request_wf sample_schedule_wf] sample_detection_time by blast
  have "schedule_wf sample_request sample_short_schedule"
    by (simp add: schedule_wf_def scheduled_ok_def sample_short_schedule_def sample_evidence_def
        sample_request_def evidence_key_def)
  then obtain res' where res': "run_causal sample_runner sample_short_schedule sample_request = Inr res'"
    using run_causal_spec [OF sample_runner_wf sample_request_wf] by blast
  have "{s \<in> set sample_schedule. instant (sch_available_at s) \<le> instant (utc 2000)}
      = {s \<in> set sample_short_schedule. instant (sch_available_at s) \<le> instant (utc 2000)}"
    by (auto simp: sample_schedule_def sample_short_schedule_def)
  from run_causal_no_lookahead [OF sample_runner_wf res(1) res' res(2) this] res' show ?thesis by simp
qed

text \<open>The order of the batch handed to the causal replay does not matter.\<close>

theorem run_causal_order_irrelevant:
  assumes "runner_wf r" "mset ss = mset ss'" "run_causal r ss rq = Inr res"
  shows "run_causal r ss' rq = Inr res"
  using assms by (rule run_causal_perm)

lemma run_causal_order_irrelevant_witness:
  "\<exists>res. run_causal sample_runner sample_schedule sample_request = Inr res
    \<and> run_causal sample_runner (rev sample_schedule) sample_request = Inr res"
proof -
  obtain res where "run_causal sample_runner sample_schedule sample_request = Inr res"
    using run_causal_spec [OF sample_runner_wf sample_request_wf sample_schedule_wf] by blast
  with run_causal_order_irrelevant [OF sample_runner_wf, of sample_schedule "rev sample_schedule"]
  show ?thesis by simp
qed

text \<open>On a schedule without delay and an end on the cadence, the causal replay and the replay by
  event time give the same result.\<close>

theorem run_causal_without_delay:
  assumes "runner_wf r" "request_wf rq" "aligned (rn_step_size r) rq None"
    "evidences_wf rq (rq_run_end rq) es" "distinct (map evd_id es)"
  shows "\<exists>res r'. run r es rq None = Inr (res, r')
    \<and> run_causal r (map (\<lambda>e. \<lparr>sch_evidence = e, sch_available_at = evd_timestamp e\<rparr>) es) rq = Inr res"
  using run_causal_undelayed [OF assms] unfolding undelayed_def [abs_def] .

lemma run_causal_without_delay_witness:
  "\<exists>res r'. run sample_runner sample_batch sample_request None = Inr (res, r')
    \<and> run_causal sample_runner (map (\<lambda>e. \<lparr>sch_evidence = e, sch_available_at = evd_timestamp e\<rparr>) sample_batch)
        sample_request = Inr res"
  using run_causal_without_delay [OF sample_runner_wf sample_request_wf sample_boundary(2)] sample_batch_wf
  by (simp add: sample_request_def)

section \<open>Result models and pipeline\<close>

text \<open>The Fusion result model accepts exactly the results with non-empty metadata, UTC times and
  valid episodes that keep the contract: episodes of the same run and entity with distinct ids, a
  detection that matches its first episode in time, score and Evidence ids, and neither time nor
  episodes without a detection; an accepted result is stored unchanged.\<close>

theorem fusion_result_model_exact:
  "validate_fusion_result r = Inr r' \<longleftrightarrow> r' = r \<and> metadata_nonempty r
     \<and> (\<forall>t. fr_time r = Some t \<longrightarrow> is_utc t)
     \<and> (\<forall>e \<in> set (fr_episodes r). fer_id e \<noteq> [] \<and> fer_run_id e \<noteq> [] \<and> fer_entity_id e \<noteq> []
          \<and> is_utc (fer_start e) \<and> (fer_end e = None \<longleftrightarrow> fer_end_reason e = None)
          \<and> (\<forall>t. fer_end e = Some t \<longrightarrow> is_utc t \<and> instant (fer_start e) \<le> instant t))
     \<and> fusion_contract r"
  by (auto simp: validate_fusion_result_ok validate_episode_ok)

lemma fusion_result_model_exact_witness:
  "validate_fusion_result \<lparr>fr_run_id = ''R'', fr_entity_id = ''H'', fr_time = None, fr_status = Miss, fr_score = None,
     fr_evidence_ids = [], fr_config_version = ''c1'', fr_profile_id = ''p1'', fr_model_version = None,
     fr_scoring_method = ''m'', fr_scorer_version = ''v1'', fr_episodes = []\<rparr>
   = Inr \<lparr>fr_run_id = ''R'', fr_entity_id = ''H'', fr_time = None, fr_status = Miss, fr_score = None,
     fr_evidence_ids = [], fr_config_version = ''c1'', fr_profile_id = ''p1'', fr_model_version = None,
     fr_scoring_method = ''m'', fr_scorer_version = ''v1'', fr_episodes = []\<rparr>"
  unfolding fusion_result_model_exact by (simp add: metadata_nonempty_def fusion_contract_def)

text \<open>C8: On valid inputs the pipeline returns exactly when every replay point is aligned to the
  millisecond: neither the result builder nor the result contract can refuse a replay, only the
  trace model can, a precondition the pipeline's documentation does not list.\<close>

theorem pipeline_returns_iff_ms_aligned:
  assumes "pipeline_input_ok r es rq replay_end md"
  shows "(\<exists>x. run_fusion_pipeline r es rq replay_end md = Inr x) \<longleftrightarrow>
    (\<forall>p \<in> set (cadence (rn_step_size r) (effective_end rq replay_end) (rq_run_start rq)). ms_aligned p)"
  using run_fusion_pipeline_cases [OF assms] by (simp add: pipeline_points_def)

lemma sample_points_ms: "\<forall>p \<in> set (cadence 1000 (utc 4000) (utc 0)). ms_aligned p"
  using cadence_ms_aligned [of 1000 "utc 0" _ "utc 4000"] by (simp add: ms_aligned_iff utc_def)

lemma pipeline_returns_iff_ms_aligned_witness:
  "\<exists>x. run_fusion_pipeline sample_runner sample_batch sample_request None sample_metadata = Inr x"
  unfolding pipeline_returns_iff_ms_aligned [OF sample_pipeline_input]
  using sample_points_ms by (simp add: sample_boundary) (simp add: sample_runner_def sample_request_def)

text \<open>C1: A result of the pipeline keeps the Fusion contract, is evaluated, reports the first
  detection of the windowed trajectory with the ids of the Evidence active at that time, and its
  trace has one point per replay point.\<close>

theorem pipeline_result_correct:
  assumes "pipeline_input_ok r es rq replay_end md" "run_fusion_pipeline r es rq replay_end md = Inr (pl, r')"
  shows "fusion_contract (pl_fusion pl) \<and> fr_status (pl_fusion pl) \<noteq> NotEvaluated
    \<and> (let traj = trajectory_over r (pipeline_points r rq replay_end) (event_time_active r es)
       in case fr_time (pl_fusion pl) of None \<Rightarrow> never_fires (rn_stopping_policy r) traj
       | Some t \<Rightarrow> (\<exists>sc. fr_score (pl_fusion pl) = Some sc \<and> first_detection (rn_stopping_policy r) traj t sc
           \<and> fr_evidence_ids (pl_fusion pl) = contributing_evidence_ids (rn_scorer r) (event_time_active r es t)))
    \<and> map tp_timestamp (tr_points (pl_trace pl)) = pipeline_points r rq replay_end"
  using run_fusion_pipeline_result [OF assms] by (simp add: Let_def)

lemma pipeline_result_correct_witness:
  "\<exists>pl r'. run_fusion_pipeline sample_runner sample_batch sample_request None sample_metadata = Inr (pl, r')
    \<and> fusion_contract (pl_fusion pl)"
proof -
  have "\<exists>x. run_fusion_pipeline sample_runner sample_batch sample_request None sample_metadata = Inr x"
    using run_fusion_pipeline_cases [OF sample_pipeline_input] sample_points_ms
    by (simp add: pipeline_points_def sample_boundary) (simp add: sample_runner_def sample_request_def)
  then obtain pl r' where run: "run_fusion_pipeline sample_runner sample_batch sample_request None sample_metadata
      = Inr (pl, r')" by auto
  with pipeline_result_correct [OF sample_pipeline_input run] show ?thesis by blast
qed

section \<open>Configuration\<close>

text \<open>A configuration the model accepts builds its runner, with the configured durations, types
  and thresholds, unless a threshold is a NaN the bound checks let through; then building raises.\<close>

theorem accepted_config_builds:
  assumes "validate_fusion_config nan_ok managed c = Inr v"
  shows "(case build_runner v of
      Inl e \<Rightarrow> nan_ok \<and> (vc_threshold_on v = NaN \<or> vc_threshold_off v = NaN)
    | Inr r \<Rightarrow> runner_wf r \<and> timedelta_seconds (vc_step_size v) = Some (rn_step_size r)
        \<and> timedelta_seconds (vc_window_size v) = Some (we_window_size (rn_window_engine r))
        \<and> ss_profile_types (rn_scorer r) = set (vc_evidence_types v) \<and> set (vc_evidence_types v) \<subseteq> managed)"
proof -
  have ok: "config_ok nan_ok managed v" using assms by (rule fusion_config_ok)
  show ?thesis
  proof (cases "vc_threshold_on v = NaN \<or> vc_threshold_off v = NaN")
    case True
    then have "nan_ok" using ok by (auto simp: config_ok_def in_unit_def)
    with True build_runner_nan [OF ok True] show ?thesis by auto
  next
    case False
    with build_runner_ok [OF ok] ok show ?thesis by (auto simp: config_ok_def)
  qed
qed

definition sample_config :: fusion_config where
  "sample_config = \<lparr>fc_config_version = ''c1'', fc_model_version = None,
     fc_window = \<lparr>wc_window_size_sec = Number (Finite 3)\<rparr>, fc_replay = \<lparr>rc_step_size_sec = Number (Finite 1)\<rparr>,
     fc_scoring = \<lparr>sc_method = ''simple_score'', sc_scorer_version = ''v1'', sc_profile_id = ''p1'',
       sc_evidence_types = [''execution'']\<rparr>,
     fc_stopping = \<lparr>stc_threshold_on = Number (Finite (1/2)), stc_threshold_off = Number (Finite (1/4)),
       stc_persistence_k = Inr 2\<rparr>\<rparr>"

definition sample_valid_config :: valid_config where
  "sample_valid_config = \<lparr>vc_window_size = 3, vc_step_size = 1, vc_evidence_types = [''execution''],
     vc_threshold_on = Finite (1/2), vc_threshold_off = Finite (1/4), vc_persistence_k = 2,
     vc_metadata = \<lparr>fm_config_version = ''c1'', fm_profile_id = ''p1'', fm_method = ''simple_score'',
       fm_scorer_version = ''v1'', fm_model_version = None\<rparr>\<rparr>"

lemma whole_seconds: "timedelta_seconds 1 = Some 1000000" "timedelta_seconds 3 = Some 3000000"
  by (simp_all add: timedelta_seconds_def fraction_us_def rat_zero_code round_rat_def day_us_def Let_def)

lemma one_second_aligned: "str_ms_aligned 1"
proof -
  have "true_div 1000 1000 = 1" by (rule true_div_self) simp
  then show ?thesis by (simp add: str_ms_aligned_def round_rat_def Let_def)
qed

lemma not_blank_samples: "\<not> blank ''c1''" "\<not> blank ''v1''" "\<not> blank ''p1''" "\<not> blank ''execution''" "unpadded ''execution''"
  by (simp_all add: blank_iff is_space_def code_point_def unpadded_def str_strip_def Let_def)

lemma sample_config_valid: "validate_fusion_config False {''execution''} sample_config = Inr sample_valid_config"
  using not_blank_samples whole_seconds one_second_aligned
  by (simp add: validate_fusion_config_def validity sample_config_def sample_valid_config_def in_unit_def)

lemma accepted_config_builds_witness:
  "\<exists>r. build_runner sample_valid_config = Inr r \<and> rn_step_size r = 1000000"
  using accepted_config_builds [OF sample_config_valid] whole_seconds
  by (auto simp: sample_valid_config_def split: sum.splits)

text \<open>The pipeline of an accepted configuration whose step is at most 10^9 seconds never fails on
  valid inputs that start on a whole millisecond: the alignment check on the decimal form of the
  step makes every replay point fit the trace model.\<close>

theorem config_pipeline_never_fails:
  assumes "validate_fusion_config False managed c = Inr v" "vc_step_size v \<le> 1000000000"
    "timedelta_seconds (vc_step_size v) = Some step"
    "request_wf rq" "rq_run_id rq \<noteq> []" "boundary_wf rq replay_end" "aligned step rq replay_end"
    "evidences_wf rq (effective_end rq replay_end) es" "ms_aligned (rq_run_start rq)"
  shows "\<exists>pl. run_fusion_pipeline_from_config v es rq replay_end = Inr pl \<and> fusion_contract (pl_fusion pl)
    \<and> fr_status (pl_fusion pl) \<noteq> NotEvaluated"
proof -
  have ok: "config_ok False managed v" using assms(1) by (rule fusion_config_ok)
  then have "vc_threshold_on v \<noteq> NaN" "vc_threshold_off v \<noteq> NaN" by (auto simp: config_ok_def in_unit_def)
  with ok assms(2-) show ?thesis by (intro config_pipeline_total) auto
qed

lemma config_pipeline_never_fails_witness:
  "\<exists>pl. run_fusion_pipeline_from_config sample_valid_config [] (sample_request\<lparr>rq_run_end := utc 2000000\<rparr>) None = Inr pl
    \<and> fusion_contract (pl_fusion pl)"
proof -
  let ?rq = "sample_request\<lparr>rq_run_end := utc 2000000\<rparr>"
  have "\<exists>pl. run_fusion_pipeline_from_config sample_valid_config [] ?rq None = Inr pl \<and> fusion_contract (pl_fusion pl)
      \<and> fr_status (pl_fusion pl) \<noteq> NotEvaluated"
    using not_blank_H whole_seconds
    by (intro config_pipeline_never_fails [OF sample_config_valid, of 1000000])
      (simp_all add: sample_valid_config_def request_wf_def boundary_wf_def aligned_def effective_end_def
        evidences_wf_def sample_request_def ms_aligned_iff utc_def [symmetric], simp_all add: utc_def instant_def is_utc_def)
  then show ?thesis by blast
qed

end
