(* ===== verification/RecordModels.thy ===== *)
theory RecordModels
  imports FusionModels
begin

text \<open>
  The models of runs and events (\<open>common/models/run.py\<close>, \<open>common/models/event.py\<close>) and the
  validators the record models share: run identifiers, UTC times on the millisecond, and the
  refusal of numeric timestamps, with Python's grammar of \<open>float()\<close>. What pydantic parses from a
  string that is not refused is the parameter \<open>parse\<close>; the managed event vocabulary is the
  parameter \<open>event_types\<close>.
\<close>

section \<open>Numeric strings\<close>

text \<open>\<open>str.lower\<close> on the modelled code points.\<close>

definition lower_char :: "char \<Rightarrow> char" where
  "lower_char c = (let n = code_point c in
     if (65 \<le> n \<and> n \<le> 90) \<or> (192 \<le> n \<and> n \<le> 222 \<and> n \<noteq> 215) then char_of (n + 32) else c)"

definition is_digit :: "char \<Rightarrow> bool" where
  "is_digit c = (let n = code_point c in 48 \<le> n \<and> n \<le> 57)"

text \<open>A run of digits with single underscores between them: how many digits, and the rest.\<close>

fun take_digits :: "string \<Rightarrow> nat \<times> string" where
  "take_digits [] = (0, [])"
| "take_digits [c] = (if is_digit c then (1, []) else (0, [c]))"
| "take_digits (c # d # cs) =
     (if \<not> is_digit c then (0, c # d # cs)
      else let (n, rest) = (if d = CHR ''_'' \<and> cs \<noteq> [] \<and> is_digit (hd cs) then take_digits cs
                            else take_digits (d # cs))
           in (Suc n, rest))"

definition drop_sign :: "string \<Rightarrow> string" where
  "drop_sign s = (case s of [] \<Rightarrow> [] | c # cs \<Rightarrow> if c = CHR ''+'' \<or> c = CHR ''-'' then cs else s)"

definition exponent_part :: "string \<Rightarrow> bool" where
  "exponent_part s = (case s of [] \<Rightarrow> True
     | c # cs \<Rightarrow> (c = CHR ''e'' \<or> c = CHR ''E'') \<and>
         (let (n, rest) = take_digits (drop_sign cs) in 0 < n \<and> rest = []))"

definition decimal_literal :: "string \<Rightarrow> bool" where
  "decimal_literal s =
     (let (n, rest) = take_digits s in
      case rest of
        CHR ''.'' # rest' \<Rightarrow> (let (m, rest'') = take_digits rest' in 0 < n + m \<and> exponent_part rest'')
      | _ \<Rightarrow> 0 < n \<and> exponent_part rest)"

text \<open>\<open>float(s)\<close> does not raise.\<close>

definition is_numeric_string :: "string \<Rightarrow> bool" where
  "is_numeric_string s =
     (let body = drop_sign (str_strip s) in
      str_casefold body \<in> {''inf'', ''infinity'', ''nan''} \<or> decimal_literal body)"

section \<open>Raw timestamps\<close>

datatype raw_time = RawNull | RawNumber | RawText string | RawDatetime datetime | RawOther

definition reject_numeric_datetime :: "raw_time \<Rightarrow> raw_time result" where
  "reject_numeric_datetime v =
     (if v = RawNumber \<or> (case v of RawText s \<Rightarrow> is_numeric_string s | _ \<Rightarrow> False)
      then Inl (ValueError ''datetime must not be a numeric Unix timestamp'') else Inr v)"

definition reject_numeric_timestamp :: "string \<Rightarrow> raw_time \<Rightarrow> raw_time result" where
  "reject_numeric_timestamp field_name v = (case v of
     RawNumber \<Rightarrow> Inl (TypeError (field_name @ '' must be an ISO 8601 datetime, not a numeric timestamp''))
   | RawText s \<Rightarrow>
       (let stripped = str_strip s in
        if stripped \<noteq> [] \<and> is_numeric_string stripped
        then Inl (ValueError (field_name @ '' must be an ISO 8601 datetime, not a numeric timestamp''))
        else Inr v)
   | _ \<Rightarrow> Inr v)"

text \<open>\<open>validate_utc_datetime\<close> of the models whose times are on the millisecond.\<close>

definition validate_utc_ms :: "datetime option \<Rightarrow> datetime option result" where
  "validate_utc_ms v = (case v of
     None \<Rightarrow> Inr None
   | Some d \<Rightarrow>
       seq (require_utc ''datetime'' d)
       (seq (raise_if (microsecond d mod 1000 \<noteq> 0) (ValueError ''datetime must be in milliseconds''))
       (Inr (Some (astimezone_utc d)))))"

definition parse_time :: "(string \<Rightarrow> datetime option) \<Rightarrow> raw_time \<Rightarrow> datetime option result" where
  "parse_time parse v = (case v of
     RawNull \<Rightarrow> Inr None
   | RawText s \<Rightarrow> (case parse s of None \<Rightarrow> Inl (ValueError ''datetime_parsing'') | Some d \<Rightarrow> Inr (Some d))
   | RawDatetime d \<Rightarrow> Inr (Some d)
   | _ \<Rightarrow> Inl (ValueError ''datetime_type''))"

definition read_event_time :: "(string \<Rightarrow> datetime option) \<Rightarrow> raw_time \<Rightarrow> datetime option result" where
  "read_event_time parse v =
     bnd (reject_numeric_datetime v) (\<lambda>v'. bnd (parse_time parse v') validate_utc_ms)"

lemma validate_utc_ms_ok [simp]:
  "validate_utc_ms v = Inr v' \<longleftrightarrow> v' = v \<and> (\<forall>d. v = Some d \<longrightarrow> is_utc d \<and> ms_aligned d)"
  by (cases v) (auto simp: validate_utc_ms_def ms_aligned_def)

section \<open>Run identifiers\<close>

definition leap_year :: "nat \<Rightarrow> bool" where
  "leap_year y = (y mod 4 = 0 \<and> (y mod 100 \<noteq> 0 \<or> y mod 400 = 0))"

definition days_in_month :: "nat \<Rightarrow> nat \<Rightarrow> nat" where
  "days_in_month y m = (if m = 2 then (if leap_year y then 29 else 28)
     else if m \<in> {4, 6, 9, 11} then 30 else 31)"

text \<open>\<open>date.fromisoformat\<close> of eight digits does not raise.\<close>

definition date_digits_valid :: "string \<Rightarrow> bool" where
  "date_digits_valid s =
     (let y = dec_value (take 4 s); m = dec_value (take 2 (drop 4 s)); d = dec_value (drop 6 s) in
      1 \<le> y \<and> 1 \<le> m \<and> m \<le> 12 \<and> 1 \<le> d \<and> d \<le> days_in_month y m)"

definition run_id_pattern :: "string \<Rightarrow> bool" where
  "run_id_pattern s = (length s = 16 \<and> take 4 s = ''RUN-'' \<and> list_all is_digit (take 8 (drop 4 s))
     \<and> s ! 12 = CHR ''-'' \<and> list_all is_digit (drop 13 s))"

definition validate_run_id :: "string \<Rightarrow> unit result" where
  "validate_run_id s = raise_first
     [(\<not> run_id_pattern s, ValueError ''run_id must have the form RUN-YYYYMMDD-NNN''),
      (\<not> date_digits_valid (take 8 (drop 4 s)), ValueError ''run_id must hold a valid date'')]"

definition run_id_ok :: "string \<Rightarrow> bool" where
  "run_id_ok s \<longleftrightarrow> run_id_pattern s \<and> date_digits_valid (take 8 (drop 4 s))"

lemma validate_run_id_ok [simp]: "validate_run_id s = Inr u \<longleftrightarrow> run_id_ok s"
  by (cases u) (auto simp: validate_run_id_def run_id_ok_def)

lemma run_id_ok_nonempty: "run_id_ok s \<Longrightarrow> s \<noteq> []"
  by (auto simp: run_id_ok_def run_id_pattern_def)

lemma run_id_ok_Nil [simp]: "\<not> run_id_ok []"
  using run_id_ok_nonempty by blast

text \<open>The identifiers written out: a calendar date and a number, in their fixed widths.\<close>

definition run_id_text :: "nat \<Rightarrow> nat \<Rightarrow> nat \<Rightarrow> nat \<Rightarrow> string" where
  "run_id_text y m d n = ''RUN-'' @ zero_pad 4 (dec_digits y) @ zero_pad 2 (dec_digits m)
     @ zero_pad 2 (dec_digits d) @ ''-'' @ zero_pad 3 (dec_digits n)"

lemma zero_pad_dec_value: "s \<noteq> [] \<Longrightarrow> list_all is_digit s \<Longrightarrow> zero_pad (length s) (dec_digits (dec_value s)) = s"
proof (induction s rule: rev_induct)
  case Nil
  then show ?case by simp
next
  case (snoc c t)
  define d where "d = (of_char c :: nat) - 48"
  from snoc.prems have "48 \<le> (of_char c :: nat)" "(of_char c :: nat) \<le> 57"
    by (simp_all add: is_digit_def code_point_def Let_def)
  then have d: "d < 10" "c = char_of (48 + d)" by (simp_all add: d_def)
  have val: "dec_value (t @ [c]) = 10 * dec_value t + d" by (simp add: dec_value_snoc d_def)
  show ?case
  proof (cases "t = []")
    case True
    then show ?thesis unfolding val using d by (simp add: dec_value_def dec_digits.simps zero_pad_def)
  next
    case False
    with snoc have IH: "zero_pad (length t) (dec_digits (dec_value t)) = t" by simp
    show ?thesis
    proof (cases "dec_value t = 0")
      case True
      have "replicate (length t - 1) (CHR ''0'') @ ''0'' = replicate (length t) (CHR ''0'')"
        using False by (cases t) (simp_all add: replicate_append_same)
      moreover have "char_of (48 :: nat) = CHR ''0''" by code_simp
      ultimately have "t = replicate (length t) (CHR ''0'')"
        using IH True by (simp add: zero_pad_def dec_digits.simps)
      then show ?thesis unfolding val using d True
        by (simp add: zero_pad_def dec_digits.simps)
    next
      case False
      then have "dec_digits (10 * dec_value t + d) = dec_digits (dec_value t) @ [c]"
        using d by (simp add: dec_digits.simps [of "10 * dec_value t + d"])
      then show ?thesis unfolding val using IH by (simp add: zero_pad_def)
    qed
  qed
qed

lemma dec_value_bound: "list_all is_digit s \<Longrightarrow> dec_value s < 10 ^ length s"
proof (induction s rule: rev_induct)
  case Nil
  then show ?case by (simp add: dec_value_def)
next
  case (snoc c t)
  then have "dec_value t < 10 ^ length t" by simp
  moreover have "48 \<le> (of_char c :: nat)" "(of_char c :: nat) \<le> 57"
    using snoc.prems by (simp_all add: is_digit_def code_point_def Let_def)
  then have "(of_char c :: nat) - 48 \<le> 9" by linarith
  ultimately show ?case by (simp add: dec_value_snoc)
qed

lemma dec_digits_length: "0 < w \<Longrightarrow> n < 10 ^ w \<Longrightarrow> length (dec_digits n) \<le> w"
proof (induction n arbitrary: w rule: dec_digits.induct)
  case (1 n)
  show ?case
  proof (cases "n < 10")
    case True
    with 1 show ?thesis by (simp add: dec_digits.simps [of n])
  next
    case False
    obtain w' where w: "w = Suc w'" using 1 by (cases w) auto
    have "n div 10 < 10 ^ w'" using 1(3) w by (simp add: less_mult_imp_div_less mult.commute)
    moreover have "0 < w'" using False 1(3) w by (cases w') auto
    ultimately have "length (dec_digits (n div 10)) \<le> w'" using False 1(1) by blast
    with False w show ?thesis by (simp add: dec_digits.simps [of n])
  qed
qed

lemma zero_pad_length: "0 < w \<Longrightarrow> n < 10 ^ w \<Longrightarrow> length (zero_pad w (dec_digits n)) = w"
  using dec_digits_length [of w n] by (simp add: zero_pad_def)

lemma dec_digits_digits: "list_all is_digit (dec_digits n)"
proof (induction n rule: dec_digits.induct)
  case (1 n)
  have digit: "is_digit (char_of (48 + m :: nat))" if "m < 10" for m
    using that by (simp add: is_digit_def code_point_def of_char_of)
  show ?case
    using 1 digit by (cases "n < 10") (simp_all add: dec_digits.simps [of n])
qed

lemma zero_pad_digits: "list_all is_digit (zero_pad w (dec_digits n))"
proof -
  have "is_digit (CHR ''0'')" by (simp add: is_digit_def code_point_def Let_def)
  then show ?thesis using dec_digits_digits [of n] by (auto simp: zero_pad_def list_all_iff)
qed

lemma days_in_month_le: "days_in_month y m \<le> 31"
  by (simp add: days_in_month_def)

lemma run_id_ok_text:
  "run_id_ok s \<longleftrightarrow> (\<exists>y m d n. s = run_id_text y m d n \<and> 1 \<le> y \<and> y \<le> 9999 \<and> 1 \<le> m \<and> m \<le> 12 \<and> 1 \<le> d
      \<and> d \<le> days_in_month y m \<and> n \<le> 999)"
proof
  assume ok: "run_id_ok s"
  define ys ms ds ns where "ys = take 4 (drop 4 s)" and "ms = take 2 (drop 8 s)" and "ds = take 2 (drop 10 s)" and "ns = drop 13 s"
  have len: "length s = 16" "take 4 s = ''RUN-''" "s ! 12 = CHR ''-''" "list_all is_digit (take 8 (drop 4 s))" "list_all is_digit ns"
    using ok by (simp_all add: run_id_ok_def run_id_pattern_def ns_def)
  have lens: "length ys = 4" "length ms = 2" "length ds = 2" "length ns = 3"
    using len(1) by (simp_all add: ys_def ms_def ds_def ns_def)
  have mid: "take 8 (drop 4 s) = ys @ ms @ ds"
    using take_add [of 4 4 "drop 4 s"] take_add [of 2 2 "drop 8 s"] by (simp add: ys_def ms_def ds_def)
  have "drop 12 s = s ! 12 # drop 13 s" using len(1) Cons_nth_drop_Suc [of 12 s] by simp
  then have "s = take 4 s @ take 8 (drop 4 s) @ CHR ''-'' # drop 13 s"
    using append_take_drop_id [of 4 s] append_take_drop_id [of 8 "drop 4 s"] len(3) by simp
  then have "s = ''RUN-'' @ ys @ ms @ ds @ CHR ''-'' # ns" unfolding len(2) mid by (simp add: ns_def)
  moreover have digits: "list_all is_digit ys" "list_all is_digit ms" "list_all is_digit ds"
    using len(4) unfolding mid by simp_all
  moreover have "zero_pad (length xs) (dec_digits (dec_value xs)) = xs" if "list_all is_digit xs" "xs \<noteq> []" for xs
    using that by (intro zero_pad_dec_value)
  ultimately have "s = run_id_text (dec_value ys) (dec_value ms) (dec_value ds) (dec_value ns)"
    using lens len(5) unfolding run_id_text_def by (metis append_Cons append_Nil length_0_conv zero_neq_numeral)
  moreover have "dec_value ys < 10000" "dec_value ns < 1000"
    using dec_value_bound [OF digits(1)] dec_value_bound [OF len(5)] lens by simp_all
  moreover have "1 \<le> dec_value ys \<and> 1 \<le> dec_value ms \<and> dec_value ms \<le> 12 \<and> 1 \<le> dec_value ds
      \<and> dec_value ds \<le> days_in_month (dec_value ys) (dec_value ms)"
    using ok lens by (simp add: run_id_ok_def date_digits_valid_def mid Let_def)
  ultimately show "\<exists>y m d n. s = run_id_text y m d n \<and> 1 \<le> y \<and> y \<le> 9999 \<and> 1 \<le> m \<and> m \<le> 12 \<and> 1 \<le> d
      \<and> d \<le> days_in_month y m \<and> n \<le> 999"
    by (intro exI [of _ "dec_value ys"] exI [of _ "dec_value ms"] exI [of _ "dec_value ds"] exI [of _ "dec_value ns"]) auto
next
  assume "\<exists>y m d n. s = run_id_text y m d n \<and> 1 \<le> y \<and> y \<le> 9999 \<and> 1 \<le> m \<and> m \<le> 12 \<and> 1 \<le> d
      \<and> d \<le> days_in_month y m \<and> n \<le> 999"
  then obtain y m d n where s: "s = run_id_text y m d n" and b: "1 \<le> y" "y \<le> 9999" "1 \<le> m" "m \<le> 12" "1 \<le> d"
      "d \<le> days_in_month y m" "n \<le> 999" by blast
  have len: "length (zero_pad 4 (dec_digits y)) = 4" "length (zero_pad 2 (dec_digits m)) = 2"
    "length (zero_pad 2 (dec_digits d)) = 2" "length (zero_pad 3 (dec_digits n)) = 3"
    using b days_in_month_le [of y m] by (auto intro!: zero_pad_length)
  show "run_id_ok s"
    using len b by (simp add: s run_id_ok_def run_id_pattern_def run_id_text_def date_digits_valid_def zero_pad_digits
        nth_append Let_def)
qed

section \<open>Run metadata\<close>

datatype run_type = NormalRun | AttackRun

record run_metadata =
  rm_run_id :: string
  rm_scenario_id :: string
  rm_run_type :: run_type
  rm_target_host :: string
  rm_start_time :: datetime
  rm_end_time :: "datetime option"
  rm_family_id :: "string option"
  rm_reference_time :: "datetime option"
  rm_schema_versions :: "string list"

definition validate_required_identifier :: "string \<Rightarrow> unit result" where
  "validate_required_identifier s = raise_first
     [(s = [], ValueError ''string_too_short''),
      (\<not> unpadded s, ValueError ''identifier must not have surrounding whitespace'')]"

definition validate_run_datetime :: "datetime option \<Rightarrow> datetime option result" where
  "validate_run_datetime v = (case v of
     None \<Rightarrow> Inr None
   | Some d \<Rightarrow> seq (require_utc ''datetime'' d) (Inr (Some (astimezone_utc d))))"

definition validate_time_order :: "run_metadata \<Rightarrow> unit result" where
  "validate_time_order r = raise_first
     [(rm_run_type r = NormalRun \<and> rm_reference_time r \<noteq> None,
         ValueError ''reference_time of a normal run must be null''),
      (is_some_and (rm_end_time r) (\<lambda>t. instant t < instant (rm_start_time r)),
         ValueError ''end_time must not be earlier than start_time'')]"

definition validate_run_metadata :: "run_metadata \<Rightarrow> run_metadata result" where
  "validate_run_metadata r =
     seq (validate_required_identifier (rm_run_id r))
     (seq (validate_run_id (rm_run_id r))
     (seq (validate_required_identifier (rm_scenario_id r))
     (seq (validate_required_identifier (rm_target_host r))
     (bnd (validate_run_datetime (Some (rm_start_time r))) (\<lambda>s.
     bnd (validate_run_datetime (rm_end_time r)) (\<lambda>e.
     bnd (validate_run_datetime (rm_reference_time r)) (\<lambda>t.
     seq (check_each (\<lambda>v. raise_if (v = []) (ValueError ''string_too_short'')) (rm_schema_versions r))
     (seq (validate_time_order r) (Inr r)))))))))"

lemma validate_run_datetime_ok [simp]:
  "validate_run_datetime v = Inr v' \<longleftrightarrow> v' = v \<and> (\<forall>d. v = Some d \<longrightarrow> is_utc d)"
  by (cases v) (auto simp: validate_run_datetime_def)

lemma validate_run_metadata_ok [validity]:
  "validate_run_metadata r = Inr r' \<longleftrightarrow> r' = r \<and> run_id_ok (rm_run_id r) \<and> unpadded (rm_run_id r)
     \<and> rm_scenario_id r \<noteq> [] \<and> unpadded (rm_scenario_id r) \<and> rm_target_host r \<noteq> [] \<and> unpadded (rm_target_host r)
     \<and> is_utc (rm_start_time r) \<and> (\<forall>t. rm_end_time r = Some t \<longrightarrow> is_utc t \<and> instant (rm_start_time r) \<le> instant t)
     \<and> (\<forall>t. rm_reference_time r = Some t \<longrightarrow> is_utc t \<and> rm_run_type r = AttackRun)
     \<and> [] \<notin> set (rm_schema_versions r)"
proof -
  have "run_id_ok (rm_run_id r) \<Longrightarrow> rm_run_id r \<noteq> []" by (rule run_id_ok_nonempty)
  then show ?thesis
    by (cases "rm_run_type r"; cases "rm_reference_time r")
      (auto simp: validate_run_metadata_def validate_required_identifier_def validate_time_order_def not_less)
qed

section \<open>Normalized events\<close>

record process_info =
  pi_pid :: "int option"
  pi_process_guid :: "string option"
  pi_name :: "string option"
  pi_path :: "string option"
  pi_command_line :: "string option"
  pi_parent_pid :: "int option"
  pi_parent_process_guid :: "string option"
  pi_parent_name :: "string option"

record network_info =
  ni_protocol :: "string option"
  ni_src_ip :: "string option"
  ni_src_port :: "int option"
  ni_dst_ip :: "string option"
  ni_dst_port :: "int option"

record raw_log_reference =
  rl_raw_log_id :: string
  rl_source_record_id :: "string option"
  rl_segment_no :: int
  rl_record_no :: int
  rl_parser_id :: "string option"
  rl_parser_version :: "string option"

datatype timestamp_source = EventTime | RecordTime | IngestTime

record normalized_event =
  ev_event_id :: string
  ev_run_id :: string
  ev_timestamp :: datetime
  ev_timestamp_source :: timestamp_source
  ev_event_time :: "datetime option"
  ev_record_time :: "datetime option"
  ev_ingest_time :: "datetime option"
  ev_host_id :: string
  ev_source :: string
  ev_source_layer :: source_layer
  ev_source_event_id :: string
  ev_event_type :: string
  ev_raw_ref :: raw_log_reference
  ev_user :: "string option"
  ev_process :: "process_info option"
  ev_network :: "network_info option"

definition validate_process_guid :: "string option \<Rightarrow> unit result" where
  "validate_process_guid v = (case v of None \<Rightarrow> Inr () | Some s \<Rightarrow> raise_first
     [(s = [], ValueError ''string_too_short''), (blank s, ValueError ''Process GUID must not be blank'')])"

definition validate_process_info :: "process_info \<Rightarrow> unit result" where
  "validate_process_info p =
     seq (validate_process_guid (pi_process_guid p)) (validate_process_guid (pi_parent_process_guid p))"

definition validate_port :: "int option \<Rightarrow> unit result" where
  "validate_port v = raise_if (is_some_and v (\<lambda>n. n < 0 \<or> 65535 < n)) (ValueError ''port out of range'')"

definition validate_network_info :: "network_info \<Rightarrow> unit result" where
  "validate_network_info n = seq (validate_port (ni_src_port n)) (validate_port (ni_dst_port n))"

definition validate_raw_ref :: "raw_log_reference \<Rightarrow> unit result" where
  "validate_raw_ref r = raise_first
     [(rl_raw_log_id r = [], ValueError ''string_too_short''),
      (blank (rl_raw_log_id r), ValueError ''raw_log_id must not be blank''),
      (rl_segment_no r < 1, ValueError ''segment_no''), (rl_record_no r < 1, ValueError ''record_no'')]"

definition source_time :: "normalized_event \<Rightarrow> datetime option" where
  "source_time e = (case ev_timestamp_source e of
     EventTime \<Rightarrow> ev_event_time e | RecordTime \<Rightarrow> ev_record_time e | IngestTime \<Rightarrow> ev_ingest_time e)"

definition validate_timestamp_source :: "normalized_event \<Rightarrow> unit result" where
  "validate_timestamp_source e = (case source_time e of
     None \<Rightarrow> Inl (ValueError ''the time field timestamp_source names must be present'')
   | Some t \<Rightarrow> raise_if (instant (ev_timestamp e) \<noteq> instant t)
       (ValueError ''timestamp must equal the time field timestamp_source names''))"

definition validate_event :: "string set \<Rightarrow> normalized_event \<Rightarrow> normalized_event result" where
  "validate_event event_types e =
     seq (raise_first
       [(ev_event_id e = [], ValueError ''string_too_short''),
        (ev_event_id e \<in> {''.'', ''..''}, ValueError ''event_id must not be a dot segment''),
        (ev_run_id e = [], ValueError ''string_too_short'')])
     (bnd (validate_utc_ms (Some (ev_timestamp e))) (\<lambda>t.
     bnd (validate_utc_ms (ev_event_time e)) (\<lambda>t1.
     bnd (validate_utc_ms (ev_record_time e)) (\<lambda>t2.
     bnd (validate_utc_ms (ev_ingest_time e)) (\<lambda>t3.
     seq (raise_first
       [(ev_host_id e = [], ValueError ''string_too_short''),
        (ev_source_layer e = MixedLayers, ValueError ''literal_error''),
        (ev_source_event_id e = [], ValueError ''string_too_short''),
        (ev_event_type e \<notin> event_types, ValueError ''event_type must be in the managed vocabulary'')])
     (seq (validate_raw_ref (ev_raw_ref e))
     (seq (case ev_process e of None \<Rightarrow> Inr () | Some p \<Rightarrow> validate_process_info p)
     (seq (case ev_network e of None \<Rightarrow> Inr () | Some n \<Rightarrow> validate_network_info n)
     (seq (validate_timestamp_source e) (Inr e))))))))))"

definition event_ok :: "string set \<Rightarrow> normalized_event \<Rightarrow> bool" where
  "event_ok event_types e \<longleftrightarrow> ev_event_id e \<notin> {[], ''.'', ''..''} \<and> ev_run_id e \<noteq> [] \<and> ev_host_id e \<noteq> []
     \<and> ev_source_event_id e \<noteq> [] \<and> ev_event_type e \<in> event_types \<and> ev_source_layer e \<noteq> MixedLayers
     \<and> source_time e = Some (ev_timestamp e)
     \<and> (\<forall>t \<in> set_option (ev_event_time e) \<union> set_option (ev_record_time e) \<union> set_option (ev_ingest_time e).
          is_utc t \<and> ms_aligned t)
     \<and> \<not> blank (rl_raw_log_id (ev_raw_ref e)) \<and> 1 \<le> rl_segment_no (ev_raw_ref e) \<and> 1 \<le> rl_record_no (ev_raw_ref e)
     \<and> (\<forall>p. ev_process e = Some p \<longrightarrow> validate_process_info p = Inr ())
     \<and> (\<forall>n. ev_network e = Some n \<longrightarrow> validate_network_info n = Inr ())"

lemma validate_raw_ref_ok [simp]:
  "validate_raw_ref r = Inr u \<longleftrightarrow> \<not> blank (rl_raw_log_id r) \<and> 1 \<le> rl_segment_no r \<and> 1 \<le> rl_record_no r"
  by (cases u) (auto simp: validate_raw_ref_def not_less)

lemma source_time_in:
  "source_time e = Some t \<Longrightarrow>
    t \<in> set_option (ev_event_time e) \<union> set_option (ev_record_time e) \<union> set_option (ev_ingest_time e)"
  by (auto simp: source_time_def split: timestamp_source.splits)

lemma timestamp_source_ok:
  assumes "\<forall>t \<in> set_option (ev_event_time e) \<union> set_option (ev_record_time e) \<union> set_option (ev_ingest_time e).
      is_utc t \<and> ms_aligned t"
  shows "validate_timestamp_source e = Inr () \<and> is_utc (ev_timestamp e) \<and> ms_aligned (ev_timestamp e)
    \<longleftrightarrow> source_time e = Some (ev_timestamp e)"
proof (cases "source_time e")
  case None
  then show ?thesis by (simp add: validate_timestamp_source_def)
next
  case (Some t)
  then have "is_utc t" "ms_aligned t" using assms source_time_in by blast+
  with Some show ?thesis by (auto simp: validate_timestamp_source_def instant_inject)
qed

lemma validate_event_ok [validity]:
  "validate_event event_types e = Inr e' \<longleftrightarrow> e' = e \<and> event_ok event_types e"
proof -
  let ?times = "\<forall>t \<in> set_option (ev_event_time e) \<union> set_option (ev_record_time e) \<union> set_option (ev_ingest_time e).
      is_utc t \<and> ms_aligned t"
  have proc: "(case ev_process e of None \<Rightarrow> Inr () | Some p \<Rightarrow> validate_process_info p) = Inr ()
      \<longleftrightarrow> (\<forall>p. ev_process e = Some p \<longrightarrow> validate_process_info p = Inr ())"
    by (cases "ev_process e") auto
  have net: "(case ev_network e of None \<Rightarrow> Inr () | Some n \<Rightarrow> validate_network_info n) = Inr ()
      \<longleftrightarrow> (\<forall>n. ev_network e = Some n \<longrightarrow> validate_network_info n = Inr ())"
    by (cases "ev_network e") auto
  have times: "?times \<longleftrightarrow> (\<forall>d. ev_event_time e = Some d \<longrightarrow> is_utc d \<and> ms_aligned d)
      \<and> (\<forall>d. ev_record_time e = Some d \<longrightarrow> is_utc d \<and> ms_aligned d)
      \<and> (\<forall>d. ev_ingest_time e = Some d \<longrightarrow> is_utc d \<and> ms_aligned d)"
    by auto
  have "validate_event event_types e = Inr e' \<longleftrightarrow> e' = e \<and> ev_event_id e \<notin> {[], ''.'', ''..''} \<and> ev_run_id e \<noteq> []
     \<and> ev_host_id e \<noteq> [] \<and> ev_source_event_id e \<noteq> [] \<and> ev_event_type e \<in> event_types
     \<and> ev_source_layer e \<noteq> MixedLayers \<and> ?times
     \<and> (validate_timestamp_source e = Inr () \<and> is_utc (ev_timestamp e) \<and> ms_aligned (ev_timestamp e))
     \<and> validate_raw_ref (ev_raw_ref e) = Inr ()
     \<and> (\<forall>p. ev_process e = Some p \<longrightarrow> validate_process_info p = Inr ())
     \<and> (\<forall>n. ev_network e = Some n \<longrightarrow> validate_network_info n = Inr ())"
    unfolding times validate_event_def by (simp add: proc net) blast
  then show ?thesis
    using timestamp_source_ok [of e] by (auto simp: event_ok_def)
qed

end
