(* ===== verification/Hybrid.thy ===== *)
theory Hybrid
  imports RecordModels
begin

text \<open>
  \<open>common/models/result.py\<close> and \<open>decision/hybrid.py\<close>: the results of the Fast path and of the
  Hybrid decision with their validators, and the combination of the two paths. The combiner
  re-reads its inputs through JSON; times come back cut to the millisecond, floats as the
  parameter \<open>jf\<close> says (\<open>None\<close> is \<open>null\<close>).
\<close>

section \<open>Detection results\<close>

datatype severity = SevLow | SevMedium | SevHigh | SevCritical | SevUnknown

record detection_result =
  dr_run_id :: string
  dr_entity_id :: string
  dr_time :: "datetime option"
  dr_status :: detection_status
  dr_detector_id :: "string option"
  dr_rule_id :: "string option"
  dr_rule_version :: "string option"
  dr_severity :: "severity option"

definition validate_detector_status_time :: "detection_result \<Rightarrow> unit result" where
  "validate_detector_status_time d = raise_first
     [(dr_status d = Detected \<and> dr_time d = None, ValueError ''detected requires detector_time''),
      (dr_status d = Detected \<and> dr_detector_id d = None, ValueError ''detected requires detector_id''),
      (dr_status d \<in> {Miss, NotEvaluated} \<and> dr_time d \<noteq> None,
         ValueError ''detector_time must be null for miss or not_evaluated'')]"

definition validate_detection_result :: "detection_result \<Rightarrow> detection_result result" where
  "validate_detection_result d =
     seq (raise_if (dr_run_id d = []) (ValueError ''string_too_short''))
     (seq (validate_run_id (dr_run_id d))
     (seq (raise_if (dr_entity_id d = []) (ValueError ''string_too_short''))
     (bnd (validate_utc_ms (dr_time d)) (\<lambda>t.
     seq (validate_detector_status_time d) (Inr d)))))"

definition detection_ok :: "detection_result \<Rightarrow> bool" where
  "detection_ok d \<longleftrightarrow> run_id_ok (dr_run_id d) \<and> dr_entity_id d \<noteq> []
     \<and> (\<forall>t. dr_time d = Some t \<longrightarrow> is_utc t \<and> ms_aligned t)
     \<and> (dr_status d = Detected \<longleftrightarrow> dr_time d \<noteq> None)
     \<and> (dr_status d = Detected \<longrightarrow> dr_detector_id d \<noteq> None)"

lemma validate_detection_result_ok [validity]:
  "validate_detection_result d = Inr d' \<longleftrightarrow> d' = d \<and> detection_ok d"
  by (cases "dr_status d")
    (auto simp: validate_detection_result_def validate_detector_status_time_def detection_ok_def)

section \<open>Decision results\<close>

datatype decision_path = PathFast | PathFusion | PathFastAndFusion | PathNone
datatype winning_path = WinFast | WinFusion | WinTie | WinNone

record decision_result =
  dc_run_id :: string
  dc_decision_id :: string
  dc_entity_id :: string
  dc_fast_status :: detection_status
  dc_fusion_status :: detection_status
  dc_fusion_time :: "datetime option"
  dc_detector_time :: "datetime option"
  dc_t_e :: "datetime option"
  dc_path :: "decision_path option"
  dc_winning :: "winning_path option"
  dc_reason :: string
  dc_config_version :: string
  dc_evidence_ids :: "string list option"
  dc_model_version :: "string option"
  dc_rule_version :: "string option"
  dc_source_hit_ids :: "string list option"
  dc_selected_hit_id :: "string option"
  dc_detector_set_version :: "string option"
  dc_supersedes :: "string option"

definition dot_segment :: "string option \<Rightarrow> bool" where
  "dot_segment v = (v \<in> {Some ''.'', Some ''..''})"

definition validate_status_times :: "decision_result \<Rightarrow> unit result" where
  "validate_status_times d = raise_first
     [(dc_fast_status d = Detected \<and> dc_detector_time d = None,
         ValueError ''detected fast_status requires detector_time''),
      (dc_fast_status d \<in> {Miss, NotEvaluated} \<and> dc_detector_time d \<noteq> None,
         ValueError ''detector_time must be null unless fast_status is detected''),
      (dc_fusion_status d = Detected \<and> dc_fusion_time d = None,
         ValueError ''detected fusion_status requires fusion_time''),
      (dc_fusion_status d \<in> {Miss, NotEvaluated} \<and> dc_fusion_time d \<noteq> None,
         ValueError ''fusion_time must be null unless fusion_status is detected'')]"

text \<open>\<open>==\<close> on optional datetimes, and the earlier of two (\<open>min\<close> keeps the first of equals).\<close>

definition same_time :: "datetime option \<Rightarrow> datetime option \<Rightarrow> bool" where
  "same_time a b = (map_option instant a = map_option instant b)"

definition earlier :: "datetime \<Rightarrow> datetime \<Rightarrow> datetime" where
  "earlier a b = (if instant b < instant a then b else a)"

definition winner :: "datetime \<Rightarrow> datetime \<Rightarrow> winning_path" where
  "winner dt ft = (if instant dt < instant ft then WinFast
     else if instant ft < instant dt then WinFusion else WinTie)"

definition validate_decision_paths :: "decision_result \<Rightarrow> unit result" where
  "validate_decision_paths d =
     (if NotEvaluated \<in> {dc_fast_status d, dc_fusion_status d} then
        raise_if (dc_t_e d \<noteq> None \<or> dc_path d \<noteq> None \<or> dc_winning d \<noteq> None)
          (ValueError ''not_evaluated requires null t_e, decision_path and winning_path'')
      else if dc_fast_status d = Detected \<and> dc_fusion_status d = Detected then
        (case (dc_detector_time d, dc_fusion_time d) of
           (Some dt, Some ft) \<Rightarrow> raise_first
             [(\<not> same_time (dc_t_e d) (Some (earlier dt ft)), ValueError ''t_e must be the earlier time''),
              (dc_path d \<noteq> Some PathFastAndFusion, ValueError ''decision_path must be fast_and_fusion''),
              (dc_winning d \<noteq> Some (winner dt ft), ValueError ''winning_path must match the earlier path'')]
         | _ \<Rightarrow> Inr ())
      else if dc_fast_status d = Detected then
        (case dc_detector_time d of None \<Rightarrow> Inr ()
         | Some dt \<Rightarrow> raise_if (\<not> same_time (dc_t_e d) (Some dt) \<or> dc_path d \<noteq> Some PathFast
               \<or> dc_winning d \<noteq> Some WinFast)
             (ValueError ''t_e and paths must match the Fast result''))
      else if dc_fusion_status d = Detected then
        (case dc_fusion_time d of None \<Rightarrow> Inr ()
         | Some ft \<Rightarrow> raise_if (\<not> same_time (dc_t_e d) (Some ft) \<or> dc_path d \<noteq> Some PathFusion
               \<or> dc_winning d \<noteq> Some WinFusion)
             (ValueError ''t_e and paths must match the Fusion result''))
      else raise_if (dc_t_e d \<noteq> None \<or> dc_path d \<noteq> Some PathNone \<or> dc_winning d \<noteq> Some WinNone)
             (ValueError ''a double miss has null t_e and path none''))"

definition validate_fast_hit_provenance :: "decision_result \<Rightarrow> unit result" where
  "validate_fast_hit_provenance d =
     seq (case dc_source_hit_ids d of None \<Rightarrow> Inr ()
          | Some ids \<Rightarrow> raise_first
              [(\<exists>i \<in> set ids. blank i, ValueError ''source_hit_ids must not contain blank values''),
               (has_duplicates ids, ValueError ''source_hit_ids must not contain duplicates'')])
     (seq (case dc_selected_hit_id d of None \<Rightarrow> Inr ()
          | Some i \<Rightarrow> raise_first
              [(blank i, ValueError ''selected_source_hit_id must not be blank''),
               (case dc_source_hit_ids d of None \<Rightarrow> True | Some ids \<Rightarrow> i \<notin> set ids,
                  ValueError ''selected_source_hit_id must be included in source_hit_ids'')])
     (raise_if (dc_fast_status d \<noteq> Detected \<and> dc_selected_hit_id d \<noteq> None)
       (ValueError ''only detected fast_status may include selected_source_hit_id'')))"

definition validate_decision_result :: "decision_result \<Rightarrow> decision_result result" where
  "validate_decision_result d =
     seq (raise_if (dc_run_id d = []) (ValueError ''string_too_short''))
     (seq (validate_run_id (dc_run_id d))
     (seq (raise_first
       [(dc_decision_id d = [], ValueError ''string_too_short''),
        (dot_segment (Some (dc_decision_id d)), ValueError ''Decision ID cannot be a dot segment''),
        (dc_entity_id d = [], ValueError ''string_too_short'')])
     (bnd (validate_utc_ms (dc_fusion_time d)) (\<lambda>ft.
     bnd (validate_utc_ms (dc_detector_time d)) (\<lambda>dt.
     bnd (validate_utc_ms (dc_t_e d)) (\<lambda>te.
     seq (raise_first
       [(dc_reason d = [], ValueError ''string_too_short''),
        (dc_config_version d = [], ValueError ''string_too_short''),
        (dot_segment (dc_supersedes d), ValueError ''Decision ID cannot be a dot segment'')])
     (seq (validate_status_times d)
     (seq (validate_decision_paths d)
     (seq (validate_fast_hit_provenance d) (Inr d))))))))))"

section \<open>The contract of a decision\<close>

text \<open>The truth table of the two paths, as a function of their statuses and times.\<close>

definition verdict :: "detection_status \<Rightarrow> detection_status \<Rightarrow> datetime option \<Rightarrow> datetime option
    \<Rightarrow> datetime option \<times> decision_path option \<times> winning_path option" where
  "verdict fast fusion dt ft =
     (if fast = NotEvaluated \<or> fusion = NotEvaluated then (None, None, None)
      else (case (dt, ft) of
         (Some d, Some f) \<Rightarrow> (Some (earlier d f), Some PathFastAndFusion, Some (winner d f))
       | (Some d, None) \<Rightarrow> (Some d, Some PathFast, Some WinFast)
       | (None, Some f) \<Rightarrow> (Some f, Some PathFusion, Some WinFusion)
       | (None, None) \<Rightarrow> (None, Some PathNone, Some WinNone)))"

definition times_ok :: "decision_result \<Rightarrow> bool" where
  "times_ok d \<longleftrightarrow> (\<forall>t \<in> set_option (dc_fusion_time d) \<union> set_option (dc_detector_time d) \<union> set_option (dc_t_e d).
     is_utc t \<and> ms_aligned t)"

definition provenance_ok :: "detection_status \<Rightarrow> string list option \<Rightarrow> string option \<Rightarrow> bool" where
  "provenance_ok fast ids selected \<longleftrightarrow>
     (\<forall>xs. ids = Some xs \<longrightarrow> distinct xs \<and> (\<forall>i \<in> set xs. \<not> blank i))
     \<and> (\<forall>i. selected = Some i \<longrightarrow> \<not> blank i \<and> (\<exists>xs. ids = Some xs \<and> i \<in> set xs) \<and> fast = Detected)"

definition decision_contract :: "decision_result \<Rightarrow> bool" where
  "decision_contract d \<longleftrightarrow> (dc_fast_status d = Detected \<longleftrightarrow> dc_detector_time d \<noteq> None)
     \<and> (dc_fusion_status d = Detected \<longleftrightarrow> dc_fusion_time d \<noteq> None)
     \<and> (dc_t_e d, dc_path d, dc_winning d)
         = verdict (dc_fast_status d) (dc_fusion_status d) (dc_detector_time d) (dc_fusion_time d)
     \<and> provenance_ok (dc_fast_status d) (dc_source_hit_ids d) (dc_selected_hit_id d)"

lemma validate_status_times_ok:
  "validate_status_times d = Inr u \<longleftrightarrow> (dc_fast_status d = Detected \<longleftrightarrow> dc_detector_time d \<noteq> None)
     \<and> (dc_fusion_status d = Detected \<longleftrightarrow> dc_fusion_time d \<noteq> None)"
  by (cases u; cases "dc_fast_status d"; cases "dc_fusion_status d") (auto simp: validate_status_times_def)

lemma validate_fast_hit_provenance_ok:
  "validate_fast_hit_provenance d = Inr u
    \<longleftrightarrow> provenance_ok (dc_fast_status d) (dc_source_hit_ids d) (dc_selected_hit_id d)"
  by (cases u; cases "dc_source_hit_ids d"; cases "dc_selected_hit_id d")
    (auto simp: validate_fast_hit_provenance_def provenance_ok_def)

lemma same_time_utc:
  assumes "\<forall>t. a = Some t \<longrightarrow> is_utc t" "is_utc b"
  shows "same_time a (Some b) \<longleftrightarrow> a = Some b"
  using assms by (cases a) (auto simp: same_time_def instant_inject)

lemma earlier_utc: "is_utc a \<Longrightarrow> is_utc b \<Longrightarrow> is_utc (earlier a b)"
  by (simp add: earlier_def)

lemma validate_decision_paths_ok:
  assumes "times_ok d" "validate_status_times d = Inr ()"
  shows "validate_decision_paths d = Inr () \<longleftrightarrow> (dc_t_e d, dc_path d, dc_winning d)
     = verdict (dc_fast_status d) (dc_fusion_status d) (dc_detector_time d) (dc_fusion_time d)"
proof -
  have te: "\<forall>t. dc_t_e d = Some t \<longrightarrow> is_utc t" using assms(1) by (auto simp: times_ok_def)
  show ?thesis
  proof (cases "dc_detector_time d")
    case None
    then show ?thesis
    proof (cases "dc_fusion_time d")
      case fNone: None
      with None assms(2) show ?thesis
        by (cases "dc_fast_status d"; cases "dc_fusion_status d")
          (auto simp: validate_decision_paths_def verdict_def validate_status_times_ok)
    next
      case (Some ft)
      then have "is_utc ft" using assms(1) by (auto simp: times_ok_def)
      with None Some assms(2) show ?thesis
        by (cases "dc_fast_status d"; cases "dc_fusion_status d")
          (auto simp: validate_decision_paths_def verdict_def validate_status_times_ok same_time_utc [OF te])
    qed
  next
    case (Some dt)
    then have dt: "is_utc dt" using assms(1) by (auto simp: times_ok_def)
    show ?thesis
    proof (cases "dc_fusion_time d")
      case None
      with Some dt assms(2) show ?thesis
        by (cases "dc_fast_status d"; cases "dc_fusion_status d")
          (auto simp: validate_decision_paths_def verdict_def validate_status_times_ok same_time_utc [OF te])
    next
      case fSome: (Some ft)
      then have "is_utc ft" using assms(1) by (auto simp: times_ok_def)
      with Some fSome dt assms(2) show ?thesis
        by (cases "dc_fast_status d"; cases "dc_fusion_status d")
          (auto simp: validate_decision_paths_def verdict_def validate_status_times_ok
            same_time_utc [OF te] earlier_utc)
    qed
  qed
qed

definition decision_fields_ok :: "decision_result \<Rightarrow> bool" where
  "decision_fields_ok d \<longleftrightarrow> run_id_ok (dc_run_id d) \<and> dc_decision_id d \<noteq> [] \<and> dc_entity_id d \<noteq> []
     \<and> \<not> dot_segment (Some (dc_decision_id d)) \<and> \<not> dot_segment (dc_supersedes d)
     \<and> dc_reason d \<noteq> [] \<and> dc_config_version d \<noteq> []"

lemma validate_decision_result_ok [validity]:
  "validate_decision_result d = Inr d' \<longleftrightarrow>
     d' = d \<and> decision_fields_ok d \<and> times_ok d \<and> decision_contract d"
proof -
  have times: "times_ok d \<longleftrightarrow> (\<forall>t. dc_fusion_time d = Some t \<longrightarrow> is_utc t \<and> ms_aligned t)
      \<and> (\<forall>t. dc_detector_time d = Some t \<longrightarrow> is_utc t \<and> ms_aligned t)
      \<and> (\<forall>t. dc_t_e d = Some t \<longrightarrow> is_utc t \<and> ms_aligned t)"
    by (auto simp: times_ok_def)
  have "validate_decision_result d = Inr d' \<longleftrightarrow> d' = d \<and> decision_fields_ok d \<and> times_ok d
      \<and> validate_status_times d = Inr () \<and> validate_decision_paths d = Inr ()
      \<and> validate_fast_hit_provenance d = Inr ()"
    unfolding times
    by (auto simp: validate_decision_result_def decision_fields_ok_def)
  then show ?thesis
    using validate_decision_paths_ok [of d]
    by (auto simp: decision_contract_def validate_status_times_ok validate_fast_hit_provenance_ok)
qed

section \<open>The combination of the two paths\<close>

text \<open>\<open>model_validate_json(model_dump_json())\<close> of the two inputs.\<close>

definition json_time :: "datetime option \<Rightarrow> datetime option" where
  "json_time t = map_option truncate_ms t"

definition reread_detection :: "detection_result \<Rightarrow> detection_result result" where
  "reread_detection d = validate_detection_result (d\<lparr>dr_time := json_time (map_option astimezone_utc (dr_time d))\<rparr>)"

definition json_required :: "(py_float \<Rightarrow> py_float option) \<Rightarrow> py_float \<Rightarrow> py_float result" where
  "json_required jf x = (case jf x of None \<Rightarrow> Inl (ValueError ''float_type'') | Some y \<Rightarrow> Inr y)"

definition reread_episode :: "(py_float \<Rightarrow> py_float option) \<Rightarrow> episode_result \<Rightarrow> episode_result result" where
  "reread_episode jf e =
     bnd (json_required jf (fer_score_at_start e)) (\<lambda>x.
     bnd (json_required jf (fer_peak e)) (\<lambda>y.
     Inr (e\<lparr>fer_start := truncate_ms (fer_start e), fer_end := json_time (fer_end e),
            fer_score_at_start := x, fer_peak := y\<rparr>)))"

definition reread_fusion :: "(py_float \<Rightarrow> py_float option) \<Rightarrow> fusion_result \<Rightarrow> fusion_result result" where
  "reread_fusion jf r =
     bnd (map_result (reread_episode jf) (fr_episodes r)) (\<lambda>es.
     validate_fusion_result (r\<lparr>fr_time := json_time (fr_time r), fr_score := Option.bind (fr_score r) jf,
       fr_episodes := es\<rparr>))"

record combine_args =
  ca_decision_id :: string
  ca_config_version :: string
  ca_parallel_required :: bool
  ca_source_hit_ids :: "string list option"
  ca_selected_hit_id :: "string option"
  ca_supersedes :: "string option"

definition decide_paths :: "detection_status \<Rightarrow> detection_status \<Rightarrow> datetime option \<Rightarrow> datetime option
    \<Rightarrow> (datetime option \<times> decision_path option \<times> winning_path option \<times> string) result" where
  "decide_paths fast fusion dt ft =
     (if NotEvaluated \<in> {fast, fusion} then
        Inr (None, None, None, ''Required parallel evaluation was not completed'')
      else if fast = Detected \<and> fusion = Detected then
        (case (dt, ft) of
           (Some d, Some f) \<Rightarrow> Inr (Some (earlier d f), Some PathFastAndFusion, Some (winner d f),
             ''Both paths detected; compared canonical UTC millisecond timestamps'')
         | _ \<Rightarrow> Inl AssertionError)
      else if fast = Detected then Inr (dt, Some PathFast, Some WinFast, ''Only Fast detected'')
      else if fusion = Detected then Inr (ft, Some PathFusion, Some WinFusion, ''Only Fusion detected'')
      else Inr (None, Some PathNone, Some WinNone, ''Both evaluated paths missed''))"

definition bad_identifier :: "string \<Rightarrow> bool" where
  "bad_identifier s = (blank s \<or> \<not> unpadded s)"

definition combine_results :: "(py_float \<Rightarrow> py_float option) \<Rightarrow> detection_result \<Rightarrow> fusion_result
    \<Rightarrow> combine_args \<Rightarrow> decision_result result" where
  "combine_results jf detection0 fusion0 ca =
     seq (raise_first
       [(\<not> ca_parallel_required ca, ValueError ''Only parallel_required=true is supported by this combiner''),
        (bad_identifier (ca_decision_id ca), ValueError ''decision_id must be a non-blank identifier''),
        (bad_identifier (ca_config_version ca), ValueError ''config_version must be a non-blank identifier'')])
     (bnd (reread_detection detection0) (\<lambda>detection.
     bnd (reread_fusion jf fusion0) (\<lambda>fusion.
     seq (raise_first
       [(dr_run_id detection \<noteq> fr_run_id fusion \<or> dr_entity_id detection \<noteq> fr_entity_id fusion,
           ValueError ''Fast and Fusion must have the same run_id and entity_id''),
        (bad_identifier (dr_entity_id detection), ValueError ''entity_id must not be blank or padded'')])
     (bnd (decide_paths (dr_status detection) (fr_status fusion) (dr_time detection) (fr_time fusion))
       (\<lambda>(t_e, path, winning, reason).
     validate_decision_result
       \<lparr>dc_run_id = dr_run_id detection, dc_decision_id = ca_decision_id ca,
        dc_entity_id = dr_entity_id detection, dc_fast_status = dr_status detection,
        dc_fusion_status = fr_status fusion, dc_fusion_time = fr_time fusion,
        dc_detector_time = dr_time detection, dc_t_e = t_e, dc_path = path, dc_winning = winning,
        dc_reason = reason, dc_config_version = ca_config_version ca,
        dc_evidence_ids = Some (fr_evidence_ids fusion), dc_model_version = fr_model_version fusion,
        dc_rule_version = dr_rule_version detection, dc_source_hit_ids = ca_source_hit_ids ca,
        dc_selected_hit_id = ca_selected_hit_id ca, dc_detector_set_version = None,
        dc_supersedes = ca_supersedes ca\<rparr>)))))"

section \<open>The JSON boundary\<close>

definition floats_kept :: "(py_float \<Rightarrow> py_float option) \<Rightarrow> bool" where
  "floats_kept jf \<longleftrightarrow> (\<forall>q. jf (Finite q) = Some (Finite q))"

definition fusion_times :: "fusion_result \<Rightarrow> datetime set" where
  "fusion_times r = set_option (fr_time r)
     \<union> (\<Union>e \<in> set (fr_episodes r). insert (fer_start e) (set_option (fer_end e)))"

definition fusion_floats :: "fusion_result \<Rightarrow> py_float set" where
  "fusion_floats r = set_option (fr_score r) \<union> (\<Union>e \<in> set (fr_episodes r). {fer_score_at_start e, fer_peak e})"

lemma json_time_id: "\<forall>d. t = Some d \<longrightarrow> ms_aligned d \<Longrightarrow> json_time t = t"
  by (cases t) (auto simp: json_time_def)

lemma reread_detection_id: "detection_ok d \<Longrightarrow> reread_detection d = Inr d"
proof -
  assume ok: "detection_ok d"
  then have "json_time (map_option astimezone_utc (dr_time d)) = dr_time d"
    by (cases "dr_time d") (auto simp: detection_ok_def json_time_def)
  with ok show ?thesis by (simp add: reread_detection_def validate_detection_result_ok)
qed

lemma reread_episode_id:
  assumes "floats_kept jf" "isfinite (fer_score_at_start e)" "isfinite (fer_peak e)" "ms_aligned (fer_start e)"
    "\<forall>t. fer_end e = Some t \<longrightarrow> ms_aligned t"
  shows "reread_episode jf e = Inr e"
  using assms json_time_id [of "fer_end e"]
  by (cases "fer_score_at_start e"; cases "fer_peak e"; cases e)
    (simp_all add: reread_episode_def json_required_def floats_kept_def)

text \<open>A Fusion result on whole milliseconds with finite scores survives the boundary unchanged.\<close>

lemma reread_fusion_id:
  assumes jf: "floats_kept jf" and valid: "validate_fusion_result r = Inr r"
    and times: "\<forall>t \<in> fusion_times r. ms_aligned t" and floats: "\<forall>x \<in> fusion_floats r. isfinite x"
  shows "reread_fusion jf r = Inr r"
proof -
  have "map_result (reread_episode jf) (fr_episodes r) = Inr (map id (fr_episodes r))"
    using times floats
    by (intro map_result_total) (auto simp: fusion_times_def fusion_floats_def intro!: reread_episode_id [OF jf])
  moreover have "json_time (fr_time r) = fr_time r"
    using times by (intro json_time_id) (auto simp: fusion_times_def)
  moreover have "Option.bind (fr_score r) jf = fr_score r"
  proof (cases "fr_score r")
    case (Some x)
    with floats have "isfinite x" by (auto simp: fusion_floats_def)
    with jf Some show ?thesis by (cases x) (auto simp: floats_kept_def)
  qed simp
  ultimately show ?thesis using valid by (simp add: reread_fusion_def)
qed

lemma reread_fusion_result:
  assumes "reread_fusion jf r = Inr r'"
  shows "validate_fusion_result r' = Inr r' \<and> fr_time r' = json_time (fr_time r) \<and> fr_status r' = fr_status r
    \<and> fr_run_id r' = fr_run_id r \<and> fr_entity_id r' = fr_entity_id r \<and> fr_evidence_ids r' = fr_evidence_ids r
    \<and> fr_model_version r' = fr_model_version r"
  using assms by (auto simp: reread_fusion_def validate_fusion_result_ok)

section \<open>The combination keeps the contract\<close>

lemma decide_paths_verdict:
  assumes "fast = Detected \<longleftrightarrow> dt \<noteq> None" "fusion = Detected \<longleftrightarrow> ft \<noteq> None"
  shows "\<exists>reason. decide_paths fast fusion dt ft
      = Inr (fst (verdict fast fusion dt ft), fst (snd (verdict fast fusion dt ft)),
             snd (snd (verdict fast fusion dt ft)), reason) \<and> reason \<noteq> []"
  using assms
  by (cases fast; cases fusion; cases dt; cases ft) (simp_all add: decide_paths_def verdict_def)

lemma fusion_status_time: "fusion_contract r \<Longrightarrow> fr_status r = Detected \<longleftrightarrow> fr_time r \<noteq> None"
  by (auto simp: fusion_contract_def detected_contract_def split: option.splits)

definition combine_input_ok :: "detection_result \<Rightarrow> fusion_result \<Rightarrow> combine_args \<Rightarrow> bool" where
  "combine_input_ok d f ca \<longleftrightarrow> detection_ok d \<and> validate_fusion_result f = Inr f
     \<and> (\<forall>t \<in> fusion_times f. ms_aligned t) \<and> (\<forall>x \<in> fusion_floats f. isfinite x)
     \<and> dr_run_id d = fr_run_id f \<and> dr_entity_id d = fr_entity_id f \<and> \<not> bad_identifier (dr_entity_id d)
     \<and> ca_parallel_required ca \<and> \<not> bad_identifier (ca_decision_id ca) \<and> \<not> bad_identifier (ca_config_version ca)
     \<and> \<not> dot_segment (Some (ca_decision_id ca)) \<and> \<not> dot_segment (ca_supersedes ca)
     \<and> provenance_ok (dr_status d) (ca_source_hit_ids ca) (ca_selected_hit_id ca)"

lemma bad_identifier_Nil [simp]: "bad_identifier []"
  by (simp add: bad_identifier_def)

lemma combine_results_total:
  assumes jf: "floats_kept jf" and ok: "combine_input_ok d f ca"
  shows "\<exists>dec. combine_results jf d f ca = Inr dec \<and> decision_contract dec
    \<and> dc_fast_status dec = dr_status d \<and> dc_fusion_status dec = fr_status f
    \<and> dc_detector_time dec = dr_time d \<and> dc_fusion_time dec = fr_time f
    \<and> dc_run_id dec = dr_run_id d \<and> dc_entity_id dec = dr_entity_id d
    \<and> dc_evidence_ids dec = Some (fr_evidence_ids f) \<and> dc_source_hit_ids dec = ca_source_hit_ids ca"
proof -
  have d: "reread_detection d = Inr d" and f: "reread_fusion jf f = Inr f"
    using ok reread_detection_id reread_fusion_id [OF jf] by (auto simp: combine_input_ok_def)
  let ?v = "verdict (dr_status d) (fr_status f) (dr_time d) (fr_time f)"
  have status: "dr_status d = Detected \<longleftrightarrow> dr_time d \<noteq> None" "fr_status f = Detected \<longleftrightarrow> fr_time f \<noteq> None"
    using ok fusion_status_time [of f]
    by (auto simp: combine_input_ok_def detection_ok_def validate_fusion_result_ok)
  obtain reason where reason: "decide_paths (dr_status d) (fr_status f) (dr_time d) (fr_time f)
      = Inr (fst ?v, fst (snd ?v), snd (snd ?v), reason)" "reason \<noteq> []"
    using decide_paths_verdict [OF status] by blast
  let ?dec = "\<lparr>dc_run_id = dr_run_id d, dc_decision_id = ca_decision_id ca,
        dc_entity_id = dr_entity_id d, dc_fast_status = dr_status d,
        dc_fusion_status = fr_status f, dc_fusion_time = fr_time f,
        dc_detector_time = dr_time d, dc_t_e = fst ?v, dc_path = fst (snd ?v), dc_winning = snd (snd ?v),
        dc_reason = reason, dc_config_version = ca_config_version ca,
        dc_evidence_ids = Some (fr_evidence_ids f), dc_model_version = fr_model_version f,
        dc_rule_version = dr_rule_version d, dc_source_hit_ids = ca_source_hit_ids ca,
        dc_selected_hit_id = ca_selected_hit_id ca, dc_detector_set_version = None,
        dc_supersedes = ca_supersedes ca\<rparr>"
  have contract: "decision_contract ?dec" using ok status by (simp add: decision_contract_def combine_input_ok_def)
  have "\<forall>t \<in> set_option (fr_time f) \<union> set_option (dr_time d). is_utc t \<and> ms_aligned t"
    using ok by (auto simp: combine_input_ok_def detection_ok_def validate_fusion_result_ok fusion_times_def)
  then have times: "times_ok ?dec"
    by (cases "dr_time d"; cases "fr_time f") (auto simp: times_ok_def verdict_def earlier_def)
  have "decision_fields_ok ?dec"
    using ok reason(2) by (auto simp: decision_fields_ok_def combine_input_ok_def detection_ok_def)
  with contract times have "validate_decision_result ?dec = Inr ?dec" by (simp add: validate_decision_result_ok)
  moreover have "combine_results jf d f ca = validate_decision_result ?dec"
    using ok d f reason(1) by (auto simp: combine_results_def combine_input_ok_def)
  ultimately show ?thesis using contract by auto
qed

lemma combine_results_sound:
  assumes "combine_results jf d f ca = Inr dec"
  shows "decision_contract dec \<and> times_ok dec \<and> dc_run_id dec = dr_run_id d \<and> dr_run_id d = fr_run_id f
    \<and> dc_entity_id dec = dr_entity_id d \<and> dr_entity_id d = fr_entity_id f
    \<and> dc_fast_status dec = dr_status d \<and> dc_fusion_status dec = fr_status f
    \<and> dc_fusion_time dec = json_time (fr_time f)"
proof -
  obtain d' f' where parts: "reread_detection d = Inr d'" "reread_fusion jf f = Inr f'"
      "dr_run_id d' = fr_run_id f'" "dr_entity_id d' = fr_entity_id f'"
      "dc_run_id dec = dr_run_id d'" "dc_entity_id dec = dr_entity_id d'" "dc_fast_status dec = dr_status d'"
      "dc_fusion_status dec = fr_status f'" "dc_fusion_time dec = fr_time f'" "decision_contract dec" "times_ok dec"
    using assms by (auto simp: combine_results_def validate_decision_result_ok)
  have "d' = d\<lparr>dr_time := json_time (map_option astimezone_utc (dr_time d))\<rparr>"
    using parts(1) by (simp add: reread_detection_def validate_detection_result_ok)
  with parts reread_fusion_result [OF parts(2)] show ?thesis by simp
qed

end
