(* ===== verification/FastHandoff.thy ===== *)
theory FastHandoff
  imports Hybrid
begin

text \<open>
  The Fast path: \<open>detection/fast_hit_adapter.py\<close> and \<open>detection/fast_runner.py\<close> turn the rows of a
  detector's CSV into hits and a trace, \<open>integration/fast_hit_handoff.py\<close> reads and checks them
  and adapts a selected hit to a detection result.

  Files and SHA-256 are the record \<open>fast_files\<close>: the digest of the file at a path (\<open>None\<close> when it
  cannot be read). \<open>strptime\<close> is the parameter of that name. A timestamp string on whole
  milliseconds is the time it denotes.
\<close>

section \<open>Hits and traces\<close>

record fast_hit =
  fh_hit_id :: string
  fh_run_id :: string
  fh_timestamp :: datetime
  fh_engine :: string
  fh_engine_version :: string
  fh_rule_id :: string
  fh_rule_version :: string
  fh_alert_key :: string
  fh_host :: "string option"
  fh_record_ref :: "string option"
  fh_config_version :: string

record trace_entry =
  te_hit_id :: string
  te_row_index :: nat
  te_rule_id :: string

record fast_trace =
  ft_run_id :: string
  ft_input_csv :: string
  ft_input_sha :: string
  ft_config_path :: string
  ft_config_sha :: string
  ft_output_sha :: string
  ft_row_count :: nat
  ft_hit_count :: nat
  ft_hits :: "trace_entry list"

record fast_handoff =
  fho_records :: "fast_hit list"
  fho_trace :: fast_trace

text \<open>\<open>^\\S+$\<close> of the identifier constraint.\<close>

definition is_regex_space :: "char \<Rightarrow> bool" where
  "is_regex_space c = (let n = code_point c in (9 \<le> n \<and> n \<le> 13) \<or> n = 32 \<or> n = 133 \<or> n = 160)"

definition ident_ok :: "string \<Rightarrow> bool" where
  "ident_ok s = (s \<noteq> [] \<and> list_all (\<lambda>c. \<not> is_regex_space c) s)"

definition ident_or_none :: "string option \<Rightarrow> bool" where
  "ident_or_none v = (case v of None \<Rightarrow> True | Some s \<Rightarrow> ident_ok s)"

definition validate_fast_hit :: "fast_hit \<Rightarrow> fast_hit result" where
  "validate_fast_hit h =
     seq (raise_if (\<not> ident_ok (fh_hit_id h) \<or> \<not> ident_ok (fh_run_id h)) (ValueError ''Identifier''))
     (seq (require_utc ''timestamp'' (fh_timestamp h))
     (seq (raise_if (\<not> ms_aligned (fh_timestamp h)) (ValueError ''timestamp must have millisecond precision''))
     (seq (raise_if (\<not> list_all ident_ok [fh_engine h, fh_engine_version h, fh_rule_id h, fh_rule_version h,
         fh_alert_key h, fh_config_version h]
       \<or> \<not> ident_or_none (fh_host h) \<or> \<not> ident_or_none (fh_record_ref h)) (ValueError ''Identifier''))
     (Inr h))))"

definition hit_ok :: "fast_hit \<Rightarrow> bool" where
  "hit_ok h \<longleftrightarrow> is_utc (fh_timestamp h) \<and> ms_aligned (fh_timestamp h)
     \<and> list_all ident_ok [fh_hit_id h, fh_run_id h, fh_engine h, fh_engine_version h, fh_rule_id h,
         fh_rule_version h, fh_alert_key h, fh_config_version h]
     \<and> ident_or_none (fh_host h) \<and> ident_or_none (fh_record_ref h)"

lemma validate_fast_hit_ok [validity]: "validate_fast_hit h = Inr h' \<longleftrightarrow> h' = h \<and> hit_ok h"
  by (auto simp: validate_fast_hit_def hit_ok_def)

section \<open>From detector rows to hits\<close>

record hayabusa_row =
  hr_timestamp :: "string option"
  hr_rule_id :: "string option"
  hr_computer :: "string option"
  hr_record_id :: "string option"

record rule_metadata =
  rmd_rule_version :: string
  rmd_alert_key :: string

record fast_config =
  frc_engine_version :: string
  frc_config_version :: string
  frc_qualifying_rule_ids :: "string list"
  frc_rule_metadata :: "string \<rightharpoonup> rule_metadata"

definition require_key :: "string \<Rightarrow> 'a option \<Rightarrow> 'a result" where
  "require_key k v = (case v of None \<Rightarrow> Inl (KeyError k) | Some x \<Rightarrow> Inr x)"

text \<open>\<open>re.sub(r"(:[0-9]{2}\.[0-9]{6})[0-9]+", r"\1", s, count=1)\<close>.\<close>

definition fraction_at :: "string \<Rightarrow> bool" where
  "fraction_at s = (11 \<le> length s \<and> s ! 0 = CHR '':'' \<and> s ! 3 = CHR ''.''
     \<and> list_all (\<lambda>i. is_digit (s ! i)) [1, 2, 4, 5, 6, 7, 8, 9, 10])"

fun trim_fraction :: "string \<Rightarrow> string" where
  "trim_fraction [] = []"
| "trim_fraction (c # cs) =
     (if fraction_at (c # cs) then take 10 (c # cs) @ dropWhile is_digit (drop 10 (c # cs))
      else c # trim_fraction cs)"

definition normalize_timestamp :: "string \<Rightarrow> string" where
  "normalize_timestamp s = trim_fraction
     (if s \<noteq> [] \<and> last s = CHR ''Z'' then butlast s @ ''+00:00'' else s)"

definition to_utc_iso8601_millis :: "(string \<Rightarrow> string \<Rightarrow> datetime option) \<Rightarrow> string \<Rightarrow> datetime result" where
  "to_utc_iso8601_millis strptime timestamp =
     (let normalized = normalize_timestamp timestamp in
      case strptime normalized ''%Y-%m-%d %H:%M:%S.%f %z'' of
        Some d \<Rightarrow> Inr (truncate_ms (astimezone_utc d))
      | None \<Rightarrow> (case strptime normalized ''%Y-%m-%dT%H:%M:%S.%f%z'' of
          Some d \<Rightarrow> Inr (truncate_ms (astimezone_utc d))
        | None \<Rightarrow> Inl (ValueError ''unrecognized Hayabusa timestamp format'')))"

definition hit_id_of :: "string \<Rightarrow> nat \<Rightarrow> string" where
  "hit_id_of run_id index = run_id @ ''-hit-'' @ dec_digits index"

definition non_empty :: "string option \<Rightarrow> string option" where
  "non_empty v = (case v of None \<Rightarrow> None | Some s \<Rightarrow> if s = [] then None else Some s)"

definition hayabusa_row_to_fast_hit :: "(string \<Rightarrow> string \<Rightarrow> datetime option) \<Rightarrow> string \<Rightarrow> fast_config
    \<Rightarrow> hayabusa_row \<Rightarrow> string \<Rightarrow> rule_metadata \<Rightarrow> fast_hit result" where
  "hayabusa_row_to_fast_hit strptime run_id cfg row hit_id md =
     bnd (require_key ''Timestamp'' (hr_timestamp row)) (\<lambda>ts.
     bnd (to_utc_iso8601_millis strptime ts) (\<lambda>t.
     bnd (require_key ''RuleID'' (hr_rule_id row)) (\<lambda>rule_id.
     Inr \<lparr>fh_hit_id = hit_id, fh_run_id = run_id, fh_timestamp = t, fh_engine = ''hayabusa'',
          fh_engine_version = frc_engine_version cfg, fh_rule_id = rule_id,
          fh_rule_version = rmd_rule_version md, fh_alert_key = rmd_alert_key md,
          fh_host = non_empty (hr_computer row), fh_record_ref = non_empty (hr_record_id row),
          fh_config_version = frc_config_version cfg\<rparr>)))"

definition is_qualifying_hit :: "string list \<Rightarrow> string \<Rightarrow> bool" where
  "is_qualifying_hit qualifying rule_id = (rule_id \<in> set qualifying)"

fun hayabusa_rows_to_fast_hits :: "(string \<Rightarrow> string \<Rightarrow> datetime option) \<Rightarrow> string \<Rightarrow> fast_config
    \<Rightarrow> nat \<Rightarrow> hayabusa_row list \<Rightarrow> fast_hit list result" where
  "hayabusa_rows_to_fast_hits strptime run_id cfg index [] = Inr []"
| "hayabusa_rows_to_fast_hits strptime run_id cfg index (row # rows) =
     bnd (require_key ''RuleID'' (hr_rule_id row)) (\<lambda>rule_id.
     if is_qualifying_hit (frc_qualifying_rule_ids cfg) rule_id then
       bnd (require_key rule_id (frc_rule_metadata cfg rule_id)) (\<lambda>md.
       bnd (hayabusa_row_to_fast_hit strptime run_id cfg row (hit_id_of run_id index) md) (\<lambda>hit.
       bnd (hayabusa_rows_to_fast_hits strptime run_id cfg (Suc index) rows) (\<lambda>hits. Inr (hit # hits))))
     else hayabusa_rows_to_fast_hits strptime run_id cfg (Suc index) rows)"

section \<open>The runner's trace\<close>

fun trace_entries :: "string \<Rightarrow> string list \<Rightarrow> nat \<Rightarrow> hayabusa_row list \<Rightarrow> trace_entry list" where
  "trace_entries run_id hit_ids index [] = []"
| "trace_entries run_id hit_ids index (row # rows) =
     (if hit_id_of run_id index \<in> set hit_ids
      then \<lparr>te_hit_id = hit_id_of run_id index, te_row_index = index,
            te_rule_id = (case hr_rule_id row of None \<Rightarrow> [] | Some r \<Rightarrow> r)\<rparr>
             # trace_entries run_id hit_ids (Suc index) rows
      else trace_entries run_id hit_ids (Suc index) rows)"

definition qualifying_have_metadata :: "fast_config \<Rightarrow> unit result" where
  "qualifying_have_metadata cfg =
     check_each (\<lambda>r. raise_if (frc_rule_metadata cfg r = None) (KeyError r)) (frc_qualifying_rule_ids cfg)"

record fast_files =
  ff_sha :: "string \<Rightarrow> string option"
  ff_output_sha :: string
  ff_paths_distinct :: bool
  ff_targets_exist :: bool

text \<open>
  \<open>run_fast_handoff\<close> up to the publication of the two files: the hits written to the JSONL and
  the trace, with the digests of the input, the configuration and the written JSONL; whether the
  four paths differ and whether a target exists is read from the file system.
\<close>

definition run_fast_handoff :: "(string \<Rightarrow> string \<Rightarrow> datetime option) \<Rightarrow> fast_files \<Rightarrow> string \<Rightarrow> string
    \<Rightarrow> fast_config \<Rightarrow> string \<Rightarrow> hayabusa_row list \<Rightarrow> fast_handoff result" where
  "run_fast_handoff strptime ff csv_path config_path cfg run_id rows =
     seq (validate_required_identifier run_id)
     (seq (validate_run_id run_id)
     (seq (raise_first
       [(\<not> ff_paths_distinct ff, ValueError ''input, config, output and trace paths must be distinct''),
        (ff_targets_exist ff, FileExistsError ''output and trace must be new files'')])
     (seq (raise_if (has_duplicates (frc_qualifying_rule_ids cfg)) (ValueError ''qualifying_rule_ids must be unique''))
     (seq (qualifying_have_metadata cfg)
     (bnd (hayabusa_rows_to_fast_hits strptime run_id cfg 1 rows) (\<lambda>hits.
     bnd (require_key csv_path (ff_sha ff csv_path)) (\<lambda>input_sha.
     bnd (require_key config_path (ff_sha ff config_path)) (\<lambda>config_sha.
     Inr \<lparr>fho_records = hits,
          fho_trace = \<lparr>ft_run_id = run_id, ft_input_csv = csv_path, ft_input_sha = input_sha,
            ft_config_path = config_path, ft_config_sha = config_sha, ft_output_sha = ff_output_sha ff,
            ft_row_count = length rows, ft_hit_count = length hits,
            ft_hits = trace_entries run_id (map fh_hit_id hits) 1 rows\<rparr>\<rparr>))))))))"

section \<open>Reading a handoff\<close>

definition validate_trace_artifact :: "fast_files \<Rightarrow> string \<Rightarrow> string \<Rightarrow> string \<Rightarrow> unit result" where
  "validate_trace_artifact ff path expected name = (case ff_sha ff path of
     None \<Rightarrow> Inl (ValueError (''cannot read '' @ name))
   | Some actual \<Rightarrow> raise_if (actual \<noteq> expected) (ValueError (name @ '' SHA-256 does not match the trace'')))"

text \<open>\<open>^{run_id}-hit-([1-9][0-9]*)$\<close>: the number it matches.\<close>

definition hit_number :: "string \<Rightarrow> string \<Rightarrow> nat option" where
  "hit_number run_id hit_id =
     (let prefix = run_id @ ''-hit-''; digits = drop (length prefix) hit_id in
      if take (length prefix) hit_id = prefix \<and> digits \<noteq> [] \<and> list_all is_digit digits \<and> hd digits \<noteq> CHR ''0''
      then Some (dec_value digits) else None)"

definition validate_hit_provenance :: "trace_entry list \<Rightarrow> string \<Rightarrow> nat \<Rightarrow> unit result" where
  "validate_hit_provenance entries run_id row_count =
     check_each (\<lambda>e. case hit_number run_id (te_hit_id e) of
       None \<Rightarrow> Inl (ValueError ''hit_id must follow {run_id}-hit-{source_row_index}'')
     | Some n \<Rightarrow> raise_first
         [(n \<noteq> te_row_index e, ValueError ''hit_id does not match trace source_row_index''),
          (row_count < te_row_index e, ValueError ''source_row_index exceeds input_row_count'')]) entries"

definition trace_rule :: "trace_entry list \<Rightarrow> string \<Rightarrow> string option" where
  "trace_rule entries = map_of (rev (map (\<lambda>e. (te_hit_id e, te_rule_id e)) entries))"

text \<open>The cross checks of records and trace that the reader and the adapter share.\<close>

definition validate_cross :: "fast_hit list \<Rightarrow> fast_trace \<Rightarrow> string \<Rightarrow> unit result" where
  "validate_cross records trace run_id =
     seq (raise_first
       [(ft_hit_count trace \<noteq> length records \<or> length (ft_hits trace) \<noteq> length records,
           ValueError ''FastHit trace hit_count does not match the records''),
        (has_duplicates (map fh_hit_id records), ValueError ''duplicate hit_id values''),
        (\<exists>r \<in> set records. fh_run_id r \<noteq> run_id, ValueError ''FastHitRecord run_id does not match''),
        (has_duplicates (map te_hit_id (ft_hits trace)), ValueError ''FastHit trace contains duplicate hit_id values''),
        (set (map fh_hit_id records) \<noteq> set (map te_hit_id (ft_hits trace)),
           ValueError ''FastHit trace hit_id values do not match the records''),
        (has_duplicates (map te_row_index (ft_hits trace)),
           ValueError ''FastHit trace contains duplicate source_row_index values'')])
     (seq (check_each (\<lambda>r. case trace_rule (ft_hits trace) (fh_hit_id r) of
         None \<Rightarrow> Inl (KeyError (fh_hit_id r))
       | Some rule \<Rightarrow> raise_if (rule \<noteq> fh_rule_id r) (ValueError ''FastHit trace rule_id does not match record'')) records)
     (validate_hit_provenance (ft_hits trace) (ft_run_id trace) (ft_row_count trace)))"

definition validate_handoff :: "fast_files \<Rightarrow> fast_hit list \<Rightarrow> fast_trace \<Rightarrow> string \<Rightarrow> unit result" where
  "validate_handoff ff records trace expected_run_id =
     seq (raise_if (ft_output_sha trace \<noteq> ff_output_sha ff) (ValueError ''JSONL SHA-256 does not match the trace''))
     (seq (validate_trace_artifact ff (ft_input_csv trace) (ft_input_sha trace) ''FastHit input CSV'')
     (seq (validate_trace_artifact ff (ft_config_path trace) (ft_config_sha trace) ''FastHit config'')
     (seq (raise_if (ft_run_id trace \<noteq> expected_run_id) (ValueError ''trace run_id does not match the expected run_id''))
     (validate_cross records trace expected_run_id))))"

definition expected_run_id_ok :: "string \<Rightarrow> unit result" where
  "expected_run_id_ok run_id = (case seq (validate_required_identifier run_id) (validate_run_id run_id) of
     Inl e \<Rightarrow> Inl (ValueError ''invalid expected run_id'') | Inr u \<Rightarrow> Inr ())"

text \<open>\<open>read_fast_hit_handoff\<close> on the parsed lines and the parsed trace.\<close>

definition read_fast_hit_handoff :: "fast_files \<Rightarrow> fast_hit list \<Rightarrow> fast_trace \<Rightarrow> string \<Rightarrow> fast_handoff result" where
  "read_fast_hit_handoff ff lines trace run_id =
     seq (expected_run_id_ok run_id)
     (bnd (map_result validate_fast_hit lines) (\<lambda>records.
     seq (validate_handoff ff records trace run_id)
     (Inr \<lparr>fho_records = records, fho_trace = trace\<rparr>)))"

section \<open>The adapter\<close>

record fast_selection =
  fs_status :: detection_status
  fs_hit_id :: "string option"
  fs_severity :: "severity option"

record adapter_result =
  ar_detection :: detection_result
  ar_source_hit_ids :: "string list"
  ar_selected_hit_id :: "string option"

definition validate_fast_selection :: "fast_selection \<Rightarrow> fast_selection result" where
  "validate_fast_selection s = seq (raise_first
     [(fs_status s = Detected \<and> fs_hit_id s = None, ValueError ''detected selection requires selected_hit_id''),
      (fs_status s \<noteq> Detected \<and> fs_hit_id s \<noteq> None, ValueError ''only detected selection may include selected_hit_id''),
      (fs_status s \<noteq> Detected \<and> fs_severity s \<noteq> None, ValueError ''only detected selection may include severity'')])
     (Inr s)"

definition new_adapter_result :: "detection_result \<Rightarrow> string list \<Rightarrow> string option \<Rightarrow> adapter_result result" where
  "new_adapter_result d ids selected = seq (raise_first
     [(has_duplicates ids, ValueError ''source_hit_ids must not contain duplicates''),
      (dr_status d = Detected \<and> selected = None, ValueError ''detected result requires selected_source_hit_id''),
      (dr_status d = Detected \<and> is_some_and selected (\<lambda>i. i \<notin> set ids),
         ValueError ''selected_source_hit_id must be retained in source_hit_ids''),
      (dr_status d \<noteq> Detected \<and> selected \<noteq> None, ValueError ''only detected result may include selected_source_hit_id'')])
     (Inr \<lparr>ar_detection = d, ar_source_hit_ids = ids, ar_selected_hit_id = selected\<rparr>)"

definition handoff_entity_ok :: "string \<Rightarrow> unit result" where
  "handoff_entity_ok entity_id = raise_if (bad_identifier entity_id)
     (ValueError ''entity_id must be a non-blank identifier without surrounding whitespace'')"

definition validate_adapter_handoff :: "fast_files \<Rightarrow> fast_handoff \<Rightarrow> unit result" where
  "validate_adapter_handoff ff ho = (let trace = fho_trace ho in
     seq (expected_run_id_ok (ft_run_id trace))
     (seq (validate_trace_artifact ff (ft_input_csv trace) (ft_input_sha trace) ''FastHit input CSV'')
     (seq (validate_trace_artifact ff (ft_config_path trace) (ft_config_sha trace) ''FastHit config'')
     (validate_cross (fho_records ho) trace (ft_run_id trace)))))"

definition resolve_record_entity_id :: "(string \<Rightarrow> string option) \<Rightarrow> fast_hit \<Rightarrow> string option result" where
  "resolve_record_entity_id mapper r = (case fh_host r of
     None \<Rightarrow> Inr None
   | Some host \<Rightarrow> (case mapper host of
       None \<Rightarrow> Inr None
     | Some entity \<Rightarrow> seq (handoff_entity_ok entity) (Inr (Some entity))))"

definition validate_miss_selection :: "(string \<Rightarrow> string option) \<Rightarrow> string \<Rightarrow> fast_hit list \<Rightarrow> unit result" where
  "validate_miss_selection mapper entity_id records = check_each (\<lambda>r.
     bnd (resolve_record_entity_id mapper r) (\<lambda>e. raise_first
       [(e = None, ValueError ''miss selection cannot be established''),
        (e = Some entity_id, ValueError ''miss selection contradicts a qualifying FastHitRecord for entity_id'')])) records"

definition validate_selected_entity :: "(string \<Rightarrow> string option) \<Rightarrow> string \<Rightarrow> fast_hit \<Rightarrow> unit result" where
  "validate_selected_entity mapper entity_id r =
     bnd (resolve_record_entity_id mapper r) (\<lambda>e. raise_first
       [(e = None, ValueError ''selected FastHitRecord native_host_id has no canonical entity_id mapping''),
        (e \<noteq> Some entity_id, ValueError ''selected FastHitRecord native_host_id does not map to entity_id'')])"

definition detected_result_consistent :: "detection_result \<Rightarrow> fast_hit \<Rightarrow> unit result" where
  "detected_result_consistent d r = raise_first
     [(dr_run_id d \<noteq> fh_run_id r, ValueError ''DetectionResult run_id does not match''),
      (\<not> same_time (dr_time d) (Some (fh_timestamp r)), ValueError ''DetectionResult detector_time does not match''),
      (dr_detector_id d \<noteq> Some (fh_engine r), ValueError ''DetectionResult detector_id does not match''),
      (dr_rule_id d \<noteq> Some (fh_rule_id r) \<or> dr_rule_version d \<noteq> Some (fh_rule_version r),
         ValueError ''DetectionResult Rule information does not match'')]"

definition no_detection :: "string \<Rightarrow> string \<Rightarrow> detection_status \<Rightarrow> detection_result" where
  "no_detection run_id entity_id status = \<lparr>dr_run_id = run_id, dr_entity_id = entity_id, dr_time = None,
     dr_status = status, dr_detector_id = None, dr_rule_id = None, dr_rule_version = None, dr_severity = None\<rparr>"

definition find_hit :: "fast_hit list \<Rightarrow> string \<Rightarrow> fast_hit option" where
  "find_hit records = map_of (rev (map (\<lambda>r. (fh_hit_id r, r)) records))"

definition adapt_fast_hit_handoff :: "fast_files \<Rightarrow> (string \<Rightarrow> string option) \<Rightarrow> fast_handoff \<Rightarrow> string
    \<Rightarrow> fast_selection \<Rightarrow> adapter_result result" where
  "adapt_fast_hit_handoff ff mapper ho entity_id sel =
     seq (handoff_entity_ok entity_id)
     (seq (validate_adapter_handoff ff ho)
     (let ids = map fh_hit_id (fho_records ho); run_id = ft_run_id (fho_trace ho) in
      case fs_status sel of
        NotEvaluated \<Rightarrow> Inl (ValueError ''not_evaluated must be created without a completed Fast Runner handoff'')
      | Miss \<Rightarrow>
          seq (validate_miss_selection mapper entity_id (fho_records ho))
          (bnd (validate_detection_result (no_detection run_id entity_id Miss)) (\<lambda>d.
          new_adapter_result d ids None))
      | Detected \<Rightarrow> (case fs_hit_id sel of
          None \<Rightarrow> Inl AssertionError
        | Some hit_id \<Rightarrow> (case find_hit (fho_records ho) hit_id of
            None \<Rightarrow> Inl (ValueError ''selected_hit_id is not present in the validated FastHitRecord handoff'')
          | Some r \<Rightarrow>
              seq (validate_selected_entity mapper entity_id r)
              (bnd (validate_detection_result
                \<lparr>dr_run_id = run_id, dr_entity_id = entity_id, dr_time = Some (fh_timestamp r),
                 dr_status = Detected, dr_detector_id = Some (fh_engine r), dr_rule_id = Some (fh_rule_id r),
                 dr_rule_version = Some (fh_rule_version r),
                 dr_severity = Some (case fs_severity sel of None \<Rightarrow> SevUnknown | Some s \<Rightarrow> s)\<rparr>) (\<lambda>d.
              seq (detected_result_consistent d r)
              (new_adapter_result d ids (Some hit_id))))))))"

definition build_not_evaluated_detection_result :: "string \<Rightarrow> string \<Rightarrow> adapter_result result" where
  "build_not_evaluated_detection_result run_id entity_id =
     seq (expected_run_id_ok run_id)
     (seq (handoff_entity_ok entity_id)
     (bnd (validate_detection_result (no_detection run_id entity_id NotEvaluated)) (\<lambda>d.
     new_adapter_result d [] None)))"

definition combine_fast_adapter_result :: "(py_float \<Rightarrow> py_float option) \<Rightarrow> adapter_result \<Rightarrow> fusion_result
    \<Rightarrow> string \<Rightarrow> string \<Rightarrow> bool \<Rightarrow> string option \<Rightarrow> decision_result result" where
  "combine_fast_adapter_result jf fast fusion decision_id config_version parallel supersedes =
     combine_results jf (ar_detection fast) fusion
       \<lparr>ca_decision_id = decision_id, ca_config_version = config_version, ca_parallel_required = parallel,
        ca_source_hit_ids = Some (ar_source_hit_ids fast), ca_selected_hit_id = ar_selected_hit_id fast,
        ca_supersedes = supersedes\<rparr>"

end
