(* ===== verification/FastSelection.thy ===== *)
theory FastSelection
  imports FastHandoff
begin

text \<open>
  \<open>detection/fast_selection.py\<close> and the grouping of \<open>detection/fast_episodes.py\<close>: the earliest hit of
  an entity, and its hits grouped into episodes by alert key and inactivity gap. The groups are a
  list, and the dictionary of active groups refers to them by position, as the code's shared
  dictionaries do.
\<close>

section \<open>Selection\<close>

record selection_policy =
  sel_detector_set_version :: string
  sel_config_version :: string
  sel_config_sha :: string
  sel_host_map :: "(string \<times> string) list"

definition host_entity :: "selection_policy \<Rightarrow> string \<Rightarrow> string option" where
  "host_entity p = map_of (sel_host_map p)"

definition hit_entity :: "selection_policy \<Rightarrow> fast_hit \<Rightarrow> string option" where
  "hit_entity p h = (case fh_host h of None \<Rightarrow> None | Some host \<Rightarrow> host_entity p host)"

definition hit_order :: "fast_hit \<Rightarrow> int \<times> string \<times> string" where
  "hit_order h = (instant (fh_timestamp h), fh_rule_id h, fh_hit_id h)"

definition validate_selection_policy :: "selection_policy \<Rightarrow> unit result" where
  "validate_selection_policy p = raise_if
     (\<not> ident_ok (sel_detector_set_version p) \<or> \<not> ident_ok (sel_config_version p)
      \<or> \<not> list_all (\<lambda>(h, e). ident_ok h \<and> ident_ok e) (sel_host_map p)) (ValueError ''FastSelectionPolicy'')"

text \<open>The checks that bind the handoff to the policy, the configuration and the source rows.\<close>

definition check_selection_binding :: "(string \<Rightarrow> string \<Rightarrow> datetime option) \<Rightarrow> selection_policy \<Rightarrow> fast_config
    \<Rightarrow> hayabusa_row list \<Rightarrow> string \<Rightarrow> fast_handoff \<Rightarrow> unit result" where
  "check_selection_binding strptime p cfg rows run_id ho =
     seq (raise_first
       [(ft_config_sha (fho_trace ho) \<noteq> sel_config_sha p, ValueError ''handoff config hash differs from selection policy''),
        (frc_config_version cfg \<noteq> sel_config_version p, ValueError ''config version differs from selection policy''),
        (frc_qualifying_rule_ids cfg = [], ValueError ''empty qualifying rule set cannot establish a measured miss''),
        (\<exists>r \<in> set (frc_qualifying_rule_ids cfg). frc_rule_metadata cfg r = None,
           ValueError ''qualifying rule metadata is missing'')])
     (bnd (hayabusa_rows_to_fast_hits strptime run_id cfg 1 rows) (\<lambda>expected.
     bnd (map_result validate_fast_hit expected) (\<lambda>expected_records.
     raise_first
       [(expected_records \<noteq> fho_records ho, ValueError ''handoff differs from qualifying source CSV/config replay''),
        (\<exists>h \<in> set (fho_records ho). hit_entity p h = None, ValueError ''qualifying hit has no explicit entity mapping'')])))"

definition candidate_hits :: "selection_policy \<Rightarrow> string \<Rightarrow> fast_hit list \<Rightarrow> fast_hit list" where
  "candidate_hits p entity_id hits = sort_key hit_order (filter (\<lambda>h. hit_entity p h = Some entity_id) hits)"

definition selection_of :: "fast_hit list \<Rightarrow> fast_selection" where
  "selection_of candidates = (case candidates of
     [] \<Rightarrow> \<lparr>fs_status = Miss, fs_hit_id = None, fs_severity = None\<rparr>
   | h # _ \<Rightarrow> \<lparr>fs_status = Detected, fs_hit_id = Some (fh_hit_id h), fs_severity = None\<rparr>)"

definition select_fast_hit :: "(string \<Rightarrow> string \<Rightarrow> datetime option) \<Rightarrow> fast_files \<Rightarrow> selection_policy
    \<Rightarrow> fast_config \<Rightarrow> hayabusa_row list \<Rightarrow> fast_hit list \<Rightarrow> fast_trace \<Rightarrow> string \<Rightarrow> string
    \<Rightarrow> (fast_selection \<times> string list) result" where
  "select_fast_hit strptime ff p cfg rows lines trace run_id entity_id =
     seq (validate_selection_policy p)
     (seq (raise_if (entity_id \<notin> snd ` set (sel_host_map p))
       (ValueError ''requested entity must be present in host_entity_map''))
     (bnd (read_fast_hit_handoff ff lines trace run_id) (\<lambda>ho.
     seq (check_selection_binding strptime p cfg rows run_id ho)
     (let candidates = candidate_hits p entity_id (fho_records ho) in
     bnd (validate_fast_selection (selection_of candidates)) (\<lambda>selection.
     bnd (adapt_fast_hit_handoff ff (host_entity p) ho entity_id selection) (\<lambda>ar.
     Inr (selection, map fh_hit_id candidates)))))))"

section \<open>Episodes\<close>

record hit_group =
  hg_start :: datetime
  hg_alert_key :: string
  hg_hit_ids :: "string list"

type_synonym group_state = "hit_group list \<times> (string \<rightharpoonup> datetime \<times> nat)"

text \<open>One hit: a new group when its alert key was not seen or has been silent for the gap, else the
  group of its key.\<close>

definition group_step :: "int \<Rightarrow> group_state \<Rightarrow> fast_hit \<Rightarrow> group_state" where
  "group_step gap s hit = (case s of (groups, active) \<Rightarrow>
     case active (fh_alert_key hit) of
       Some (previous, i) \<Rightarrow>
         if gap \<le> instant (fh_timestamp hit) - instant previous then
           (groups @ [\<lparr>hg_start = fh_timestamp hit, hg_alert_key = fh_alert_key hit, hg_hit_ids = [fh_hit_id hit]\<rparr>],
            active(fh_alert_key hit \<mapsto> (fh_timestamp hit, length groups)))
         else
           (groups[i := (groups ! i)\<lparr>hg_hit_ids := hg_hit_ids (groups ! i) @ [fh_hit_id hit]\<rparr>],
            active(fh_alert_key hit \<mapsto> (fh_timestamp hit, i)))
     | None \<Rightarrow>
         (groups @ [\<lparr>hg_start = fh_timestamp hit, hg_alert_key = fh_alert_key hit, hg_hit_ids = [fh_hit_id hit]\<rparr>],
          active(fh_alert_key hit \<mapsto> (fh_timestamp hit, length groups))))"

fun group_hits :: "int \<Rightarrow> datetime \<Rightarrow> datetime \<Rightarrow> group_state \<Rightarrow> fast_hit list \<Rightarrow> group_state result" where
  "group_hits gap start stop s [] = Inr s"
| "group_hits gap start stop s (hit # hits) =
     seq (raise_if (\<not> (instant start \<le> instant (fh_timestamp hit) \<and> instant (fh_timestamp hit) \<le> instant stop))
       (ValueError ''hit outside observation interval''))
     (group_hits gap start stop (group_step gap s hit) hits)"

record fast_episode_starts =
  fes_run_id :: string
  fes_entity_id :: string
  fes_policy_version :: string
  fes_detector_set_version :: string
  fes_start :: datetime
  fes_end :: datetime
  fes_start_times :: "datetime list"

text \<open>The grouping part of \<open>build_development_episodes\<close>: what it does around the checks of the
  coverage artifacts, with the validated policies.\<close>

definition build_development_episodes :: "selection_policy \<Rightarrow> nat \<Rightarrow> fast_handoff \<Rightarrow> string \<Rightarrow> string
    \<Rightarrow> datetime \<Rightarrow> datetime \<Rightarrow> (fast_episode_starts \<times> hit_group list) result" where
  "build_development_episodes p gap_sec ho run_id entity_id start stop =
     seq (check_each (\<lambda>v. seq (require_utc ''observation timestamps'' v)
        (raise_if (\<not> ms_aligned v) (ValueError ''observation timestamps must have millisecond precision''))) [start, stop])
     (seq (raise_if (instant stop \<le> instant start) (ValueError ''observation interval must be positive''))
     (let records = candidate_hits p entity_id (fho_records ho) in
     seq (raise_if (has_duplicates (map fh_hit_id records)) (ValueError ''duplicate hit identity''))
     (bnd (group_hits (int gap_sec * 1000000) start stop ([], Map.empty) records) (\<lambda>(groups, active).
     Inr (\<lparr>fes_run_id = run_id, fes_entity_id = entity_id,
            fes_policy_version = ''fast-development-episodes-v2-gap'' @ dec_digits gap_sec @ ''s'',
            fes_detector_set_version = sel_detector_set_version p, fes_start = start, fes_end = stop,
            fes_start_times = map hg_start groups\<rparr>, groups)))))"

section \<open>The runner's artifacts pass the reader\<close>

lemma hit_number_of: "0 < n \<Longrightarrow> hit_number run_id (hit_id_of run_id n) = Some n"
  using dec_digits_digits dec_digits_nonempty dec_digits_hd [of n]
  by (simp add: hit_number_def hit_id_of_def Let_def)

lemma hit_id_of_inject [simp]: "hit_id_of run_id m = hit_id_of run_id n \<longleftrightarrow> m = n"
  by (auto simp: hit_id_of_def) (metis dec_value_digits)

definition hit_entry :: "string \<Rightarrow> fast_hit \<Rightarrow> trace_entry \<Rightarrow> bool" where
  "hit_entry run_id h e \<longleftrightarrow> te_hit_id e = fh_hit_id h \<and> te_rule_id e = fh_rule_id h
     \<and> te_hit_id e = hit_id_of run_id (te_row_index e) \<and> fh_run_id h = run_id"

lemma rows_to_hits_ids:
  "hayabusa_rows_to_fast_hits strptime run_id cfg index rows = Inr hits \<Longrightarrow>
    h \<in> set hits \<Longrightarrow> \<exists>j \<ge> index. fh_hit_id h = hit_id_of run_id j"
proof (induction rows arbitrary: index hits)
  case Nil
  then show ?case by simp
next
  case (Cons row rows)
  then show ?case
    by (auto simp: hayabusa_row_to_fast_hit_def split: if_splits) (meson Suc_leD dual_order.refl)+
qed

lemma trace_entries_match:
  assumes "hayabusa_rows_to_fast_hits strptime run_id cfg index rows = Inr hits"
    "\<And>j. index \<le> j \<Longrightarrow> hit_id_of run_id j \<in> set S \<longleftrightarrow> hit_id_of run_id j \<in> fh_hit_id ` set hits"
  shows "list_all2 (hit_entry run_id) hits (trace_entries run_id S index rows)
    \<and> sorted_wrt (<) (map te_row_index (trace_entries run_id S index rows))
    \<and> (\<forall>e \<in> set (trace_entries run_id S index rows). index \<le> te_row_index e \<and> te_row_index e < index + length rows)"
  using assms
proof (induction rows arbitrary: index hits)
  case Nil
  then show ?case by simp
next
  case (Cons row rows)
  obtain rule where rule: "hr_rule_id row = Some rule"
    using Cons.prems(1) by (auto simp: require_key_def split: option.splits)
  show ?case
  proof (cases "is_qualifying_hit (frc_qualifying_rule_ids cfg) rule")
    case True
    then obtain md hit hits' where hit: "hits = hit # hits'"
        "hayabusa_row_to_fast_hit strptime run_id cfg row (hit_id_of run_id index) md = Inr hit"
        "hayabusa_rows_to_fast_hits strptime run_id cfg (Suc index) rows = Inr hits'"
      using Cons.prems(1) rule by (auto simp: require_key_def split: if_splits)
    have h: "fh_hit_id hit = hit_id_of run_id index" "fh_rule_id hit = rule" "fh_run_id hit = run_id"
      using hit(2) rule by (auto simp: hayabusa_row_to_fast_hit_def require_key_def)
    have "hit_id_of run_id j \<in> set S \<longleftrightarrow> hit_id_of run_id j \<in> fh_hit_id ` set hits'" if "Suc index \<le> j" for j
      using Cons.prems(2) [of j] that hit(1) h(1) by auto
    from Cons.IH [OF hit(3) this] have IH: "list_all2 (hit_entry run_id) hits' (trace_entries run_id S (Suc index) rows)"
      "sorted_wrt (<) (map te_row_index (trace_entries run_id S (Suc index) rows))"
      "\<forall>e \<in> set (trace_entries run_id S (Suc index) rows). Suc index \<le> te_row_index e \<and> te_row_index e < Suc index + length rows"
      by auto
    have "hit_id_of run_id index \<in> set S" using Cons.prems(2) [of index] hit(1) h(1) by simp
    then have eq: "trace_entries run_id S index (row # rows)
        = \<lparr>te_hit_id = hit_id_of run_id index, te_row_index = index, te_rule_id = rule\<rparr> # trace_entries run_id S (Suc index) rows"
      using rule by simp
    have "index \<le> te_row_index e \<and> te_row_index e < index + length (row # rows)"
      if "e \<in> set (trace_entries run_id S (Suc index) rows)" for e
      using IH(3) that by auto
    moreover have "index < te_row_index e" if "e \<in> set (trace_entries run_id S (Suc index) rows)" for e
      using IH(3) that by (auto simp: Suc_le_eq)
    moreover have "hit_entry run_id hit \<lparr>te_hit_id = hit_id_of run_id index, te_row_index = index, te_rule_id = rule\<rparr>"
      using h by (simp add: hit_entry_def)
    ultimately show ?thesis unfolding eq hit(1) using IH(1,2) by simp
  next
    case False
    then have hits: "hayabusa_rows_to_fast_hits strptime run_id cfg (Suc index) rows = Inr hits"
      using Cons.prems(1) rule by (auto simp: require_key_def split: if_splits)
    have "hit_id_of run_id index \<notin> fh_hit_id ` set hits"
      using rows_to_hits_ids [OF hits] by fastforce
    then have "hit_id_of run_id index \<notin> set S" using Cons.prems(2) [of index] by simp
    moreover have "hit_id_of run_id j \<in> set S \<longleftrightarrow> hit_id_of run_id j \<in> fh_hit_id ` set hits" if "Suc index \<le> j" for j
      using Cons.prems(2) [of j] that by simp
    ultimately show ?thesis using Cons.IH [OF hits] by fastforce
  qed
qed

lemma hit_entries_ids:
  "list_all2 (hit_entry run_id) hits entries \<Longrightarrow> map te_hit_id entries = map fh_hit_id hits
    \<and> map te_rule_id entries = map fh_rule_id hits
    \<and> (\<forall>e \<in> set entries. te_hit_id e = hit_id_of run_id (te_row_index e))
    \<and> (\<forall>h \<in> set hits. fh_run_id h = run_id)"
  by (induction rule: list_all2_induct) (auto simp: hit_entry_def)

lemma map_of_rev_distinct: "distinct (map fst xs) \<Longrightarrow> map_of (rev xs) = map_of xs"
  by (metis distinct_rev map_of_inject_set rev_map set_rev)

lemma trace_rule_of:
  assumes "list_all2 (hit_entry run_id) hits entries" "distinct (map fh_hit_id hits)" "h \<in> set hits"
  shows "trace_rule entries (fh_hit_id h) = Some (fh_rule_id h)"
proof -
  have ids: "map te_hit_id entries = map fh_hit_id hits" using hit_entries_ids [OF assms(1)] by simp
  have "map fst (map (\<lambda>e. (te_hit_id e, te_rule_id e)) entries) = map te_hit_id entries" by simp
  then have dist: "distinct (map fst (map (\<lambda>e. (te_hit_id e, te_rule_id e)) entries))"
    using assms(2) ids by simp
  obtain e where "e \<in> set entries" "hit_entry run_id h e"
    using assms(1,3) by (metis in_set_conv_nth list_all2_conv_all_nth nth_mem)
  then have "(fh_hit_id h, fh_rule_id h) \<in> set (map (\<lambda>e. (te_hit_id e, te_rule_id e)) entries)"
    by (force simp: hit_entry_def)
  with dist show ?thesis
    unfolding trace_rule_def map_of_rev_distinct [OF dist] by (rule map_of_is_SomeI)
qed

lemma provenance_of:
  assumes "list_all2 (hit_entry run_id) hits entries"
    "\<forall>e \<in> set entries. 1 \<le> te_row_index e \<and> te_row_index e \<le> row_count"
  shows "validate_hit_provenance entries run_id row_count = Inr ()"
proof -
  have "hit_number run_id (te_hit_id e) = Some (te_row_index e)" if "e \<in> set entries" for e
  proof -
    have "te_hit_id e = hit_id_of run_id (te_row_index e)"
      using hit_entries_ids [OF assms(1)] that by simp
    moreover have "0 < te_row_index e" using assms(2) that by (simp add: Suc_le_eq)
    ultimately show ?thesis by (simp add: hit_number_of)
  qed
  with assms(2) show ?thesis by (auto simp: validate_hit_provenance_def not_less)
qed

lemma validate_cross_of:
  assumes match: "list_all2 (hit_entry run_id) hits (ft_hits trace)"
    and sorted: "sorted_wrt (<) (map te_row_index (ft_hits trace))"
    and range: "\<forall>e \<in> set (ft_hits trace). 1 \<le> te_row_index e \<and> te_row_index e \<le> ft_row_count trace"
    and trace: "ft_run_id trace = run_id" "ft_hit_count trace = length hits"
  shows "validate_cross hits trace run_id = Inr ()"
proof -
  note ids = hit_entries_ids [OF match]
  have index: "distinct (map te_row_index (ft_hits trace))" using sorted by (simp add: strict_sorted_iff)
  have "distinct (map (hit_id_of run_id) (map te_row_index (ft_hits trace)))"
    using index by (simp only: distinct_map) (simp add: inj_on_def)
  moreover have "map te_hit_id (ft_hits trace) = map (hit_id_of run_id) (map te_row_index (ft_hits trace))"
    unfolding list.map_comp by (rule map_cong [OF refl]) (use ids in simp)
  ultimately have entry_ids: "distinct (map te_hit_id (ft_hits trace))" by (simp only:)
  then have hit_ids: "distinct (map fh_hit_id hits)" using ids by simp
  have len: "length (ft_hits trace) = length hits" using match by (simp add: list_all2_lengthD)
  have "validate_hit_provenance (ft_hits trace) run_id (ft_row_count trace) = Inr ()"
    using match range by (rule provenance_of)
  moreover have "(case trace_rule (ft_hits trace) (fh_hit_id r) of None \<Rightarrow> Inl (KeyError (fh_hit_id r))
      | Some rule \<Rightarrow> raise_if (rule \<noteq> fh_rule_id r) (ValueError ''FastHit trace rule_id does not match record'')) = Inr ()"
    if "r \<in> set hits" for r
    using trace_rule_of [OF match hit_ids that] by simp
  moreover have "set (map fh_hit_id hits) = set (map te_hit_id (ft_hits trace))" using ids by simp
  ultimately show ?thesis
    using trace len hit_ids entry_ids index ids by (simp add: validate_cross_def)
qed

lemma map_result_valid_hits: "\<forall>h \<in> set hits. hit_ok h \<Longrightarrow> map_result validate_fast_hit hits = Inr hits"
  using map_result_total [of hits validate_fast_hit id] by (simp add: validate_fast_hit_ok)

lemma run_fast_handoff_cross:
  assumes "run_fast_handoff strptime ff csv cfg_path cfg run_id rows = Inr ho"
  shows "validate_cross (fho_records ho) (fho_trace ho) run_id = Inr ()"
proof -
  obtain hits where hits: "hayabusa_rows_to_fast_hits strptime run_id cfg 1 rows = Inr hits"
      "fho_records ho = hits" "ft_hits (fho_trace ho) = trace_entries run_id (map fh_hit_id hits) 1 rows"
      "ft_run_id (fho_trace ho) = run_id" "ft_hit_count (fho_trace ho) = length hits"
      "ft_row_count (fho_trace ho) = length rows"
    using assms by (auto simp: run_fast_handoff_def)
  from trace_entries_match [OF hits(1), of "map fh_hit_id hits"]
  have match: "list_all2 (hit_entry run_id) hits (ft_hits (fho_trace ho))"
    "sorted_wrt (<) (map te_row_index (ft_hits (fho_trace ho)))"
    "\<forall>e \<in> set (ft_hits (fho_trace ho)). 1 \<le> te_row_index e \<and> te_row_index e < 1 + length rows"
    unfolding hits(3) by auto
  then show ?thesis using hits by (intro validate_cross_of) auto
qed

lemma expected_run_id_ok_iff: "expected_run_id_ok run_id = Inr () \<longleftrightarrow> run_id_ok run_id \<and> unpadded run_id"
proof -
  have "run_id_ok run_id \<Longrightarrow> run_id \<noteq> []" by (rule run_id_ok_nonempty)
  then show ?thesis
    by (auto simp: expected_run_id_ok_def validate_required_identifier_def validate_run_id_def run_id_ok_def)
qed

lemma runner_output_accepted:
  assumes run: "run_fast_handoff strptime ff csv cfg_path cfg run_id rows = Inr ho"
    and valid: "\<forall>h \<in> set (fho_records ho). hit_ok h"
  shows "read_fast_hit_handoff ff (fho_records ho) (fho_trace ho) run_id = Inr ho"
proof -
  have run_id: "run_id_ok run_id" "unpadded run_id"
    using run by (auto simp: run_fast_handoff_def validate_required_identifier_def)
  have "ff_sha ff (ft_input_csv (fho_trace ho)) = Some (ft_input_sha (fho_trace ho))"
    "ff_sha ff (ft_config_path (fho_trace ho)) = Some (ft_config_sha (fho_trace ho))"
    "ft_output_sha (fho_trace ho) = ff_output_sha ff" "ft_run_id (fho_trace ho) = run_id"
    using run by (auto simp: run_fast_handoff_def require_key_def split: option.splits)
  then have "validate_handoff ff (fho_records ho) (fho_trace ho) run_id = Inr ()"
    using run_fast_handoff_cross [OF run] by (simp add: validate_handoff_def validate_trace_artifact_def)
  then show ?thesis
    using run_id map_result_valid_hits [OF valid] by (simp add: read_fast_hit_handoff_def expected_run_id_ok_iff)
qed

section \<open>The selection is the earliest hit\<close>

lemma candidate_hits_set [simp]: "set (candidate_hits p entity_id hits) = {h \<in> set hits. hit_entity p h = Some entity_id}"
  by (auto simp: candidate_hits_def)

lemma candidate_hits_head:
  assumes "candidate_hits p entity_id hits = h # hs" "h' \<in> set hits" "hit_entity p h' = Some entity_id"
  shows "hit_order h \<le> hit_order h'"
proof -
  have "sorted (map hit_order (h # hs))" unfolding assms(1) [symmetric] by (simp add: candidate_hits_def)
  moreover have "h' \<in> set (h # hs)" unfolding assms(1) [symmetric] using assms(2,3) by simp
  ultimately show ?thesis by auto
qed

definition selection_correct :: "selection_policy \<Rightarrow> string \<Rightarrow> fast_hit list \<Rightarrow> fast_selection \<Rightarrow> bool" where
  "selection_correct p entity_id hits sel \<longleftrightarrow>
     (case fs_hit_id sel of
        None \<Rightarrow> fs_status sel = Miss \<and> (\<forall>h \<in> set hits. hit_entity p h \<noteq> Some entity_id)
      | Some i \<Rightarrow> fs_status sel = Detected \<and> (\<exists>h \<in> set hits. fh_hit_id h = i \<and> hit_entity p h = Some entity_id
          \<and> (\<forall>h' \<in> set hits. hit_entity p h' = Some entity_id \<longrightarrow> hit_order h \<le> hit_order h')))"

lemma selection_of_correct: "selection_correct p entity_id hits (selection_of (candidate_hits p entity_id hits))"
proof (cases "candidate_hits p entity_id hits")
  case Nil
  then have "set (candidate_hits p entity_id hits) = {}" by simp
  then have "\<forall>h \<in> set hits. hit_entity p h \<noteq> Some entity_id" by (simp only: candidate_hits_set) blast
  with Nil show ?thesis by (simp add: selection_correct_def selection_of_def)
next
  case (Cons h hs)
  then have "h \<in> set (candidate_hits p entity_id hits)" by simp
  then have "h \<in> set hits" "hit_entity p h = Some entity_id" by simp_all
  with candidate_hits_head [OF Cons] Cons show ?thesis
    by (auto simp: selection_correct_def selection_of_def)
qed

lemma validate_selection_of: "validate_fast_selection (selection_of hs) = Inr (selection_of hs)"
  by (cases hs) (simp_all add: selection_of_def validate_fast_selection_def)

lemma find_hit_of: "distinct (map fh_hit_id hits) \<Longrightarrow> h \<in> set hits \<Longrightarrow> find_hit hits (fh_hit_id h) = Some h"
proof -
  assume dist: "distinct (map fh_hit_id hits)" and h: "h \<in> set hits"
  have "map fst (map (\<lambda>r. (fh_hit_id r, r)) hits) = map fh_hit_id hits" by simp
  with dist have "distinct (map fst (map (\<lambda>r. (fh_hit_id r, r)) hits))" by (simp only:)
  from map_of_rev_distinct [OF this] map_of_is_SomeI [OF this] h show ?thesis
    by (auto simp: find_hit_def)
qed

lemma read_handoff_facts:
  assumes "read_fast_hit_handoff ff lines trace run_id = Inr ho"
  shows "ho = \<lparr>fho_records = lines, fho_trace = trace\<rparr> \<and> run_id_ok run_id \<and> unpadded run_id
    \<and> (\<forall>h \<in> set lines. hit_ok h) \<and> distinct (map fh_hit_id lines) \<and> ft_run_id trace = run_id
    \<and> (\<forall>h \<in> set lines. fh_run_id h = run_id) \<and> validate_adapter_handoff ff ho = Inr ()"
proof -
  obtain records where r: "map_result validate_fast_hit lines = Inr records"
      "validate_handoff ff records trace run_id = Inr ()" "ho = \<lparr>fho_records = records, fho_trace = trace\<rparr>"
      "expected_run_id_ok run_id = Inr ()"
    using assms by (auto simp: read_fast_hit_handoff_def)
  have pair: "list_all2 (\<lambda>x y. y = x \<and> hit_ok x) lines records"
    using r(1) by (simp add: map_result_ok validate_fast_hit_ok)
  then have "list_all2 (=) lines records" by (rule list_all2_mono) simp
  then have eq: "records = lines" by (simp add: list.rel_eq)
  moreover have "\<forall>h \<in> set lines. hit_ok h"
    using pair unfolding eq by (simp add: list_all2_same)
  ultimately show ?thesis
    using r by (auto simp: validate_handoff_def validate_cross_def validate_adapter_handoff_def
        expected_run_id_ok_iff split: if_splits)
qed

lemma resolve_entity:
  assumes "hit_entity p h = Some e" "\<not> bad_identifier e"
  shows "resolve_record_entity_id (host_entity p) h = Inr (Some e)"
  using assms by (auto simp: hit_entity_def resolve_record_entity_id_def handoff_entity_ok_def split: option.splits)

text \<open>What the adapter makes of the selection.\<close>

definition fast_verdict :: "string \<Rightarrow> string \<Rightarrow> fast_hit list \<Rightarrow> detection_result" where
  "fast_verdict run_id entity_id candidates = (case candidates of
     [] \<Rightarrow> no_detection run_id entity_id Miss
   | h # _ \<Rightarrow> \<lparr>dr_run_id = run_id, dr_entity_id = entity_id, dr_time = Some (fh_timestamp h),
       dr_status = Detected, dr_detector_id = Some (fh_engine h), dr_rule_id = Some (fh_rule_id h),
       dr_rule_version = Some (fh_rule_version h), dr_severity = Some SevUnknown\<rparr>)"

lemma adapt_selection:
  assumes read: "read_fast_hit_handoff ff lines trace run_id = Inr ho"
    and mapped: "\<forall>h \<in> set lines. \<exists>e. hit_entity p h = Some e \<and> \<not> bad_identifier e"
    and entity: "\<not> bad_identifier entity_id"
  shows "adapt_fast_hit_handoff ff (host_entity p) ho entity_id (selection_of (candidate_hits p entity_id lines))
    = Inr \<lparr>ar_detection = fast_verdict run_id entity_id (candidate_hits p entity_id lines),
        ar_source_hit_ids = map fh_hit_id lines,
        ar_selected_hit_id = fs_hit_id (selection_of (candidate_hits p entity_id lines))\<rparr>"
proof -
  note facts = read_handoff_facts [OF read]
  have entity': "entity_id \<noteq> []" using entity by auto
  have ok: "handoff_entity_ok entity_id = Inr ()" using entity by (simp add: handoff_entity_ok_def)
  show ?thesis
  proof (cases "candidate_hits p entity_id lines")
    case Nil
    then have none: "\<forall>h \<in> set lines. hit_entity p h \<noteq> Some entity_id"
      using candidate_hits_set [of p entity_id lines] by auto
    have "validate_miss_selection (host_entity p) entity_id lines = Inr ()"
      unfolding validate_miss_selection_def check_each_ok
    proof
      fix r assume "r \<in> set lines"
      with mapped none obtain e where "hit_entity p r = Some e" "\<not> bad_identifier e" "e \<noteq> entity_id" by blast
      then show "bnd (resolve_record_entity_id (host_entity p) r) (\<lambda>e. raise_first
          [(e = None, ValueError ''miss selection cannot be established''),
           (e = Some entity_id, ValueError ''miss selection contradicts a qualifying FastHitRecord for entity_id'')]) = Inr ()"
        by (simp add: resolve_entity)
    qed
    moreover have "detection_ok (no_detection run_id entity_id Miss)"
      using facts entity' by (simp add: detection_ok_def no_detection_def)
    moreover have "dr_status (no_detection run_id entity_id Miss) = Miss" by (simp add: no_detection_def)
    ultimately show ?thesis
      using facts ok Nil by (auto simp: adapt_fast_hit_handoff_def selection_of_def fast_verdict_def
          validate_detection_result_ok new_adapter_result_def)
  next
    case (Cons h hs)
    then have h: "h \<in> set lines" "hit_entity p h = Some entity_id"
      using candidate_hits_set [of p entity_id lines] by auto
    have find: "find_hit lines (fh_hit_id h) = Some h" using facts h(1) by (intro find_hit_of) auto
    have "validate_selected_entity (host_entity p) entity_id h = Inr ()"
      using resolve_entity [OF h(2) entity] by (simp add: validate_selected_entity_def)
    moreover have "detection_ok (fast_verdict run_id entity_id (h # hs))"
      using facts entity' h(1) by (auto simp: detection_ok_def fast_verdict_def hit_ok_def)
    moreover have "detected_result_consistent (fast_verdict run_id entity_id (h # hs)) h = Inr ()"
      using facts h(1) by (simp add: detected_result_consistent_def fast_verdict_def same_time_def)
    ultimately show ?thesis
      using facts ok find Cons h(1)
      by (auto simp: adapt_fast_hit_handoff_def selection_of_def fast_verdict_def
          validate_detection_result_ok new_adapter_result_def)
  qed
qed

lemma binding_mapped:
  "check_selection_binding strptime p cfg rows run_id ho = Inr () \<Longrightarrow> h \<in> set (fho_records ho) \<Longrightarrow>
    \<exists>e. hit_entity p h = Some e"
  by (simp add: check_selection_binding_def split: if_splits) blast

lemma hit_entity_in_map: "hit_entity p h = Some e \<Longrightarrow> e \<in> snd ` set (sel_host_map p)"
  by (auto simp: hit_entity_def host_entity_def dest!: map_of_SomeD split: option.splits intro: rev_image_eqI)

lemma select_fast_hit_total:
  assumes policy: "validate_selection_policy p = Inr ()" and entity: "entity_id \<in> snd ` set (sel_host_map p)"
    and read: "read_fast_hit_handoff ff lines trace run_id = Inr ho"
    and binding: "check_selection_binding strptime p cfg rows run_id ho = Inr ()"
    and good: "\<forall>e \<in> snd ` set (sel_host_map p). \<not> bad_identifier e"
  shows "select_fast_hit strptime ff p cfg rows lines trace run_id entity_id
    = Inr (selection_of (candidate_hits p entity_id lines), map fh_hit_id (candidate_hits p entity_id lines))"
proof -
  have records: "fho_records ho = lines" using read_handoff_facts [OF read] by simp
  have "\<forall>h \<in> set lines. \<exists>e. hit_entity p h = Some e \<and> \<not> bad_identifier e"
  proof
    fix h assume "h \<in> set lines"
    then obtain e where e: "hit_entity p h = Some e" using binding_mapped [OF binding] records by auto
    with good hit_entity_in_map [OF e] show "\<exists>e. hit_entity p h = Some e \<and> \<not> bad_identifier e" by auto
  qed
  from adapt_selection [OF read this] entity good
  have "adapt_fast_hit_handoff ff (host_entity p) ho entity_id (selection_of (candidate_hits p entity_id lines))
    = Inr \<lparr>ar_detection = fast_verdict run_id entity_id (candidate_hits p entity_id lines),
        ar_source_hit_ids = map fh_hit_id lines,
        ar_selected_hit_id = fs_hit_id (selection_of (candidate_hits p entity_id lines))\<rparr>"
    by blast
  then show ?thesis
    using policy entity read binding records
    by (simp add: select_fast_hit_def Let_def validate_selection_of)
qed

lemma select_fast_hit_sound:
  assumes "select_fast_hit strptime ff p cfg rows lines trace run_id entity_id = Inr (sel, ids)"
  shows "selection_correct p entity_id lines sel \<and> mset ids = mset (map fh_hit_id (filter (\<lambda>h. hit_entity p h = Some entity_id) lines))"
proof -
  obtain ho where read: "read_fast_hit_handoff ff lines trace run_id = Inr ho"
    and sel: "validate_fast_selection (selection_of (candidate_hits p entity_id (fho_records ho))) = Inr sel"
      "ids = map fh_hit_id (candidate_hits p entity_id (fho_records ho))"
    using assms by (auto simp: select_fast_hit_def Let_def)
  have "fho_records ho = lines" using read_handoff_facts [OF read] by simp
  with sel show ?thesis
    using selection_of_correct [of p entity_id lines] by (simp add: validate_selection_of candidate_hits_def)
qed

text \<open>The earliest instant of a set of hits.\<close>

definition earliest :: "fast_hit set \<Rightarrow> int option" where
  "earliest H = (if H = {} then None else Some (Min ((\<lambda>h. instant (fh_timestamp h)) ` H)))"

lemma fast_verdict_time:
  "map_option instant (dr_time (fast_verdict run_id entity_id (candidate_hits p entity_id hits)))
    = earliest {h \<in> set hits. hit_entity p h = Some entity_id}"
proof (cases "candidate_hits p entity_id hits")
  case Nil
  then have "set (candidate_hits p entity_id hits) = {}" by simp
  then have "{h \<in> set hits. hit_entity p h = Some entity_id} = {}" by (simp only: candidate_hits_set)
  with Nil show ?thesis by (simp add: fast_verdict_def no_detection_def earliest_def)
next
  case (Cons h hs)
  let ?H = "{h \<in> set hits. hit_entity p h = Some entity_id}"
  have h: "h \<in> ?H" using Cons candidate_hits_set [of p entity_id hits] by auto
  have "instant (fh_timestamp h) \<le> instant (fh_timestamp h')" if "h' \<in> ?H" for h'
    using candidate_hits_head [OF Cons, of h'] that by (auto simp: hit_order_def)
  then have "Min ((\<lambda>h. instant (fh_timestamp h)) ` ?H) = instant (fh_timestamp h)"
    using h by (intro Min_eqI) auto
  with Cons h show ?thesis by (auto simp: fast_verdict_def earliest_def)
qed

section \<open>The whole Fast path\<close>

lemma runner_output_selected:
  assumes run: "run_fast_handoff strptime ff csv cfg_path cfg run_id rows = Inr ho"
    and valid: "\<forall>h \<in> set (fho_records ho). hit_ok h"
    and policy: "validate_selection_policy p = Inr ()" and entity: "entity_id \<in> snd ` set (sel_host_map p)"
    and good: "\<forall>e \<in> snd ` set (sel_host_map p). \<not> bad_identifier e"
    and mapped: "\<forall>h \<in> set (fho_records ho). hit_entity p h \<noteq> None"
    and config: "sel_config_sha p = ft_config_sha (fho_trace ho)" "sel_config_version p = frc_config_version cfg"
      "frc_qualifying_rule_ids cfg \<noteq> []"
  shows "select_fast_hit strptime ff p cfg rows (fho_records ho) (fho_trace ho) run_id entity_id
    = Inr (selection_of (candidate_hits p entity_id (fho_records ho)),
        map fh_hit_id (candidate_hits p entity_id (fho_records ho)))"
proof -
  have hits: "hayabusa_rows_to_fast_hits strptime run_id cfg 1 rows = Inr (fho_records ho)"
    and md: "qualifying_have_metadata cfg = Inr ()"
    using run by (auto simp: run_fast_handoff_def)
  have "check_selection_binding strptime p cfg rows run_id ho = Inr ()"
    using config hits md mapped map_result_valid_hits [OF valid]
    by (auto simp: check_selection_binding_def qualifying_have_metadata_def)
  then show ?thesis
    using runner_output_accepted [OF run valid] policy entity good by (intro select_fast_hit_total)
qed

section \<open>Episodes are the sessions of each alert key\<close>

text \<open>
  The reference grouping: the hits of one alert key, cut wherever two consecutive ones are at
  least the gap apart.
\<close>

fun sessions :: "int \<Rightarrow> fast_hit list \<Rightarrow> fast_hit list list" where
  "sessions gap [] = []"
| "sessions gap [h] = [[h]]"
| "sessions gap (h # h' # hs) =
     (if gap \<le> instant (fh_timestamp h') - instant (fh_timestamp h) then [h] # sessions gap (h' # hs)
      else (h # hd (sessions gap (h' # hs))) # tl (sessions gap (h' # hs)))"

definition session_group :: "fast_hit list \<Rightarrow> hit_group" where
  "session_group hs = \<lparr>hg_start = fh_timestamp (hd hs), hg_alert_key = fh_alert_key (hd hs), hg_hit_ids = map fh_hit_id hs\<rparr>"

lemma sessions_nonempty: "hs \<noteq> [] \<Longrightarrow> sessions gap hs \<noteq> []"
  by (induction gap hs rule: sessions.induct) auto

lemma sessions_snoc:
  "hs \<noteq> [] \<Longrightarrow> sessions gap (hs @ [h]) =
    (if gap \<le> instant (fh_timestamp h) - instant (fh_timestamp (last hs)) then sessions gap hs @ [[h]]
     else butlast (sessions gap hs) @ [last (sessions gap hs) @ [h]])"
proof (induction gap hs rule: sessions.induct)
  case (3 gap a b hs)
  have ne: "sessions gap (b # hs) \<noteq> []" by (simp add: sessions_nonempty)
  then obtain s ss where ss: "sessions gap (b # hs) = s # ss" by (meson neq_Nil_conv)
  from 3 ss show ?case by (cases "ss = []") auto
qed auto

lemma sessions_members_nonempty: "hs \<noteq> [] \<Longrightarrow> [] \<notin> set (sessions gap hs)"
proof (induction gap hs rule: sessions.induct)
  case (3 gap a b hs)
  then show ?case by (cases "sessions gap (b # hs)") auto
qed auto

lemma sessions_concat: "concat (sessions gap hs) = hs"
proof (induction gap hs rule: sessions.induct)
  case (3 gap a b hs)
  have "sessions gap (b # hs) \<noteq> []" by (simp add: sessions_nonempty)
  with 3 show ?case by (cases "sessions gap (b # hs)") auto
qed auto

definition of_key :: "string \<Rightarrow> fast_hit list \<Rightarrow> fast_hit list" where
  "of_key k hs = filter (\<lambda>h. fh_alert_key h = k) hs"

definition groups_of_key :: "string \<Rightarrow> hit_group list \<Rightarrow> hit_group list" where
  "groups_of_key k gs = filter (\<lambda>g. hg_alert_key g = k) gs"

text \<open>What the loop keeps: the groups of every key are its sessions, and \<open>active\<close> points at the
  last of them.\<close>

definition grouping_inv :: "int \<Rightarrow> fast_hit list \<Rightarrow> group_state \<Rightarrow> bool" where
  "grouping_inv gap hs s \<longleftrightarrow> (case s of (groups, active) \<Rightarrow> \<forall>k.
     groups_of_key k groups = map session_group (sessions gap (of_key k hs))
     \<and> (case active k of None \<Rightarrow> of_key k hs = []
        | Some (t, i) \<Rightarrow> of_key k hs \<noteq> [] \<and> t = fh_timestamp (last (of_key k hs)) \<and> i < length groups
            \<and> hg_alert_key (groups ! i) = k \<and> groups_of_key k (drop (Suc i) groups) = []))"

lemma grouping_inv_Nil: "grouping_inv gap [] ([], Map.empty)"
  by (simp add: grouping_inv_def of_key_def groups_of_key_def)

lemma groups_of_key_upd_last:
  assumes "i < length groups" "hg_alert_key (groups ! i) = k" "groups_of_key k (drop (Suc i) groups) = []"
    "hg_alert_key g = k"
  shows "groups_of_key k (groups[i := g]) = butlast (groups_of_key k groups) @ [g]
    \<and> last (groups_of_key k groups) = groups ! i"
proof -
  have "groups = take i groups @ groups ! i # drop (Suc i) groups" using assms(1) by (rule id_take_nth_drop)
  then have "groups_of_key k groups = groups_of_key k (take i groups @ groups ! i # drop (Suc i) groups)" by simp
  then have old: "groups_of_key k groups = groups_of_key k (take i groups) @ [groups ! i]"
    using assms(2,3) by (simp add: groups_of_key_def)
  have "groups_of_key k (groups[i := g]) = groups_of_key k (take i groups) @ [g]"
    using assms by (simp add: upd_conv_take_nth_drop groups_of_key_def)
  with old show ?thesis by simp
qed

lemma groups_of_key_upd_other:
  assumes "i < length groups" "hg_alert_key (groups ! i) \<noteq> k" "hg_alert_key g \<noteq> k"
  shows "groups_of_key k (groups[i := g]) = groups_of_key k groups"
proof -
  have "groups = take i groups @ groups ! i # drop (Suc i) groups" using assms(1) by (rule id_take_nth_drop)
  then have "groups_of_key k groups = groups_of_key k (take i groups @ groups ! i # drop (Suc i) groups)" by simp
  then show ?thesis using assms by (simp add: upd_conv_take_nth_drop groups_of_key_def)
qed

lemma of_key_snoc: "of_key k (hs @ [h]) = (if fh_alert_key h = k then of_key k hs @ [h] else of_key k hs)"
  by (simp add: of_key_def)

lemma of_key_member: "h \<in> set (of_key k hs) \<Longrightarrow> fh_alert_key h = k"
  by (simp add: of_key_def)

definition new_group :: "fast_hit \<Rightarrow> hit_group" where
  "new_group hit = \<lparr>hg_start = fh_timestamp hit, hg_alert_key = fh_alert_key hit, hg_hit_ids = [fh_hit_id hit]\<rparr>"

lemma grouping_inv_open:
  assumes inv: "grouping_inv gap hs (groups, active)"
    and cut: "sessions gap (of_key (fh_alert_key hit) hs @ [hit]) = sessions gap (of_key (fh_alert_key hit) hs) @ [[hit]]"
  shows "grouping_inv gap (hs @ [hit])
    (groups @ [new_group hit], active(fh_alert_key hit \<mapsto> (fh_timestamp hit, length groups)))"
  unfolding grouping_inv_def prod.case
proof (rule allI)
  fix k
  let ?g = "new_group hit"
  let ?active = "active(fh_alert_key hit \<mapsto> (fh_timestamp hit, length groups))"
  have k: "groups_of_key k groups = map session_group (sessions gap (of_key k hs))"
    "case active k of None \<Rightarrow> of_key k hs = []
      | Some (t, i) \<Rightarrow> of_key k hs \<noteq> [] \<and> t = fh_timestamp (last (of_key k hs)) \<and> i < length groups
          \<and> hg_alert_key (groups ! i) = k \<and> groups_of_key k (drop (Suc i) groups) = []"
    using inv by (auto simp: grouping_inv_def)
  show "groups_of_key k (groups @ [?g]) = map session_group (sessions gap (of_key k (hs @ [hit])))
     \<and> (case ?active k of None \<Rightarrow> of_key k (hs @ [hit]) = []
        | Some (t, i) \<Rightarrow> of_key k (hs @ [hit]) \<noteq> [] \<and> t = fh_timestamp (last (of_key k (hs @ [hit])))
            \<and> i < length (groups @ [?g]) \<and> hg_alert_key ((groups @ [?g]) ! i) = k
            \<and> groups_of_key k (drop (Suc i) (groups @ [?g])) = [])"
  proof (cases "fh_alert_key hit = k")
    case True
    then show ?thesis
      using k(1) cut by (simp add: of_key_snoc groups_of_key_def session_group_def new_group_def)
  next
    case False
    then show ?thesis
      using k by (auto simp: of_key_snoc groups_of_key_def nth_append new_group_def split: option.splits)
  qed
qed

lemma grouping_inv_extend:
  assumes inv: "grouping_inv gap hs (groups, active)" and active: "active (fh_alert_key hit) = Some (t, i)"
    and near: "instant (fh_timestamp hit) - instant t < gap"
  shows "grouping_inv gap (hs @ [hit])
    (groups[i := (groups ! i)\<lparr>hg_hit_ids := hg_hit_ids (groups ! i) @ [fh_hit_id hit]\<rparr>],
     active(fh_alert_key hit \<mapsto> (fh_timestamp hit, i)))"
  unfolding grouping_inv_def prod.case
proof (rule allI)
  fix k
  let ?g = "(groups ! i)\<lparr>hg_hit_ids := hg_hit_ids (groups ! i) @ [fh_hit_id hit]\<rparr>"
  let ?active = "active(fh_alert_key hit \<mapsto> (fh_timestamp hit, i))"
  have all: "groups_of_key k groups = map session_group (sessions gap (of_key k hs))"
    "case active k of None \<Rightarrow> of_key k hs = []
      | Some (t, i) \<Rightarrow> of_key k hs \<noteq> [] \<and> t = fh_timestamp (last (of_key k hs)) \<and> i < length groups
          \<and> hg_alert_key (groups ! i) = k \<and> groups_of_key k (drop (Suc i) groups) = []" for k
    using inv by (auto simp: grouping_inv_def)
  have i: "of_key (fh_alert_key hit) hs \<noteq> []" "t = fh_timestamp (last (of_key (fh_alert_key hit) hs))"
    "i < length groups" "hg_alert_key (groups ! i) = fh_alert_key hit"
    "groups_of_key (fh_alert_key hit) (drop (Suc i) groups) = []"
    using all(2) [of "fh_alert_key hit"] active by auto
  show "groups_of_key k (groups[i := ?g]) = map session_group (sessions gap (of_key k (hs @ [hit])))
     \<and> (case ?active k of None \<Rightarrow> of_key k (hs @ [hit]) = []
        | Some (t, j) \<Rightarrow> of_key k (hs @ [hit]) \<noteq> [] \<and> t = fh_timestamp (last (of_key k (hs @ [hit])))
            \<and> j < length (groups[i := ?g]) \<and> hg_alert_key ((groups[i := ?g]) ! j) = k
            \<and> groups_of_key k (drop (Suc j) (groups[i := ?g])) = [])"
  proof (cases "fh_alert_key hit = k")
    case True
    let ?ss = "sessions gap (of_key k hs)"
    have ss: "?ss \<noteq> []" "last ?ss \<noteq> []"
      using i(1) True sessions_nonempty [of "of_key k hs" gap] sessions_members_nonempty [of "of_key k hs" gap]
        last_in_set [of ?ss] by fastforce+
    have upd: "groups_of_key k (groups[i := ?g]) = butlast (groups_of_key k groups) @ [?g]"
      "last (groups_of_key k groups) = groups ! i"
      using groups_of_key_upd_last [OF i(3), of k ?g] i True by auto
    have "groups ! i = session_group (last ?ss)" using upd(2) ss all(1) [of k] by (simp add: last_map)
    then have "?g = session_group (last ?ss @ [hit])" using ss by (simp add: session_group_def)
    moreover have "sessions gap (of_key k hs @ [hit]) = butlast ?ss @ [last ?ss @ [hit]]"
      using i(1,2) True near by (simp add: sessions_snoc)
    ultimately have "groups_of_key k (groups[i := ?g]) = map session_group (sessions gap (of_key k (hs @ [hit])))"
      using upd(1) all(1) [of k] True by (simp add: of_key_snoc map_butlast)
    then show ?thesis using True i by (simp add: of_key_snoc)
  next
    case False
    have "groups_of_key k (drop (Suc j) (groups[i := ?g])) = groups_of_key k (drop (Suc j) groups)" for j
    proof (cases "i < Suc j")
      case iless: False
      then have "drop (Suc j) groups ! (i - Suc j) = groups ! i" "i - Suc j < length (drop (Suc j) groups)"
        using i(3) by auto
      with iless False i show ?thesis
        by (simp add: drop_update_swap groups_of_key_upd_other)
    qed simp
    moreover have "hg_alert_key (groups[i := ?g] ! j) = hg_alert_key (groups ! j)" if "j < length groups" for j
      using that by (cases "i = j") simp_all
    ultimately show ?thesis
      using False all [of k] groups_of_key_upd_other [OF i(3), of k ?g] i(4)
      by (auto simp: of_key_snoc split: option.splits)
  qed
qed

lemma grouping_inv_step: "grouping_inv gap hs s \<Longrightarrow> grouping_inv gap (hs @ [hit]) (group_step gap s hit)"
proof -
  assume inv: "grouping_inv gap hs s"
  obtain groups active where s: "s = (groups, active)" by fastforce
  let ?k = "fh_alert_key hit"
  have k: "case active ?k of None \<Rightarrow> of_key ?k hs = []
      | Some (t, i) \<Rightarrow> of_key ?k hs \<noteq> [] \<and> t = fh_timestamp (last (of_key ?k hs))"
    using inv s unfolding grouping_inv_def by (auto split: option.split dest!: spec [of _ ?k])
  show ?thesis
  proof (cases "active ?k")
    case None
    with k grouping_inv_open [OF inv [unfolded s], of hit] s show ?thesis
      by (simp add: group_step_def new_group_def)
  next
    case (Some ti)
    obtain t i where ti: "ti = (t, i)" by fastforce
    show ?thesis
    proof (cases "gap \<le> instant (fh_timestamp hit) - instant t")
      case True
      with k Some ti have "sessions gap (of_key ?k hs @ [hit]) = sessions gap (of_key ?k hs) @ [[hit]]"
        by (simp add: sessions_snoc)
      from grouping_inv_open [OF inv [unfolded s] this] True Some ti s show ?thesis
        by (simp add: group_step_def new_group_def)
    next
      case False
      with grouping_inv_extend [OF inv [unfolded s] Some [unfolded ti]] Some ti s show ?thesis
        by (simp add: group_step_def)
    qed
  qed
qed

lemma group_hits_result:
  "group_hits gap start stop s hits = Inr s' \<longleftrightarrow>
    (\<forall>h \<in> set hits. instant start \<le> instant (fh_timestamp h) \<and> instant (fh_timestamp h) \<le> instant stop)
    \<and> s' = foldl (group_step gap) s hits"
  by (induction hits arbitrary: s) auto

lemma grouping_inv_all: "grouping_inv gap hits (foldl (group_step gap) ([], Map.empty) hits)"
  by (induction hits rule: rev_induct) (simp_all add: grouping_inv_Nil grouping_inv_step)

text \<open>The groups are opened in the order of time.\<close>

lemma group_step_starts:
  "map hg_start (fst (group_step gap s hit)) = map hg_start (fst s)
    \<or> map hg_start (fst (group_step gap s hit)) = map hg_start (fst s) @ [fh_timestamp hit]"
proof -
  have same: "map hg_start (gs[i := (gs ! i)\<lparr>hg_hit_ids := x\<rparr>]) = map hg_start gs" for gs :: "hit_group list" and i x
  proof (cases "i < length gs")
    case True
    then show ?thesis by (simp add: map_update) (metis list_update_id nth_map)
  qed (metis list_update_beyond linorder_not_le linorder_not_less)
  show ?thesis
    by (cases s; cases "snd s (fh_alert_key hit)") (auto simp: group_step_def same)
qed

lemma group_starts_sorted:
  "sorted (map (\<lambda>h. instant (fh_timestamp h)) hits) \<Longrightarrow>
    sorted (map instant (map hg_start (fst (foldl (group_step gap) ([], Map.empty) hits))))
    \<and> set (map hg_start (fst (foldl (group_step gap) ([], Map.empty) hits))) \<subseteq> fh_timestamp ` set hits"
proof (induction hits rule: rev_induct)
  case Nil
  then show ?case by simp
next
  case (snoc h hs)
  let ?G = "foldl (group_step gap) ([], Map.empty) hs"
  let ?T = "map hg_start (fst ?G)"
  from snoc have IH: "sorted (map instant ?T)" "set ?T \<subseteq> fh_timestamp ` set hs"
    and le: "\<forall>x \<in> set hs. instant (fh_timestamp x) \<le> instant (fh_timestamp h)"
    by (simp_all add: sorted_append)
  have "instant t \<le> instant (fh_timestamp h)" if "t \<in> set ?T" for t
    using IH(2) le that by blast
  then have "sorted (map instant (?T @ [fh_timestamp h]))"
    using IH(1) by (simp add: sorted_append)
  moreover have "set (?T @ [fh_timestamp h]) \<subseteq> fh_timestamp ` set (hs @ [h])" using IH(2) by auto
  moreover have "set ?T \<subseteq> fh_timestamp ` set (hs @ [h])" using IH(2) by auto
  moreover have step: "foldl (group_step gap) ([], Map.empty) (hs @ [h]) = group_step gap ?G h" by simp
  ultimately show ?case
    using group_step_starts [of gap ?G h] IH(1) unfolding step by metis
qed

section \<open>The detection result of the selection\<close>

lemma fast_verdict_ok:
  assumes read: "read_fast_hit_handoff ff lines trace run_id = Inr ho" and entity: "entity_id \<noteq> []"
  shows "detection_ok (fast_verdict run_id entity_id (candidate_hits p entity_id lines))
    \<and> dr_run_id (fast_verdict run_id entity_id (candidate_hits p entity_id lines)) = run_id
    \<and> dr_entity_id (fast_verdict run_id entity_id (candidate_hits p entity_id lines)) = entity_id"
proof (cases "candidate_hits p entity_id lines")
  case Nil
  with read_handoff_facts [OF read] entity show ?thesis
    by (simp add: fast_verdict_def no_detection_def detection_ok_def)
next
  case (Cons h hs)
  then have "h \<in> set lines" using candidate_hits_set [of p entity_id lines] by auto
  with Cons read_handoff_facts [OF read] entity show ?thesis
    by (auto simp: fast_verdict_def detection_ok_def hit_ok_def)
qed

lemma selected_provenance:
  assumes "distinct (map fh_hit_id lines)" "\<forall>h \<in> set lines. \<not> blank (fh_hit_id h)"
  shows "provenance_ok (dr_status (fast_verdict run_id entity_id (candidate_hits p entity_id lines)))
    (Some (map fh_hit_id lines)) (fs_hit_id (selection_of (candidate_hits p entity_id lines)))"
proof (cases "candidate_hits p entity_id lines")
  case Nil
  with assms show ?thesis by (auto simp: provenance_ok_def selection_of_def)
next
  case (Cons h hs)
  then have "h \<in> set lines" using candidate_hits_set [of p entity_id lines] by auto
  with Cons assms show ?thesis by (auto simp: provenance_ok_def selection_of_def fast_verdict_def)
qed

lemma run_id_not_blank: "run_id_ok r \<Longrightarrow> \<not> blank (r @ s)"
proof -
  assume "run_id_ok r"
  then have "take 4 r = ''RUN-''" by (simp add: run_id_ok_def run_id_pattern_def)
  then have "CHR ''R'' \<in> set (take 4 r)" by simp
  then have "CHR ''R'' \<in> set r" by (rule in_set_takeD)
  moreover have "\<not> is_space (CHR ''R'')" by (simp add: is_space_def code_point_def Let_def)
  ultimately show ?thesis by (auto simp: blank_iff)
qed

lemma runner_hit_ids_not_blank:
  assumes "run_fast_handoff strptime ff csv cfg_path cfg run_id rows = Inr ho"
  shows "\<forall>h \<in> set (fho_records ho). \<not> blank (fh_hit_id h)"
proof
  fix h assume h: "h \<in> set (fho_records ho)"
  have "hayabusa_rows_to_fast_hits strptime run_id cfg 1 rows = Inr (fho_records ho)" "run_id_ok run_id"
    using assms by (auto simp: run_fast_handoff_def)
  with rows_to_hits_ids [OF this(1) h] show "\<not> blank (fh_hit_id h)"
    by (auto simp: hit_id_of_def run_id_not_blank)
qed

end
