(* ===== verification/DecisionProperties.thy ===== *)
theory DecisionProperties
  imports FastSelection
begin

text \<open>
  The properties of the record models, the Fast path and the Hybrid decision, each with a concrete
  instance.
\<close>

section \<open>Sample inputs\<close>

definition sample_run_id :: string where
  "sample_run_id = ''RUN-20260704-001''"

definition sample_strptime :: "string \<Rightarrow> string \<Rightarrow> datetime option" where
  "sample_strptime s f = (if s = ''s1'' then Some (utc 1000000) else if s = ''s3'' then Some (utc 3000000) else None)"

definition sample_json_float :: "py_float \<Rightarrow> py_float option" where
  "sample_json_float x = (case x of Finite q \<Rightarrow> Some (Finite q) | _ \<Rightarrow> None)"

definition sample_row :: "string \<Rightarrow> hayabusa_row" where
  "sample_row ts = \<lparr>hr_timestamp = Some ts, hr_rule_id = Some ''r1'', hr_computer = Some ''h1'', hr_record_id = None\<rparr>"

definition sample_rows :: "hayabusa_row list" where
  "sample_rows = [sample_row ''s3'', sample_row ''s1'']"

definition sample_fast_config :: fast_config where
  "sample_fast_config = \<lparr>frc_engine_version = ''2'', frc_config_version = ''c1'',
     frc_qualifying_rule_ids = [''r1''],
     frc_rule_metadata = [''r1'' \<mapsto> \<lparr>rmd_rule_version = ''1'', rmd_alert_key = ''k''\<rparr>]\<rparr>"

definition sample_files :: fast_files where
  "sample_files = \<lparr>ff_sha = (\<lambda>p. Some (''sha'' @ p)), ff_output_sha = ''out'',
     ff_paths_distinct = True, ff_targets_exist = False\<rparr>"

definition sample_selection_policy :: selection_policy where
  "sample_selection_policy = \<lparr>sel_detector_set_version = ''d1'', sel_config_version = ''c1'',
     sel_config_sha = ''shacfg'', sel_host_map = [(''h1'', ''E1'')]\<rparr>"

definition sample_hit :: "nat \<Rightarrow> int \<Rightarrow> fast_hit" where
  "sample_hit n t = \<lparr>fh_hit_id = hit_id_of sample_run_id n, fh_run_id = sample_run_id, fh_timestamp = utc t,
     fh_engine = ''hayabusa'', fh_engine_version = ''2'', fh_rule_id = ''r1'', fh_rule_version = ''1'',
     fh_alert_key = ''k'', fh_host = Some ''h1'', fh_record_ref = None, fh_config_version = ''c1''\<rparr>"

definition sample_handoff :: fast_handoff where
  "sample_handoff = \<lparr>fho_records = [sample_hit 1 3000000, sample_hit 2 1000000],
     fho_trace = \<lparr>ft_run_id = sample_run_id, ft_input_csv = ''csv'', ft_input_sha = ''shacsv'',
       ft_config_path = ''cfg'', ft_config_sha = ''shacfg'', ft_output_sha = ''out'', ft_row_count = 2,
       ft_hit_count = 2, ft_hits = [\<lparr>te_hit_id = hit_id_of sample_run_id 1, te_row_index = 1, te_rule_id = ''r1''\<rparr>,
         \<lparr>te_hit_id = hit_id_of sample_run_id 2, te_row_index = 2, te_rule_id = ''r1''\<rparr>]\<rparr>\<rparr>"

definition sample_fusion_result :: fusion_result where
  "sample_fusion_result = \<lparr>fr_run_id = sample_run_id, fr_entity_id = ''E1'', fr_time = None, fr_status = Miss,
     fr_score = None, fr_evidence_ids = [], fr_config_version = ''c1'', fr_profile_id = ''p1'',
     fr_model_version = None, fr_scoring_method = ''m'', fr_scorer_version = ''v1'', fr_episodes = []\<rparr>"

lemma sample_run_id_ok: "run_id_ok sample_run_id" "unpadded sample_run_id"
  by (simp_all add: sample_run_id_def run_id_ok_def run_id_pattern_def is_digit_def code_point_def
      date_digits_valid_def dec_value_def days_in_month_def unpadded_def str_strip_def is_space_def Let_def)

lemma ident_ok_append: "ident_ok (a @ b) \<longleftrightarrow> (a \<noteq> [] \<or> b \<noteq> []) \<and> list_all (\<lambda>c. \<not> is_regex_space c) a
    \<and> list_all (\<lambda>c. \<not> is_regex_space c) b"
  by (auto simp: ident_ok_def)

lemma digit_not_space: "is_digit c \<Longrightarrow> \<not> is_regex_space c"
  by (auto simp: is_digit_def is_regex_space_def Let_def)

lemma digits_no_space: "list_all (\<lambda>c. \<not> is_regex_space c) (dec_digits n)"
  using dec_digits_digits [of n] by (auto simp: list_all_iff digit_not_space)

lemma sample_hit_ok: "hit_ok (sample_hit n (1000 * t))"
  using digits_no_space [of n]
  by (simp add: hit_ok_def sample_hit_def hit_id_of_def ident_ok_append sample_run_id_def ident_or_none_def
      ms_aligned_iff utc_def is_utc_def)
    (simp add: ident_ok_def is_regex_space_def code_point_def Let_def)

lemma sample_run: "run_fast_handoff sample_strptime sample_files ''csv'' ''cfg'' sample_fast_config sample_run_id sample_rows
    = Inr sample_handoff"
  using sample_run_id_ok run_id_ok_nonempty [OF sample_run_id_ok(1)]
  by (simp add: run_fast_handoff_def validate_required_identifier_def qualifying_have_metadata_def
      sample_fast_config_def sample_rows_def sample_row_def require_key_def is_qualifying_hit_def
      hayabusa_row_to_fast_hit_def to_utc_iso8601_millis_def normalize_timestamp_def sample_strptime_def
      fraction_at_def sample_files_def sample_handoff_def sample_hit_def non_empty_def)
    (simp add: truncate_ms_def utc_def)

lemma sample_valid_hits: "\<forall>h \<in> set (fho_records sample_handoff). hit_ok h"
  using sample_hit_ok [of 1 3000] sample_hit_ok [of 2 1000] by (simp add: sample_handoff_def)

section \<open>Run identifiers and events\<close>

text \<open>The run identifiers the models accept are exactly the texts \<open>RUN-YYYYMMDD-NNN\<close> of the
  calendar dates from year 1 to 9999 with a number below 1000.\<close>

theorem run_id_accepts_calendar_dates:
  "validate_run_id s = Inr () \<longleftrightarrow>
    (\<exists>y m d n. s = run_id_text y m d n \<and> 1 \<le> y \<and> y \<le> 9999 \<and> 1 \<le> m \<and> m \<le> 12 \<and> 1 \<le> d
      \<and> d \<le> days_in_month y m \<and> n \<le> 999)"
  by (simp add: run_id_ok_text)

text \<open>A normalized event is accepted, unchanged, exactly when its identifiers are present, its
  event type is in the vocabulary, all its times are UTC on the millisecond, its timestamp is the
  time field \<open>timestamp_source\<close> names, and its raw reference, process and network parts are valid.\<close>

theorem event_model_exact:
  "validate_event event_types e = Inr e' \<longleftrightarrow> e' = e \<and> event_ok event_types e"
  by (rule validate_event_ok)

section \<open>The Hybrid decision\<close>

text \<open>A decision is accepted, unchanged, exactly when its fields and times are well formed and its
  detection time and paths are the verdict of the two paths' statuses and times.\<close>

theorem decision_model_exact:
  "validate_decision_result d = Inr d' \<longleftrightarrow>
    d' = d \<and> decision_fields_ok d \<and> times_ok d \<and> decision_contract d"
  by (rule validate_decision_result_ok)

text \<open>On valid inputs of one run and entity the combination returns the decision the truth table
  gives, and carries both inputs and their provenance over unchanged.\<close>

theorem hybrid_decision_total:
  assumes "floats_kept jf" "combine_input_ok d f ca"
  shows "\<exists>dec. combine_results jf d f ca = Inr dec
    \<and> (dc_t_e dec, dc_path dec, dc_winning dec) = verdict (dr_status d) (fr_status f) (dr_time d) (fr_time f)
    \<and> dc_detector_time dec = dr_time d \<and> dc_fusion_time dec = fr_time f
    \<and> dc_fast_status dec = dr_status d \<and> dc_fusion_status dec = fr_status f
    \<and> dc_run_id dec = dr_run_id d \<and> dc_entity_id dec = dr_entity_id d
    \<and> dc_evidence_ids dec = Some (fr_evidence_ids f) \<and> dc_source_hit_ids dec = ca_source_hit_ids ca"
  using combine_results_total [OF assms] by (auto simp: decision_contract_def)

text \<open>Whatever the inputs, a decision the combination returns keeps the contract of the two paths,
  is about the run and entity of both, and its times are whole UTC milliseconds.\<close>

theorem hybrid_decision_sound:
  assumes "combine_results jf d f ca = Inr dec"
  shows "decision_contract dec \<and> times_ok dec \<and> dc_run_id dec = dr_run_id d \<and> dr_run_id d = fr_run_id f
    \<and> dc_entity_id dec = dr_entity_id d \<and> dr_entity_id d = fr_entity_id f
    \<and> dc_fast_status dec = dr_status d \<and> dc_fusion_status dec = fr_status f
    \<and> dc_fusion_time dec = json_time (fr_time f)"
  using combine_results_sound [OF assms] .

definition sample_detection :: detection_result where
  "sample_detection = \<lparr>dr_run_id = sample_run_id, dr_entity_id = ''E1'', dr_time = Some (utc 1000000),
     dr_status = Detected, dr_detector_id = Some ''hayabusa'', dr_rule_id = Some ''r1'',
     dr_rule_version = Some ''1'', dr_severity = Some SevUnknown\<rparr>"

definition sample_combine_args :: combine_args where
  "sample_combine_args = \<lparr>ca_decision_id = ''d1'', ca_config_version = ''c1'', ca_parallel_required = True,
     ca_source_hit_ids = Some [''x''], ca_selected_hit_id = Some ''x'', ca_supersedes = None\<rparr>"

lemma sample_json_floats_kept: "floats_kept sample_json_float"
  by (simp add: floats_kept_def sample_json_float_def)

lemma sample_identifiers: "\<not> bad_identifier ''E1''" "\<not> bad_identifier ''d1''" "\<not> bad_identifier ''c1''" "\<not> blank ''x''"
  by (simp_all add: bad_identifier_def blank_iff unpadded_def str_strip_def is_space_def code_point_def Let_def)

lemma sample_fusion_valid: "validate_fusion_result sample_fusion_result = Inr sample_fusion_result"
  using run_id_ok_nonempty [OF sample_run_id_ok(1)]
  by (simp add: validity metadata_nonempty_def fusion_contract_def sample_fusion_result_def)

lemma sample_combine_input: "combine_input_ok sample_detection sample_fusion_result sample_combine_args"
  using sample_identifiers sample_run_id_ok sample_fusion_valid
  by (simp add: combine_input_ok_def detection_ok_def sample_detection_def fusion_times_def fusion_floats_def
      dot_segment_def provenance_ok_def sample_combine_args_def ms_aligned_iff)
    (simp add: sample_fusion_result_def utc_def)

lemma hybrid_decision_total_witness:
  "\<exists>dec. combine_results sample_json_float sample_detection sample_fusion_result sample_combine_args = Inr dec
    \<and> dc_t_e dec = Some (utc 1000000) \<and> dc_winning dec = Some WinFast"
  using hybrid_decision_total [OF sample_json_floats_kept sample_combine_input]
  by (auto simp: verdict_def sample_detection_def sample_fusion_result_def)

lemma hybrid_decision_sound_witness:
  "\<exists>dec. combine_results sample_json_float sample_detection sample_fusion_result sample_combine_args = Inr dec
    \<and> decision_contract dec \<and> dc_run_id dec = sample_run_id"
proof -
  obtain dec where "combine_results sample_json_float sample_detection sample_fusion_result sample_combine_args = Inr dec"
    using combine_results_total [OF sample_json_floats_kept sample_combine_input] by blast
  with hybrid_decision_sound [OF this] show ?thesis by (auto simp: sample_detection_def)
qed

section \<open>The Fast path\<close>

text \<open>What the Fast runner writes, the handoff reader accepts: hit numbers, rule identifiers, row
  order, counts and digests all agree, whatever rows qualify.\<close>

theorem fast_handoff_accepted:
  assumes "run_fast_handoff strptime ff csv cfg_path cfg run_id rows = Inr ho"
    and "\<forall>h \<in> set (fho_records ho). hit_ok h"
  shows "read_fast_hit_handoff ff (fho_records ho) (fho_trace ho) run_id = Inr ho"
  using assms by (rule runner_output_accepted)

lemma fast_handoff_accepted_witness:
  "read_fast_hit_handoff sample_files (fho_records sample_handoff) (fho_trace sample_handoff) sample_run_id
    = Inr sample_handoff"
  using fast_handoff_accepted [OF sample_run sample_valid_hits] .

text \<open>A selection is the entity's earliest hit by time, rule and hit identifier, or a miss exactly
  when none of the hits is the entity's; the audited candidates are its hits.\<close>

theorem fast_selection_earliest:
  assumes "select_fast_hit strptime ff p cfg rows lines trace run_id entity_id = Inr (sel, ids)"
  shows "selection_correct p entity_id lines sel
    \<and> mset ids = mset (map fh_hit_id (filter (\<lambda>h. hit_entity p h = Some entity_id) lines))"
  using assms by (rule select_fast_hit_sound)

lemma sample_policy_ok: "validate_selection_policy sample_selection_policy = Inr ()"
    "''E1'' \<in> snd ` set (sel_host_map sample_selection_policy)"
    "\<forall>e \<in> snd ` set (sel_host_map sample_selection_policy). \<not> bad_identifier e"
    "\<forall>h \<in> set (fho_records sample_handoff). hit_entity sample_selection_policy h \<noteq> None"
  using sample_identifiers
  by (simp_all add: validate_selection_policy_def sample_selection_policy_def sample_handoff_def sample_hit_def
      hit_entity_def host_entity_def ident_ok_def is_regex_space_def code_point_def Let_def)

lemma sample_candidates:
  "candidate_hits sample_selection_policy ''E1'' (fho_records sample_handoff) = [sample_hit 2 1000000, sample_hit 1 3000000]"
  by (simp add: candidate_hits_def sample_handoff_def hit_entity_def)
    (simp add: sample_hit_def hit_order_def host_entity_def sample_selection_policy_def less_eq_prod_def)

lemma sample_config_bound: "sel_config_sha sample_selection_policy = ft_config_sha (fho_trace sample_handoff)"
    "sel_config_version sample_selection_policy = frc_config_version sample_fast_config"
    "frc_qualifying_rule_ids sample_fast_config \<noteq> []"
  by (simp_all add: sample_selection_policy_def sample_handoff_def sample_fast_config_def)

lemma sample_selected: "select_fast_hit sample_strptime sample_files sample_selection_policy sample_fast_config sample_rows
    (fho_records sample_handoff) (fho_trace sample_handoff) sample_run_id ''E1''
    = Inr (selection_of [sample_hit 2 1000000, sample_hit 1 3000000], [hit_id_of sample_run_id 2, hit_id_of sample_run_id 1])"
  using runner_output_selected [OF sample_run sample_valid_hits sample_policy_ok sample_config_bound]
  unfolding sample_candidates by (simp add: sample_hit_def)

lemma fast_selection_earliest_witness:
  "selection_correct sample_selection_policy ''E1'' (fho_records sample_handoff)
    (selection_of [sample_hit 2 1000000, sample_hit 1 3000000])"
  using fast_selection_earliest [OF sample_selected] by blast

text \<open>C9: From the detector's rows to the decision: when the policy covers the hits' hosts, the runner's
  output is selected, adapted and combined without failure, the Fast time is the earliest of the
  entity's qualifying hits, and the decision is the verdict on it and the Fusion time.\<close>

theorem fast_path_decides_earliest:
  assumes run: "run_fast_handoff strptime ff csv cfg_path cfg run_id rows = Inr ho"
    and valid: "\<forall>h \<in> set (fho_records ho). hit_ok h"
    and policy: "validate_selection_policy p = Inr ()" and entity: "entity_id \<in> snd ` set (sel_host_map p)"
    and good: "\<forall>e \<in> snd ` set (sel_host_map p). \<not> bad_identifier e"
    and mapped: "\<forall>h \<in> set (fho_records ho). hit_entity p h \<noteq> None"
    and config: "sel_config_sha p = ft_config_sha (fho_trace ho)" "sel_config_version p = frc_config_version cfg"
      "frc_qualifying_rule_ids cfg \<noteq> []"
    and fusion: "validate_fusion_result f = Inr f" "fr_run_id f = run_id" "fr_entity_id f = entity_id"
      "\<forall>t \<in> fusion_times f. ms_aligned t" "\<forall>x \<in> fusion_floats f. isfinite x" "floats_kept jf"
    and args: "\<not> bad_identifier did" "\<not> bad_identifier cv" "\<not> dot_segment (Some did)" "\<not> dot_segment supersedes"
  shows "\<exists>sel ids ar dec. select_fast_hit strptime ff p cfg rows (fho_records ho) (fho_trace ho) run_id entity_id = Inr (sel, ids)
    \<and> adapt_fast_hit_handoff ff (host_entity p) ho entity_id sel = Inr ar
    \<and> combine_fast_adapter_result jf ar f did cv True supersedes = Inr dec
    \<and> map_option instant (dc_detector_time dec)
        = earliest {h \<in> set (fho_records ho). hit_entity p h = Some entity_id}
    \<and> dc_fusion_time dec = fr_time f \<and> decision_contract dec"
proof -
  let ?c = "candidate_hits p entity_id (fho_records ho)"
  let ?d = "fast_verdict run_id entity_id ?c"
  let ?sel = "selection_of ?c"
  let ?ar = "\<lparr>ar_detection = ?d, ar_source_hit_ids = map fh_hit_id (fho_records ho), ar_selected_hit_id = fs_hit_id ?sel\<rparr>"
  let ?ca = "\<lparr>ca_decision_id = did, ca_config_version = cv, ca_parallel_required = True,
        ca_source_hit_ids = Some (map fh_hit_id (fho_records ho)), ca_selected_hit_id = fs_hit_id ?sel, ca_supersedes = supersedes\<rparr>"
  have read: "read_fast_hit_handoff ff (fho_records ho) (fho_trace ho) run_id = Inr ho"
    using run valid by (rule runner_output_accepted)
  have bad: "\<not> bad_identifier entity_id" using entity good by blast
  have "\<forall>h \<in> set (fho_records ho). \<exists>e. hit_entity p h = Some e \<and> \<not> bad_identifier e"
  proof
    fix h assume "h \<in> set (fho_records ho)"
    with mapped obtain e where e: "hit_entity p h = Some e" by auto
    with good hit_entity_in_map [OF e] show "\<exists>e. hit_entity p h = Some e \<and> \<not> bad_identifier e" by auto
  qed
  from adapt_selection [OF read this bad]
  have adapt: "adapt_fast_hit_handoff ff (host_entity p) ho entity_id ?sel = Inr ?ar" .
  have "entity_id \<noteq> []" using bad by auto
  note d = fast_verdict_ok [OF read this, of p]
  have prov: "provenance_ok (dr_status ?d) (Some (map fh_hit_id (fho_records ho))) (fs_hit_id ?sel)"
    using read_handoff_facts [OF read] runner_hit_ids_not_blank [OF run] by (intro selected_provenance) auto
  have "combine_input_ok ?d f ?ca"
    using d bad fusion args prov by (simp add: combine_input_ok_def)
  from combine_results_total [OF fusion(6) this]
  obtain dec where dec: "combine_fast_adapter_result jf ?ar f did cv True supersedes = Inr dec" "decision_contract dec"
      "dc_detector_time dec = dr_time ?d" "dc_fusion_time dec = fr_time f"
    by (auto simp: combine_fast_adapter_result_def)
  show ?thesis
    using runner_output_selected [OF run valid policy entity good mapped config] adapt dec fast_verdict_time [of run_id entity_id p "fho_records ho"]
    by auto
qed

lemma fast_path_decides_earliest_witness:
  "\<exists>sel ids ar dec. select_fast_hit sample_strptime sample_files sample_selection_policy sample_fast_config sample_rows
      (fho_records sample_handoff) (fho_trace sample_handoff) sample_run_id ''E1'' = Inr (sel, ids)
    \<and> adapt_fast_hit_handoff sample_files (host_entity sample_selection_policy) sample_handoff ''E1'' sel = Inr ar
    \<and> combine_fast_adapter_result sample_json_float ar sample_fusion_result ''d1'' ''c1'' True None = Inr dec
    \<and> decision_contract dec"
proof -
  have "fr_run_id sample_fusion_result = sample_run_id" "fr_entity_id sample_fusion_result = ''E1''"
    "\<forall>t \<in> fusion_times sample_fusion_result. ms_aligned t" "\<forall>x \<in> fusion_floats sample_fusion_result. isfinite x"
    "\<not> dot_segment (Some ''d1'')" "\<not> dot_segment None"
    by (simp_all add: sample_fusion_result_def fusion_times_def fusion_floats_def dot_segment_def)
  from fast_path_decides_earliest [OF sample_run sample_valid_hits sample_policy_ok sample_config_bound
      sample_fusion_valid this(1-4) sample_json_floats_kept sample_identifiers(2,3) this(5,6)]
  show ?thesis by blast
qed

text \<open>C10: Grouping a handoff's hits succeeds exactly when their times lie in the observation interval; the groups
  of every alert key are then its sessions (its hits cut at gaps of at least the configured
  length), and the reported starts are in order and inside the interval.\<close>

theorem fast_episodes_are_sessions:
  assumes "build_development_episodes p gap_sec ho run_id entity_id start stop = Inr (st, groups)"
  shows "(\<forall>k. groups_of_key k groups
        = map session_group (sessions (int gap_sec * 1000000) (of_key k (candidate_hits p entity_id (fho_records ho)))))
    \<and> fes_start_times st = map hg_start groups \<and> sorted (map instant (fes_start_times st))
    \<and> (\<forall>t \<in> set (fes_start_times st). instant start \<le> instant t \<and> instant t \<le> instant stop)"
proof -
  let ?hits = "candidate_hits p entity_id (fho_records ho)"
  let ?s = "foldl (group_step (int gap_sec * 1000000)) ([], Map.empty) ?hits"
  have inside: "\<forall>h \<in> set ?hits. instant start \<le> instant (fh_timestamp h) \<and> instant (fh_timestamp h) \<le> instant stop"
    and groups: "groups = fst ?s" and st: "fes_start_times st = map hg_start groups"
    using assms by (auto simp: build_development_episodes_def Let_def group_hits_result
        simp del: candidate_hits_set split: prod.splits)
  have "sorted (map hit_order ?hits)" by (simp add: candidate_hits_def)
  then have "sorted (map (\<lambda>h. instant (fh_timestamp h)) ?hits)"
    unfolding sorted_map by (rule sorted_wrt_mono_rel [rotated]) (auto simp: hit_order_def)
  note starts = group_starts_sorted [OF this, of "int gap_sec * 1000000"]
  have "groups_of_key k groups = map session_group (sessions (int gap_sec * 1000000) (of_key k ?hits))" for k
    using grouping_inv_all [of "int gap_sec * 1000000" ?hits] groups
    by (auto simp: grouping_inv_def split: prod.splits)
  with starts inside st groups show ?thesis by fastforce
qed

lemma digit_two: "dec_digits 2 = ''2''"
proof -
  have "char_of (50 :: nat) = CHR ''2''" by code_simp
  then show ?thesis by (simp add: dec_digits.simps)
qed

lemma sample_episodes: "build_development_episodes sample_selection_policy 2 sample_handoff sample_run_id ''E1'' (utc 0) (utc 5000000)
    = Inr (\<lparr>fes_run_id = sample_run_id, fes_entity_id = ''E1'', fes_policy_version = ''fast-development-episodes-v2-gap2s'',
        fes_detector_set_version = ''d1'', fes_start = utc 0, fes_end = utc 5000000, fes_start_times = [utc 1000000, utc 3000000]\<rparr>,
      [new_group (sample_hit 2 1000000), new_group (sample_hit 1 3000000)])"
  by (simp add: build_development_episodes_def sample_candidates ms_aligned_iff digit_two)
    (simp add: sample_hit_def group_step_def new_group_def sample_selection_policy_def utc_def instant_def is_utc_def)

lemma fast_episodes_are_sessions_witness:
  "groups_of_key ''k'' [new_group (sample_hit 2 1000000), new_group (sample_hit 1 3000000)]
    = map session_group (sessions 2000000 [sample_hit 2 1000000, sample_hit 1 3000000])"
proof -
  have "of_key ''k'' [sample_hit 2 1000000, sample_hit 1 3000000] = [sample_hit 2 1000000, sample_hit 1 3000000]"
    by (simp add: of_key_def sample_hit_def)
  with fast_episodes_are_sessions [OF sample_episodes] show ?thesis
    unfolding sample_candidates by (metis of_nat_numeral mult_2 numeral_Bit0)
qed

end
