(* ===== verification/StreamModels.thy ===== *)
theory StreamModels
  imports RecordModels
begin

text \<open>
  \<open>common/models/r1_stream.py\<close>, \<open>common/models/r1_required_partition.py\<close> and the close model of
  \<open>common/models/r1_record_position_close.py\<close>: the messages of the incremental stream and their
  validators. The fields whose type is a single literal (schema, version, message type) are left
  out; times are validated after they were read the way \<open>read_event_time\<close> says.
\<close>

section \<open>Partitions\<close>

record stream_partition =
  pt_run_id :: string
  pt_host_id :: string
  pt_source :: string
  pt_channel :: string

definition min_length :: "string \<Rightarrow> unit result" where
  "min_length s = raise_if (s = []) (ValueError ''string_too_short'')"

definition require_unpadded :: "string \<Rightarrow> unit result" where
  "require_unpadded s = raise_if (\<not> unpadded s) (ValueError ''must not contain leading or trailing whitespace'')"

definition validate_stream_run_id :: "string \<Rightarrow> unit result" where
  "validate_stream_run_id s = seq (min_length s) (seq (validate_required_identifier s) (validate_run_id s))"

definition validate_stream_identity :: "string \<Rightarrow> unit result" where
  "validate_stream_identity s = seq (min_length s) (require_unpadded s)"

definition validate_stream_partition :: "stream_partition \<Rightarrow> unit result" where
  "validate_stream_partition p =
     seq (validate_stream_run_id (pt_run_id p))
     (check_each validate_stream_identity [pt_host_id p, pt_source p, pt_channel p])"

definition partition_ok :: "stream_partition \<Rightarrow> bool" where
  "partition_ok p \<longleftrightarrow> run_id_ok (pt_run_id p) \<and> unpadded (pt_run_id p)
     \<and> (\<forall>s \<in> {pt_host_id p, pt_source p, pt_channel p}. s \<noteq> [] \<and> unpadded s)"

lemma validate_stream_identity_ok [simp]: "validate_stream_identity s = Inr u \<longleftrightarrow> s \<noteq> [] \<and> unpadded s"
  by (cases u) (simp add: validate_stream_identity_def min_length_def require_unpadded_def)

lemma validate_stream_run_id_ok [simp]: "validate_stream_run_id s = Inr u \<longleftrightarrow> run_id_ok s \<and> unpadded s"
  using run_id_ok_nonempty [of s]
  by (cases u) (auto simp: validate_stream_run_id_def min_length_def validate_required_identifier_def)

lemma validate_stream_partition_ok [simp]: "validate_stream_partition p = Inr u \<longleftrightarrow> partition_ok p"
  by (cases u) (auto simp: validate_stream_partition_def partition_ok_def)

lemma unpadded_nonempty_not_blank: "s \<noteq> [] \<Longrightarrow> unpadded s \<Longrightarrow> \<not> blank s"
  by (simp add: blank_def unpadded_def)

section \<open>Digests\<close>

definition is_hex :: "char \<Rightarrow> bool" where
  "is_hex c = (let n = code_point c in (48 \<le> n \<and> n \<le> 57) \<or> (97 \<le> n \<and> n \<le> 102))"

text \<open>\<open>^[0-9a-f]{64}$\<close>\<close>

definition sha256_ok :: "string \<Rightarrow> bool" where
  "sha256_ok s = (length s = 64 \<and> list_all is_hex s)"

definition validate_utc_field :: "datetime \<Rightarrow> unit result" where
  "validate_utc_field t = bnd (validate_utc_ms (Some t)) (\<lambda>v. Inr ())"

lemma validate_utc_field_ok [simp]: "validate_utc_field t = Inr u \<longleftrightarrow> is_utc t \<and> ms_aligned t"
  by (cases u) (simp add: validate_utc_field_def)

section \<open>Event chunks\<close>

record event_chunk =
  ck_chunk_id :: string
  ck_partition :: stream_partition
  ck_sequence :: int
  ck_sha :: string
  ck_events :: "normalized_event list"

definition validate_event_scope :: "event_chunk \<Rightarrow> unit result" where
  "validate_event_scope c =
     seq (raise_if (has_duplicates (map ev_event_id (ck_events c)))
       (ValueError ''events must not contain duplicate event_id values''))
     (check_each (\<lambda>e. raise_first
       [(ev_run_id e \<noteq> pt_run_id (ck_partition c), ValueError ''every Event run_id must match the chunk partition''),
        (ev_host_id e \<noteq> pt_host_id (ck_partition c), ValueError ''every Event host_id must match the chunk partition''),
        (ev_source e \<noteq> pt_source (ck_partition c), ValueError ''every Event source must match the chunk partition'')])
       (ck_events c))"

definition validate_event_chunk :: "string set \<Rightarrow> event_chunk \<Rightarrow> event_chunk result" where
  "validate_event_chunk event_types c =
     seq (validate_stream_identity (ck_chunk_id c))
     (seq (validate_stream_partition (ck_partition c))
     (seq (raise_first
       [(ck_sequence c < 1, ValueError ''chunk_sequence''),
        (\<not> sha256_ok (ck_sha c), ValueError ''chunk_content_sha256''),
        (ck_events c = [], ValueError ''events'')])
     (bnd (map_result (validate_event event_types) (ck_events c)) (\<lambda>events.
     seq (validate_event_scope c) (Inr c)))))"

definition chunk_ok :: "string set \<Rightarrow> event_chunk \<Rightarrow> bool" where
  "chunk_ok event_types c \<longleftrightarrow> ck_chunk_id c \<noteq> [] \<and> unpadded (ck_chunk_id c) \<and> partition_ok (ck_partition c)
     \<and> 1 \<le> ck_sequence c \<and> sha256_ok (ck_sha c) \<and> ck_events c \<noteq> []
     \<and> distinct (map ev_event_id (ck_events c))
     \<and> (\<forall>e \<in> set (ck_events c). event_ok event_types e \<and> ev_run_id e = pt_run_id (ck_partition c)
          \<and> ev_host_id e = pt_host_id (ck_partition c) \<and> ev_source e = pt_source (ck_partition c))"

lemma map_result_validate_event:
  "map_result (validate_event event_types) es = Inr es' \<longleftrightarrow> es' = es \<and> (\<forall>e \<in> set es. event_ok event_types e)"
  by (induction es arbitrary: es') (auto simp: validate_event_ok)

lemma validate_event_chunk_ok [validity]:
  "validate_event_chunk event_types c = Inr c' \<longleftrightarrow> c' = c \<and> chunk_ok event_types c"
  by (auto simp: validate_event_chunk_def chunk_ok_def map_result_validate_event validate_event_scope_def not_less)

section \<open>Watermarks\<close>

record source_watermark =
  wm_id :: string
  wm_partition :: stream_partition
  wm_sequence :: int
  wm_at :: datetime
  wm_lateness :: int
  wm_covered :: int
  wm_emitted_at :: datetime

definition validate_source_watermark :: "source_watermark \<Rightarrow> source_watermark result" where
  "validate_source_watermark w =
     seq (validate_stream_identity (wm_id w))
     (seq (validate_stream_partition (wm_partition w))
     (seq (raise_if (wm_sequence w < 1) (ValueError ''watermark_sequence''))
     (seq (validate_utc_field (wm_at w))
     (seq (raise_first
       [(wm_lateness w < 0, ValueError ''allowed_lateness_ms''),
        (wm_covered w < 1, ValueError ''covered_through_chunk_sequence'')])
     (seq (validate_utc_field (wm_emitted_at w)) (Inr w))))))"

definition watermark_ok :: "source_watermark \<Rightarrow> bool" where
  "watermark_ok w \<longleftrightarrow> wm_id w \<noteq> [] \<and> unpadded (wm_id w) \<and> partition_ok (wm_partition w) \<and> 1 \<le> wm_sequence w
     \<and> is_utc (wm_at w) \<and> ms_aligned (wm_at w) \<and> 0 \<le> wm_lateness w \<and> 1 \<le> wm_covered w
     \<and> is_utc (wm_emitted_at w) \<and> ms_aligned (wm_emitted_at w)"

lemma validate_source_watermark_ok [validity]:
  "validate_source_watermark w = Inr w' \<longleftrightarrow> w' = w \<and> watermark_ok w"
  by (auto simp: validate_source_watermark_def watermark_ok_def not_less)

record final_watermark =
  fw_partition :: stream_partition
  fw_id :: string
  fw_sequence :: int
  fw_at :: datetime
  fw_lateness :: int
  fw_covered :: int

definition validate_final_watermark :: "final_watermark \<Rightarrow> final_watermark result" where
  "validate_final_watermark w =
     seq (validate_stream_partition (fw_partition w))
     (seq (validate_stream_identity (fw_id w))
     (seq (raise_if (fw_sequence w < 1) (ValueError ''watermark_sequence''))
     (seq (validate_utc_field (fw_at w))
     (seq (raise_first
       [(fw_lateness w < 0, ValueError ''allowed_lateness_ms''),
        (fw_covered w < 1, ValueError ''covered_through_chunk_sequence'')])
     (Inr w)))))"

definition final_ok :: "final_watermark \<Rightarrow> bool" where
  "final_ok w \<longleftrightarrow> partition_ok (fw_partition w) \<and> fw_id w \<noteq> [] \<and> unpadded (fw_id w) \<and> 1 \<le> fw_sequence w
     \<and> is_utc (fw_at w) \<and> ms_aligned (fw_at w) \<and> 0 \<le> fw_lateness w \<and> 1 \<le> fw_covered w"

lemma validate_final_watermark_ok [validity]:
  "validate_final_watermark w = Inr w' \<longleftrightarrow> w' = w \<and> final_ok w"
  by (auto simp: validate_final_watermark_def final_ok_def not_less)

section \<open>Dead letters\<close>

record dead_letter =
  dl_chunk_id :: string
  dl_partition :: stream_partition
  dl_watermark_id :: string
  dl_watermark_at :: datetime
  dl_event_ids :: "string list"
  dl_rejected_at :: datetime

definition validate_violating_event_ids :: "string list \<Rightarrow> unit result" where
  "validate_violating_event_ids ids = raise_first
     [(\<exists>i \<in> set ids. blank i \<or> \<not> unpadded i,
         ValueError ''violating_event_ids must contain only non-blank unpadded values''),
      (has_duplicates ids, ValueError ''violating_event_ids must not contain duplicates'')]"

definition validate_dead_letter :: "dead_letter \<Rightarrow> dead_letter result" where
  "validate_dead_letter d =
     seq (validate_stream_identity (dl_chunk_id d))
     (seq (validate_stream_partition (dl_partition d))
     (seq (validate_stream_identity (dl_watermark_id d))
     (seq (validate_utc_field (dl_watermark_at d))
     (seq (raise_if (dl_event_ids d = []) (ValueError ''violating_event_ids''))
     (seq (validate_violating_event_ids (dl_event_ids d))
     (seq (validate_utc_field (dl_rejected_at d)) (Inr d)))))))"

definition dead_letter_ok :: "dead_letter \<Rightarrow> bool" where
  "dead_letter_ok d \<longleftrightarrow> dl_chunk_id d \<noteq> [] \<and> unpadded (dl_chunk_id d) \<and> partition_ok (dl_partition d)
     \<and> dl_watermark_id d \<noteq> [] \<and> unpadded (dl_watermark_id d) \<and> is_utc (dl_watermark_at d) \<and> ms_aligned (dl_watermark_at d)
     \<and> dl_event_ids d \<noteq> [] \<and> (\<forall>i \<in> set (dl_event_ids d). \<not> blank i \<and> unpadded i) \<and> distinct (dl_event_ids d)
     \<and> is_utc (dl_rejected_at d) \<and> ms_aligned (dl_rejected_at d)"

lemma validate_dead_letter_ok [validity]: "validate_dead_letter d = Inr d' \<longleftrightarrow> d' = d \<and> dead_letter_ok d"
  by (auto simp: validate_dead_letter_def dead_letter_ok_def validate_violating_event_ids_def)

section \<open>Run closes\<close>

record run_closed =
  cl_close_id :: string
  cl_run_id :: string
  cl_finals :: "final_watermark list"
  cl_emitted_at :: datetime

definition validate_final_watermark_scope :: "run_closed \<Rightarrow> unit result" where
  "validate_final_watermark_scope c = raise_first
     [(has_duplicates (map fw_partition (cl_finals c)),
         ValueError ''run_closed final_watermarks must not contain duplicate partitions''),
      (\<exists>w \<in> set (cl_finals c). pt_run_id (fw_partition w) \<noteq> cl_run_id c,
         ValueError ''every final watermark partition run_id must match run_closed run_id'')]"

definition validate_run_closed :: "run_closed \<Rightarrow> run_closed result" where
  "validate_run_closed c =
     seq (validate_stream_identity (cl_close_id c))
     (seq (validate_stream_run_id (cl_run_id c))
     (seq (raise_if (cl_finals c = []) (ValueError ''final_watermarks''))
     (bnd (map_result validate_final_watermark (cl_finals c)) (\<lambda>finals.
     seq (validate_utc_field (cl_emitted_at c))
     (seq (validate_final_watermark_scope c) (Inr c))))))"

definition run_closed_ok :: "run_closed \<Rightarrow> bool" where
  "run_closed_ok c \<longleftrightarrow> cl_close_id c \<noteq> [] \<and> unpadded (cl_close_id c) \<and> run_id_ok (cl_run_id c) \<and> unpadded (cl_run_id c)
     \<and> cl_finals c \<noteq> [] \<and> (\<forall>w \<in> set (cl_finals c). final_ok w \<and> pt_run_id (fw_partition w) = cl_run_id c)
     \<and> distinct (map fw_partition (cl_finals c)) \<and> is_utc (cl_emitted_at c) \<and> ms_aligned (cl_emitted_at c)"

lemma map_result_validate_final:
  "map_result validate_final_watermark ws = Inr ws' \<longleftrightarrow> ws' = ws \<and> (\<forall>w \<in> set ws. final_ok w)"
  by (induction ws arbitrary: ws') (auto simp: validate_final_watermark_ok)

lemma validate_run_closed_ok [validity]: "validate_run_closed c = Inr c' \<longleftrightarrow> c' = c \<and> run_closed_ok c"
  by (auto simp: validate_run_closed_def run_closed_ok_def map_result_validate_final validate_final_watermark_scope_def)

section \<open>Required partitions\<close>

record partition_contract =
  rq_target_host :: string
  rq_partitions :: "(string \<times> string) list"

definition canonical_channel :: "string \<times> string" where
  "canonical_channel = (''sysmon'', ''Microsoft-Windows-Sysmon/Operational'')"

definition validate_partition_contract :: "partition_contract \<Rightarrow> partition_contract result" where
  "validate_partition_contract c = seq (raise_first
     [(rq_target_host c = [], ValueError ''string_too_short''),
      (\<not> unpadded (rq_target_host c), ValueError ''target_host must not contain leading or trailing whitespace''),
      (rq_partitions c = [], ValueError ''required_partitions''),
      (\<exists>p \<in> set (rq_partitions c). p \<noteq> canonical_channel, ValueError ''literal_error''),
      (has_duplicates (rq_partitions c), ValueError ''required_partitions must not contain duplicate partitions'')]) (Inr c)"

text \<open>With one canonical channel the contract of a host is unique.\<close>

lemma validate_partition_contract_ok [validity]:
  "validate_partition_contract c = Inr c' \<longleftrightarrow> c' = c \<and> rq_target_host c \<noteq> [] \<and> unpadded (rq_target_host c)
     \<and> rq_partitions c = [canonical_channel]"
proof -
  have "distinct ps \<and> ps \<noteq> [] \<and> (\<forall>p \<in> set ps. p = canonical_channel) \<longleftrightarrow> ps = [canonical_channel]" for ps
    by (cases ps; cases "tl ps") auto
  from this [of "rq_partitions c"] show ?thesis by (auto simp: validate_partition_contract_def)
qed

section \<open>Position closes\<close>

record position_close =
  pc_close_id :: string
  pc_run_id :: string
  pc_partition :: stream_partition
  pc_target_host :: string
  pc_contract_sha :: string
  pc_lower :: int
  pc_upper :: int
  pc_generation_id :: string
  pc_covered :: int
  pc_covered_sha :: string
  pc_ack_count :: int
  pc_event_count :: int
  pc_source_sha :: string
  pc_live_sha :: string
  pc_canonical_sha :: string
  pc_request_id :: string
  pc_snapshot_shas :: "string list"
  pc_candidate_at :: datetime
  pc_observation_at :: datetime
  pc_emitted_at :: datetime

definition validate_identity :: "string \<Rightarrow> unit result" where
  "validate_identity s = seq (min_length s)
     (raise_if (blank s \<or> \<not> unpadded s) (ValueError ''identity must be non-blank without surrounding whitespace''))"

definition validate_sha256 :: "string \<Rightarrow> unit result" where
  "validate_sha256 s = raise_if (\<not> sha256_ok s) (ValueError ''string_pattern_mismatch'')"

definition validate_position_frontier :: "position_close \<Rightarrow> unit result" where
  "validate_position_frontier c = seq (raise_first
     [(pc_lower c < 1, ValueError ''lower_record_id''), (pc_upper c < 1, ValueError ''upper_record_id'')])
     (seq (validate_sha256 (pc_generation_id c))
     (raise_if (pc_upper c < pc_lower c) (ValueError ''lower_record_id must not exceed upper_record_id'')))"

definition validate_close_bindings :: "position_close \<Rightarrow> unit result" where
  "validate_close_bindings c = raise_first
     [(pt_run_id (pc_partition c) \<noteq> pc_run_id c, ValueError ''position close partition must belong to its run_id''),
      (pc_target_host c \<noteq> pt_host_id (pc_partition c), ValueError ''required-partition contract must bind the closed host''),
      (pc_live_sha c \<noteq> pc_canonical_sha c, ValueError ''live and canonical identity digests must be equal''),
      (pc_ack_count c \<noteq> pc_covered c, ValueError ''every covered chunk must have exactly one post-commit ack''),
      (instant (pc_observation_at c) < instant (pc_candidate_at c),
         ValueError ''observation_boundary_at must not precede candidate_boundary_at''),
      (instant (pc_emitted_at c) < instant (pc_observation_at c),
         ValueError ''a position close must not be emitted before the observation boundary'')]"

definition validate_position_close :: "position_close \<Rightarrow> position_close result" where
  "validate_position_close c =
     seq (validate_identity (pc_close_id c))
     (seq (validate_identity (pc_run_id c))
     (seq (validate_required_identifier (pc_run_id c))
     (seq (validate_run_id (pc_run_id c))
     (seq (validate_stream_partition (pc_partition c))
     (seq (validate_identity (pc_target_host c))
     (seq (validate_sha256 (pc_contract_sha c))
     (seq (validate_position_frontier c)
     (seq (raise_first
       [(pc_covered c < 1, ValueError ''covered_through_chunk_sequence''),
        (pc_ack_count c < 1, ValueError ''post_commit_ack_count''),
        (pc_event_count c < 1, ValueError ''event_count'')])
     (seq (check_each validate_sha256 [pc_covered_sha c, pc_source_sha c, pc_live_sha c, pc_canonical_sha c])
     (seq (validate_identity (pc_request_id c))
     (seq (check_each validate_sha256 (pc_snapshot_shas c))
     (seq (check_each validate_utc_field [pc_candidate_at c, pc_observation_at c, pc_emitted_at c])
     (seq (validate_close_bindings c) (Inr c))))))))))))))"

definition position_close_ok :: "position_close \<Rightarrow> bool" where
  "position_close_ok c \<longleftrightarrow> pc_close_id c \<noteq> [] \<and> unpadded (pc_close_id c) \<and> partition_ok (pc_partition c)
     \<and> pt_run_id (pc_partition c) = pc_run_id c \<and> pc_target_host c = pt_host_id (pc_partition c)
     \<and> 1 \<le> pc_lower c \<and> pc_lower c \<le> pc_upper c \<and> 1 \<le> pc_covered c \<and> pc_ack_count c = pc_covered c \<and> 1 \<le> pc_event_count c
     \<and> (\<forall>s \<in> {pc_contract_sha c, pc_generation_id c, pc_covered_sha c, pc_source_sha c, pc_live_sha c}. sha256_ok s)
     \<and> pc_canonical_sha c = pc_live_sha c \<and> pc_request_id c \<noteq> [] \<and> unpadded (pc_request_id c)
     \<and> (\<forall>s \<in> set (pc_snapshot_shas c). sha256_ok s)
     \<and> (\<forall>t \<in> {pc_candidate_at c, pc_observation_at c, pc_emitted_at c}. is_utc t \<and> ms_aligned t)
     \<and> instant (pc_candidate_at c) \<le> instant (pc_observation_at c) \<and> instant (pc_observation_at c) \<le> instant (pc_emitted_at c)"

lemma validate_identity_ok [simp]: "validate_identity s = Inr u \<longleftrightarrow> s \<noteq> [] \<and> unpadded s"
  by (cases u) (auto simp: validate_identity_def min_length_def unpadded_nonempty_not_blank)

lemma validate_sha256_ok [simp]: "validate_sha256 s = Inr u \<longleftrightarrow> sha256_ok s"
  by (cases u) (simp add: validate_sha256_def)

lemma validate_position_close_ok [validity]:
  "validate_position_close c = Inr c' \<longleftrightarrow> c' = c \<and> position_close_ok c"
proof -
  have "run_id_ok (pc_run_id c) \<Longrightarrow> pc_run_id c \<noteq> []" by (rule run_id_ok_nonempty)
  then show ?thesis
    by (auto simp: validate_position_close_def position_close_ok_def validate_position_frontier_def
        validate_close_bindings_def validate_required_identifier_def partition_ok_def not_less)
qed

end
