(* ===== verification/StreamLedger.thy ===== *)
theory StreamLedger
  imports StreamModels
begin

text \<open>
  \<open>storage/repositories/r1_stream_delivery_repository.py\<close> and
  \<open>storage/repositories/r1_position_close_repository.py\<close>: the ledger of the incremental stream. A
  table is the list of its rows in the order they were inserted; \<open>ON CONFLICT DO NOTHING\<close> follows
  the primary and unique keys of the migrations. An operation returns its result and the ledger it
  leaves, also when it raises; undoing the partial effect is the caller's transaction. The advisory
  locks serialise transactions and have no other effect here.
\<close>

section \<open>Tables\<close>

record chunk_row =
  cr_partition :: stream_partition
  cr_id :: string
  cr_sequence :: int
  cr_sha :: string

record event_row =
  er_partition :: stream_partition
  er_id :: string
  er_sha :: string

record watermark_row =
  wr_partition :: stream_partition
  wr_id :: string
  wr_sequence :: int
  wr_sha :: string
  wr_at :: datetime
  wr_lateness :: int
  wr_covered :: int

record close_row =
  xr_run_id :: string
  xr_close_id :: string
  xr_sha :: string

record position_row =
  pr_entry_id :: int
  pr_partition :: stream_partition
  pr_close_id :: string
  pr_sha :: string
  pr_lower :: int
  pr_upper :: int
  pr_covered :: int
  pr_covered_sha :: string
  pr_accepted_at :: datetime

record ledger =
  lg_chunks :: "chunk_row list"
  lg_events :: "event_row list"
  lg_watermarks :: "watermark_row list"
  lg_closes :: "close_row list"
  lg_positions :: "position_row list"

definition empty_ledger :: ledger where
  "empty_ledger = \<lparr>lg_chunks = [], lg_events = [], lg_watermarks = [], lg_closes = [], lg_positions = []\<rparr>"

section \<open>Queries\<close>

definition select_chunk_by_id :: "ledger \<Rightarrow> stream_partition \<Rightarrow> string \<Rightarrow> chunk_row option" where
  "select_chunk_by_id l p i = find (\<lambda>r. cr_partition r = p \<and> cr_id r = i) (lg_chunks l)"

definition select_chunk_by_sequence :: "ledger \<Rightarrow> stream_partition \<Rightarrow> int \<Rightarrow> chunk_row option" where
  "select_chunk_by_sequence l p n = find (\<lambda>r. cr_partition r = p \<and> cr_sequence r = n) (lg_chunks l)"

definition select_event_by_id :: "ledger \<Rightarrow> stream_partition \<Rightarrow> string \<Rightarrow> event_row option" where
  "select_event_by_id l p i = find (\<lambda>r. er_partition r = p \<and> er_id r = i) (lg_events l)"

definition select_watermark_by_id :: "ledger \<Rightarrow> stream_partition \<Rightarrow> string \<Rightarrow> watermark_row option" where
  "select_watermark_by_id l p i = find (\<lambda>r. wr_partition r = p \<and> wr_id r = i) (lg_watermarks l)"

definition select_watermark_by_sequence :: "ledger \<Rightarrow> stream_partition \<Rightarrow> int \<Rightarrow> watermark_row option" where
  "select_watermark_by_sequence l p n = find (\<lambda>r. wr_partition r = p \<and> wr_sequence r = n) (lg_watermarks l)"

text \<open>\<open>ORDER BY watermark_sequence DESC LIMIT 1\<close>\<close>

definition select_latest_watermark :: "ledger \<Rightarrow> stream_partition \<Rightarrow> watermark_row option" where
  "select_latest_watermark l p = (case filter (\<lambda>r. wr_partition r = p) (lg_watermarks l) of
     [] \<Rightarrow> None | w # ws \<Rightarrow> Some (min_key (\<lambda>r. - wr_sequence r) w ws))"

definition select_close_exists :: "ledger \<Rightarrow> string \<Rightarrow> bool" where
  "select_close_exists l run_id = (run_id \<in> set (map xr_run_id (lg_closes l)))"

definition select_close_by_id :: "ledger \<Rightarrow> string \<Rightarrow> string \<Rightarrow> close_row option" where
  "select_close_by_id l run_id i = find (\<lambda>r. xr_run_id r = run_id \<and> xr_close_id r = i) (lg_closes l)"

definition select_close_by_run :: "ledger \<Rightarrow> string \<Rightarrow> close_row option" where
  "select_close_by_run l run_id = find (\<lambda>r. xr_run_id r = run_id) (lg_closes l)"

definition select_position_close :: "ledger \<Rightarrow> string \<Rightarrow> position_row option" where
  "select_position_close l run_id = find (\<lambda>r. pt_run_id (pr_partition r) = run_id) (lg_positions l)"

definition select_partition_count :: "ledger \<Rightarrow> string \<Rightarrow> nat" where
  "select_partition_count l run_id =
     card (set (map cr_partition (filter (\<lambda>r. pt_run_id (cr_partition r) = run_id) (lg_chunks l)))
       \<union> set (map wr_partition (filter (\<lambda>r. pt_run_id (wr_partition r) = run_id) (lg_watermarks l))))"

definition select_covered_chunks :: "ledger \<Rightarrow> stream_partition \<Rightarrow> int \<Rightarrow> chunk_row list" where
  "select_covered_chunks l p n =
     sort_key cr_sequence (filter (\<lambda>r. cr_partition r = p \<and> cr_sequence r \<le> n) (lg_chunks l))"

section \<open>Insertions\<close>

definition insert_chunk :: "chunk_row \<Rightarrow> ledger \<Rightarrow> bool \<times> ledger" where
  "insert_chunk r l =
     (if \<exists>q \<in> set (lg_chunks l). cr_partition q = cr_partition r \<and> (cr_id q = cr_id r \<or> cr_sequence q = cr_sequence r)
      then (False, l) else (True, l\<lparr>lg_chunks := lg_chunks l @ [r]\<rparr>))"

definition insert_event :: "event_row \<Rightarrow> ledger \<Rightarrow> bool \<times> ledger" where
  "insert_event r l =
     (if \<exists>q \<in> set (lg_events l). er_partition q = er_partition r \<and> er_id q = er_id r
      then (False, l) else (True, l\<lparr>lg_events := lg_events l @ [r]\<rparr>))"

definition insert_watermark :: "watermark_row \<Rightarrow> ledger \<Rightarrow> bool \<times> ledger" where
  "insert_watermark r l =
     (if \<exists>q \<in> set (lg_watermarks l). wr_partition q = wr_partition r \<and> (wr_id q = wr_id r \<or> wr_sequence q = wr_sequence r)
      then (False, l) else (True, l\<lparr>lg_watermarks := lg_watermarks l @ [r]\<rparr>))"

definition insert_close :: "close_row \<Rightarrow> ledger \<Rightarrow> bool \<times> ledger" where
  "insert_close r l =
     (if \<exists>q \<in> set (lg_closes l). xr_run_id q = xr_run_id r
      then (False, l) else (True, l\<lparr>lg_closes := lg_closes l @ [r]\<rparr>))"

text \<open>The generated entry id is the number of the row.\<close>

definition insert_position :: "position_row \<Rightarrow> ledger \<Rightarrow> int option \<times> ledger" where
  "insert_position r l =
     (let entry_id = int (length (lg_positions l)) + 1 in
      if \<exists>q \<in> set (lg_positions l). pt_run_id (pr_partition q) = pt_run_id (pr_partition r)
      then (None, l)
      else (Some entry_id, l\<lparr>lg_positions := lg_positions l @ [r\<lparr>pr_entry_id := entry_id\<rparr>]\<rparr>))"

section \<open>Rows as values\<close>

record stream_delivery =
  dv_identity :: string
  dv_sequence :: "int option"
  dv_sha :: string

record accepted_watermark =
  aw_id :: string
  aw_sequence :: int
  aw_at :: datetime
  aw_lateness :: int
  aw_covered :: int

record close_receipt =
  ct_run_id :: string
  ct_close_id :: string
  ct_sha :: string

record chunk_admission =
  adm_replay :: bool
  adm_new_event_ids :: "string list"
  adm_watermark :: "accepted_watermark option"

definition row_to_delivery :: "string \<Rightarrow> (string \<times> int option \<times> string) option \<Rightarrow> stream_delivery option result" where
  "row_to_delivery label row = (case row of None \<Rightarrow> Inr None | Some (i, n, sha) \<Rightarrow>
     seq (raise_first
       [(blank i, TypeError (label @ '' ledger identity must be a non-blank string'')),
        (length sha \<noteq> 64, TypeError (label @ '' ledger content_sha256 must be a SHA-256 string'')),
        (is_some_and n (\<lambda>k. k < 1), TypeError (label @ '' ledger sequence must be a positive integer''))])
     (Inr (Some \<lparr>dv_identity = i, dv_sequence = n, dv_sha = sha\<rparr>)))"

definition chunk_delivery :: "chunk_row option \<Rightarrow> stream_delivery option result" where
  "chunk_delivery r = row_to_delivery ''chunk'' (map_option (\<lambda>r. (cr_id r, Some (cr_sequence r), cr_sha r)) r)"

definition event_delivery :: "event_row option \<Rightarrow> stream_delivery option result" where
  "event_delivery r = row_to_delivery ''event'' (map_option (\<lambda>r. (er_id r, None, er_sha r)) r)"

definition watermark_delivery :: "watermark_row option \<Rightarrow> stream_delivery option result" where
  "watermark_delivery r = row_to_delivery ''watermark'' (map_option (\<lambda>r. (wr_id r, Some (wr_sequence r), wr_sha r)) r)"

definition close_delivery :: "close_row option \<Rightarrow> stream_delivery option result" where
  "close_delivery r = row_to_delivery ''run close'' (map_option (\<lambda>r. (xr_close_id r, None, xr_sha r)) r)"

definition accepted_watermark_from_row :: "watermark_row option \<Rightarrow> accepted_watermark option result" where
  "accepted_watermark_from_row row = (case row of None \<Rightarrow> Inr None | Some r \<Rightarrow>
     seq (raise_first
       [(blank (wr_id r), TypeError ''watermark binding identity must be a non-blank string''),
        (wr_sequence r < 1, TypeError ''watermark binding sequence must be a positive integer''),
        (wr_covered r < 1, TypeError ''watermark binding covered_through_chunk_sequence must be positive'')])
     (Inr (Some \<lparr>aw_id = wr_id r, aw_sequence = wr_sequence r, aw_at = wr_at r,
        aw_lateness = wr_lateness r, aw_covered = wr_covered r\<rparr>)))"

section \<open>Chunks\<close>

text \<open>An existing row with this identity is an exact replay or a conflict.\<close>

definition same_delivery :: "string \<Rightarrow> stream_delivery \<Rightarrow> int option \<Rightarrow> string \<Rightarrow> unit result" where
  "same_delivery label d sequence sha = raise_if (dv_sequence d \<noteq> sequence \<or> dv_sha d \<noteq> sha)
     (ValueError (label @ '' identity conflicts with previously accepted content''))"

definition resolve_partition_conflict :: "string \<Rightarrow> stream_delivery option result \<Rightarrow> int \<Rightarrow> string \<Rightarrow> bool result" where
  "resolve_partition_conflict label by_id sequence sha = bnd by_id (\<lambda>existing. case existing of
     Some d \<Rightarrow> seq (same_delivery label d (Some sequence) sha) (Inr False)
   | None \<Rightarrow> Inl (ValueError (label @ '' sequence conflicts with previously accepted identity'')))"

definition resolve_closed_chunk_replay :: "ledger \<Rightarrow> stream_partition \<Rightarrow> string \<Rightarrow> int \<Rightarrow> string \<Rightarrow> bool result" where
  "resolve_closed_chunk_replay l p i n sha =
     bnd (chunk_delivery (select_chunk_by_id l p i)) (\<lambda>by_id. case by_id of
       Some d \<Rightarrow> seq (same_delivery ''chunk'' d (Some n) sha) (Inr False)
     | None \<Rightarrow>
         bnd (chunk_delivery (select_chunk_by_sequence l p n)) (\<lambda>by_sequence. case by_sequence of
           Some d \<Rightarrow> Inl (ValueError ''chunk sequence conflicts with previously accepted identity'')
         | None \<Rightarrow> Inl (ValueError ''cannot accept a new chunk after run_closed is accepted'')))"

definition save_chunk :: "stream_partition \<Rightarrow> string \<Rightarrow> int \<Rightarrow> string \<Rightarrow> ledger \<Rightarrow> bool result \<times> ledger" where
  "save_chunk p i n sha l =
     (if select_close_exists l (pt_run_id p) then (resolve_closed_chunk_replay l p i n sha, l)
      else (case insert_chunk \<lparr>cr_partition = p, cr_id = i, cr_sequence = n, cr_sha = sha\<rparr> l of
        (True, l') \<Rightarrow> (Inr True, l')
      | (False, l') \<Rightarrow> (resolve_partition_conflict ''chunk'' (chunk_delivery (select_chunk_by_id l' p i)) n sha, l')))"

definition position_close_frontier :: "ledger \<Rightarrow> stream_partition \<Rightarrow> int option result" where
  "position_close_frontier l p = (case select_position_close l (pt_run_id p) of
     None \<Rightarrow> Inr None
   | Some r \<Rightarrow> seq (raise_first
       [(pr_partition r \<noteq> p, ValueError ''position close is bound to another stream partition''),
        (pr_lower r < 1 \<or> pr_upper r < pr_lower r, ValueError ''position close frontier has invalid RecordId bounds'')])
       (Inr (Some (pr_upper r))))"

definition canonical_decimal :: "string option \<Rightarrow> bool" where
  "canonical_decimal v = (case v of None \<Rightarrow> False
     | Some s \<Rightarrow> s \<noteq> [] \<and> list_all is_digit s \<and> dec_digits (dec_value s) = s)"

definition assert_events_are_post_position_close :: "(string \<times> string) list \<Rightarrow> (string \<times> string option) list \<Rightarrow> int \<Rightarrow> unit result" where
  "assert_events_are_post_position_close shas record_ids upper =
     seq (raise_if (map fst record_ids \<noteq> map fst shas \<or> has_duplicates (map fst record_ids))
       (ValueError ''position-closed chunk has incomplete Event RecordId bindings''))
     (check_each (\<lambda>(i, v).
        seq (raise_if (\<not> canonical_decimal v) (ValueError ''position-closed Event has no canonical decimal RecordId''))
            (raise_if (is_some_and v (\<lambda>s. int (dec_value s) \<le> upper))
              (ValueError ''position-closed Event is not strictly after the RecordId frontier''))) record_ids)"

fun classify_events :: "ledger \<Rightarrow> stream_partition \<Rightarrow> (string \<times> string) list \<Rightarrow> string list result" where
  "classify_events l p [] = Inr []"
| "classify_events l p ((i, sha) # shas) =
     bnd (event_delivery (select_event_by_id l p i)) (\<lambda>existing. case existing of
       None \<Rightarrow> bnd (classify_events l p shas) (\<lambda>ids. Inr (i # ids))
     | Some d \<Rightarrow> seq (same_delivery ''event'' d None sha) (classify_events l p shas))"

definition watermark_covers_received_chunks :: "ledger \<Rightarrow> stream_partition \<Rightarrow> accepted_watermark \<Rightarrow> bool" where
  "watermark_covers_received_chunks l p w =
     (let received = set (map cr_sequence (select_covered_chunks l p (aw_covered w))) in
      int (card received) = aw_covered w
      \<and> (if received = {} then 0 else Min received) = 1
      \<and> (if received = {} then 0 else Max received) = aw_covered w)"

definition inspect_chunk_admission :: "stream_partition \<Rightarrow> string \<Rightarrow> int \<Rightarrow> string \<Rightarrow> (string \<times> string) list
    \<Rightarrow> (string \<times> string option) list \<Rightarrow> ledger \<Rightarrow> chunk_admission result" where
  "inspect_chunk_admission p i n sha shas record_ids l =
     (let is_closed = select_close_exists l (pt_run_id p) in
      bnd (chunk_delivery (select_chunk_by_id l p i)) (\<lambda>existing. case existing of
        Some d \<Rightarrow> seq (same_delivery ''chunk'' d (Some n) sha)
            (Inr \<lparr>adm_replay = True, adm_new_event_ids = [], adm_watermark = None\<rparr>)
      | None \<Rightarrow>
      bnd (chunk_delivery (select_chunk_by_sequence l p n)) (\<lambda>existing_sequence.
      seq (raise_first
        [(existing_sequence \<noteq> None, ValueError ''chunk sequence conflicts with previously accepted identity''),
         (is_closed, ValueError ''cannot accept a new chunk after run_closed is accepted'')])
      (bnd (position_close_frontier l p) (\<lambda>frontier.
      seq (case frontier of None \<Rightarrow> Inr () | Some upper \<Rightarrow> assert_events_are_post_position_close shas record_ids upper)
      (bnd (classify_events l p shas) (\<lambda>new_event_ids.
      bnd (accepted_watermark_from_row (select_latest_watermark l p)) (\<lambda>latest.
      Inr \<lparr>adm_replay = False, adm_new_event_ids = new_event_ids,
           adm_watermark = (case latest of None \<Rightarrow> None
             | Some w \<Rightarrow> if watermark_covers_received_chunks l p w then Some w else None)\<rparr>)))))))) "

section \<open>Events\<close>

fun assert_closed_run_event_replays :: "ledger \<Rightarrow> stream_partition \<Rightarrow> (string \<times> string) list \<Rightarrow> unit result" where
  "assert_closed_run_event_replays l p [] = Inr ()"
| "assert_closed_run_event_replays l p ((i, sha) # shas) =
     bnd (event_delivery (select_event_by_id l p i)) (\<lambda>existing. case existing of
       None \<Rightarrow> Inl (ValueError ''cannot accept a new event after run_closed is accepted'')
     | Some d \<Rightarrow> seq (same_delivery ''event'' d None sha) (assert_closed_run_event_replays l p shas))"

fun save_event_rows :: "stream_partition \<Rightarrow> (string \<times> string) list \<Rightarrow> ledger \<Rightarrow> string list result \<times> ledger" where
  "save_event_rows p [] l = (Inr [], l)"
| "save_event_rows p ((i, sha) # shas) l =
     (case insert_event \<lparr>er_partition = p, er_id = i, er_sha = sha\<rparr> l of
        (True, l') \<Rightarrow> (case save_event_rows p shas l' of (r, l'') \<Rightarrow> (bnd r (\<lambda>ids. Inr (i # ids)), l''))
      | (False, l') \<Rightarrow>
          (case event_delivery (select_event_by_id l' p i) of
             Inl e \<Rightarrow> (Inl e, l')
           | Inr None \<Rightarrow> (Inl (ValueError ''event delivery conflicts with an unavailable ledger record''), l')
           | Inr (Some d) \<Rightarrow> (case same_delivery ''event'' d None sha of
               Inl e \<Rightarrow> (Inl e, l') | Inr u \<Rightarrow> save_event_rows p shas l')))"

definition save_events :: "stream_partition \<Rightarrow> (string \<times> string) list \<Rightarrow> ledger \<Rightarrow> string list result \<times> ledger" where
  "save_events p shas l =
     (if select_close_exists l (pt_run_id p)
      then (seq (assert_closed_run_event_replays l p shas) (Inr []), l)
      else save_event_rows p shas l)"

section \<open>Watermarks\<close>

definition check_watermark_advance :: "accepted_watermark option \<Rightarrow> source_watermark \<Rightarrow> unit result" where
  "check_watermark_advance latest w = (case latest of None \<Rightarrow> Inr () | Some a \<Rightarrow> raise_first
     [(wm_sequence w \<le> aw_sequence a, ValueError ''watermark sequence must advance beyond the latest durable watermark''),
      (instant (wm_at w) < instant (aw_at a), ValueError ''watermark_at must not move backwards from the latest durable watermark''),
      (wm_lateness w \<noteq> aw_lateness a, ValueError ''allowed_lateness_ms must remain constant within a partition'')])"

definition row_of_watermark :: "source_watermark \<Rightarrow> string \<Rightarrow> watermark_row" where
  "row_of_watermark w sha = \<lparr>wr_partition = wm_partition w, wr_id = wm_id w, wr_sequence = wm_sequence w,
     wr_sha = sha, wr_at = wm_at w, wr_lateness = wm_lateness w, wr_covered = wm_covered w\<rparr>"

definition save_watermark :: "source_watermark \<Rightarrow> string \<Rightarrow> ledger \<Rightarrow> bool result \<times> ledger" where
  "save_watermark w sha l =
     (let p = wm_partition w; is_closed = select_close_exists l (pt_run_id p) in
      case bnd (accepted_watermark_from_row (select_latest_watermark l p)) (\<lambda>latest.
           bnd (watermark_delivery (select_watermark_by_id l p (wm_id w))) (\<lambda>by_id. case by_id of
             Some d \<Rightarrow> seq (same_delivery ''watermark'' d (Some (wm_sequence w)) sha) (Inr False)
           | None \<Rightarrow>
               seq (raise_if is_closed (ValueError ''cannot accept a watermark after run_closed is accepted''))
               (bnd (watermark_delivery (select_watermark_by_sequence l p (wm_sequence w))) (\<lambda>by_sequence.
               seq (raise_if (by_sequence \<noteq> None) (ValueError ''watermark sequence conflicts with previously accepted identity''))
               (seq (check_watermark_advance latest w) (Inr True)))))) of
        Inl e \<Rightarrow> (Inl e, l)
      | Inr False \<Rightarrow> (Inr False, l)
      | Inr True \<Rightarrow> (case insert_watermark (row_of_watermark w sha) l of
          (True, l') \<Rightarrow> (Inr True, l')
        | (False, l') \<Rightarrow> (resolve_partition_conflict ''watermark''
            (watermark_delivery (select_watermark_by_id l' p (wm_id w))) (wm_sequence w) sha, l')))"

section \<open>Run closes\<close>

definition final_binding :: "final_watermark \<Rightarrow> accepted_watermark" where
  "final_binding f = \<lparr>aw_id = fw_id f, aw_sequence = fw_sequence f, aw_at = fw_at f,
     aw_lateness = fw_lateness f, aw_covered = fw_covered f\<rparr>"

text \<open>The equality of two dataclasses whose times compare by instant.\<close>

definition same_binding :: "accepted_watermark \<Rightarrow> accepted_watermark \<Rightarrow> bool" where
  "same_binding a b \<longleftrightarrow> aw_id a = aw_id b \<and> aw_sequence a = aw_sequence b \<and> instant (aw_at a) = instant (aw_at b)
     \<and> aw_lateness a = aw_lateness b \<and> aw_covered a = aw_covered b"

definition assert_final_watermark :: "ledger \<Rightarrow> final_watermark \<Rightarrow> unit result" where
  "assert_final_watermark l f =
     bnd (accepted_watermark_from_row (select_latest_watermark l (fw_partition f))) (\<lambda>existing. case existing of
       None \<Rightarrow> Inl (ValueError ''run close references a source watermark not accepted for its partition'')
     | Some a \<Rightarrow> raise_if (\<not> same_binding a (final_binding f))
         (ValueError ''run close final watermark does not match its latest accepted partition watermark''))"

definition assert_final_watermarks_match :: "final_watermark list \<Rightarrow> ledger \<Rightarrow> unit result" where
  "assert_final_watermarks_match finals l =
     seq (raise_first
       [(finals = [], ValueError ''run close must contain at least one final watermark''),
        (card (set (map (\<lambda>f. pt_run_id (fw_partition f)) finals)) \<noteq> 1,
           ValueError ''run close final watermarks must belong to one run'')])
     (seq (check_each (assert_final_watermark l) finals)
     (raise_if (select_partition_count l (pt_run_id (fw_partition (hd finals))) \<noteq> length finals)
       (ValueError ''run close final watermarks do not cover every accepted partition'')))"

definition save_run_close :: "string \<Rightarrow> string \<Rightarrow> string \<Rightarrow> ledger \<Rightarrow> bool result \<times> ledger" where
  "save_run_close run_id close_id sha l =
     (case insert_close \<lparr>xr_run_id = run_id, xr_close_id = close_id, xr_sha = sha\<rparr> l of
        (True, l') \<Rightarrow> (Inr True, l')
      | (False, l') \<Rightarrow>
          (bnd (close_delivery (select_close_by_id l' run_id close_id)) (\<lambda>existing. case existing of
             Some d \<Rightarrow> seq (same_delivery ''run close'' d None sha) (Inr False)
           | None \<Rightarrow> Inl (ValueError ''run already has a different accepted close_id'')), l'))"

definition load_accepted_run_close_receipt :: "string \<Rightarrow> ledger \<Rightarrow> close_receipt option result" where
  "load_accepted_run_close_receipt run_id l =
     seq (raise_if (blank run_id \<or> \<not> unpadded run_id) (ValueError ''run_id must be a non-blank, unpadded string''))
     (bnd (close_delivery (select_close_by_run l run_id)) (\<lambda>delivery.
     Inr (map_option (\<lambda>d. \<lparr>ct_run_id = run_id, ct_close_id = dv_identity d, ct_sha = dv_sha d\<rparr>) delivery)))"

section \<open>Position closes\<close>

record position_receipt =
  pv_run_id :: string
  pv_close_id :: string
  pv_partition :: stream_partition
  pv_sha :: string
  pv_entry_id :: int
  pv_accepted_at :: datetime

text \<open>\<open>_receipt\<close> with the validation of \<open>R1AcceptedRecordPositionCloseReceipt\<close>.\<close>

definition position_receipt_of :: "string \<Rightarrow> string \<Rightarrow> stream_partition \<Rightarrow> string \<Rightarrow> int \<Rightarrow> datetime \<Rightarrow> position_receipt result" where
  "position_receipt_of run_id close_id p sha entry_id accepted_at =
     seq (raise_if (utcoffset accepted_at = None) (TypeError ''position close accepted_at must be timezone-aware''))
     (seq (validate_identity run_id)
     (seq (validate_required_identifier run_id)
     (seq (validate_run_id run_id)
     (seq (validate_identity close_id)
     (seq (validate_stream_partition p)
     (seq (validate_sha256 sha)
     (seq (raise_if (entry_id < 1) (ValueError ''ledger_entry_id''))
     (seq (validate_utc_field (astimezone_utc accepted_at))
     (seq (raise_if (pt_run_id p \<noteq> run_id) (ValueError ''receipt partition must belong to its run_id''))
     (Inr \<lparr>pv_run_id = run_id, pv_close_id = close_id, pv_partition = p, pv_sha = sha,
        pv_entry_id = entry_id, pv_accepted_at = astimezone_utc accepted_at\<rparr>))))))))))"

definition load_accepted_position_close_receipt :: "string \<Rightarrow> ledger \<Rightarrow> position_receipt option result" where
  "load_accepted_position_close_receipt run_id l =
     seq (raise_if (blank run_id \<or> \<not> unpadded run_id) (ValueError ''run_id must be a non-blank, unpadded string''))
     (case select_position_close l run_id of
        None \<Rightarrow> Inr None
      | Some r \<Rightarrow>
          seq (validate_stream_partition (pr_partition r))
          (seq (raise_if (pr_entry_id r < 1) (TypeError ''ledger integer column must be a positive integer''))
          (bnd (position_receipt_of run_id (pr_close_id r) (pr_partition r) (pr_sha r) (pr_entry_id r) (pr_accepted_at r))
             (\<lambda>receipt. Inr (Some receipt)))))"

definition chunk_entries :: "chunk_row list \<Rightarrow> (int \<times> string \<times> string) list" where
  "chunk_entries rows = map (\<lambda>r. (cr_sequence r, cr_id r, cr_sha r)) rows"

definition require_committed_covered_chunks :: "((int \<times> string \<times> string) list \<Rightarrow> string) \<Rightarrow> position_close \<Rightarrow> ledger \<Rightarrow> unit result" where
  "require_committed_covered_chunks sha_covered c l =
     (let rows = select_covered_chunks l (pc_partition c) (pc_covered c) in
      seq (check_each (\<lambda>r. raise_if (cr_sequence r < 1) (TypeError ''ledger integer column must be a positive integer'')) rows)
      (raise_first
        [(map cr_sequence rows \<noteq> [1..pc_covered c], ValueError ''Role3 ledger has a gap in the covered chunk sequence''),
         (sha_covered (chunk_entries rows) \<noteq> pc_covered_sha c, ValueError ''Role3 ledger chunks do not match the position close'')]))"

definition resolve_position_replay :: "(position_close \<Rightarrow> string) \<Rightarrow> position_receipt \<Rightarrow> position_close \<Rightarrow> position_receipt result" where
  "resolve_position_replay sha_position existing c = seq (raise_first
     [(pv_close_id existing \<noteq> pc_close_id c, ValueError ''run already has a different accepted position close''),
      (pv_partition existing \<noteq> pc_partition c, ValueError ''position close identity conflicts with another partition''),
      (pv_sha existing \<noteq> sha_position c, ValueError ''position close identity conflicts with previously accepted content'')])
     (Inr existing)"

definition row_of_position :: "position_close \<Rightarrow> string \<Rightarrow> datetime \<Rightarrow> position_row" where
  "row_of_position c sha accepted_at = \<lparr>pr_entry_id = 0, pr_partition = pc_partition c, pr_close_id = pc_close_id c,
     pr_sha = sha, pr_lower = pc_lower c, pr_upper = pc_upper c, pr_covered = pc_covered c,
     pr_covered_sha = pc_covered_sha c, pr_accepted_at = accepted_at\<rparr>"

definition save_position_close :: "(position_close \<Rightarrow> string) \<Rightarrow> ((int \<times> string \<times> string) list \<Rightarrow> string)
    \<Rightarrow> position_close \<Rightarrow> string \<Rightarrow> datetime \<Rightarrow> ledger \<Rightarrow> (bool \<times> position_receipt) result \<times> ledger" where
  "save_position_close sha_position sha_covered c sha accepted_at l =
     (if sha \<noteq> sha_position c then (Inl (ValueError ''content_sha256 does not match the canonical position close''), l)
      else case load_accepted_position_close_receipt (pc_run_id c) l of
        Inl e \<Rightarrow> (Inl e, l)
      | Inr (Some existing) \<Rightarrow> (bnd (resolve_position_replay sha_position existing c) (\<lambda>r. Inr (False, r)), l)
      | Inr None \<Rightarrow>
          (case require_committed_covered_chunks sha_covered c l of
             Inl e \<Rightarrow> (Inl e, l)
           | Inr u \<Rightarrow> (case insert_position (row_of_position c sha accepted_at) l of
               (None, l') \<Rightarrow>
                 (bnd (load_accepted_position_close_receipt (pc_run_id c) l') (\<lambda>concurrent. case concurrent of
                    None \<Rightarrow> Inl (ValueError ''position close conflicts with an unavailable ledger record'')
                  | Some existing \<Rightarrow> bnd (resolve_position_replay sha_position existing c) (\<lambda>r. Inr (False, r))), l')
             | (Some entry_id, l') \<Rightarrow>
                 (bnd (position_receipt_of (pc_run_id c) (pc_close_id c) (pc_partition c) sha entry_id accepted_at)
                    (\<lambda>r. Inr (True, r)), l'))))"

end
