(* ===== verification/StreamIngress.thy ===== *)
theory StreamIngress
  imports StreamLedger
begin

text \<open>
  \<open>pipeline/r1_stream_ingress.py\<close>, the acceptance of \<open>pipeline/r1_record_position_finality.py\<close> and
  the consumption of the spool in \<open>pipeline/r1_stream_wiring.py\<close>. The digests of the messages are
  parameters (\<open>stream_digests\<close>), the dead-letter sink is an argument of the ingress, as in the
  code. A call is wrapped in the transaction of the worker, which keeps the ledger of a call that
  returned and restores it when the call raised; the dead-letter files are not undone.
\<close>

section \<open>Digests and clock\<close>

record stream_digests =
  sd_chunk :: "event_chunk \<Rightarrow> string"
  sd_event :: "normalized_event \<Rightarrow> string"
  sd_watermark :: "source_watermark \<Rightarrow> string"
  sd_closed :: "run_closed \<Rightarrow> string"
  sd_position :: "position_close \<Rightarrow> string"
  sd_covered :: "(int \<times> string \<times> string) list \<Rightarrow> string"
  sd_contract :: "partition_contract \<Rightarrow> string"

text \<open>The digest of a chunk leaves its own digest field out.\<close>

definition chunk_sha :: "stream_digests \<Rightarrow> event_chunk \<Rightarrow> string" where
  "chunk_sha sd c = sd_chunk sd (c\<lparr>ck_sha := []\<rparr>)"

definition utc_milliseconds :: "datetime \<Rightarrow> datetime result" where
  "utc_milliseconds v =
     seq (raise_if (utcoffset v = None) (ValueError ''clock must return a timezone-aware datetime''))
     (let u = astimezone_utc v in Inr (u\<lparr>wall := wall u - microsecond u + microsecond v div 1000 * 1000\<rparr>))"

section \<open>The ingress\<close>

datatype disposition = Accepted | Duplicate

record delivery_result =
  res_disposition :: disposition
  res_new_event_ids :: "string list"

definition delivery_result_of :: "bool \<Rightarrow> string list \<Rightarrow> delivery_result" where
  "delivery_result_of accepted new_event_ids =
     \<lparr>res_disposition = (if accepted then Accepted else Duplicate), res_new_event_ids = new_event_ids\<rparr>"

record 'l stream_state =
  si_ledger :: 'l
  si_dead_letters :: "dead_letter list"

type_synonym dead_letter_sink = "dead_letter \<Rightarrow> dead_letter list \<Rightarrow> dead_letter list result"

definition violating_event_ids :: "event_chunk \<Rightarrow> string list \<Rightarrow> accepted_watermark \<Rightarrow> string list" where
  "violating_event_ids c new_event_ids w = map ev_event_id
     (filter (\<lambda>e. ev_event_id e \<in> set new_event_ids \<and> instant (ev_timestamp e) \<le> instant (aw_at w)) (ck_events c))"

definition reject_late_events :: "dead_letter_sink \<Rightarrow> datetime \<Rightarrow> event_chunk \<Rightarrow> string list
    \<Rightarrow> accepted_watermark option \<Rightarrow> dead_letter list \<Rightarrow> unit result \<times> dead_letter list" where
  "reject_late_events sink now c new_event_ids latest dead = (case latest of
     None \<Rightarrow> (Inr (), dead)
   | Some w \<Rightarrow>
       if violating_event_ids c new_event_ids w = [] then (Inr (), dead)
       else case bnd (utc_milliseconds now) (\<lambda>rejected_at. bnd (validate_dead_letter
           \<lparr>dl_chunk_id = ck_chunk_id c, dl_partition = ck_partition c, dl_watermark_id = aw_id w,
            dl_watermark_at = aw_at w, dl_event_ids = violating_event_ids c new_event_ids w,
            dl_rejected_at = rejected_at\<rparr>) (\<lambda>d. sink d dead)) of
         Inl e \<Rightarrow> (Inl e, dead)
       | Inr dead' \<Rightarrow> (Inl (LateStreamEventError (ck_chunk_id c)), dead'))"

definition event_shas :: "stream_digests \<Rightarrow> event_chunk \<Rightarrow> (string \<times> string) list" where
  "event_shas sd c = map (\<lambda>e. (ev_event_id e, sd_event sd e)) (ck_events c)"

definition event_record_ids :: "event_chunk \<Rightarrow> (string \<times> string option) list" where
  "event_record_ids c = map (\<lambda>e. (ev_event_id e, rl_source_record_id (ev_raw_ref e))) (ck_events c)"

type_synonym 'l inspect_op = "stream_partition \<Rightarrow> string \<Rightarrow> int \<Rightarrow> string \<Rightarrow> (string \<times> string) list
  \<Rightarrow> (string \<times> string option) list \<Rightarrow> 'l \<Rightarrow> chunk_admission result"
type_synonym 'l save_events_op = "stream_partition \<Rightarrow> (string \<times> string) list \<Rightarrow> 'l \<Rightarrow> string list result \<times> 'l"
type_synonym 'l save_chunk_op = "stream_partition \<Rightarrow> string \<Rightarrow> int \<Rightarrow> string \<Rightarrow> 'l \<Rightarrow> bool result \<times> 'l"

text \<open>\<open>accept_chunk\<close> over the three operations of the ledger it calls.\<close>

definition accept_chunk_with :: "'l inspect_op \<Rightarrow> 'l save_events_op \<Rightarrow> 'l save_chunk_op \<Rightarrow> dead_letter_sink
    \<Rightarrow> stream_digests \<Rightarrow> datetime \<Rightarrow> event_chunk \<Rightarrow> 'l stream_state \<Rightarrow> delivery_result result \<times> 'l stream_state" where
  "accept_chunk_with inspect store_events store_chunk sink sd now c st =
     (let sha = chunk_sha sd c; p = ck_partition c; l = si_ledger st in
      if sha \<noteq> ck_sha c then (Inl (ValueError ''chunk_content_sha256 does not match the canonical chunk payload''), st)
      else case inspect p (ck_chunk_id c) (ck_sequence c) sha (event_shas sd c) (event_record_ids c) l of
        Inl e \<Rightarrow> (Inl e, st)
      | Inr adm \<Rightarrow>
          if adm_replay adm then (Inr (delivery_result_of False []), st)
          else case reject_late_events sink now c (adm_new_event_ids adm) (adm_watermark adm) (si_dead_letters st) of
            (Inl e, dead) \<Rightarrow> (Inl e, st\<lparr>si_dead_letters := dead\<rparr>)
          | (Inr u, dead) \<Rightarrow> (case store_events p (event_shas sd c) l of
              (Inl e, l') \<Rightarrow> (Inl e, st\<lparr>si_ledger := l'\<rparr>)
            | (Inr ids, l') \<Rightarrow> (case store_chunk p (ck_chunk_id c) (ck_sequence c) sha l' of
                (r, l'') \<Rightarrow> (bnd r (\<lambda>accepted. Inr (delivery_result_of accepted ids)), st\<lparr>si_ledger := l''\<rparr>))))"

definition accept_chunk :: "dead_letter_sink \<Rightarrow> stream_digests \<Rightarrow> datetime \<Rightarrow> event_chunk \<Rightarrow> ledger stream_state
    \<Rightarrow> delivery_result result \<times> ledger stream_state" where
  "accept_chunk = accept_chunk_with inspect_chunk_admission save_events save_chunk"

definition accept_watermark :: "stream_digests \<Rightarrow> source_watermark \<Rightarrow> ledger stream_state
    \<Rightarrow> delivery_result result \<times> ledger stream_state" where
  "accept_watermark sd w st = (case save_watermark w (sd_watermark sd w) (si_ledger st) of
     (r, l') \<Rightarrow> (bnd r (\<lambda>accepted. Inr (delivery_result_of accepted [])), st\<lparr>si_ledger := l'\<rparr>))"

definition accept_run_closed :: "stream_digests \<Rightarrow> run_closed \<Rightarrow> ledger stream_state
    \<Rightarrow> delivery_result result \<times> ledger stream_state" where
  "accept_run_closed sd c st = (case assert_final_watermarks_match (cl_finals c) (si_ledger st) of
     Inl e \<Rightarrow> (Inl e, st)
   | Inr u \<Rightarrow> (case save_run_close (cl_run_id c) (cl_close_id c) (sd_closed sd c) (si_ledger st) of
       (r, l') \<Rightarrow> (bnd r (\<lambda>accepted. Inr (delivery_result_of accepted [])), st\<lparr>si_ledger := l'\<rparr>)))"

section \<open>Acceptance of a position close\<close>

definition require_contract_binding :: "stream_digests \<Rightarrow> position_close \<Rightarrow> partition_contract \<Rightarrow> unit result" where
  "require_contract_binding sd c contract = raise_first
     [(rq_target_host contract \<noteq> pt_host_id (pc_partition c), ValueError ''position close host does not match the contract''),
      (rq_partitions contract \<noteq> [(pt_source (pc_partition c), pt_channel (pc_partition c))],
         ValueError ''position close partition does not cover the required partitions''),
      (pc_contract_sha c \<noteq> sd_contract sd contract, ValueError ''position close was issued for another contract'')]"

definition accept_position_close :: "stream_digests \<Rightarrow> partition_contract \<Rightarrow> datetime \<Rightarrow> position_close
    \<Rightarrow> ledger stream_state \<Rightarrow> (bool \<times> position_receipt) result \<times> ledger stream_state" where
  "accept_position_close sd contract now c st =
     (case seq (require_contract_binding sd c contract) (utc_milliseconds now) of
        Inl e \<Rightarrow> (Inl e, st)
      | Inr accepted_at \<Rightarrow>
          (case save_position_close (sd_position sd) (sd_covered sd) c (sd_position sd c) accepted_at (si_ledger st) of
             (r, l') \<Rightarrow> (r, st\<lparr>si_ledger := l'\<rparr>)))"

section \<open>Transactions\<close>

definition transaction :: "('l stream_state \<Rightarrow> 'a result \<times> 'l stream_state) \<Rightarrow> 'l stream_state \<Rightarrow> 'a result \<times> 'l stream_state" where
  "transaction call st = (case call st of
     (Inr x, st') \<Rightarrow> (Inr x, st')
   | (Inl e, st') \<Rightarrow> (Inl e, st'\<lparr>si_ledger := si_ledger st\<rparr>))"

datatype stream_message = ChunkMessage event_chunk | WatermarkMessage source_watermark | ClosedMessage run_closed

definition require_partition :: "partition_contract \<Rightarrow> stream_partition \<Rightarrow> unit result" where
  "require_partition contract p = raise_first
     [(pt_host_id p \<noteq> rq_target_host contract, ValueError ''stream partition host_id does not match required-partition contract''),
      ((pt_source p, pt_channel p) \<notin> set (rq_partitions contract), ValueError ''stream partition is not required by the contract'')]"

definition require_close_partitions :: "partition_contract \<Rightarrow> run_closed \<Rightarrow> unit result" where
  "require_close_partitions contract c = raise_if
     (set (map (\<lambda>f. (pt_host_id (fw_partition f), pt_source (fw_partition f), pt_channel (fw_partition f))) (cl_finals c))
        \<noteq> set (map (\<lambda>(s, ch). (rq_target_host contract, s, ch)) (rq_partitions contract)))
     (ValueError ''run_closed does not exactly cover required partitions'')"

text \<open>The dead-letter file of a chunk is never replaced.\<close>

definition file_sink :: dead_letter_sink where
  "file_sink d dead = (case find (\<lambda>x. dl_chunk_id x = dl_chunk_id d) dead of
     None \<Rightarrow> Inr (dead @ [d])
   | Some x \<Rightarrow> if x = d then Inr dead else Inl (ValueError ''immutable spool path conflicts with existing content''))"

definition accept_message :: "string set \<Rightarrow> dead_letter_sink \<Rightarrow> stream_digests \<Rightarrow> partition_contract \<Rightarrow> datetime
    \<Rightarrow> stream_message \<Rightarrow> ledger stream_state \<Rightarrow> delivery_result result \<times> ledger stream_state" where
  "accept_message event_types sink sd contract now m st = (case m of
     ChunkMessage c \<Rightarrow>
       (case bnd (validate_event_chunk event_types c) (\<lambda>c. seq (require_partition contract (ck_partition c)) (Inr c)) of
          Inl e \<Rightarrow> (Inl e, st) | Inr c \<Rightarrow> accept_chunk sink sd now c st)
   | WatermarkMessage w \<Rightarrow>
       (case bnd (validate_source_watermark w) (\<lambda>w. seq (require_partition contract (wm_partition w)) (Inr w)) of
          Inl e \<Rightarrow> (Inl e, st) | Inr w \<Rightarrow> accept_watermark sd w st)
   | ClosedMessage c \<Rightarrow>
       (case bnd (validate_run_closed c) (\<lambda>c. seq (require_close_partitions contract c) (Inr c)) of
          Inl e \<Rightarrow> (Inl e, st) | Inr c \<Rightarrow> accept_run_closed sd c st))"

section \<open>The spool\<close>

record 'l spool_state =
  so_stream :: "'l stream_state"
  so_acks :: "string \<rightharpoonup> disposition"

text \<open>
  One pass over the outbox in publication order: files with an ack are skipped, an accepted file is
  acknowledged after the commit, and the first file that raises ends the pass. \<open>now\<close> is what the
  clock reads while a file is handled.
\<close>

fun consume_spool_once :: "string set \<Rightarrow> stream_digests \<Rightarrow> partition_contract \<Rightarrow> (string \<Rightarrow> datetime)
    \<Rightarrow> (string \<times> stream_message) list \<Rightarrow> ledger spool_state \<Rightarrow> string list result \<times> ledger spool_state" where
  "consume_spool_once event_types sd contract now [] s = (Inr [], s)"
| "consume_spool_once event_types sd contract now ((path, m) # files) s =
     (if so_acks s path \<noteq> None then consume_spool_once event_types sd contract now files s
      else case transaction (accept_message event_types file_sink sd contract (now path) m) (so_stream s) of
        (Inl e, st) \<Rightarrow> (Inl e, s\<lparr>so_stream := st\<rparr>)
      | (Inr res, st) \<Rightarrow>
          (case utc_milliseconds (now path) of
             Inl e \<Rightarrow> (Inl e, s\<lparr>so_stream := st\<rparr>)
           | Inr accepted_at \<Rightarrow>
               (case consume_spool_once event_types sd contract now files
                  (s\<lparr>so_stream := st, so_acks := (so_acks s)(path \<mapsto> res_disposition res)\<rparr>) of
                  (r, s') \<Rightarrow> (bnd r (\<lambda>paths. Inr (path # paths)), s'))))"

end
