(* ===== verification/LedgerFacts.thy ===== *)
theory LedgerFacts
  imports StreamIngress
begin

text \<open>
  The ledger as an abstract transition system. \<open>ledger_wf\<close> is what the tables keep: unique keys,
  rows that read back, and watermarks that only advance. \<open>ledger_step\<close> is the abstract
  specification: a table only ever grows by one accepted message under its guard. Every operation
  of the ledger is characterised by the rows that are there.
\<close>

section \<open>Keys\<close>

lemma find_key:
  assumes "distinct (map key xs)" "\<And>r. P r \<longleftrightarrow> key r = k"
  shows "find P xs = Some r \<longleftrightarrow> r \<in> set xs \<and> key r = k"
  using assms(1)
proof (induction xs)
  case Nil
  then show ?case by simp
next
  case (Cons x xs)
  show ?case
  proof (cases "key x = k")
    case True
    with Cons.prems have "key r \<noteq> k" if "r \<in> set xs" using that by (auto simp: image_iff)
    with True show ?thesis using assms(2) by auto
  next
    case False
    with Cons show ?thesis using assms(2) by auto
  qed
qed

lemma find_no_key: "(\<And>r. P r \<longleftrightarrow> key r = k) \<Longrightarrow> find P xs = None \<longleftrightarrow> k \<notin> key ` set xs"
  by (auto simp: find_None_iff)

abbreviation chunk_key :: "chunk_row \<Rightarrow> stream_partition \<times> string" where
  "chunk_key r \<equiv> (cr_partition r, cr_id r)"
abbreviation chunk_slot :: "chunk_row \<Rightarrow> stream_partition \<times> int" where
  "chunk_slot r \<equiv> (cr_partition r, cr_sequence r)"
abbreviation event_key :: "event_row \<Rightarrow> stream_partition \<times> string" where
  "event_key r \<equiv> (er_partition r, er_id r)"
abbreviation watermark_key :: "watermark_row \<Rightarrow> stream_partition \<times> string" where
  "watermark_key r \<equiv> (wr_partition r, wr_id r)"
abbreviation position_run :: "position_row \<Rightarrow> string" where
  "position_run r \<equiv> pt_run_id (pr_partition r)"

definition digest_ok :: "string \<Rightarrow> bool" where
  "digest_ok s \<longleftrightarrow> length s = 64"

definition advances :: "watermark_row \<Rightarrow> watermark_row \<Rightarrow> bool" where
  "advances a b \<longleftrightarrow> wr_sequence a < wr_sequence b \<and> instant (wr_at a) \<le> instant (wr_at b) \<and> wr_lateness a = wr_lateness b"

definition watermarks_of :: "ledger \<Rightarrow> stream_partition \<Rightarrow> watermark_row list" where
  "watermarks_of l p = filter (\<lambda>r. wr_partition r = p) (lg_watermarks l)"

definition chunks_wf :: "chunk_row list \<Rightarrow> bool" where
  "chunks_wf rs \<longleftrightarrow> distinct (map chunk_key rs) \<and> distinct (map chunk_slot rs)
     \<and> (\<forall>r \<in> set rs. \<not> blank (cr_id r) \<and> digest_ok (cr_sha r) \<and> 1 \<le> cr_sequence r)"

definition events_wf :: "event_row list \<Rightarrow> bool" where
  "events_wf rs \<longleftrightarrow> distinct (map event_key rs) \<and> (\<forall>r \<in> set rs. \<not> blank (er_id r) \<and> digest_ok (er_sha r))"

definition watermarks_wf :: "watermark_row list \<Rightarrow> bool" where
  "watermarks_wf rs \<longleftrightarrow> distinct (map watermark_key rs)
     \<and> (\<forall>p. sorted_wrt advances (filter (\<lambda>r. wr_partition r = p) rs))
     \<and> (\<forall>r \<in> set rs. \<not> blank (wr_id r) \<and> digest_ok (wr_sha r) \<and> 1 \<le> wr_sequence r \<and> 1 \<le> wr_covered r)"

definition closes_wf :: "close_row list \<Rightarrow> bool" where
  "closes_wf rs \<longleftrightarrow> distinct (map xr_run_id rs) \<and> (\<forall>r \<in> set rs. \<not> blank (xr_close_id r) \<and> digest_ok (xr_sha r))"

definition positions_wf :: "position_row list \<Rightarrow> bool" where
  "positions_wf rs \<longleftrightarrow> distinct (map position_run rs)
     \<and> (\<forall>r \<in> set rs. 1 \<le> pr_lower r \<and> pr_lower r \<le> pr_upper r)"

definition ledger_wf :: "ledger \<Rightarrow> bool" where
  "ledger_wf l \<longleftrightarrow> chunks_wf (lg_chunks l) \<and> events_wf (lg_events l) \<and> watermarks_wf (lg_watermarks l)
     \<and> closes_wf (lg_closes l) \<and> positions_wf (lg_positions l)"

lemma empty_ledger_wf: "ledger_wf empty_ledger"
  by (simp add: ledger_wf_def empty_ledger_def chunks_wf_def events_wf_def watermarks_wf_def closes_wf_def positions_wf_def)

section \<open>Queries on a well-formed ledger\<close>

lemma select_chunk_by_id_iff:
  "ledger_wf l \<Longrightarrow> select_chunk_by_id l p i = Some r \<longleftrightarrow> r \<in> set (lg_chunks l) \<and> cr_partition r = p \<and> cr_id r = i"
  unfolding select_chunk_by_id_def
  by (subst find_key [where key = chunk_key and k = "(p, i)"]) (auto simp: ledger_wf_def chunks_wf_def)

lemma select_chunk_by_sequence_iff:
  "ledger_wf l \<Longrightarrow> select_chunk_by_sequence l p n = Some r \<longleftrightarrow> r \<in> set (lg_chunks l) \<and> cr_partition r = p \<and> cr_sequence r = n"
  unfolding select_chunk_by_sequence_def
  by (subst find_key [where key = chunk_slot and k = "(p, n)"]) (auto simp: ledger_wf_def chunks_wf_def)

lemma select_event_by_id_iff:
  "ledger_wf l \<Longrightarrow> select_event_by_id l p i = Some r \<longleftrightarrow> r \<in> set (lg_events l) \<and> er_partition r = p \<and> er_id r = i"
  unfolding select_event_by_id_def
  by (subst find_key [where key = event_key and k = "(p, i)"]) (auto simp: ledger_wf_def events_wf_def)

lemma select_watermark_by_id_iff:
  "ledger_wf l \<Longrightarrow> select_watermark_by_id l p i = Some r \<longleftrightarrow> r \<in> set (lg_watermarks l) \<and> wr_partition r = p \<and> wr_id r = i"
  unfolding select_watermark_by_id_def
  by (subst find_key [where key = watermark_key and k = "(p, i)"]) (auto simp: ledger_wf_def watermarks_wf_def)

lemma select_close_by_run_iff:
  "ledger_wf l \<Longrightarrow> select_close_by_run l run_id = Some r \<longleftrightarrow> r \<in> set (lg_closes l) \<and> xr_run_id r = run_id"
  unfolding select_close_by_run_def
  by (subst find_key [where key = xr_run_id and k = run_id]) (auto simp: ledger_wf_def closes_wf_def)

lemma select_position_close_iff:
  "ledger_wf l \<Longrightarrow> select_position_close l run_id = Some r \<longleftrightarrow> r \<in> set (lg_positions l) \<and> position_run r = run_id"
  unfolding select_position_close_def
  by (subst find_key [where key = position_run and k = run_id]) (auto simp: ledger_wf_def positions_wf_def)

lemma select_close_by_id_iff:
  "select_close_by_id l run_id i = None \<longleftrightarrow> (\<forall>r \<in> set (lg_closes l). xr_run_id r = run_id \<longrightarrow> xr_close_id r \<noteq> i)"
  by (auto simp: select_close_by_id_def find_None_iff)

lemma find_SomeD: "find P xs = Some x \<Longrightarrow> x \<in> set xs \<and> P x"
  by (auto simp: find_Some_iff)

lemmas select_iffs = select_chunk_by_id_iff select_chunk_by_sequence_iff select_event_by_id_iff
  select_watermark_by_id_iff select_close_by_run_iff select_position_close_iff

text \<open>Rows that were written read back.\<close>

lemma chunk_delivery_ok:
  assumes "ledger_wf l" "\<And>r. sel = Some r \<Longrightarrow> r \<in> set (lg_chunks l)"
  shows "chunk_delivery sel = Inr (map_option (\<lambda>r. \<lparr>dv_identity = cr_id r, dv_sequence = Some (cr_sequence r), dv_sha = cr_sha r\<rparr>) sel)"
  using assms by (cases sel) (auto simp: chunk_delivery_def row_to_delivery_def ledger_wf_def chunks_wf_def digest_ok_def not_less)

lemma event_delivery_ok:
  assumes "ledger_wf l" "\<And>r. sel = Some r \<Longrightarrow> r \<in> set (lg_events l)"
  shows "event_delivery sel = Inr (map_option (\<lambda>r. \<lparr>dv_identity = er_id r, dv_sequence = None, dv_sha = er_sha r\<rparr>) sel)"
  using assms by (cases sel) (auto simp: event_delivery_def row_to_delivery_def ledger_wf_def events_wf_def digest_ok_def)

lemma watermark_delivery_ok:
  assumes "ledger_wf l" "\<And>r. sel = Some r \<Longrightarrow> r \<in> set (lg_watermarks l)"
  shows "watermark_delivery sel = Inr (map_option (\<lambda>r. \<lparr>dv_identity = wr_id r, dv_sequence = Some (wr_sequence r), dv_sha = wr_sha r\<rparr>) sel)"
  using assms by (cases sel) (auto simp: watermark_delivery_def row_to_delivery_def ledger_wf_def watermarks_wf_def digest_ok_def not_less)

lemma close_delivery_ok:
  assumes "ledger_wf l" "\<And>r. sel = Some r \<Longrightarrow> r \<in> set (lg_closes l)"
  shows "close_delivery sel = Inr (map_option (\<lambda>r. \<lparr>dv_identity = xr_close_id r, dv_sequence = None, dv_sha = xr_sha r\<rparr>) sel)"
  using assms by (cases sel) (auto simp: close_delivery_def row_to_delivery_def ledger_wf_def closes_wf_def digest_ok_def)

definition binding_of :: "watermark_row \<Rightarrow> accepted_watermark" where
  "binding_of r = \<lparr>aw_id = wr_id r, aw_sequence = wr_sequence r, aw_at = wr_at r,
     aw_lateness = wr_lateness r, aw_covered = wr_covered r\<rparr>"

section \<open>The latest watermark\<close>

lemma latest_of_advancing:
  assumes "sorted_wrt advances (w # ws)"
  shows "min_key (\<lambda>r. - wr_sequence r) w ws = last (w # ws)"
  using assms
proof (induction ws arbitrary: w)
  case Nil
  then show ?case by simp
next
  case (Cons v vs)
  then have "wr_sequence w < wr_sequence v" by (simp add: advances_def)
  with Cons show ?case by simp
qed

lemma select_latest_watermark_eq:
  assumes "ledger_wf l"
  shows "select_latest_watermark l p = (if watermarks_of l p = [] then None else Some (last (watermarks_of l p)))"
proof -
  have "sorted_wrt advances (watermarks_of l p)"
    using assms by (simp add: ledger_wf_def watermarks_wf_def watermarks_of_def)
  then show ?thesis
    unfolding select_latest_watermark_def watermarks_of_def [symmetric]
    by (cases "watermarks_of l p") (simp_all add: latest_of_advancing)
qed

lemma watermarks_of_set [simp]: "r \<in> set (watermarks_of l p) \<longleftrightarrow> r \<in> set (lg_watermarks l) \<and> wr_partition r = p"
  by (auto simp: watermarks_of_def)

lemma latest_watermark_in:
  assumes "ledger_wf l" "select_latest_watermark l p = Some r"
  shows "r \<in> set (lg_watermarks l) \<and> wr_partition r = p"
proof -
  have "watermarks_of l p \<noteq> []" "r = last (watermarks_of l p)"
    using assms by (auto simp: select_latest_watermark_eq split: if_splits)
  then have "r \<in> set (watermarks_of l p)" by (metis last_in_set)
  then show ?thesis by simp
qed

lemma accepted_watermark_ok:
  assumes "ledger_wf l"
  shows "accepted_watermark_from_row (select_latest_watermark l p) = Inr (map_option binding_of (select_latest_watermark l p))"
proof (cases "select_latest_watermark l p")
  case (Some r)
  with latest_watermark_in [OF assms Some] assms show ?thesis
    by (auto simp: accepted_watermark_from_row_def binding_of_def ledger_wf_def watermarks_wf_def not_less)
qed (simp add: accepted_watermark_from_row_def)

section \<open>Growing tables\<close>

lemma advances_trans: "advances a b \<Longrightarrow> advances b c \<Longrightarrow> advances a c"
  by (auto simp: advances_def)

lemma sorted_wrt_snoc_last:
  assumes "\<And>a b c. R a b \<Longrightarrow> R b c \<Longrightarrow> R a c" "sorted_wrt R xs" "xs \<noteq> [] \<Longrightarrow> R (last xs) x"
  shows "sorted_wrt R (xs @ [x])"
  using assms(2,3)
proof (induction xs)
  case Nil
  then show ?case by simp
next
  case (Cons a xs)
  show ?case
  proof (cases "xs = []")
    case True
    with Cons show ?thesis by simp
  next
    case False
    with Cons have "R a (last xs)" "R (last xs) x" by auto
    then have "R a x" by (rule assms(1))
    with Cons False show ?thesis by auto
  qed
qed

lemma chunks_wf_snoc:
  assumes "chunks_wf rs" "chunk_key r \<notin> chunk_key ` set rs" "chunk_slot r \<notin> chunk_slot ` set rs"
    "\<not> blank (cr_id r)" "digest_ok (cr_sha r)" "1 \<le> cr_sequence r"
  shows "chunks_wf (rs @ [r])"
  using assms by (auto simp: chunks_wf_def)

lemma images_disjoint: "(\<And>x. x \<in> A \<Longrightarrow> f x \<notin> f ` B) \<Longrightarrow> f ` B \<inter> f ` A = {}"
  by (simp only: disjoint_iff) (metis imageE)

lemma events_wf_append:
  assumes "events_wf rs" "distinct (map event_key rs')" "\<forall>r \<in> set rs'. event_key r \<notin> event_key ` set rs"
    "\<forall>r \<in> set rs'. \<not> blank (er_id r) \<and> digest_ok (er_sha r)"
  shows "events_wf (rs @ rs')"
proof -
  have "event_key ` set rs \<inter> event_key ` set rs' = {}" by (rule images_disjoint) (rule bspec [OF assms(3)])
  moreover have old: "distinct (map event_key rs)" "\<forall>r \<in> set rs. \<not> blank (er_id r) \<and> digest_ok (er_sha r)"
    using assms(1) by (simp_all add: events_wf_def)
  ultimately have "distinct (map event_key (rs @ rs'))"
    unfolding map_append distinct_append set_map using assms(2) by simp
  with old assms(4) show ?thesis by (simp only: events_wf_def set_append ball_Un simp_thms)
qed

lemma watermarks_wf_snoc:
  assumes wf: "watermarks_wf rs" and key: "watermark_key r \<notin> watermark_key ` set rs"
    and adv: "filter (\<lambda>q. wr_partition q = wr_partition r) rs \<noteq> [] \<Longrightarrow> advances (last (filter (\<lambda>q. wr_partition q = wr_partition r) rs)) r"
    and row: "\<not> blank (wr_id r)" "digest_ok (wr_sha r)" "1 \<le> wr_sequence r" "1 \<le> wr_covered r"
  shows "watermarks_wf (rs @ [r])"
proof -
  have "sorted_wrt advances (filter (\<lambda>q. wr_partition q = p) (rs @ [r]))" for p
  proof (cases "wr_partition r = p")
    case True
    with wf adv show ?thesis
      by (simp add: watermarks_wf_def) (intro sorted_wrt_snoc_last [of advances], auto intro: advances_trans)
  next
    case False
    with wf show ?thesis by (simp add: watermarks_wf_def)
  qed
  with wf key row show ?thesis by (auto simp: watermarks_wf_def)
qed

section \<open>Accepting a chunk\<close>

definition run_is_closed :: "ledger \<Rightarrow> string \<Rightarrow> bool" where
  "run_is_closed l run_id \<longleftrightarrow> (\<exists>r \<in> set (lg_closes l). xr_run_id r = run_id)"

lemma select_close_exists_iff [simp]: "select_close_exists l run_id \<longleftrightarrow> run_is_closed l run_id"
  by (auto simp: select_close_exists_def run_is_closed_def)

definition chunk_recorded :: "ledger \<Rightarrow> stream_partition \<Rightarrow> string \<Rightarrow> int \<Rightarrow> string \<Rightarrow> bool" where
  "chunk_recorded l p i n sha \<longleftrightarrow> \<lparr>cr_partition = p, cr_id = i, cr_sequence = n, cr_sha = sha\<rparr> \<in> set (lg_chunks l)"

definition chunk_fresh :: "ledger \<Rightarrow> stream_partition \<Rightarrow> string \<Rightarrow> int \<Rightarrow> bool" where
  "chunk_fresh l p i n \<longleftrightarrow> (\<forall>r \<in> set (lg_chunks l). cr_partition r = p \<longrightarrow> cr_id r \<noteq> i \<and> cr_sequence r \<noteq> n)"

definition event_stored :: "ledger \<Rightarrow> stream_partition \<Rightarrow> string \<Rightarrow> bool" where
  "event_stored l p i \<longleftrightarrow> (p, i) \<in> event_key ` set (lg_events l)"

text \<open>No stored event of these identities has another digest.\<close>

definition events_agree :: "ledger \<Rightarrow> stream_partition \<Rightarrow> (string \<times> string) list \<Rightarrow> bool" where
  "events_agree l p shas \<longleftrightarrow> (\<forall>(i, sha) \<in> set shas. \<forall>r \<in> set (lg_events l). event_key r = (p, i) \<longrightarrow> er_sha r = sha)"

definition new_shas :: "ledger \<Rightarrow> stream_partition \<Rightarrow> (string \<times> string) list \<Rightarrow> (string \<times> string) list" where
  "new_shas l p shas = filter (\<lambda>(i, sha). \<not> event_stored l p i) shas"

definition event_rows :: "stream_partition \<Rightarrow> (string \<times> string) list \<Rightarrow> event_row list" where
  "event_rows p shas = map (\<lambda>(i, sha). \<lparr>er_partition = p, er_id = i, er_sha = sha\<rparr>) shas"

lemma classify_events_ok:
  assumes "ledger_wf l"
  shows "classify_events l p shas = Inr ids \<longleftrightarrow> events_agree l p shas \<and> ids = map fst (new_shas l p shas)"
proof (induction shas arbitrary: ids)
  case Nil
  then show ?case by (auto simp: events_agree_def new_shas_def)
next
  case (Cons x shas)
  obtain i sha where x: "x = (i, sha)" by fastforce
  note sel = select_event_by_id_iff [OF assms]
  have del: "event_delivery (select_event_by_id l p i) = Inr (map_option (\<lambda>r. \<lparr>dv_identity = er_id r, dv_sequence = None, dv_sha = er_sha r\<rparr>) (select_event_by_id l p i))"
    using assms by (rule event_delivery_ok) (simp add: sel)
  show ?case
  proof (cases "select_event_by_id l p i")
    case None
    then have new: "\<not> event_stored l p i" using sel [of p i] by (force simp: event_stored_def)
    then have "\<forall>r \<in> set (lg_events l). event_key r \<noteq> (p, i)" by (force simp: event_stored_def)
    with None new Cons x del show ?thesis by (auto simp: events_agree_def new_shas_def)
  next
    case (Some r)
    then have r: "r \<in> set (lg_events l)" "er_partition r = p" "er_id r = i" using sel by auto
    then have old: "event_stored l p i" by (force simp: event_stored_def)
    have "(\<forall>q \<in> set (lg_events l). event_key q = (p, i) \<longrightarrow> er_sha q = sha) \<longleftrightarrow> er_sha r = sha"
      using r sel [of p i] Some by (metis option.inject prod.inject)
    with Some old Cons x del show ?thesis by (auto simp: events_agree_def new_shas_def same_delivery_def)
  qed
qed

definition shas_ok :: "(string \<times> string) list \<Rightarrow> bool" where
  "shas_ok shas \<longleftrightarrow> distinct (map fst shas) \<and> (\<forall>(i, sha) \<in> set shas. \<not> blank i \<and> digest_ok sha)"

lemma event_rows_wf:
  assumes "ledger_wf l" "shas_ok shas"
  shows "events_wf (lg_events l @ event_rows p (new_shas l p shas))"
proof (rule events_wf_append)
  show "events_wf (lg_events l)" using assms(1) by (simp add: ledger_wf_def)
  have "map event_key (event_rows p (new_shas l p shas)) = map (Pair p) (map fst (new_shas l p shas))"
    by (auto simp: event_rows_def)
  moreover have "distinct (map fst (new_shas l p shas))"
    using assms(2) by (auto simp: shas_ok_def new_shas_def intro: distinct_map_filter)
  ultimately show "distinct (map event_key (event_rows p (new_shas l p shas)))"
    by (simp only: distinct_map) (simp add: inj_on_def)
  show "\<forall>r \<in> set (event_rows p (new_shas l p shas)). event_key r \<notin> event_key ` set (lg_events l)"
    by (auto simp: event_rows_def new_shas_def event_stored_def)
  show "\<forall>r \<in> set (event_rows p (new_shas l p shas)). \<not> blank (er_id r) \<and> digest_ok (er_sha r)"
    using assms(2) by (auto simp: event_rows_def new_shas_def shas_ok_def)
qed

lemma save_event_rows_eq:
  assumes "ledger_wf l" "shas_ok shas" "events_agree l p shas"
  shows "save_event_rows p shas l = (Inr (map fst (new_shas l p shas)),
    l\<lparr>lg_events := lg_events l @ event_rows p (new_shas l p shas)\<rparr>)"
  using assms
proof (induction shas arbitrary: l)
  case Nil
  then show ?case by (simp add: new_shas_def event_rows_def)
next
  case (Cons x shas)
  obtain i sha where x: "x = (i, sha)" by fastforce
  have ok: "shas_ok shas" "shas_ok [x]" and i: "i \<notin> fst ` set shas"
    using Cons.prems(2) x by (auto simp: shas_ok_def)
  show ?case
  proof (cases "event_stored l p i")
    case True
    then obtain r where r: "r \<in> set (lg_events l)" "er_partition r = p" "er_id r = i"
      by (auto simp: event_stored_def)
    have sel: "select_event_by_id l p i = Some r" using r select_event_by_id_iff [OF Cons.prems(1)] by simp
    have "event_delivery (Some r) = Inr (Some \<lparr>dv_identity = er_id r, dv_sequence = None, dv_sha = er_sha r\<rparr>)"
      using event_delivery_ok [OF Cons.prems(1), of "Some r"] r by simp
    moreover have "er_sha r = sha" using Cons.prems(3) x r by (auto simp: events_agree_def)
    moreover have "events_agree l p shas" using Cons.prems(3) by (auto simp: events_agree_def)
    moreover have "\<exists>q \<in> set (lg_events l). er_partition q = p \<and> er_id q = i" using r by blast
    ultimately show ?thesis
      using Cons.IH [OF Cons.prems(1) ok(1)] True x sel
      by (simp add: insert_event_def same_delivery_def new_shas_def)
  next
    case False
    let ?r = "\<lparr>er_partition = p, er_id = i, er_sha = sha\<rparr>"
    let ?l = "l\<lparr>lg_events := lg_events l @ [?r]\<rparr>"
    have new: "new_shas l p [x] = [x]" using False x by (simp add: new_shas_def)
    have "events_wf (lg_events l @ [?r])"
      using event_rows_wf [OF Cons.prems(1) ok(2), of p] unfolding new by (simp add: event_rows_def x)
    then have wf: "ledger_wf ?l" using Cons.prems(1) by (simp add: ledger_wf_def)
    have stored: "event_stored ?l p j \<longleftrightarrow> event_stored l p j" if "j \<in> fst ` set shas" for j
      using that i by (auto simp: event_stored_def)
    have same: "new_shas ?l p shas = new_shas l p shas"
      unfolding new_shas_def using stored by (intro filter_cong) force+
    have "events_agree ?l p shas" using Cons.prems(3) i by (auto simp: events_agree_def) force
    from Cons.IH [OF wf ok(1) this] have rest: "save_event_rows p shas ?l = (Inr (map fst (new_shas l p shas)),
        ?l\<lparr>lg_events := (lg_events l @ [?r]) @ event_rows p (new_shas l p shas)\<rparr>)"
      unfolding same by simp
    have "\<not> (\<exists>q \<in> set (lg_events l). er_partition q = p \<and> er_id q = i)" using False by (force simp: event_stored_def)
    then have "insert_event ?r l = (True, ?l)" by (simp add: insert_event_def)
    with rest False x show ?thesis by (simp add: new_shas_def event_rows_def)
  qed
qed

lemma chunk_fresh_selects:
  assumes "ledger_wf l"
  shows "chunk_fresh l p i n \<longleftrightarrow> select_chunk_by_id l p i = None \<and> select_chunk_by_sequence l p n = None"
  by (auto simp: chunk_fresh_def select_chunk_by_id_def select_chunk_by_sequence_def find_None_iff)

text \<open>The frontier of an accepted position close, if the run has one.\<close>

definition frontier_clear :: "ledger \<Rightarrow> stream_partition \<Rightarrow> (string \<times> string option) list \<Rightarrow> bool" where
  "frontier_clear l p record_ids \<longleftrightarrow> (\<forall>r \<in> set (lg_positions l). position_run r = pt_run_id p \<longrightarrow>
     pr_partition r = p \<and> (\<forall>(i, v) \<in> set record_ids. \<exists>s. v = Some s \<and> canonical_decimal v \<and> pr_upper r < int (dec_value s)))"

lemma post_frontier_event:
  "seq (raise_if (\<not> canonical_decimal v) e) (raise_if (is_some_and v (\<lambda>s. int (dec_value s) \<le> u)) e') = Inr ()
    \<longleftrightarrow> (\<exists>s. v = Some s \<and> canonical_decimal v \<and> u < int (dec_value s))"
  by (cases v) (auto simp: canonical_decimal_def not_le)

lemma assert_post_frontier_ok:
  assumes "map fst record_ids = map fst shas" "distinct (map fst shas)"
  shows "assert_events_are_post_position_close shas record_ids u = Inr ()
    \<longleftrightarrow> (\<forall>(i, v) \<in> set record_ids. \<exists>s. v = Some s \<and> canonical_decimal v \<and> u < int (dec_value s))"
  unfolding assert_events_are_post_position_close_def seq_ok check_each_ok
  using assms by (simp add: case_prod_beta post_frontier_event del: is_some_and_iff seq_ok)

lemma position_frontier_ok:
  assumes wf: "ledger_wf l" and ids: "map fst record_ids = map fst shas" "distinct (map fst shas)"
  shows "(bnd (position_close_frontier l p) (\<lambda>frontier. case frontier of None \<Rightarrow> Inr ()
      | Some upper \<Rightarrow> assert_events_are_post_position_close shas record_ids upper)) = Inr ()
    \<longleftrightarrow> frontier_clear l p record_ids"
proof (cases "select_position_close l (pt_run_id p)")
  case None
  then have "\<forall>r \<in> set (lg_positions l). position_run r \<noteq> pt_run_id p"
    by (auto simp: select_position_close_def find_None_iff)
  with None show ?thesis by (auto simp: position_close_frontier_def frontier_clear_def)
next
  case (Some r)
  then have r: "r \<in> set (lg_positions l)" "position_run r = pt_run_id p"
    using select_position_close_iff [OF wf] by auto
  have only: "q = r" if "q \<in> set (lg_positions l)" "position_run q = pt_run_id p" for q
    using that Some select_position_close_iff [OF wf] by (metis option.inject)
  have uniq: "(\<forall>q \<in> set (lg_positions l). position_run q = pt_run_id p \<longrightarrow> Q q) = Q r" for Q
  proof
    assume "\<forall>q \<in> set (lg_positions l). position_run q = pt_run_id p \<longrightarrow> Q q"
    with r show "Q r" by simp
  next
    assume "Q r"
    show "\<forall>q \<in> set (lg_positions l). position_run q = pt_run_id p \<longrightarrow> Q q"
    proof (intro ballI impI)
      fix q assume "q \<in> set (lg_positions l)" "position_run q = pt_run_id p"
      then have "q = r" by (rule only)
      with \<open>Q r\<close> show "Q q" by simp
    qed
  qed
  have bounds: "1 \<le> pr_lower r" "pr_lower r \<le> pr_upper r" using wf r(1) by (auto simp: ledger_wf_def positions_wf_def)
  have "frontier_clear l p record_ids \<longleftrightarrow> pr_partition r = p
      \<and> (\<forall>(i, v) \<in> set record_ids. \<exists>s. v = Some s \<and> canonical_decimal v \<and> pr_upper r < int (dec_value s))"
    unfolding frontier_clear_def by (rule uniq)
  moreover have "position_close_frontier l p = (if pr_partition r \<noteq> p
      then Inl (ValueError ''position close is bound to another stream partition'') else Inr (Some (pr_upper r)))"
    using Some bounds by (simp add: position_close_frontier_def)
  ultimately show ?thesis using assert_post_frontier_ok [OF ids, of "pr_upper r"] by simp
qed

end
