(* ===== verification/LedgerSteps.thy ===== *)
theory LedgerSteps
  imports LedgerFacts "HOL-Library.Sublist"
begin

text \<open>
  What each message does to the ledger, the transition system of these effects, and what it keeps:
  well-formed tables that only grow, closed runs that stay as they are, and deliveries that are
  accepted once and are duplicates from then on.
\<close>

section \<open>Event chunks\<close>

definition active_watermark :: "ledger \<Rightarrow> stream_partition \<Rightarrow> watermark_row option" where
  "active_watermark l p = (case select_latest_watermark l p of
     None \<Rightarrow> None | Some r \<Rightarrow> if watermark_covers_received_chunks l p (binding_of r) then Some r else None)"

lemma inspect_outcome:
  assumes wf: "ledger_wf l" and shas: "shas_ok shas" and ids: "map fst record_ids = map fst shas"
  shows "inspect_chunk_admission p i n sha shas record_ids l = Inr adm \<longleftrightarrow>
    (chunk_recorded l p i n sha \<and> adm = \<lparr>adm_replay = True, adm_new_event_ids = [], adm_watermark = None\<rparr>)
    \<or> (chunk_fresh l p i n \<and> \<not> run_is_closed l (pt_run_id p) \<and> frontier_clear l p record_ids \<and> events_agree l p shas
       \<and> adm = \<lparr>adm_replay = False, adm_new_event_ids = map fst (new_shas l p shas),
           adm_watermark = map_option binding_of (active_watermark l p)\<rparr>)"
proof (cases "select_chunk_by_id l p i")
  case (Some r)
  then have r: "r \<in> set (lg_chunks l)" "cr_partition r = p" "cr_id r = i" using select_chunk_by_id_iff [OF wf] by auto
  have rec: "chunk_recorded l p i n sha \<longleftrightarrow> cr_sequence r = n \<and> cr_sha r = sha"
  proof
    assume "chunk_recorded l p i n sha"
    then have "select_chunk_by_id l p i = Some \<lparr>cr_partition = p, cr_id = i, cr_sequence = n, cr_sha = sha\<rparr>"
      using select_chunk_by_id_iff [OF wf] by (simp add: chunk_recorded_def)
    with Some show "cr_sequence r = n \<and> cr_sha r = sha" by auto
  next
    assume "cr_sequence r = n \<and> cr_sha r = sha"
    with r have "r = \<lparr>cr_partition = p, cr_id = i, cr_sequence = n, cr_sha = sha\<rparr>" by simp
    with r(1) show "chunk_recorded l p i n sha" by (simp add: chunk_recorded_def)
  qed
  have "\<not> chunk_fresh l p i n" using r by (auto simp: chunk_fresh_def)
  moreover have "chunk_delivery (Some r) = Inr (Some \<lparr>dv_identity = cr_id r, dv_sequence = Some (cr_sequence r), dv_sha = cr_sha r\<rparr>)"
    using chunk_delivery_ok [OF wf, of "Some r"] r by simp
  ultimately show ?thesis using Some rec
    by (auto simp: inspect_chunk_admission_def Let_def same_delivery_def)
next
  case None
  then have norec: "\<not> chunk_recorded l p i n sha"
    by (force simp: chunk_recorded_def select_chunk_by_id_def find_None_iff)
  have del: "chunk_delivery None = Inr None" using chunk_delivery_ok [OF wf, of None] by simp
  have del2: "chunk_delivery (select_chunk_by_sequence l p n) = Inr None \<longleftrightarrow> chunk_fresh l p i n"
    "\<exists>v. chunk_delivery (select_chunk_by_sequence l p n) = Inr v"
    using chunk_delivery_ok [OF wf, of "select_chunk_by_sequence l p n"] select_chunk_by_sequence_iff [OF wf]
      chunk_fresh_selects [OF wf, of p i n] None
    by (auto simp: option.map_disc_iff)
  have dist: "distinct (map fst shas)" using shas by (simp add: shas_ok_def)
  have frontier: "(\<exists>f. position_close_frontier l p = Inr f \<and> (case f of None \<Rightarrow> Inr () | Some u \<Rightarrow>
      assert_events_are_post_position_close shas record_ids u) = Inr ()) \<longleftrightarrow> frontier_clear l p record_ids"
    using position_frontier_ok [OF wf ids dist, of p] by simp
  have mark: "(case map_option binding_of (select_latest_watermark l p) of None \<Rightarrow> None
      | Some w \<Rightarrow> if watermark_covers_received_chunks l p w then Some w else None) = map_option binding_of (active_watermark l p)"
    by (simp add: active_watermark_def split: option.splits)
  show ?thesis
    using norec del del2 frontier classify_events_ok [OF wf, of p shas] accepted_watermark_ok [OF wf, of p] mark
    by (auto simp: inspect_chunk_admission_def Let_def None)
qed

definition digests_ok :: "stream_digests \<Rightarrow> bool" where
  "digests_ok sd \<longleftrightarrow> (\<forall>c. digest_ok (sd_chunk sd c)) \<and> (\<forall>e. digest_ok (sd_event sd e))
     \<and> (\<forall>w. digest_ok (sd_watermark sd w)) \<and> (\<forall>c. digest_ok (sd_closed sd c))"

definition event_ids_ok :: "event_chunk \<Rightarrow> bool" where
  "event_ids_ok c \<longleftrightarrow> (\<forall>e \<in> set (ck_events c). \<not> blank (ev_event_id e))"

lemma event_shas_ok: "chunk_ok event_types c \<Longrightarrow> event_ids_ok c \<Longrightarrow> digests_ok sd \<Longrightarrow> shas_ok (event_shas sd c)"
  by (auto simp: shas_ok_def event_shas_def chunk_ok_def event_ids_ok_def digests_ok_def comp_def)

lemma event_record_ids_fst: "map fst (event_record_ids c) = map fst (event_shas sd c)"
  by (simp add: event_record_ids_def event_shas_def)

definition chunk_in :: "stream_digests \<Rightarrow> event_chunk \<Rightarrow> ledger \<Rightarrow> bool" where
  "chunk_in sd c l \<longleftrightarrow> chunk_recorded l (ck_partition c) (ck_chunk_id c) (ck_sequence c) (chunk_sha sd c)"

definition chunk_row_of :: "stream_digests \<Rightarrow> event_chunk \<Rightarrow> chunk_row" where
  "chunk_row_of sd c = \<lparr>cr_partition = ck_partition c, cr_id = ck_chunk_id c, cr_sequence = ck_sequence c, cr_sha = chunk_sha sd c\<rparr>"

definition new_events :: "stream_digests \<Rightarrow> event_chunk \<Rightarrow> ledger \<Rightarrow> (string \<times> string) list" where
  "new_events sd c l = new_shas l (ck_partition c) (event_shas sd c)"

definition no_late_event :: "event_chunk \<Rightarrow> ledger \<Rightarrow> bool" where
  "no_late_event c l \<longleftrightarrow> (\<forall>w. active_watermark l (ck_partition c) = Some w \<longrightarrow>
     (\<forall>e \<in> set (ck_events c). \<not> event_stored l (ck_partition c) (ev_event_id e) \<longrightarrow> instant (wr_at w) < instant (ev_timestamp e)))"

text \<open>The guard of a new chunk.\<close>

definition chunk_admissible :: "stream_digests \<Rightarrow> event_chunk \<Rightarrow> ledger \<Rightarrow> bool" where
  "chunk_admissible sd c l \<longleftrightarrow> chunk_fresh l (ck_partition c) (ck_chunk_id c) (ck_sequence c)
     \<and> \<not> run_is_closed l (pt_run_id (ck_partition c)) \<and> frontier_clear l (ck_partition c) (event_record_ids c)
     \<and> events_agree l (ck_partition c) (event_shas sd c)"

definition add_chunk :: "stream_digests \<Rightarrow> event_chunk \<Rightarrow> ledger \<Rightarrow> ledger" where
  "add_chunk sd c l = l\<lparr>lg_chunks := lg_chunks l @ [chunk_row_of sd c],
     lg_events := lg_events l @ event_rows (ck_partition c) (new_events sd c l)\<rparr>"

lemma violating_none:
  assumes "active_watermark l (ck_partition c) = Some w"
  shows "violating_event_ids c (map fst (new_events sd c l)) (binding_of w) = [] \<longleftrightarrow>
    (\<forall>e \<in> set (ck_events c). \<not> event_stored l (ck_partition c) (ev_event_id e) \<longrightarrow> instant (wr_at w) < instant (ev_timestamp e))"
proof -
  have "ev_event_id e \<in> set (map fst (new_events sd c l)) \<longleftrightarrow> \<not> event_stored l (ck_partition c) (ev_event_id e)"
    if "e \<in> set (ck_events c)" for e
    using that by (force simp: new_events_def new_shas_def event_shas_def)
  then show ?thesis
    by (auto simp: violating_event_ids_def filter_empty_conv binding_of_def not_le simp del: set_map)
qed

lemma reject_none: "no_late_event c l \<Longrightarrow>
    reject_late_events sink now c (map fst (new_events sd c l)) (map_option binding_of (active_watermark l (ck_partition c))) dead = (Inr (), dead)"
  by (cases "active_watermark l (ck_partition c)")
    (simp_all add: reject_late_events_def no_late_event_def violating_none [where sd = sd])

lemma reject_some:
  assumes "\<not> no_late_event c l"
  shows "\<exists>e dead'. reject_late_events sink now c (map fst (new_events sd c l)) (map_option binding_of (active_watermark l (ck_partition c))) dead = (Inl e, dead')"
proof -
  obtain w where w: "active_watermark l (ck_partition c) = Some w"
    using assms by (auto simp: no_late_event_def)
  then have "violating_event_ids c (map fst (new_events sd c l)) (binding_of w) \<noteq> []"
    using assms violating_none [OF w, of sd] by (auto simp: no_late_event_def)
  with w show ?thesis by (auto simp: reject_late_events_def split: sum.splits)
qed

lemma store_new_chunk:
  assumes wf: "ledger_wf l" and shas: "shas_ok (event_shas sd c)" and ok: "chunk_admissible sd c l"
  shows "save_events (ck_partition c) (event_shas sd c) l = (Inr (map fst (new_events sd c l)),
      l\<lparr>lg_events := lg_events l @ event_rows (ck_partition c) (new_events sd c l)\<rparr>)"
    and "save_chunk (ck_partition c) (ck_chunk_id c) (ck_sequence c) (chunk_sha sd c)
        (l\<lparr>lg_events := lg_events l @ event_rows (ck_partition c) (new_events sd c l)\<rparr>) = (Inr True, add_chunk sd c l)"
proof -
  show "save_events (ck_partition c) (event_shas sd c) l = (Inr (map fst (new_events sd c l)),
      l\<lparr>lg_events := lg_events l @ event_rows (ck_partition c) (new_events sd c l)\<rparr>)"
    using save_event_rows_eq [OF wf shas] ok by (simp add: save_events_def chunk_admissible_def new_events_def)
  let ?l = "l\<lparr>lg_events := lg_events l @ event_rows (ck_partition c) (new_events sd c l)\<rparr>"
  have "\<not> run_is_closed ?l (pt_run_id (ck_partition c))"
    using ok by (simp add: chunk_admissible_def run_is_closed_def)
  moreover have "insert_chunk (chunk_row_of sd c) ?l = (True, add_chunk sd c l)"
    using ok by (auto simp: chunk_admissible_def chunk_fresh_def insert_chunk_def chunk_row_of_def add_chunk_def)
  ultimately show "save_chunk (ck_partition c) (ck_chunk_id c) (ck_sequence c) (chunk_sha sd c) ?l = (Inr True, add_chunk sd c l)"
    by (simp add: save_chunk_def chunk_row_of_def)
qed

text \<open>The three outcomes of a chunk: a duplicate, a new chunk, or an exception with the ledger
  as it was.\<close>

lemma accept_chunk_duplicate:
  assumes wf: "ledger_wf (si_ledger st)" and "shas_ok (event_shas sd c)" "chunk_sha sd c = ck_sha c" "chunk_in sd c (si_ledger st)"
  shows "accept_chunk sink sd now c st = (Inr (delivery_result_of False []), st)"
proof -
  have "inspect_chunk_admission (ck_partition c) (ck_chunk_id c) (ck_sequence c) (ck_sha c) (event_shas sd c) (event_record_ids c) (si_ledger st)
      = Inr \<lparr>adm_replay = True, adm_new_event_ids = [], adm_watermark = None\<rparr>"
    using inspect_outcome [OF wf assms(2) event_record_ids_fst] assms(3,4) by (simp add: chunk_in_def)
  with assms(3) show ?thesis by (simp add: accept_chunk_def accept_chunk_with_def Let_def)
qed

lemma accept_chunk_new:
  assumes wf: "ledger_wf (si_ledger st)" and shas: "shas_ok (event_shas sd c)" and sha: "chunk_sha sd c = ck_sha c"
    and ok: "chunk_admissible sd c (si_ledger st)"
  shows "accept_chunk sink sd now c st =
    (if no_late_event c (si_ledger st)
     then (Inr (delivery_result_of True (map fst (new_events sd c (si_ledger st)))), st\<lparr>si_ledger := add_chunk sd c (si_ledger st)\<rparr>)
     else (case reject_late_events sink now c (map fst (new_events sd c (si_ledger st)))
        (map_option binding_of (active_watermark (si_ledger st) (ck_partition c))) (si_dead_letters st) of
        (r, dead) \<Rightarrow> (Inl (projl r), st\<lparr>si_dead_letters := dead\<rparr>)))"
proof -
  let ?l = "si_ledger st"
  have "inspect_chunk_admission (ck_partition c) (ck_chunk_id c) (ck_sequence c) (chunk_sha sd c) (event_shas sd c) (event_record_ids c) ?l
      = Inr \<lparr>adm_replay = False, adm_new_event_ids = map fst (new_events sd c ?l),
          adm_watermark = map_option binding_of (active_watermark ?l (ck_partition c))\<rparr>"
    using inspect_outcome [OF wf shas event_record_ids_fst] ok by (simp add: chunk_admissible_def new_events_def)
  moreover note store_new_chunk [OF wf shas ok]
  ultimately show ?thesis
    using sha reject_none [of c ?l sink now sd "si_dead_letters st"] reject_some [of c ?l sink now sd "si_dead_letters st"]
    by (auto simp: accept_chunk_def accept_chunk_with_def Let_def)
qed

lemma accept_chunk_refused:
  assumes wf: "ledger_wf (si_ledger st)" and shas: "shas_ok (event_shas sd c)"
    and no: "chunk_sha sd c \<noteq> ck_sha c \<or> (\<not> chunk_in sd c (si_ledger st) \<and> \<not> chunk_admissible sd c (si_ledger st))"
  shows "\<exists>e. accept_chunk sink sd now c st = (Inl e, st)"
proof (cases "chunk_sha sd c = ck_sha c")
  case True
  have "inspect_chunk_admission (ck_partition c) (ck_chunk_id c) (ck_sequence c) (chunk_sha sd c) (event_shas sd c) (event_record_ids c) (si_ledger st) \<noteq> Inr adm" for adm
    using inspect_outcome [OF wf shas event_record_ids_fst] no True by (auto simp: chunk_in_def chunk_admissible_def)
  then obtain e where "inspect_chunk_admission (ck_partition c) (ck_chunk_id c) (ck_sequence c) (chunk_sha sd c) (event_shas sd c) (event_record_ids c) (si_ledger st) = Inl e"
    by (metis sum.exhaust)
  with True show ?thesis by (simp add: accept_chunk_def accept_chunk_with_def Let_def)
qed (simp add: accept_chunk_def accept_chunk_with_def Let_def)

section \<open>Watermarks\<close>

definition watermark_row_in :: "stream_digests \<Rightarrow> source_watermark \<Rightarrow> ledger \<Rightarrow> bool" where
  "watermark_row_in sd w l \<longleftrightarrow> (\<exists>r \<in> set (lg_watermarks l). wr_partition r = wm_partition w \<and> wr_id r = wm_id w
     \<and> wr_sequence r = wm_sequence w \<and> wr_sha r = sd_watermark sd w)"

definition watermark_admissible :: "source_watermark \<Rightarrow> ledger \<Rightarrow> bool" where
  "watermark_admissible w l \<longleftrightarrow> \<not> run_is_closed l (pt_run_id (wm_partition w))
     \<and> (\<forall>r \<in> set (lg_watermarks l). wr_partition r = wm_partition w \<longrightarrow> wr_id r \<noteq> wm_id w)
     \<and> (watermarks_of l (wm_partition w) \<noteq> [] \<longrightarrow> advances (last (watermarks_of l (wm_partition w))) (row_of_watermark w []))"

definition add_watermark :: "stream_digests \<Rightarrow> source_watermark \<Rightarrow> ledger \<Rightarrow> ledger" where
  "add_watermark sd w l = l\<lparr>lg_watermarks := lg_watermarks l @ [row_of_watermark w (sd_watermark sd w)]\<rparr>"

lemma advances_sequence_fresh:
  assumes wf: "ledger_wf l" and adv: "watermarks_of l p \<noteq> [] \<Longrightarrow> wr_sequence (last (watermarks_of l p)) < n"
    and r: "r \<in> set (lg_watermarks l)" "wr_partition r = p"
  shows "wr_sequence r < n"
proof -
  have in_p: "r \<in> set (watermarks_of l p)" using r by simp
  then have ne: "watermarks_of l p \<noteq> []" by (metis empty_iff empty_set)
  have "sorted_wrt advances (watermarks_of l p)" using wf by (simp add: ledger_wf_def watermarks_wf_def watermarks_of_def)
  then have "sorted_wrt advances (butlast (watermarks_of l p) @ [last (watermarks_of l p)])" using ne by simp
  then have "\<forall>x \<in> set (butlast (watermarks_of l p)). wr_sequence x < wr_sequence (last (watermarks_of l p))"
    by (simp add: sorted_wrt_append advances_def)
  moreover have "r \<in> set (butlast (watermarks_of l p)) \<or> r = last (watermarks_of l p)"
    using in_p ne by (metis append_butlast_last_id rotate1.simps(2) set_ConsD set_rotate1)
  ultimately show ?thesis using adv [OF ne] by auto
qed

lemma save_watermark_duplicate:
  assumes wf: "ledger_wf l" and dup: "watermark_row_in sd w l"
  shows "save_watermark w (sd_watermark sd w) l = (Inr False, l)"
proof -
  obtain r where r: "r \<in> set (lg_watermarks l)" "wr_partition r = wm_partition w" "wr_id r = wm_id w"
      "wr_sequence r = wm_sequence w" "wr_sha r = sd_watermark sd w"
    using dup by (auto simp: watermark_row_in_def)
  then have sel: "select_watermark_by_id l (wm_partition w) (wm_id w) = Some r" using select_watermark_by_id_iff [OF wf] by simp
  have "watermark_delivery (Some r) = Inr (Some \<lparr>dv_identity = wr_id r, dv_sequence = Some (wr_sequence r), dv_sha = wr_sha r\<rparr>)"
    using watermark_delivery_ok [OF wf, of "Some r"] r by simp
  then show ?thesis
    using sel r accepted_watermark_ok [OF wf] by (simp add: save_watermark_def Let_def same_delivery_def)
qed

lemma save_watermark_new:
  assumes wf: "ledger_wf l" and ok: "watermark_admissible w l"
  shows "save_watermark w (sd_watermark sd w) l = (Inr True, add_watermark sd w l)"
proof -
  let ?p = "wm_partition w"
  have none: "select_watermark_by_id l ?p (wm_id w) = None"
    using ok by (auto simp: watermark_admissible_def select_watermark_by_id_def find_None_iff)
  have fresh: "wr_sequence r < wm_sequence w" if "r \<in> set (lg_watermarks l)" "wr_partition r = ?p" for r
    using ok that by (intro advances_sequence_fresh [OF wf _ that]) (auto simp: watermark_admissible_def advances_def row_of_watermark_def)
  have none': "select_watermark_by_sequence l ?p (wm_sequence w) = None"
    using fresh by (force simp: select_watermark_by_sequence_def find_None_iff)
  have adv: "check_watermark_advance (map_option binding_of (select_latest_watermark l ?p)) w = Inr ()"
    using ok by (auto simp: select_latest_watermark_eq [OF wf] check_watermark_advance_def watermark_admissible_def
        advances_def row_of_watermark_def binding_of_def)
  have "wr_sequence r \<noteq> wm_sequence w" if "r \<in> set (lg_watermarks l)" "wr_partition r = ?p" for r
    using fresh [OF that] by simp
  then have "insert_watermark (row_of_watermark w (sd_watermark sd w)) l = (True, add_watermark sd w l)"
    using ok by (auto simp: insert_watermark_def row_of_watermark_def add_watermark_def watermark_admissible_def)
  then show ?thesis
    using none none' adv ok accepted_watermark_ok [OF wf, of ?p] watermark_delivery_ok [OF wf, of None]
    by (simp add: save_watermark_def Let_def watermark_admissible_def)
qed

lemma save_watermark_refused:
  assumes wf: "ledger_wf l" and no: "\<not> watermark_row_in sd w l" "\<not> watermark_admissible w l"
  shows "\<exists>e. save_watermark w (sd_watermark sd w) l = (Inl e, l)"
proof (cases "select_watermark_by_id l (wm_partition w) (wm_id w)")
  case (Some r)
  then have r: "r \<in> set (lg_watermarks l)" "wr_partition r = wm_partition w" "wr_id r = wm_id w"
    using select_watermark_by_id_iff [OF wf] by auto
  have "watermark_delivery (Some r) = Inr (Some \<lparr>dv_identity = wr_id r, dv_sequence = Some (wr_sequence r), dv_sha = wr_sha r\<rparr>)"
    using watermark_delivery_ok [OF wf, of "Some r"] r by simp
  moreover have "wr_sequence r \<noteq> wm_sequence w \<or> wr_sha r \<noteq> sd_watermark sd w"
    using no(1) r by (auto simp: watermark_row_in_def)
  ultimately show ?thesis
    using Some accepted_watermark_ok [OF wf, of "wm_partition w"] by (auto simp: save_watermark_def Let_def same_delivery_def)
next
  case None
  let ?p = "wm_partition w"
  have fresh_id: "\<forall>r \<in> set (lg_watermarks l). wr_partition r = ?p \<longrightarrow> wr_id r \<noteq> wm_id w"
    using None by (auto simp: select_watermark_by_id_def find_None_iff)
  have del: "watermark_delivery None = Inr None" using watermark_delivery_ok [OF wf, of None] by simp
  show ?thesis
  proof (cases "run_is_closed l (pt_run_id ?p)")
    case True
    with None del accepted_watermark_ok [OF wf, of ?p] show ?thesis by (simp add: save_watermark_def Let_def)
  next
    case False
    then have ne: "watermarks_of l ?p \<noteq> []" and behind: "\<not> advances (last (watermarks_of l ?p)) (row_of_watermark w [])"
      using no(2) fresh_id by (auto simp: watermark_admissible_def)
    then have "\<exists>e. check_watermark_advance (map_option binding_of (select_latest_watermark l ?p)) w = Inl e"
      by (auto simp: select_latest_watermark_eq [OF wf] check_watermark_advance_def advances_def row_of_watermark_def binding_of_def not_less)
    moreover obtain v where "watermark_delivery (select_watermark_by_sequence l ?p (wm_sequence w)) = Inr v"
    proof -
      have "r \<in> set (lg_watermarks l)" if "select_watermark_by_sequence l ?p (wm_sequence w) = Some r" for r
        using that by (auto simp: select_watermark_by_sequence_def dest: find_SomeD)
      from watermark_delivery_ok [OF wf this] show thesis using that by blast
    qed
    ultimately show ?thesis
      using None del False accepted_watermark_ok [OF wf, of ?p] by (cases v) (auto simp: save_watermark_def Let_def)
  qed
qed

section \<open>Run closes\<close>

definition close_row_in :: "stream_digests \<Rightarrow> run_closed \<Rightarrow> ledger \<Rightarrow> bool" where
  "close_row_in sd c l \<longleftrightarrow> (\<exists>r \<in> set (lg_closes l). xr_run_id r = cl_run_id c \<and> xr_close_id r = cl_close_id c \<and> xr_sha r = sd_closed sd c)"

text \<open>The partitions of a run that the ledger knows.\<close>

definition run_partitions :: "ledger \<Rightarrow> string \<Rightarrow> stream_partition set" where
  "run_partitions l run_id = {p \<in> cr_partition ` set (lg_chunks l) \<union> wr_partition ` set (lg_watermarks l). pt_run_id p = run_id}"

text \<open>Every known partition of the run is listed with its latest watermark, and nothing else.\<close>

definition finals_match :: "run_closed \<Rightarrow> ledger \<Rightarrow> bool" where
  "finals_match c l \<longleftrightarrow> fw_partition ` set (cl_finals c) = run_partitions l (cl_run_id c)
     \<and> (\<forall>f \<in> set (cl_finals c). watermarks_of l (fw_partition f) \<noteq> []
          \<and> same_binding (binding_of (last (watermarks_of l (fw_partition f)))) (final_binding f))"

definition add_close :: "stream_digests \<Rightarrow> run_closed \<Rightarrow> ledger \<Rightarrow> ledger" where
  "add_close sd c l = l\<lparr>lg_closes := lg_closes l @ [\<lparr>xr_run_id = cl_run_id c, xr_close_id = cl_close_id c, xr_sha = sd_closed sd c\<rparr>]\<rparr>"

lemma select_partition_count_eq: "select_partition_count l run_id = card (run_partitions l run_id)"
proof -
  have "set (map cr_partition (filter (\<lambda>r. pt_run_id (cr_partition r) = run_id) (lg_chunks l)))
       \<union> set (map wr_partition (filter (\<lambda>r. pt_run_id (wr_partition r) = run_id) (lg_watermarks l))) = run_partitions l run_id"
    by (auto simp: run_partitions_def)
  then show ?thesis by (simp only: select_partition_count_def)
qed

lemma finite_run_partitions [simp]: "finite (run_partitions l run_id)"
  by (simp add: run_partitions_def)

lemma assert_final_ok:
  assumes wf: "ledger_wf l"
  shows "assert_final_watermark l f = Inr () \<longleftrightarrow> watermarks_of l (fw_partition f) \<noteq> []
    \<and> same_binding (binding_of (last (watermarks_of l (fw_partition f)))) (final_binding f)"
  using accepted_watermark_ok [OF wf, of "fw_partition f"]
  by (auto simp: assert_final_watermark_def select_latest_watermark_eq [OF wf])

lemma assert_finals_ok:
  assumes wf: "ledger_wf l" and c: "run_closed_ok c"
  shows "assert_final_watermarks_match (cl_finals c) l = Inr () \<longleftrightarrow> finals_match c l"
proof -
  have runs: "(\<lambda>f. pt_run_id (fw_partition f)) ` set (cl_finals c) = {cl_run_id c}"
    using c by (cases "cl_finals c") (auto simp: run_closed_ok_def)
  have hd: "pt_run_id (fw_partition (hd (cl_finals c))) = cl_run_id c" and ne: "cl_finals c \<noteq> []"
    using c by (cases "cl_finals c"; auto simp: run_closed_ok_def)+
  let ?F = "fw_partition ` set (cl_finals c)"
  have card: "card ?F = length (cl_finals c)"
    using c distinct_card [of "map fw_partition (cl_finals c)"] by (simp add: run_closed_ok_def)
  have known: "p \<in> run_partitions l (cl_run_id c)" if p: "p \<in> ?F" and marks: "\<forall>f \<in> set (cl_finals c). watermarks_of l (fw_partition f) \<noteq> []" for p
  proof -
    obtain f where f: "f \<in> set (cl_finals c)" "p = fw_partition f" using p by blast
    then obtain r where "r \<in> set (watermarks_of l p)" using marks by (metis last_in_set)
    moreover have "pt_run_id p = cl_run_id c" using f c by (simp add: run_closed_ok_def)
    ultimately show ?thesis by (auto simp: run_partitions_def)
  qed
  have "card (run_partitions l (cl_run_id c)) = length (cl_finals c) \<longleftrightarrow> ?F = run_partitions l (cl_run_id c)"
    if "\<forall>f \<in> set (cl_finals c). watermarks_of l (fw_partition f) \<noteq> []"
  proof -
    have "?F \<subseteq> run_partitions l (cl_run_id c)" using known that by blast
    then show ?thesis using card card_subset_eq [of "run_partitions l (cl_run_id c)" ?F] by auto
  qed
  then show ?thesis
    using ne hd runs by (auto simp: assert_final_watermarks_match_def finals_match_def select_partition_count_eq
        assert_final_ok [OF wf])
qed

lemma save_close_new:
  "\<not> run_is_closed l (cl_run_id c) \<Longrightarrow>
    save_run_close (cl_run_id c) (cl_close_id c) (sd_closed sd c) l = (Inr True, add_close sd c l)"
  by (auto simp: save_run_close_def insert_close_def run_is_closed_def add_close_def)

lemma save_close_known:
  assumes wf: "ledger_wf l" and closed: "run_is_closed l (cl_run_id c)"
  shows "save_run_close (cl_run_id c) (cl_close_id c) (sd_closed sd c) l
    = (if close_row_in sd c l then Inr False else Inl (projl (fst (save_run_close (cl_run_id c) (cl_close_id c) (sd_closed sd c) l))), l)"
proof -
  have ins: "insert_close \<lparr>xr_run_id = cl_run_id c, xr_close_id = cl_close_id c, xr_sha = sd_closed sd c\<rparr> l = (False, l)"
    using closed by (auto simp: insert_close_def run_is_closed_def)
  show ?thesis
  proof (cases "select_close_by_id l (cl_run_id c) (cl_close_id c)")
    case None
    then have "\<not> close_row_in sd c l" by (auto simp: select_close_by_id_iff close_row_in_def)
    with None ins close_delivery_ok [OF wf, of None] show ?thesis by (simp add: save_run_close_def)
  next
    case (Some r)
    then have r: "r \<in> set (lg_closes l)" "xr_run_id r = cl_run_id c" "xr_close_id r = cl_close_id c"
      by (auto simp: select_close_by_id_def dest: find_SomeD)
    have "close_row_in sd c l \<longleftrightarrow> xr_sha r = sd_closed sd c"
    proof
      assume "close_row_in sd c l"
      then obtain q where q: "q \<in> set (lg_closes l)" "xr_run_id q = cl_run_id c" "xr_sha q = sd_closed sd c"
        by (auto simp: close_row_in_def)
      have "distinct (map xr_run_id (lg_closes l))" using wf by (simp add: ledger_wf_def closes_wf_def)
      with q r have "q = r" by (metis (no_types, lifting) distinct_map inj_onD)
      with q show "xr_sha r = sd_closed sd c" by simp
    qed (use r in \<open>auto simp: close_row_in_def\<close>)
    moreover have "close_delivery (Some r) = Inr (Some \<lparr>dv_identity = xr_close_id r, dv_sequence = None, dv_sha = xr_sha r\<rparr>)"
      using close_delivery_ok [OF wf, of "Some r"] r by simp
    ultimately show ?thesis using Some ins by (simp add: save_run_close_def same_delivery_def)
  qed
qed

section \<open>Position closes\<close>

definition covered_chunks_match :: "stream_digests \<Rightarrow> position_close \<Rightarrow> ledger \<Rightarrow> bool" where
  "covered_chunks_match sd c l \<longleftrightarrow>
     map cr_sequence (select_covered_chunks l (pc_partition c) (pc_covered c)) = [1..pc_covered c]
     \<and> sd_covered sd (chunk_entries (select_covered_chunks l (pc_partition c) (pc_covered c))) = pc_covered_sha c"

definition position_known :: "ledger \<Rightarrow> string \<Rightarrow> bool" where
  "position_known l run_id \<longleftrightarrow> (\<exists>r \<in> set (lg_positions l). position_run r = run_id)"

definition add_position :: "stream_digests \<Rightarrow> position_close \<Rightarrow> datetime \<Rightarrow> ledger \<Rightarrow> ledger" where
  "add_position sd c accepted_at l = l\<lparr>lg_positions := lg_positions l
     @ [(row_of_position c (sd_position sd c) accepted_at)\<lparr>pr_entry_id := int (length (lg_positions l)) + 1\<rparr>]\<rparr>"

lemma require_covered_ok:
  assumes wf: "ledger_wf l"
  shows "require_committed_covered_chunks (sd_covered sd) c l = Inr u \<longleftrightarrow> covered_chunks_match sd c l"
proof -
  have "1 \<le> cr_sequence r" if "r \<in> set (select_covered_chunks l (pc_partition c) (pc_covered c))" for r
    using that wf by (auto simp: select_covered_chunks_def ledger_wf_def chunks_wf_def)
  then show ?thesis
    by (cases u) (auto simp: require_committed_covered_chunks_def covered_chunks_match_def Let_def not_less)
qed

lemma save_position_outcome:
  assumes wf: "ledger_wf l" and c: "position_close_ok c"
    and res: "save_position_close (sd_position sd) (sd_covered sd) c (sd_position sd c) accepted_at l = (Inr (accepted, receipt), l')"
  shows "pv_run_id receipt = pc_run_id c \<and> pv_close_id receipt = pc_close_id c \<and> pv_partition receipt = pc_partition c
    \<and> pv_sha receipt = sd_position sd c
    \<and> (if accepted then \<not> position_known l (pc_run_id c) \<and> covered_chunks_match sd c l \<and> l' = add_position sd c accepted_at l
       else position_known l (pc_run_id c) \<and> l' = l)"
proof (cases "select_position_close l (pc_run_id c)")
  case None
  have run: "position_run (row_of_position c sha t) = pc_run_id c" for sha t
    using c by (simp add: row_of_position_def position_close_ok_def)
  from None have fresh: "\<not> position_known l (pc_run_id c)"
    by (auto simp: position_known_def select_position_close_def find_None_iff)
  then have ins: "insert_position (row_of_position c (sd_position sd c) accepted_at) l
      = (Some (int (length (lg_positions l)) + 1), add_position sd c accepted_at l)"
    by (auto simp: insert_position_def Let_def run position_known_def add_position_def)
  show ?thesis
    using res None ins fresh require_covered_ok [OF wf, of sd c]
    by (auto simp: save_position_close_def load_accepted_position_close_receipt_def position_receipt_of_def
        split: sum.splits if_splits)
next
  case (Some r)
  then have r: "r \<in> set (lg_positions l)" "position_run r = pc_run_id c" using select_position_close_iff [OF wf] by auto
  then have known: "position_known l (pc_run_id c)" by (auto simp: position_known_def)
  show ?thesis
    using res Some known
    by (auto simp: save_position_close_def load_accepted_position_close_receipt_def position_receipt_of_def
        resolve_position_replay_def split: sum.splits if_splits)
qed

section \<open>The transition system\<close>

inductive ledger_step :: "string set \<Rightarrow> stream_digests \<Rightarrow> ledger \<Rightarrow> ledger \<Rightarrow> bool" for event_types sd where
  step_chunk: "chunk_ok event_types c \<Longrightarrow> event_ids_ok c \<Longrightarrow> chunk_admissible sd c l \<Longrightarrow> no_late_event c l
    \<Longrightarrow> ledger_step event_types sd l (add_chunk sd c l)"
| step_watermark: "watermark_ok w \<Longrightarrow> watermark_admissible w l \<Longrightarrow> ledger_step event_types sd l (add_watermark sd w l)"
| step_close: "run_closed_ok c \<Longrightarrow> \<not> run_is_closed l (cl_run_id c) \<Longrightarrow> finals_match c l
    \<Longrightarrow> ledger_step event_types sd l (add_close sd c l)"
| step_position: "position_close_ok c \<Longrightarrow> \<not> position_known l (pc_run_id c) \<Longrightarrow> covered_chunks_match sd c l
    \<Longrightarrow> ledger_step event_types sd l (add_position sd c accepted_at l)"

inductive_cases ledger_stepE: "ledger_step event_types sd l l'"

abbreviation ledger_run :: "string set \<Rightarrow> stream_digests \<Rightarrow> ledger \<Rightarrow> ledger \<Rightarrow> bool" where
  "ledger_run event_types sd \<equiv> (ledger_step event_types sd)\<^sup>*\<^sup>*"

lemma add_chunk_wf:
  assumes wf: "ledger_wf l" and c: "chunk_ok event_types c" "event_ids_ok c" and ok: "chunk_admissible sd c l" and sd: "digests_ok sd"
  shows "ledger_wf (add_chunk sd c l)"
proof -
  have "chunks_wf (lg_chunks l @ [chunk_row_of sd c])"
  proof (rule chunks_wf_snoc)
    show "chunks_wf (lg_chunks l)" using wf by (simp add: ledger_wf_def)
    show "chunk_key (chunk_row_of sd c) \<notin> chunk_key ` set (lg_chunks l)"
      "chunk_slot (chunk_row_of sd c) \<notin> chunk_slot ` set (lg_chunks l)"
      using ok by (auto simp: chunk_admissible_def chunk_fresh_def chunk_row_of_def)
    show "\<not> blank (cr_id (chunk_row_of sd c))" "digest_ok (cr_sha (chunk_row_of sd c))" "1 \<le> cr_sequence (chunk_row_of sd c)"
      using c sd by (auto simp: chunk_row_of_def chunk_ok_def digests_ok_def chunk_sha_def unpadded_nonempty_not_blank)
  qed
  moreover have "events_wf (lg_events l @ event_rows (ck_partition c) (new_events sd c l))"
    unfolding new_events_def using wf event_shas_ok [OF c sd] by (rule event_rows_wf)
  ultimately show ?thesis using wf by (simp add: ledger_wf_def add_chunk_def)
qed

lemma add_watermark_wf:
  assumes wf: "ledger_wf l" and w: "watermark_ok w" and ok: "watermark_admissible w l" and sd: "digests_ok sd"
  shows "ledger_wf (add_watermark sd w l)"
proof -
  have "watermarks_wf (lg_watermarks l @ [row_of_watermark w (sd_watermark sd w)])"
  proof (rule watermarks_wf_snoc)
    show "watermarks_wf (lg_watermarks l)" using wf by (simp add: ledger_wf_def)
    show "watermark_key (row_of_watermark w (sd_watermark sd w)) \<notin> watermark_key ` set (lg_watermarks l)"
      using ok by (auto simp: watermark_admissible_def row_of_watermark_def)
    assume "filter (\<lambda>q. wr_partition q = wr_partition (row_of_watermark w (sd_watermark sd w))) (lg_watermarks l) \<noteq> []"
    then show "advances (last (filter (\<lambda>q. wr_partition q = wr_partition (row_of_watermark w (sd_watermark sd w))) (lg_watermarks l)))
        (row_of_watermark w (sd_watermark sd w))"
      using ok by (simp add: watermark_admissible_def row_of_watermark_def advances_def watermarks_of_def)
  qed (use w sd in \<open>auto simp: row_of_watermark_def watermark_ok_def digests_ok_def unpadded_nonempty_not_blank\<close>)
  then show ?thesis using wf by (simp add: ledger_wf_def add_watermark_def)
qed

lemma add_close_wf:
  assumes "ledger_wf l" "run_closed_ok c" "\<not> run_is_closed l (cl_run_id c)" "digests_ok sd"
  shows "ledger_wf (add_close sd c l)"
  using assms by (auto simp: ledger_wf_def add_close_def closes_wf_def run_is_closed_def run_closed_ok_def digests_ok_def
      unpadded_nonempty_not_blank)

lemma add_position_wf:
  assumes "ledger_wf l" "position_close_ok c" "\<not> position_known l (pc_run_id c)"
  shows "ledger_wf (add_position sd c accepted_at l)"
  using assms by (auto simp: ledger_wf_def add_position_def positions_wf_def position_known_def position_close_ok_def row_of_position_def)

lemma ledger_step_wf: "ledger_step event_types sd l l' \<Longrightarrow> digests_ok sd \<Longrightarrow> ledger_wf l \<Longrightarrow> ledger_wf l'"
  by (induction rule: ledger_step.induct) (auto intro: add_chunk_wf add_watermark_wf add_close_wf add_position_wf)

lemma ledger_run_wf: "ledger_run event_types sd l l' \<Longrightarrow> digests_ok sd \<Longrightarrow> ledger_wf l \<Longrightarrow> ledger_wf l'"
  by (induction rule: rtranclp_induct) (auto intro: ledger_step_wf)

section \<open>The ledger only grows\<close>

definition ledger_extends :: "ledger \<Rightarrow> ledger \<Rightarrow> bool" where
  "ledger_extends l l' \<longleftrightarrow> prefix (lg_chunks l) (lg_chunks l') \<and> prefix (lg_events l) (lg_events l')
     \<and> prefix (lg_watermarks l) (lg_watermarks l') \<and> prefix (lg_closes l) (lg_closes l') \<and> prefix (lg_positions l) (lg_positions l')"

lemma ledger_extends_refl [simp]: "ledger_extends l l"
  by (simp add: ledger_extends_def)

lemma ledger_extends_trans: "ledger_extends a b \<Longrightarrow> ledger_extends b c \<Longrightarrow> ledger_extends a c"
  by (auto simp: ledger_extends_def intro: prefix_order.trans)

lemma ledger_step_extends: "ledger_step event_types sd l l' \<Longrightarrow> ledger_extends l l'"
  by (induction rule: ledger_step.induct)
    (simp_all add: ledger_extends_def add_chunk_def add_watermark_def add_close_def add_position_def)

lemma ledger_run_extends: "ledger_run event_types sd l l' \<Longrightarrow> ledger_extends l l'"
  by (induction rule: rtranclp_induct) (auto intro: ledger_extends_trans ledger_step_extends)

lemma extends_closed: "ledger_extends l l' \<Longrightarrow> run_is_closed l r \<Longrightarrow> run_is_closed l' r"
  by (auto simp: ledger_extends_def run_is_closed_def dest: set_mono_prefix)

section \<open>A closed run does not change\<close>

definition run_rows :: "ledger \<Rightarrow> string \<Rightarrow> chunk_row list \<times> event_row list \<times> watermark_row list \<times> close_row list" where
  "run_rows l r = (filter (\<lambda>x. pt_run_id (cr_partition x) = r) (lg_chunks l),
     filter (\<lambda>x. pt_run_id (er_partition x) = r) (lg_events l),
     filter (\<lambda>x. pt_run_id (wr_partition x) = r) (lg_watermarks l), filter (\<lambda>x. xr_run_id x = r) (lg_closes l))"

lemma ledger_step_frozen: "ledger_step event_types sd l l' \<Longrightarrow> run_is_closed l r \<Longrightarrow> run_rows l' r = run_rows l r"
proof (induction rule: ledger_step.induct)
  case (step_chunk c l)
  then have "pt_run_id (ck_partition c) \<noteq> r" by (auto simp: chunk_admissible_def)
  then show ?case by (auto simp: run_rows_def add_chunk_def chunk_row_of_def event_rows_def filter_empty_conv)
next
  case (step_watermark w l)
  then have "pt_run_id (wm_partition w) \<noteq> r" by (auto simp: watermark_admissible_def)
  then show ?case by (simp add: run_rows_def add_watermark_def row_of_watermark_def)
next
  case (step_close c l)
  then have "cl_run_id c \<noteq> r" by auto
  then show ?case by (simp add: run_rows_def add_close_def)
next
  case (step_position c l accepted_at)
  then show ?case by (simp add: run_rows_def add_position_def)
qed

lemma ledger_run_frozen: "ledger_run event_types sd l l' \<Longrightarrow> run_is_closed l r \<Longrightarrow> run_rows l' r = run_rows l r"
proof (induction rule: rtranclp_induct)
  case (step y z)
  have "run_is_closed y r" using extends_closed ledger_run_extends step by blast
  with step ledger_step_frozen show ?case by metis
qed simp

end
