(* ===== verification/StreamDelivery.thy ===== *)
theory StreamDelivery
  imports LedgerSteps
begin

text \<open>
  Deliveries as steps of the ledger: a message that is accepted is settled, stays settled whatever
  is delivered later, and a settled message is a duplicate. The interface the ingress relies on is
  the locale \<open>chunk_ledger\<close>, interpreted on the ledger.
\<close>

section \<open>The interface of the ledger for chunks\<close>

text \<open>
  What the ingress needs of the three operations it calls. \<open>valid\<close> is the invariant of the ledger,
  \<open>good\<close> what is known of a chunk's digests.
\<close>

locale chunk_ledger =
  fixes inspect :: "'l inspect_op" and store_events :: "'l save_events_op" and store_chunk :: "'l save_chunk_op"
    and valid :: "'l \<Rightarrow> bool" and good :: "stream_digests \<Rightarrow> event_chunk \<Rightarrow> bool"
  assumes admitted_stores:
    "valid l \<Longrightarrow> good sd c \<Longrightarrow>
      inspect (ck_partition c) (ck_chunk_id c) (ck_sequence c) (chunk_sha sd c) (event_shas sd c) (event_record_ids c) l = Inr adm
      \<Longrightarrow> \<not> adm_replay adm \<Longrightarrow>
      \<exists>l' l''. store_events (ck_partition c) (event_shas sd c) l = (Inr (adm_new_event_ids adm), l')
        \<and> store_chunk (ck_partition c) (ck_chunk_id c) (ck_sequence c) (chunk_sha sd c) l' = (Inr True, l'')
        \<and> valid l'' \<and> (\<exists>again. inspect (ck_partition c) (ck_chunk_id c) (ck_sequence c) (chunk_sha sd c)
              (event_shas sd c) (event_record_ids c) l'' = Inr again \<and> adm_replay again)"
begin

text \<open>An exception leaves the ledger as it was, without any help of the transaction.\<close>

lemma failed_chunk_keeps_ledger:
  assumes "valid (si_ledger st)" "good sd c"
    "accept_chunk_with inspect store_events store_chunk sink sd now c st = (Inl e, st')"
  shows "si_ledger st' = si_ledger st"
proof (cases "inspect (ck_partition c) (ck_chunk_id c) (ck_sequence c) (chunk_sha sd c) (event_shas sd c) (event_record_ids c) (si_ledger st)")
  case (Inl x)
  with assms(3) show ?thesis by (auto simp: accept_chunk_with_def Let_def split: if_splits)
next
  case (Inr adm)
  show ?thesis
  proof (cases "adm_replay adm")
    case True
    with assms(3) Inr show ?thesis by (auto simp: accept_chunk_with_def Let_def split: if_splits)
  next
    case False
    from admitted_stores [OF assms(1,2) Inr False] assms(3) Inr False show ?thesis
      by (auto simp: accept_chunk_with_def Let_def split: if_splits prod.splits sum.splits)
  qed
qed

text \<open>A chunk that was accepted is a duplicate when it is delivered again.\<close>

lemma redelivered_chunk_is_duplicate:
  assumes "valid (si_ledger st)" "good sd c"
    "accept_chunk_with inspect store_events store_chunk sink sd now c st = (Inr res, st')"
    "res_disposition res = Accepted"
  shows "accept_chunk_with inspect store_events store_chunk sink' sd now' c st' = (Inr (delivery_result_of False []), st')
    \<and> valid (si_ledger st')"
proof -
  obtain adm where adm: "inspect (ck_partition c) (ck_chunk_id c) (ck_sequence c) (chunk_sha sd c) (event_shas sd c) (event_record_ids c) (si_ledger st) = Inr adm"
    "\<not> adm_replay adm" and sha: "chunk_sha sd c = ck_sha c"
    using assms(3,4) by (auto simp: accept_chunk_with_def Let_def delivery_result_of_def split: if_splits sum.splits)
  from admitted_stores [OF assms(1,2) adm] assms(3) adm sha show ?thesis
    by (auto simp: accept_chunk_with_def Let_def split: prod.splits sum.splits)
qed

end

definition chunk_digests_good :: "stream_digests \<Rightarrow> event_chunk \<Rightarrow> bool" where
  "chunk_digests_good sd c \<longleftrightarrow> digests_ok sd \<and> (\<exists>event_types. chunk_ok event_types c) \<and> event_ids_ok c"

lemma add_chunk_in: "chunk_in sd c (add_chunk sd c l)"
  by (simp add: chunk_in_def chunk_recorded_def add_chunk_def chunk_row_of_def)

interpretation stream_ledger: chunk_ledger inspect_chunk_admission save_events save_chunk ledger_wf chunk_digests_good
proof
  fix l sd c adm
  assume wf: "ledger_wf l" and good: "chunk_digests_good sd c" and new: "\<not> adm_replay adm"
    and adm: "inspect_chunk_admission (ck_partition c) (ck_chunk_id c) (ck_sequence c) (chunk_sha sd c)
      (event_shas sd c) (event_record_ids c) l = Inr adm"
  from good obtain event_types where c: "chunk_ok event_types c" "event_ids_ok c" and sd: "digests_ok sd"
    by (auto simp: chunk_digests_good_def)
  note shas = event_shas_ok [OF c sd]
  have ok: "chunk_admissible sd c l" and ids: "adm_new_event_ids adm = map fst (new_events sd c l)"
    using adm new unfolding inspect_outcome [OF wf shas event_record_ids_fst]
    by (auto simp: chunk_admissible_def new_events_def)
  have wf': "ledger_wf (add_chunk sd c l)" using wf c ok sd by (rule add_chunk_wf)
  have "inspect_chunk_admission (ck_partition c) (ck_chunk_id c) (ck_sequence c) (chunk_sha sd c)
      (event_shas sd c) (event_record_ids c) (add_chunk sd c l)
      = Inr \<lparr>adm_replay = True, adm_new_event_ids = [], adm_watermark = None\<rparr>"
    using add_chunk_in [of sd c l] unfolding inspect_outcome [OF wf' shas event_record_ids_fst] by (simp add: chunk_in_def)
  with store_new_chunk [OF wf shas ok] wf' ids
  show "\<exists>l' l''. save_events (ck_partition c) (event_shas sd c) l = (Inr (adm_new_event_ids adm), l')
        \<and> save_chunk (ck_partition c) (ck_chunk_id c) (ck_sequence c) (chunk_sha sd c) l' = (Inr True, l'')
        \<and> ledger_wf l'' \<and> (\<exists>again. inspect_chunk_admission (ck_partition c) (ck_chunk_id c) (ck_sequence c) (chunk_sha sd c)
              (event_shas sd c) (event_record_ids c) l'' = Inr again \<and> adm_replay again)"
    by auto
qed

section \<open>Settled messages\<close>

definition settled :: "stream_digests \<Rightarrow> stream_message \<Rightarrow> ledger \<Rightarrow> bool" where
  "settled sd m l = (case m of
     ChunkMessage c \<Rightarrow> chunk_sha sd c = ck_sha c \<and> chunk_in sd c l
   | WatermarkMessage w \<Rightarrow> watermark_row_in sd w l
   | ClosedMessage c \<Rightarrow> close_row_in sd c l \<and> finals_match c l)"

text \<open>The message passes its model and the contract.\<close>

definition message_valid :: "string set \<Rightarrow> partition_contract \<Rightarrow> stream_message \<Rightarrow> bool" where
  "message_valid event_types contract m = (case m of
     ChunkMessage c \<Rightarrow> chunk_ok event_types c \<and> require_partition contract (ck_partition c) = Inr ()
   | WatermarkMessage w \<Rightarrow> watermark_ok w \<and> require_partition contract (wm_partition w) = Inr ()
   | ClosedMessage c \<Rightarrow> run_closed_ok c \<and> require_close_partitions contract c = Inr ())"

definition message_ids_ok :: "stream_message \<Rightarrow> bool" where
  "message_ids_ok m = (case m of ChunkMessage c \<Rightarrow> event_ids_ok c | _ \<Rightarrow> True)"

lemma checked_call:
  assumes "\<And>y. v = Inr y \<longleftrightarrow> y = x \<and> ok"
  shows "(if ok \<and> q x = Inr () then (case bnd v (\<lambda>c. seq (q c) (Inr c)) of Inl e \<Rightarrow> (Inl e, st) | Inr c \<Rightarrow> f c) = f x
    else (\<exists>e. (case bnd v (\<lambda>c. seq (q c) (Inr c)) of Inl e \<Rightarrow> (Inl e, st) | Inr c \<Rightarrow> f c) = (Inl e, st)))"
proof (cases v)
  case (Inl e)
  then have "\<not> ok" using assms [of x] by auto
  with Inl show ?thesis by simp
next
  case (Inr y)
  then have "y = x" "ok" using assms [of y] by auto
  with Inr show ?thesis by (cases "q x") auto
qed

lemma accept_message_valid:
  "message_valid event_types contract m \<Longrightarrow> accept_message event_types sink sd contract now m st = (case m of
       ChunkMessage c \<Rightarrow> accept_chunk sink sd now c st
     | WatermarkMessage w \<Rightarrow> accept_watermark sd w st
     | ClosedMessage c \<Rightarrow> accept_run_closed sd c st)"
  "\<not> message_valid event_types contract m \<Longrightarrow> \<exists>e. accept_message event_types sink sd contract now m st = (Inl e, st)"
proof -
  have chunk: "if message_valid event_types contract (ChunkMessage c)
      then accept_message event_types sink sd contract now (ChunkMessage c) st = accept_chunk sink sd now c st
      else \<exists>e. accept_message event_types sink sd contract now (ChunkMessage c) st = (Inl e, st)" for c
    using checked_call [where q = "\<lambda>c. require_partition contract (ck_partition c)" and f = "\<lambda>c. accept_chunk sink sd now c st"
        and st = st, OF validate_event_chunk_ok [of event_types c]]
    by (simp only: accept_message_def message_valid_def stream_message.case)
  have watermark: "if message_valid event_types contract (WatermarkMessage w)
      then accept_message event_types sink sd contract now (WatermarkMessage w) st = accept_watermark sd w st
      else \<exists>e. accept_message event_types sink sd contract now (WatermarkMessage w) st = (Inl e, st)" for w
    using checked_call [where q = "\<lambda>w. require_partition contract (wm_partition w)" and f = "\<lambda>w. accept_watermark sd w st"
        and st = st, OF validate_source_watermark_ok [of w]]
    by (simp only: accept_message_def message_valid_def stream_message.case)
  have closed: "if message_valid event_types contract (ClosedMessage c)
      then accept_message event_types sink sd contract now (ClosedMessage c) st = accept_run_closed sd c st
      else \<exists>e. accept_message event_types sink sd contract now (ClosedMessage c) st = (Inl e, st)" for c
    using checked_call [where q = "\<lambda>c. require_close_partitions contract c" and f = "\<lambda>c. accept_run_closed sd c st"
        and st = st, OF validate_run_closed_ok [of c]]
    by (simp only: accept_message_def message_valid_def stream_message.case)
  show "message_valid event_types contract m \<Longrightarrow> accept_message event_types sink sd contract now m st = (case m of
       ChunkMessage c \<Rightarrow> accept_chunk sink sd now c st
     | WatermarkMessage w \<Rightarrow> accept_watermark sd w st
     | ClosedMessage c \<Rightarrow> accept_run_closed sd c st)"
    using chunk watermark closed by (cases m) (simp_all split: if_splits)
  show "\<not> message_valid event_types contract m \<Longrightarrow> \<exists>e. accept_message event_types sink sd contract now m st = (Inl e, st)"
    using chunk watermark closed by (cases m) (metis, metis, metis)
qed

text \<open>The event ids a delivery forwards.\<close>

definition forwarded :: "stream_message \<Rightarrow> delivery_result \<Rightarrow> (stream_partition \<times> string) list" where
  "forwarded m res = (case m of ChunkMessage c \<Rightarrow> map (Pair (ck_partition c)) (res_new_event_ids res) | _ \<Rightarrow> [])"

definition delivery_effect :: "string set \<Rightarrow> stream_digests \<Rightarrow> stream_message \<Rightarrow> ledger stream_state
    \<Rightarrow> delivery_result result \<Rightarrow> ledger stream_state \<Rightarrow> bool" where
  "delivery_effect event_types sd m st r st' = (case r of
     Inl e \<Rightarrow> si_ledger st' = si_ledger st
   | Inr res \<Rightarrow> settled sd m (si_ledger st') \<and> si_dead_letters st' = si_dead_letters st
       \<and> map event_key (lg_events (si_ledger st')) = map event_key (lg_events (si_ledger st)) @ forwarded m res
       \<and> (if res_disposition res = Accepted then ledger_step event_types sd (si_ledger st) (si_ledger st')
          else st' = st))"

lemma event_keys_add_chunk:
  "map event_key (lg_events (add_chunk sd c l)) = map event_key (lg_events l) @ map (Pair (ck_partition c)) (map fst (new_events sd c l))"
  by (auto simp: add_chunk_def event_rows_def)

lemma accept_chunk_effect:
  assumes wf: "ledger_wf (si_ledger st)" and c: "chunk_ok event_types c" "event_ids_ok c" and sd: "digests_ok sd"
    and res: "accept_chunk sink sd now c st = (r, st')"
  shows "delivery_effect event_types sd (ChunkMessage c) st r st'"
proof -
  note shas = event_shas_ok [OF c sd]
  consider (dup) "chunk_sha sd c = ck_sha c" "chunk_in sd c (si_ledger st)"
    | (new) "chunk_sha sd c = ck_sha c" "chunk_admissible sd c (si_ledger st)"
    | (no) "chunk_sha sd c \<noteq> ck_sha c \<or> (\<not> chunk_in sd c (si_ledger st) \<and> \<not> chunk_admissible sd c (si_ledger st))"
    by blast
  then show ?thesis
  proof cases
    case dup
    with accept_chunk_duplicate [OF wf shas, of sink now] res show ?thesis
      by (auto simp: delivery_effect_def settled_def delivery_result_of_def forwarded_def)
  next
    case no
    from accept_chunk_refused [OF wf shas no, of sink now] res show ?thesis by (auto simp: delivery_effect_def)
  next
    case new
    show ?thesis
    proof (cases "no_late_event c (si_ledger st)")
      case True
      with new have "ledger_step event_types sd (si_ledger st) (add_chunk sd c (si_ledger st))"
        using c by (intro step_chunk)
      with True accept_chunk_new [OF wf shas new, of sink now] res new(1) show ?thesis
        by (auto simp: delivery_effect_def settled_def delivery_result_of_def forwarded_def add_chunk_in event_keys_add_chunk simp del: map_map)
    next
      case False
      with accept_chunk_new [OF wf shas new, of sink now] res show ?thesis
        by (auto simp: delivery_effect_def split: prod.splits)
    qed
  qed
qed

lemma accept_watermark_effect:
  assumes wf: "ledger_wf (si_ledger st)" and w: "watermark_ok w" and res: "accept_watermark sd w st = (r, st')"
  shows "delivery_effect event_types sd (WatermarkMessage w) st r st'"
proof -
  consider "watermark_row_in sd w (si_ledger st)" | "watermark_admissible w (si_ledger st)"
    | "\<not> watermark_row_in sd w (si_ledger st)" "\<not> watermark_admissible w (si_ledger st)" by blast
  then show ?thesis
  proof cases
    case 1
    with save_watermark_duplicate [OF wf 1] res show ?thesis
      by (auto simp: accept_watermark_def delivery_effect_def settled_def delivery_result_of_def forwarded_def)
  next
    case 2
    have "watermark_row_in sd w (add_watermark sd w (si_ledger st))"
      by (simp add: watermark_row_in_def add_watermark_def row_of_watermark_def)
    with save_watermark_new [OF wf 2, of sd] res step_watermark [OF w 2] show ?thesis
      by (auto simp: accept_watermark_def delivery_effect_def settled_def delivery_result_of_def forwarded_def add_watermark_def)
  next
    case 3
    from save_watermark_refused [OF wf this] res show ?thesis
      by (auto simp: accept_watermark_def delivery_effect_def)
  qed
qed

lemma finals_match_add_close [simp]: "finals_match c (add_close sd d l) = finals_match c l"
  by (simp add: finals_match_def run_partitions_def watermarks_of_def add_close_def)

lemma accept_closed_effect:
  assumes wf: "ledger_wf (si_ledger st)" and c: "run_closed_ok c" and res: "accept_run_closed sd c st = (r, st')"
  shows "delivery_effect event_types sd (ClosedMessage c) st r st'"
proof (cases "assert_final_watermarks_match (cl_finals c) (si_ledger st)")
  case (Inl e)
  with res show ?thesis by (auto simp: accept_run_closed_def delivery_effect_def)
next
  case (Inr u)
  then have match: "finals_match c (si_ledger st)" using assert_finals_ok [OF wf c] by simp
  show ?thesis
  proof (cases "run_is_closed (si_ledger st) (cl_run_id c)")
    case True
    from save_close_known [OF wf True, of sd] res Inr match show ?thesis
      by (auto simp: accept_run_closed_def delivery_effect_def settled_def delivery_result_of_def forwarded_def split: prod.splits if_splits)
  next
    case False
    have "close_row_in sd c (add_close sd c (si_ledger st))" by (simp add: close_row_in_def add_close_def)
    with save_close_new [OF False, of sd] res Inr match step_close [OF c False match] show ?thesis
      by (auto simp: accept_run_closed_def delivery_effect_def settled_def delivery_result_of_def forwarded_def)
        (simp add: add_close_def)
  qed
qed

lemma accept_message_effect:
  assumes "ledger_wf (si_ledger st)" "digests_ok sd" "message_ids_ok m"
    and res: "accept_message event_types sink sd contract now m st = (r, st')"
  shows "delivery_effect event_types sd m st r st'"
proof (cases "message_valid event_types contract m")
  case True
  with res have "(case m of ChunkMessage c \<Rightarrow> accept_chunk sink sd now c st
     | WatermarkMessage w \<Rightarrow> accept_watermark sd w st | ClosedMessage c \<Rightarrow> accept_run_closed sd c st) = (r, st')"
    using accept_message_valid(1) [OF True, of sink sd now st] by simp
  with True assms show ?thesis
    by (cases m) (auto simp: message_valid_def message_ids_ok_def
        intro: accept_chunk_effect accept_watermark_effect accept_closed_effect)
next
  case False
  then show ?thesis
    using res accept_message_valid(2) [OF False, of sink sd now st] by (auto simp: delivery_effect_def)
qed

text \<open>What the acceptance of a chunk says of it.\<close>

lemma accepted_chunk:
  assumes wf: "ledger_wf (si_ledger st)" and sd: "digests_ok sd" and ids: "message_ids_ok (ChunkMessage c)"
    and res: "accept_message event_types sink sd contract now (ChunkMessage c) st = (Inr res, st')"
  shows "res_disposition res = Accepted \<or> res_new_event_ids res \<noteq> [] \<Longrightarrow> chunk_ok event_types c \<and> chunk_sha sd c = ck_sha c
    \<and> chunk_admissible sd c (si_ledger st) \<and> no_late_event c (si_ledger st)
    \<and> res_new_event_ids res = map fst (new_events sd c (si_ledger st)) \<and> si_ledger st' = add_chunk sd c (si_ledger st)"
proof -
  assume acc: "res_disposition res = Accepted \<or> res_new_event_ids res \<noteq> []"
  have valid: "message_valid event_types contract (ChunkMessage c)"
    using accept_message_valid(2) [of event_types contract "ChunkMessage c" sink sd now st] res by auto
  then have c: "chunk_ok event_types c" "event_ids_ok c" using ids by (simp_all add: message_valid_def message_ids_ok_def)
  note shas = event_shas_ok [OF c sd]
  have call: "accept_chunk sink sd now c st = (Inr res, st')" using res accept_message_valid(1) [OF valid] by simp
  have sha: "chunk_sha sd c = ck_sha c" using accept_chunk_refused [OF wf shas, of sink now] call by auto
  have "\<not> chunk_in sd c (si_ledger st)"
    using accept_chunk_duplicate [OF wf shas sha, of sink now] call acc by (auto simp: delivery_result_of_def)
  then have adm: "chunk_admissible sd c (si_ledger st)" using accept_chunk_refused [OF wf shas, of sink now] call by auto
  show ?thesis
    using accept_chunk_new [OF wf shas sha adm, of sink now] call c sha adm
    by (auto simp: delivery_result_of_def split: if_splits prod.splits)
qed

section \<open>Settled messages stay settled\<close>

lemma run_rows_watermarks:
  assumes "run_rows l' r = run_rows l r" "pt_run_id p = r"
  shows "watermarks_of l' p = watermarks_of l p"
proof -
  have of_run: "watermarks_of k p = filter (\<lambda>x. wr_partition x = p) (fst (snd (snd (run_rows k r))))" for k
    using assms(2) by (auto simp: watermarks_of_def run_rows_def intro: filter_cong)
  show ?thesis unfolding of_run assms(1) ..
qed

lemma run_rows_partitions:
  assumes "run_rows l' r = run_rows l r"
  shows "run_partitions l' r = run_partitions l r"
proof -
  have of_run: "run_partitions k r = cr_partition ` set (fst (run_rows k r)) \<union> wr_partition ` set (fst (snd (snd (run_rows k r))))" for k
    by (auto simp: run_partitions_def run_rows_def)
  show ?thesis unfolding of_run assms ..
qed

lemma finals_match_frozen:
  assumes "run_rows l' (cl_run_id c) = run_rows l (cl_run_id c)" "run_closed_ok c" "finals_match c l"
  shows "finals_match c l'"
proof -
  have "watermarks_of l' (fw_partition f) = watermarks_of l (fw_partition f)" if "f \<in> set (cl_finals c)" for f
    using assms(1) by (rule run_rows_watermarks) (use assms(2) that in \<open>simp add: run_closed_ok_def\<close>)
  with assms(3) run_rows_partitions [OF assms(1)] show ?thesis by (simp add: finals_match_def)
qed

lemma settled_run:
  assumes run: "ledger_run event_types sd l l'" and m: "message_valid event_types' contract m" and s: "settled sd m l"
  shows "settled sd m l'"
proof (cases m)
  case (ChunkMessage c)
  moreover have "set (lg_chunks l) \<subseteq> set (lg_chunks l')"
    using ledger_run_extends [OF run] by (auto simp: ledger_extends_def dest: set_mono_prefix)
  ultimately show ?thesis using s by (auto simp: settled_def chunk_in_def chunk_recorded_def)
next
  case (WatermarkMessage w)
  then have "watermark_row_in sd w l" using s by (simp add: settled_def)
  moreover have "set (lg_watermarks l) \<subseteq> set (lg_watermarks l')"
    using ledger_run_extends [OF run] by (auto simp: ledger_extends_def dest: set_mono_prefix)
  ultimately show ?thesis using WatermarkMessage by (auto simp: settled_def watermark_row_in_def)
next
  case (ClosedMessage c)
  then have close: "close_row_in sd c l" "finals_match c l" and c: "run_closed_ok c"
    using s m by (auto simp: settled_def message_valid_def)
  have "set (lg_closes l) \<subseteq> set (lg_closes l')"
    using ledger_run_extends [OF run] by (auto simp: ledger_extends_def dest: set_mono_prefix)
  then have "close_row_in sd c l'" using close(1) by (auto simp: close_row_in_def)
  moreover have "run_is_closed l (cl_run_id c)" using close(1) by (auto simp: close_row_in_def run_is_closed_def)
  then have "finals_match c l'" by (rule finals_match_frozen [OF ledger_run_frozen [OF run] c close(2)])
  ultimately show ?thesis using ClosedMessage by (simp add: settled_def)
qed

lemma settled_duplicate:
  assumes wf: "ledger_wf (si_ledger st)" and sd: "digests_ok sd" and m: "message_valid event_types contract m" "message_ids_ok m"
    and s: "settled sd m (si_ledger st)"
  shows "accept_message event_types sink sd contract now m st = (Inr (delivery_result_of False []), st)"
proof (cases m)
  case (ChunkMessage c)
  then have c: "chunk_ok event_types c" "event_ids_ok c" and s: "chunk_sha sd c = ck_sha c" "chunk_in sd c (si_ledger st)"
    using m s by (auto simp: message_valid_def message_ids_ok_def settled_def)
  show ?thesis
    using accept_message_valid(1) [OF m(1)] ChunkMessage accept_chunk_duplicate [OF wf event_shas_ok [OF c sd] s] by simp
next
  case (WatermarkMessage w)
  then have "watermark_row_in sd w (si_ledger st)" using s by (simp add: settled_def)
  from save_watermark_duplicate [OF wf this] show ?thesis
    using accept_message_valid(1) [OF m(1)] WatermarkMessage by (simp add: accept_watermark_def)
next
  case (ClosedMessage c)
  then have s: "close_row_in sd c (si_ledger st)" "finals_match c (si_ledger st)" and c: "run_closed_ok c"
    using s m by (auto simp: settled_def message_valid_def)
  have closed: "run_is_closed (si_ledger st) (cl_run_id c)" using s(1) by (auto simp: close_row_in_def run_is_closed_def)
  show ?thesis
    using accept_message_valid(1) [OF m(1)] ClosedMessage save_close_known [OF wf closed, of sd] s assert_finals_ok [OF wf c]
    by (simp add: accept_run_closed_def)
qed

section \<open>Histories of deliveries\<close>

lemma transaction_message:
  assumes "ledger_wf (si_ledger st)" "digests_ok sd" "message_ids_ok m"
  shows "transaction (accept_message event_types sink sd contract now m) st = accept_message event_types sink sd contract now m st"
proof -
  obtain r st' where res: "accept_message event_types sink sd contract now m st = (r, st')" by fastforce
  from accept_message_effect [OF assms res] res show ?thesis
    by (cases r) (auto simp: transaction_def delivery_effect_def)
qed

text \<open>
  The messages and position closes one ledger was given, with the event ids forwarded on the way;
  every call may raise, and is then undone.
\<close>

inductive delivered :: "string set \<Rightarrow> stream_digests \<Rightarrow> partition_contract \<Rightarrow> dead_letter_sink \<Rightarrow> ledger stream_state
    \<Rightarrow> (stream_partition \<times> string) list \<Rightarrow> ledger stream_state \<Rightarrow> bool" for event_types sd contract sink st where
  delivered_none: "delivered event_types sd contract sink st [] st"
| delivered_message: "delivered event_types sd contract sink st ids st' \<Longrightarrow> message_ids_ok m
    \<Longrightarrow> transaction (accept_message event_types sink sd contract now m) st' = (r, st'')
    \<Longrightarrow> delivered event_types sd contract sink st (ids @ (case r of Inl e \<Rightarrow> [] | Inr res \<Rightarrow> forwarded m res)) st''"
| delivered_position: "delivered event_types sd contract sink st ids st' \<Longrightarrow> position_close_ok c
    \<Longrightarrow> transaction (accept_position_close sd contract now c) st' = (pr, st'')
    \<Longrightarrow> delivered event_types sd contract sink st ids st''"

lemma message_step:
  assumes "ledger_wf (si_ledger st)" "digests_ok sd" "message_ids_ok m"
    "transaction (accept_message event_types sink sd contract now m) st = (r, st')"
  shows "ledger_run event_types sd (si_ledger st) (si_ledger st')
    \<and> map event_key (lg_events (si_ledger st')) = map event_key (lg_events (si_ledger st)) @ (case r of Inl e \<Rightarrow> [] | Inr res \<Rightarrow> forwarded m res)"
proof -
  have "delivery_effect event_types sd m st r st'"
    using assms transaction_message [OF assms(1-3)] by (intro accept_message_effect) auto
  then show ?thesis by (cases r) (auto simp: delivery_effect_def split: if_splits)
qed

lemma position_step:
  assumes "ledger_wf (si_ledger st)" "position_close_ok c"
    "transaction (accept_position_close sd contract now c) st = (r, st')"
  shows "ledger_run event_types sd (si_ledger st) (si_ledger st') \<and> lg_events (si_ledger st') = lg_events (si_ledger st)"
proof (cases r)
  case (Inl e)
  with assms(3) show ?thesis by (auto simp: transaction_def split: prod.splits sum.splits)
next
  case (Inr x)
  obtain accepted receipt where x: "x = (accepted, receipt)" by fastforce
  from Inr assms(3) have "accept_position_close sd contract now c st = (Inr (accepted, receipt), st')"
    by (auto simp: transaction_def x split: prod.splits sum.splits)
  then obtain accepted_at where "save_position_close (sd_position sd) (sd_covered sd) c (sd_position sd c) accepted_at (si_ledger st)
      = (Inr (accepted, receipt), si_ledger st')"
    by (auto simp: accept_position_close_def split: sum.splits prod.splits)
  from save_position_outcome [OF assms(1,2) this] show ?thesis
    using step_position [OF assms(2), of "si_ledger st" sd event_types accepted_at]
    by (cases accepted) (auto simp: add_position_def)
qed

lemma delivered_run:
  "delivered event_types sd contract sink st ids st' \<Longrightarrow> digests_ok sd \<Longrightarrow> ledger_wf (si_ledger st) \<Longrightarrow>
    ledger_run event_types sd (si_ledger st) (si_ledger st') \<and> ledger_wf (si_ledger st')
    \<and> map event_key (lg_events (si_ledger st')) = map event_key (lg_events (si_ledger st)) @ ids"
proof (induction rule: delivered.induct)
  case delivered_none
  then show ?case by simp
next
  case (delivered_message ids st' m now r st'')
  then have IH: "ledger_run event_types sd (si_ledger st) (si_ledger st')" "ledger_wf (si_ledger st')"
    "map event_key (lg_events (si_ledger st')) = map event_key (lg_events (si_ledger st)) @ ids" by auto
  from message_step [OF IH(2) delivered_message.prems(1) delivered_message.hyps(2,3)] IH delivered_message.prems show ?case
    by (auto intro: ledger_run_wf)
next
  case (delivered_position ids st' c now r st'')
  then have IH: "ledger_run event_types sd (si_ledger st) (si_ledger st')" "ledger_wf (si_ledger st')"
    "map event_key (lg_events (si_ledger st')) = map event_key (lg_events (si_ledger st)) @ ids" by auto
  from position_step [OF IH(2) delivered_position.hyps(2,3), of event_types] IH delivered_position.prems show ?case
    by (auto intro: ledger_run_wf)
qed

section \<open>The spool\<close>

lemma bnd_bnd: "bnd (bnd r f) g = bnd r (\<lambda>x. bnd (f x) g)"
  by (cases r) auto

definition acked :: "string \<Rightarrow> disposition \<Rightarrow> ledger stream_state \<Rightarrow> ledger spool_state \<Rightarrow> ledger spool_state" where
  "acked path d st s = s\<lparr>so_stream := st, so_acks := (so_acks s)(path \<mapsto> d)\<rparr>"

lemma acked_fields [simp]:
  "so_stream (acked path d st s) = st"
  "so_acks (acked path d st s) = (so_acks s)(path \<mapsto> d)"
  by (simp_all add: acked_def)

lemma consume_spool_Cons:
  "consume_spool_once event_types sd contract now ((path, m) # files) s =
     (if so_acks s path \<noteq> None then consume_spool_once event_types sd contract now files s
      else case transaction (accept_message event_types file_sink sd contract (now path) m) (so_stream s) of
        (Inl e, st) \<Rightarrow> (Inl e, s\<lparr>so_stream := st\<rparr>)
      | (Inr res, st) \<Rightarrow> (case utc_milliseconds (now path) of
          Inl e \<Rightarrow> (Inl e, s\<lparr>so_stream := st\<rparr>)
        | Inr accepted_at \<Rightarrow> (case consume_spool_once event_types sd contract now files (acked path (res_disposition res) st s) of
            (r, s') \<Rightarrow> (bnd r (\<lambda>paths. Inr (path # paths)), s'))))"
  unfolding acked_def by (rule consume_spool_once.simps(2))

lemma consume_append:
  "consume_spool_once event_types sd contract now (xs @ ys) s =
    (case consume_spool_once event_types sd contract now xs s of
       (Inl e, s') \<Rightarrow> (Inl e, s')
     | (Inr p, s') \<Rightarrow> (case consume_spool_once event_types sd contract now ys s' of
         (r, s'') \<Rightarrow> (bnd r (\<lambda>q. Inr (p @ q)), s'')))"
proof (induction xs arbitrary: s)
  case Nil
  have "bnd r (\<lambda>q. Inr q) = r" for r :: "string list result" by (cases r) auto
  then show ?case by (simp split: prod.splits)
next
  case (Cons x xs)
  obtain path m where x: "x = (path, m)" by fastforce
  show ?case
    by (cases "so_acks s path")
      (auto simp: x Cons.IH bnd_bnd consume_spool_Cons simp del: consume_spool_once.simps split: sum.splits prod.splits)
qed

text \<open>A pass that ends without an exception acknowledges every file and settles every message it handled.\<close>

definition clock_aware :: "(string \<Rightarrow> datetime) \<Rightarrow> bool" where
  "clock_aware now \<longleftrightarrow> (\<forall>p. utcoffset (now p) \<noteq> None)"

lemma utc_milliseconds_aware: "utcoffset t \<noteq> None \<Longrightarrow> \<exists>u. utc_milliseconds t = Inr u"
  by (auto simp: utc_milliseconds_def Let_def)

lemma utc_milliseconds_ok: "utc_milliseconds v = Inr u \<Longrightarrow> is_utc u \<and> ms_aligned u"
proof -
  assume "utc_milliseconds v = Inr u"
  then have u: "u = (utc (instant v))\<lparr>wall := instant v - instant v mod 1000000 + microsecond v div 1000 * 1000\<rparr>"
    by (auto simp: utc_milliseconds_def Let_def astimezone_utc_def utc_def microsecond_def split: if_splits)
  have "instant v - instant v mod 1000000 = 1000 * (1000 * (instant v div 1000000))" by (simp add: minus_mod_eq_mult_div)
  then show ?thesis by (simp add: u is_utc_def utc_def ms_aligned_iff)
qed

lemma consume_pass:
  assumes "consume_spool_once event_types sd contract now files s = (Inr paths, s')"
    "digests_ok sd" "ledger_wf (si_ledger (so_stream s))" "\<And>p m. (p, m) \<in> set files \<Longrightarrow> message_ids_ok m" "distinct (map fst files)"
  shows "dom (so_acks s') = dom (so_acks s) \<union> fst ` set files
    \<and> ledger_run event_types sd (si_ledger (so_stream s)) (si_ledger (so_stream s'))
    \<and> (\<forall>p m. (p, m) \<in> set files \<longrightarrow> so_acks s p = None \<longrightarrow> message_valid event_types contract m \<and> settled sd m (si_ledger (so_stream s')))"
  using assms
proof (induction files arbitrary: s paths)
  case Nil
  then show ?case by simp
next
  case (Cons x files)
  obtain path m where x: "x = (path, m)" by fastforce
  have prems: "\<And>p m. (p, m) \<in> set files \<Longrightarrow> message_ids_ok m" "distinct (map fst files)" "message_ids_ok m"
    using Cons.prems(4,5) x by auto
  have fresh: "p \<noteq> path" if "(p, k) \<in> set files" for p k using Cons.prems(5) x that by force
  show ?case
  proof (cases "so_acks s path")
    case (Some d)
    then have "consume_spool_once event_types sd contract now files s = (Inr paths, s')" using Cons.prems(1) x by simp
    from Cons.IH [OF this Cons.prems(2,3) prems(1,2)] Some show ?thesis by (auto simp: x)
  next
    case None
    obtain r st where call: "accept_message event_types file_sink sd contract (now path) m (so_stream s) = (r, st)" by fastforce
    note tr = transaction_message [OF Cons.prems(3,2) prems(3), of event_types file_sink contract "now path"]
    obtain res paths' where r: "r = Inr res"
      and rest: "consume_spool_once event_types sd contract now files (acked path (res_disposition res) st s) = (Inr paths', s')"
      using Cons.prems(1) None tr call unfolding x consume_spool_Cons by (auto split: sum.splits prod.splits)
    have "delivery_effect event_types sd m (so_stream s) r st"
      using accept_message_effect [OF Cons.prems(3,2) prems(3) call] .
    then have step: "ledger_run event_types sd (si_ledger (so_stream s)) (si_ledger st)" "settled sd m (si_ledger st)"
      using r by (auto simp: delivery_effect_def split: if_splits)
    have valid: "message_valid event_types contract m"
      using accept_message_valid(2) [of event_types contract m file_sink sd "now path" "so_stream s"] call r by auto
    have wf: "ledger_wf (si_ledger (so_stream (acked path (res_disposition res) st s)))"
      using ledger_run_wf [OF step(1) Cons.prems(2,3)] by simp
    have IH: "dom (so_acks s') = insert path (dom (so_acks s)) \<union> fst ` set files"
      "ledger_run event_types sd (si_ledger st) (si_ledger (so_stream s'))"
      "\<forall>p m. (p, m) \<in> set files \<longrightarrow> ((so_acks s)(path \<mapsto> res_disposition res)) p = None \<longrightarrow>
        message_valid event_types contract m \<and> settled sd m (si_ledger (so_stream s'))"
      using Cons.IH [OF rest Cons.prems(2) wf prems(1,2)] by auto
    note run = IH(2)
    have "settled sd m (si_ledger (so_stream s'))" using settled_run [OF run valid step(2)] .
    moreover have "message_valid event_types contract k \<and> settled sd k (si_ledger (so_stream s'))"
      if "(p, k) \<in> set files" "so_acks s p = None" for p k
      using IH(3) that fresh by simp
    moreover have "dom (so_acks s') = dom (so_acks s) \<union> fst ` set (x # files)" using IH(1) x by simp
    moreover have "ledger_run event_types sd (si_ledger (so_stream s)) (si_ledger (so_stream s'))" using step(1) run by simp
    ultimately show ?thesis using valid by (simp add: x)
  qed
qed

text \<open>Handling settled files again changes nothing but the acks.\<close>

lemma consume_settled:
  assumes "digests_ok sd" "ledger_wf (si_ledger (so_stream s))" "clock_aware now"
    "\<And>p m. (p, m) \<in> set files \<Longrightarrow> message_ids_ok m \<and> message_valid event_types contract m \<and> settled sd m (si_ledger (so_stream s))"
  shows "\<exists>paths s'. consume_spool_once event_types sd contract now files s = (Inr paths, s')
    \<and> so_stream s' = so_stream s \<and> dom (so_acks s') = dom (so_acks s) \<union> fst ` set files"
  using assms(2-)
proof (induction files arbitrary: s)
  case Nil
  then show ?case by simp
next
  case (Cons x files)
  obtain path m where x: "x = (path, m)" by fastforce
  have rest: "message_ids_ok m \<and> message_valid event_types contract m \<and> settled sd m (si_ledger (so_stream s))"
    if "(p, m) \<in> set files" for p m using Cons.prems(3) [of p m] that by simp
  show ?case
  proof (cases "so_acks s path")
    case (Some d)
    have "\<exists>paths s'. consume_spool_once event_types sd contract now files s = (Inr paths, s')
      \<and> so_stream s' = so_stream s \<and> dom (so_acks s') = dom (so_acks s) \<union> fst ` set files"
      by (rule Cons.IH) (use Cons.prems(1,2) rest in simp_all)
    then obtain paths s' where
      "consume_spool_once event_types sd contract now files s = (Inr paths, s')" "so_stream s' = so_stream s"
      "dom (so_acks s') = dom (so_acks s) \<union> fst ` set files" by blast
    with Some show ?thesis by (auto simp: x)
  next
    case None
    have m: "message_ids_ok m" "message_valid event_types contract m" "settled sd m (si_ledger (so_stream s))"
      using Cons.prems(3) x by auto
    have call: "transaction (accept_message event_types file_sink sd contract (now path) m) (so_stream s)
        = (Inr (delivery_result_of False []), so_stream s)"
      using settled_duplicate [OF Cons.prems(1) assms(1) m(2,1,3)] by (simp add: transaction_def)
    let ?s = "acked path (res_disposition (delivery_result_of False [])) (so_stream s) s"
    obtain u where u: "utc_milliseconds (now path) = Inr u"
      using utc_milliseconds_aware [of "now path"] Cons.prems(2) by (auto simp: clock_aware_def)
    have "\<exists>paths s'. consume_spool_once event_types sd contract now files ?s = (Inr paths, s')
      \<and> so_stream s' = so_stream ?s \<and> dom (so_acks s') = dom (so_acks ?s) \<union> fst ` set files"
      by (rule Cons.IH) (use Cons.prems(1,2) rest in simp_all)
    then obtain paths s' where "consume_spool_once event_types sd contract now files ?s = (Inr paths, s')"
      "so_stream s' = so_stream s" "dom (so_acks s') = insert path (dom (so_acks s)) \<union> fst ` set files" by auto
    with None call u show ?thesis unfolding x consume_spool_Cons by simp
  qed
qed

text \<open>A pass reads only the acks of its own files.\<close>

lemma consume_acks_cong:
  assumes "so_stream s = so_stream t" "\<And>p. p \<in> fst ` set files \<Longrightarrow> so_acks s p = so_acks t p"
  shows "fst (consume_spool_once event_types sd contract now files s) = fst (consume_spool_once event_types sd contract now files t)
    \<and> so_stream (snd (consume_spool_once event_types sd contract now files s)) = so_stream (snd (consume_spool_once event_types sd contract now files t))"
  using assms
proof (induction files arbitrary: s t)
  case Nil
  then show ?case by simp
next
  case (Cons x files)
  obtain path m where x: "x = (path, m)" by fastforce
  have same: "so_acks s path = so_acks t path" using Cons.prems(2) x by simp
  show ?case
  proof (cases "so_acks s path")
    case (Some d)
    have "fst (consume_spool_once event_types sd contract now files s) = fst (consume_spool_once event_types sd contract now files t)
      \<and> so_stream (snd (consume_spool_once event_types sd contract now files s)) = so_stream (snd (consume_spool_once event_types sd contract now files t))"
      by (rule Cons.IH) (use Cons.prems in simp_all)
    with Some same show ?thesis by (simp add: x)
  next
    case None
    have "fst (consume_spool_once event_types sd contract now files (acked path d st s)) = fst (consume_spool_once event_types sd contract now files (acked path d st t))
      \<and> so_stream (snd (consume_spool_once event_types sd contract now files (acked path d st s)))
        = so_stream (snd (consume_spool_once event_types sd contract now files (acked path d st t)))" for d st
      by (rule Cons.IH) (use Cons.prems in simp_all)
    then show ?thesis
      using None same Cons.prems(1) unfolding x consume_spool_Cons by (simp split: prod.splits sum.splits) (metis fst_conv snd_conv)
  qed
qed

section \<open>Covered chunks\<close>

definition received :: "ledger \<Rightarrow> stream_partition \<Rightarrow> int set" where
  "received l p = {n. \<exists>r \<in> set (lg_chunks l). cr_partition r = p \<and> cr_sequence r = n}"

lemma received_covered: "set (map cr_sequence (select_covered_chunks l p n)) = received l p \<inter> {..n}"
  by (auto simp: select_covered_chunks_def received_def)

lemma received_pos: "ledger_wf l \<Longrightarrow> m \<in> received l p \<Longrightarrow> 1 \<le> m"
  by (auto simp: ledger_wf_def chunks_wf_def received_def)

text \<open>The count, minimum and maximum of the covered sequences say that none is missing.\<close>

lemma watermark_covers_iff:
  assumes wf: "ledger_wf l" and n: "1 \<le> aw_covered w"
  shows "watermark_covers_received_chunks l p w \<longleftrightarrow> {1..aw_covered w} \<subseteq> received l p"
proof -
  let ?s = "set (map cr_sequence (select_covered_chunks l p (aw_covered w)))"
  have sub: "?s \<subseteq> {1..aw_covered w}" unfolding received_covered using received_pos [OF wf] by auto
  have eq: "?s = {1..aw_covered w} \<longleftrightarrow> {1..aw_covered w} \<subseteq> received l p"
    using sub unfolding received_covered by auto
  have "watermark_covers_received_chunks l p w \<longleftrightarrow> ?s = {1..aw_covered w}"
  proof
    assume "watermark_covers_received_chunks l p w"
    then have "int (card ?s) = aw_covered w" unfolding watermark_covers_received_chunks_def Let_def by (rule conjunct1)
    then have "card ?s = nat (aw_covered w)" by linarith
    then have "card ?s = card {1..aw_covered w}" by (simp only: card_atLeastAtMost_int add_diff_cancel_right')
    with sub show "?s = {1..aw_covered w}" by (intro card_subset_eq) auto
  next
    assume full: "?s = {1..aw_covered w}"
    have "Min {1..aw_covered w} = 1" "Max {1..aw_covered w} = aw_covered w" using n by (auto intro!: Min_eqI Max_eqI)
    with full n show "watermark_covers_received_chunks l p w"
      unfolding watermark_covers_received_chunks_def Let_def full by simp
  qed
  with eq show ?thesis by simp
qed

lemma active_watermark_iff:
  assumes wf: "ledger_wf l"
  shows "active_watermark l p = Some w \<longleftrightarrow>
    watermarks_of l p \<noteq> [] \<and> w = last (watermarks_of l p) \<and> {1..wr_covered w} \<subseteq> received l p"
proof (cases "watermarks_of l p = []")
  case True
  then show ?thesis by (simp add: active_watermark_def select_latest_watermark_eq [OF wf])
next
  case False
  let ?w = "last (watermarks_of l p)"
  have "?w \<in> set (lg_watermarks l)" using last_in_set [OF False] by (auto simp: watermarks_of_def)
  then have "1 \<le> aw_covered (binding_of ?w)" using wf by (auto simp: ledger_wf_def watermarks_wf_def binding_of_def)
  from watermark_covers_iff [OF wf this, of p] False show ?thesis
    by (auto simp: active_watermark_def select_latest_watermark_eq [OF wf] binding_of_def)
qed

lemma covered_chunks_iff:
  assumes wf: "ledger_wf l" and n: "0 \<le> n"
  shows "map cr_sequence (select_covered_chunks l p n) = [1..n] \<longleftrightarrow> {1..n} \<subseteq> received l p"
proof
  assume "map cr_sequence (select_covered_chunks l p n) = [1..n]"
  then have "set [1..n] = received l p \<inter> {..n}" using received_covered by metis
  then show "{1..n} \<subseteq> received l p" by auto
next
  assume sub: "{1..n} \<subseteq> received l p"
  have "distinct (map cr_sequence (filter (\<lambda>r. cr_partition r = p \<and> cr_sequence r \<le> n) (lg_chunks l)))"
  proof -
    have "inj_on cr_sequence {r \<in> set (lg_chunks l). cr_partition r = p}" "distinct (lg_chunks l)"
      using wf by (auto simp: ledger_wf_def chunks_wf_def distinct_map inj_on_def)
    then show ?thesis by (auto simp: distinct_map inj_on_def)
  qed
  then have "distinct (map cr_sequence (select_covered_chunks l p n))" "sorted (map cr_sequence (select_covered_chunks l p n))"
    by (auto simp: select_covered_chunks_def distinct_map)
  moreover have "set (map cr_sequence (select_covered_chunks l p n)) = set [1..n]"
    unfolding received_covered using sub received_pos [OF wf] by auto
  ultimately show "map cr_sequence (select_covered_chunks l p n) = [1..n]"
    by (intro sorted_distinct_set_unique) auto
qed

section \<open>The watermark rows of a history\<close>

text \<open>Every stored watermark came from a valid message, so a dead letter naming it is valid.\<close>

definition watermark_rows_valid :: "ledger \<Rightarrow> bool" where
  "watermark_rows_valid l \<longleftrightarrow> (\<forall>r \<in> set (lg_watermarks l). wr_id r \<noteq> [] \<and> unpadded (wr_id r) \<and> is_utc (wr_at r) \<and> ms_aligned (wr_at r))"

lemma watermark_rows_step: "ledger_step event_types sd l l' \<Longrightarrow> watermark_rows_valid l \<Longrightarrow> watermark_rows_valid l'"
  by (induction rule: ledger_step.induct)
    (auto simp: watermark_rows_valid_def add_chunk_def add_watermark_def add_close_def add_position_def row_of_watermark_def watermark_ok_def)

lemma watermark_rows_run: "ledger_run event_types sd l l' \<Longrightarrow> watermark_rows_valid l \<Longrightarrow> watermark_rows_valid l'"
  by (induction rule: rtranclp_induct) (auto intro: watermark_rows_step)

end
