(* ===== verification/StreamGuard.thy ===== *)
theory StreamGuard
  imports StreamDelivery
begin

text \<open>
  \<open>pipeline/r1_stream_boundary.py\<close>: the in-process guard of the watermark frontier. It keeps the
  accepted watermarks in two dictionaries and shares the dead-letter sink with the ingress.
\<close>

record late_event_guard =
  gd_watermarks :: "stream_partition \<rightharpoonup> source_watermark"
  gd_by_identity :: "stream_partition \<times> string \<rightharpoonup> source_watermark"

definition new_late_event_guard :: late_event_guard where
  "new_late_event_guard = \<lparr>gd_watermarks = Map.empty, gd_by_identity = Map.empty\<rparr>"

text \<open>Equality of the accepted fields; datetimes compare by instant.\<close>

definition same_watermark :: "source_watermark \<Rightarrow> source_watermark \<Rightarrow> bool" where
  "same_watermark a b \<longleftrightarrow> wm_id a = wm_id b \<and> wm_sequence a = wm_sequence b \<and> instant (wm_at a) = instant (wm_at b)
     \<and> wm_lateness a = wm_lateness b \<and> wm_covered a = wm_covered b \<and> instant (wm_emitted_at a) = instant (wm_emitted_at b)"

definition remember_watermark :: "source_watermark \<Rightarrow> late_event_guard \<Rightarrow> late_event_guard" where
  "remember_watermark w g = \<lparr>gd_watermarks = (gd_watermarks g)(wm_partition w \<mapsto> w),
     gd_by_identity = (gd_by_identity g)((wm_partition w, wm_id w) \<mapsto> w)\<rparr>"

definition guard_accept_watermark :: "source_watermark \<Rightarrow> late_event_guard \<Rightarrow> unit result \<times> late_event_guard" where
  "guard_accept_watermark w g = (case gd_by_identity g (wm_partition w, wm_id w) of
     Some a \<Rightarrow> if same_watermark w a then (Inr (), g)
       else (Inl (ValueError ''watermark identity conflicts with previously accepted content''), g)
   | None \<Rightarrow> (case gd_watermarks g (wm_partition w) of
       None \<Rightarrow> (Inr (), remember_watermark w g)
     | Some a \<Rightarrow>
         if wm_sequence w \<le> wm_sequence a
         then (Inl (ValueError ''watermark sequence must increase unless the watermark is an exact duplicate''), g)
         else if instant (wm_at w) < instant (wm_at a) then (Inl (ValueError ''watermark_at must not move backwards''), g)
         else if wm_lateness w \<noteq> wm_lateness a
         then (Inl (ValueError ''allowed_lateness_ms must remain constant within a partition''), g)
         else (Inr (), remember_watermark w g)))"

definition guard_accept_chunk :: "dead_letter_sink \<Rightarrow> datetime \<Rightarrow> event_chunk \<Rightarrow> late_event_guard
    \<Rightarrow> dead_letter list \<Rightarrow> unit result \<times> dead_letter list" where
  "guard_accept_chunk sink now c g dead = (case gd_watermarks g (ck_partition c) of
     None \<Rightarrow> (Inr (), dead)
   | Some w \<Rightarrow>
       (let violating = map ev_event_id (filter (\<lambda>e. instant (ev_timestamp e) \<le> instant (wm_at w)) (ck_events c)) in
        if violating = [] then (Inr (), dead)
        else case bnd (utc_milliseconds now) (\<lambda>rejected_at. bnd (validate_dead_letter
            \<lparr>dl_chunk_id = ck_chunk_id c, dl_partition = ck_partition c, dl_watermark_id = wm_id w, dl_watermark_at = wm_at w,
             dl_event_ids = violating, dl_rejected_at = rejected_at\<rparr>) (\<lambda>d. sink d dead)) of
          Inl e \<Rightarrow> (Inl e, dead)
        | Inr dead' \<Rightarrow> (Inl (LateStreamEventError (ck_chunk_id c)), dead')))"

section \<open>The guard and the ledger\<close>

fun guard_outcomes :: "source_watermark list \<Rightarrow> late_event_guard \<Rightarrow> bool list \<times> late_event_guard" where
  "guard_outcomes [] g = ([], g)"
| "guard_outcomes (w # ws) g = (case guard_accept_watermark w g of
     (r, g') \<Rightarrow> (case guard_outcomes ws g' of (rs, g'') \<Rightarrow> ((\<not> isl r) # rs, g'')))"

fun ledger_outcomes :: "stream_digests \<Rightarrow> source_watermark list \<Rightarrow> ledger \<Rightarrow> bool list \<times> ledger" where
  "ledger_outcomes sd [] l = ([], l)"
| "ledger_outcomes sd (w # ws) l = (case save_watermark w (sd_watermark sd w) l of
     (r, l') \<Rightarrow> (case ledger_outcomes sd ws l' of (rs, l'') \<Rightarrow> ((\<not> isl r) # rs, l'')))"

text \<open>The dictionaries hold the watermarks \<open>seen\<close> that the table holds, the frontier the last one of each partition.\<close>

definition watermarks_agree :: "stream_digests \<Rightarrow> source_watermark list \<Rightarrow> late_event_guard \<Rightarrow> ledger \<Rightarrow> bool" where
  "watermarks_agree sd seen g l \<longleftrightarrow> lg_watermarks l = map (\<lambda>w. row_of_watermark w (sd_watermark sd w)) seen
     \<and> lg_closes l = [] \<and> distinct (map (\<lambda>w. (wm_partition w, wm_id w)) seen)
     \<and> gd_by_identity g = map_of (map (\<lambda>w. ((wm_partition w, wm_id w), w)) seen)
     \<and> (\<forall>p. gd_watermarks g p = (let ws = filter (\<lambda>w. wm_partition w = p) seen in if ws = [] then None else Some (last ws)))"

lemma same_watermark_eq:
  "watermark_ok a \<Longrightarrow> watermark_ok b \<Longrightarrow> wm_partition a = wm_partition b \<Longrightarrow> same_watermark a b \<longleftrightarrow> a = b"
  by (auto simp: same_watermark_def watermark_ok_def instant_inject)

lemma agree_watermarks_of:
  "watermarks_agree sd seen g l \<Longrightarrow>
    watermarks_of l p = map (\<lambda>w. row_of_watermark w (sd_watermark sd w)) (filter (\<lambda>w. wm_partition w = p) seen)"
  by (simp add: watermarks_agree_def watermarks_of_def filter_map comp_def row_of_watermark_def)

lemma map_of_snoc: "k \<notin> fst ` set xs \<Longrightarrow> map_of (xs @ [(k, v)]) = (map_of xs)(k \<mapsto> v)"
  by (induction xs) (auto simp: fun_upd_twist)

lemma agree_remember:
  assumes "watermarks_agree sd seen g l" "\<forall>v \<in> set seen. wm_partition v = wm_partition w \<longrightarrow> wm_id v \<noteq> wm_id w"
  shows "watermarks_agree sd (seen @ [w]) (remember_watermark w g) (add_watermark sd w l)"
proof -
  have "(wm_partition w, wm_id w) \<notin> fst ` set (map (\<lambda>w. ((wm_partition w, wm_id w), w)) seen)" using assms(2) by force
  then have "map_of (map (\<lambda>w. ((wm_partition w, wm_id w), w)) seen @ [((wm_partition w, wm_id w), w)]) = (gd_by_identity g)((wm_partition w, wm_id w) \<mapsto> w)"
    using assms(1) unfolding watermarks_agree_def by (subst map_of_snoc) simp_all
  with assms show ?thesis by (auto simp: watermarks_agree_def remember_watermark_def add_watermark_def Let_def)
qed

text \<open>One watermark: both accept it or both refuse it.\<close>

lemma agree_step:
  assumes ag: "watermarks_agree sd seen g l" and wf: "ledger_wf l"
    and ok: "watermark_ok w" "\<forall>v \<in> set seen. watermark_ok v" and inj: "inj_on (sd_watermark sd) (insert w (set seen))"
    and calls: "guard_accept_watermark w g = (r, g')" "save_watermark w (sd_watermark sd w) l = (s, l')"
  shows "isl r = isl s \<and> ((g' = g \<and> l' = l) \<or> (g' = remember_watermark w g \<and> l' = add_watermark sd w l \<and> watermark_admissible w l))"
proof -
  let ?p = "wm_partition w"
  have rows: "lg_watermarks l = map (\<lambda>w. row_of_watermark w (sd_watermark sd w)) seen" using ag by (simp add: watermarks_agree_def)
  have row_in: "watermark_row_in sd w l \<longleftrightarrow> w \<in> set seen"
  proof
    assume "watermark_row_in sd w l"
    then obtain v where "v \<in> set seen" "sd_watermark sd v = sd_watermark sd w" by (auto simp: watermark_row_in_def rows row_of_watermark_def)
    with inj show "w \<in> set seen" by (auto simp: inj_on_def)
  qed (auto simp: watermark_row_in_def rows row_of_watermark_def)
  show ?thesis
  proof (cases "gd_by_identity g (?p, wm_id w)")
    case (Some a)
    then have a: "a \<in> set seen" "wm_partition a = ?p" "wm_id a = wm_id w"
      using ag by (auto simp: watermarks_agree_def dest!: map_of_SomeD)
    then have same: "same_watermark w a \<longleftrightarrow> w = a" using ok by (intro same_watermark_eq) auto
    have known: "\<not> watermark_admissible w l" using a by (auto simp: watermark_admissible_def rows row_of_watermark_def)
    show ?thesis
    proof (cases "w = a")
      case True
      then have "watermark_row_in sd w l" using a row_in by simp
      from save_watermark_duplicate [OF wf this] True same Some calls show ?thesis by (auto simp: guard_accept_watermark_def)
    next
      case False
      have "w \<notin> set seen"
      proof
        assume "w \<in> set seen"
        then have "w = a" using ag a by (auto simp: watermarks_agree_def distinct_map inj_on_def)
        with False show False by simp
      qed
      then have "\<not> watermark_row_in sd w l" using row_in by simp
      from save_watermark_refused [OF wf this known] False same Some calls show ?thesis by (auto simp: guard_accept_watermark_def)
    qed
  next
    case None
    then have fresh: "\<forall>v \<in> set seen. wm_partition v = ?p \<longrightarrow> wm_id v \<noteq> wm_id w"
      using ag by (auto simp: watermarks_agree_def map_of_eq_None_iff image_iff)
    then have notin: "\<not> watermark_row_in sd w l" using row_in by auto
    let ?ws = "filter (\<lambda>v. wm_partition v = ?p) seen"
    have frontier: "gd_watermarks g ?p = (if ?ws = [] then None else Some (last ?ws))" using ag by (simp add: watermarks_agree_def Let_def)
    have marks: "watermarks_of l ?p = map (\<lambda>w. row_of_watermark w (sd_watermark sd w)) ?ws" using agree_watermarks_of [OF ag] .
    have "\<not> run_is_closed l (pt_run_id ?p)" using ag by (simp add: watermarks_agree_def run_is_closed_def)
    then have adm: "watermark_admissible w l \<longleftrightarrow> (?ws \<noteq> [] \<longrightarrow> wm_sequence (last ?ws) < wm_sequence w
        \<and> instant (wm_at (last ?ws)) \<le> instant (wm_at w) \<and> wm_lateness (last ?ws) = wm_lateness w)"
      using fresh unfolding watermark_admissible_def marks
      by (auto simp: rows row_of_watermark_def advances_def last_map)
    show ?thesis
    proof (cases "watermark_admissible w l")
      case True
      from save_watermark_new [OF wf True, of sd] True calls None frontier adm show ?thesis
        by (auto simp: guard_accept_watermark_def split: if_splits)
    next
      case False
      from save_watermark_refused [OF wf notin False] False calls None frontier adm show ?thesis
        by (auto simp: guard_accept_watermark_def split: if_splits)
    qed
  qed
qed

lemma outcomes_agree:
  assumes "watermarks_agree sd seen g l" "ledger_wf l" "\<forall>w \<in> set ws \<union> set seen. watermark_ok w"
    "inj_on (sd_watermark sd) (set ws \<union> set seen)" "digests_ok sd"
  shows "fst (guard_outcomes ws g) = fst (ledger_outcomes sd ws l)"
  using assms
proof (induction ws arbitrary: seen g l)
  case Nil
  then show ?case by simp
next
  case (Cons w ws)
  obtain r g' where gr: "guard_accept_watermark w g = (r, g')" by fastforce
  obtain s l' where lr: "save_watermark w (sd_watermark sd w) l = (s, l')" by fastforce
  have inj: "inj_on (sd_watermark sd) (insert w (set seen))" by (rule inj_on_subset [OF Cons.prems(4)]) auto
  from agree_step [OF Cons.prems(1,2) _ _ inj gr lr] Cons.prems(3)
  have step: "isl r = isl s" "(g' = g \<and> l' = l) \<or> (g' = remember_watermark w g \<and> l' = add_watermark sd w l \<and> watermark_admissible w l)"
    by auto
  have "fst (guard_outcomes ws g') = fst (ledger_outcomes sd ws l')"
  proof (cases "g' = g \<and> l' = l")
    case True
    have "inj_on (sd_watermark sd) (set ws \<union> set seen)" by (rule inj_on_subset [OF Cons.prems(4)]) auto
    with Cons.IH [OF Cons.prems(1,2) _ _ Cons.prems(5)] Cons.prems(3) True show ?thesis by simp
  next
    case False
    then have new: "g' = remember_watermark w g" "l' = add_watermark sd w l" "watermark_admissible w l" using step(2) by auto
    have "\<forall>v \<in> set seen. wm_partition v = wm_partition w \<longrightarrow> wm_id v \<noteq> wm_id w"
      using new(3) Cons.prems(1) by (auto simp: watermark_admissible_def watermarks_agree_def row_of_watermark_def)
    then have "watermarks_agree sd (seen @ [w]) g' l'" using agree_remember [OF Cons.prems(1)] new by simp
    moreover have "ledger_wf l'" using add_watermark_wf [OF Cons.prems(2) _ new(3) Cons.prems(5)] Cons.prems(3) new(2) by simp
    moreover have "inj_on (sd_watermark sd) (set ws \<union> set (seen @ [w]))" by (rule inj_on_subset [OF Cons.prems(4)]) auto
    ultimately show ?thesis using Cons.IH [of "seen @ [w]" g' l'] Cons.prems(3,5) by auto
  qed
  with step(1) show ?case by (auto simp: gr lr split: prod.splits)
qed

end
