(* ===== verification/StreamProperties.thy ===== *)
theory StreamProperties
  imports StreamDelivery StreamGuard DecisionProperties
begin

text \<open>
  The correctness of the stream ingress: what a history of deliveries makes of the ledger, which
  messages are accepted, and what a second pass over the spool does. Every statement is about the
  calls of \<open>StreamIngress\<close>; the witnesses run them on the messages below.
\<close>

section \<open>Sample messages\<close>

definition sample_sha :: string where
  "sample_sha = replicate 64 CHR ''a''"

definition sample_digests :: stream_digests where
  "sample_digests = \<lparr>sd_chunk = \<lambda>c. sample_sha, sd_event = \<lambda>e. sample_sha, sd_watermark = \<lambda>w. sample_sha,
     sd_closed = \<lambda>c. sample_sha, sd_position = \<lambda>c. sample_sha, sd_covered = \<lambda>es. sample_sha,
     sd_contract = \<lambda>c. sample_sha\<rparr>"

definition sample_partition :: stream_partition where
  "sample_partition = \<lparr>pt_run_id = sample_run_id, pt_host_id = ''h1'', pt_source = ''sysmon'',
     pt_channel = ''Microsoft-Windows-Sysmon/Operational''\<rparr>"

definition sample_contract :: partition_contract where
  "sample_contract = \<lparr>rq_target_host = ''h1'', rq_partitions = [canonical_channel]\<rparr>"

definition sample_event :: "string \<Rightarrow> int \<Rightarrow> normalized_event" where
  "sample_event i t = \<lparr>ev_event_id = i, ev_run_id = sample_run_id, ev_timestamp = utc t,
     ev_timestamp_source = EventTime, ev_event_time = Some (utc t), ev_record_time = None, ev_ingest_time = None,
     ev_host_id = ''h1'', ev_source = ''sysmon'', ev_source_layer = RawTelemetry, ev_source_event_id = ''1'',
     ev_event_type = ''process_create'',
     ev_raw_ref = \<lparr>rl_raw_log_id = ''raw'', rl_source_record_id = Some ''7'', rl_segment_no = 1, rl_record_no = 1,
       rl_parser_id = None, rl_parser_version = None\<rparr>,
     ev_user = None, ev_process = None, ev_network = None\<rparr>"

definition sample_chunk :: "string \<Rightarrow> int \<Rightarrow> normalized_event list \<Rightarrow> event_chunk" where
  "sample_chunk i n es = \<lparr>ck_chunk_id = i, ck_partition = sample_partition, ck_sequence = n, ck_sha = sample_sha, ck_events = es\<rparr>"

definition sample_watermark :: source_watermark where
  "sample_watermark = \<lparr>wm_id = ''w1'', wm_partition = sample_partition, wm_sequence = 1, wm_at = utc 5000000,
     wm_lateness = 0, wm_covered = 1, wm_emitted_at = utc 6000000\<rparr>"

definition sample_close :: run_closed where
  "sample_close = \<lparr>cl_close_id = ''x1'', cl_run_id = sample_run_id,
     cl_finals = [\<lparr>fw_partition = sample_partition, fw_id = ''w1'', fw_sequence = 1, fw_at = utc 5000000, fw_lateness = 0, fw_covered = 1\<rparr>],
     cl_emitted_at = utc 7000000\<rparr>"

abbreviation "sample_types \<equiv> {''process_create''}"

lemma sample_partition_ok: "partition_ok sample_partition"
  using sample_run_id_ok
  by (simp add: partition_ok_def sample_partition_def unpadded_def str_strip_def is_space_def code_point_def)

lemma sample_sha_ok: "sha256_ok sample_sha"
  by (simp add: sha256_ok_def sample_sha_def list_all_iff is_hex_def code_point_def)

lemma sample_digests_ok: "digests_ok sample_digests"
  by (simp add: digests_ok_def sample_digests_def digest_ok_def sample_sha_def)

lemma sample_event_ok: "i \<notin> {[], ''.'', ''..''} \<Longrightarrow> event_ok sample_types (sample_event i (1000 * t))"
  using sample_run_id_ok(1) run_id_ok_nonempty [of sample_run_id]
  by (simp add: event_ok_def sample_event_def source_time_def is_utc_def utc_def ms_aligned_iff blank_def str_strip_def is_space_def code_point_def)

definition sample_state :: "ledger stream_state" where
  "sample_state = \<lparr>si_ledger = empty_ledger, si_dead_letters = []\<rparr>"

definition first_chunk :: event_chunk where
  "first_chunk = sample_chunk ''c1'' 1 [sample_event ''A'' 1000000]"

lemma sample_messages_valid:
  "message_valid sample_types sample_contract (ChunkMessage first_chunk)" "message_ids_ok (ChunkMessage first_chunk)"
  "message_valid sample_types sample_contract (WatermarkMessage sample_watermark)" "message_ids_ok (WatermarkMessage sample_watermark)"
  "message_valid sample_types sample_contract (ClosedMessage sample_close)" "message_ids_ok (ClosedMessage sample_close)"
  using sample_partition_ok sample_run_id_ok sample_sha_ok sample_event_ok [of "''A''" 1000]
  by (simp_all add: message_valid_def message_ids_ok_def event_ids_ok_def chunk_ok_def watermark_ok_def run_closed_ok_def final_ok_def
      first_chunk_def sample_chunk_def sample_watermark_def sample_close_def sample_contract_def require_partition_def
      require_close_partitions_def canonical_channel_def is_utc_def utc_def ms_aligned_iff
      blank_def unpadded_def str_strip_def is_space_def code_point_def)
    (simp_all add: sample_partition_def sample_event_def blank_def str_strip_def is_space_def code_point_def)

lemmas sample_ledger_defs = sample_state_def empty_ledger_def chunk_admissible_def chunk_fresh_def run_is_closed_def
  frontier_clear_def events_agree_def no_late_event_def active_watermark_def

definition sample_after_chunk :: "ledger stream_state" where
  "sample_after_chunk = \<lparr>si_ledger = add_chunk sample_digests first_chunk empty_ledger, si_dead_letters = []\<rparr>"

lemma sample_chunk_accepted:
  "accept_message sample_types file_sink sample_digests sample_contract (utc 9000000) (ChunkMessage first_chunk) sample_state
    = (Inr (delivery_result_of True [''A'']), sample_after_chunk)"
proof -
  have c: "chunk_ok sample_types first_chunk" "event_ids_ok first_chunk"
    using sample_messages_valid(1,2) by (simp_all add: message_valid_def message_ids_ok_def)
  have "chunk_admissible sample_digests first_chunk empty_ledger" "no_late_event first_chunk empty_ledger"
    using select_latest_watermark_eq [OF empty_ledger_wf, of "ck_partition first_chunk"]
    by (simp_all add: sample_ledger_defs watermarks_of_def)
  moreover have "map fst (new_events sample_digests first_chunk empty_ledger) = [''A'']"
    by (simp add: new_events_def new_shas_def event_stored_def event_shas_def first_chunk_def sample_chunk_def sample_event_def empty_ledger_def)
  moreover have "chunk_sha sample_digests first_chunk = ck_sha first_chunk"
    by (simp add: chunk_sha_def sample_digests_def first_chunk_def sample_chunk_def)
  ultimately show ?thesis
    using accept_chunk_new [OF _ event_shas_ok [OF c sample_digests_ok], of sample_state file_sink "utc 9000000"] empty_ledger_wf
    by (simp add: accept_message_valid(1) [OF sample_messages_valid(1)] sample_state_def sample_after_chunk_def)
qed

section \<open>What a history of deliveries keeps\<close>

text \<open>C13: Starting from an empty ledger, whatever chunks, watermarks, run closes and position closes
  are delivered, and whichever of these calls raise, the tables keep their invariant: chunk
  identities and sequences, event identities, watermark identities, run closes and position closes
  are unique per partition or run, every stored row reads back, and the watermarks of a partition
  strictly advance in sequence without going back in time or changing their allowed lateness.\<close>

theorem stream_ledger_invariant:
  assumes "delivered event_types sd contract sink \<lparr>si_ledger = empty_ledger, si_dead_letters = []\<rparr> ids st" "digests_ok sd"
  shows "ledger_wf (si_ledger st)"
  using delivered_run [OF assms] empty_ledger_wf by simp

text \<open>C12: Every event is forwarded exactly once: the event identities returned as new by the accepted
  deliveries of a history are distinct, and they are, in order, the keys of the event table, so
  nothing stored was withheld and nothing was forwarded twice by replays or overlapping chunks.\<close>

theorem events_forwarded_exactly_once:
  assumes "delivered event_types sd contract sink \<lparr>si_ledger = empty_ledger, si_dead_letters = []\<rparr> ids st" "digests_ok sd"
  shows "distinct ids \<and> map event_key (lg_events (si_ledger st)) = ids"
proof -
  have "ledger_wf (si_ledger st) \<and> map event_key (lg_events (si_ledger st)) = ids"
    using delivered_run [OF assms] empty_ledger_wf by (simp add: empty_ledger_def)
  then show ?thesis by (auto simp: ledger_wf_def events_wf_def)
qed


text \<open>C11: Delivery is idempotent: a message whose delivery returned (accepted or duplicate) is answered
  with Duplicate, no new events and an unchanged state when it is delivered again, at any later
  time and after any other deliveries.\<close>

theorem redelivery_is_duplicate:
  assumes "ledger_wf (si_ledger st)" "digests_ok sd" "message_ids_ok m"
    and "accept_message event_types sink sd contract now m st = (Inr res, st')"
    and "delivered event_types sd contract sink st' ids st''"
  shows "accept_message event_types sink sd contract now' m st'' = (Inr \<lparr>res_disposition = Duplicate, res_new_event_ids = []\<rparr>, st'')"
proof -
  have valid: "message_valid event_types contract m"
    using accept_message_valid(2) [of event_types contract m sink sd now st] assms(4) by auto
  have "delivery_effect event_types sd m st (Inr res) st'" using accept_message_effect [OF assms(1-4)] .
  then have "settled sd m (si_ledger st')" "ledger_run event_types sd (si_ledger st) (si_ledger st')"
    by (auto simp: delivery_effect_def split: if_splits)
  moreover from this(2) have wf: "ledger_wf (si_ledger st')" using assms ledger_run_wf by blast
  ultimately have "settled sd m (si_ledger st'')" "ledger_wf (si_ledger st'')"
    using delivered_run [OF assms(5,2) wf] valid settled_run by blast+
  from settled_duplicate [OF this(2) assms(2) valid assms(3) this(1)] show ?thesis by (simp add: delivery_result_of_def)
qed

text \<open>A delivery that raises leaves every table of the ledger as it was, even without the rollback
  of the worker, for whatever reason it raised.\<close>

theorem failed_delivery_keeps_ledger:
  assumes "ledger_wf (si_ledger st)" "digests_ok sd" "message_ids_ok m"
    and "accept_message event_types sink sd contract now m st = (Inl e, st')"
  shows "si_ledger st' = si_ledger st"
  using accept_message_effect [OF assms] by (simp add: delivery_effect_def)

text \<open>C17: The ingress refines the abstract ledger: every delivery either takes one step of
  \<open>ledger_step\<close> (one message added under its guard, its events forwarded) or leaves the ledger as
  it is, and it forwards events only in the first case.\<close>

theorem ingress_refines_ledger_step:
  assumes "ledger_wf (si_ledger st)" "digests_ok sd" "message_ids_ok m"
  shows "case accept_message event_types sink sd contract now m st of
      (Inl e, st') \<Rightarrow> si_ledger st' = si_ledger st
    | (Inr res, st') \<Rightarrow> (case res_disposition res of
        Accepted \<Rightarrow> ledger_step event_types sd (si_ledger st) (si_ledger st')
          \<and> map event_key (lg_events (si_ledger st')) = map event_key (lg_events (si_ledger st)) @ forwarded m res
      | Duplicate \<Rightarrow> st' = st \<and> forwarded m res = [])"
proof -
  obtain r st' where res: "accept_message event_types sink sd contract now m st = (r, st')" by fastforce
  from accept_message_effect [OF assms res] show ?thesis
    by (auto simp: res delivery_effect_def split: sum.splits disposition.splits)
qed

section \<open>Which messages are accepted\<close>

text \<open>C16: No late event passes: when a chunk is accepted and the latest durable watermark of its
  partition covers only received chunks, then every event the chunk forwards is later than that
  watermark.\<close>

theorem accepted_chunk_is_not_late:
  assumes "ledger_wf (si_ledger st)" "digests_ok sd" "message_ids_ok (ChunkMessage c)"
    and "accept_message event_types sink sd contract now (ChunkMessage c) st = (Inr res, st')"
    and "watermarks_of (si_ledger st) (ck_partition c) \<noteq> []" "w = last (watermarks_of (si_ledger st) (ck_partition c))"
    and "{1..wr_covered w} \<subseteq> received (si_ledger st) (ck_partition c)"
    and "e \<in> set (ck_events c)" "ev_event_id e \<in> set (res_new_event_ids res)"
  shows "instant (wr_at w) < instant (ev_timestamp e)"
proof -
  note acc = accepted_chunk [OF assms(1-4)]
  have some: "res_new_event_ids res \<noteq> []" using assms(9) by auto
  then have "\<not> event_stored (si_ledger st) (ck_partition c) (ev_event_id e)"
    using acc assms(9) by (auto simp: new_events_def new_shas_def)
  moreover have "active_watermark (si_ledger st) (ck_partition c) = Some w"
    using active_watermark_iff [OF assms(1)] assms(5-7) by simp
  ultimately show ?thesis using acc some assms(8) by (simp add: no_late_event_def)
qed

text \<open>A late chunk is refused and dead-lettered: when the latest watermark covers only received chunks
  and a fresh chunk holds new events at or before it, the delivery raises \<open>LateStreamEventError\<close>,
  stores nothing, and writes exactly one dead letter, which names the chunk, the watermark and the
  violating events in chunk order (event ids without surrounding blanks, first letter of the chunk).\<close>

theorem late_chunk_is_dead_lettered:
  assumes "delivered event_types sd contract sink \<lparr>si_ledger = empty_ledger, si_dead_letters = []\<rparr> ids st" "digests_ok sd"
    and "message_valid event_types contract (ChunkMessage c)" "chunk_sha sd c = ck_sha c"
    and "\<forall>e \<in> set (ck_events c). \<not> blank (ev_event_id e) \<and> unpadded (ev_event_id e)"
    and "chunk_admissible sd c (si_ledger st)" "active_watermark (si_ledger st) (ck_partition c) = Some w"
    and "late = map ev_event_id (filter (\<lambda>e. \<not> event_stored (si_ledger st) (ck_partition c) (ev_event_id e)
          \<and> instant (ev_timestamp e) \<le> instant (wr_at w)) (ck_events c))" "late \<noteq> []"
    and "utc_milliseconds now = Inr rejected_at" "\<forall>d \<in> set (si_dead_letters st). dl_chunk_id d \<noteq> ck_chunk_id c"
  shows "accept_message event_types file_sink sd contract now (ChunkMessage c) st =
    (Inl (LateStreamEventError (ck_chunk_id c)), st\<lparr>si_dead_letters := si_dead_letters st
       @ [\<lparr>dl_chunk_id = ck_chunk_id c, dl_partition = ck_partition c, dl_watermark_id = wr_id w, dl_watermark_at = wr_at w,
           dl_event_ids = late, dl_rejected_at = rejected_at\<rparr>]\<rparr>)"
proof -
  let ?l = "si_ledger st" and ?p = "ck_partition c"
  let ?d = "\<lparr>dl_chunk_id = ck_chunk_id c, dl_partition = ?p, dl_watermark_id = wr_id w, dl_watermark_at = wr_at w,
    dl_event_ids = late, dl_rejected_at = rejected_at\<rparr>"
  have run: "ledger_run event_types sd empty_ledger ?l" "ledger_wf ?l"
    using delivered_run [OF assms(1,2)] empty_ledger_wf by simp_all
  have c: "chunk_ok event_types c" "event_ids_ok c"
    using assms(3,5) by (simp_all add: message_valid_def event_ids_ok_def)
  have "watermark_rows_valid ?l" using watermark_rows_run [OF run(1)] by (simp add: watermark_rows_valid_def empty_ledger_def)
  moreover have "w \<in> set (lg_watermarks ?l)"
    using assms(7) active_watermark_iff [OF run(2)] last_in_set [of "watermarks_of ?l ?p"] by (auto simp: watermarks_of_def)
  ultimately have w: "wr_id w \<noteq> []" "unpadded (wr_id w)" "is_utc (wr_at w)" "ms_aligned (wr_at w)"
    by (auto simp: watermark_rows_valid_def)
  have ids: "distinct late" "\<forall>i \<in> set late. \<not> blank i \<and> unpadded i"
    using c(1) assms(5,8) by (auto simp: chunk_ok_def distinct_map intro: inj_on_subset)
  have at: "is_utc rejected_at" "ms_aligned rejected_at" using assms(10) utc_milliseconds_ok by auto
  have "dead_letter_ok ?d"
    using c(1) w ids at assms(9) by (simp add: dead_letter_ok_def chunk_ok_def)
  then have letter: "validate_dead_letter ?d = Inr ?d" by (simp add: validate_dead_letter_ok)
  have new: "ev_event_id e \<in> set (map fst (new_events sd c ?l)) \<longleftrightarrow> \<not> event_stored ?l ?p (ev_event_id e)"
    if "e \<in> set (ck_events c)" for e using that by (force simp: new_events_def new_shas_def event_shas_def)
  then have late: "violating_event_ids c (map fst (new_events sd c ?l)) (binding_of w) = late"
    unfolding violating_event_ids_def assms(8) by (auto simp: binding_of_def simp del: set_map intro!: arg_cong [where f = "map ev_event_id"] filter_cong)
  have "\<not> no_late_event c ?l"
    using violating_none [OF assms(7), of sd] late assms(7,9) by (auto simp: no_late_event_def)
  moreover have "file_sink ?d (si_dead_letters st) = Inr (si_dead_letters st @ [?d])"
  proof -
    have "find (\<lambda>x. dl_chunk_id x = ck_chunk_id c) (si_dead_letters st) = None" using assms(11) by (auto simp: find_None_iff)
    then show ?thesis by (simp add: file_sink_def)
  qed
  ultimately show ?thesis
    using accept_chunk_new [OF run(2) event_shas_ok [OF c assms(2)] assms(4,6), of file_sink now]
      accept_message_valid(1) [OF assms(3), of file_sink sd now st] late letter assms(7,9,10)
    by (simp add: reject_late_events_def) (simp add: binding_of_def)
qed

text \<open>A watermark is accepted exactly when its run is open, its identity is new in its partition, and
  it advances: a higher sequence, no earlier time and the same allowed lateness as the latest one.
  It is a duplicate exactly when a row with its identity, sequence and digest is there, and every
  other watermark is refused with the ledger unchanged.\<close>

theorem watermark_outcome:
  assumes "ledger_wf (si_ledger st)" "message_valid event_types contract (WatermarkMessage w)"
  shows "accept_message event_types sink sd contract now (WatermarkMessage w) st =
    (if watermark_row_in sd w (si_ledger st) then (Inr \<lparr>res_disposition = Duplicate, res_new_event_ids = []\<rparr>, st)
     else if watermark_admissible w (si_ledger st)
     then (Inr \<lparr>res_disposition = Accepted, res_new_event_ids = []\<rparr>, st\<lparr>si_ledger := add_watermark sd w (si_ledger st)\<rparr>)
     else (Inl (projl (fst (save_watermark w (sd_watermark sd w) (si_ledger st)))), st))"
proof -
  let ?l = "si_ledger st"
  have call: "accept_message event_types sink sd contract now (WatermarkMessage w) st = accept_watermark sd w st"
    using accept_message_valid(1) [OF assms(2)] by simp
  consider "watermark_row_in sd w ?l" | "\<not> watermark_row_in sd w ?l" "watermark_admissible w ?l"
    | "\<not> watermark_row_in sd w ?l" "\<not> watermark_admissible w ?l" by blast
  then show ?thesis
  proof cases
    case 1
    from save_watermark_duplicate [OF assms(1) 1] 1 show ?thesis
      by (simp add: call accept_watermark_def delivery_result_of_def)
  next
    case 2
    from save_watermark_new [OF assms(1) 2(2), of sd] 2 show ?thesis
      by (simp add: call accept_watermark_def delivery_result_of_def)
  next
    case 3
    from save_watermark_refused [OF assms(1) 3] 3 show ?thesis by (auto simp: call accept_watermark_def)
  qed
qed

text \<open>A run is closed only on a complete and current account of it: a run close is accepted exactly
  when the run is open and its final watermarks name exactly the partitions that delivered anything
  for it, each with the identity, sequence, instant, lateness and coverage of the latest durable
  watermark of that partition.\<close>

theorem run_close_accepted_iff:
  assumes "ledger_wf (si_ledger st)" "message_valid event_types contract (ClosedMessage c)"
  shows "(\<exists>st'. accept_message event_types sink sd contract now (ClosedMessage c) st
      = (Inr \<lparr>res_disposition = Accepted, res_new_event_ids = []\<rparr>, st'))
    \<longleftrightarrow> \<not> run_is_closed (si_ledger st) (cl_run_id c)
      \<and> fw_partition ` set (cl_finals c) = run_partitions (si_ledger st) (cl_run_id c)
      \<and> (\<forall>f \<in> set (cl_finals c). watermarks_of (si_ledger st) (fw_partition f) \<noteq> []
           \<and> same_binding (binding_of (last (watermarks_of (si_ledger st) (fw_partition f)))) (final_binding f))"
proof -
  let ?l = "si_ledger st"
  have c: "run_closed_ok c" using assms(2) by (simp add: message_valid_def)
  have call: "accept_message event_types sink sd contract now (ClosedMessage c) st = accept_run_closed sd c st"
    using accept_message_valid(1) [OF assms(2)] by simp
  have match: "assert_final_watermarks_match (cl_finals c) ?l = Inr () \<longleftrightarrow> finals_match c ?l"
    using assert_finals_ok [OF assms(1) c] .
  show ?thesis
  proof (cases "run_is_closed ?l (cl_run_id c)")
    case True
    from save_close_known [OF assms(1) True, of sd] True show ?thesis
      by (auto simp: call accept_run_closed_def delivery_result_of_def split: sum.splits prod.splits if_splits)
  next
    case False
    from save_close_new [OF False, of sd] False match show ?thesis
      by (auto simp: call accept_run_closed_def delivery_result_of_def finals_match_def split: sum.splits prod.splits)
  qed
qed

text \<open>A position close is final and complete: when it is accepted, every chunk of its partition from 1
  to the covered sequence is in the ledger with no gap, the run had no position close before, the
  close was issued for this host, these partitions and this contract, and the receipt echoes it.\<close>

theorem accepted_position_close_is_complete:
  assumes "ledger_wf (si_ledger st)" "position_close_ok c"
    and "accept_position_close sd contract now c st = (Inr (True, receipt), st')"
  shows "{1..pc_covered c} \<subseteq> received (si_ledger st) (pc_partition c)
    \<and> (\<forall>r \<in> set (lg_positions (si_ledger st)). position_run r \<noteq> pc_run_id c)
    \<and> sd_contract sd contract = pc_contract_sha c \<and> rq_target_host contract = pt_host_id (pc_partition c)
    \<and> pv_run_id receipt = pc_run_id c \<and> pv_close_id receipt = pc_close_id c \<and> pv_sha receipt = sd_position sd c"
proof -
  obtain accepted_at where bound: "require_contract_binding sd c contract = Inr ()"
    and saved: "save_position_close (sd_position sd) (sd_covered sd) c (sd_position sd c) accepted_at (si_ledger st)
      = (Inr (True, receipt), si_ledger st')"
    using assms(3) by (auto simp: accept_position_close_def split: sum.splits prod.splits)
  note out = save_position_outcome [OF assms(1,2) saved, simplified]
  have "{1..pc_covered c} \<subseteq> received (si_ledger st) (pc_partition c)"
    using out covered_chunks_iff [OF assms(1), of "pc_covered c"] assms(2)
    by (simp add: covered_chunks_match_def position_close_ok_def)
  with out bound show ?thesis by (auto simp: position_known_def require_contract_binding_def)
qed

text \<open>The position frontier holds: in a run with an accepted position close, every chunk accepted later
  belongs to the closed partition and all its events carry record ids beyond the closed frontier.\<close>

theorem position_frontier_respected:
  assumes "ledger_wf (si_ledger st)" "digests_ok sd" "message_ids_ok (ChunkMessage c)"
    and "r \<in> set (lg_positions (si_ledger st))" "position_run r = pt_run_id (ck_partition c)"
    and "accept_message event_types sink sd contract now (ChunkMessage c) st = (Inr res, st')" "res_disposition res = Accepted"
  shows "pr_partition r = ck_partition c
    \<and> (\<forall>e \<in> set (ck_events c). \<exists>s. rl_source_record_id (ev_raw_ref e) = Some s \<and> pr_upper r < int (dec_value s))"
  using accepted_chunk [OF assms(1-3,6)] assms(4,5,7)
  by (auto simp: chunk_admissible_def frontier_clear_def event_record_ids_def)

section \<open>Crash recovery\<close>


section \<open>The in-process guard\<close>

text \<open>The in-process guard and the durable ledger agree: given the same valid watermarks in any order
  and with any repetitions, starting from nothing, both accept and refuse the same ones (their
  digests being distinct for distinct watermarks).\<close>

theorem guard_agrees_with_ledger:
  assumes "\<forall>w \<in> set ws. watermark_ok w" "inj_on (sd_watermark sd) (set ws)" "digests_ok sd"
  shows "fst (guard_outcomes ws new_late_event_guard) = fst (ledger_outcomes sd ws empty_ledger)"
proof (rule outcomes_agree [where seen = "[]"])
  show "watermarks_agree sd [] new_late_event_guard empty_ledger"
    by (simp add: watermarks_agree_def empty_ledger_def new_late_event_guard_def)
qed (use assms empty_ledger_wf in simp_all)

section \<open>The properties on the sample messages\<close>

abbreviation sample_delivery :: "stream_message \<Rightarrow> ledger stream_state \<Rightarrow> delivery_result result \<times> ledger stream_state" where
  "sample_delivery \<equiv> accept_message sample_types file_sink sample_digests sample_contract (utc 9000000)"

abbreviation sample_delivered :: "(stream_partition \<times> string) list \<Rightarrow> ledger stream_state \<Rightarrow> bool" where
  "sample_delivered \<equiv> delivered sample_types sample_digests sample_contract file_sink \<lparr>si_ledger = empty_ledger, si_dead_letters = []\<rparr>"

lemma delivered_next:
  assumes "delivered event_types sd contract sink st ids st'" "ledger_wf (si_ledger st)" "digests_ok sd" "message_ids_ok m"
    and "accept_message event_types sink sd contract now m st' = (Inr res, st'')"
  shows "delivered event_types sd contract sink st (ids @ forwarded m res) st''"
proof -
  have "transaction (accept_message event_types sink sd contract now m) st' = (Inr res, st'')"
    using assms(5) by (simp add: transaction_def)
  from delivered_message [OF assms(1,4) this] show ?thesis by simp
qed

lemma sample_state_wf: "ledger_wf (si_ledger sample_state)"
  using empty_ledger_wf by (simp add: sample_state_def)

lemma sample_history: "sample_delivered [(sample_partition, ''A'')] sample_after_chunk"
  using delivered_next [OF delivered_none sample_state_wf sample_digests_ok sample_messages_valid(2) sample_chunk_accepted]
  by (simp add: forwarded_def delivery_result_of_def first_chunk_def sample_chunk_def sample_state_def)

lemma sample_after_chunk_wf: "ledger_wf (si_ledger sample_after_chunk)"
  using delivered_run [OF sample_history sample_digests_ok] empty_ledger_wf by simp

definition sample_after_watermark :: "ledger stream_state" where
  "sample_after_watermark = sample_after_chunk\<lparr>si_ledger := add_watermark sample_digests sample_watermark (si_ledger sample_after_chunk)\<rparr>"

lemma sample_ledger_after_chunk: "si_ledger sample_after_chunk =
    \<lparr>lg_chunks = [\<lparr>cr_partition = sample_partition, cr_id = ''c1'', cr_sequence = 1, cr_sha = sample_sha\<rparr>],
     lg_events = [\<lparr>er_partition = sample_partition, er_id = ''A'', er_sha = sample_sha\<rparr>],
     lg_watermarks = [], lg_closes = [], lg_positions = []\<rparr>"
  by (simp add: sample_after_chunk_def add_chunk_def empty_ledger_def chunk_row_of_def first_chunk_def sample_chunk_def chunk_sha_def
      sample_digests_def event_rows_def new_events_def new_shas_def event_shas_def event_stored_def sample_event_def)

lemma sample_watermark_accepted:
  "sample_delivery (WatermarkMessage sample_watermark) sample_after_chunk
    = (Inr (delivery_result_of True []), sample_after_watermark)"
proof -
  have "watermark_admissible sample_watermark (si_ledger sample_after_chunk)"
    by (simp add: watermark_admissible_def watermarks_of_def run_is_closed_def sample_ledger_after_chunk)
  from save_watermark_new [OF sample_after_chunk_wf this, of sample_digests] show ?thesis
    by (simp add: accept_message_valid(1) [OF sample_messages_valid(3)] accept_watermark_def sample_after_watermark_def)
qed

lemma sample_history_watermark: "sample_delivered [(sample_partition, ''A'')] sample_after_watermark"
  using delivered_next [OF sample_history _ sample_digests_ok sample_messages_valid(4) sample_watermark_accepted] empty_ledger_wf
  by (simp add: forwarded_def)

lemma sample_after_watermark_wf: "ledger_wf (si_ledger sample_after_watermark)"
  using delivered_run [OF sample_history_watermark sample_digests_ok] empty_ledger_wf by simp

definition sample_after_close :: "ledger stream_state" where
  "sample_after_close = sample_after_watermark\<lparr>si_ledger := add_close sample_digests sample_close (si_ledger sample_after_watermark)\<rparr>"

lemma sample_ledger_after_watermark: "si_ledger sample_after_watermark =
    \<lparr>lg_chunks = [\<lparr>cr_partition = sample_partition, cr_id = ''c1'', cr_sequence = 1, cr_sha = sample_sha\<rparr>],
     lg_events = [\<lparr>er_partition = sample_partition, er_id = ''A'', er_sha = sample_sha\<rparr>],
     lg_watermarks = [\<lparr>wr_partition = sample_partition, wr_id = ''w1'', wr_sequence = 1, wr_sha = sample_sha, wr_at = utc 5000000,
       wr_lateness = 0, wr_covered = 1\<rparr>], lg_closes = [], lg_positions = []\<rparr>"
  by (simp add: sample_after_watermark_def add_watermark_def sample_ledger_after_chunk row_of_watermark_def sample_watermark_def sample_digests_def)

lemma sample_run_of_partition: "pt_run_id sample_partition = sample_run_id"
  by (simp add: sample_partition_def)

lemma sample_finals_match: "finals_match sample_close (si_ledger sample_after_watermark)"
  by (simp add: finals_match_def sample_close_def run_partitions_def sample_run_of_partition watermarks_of_def sample_ledger_after_watermark
      same_binding_def final_binding_def binding_of_def)
    (auto simp: sample_run_of_partition)

lemma sample_close_accepted:
  "sample_delivery (ClosedMessage sample_close) sample_after_watermark = (Inr (delivery_result_of True []), sample_after_close)"
proof -
  have c: "run_closed_ok sample_close" using sample_messages_valid(5) by (simp add: message_valid_def)
  have "\<not> run_is_closed (si_ledger sample_after_watermark) (cl_run_id sample_close)"
    by (simp add: run_is_closed_def sample_ledger_after_watermark)
  from save_close_new [OF this, of sample_digests] show ?thesis
    using sample_finals_match assert_finals_ok [OF sample_after_watermark_wf c]
    by (simp add: accept_message_valid(1) [OF sample_messages_valid(5)] accept_run_closed_def sample_after_close_def)
qed

lemma sample_history_close: "sample_delivered [(sample_partition, ''A'')] sample_after_close"
  using delivered_next [OF sample_history_watermark _ sample_digests_ok sample_messages_valid(6) sample_close_accepted] empty_ledger_wf
  by (simp add: forwarded_def)


theorem stream_ledger_invariant_witness:
  "ledger_wf (si_ledger sample_after_close) \<and> lg_events (si_ledger sample_after_close) \<noteq> []"
  using stream_ledger_invariant [OF sample_history_close sample_digests_ok]
  by (simp add: sample_after_close_def add_close_def sample_ledger_after_watermark)

theorem events_forwarded_exactly_once_witness:
  "map event_key (lg_events (si_ledger sample_after_close)) = [(sample_partition, ''A'')]"
  using events_forwarded_exactly_once [OF sample_history_close sample_digests_ok] by simp

definition late_chunk :: event_chunk where
  "late_chunk = sample_chunk ''c2'' 2 [sample_event ''B'' 4000000]"

definition next_chunk :: event_chunk where
  "next_chunk = sample_chunk ''c3'' 2 [sample_event ''B'' 8000000]"

lemma later_chunks_valid:
  "message_valid sample_types sample_contract (ChunkMessage late_chunk)" "message_ids_ok (ChunkMessage late_chunk)"
  "message_valid sample_types sample_contract (ChunkMessage next_chunk)" "message_ids_ok (ChunkMessage next_chunk)"
  using sample_partition_ok sample_sha_ok sample_event_ok [of "''B''" 4000] sample_event_ok [of "''B''" 8000]
  by (simp_all add: message_valid_def message_ids_ok_def event_ids_ok_def chunk_ok_def late_chunk_def next_chunk_def sample_chunk_def
      sample_contract_def require_partition_def canonical_channel_def unpadded_def str_strip_def is_space_def code_point_def)
    (simp_all add: sample_partition_def sample_event_def blank_def str_strip_def is_space_def code_point_def)


theorem redelivery_is_duplicate_witness:
  "sample_delivery (ChunkMessage first_chunk) sample_after_watermark
    = (Inr \<lparr>res_disposition = Duplicate, res_new_event_ids = []\<rparr>, sample_after_watermark)"
proof -
  have "delivered sample_types sample_digests sample_contract file_sink sample_after_chunk
      ([] @ forwarded (WatermarkMessage sample_watermark) (delivery_result_of True [])) sample_after_watermark"
    by (rule delivered_next [OF delivered_none sample_after_chunk_wf sample_digests_ok sample_messages_valid(4) sample_watermark_accepted])
  from redelivery_is_duplicate [OF sample_state_wf sample_digests_ok sample_messages_valid(2) sample_chunk_accepted this]
  show ?thesis .
qed

definition wrong_host_contract :: partition_contract where
  "wrong_host_contract = sample_contract\<lparr>rq_target_host := ''h2''\<rparr>"

theorem failed_delivery_keeps_ledger_witness:
  "\<exists>e st'. accept_message sample_types file_sink sample_digests wrong_host_contract (utc 0) (ChunkMessage first_chunk) sample_after_chunk = (Inl e, st')
    \<and> si_ledger st' = si_ledger sample_after_chunk"
proof -
  have "\<not> message_valid sample_types wrong_host_contract (ChunkMessage first_chunk)"
    by (simp add: message_valid_def require_partition_def wrong_host_contract_def sample_contract_def first_chunk_def
        sample_chunk_def sample_partition_def)
  from accept_message_valid(2) [OF this, of file_sink sample_digests "utc 0" sample_after_chunk] obtain e where
    res: "accept_message sample_types file_sink sample_digests wrong_host_contract (utc 0) (ChunkMessage first_chunk) sample_after_chunk = (Inl e, sample_after_chunk)"
    by blast
  from failed_delivery_keeps_ledger [OF sample_after_chunk_wf sample_digests_ok sample_messages_valid(2) res] res show ?thesis by blast
qed

theorem ingress_refines_ledger_step_witness:
  "ledger_step sample_types sample_digests (si_ledger sample_state) (si_ledger sample_after_chunk)"
  using ingress_refines_ledger_step [OF sample_state_wf sample_digests_ok sample_messages_valid(2), of sample_types file_sink sample_contract "utc 9000000"]
  by (simp add: sample_chunk_accepted delivery_result_of_def)

theorem watermark_outcome_witness:
  "fst (sample_delivery (WatermarkMessage sample_watermark) sample_after_watermark)
    = Inr \<lparr>res_disposition = Duplicate, res_new_event_ids = []\<rparr>"
  using watermark_outcome [OF sample_after_watermark_wf sample_messages_valid(3), of file_sink sample_digests "utc 9000000"]
  by (simp add: watermark_row_in_def sample_ledger_after_watermark sample_watermark_def sample_digests_def)

theorem run_close_accepted_iff_witness:
  "(\<exists>st'. sample_delivery (ClosedMessage sample_close) sample_after_watermark
      = (Inr \<lparr>res_disposition = Accepted, res_new_event_ids = []\<rparr>, st'))"
  using run_close_accepted_iff [OF sample_after_watermark_wf sample_messages_valid(5), of file_sink sample_digests "utc 9000000"]
    sample_finals_match
  by (simp add: finals_match_def run_is_closed_def sample_ledger_after_watermark)

lemma sample_covered: "{1..1} \<subseteq> received (si_ledger sample_after_watermark) sample_partition"
  by (auto simp: received_def sample_ledger_after_watermark)

lemma sample_active: "active_watermark (si_ledger sample_after_watermark) sample_partition
    = Some \<lparr>wr_partition = sample_partition, wr_id = ''w1'', wr_sequence = 1, wr_sha = sample_sha, wr_at = utc 5000000,
       wr_lateness = 0, wr_covered = 1\<rparr>"
  using active_watermark_iff [OF sample_after_watermark_wf] sample_covered
  by (simp add: watermarks_of_def sample_ledger_after_watermark)

lemma later_chunk_admissible:
  "chunk_admissible sample_digests (sample_chunk ''c2'' 2 [sample_event ''B'' t]) (si_ledger sample_after_watermark)"
  "chunk_admissible sample_digests (sample_chunk ''c3'' 2 [sample_event ''B'' t]) (si_ledger sample_after_watermark)"
  by (simp_all add: chunk_admissible_def chunk_fresh_def run_is_closed_def frontier_clear_def events_agree_def sample_chunk_def
      sample_ledger_after_watermark event_shas_def sample_event_def)

theorem late_chunk_is_dead_lettered_witness:
  "map dl_event_ids (si_dead_letters (snd (sample_delivery (ChunkMessage late_chunk) sample_after_watermark))) = [[''B'']]"
proof -
  note late = late_chunk_is_dead_lettered [OF sample_history_watermark sample_digests_ok later_chunks_valid(1) _ _ _ _ refl,
      of _ "utc 9000000" "utc 9000000"]
  have "utc_milliseconds (utc 9000000) = Inr (utc 9000000)"
    by (simp add: utc_milliseconds_def utc_def astimezone_utc_def instant_def microsecond_def Let_def)
  moreover have "si_dead_letters sample_after_watermark = []" by (simp add: sample_after_watermark_def sample_after_chunk_def)
  ultimately show ?thesis
    using late sample_active later_chunk_admissible(1)
    by (simp add: late_chunk_def) (simp add: sample_chunk_def sample_event_def chunk_sha_def sample_digests_def event_stored_def
        sample_ledger_after_watermark utc_def instant_def blank_def unpadded_def str_strip_def is_space_def code_point_def)
qed

definition sample_after_next :: "ledger stream_state" where
  "sample_after_next = sample_after_watermark\<lparr>si_ledger := add_chunk sample_digests next_chunk (si_ledger sample_after_watermark)\<rparr>"

lemma next_chunk_accepted_at:
  assumes "ledger_wf (si_ledger st)" "chunk_admissible sample_digests next_chunk (si_ledger st)" "no_late_event next_chunk (si_ledger st)"
    "\<not> event_stored (si_ledger st) sample_partition ''B''"
  shows "sample_delivery (ChunkMessage next_chunk) st = (Inr (delivery_result_of True [''B'']),
      st\<lparr>si_ledger := add_chunk sample_digests next_chunk (si_ledger st)\<rparr>)"
proof -
  have c: "chunk_ok sample_types next_chunk" "event_ids_ok next_chunk"
    using later_chunks_valid(3,4) by (simp_all add: message_valid_def message_ids_ok_def)
  have sha: "chunk_sha sample_digests next_chunk = ck_sha next_chunk"
    by (simp add: chunk_sha_def sample_digests_def next_chunk_def sample_chunk_def)
  have new: "map fst (new_events sample_digests next_chunk (si_ledger st)) = [''B'']"
    using assms(4) by (simp add: new_events_def new_shas_def event_shas_def next_chunk_def sample_chunk_def sample_event_def)
  show ?thesis
    using accept_chunk_new [OF assms(1) event_shas_ok [OF c sample_digests_ok] sha assms(2), of file_sink "utc 9000000"] assms(3) new
    by (simp add: accept_message_valid(1) [OF later_chunks_valid(3)])
qed

lemma next_chunk_accepted: "sample_delivery (ChunkMessage next_chunk) sample_after_watermark = (Inr (delivery_result_of True [''B'']), sample_after_next)"
proof -
  have "ck_partition next_chunk = sample_partition" "ck_events next_chunk = [sample_event ''B'' 8000000]"
    by (simp_all add: next_chunk_def sample_chunk_def)
  then have "no_late_event next_chunk (si_ledger sample_after_watermark)"
    using sample_active by (simp add: no_late_event_def sample_event_def utc_def instant_def)
  moreover have "\<not> event_stored (si_ledger sample_after_watermark) sample_partition ''B''"
    by (simp add: event_stored_def sample_ledger_after_watermark)
  ultimately show ?thesis
    using next_chunk_accepted_at [OF sample_after_watermark_wf] later_chunk_admissible(2) [of 8000000]
    by (simp add: sample_after_next_def next_chunk_def)
qed

theorem accepted_chunk_is_not_late_witness: "instant (utc 5000000) < instant (utc 8000000)"
proof -
  have next_fields: "ck_partition next_chunk = sample_partition" "ck_events next_chunk = [sample_event ''B'' 8000000]"
    by (simp_all add: next_chunk_def sample_chunk_def)
  have marks: "watermarks_of (si_ledger sample_after_watermark) sample_partition = [\<lparr>wr_partition = sample_partition, wr_id = ''w1'',
      wr_sequence = 1, wr_sha = sample_sha, wr_at = utc 5000000, wr_lateness = 0, wr_covered = 1\<rparr>]"
    by (simp add: watermarks_of_def sample_ledger_after_watermark)
  show ?thesis
    using accepted_chunk_is_not_late [OF sample_after_watermark_wf sample_digests_ok later_chunks_valid(4) next_chunk_accepted _ refl]
      sample_covered unfolding next_fields marks by (simp add: delivery_result_of_def sample_event_def)
qed

definition sample_position_close :: position_close where
  "sample_position_close = \<lparr>pc_close_id = ''p1'', pc_run_id = sample_run_id, pc_partition = sample_partition, pc_target_host = ''h1'',
     pc_contract_sha = sample_sha, pc_lower = 1, pc_upper = 5, pc_generation_id = sample_sha, pc_covered = 1, pc_covered_sha = sample_sha,
     pc_ack_count = 1, pc_event_count = 1, pc_source_sha = sample_sha, pc_live_sha = sample_sha, pc_canonical_sha = sample_sha,
     pc_request_id = ''q1'', pc_snapshot_shas = [], pc_candidate_at = utc 1000, pc_observation_at = utc 2000, pc_emitted_at = utc 3000\<rparr>"

lemma sample_position_close_ok: "position_close_ok sample_position_close"
  using sample_partition_ok sample_sha_ok
  by (simp add: position_close_ok_def sample_position_close_def is_utc_def utc_def ms_aligned_iff instant_def unpadded_def str_strip_def
      is_space_def code_point_def) (simp add: sample_partition_def)

definition sample_after_position :: "ledger stream_state" where
  "sample_after_position = sample_after_watermark\<lparr>si_ledger := add_position sample_digests sample_position_close (utc 9000000)
     (si_ledger sample_after_watermark)\<rparr>"

lemma save_position_new:
  assumes wf: "ledger_wf l" and c: "position_close_ok c" and fresh: "\<not> position_known l (pc_run_id c)"
    and covered: "covered_chunks_match sd c l" and sha: "sha256_ok (sd_position sd c)" and at: "is_utc t" "ms_aligned t"
  shows "\<exists>receipt. save_position_close (sd_position sd) (sd_covered sd) c (sd_position sd c) t l = (Inr (True, receipt), add_position sd c t l)"
proof -
  have run: "position_run (row_of_position c sha t) = pc_run_id c" for sha t
    using c by (simp add: row_of_position_def position_close_ok_def)
  have p: "partition_ok (pc_partition c)" "pt_run_id (pc_partition c) = pc_run_id c" using c by (simp_all add: position_close_ok_def)
  have run_id: "run_id_ok (pc_run_id c)" "unpadded (pc_run_id c)" "pc_run_id c \<noteq> []" using p run_id_ok_nonempty [of "pc_run_id c"] by (auto simp: partition_ok_def)
  have none: "select_position_close l (pc_run_id c) = None"
    using fresh by (auto simp: position_known_def select_position_close_def find_None_iff)
  have ins: "insert_position (row_of_position c (sd_position sd c) t) l = (Some (int (length (lg_positions l)) + 1), add_position sd c t l)"
    using fresh by (auto simp: insert_position_def Let_def run position_known_def add_position_def)
  have aware: "utcoffset t \<noteq> None" using at(1) by (simp add: is_utc_def)
  show ?thesis
    using none ins require_covered_ok [OF wf, of sd c] covered p run_id sha at aware c
    by (simp add: save_position_close_def load_accepted_position_close_receipt_def position_receipt_of_def
        validate_required_identifier_def position_close_ok_def unpadded_nonempty_not_blank)
qed

lemma sample_position_accepted:
  "\<exists>receipt. accept_position_close sample_digests sample_contract (utc 9000000) sample_position_close sample_after_watermark
    = (Inr (True, receipt), sample_after_position)"
proof -
  let ?l = "si_ledger sample_after_watermark"
  have now: "utc_milliseconds (utc 9000000) = Inr (utc 9000000)"
    by (simp add: utc_milliseconds_def utc_def astimezone_utc_def instant_def microsecond_def Let_def)
  have bound: "require_contract_binding sample_digests sample_position_close sample_contract = Inr ()"
    by (simp add: require_contract_binding_def sample_contract_def canonical_channel_def sample_position_close_def sample_partition_def sample_digests_def)
  have "\<not> position_known ?l (pc_run_id sample_position_close)" by (simp add: position_known_def sample_ledger_after_watermark)
  moreover have "covered_chunks_match sample_digests sample_position_close ?l"
    using covered_chunks_iff [OF sample_after_watermark_wf, of 1 sample_partition] sample_covered
    by (simp add: covered_chunks_match_def sample_position_close_def sample_digests_def)
  moreover have "sha256_ok (sd_position sample_digests sample_position_close)" using sample_sha_ok by (simp add: sample_digests_def)
  ultimately obtain receipt where "save_position_close (sd_position sample_digests) (sd_covered sample_digests) sample_position_close
      (sd_position sample_digests sample_position_close) (utc 9000000) ?l
      = (Inr (True, receipt), add_position sample_digests sample_position_close (utc 9000000) ?l)"
    using save_position_new [OF sample_after_watermark_wf sample_position_close_ok, of sample_digests "utc 9000000"]
    by (auto simp: is_utc_def utc_def ms_aligned_iff)
  then show ?thesis by (simp add: accept_position_close_def bound now sample_after_position_def)
qed

theorem accepted_position_close_is_complete_witness:
  "{1..1} \<subseteq> received (si_ledger sample_after_watermark) sample_partition \<and> sd_contract sample_digests sample_contract = sample_sha"
proof -
  obtain receipt where "accept_position_close sample_digests sample_contract (utc 9000000) sample_position_close sample_after_watermark
    = (Inr (True, receipt), sample_after_position)" using sample_position_accepted by blast
  from accepted_position_close_is_complete [OF sample_after_watermark_wf sample_position_close_ok this] show ?thesis
    by (simp add: sample_position_close_def)
qed

lemma sample_after_position_wf: "ledger_wf (si_ledger sample_after_position)"
  using add_position_wf [OF sample_after_watermark_wf sample_position_close_ok]
  by (simp add: sample_after_position_def position_known_def sample_ledger_after_watermark)

theorem position_frontier_respected_witness:
  "res_disposition (projr (fst (sample_delivery (ChunkMessage next_chunk) sample_after_position))) = Accepted \<and> (5::int) < int (dec_value ''7'')"
proof -
  let ?l = "si_ledger sample_after_position"
  have next_fields: "ck_partition next_chunk = sample_partition" "ck_events next_chunk = [sample_event ''B'' 8000000]"
    "ck_chunk_id next_chunk = ''c3''" "ck_sequence next_chunk = 2" by (simp_all add: next_chunk_def sample_chunk_def)
  have "canonical_decimal (Some ''7'')" "dec_value ''7'' = 7" by code_simp+
  then have adm: "chunk_admissible sample_digests next_chunk ?l"
    by (simp add: chunk_admissible_def chunk_fresh_def run_is_closed_def frontier_clear_def events_agree_def sample_after_position_def
        add_position_def sample_ledger_after_watermark event_shas_def event_record_ids_def sample_event_def next_fields
        row_of_position_def sample_position_close_def)
  have covers: "watermark_covers_received_chunks ?l p w = watermark_covers_received_chunks (si_ledger sample_after_watermark) p w" for p w
    by (simp add: watermark_covers_received_chunks_def select_covered_chunks_def sample_after_position_def add_position_def)
  have "select_latest_watermark ?l sample_partition = select_latest_watermark (si_ledger sample_after_watermark) sample_partition"
    by (simp add: select_latest_watermark_def sample_after_position_def add_position_def)
  then have "active_watermark ?l sample_partition = active_watermark (si_ledger sample_after_watermark) sample_partition"
    by (simp add: active_watermark_def covers cong: option.case_cong)
  then have "no_late_event next_chunk ?l"
    using sample_active by (simp add: no_late_event_def next_fields sample_event_def utc_def instant_def)
  moreover have "\<not> event_stored ?l sample_partition ''B''"
    by (simp add: event_stored_def sample_after_position_def add_position_def sample_ledger_after_watermark)
  ultimately have res: "sample_delivery (ChunkMessage next_chunk) sample_after_position
      = (Inr (delivery_result_of True [''B'']), sample_after_position\<lparr>si_ledger := add_chunk sample_digests next_chunk ?l\<rparr>)"
    using next_chunk_accepted_at [OF sample_after_position_wf adm] by simp
  let ?r = "(row_of_position sample_position_close sample_sha (utc 9000000))\<lparr>pr_entry_id := 1\<rparr>"
  have "?r \<in> set (lg_positions ?l)" "position_run ?r = pt_run_id (ck_partition next_chunk)"
    by (simp_all add: sample_after_position_def add_position_def sample_ledger_after_watermark sample_digests_def next_fields
        row_of_position_def sample_position_close_def)
  from position_frontier_respected [OF sample_after_position_wf sample_digests_ok later_chunks_valid(4) this res]
  show ?thesis by (simp add: res delivery_result_of_def next_fields sample_event_def row_of_position_def sample_position_close_def)
qed



theorem guard_agrees_with_ledger_witness:
  "fst (ledger_outcomes sample_digests [sample_watermark, sample_watermark] empty_ledger) = [True, True]"
proof -
  have ok: "watermark_ok sample_watermark" using sample_messages_valid(3) by (simp add: message_valid_def)
  have "fst (guard_outcomes [sample_watermark, sample_watermark] new_late_event_guard) = [True, True]"
    by (simp add: guard_accept_watermark_def new_late_event_guard_def remember_watermark_def same_watermark_def)
  with guard_agrees_with_ledger [of "[sample_watermark, sample_watermark]" sample_digests] ok sample_digests_ok show ?thesis by simp
qed

end
