(* ===== verification/LineageSelector.thy ===== *)
theory LineageSelector
  imports RecordModels "HOL-Library.Sublist"
begin

text \<open>
  The identity of an R1 pair (\<open>collection/r1_pair_identity.py\<close>) and the lineage selector
  (\<open>evidence/r1_selector.py\<close>): from the Events of one run and host the selector finds the one
  process that opened a network connection and walks its parents up to the length of the policy.
  A result carries either the selection or one diagnostic, never both.
\<close>

section \<open>Pair identity\<close>

text \<open>The Korean label words lie outside the modelled code points, so no modelled string contains one.\<close>

definition label_words :: "string list" where
  "label_words = [''normal'', ''attack'', ''benign'', ''malicious'']"

definition exposed_label_word :: "string \<Rightarrow> string option" where
  "exposed_label_word v = find (\<lambda>w. sublist w (map lower_char v)) label_words"

definition validate_pair_identifier :: "string \<Rightarrow> unit result" where
  "validate_pair_identifier s = raise_first
     [(blank s, ValueError ''must be a non-empty string''),
      (\<not> unpadded s, ValueError ''must not have surrounding whitespace''),
      (exposed_label_word s \<noteq> None, ValueError ''would expose the run type'')]"

definition validate_repetition :: "int \<Rightarrow> unit result" where
  "validate_repetition n = raise_if (n < 1) (ValueError ''repetition must be 1 or more'')"

record pair_identity =
  pid_family :: string
  pid_variation :: string
  pid_repetition :: int

definition read_pair_identity :: "string option \<Rightarrow> string option \<Rightarrow> int option \<Rightarrow> pair_identity result" where
  "read_pair_identity family variation repetition = (case (family, variation, repetition) of
     (None, _, _) \<Rightarrow> Inl (ValueError ''family_id must be a non-empty string'')
   | (Some f, v, r) \<Rightarrow> seq (validate_pair_identifier f) (case v of
       None \<Rightarrow> Inl (ValueError ''variation_id must be a non-empty string'')
     | Some v \<Rightarrow> seq (validate_pair_identifier v) (case r of
         None \<Rightarrow> Inl (ValueError ''repetition must be an integer of 1 or more'')
       | Some n \<Rightarrow> seq (validate_repetition n) (Inr \<lparr>pid_family = f, pid_variation = v, pid_repetition = n\<rparr>))))"

definition dataset_tiers :: "string list" where
  "dataset_tiers = [''pilot'', ''development'', ''holdout'']"

definition validate_dataset_tier :: "string option \<Rightarrow> string result" where
  "validate_dataset_tier t = (case t of
     None \<Rightarrow> Inl (ValueError ''dataset_tier must be one of the tiers'')
   | Some s \<Rightarrow> seq (raise_if (s \<notin> set dataset_tiers) (ValueError ''dataset_tier must be one of the tiers'')) (Inr s))"

section \<open>Policy and result\<close>

datatype selector_diagnostic = EmptyEventBatch | MixedRunScope | MixedHostScope | DuplicateEventId
  | MissingProcessGuid | DuplicateProcessGuid | NoTerminalCandidate | AmbiguousTerminalCandidate
  | TruncatedLineage | LineageCycle | TemporalInversion

record selector_policy =
  slp_policy_id :: string
  slp_version :: string
  slp_config_hash :: string
  slp_event_count :: int

definition new_selector_policy :: "selector_policy \<Rightarrow> selector_policy result" where
  "new_selector_policy p = seq (raise_first
     [(blank (slp_policy_id p), ValueError ''policy_id must be a non-blank string''),
      (blank (slp_version p), ValueError ''version must be a non-blank string''),
      (blank (slp_config_hash p), ValueError ''config_hash must be a non-blank string''),
      (slp_event_count p < 1, ValueError ''lineage_event_count must be at least 1'')]) (Inr p)"

record lineage_selection =
  lsn_run_id :: string
  lsn_entity_id :: string
  lsn_anchor_event_id :: string
  lsn_terminal_event_id :: string
  lsn_policy_id :: string
  lsn_policy_version :: string
  lsn_policy_config_hash :: string
  lsn_context_event_ids :: "string list"

record selector_result =
  slr_selection :: "lineage_selection option"
  slr_diagnostics :: "selector_diagnostic list"

definition failed :: "selector_diagnostic \<Rightarrow> selector_result" where
  "failed d = \<lparr>slr_selection = None, slr_diagnostics = [d]\<rparr>"

section \<open>Events of a lineage\<close>

definition sysmon_telemetry :: "normalized_event \<Rightarrow> bool" where
  "sysmon_telemetry e \<longleftrightarrow> ev_source e = ''sysmon'' \<and> ev_source_layer e = RawTelemetry"

definition is_process_create :: "normalized_event \<Rightarrow> bool" where
  "is_process_create e \<longleftrightarrow> sysmon_telemetry e \<and> ev_event_type e = ''process_create''"

definition is_network_connection :: "normalized_event \<Rightarrow> bool" where
  "is_network_connection e \<longleftrightarrow> sysmon_telemetry e \<and> ev_event_type e = ''network_connection''"

definition process_guid :: "normalized_event \<Rightarrow> string option" where
  "process_guid e = (case ev_process e of None \<Rightarrow> None | Some p \<Rightarrow> pi_process_guid p)"

definition parent_process_guid :: "normalized_event \<Rightarrow> string option" where
  "parent_process_guid e = (case ev_process e of None \<Rightarrow> None | Some p \<Rightarrow> pi_parent_process_guid p)"

abbreviation "ev_at e \<equiv> instant (ev_timestamp e)"

section \<open>The selector\<close>

definition normalize_run_start :: "datetime option \<Rightarrow> datetime option result" where
  "normalize_run_start t = (case t of
     None \<Rightarrow> Inr None
   | Some d \<Rightarrow> seq (require_utc ''run_start'' d) (Inr (Some (astimezone_utc d))))"

definition before_run :: "datetime option \<Rightarrow> normalized_event \<Rightarrow> bool" where
  "before_run run_start e \<longleftrightarrow> is_some_and run_start (\<lambda>t. ev_at e < instant t)"

text \<open>The dictionary of process events by GUID; \<open>None\<close> is the early return on a second one.\<close>

fun index_processes :: "normalized_event list \<Rightarrow> (string \<rightharpoonup> normalized_event) \<Rightarrow> (string \<rightharpoonup> normalized_event) option" where
  "index_processes [] d = Some d"
| "index_processes (e # es) d = (case process_guid e of
     None \<Rightarrow> index_processes es d
   | Some g \<Rightarrow> if d g \<noteq> None then None else index_processes es (d(g \<mapsto> e)))"

definition networks_of :: "normalized_event list \<Rightarrow> string \<Rightarrow> normalized_event list" where
  "networks_of network_events g = filter (\<lambda>n. process_guid n = Some g) network_events"

fun scan_terminals :: "normalized_event list \<Rightarrow> datetime option \<Rightarrow> normalized_event list \<Rightarrow> normalized_event list \<times> bool" where
  "scan_terminals network_events run_start [] = ([], False)"
| "scan_terminals network_events run_start (e # es) =
     (case scan_terminals network_events run_start es of (candidates, inverted) \<Rightarrow>
       if before_run run_start e then (candidates, inverted)
       else (case process_guid e of
         None \<Rightarrow> (candidates, inverted)
       | Some g \<Rightarrow>
           if \<exists>n \<in> set (networks_of network_events g). ev_at n < ev_at e then (candidates, True)
           else if networks_of network_events g \<noteq> [] then (e # candidates, inverted)
           else (candidates, inverted)))"

definition terminal_candidates :: "normalized_event list \<Rightarrow> normalized_event list \<Rightarrow> datetime option \<Rightarrow> normalized_event list \<times> bool" where
  "terminal_candidates process_events network_events run_start =
     (case scan_terminals network_events run_start process_events of (candidates, inverted) \<Rightarrow>
       (sort_key (\<lambda>e. (ev_at e, ev_event_id e)) candidates, inverted))"

text \<open>
  The walk to the parents. \<open>lineage\<close> grows from the terminal event; the loop ends when it is as
  long as the policy says, which is the measure of the recursion.
\<close>

function walk_parents :: "(string \<rightharpoonup> normalized_event) \<Rightarrow> nat \<Rightarrow> normalized_event list \<Rightarrow> string set \<Rightarrow> normalized_event
    \<Rightarrow> selector_diagnostic + normalized_event list" where
  "walk_parents by_guid limit lineage visited child =
     (if length lineage < limit then
        (case parent_process_guid child of
           None \<Rightarrow> Inl TruncatedLineage
         | Some g \<Rightarrow>
             if g \<in> visited then Inl LineageCycle
             else (case by_guid g of
               None \<Rightarrow> Inl TruncatedLineage
             | Some parent \<Rightarrow>
                 if ev_at child < ev_at parent then Inl TemporalInversion
                 else walk_parents by_guid limit (lineage @ [parent]) (insert g visited) parent))
      else Inr lineage)"
  by pat_completeness auto
termination by (relation "measure (\<lambda>(by_guid, limit, lineage, visited, child). limit - length lineage)") auto

declare walk_parents.simps [simp del]

definition lineage_to_policy_boundary :: "normalized_event \<Rightarrow> (string \<rightharpoonup> normalized_event) \<Rightarrow> int
    \<Rightarrow> selector_diagnostic + normalized_event list" where
  "lineage_to_policy_boundary terminal by_guid limit = (case process_guid terminal of
     None \<Rightarrow> Inl MissingProcessGuid
   | Some g \<Rightarrow> walk_parents by_guid (nat limit) [terminal] {g} terminal)"

definition selection_of_lineage :: "selector_policy \<Rightarrow> datetime option \<Rightarrow> normalized_event list \<Rightarrow> lineage_selection" where
  "selection_of_lineage policy run_start semantic =
     \<lparr>lsn_run_id = ev_run_id (last semantic), lsn_entity_id = ev_host_id (last semantic),
      lsn_anchor_event_id = ev_event_id (hd semantic), lsn_terminal_event_id = ev_event_id (last semantic),
      lsn_policy_id = slp_policy_id policy, lsn_policy_version = slp_version policy,
      lsn_policy_config_hash = slp_config_hash policy,
      lsn_context_event_ids = map ev_event_id (filter (before_run run_start) semantic)\<rparr>"

definition select_r1_lineage :: "normalized_event list \<Rightarrow> selector_policy \<Rightarrow> datetime option \<Rightarrow> selector_result result" where
  "select_r1_lineage events policy start = bnd (normalize_run_start start) (\<lambda>run_start. Inr
     (let process_events = filter is_process_create events;
          network_events = filter is_network_connection events in
      if events = [] then failed EmptyEventBatch
      else if has_duplicates (map ev_event_id events) then failed DuplicateEventId
      else if card (set (map ev_run_id events)) \<noteq> 1 then failed MixedRunScope
      else if card (set (map ev_host_id events)) \<noteq> 1 then failed MixedHostScope
      else if \<exists>e \<in> set (process_events @ network_events). process_guid e = None then failed MissingProcessGuid
      else (case index_processes process_events Map.empty of
        None \<Rightarrow> failed DuplicateProcessGuid
      | Some by_guid \<Rightarrow>
          (case terminal_candidates process_events network_events run_start of (candidates, inverted) \<Rightarrow>
            if inverted then failed TemporalInversion
            else (case candidates of
              [] \<Rightarrow> failed NoTerminalCandidate
            | [terminal] \<Rightarrow>
                (case lineage_to_policy_boundary terminal by_guid (slp_event_count policy) of
                   Inl d \<Rightarrow> failed d
                 | Inr lineage \<Rightarrow>
                     \<lparr>slr_selection = Some (selection_of_lineage policy run_start (rev lineage)), slr_diagnostics = []\<rparr>)
            | _ \<Rightarrow> failed AmbiguousTerminalCandidate)))))"

section \<open>What the selector finds\<close>

definition linked :: "normalized_event \<Rightarrow> normalized_event \<Rightarrow> bool" where
  "linked parent child \<longleftrightarrow> parent_process_guid child = process_guid parent \<and> process_guid parent \<noteq> None \<and> ev_at parent \<le> ev_at child"

text \<open>A lineage, from the anchor to the terminal process.\<close>

definition lineage_chain :: "normalized_event list \<Rightarrow> normalized_event list \<Rightarrow> bool" where
  "lineage_chain events xs \<longleftrightarrow> xs \<noteq> [] \<and> (\<forall>e \<in> set xs. e \<in> set events \<and> is_process_create e)
     \<and> distinct (map process_guid xs) \<and> successively linked xs"

definition is_terminal :: "normalized_event list \<Rightarrow> datetime option \<Rightarrow> normalized_event \<Rightarrow> bool" where
  "is_terminal events run_start e \<longleftrightarrow> e \<in> set events \<and> is_process_create e \<and> \<not> before_run run_start e
     \<and> (\<exists>n \<in> set events. is_network_connection n \<and> process_guid n = process_guid e)"

definition batch_ok :: "normalized_event list \<Rightarrow> bool" where
  "batch_ok events \<longleftrightarrow> distinct (map ev_event_id events) \<and> (\<exists>r. set (map ev_run_id events) = {r}) \<and> (\<exists>h. set (map ev_host_id events) = {h})
     \<and> (\<forall>e \<in> set events. is_process_create e \<or> is_network_connection e \<longrightarrow> process_guid e \<noteq> None)
     \<and> distinct (map process_guid (filter is_process_create events))"

definition in_order :: "normalized_event list \<Rightarrow> datetime option \<Rightarrow> bool" where
  "in_order events run_start \<longleftrightarrow> (\<forall>e \<in> set events. \<forall>n \<in> set events. is_process_create e \<longrightarrow> \<not> before_run run_start e
     \<longrightarrow> is_network_connection n \<longrightarrow> process_guid n = process_guid e \<longrightarrow> ev_at e \<le> ev_at n)"

definition processes_by_guid :: "normalized_event list \<Rightarrow> string \<rightharpoonup> normalized_event" where
  "processes_by_guid es g = find (\<lambda>e. process_guid e = Some g) es"

lemma index_processes_eq:
  "(\<And>e. e \<in> set es \<Longrightarrow> process_guid e \<noteq> None) \<Longrightarrow> index_processes es d =
    (if distinct (map process_guid es) \<and> (\<forall>e \<in> set es. d (the (process_guid e)) = None)
     then Some (\<lambda>g. case processes_by_guid es g of Some e \<Rightarrow> Some e | None \<Rightarrow> d g) else None)"
proof (induction es arbitrary: d)
  case Nil
  then show ?case by (simp add: processes_by_guid_def)
next
  case (Cons e es)
  obtain g where g: "process_guid e = Some g" using Cons.prems [of e] by auto
  have some: "\<And>x. x \<in> set es \<Longrightarrow> \<exists>h. process_guid x = Some h" using Cons.prems by force
  have IH: "index_processes es (d(g \<mapsto> e)) = (if distinct (map process_guid es) \<and> (\<forall>x \<in> set es. (d(g \<mapsto> e)) (the (process_guid x)) = None)
      then Some (\<lambda>h. case processes_by_guid es h of Some x \<Rightarrow> Some x | None \<Rightarrow> (d(g \<mapsto> e)) h) else None)"
    by (rule Cons.IH) (use Cons.prems in simp)
  show ?case
  proof (cases "d g = None \<and> Some g \<notin> process_guid ` set es")
    case True
    then have ne: "the (process_guid x) \<noteq> g" if "x \<in> set es" for x using some [OF that] that by force
    have "processes_by_guid es g = None" using True by (auto simp: processes_by_guid_def find_None_iff image_iff)
    then have "(\<lambda>h. case processes_by_guid es h of Some x \<Rightarrow> Some x | None \<Rightarrow> (d(g \<mapsto> e)) h)
        = (\<lambda>h. case processes_by_guid (e # es) h of Some x \<Rightarrow> Some x | None \<Rightarrow> d h)"
      using g by (auto simp: processes_by_guid_def fun_eq_iff split: option.splits)
    moreover have "(\<forall>x \<in> set es. (d(g \<mapsto> e)) (the (process_guid x)) = None) \<longleftrightarrow> (\<forall>x \<in> set es. d (the (process_guid x)) = None)"
      using ne by auto
    ultimately show ?thesis using IH True g by simp
  next
    case False
    show ?thesis
    proof (cases "d g = None")
      case True
      with False obtain x where "x \<in> set es" "process_guid x = Some g" by (auto simp: image_iff)
      then have "\<not> (\<forall>x \<in> set es. (d(g \<mapsto> e)) (the (process_guid x)) = None)" by (intro notI) (drule bspec, auto)
      then have "index_processes es (d(g \<mapsto> e)) = None" unfolding IH by simp
      with True False g show ?thesis by (auto simp: image_iff)
    qed (use g in auto)
  qed
qed

lemma index_processes_empty:
  assumes "\<And>e. e \<in> set es \<Longrightarrow> process_guid e \<noteq> None"
  shows "index_processes es Map.empty = (if distinct (map process_guid es) then Some (processes_by_guid es) else None)"
proof -
  have "(\<lambda>g. case processes_by_guid es g of Some e \<Rightarrow> Some e | None \<Rightarrow> None) = processes_by_guid es"
    by (auto simp: fun_eq_iff split: option.splits)
  then show ?thesis using index_processes_eq [where d = Map.empty, OF assms] by simp
qed

lemma processes_by_guid_iff:
  assumes "distinct (map process_guid es)"
  shows "processes_by_guid es g = Some e \<longleftrightarrow> e \<in> set es \<and> process_guid e = Some g"
proof
  assume "processes_by_guid es g = Some e"
  then show "e \<in> set es \<and> process_guid e = Some g" by (auto simp: processes_by_guid_def find_Some_iff)
next
  assume e: "e \<in> set es \<and> process_guid e = Some g"
  then obtain x where x: "processes_by_guid es g = Some x"
    by (cases "processes_by_guid es g") (auto simp: processes_by_guid_def find_None_iff)
  then have "x \<in> set es" "process_guid x = Some g" by (auto simp: processes_by_guid_def find_Some_iff)
  with assms e have "x = e" by (auto simp: distinct_map inj_on_def)
  with x show "processes_by_guid es g = Some e" by simp
qed

definition terminal_ok :: "normalized_event list \<Rightarrow> datetime option \<Rightarrow> normalized_event \<Rightarrow> bool" where
  "terminal_ok ns run_start e \<longleftrightarrow> \<not> before_run run_start e \<and> process_guid e \<noteq> None
     \<and> networks_of ns (the (process_guid e)) \<noteq> [] \<and> (\<forall>n \<in> set (networks_of ns (the (process_guid e))). ev_at e \<le> ev_at n)"

definition terminal_inverted :: "normalized_event list \<Rightarrow> datetime option \<Rightarrow> normalized_event \<Rightarrow> bool" where
  "terminal_inverted ns run_start e \<longleftrightarrow> \<not> before_run run_start e \<and> process_guid e \<noteq> None
     \<and> (\<exists>n \<in> set (networks_of ns (the (process_guid e))). ev_at n < ev_at e)"

lemma scan_terminals_eq:
  "scan_terminals ns run_start es = (filter (terminal_ok ns run_start) es, \<exists>e \<in> set es. terminal_inverted ns run_start e)"
proof (induction es)
  case (Cons e es)
  have ok: "terminal_ok ns run_start e \<longleftrightarrow> \<not> before_run run_start e \<and> (\<exists>g. process_guid e = Some g \<and> networks_of ns g \<noteq> []
      \<and> \<not> (\<exists>n \<in> set (networks_of ns g). ev_at n < ev_at e))"
    by (cases "process_guid e") (auto simp: terminal_ok_def not_less)
  have inv: "terminal_inverted ns run_start e \<longleftrightarrow> \<not> before_run run_start e \<and> (\<exists>g. process_guid e = Some g
      \<and> (\<exists>n \<in> set (networks_of ns g). ev_at n < ev_at e))"
    by (cases "process_guid e") (auto simp: terminal_inverted_def)
  show ?case by (cases "process_guid e") (simp_all add: Cons ok inv)
qed simp

text \<open>The parents the walk appends, from the child up.\<close>

fun parents_path :: "(string \<rightharpoonup> normalized_event) \<Rightarrow> string set \<Rightarrow> normalized_event \<Rightarrow> normalized_event list \<Rightarrow> bool" where
  "parents_path by_guid visited child [] = True"
| "parents_path by_guid visited child (p # ps) = (\<exists>g. parent_process_guid child = Some g \<and> g \<notin> visited \<and> by_guid g = Some p
     \<and> ev_at p \<le> ev_at child \<and> parents_path by_guid (insert g visited) p ps)"

lemma walk_parents_iff:
  "length lineage \<le> limit \<Longrightarrow> walk_parents by_guid limit lineage visited child = Inr r \<longleftrightarrow>
    (\<exists>ps. r = lineage @ ps \<and> length r = limit \<and> parents_path by_guid visited child ps)"
proof (induction by_guid limit lineage visited child arbitrary: r rule: walk_parents.induct)
  case (1 by_guid limit lineage visited child)
  show ?case
  proof (cases "length lineage < limit")
    case False
    then show ?thesis using 1(2) by (subst walk_parents.simps) auto
  next
    case True
    note less = True
    have path: "parents_path by_guid visited child ps \<longleftrightarrow> (\<exists>p qs. ps = p # qs \<and> parents_path by_guid visited child (p # qs))"
      if "length (lineage @ ps) = limit" for ps using that less by (cases ps) auto
    show ?thesis
    proof (cases "\<exists>g p. parent_process_guid child = Some g \<and> g \<notin> visited \<and> by_guid g = Some p \<and> ev_at p \<le> ev_at child")
      case True
      then obtain g p where gp: "parent_process_guid child = Some g" "g \<notin> visited" "by_guid g = Some p" "ev_at p \<le> ev_at child" by blast
      have "walk_parents by_guid limit lineage visited child = walk_parents by_guid limit (lineage @ [p]) (insert g visited) p"
        using less gp by (subst walk_parents.simps) simp
      also have "\<dots> = Inr r \<longleftrightarrow> (\<exists>qs. r = (lineage @ [p]) @ qs \<and> length r = limit \<and> parents_path by_guid (insert g visited) p qs)"
        using 1(1) [OF less gp(1,2,3)] gp(4) less by simp
      also have "\<dots> \<longleftrightarrow> (\<exists>ps. r = lineage @ ps \<and> length r = limit \<and> parents_path by_guid visited child ps)"
        using gp path by fastforce
      finally show ?thesis .
    next
      case False
      then have none: "walk_parents by_guid limit lineage visited child \<noteq> Inr r"
        using less by (subst walk_parents.simps) (auto split: option.splits simp: not_less)
      have "\<not> parents_path by_guid visited child ps" if "length (lineage @ ps) = limit" for ps
        using path [OF that] False by auto
      with none show ?thesis by auto
    qed
  qed
qed

lemma parents_path_iff:
  assumes "\<And>g e. by_guid g = Some e \<longleftrightarrow> P e \<and> process_guid e = Some g"
  shows "parents_path by_guid visited child ps \<longleftrightarrow> (\<forall>p \<in> set ps. P p \<and> process_guid p \<notin> Some ` visited)
    \<and> distinct (map process_guid ps) \<and> successively (\<lambda>c p. linked p c) (child # ps)"
proof (induction ps arbitrary: visited child)
  case Nil
  then show ?case by simp
next
  case (Cons p ps)
  have "parents_path by_guid visited child (p # ps) \<longleftrightarrow>
      (\<exists>g. parent_process_guid child = Some g \<and> g \<notin> visited \<and> P p \<and> process_guid p = Some g \<and> ev_at p \<le> ev_at child
        \<and> (\<forall>q \<in> set ps. P q \<and> process_guid q \<notin> Some ` insert g visited) \<and> distinct (map process_guid ps)
        \<and> successively (\<lambda>c p. linked p c) (p # ps))"
    by (simp add: assms Cons)
  also have "\<dots> \<longleftrightarrow> (\<forall>q \<in> set (p # ps). P q \<and> process_guid q \<notin> Some ` visited) \<and> distinct (map process_guid (p # ps))
      \<and> successively (\<lambda>c p. linked p c) (child # p # ps)"
    unfolding linked_def by (cases "process_guid p") (auto simp: image_iff)
  finally show ?case .
qed

lemma lineage_exact:
  assumes t: "process_guid t = Some g" "P t" and n: "1 \<le> n"
    and idx: "\<And>g e. by_guid g = Some e \<longleftrightarrow> P e \<and> process_guid e = Some g"
  shows "lineage_to_policy_boundary t by_guid n = Inr lineage \<longleftrightarrow>
    (\<exists>xs. lineage = rev xs \<and> xs \<noteq> [] \<and> last xs = t \<and> length xs = nat n \<and> (\<forall>e \<in> set xs. P e)
      \<and> distinct (map process_guid xs) \<and> successively linked xs)"
proof -
  have "lineage_to_policy_boundary t by_guid n = Inr lineage \<longleftrightarrow>
      (\<exists>ps. lineage = t # ps \<and> length lineage = nat n \<and> parents_path by_guid {g} t ps)"
    using walk_parents_iff [of "[t]" "nat n" by_guid "{g}" t lineage] t n by (auto simp: lineage_to_policy_boundary_def)
  also have "\<dots> \<longleftrightarrow> (\<exists>ps. lineage = t # ps \<and> length lineage = nat n \<and> (\<forall>e \<in> set (t # ps). P e)
      \<and> distinct (map process_guid (t # ps)) \<and> successively (\<lambda>c p. linked p c) (t # ps))"
    unfolding parents_path_iff [OF idx] using t by (auto simp: image_iff) metis+
  also have "\<dots> \<longleftrightarrow> (\<exists>xs. lineage = rev xs \<and> xs \<noteq> [] \<and> last xs = t \<and> length xs = nat n \<and> (\<forall>e \<in> set xs. P e)
      \<and> distinct (map process_guid xs) \<and> successively linked xs)" (is "?l \<longleftrightarrow> ?r")
  proof
    assume ?l
    then obtain ps where ps: "lineage = t # ps" "length lineage = nat n" "\<forall>e \<in> set (t # ps). P e"
      "distinct (map process_guid (t # ps))" "successively (\<lambda>c p. linked p c) (t # ps)" by blast
    show ?r
      by (rule exI [of _ "rev (t # ps)"]) (use ps in \<open>auto simp: successively_rev rev_map [symmetric] last_rev simp del: rev.simps\<close>)
  next
    assume ?r
    then obtain xs where xs: "lineage = rev xs" "xs \<noteq> []" "last xs = t" "length xs = nat n" "\<forall>e \<in> set xs. P e"
      "distinct (map process_guid xs)" "successively linked xs" by blast
    then obtain ps where ps: "rev xs = t # ps" by (metis hd_rev list.collapse rev_is_Nil_conv)
    have "successively (\<lambda>c p. linked p c) (rev xs)" using xs(7) by (simp add: successively_rev)
    with xs ps show ?l
      by (intro exI [of _ ps]) (metis distinct_rev length_rev rev_map set_rev)
  qed
  finally show ?thesis .
qed

lemma networks_of_set [simp]:
  "set (networks_of (filter is_network_connection events) g) = {n \<in> set events. is_network_connection n \<and> process_guid n = Some g}"
  by (auto simp: networks_of_def)

lemma networks_of_Nil: "networks_of ns g = [] \<longleftrightarrow> (\<forall>n \<in> set ns. process_guid n \<noteq> Some g)"
  by (auto simp: networks_of_def filter_empty_conv)

lemma inverted_iff:
  assumes "batch_ok events"
  shows "(\<exists>e \<in> set (filter is_process_create events). terminal_inverted (filter is_network_connection events) run_start e)
    \<longleftrightarrow> \<not> in_order events run_start"
proof -
  have "process_guid e \<noteq> None" if "e \<in> set events" "is_process_create e" for e using assms that by (auto simp: batch_ok_def)
  then show ?thesis
    by (fastforce simp: terminal_inverted_def in_order_def not_le)
qed

lemma terminals_iff:
  assumes "batch_ok events" "in_order events run_start"
  shows "set (filter (terminal_ok (filter is_network_connection events) run_start) (filter is_process_create events))
    = {e. is_terminal events run_start e}"
proof -
  have "process_guid e \<noteq> None" if "e \<in> set events" "is_process_create e" for e using assms(1) that by (auto simp: batch_ok_def)
  then show ?thesis using assms(2)
    by (auto simp: terminal_ok_def is_terminal_def in_order_def networks_of_Nil)
qed

lemma batch_conditions:
  "events \<noteq> [] \<and> \<not> has_duplicates (map ev_event_id events) \<and> card (set (map ev_run_id events)) = 1 \<and> card (set (map ev_host_id events)) = 1
    \<and> \<not> (\<exists>e \<in> set (filter is_process_create events @ filter is_network_connection events). process_guid e = None)
    \<and> distinct (map process_guid (filter is_process_create events)) \<longleftrightarrow> batch_ok events"
  by (auto simp: batch_ok_def card_1_singleton_iff)

text \<open>The outcome of the selector on a batch that has the right shape.\<close>

lemma select_batch:
  assumes ok: "batch_ok events" and start: "normalize_run_start start = Inr run_start"
  shows "select_r1_lineage events policy start = Inr
    (if \<not> in_order events run_start then failed TemporalInversion
     else (case sort_key (\<lambda>e. (ev_at e, ev_event_id e))
             (filter (terminal_ok (filter is_network_connection events) run_start) (filter is_process_create events)) of
         [] \<Rightarrow> failed NoTerminalCandidate
       | [terminal] \<Rightarrow> (case lineage_to_policy_boundary terminal (processes_by_guid (filter is_process_create events)) (slp_event_count policy) of
           Inl d \<Rightarrow> failed d
         | Inr lineage \<Rightarrow> \<lparr>slr_selection = Some (selection_of_lineage policy run_start (rev lineage)), slr_diagnostics = []\<rparr>)
       | _ \<Rightarrow> failed AmbiguousTerminalCandidate))"
proof -
  note conds = ok [folded batch_conditions]
  have idx: "index_processes (filter is_process_create events) Map.empty = Some (processes_by_guid (filter is_process_create events))"
    using ok by (subst index_processes_empty) (auto simp: batch_ok_def)
  have "terminal_candidates (filter is_process_create events) (filter is_network_connection events) run_start =
      (sort_key (\<lambda>e. (ev_at e, ev_event_id e)) (filter (terminal_ok (filter is_network_connection events) run_start) (filter is_process_create events)),
       \<not> in_order events run_start)"
    unfolding terminal_candidates_def scan_terminals_eq prod.case inverted_iff [OF ok] ..
  moreover have "(events = []) = False" "has_duplicates (map ev_event_id events) = False" "(card (set (map ev_run_id events)) \<noteq> 1) = False"
    "(card (set (map ev_host_id events)) \<noteq> 1) = False"
    "(\<exists>e \<in> set (filter is_process_create events @ filter is_network_connection events). process_guid e = None) = False"
    using conds by blast+
  ultimately show ?thesis
    unfolding select_r1_lineage_def Let_def start by (simp only: idx if_False bnd.simps option.case prod.case)
qed

lemma select_no_batch:
  assumes "\<not> batch_ok events" "normalize_run_start start = Inr run_start"
  shows "\<exists>d. select_r1_lineage events policy start = Inr (failed d)"
proof -
  have idx: "index_processes (filter is_process_create events) Map.empty = None"
    if "\<not> (\<exists>e \<in> set (filter is_process_create events @ filter is_network_connection events). process_guid e = None)"
      "\<not> distinct (map process_guid (filter is_process_create events))"
    using that by (subst index_processes_empty) auto
  show ?thesis
  proof (cases "events \<noteq> [] \<and> \<not> has_duplicates (map ev_event_id events) \<and> card (set (map ev_run_id events)) = 1 \<and> card (set (map ev_host_id events)) = 1
      \<and> \<not> (\<exists>e \<in> set (filter is_process_create events @ filter is_network_connection events). process_guid e = None)")
    case True
    with assms(1) have "\<not> distinct (map process_guid (filter is_process_create events))" using batch_conditions by blast
    with idx True have "index_processes (filter is_process_create events) Map.empty = None" by blast
    moreover from True have "(events = []) = False" "has_duplicates (map ev_event_id events) = False" "(card (set (map ev_run_id events)) \<noteq> 1) = False"
      "(card (set (map ev_host_id events)) \<noteq> 1) = False"
      "(\<exists>e \<in> set (filter is_process_create events @ filter is_network_connection events). process_guid e = None) = False"
      by blast+
    ultimately have "select_r1_lineage events policy start = Inr (failed DuplicateProcessGuid)"
      unfolding select_r1_lineage_def Let_def assms(2) by (simp only: if_False bnd.simps option.case)
    then show ?thesis by blast
  next
    case False
    then consider "events = []" | "has_duplicates (map ev_event_id events)" | "card (set (map ev_run_id events)) \<noteq> 1"
      | "card (set (map ev_host_id events)) \<noteq> 1"
      | "\<exists>e \<in> set (filter is_process_create events @ filter is_network_connection events). process_guid e = None" by blast
    then show ?thesis
      unfolding select_r1_lineage_def Let_def assms(2) bnd.simps by cases (auto simp del: set_filter set_append set_map)
  qed
qed

lemma candidates_singleton:
  assumes "distinct xs"
  shows "sort_key f xs = [t] \<longleftrightarrow> set xs = {t}"
proof
  assume "sort_key f xs = [t]"
  then show "set xs = {t}" by (metis list.set(1,2) set_sort)
next
  assume set: "set xs = {t}"
  with assms have "length (sort_key f xs) = 1" by (metis card_1_singleton_iff distinct_card length_sort One_nat_def)
  then obtain y where "sort_key f xs = [y]" by (auto simp: length_Suc_conv)
  with set show "sort_key f xs = [t]" by (metis list.set(1,2) set_sort singleton_insert_inj_eq)
qed

lemma select_iff:
  assumes start: "normalize_run_start start = Inr run_start" and n: "1 \<le> slp_event_count policy"
  shows "select_r1_lineage events policy start = Inr \<lparr>slr_selection = Some s, slr_diagnostics = ds\<rparr> \<longleftrightarrow>
    ds = [] \<and> batch_ok events \<and> in_order events run_start
    \<and> (\<exists>xs. lineage_chain events xs \<and> length xs = nat (slp_event_count policy)
        \<and> {e. is_terminal events run_start e} = {last xs} \<and> s = selection_of_lineage policy run_start xs)"
proof (cases "batch_ok events \<and> in_order events run_start")
  case False
  then have "\<exists>d. select_r1_lineage events policy start = Inr (failed d)"
    using select_no_batch [OF _ start, of events policy] select_batch [OF _ start, of events policy]
    by (cases "batch_ok events") auto
  with False show ?thesis by (auto simp: failed_def)
next
  case True
  let ?ps = "filter is_process_create events" and ?ns = "filter is_network_connection events"
  let ?cs = "filter (terminal_ok ?ns run_start) ?ps"
  have dist: "distinct ?cs" using True by (auto simp: batch_ok_def distinct_map)
  have set: "set ?cs = {e. is_terminal events run_start e}" using terminals_iff [of events run_start] True by blast
  have idx: "processes_by_guid ?ps g = Some e \<longleftrightarrow> (e \<in> set events \<and> is_process_create e) \<and> process_guid e = Some g" for g e
    using processes_by_guid_iff [of ?ps g e] True by (auto simp: batch_ok_def)
  show ?thesis
  proof (cases "\<exists>t. set ?cs = {t}")
    case False
    then have "sort_key (\<lambda>e. (ev_at e, ev_event_id e)) ?cs \<noteq> [t]" for t using candidates_singleton [OF dist] by metis
    then have "\<exists>d. select_r1_lineage events policy start = Inr (failed d)"
      using select_batch [OF _ start, of events policy] True by (auto split: list.splits)
    with False set show ?thesis by (auto simp: failed_def)
  next
    case True
    then obtain t where t: "set ?cs = {t}" by blast
    then have sorted: "sort_key (\<lambda>e. (ev_at e, ev_event_id e)) ?cs = [t]" using candidates_singleton [OF dist] by blast
    have tin: "t \<in> set ?cs" using t by simp
    then obtain g where g: "process_guid t = Some g" by (auto simp: terminal_ok_def)
    have tP: "t \<in> set events \<and> is_process_create t" using tin by auto
    note lin = lineage_exact [where P = "\<lambda>e. e \<in> set events \<and> is_process_create e", OF g tP n idx]
    have "select_r1_lineage events policy start = Inr \<lparr>slr_selection = Some s, slr_diagnostics = ds\<rparr> \<longleftrightarrow>
        (\<exists>lineage. lineage_to_policy_boundary t (processes_by_guid ?ps) (slp_event_count policy) = Inr lineage
          \<and> s = selection_of_lineage policy run_start (rev lineage) \<and> ds = [])"
      using select_batch [OF _ start, of events policy] sorted \<open>batch_ok events \<and> in_order events run_start\<close>
      by (auto simp: failed_def split: sum.splits)
    also have "\<dots> \<longleftrightarrow> (\<exists>xs. lineage_chain events xs \<and> length xs = nat (slp_event_count policy) \<and> last xs = t
        \<and> s = selection_of_lineage policy run_start xs) \<and> ds = []"
      unfolding lin lineage_chain_def by auto
    finally show ?thesis using \<open>batch_ok events \<and> in_order events run_start\<close> t set by auto
  qed
qed

section \<open>The order of the batch\<close>

lemma sort_key_mset:
  assumes "mset xs = mset ys" "inj_on f (set xs)"
  shows "sort_key f xs = sort_key f ys"
proof (rule properties_for_sort_key)
  show "mset (sort_key f ys) = mset xs" using assms(1) by simp
  show "filter (\<lambda>x. f k = f x) (sort_key f ys) = filter (\<lambda>x. f k = f x) xs" if "k \<in> set (sort_key f ys)" for k
  proof -
    have k: "k \<in> set xs" using that mset_eq_setD [OF assms(1)] by simp
    have eq: "filter (\<lambda>x. f k = f x) zs = replicate (count (mset zs) k) k" if "set zs = set xs" for zs
    proof -
      have "filter (\<lambda>x. f k = f x) zs = filter (\<lambda>x. k = x) zs"
        using assms(2) k that by (intro filter_cong) (auto dest: inj_onD)
      also have "\<dots> = replicate (count (mset zs) k) k" by (induction zs) auto
      finally show ?thesis .
    qed
    show ?thesis using eq [of xs] eq [of "sort_key f ys"] assms(1) mset_eq_setD [OF assms(1)] by simp
  qed
qed simp

lemma mset_filter_cong: "mset xs = mset ys \<Longrightarrow> mset (filter P xs) = mset (filter P ys)"
  by (simp add: mset_filter)

lemma mset_map_distinct: "mset xs = mset ys \<Longrightarrow> distinct (map f xs) \<longleftrightarrow> distinct (map f ys)"
  by (metis mset_eq_imp_distinct_iff mset_map)

lemma batch_ok_mset: "mset es = mset es' \<Longrightarrow> batch_ok es \<longleftrightarrow> batch_ok es'"
  unfolding batch_ok_def
  by (simp add: mset_map_distinct [of es es'] mset_map_distinct [OF mset_filter_cong [of es es']] mset_eq_setD [of es es'])

text \<open>The failure of a batch of the wrong shape is decided by the set of Events and their multiplicity.\<close>

definition shape_failure :: "normalized_event list \<Rightarrow> selector_diagnostic" where
  "shape_failure events =
     (if events = [] then EmptyEventBatch else if has_duplicates (map ev_event_id events) then DuplicateEventId
      else if card (set (map ev_run_id events)) \<noteq> 1 then MixedRunScope
      else if card (set (map ev_host_id events)) \<noteq> 1 then MixedHostScope
      else if \<exists>e \<in> set events. (is_process_create e \<or> is_network_connection e) \<and> process_guid e = None then MissingProcessGuid
      else DuplicateProcessGuid)"

lemma select_shape_failure:
  assumes "\<not> batch_ok events" "normalize_run_start start = Inr run_start"
  shows "select_r1_lineage events policy start = Inr (failed (shape_failure events))"
proof -
  have guids: "(\<exists>e \<in> set (filter is_process_create events @ filter is_network_connection events). process_guid e = None)
      \<longleftrightarrow> (\<exists>e \<in> set events. (is_process_create e \<or> is_network_connection e) \<and> process_guid e = None)" by auto
  have idx: "index_processes (filter is_process_create events) Map.empty = None"
    if "events \<noteq> []" "\<not> has_duplicates (map ev_event_id events)" "card (set (map ev_run_id events)) = 1" "card (set (map ev_host_id events)) = 1"
      "\<not> (\<exists>e \<in> set events. (is_process_create e \<or> is_network_connection e) \<and> process_guid e = None)"
  proof -
    have "\<not> distinct (map process_guid (filter is_process_create events))"
      using assms(1) batch_conditions [of events] that unfolding guids by blast
    then show ?thesis using that(5) by (subst index_processes_empty) auto
  qed
  show ?thesis
    unfolding select_r1_lineage_def Let_def assms(2) bnd.simps shape_failure_def guids
    using idx by (auto simp del: has_duplicates_iff set_map)
qed

lemma select_mset:
  assumes "mset events = mset events'"
  shows "select_r1_lineage events policy start = select_r1_lineage events' policy start"
proof (cases "normalize_run_start start")
  case (Inl e)
  then show ?thesis by (simp add: select_r1_lineage_def)
next
  case (Inr run_start)
  have set: "set events = set events'" using assms by (rule mset_eq_setD)
  show ?thesis
  proof (cases "batch_ok events")
    case False
    then have "\<not> batch_ok events'" using batch_ok_mset [OF assms] by simp
    moreover have "shape_failure events = shape_failure events'"
      using set mset_map_distinct [OF assms, of ev_event_id] assms by (auto simp: shape_failure_def)
    ultimately show ?thesis using select_shape_failure [OF False Inr] select_shape_failure [OF _ Inr, of events'] by simp
  next
    case True
    let ?ps = "filter is_process_create events" and ?ps' = "filter is_process_create events'"
    have ok': "batch_ok events'" using True batch_ok_mset [OF assms] by simp
    have order: "in_order events run_start \<longleftrightarrow> in_order events' run_start" by (simp add: in_order_def set)
    have net: "networks_of (filter is_network_connection events) g = [] \<longleftrightarrow> networks_of (filter is_network_connection events') g = []" for g
      by (simp add: networks_of_Nil set)
    have tok: "terminal_ok (filter is_network_connection events) run_start = terminal_ok (filter is_network_connection events') run_start"
      by (simp add: terminal_ok_def fun_eq_iff net set)
    have idx: "processes_by_guid ?ps = processes_by_guid ?ps'"
    proof
      fix g
      have "processes_by_guid ?ps g = Some e \<longleftrightarrow> processes_by_guid ?ps' g = Some e" for e
        using processes_by_guid_iff [of ?ps g e] processes_by_guid_iff [of ?ps' g e] True ok' set by (auto simp: batch_ok_def)
      then show "processes_by_guid ?ps g = processes_by_guid ?ps' g" by (metis option.exhaust)
    qed
    have cands: "sort_key (\<lambda>e. (ev_at e, ev_event_id e)) (filter (terminal_ok (filter is_network_connection events) run_start) ?ps)
      = sort_key (\<lambda>e. (ev_at e, ev_event_id e)) (filter (terminal_ok (filter is_network_connection events') run_start) ?ps')"
      unfolding tok
    proof (rule sort_key_mset)
      show "inj_on (\<lambda>e. (ev_at e, ev_event_id e)) (set (filter (terminal_ok (filter is_network_connection events') run_start) ?ps))"
        using True by (auto simp: batch_ok_def distinct_map inj_on_def)
    qed (intro mset_filter_cong assms)
    show ?thesis unfolding select_batch [OF True Inr] select_batch [OF ok' Inr] order idx cands ..
  qed
qed

end
