(* ===== verification/LineageEvidence.thy ===== *)
theory LineageEvidence
  imports LineageSelector "HOL-Library.AList"
begin

text \<open>
  Multi-event Evidence: \<open>evidence/r1_multi_event.py\<close> (the two extractors and the reconstruction of
  a process lineage), \<open>evidence/r1_provenance.py\<close> and \<open>pipeline/r1_evidence.py\<close> (from the Events
  and the selector to the Evidence of a run). The name-based UUIDs of the Evidence are a parameter.
\<close>

section \<open>Policies, names and diagnostics\<close>

text \<open>\<open>uuid5\<close> of the canonical JSON of its arguments.\<close>

record evidence_namer =
  nm_follow_on :: "string \<Rightarrow> string list \<Rightarrow> string"
  nm_deviation :: "string \<Rightarrow> string list \<Rightarrow> string \<Rightarrow> string \<Rightarrow> string \<Rightarrow> string"

datatype policy_lifecycle = Development | Frozen | ProductionCandidate

record approved_policy =
  ap_policy_id :: string
  ap_version :: string
  ap_config_hash :: string
  ap_lineage :: "string list"
  ap_family_id :: "string option"
  ap_lifecycle :: "policy_lifecycle option"

definition new_approved_policy :: "approved_policy \<Rightarrow> approved_policy result" where
  "new_approved_policy p = seq (raise_first
     [(blank (ap_policy_id p), ValueError ''policy_id must be a non-blank string''),
      (blank (ap_version p), ValueError ''version must be a non-blank string''),
      (blank (ap_config_hash p), ValueError ''config_hash must be a non-blank string''),
      (ap_lineage p = [], ValueError ''approved_lineage must be a non-empty tuple''),
      (\<exists>n \<in> set (ap_lineage p). blank n, ValueError ''approved_lineage must contain only non-blank strings''),
      ((ap_family_id p = None) \<noteq> (ap_lifecycle p = None),
         ValueError ''family_id and lifecycle must either both be set or both be omitted'')])
     (seq (case ap_family_id p of None \<Rightarrow> Inr () | Some f \<Rightarrow> validate_pair_identifier f) (Inr p))"

definition validate_policy_family_binding :: "string \<Rightarrow> approved_policy \<Rightarrow> unit result" where
  "validate_policy_family_binding family p = seq (validate_pair_identifier family)
     (raise_first
       [(ap_family_id p = None \<or> ap_lifecycle p = None,
           ValueError ''legacy unbound approved policy is not eligible for family-bound execution''),
        (ap_family_id p \<noteq> Some family, ValueError ''scenario family_id does not match approved policy family_id'')])"

datatype extraction_diagnostic = ExMissingProcessGuid | ExTruncatedLineage | ExLineageCycle
  | ExDuplicateProcessGuid | ExMissingOrBlankProcessName

definition diagnostic_text :: "extraction_diagnostic \<Rightarrow> string" where
  "diagnostic_text d = (case d of
     ExMissingProcessGuid \<Rightarrow> ''missing_process_guid'' | ExTruncatedLineage \<Rightarrow> ''truncated_lineage''
   | ExLineageCycle \<Rightarrow> ''lineage_cycle'' | ExDuplicateProcessGuid \<Rightarrow> ''duplicate_process_guid''
   | ExMissingOrBlankProcessName \<Rightarrow> ''missing_or_blank_process_name'')"

lemma diagnostic_text_inject: "diagnostic_text a = diagnostic_text b \<longleftrightarrow> a = b"
  by (cases a; cases b) (simp_all add: diagnostic_text_def)

text \<open>Diagnostics are strings in the code and sort as such.\<close>

instantiation extraction_diagnostic :: linorder
begin

definition less_eq_extraction_diagnostic :: "extraction_diagnostic \<Rightarrow> extraction_diagnostic \<Rightarrow> bool" where
  "less_eq_extraction_diagnostic a b \<longleftrightarrow> diagnostic_text a \<le> diagnostic_text b"

definition less_extraction_diagnostic :: "extraction_diagnostic \<Rightarrow> extraction_diagnostic \<Rightarrow> bool" where
  "less_extraction_diagnostic a b \<longleftrightarrow> diagnostic_text a < diagnostic_text b"

instance
  by standard (auto simp: less_eq_extraction_diagnostic_def less_extraction_diagnostic_def diagnostic_text_inject
      dest: order.antisym)

end

section \<open>The network follow-on\<close>

definition remote_process_network_follow_on :: string where
  "remote_process_network_follow_on = ''remote_process_network_follow_on''"

definition remote_session_process_lineage_deviation :: string where
  "remote_session_process_lineage_deviation = ''remote_session_process_lineage_deviation''"

definition r1_extractor_version :: string where
  "r1_extractor_version = ''r1-v0.1''"

text \<open>\<open>max\<close> over timestamps keeps the first of the latest ones.\<close>

fun latest_timestamp :: "datetime list \<Rightarrow> datetime result" where
  "latest_timestamp [] = Inl (ValueError ''max() iterable argument is empty'')"
| "latest_timestamp (t # ts) = Inr (foldl (\<lambda>m u. if instant m < instant u then u else m) t ts)"

definition expected_event_contract :: "normalized_event \<Rightarrow> normalized_event \<Rightarrow> bool" where
  "expected_event_contract process_event network_event \<longleftrightarrow> is_process_create process_event \<and> is_network_connection network_event"

definition r1_evidence :: "string \<Rightarrow> normalized_event \<Rightarrow> datetime \<Rightarrow> string \<Rightarrow> string list \<Rightarrow> (string \<times> feature_value) list \<Rightarrow> evidence" where
  "r1_evidence evidence_id e timestamp evidence_type event_ids features =
     \<lparr>evd_id = evidence_id, evd_run_id = ev_run_id e, evd_timestamp = timestamp, evd_entity_id = ev_host_id e,
      evd_type = evidence_type, evd_event_ids = event_ids, evd_source_layer = RawTelemetry, evd_channel = FusionFeature,
      evd_extractor_version = r1_extractor_version, evd_technique_ids = [], evd_features = features\<rparr>"

definition extract_follow_on :: "evidence_namer \<Rightarrow> normalized_event \<Rightarrow> normalized_event \<Rightarrow> evidence list result" where
  "extract_follow_on nm process_event network_event =
     (if \<not> expected_event_contract process_event network_event then Inr []
      else (case (process_guid process_event, process_guid network_event) of
        (Some g, Some h) \<Rightarrow>
          if ev_run_id process_event \<noteq> ev_run_id network_event \<or> ev_host_id process_event \<noteq> ev_host_id network_event
            \<or> g \<noteq> h \<or> ev_at network_event < ev_at process_event then Inr []
          else
            (let event_ids = [ev_event_id process_event, ev_event_id network_event] in
             bnd (latest_timestamp [ev_timestamp process_event, ev_timestamp network_event]) (\<lambda>timestamp.
             bnd (validate_evidence (r1_evidence (nm_follow_on nm (ev_run_id process_event) (sort event_ids)) process_event
               timestamp remote_process_network_follow_on event_ids [])) (\<lambda>e. Inr [e])))
      | _ \<Rightarrow> Inr []))"

section \<open>The lineage of a process\<close>

datatype lineage_status = LineageComplete | LineageTruncated | LineageCyclic
datatype lineage_failure = MissingParent | DuplicateGuid

record lineage_correlation =
  lco_status :: lineage_status
  lco_events :: "normalized_event list"
  lco_failure :: "lineage_failure option"
  lco_missing_parent :: "string option"
  lco_duplicate :: "string option"

definition is_eligible_process_event :: "normalized_event \<Rightarrow> bool" where
  "is_eligible_process_event e \<longleftrightarrow> is_process_create e \<and> process_guid e \<noteq> None"

text \<open>The process events of the run and host, one per event id, the first of an id winning.\<close>

definition index_process_events :: "normalized_event list \<Rightarrow> normalized_event \<Rightarrow> normalized_event \<Rightarrow> normalized_event list" where
  "index_process_events events anchor terminal = map snd (foldl (\<lambda>by_id e.
     if map_of by_id (ev_event_id e) \<noteq> None \<or> \<not> is_eligible_process_event e
       \<or> ev_run_id e \<noteq> ev_run_id terminal \<or> ev_host_id e \<noteq> ev_host_id terminal
     then by_id else by_id @ [(ev_event_id e, e)]) [] (events @ [anchor, terminal]))"

definition events_for :: "normalized_event list \<Rightarrow> string \<Rightarrow> normalized_event list" where
  "events_for indexed g = filter (\<lambda>e. process_guid e = Some g) indexed"

definition is_parent_edge :: "normalized_event \<Rightarrow> normalized_event \<Rightarrow> bool" where
  "is_parent_edge child parent \<longleftrightarrow> is_eligible_process_event child \<and> is_eligible_process_event parent
     \<and> parent_process_guid child \<noteq> None \<and> ev_run_id child = ev_run_id parent \<and> ev_host_id child = ev_host_id parent
     \<and> parent_process_guid child = process_guid parent \<and> ev_at parent \<le> ev_at child"

definition truncated :: "normalized_event list \<Rightarrow> lineage_failure \<Rightarrow> string option \<Rightarrow> string option \<Rightarrow> lineage_correlation" where
  "truncated observed failure missing duplicate = \<lparr>lco_status = LineageTruncated, lco_events = rev observed,
     lco_failure = Some failure, lco_missing_parent = missing, lco_duplicate = duplicate\<rparr>"

text \<open>
  The \<open>while True\<close> loop: every round adds a GUID of an indexed event to the ones seen, so the GUIDs
  not yet seen are the measure.
\<close>

function reconstruct_loop :: "normalized_event list \<Rightarrow> string \<Rightarrow> normalized_event list \<Rightarrow> string set \<Rightarrow> normalized_event
    \<Rightarrow> lineage_correlation" where
  "reconstruct_loop indexed anchor_guid observed seen current = (case process_guid current of
     None \<Rightarrow> truncated observed MissingParent None None
   | Some g \<Rightarrow>
       if 1 < length (events_for indexed g) then truncated observed DuplicateGuid None (Some g)
       else if g = anchor_guid then \<lparr>lco_status = LineageComplete, lco_events = rev observed, lco_failure = None,
         lco_missing_parent = None, lco_duplicate = None\<rparr>
       else (case parent_process_guid current of
         None \<Rightarrow> truncated observed MissingParent (Some anchor_guid) None
       | Some pg \<Rightarrow>
           if pg \<in> seen then \<lparr>lco_status = LineageCyclic, lco_events = rev observed, lco_failure = None,
             lco_missing_parent = None, lco_duplicate = None\<rparr>
           else if 1 < length (events_for indexed pg) then truncated observed DuplicateGuid None (Some pg)
           else (case events_for indexed pg of
             [] \<Rightarrow> truncated observed MissingParent (Some pg) None
           | parent # _ \<Rightarrow>
               if \<not> is_parent_edge current parent then truncated observed MissingParent (Some pg) None
               else reconstruct_loop indexed anchor_guid (observed @ [parent]) (insert pg seen) parent)))"
  by pat_completeness auto
termination
proof (relation "measure (\<lambda>(indexed, anchor_guid, observed, seen, current). card (Some -` process_guid ` set indexed - seen))")
  fix indexed :: "normalized_event list" and anchor_guid observed seen current g pg parent rest
  assume new: "pg \<notin> seen" and cand: "events_for indexed pg = parent # rest"
  let ?T = "Some -` process_guid ` set indexed"
  have fin: "finite ?T" by (intro finite_vimageI) (auto simp: inj_def)
  have "parent \<in> set (events_for indexed pg)" using cand by simp
  then have "pg \<in> ?T" by (auto simp: events_for_def image_iff) metis
  with new have "?T - insert pg seen \<subset> ?T - seen" by blast
  with fin have "card (?T - insert pg seen) < card (?T - seen)" by (intro psubset_card_mono) auto
  then show "((indexed, anchor_guid, observed @ [parent], insert pg seen, parent), indexed, anchor_guid, observed, seen, current)
      \<in> measure (\<lambda>(indexed, anchor_guid, observed, seen, current). card (Some -` process_guid ` set indexed - seen))" by simp
qed auto

declare reconstruct_loop.simps [simp del]

definition reconstruct_process_lineage :: "normalized_event list \<Rightarrow> normalized_event \<Rightarrow> normalized_event \<Rightarrow> lineage_correlation" where
  "reconstruct_process_lineage events anchor terminal = (case (process_guid anchor, process_guid terminal) of
     (Some anchor_guid, Some terminal_guid) \<Rightarrow>
       reconstruct_loop (index_process_events events anchor terminal) anchor_guid [terminal] {terminal_guid} terminal
   | _ \<Rightarrow> \<lparr>lco_status = LineageTruncated, lco_events = [terminal], lco_failure = Some MissingParent,
       lco_missing_parent = None, lco_duplicate = None\<rparr>)"

definition process_name :: "normalized_event \<Rightarrow> string option" where
  "process_name e = (case ev_process e of None \<Rightarrow> None | Some p \<Rightarrow> pi_name p)"

definition canonical_process_lineage :: "normalized_event list \<Rightarrow> string list option" where
  "canonical_process_lineage events =
     (if \<exists>e \<in> set events. process_name e = None \<or> is_some_and (process_name e) blank then None
      else Some (map (\<lambda>e. str_casefold (the (process_name e))) events))"

section \<open>The lineage deviation\<close>

record extraction_result =
  exr_evidences :: "evidence list"
  exr_diagnostics :: "extraction_diagnostic list"

definition validate_context_event_ids :: "string list \<Rightarrow> unit result" where
  "validate_context_event_ids ids = raise_first
     [(\<exists>i \<in> set ids. blank i, ValueError ''context_event_ids must contain only non-blank strings''),
      (has_duplicates ids, ValueError ''context_event_ids must contain unique Event IDs'')]"

definition evidence_events :: "normalized_event list \<Rightarrow> string list \<Rightarrow> normalized_event list result" where
  "evidence_events lineage context =
     seq (raise_if (\<not> set context \<subseteq> set (map ev_event_id lineage))
       (ValueError ''context_event_ids must reference Events in the reconstructed lineage''))
     (let es = filter (\<lambda>e. ev_event_id e \<notin> set context) lineage in
      seq (raise_if (es = []) (ValueError ''lineage deviation Evidence requires at least one Run Event'')) (Inr es))"

definition correlation_diagnostic :: "lineage_correlation \<Rightarrow> extraction_diagnostic" where
  "correlation_diagnostic c =
     (if lco_status c = LineageCyclic then ExLineageCycle
      else if lco_failure c = Some DuplicateGuid then ExDuplicateProcessGuid else ExTruncatedLineage)"

definition policy_features :: "approved_policy \<Rightarrow> (string \<times> feature_value) list" where
  "policy_features p = [(''policy_id'', FeatStr (ap_policy_id p)), (''version'', FeatStr (ap_version p)),
     (''config_hash'', FeatStr (ap_config_hash p))]"

definition extract_lineage_deviation :: "evidence_namer \<Rightarrow> normalized_event list \<Rightarrow> normalized_event \<Rightarrow> normalized_event
    \<Rightarrow> approved_policy \<Rightarrow> string list \<Rightarrow> extraction_result result" where
  "extract_lineage_deviation nm events anchor terminal policy context =
     seq (validate_context_event_ids context)
     (let nothing = (\<lambda>ds. Inr \<lparr>exr_evidences = [], exr_diagnostics = ds\<rparr>) in
      if \<not> is_eligible_process_event anchor \<or> \<not> is_eligible_process_event terminal then
        nothing (if (is_process_create anchor \<and> process_guid anchor = None) \<or> (is_process_create terminal \<and> process_guid terminal = None)
          then [ExMissingProcessGuid] else [])
      else if ev_run_id anchor \<noteq> ev_run_id terminal \<or> ev_host_id anchor \<noteq> ev_host_id terminal then nothing []
      else
        (let correlation = reconstruct_process_lineage events anchor terminal in
         if lco_status correlation \<noteq> LineageComplete then nothing [correlation_diagnostic correlation]
         else (case canonical_process_lineage (lco_events correlation) of
           None \<Rightarrow> nothing [ExMissingOrBlankProcessName]
         | Some observed \<Rightarrow>
             bnd (evidence_events (lco_events correlation) context) (\<lambda>es.
             if observed = map str_casefold (ap_lineage policy) then nothing []
             else
               (let event_ids = map ev_event_id es in
                bnd (latest_timestamp (map ev_timestamp es)) (\<lambda>timestamp.
                bnd (validate_evidence (r1_evidence
                  (nm_deviation nm (ev_run_id terminal) (sort event_ids) (ap_policy_id policy) (ap_version policy) (ap_config_hash policy))
                  terminal timestamp remote_session_process_lineage_deviation event_ids (policy_features policy))) (\<lambda>e.
                Inr \<lparr>exr_evidences = [e], exr_diagnostics = []\<rparr>)))))))"

section \<open>The pipeline\<close>

record lineage_input =
  lin_anchor_event_id :: string
  lin_terminal_event_id :: string
  lin_approved_policy :: approved_policy
  lin_context_event_ids :: "string list"

definition new_lineage_input :: "lineage_input \<Rightarrow> lineage_input result" where
  "new_lineage_input i = seq (raise_first
     [(blank (lin_anchor_event_id i), ValueError ''anchor_event_id must be a non-blank string''),
      (blank (lin_terminal_event_id i), ValueError ''terminal_event_id must be a non-blank string''),
      (\<exists>c \<in> set (lin_context_event_ids i). blank c, ValueError ''context_event_ids must contain only non-blank strings''),
      (has_duplicates (lin_context_event_ids i), ValueError ''context_event_ids must contain unique Event IDs''),
      (lin_context_event_ids i \<noteq> [] \<and> hd (lin_context_event_ids i) \<noteq> lin_anchor_event_id i,
         ValueError ''context_event_ids must start with anchor_event_id''),
      (lin_terminal_event_id i \<in> set (lin_context_event_ids i), ValueError ''terminal_event_id must not be a context Event'')])
     (Inr i)"

fun index_events_by_id :: "normalized_event list \<Rightarrow> (string \<times> normalized_event) list \<Rightarrow> (string \<times> normalized_event) list result" where
  "index_events_by_id [] d = Inr d"
| "index_events_by_id (e # es) d = seq (raise_if (map_of d (ev_event_id e) \<noteq> None) (ValueError ''events must contain unique event_id values''))
     (index_events_by_id es (d @ [(ev_event_id e, e)]))"

definition required_event :: "(string \<times> normalized_event) list \<Rightarrow> string \<Rightarrow> normalized_event result" where
  "required_event by_id i = (case map_of by_id i of
     None \<Rightarrow> Inl (ValueError ''does not reference an Event in the batch'') | Some e \<Rightarrow> Inr e)"

definition resolve_lineage_inputs :: "lineage_input list \<Rightarrow> (string \<times> normalized_event) list
    \<Rightarrow> (lineage_input \<times> normalized_event \<times> normalized_event) list result" where
  "resolve_lineage_inputs inputs by_id = map_result (\<lambda>i.
     bnd (required_event by_id (lin_anchor_event_id i)) (\<lambda>anchor.
     bnd (required_event by_id (lin_terminal_event_id i)) (\<lambda>terminal. Inr (i, anchor, terminal)))) inputs"

text \<open>The network events of one run, host and process GUID.\<close>

definition networks_by_key :: "normalized_event list \<Rightarrow> string \<times> string \<times> string \<Rightarrow> normalized_event list" where
  "networks_by_key events key = filter (\<lambda>e. ev_event_type e = ''network_connection''
     \<and> (case process_guid e of None \<Rightarrow> False | Some g \<Rightarrow> (ev_run_id e, ev_host_id e, g) = key)) events"

definition extract_network_follow_on_candidates :: "evidence_namer \<Rightarrow> normalized_event list \<Rightarrow> normalized_event list
    \<Rightarrow> evidence list result" where
  "extract_network_follow_on_candidates nm events terminals =
     bnd (map_result (\<lambda>terminal. case process_guid terminal of
       None \<Rightarrow> Inr []
     | Some g \<Rightarrow>
         bnd (map_result (extract_follow_on nm terminal)
           (sort_key (\<lambda>e. (ev_at e, ev_event_id e)) (networks_by_key events (ev_run_id terminal, ev_host_id terminal, g))))
         (\<lambda>ess. Inr (concat ess)))
       (sort_key (\<lambda>e. (ev_at e, ev_event_id e)) terminals)) (\<lambda>esss. Inr (concat esss))"

definition terminals_of :: "(lineage_input \<times> normalized_event \<times> normalized_event) list \<Rightarrow> normalized_event list" where
  "terminals_of resolved = map snd (foldl (\<lambda>d (i, anchor, terminal). AList.update (ev_event_id terminal) terminal d) [] resolved)"

definition first_by_id :: "evidence list \<Rightarrow> evidence list" where
  "first_by_id es = map snd (foldl (\<lambda>d e. if map_of d (evd_id e) = None then d @ [(evd_id e, e)] else d) [] es)"

definition r1_evidence_sort_key :: "evidence \<Rightarrow> int \<times> string \<times> string" where
  "r1_evidence_sort_key e = (instant (evd_timestamp e), evd_type e, evd_id e)"

definition run_r1_evidence_pipeline_with_diagnostics :: "evidence_namer \<Rightarrow> normalized_event list \<Rightarrow> lineage_input list
    \<Rightarrow> extraction_result result" where
  "run_r1_evidence_pipeline_with_diagnostics nm events inputs =
     bnd (index_events_by_id events []) (\<lambda>by_id.
     bnd (resolve_lineage_inputs inputs by_id) (\<lambda>resolved.
     bnd (extract_network_follow_on_candidates nm events (terminals_of resolved)) (\<lambda>follow_ons.
     bnd (map_result (\<lambda>(i, anchor, terminal). extract_lineage_deviation nm events anchor terminal
       (lin_approved_policy i) (lin_context_event_ids i)) resolved) (\<lambda>results.
     Inr \<lparr>exr_evidences = sort_key r1_evidence_sort_key (first_by_id (follow_ons @ concat (map exr_evidences results))),
       exr_diagnostics = sorted_list_of_set (set (concat (map exr_diagnostics results)))\<rparr>))))"

definition run_r1_evidence_pipeline :: "evidence_namer \<Rightarrow> normalized_event list \<Rightarrow> lineage_input list \<Rightarrow> evidence list result" where
  "run_r1_evidence_pipeline nm events inputs =
     bnd (run_r1_evidence_pipeline_with_diagnostics nm events inputs) (\<lambda>r. Inr (exr_evidences r))"

record selected_evidence_result =
  ser_evidences :: "evidence list"
  ser_selector_result :: selector_result
  ser_lineage_input :: "lineage_input option"
  ser_diagnostics :: "extraction_diagnostic list"

definition run_r1_evidence_pipeline_with_selector :: "evidence_namer \<Rightarrow> normalized_event list \<Rightarrow> selector_policy \<Rightarrow> approved_policy
    \<Rightarrow> datetime option \<Rightarrow> selected_evidence_result result" where
  "run_r1_evidence_pipeline_with_selector nm events selector policy run_start =
     seq (raise_if (slp_event_count selector \<noteq> int (length (ap_lineage policy)))
       (ValueError ''selector lineage_event_count must match approved_lineage length''))
     (bnd (select_r1_lineage events selector run_start) (\<lambda>selected.
      case slr_selection selected of
        None \<Rightarrow> Inr \<lparr>ser_evidences = [], ser_selector_result = selected, ser_lineage_input = None, ser_diagnostics = []\<rparr>
      | Some s \<Rightarrow>
          bnd (new_lineage_input \<lparr>lin_anchor_event_id = lsn_anchor_event_id s, lin_terminal_event_id = lsn_terminal_event_id s,
            lin_approved_policy = policy, lin_context_event_ids = lsn_context_event_ids s\<rparr>) (\<lambda>i.
          bnd (run_r1_evidence_pipeline_with_diagnostics nm events [i]) (\<lambda>r.
          Inr \<lparr>ser_evidences = exr_evidences r, ser_selector_result = selected, ser_lineage_input = Some i,
            ser_diagnostics = exr_diagnostics r\<rparr>))))"

section \<open>Provenance\<close>

record resolved_provenance =
  rpv_evidence :: evidence
  rpv_events :: "normalized_event list"

definition resolve_referenced_event :: "(string \<times> normalized_event) list \<Rightarrow> evidence \<Rightarrow> string \<Rightarrow> normalized_event result" where
  "resolve_referenced_event by_id e i = (case map_of by_id i of
     None \<Rightarrow> Inl (ValueError ''references a missing NormalizedEvent'')
   | Some ev \<Rightarrow> seq (raise_first
       [(ev_run_id ev \<noteq> evd_run_id e, ValueError ''have different run_id''),
        (ev_host_id ev \<noteq> evd_entity_id e, ValueError ''entity_id does not match'')]) (Inr ev))"

definition validate_evidence_timestamp :: "evidence \<Rightarrow> normalized_event list \<Rightarrow> unit result" where
  "validate_evidence_timestamp e events = bnd (latest_timestamp (map ev_timestamp events)) (\<lambda>t.
     raise_if (instant (evd_timestamp e) \<noteq> instant t) (ValueError ''timestamp does not match the latest referenced NormalizedEvent.timestamp''))"

definition resolve_r1_evidence_provenance :: "evidence list \<Rightarrow> normalized_event list \<Rightarrow> resolved_provenance list result" where
  "resolve_r1_evidence_provenance evidences events =
     bnd (index_events_by_id events []) (\<lambda>by_id.
     map_result (\<lambda>e. bnd (map_result (resolve_referenced_event by_id e) (evd_event_ids e)) (\<lambda>resolved.
       seq (validate_evidence_timestamp e resolved) (Inr \<lparr>rpv_evidence = e, rpv_events = resolved\<rparr>))) evidences)"

end
