(* ===== verification/LineageFacts.thy ===== *)
theory LineageFacts
  imports LineageEvidence
begin

text \<open>
  What the selector and the extractors make of a batch of Events together: when the selector finds a
  lineage, the extractor reconstructs the same lineage, so the pipeline neither raises nor reports a
  broken lineage, and the Evidence it returns resolves to the Events it came from.
\<close>

section \<open>Chains\<close>

lemma chain_sorted: "successively linked xs \<Longrightarrow> sorted (map ev_at xs)"
  by (induction xs rule: induct_list012) (auto simp: linked_def)

lemma chain_split:
  "successively linked (ys @ p # c # zs) \<Longrightarrow> parent_process_guid c = process_guid p \<and> process_guid p \<noteq> None \<and> ev_at p \<le> ev_at c"
  by (auto simp: successively_append_iff linked_def)

text \<open>The context Events are the ones before the run; they are the head of the lineage.\<close>

lemma context_prefix:
  assumes "sorted (map ev_at xs)"
  shows "filter (before_run run_start) xs = takeWhile (before_run run_start) xs"
  using assms
proof (induction xs)
  case (Cons x xs)
  show ?case
  proof (cases "before_run run_start x")
    case False
    have "\<not> before_run run_start y" if "y \<in> set xs" for y
    proof -
      have "ev_at x \<le> ev_at y" using Cons.prems that by simp
      with False show ?thesis by (auto simp: before_run_def)
    qed
    with False show ?thesis by (simp add: filter_empty_conv)
  qed (use Cons in simp)
qed simp

lemma lineage_input_accepted:
  assumes chain: "lineage_chain events xs" and ids: "distinct (map ev_event_id events)" "\<forall>e \<in> set events. \<not> blank (ev_event_id e)"
    and t: "is_terminal events run_start (last xs)"
  shows "new_lineage_input \<lparr>lin_anchor_event_id = ev_event_id (hd xs), lin_terminal_event_id = ev_event_id (last xs),
      lin_approved_policy = policy, lin_context_event_ids = map ev_event_id (filter (before_run run_start) xs)\<rparr>
    = Inr \<lparr>lin_anchor_event_id = ev_event_id (hd xs), lin_terminal_event_id = ev_event_id (last xs),
      lin_approved_policy = policy, lin_context_event_ids = map ev_event_id (filter (before_run run_start) xs)\<rparr>"
proof -
  have ne: "xs \<noteq> []" and sub: "set xs \<subseteq> set events" and dist: "distinct xs" and sorted: "sorted (map ev_at xs)"
    using chain chain_sorted by (auto simp: lineage_chain_def distinct_map)
  have inj: "ev_event_id a = ev_event_id b \<longleftrightarrow> a = b" if "a \<in> set xs" "b \<in> set xs" for a b
    using ids(1) sub that by (auto simp: distinct_map dest: inj_onD)
  have nb: "\<not> blank (ev_event_id e)" if "e \<in> set xs" for e using ids(2) sub that by blast
  have "distinct (map ev_event_id (filter (before_run run_start) xs))"
    using dist inj by (auto simp: distinct_map inj_on_def)
  moreover have "hd (map ev_event_id (filter (before_run run_start) xs)) = ev_event_id (hd xs)" if "filter (before_run run_start) xs \<noteq> []"
  proof -
    from ne obtain y ys where "xs = y # ys" by (cases xs) auto
    with that show ?thesis unfolding context_prefix [OF sorted] by (auto split: if_splits)
  qed
  moreover have "ev_event_id (last xs) \<notin> set (map ev_event_id (filter (before_run run_start) xs))"
    using t inj ne by (auto simp: is_terminal_def)
  ultimately show ?thesis
    using nb ne by (simp add: new_lineage_input_def del: set_map set_filter) (auto simp: nb)
qed

section \<open>Lookups\<close>

lemma index_events_distinct:
  "distinct (map ev_event_id es) \<Longrightarrow> (\<And>e. e \<in> set es \<Longrightarrow> map_of d (ev_event_id e) = None) \<Longrightarrow>
    index_events_by_id es d = Inr (d @ map (\<lambda>e. (ev_event_id e, e)) es)"
proof (induction es arbitrary: d)
  case (Cons e es)
  have "index_events_by_id es (d @ [(ev_event_id e, e)]) = Inr ((d @ [(ev_event_id e, e)]) @ map (\<lambda>e. (ev_event_id e, e)) es)"
    by (rule Cons.IH) (use Cons.prems in \<open>auto simp: map_add_def image_iff split: option.splits\<close>)
  then show ?case using Cons.prems by simp
qed simp

lemma event_by_id:
  assumes "distinct (map ev_event_id es)" "e \<in> set es"
  shows "map_of (map (\<lambda>e. (ev_event_id e, e)) es) (ev_event_id e) = Some e"
  using assms by (intro map_of_is_SomeI) (auto simp: comp_def)

section \<open>The reconstruction of a selected lineage\<close>

lemma index_process_events_eq:
  assumes ok: "batch_ok events" and a: "a \<in> set events" "t \<in> set events"
  shows "index_process_events events a t = filter is_process_create events"
proof -
  let ?step = "\<lambda>by_id e. if map_of by_id (ev_event_id e) \<noteq> None \<or> \<not> is_eligible_process_event e
       \<or> ev_run_id e \<noteq> ev_run_id t \<or> ev_host_id e \<noteq> ev_host_id t then by_id else by_id @ [(ev_event_id e, e)]"
  obtain r h where "set (map ev_run_id events) = {r}" "set (map ev_host_id events) = {h}" using ok by (auto simp: batch_ok_def)
  then have same: "ev_run_id e = ev_run_id t \<and> ev_host_id e = ev_host_id t" if "e \<in> set events" for e
    using that a(2) by auto (metis image_eqI singletonD)+
  have elig: "is_eligible_process_event e \<longleftrightarrow> is_process_create e" if "e \<in> set events" for e
    using ok that by (auto simp: is_eligible_process_event_def batch_ok_def)
  have fold: "set es \<subseteq> set events \<Longrightarrow> distinct (map ev_event_id es) \<Longrightarrow> (\<And>e. e \<in> set es \<Longrightarrow> map_of d (ev_event_id e) = None) \<Longrightarrow>
      foldl ?step d es = d @ map (\<lambda>e. (ev_event_id e, e)) (filter is_process_create es)" for es d
  proof (induction es arbitrary: d)
    case (Cons e es)
    have "map_of (?step d e) (ev_event_id x) = None" if "x \<in> set es" for x
      using Cons.prems(2,3) that by (auto simp: map_add_def image_iff split: option.splits)
    then have "foldl ?step (?step d e) es = ?step d e @ map (\<lambda>e. (ev_event_id e, e)) (filter is_process_create es)"
      using Cons.prems by (intro Cons.IH) auto
    then show ?case using Cons.prems elig [of e] same [of e] by simp
  qed simp
  let ?idx = "map (\<lambda>e. (ev_event_id e, e)) (filter is_process_create events)"
  have "foldl ?step [] events = ?idx" using fold [of events "[]"] ok by (simp add: batch_ok_def)
  moreover have again: "?step ?idx e = ?idx" if "e \<in> set events" for e
  proof (cases "is_process_create e")
    case True
    have "map_of ?idx (ev_event_id e) = Some e"
      using ok True that by (intro event_by_id) (auto simp: batch_ok_def intro: distinct_map_filter)
    then show ?thesis by simp
  qed (use elig [OF that] in simp)
  ultimately have "foldl ?step [] (events @ [a, t]) = ?idx"
    using again [OF a(1)] again [OF a(2)] by (simp only: foldl_append foldl.simps)
  then show ?thesis unfolding index_process_events_def by (simp only: map_map) (simp add: comp_def)
qed

lemma events_for_process:
  assumes "batch_ok events" "e \<in> set events" "is_process_create e" "process_guid e = Some g"
  shows "events_for (filter is_process_create events) g = [e]"
proof -
  have d: "distinct (map process_guid (filter is_process_create events))" using assms(1) by (simp add: batch_ok_def)
  have "set (events_for (filter is_process_create events) g) = {e}"
  proof (rule set_eqI)
    fix x
    show "x \<in> set (events_for (filter is_process_create events) g) \<longleftrightarrow> x \<in> {e}"
      using assms d by (auto simp: events_for_def distinct_map inj_on_def)
  qed
  moreover have "distinct (events_for (filter is_process_create events) g)"
    unfolding events_for_def by (rule distinct_filter [OF d [unfolded distinct_map, THEN conjunct1]])
  ultimately show ?thesis using candidates_singleton [where f = "\<lambda>x. 0::nat"] by (metis distinct_length_2_or_more list.set_intros list.exhaust empty_iff insert_iff list.set(1) set_ConsD)
qed

lemma reconstruct_chain:
  assumes ok: "batch_ok events" and same: "\<And>e e'. e \<in> set events \<Longrightarrow> e' \<in> set events \<Longrightarrow> ev_run_id e = ev_run_id e' \<and> ev_host_id e = ev_host_id e'"
  shows "lineage_chain events (pre @ cur # suf) \<Longrightarrow> process_guid (hd (pre @ [cur])) = Some anchor_guid \<Longrightarrow>
    reconstruct_loop (filter is_process_create events) anchor_guid (rev (cur # suf)) (Some -` process_guid ` set (cur # suf)) cur
      = \<lparr>lco_status = LineageComplete, lco_events = pre @ cur # suf, lco_failure = None, lco_missing_parent = None, lco_duplicate = None\<rparr>"
proof (induction pre arbitrary: cur suf rule: rev_induct)
  case Nil
  then have "cur \<in> set events" "is_process_create cur" by (auto simp: lineage_chain_def)
  with Nil.prems(2) show ?case
    by (subst reconstruct_loop.simps) (simp add: events_for_process [OF ok])
next
  case (snoc p pre)
  note chain = snoc.prems(1)
  have p: "p \<in> set events" "is_process_create p" and cur: "cur \<in> set events" "is_process_create cur"
    using chain by (auto simp: lineage_chain_def)
  have link: "parent_process_guid cur = process_guid p" "process_guid p \<noteq> None" "ev_at p \<le> ev_at cur"
    using chain chain_split [of pre p cur suf] by (auto simp: lineage_chain_def)
  then obtain pg where pg: "process_guid p = Some pg" by auto
  have dist: "distinct (map process_guid (pre @ p # cur # suf))" using chain by (simp add: lineage_chain_def)
  obtain g where g: "process_guid cur = Some g" using ok cur by (auto simp: batch_ok_def)
  have "hd (pre @ [p]) \<in> set (pre @ [p])" by (rule hd_in_set) simp
  then have "process_guid (hd (pre @ [p])) \<noteq> process_guid cur" using dist by (cases pre) auto
  moreover have "hd ((pre @ [p]) @ [cur]) = hd (pre @ [p])" by (cases pre) auto
  ultimately have not_anchor: "g \<noteq> anchor_guid" using snoc.prems(2) g by auto
  have unseen: "pg \<notin> Some -` process_guid ` set (cur # suf)" using dist pg by (auto simp: image_iff)
  have edge: "is_parent_edge cur p"
    using link p cur g pg same [OF cur(1) p(1)] by (simp add: is_parent_edge_def is_eligible_process_event_def)
  have "reconstruct_loop (filter is_process_create events) anchor_guid (rev (cur # suf)) (Some -` process_guid ` set (cur # suf)) cur
      = reconstruct_loop (filter is_process_create events) anchor_guid (rev (cur # suf) @ [p])
          (insert pg (Some -` process_guid ` set (cur # suf))) p"
    using g not_anchor link(1) pg unseen edge events_for_process [OF ok cur g] events_for_process [OF ok p pg]
    by (subst reconstruct_loop.simps) simp
  also have "insert pg (Some -` process_guid ` set (cur # suf)) = Some -` process_guid ` set (p # cur # suf)" using pg by auto
  also have "reconstruct_loop (filter is_process_create events) anchor_guid (rev (cur # suf) @ [p]) (Some -` process_guid ` set (p # cur # suf)) p
      = \<lparr>lco_status = LineageComplete, lco_events = pre @ p # cur # suf, lco_failure = None, lco_missing_parent = None, lco_duplicate = None\<rparr>"
    using snoc.IH [of p "cur # suf"] chain snoc.prems(2) by (cases pre) simp_all
  finally show ?case by simp
qed

lemma batch_same_scope:
  assumes "batch_ok events" "e \<in> set events" "e' \<in> set events"
  shows "ev_run_id e = ev_run_id e' \<and> ev_host_id e = ev_host_id e'"
proof -
  obtain r h where "set (map ev_run_id events) = {r}" "set (map ev_host_id events) = {h}" using assms(1) by (auto simp: batch_ok_def)
  with assms(2,3) show ?thesis by (metis image_eqI list.set_map singletonD)
qed

text \<open>A selected lineage is reconstructed as it is.\<close>

lemma reconstruct_selected:
  assumes ok: "batch_ok events" and chain: "lineage_chain events xs"
  shows "reconstruct_process_lineage events (hd xs) (last xs)
    = \<lparr>lco_status = LineageComplete, lco_events = xs, lco_failure = None, lco_missing_parent = None, lco_duplicate = None\<rparr>"
proof -
  have ne: "xs \<noteq> []" and sub: "\<And>e. e \<in> set xs \<Longrightarrow> e \<in> set events \<and> is_process_create e" using chain by (auto simp: lineage_chain_def)
  have ends: "hd xs \<in> set events" "last xs \<in> set events" "is_process_create (hd xs)" "is_process_create (last xs)"
    using sub ne by auto
  have "process_guid (hd xs) \<noteq> None" "process_guid (last xs) \<noteq> None" using ok ends by (auto simp: batch_ok_def)
  then obtain g h where gh: "process_guid (hd xs) = Some g" "process_guid (last xs) = Some h" by auto
  have xs: "butlast xs @ [last xs] = xs" using ne by simp
  have "Some -` process_guid ` set [last xs] = {h}" using gh by auto
  then show ?thesis
    using reconstruct_chain [OF ok batch_same_scope [OF ok], where pre = "butlast xs" and cur = "last xs" and suf = "[]" and anchor_guid = g] chain gh xs
    by (simp add: reconstruct_process_lineage_def index_process_events_eq [OF ok ends(1,2)])
qed

section \<open>The Evidence of a selected lineage\<close>

lemma latest_timestamp_ok:
  assumes "ts \<noteq> []"
  shows "\<exists>t. latest_timestamp ts = Inr t \<and> t \<in> set ts \<and> (\<forall>u \<in> set ts. instant u \<le> instant t)"
proof -
  have fold: "foldl (\<lambda>m u. if instant m < instant u then u else m) t us \<in> insert t (set us)
    \<and> (\<forall>u \<in> insert t (set us). instant u \<le> instant (foldl (\<lambda>m u. if instant m < instant u then u else m) t us))" for t us
  proof (induction us arbitrary: t)
    case (Cons u us)
    show ?case using Cons [of u] Cons [of t] by (cases "instant t < instant u") auto
  qed simp
  from assms obtain u us where "ts = u # us" by (cases ts) auto
  with fold [of u us] show ?thesis by simp
qed

lemma last_filter: "xs \<noteq> [] \<Longrightarrow> P (last xs) \<Longrightarrow> last (filter P xs) = last xs"
  by (induction xs rule: rev_induct) auto

definition follow_on_of :: "evidence_namer \<Rightarrow> normalized_event \<Rightarrow> normalized_event \<Rightarrow> evidence" where
  "follow_on_of nm t n = r1_evidence (nm_follow_on nm (ev_run_id t) (sort [ev_event_id t, ev_event_id n])) t
     (if ev_at t < ev_at n then ev_timestamp n else ev_timestamp t) remote_process_network_follow_on [ev_event_id t, ev_event_id n] []"

definition deviation_of :: "evidence_namer \<Rightarrow> approved_policy \<Rightarrow> normalized_event list \<Rightarrow> evidence" where
  "deviation_of nm policy es = r1_evidence
     (nm_deviation nm (ev_run_id (last es)) (sort (map ev_event_id es)) (ap_policy_id policy) (ap_version policy) (ap_config_hash policy))
     (last es) (projr (latest_timestamp (map ev_timestamp es))) remote_session_process_lineage_deviation (map ev_event_id es) (policy_features policy)"

lemma extract_follow_on_ok:
  assumes "is_process_create t" "process_guid t = Some g" "is_utc (ev_timestamp t)" "is_utc (ev_timestamp n)"
    and "process_guid n = Some g" "ev_run_id n = ev_run_id t" "ev_host_id n = ev_host_id t"
    and "is_network_connection n \<Longrightarrow> ev_at t \<le> ev_at n"
  shows "extract_follow_on nm t n = Inr (if is_network_connection n then [follow_on_of nm t n] else [])"
  using assms
  by (auto simp: extract_follow_on_def expected_event_contract_def follow_on_of_def Let_def not_less validate_evidence_def
      timestamp_must_be_utc_def r1_evidence_def is_utc_def require_utc_def)

lemma extract_candidates_ok:
  assumes ok: "batch_ok events" and order: "in_order events run_start" and t: "is_terminal events run_start t"
    and utc: "\<forall>e \<in> set events. is_utc (ev_timestamp e)"
  shows "\<exists>es. extract_network_follow_on_candidates nm events [t] = Inr es
    \<and> set es = follow_on_of nm t ` {n \<in> set events. is_network_connection n \<and> process_guid n = process_guid t}"
proof -
  obtain g where g: "process_guid t = Some g" using ok t by (auto simp: is_terminal_def batch_ok_def)
  have tin: "t \<in> set events" "is_process_create t" "\<not> before_run run_start t" using t by (auto simp: is_terminal_def)
  let ?ns = "sort_key (\<lambda>e. (ev_at e, ev_event_id e)) (networks_by_key events (ev_run_id t, ev_host_id t, g))"
  have ns: "set ?ns = {n \<in> set events. ev_event_type n = ''network_connection'' \<and> process_guid n = Some g}"
  proof (rule set_eqI)
    fix n
    show "n \<in> set ?ns \<longleftrightarrow> n \<in> {n \<in> set events. ev_event_type n = ''network_connection'' \<and> process_guid n = Some g}"
      using batch_same_scope [OF ok _ tin(1), of n] by (cases "process_guid n") (auto simp: networks_by_key_def)
  qed
  have "map_result (extract_follow_on nm t) ?ns = Inr (map (\<lambda>n. if is_network_connection n then [follow_on_of nm t n] else []) ?ns)"
  proof (rule map_result_total)
    fix n assume "n \<in> set ?ns"
    then have n: "n \<in> set events" "process_guid n = Some g" using ns by auto
    show "extract_follow_on nm t n = Inr (if is_network_connection n then [follow_on_of nm t n] else [])"
      using tin g utc n batch_same_scope [OF ok n(1) tin(1)] order by (intro extract_follow_on_ok [OF tin(2) g]) (auto simp: in_order_def)
  qed
  then have "extract_network_follow_on_candidates nm events [t]
      = Inr (concat (map (\<lambda>n. if is_network_connection n then [follow_on_of nm t n] else []) ?ns))"
    using g by (simp add: extract_network_follow_on_candidates_def)
  moreover have "set (concat (map (\<lambda>n. if is_network_connection n then [follow_on_of nm t n] else []) ?ns))
      = follow_on_of nm t ` {n \<in> set events. is_network_connection n \<and> process_guid n = process_guid t}"
    using ns g by (auto simp: is_network_connection_def)
  ultimately show ?thesis by blast
qed

definition deviates :: "approved_policy \<Rightarrow> normalized_event list \<Rightarrow> bool" where
  "deviates policy xs \<longleftrightarrow> (case canonical_process_lineage xs of None \<Rightarrow> False | Some names \<Rightarrow> names \<noteq> map str_casefold (ap_lineage policy))"

lemma extract_deviation_ok:
  assumes ok: "batch_ok events" and chain: "lineage_chain events xs" and t: "is_terminal events run_start (last xs)"
    and utc: "\<forall>e \<in> set events. is_utc (ev_timestamp e)" and nb: "\<forall>e \<in> set events. \<not> blank (ev_event_id e)"
  shows "extract_lineage_deviation nm events (hd xs) (last xs) policy (map ev_event_id (filter (before_run run_start) xs)) = Inr
    \<lparr>exr_evidences = (if deviates policy xs then [deviation_of nm policy (filter (\<lambda>e. \<not> before_run run_start e) xs)] else []),
     exr_diagnostics = (if canonical_process_lineage xs = None then [ExMissingOrBlankProcessName] else [])\<rparr>"
proof -
  let ?ctx = "map ev_event_id (filter (before_run run_start) xs)" and ?es = "filter (\<lambda>e. \<not> before_run run_start e) xs"
  have ne: "xs \<noteq> []" and sub: "\<And>e. e \<in> set xs \<Longrightarrow> e \<in> set events \<and> is_process_create e" and dist: "distinct xs"
    and sorted: "sorted (map ev_at xs)" using chain chain_sorted by (auto simp: lineage_chain_def distinct_map)
  have inj: "inj_on ev_event_id (set xs)" using ok sub by (auto simp: batch_ok_def distinct_map intro: inj_on_subset)
  have ends: "hd xs \<in> set events" "last xs \<in> set events" "is_process_create (hd xs)" "is_process_create (last xs)" using sub ne by auto
  have elig: "is_eligible_process_event (hd xs)" "is_eligible_process_event (last xs)"
    using ok ends by (auto simp: is_eligible_process_event_def batch_ok_def)
  have ctx: "validate_context_event_ids ?ctx = Inr ()"
    using nb sub dist inj by (auto simp: validate_context_event_ids_def distinct_map intro: inj_on_subset)
  have "last xs \<in> set ?es" using t ne by (simp add: is_terminal_def)
  then have es_ne: "?es \<noteq> []" by (metis empty_iff empty_set)
  have es_eq: "filter (\<lambda>e. ev_event_id e \<notin> set ?ctx) xs = ?es"
    using inj by (intro filter_cong) (auto simp: inj_on_def)
  have "set ?ctx \<subseteq> set (map ev_event_id xs)" by auto
  then have events: "evidence_events xs ?ctx = Inr ?es" using es_ne unfolding evidence_events_def es_eq by simp
  have last: "last ?es = last xs" using t ne by (simp add: is_terminal_def last_filter)
  obtain ts where ts: "latest_timestamp (map ev_timestamp ?es) = Inr ts" "ts \<in> set (map ev_timestamp ?es)"
    using latest_timestamp_ok [of "map ev_timestamp ?es"] es_ne by auto
  then have "is_utc ts" using utc sub by auto
  then have "validate_evidence (deviation_of nm policy ?es) = Inr (deviation_of nm policy ?es)"
    using es_ne ts by (simp add: validate_evidence_ok deviation_of_def r1_evidence_def)
  then have valid: "validate_evidence (r1_evidence
      (nm_deviation nm (ev_run_id (last xs)) (sort (map ev_event_id ?es)) (ap_policy_id policy) (ap_version policy) (ap_config_hash policy))
      (last xs) ts remote_session_process_lineage_deviation (map ev_event_id ?es) (policy_features policy)) = Inr (deviation_of nm policy ?es)"
    by (simp only: deviation_of_def last ts(1) sum.sel)
  show ?thesis
    using ctx elig batch_same_scope [OF ok ends(1,2)] events ts(1) valid
    by (auto simp: extract_lineage_deviation_def Let_def reconstruct_selected [OF ok chain] deviates_def split: option.splits simp del: map_map)
qed

lemma first_by_id_facts:
  "set (first_by_id es) \<subseteq> set es \<and> evd_id ` set (first_by_id es) = evd_id ` set es"
proof -
  let ?step = "\<lambda>d e. if map_of d (evd_id e) = None then d @ [(evd_id e, e)] else d"
  have "(\<forall>(k, v) \<in> set d. k = evd_id v) \<longrightarrow>
      (\<forall>(k, v) \<in> set (foldl ?step d es). k = evd_id v) \<and> snd ` set (foldl ?step d es) \<subseteq> snd ` set d \<union> set es
        \<and> evd_id ` snd ` set (foldl ?step d es) = evd_id ` snd ` set d \<union> evd_id ` set es" for d
  proof (induction es arbitrary: d)
    case (Cons e es)
    show ?case
    proof (intro impI)
      assume d: "\<forall>(k, v) \<in> set d. k = evd_id v"
      show "(\<forall>(k, v) \<in> set (foldl ?step d (e # es)). k = evd_id v) \<and> snd ` set (foldl ?step d (e # es)) \<subseteq> snd ` set d \<union> set (e # es)
        \<and> evd_id ` snd ` set (foldl ?step d (e # es)) = evd_id ` snd ` set d \<union> evd_id ` set (e # es)"
      proof (cases "map_of d (evd_id e)")
        case None
        then show ?thesis using Cons [of "d @ [(evd_id e, e)]"] d by auto
      next
        case (Some x)
        then have "(evd_id e, x) \<in> set d" by (rule map_of_SomeD)
        with d have "evd_id e \<in> evd_id ` snd ` set d" by force
        with Some Cons [of d] d show ?thesis by auto
      qed
    qed
  qed auto
  from this [of "[]"] show ?thesis by (simp add: first_by_id_def image_image)
qed

text \<open>The Evidence of a lineage.\<close>

definition lineage_evidence :: "evidence_namer \<Rightarrow> approved_policy \<Rightarrow> normalized_event list \<Rightarrow> datetime option \<Rightarrow> normalized_event list
    \<Rightarrow> evidence set" where
  "lineage_evidence nm policy events run_start xs =
     follow_on_of nm (last xs) ` {n \<in> set events. is_network_connection n \<and> process_guid n = process_guid (last xs)}
     \<union> (if deviates policy xs then {deviation_of nm policy (filter (\<lambda>e. \<not> before_run run_start e) xs)} else {})"

lemma selected_pipeline:
  assumes start: "normalize_run_start start = Inr run_start" and n: "slp_event_count selector = int (length (ap_lineage policy))" "ap_lineage policy \<noteq> []"
    and sel: "select_r1_lineage events selector start = Inr \<lparr>slr_selection = Some s, slr_diagnostics = ds\<rparr>"
    and utc: "\<forall>e \<in> set events. is_utc (ev_timestamp e)" and nb: "\<forall>e \<in> set events. \<not> blank (ev_event_id e)"
  shows "\<exists>xs r. is_terminal events run_start (last xs) \<and> lineage_chain events xs \<and> length xs = length (ap_lineage policy) \<and> s = selection_of_lineage selector run_start xs
    \<and> run_r1_evidence_pipeline_with_selector nm events selector policy start = Inr r
    \<and> ser_selector_result r = \<lparr>slr_selection = Some s, slr_diagnostics = ds\<rparr>
    \<and> ser_diagnostics r = (if canonical_process_lineage xs = None then [ExMissingOrBlankProcessName] else [])
    \<and> set (ser_evidences r) \<subseteq> lineage_evidence nm policy events run_start xs
    \<and> evd_id ` set (ser_evidences r) = evd_id ` lineage_evidence nm policy events run_start xs
    \<and> sorted (map r1_evidence_sort_key (ser_evidences r))"
proof -
  have "1 \<le> slp_event_count selector" using n by (cases "ap_lineage policy") auto
  from sel [unfolded select_iff [OF start this]] obtain xs where ok: "batch_ok events" "in_order events run_start"
    and chain: "lineage_chain events xs" and len: "length xs = nat (slp_event_count selector)"
    and terms: "{e. is_terminal events run_start e} = {last xs}" and s: "s = selection_of_lineage selector run_start xs" and ds: "ds = []"
    by blast
  have t: "is_terminal events run_start (last xs)" using terms by blast
  have ids: "distinct (map ev_event_id events)" using ok(1) by (simp add: batch_ok_def)
  have ne: "xs \<noteq> []" and sub: "set xs \<subseteq> set events" using chain by (auto simp: lineage_chain_def)
  have ends: "hd xs \<in> set events" "last xs \<in> set events" using ne sub by auto
  let ?i = "\<lparr>lin_anchor_event_id = ev_event_id (hd xs), lin_terminal_event_id = ev_event_id (last xs), lin_approved_policy = policy,
    lin_context_event_ids = map ev_event_id (filter (before_run run_start) xs)\<rparr>"
  let ?x = "\<lparr>exr_evidences = (if deviates policy xs then [deviation_of nm policy (filter (\<lambda>e. \<not> before_run run_start e) xs)] else []),
     exr_diagnostics = (if canonical_process_lineage xs = None then [ExMissingOrBlankProcessName] else [])\<rparr>"
  obtain es where es: "extract_network_follow_on_candidates nm events [last xs] = Inr es"
    "set es = follow_on_of nm (last xs) ` {n \<in> set events. is_network_connection n \<and> process_guid n = process_guid (last xs)}"
    using extract_candidates_ok [OF ok t utc] by blast
  have resolved: "resolve_lineage_inputs [?i] (map (\<lambda>e. (ev_event_id e, e)) events) = Inr [(?i, hd xs, last xs)]"
    using event_by_id [OF ids ends(1)] event_by_id [OF ids ends(2)] by (simp add: resolve_lineage_inputs_def required_event_def)
  have terminals: "terminals_of [(?i, hd xs, last xs)] = [last xs]" by (simp add: terminals_of_def)
  have diags: "sorted_list_of_set (set (exr_diagnostics ?x)) = exr_diagnostics ?x" by simp
  have pipeline: "run_r1_evidence_pipeline_with_diagnostics nm events [?i] = Inr
      \<lparr>exr_evidences = sort_key r1_evidence_sort_key (first_by_id (es @ exr_evidences ?x)), exr_diagnostics = exr_diagnostics ?x\<rparr>"
    using index_events_distinct [OF ids, of "[]"] extract_deviation_ok [OF ok(1) chain t utc nb, of nm policy] diags
    by (simp add: run_r1_evidence_pipeline_with_diagnostics_def resolved terminals es(1))
  have whole: "run_r1_evidence_pipeline_with_selector nm events selector policy start = Inr
      \<lparr>ser_evidences = sort_key r1_evidence_sort_key (first_by_id (es @ exr_evidences ?x)),
       ser_selector_result = \<lparr>slr_selection = Some s, slr_diagnostics = ds\<rparr>, ser_lineage_input = Some ?i, ser_diagnostics = exr_diagnostics ?x\<rparr>"
    using n sel lineage_input_accepted [OF chain ids nb t, of policy] pipeline
    by (simp add: run_r1_evidence_pipeline_with_selector_def s selection_of_lineage_def)
  have "set (es @ exr_evidences ?x) = lineage_evidence nm policy events run_start xs" using es(2) by (simp add: lineage_evidence_def)
  with first_by_id_facts [of "es @ exr_evidences ?x"] whole chain len s n(1) t show ?thesis
    by (intro exI [of _ xs] exI conjI) (auto simp: sorted_sort_key)
qed

section \<open>Resolving the Evidence\<close>

text \<open>An Evidence that names Events of its run and host and carries the time of the latest one resolves to them.\<close>

lemma evidence_resolves:
  assumes ids: "distinct (map ev_event_id events)" and es: "evd_event_ids e = map ev_event_id es" "set es \<subseteq> set events"
    and scope: "\<And>x. x \<in> set es \<Longrightarrow> ev_run_id x = evd_run_id e \<and> ev_host_id x = evd_entity_id e"
    and t: "latest_timestamp (map ev_timestamp es) = Inr t" "instant (evd_timestamp e) = instant t"
  shows "bnd (map_result (resolve_referenced_event (map (\<lambda>e. (ev_event_id e, e)) events) e) (evd_event_ids e)) (\<lambda>resolved.
       seq (validate_evidence_timestamp e resolved) (Inr \<lparr>rpv_evidence = e, rpv_events = resolved\<rparr>))
    = Inr \<lparr>rpv_evidence = e, rpv_events = es\<rparr>"
proof -
  have "map_result (resolve_referenced_event (map (\<lambda>e. (ev_event_id e, e)) events) e) (map ev_event_id es) = Inr es"
    unfolding map_result_ok
  proof (intro list_all2I ballI)
    fix p assume "p \<in> set (zip (map ev_event_id es) es)"
    then obtain x where x: "p = (ev_event_id x, x)" "x \<in> set es" by (auto simp: zip_map1 zip_same)
    show "case p of (i, x) \<Rightarrow> resolve_referenced_event (map (\<lambda>e. (ev_event_id e, e)) events) e i = Inr x"
      using x scope [OF x(2)] event_by_id [OF ids subsetD [OF es(2) x(2)]] by (simp add: resolve_referenced_event_def)
  qed simp
  then show ?thesis using es(1) t by (simp add: validate_evidence_timestamp_def)
qed

lemma lineage_evidence_events:
  assumes ok: "batch_ok events" and order: "in_order events run_start" and chain: "lineage_chain events xs"
    and t: "is_terminal events run_start (last xs)" and e: "e \<in> lineage_evidence nm policy events run_start xs"
  shows "\<exists>es t. evd_event_ids e = map ev_event_id es \<and> set es \<subseteq> set events
    \<and> (\<forall>x \<in> set es. ev_run_id x = evd_run_id e \<and> ev_host_id x = evd_entity_id e)
    \<and> latest_timestamp (map ev_timestamp es) = Inr t \<and> instant (evd_timestamp e) = instant t"
proof -
  have ne: "xs \<noteq> []" and sub: "set xs \<subseteq> set events" using chain by (auto simp: lineage_chain_def)
  have tin: "last xs \<in> set events" "is_process_create (last xs)" "\<not> before_run run_start (last xs)" using t by (auto simp: is_terminal_def)
  from e consider (follow) n where "n \<in> set events" "is_network_connection n" "process_guid n = process_guid (last xs)"
      "e = follow_on_of nm (last xs) n"
    | (deviation) "e = deviation_of nm policy (filter (\<lambda>e. \<not> before_run run_start e) xs)"
    by (auto simp: lineage_evidence_def split: if_splits)
  then show ?thesis
  proof cases
    case follow
    have "ev_at (last xs) \<le> ev_at n" using order tin follow by (auto simp: in_order_def)
    with follow tin batch_same_scope [OF ok follow(1) tin(1)] show ?thesis
      by (intro exI [of _ "[last xs, n]"]) (auto simp: follow_on_of_def r1_evidence_def)
  next
    case deviation
    let ?es = "filter (\<lambda>e. \<not> before_run run_start e) xs"
    have last: "last ?es = last xs" "?es \<noteq> []" using last_filter ne tin(3) by (auto simp: filter_empty_conv intro!: bexI [of _ "last xs"])
    obtain ts where ts: "latest_timestamp (map ev_timestamp ?es) = Inr ts" using latest_timestamp_ok [of "map ev_timestamp ?es"] last(2) by auto
    have "\<forall>x \<in> set ?es. ev_run_id x = ev_run_id (last xs) \<and> ev_host_id x = ev_host_id (last xs)"
      using batch_same_scope [OF ok _ tin(1)] sub by auto
    with deviation ts sub last show ?thesis
      by (intro exI [of _ ?es] exI [of _ ts]) (auto simp: deviation_of_def r1_evidence_def)
  qed
qed

lemma lineage_evidence_resolves:
  assumes ok: "batch_ok events" and order: "in_order events run_start" and chain: "lineage_chain events xs"
    and t: "is_terminal events run_start (last xs)" and sub: "set evidences \<subseteq> lineage_evidence nm policy events run_start xs"
  shows "\<exists>ps. resolve_r1_evidence_provenance evidences events = Inr ps \<and> map rpv_evidence ps = evidences
    \<and> (\<forall>p \<in> set ps. set (rpv_events p) \<subseteq> set events \<and> evd_event_ids (rpv_evidence p) = map ev_event_id (rpv_events p))"
  using sub
proof (induction evidences)
  case Nil
  then show ?case using index_events_distinct [of events "[]"] ok by (simp add: resolve_r1_evidence_provenance_def batch_ok_def)
next
  case (Cons e evidences)
  have ids: "distinct (map ev_event_id events)" using ok by (simp add: batch_ok_def)
  from Cons obtain ps where ps: "resolve_r1_evidence_provenance evidences events = Inr ps" "map rpv_evidence ps = evidences"
    "\<forall>p \<in> set ps. set (rpv_events p) \<subseteq> set events \<and> evd_event_ids (rpv_evidence p) = map ev_event_id (rpv_events p)" by auto
  obtain es ts where es: "evd_event_ids e = map ev_event_id es" "set es \<subseteq> set events"
    "\<forall>x \<in> set es. ev_run_id x = evd_run_id e \<and> ev_host_id x = evd_entity_id e"
    "latest_timestamp (map ev_timestamp es) = Inr ts" "instant (evd_timestamp e) = instant ts"
    using lineage_evidence_events [OF ok order chain t, of e nm policy] Cons.prems by auto
  note one = evidence_resolves [OF ids es(1,2) _ es(4,5)]
  have "resolve_r1_evidence_provenance (e # evidences) events = Inr (\<lparr>rpv_evidence = e, rpv_events = es\<rparr> # ps)"
    using ps(1) one es(3) index_events_distinct [OF ids, of "[]"] by (simp add: resolve_r1_evidence_provenance_def)
  with ps es show ?case by simp
qed

lemma selected_pipeline_resolves:
  assumes start: "normalize_run_start start = Inr run_start" and n: "slp_event_count selector = int (length (ap_lineage policy))" "ap_lineage policy \<noteq> []"
    and sel: "select_r1_lineage events selector start = Inr \<lparr>slr_selection = Some s, slr_diagnostics = ds\<rparr>"
    and utc: "\<forall>e \<in> set events. is_utc (ev_timestamp e)" and nb: "\<forall>e \<in> set events. \<not> blank (ev_event_id e)"
  shows "\<exists>r ps. run_r1_evidence_pipeline_with_selector nm events selector policy start = Inr r
    \<and> resolve_r1_evidence_provenance (ser_evidences r) events = Inr ps \<and> map rpv_evidence ps = ser_evidences r
    \<and> (\<forall>p \<in> set ps. set (rpv_events p) \<subseteq> set events \<and> evd_event_ids (rpv_evidence p) = map ev_event_id (rpv_events p))"
proof -
  have "1 \<le> slp_event_count selector" using n by (cases "ap_lineage policy") auto
  from sel [unfolded select_iff [OF start this]] have ok: "batch_ok events" "in_order events run_start" by blast+
  obtain xs r where xs: "lineage_chain events xs" "is_terminal events run_start (last xs)"
    and r: "run_r1_evidence_pipeline_with_selector nm events selector policy start = Inr r"
      "set (ser_evidences r) \<subseteq> lineage_evidence nm policy events run_start xs"
    using selected_pipeline [OF start n sel utc nb, of nm] by blast
  from lineage_evidence_resolves [OF ok xs r(2)] r(1) show ?thesis by blast
qed

section \<open>Any reconstruction\<close>

lemma is_parent_edge_guid: "is_parent_edge c p \<Longrightarrow> parent_process_guid c = process_guid p"
  by (simp add: is_parent_edge_def)

lemma reconstruct_loop_facts:
  assumes "observed \<noteq> []" "last observed = current" "set observed \<subseteq> set indexed \<union> {t}" "hd observed = t"
    "successively is_parent_edge observed" "distinct (map process_guid observed)" "Some ` seen = process_guid ` set observed"
  shows "\<exists>more. lco_events (reconstruct_loop indexed anchor_guid observed seen current) = rev (observed @ more)
    \<and> set (observed @ more) \<subseteq> set indexed \<union> {t}
    \<and> successively is_parent_edge (observed @ more) \<and> distinct (map process_guid (observed @ more))
    \<and> (lco_status (reconstruct_loop indexed anchor_guid observed seen current) = LineageComplete
        \<longrightarrow> process_guid (last (observed @ more)) = Some anchor_guid)"
  using assms
proof (induction indexed anchor_guid observed seen current rule: reconstruct_loop.induct)
  case (1 indexed anchor_guid observed seen current)
  let ?r = "reconstruct_loop indexed anchor_guid observed seen current"
  show ?case
  proof (cases "\<exists>g pg parent rest. process_guid current = Some g \<and> length (events_for indexed g) \<le> 1 \<and> g \<noteq> anchor_guid
      \<and> parent_process_guid current = Some pg \<and> pg \<notin> seen \<and> events_for indexed pg = parent # rest
      \<and> length (events_for indexed pg) \<le> 1 \<and> is_parent_edge current parent")
    case False
    then have "lco_events ?r = rev observed \<and> (lco_status ?r = LineageComplete \<longrightarrow> process_guid current = Some anchor_guid)"
      by (subst (1 2) reconstruct_loop.simps) (auto simp: truncated_def not_less split: option.splits list.splits)
    with "1.prems" show ?thesis by (intro exI [of _ "[]"]) simp
  next
    case True
    then obtain g pg parent rest where p: "process_guid current = Some g" "\<not> 1 < length (events_for indexed g)" "g \<noteq> anchor_guid"
      "parent_process_guid current = Some pg" "pg \<notin> seen" "\<not> 1 < length (events_for indexed pg)" "events_for indexed pg = parent # rest"
      "is_parent_edge current parent" by (auto simp: not_less)
    have parent: "parent \<in> set (events_for indexed pg)" using p(7) by simp
    then have pin: "parent \<in> set indexed" "process_guid parent = Some pg" by (auto simp: events_for_def)
    have step: "?r = reconstruct_loop indexed anchor_guid (observed @ [parent]) (insert pg seen) parent"
      using p by (subst reconstruct_loop.simps) simp
    have new: "Some pg \<notin> process_guid ` set observed" using p(5) "1.prems"(7) by (metis image_iff option.inject)
    have "\<exists>more. lco_events (reconstruct_loop indexed anchor_guid (observed @ [parent]) (insert pg seen) parent) = rev ((observed @ [parent]) @ more)
      \<and> set ((observed @ [parent]) @ more) \<subseteq> set indexed \<union> {t}
      \<and> successively is_parent_edge ((observed @ [parent]) @ more) \<and> distinct (map process_guid ((observed @ [parent]) @ more))
      \<and> (lco_status (reconstruct_loop indexed anchor_guid (observed @ [parent]) (insert pg seen) parent) = LineageComplete
          \<longrightarrow> process_guid (last ((observed @ [parent]) @ more)) = Some anchor_guid)"
    proof (rule "1.IH" [OF p(1,2,3,4,5,6,7)])
      show "\<not> \<not> is_parent_edge current parent" using p(8) by simp
      show "successively is_parent_edge (observed @ [parent])" using "1.prems"(1,2,5) p(8) by (simp add: successively_append_iff)
      show "Some ` insert pg seen = process_guid ` set (observed @ [parent])" using "1.prems"(7) pin(2) by simp
      show "distinct (map process_guid (observed @ [parent]))" using "1.prems"(6) new pin(2) by simp
    qed (use "1.prems" pin in auto)
    then obtain more where "lco_events ?r = rev (observed @ parent # more)" "set (observed @ parent # more) \<subseteq> set indexed \<union> {t}"
      "successively is_parent_edge (observed @ parent # more)" "distinct (map process_guid (observed @ parent # more))"
      "lco_status ?r = LineageComplete \<longrightarrow> process_guid (last (observed @ parent # more)) = Some anchor_guid"
      unfolding step by auto
    then show ?thesis by (intro exI [of _ "parent # more"]) simp
  qed
qed

lemma index_process_events_subset: "set (index_process_events events anchor terminal) \<subseteq> set (events @ [anchor, terminal])"
proof -
  let ?step = "\<lambda>by_id e. if map_of by_id (ev_event_id e) \<noteq> None \<or> \<not> is_eligible_process_event e
       \<or> ev_run_id e \<noteq> ev_run_id terminal \<or> ev_host_id e \<noteq> ev_host_id terminal then by_id else by_id @ [(ev_event_id e, e)]"
  have "snd ` set (foldl ?step d es) \<subseteq> snd ` set d \<union> set es" for d es
  proof (induction es arbitrary: d)
    case (Cons e es)
    have "snd ` set (foldl ?step (?step d e) es) \<subseteq> snd ` set (?step d e) \<union> set es" by (rule Cons)
    also have "\<dots> \<subseteq> snd ` set d \<union> set (e # es)" by auto
    finally show ?case by simp
  qed simp
  from this [of "[]" "events @ [anchor, terminal]"] show ?thesis unfolding index_process_events_def by simp
qed

lemma reconstruction_facts:
  fixes events anchor terminal
  defines "c \<equiv> reconstruct_process_lineage events anchor terminal"
  shows "lco_events c \<noteq> [] \<and> last (lco_events c) = terminal
    \<and> successively (\<lambda>parent child. is_parent_edge child parent) (lco_events c)
    \<and> distinct (map process_guid (lco_events c)) \<and> length (lco_events c) \<le> length events + 2
    \<and> (lco_status c = LineageComplete \<longrightarrow> process_guid (hd (lco_events c)) = process_guid anchor)"
proof (cases "process_guid anchor = None \<or> process_guid terminal = None")
  case True
  then show ?thesis by (auto simp: c_def reconstruct_process_lineage_def split: option.splits)
next
  case False
  then obtain g h where gh: "process_guid anchor = Some g" "process_guid terminal = Some h" by auto
  let ?i = "index_process_events events anchor terminal"
  have c: "c = reconstruct_loop ?i g [terminal] {h} terminal" by (simp add: c_def reconstruct_process_lineage_def gh)
  obtain more where m: "lco_events c = rev ([terminal] @ more)" "set ([terminal] @ more) \<subseteq> set ?i \<union> {terminal}"
    "successively is_parent_edge ([terminal] @ more)" "distinct (map process_guid ([terminal] @ more))"
    "lco_status c = LineageComplete \<longrightarrow> process_guid (last ([terminal] @ more)) = Some g"
    using reconstruct_loop_facts [of "[terminal]" terminal ?i terminal "{h}" g] gh unfolding c by auto
  let ?xs = "[terminal] @ more"
  have "set ?xs \<subseteq> set (events @ [anchor, terminal])" using m(2) index_process_events_subset [of events anchor terminal] by auto
  then have "card (set ?xs) \<le> card (set (events @ [anchor, terminal]))" by (intro card_mono) auto
  also have "\<dots> \<le> length (events @ [anchor, terminal])" by (rule card_length)
  moreover have "card (set ?xs) = length ?xs" using m(4) by (intro distinct_card) (simp only: distinct_map)
  ultimately have len: "length ?xs \<le> length events + 2" by simp
  have "successively (\<lambda>p ch. is_parent_edge ch p) (rev ?xs)" using m(3) by (subst successively_rev)
  moreover have "hd (rev ?xs) = last ?xs" by (rule hd_rev)
  ultimately show ?thesis using m(1,4,5) len gh by (simp add: rev_map [symmetric] distinct_rev)
qed

end
