(* ===== verification/LineageProperties.thy ===== *)
theory LineageProperties
  imports LineageFacts
begin

text \<open>
  The properties of the lineage path, each with a witness on a batch of three Events: the process
  that started before the run, its child in the run, and the connection the child opened.
\<close>

section \<open>A sample batch\<close>

definition lineage_sample_event :: "string \<Rightarrow> int \<Rightarrow> string \<Rightarrow> string \<Rightarrow> string option \<Rightarrow> string \<Rightarrow> normalized_event" where
  "lineage_sample_event i t kind g pg name = \<lparr>ev_event_id = i, ev_run_id = ''run-1'', ev_timestamp = utc t,
     ev_timestamp_source = EventTime, ev_event_time = Some (utc t), ev_record_time = None, ev_ingest_time = None,
     ev_host_id = ''h1'', ev_source = ''sysmon'', ev_source_layer = RawTelemetry, ev_source_event_id = ''1'',
     ev_event_type = kind,
     ev_raw_ref = \<lparr>rl_raw_log_id = ''raw'', rl_source_record_id = Some ''7'', rl_segment_no = 1, rl_record_no = 1,
       rl_parser_id = None, rl_parser_version = None\<rparr>,
     ev_user = None,
     ev_process = Some \<lparr>pi_pid = None, pi_process_guid = Some g, pi_name = Some name, pi_path = None, pi_command_line = None,
       pi_parent_pid = None, pi_parent_process_guid = pg, pi_parent_name = None\<rparr>,
     ev_network = None\<rparr>"

definition sample_parent :: normalized_event where
  "sample_parent = lineage_sample_event ''A'' 1000 ''process_create'' ''g1'' None ''sshd''"

definition sample_child :: normalized_event where
  "sample_child = lineage_sample_event ''B'' 3000 ''process_create'' ''g2'' (Some ''g1'') ''nc''"

definition sample_connection :: normalized_event where
  "sample_connection = lineage_sample_event ''C'' 5000 ''network_connection'' ''g2'' None ''nc''"

definition lineage_batch :: "normalized_event list" where
  "lineage_batch = [sample_connection, sample_child, sample_parent]"

definition sample_selector :: selector_policy where
  "sample_selector = \<lparr>slp_policy_id = ''p'', slp_version = ''1'', slp_config_hash = ''c'', slp_event_count = 2\<rparr>"

definition lineage_policy_sample :: approved_policy where
  "lineage_policy_sample = \<lparr>ap_policy_id = ''a'', ap_version = ''1'', ap_config_hash = ''c'', ap_lineage = [''sshd'', ''bash''],
     ap_family_id = None, ap_lifecycle = None\<rparr>"

definition sample_namer :: evidence_namer where
  "sample_namer = \<lparr>nm_follow_on = (\<lambda>r ids. ''f''), nm_deviation = (\<lambda>r ids p v c. ''d'')\<rparr>"

abbreviation "sample_start \<equiv> Some (utc 2000)"

lemmas sample_event_defs = sample_parent_def sample_child_def sample_connection_def lineage_sample_event_def

lemmas sample_kinds = is_process_create_def is_network_connection_def sysmon_telemetry_def process_guid_def parent_process_guid_def

lemma sample_fields [simp]:
  "ev_event_id sample_parent = ''A''" "ev_event_id sample_child = ''B''" "ev_event_id sample_connection = ''C''"
  "ev_timestamp sample_parent = utc 1000" "ev_timestamp sample_child = utc 3000" "ev_timestamp sample_connection = utc 5000"
  "process_guid sample_parent = Some ''g1''" "process_guid sample_child = Some ''g2''" "process_guid sample_connection = Some ''g2''"
  "parent_process_guid sample_parent = None" "parent_process_guid sample_child = Some ''g1''"
  "is_process_create sample_parent" "is_process_create sample_child" "\<not> is_process_create sample_connection"
  "\<not> is_network_connection sample_parent" "\<not> is_network_connection sample_child" "is_network_connection sample_connection"
  "process_name sample_parent = Some ''sshd''" "process_name sample_child = Some ''nc''"
  "ev_run_id sample_parent = ''run-1''" "ev_run_id sample_child = ''run-1''" "ev_run_id sample_connection = ''run-1''"
  "ev_host_id sample_parent = ''h1''" "ev_host_id sample_child = ''h1''" "ev_host_id sample_connection = ''h1''"
  by (simp_all add: sample_event_defs sample_kinds process_name_def)

lemma sample_start_ok: "normalize_run_start sample_start = Inr (Some (utc 2000))"
  by (simp add: normalize_run_start_def require_utc_ok)

lemma sample_before_run [simp]:
  "before_run sample_start sample_parent" "\<not> before_run sample_start sample_child" "\<not> before_run sample_start sample_connection"
  by (simp_all add: before_run_def)

lemma lineage_batch_facts:
  "batch_ok lineage_batch" "in_order lineage_batch sample_start" "lineage_chain lineage_batch [sample_parent, sample_child]"
  "{e. is_terminal lineage_batch sample_start e} = {sample_child}"
proof -
  show "batch_ok lineage_batch" "in_order lineage_batch sample_start" "lineage_chain lineage_batch [sample_parent, sample_child]"
    by (auto simp: batch_ok_def in_order_def lineage_chain_def linked_def lineage_batch_def)
  have "is_terminal lineage_batch sample_start e \<longleftrightarrow> e = sample_child" for e
    by (auto simp: is_terminal_def lineage_batch_def)
  then show "{e. is_terminal lineage_batch sample_start e} = {sample_child}" by blast
qed

lemma sample_lineage_selected:
  "select_r1_lineage lineage_batch sample_selector sample_start
    = Inr \<lparr>slr_selection = Some (selection_of_lineage sample_selector sample_start [sample_parent, sample_child]), slr_diagnostics = []\<rparr>"
proof -
  have n: "1 \<le> slp_event_count sample_selector" "length [sample_parent, sample_child] = nat (slp_event_count sample_selector)"
    by (simp_all add: sample_selector_def)
  have last: "{e. is_terminal lineage_batch sample_start e} = {last [sample_parent, sample_child]}" using lineage_batch_facts(4) by simp
  show ?thesis
    unfolding select_iff [OF sample_start_ok n(1)] using lineage_batch_facts(1,2,3) n(2) last by blast
qed

lemma sample_events_ok:
  "\<forall>e \<in> set lineage_batch. is_utc (ev_timestamp e)" "\<forall>e \<in> set lineage_batch. \<not> blank (ev_event_id e)"
  by (simp_all add: lineage_batch_def blank_iff is_space_def code_point_def)

lemma sample_deviates: "deviates lineage_policy_sample [sample_parent, sample_child]"
  by (simp add: deviates_def canonical_process_lineage_def lineage_policy_sample_def blank_iff is_space_def code_point_def str_casefold_def fold_char_def Let_def)

lemma sample_evidence_ids:
  "evd_id ` lineage_evidence sample_namer lineage_policy_sample lineage_batch sample_start [sample_parent, sample_child] = {''f'', ''d''}"
proof -
  have "{n \<in> set lineage_batch. is_network_connection n \<and> process_guid n = Some ''g2''} = {sample_connection}"
    by (auto simp: lineage_batch_def)
  then show ?thesis
    by (simp add: lineage_evidence_def sample_deviates follow_on_of_def deviation_of_def r1_evidence_def sample_namer_def insert_commute)
qed

section \<open>The selector\<close>

text \<open>C19: the selector returns a selection exactly for a batch of one run and host with unique event
  ids and process GUIDs, whose connections do not precede their process, in which exactly one process
  of the run opened a connection and the chain of its parents in the batch is as long as the policy
  says; the selection then names the ends of that chain and its Events before the run.\<close>

theorem select_exact:
  assumes "normalize_run_start start = Inr run_start" "1 \<le> slp_event_count policy"
  shows "select_r1_lineage events policy start = Inr \<lparr>slr_selection = Some s, slr_diagnostics = ds\<rparr> \<longleftrightarrow>
    ds = [] \<and> batch_ok events \<and> in_order events run_start
    \<and> (\<exists>xs. lineage_chain events xs \<and> length xs = nat (slp_event_count policy)
        \<and> {e. is_terminal events run_start e} = {last xs} \<and> s = selection_of_lineage policy run_start xs)"
  using assms by (rule select_iff)

theorem select_exact_witness:
  "\<exists>s. select_r1_lineage lineage_batch sample_selector sample_start = Inr \<lparr>slr_selection = Some s, slr_diagnostics = []\<rparr>
    \<and> lsn_terminal_event_id s = ''B'' \<and> lsn_context_event_ids s = [''A'']"
proof -
  have n: "1 \<le> slp_event_count sample_selector" "length [sample_parent, sample_child] = nat (slp_event_count sample_selector)"
    by (simp_all add: sample_selector_def)
  have last: "{e. is_terminal lineage_batch sample_start e} = {last [sample_parent, sample_child]}" using lineage_batch_facts(4) by simp
  let ?s = "selection_of_lineage sample_selector sample_start [sample_parent, sample_child]"
  have "select_r1_lineage lineage_batch sample_selector sample_start = Inr \<lparr>slr_selection = Some ?s, slr_diagnostics = []\<rparr>"
    unfolding select_exact [OF sample_start_ok n(1)] using lineage_batch_facts(1,2,3) n(2) last by blast
  moreover have "lsn_terminal_event_id ?s = ''B''" "lsn_context_event_ids ?s = [''A'']" by (simp_all add: selection_of_lineage_def)
  ultimately show ?thesis by blast
qed

text \<open>The order in which the Events of a batch arrive does not change what the selector
  returns, neither the selection nor the diagnostic.\<close>

theorem select_order_irrelevant:
  assumes "mset events = mset events'"
  shows "select_r1_lineage events policy start = select_r1_lineage events' policy start"
  using assms by (rule select_mset)

theorem select_order_irrelevant_witness:
  "select_r1_lineage [sample_parent, sample_child, sample_connection] sample_selector sample_start
    = Inr \<lparr>slr_selection = Some (selection_of_lineage sample_selector (Some (utc 2000)) [sample_parent, sample_child]), slr_diagnostics = []\<rparr>"
proof -
  have "mset [sample_parent, sample_child, sample_connection] = mset lineage_batch" by (simp add: lineage_batch_def)
  from select_order_irrelevant [OF this] sample_lineage_selected show ?thesis by simp
qed

section \<open>The Evidence\<close>

text \<open>C18: when the selector finds a lineage the Evidence pipeline does not raise: its Evidence are,
  up to equal ids, one follow-on per connection of the terminal process and, when every process has
  a name and the names are not the approved ones, one deviation over the Events of the run, in the
  order of their sort key; the only diagnostic is a missing name.\<close>

theorem selected_pipeline_exact:
  assumes "normalize_run_start start = Inr run_start" "slp_event_count selector = int (length (ap_lineage policy))" "ap_lineage policy \<noteq> []"
    and "select_r1_lineage events selector start = Inr \<lparr>slr_selection = Some s, slr_diagnostics = ds\<rparr>"
    and "\<forall>e \<in> set events. is_utc (ev_timestamp e)" and "\<forall>e \<in> set events. \<not> blank (ev_event_id e)"
  shows "\<exists>xs r. lineage_chain events xs \<and> length xs = length (ap_lineage policy) \<and> s = selection_of_lineage selector run_start xs
    \<and> run_r1_evidence_pipeline_with_selector nm events selector policy start = Inr r
    \<and> ser_selector_result r = \<lparr>slr_selection = Some s, slr_diagnostics = ds\<rparr>
    \<and> ser_diagnostics r = (if canonical_process_lineage xs = None then [ExMissingOrBlankProcessName] else [])
    \<and> set (ser_evidences r) \<subseteq> lineage_evidence nm policy events run_start xs
    \<and> evd_id ` set (ser_evidences r) = evd_id ` lineage_evidence nm policy events run_start xs
    \<and> sorted (map r1_evidence_sort_key (ser_evidences r))"
  using selected_pipeline [OF assms] by blast

theorem selected_pipeline_exact_witness:
  "\<exists>r. run_r1_evidence_pipeline_with_selector sample_namer lineage_batch sample_selector lineage_policy_sample sample_start = Inr r
    \<and> evd_id ` set (ser_evidences r) = {''f'', ''d''}"
proof -
  let ?s = "selection_of_lineage sample_selector (Some (utc 2000)) [sample_parent, sample_child]"
  have p: "slp_event_count sample_selector = int (length (ap_lineage lineage_policy_sample))" "ap_lineage lineage_policy_sample \<noteq> []"
    by (simp_all add: sample_selector_def lineage_policy_sample_def)
  obtain xs r where xs: "lineage_chain lineage_batch xs" "length xs = 2" "?s = selection_of_lineage sample_selector (Some (utc 2000)) xs"
    and r: "run_r1_evidence_pipeline_with_selector sample_namer lineage_batch sample_selector lineage_policy_sample sample_start = Inr r"
      "evd_id ` set (ser_evidences r) = evd_id ` lineage_evidence sample_namer lineage_policy_sample lineage_batch (Some (utc 2000)) xs"
    using selected_pipeline_exact [OF sample_start_ok p sample_lineage_selected sample_events_ok, of sample_namer]
    by (auto simp: lineage_policy_sample_def)
  obtain a b where ab: "xs = [a, b]" using xs(2) by (auto simp: numeral_2_eq_2 length_Suc_conv)
  have "ev_event_id a = ''A''" "ev_event_id b = ''B''" using xs(3) ab by (simp_all add: selection_of_lineage_def)
  moreover have "a \<in> set lineage_batch" "b \<in> set lineage_batch" using xs(1) ab by (simp_all add: lineage_chain_def)
  ultimately have "a = sample_parent" "b = sample_child" by (auto simp: lineage_batch_def)
  with ab have "xs = [sample_parent, sample_child]" by simp
  with r sample_evidence_ids have "evd_id ` set (ser_evidences r) = {''f'', ''d''}" by simp
  with r show ?thesis by blast
qed

text \<open>C20: every Evidence of a selected lineage resolves: each id it names is an Event of the batch in
  its run and on its host, and its time is that of the latest of them, so the provenance check of the
  pipeline's own output never fails.\<close>

theorem selected_evidence_resolves:
  assumes "normalize_run_start start = Inr run_start" "slp_event_count selector = int (length (ap_lineage policy))" "ap_lineage policy \<noteq> []"
    and "select_r1_lineage events selector start = Inr \<lparr>slr_selection = Some s, slr_diagnostics = ds\<rparr>"
    and "\<forall>e \<in> set events. is_utc (ev_timestamp e)" and "\<forall>e \<in> set events. \<not> blank (ev_event_id e)"
  shows "\<exists>r ps. run_r1_evidence_pipeline_with_selector nm events selector policy start = Inr r
    \<and> resolve_r1_evidence_provenance (ser_evidences r) events = Inr ps \<and> map rpv_evidence ps = ser_evidences r
    \<and> (\<forall>p \<in> set ps. set (rpv_events p) \<subseteq> set events \<and> evd_event_ids (rpv_evidence p) = map ev_event_id (rpv_events p))"
  using selected_pipeline_resolves [OF assms] by blast

theorem selected_evidence_resolves_witness:
  "\<exists>r ps. run_r1_evidence_pipeline_with_selector sample_namer lineage_batch sample_selector lineage_policy_sample sample_start = Inr r
    \<and> resolve_r1_evidence_provenance (ser_evidences r) lineage_batch = Inr ps"
proof -
  have p: "slp_event_count sample_selector = int (length (ap_lineage lineage_policy_sample))" "ap_lineage lineage_policy_sample \<noteq> []"
    by (simp_all add: sample_selector_def lineage_policy_sample_def)
  show ?thesis
    using selected_evidence_resolves [OF sample_start_ok p sample_lineage_selected sample_events_ok, of sample_namer] by blast
qed

section \<open>The reconstruction\<close>

text \<open>C21: the walk from a process to its ancestors ends for every batch, cyclic ones included: the
  lineage ends in the terminal process, follows parent edges, names no process GUID twice and is
  therefore no longer than the batch with the two given Events; a complete one starts at the anchor.\<close>

theorem reconstruction_terminates:
  assumes "reconstruct_process_lineage events anchor terminal = c"
  shows "lco_events c \<noteq> [] \<and> last (lco_events c) = terminal
    \<and> successively (\<lambda>parent child. is_parent_edge child parent) (lco_events c)
    \<and> distinct (map process_guid (lco_events c)) \<and> length (lco_events c) \<le> length events + 2
    \<and> (lco_status c = LineageComplete \<longrightarrow> process_guid (hd (lco_events c)) = process_guid anchor)"
  using reconstruction_facts [of events anchor terminal] assms by simp

theorem reconstruction_terminates_witness:
  "let a = lineage_sample_event ''A'' 0 ''process_create'' ''g1'' (Some ''g2'') ''a'';
       b = lineage_sample_event ''B'' 0 ''process_create'' ''g2'' (Some ''g1'') ''b'';
       x = lineage_sample_event ''X'' 0 ''process_create'' ''g9'' None ''x'';
       c = reconstruct_process_lineage [a, b] x b
   in lco_status c = LineageCyclic \<and> lco_events c = [a, b] \<and> length (lco_events c) \<le> 4"
proof -
  let ?a = "lineage_sample_event ''A'' 0 ''process_create'' ''g1'' (Some ''g2'') ''a''"
  let ?b = "lineage_sample_event ''B'' 0 ''process_create'' ''g2'' (Some ''g1'') ''b''"
  let ?x = "lineage_sample_event ''X'' 0 ''process_create'' ''g9'' None ''x''"
  have "reconstruct_process_lineage [?a, ?b] ?x ?b = \<lparr>lco_status = LineageCyclic, lco_events = [?a, ?b], lco_failure = None,
      lco_missing_parent = None, lco_duplicate = None\<rparr>"
    by (simp add: reconstruct_process_lineage_def index_process_events_def is_eligible_process_event_def lineage_sample_event_def
        sample_kinds reconstruct_loop.simps events_for_def is_parent_edge_def)
  with reconstruction_terminates [OF this] show ?thesis by simp
qed

end
