(* ===== verification/CandidateSeal.thy ===== *)
theory CandidateSeal
  imports StreamIngress LineageSelector
begin

text \<open>
  The seal of candidate generation (\<open>collection/r1_candidate_generation_seal.py\<close>): the registered
  policies, what the scenario attests about the end of its actions, the seal that binds that
  attestation to an accepted close of the run, and the boundary a verified seal gives.
  Reading the YAML registry and the seal files is not part of the model; the canonical path and the
  digest of a policy are computed from a parameter.
\<close>

section \<open>Values\<close>

definition validate_unpadded_value :: "string \<Rightarrow> unit result" where
  "validate_unpadded_value s = raise_if (\<not> unpadded s \<or> s = []) (ValueError ''must be non-blank without surrounding whitespace'')"

lemma validate_unpadded_value_ok [simp]: "validate_unpadded_value s = Inr u \<longleftrightarrow> s \<noteq> [] \<and> unpadded s"
  by (cases u) (auto simp: validate_unpadded_value_def)

text \<open>A \<open>StrictStr\<close> with a minimal length of one and the unpadded check.\<close>

definition validate_seal_text :: "string \<Rightarrow> unit result" where
  "validate_seal_text s = seq (min_length s) (validate_unpadded_value s)"

lemma validate_seal_text_ok [simp]: "validate_seal_text s = Inr u \<longleftrightarrow> s \<noteq> [] \<and> unpadded s"
  by (cases u) (auto simp: validate_seal_text_def min_length_def)

definition validate_utc_milliseconds :: "string \<Rightarrow> datetime \<Rightarrow> datetime result" where
  "validate_utc_milliseconds field t = seq (require_utc field t)
     (seq (raise_if (microsecond t mod 1000 \<noteq> 0) (ValueError (field @ '' must use millisecond precision'')))
     (Inr (astimezone_utc t)))"

lemma validate_utc_milliseconds_ok [simp]:
  "validate_utc_milliseconds field t = Inr t' \<longleftrightarrow> t' = t \<and> is_utc t \<and> ms_aligned t"
  by (auto simp: validate_utc_milliseconds_def ms_aligned_def)

text \<open>\<open>value.replace("\", "/").rsplit("/", 1)[-1].casefold()\<close>\<close>

definition image_basename :: "string \<Rightarrow> string" where
  "image_basename s = str_casefold (rev (takeWhile (\<lambda>c. c \<noteq> CHR ''/'') (rev (map (\<lambda>c. if c = CHR 0x5C then CHR ''/'' else c) s))))"

section \<open>Policies\<close>

record boundary_action =
  ba_action_id :: string
  ba_step :: string
  ba_type :: string

definition validate_boundary_action :: "boundary_action \<Rightarrow> unit result" where
  "validate_boundary_action a = check_each validate_seal_text [ba_action_id a, ba_step a, ba_type a]"

record owned_process =
  op_role :: string
  op_image :: string

definition validate_owned_process :: "owned_process \<Rightarrow> unit result" where
  "validate_owned_process p = check_each validate_seal_text [op_role p, op_image p]"

text \<open>\<open>_CandidateGenerationPolicyConfig\<close>; \<open>forbid_all_actions_after_boundary\<close> can only be true.\<close>

record candidate_config =
  cc_policy_id :: string
  cc_version :: string
  cc_family_id :: string
  cc_normal_boundary :: boundary_action
  cc_attack_boundary :: boundary_action
  cc_normal_processes :: "owned_process list"
  cc_attack_processes :: "owned_process list"
  cc_terminal_states :: "string list"
  cc_protected_names :: "string list"

definition validate_unique_strings :: "string list \<Rightarrow> unit result" where
  "validate_unique_strings vs = seq (check_each validate_unpadded_value vs)
     (raise_if (has_duplicates vs) (ValueError ''candidate-generation policy lists must not contain duplicates''))"

definition validate_owned_processes :: "owned_process list \<Rightarrow> unit result" where
  "validate_owned_processes ps = seq (check_each validate_owned_process ps)
     (raise_first
       [(ps = [], ValueError ''too_short''),
        (has_duplicates (map op_role ps), ValueError ''owned process policies must not contain duplicate roles''),
        (has_duplicates (map (\<lambda>p. image_basename (op_image p)) ps),
           ValueError ''owned process policies must not contain duplicate images'')])"

definition validate_candidate_config :: "candidate_config \<Rightarrow> candidate_config result" where
  "validate_candidate_config c =
     seq (check_each validate_seal_text [cc_policy_id c, cc_version c])
     (seq (seq (min_length (cc_family_id c)) (validate_pair_identifier (cc_family_id c)))
     (seq (check_each validate_boundary_action [cc_normal_boundary c, cc_attack_boundary c])
     (seq (check_each validate_owned_processes [cc_normal_processes c, cc_attack_processes c])
     (seq (raise_if (cc_terminal_states c = []) (ValueError ''too_short''))
     (seq (check_each validate_unique_strings [cc_terminal_states c, cc_protected_names c]) (Inr c))))))"

record candidate_policy =
  cnp_config_path :: string
  cnp_canonical_path :: string
  cnp_config_hash :: string
  cnp_policy_id :: string
  cnp_version :: string
  cnp_family_id :: string
  cnp_normal_boundary :: boundary_action
  cnp_attack_boundary :: boundary_action
  cnp_normal_processes :: "owned_process list"
  cnp_attack_processes :: "owned_process list"
  cnp_terminal_states :: "string list"
  cnp_forbid_actions :: bool
  cnp_protected_names :: "string list"

text \<open>Where a registry lies: its resolved path and, inside the repository, its path relative to it.\<close>

record registry_location =
  rl_resolved :: string
  rl_relative :: "string option"

definition canonical_config_path :: "(candidate_config \<Rightarrow> string) \<Rightarrow> registry_location \<Rightarrow> candidate_config \<Rightarrow> string" where
  "canonical_config_path sha loc c = (case rl_relative loc of
     Some p \<Rightarrow> p
   | None \<Rightarrow> ''external-policy:'' @ cc_policy_id c @ ''/'' @ cc_version c @ ''@'' @ sha c)"

definition build_policy :: "(candidate_config \<Rightarrow> string) \<Rightarrow> registry_location \<Rightarrow> candidate_config \<Rightarrow> candidate_policy" where
  "build_policy sha loc c =
     \<lparr>cnp_config_path = rl_resolved loc, cnp_canonical_path = canonical_config_path sha loc c, cnp_config_hash = sha c,
      cnp_policy_id = cc_policy_id c, cnp_version = cc_version c, cnp_family_id = cc_family_id c,
      cnp_normal_boundary = cc_normal_boundary c, cnp_attack_boundary = cc_attack_boundary c,
      cnp_normal_processes = cc_normal_processes c, cnp_attack_processes = cc_attack_processes c,
      cnp_terminal_states = cc_terminal_states c, cnp_forbid_actions = True, cnp_protected_names = cc_protected_names c\<rparr>"

fun build_policies :: "(candidate_config \<Rightarrow> string) \<Rightarrow> registry_location \<Rightarrow> (string \<times> string) set \<Rightarrow> candidate_config list
    \<Rightarrow> candidate_policy list result" where
  "build_policies sha loc seen [] = Inr []"
| "build_policies sha loc seen (c # cs) =
     seq (raise_if ((cc_policy_id c, cc_version c) \<in> seen) (ValueError ''candidate-generation policy identities must be unique''))
     (bnd (build_policies sha loc (insert (cc_policy_id c, cc_version c) seen) cs) (\<lambda>ps. Inr (build_policy sha loc c # ps)))"

definition load_candidate_policies :: "(candidate_config \<Rightarrow> string) \<Rightarrow> registry_location \<Rightarrow> candidate_config list
    \<Rightarrow> candidate_policy list result" where
  "load_candidate_policies sha loc registry =
     seq (raise_if (registry = []) (ValueError ''R1 candidate-generation policy config does not match v0.1''))
     (bnd (map_result validate_candidate_config registry) (build_policies sha loc {}))"

definition load_candidate_policy :: "(candidate_config \<Rightarrow> string) \<Rightarrow> registry_location \<Rightarrow> candidate_config list \<Rightarrow> string \<Rightarrow> string
    \<Rightarrow> candidate_policy result" where
  "load_candidate_policy sha loc registry policy_id version =
     seq (check_each validate_unpadded_value [policy_id, version])
     (bnd (load_candidate_policies sha loc registry) (\<lambda>ps.
      case find (\<lambda>p. cnp_policy_id p = policy_id \<and> cnp_version p = version) ps of
        None \<Rightarrow> Inl (ValueError ''R1 candidate-generation policy was not found'')
      | Some p \<Rightarrow> Inr p))"

section \<open>What the scenario attests\<close>

record scenario_action = boundary_action +
  sa_offset :: int

definition validate_scenario_action :: "scenario_action \<Rightarrow> scenario_action result" where
  "validate_scenario_action a = seq (check_each validate_seal_text [ba_action_id a, ba_step a, ba_type a])
     (seq (raise_if (sa_offset a < 0) (ValueError ''offset_sec'')) (Inr a))"

record process_termination =
  pt_role :: string
  pt_image :: string
  pt_process_guid :: string
  pt_terminal_state :: string

definition validate_process_termination :: "process_termination \<Rightarrow> unit result" where
  "validate_process_termination p = check_each validate_seal_text [pt_role p, pt_image p, pt_process_guid p, pt_terminal_state p]"

record boundary_attestation = boundary_action +
  bat_completed_at :: datetime
  bat_processes :: "process_termination list"

definition validate_owned_process_identity :: "boundary_attestation \<Rightarrow> unit result" where
  "validate_owned_process_identity b = raise_first
     [(has_duplicates (map pt_role (bat_processes b)), ValueError ''owned_processes must not contain duplicate roles''),
      (has_duplicates (map (\<lambda>p. str_casefold (pt_process_guid p)) (bat_processes b)),
         ValueError ''owned_processes must not contain duplicate ProcessGuid values'')]"

definition validate_attestation :: "boundary_attestation \<Rightarrow> boundary_attestation result" where
  "validate_attestation b = seq (check_each validate_seal_text [ba_action_id b, ba_step b, ba_type b])
     (bnd (validate_utc_milliseconds ''boundary completed_at'' (bat_completed_at b)) (\<lambda>t.
     seq (raise_if (bat_processes b = []) (ValueError ''owned_processes''))
     (seq (check_each validate_process_termination (bat_processes b))
     (seq (validate_owned_process_identity b) (Inr b)))))"

datatype completion_source = WmiRunEnd | RemoteSessionClose

record boundary_completion = boundary_action +
  bcm_run_id :: string
  bcm_started_at :: datetime
  bcm_completed_at :: datetime
  bcm_source :: completion_source

definition validate_completion :: "boundary_completion \<Rightarrow> boundary_completion result" where
  "validate_completion b = seq (check_each validate_seal_text [bcm_run_id b, ba_action_id b, ba_step b, ba_type b])
     (bnd (validate_utc_milliseconds ''boundary completion timestamp'' (bcm_started_at b)) (\<lambda>s.
     bnd (validate_utc_milliseconds ''boundary completion timestamp'' (bcm_completed_at b)) (\<lambda>t.
     seq (raise_if (instant (bcm_completed_at b) < instant (bcm_started_at b))
       (ValueError ''boundary completion cannot precede its action start'')) (Inr b))))"

text \<open>A row of the execution record (\<open>common/models/execution_record.py\<close>).\<close>

record execution_row =
  xr_run_id :: string
  xr_action_id :: string
  xr_timestamp :: datetime
  xr_type :: string
  xr_description :: string

definition validate_execution_row :: "execution_row \<Rightarrow> execution_row result" where
  "validate_execution_row r = seq (check_each validate_required_identifier [xr_run_id r, xr_action_id r, xr_type r])
     (seq (validate_run_id (xr_run_id r))
     (seq (require_utc ''datetime'' (xr_timestamp r))
     (seq (raise_if (blank (xr_description r)) (ValueError ''description must not be blank'')) (Inr r))))"

section \<open>The seal\<close>

record policy_identity =
  pi_policy_id :: string
  pi_version :: string
  pi_config_hash :: string
  pi_config_path :: string

definition validate_policy_identity :: "policy_identity \<Rightarrow> unit result" where
  "validate_policy_identity p = seq (check_each validate_seal_text [pi_policy_id p, pi_version p])
     (seq (validate_sha256 (pi_config_hash p)) (validate_seal_text (pi_config_path p)))"

definition identity_of_policy :: "candidate_policy \<Rightarrow> policy_identity" where
  "identity_of_policy p = \<lparr>pi_policy_id = cnp_policy_id p, pi_version = cnp_version p, pi_config_hash = cnp_config_hash p,
     pi_config_path = cnp_canonical_path p\<rparr>"

record candidate_seal =
  sl_seal_id :: string
  sl_run_id :: string
  sl_family_id :: string
  sl_run_type :: run_type
  sl_close_id :: string
  sl_partitions :: "final_watermark list"
  sl_policy :: policy_identity
  sl_boundary :: boundary_attestation
  sl_emitted_at :: datetime

definition validate_seal_scope :: "candidate_seal \<Rightarrow> unit result" where
  "validate_seal_scope s = raise_first
     [(has_duplicates (map fw_partition (sl_partitions s)), ValueError ''sealed_partitions must not contain duplicate partitions''),
      (\<exists>w \<in> set (sl_partitions s). pt_run_id (fw_partition w) \<noteq> sl_run_id s,
         ValueError ''every sealed partition run_id must match seal run_id''),
      (instant (sl_emitted_at s) < instant (bat_completed_at (sl_boundary s)),
         ValueError ''seal emitted_at must not precede boundary completion'')]"

definition validate_seal :: "candidate_seal \<Rightarrow> candidate_seal result" where
  "validate_seal s = seq (check_each validate_seal_text [sl_seal_id s, sl_close_id s])
     (seq (validate_stream_run_id (sl_run_id s))
     (seq (seq (min_length (sl_family_id s)) (validate_pair_identifier (sl_family_id s)))
     (seq (raise_if (sl_partitions s = []) (ValueError ''sealed_partitions''))
     (bnd (map_result validate_final_watermark (sl_partitions s)) (\<lambda>ws.
     seq (validate_policy_identity (sl_policy s))
     (bnd (validate_attestation (sl_boundary s)) (\<lambda>b.
     bnd (validate_utc_milliseconds ''seal emitted_at'' (sl_emitted_at s)) (\<lambda>t.
     seq (validate_seal_scope s) (Inr s)))))))))"

record verified_boundary =
  vb_run_id :: string
  vb_seal_id :: string
  vb_close_id :: string
  vb_boundary_at :: datetime
  vb_seal_at :: datetime

definition validate_verified_boundary :: "verified_boundary \<Rightarrow> verified_boundary result" where
  "validate_verified_boundary b = seq (check_each validate_seal_text [vb_run_id b, vb_seal_id b, vb_close_id b])
     (bnd (validate_utc_milliseconds ''verified boundary timestamp'' (vb_boundary_at b)) (\<lambda>s.
     bnd (validate_utc_milliseconds ''verified boundary timestamp'' (vb_seal_at b)) (\<lambda>t. Inr b)))"

definition validate_run_binding :: "run_metadata \<Rightarrow> run_closed \<Rightarrow> candidate_policy \<Rightarrow> unit result" where
  "validate_run_binding run rc policy = raise_first
     [(rm_run_id run \<noteq> cl_run_id rc, ValueError ''RunMetadata run_id does not match run_closed''),
      (rm_family_id run \<noteq> Some (cnp_family_id policy), ValueError ''RunMetadata family_id does not match candidate-generation policy'')]"

definition validate_scenario_boundary :: "scenario_action list \<Rightarrow> boundary_action \<Rightarrow> unit result" where
  "validate_scenario_boundary actions expected = raise_first
     [(actions = [], ValueError ''scenario actions must not be empty''),
      (has_duplicates (map ba_action_id actions), ValueError ''scenario action IDs must be unique''),
      (map sa_offset actions \<noteq> sort (map sa_offset actions), ValueError ''scenario actions must be ordered by non-decreasing offset''),
      ((ba_action_id (last actions), ba_step (last actions), ba_type (last actions))
         \<noteq> (ba_action_id expected, ba_step expected, ba_type expected),
         ValueError ''candidate-generation boundary must be the final scenario action'')]"

text \<open>Equality of two dictionaries built from item lists, where the last item of a key wins.\<close>

definition same_dict :: "('k \<times> 'v) list \<Rightarrow> ('k \<times> 'v) list \<Rightarrow> bool" where
  "same_dict xs ys \<longleftrightarrow> (\<forall>k \<in> set (map fst (xs @ ys)). map_of (rev xs) k = map_of (rev ys) k)"

lemma same_dict_iff: "same_dict xs ys \<longleftrightarrow> map_of (rev xs) = map_of (rev ys)"
proof
  assume same: "same_dict xs ys"
  show "map_of (rev xs) = map_of (rev ys)"
  proof
    fix k
    show "map_of (rev xs) k = map_of (rev ys) k"
    proof (cases "k \<in> set (map fst (xs @ ys))")
      case True
      with same show ?thesis by (simp only: same_dict_def)
    next
      case False
      then have "map_of (rev xs) k = None" "map_of (rev ys) k = None" by (simp_all add: map_of_eq_None_iff image_iff)
      then show ?thesis by simp
    qed
  qed
qed (simp add: same_dict_def)

definition validate_boundary_attestation :: "boundary_attestation \<Rightarrow> boundary_action \<Rightarrow> owned_process list \<Rightarrow> candidate_policy \<Rightarrow> unit result" where
  "validate_boundary_attestation b expected processes policy = raise_first
     [((ba_action_id b, ba_step b, ba_type b) \<noteq> (ba_action_id expected, ba_step expected, ba_type expected),
         ValueError ''boundary attestation does not match family policy''),
      (\<exists>p \<in> set (bat_processes b). image_basename (pt_image p) \<in> str_casefold ` set (cnp_protected_names policy),
         ValueError ''protected non-owned process must not be claimed or terminated by the Run''),
      (\<not> same_dict (map (\<lambda>p. (pt_role p, image_basename (pt_image p))) (bat_processes b))
           (map (\<lambda>p. (op_role p, image_basename (op_image p))) processes),
         ValueError ''boundary attestation does not match the expected run-owned processes''),
      (\<exists>p \<in> set (bat_processes b). pt_terminal_state p \<notin> set (cnp_terminal_states policy),
         ValueError ''run-owned process is not in an accepted terminal state'')]"

definition validate_boundary_within_run :: "boundary_attestation \<Rightarrow> run_metadata \<Rightarrow> unit result" where
  "validate_boundary_within_run b run = raise_first
     [(instant (bat_completed_at b) < instant (rm_start_time run), ValueError ''candidate-generation boundary precedes RunMetadata.start_time''),
      (is_some_and (rm_end_time run) (\<lambda>t. instant t < instant (bat_completed_at b)),
         ValueError ''candidate-generation boundary exceeds RunMetadata.end_time'')]"

definition validate_boundary_action_completion :: "boundary_attestation \<Rightarrow> scenario_action \<Rightarrow> execution_row \<Rightarrow> boundary_completion
    \<Rightarrow> run_metadata \<Rightarrow> unit result" where
  "validate_boundary_action_completion b action row completion run = raise_first
     [(xr_run_id row \<noteq> rm_run_id run, ValueError ''boundary action record run_id does not match RunMetadata''),
      ((xr_action_id row, xr_type row) \<noteq> (ba_action_id action, ba_type action),
         ValueError ''boundary action record does not match the final scenario action''),
      (bcm_run_id completion \<noteq> rm_run_id run, ValueError ''boundary completion run_id does not match RunMetadata''),
      ((ba_action_id completion, ba_step completion, ba_type completion) \<noteq> (ba_action_id action, ba_step action, ba_type action),
         ValueError ''boundary completion does not match the final scenario action''),
      (bcm_source completion \<noteq> (if rm_family_id run = Some ''wmi_management'' then WmiRunEnd else RemoteSessionClose),
         ValueError ''boundary completion source does not match the scenario family''),
      (instant (xr_timestamp row) \<noteq> instant (bcm_started_at completion),
         ValueError ''boundary action record does not match the actual action start''),
      (instant (bat_completed_at b) \<noteq> instant (bcm_completed_at completion),
         ValueError ''boundary completed_at does not match the actual completion proof''),
      (instant (xr_timestamp row) < instant (add_delta (rm_start_time run) (sa_offset action * 1000000)),
         ValueError ''candidate-generation boundary action precedes its planned action offset'')]"

definition expected_boundary :: "run_type \<Rightarrow> candidate_policy \<Rightarrow> boundary_action" where
  "expected_boundary rt policy = (case rt of AttackRun \<Rightarrow> cnp_attack_boundary policy | NormalRun \<Rightarrow> cnp_normal_boundary policy)"

definition expected_processes :: "run_type \<Rightarrow> candidate_policy \<Rightarrow> owned_process list" where
  "expected_processes rt policy = (case rt of AttackRun \<Rightarrow> cnp_attack_processes policy | NormalRun \<Rightarrow> cnp_normal_processes policy)"

definition validate_seal_binding :: "candidate_seal \<Rightarrow> run_metadata \<Rightarrow> run_closed \<Rightarrow> scenario_action list \<Rightarrow> execution_row
    \<Rightarrow> boundary_completion \<Rightarrow> candidate_policy \<Rightarrow> verified_boundary result" where
  "validate_seal_binding s run rc actions row completion policy =
     seq (validate_run_binding run rc policy)
     (seq (raise_first
       [(sl_run_id s \<noteq> cl_run_id rc, ValueError ''seal run_id does not match run_closed''),
        (sl_run_type s \<noteq> rm_run_type run, ValueError ''seal run_type does not match RunMetadata''),
        (sl_close_id s \<noteq> cl_close_id rc, ValueError ''seal input_close_id does not match run_closed''),
        (sl_partitions s \<noteq> cl_finals rc, ValueError ''seal final watermark references do not exactly match run_closed''),
        (\<exists>w \<in> set (sl_partitions s). instant (fw_at w) < instant (bat_completed_at (sl_boundary s)),
           ValueError ''every final watermark must cover the candidate-generation boundary''),
        (sl_policy s \<noteq> identity_of_policy policy, ValueError ''seal candidate policy identity does not match registered policy''),
        (sl_family_id s \<noteq> cnp_family_id policy, ValueError ''seal family_id does not match candidate-generation policy'')])
     (seq (validate_scenario_boundary actions (expected_boundary (sl_run_type s) policy))
     (seq (validate_boundary_attestation (sl_boundary s) (expected_boundary (sl_run_type s) policy)
        (expected_processes (sl_run_type s) policy) policy)
     (seq (validate_boundary_action_completion (sl_boundary s) (last actions) row completion run)
     (seq (validate_boundary_within_run (sl_boundary s) run)
     (seq (raise_if (instant (sl_emitted_at s) < instant (cl_emitted_at rc)) (ValueError ''seal emitted_at must not precede run_closed''))
     (validate_verified_boundary \<lparr>vb_run_id = sl_run_id s, vb_seal_id = sl_seal_id s, vb_close_id = sl_close_id s,
        vb_boundary_at = bat_completed_at (sl_boundary s), vb_seal_at = sl_emitted_at s\<rparr>)))))))"

definition issue_seal :: "string \<Rightarrow> run_metadata \<Rightarrow> run_closed \<Rightarrow> scenario_action list \<Rightarrow> boundary_attestation \<Rightarrow> execution_row
    \<Rightarrow> boundary_completion \<Rightarrow> candidate_policy \<Rightarrow> datetime \<Rightarrow> candidate_seal result" where
  "issue_seal seal_id run rc actions boundary row completion policy emitted_at =
     seq (validate_run_binding run rc policy)
     (seq (validate_scenario_boundary actions (expected_boundary (rm_run_type run) policy))
     (seq (validate_boundary_attestation boundary (expected_boundary (rm_run_type run) policy)
        (expected_processes (rm_run_type run) policy) policy)
     (seq (validate_boundary_action_completion boundary (last actions) row completion run)
     (bnd (validate_utc_milliseconds ''seal emitted_at'' emitted_at) (\<lambda>emitted.
     seq (raise_if (instant emitted < instant (cl_emitted_at rc)) (ValueError ''seal cannot be emitted before the accepted run_closed''))
     (bnd (validate_seal \<lparr>sl_seal_id = seal_id, sl_run_id = rm_run_id run, sl_family_id = cnp_family_id policy,
        sl_run_type = rm_run_type run, sl_close_id = cl_close_id rc, sl_partitions = cl_finals rc,
        sl_policy = identity_of_policy policy, sl_boundary = boundary, sl_emitted_at = emitted\<rparr>) (\<lambda>s.
     bnd (validate_seal_binding s run rc actions row completion policy) (\<lambda>b. Inr s))))))))"

section \<open>Which close a run uses\<close>

datatype close_resolution_mode = VerifiedSeal | AuthoritativeRunEndFallback

record close_resolution =
  clr_mode :: close_resolution_mode
  clr_boundary_at :: datetime
  clr_seal_at :: "datetime option"
  clr_diagnostics :: "string list"
  clr_boundary :: "verified_boundary option"

definition resolve_candidate_close :: "datetime option \<Rightarrow> verified_boundary option \<Rightarrow> string list \<Rightarrow> close_resolution result" where
  "resolve_candidate_close run_end boundary diagnostics = (case boundary of
     Some b \<Rightarrow> Inr \<lparr>clr_mode = VerifiedSeal, clr_boundary_at = vb_boundary_at b, clr_seal_at = Some (vb_seal_at b),
       clr_diagnostics = [], clr_boundary = Some b\<rparr>
   | None \<Rightarrow> (case run_end of
       None \<Rightarrow> Inl (ValueError ''authoritative RunMetadata.end_time is required when verified seal close is unavailable'')
     | Some t \<Rightarrow> bnd (validate_utc_milliseconds ''authoritative RunMetadata.end_time'' t) (\<lambda>t.
         Inr \<lparr>clr_mode = AuthoritativeRunEndFallback, clr_boundary_at = t, clr_seal_at = None,
           clr_diagnostics = (if diagnostics = [] then [''verified candidate-generation boundary is absent''] else diagnostics),
           clr_boundary = None\<rparr>)))"

definition validate_seal_replay :: "(candidate_seal \<Rightarrow> string) \<Rightarrow> candidate_seal \<Rightarrow> candidate_seal \<Rightarrow> unit result" where
  "validate_seal_replay sha existing incoming = raise_first
     [(sl_run_id existing \<noteq> sl_run_id incoming \<or> sl_seal_id existing \<noteq> sl_seal_id incoming,
         ValueError ''candidate-generation seal replay identity does not match''),
      (sha existing \<noteq> sha incoming, ValueError ''candidate-generation seal identity was reused with different content'')]"

end
