(* ===== verification/CloseProof.thy ===== *)
theory CloseProof
  imports CandidateSeal
begin

text \<open>
  The close proof (\<open>collection/r1_role2_verified_close_proof.py\<close>): it carries what a verified seal
  says about the end of candidate generation to the side that extracts the Evidence, which may not
  see the seal. Its digests of canonical JSON are parameters; that the payload built for issuing and
  the dump of the model serialize alike, as the code says of its datetimes, is part of reading both
  as functions of the same fields. Reading and writing proof files is not part of the model.
\<close>

section \<open>The proof\<close>

record close_proof =
  pf_proof_id :: string
  pf_run_id :: string
  pf_host_id :: string
  pf_family_id :: string
  pf_policy :: policy_identity
  pf_seal_id :: string
  pf_projection_sha :: string
  pf_close_id :: string
  pf_closed_sha :: string
  pf_close_emitted_at :: datetime
  pf_boundary_at :: datetime
  pf_partitions :: "final_watermark list"
  pf_seal_at :: datetime
  pf_created_at :: datetime
  pf_sha :: string

text \<open>The fields of a seal that may be shown.\<close>

record seal_projection =
  sp_seal_id :: string
  sp_run_id :: string
  sp_host_id :: string
  sp_family_id :: string
  sp_policy :: policy_identity
  sp_close_id :: string
  sp_boundary_at :: datetime
  sp_partitions :: "final_watermark list"
  sp_seal_at :: datetime

record proof_digests =
  pd_content :: "close_proof \<Rightarrow> string"
  pd_whole :: "close_proof \<Rightarrow> string"
  pd_projection :: "seal_projection \<Rightarrow> string"

text \<open>The content digest leaves the field that holds it out.\<close>

definition proof_content_sha :: "proof_digests \<Rightarrow> close_proof \<Rightarrow> string" where
  "proof_content_sha pd p = pd_content pd (p\<lparr>pf_sha := []\<rparr>)"

definition require_proof_content_hash :: "proof_digests \<Rightarrow> close_proof \<Rightarrow> unit result" where
  "require_proof_content_hash pd p = raise_if (pf_sha p \<noteq> proof_content_sha pd p)
     (ValueError ''proof_content_sha256 does not match canonical proof content'')"

definition validate_proof_unpadded :: "string \<Rightarrow> unit result" where
  "validate_proof_unpadded s = raise_if (blank s \<or> \<not> unpadded s) (ValueError ''must be non-blank and unpadded'')"

lemma validate_proof_unpadded_ok [simp]: "validate_proof_unpadded s = Inr u \<longleftrightarrow> s \<noteq> [] \<and> unpadded s"
  by (cases u) (auto simp: validate_proof_unpadded_def unpadded_nonempty_not_blank)

definition validate_proof_sha :: "string \<Rightarrow> unit result" where
  "validate_proof_sha s = raise_if (length s \<noteq> 64 \<or> \<not> list_all is_hex s) (ValueError ''must be a lowercase SHA-256'')"

lemma validate_proof_sha_ok [simp]: "validate_proof_sha s = Inr u \<longleftrightarrow> sha256_ok s"
  by (cases u) (auto simp: validate_proof_sha_def sha256_ok_def)

definition validate_scope_and_hash :: "proof_digests \<Rightarrow> close_proof \<Rightarrow> unit result" where
  "validate_scope_and_hash pd p = seq (raise_first
     [(has_duplicates (map fw_partition (pf_partitions p)), ValueError ''sealed_partitions must not contain duplicate partitions''),
      (\<exists>w \<in> set (pf_partitions p). pt_run_id (fw_partition w) \<noteq> pf_run_id p,
         ValueError ''every sealed partition run_id must match proof run_id''),
      (\<not> (\<exists>w \<in> set (pf_partitions p). pt_host_id (fw_partition w) = pf_host_id p),
         ValueError ''proof host_id must be present in sealed_partitions''),
      (\<exists>w \<in> set (pf_partitions p). instant (fw_at w) < instant (pf_boundary_at p),
         ValueError ''every final watermark must cover the candidate boundary''),
      (instant (pf_seal_at p) < instant (pf_close_emitted_at p), ValueError ''verified_seal_at must not precede input_close_emitted_at''),
      (instant (pf_created_at p) < instant (pf_seal_at p), ValueError ''proof_created_at must not precede verified_seal_at'')])
     (require_proof_content_hash pd p)"

definition validate_close_proof :: "proof_digests \<Rightarrow> close_proof \<Rightarrow> close_proof result" where
  "validate_close_proof pd p =
     seq (check_each (\<lambda>s. seq (min_length s) (validate_proof_unpadded s)) [pf_proof_id p, pf_host_id p, pf_seal_id p, pf_close_id p])
     (seq (validate_stream_run_id (pf_run_id p))
     (seq (seq (min_length (pf_family_id p)) (validate_pair_identifier (pf_family_id p)))
     (seq (validate_policy_identity (pf_policy p))
     (seq (check_each validate_sha256 [pf_projection_sha p, pf_closed_sha p, pf_sha p])
     (seq (check_each (\<lambda>t. bnd (validate_utc_milliseconds ''verified close proof timestamp'' t) (\<lambda>t. Inr ()))
        [pf_close_emitted_at p, pf_boundary_at p, pf_seal_at p, pf_created_at p])
     (seq (raise_if (pf_partitions p = []) (ValueError ''sealed_partitions''))
     (bnd (map_result validate_final_watermark (pf_partitions p)) (\<lambda>ws.
     seq (validate_scope_and_hash pd p) (Inr p)))))))))"

section \<open>Issuing\<close>

definition validate_accepted_close_receipt :: "stream_digests \<Rightarrow> close_receipt \<Rightarrow> run_closed \<Rightarrow> unit result" where
  "validate_accepted_close_receipt sd r rc =
     seq (validate_required_identifier (ct_run_id r))
     (seq (validate_run_id (ct_run_id r))
     (seq (validate_proof_unpadded (ct_close_id r))
     (seq (validate_proof_sha (ct_sha r))
     (raise_first
       [(ct_run_id r \<noteq> cl_run_id rc, ValueError ''accepted close receipt run_id does not match accepted run_closed''),
        (ct_close_id r \<noteq> cl_close_id rc, ValueError ''accepted close receipt close_id does not match accepted run_closed''),
        (ct_sha r \<noteq> sd_closed sd rc, ValueError ''accepted close receipt content hash does not match accepted run_closed'')]))))"

definition validate_source_binding :: "verified_boundary \<Rightarrow> candidate_seal \<Rightarrow> run_closed \<Rightarrow> candidate_policy \<Rightarrow> string \<Rightarrow> unit result" where
  "validate_source_binding b s rc policy host_id = raise_first
     [((vb_run_id b, vb_seal_id b, vb_close_id b, instant (vb_boundary_at b), instant (vb_seal_at b))
         \<noteq> (sl_run_id s, sl_seal_id s, sl_close_id s, instant (bat_completed_at (sl_boundary s)), instant (sl_emitted_at s)),
         ValueError ''verified boundary does not exactly match source seal''),
      (sl_run_id s \<noteq> cl_run_id rc, ValueError ''source seal run_id does not match accepted run_closed''),
      (sl_close_id s \<noteq> cl_close_id rc, ValueError ''source seal input_close_id does not match accepted run_closed''),
      (sl_partitions s \<noteq> cl_finals rc, ValueError ''source seal partitions do not exactly match accepted run_closed''),
      (sl_family_id s \<noteq> cnp_family_id policy, ValueError ''source seal family_id does not match candidate policy''),
      (sl_policy s \<noteq> identity_of_policy policy, ValueError ''source seal candidate policy does not match registered policy''),
      (\<not> (\<exists>w \<in> set (sl_partitions s). pt_host_id (fw_partition w) = host_id), ValueError ''host_id is absent from source seal partitions''),
      (\<exists>w \<in> set (sl_partitions s). instant (fw_at w) < instant (vb_boundary_at b),
         ValueError ''source seal final watermark does not cover candidate boundary''),
      (instant (vb_seal_at b) < instant (cl_emitted_at rc), ValueError ''verified boundary precedes accepted run_closed'')]"

definition seal_projection_of :: "candidate_seal \<Rightarrow> string \<Rightarrow> seal_projection" where
  "seal_projection_of s host_id = \<lparr>sp_seal_id = sl_seal_id s, sp_run_id = sl_run_id s, sp_host_id = host_id,
     sp_family_id = sl_family_id s, sp_policy = sl_policy s, sp_close_id = sl_close_id s,
     sp_boundary_at = bat_completed_at (sl_boundary s), sp_partitions = sl_partitions s, sp_seal_at = sl_emitted_at s\<rparr>"

definition seal_projection_sha :: "proof_digests \<Rightarrow> candidate_seal \<Rightarrow> string \<Rightarrow> string result" where
  "seal_projection_sha pd s host_id = seq (validate_proof_unpadded host_id)
     (seq (raise_if (\<not> (\<exists>w \<in> set (sl_partitions s). pt_host_id (fw_partition w) = host_id))
        (ValueError ''host_id is absent from source seal partitions''))
     (Inr (pd_projection pd (seal_projection_of s host_id))))"

definition issue_close_proof :: "proof_digests \<Rightarrow> stream_digests \<Rightarrow> string \<Rightarrow> string \<Rightarrow> verified_boundary \<Rightarrow> candidate_seal
    \<Rightarrow> run_closed \<Rightarrow> close_receipt \<Rightarrow> candidate_policy \<Rightarrow> datetime \<Rightarrow> close_proof result" where
  "issue_close_proof pd sd proof_id host_id b s rc receipt policy created_at =
     seq (validate_proof_unpadded host_id)
     (seq (validate_accepted_close_receipt sd receipt rc)
     (seq (validate_source_binding b s rc policy host_id)
     (bnd (validate_utc_milliseconds ''proof_created_at'' created_at) (\<lambda>created.
     bnd (seal_projection_sha pd s host_id) (\<lambda>projection.
     (let p = \<lparr>pf_proof_id = proof_id, pf_run_id = sl_run_id s, pf_host_id = host_id, pf_family_id = sl_family_id s,
         pf_policy = sl_policy s, pf_seal_id = sl_seal_id s, pf_projection_sha = projection, pf_close_id = cl_close_id rc,
         pf_closed_sha = sd_closed sd rc, pf_close_emitted_at = cl_emitted_at rc, pf_boundary_at = vb_boundary_at b,
         pf_partitions = cl_finals rc, pf_seal_at = vb_seal_at b, pf_created_at = created, pf_sha = []\<rparr>
      in validate_close_proof pd (p\<lparr>pf_sha := proof_content_sha pd p\<rparr>)))))))"

section \<open>Validating\<close>

record proof_validation =
  pv_proof :: close_proof
  pv_validated_at :: datetime

definition proof_projection :: "close_proof \<Rightarrow> seal_projection" where
  "proof_projection p = \<lparr>sp_seal_id = pf_seal_id p, sp_run_id = pf_run_id p, sp_host_id = pf_host_id p,
     sp_family_id = pf_family_id p, sp_policy = pf_policy p, sp_close_id = pf_close_id p,
     sp_boundary_at = pf_boundary_at p, sp_partitions = pf_partitions p, sp_seal_at = pf_seal_at p\<rparr>"

text \<open>What the validating side expects of a proof.\<close>

record proof_expectation =
  ex_run_id :: string
  ex_family_id :: string
  ex_partition :: stream_partition
  ex_seal_id :: string
  ex_projection_sha :: string

definition validate_proof :: "proof_digests \<Rightarrow> stream_digests \<Rightarrow> close_proof \<Rightarrow> run_closed \<Rightarrow> close_receipt \<Rightarrow> candidate_policy
    \<Rightarrow> proof_expectation \<Rightarrow> datetime \<Rightarrow> proof_validation result" where
  "validate_proof pd sd p rc receipt policy ex at_time =
     seq (validate_accepted_close_receipt sd receipt rc)
     (seq (require_proof_content_hash pd p)
     (seq (validate_required_identifier (ex_run_id ex))
     (seq (validate_run_id (ex_run_id ex))
     (seq (validate_pair_identifier (ex_family_id ex))
     (seq (validate_proof_unpadded (ex_seal_id ex))
     (seq (validate_proof_sha (ex_projection_sha ex))
     (bnd (validate_utc_milliseconds ''proof_validated_at'' at_time) (\<lambda>validated_at.
     seq (raise_first
       [(pf_run_id p \<noteq> ex_run_id ex \<or> cl_run_id rc \<noteq> ex_run_id ex, ValueError ''proof and accepted run_closed must match expected_run_id''),
        (pt_run_id (ex_partition ex) \<noteq> ex_run_id ex, ValueError ''expected selector partition run_id must match expected_run_id''),
        (pf_host_id p \<noteq> pt_host_id (ex_partition ex), ValueError ''proof host_id does not match expected selector partition''),
        (pf_family_id p \<noteq> ex_family_id ex \<or> cnp_family_id policy \<noteq> ex_family_id ex,
           ValueError ''proof and candidate policy must match expected_family_id''),
        (pf_seal_id p \<noteq> ex_seal_id ex, ValueError ''proof source_seal_id does not match the accepted source seal''),
        (pf_projection_sha p \<noteq> ex_projection_sha ex, ValueError ''proof source seal projection digest does not match the accepted projection''),
        (pd_projection pd (proof_projection p) \<noteq> ex_projection_sha ex,
           ValueError ''proof fields do not match the trusted source seal projection digest''),
        (pf_close_id p \<noteq> cl_close_id rc, ValueError ''proof input_close_id does not match accepted run_closed''),
        (pf_closed_sha p \<noteq> sd_closed sd rc, ValueError ''proof run_closed content hash does not match accepted run_closed''),
        (instant (pf_close_emitted_at p) \<noteq> instant (cl_emitted_at rc), ValueError ''proof input close emission does not match accepted run_closed''),
        (pf_partitions p \<noteq> cl_finals rc, ValueError ''proof sealed_partitions do not exactly match accepted run_closed''),
        (ex_partition ex \<notin> set (map fw_partition (pf_partitions p)),
           ValueError ''expected selector partition is absent from proof sealed_partitions''),
        (pf_policy p \<noteq> identity_of_policy policy, ValueError ''proof candidate policy identity does not match registered policy''),
        (\<exists>w \<in> set (pf_partitions p). instant (fw_at w) < instant (pf_boundary_at p),
           ValueError ''proof final watermark does not cover candidate boundary''),
        (instant (pf_seal_at p) < instant (cl_emitted_at rc), ValueError ''proof verified_seal_at precedes accepted run_closed''),
        (instant validated_at < instant (pf_created_at p), ValueError ''proof_validated_at must not precede proof_created_at'')])
     (Inr \<lparr>pv_proof = p, pv_validated_at = validated_at\<rparr>)))))))))"

definition validate_proof_replay :: "proof_digests \<Rightarrow> close_proof \<Rightarrow> close_proof \<Rightarrow> unit result" where
  "validate_proof_replay pd existing incoming = raise_first
     [(pf_run_id existing \<noteq> pf_run_id incoming \<or> pf_proof_id existing \<noteq> pf_proof_id incoming,
         ValueError ''verified close proof replay identity does not match''),
      (pd_whole pd existing \<noteq> pd_whole pd incoming, ValueError ''verified close proof identity was reused with different content'')]"

end
