(* ===== verification/IncrementalEvidence.thy ===== *)
theory IncrementalEvidence
  imports LineageFacts CloseProof StreamDelivery
begin

text \<open>
  \<open>pipeline/r1_incremental_evidence.py\<close>: the state that accumulates the accepted chunks of one run
  and confirms its Evidence once, when the run is closed. With it the availability record of
  \<open>pipeline/r1_causal_availability.py\<close> and the clock reading of \<open>pipeline/r1_artifact_io.py\<close>.
  A dictionary of the code is an association list in insertion order, updated with \<open>AList.update\<close>;
  the schema and version strings of its keys are one literal each and are left out. The ingress is
  an argument, as in the code, and so is what the clock returns when it is read. The messages of
  exceptions are abbreviated, so the text after the colon of a proof failure is too.
\<close>

section \<open>Availability\<close>

record causal_availability =
  ca_evidence_id :: string
  ca_timestamp :: datetime
  ca_available_at :: datetime
  ca_event_ids :: "string list"
  ca_context_event_ids :: "string list"

definition validate_causal_ids :: "string list \<Rightarrow> unit result" where
  "validate_causal_ids ids = raise_first
     [(\<exists>i \<in> set ids. blank i \<or> \<not> unpadded i, ValueError ''Event IDs must be non-blank and unpadded''),
      (has_duplicates ids, ValueError ''Event IDs must be unique within each provenance field'')]"

definition validate_causal_availability :: "causal_availability \<Rightarrow> causal_availability result" where
  "validate_causal_availability a =
     seq (raise_if (blank (ca_evidence_id a) \<or> \<not> unpadded (ca_evidence_id a)) (ValueError ''evidence_id must be non-blank and unpadded''))
     (seq (check_each (require_utc ''causal Evidence time'') [ca_timestamp a, ca_available_at a])
     (seq (raise_if (ca_event_ids a = []) (ValueError ''event_ids''))
     (seq (check_each validate_causal_ids [ca_event_ids a, ca_context_event_ids a]) (Inr a))))"

definition causal_sort_key :: "causal_availability \<Rightarrow> int \<times> int \<times> string" where
  "causal_sort_key a = (instant (ca_available_at a), instant (ca_timestamp a), ca_evidence_id a)"

definition ceil_utc_clock_observation :: "string \<Rightarrow> datetime \<Rightarrow> datetime result" where
  "ceil_utc_clock_observation field t = seq (require_utc field t)
     (let u = astimezone_utc t; r = microsecond u mod 1000 in Inr (if r = 0 then u else add_delta u (1000 - r)))"

section \<open>Snapshots\<close>

datatype incremental_status = Accumulating | Provisional | Finalized | FailedClosed
datatype close_mode = RunEndFallback | VerifiedCloseProof

record incremental_snapshot =
  sn_status :: incremental_status
  sn_selector_result :: selector_result
  sn_evidences :: "evidence list"
  sn_availability :: "causal_availability list"
  sn_lineage_input :: "lineage_input option"
  sn_extraction_diagnostics :: "extraction_diagnostic list"
  sn_close_mode :: "close_mode option"
  sn_boundary_at :: "datetime option"
  sn_available_at :: "datetime option"
  sn_contract_version :: "string option"
  sn_proof_id :: "string option"
  sn_proof_sha :: "string option"
  sn_diagnostics :: "string list"

text \<open>A snapshot with only the defaults of the dataclass.\<close>

definition plain_snapshot :: "incremental_status \<Rightarrow> selector_result \<Rightarrow> string list \<Rightarrow> incremental_snapshot" where
  "plain_snapshot status selected diagnostics = \<lparr>sn_status = status, sn_selector_result = selected, sn_evidences = [],
     sn_availability = [], sn_lineage_input = None, sn_extraction_diagnostics = [], sn_close_mode = None, sn_boundary_at = None,
     sn_available_at = None, sn_contract_version = None, sn_proof_id = None, sn_proof_sha = None, sn_diagnostics = diagnostics\<rparr>"

definition is_terminal_status :: "incremental_status \<Rightarrow> bool" where
  "is_terminal_status s \<longleftrightarrow> s = Finalized \<or> s = FailedClosed"

definition selector_text :: "selector_diagnostic \<Rightarrow> string" where
  "selector_text d = (case d of
     EmptyEventBatch \<Rightarrow> ''empty_event_batch'' | MixedRunScope \<Rightarrow> ''mixed_run_scope'' | MixedHostScope \<Rightarrow> ''mixed_host_scope''
   | DuplicateEventId \<Rightarrow> ''duplicate_event_id'' | MissingProcessGuid \<Rightarrow> ''missing_process_guid''
   | DuplicateProcessGuid \<Rightarrow> ''duplicate_process_guid'' | NoTerminalCandidate \<Rightarrow> ''no_terminal_candidate''
   | AmbiguousTerminalCandidate \<Rightarrow> ''ambiguous_terminal_candidate'' | TruncatedLineage \<Rightarrow> ''truncated_lineage''
   | LineageCycle \<Rightarrow> ''lineage_cycle'' | TemporalInversion \<Rightarrow> ''temporal_inversion'')"

definition exn_text :: "exn \<Rightarrow> string" where
  "exn_text e = (case e of ValueError m \<Rightarrow> m | TypeError m \<Rightarrow> m | RuntimeError m \<Rightarrow> m | KeyError m \<Rightarrow> m
     | AssertionError \<Rightarrow> [] | FileExistsError m \<Rightarrow> m | LateStreamEventError m \<Rightarrow> m)"

section \<open>The state\<close>

type_synonym partition_key = "string \<times> string \<times> string \<times> string"

definition partition_key :: "stream_partition \<Rightarrow> partition_key" where
  "partition_key p = (pt_run_id p, pt_host_id p, pt_source p, pt_channel p)"

record incremental_config =
  ic_run_id :: string
  ic_entity_id :: string
  ic_run_start :: datetime
  ic_family_id :: string
  ic_selector :: selector_policy
  ic_approved :: approved_policy
  ic_contract :: "partition_contract option"

record incremental_state =
  in_config :: incremental_config
  in_events :: "((partition_key \<times> string) \<times> normalized_event) list"
  in_event_hashes :: "((partition_key \<times> string) \<times> string) list"
  in_chunk_hashes :: "((partition_key \<times> string) \<times> string) list"
  in_sequences :: "((partition_key \<times> int) \<times> string) list"
  in_chunks :: "((partition_key \<times> string) \<times> event_chunk) list"
  in_closed :: "run_closed option"
  in_proof :: "close_proof option"
  in_validation :: "proof_validation option"
  in_receipt :: "close_receipt option"
  in_candidate_policy :: "candidate_policy option"
  in_snapshot :: incremental_snapshot

definition required_identities :: "incremental_config \<Rightarrow> (string \<times> string) list" where
  "required_identities cfg = (case ic_contract cfg of None \<Rightarrow> [canonical_channel] | Some c \<Rightarrow> rq_partitions c)"

definition is_selector_partition :: "incremental_config \<Rightarrow> stream_partition \<Rightarrow> bool" where
  "is_selector_partition cfg p \<longleftrightarrow> pt_run_id p = ic_run_id cfg \<and> pt_host_id p = ic_entity_id cfg
     \<and> (pt_source p, pt_channel p) \<in> set (required_identities cfg)"

definition is_required_key :: "incremental_config \<Rightarrow> partition_key \<Rightarrow> bool" where
  "is_required_key cfg k \<longleftrightarrow> ic_contract cfg = None \<or> (case k of (run_id, host_id, source, channel) \<Rightarrow>
     run_id = ic_run_id cfg \<and> host_id = ic_entity_id cfg \<and> (source, channel) \<in> set (required_identities cfg))"

definition ordered_events :: "incremental_state \<Rightarrow> normalized_event list" where
  "ordered_events s = map snd (sort_key (\<lambda>(k, e). (ev_at e, ev_event_id e, k)) (in_events s))"

definition eligible_events :: "incremental_state \<Rightarrow> datetime \<Rightarrow> normalized_event list" where
  "eligible_events s boundary_at = filter (\<lambda>e. ev_at e \<le> instant boundary_at) (ordered_events s)"

definition provisional_snapshot :: "incremental_state \<Rightarrow> string list \<Rightarrow> incremental_snapshot result" where
  "provisional_snapshot s diagnostics =
     bnd (select_r1_lineage (ordered_events s) (ic_selector (in_config s)) (Some (ic_run_start (in_config s)))) (\<lambda>selected.
     Inr (plain_snapshot (if slr_selection selected \<noteq> None then Provisional else Accumulating) selected diagnostics))"

text \<open>The constructor.\<close>

definition check_incremental_config :: "incremental_config \<Rightarrow> incremental_config result" where
  "check_incremental_config cfg =
     seq (validate_proof_unpadded (ic_run_id cfg))
     (seq (validate_proof_unpadded (ic_entity_id cfg))
     (bnd (validate_utc_milliseconds ''run_start'' (ic_run_start cfg)) (\<lambda>t.
     seq (validate_policy_family_binding (ic_family_id cfg) (ic_approved cfg))
     (seq (raise_first
       [(slp_event_count (ic_selector cfg) \<noteq> int (length (ap_lineage (ic_approved cfg))),
           ValueError ''selector lineage_event_count must match approved_lineage length''),
        (is_some_and (ic_contract cfg) (\<lambda>c. rq_target_host c \<noteq> ic_entity_id cfg),
           ValueError ''required-partition contract target_host must match incremental entity_id'')])
     (Inr (cfg\<lparr>ic_run_start := t\<rparr>))))))"

definition empty_incremental :: "incremental_config \<Rightarrow> incremental_state" where
  "empty_incremental cfg = \<lparr>in_config = cfg, in_events = [], in_event_hashes = [], in_chunk_hashes = [], in_sequences = [],
     in_chunks = [], in_closed = None, in_proof = None, in_validation = None, in_receipt = None, in_candidate_policy = None,
     in_snapshot = plain_snapshot Accumulating (failed EmptyEventBatch) []\<rparr>"

definition new_incremental :: "incremental_config \<Rightarrow> incremental_state result" where
  "new_incremental cfg = bnd (check_incremental_config cfg) (\<lambda>cfg.
     bnd (provisional_snapshot (empty_incremental cfg) []) (\<lambda>sn. Inr ((empty_incremental cfg)\<lparr>in_snapshot := sn\<rparr>)))"

section \<open>Coverage\<close>

definition format_partition_key :: "partition_key \<Rightarrow> string" where
  "format_partition_key k = (case k of (run_id, host_id, source, channel) \<Rightarrow>
     run_id @ ''/'' @ host_id @ ''/'' @ source @ ''/'' @ channel)"

text \<open>\<open>str\<close> of a non-empty tuple of positive integers.\<close>

definition tuple_text :: "int list \<Rightarrow> string" where
  "tuple_text ns = (case ns of
     [n] \<Rightarrow> ''('' @ dec_digits (nat n) @ '',)''
   | n # ms \<Rightarrow> ''('' @ dec_digits (nat n) @ concat (map (\<lambda>m. '', '' @ dec_digits (nat m)) ms) @ '')''
   | [] \<Rightarrow> ''()'')"

definition accepted_sequences :: "incremental_state \<Rightarrow> partition_key \<Rightarrow> int list" where
  "accepted_sequences s k = remdups (map (\<lambda>((k', n), c). n) (filter (\<lambda>((k', n), c). k' = k \<and> is_required_key (in_config s) k') (in_sequences s)))"

definition final_by_partition :: "incremental_state \<Rightarrow> run_closed \<Rightarrow> (partition_key \<times> int) list" where
  "final_by_partition s rc = map (\<lambda>w. (partition_key (fw_partition w), fw_covered w))
     (filter (\<lambda>w. is_required_key (in_config s) (partition_key (fw_partition w))) (cl_finals rc))"

definition coverage_of :: "incremental_state \<Rightarrow> partition_key \<Rightarrow> int \<Rightarrow> string list" where
  "coverage_of s k covered =
     (let sequences = accepted_sequences s k;
          excess = sort (filter (\<lambda>n. covered < n) sequences);
          missing = filter (\<lambda>n. n \<notin> set sequences) [1..covered] in
      (if excess = [] then [] else [''accepted chunk sequence exceeds run_closed coverage for '' @ format_partition_key k @ '': '' @ tuple_text excess])
      @ (if missing = [] then [] else [''run_closed covered chunk sequence is missing for '' @ format_partition_key k @ '': '' @ tuple_text missing]))"

definition chunk_coverage_diagnostics :: "incremental_state \<Rightarrow> string list" where
  "chunk_coverage_diagnostics s = (case in_closed s of
     None \<Rightarrow> []
   | Some rc \<Rightarrow>
       (let finals = final_by_partition s rc;
            accepted = sort (remdups (filter (is_required_key (in_config s)) (map (\<lambda>((k, n), c). k) (in_sequences s)))) in
        map (\<lambda>k. ''accepted chunk partition is absent from run_closed: '' @ format_partition_key k)
          (filter (\<lambda>k. k \<notin> fst ` set finals) accepted)
        @ concat (map (\<lambda>(k, covered). coverage_of s k covered) (sort finals))))"

section \<open>Chunks\<close>

type_synonym 'l chunk_ingress = "event_chunk \<Rightarrow> 'l \<Rightarrow> delivery_result result \<times> 'l"

definition validate_chunk_after_run_closed :: "run_closed \<Rightarrow> event_chunk \<Rightarrow> unit result" where
  "validate_chunk_after_run_closed rc c =
     (case filter (\<lambda>w. partition_key (fw_partition w) = partition_key (ck_partition c)) (cl_finals rc) of
        [] \<Rightarrow> Inl (ValueError ''new chunk partition is not sealed by run_closed'')
      | w # ws \<Rightarrow> raise_if (fw_covered w < ck_sequence c) (ValueError ''new chunk sequence exceeds run_closed coverage''))"

text \<open>The loop over the events: the ones not yet known, an error on changed content.\<close>

fun event_updates :: "stream_digests \<Rightarrow> partition_key \<Rightarrow> ((partition_key \<times> string) \<times> string) list \<Rightarrow> normalized_event list
    \<Rightarrow> normalized_event list result" where
  "event_updates sd k known [] = Inr []"
| "event_updates sd k known (e # es) = (case map_of known (k, ev_event_id e) of
     Some h \<Rightarrow> seq (raise_if (h \<noteq> sd_event sd e) (ValueError ''Event identity was reused with different content''))
       (event_updates sd k known es)
   | None \<Rightarrow> bnd (event_updates sd k known es) (\<lambda>us. Inr (e # us)))"

definition approved_ids :: "event_chunk \<Rightarrow> delivery_result \<Rightarrow> string list" where
  "approved_ids c admission =
     (if res_disposition admission = Duplicate then map ev_event_id (ck_events c) else res_new_event_ids admission)"

definition store_chunk :: "stream_digests \<Rightarrow> event_chunk \<Rightarrow> normalized_event list \<Rightarrow> incremental_state \<Rightarrow> incremental_state" where
  "store_chunk sd c updates s =
     (let k = partition_key (ck_partition c) in
      s\<lparr>in_chunk_hashes := AList.update (k, ck_chunk_id c) (chunk_sha sd c) (in_chunk_hashes s),
        in_sequences := AList.update (k, ck_sequence c) (ck_chunk_id c) (in_sequences s),
        in_chunks := AList.update (k, ck_chunk_id c) c (in_chunks s),
        in_event_hashes := foldl (\<lambda>d e. AList.update (k, ev_event_id e) (sd_event sd e) d) (in_event_hashes s) updates,
        in_events := (if is_selector_partition (in_config s) (ck_partition c)
          then foldl (\<lambda>d e. AList.update (k, ev_event_id e) e d) (in_events s) updates else in_events s)\<rparr>)"

text \<open>Every assignment of \<open>self._snapshot\<close> that follows a change of the rest of the state.\<close>

definition refresh :: "incremental_state \<Rightarrow> incremental_snapshot result \<times> incremental_state" where
  "refresh s = (case provisional_snapshot s (chunk_coverage_diagnostics s) of
     Inl e \<Rightarrow> (Inl e, s) | Inr sn \<Rightarrow> (Inr sn, s\<lparr>in_snapshot := sn\<rparr>))"

definition check_new_chunk :: "stream_digests \<Rightarrow> event_chunk \<Rightarrow> incremental_state \<Rightarrow> normalized_event list result" where
  "check_new_chunk sd c s =
     (let k = partition_key (ck_partition c) in
      seq (raise_if (is_terminal_status (sn_status (in_snapshot s))) (ValueError ''incremental state is already terminal''))
      (seq (case in_closed s of None \<Rightarrow> Inr () | Some rc \<Rightarrow> validate_chunk_after_run_closed rc c)
      (seq (raise_if (is_some_and (map_of (in_sequences s) (k, ck_sequence c)) (\<lambda>i. i \<noteq> ck_chunk_id c))
         (ValueError ''chunk sequence was reused by another identity''))
      (event_updates sd k (in_event_hashes s) (ck_events c)))))"

definition check_admission :: "event_chunk \<Rightarrow> normalized_event list \<Rightarrow> delivery_result \<Rightarrow> unit result" where
  "check_admission c updates admission = raise_first
     [(\<not> set (approved_ids c admission) \<subseteq> set (map ev_event_id (ck_events c)), ValueError ''ingress approved Event IDs outside this chunk''),
      (\<exists>e \<in> set updates. ev_event_id e \<notin> set (approved_ids c admission),
         ValueError ''replayed Event is absent from local state; recover state before replay'')]"

definition check_chunk_scope :: "stream_digests \<Rightarrow> event_chunk \<Rightarrow> incremental_state \<Rightarrow> unit result" where
  "check_chunk_scope sd c s = raise_first
     [(pt_run_id (ck_partition c) \<noteq> ic_run_id (in_config s), ValueError ''chunk run_id does not match incremental state''),
      (ic_contract (in_config s) \<noteq> None \<and> \<not> is_selector_partition (in_config s) (ck_partition c),
         ValueError ''chunk partition is outside the required-partition contract''),
      (chunk_sha sd c \<noteq> ck_sha c, ValueError ''chunk_content_sha256 does not match the canonical chunk payload'')]"

definition incremental_accept_chunk :: "'l chunk_ingress \<Rightarrow> stream_digests \<Rightarrow> event_chunk \<Rightarrow> incremental_state \<times> 'l
    \<Rightarrow> incremental_snapshot result \<times> incremental_state \<times> 'l" where
  "incremental_accept_chunk ingress sd c sl = (case sl of (s, l) \<Rightarrow>
     case check_chunk_scope sd c s of
       Inl e \<Rightarrow> (Inl e, s, l)
     | Inr u \<Rightarrow> (case map_of (in_chunk_hashes s) (partition_key (ck_partition c), ck_chunk_id c) of
         Some h \<Rightarrow>
           if h \<noteq> chunk_sha sd c then (Inl (ValueError ''chunk identity was reused with different content''), s, l)
           else (case ingress c l of (r, l') \<Rightarrow> (bnd r (\<lambda>admission. Inr (in_snapshot s)), s, l'))
       | None \<Rightarrow> (case check_new_chunk sd c s of
           Inl e \<Rightarrow> (Inl e, s, l)
         | Inr updates \<Rightarrow> (case ingress c l of
             (Inl e, l') \<Rightarrow> (Inl e, s, l')
           | (Inr admission, l') \<Rightarrow> (case check_admission c updates admission of
               Inl e \<Rightarrow> (Inl e, s, l')
             | Inr u \<Rightarrow> (case refresh (store_chunk sd c updates s) of (r, s') \<Rightarrow> (r, s', l')))))))"

section \<open>The close of the run\<close>

definition require_entity_partition :: "incremental_config \<Rightarrow> run_closed \<Rightarrow> unit result" where
  "require_entity_partition cfg rc = raise_if (\<not> (\<exists>w \<in> set (cl_finals rc). is_selector_partition cfg (fw_partition w)))
     (ValueError ''run_closed does not contain a final watermark for the R1 Sysmon partition'')"

definition require_exact_target_partitions :: "incremental_config \<Rightarrow> final_watermark list \<Rightarrow> unit result" where
  "require_exact_target_partitions cfg ws = raise_if
     (set (map (\<lambda>w. (pt_source (fw_partition w), pt_channel (fw_partition w)))
        (filter (\<lambda>w. pt_run_id (fw_partition w) = ic_run_id cfg \<and> pt_host_id (fw_partition w) = ic_entity_id cfg) ws))
      \<noteq> set (required_identities cfg))
     (ValueError ''verified proof target partitions must exactly match required-partition contract'')"

definition incremental_accept_run_closed :: "run_closed \<Rightarrow> incremental_state \<Rightarrow> incremental_snapshot result \<times> incremental_state" where
  "incremental_accept_run_closed rc s =
     (if cl_run_id rc \<noteq> ic_run_id (in_config s) then (Inl (ValueError ''run_closed run_id does not match incremental state''), s)
      else (case in_closed s of
        Some rc' \<Rightarrow> if rc' \<noteq> rc then (Inl (ValueError ''incremental state already has a different run_closed''), s)
          else (Inr (in_snapshot s), s)
      | None \<Rightarrow> (case (if ic_contract (in_config s) = None then require_entity_partition (in_config s) rc
            else require_exact_target_partitions (in_config s) (cl_finals rc)) of
          Inl e \<Rightarrow> (Inl e, s)
        | Inr u \<Rightarrow> refresh (s\<lparr>in_closed := Some rc\<rparr>))))"

definition incremental_accept_verified_boundary :: "verified_boundary \<Rightarrow> incremental_state \<Rightarrow> incremental_snapshot result \<times> incremental_state" where
  "incremental_accept_verified_boundary b s = (seq
     (raise_if (vb_run_id b \<noteq> ic_run_id (in_config s)) (ValueError ''verified boundary run_id does not match incremental state''))
     (Inl (ValueError ''Role2-safe verified close proof is not available in v0.1'')), s)"

definition require_watermark_coverage :: "incremental_state \<Rightarrow> datetime \<Rightarrow> unit result" where
  "require_watermark_coverage s boundary_at = (case in_closed s of
     None \<Rightarrow> Inl AssertionError
   | Some rc \<Rightarrow>
       (let ws = filter (\<lambda>w. is_selector_partition (in_config s) (fw_partition w)) (cl_finals rc) in raise_first
          [(ws = [], ValueError ''run_closed does not contain a final watermark for entity_id''),
           (\<exists>w \<in> set ws. instant (fw_at w) < instant boundary_at, ValueError ''every entity final watermark must cover the candidate boundary'')]))"

section \<open>Finalisation\<close>

definition fail_closed :: "string list \<Rightarrow> incremental_state \<Rightarrow> incremental_state" where
  "fail_closed diagnostics s = s\<lparr>in_snapshot := (plain_snapshot FailedClosed (sn_selector_result (in_snapshot s)) diagnostics)
     \<lparr>sn_close_mode := (if ic_contract (in_config s) \<noteq> None then Some VerifiedCloseProof else sn_close_mode (in_snapshot s)),
      sn_contract_version := (if ic_contract (in_config s) \<noteq> None then Some ''v0.2'' else None)\<rparr>\<rparr>"

record finalisation =
  fi_boundary_at :: datetime
  fi_available_at :: datetime
  fi_mode :: close_mode
  fi_diagnostics :: "string list"
  fi_cutoff :: "datetime option"
  fi_version :: string
  fi_observe :: bool

text \<open>What the failure and the success of a finalisation have in common.\<close>

definition closed_snapshot :: "incremental_status \<Rightarrow> finalisation \<Rightarrow> datetime \<Rightarrow> selected_evidence_result \<Rightarrow> string list \<Rightarrow> incremental_snapshot" where
  "closed_snapshot status f available_at r diagnostics = (plain_snapshot status (ser_selector_result r) diagnostics)
     \<lparr>sn_lineage_input := ser_lineage_input r, sn_close_mode := Some (fi_mode f), sn_boundary_at := Some (fi_boundary_at f),
      sn_available_at := Some available_at, sn_contract_version := Some (fi_version f)\<rparr>"

definition put_snapshot :: "incremental_snapshot \<Rightarrow> incremental_state \<Rightarrow> incremental_snapshot result \<times> incremental_state" where
  "put_snapshot sn s = (Inr sn, s\<lparr>in_snapshot := sn\<rparr>)"

definition availability_of :: "selected_evidence_result \<Rightarrow> datetime \<Rightarrow> causal_availability list result" where
  "availability_of r available_at = map_result (\<lambda>e. validate_causal_availability
     \<lparr>ca_evidence_id = evd_id e, ca_timestamp = evd_timestamp e, ca_available_at = available_at, ca_event_ids = evd_event_ids e,
      ca_context_event_ids = (case ser_lineage_input r of None \<Rightarrow> [] | Some i \<Rightarrow> lin_context_event_ids i)\<rparr>) (ser_evidences r)"

definition finish_evidence :: "proof_digests \<Rightarrow> finalisation \<Rightarrow> selected_evidence_result \<Rightarrow> datetime \<Rightarrow> incremental_state
    \<Rightarrow> incremental_snapshot result \<times> incremental_state" where
  "finish_evidence pd f r available_at s =
     (if \<exists>e \<in> set (ser_evidences r). instant available_at < instant (evd_timestamp e)
      then put_snapshot (closed_snapshot FailedClosed f available_at r
        (fi_diagnostics f @ [''Evidence timestamp must not exceed causal available_at''])) s
      else (case availability_of r available_at of
        Inl e \<Rightarrow> (Inl e, s)
      | Inr availability \<Rightarrow> put_snapshot ((closed_snapshot Finalized f available_at r (fi_diagnostics f))
          \<lparr>sn_evidences := ser_evidences r, sn_availability := availability,
           sn_proof_id := map_option pf_proof_id (in_proof s), sn_proof_sha := map_option (pd_whole pd) (in_proof s)\<rparr>) s))"

text \<open>When the clock is read, an unusable or too early reading closes the run without Evidence.\<close>

definition evidence_ready_at :: "datetime \<Rightarrow> datetime \<Rightarrow> (string list \<times> exn) + datetime" where
  "evidence_ready_at now available_at = (case ceil_utc_clock_observation ''evidence_ready_at'' now of
     Inl e \<Rightarrow> Inl ([''Evidence publication readiness clock is invalid: '' @ exn_text e], e)
   | Inr t \<Rightarrow> if instant t < instant available_at
       then Inl ([''evidence_ready_at precedes the verified proof frontier''],
         ValueError ''evidence_ready_at must not precede the verified proof frontier'')
       else Inr t)"

definition finalise :: "evidence_namer \<Rightarrow> proof_digests \<Rightarrow> datetime \<Rightarrow> finalisation \<Rightarrow> incremental_state
    \<Rightarrow> incremental_snapshot result \<times> incremental_state" where
  "finalise nm pd now f s =
     (case run_r1_evidence_pipeline_with_selector nm
         (case fi_cutoff f of None \<Rightarrow> ordered_events s | Some t \<Rightarrow> eligible_events s t)
         (ic_selector (in_config s)) (ic_approved (in_config s)) (Some (ic_run_start (in_config s))) of
        Inl e \<Rightarrow> (Inl e, s)
      | Inr r \<Rightarrow>
          if slr_selection (ser_selector_result r) = None \<or> ser_diagnostics r \<noteq> []
          then put_snapshot ((closed_snapshot FailedClosed f (fi_available_at f) r
              (fi_diagnostics f @ map selector_text (slr_diagnostics (ser_selector_result r)) @ map diagnostic_text (ser_diagnostics r)))
            \<lparr>sn_extraction_diagnostics := ser_diagnostics r\<rparr>) s
          else if fi_observe f then (case evidence_ready_at now (fi_available_at f) of
            Inl (ds, e) \<Rightarrow> (Inl e, fail_closed ds s)
          | Inr t \<Rightarrow> finish_evidence pd f r t s)
          else finish_evidence pd f r (fi_available_at f) s)"

definition finalize_at_run_end :: "evidence_namer \<Rightarrow> proof_digests \<Rightarrow> datetime \<Rightarrow> incremental_state
    \<Rightarrow> incremental_snapshot result \<times> incremental_state" where
  "finalize_at_run_end nm pd authoritative_run_end s =
     (case bnd (validate_utc_milliseconds ''authoritative_run_end'' authoritative_run_end) (\<lambda>run_end.
        seq (raise_if (instant run_end < instant (ic_run_start (in_config s))) (ValueError ''authoritative_run_end must not precede run_start''))
        (Inr run_end)) of
        Inl e \<Rightarrow> (Inl e, s)
      | Inr run_end \<Rightarrow>
          if is_terminal_status (sn_status (in_snapshot s)) then
            (if sn_close_mode (in_snapshot s) = Some RunEndFallback \<and> sn_boundary_at (in_snapshot s) \<noteq> Some run_end
             then (Inl (ValueError ''incremental state already finalized at a different authoritative_run_end''), s)
             else (Inr (in_snapshot s), s))
          else if in_closed s = None then (Inl (ValueError ''accepted run_closed is required before stream fallback finalization''), s)
          else if chunk_coverage_diagnostics s \<noteq> [] then
            put_snapshot ((plain_snapshot FailedClosed (sn_selector_result (in_snapshot s)) (chunk_coverage_diagnostics s))
              \<lparr>sn_close_mode := Some RunEndFallback, sn_boundary_at := Some run_end, sn_available_at := Some run_end,
               sn_contract_version := Some ''v0.1''\<rparr>) s
          else (case require_watermark_coverage s run_end of
            Inl e \<Rightarrow> (Inl e, s)
          | Inr u \<Rightarrow> finalise nm pd run_end
              \<lparr>fi_boundary_at = run_end, fi_available_at = run_end, fi_mode = RunEndFallback,
               fi_diagnostics = [''Role2-safe verified close proof is unavailable; used run_end fallback''],
               fi_cutoff = Some run_end, fi_version = ''v0.1'', fi_observe = False\<rparr> s))"

section \<open>The verified close\<close>

definition required_stream_partitions :: "incremental_config \<Rightarrow> stream_partition list result" where
  "required_stream_partitions cfg = map_result (\<lambda>(source, channel).
     (let p = \<lparr>pt_run_id = ic_run_id cfg, pt_host_id = ic_entity_id cfg, pt_source = source, pt_channel = channel\<rparr>
      in seq (validate_stream_partition p) (Inr p))) (sort (remdups (required_identities cfg)))"

definition latest_verified_input_ingest_time :: "incremental_state \<Rightarrow> datetime result" where
  "latest_verified_input_ingest_time s =
     bnd (map_result (\<lambda>e. case ev_ingest_time e of
         None \<Rightarrow> Inl (ValueError ''missing_or_invalid_ingest_time'')
       | Some t \<Rightarrow> (case validate_utc_milliseconds ''Event ingest_time'' t of
           Inl e \<Rightarrow> Inl (ValueError ''missing_or_invalid_ingest_time'') | Inr t \<Rightarrow> Inr t)) (ordered_events s)) (\<lambda>ts.
     if ts = [] then Inr (ic_run_start (in_config s)) else latest_timestamp ts)"

text \<open>The arguments of \<open>accept_verified_close_proof\<close> beside the proof.\<close>

record trusted_binding =
  tb_closed :: run_closed
  tb_receipt :: close_receipt
  tb_policy :: candidate_policy
  tb_seal_id :: string
  tb_projection_sha :: string
  tb_validated_at :: datetime

definition expectation_of :: "incremental_config \<Rightarrow> trusted_binding \<Rightarrow> stream_partition \<Rightarrow> proof_expectation" where
  "expectation_of cfg b p = \<lparr>ex_run_id = ic_run_id cfg, ex_family_id = ic_family_id cfg, ex_partition = p,
     ex_seal_id = tb_seal_id b, ex_projection_sha = tb_projection_sha b\<rparr>"

text \<open>The body of the \<open>try\<close>: the validation of the proof and the time it makes available.\<close>

definition check_verified_close :: "proof_digests \<Rightarrow> stream_digests \<Rightarrow> close_proof \<Rightarrow> trusted_binding \<Rightarrow> incremental_state
    \<Rightarrow> (proof_validation \<times> datetime) result" where
  "check_verified_close pd sd p b s =
     bnd (required_stream_partitions (in_config s)) (\<lambda>partitions.
     seq (require_exact_target_partitions (in_config s) (pf_partitions p))
     (bnd (map_result (\<lambda>q. validate_proof pd sd p (tb_closed b) (tb_receipt b) (tb_policy b)
        (expectation_of (in_config s) b q) (tb_validated_at b)) partitions) (\<lambda>validations.
     (case validations of
        [] \<Rightarrow> Inl (ValueError ''required-partition contract must not be empty'')
      | v # vs \<Rightarrow>
          seq (raise_if (\<exists>x \<in> set validations. instant (pv_validated_at x) \<noteq> instant (pv_validated_at v))
            (ValueError ''proof validation time changed across required partitions''))
          (seq (require_watermark_coverage s (pf_boundary_at p))
          (bnd (latest_verified_input_ingest_time s) (\<lambda>latest.
           bnd (latest_timestamp [cl_emitted_at (tb_closed b), pf_boundary_at p, pf_seal_at p, pf_created_at p, pv_validated_at v, latest]) (\<lambda>available_at.
           seq (raise_if (instant available_at \<noteq> instant (pv_validated_at v))
             (ValueError ''proof_validated_at must not precede any accepted finalization input''))
           (Inr (v, available_at))))))))))"

definition incremental_accept_verified_close_proof :: "evidence_namer \<Rightarrow> proof_digests \<Rightarrow> stream_digests \<Rightarrow> datetime \<Rightarrow> close_proof
    \<Rightarrow> trusted_binding \<Rightarrow> incremental_state \<Rightarrow> incremental_snapshot result \<times> incremental_state" where
  "incremental_accept_verified_close_proof nm pd sd now p b s =
     (if ic_contract (in_config s) = None
      then (Inl (ValueError ''verified close proof requires an explicit required-partition contract''), s)
      else if is_terminal_status (sn_status (in_snapshot s)) then
        (if in_proof s \<noteq> Some p then (Inl (ValueError ''incremental state is already terminal''), s)
         else if in_closed s \<noteq> Some (tb_closed b) \<or> in_receipt s \<noteq> Some (tb_receipt b) \<or> in_candidate_policy s \<noteq> Some (tb_policy b)
           \<or> pf_seal_id p \<noteq> tb_seal_id b \<or> pf_projection_sha p \<noteq> tb_projection_sha b \<or> in_validation s = None
           then (Inl (ValueError ''verified proof replay trusted binding does not match''), s)
         else (case validate_utc_milliseconds ''proof_validated_at'' (tb_validated_at b) of
           Inl e \<Rightarrow> (Inl e, s)
         | Inr t \<Rightarrow> if \<not> is_some_and (in_validation s) (\<lambda>v. instant (pv_validated_at v) = instant t)
             then (Inl (ValueError ''verified proof replay trusted binding does not match''), s)
             else (Inr (in_snapshot s), s)))
      else if in_closed s = None then (Inl (ValueError ''accepted run_closed is required before verified proof finalization''), s)
      else if in_closed s \<noteq> Some (tb_closed b)
        then (Inl (ValueError ''verified proof run_closed does not match incremental state''),
          fail_closed [''verified proof run_closed does not match incremental state''] s)
      else if chunk_coverage_diagnostics s \<noteq> [] then
        (let s' = fail_closed (chunk_coverage_diagnostics s) s in (Inr (in_snapshot s'), s'))
      else (case check_verified_close pd sd p b s of
        Inl e \<Rightarrow> (Inl e, fail_closed [''verified close proof validation failed: '' @ exn_text e] s)
      | Inr (v, available_at) \<Rightarrow>
          finalise nm pd now
            \<lparr>fi_boundary_at = pf_boundary_at p, fi_available_at = available_at, fi_mode = VerifiedCloseProof,
             fi_diagnostics = [''Role2-safe verified close proof finalized incremental Evidence''],
             fi_cutoff = None, fi_version = ''v0.2'', fi_observe = True\<rparr>
            (s\<lparr>in_proof := Some p, in_validation := Some v, in_receipt := Some (tb_receipt b), in_candidate_policy := Some (tb_policy b)\<rparr>)))"

end
