(* ===== verification/IncrementalFacts.thy ===== *)
theory IncrementalFacts
  imports IncrementalEvidence
begin

text \<open>
  The steps of the incremental state and the invariant of its dictionaries: they all describe the one
  list of accepted chunks, whatever was redelivered, refused or interleaved.
\<close>

section \<open>Association lists\<close>

lemma update_fresh: "k \<notin> fst ` set xs \<Longrightarrow> AList.update k v xs = xs @ [(k, v)]"
  by (induction xs) auto

lemma foldl_update_fresh:
  assumes "distinct (map f es)" "f ` set es \<inter> fst ` set d = {}"
  shows "foldl (\<lambda>d e. AList.update (f e) (g e) d) d es = d @ map (\<lambda>e. (f e, g e)) es"
  using assms
proof (induction es arbitrary: d)
  case (Cons e es)
  then have "AList.update (f e) (g e) d = d @ [(f e, g e)]" by (intro update_fresh) auto
  moreover have "f ` set es \<inter> fst ` set (d @ [(f e, g e)]) = {}" using Cons.prems by auto
  ultimately show ?case using Cons by simp
qed simp

lemma map_of_None_fst: "map_of xs k = None \<longleftrightarrow> k \<notin> fst ` set xs"
  by (rule map_of_eq_None_iff)

lemma image_avoids: "(\<And>x. x \<in> A \<Longrightarrow> f x \<notin> B) \<Longrightarrow> f ` A \<inter> B = {}"
  by blast

lemma union_image_known: "B \<subseteq> C \<Longrightarrow> (\<And>x. x \<in> C \<Longrightarrow> x \<notin> B \<Longrightarrow> g x \<in> A) \<Longrightarrow> A \<union> g ` B = A \<union> g ` C"
  by blast

lemma distinct_fst_append:
  "distinct (map fst xs) \<Longrightarrow> distinct (map f es) \<Longrightarrow> f ` set es \<inter> fst ` set xs = {} \<Longrightarrow>
    distinct (map fst (xs @ map (\<lambda>e. (f e, g e)) es))"
  by (simp add: comp_def Int_commute image_image)

lemma map_of_iff: "distinct (map fst xs) \<Longrightarrow> map_of xs k = Some v \<longleftrightarrow> (k, v) \<in> set xs"
  by (auto intro: map_of_is_SomeI dest: map_of_SomeD)

section \<open>Steps\<close>

text \<open>
  Everything that can happen to a state: a delivery of a chunk or a close, a finalisation by either
  path, and, in between, any change of the ledger by others.
\<close>

inductive incremental_step :: "string set \<Rightarrow> 'l chunk_ingress \<Rightarrow> stream_digests \<Rightarrow> evidence_namer \<Rightarrow> proof_digests
    \<Rightarrow> incremental_state \<times> 'l \<Rightarrow> incremental_state \<times> 'l \<Rightarrow> bool"
  for event_types ingress sd nm pd where
  deliver_chunk: "chunk_ok event_types c \<Longrightarrow> incremental_accept_chunk ingress sd c (s, l) = (r, s', l')
    \<Longrightarrow> incremental_step event_types ingress sd nm pd (s, l) (s', l')"
| deliver_close: "run_closed_ok rc \<Longrightarrow> incremental_accept_run_closed rc s = (r, s')
    \<Longrightarrow> incremental_step event_types ingress sd nm pd (s, l) (s', l)"
| run_end: "finalize_at_run_end nm pd t s = (r, s')
    \<Longrightarrow> incremental_step event_types ingress sd nm pd (s, l) (s', l)"
| verified_close: "incremental_accept_verified_close_proof nm pd sd now p b s = (r, s')
    \<Longrightarrow> incremental_step event_types ingress sd nm pd (s, l) (s', l)"
| ledger_moves: "incremental_step event_types ingress sd nm pd (s, l) (s, l')"

inductive incremental_reachable :: "string set \<Rightarrow> 'l chunk_ingress \<Rightarrow> stream_digests \<Rightarrow> evidence_namer \<Rightarrow> proof_digests
    \<Rightarrow> incremental_config \<Rightarrow> incremental_state \<times> 'l \<Rightarrow> bool"
  for event_types ingress sd nm pd cfg where
  created: "new_incremental cfg = Inr s \<Longrightarrow> incremental_reachable event_types ingress sd nm pd cfg (s, l)"
| stepped: "incremental_reachable event_types ingress sd nm pd cfg sl \<Longrightarrow> incremental_step event_types ingress sd nm pd sl sl'
    \<Longrightarrow> incremental_reachable event_types ingress sd nm pd cfg sl'"

section \<open>The selector on the accumulated events\<close>

lemma select_returns:
  assumes "normalize_run_start start = Inr run_start"
  shows "\<exists>r. select_r1_lineage es policy start = Inr r"
  by (simp add: select_r1_lineage_def assms)

lemma config_start_ok: "is_utc (ic_run_start cfg) \<Longrightarrow> normalize_run_start (Some (ic_run_start cfg)) = Inr (Some (ic_run_start cfg))"
  by (simp add: normalize_run_start_def require_utc_ok)

lemma check_config_ok:
  "check_incremental_config cfg = Inr cfg' \<Longrightarrow> cfg' = cfg \<and> is_utc (ic_run_start cfg) \<and> ms_aligned (ic_run_start cfg)
     \<and> ic_run_id cfg \<noteq> [] \<and> ic_entity_id cfg \<noteq> [] \<and> slp_event_count (ic_selector cfg) = int (length (ap_lineage (ic_approved cfg)))"
  by (auto simp: check_incremental_config_def)

lemma provisional_total:
  assumes "is_utc (ic_run_start (in_config s))"
  shows "\<exists>sn. provisional_snapshot s ds = Inr sn \<and> \<not> is_terminal_status (sn_status sn) \<and> sn_diagnostics sn = ds"
proof -
  obtain r where "select_r1_lineage (ordered_events s) (ic_selector (in_config s)) (Some (ic_run_start (in_config s))) = Inr r"
    using select_returns [OF config_start_ok [OF assms]] by blast
  then show ?thesis by (simp add: provisional_snapshot_def plain_snapshot_def is_terminal_status_def)
qed

lemma refresh_total:
  assumes "is_utc (ic_run_start (in_config s))"
  shows "\<exists>sn. refresh s = (Inr sn, s\<lparr>in_snapshot := sn\<rparr>) \<and> \<not> is_terminal_status (sn_status sn)
    \<and> provisional_snapshot s (chunk_coverage_diagnostics s) = Inr sn"
  using provisional_total [OF assms, of "chunk_coverage_diagnostics s"] by (auto simp: refresh_def)

section \<open>The invariant\<close>

definition accepted_chunks :: "incremental_state \<Rightarrow> event_chunk set" where
  "accepted_chunks s = snd ` set (in_chunks s)"

definition chunk_key :: "event_chunk \<Rightarrow> partition_key \<times> string" where
  "chunk_key c = (partition_key (ck_partition c), ck_chunk_id c)"

definition chunks_inv :: "string set \<Rightarrow> stream_digests \<Rightarrow> incremental_state \<Rightarrow> bool" where
  "chunks_inv event_types sd s \<longleftrightarrow> (\<forall>(k, c) \<in> set (in_chunks s). k = chunk_key c \<and> chunk_ok event_types c
       \<and> chunk_sha sd c = ck_sha c \<and> pt_run_id (ck_partition c) = ic_run_id (in_config s)
       \<and> (ic_contract (in_config s) \<noteq> None \<longrightarrow> is_selector_partition (in_config s) (ck_partition c)))
     \<and> distinct (map fst (in_chunks s)) \<and> distinct (map fst (in_sequences s))
     \<and> in_chunk_hashes s = map (\<lambda>(k, c). (k, chunk_sha sd c)) (in_chunks s)
     \<and> in_sequences s = map (\<lambda>(k, c). ((fst k, ck_sequence c), snd k)) (in_chunks s)"

definition event_entries :: "event_chunk set \<Rightarrow> ((partition_key \<times> string) \<times> normalized_event) set" where
  "event_entries cs = {((partition_key (ck_partition c), ev_event_id e), e) | c e. c \<in> cs \<and> e \<in> set (ck_events c)}"

lemma entry_keys:
  "x \<in> fst ` event_entries cs \<longleftrightarrow> (\<exists>c e. c \<in> cs \<and> e \<in> set (ck_events c) \<and> x = (partition_key (ck_partition c), ev_event_id e))"
proof -
  have "event_entries cs = (\<lambda>(c, e). ((partition_key (ck_partition c), ev_event_id e), e)) ` (SIGMA c : cs. set (ck_events c))"
    by (auto simp: event_entries_def image_iff)
  then show ?thesis by (simp add: image_image case_prod_beta) (auto simp: image_iff)
qed

definition selector_chunks :: "incremental_state \<Rightarrow> event_chunk set" where
  "selector_chunks s = {c \<in> accepted_chunks s. is_selector_partition (in_config s) (ck_partition c)}"

definition events_inv :: "stream_digests \<Rightarrow> incremental_state \<Rightarrow> bool" where
  "events_inv sd s \<longleftrightarrow> distinct (map fst (in_event_hashes s)) \<and> distinct (map fst (in_events s))
     \<and> set (in_event_hashes s) = (\<lambda>(k, e). (k, sd_event sd e)) ` event_entries (accepted_chunks s)
     \<and> set (in_events s) \<subseteq> event_entries (selector_chunks s)
     \<and> fst ` set (in_events s) = fst ` event_entries (selector_chunks s)"

definition same_inputs :: "incremental_state \<Rightarrow> incremental_state \<Rightarrow> bool" where
  "same_inputs s s' \<longleftrightarrow> in_config s' = in_config s \<and> in_events s' = in_events s \<and> in_event_hashes s' = in_event_hashes s
     \<and> in_chunk_hashes s' = in_chunk_hashes s \<and> in_sequences s' = in_sequences s \<and> in_chunks s' = in_chunks s"

lemma same_inputs_inv:
  assumes "same_inputs s s'"
  shows "chunks_inv event_types sd s' = chunks_inv event_types sd s" "events_inv sd s' = events_inv sd s"
    "accepted_chunks s' = accepted_chunks s" "ordered_events s' = ordered_events s"
  using assms by (simp_all add: same_inputs_def chunks_inv_def events_inv_def accepted_chunks_def selector_chunks_def ordered_events_def)

lemma partition_key_inject [simp]: "partition_key p = partition_key q \<longleftrightarrow> p = q"
  by (cases p; cases q) (auto simp: partition_key_def)

lemma event_updates_ok:
  "event_updates sd k known es = Inr us \<Longrightarrow> us = filter (\<lambda>e. map_of known (k, ev_event_id e) = None) es
     \<and> (\<forall>e \<in> set es. \<forall>h. map_of known (k, ev_event_id e) = Some h \<longrightarrow> h = sd_event sd e)"
  by (induction sd k known es arbitrary: us rule: event_updates.induct) (auto split: option.splits)

section \<open>A new chunk\<close>

lemma check_new_chunk_ok:
  assumes "check_new_chunk sd c s = Inr us"
  shows "\<not> is_terminal_status (sn_status (in_snapshot s))" "event_updates sd (partition_key (ck_partition c)) (in_event_hashes s) (ck_events c) = Inr us"
    "\<And>i. map_of (in_sequences s) (partition_key (ck_partition c), ck_sequence c) = Some i \<Longrightarrow> i = ck_chunk_id c"
    "\<And>rc. in_closed s = Some rc \<Longrightarrow> validate_chunk_after_run_closed rc c = Inr ()"
  using assms by (auto simp: check_new_chunk_def Let_def)

lemma check_scope_ok:
  "check_chunk_scope sd c s = Inr u \<longleftrightarrow> pt_run_id (ck_partition c) = ic_run_id (in_config s)
     \<and> (ic_contract (in_config s) \<noteq> None \<longrightarrow> is_selector_partition (in_config s) (ck_partition c)) \<and> chunk_sha sd c = ck_sha c"
  by (cases u) (auto simp: check_chunk_scope_def)

lemma chunk_key_fresh:
  assumes "chunks_inv event_types sd s" "map_of (in_chunk_hashes s) (chunk_key c) = None"
  shows "chunk_key c \<notin> fst ` set (in_chunks s)"
  using assms by (auto simp: chunks_inv_def map_of_None_fst image_iff)

lemma sequence_fresh:
  assumes inv: "chunks_inv event_types sd s" and new: "map_of (in_chunk_hashes s) (chunk_key c) = None"
    and i: "\<And>i. map_of (in_sequences s) (partition_key (ck_partition c), ck_sequence c) = Some i \<Longrightarrow> i = ck_chunk_id c"
  shows "(partition_key (ck_partition c), ck_sequence c) \<notin> fst ` set (in_sequences s)"
proof
  assume "(partition_key (ck_partition c), ck_sequence c) \<in> fst ` set (in_sequences s)"
  then obtain j where j: "map_of (in_sequences s) (partition_key (ck_partition c), ck_sequence c) = Some j"
    by (cases "map_of (in_sequences s) (partition_key (ck_partition c), ck_sequence c)") (auto simp: map_of_None_fst)
  then have "((partition_key (ck_partition c), ck_sequence c), ck_chunk_id c) \<in> set (in_sequences s)"
    using i [OF j] by (auto dest: map_of_SomeD)
  then have "((partition_key (ck_partition c), ck_sequence c), ck_chunk_id c) \<in> (\<lambda>(k, c). ((fst k, ck_sequence c), snd k)) ` set (in_chunks s)"
    using inv by (simp add: chunks_inv_def)
  then obtain k d where "(k, d) \<in> set (in_chunks s)" "fst k = partition_key (ck_partition c)" "snd k = ck_chunk_id c" by auto
  then have "chunk_key c \<in> fst ` set (in_chunks s)" by (metis chunk_key_def fst_conv image_eqI prod.collapse)
  with chunk_key_fresh [OF inv new] show False by blast
qed

lemma stored_chunk:
  assumes inv: "chunks_inv event_types sd s" "events_inv sd s" and c: "chunk_ok event_types c" "check_chunk_scope sd c s = Inr ()"
    and new: "map_of (in_chunk_hashes s) (chunk_key c) = None" and us: "check_new_chunk sd c s = Inr us"
  shows "in_chunks (store_chunk sd c us s) = in_chunks s @ [(chunk_key c, c)]"
    "chunks_inv event_types sd (store_chunk sd c us s)" "events_inv sd (store_chunk sd c us s)"
proof -
  let ?k = "partition_key (ck_partition c)" and ?s = "store_chunk sd c us s"
  have config: "in_config ?s = in_config s" by (simp add: store_chunk_def Let_def)
  note fresh = chunk_key_fresh [OF inv(1) new] and seq_fresh = sequence_fresh [OF inv(1) new check_new_chunk_ok(3) [OF us]]
  have hash_fresh: "chunk_key c \<notin> fst ` set (in_chunk_hashes s)" using new by (simp add: map_of_None_fst)
  show chunks: "in_chunks ?s = in_chunks s @ [(chunk_key c, c)]"
    using fresh by (simp add: store_chunk_def Let_def chunk_key_def [symmetric] update_fresh)
  have "in_chunk_hashes ?s = in_chunk_hashes s @ [(chunk_key c, chunk_sha sd c)]"
    using hash_fresh by (simp add: store_chunk_def Let_def chunk_key_def [symmetric] update_fresh)
  moreover have "in_sequences ?s = in_sequences s @ [((?k, ck_sequence c), ck_chunk_id c)]"
    using seq_fresh by (simp add: store_chunk_def Let_def update_fresh)
  ultimately show "chunks_inv event_types sd ?s"
    using inv(1) chunks config fresh seq_fresh c by (auto simp: chunks_inv_def check_scope_ok chunk_key_def)
  have upd: "us = filter (\<lambda>e. map_of (in_event_hashes s) (?k, ev_event_id e) = None) (ck_events c)"
    and known: "\<And>e h. e \<in> set (ck_events c) \<Longrightarrow> map_of (in_event_hashes s) (?k, ev_event_id e) = Some h \<Longrightarrow> h = sd_event sd e"
    using event_updates_ok [OF check_new_chunk_ok(2) [OF us]] by blast+
  have ids: "distinct (map ev_event_id (ck_events c))" using c(1) by (simp add: chunk_ok_def)
  then have dist: "distinct (map (\<lambda>e. (?k, ev_event_id e)) us)"
    unfolding upd by (auto simp: distinct_map inj_on_def)
  have hash_new: "(\<lambda>e. (?k, ev_event_id e)) ` set us \<inter> fst ` set (in_event_hashes s) = {}"
    by (rule image_avoids) (simp add: upd map_of_None_fst)
  have hashes: "in_event_hashes ?s = in_event_hashes s @ map (\<lambda>e. ((?k, ev_event_id e), sd_event sd e)) us"
    using foldl_update_fresh [OF dist hash_new] by (simp add: store_chunk_def Let_def)
  have fst_hashes: "fst ` set (in_event_hashes s) = fst ` event_entries (accepted_chunks s)"
    using inv(2) by (simp add: events_inv_def image_image case_prod_beta)
  have "fst ` set (in_events s) \<subseteq> fst ` set (in_event_hashes s)"
    using inv(2) fst_hashes by (auto simp: events_inv_def selector_chunks_def event_entries_def)
  then have event_new: "(\<lambda>e. (?k, ev_event_id e)) ` set us \<inter> fst ` set (in_events s) = {}" using hash_new by blast
  have events: "in_events ?s = (if is_selector_partition (in_config s) (ck_partition c)
      then in_events s @ map (\<lambda>e. ((?k, ev_event_id e), e)) us else in_events s)"
    using foldl_update_fresh [OF dist event_new] by (simp add: store_chunk_def Let_def)
  have acc: "accepted_chunks ?s = insert c (accepted_chunks s)" by (simp add: accepted_chunks_def chunks)
  have entries: "event_entries (insert c cs) = event_entries cs \<union> (\<lambda>e. ((?k, ev_event_id e), e)) ` set (ck_events c)" for cs
    by (auto simp: event_entries_def)
  have sel: "selector_chunks ?s = (if is_selector_partition (in_config s) (ck_partition c) then insert c (selector_chunks s) else selector_chunks s)"
    unfolding selector_chunks_def acc config by auto
  have all_known: "((?k, ev_event_id e), sd_event sd e) \<in> set (in_event_hashes s)" if "e \<in> set (ck_events c)" "e \<notin> set us" for e
  proof -
    from that obtain h where "map_of (in_event_hashes s) (?k, ev_event_id e) = Some h" unfolding upd by auto
    with known [OF that(1) this] show ?thesis by (auto dest: map_of_SomeD)
  qed
  have hash_set: "set (in_event_hashes ?s) = (\<lambda>(k, e). (k, sd_event sd e)) ` event_entries (accepted_chunks ?s)"
  proof -
    have old: "set (in_event_hashes s) = (\<lambda>(k, e). (k, sd_event sd e)) ` event_entries (accepted_chunks s)"
      using inv(2) by (simp add: events_inv_def)
    have "set us \<subseteq> set (ck_events c)" unfolding upd by auto
    from union_image_known [OF this all_known] show ?thesis
      unfolding hashes acc entries by (simp add: image_Un image_image old)
  qed
  have keys: "(?k, ev_event_id e) \<in> fst ` set (in_events s)" if "e \<in> set (ck_events c)" "e \<notin> set us" "is_selector_partition (in_config s) (ck_partition c)" for e
  proof -
    have "(?k, ev_event_id e) \<in> fst ` event_entries (accepted_chunks s)"
      using all_known [OF that(1,2)] fst_hashes by (metis fst_conv image_eqI)
    then obtain c' e' where "c' \<in> accepted_chunks s" "e' \<in> set (ck_events c')" "ck_partition c' = ck_partition c" "ev_event_id e' = ev_event_id e"
      unfolding entry_keys by auto
    then have "(?k, ev_event_id e) \<in> fst ` event_entries (selector_chunks s)"
      unfolding entry_keys selector_chunks_def using that(3) by (intro exI [of _ c'] exI [of _ e']) simp
    then show ?thesis using inv(2) by (simp add: events_inv_def)
  qed
  show "events_inv sd ?s"
    unfolding events_inv_def
  proof (intro conjI)
    show "distinct (map fst (in_event_hashes ?s))"
      unfolding hashes by (rule distinct_fst_append [OF _ dist hash_new]) (use inv(2) in \<open>simp add: events_inv_def\<close>)
    show "distinct (map fst (in_events ?s))"
      using distinct_fst_append [OF _ dist event_new, of "\<lambda>e. e"] inv(2) unfolding events by (simp add: events_inv_def)
    show "set (in_event_hashes ?s) = (\<lambda>(k, e). (k, sd_event sd e)) ` event_entries (accepted_chunks ?s)" by (rule hash_set)
    show "set (in_events ?s) \<subseteq> event_entries (selector_chunks ?s)"
    proof -
      have "set (in_events s) \<subseteq> event_entries (selector_chunks s)" using inv(2) by (simp add: events_inv_def)
      moreover have "(\<lambda>e. ((?k, ev_event_id e), e)) ` set us \<subseteq> (\<lambda>e. ((?k, ev_event_id e), e)) ` set (ck_events c)"
        unfolding upd by (intro image_mono) auto
      ultimately show ?thesis
        unfolding events sel by (cases "is_selector_partition (in_config s) (ck_partition c)") (simp_all add: entries le_supI1 le_supI2)
    qed
    show "fst ` set (in_events ?s) = fst ` event_entries (selector_chunks ?s)"
    proof (cases "is_selector_partition (in_config s) (ck_partition c)")
      case True
      have "set us \<subseteq> set (ck_events c)" unfolding upd by auto
      from union_image_known [OF this keys [OF _ _ True]] True inv(2) show ?thesis
        unfolding events sel by (simp add: entries image_Un image_image events_inv_def)
    qed (use inv(2) in \<open>simp add: events sel events_inv_def\<close>)
  qed
qed

section \<open>What each operation does to the state\<close>

lemma store_chunk_fields [simp]:
  "in_config (store_chunk sd c us s) = in_config s" "in_closed (store_chunk sd c us s) = in_closed s"
  "in_proof (store_chunk sd c us s) = in_proof s" "in_snapshot (store_chunk sd c us s) = in_snapshot s"
  "in_validation (store_chunk sd c us s) = in_validation s" "in_receipt (store_chunk sd c us s) = in_receipt s"
  "in_candidate_policy (store_chunk sd c us s) = in_candidate_policy s"
  by (simp_all add: store_chunk_def Let_def)

lemma accept_chunk_cases:
  assumes step: "incremental_accept_chunk ingress sd c (s, l) = (r, s', l')" and start: "is_utc (ic_run_start (in_config s))"
  obtains (kept) "s' = s"
  | (stored) us admission sn where "check_chunk_scope sd c s = Inr ()" "map_of (in_chunk_hashes s) (chunk_key c) = None"
      "check_new_chunk sd c s = Inr us" "ingress c l = (Inr admission, l')" "check_admission c us admission = Inr ()"
      "refresh (store_chunk sd c us s) = (Inr sn, (store_chunk sd c us s)\<lparr>in_snapshot := sn\<rparr>)"
      "\<not> is_terminal_status (sn_status sn)" "sn_evidences sn = []" "sn_availability sn = []"
      "r = Inr sn" "s' = (store_chunk sd c us s)\<lparr>in_snapshot := sn\<rparr>"
proof -
  have plain: "sn_evidences sn = [] \<and> sn_availability sn = []" if "provisional_snapshot t ds = Inr sn" for t ds sn
    using that by (auto simp: provisional_snapshot_def plain_snapshot_def)
  show thesis
  proof (cases "check_chunk_scope sd c s = Inr () \<and> map_of (in_chunk_hashes s) (chunk_key c) = None
      \<and> (\<exists>us admission. check_new_chunk sd c s = Inr us \<and> ingress c l = (Inr admission, l') \<and> check_admission c us admission = Inr ()
        \<and> (r, s') = refresh (store_chunk sd c us s))")
    case True
    then obtain us admission where u: "check_chunk_scope sd c s = Inr ()" "map_of (in_chunk_hashes s) (chunk_key c) = None"
      "check_new_chunk sd c s = Inr us" "ingress c l = (Inr admission, l')" "check_admission c us admission = Inr ()"
      "(r, s') = refresh (store_chunk sd c us s)" by blast
    obtain sn where sn: "refresh (store_chunk sd c us s) = (Inr sn, (store_chunk sd c us s)\<lparr>in_snapshot := sn\<rparr>)"
      "\<not> is_terminal_status (sn_status sn)" "provisional_snapshot (store_chunk sd c us s) (chunk_coverage_diagnostics (store_chunk sd c us s)) = Inr sn"
      using refresh_total [of "store_chunk sd c us s"] start by auto
    show thesis by (rule stored [OF u(1-5) sn(1,2)]) (use plain [OF sn(3)] u(6) sn(1) in auto)
  next
    case False
    with step have "s' = s"
      unfolding incremental_accept_chunk_def chunk_key_def
      by (auto split: sum.splits option.splits prod.splits if_splits)
    then show thesis by (rule kept)
  qed
qed

lemma accept_close_cases:
  assumes step: "incremental_accept_run_closed rc s = (r, s')" and start: "is_utc (ic_run_start (in_config s))"
  obtains (kept) "s' = s"
  | (closed) sn where "in_closed s = None" "cl_run_id rc = ic_run_id (in_config s)" "refresh (s\<lparr>in_closed := Some rc\<rparr>) = (Inr sn, s\<lparr>in_closed := Some rc, in_snapshot := sn\<rparr>)"
      "\<not> is_terminal_status (sn_status sn)" "sn_evidences sn = []" "sn_availability sn = []" "r = Inr sn" "s' = s\<lparr>in_closed := Some rc, in_snapshot := sn\<rparr>"
proof -
  obtain sn where sn: "refresh (s\<lparr>in_closed := Some rc\<rparr>) = (Inr sn, s\<lparr>in_closed := Some rc, in_snapshot := sn\<rparr>)"
    "\<not> is_terminal_status (sn_status sn)" "provisional_snapshot (s\<lparr>in_closed := Some rc\<rparr>) (chunk_coverage_diagnostics (s\<lparr>in_closed := Some rc\<rparr>)) = Inr sn"
    using refresh_total [of "s\<lparr>in_closed := Some rc\<rparr>"] start by auto
  have plain: "sn_evidences sn = [] \<and> sn_availability sn = []"
    using sn(3) by (auto simp: provisional_snapshot_def plain_snapshot_def)
  have "s' = s \<or> (in_closed s = None \<and> cl_run_id rc = ic_run_id (in_config s) \<and> (r, s') = refresh (s\<lparr>in_closed := Some rc\<rparr>))"
    using step by (auto simp: incremental_accept_run_closed_def split: option.splits sum.splits if_splits)
  then show thesis using kept closed sn plain by auto
qed

text \<open>The Evidence a finalisation confirms, and the snapshot that shows it.\<close>

definition final_events :: "finalisation \<Rightarrow> incremental_state \<Rightarrow> normalized_event list" where
  "final_events f s = (case fi_cutoff f of None \<Rightarrow> ordered_events s | Some t \<Rightarrow> eligible_events s t)"

definition confirmed :: "evidence_namer \<Rightarrow> finalisation \<Rightarrow> datetime \<Rightarrow> selected_evidence_result \<Rightarrow> incremental_state \<Rightarrow> bool" where
  "confirmed nm f t r s \<longleftrightarrow>
     run_r1_evidence_pipeline_with_selector nm (final_events f s) (ic_selector (in_config s)) (ic_approved (in_config s))
       (Some (ic_run_start (in_config s))) = Inr r
     \<and> slr_selection (ser_selector_result r) \<noteq> None \<and> ser_diagnostics r = []
     \<and> sn_status (in_snapshot s) = Finalized \<and> sn_evidences (in_snapshot s) = ser_evidences r
     \<and> sn_selector_result (in_snapshot s) = ser_selector_result r \<and> sn_close_mode (in_snapshot s) = Some (fi_mode f)
     \<and> sn_boundary_at (in_snapshot s) = Some (fi_boundary_at f) \<and> sn_available_at (in_snapshot s) = Some t
     \<and> availability_of r t = Inr (sn_availability (in_snapshot s))
     \<and> (\<forall>e \<in> set (ser_evidences r). instant (evd_timestamp e) \<le> instant t) \<and> instant (fi_available_at f) \<le> instant t
     \<and> (\<not> fi_observe f \<longrightarrow> t = fi_available_at f)"

text \<open>A state that has failed: no Evidence is shown.\<close>

definition failed_state :: "incremental_state \<Rightarrow> incremental_state \<Rightarrow> bool" where
  "failed_state s s' \<longleftrightarrow> (\<exists>sn. s' = s\<lparr>in_snapshot := sn\<rparr> \<and> sn_status sn = FailedClosed \<and> sn_evidences sn = [] \<and> sn_availability sn = [])"

lemma fail_closed_failed: "failed_state s (fail_closed ds s)"
  by (auto simp: failed_state_def fail_closed_def plain_snapshot_def)

lemma finish_cases:
  assumes "finish_evidence pd f r t s = (res, s')"
  obtains (kept) "s' = s" | (failed) "failed_state s s'"
  | (final) availability where "\<forall>e \<in> set (ser_evidences r). instant (evd_timestamp e) \<le> instant t" "availability_of r t = Inr availability"
      "s' = s\<lparr>in_snapshot := (closed_snapshot Finalized f t r (fi_diagnostics f))
          \<lparr>sn_evidences := ser_evidences r, sn_availability := availability,
           sn_proof_id := map_option pf_proof_id (in_proof s), sn_proof_sha := map_option (pd_whole pd) (in_proof s)\<rparr>\<rparr>"
proof (cases "\<exists>e \<in> set (ser_evidences r). instant t < instant (evd_timestamp e)")
  case True
  then have "failed_state s s'"
    using assms by (auto simp: finish_evidence_def put_snapshot_def failed_state_def closed_snapshot_def plain_snapshot_def)
  then show thesis by (rule failed)
next
  case False
  then have le: "\<forall>e \<in> set (ser_evidences r). instant (evd_timestamp e) \<le> instant t" by (simp add: not_less)
  show thesis
  proof (cases "availability_of r t")
    case (Inl e)
    with assms False show thesis using kept by (simp add: finish_evidence_def)
  next
    case (Inr av)
    with assms False have "s' = s\<lparr>in_snapshot := (closed_snapshot Finalized f t r (fi_diagnostics f))
          \<lparr>sn_evidences := ser_evidences r, sn_availability := av,
           sn_proof_id := map_option pf_proof_id (in_proof s), sn_proof_sha := map_option (pd_whole pd) (in_proof s)\<rparr>\<rparr>"
      by (simp add: finish_evidence_def put_snapshot_def)
    with le Inr show thesis by (rule final)
  qed
qed

lemma ordered_events_snapshot [simp]:
  "ordered_events (s\<lparr>in_snapshot := sn\<rparr>) = ordered_events s" "final_events f (s\<lparr>in_snapshot := sn\<rparr>) = final_events f s"
  by (simp_all add: ordered_events_def final_events_def eligible_events_def split: option.split)

lemma finalise_cases:
  assumes step: "finalise nm pd now f s = (res, s')"
  obtains (kept) "s' = s" | (failed) "failed_state s s'"
  | (final) t r where "confirmed nm f t r s'" "s' = s\<lparr>in_snapshot := in_snapshot s'\<rparr>"
proof -
  have run: "finalise nm pd now f s = (case run_r1_evidence_pipeline_with_selector nm (final_events f s) (ic_selector (in_config s))
       (ic_approved (in_config s)) (Some (ic_run_start (in_config s))) of
        Inl e \<Rightarrow> (Inl e, s)
      | Inr r \<Rightarrow>
          if slr_selection (ser_selector_result r) = None \<or> ser_diagnostics r \<noteq> []
          then put_snapshot ((closed_snapshot FailedClosed f (fi_available_at f) r
              (fi_diagnostics f @ map selector_text (slr_diagnostics (ser_selector_result r)) @ map diagnostic_text (ser_diagnostics r)))
            \<lparr>sn_extraction_diagnostics := ser_diagnostics r\<rparr>) s
          else if fi_observe f then (case evidence_ready_at now (fi_available_at f) of
            Inl (ds, e) \<Rightarrow> (Inl e, fail_closed ds s)
          | Inr t \<Rightarrow> finish_evidence pd f r t s)
          else finish_evidence pd f r (fi_available_at f) s)"
    by (simp add: finalise_def final_events_def)
  show thesis
  proof (cases "run_r1_evidence_pipeline_with_selector nm (final_events f s) (ic_selector (in_config s)) (ic_approved (in_config s)) (Some (ic_run_start (in_config s)))")
    case (Inl e)
    with step run show thesis using kept by simp
  next
    case (Inr r)
    have finish: thesis if "finish_evidence pd f r t s = (res, s')" "slr_selection (ser_selector_result r) \<noteq> None" "ser_diagnostics r = []"
      "instant (fi_available_at f) \<le> instant t" "\<not> fi_observe f \<longrightarrow> t = fi_available_at f" for t
      using that(1)
    proof (cases rule: finish_cases)
      case fin: (final av)
      have "confirmed nm f t r s'"
        unfolding confirmed_def using fin Inr that
        by (auto simp: closed_snapshot_def plain_snapshot_def)
      then show thesis by (rule final) (simp add: fin(3))
    qed (use kept failed in blast)+
    show thesis
    proof (cases "slr_selection (ser_selector_result r) = None \<or> ser_diagnostics r \<noteq> []")
      case True
      then have "failed_state s s'"
        using step run Inr by (auto simp: put_snapshot_def failed_state_def closed_snapshot_def plain_snapshot_def)
      then show thesis by (rule failed)
    next
      case False
      show thesis
      proof (cases "fi_observe f")
        case True
        show thesis
        proof (cases "evidence_ready_at now (fi_available_at f)")
          case (Inl x)
          then obtain ds e where x: "evidence_ready_at now (fi_available_at f) = Inl (ds, e)" by (cases x) simp
          have "s' = fail_closed ds s" using step run Inr False True x by simp
          then show thesis using failed fail_closed_failed by simp
        next
          case t: (Inr t)
          then have "instant (fi_available_at f) \<le> instant t" by (auto simp: evidence_ready_at_def split: sum.splits if_splits)
          with finish [of t] step run Inr False True t show thesis by simp
        qed
      next
        case obs: False
        with finish [of "fi_available_at f"] step run Inr False show thesis by simp
      qed
    qed
  qed
qed

section \<open>Finalisation by either path\<close>

definition proof_recorded :: "incremental_state \<Rightarrow> incremental_state \<Rightarrow> bool" where
  "proof_recorded s s' \<longleftrightarrow> (\<exists>p v r c. s' = s\<lparr>in_proof := p, in_validation := v, in_receipt := r, in_candidate_policy := c\<rparr>)"

lemma proof_recorded_refl [simp]: "proof_recorded s s"
  by (auto simp: proof_recorded_def intro!: exI [of _ "in_proof s"] exI [of _ "in_validation s"] exI [of _ "in_receipt s"]
      exI [of _ "in_candidate_policy s"])

lemma coverage_cong:
  assumes "in_config s' = in_config s" "in_closed s' = in_closed s" "in_sequences s' = in_sequences s"
  shows "chunk_coverage_diagnostics s' = chunk_coverage_diagnostics s"
proof -
  have "accepted_sequences s' = accepted_sequences s" by (simp add: fun_eq_iff accepted_sequences_def assms)
  then have covers: "coverage_of s' = coverage_of s" by (simp add: fun_eq_iff coverage_of_def)
  have finals: "final_by_partition s' = final_by_partition s" by (simp add: fun_eq_iff final_by_partition_def assms)
  show ?thesis unfolding chunk_coverage_diagnostics_def covers finals assms ..
qed

lemma watermark_coverage_cong:
  assumes "in_config s' = in_config s" "in_closed s' = in_closed s"
  shows "require_watermark_coverage s' b = require_watermark_coverage s b"
  unfolding require_watermark_coverage_def assms ..

lemma ordered_cong: "in_events s' = in_events s \<Longrightarrow> ordered_events s' = ordered_events s"
  by (simp add: ordered_events_def)

lemma verified_close_cong:
  assumes "in_config s' = in_config s" "in_closed s' = in_closed s" "in_events s' = in_events s"
  shows "check_verified_close pd sd p b s' = check_verified_close pd sd p b s"
proof -
  have latest: "latest_verified_input_ingest_time s' = latest_verified_input_ingest_time s"
    unfolding latest_verified_input_ingest_time_def ordered_cong [OF assms(3)] assms(1) ..
  show ?thesis unfolding check_verified_close_def watermark_coverage_cong [OF assms(1,2)] latest assms(1) ..
qed

lemma check_verified_closeD:
  assumes "check_verified_close pd sd p b s = Inr (v, t)"
  shows "require_watermark_coverage s (pf_boundary_at p) = Inr ()" "require_exact_target_partitions (in_config s) (pf_partitions p) = Inr ()"
    "\<exists>ps latest. required_stream_partitions (in_config s) = Inr ps \<and> latest_verified_input_ingest_time s = Inr latest
      \<and> (\<exists>q \<in> set ps. validate_proof pd sd p (tb_closed b) (tb_receipt b) (tb_policy b) (expectation_of (in_config s) b q) (tb_validated_at b) = Inr v)
      \<and> latest_timestamp [cl_emitted_at (tb_closed b), pf_boundary_at p, pf_seal_at p, pf_created_at p, pv_validated_at v, latest] = Inr t
      \<and> instant t = instant (pv_validated_at v)"
proof -
  from assms obtain ps vs where ps: "required_stream_partitions (in_config s) = Inr ps"
    "require_exact_target_partitions (in_config s) (pf_partitions p) = Inr ()"
    "map_result (\<lambda>q. validate_proof pd sd p (tb_closed b) (tb_receipt b) (tb_policy b) (expectation_of (in_config s) b q) (tb_validated_at b)) ps = Inr vs"
    and rest: "(case vs of
        [] \<Rightarrow> Inl (ValueError ''required-partition contract must not be empty'')
      | v # us \<Rightarrow>
          seq (raise_if (\<exists>x \<in> set vs. instant (pv_validated_at x) \<noteq> instant (pv_validated_at v))
            (ValueError ''proof validation time changed across required partitions''))
          (seq (require_watermark_coverage s (pf_boundary_at p))
          (bnd (latest_verified_input_ingest_time s) (\<lambda>latest.
           bnd (latest_timestamp [cl_emitted_at (tb_closed b), pf_boundary_at p, pf_seal_at p, pf_created_at p, pv_validated_at v, latest]) (\<lambda>available_at.
           seq (raise_if (instant available_at \<noteq> instant (pv_validated_at v))
             (ValueError ''proof_validated_at must not precede any accepted finalization input''))
           (Inr (v, available_at))))))) = Inr (v, t)"
    unfolding check_verified_close_def bnd_ok seq_ok by blast
  obtain u us where vs: "vs = u # us" using rest by (cases vs) auto
  note rest' = rest [unfolded vs list.case bnd_ok seq_ok]
  from rest' have u: "u = v" "require_watermark_coverage s (pf_boundary_at p) = Inr ()" by blast+
  then show "require_watermark_coverage s (pf_boundary_at p) = Inr ()" "require_exact_target_partitions (in_config s) (pf_partitions p) = Inr ()"
    using ps(2) by blast+
  obtain q qs where q: "ps = q # qs" using ps(3) vs by (cases ps) auto
  then have "validate_proof pd sd p (tb_closed b) (tb_receipt b) (tb_policy b) (expectation_of (in_config s) b q) (tb_validated_at b) = Inr v"
    using ps(3) vs u(1) by (simp only: map_result_ok list_all2_Cons)
  moreover from rest' obtain latest where "latest_verified_input_ingest_time s = Inr latest"
    "latest_timestamp [cl_emitted_at (tb_closed b), pf_boundary_at p, pf_seal_at p, pf_created_at p, pv_validated_at v, latest] = Inr t"
    "instant t = instant (pv_validated_at v)"
    unfolding raise_if_ok u(1) by blast
  ultimately show "\<exists>ps latest. required_stream_partitions (in_config s) = Inr ps \<and> latest_verified_input_ingest_time s = Inr latest
      \<and> (\<exists>q \<in> set ps. validate_proof pd sd p (tb_closed b) (tb_receipt b) (tb_policy b) (expectation_of (in_config s) b q) (tb_validated_at b) = Inr v)
      \<and> latest_timestamp [cl_emitted_at (tb_closed b), pf_boundary_at p, pf_seal_at p, pf_created_at p, pv_validated_at v, latest] = Inr t
      \<and> instant t = instant (pv_validated_at v)"
    using ps(1) q by (intro exI [of _ ps] exI [of _ latest]) auto
qed

text \<open>How a confirmed state came to be closed.\<close>

definition close_path :: "proof_digests \<Rightarrow> stream_digests \<Rightarrow> finalisation \<Rightarrow> incremental_state \<Rightarrow> bool" where
  "close_path pd sd f s \<longleftrightarrow>
     (fi_mode f = RunEndFallback \<and> fi_cutoff f = Some (fi_boundary_at f) \<and> fi_available_at f = fi_boundary_at f \<and> \<not> fi_observe f)
     \<or> (\<exists>p b v. fi_mode f = VerifiedCloseProof \<and> fi_cutoff f = None \<and> fi_boundary_at f = pf_boundary_at p
         \<and> in_proof s = Some p \<and> in_closed s = Some (tb_closed b) \<and> check_verified_close pd sd p b s = Inr (v, fi_available_at f))"

definition snapshot_inv :: "evidence_namer \<Rightarrow> proof_digests \<Rightarrow> stream_digests \<Rightarrow> incremental_state \<Rightarrow> bool" where
  "snapshot_inv nm pd sd s \<longleftrightarrow> (is_terminal_status (sn_status (in_snapshot s)) \<longrightarrow> in_closed s \<noteq> None)
     \<and> (sn_status (in_snapshot s) \<noteq> Finalized \<longrightarrow> sn_evidences (in_snapshot s) = [] \<and> sn_availability (in_snapshot s) = [])
     \<and> (sn_status (in_snapshot s) = Finalized \<longrightarrow> chunk_coverage_diagnostics s = []
         \<and> (\<exists>f t r. confirmed nm f t r s \<and> close_path pd sd f s \<and> require_watermark_coverage s (fi_boundary_at f) = Inr ()))"

lemma final_snapshot_inv:
  assumes "confirmed nm f t r s'" "s' = s\<lparr>in_snapshot := in_snapshot s'\<rparr>" "close_path pd sd f s"
    and "require_watermark_coverage s (fi_boundary_at f) = Inr ()" "chunk_coverage_diagnostics s = []" "in_closed s \<noteq> None"
  shows "snapshot_inv nm pd sd s'"
proof -
  have eq: "in_config s' = in_config s" "in_closed s' = in_closed s" "in_sequences s' = in_sequences s" "in_events s' = in_events s" "in_proof s' = in_proof s"
    by (subst assms(2), simp)+
  have "close_path pd sd f s'" using assms(3) by (auto simp: close_path_def eq verified_close_cong [OF eq(1,2,4)])
  moreover have "chunk_coverage_diagnostics s' = []" "require_watermark_coverage s' (fi_boundary_at f) = Inr ()"
    using coverage_cong [OF eq(1,2,3)] watermark_coverage_cong [OF eq(1,2)] assms(4,5) by simp_all
  ultimately show ?thesis using assms(1,6) eq(2) by (auto simp: snapshot_inv_def confirmed_def)
qed

lemma failed_snapshot_inv:
  assumes "failed_state s s'" "in_closed s \<noteq> None"
  shows "snapshot_inv nm pd sd s'"
  using assms by (auto simp: failed_state_def snapshot_inv_def)

text \<open>Only the snapshot changes, and only by closing.\<close>

definition closes_from :: "incremental_state \<Rightarrow> incremental_state \<Rightarrow> bool" where
  "closes_from s s' \<longleftrightarrow> s' = s\<lparr>in_snapshot := in_snapshot s'\<rparr>
     \<and> (is_terminal_status (sn_status (in_snapshot s')) \<or> in_snapshot s' = in_snapshot s)"

lemma closes_from_refl [simp]: "closes_from s s"
  by (simp add: closes_from_def)

lemma failed_closes: "failed_state s s' \<Longrightarrow> closes_from s s'"
  by (auto simp: failed_state_def closes_from_def is_terminal_status_def)

lemma confirmed_closes: "confirmed nm f t r s' \<Longrightarrow> s' = s\<lparr>in_snapshot := in_snapshot s'\<rparr> \<Longrightarrow> closes_from s s'"
  by (simp add: closes_from_def is_terminal_status_def confirmed_def)

lemma run_end_inv:
  assumes step: "finalize_at_run_end nm pd t s = (r, s')" and inv: "snapshot_inv nm pd sd s"
  shows "snapshot_inv nm pd sd s'" "is_terminal_status (sn_status (in_snapshot s)) \<Longrightarrow> s' = s" "closes_from s s'"
proof -
  show terminal: "is_terminal_status (sn_status (in_snapshot s)) \<Longrightarrow> s' = s"
    using step by (auto simp: finalize_at_run_end_def split: sum.splits if_splits)
  show "snapshot_inv nm pd sd s'" "closes_from s s'"
  proof -
    consider (kept) "s' = s"
      | (uncovered) "in_closed s \<noteq> None" "failed_state s s'"
      | (final) run_end where "in_closed s \<noteq> None" "chunk_coverage_diagnostics s = []" "require_watermark_coverage s run_end = Inr ()"
          "finalise nm pd run_end \<lparr>fi_boundary_at = run_end, fi_available_at = run_end, fi_mode = RunEndFallback,
               fi_diagnostics = [''Role2-safe verified close proof is unavailable; used run_end fallback''],
               fi_cutoff = Some run_end, fi_version = ''v0.1'', fi_observe = False\<rparr> s = (r, s')"
    proof (cases "bnd (validate_utc_milliseconds ''authoritative_run_end'' t) (\<lambda>run_end.
        seq (raise_if (instant run_end < instant (ic_run_start (in_config s))) (ValueError ''authoritative_run_end must not precede run_start''))
        (Inr run_end))")
      case (Inl e)
      with step show thesis using kept by (simp add: finalize_at_run_end_def)
    next
      case (Inr run_end)
      note run = step [unfolded finalize_at_run_end_def Inr sum.case]
      consider "is_terminal_status (sn_status (in_snapshot s)) \<or> in_closed s = None"
        | "\<not> is_terminal_status (sn_status (in_snapshot s))" "in_closed s \<noteq> None" "chunk_coverage_diagnostics s \<noteq> []"
        | "\<not> is_terminal_status (sn_status (in_snapshot s))" "in_closed s \<noteq> None" "chunk_coverage_diagnostics s = []" by blast
      then show thesis
      proof cases
        case 1
        then show thesis using run kept by (auto split: if_splits)
      next
        case 2
        then have "failed_state s s'"
          using run by (auto simp: put_snapshot_def failed_state_def plain_snapshot_def)
        with 2 show thesis using uncovered by blast
      next
        case 3
        then show thesis using run kept final by (cases "require_watermark_coverage s run_end") auto
      qed
    qed
    then have "snapshot_inv nm pd sd s' \<and> closes_from s s'"
    proof cases
      case final
      from final(4) show ?thesis
      proof (cases rule: finalise_cases)
        case fin: (final u q)
        have "snapshot_inv nm pd sd s'" by (rule final_snapshot_inv [OF fin]) (use final(1-3) in \<open>simp_all add: close_path_def\<close>)
        then show ?thesis using confirmed_closes [OF fin] by blast
      next
        case failed
        then show ?thesis using final(1) failed_snapshot_inv failed_closes by blast
      qed (use inv in simp)
    next
      case uncovered
      then show ?thesis using failed_snapshot_inv failed_closes by blast
    qed (use inv in simp)
    then show "snapshot_inv nm pd sd s'" "closes_from s s'" by blast+
  qed
qed

lemma proof_recorded_inv:
  assumes "proof_recorded s s'" "snapshot_inv nm pd sd s" "sn_status (in_snapshot s) \<noteq> Finalized"
  shows "snapshot_inv nm pd sd s'"
  using assms by (auto simp: proof_recorded_def snapshot_inv_def)

lemma verified_close_inv:
  assumes step: "incremental_accept_verified_close_proof nm pd sd now p b s = (r, s')" and inv: "snapshot_inv nm pd sd s"
  shows "snapshot_inv nm pd sd s'" "is_terminal_status (sn_status (in_snapshot s)) \<Longrightarrow> s' = s"
    "\<exists>s0. proof_recorded s s0 \<and> closes_from s0 s'"
proof -
  show "is_terminal_status (sn_status (in_snapshot s)) \<Longrightarrow> s' = s"
    using step by (auto simp: incremental_accept_verified_close_proof_def split: sum.splits if_splits)
  show "snapshot_inv nm pd sd s'" "\<exists>s0. proof_recorded s s0 \<and> closes_from s0 s'"
  proof -
    consider (kept) "s' = s"
      | (failed) "in_closed s \<noteq> None" "failed_state s s'"
      | (final) v t where "in_closed s = Some (tb_closed b)" "chunk_coverage_diagnostics s = []" "\<not> is_terminal_status (sn_status (in_snapshot s))"
          "check_verified_close pd sd p b s = Inr (v, t)"
          "finalise nm pd now \<lparr>fi_boundary_at = pf_boundary_at p, fi_available_at = t, fi_mode = VerifiedCloseProof,
             fi_diagnostics = [''Role2-safe verified close proof finalized incremental Evidence''],
             fi_cutoff = None, fi_version = ''v0.2'', fi_observe = True\<rparr>
            (s\<lparr>in_proof := Some p, in_validation := Some v, in_receipt := Some (tb_receipt b), in_candidate_policy := Some (tb_policy b)\<rparr>) = (r, s')"
      using step fail_closed_failed
      by (auto simp: incremental_accept_verified_close_proof_def Let_def split: sum.splits if_splits)
    then have "snapshot_inv nm pd sd s' \<and> (\<exists>s0. proof_recorded s s0 \<and> closes_from s0 s')"
    proof cases
      case final
      let ?s0 = "s\<lparr>in_proof := Some p, in_validation := Some v, in_receipt := Some (tb_receipt b), in_candidate_policy := Some (tb_policy b)\<rparr>"
      have rec: "proof_recorded s ?s0" unfolding proof_recorded_def by blast
      have eq: "chunk_coverage_diagnostics ?s0 = []" "check_verified_close pd sd p b ?s0 = Inr (v, t)"
        using final(2,4) coverage_cong [of ?s0 s] verified_close_cong [of ?s0 s] by simp_all
      have water: "require_watermark_coverage ?s0 (pf_boundary_at p) = Inr ()"
        using check_verified_closeD(1) [OF eq(2)] .
      from final(5) show ?thesis
      proof (cases rule: finalise_cases)
        case kept
        then show ?thesis using proof_recorded_inv [OF rec inv] rec final(3) by (auto simp: is_terminal_status_def intro!: exI [of _ ?s0])
      next
        case failed
        then show ?thesis using rec final(1) failed_snapshot_inv [OF failed] failed_closes by auto
      next
        case fin: (final u q)
        have "snapshot_inv nm pd sd s'"
          by (rule final_snapshot_inv [OF fin]) (use final(1) eq water in \<open>auto simp: close_path_def\<close>)
        with rec confirmed_closes [OF fin] show ?thesis by blast
      qed
    next
      case failed
      then show ?thesis using failed_snapshot_inv [OF failed(2,1)] failed_closes proof_recorded_refl by blast
    qed (use inv proof_recorded_refl closes_from_refl in blast)
    then show "snapshot_inv nm pd sd s'" "\<exists>s0. proof_recorded s s0 \<and> closes_from s0 s'" by blast+
  qed
qed

end
