(* ===== verification/IncrementalCorrectness.thy ===== *)
theory IncrementalCorrectness
  imports IncrementalFacts
begin

text \<open>
  What holds of every reachable incremental state: its dictionaries, what a confirmed snapshot
  rests on, that a terminal state stays as it is, and that the order of the deliveries leaves no trace.
\<close>

section \<open>Reachable states\<close>

definition incremental_inv :: "string set \<Rightarrow> stream_digests \<Rightarrow> evidence_namer \<Rightarrow> proof_digests \<Rightarrow> incremental_config
    \<Rightarrow> incremental_state \<Rightarrow> bool" where
  "incremental_inv event_types sd nm pd cfg s \<longleftrightarrow> in_config s = cfg \<and> is_utc (ic_run_start cfg) \<and> chunks_inv event_types sd s
     \<and> events_inv sd s \<and> snapshot_inv nm pd sd s \<and> (\<forall>rc. in_closed s = Some rc \<longrightarrow> run_closed_ok rc \<and> cl_run_id rc = ic_run_id cfg)
     \<and> (\<not> is_terminal_status (sn_status (in_snapshot s)) \<longrightarrow> provisional_snapshot s (chunk_coverage_diagnostics s) = Inr (in_snapshot s))"

lemma provisional_cong:
  assumes "in_config s' = in_config s" "in_events s' = in_events s"
  shows "provisional_snapshot s' ds = provisional_snapshot s ds"
  unfolding provisional_snapshot_def ordered_cong [OF assms(2)] assms(1) ..

text \<open>A refreshed state shows what its own events select.\<close>

lemma refreshed:
  assumes "refresh s = (Inr sn, s\<lparr>in_snapshot := sn\<rparr>)" "s' = s\<lparr>in_snapshot := sn\<rparr>"
  shows "provisional_snapshot s' (chunk_coverage_diagnostics s') = Inr (in_snapshot s')"
proof -
  have "provisional_snapshot s (chunk_coverage_diagnostics s) = Inr sn" using assms(1) by (auto simp: refresh_def split: sum.splits)
  moreover have "in_config s' = in_config s" "in_closed s' = in_closed s" "in_sequences s' = in_sequences s" "in_events s' = in_events s"
    "in_snapshot s' = sn" by (simp_all add: assms(2))
  ultimately show ?thesis using coverage_cong provisional_cong by metis
qed

lemma new_incremental_inv:
  assumes "new_incremental cfg = Inr s"
  shows "incremental_inv event_types sd nm pd cfg s"
proof -
  obtain cfg' sn where c: "check_incremental_config cfg = Inr cfg'" "provisional_snapshot (empty_incremental cfg') [] = Inr sn"
    "s = (empty_incremental cfg')\<lparr>in_snapshot := sn\<rparr>" using assms by (auto simp: new_incremental_def)
  have cfg: "cfg' = cfg" "is_utc (ic_run_start cfg)" using check_config_ok [OF c(1)] by blast+
  have "\<not> is_terminal_status (sn_status sn) \<and> sn_evidences sn = [] \<and> sn_availability sn = []"
    using c(2) by (auto simp: provisional_snapshot_def plain_snapshot_def is_terminal_status_def split: if_splits)
  moreover have "provisional_snapshot s [] = Inr (in_snapshot s)" "chunk_coverage_diagnostics s = []"
    using c(2) provisional_cong [of s "empty_incremental cfg'"] by (simp_all add: c(3) empty_incremental_def chunk_coverage_diagnostics_def)
  ultimately show ?thesis
    using cfg c(3)
    by (auto simp: incremental_inv_def empty_incremental_def chunks_inv_def events_inv_def snapshot_inv_def event_entries_def
        accepted_chunks_def selector_chunks_def is_terminal_status_def)
qed

lemma snapshot_inv_open:
  assumes "\<not> is_terminal_status (sn_status (in_snapshot s))" "sn_evidences (in_snapshot s) = []" "sn_availability (in_snapshot s) = []"
  shows "snapshot_inv nm pd sd s"
  using assms by (auto simp: snapshot_inv_def is_terminal_status_def)

lemma closed_inv:
  assumes inv: "incremental_inv event_types sd nm pd cfg s" and rec: "proof_recorded s s0" and closes: "closes_from s0 s'"
    and snap: "snapshot_inv nm pd sd s'"
  shows "incremental_inv event_types sd nm pd cfg s'"
proof -
  have s': "s' = s0\<lparr>in_snapshot := in_snapshot s'\<rparr>" using closes unfolding closes_from_def by blast
  have same: "same_inputs s s0 \<and> in_closed s0 = in_closed s" using rec by (auto simp: proof_recorded_def same_inputs_def)
  have eq: "same_inputs s s'" "in_closed s' = in_closed s" "in_config s' = in_config s" "in_events s' = in_events s" "in_sequences s' = in_sequences s"
    by (subst s', use same in \<open>simp add: same_inputs_def\<close>)+
  have "is_terminal_status (sn_status (in_snapshot s')) \<or> in_snapshot s' = in_snapshot s"
    using rec closes by (auto simp: proof_recorded_def closes_from_def)
  then show ?thesis
    using inv snap same_inputs_inv [OF eq(1)] eq coverage_cong [OF eq(3,2,5)] provisional_cong [OF eq(3,4)]
    by (auto simp: incremental_inv_def)
qed

lemma step_inv:
  assumes step: "incremental_step event_types ingress sd nm pd (s, l) (s', l')" and inv: "incremental_inv event_types sd nm pd cfg s"
  shows "incremental_inv event_types sd nm pd cfg s' \<and> (is_terminal_status (sn_status (in_snapshot s)) \<longrightarrow> s' = s)"
proof -
  have start: "is_utc (ic_run_start (in_config s))" and snap: "snapshot_inv nm pd sd s"
    and data: "chunks_inv event_types sd s" "events_inv sd s" using inv by (auto simp: incremental_inv_def)
  from step show ?thesis
  proof cases
    case (deliver_chunk c r)
    from deliver_chunk(2) start show ?thesis
    proof (cases rule: accept_chunk_cases)
      case (stored us admission sn)
      note stored' = stored_chunk [OF data deliver_chunk(1) stored(1,2,3)]
      have "same_inputs (store_chunk sd c us s) s'" unfolding stored(11) same_inputs_def by simp
      then have "chunks_inv event_types sd s'" "events_inv sd s'" using same_inputs_inv stored'(2,3) by blast+
      moreover have "snapshot_inv nm pd sd s'" using stored(7,8,9,11) by (intro snapshot_inv_open) simp_all
      ultimately show ?thesis
        using inv stored(11) check_new_chunk_ok(1) [OF stored(3)] refreshed [OF stored(6,11)] by (simp add: incremental_inv_def)
    qed (use inv in simp)
  next
    case (deliver_close rc r)
    from deliver_close(3) start show ?thesis
    proof (cases rule: accept_close_cases)
      case (closed sn)
      have "same_inputs s s'" unfolding closed(8) same_inputs_def by simp
      then have "chunks_inv event_types sd s'" "events_inv sd s'" using same_inputs_inv data by blast+
      moreover have "snapshot_inv nm pd sd s'" using closed(4,5,6,8) by (intro snapshot_inv_open) simp_all
      moreover have "\<not> is_terminal_status (sn_status (in_snapshot s))" using snap closed(1) by (auto simp: snapshot_inv_def)
      moreover have "provisional_snapshot s' (chunk_coverage_diagnostics s') = Inr (in_snapshot s')"
        by (rule refreshed [OF closed(3)]) (simp add: closed(8))
      ultimately show ?thesis
        using inv closed(2,8) deliver_close by (simp add: incremental_inv_def)
    qed (use inv in simp)
  next
    case (run_end t r)
    note facts = run_end_inv [OF run_end(2) snap]
    with proof_recorded_refl show ?thesis using closed_inv [OF inv] by blast
  next
    case (verified_close now p b r)
    note facts = verified_close_inv [OF verified_close(2) snap]
    then show ?thesis using closed_inv [OF inv] by blast
  next
    case ledger_moves
    then show ?thesis using inv by simp
  qed
qed

lemma reachable_inv:
  "incremental_reachable event_types ingress sd nm pd cfg sl \<Longrightarrow> incremental_inv event_types sd nm pd cfg (fst sl)"
proof (induction rule: incremental_reachable.induct)
  case (created s l)
  then show ?case using new_incremental_inv by simp
next
  case (stepped sl sl')
  then show ?case using step_inv [of event_types ingress sd nm pd "fst sl" "snd sl" "fst sl'" "snd sl'"] by simp
qed

section \<open>Coverage\<close>

lemma sequences_eq:
  assumes "chunks_inv event_types sd s"
  shows "in_sequences s = map (\<lambda>c. ((partition_key (ck_partition c), ck_sequence c), ck_chunk_id c)) (map snd (in_chunks s))"
  using assms by (auto simp: chunks_inv_def chunk_key_def)

lemma accepted_sequences_set:
  assumes "chunks_inv event_types sd s"
  shows "set (accepted_sequences s k) = {ck_sequence c | c. c \<in> accepted_chunks s \<and> partition_key (ck_partition c) = k \<and> is_required_key (in_config s) k}"
  unfolding accepted_sequences_def sequences_eq [OF assms] accepted_chunks_def by (auto simp: filter_map comp_def)

text \<open>No diagnostics: every required partition was closed and received exactly the chunks the close covers.\<close>

definition fully_covered :: "incremental_state \<Rightarrow> run_closed \<Rightarrow> bool" where
  "fully_covered s rc \<longleftrightarrow>
     (\<forall>c \<in> accepted_chunks s. is_required_key (in_config s) (partition_key (ck_partition c)) \<longrightarrow> ck_partition c \<in> fw_partition ` set (cl_finals rc))
     \<and> (\<forall>w \<in> set (cl_finals rc). is_required_key (in_config s) (partition_key (fw_partition w)) \<longrightarrow>
          {ck_sequence c | c. c \<in> accepted_chunks s \<and> ck_partition c = fw_partition w} = {1..fw_covered w})"

lemma sort_Nil: "sort xs = [] \<longleftrightarrow> xs = []"
  by (metis length_0_conv length_sort)

lemma both_empty: "(if xs = [] then [] else [a]) @ (if ys = [] then [] else [b]) = [] \<longleftrightarrow> xs = [] \<and> ys = []"
  by simp

lemma coverage_of_Nil:
  assumes "\<forall>n \<in> set (accepted_sequences s k). 1 \<le> n"
  shows "coverage_of s k covered = [] \<longleftrightarrow> set (accepted_sequences s k) = {1..covered}"
proof -
  let ?A = "set (accepted_sequences s k)"
  have "coverage_of s k covered = [] \<longleftrightarrow> filter (\<lambda>n. covered < n) (accepted_sequences s k) = [] \<and> filter (\<lambda>n. n \<notin> ?A) [1..covered] = []"
    unfolding coverage_of_def Let_def both_empty sort_Nil ..
  also have "\<dots> \<longleftrightarrow> ?A \<subseteq> {..covered} \<and> {1..covered} \<subseteq> ?A"
    unfolding filter_empty_conv set_upto by (auto simp: not_less)
  also have "\<dots> \<longleftrightarrow> ?A = {1..covered}" using assms by auto
  finally show ?thesis .
qed

lemma coverage_Nil:
  assumes inv: "chunks_inv event_types sd s" and rc: "in_closed s = Some rc"
  shows "chunk_coverage_diagnostics s = [] \<longleftrightarrow> fully_covered s rc"
proof -
  have pos: "\<forall>n \<in> set (accepted_sequences s k). 1 \<le> n" for k
    using inv by (auto simp: accepted_sequences_set [OF inv] chunks_inv_def accepted_chunks_def chunk_ok_def)
  have keys: "set (map (\<lambda>((k, n), c). k) (in_sequences s)) = (\<lambda>c. partition_key (ck_partition c)) ` accepted_chunks s"
    unfolding sequences_eq [OF inv] accepted_chunks_def by (simp add: image_image)
  have finals: "set (final_by_partition s rc) = (\<lambda>w. (partition_key (fw_partition w), fw_covered w)) `
      {w \<in> set (cl_finals rc). is_required_key (in_config s) (partition_key (fw_partition w))}" by (simp add: final_by_partition_def)
  have "chunk_coverage_diagnostics s = [] \<longleftrightarrow>
      (\<forall>k \<in> set (map (\<lambda>((k, n), c). k) (in_sequences s)). is_required_key (in_config s) k \<longrightarrow> k \<in> fst ` set (final_by_partition s rc))
      \<and> (\<forall>x \<in> set (final_by_partition s rc). coverage_of s (fst x) (snd x) = [])"
    unfolding chunk_coverage_diagnostics_def rc option.case Let_def
    by (simp add: filter_empty_conv case_prod_beta del: split_paired_All) blast
  also have "\<dots> \<longleftrightarrow> fully_covered s rc"
    unfolding keys finals fully_covered_def coverage_of_Nil [OF pos] accepted_sequences_set [OF inv]
    by (simp add: image_image) (auto simp: image_iff, metis)
  finally show ?thesis .
qed

end
