(* ===== verification/IncrementalOrder.thy ===== *)
theory IncrementalOrder
  imports IncrementalCorrectness
begin

text \<open>
  The order of the deliveries leaves no trace: what a state shows and what it will confirm is a
  function of its configuration, the set of its accepted chunks and the accepted close.
\<close>

section \<open>Events\<close>

definition events_of :: "event_chunk set \<Rightarrow> normalized_event set" where
  "events_of cs = (\<Union>c \<in> cs. set (ck_events c))"

lemma entry_event: "(k, e) \<in> event_entries cs \<Longrightarrow> e \<in> events_of cs"
  by (auto simp: event_entries_def events_of_def)

lemma selector_entries: "event_entries (selector_chunks s) \<subseteq> event_entries (accepted_chunks s)"
  by (auto simp: event_entries_def selector_chunks_def)

lemma events_exact:
  assumes inv: "events_inv sd s" and inj: "inj_on (sd_event sd) (events_of (accepted_chunks s))"
  shows "set (in_events s) = event_entries (selector_chunks s)"
proof
  show "set (in_events s) \<subseteq> event_entries (selector_chunks s)" using inv by (simp add: events_inv_def)
  show "event_entries (selector_chunks s) \<subseteq> set (in_events s)"
  proof
    fix x assume x: "x \<in> event_entries (selector_chunks s)"
    obtain k e where ke: "x = (k, e)" by (cases x)
    have keys: "fst ` set (in_events s) = fst ` event_entries (selector_chunks s)" using inv by (simp add: events_inv_def)
    have "k \<in> fst ` event_entries (selector_chunks s)" using x ke by (metis fst_conv image_eqI)
    then obtain e' where e': "(k, e') \<in> set (in_events s)" unfolding keys [symmetric] by auto
    have both: "(k, e) \<in> event_entries (accepted_chunks s)" "(k, e') \<in> event_entries (accepted_chunks s)"
      using x ke e' inv selector_entries [of s] unfolding events_inv_def by blast+
    have hashes: "set (in_event_hashes s) = (\<lambda>(k, e). (k, sd_event sd e)) ` event_entries (accepted_chunks s)"
      using inv by (simp add: events_inv_def)
    have "(k, sd_event sd e) \<in> set (in_event_hashes s)" "(k, sd_event sd e') \<in> set (in_event_hashes s)"
      unfolding hashes using both by force+
    then have "sd_event sd e = sd_event sd e'" using inv by (metis eq_key_imp_eq_value events_inv_def)
    then have "e = e'" using inj both entry_event by (metis inj_onD)
    with e' ke show "x \<in> set (in_events s)" by simp
  qed
qed

lemma ordered_events_unique:
  assumes "set (in_events s) = set (in_events s')" "distinct (map fst (in_events s))" "distinct (map fst (in_events s'))"
  shows "ordered_events s = ordered_events s'"
proof -
  let ?f = "\<lambda>(k :: partition_key \<times> string, e). (ev_at e, ev_event_id e, k)"
  have "mset (in_events s) = mset (in_events s')"
    using assms by (simp add: set_eq_iff_mset_eq_distinct [symmetric] distinct_map)
  moreover have "inj_on ?f (set (in_events s))"
    using assms(2) by (auto simp: inj_on_def intro: eq_key_imp_eq_value)
  ultimately have "sort_key ?f (in_events s) = sort_key ?f (in_events s')" by (rule sort_key_mset)
  then show ?thesis by (simp add: ordered_events_def)
qed

section \<open>Coverage\<close>

lemma sort_remdups_unique: "set xs = set ys \<Longrightarrow> sort (remdups xs) = sort (remdups ys)" for xs ys :: "'a::linorder list"
  by (rule sorted_distinct_set_unique) simp_all

lemma coverage_of_unique:
  assumes "set (accepted_sequences s k) = set (accepted_sequences s' k)"
  shows "coverage_of s k covered = coverage_of s' k covered"
proof -
  have dist: "distinct (accepted_sequences s k)" "distinct (accepted_sequences s' k)" by (simp_all add: accepted_sequences_def)
  have "sort (filter (\<lambda>n. covered < n) (accepted_sequences s k)) = sort (filter (\<lambda>n. covered < n) (accepted_sequences s' k))"
    by (rule sorted_distinct_set_unique) (use assms dist in simp_all)
  then show ?thesis unfolding coverage_of_def Let_def assms by (simp only:)
qed

lemma coverage_unique:
  assumes inv: "chunks_inv event_types sd s" "chunks_inv event_types' sd' s'"
    and same: "in_config s = in_config s'" "in_closed s = in_closed s'" "accepted_chunks s = accepted_chunks s'"
  shows "chunk_coverage_diagnostics s = chunk_coverage_diagnostics s'"
proof -
  have covers: "coverage_of s = coverage_of s'"
  proof (intro ext)
    fix k n
    show "coverage_of s k n = coverage_of s' k n"
      by (rule coverage_of_unique) (simp add: accepted_sequences_set [OF inv(1)] accepted_sequences_set [OF inv(2)] same)
  qed
  have finals: "final_by_partition s = final_by_partition s'" by (simp add: fun_eq_iff final_by_partition_def same)
  have keys: "set (map (\<lambda>((k, n), c). k) (in_sequences s)) = set (map (\<lambda>((k, n), c). k) (in_sequences s'))"
  proof -
    have "set (map (\<lambda>((k, n), c). k) (in_sequences s)) = (\<lambda>c. partition_key (ck_partition c)) ` accepted_chunks s"
      if "chunks_inv event_types sd s" for event_types sd s
      unfolding sequences_eq [OF that] accepted_chunks_def by (simp add: image_image)
    from this [OF inv(1)] this [OF inv(2)] same(3) show ?thesis by simp
  qed
  have "sort (remdups (filter (is_required_key (in_config s)) (map (\<lambda>((k, n), c). k) (in_sequences s))))
      = sort (remdups (filter (is_required_key (in_config s)) (map (\<lambda>((k, n), c). k) (in_sequences s'))))"
    by (rule sort_remdups_unique) (simp only: set_filter keys)
  then show ?thesis unfolding chunk_coverage_diagnostics_def covers finals same by (simp only:)
qed

section \<open>States with the same inputs\<close>

text \<open>What the operations after the last chunk look at.\<close>

definition same_view :: "incremental_state \<Rightarrow> incremental_state \<Rightarrow> bool" where
  "same_view s s' \<longleftrightarrow> in_config s = in_config s' \<and> in_closed s = in_closed s' \<and> ordered_events s = ordered_events s'
     \<and> chunk_coverage_diagnostics s = chunk_coverage_diagnostics s' \<and> in_snapshot s = in_snapshot s'"

lemma same_inputs_same_view:
  assumes inv: "incremental_inv event_types sd nm pd cfg s" "incremental_inv event_types' sd nm' pd' cfg s'"
    and inj: "inj_on (sd_event sd) (events_of (accepted_chunks s))"
    and same: "in_closed s = in_closed s'" "accepted_chunks s = accepted_chunks s'"
    and running: "\<not> is_terminal_status (sn_status (in_snapshot s))" "\<not> is_terminal_status (sn_status (in_snapshot s'))"
  shows "same_view s s'"
proof -
  have cfg: "in_config s = in_config s'" using inv by (simp add: incremental_inv_def)
  have chunks: "chunks_inv event_types sd s" "chunks_inv event_types' sd s'" and events: "events_inv sd s" "events_inv sd s'"
    using inv by (simp_all add: incremental_inv_def)
  have selector: "selector_chunks s = selector_chunks s'" by (simp add: selector_chunks_def same cfg)
  have "set (in_events s) = set (in_events s')"
    using events_exact [OF events(1) inj] events_exact [OF events(2)] inj by (simp add: selector same)
  then have ordered: "ordered_events s = ordered_events s'"
    using events by (intro ordered_events_unique) (simp_all add: events_inv_def)
  note coverage = coverage_unique [OF chunks cfg same]
  have "Inr (in_snapshot s) = provisional_snapshot s (chunk_coverage_diagnostics s)" using inv(1) running(1) by (simp add: incremental_inv_def)
  also have "\<dots> = provisional_snapshot s' (chunk_coverage_diagnostics s')" by (simp add: provisional_snapshot_def ordered cfg coverage)
  also have "\<dots> = Inr (in_snapshot s')" using inv(2) running(2) by (simp add: incremental_inv_def)
  finally have "in_snapshot s = in_snapshot s'" by simp
  with cfg same(1) ordered coverage show ?thesis by (simp add: same_view_def)
qed

text \<open>The result of an operation and the snapshot it leaves.\<close>

definition outcome :: "incremental_snapshot result \<times> incremental_state \<Rightarrow> incremental_snapshot result \<times> incremental_snapshot" where
  "outcome x = (fst x, in_snapshot (snd x))"

lemma outcome_simps [simp]:
  "outcome (r, s) = (r, in_snapshot s)"
  "outcome (put_snapshot sn s) = (Inr sn, sn)"
  by (simp_all add: outcome_def put_snapshot_def)

lemma finish_view:
  assumes "in_proof s = in_proof s'" "in_snapshot s = in_snapshot s'"
  shows "outcome (finish_evidence pd f r t s) = outcome (finish_evidence pd f r t s')"
  by (simp add: finish_evidence_def assms split: sum.split)

lemma finalise_view:
  assumes "same_view s s'" "in_proof s = in_proof s'"
  shows "outcome (finalise nm pd now f s) = outcome (finalise nm pd now f s')"
proof -
  have eq: "in_config s = in_config s'" "ordered_events s = ordered_events s'" "in_snapshot s = in_snapshot s'"
    using assms(1) by (simp_all add: same_view_def)
  have fin: "outcome (finish_evidence pd f r t s) = outcome (finish_evidence pd f r t s')" for r t
    by (rule finish_view) (use assms eq in simp_all)
  have events: "(case fi_cutoff f of None \<Rightarrow> ordered_events s | Some t \<Rightarrow> eligible_events s t)
      = (case fi_cutoff f of None \<Rightarrow> ordered_events s' | Some t \<Rightarrow> eligible_events s' t)"
    by (simp add: eligible_events_def eq split: option.split)
  show ?thesis
    unfolding finalise_def events eq(1) by (simp add: eq fin fail_closed_def split: sum.split)
qed

lemma run_end_view:
  assumes "same_view s s'" "in_proof s = in_proof s'"
  shows "outcome (finalize_at_run_end nm pd t s) = outcome (finalize_at_run_end nm pd t s')"
proof -
  have eq: "in_config s = in_config s'" "in_closed s = in_closed s'" "in_snapshot s = in_snapshot s'"
    "chunk_coverage_diagnostics s = chunk_coverage_diagnostics s'" using assms(1) by (simp_all add: same_view_def)
  have water: "require_watermark_coverage s b = require_watermark_coverage s' b" for b
    unfolding require_watermark_coverage_def eq ..
  let ?t = "bnd (validate_utc_milliseconds ''authoritative_run_end'' t) (\<lambda>run_end.
      seq (raise_if (instant run_end < instant (ic_run_start (in_config s'))) (ValueError ''authoritative_run_end must not precede run_start''))
      (Inr run_end))"
  show ?thesis
  proof (cases ?t)
    case (Inl e)
    then show ?thesis unfolding finalize_at_run_end_def eq by (simp add: eq)
  next
    case (Inr run_end)
    show ?thesis unfolding finalize_at_run_end_def eq water Inr sum.case
      by (cases "require_watermark_coverage s' run_end") (simp_all add: finalise_view [OF assms] eq)
  qed
qed

lemma proof_recorded_fields: "proof_recorded s (s\<lparr>in_proof := p, in_validation := v, in_receipt := r, in_candidate_policy := c\<rparr>)"
  by (auto simp: proof_recorded_def)

lemma recorded_same_view: "proof_recorded s s0 \<Longrightarrow> same_view s s0"
  using coverage_cong [of s0 s] ordered_cong [of s0 s] by (auto simp: same_view_def proof_recorded_def)

lemma recorded_view:
  assumes "same_view s s'" "proof_recorded s s0" "proof_recorded s' s0'"
  shows "same_view s0 s0'"
  using assms(1) recorded_same_view [OF assms(2)] recorded_same_view [OF assms(3)] by (simp add: same_view_def)

lemma verified_close_view:
  assumes view: "same_view s s'" and running: "\<not> is_terminal_status (sn_status (in_snapshot s))"
  shows "outcome (incremental_accept_verified_close_proof nm pd sd now p b s) = outcome (incremental_accept_verified_close_proof nm pd sd now p b s')"
proof -
  have eq: "in_config s = in_config s'" "in_closed s = in_closed s'" "in_snapshot s = in_snapshot s'" "ordered_events s = ordered_events s'"
    "chunk_coverage_diagnostics s = chunk_coverage_diagnostics s'" using view by (simp_all add: same_view_def)
  have water: "require_watermark_coverage s b = require_watermark_coverage s' b" for b
    unfolding require_watermark_coverage_def eq ..
  have check: "check_verified_close pd sd p b s = check_verified_close pd sd p b s'"
    unfolding check_verified_close_def latest_verified_input_ingest_time_def water eq ..
  have fin: "outcome (finalise nm pd now f (s\<lparr>in_proof := Some p, in_validation := Some v, in_receipt := Some r, in_candidate_policy := Some c\<rparr>))
      = outcome (finalise nm pd now f (s'\<lparr>in_proof := Some p, in_validation := Some v, in_receipt := Some r, in_candidate_policy := Some c\<rparr>))" for f v r c
    by (rule finalise_view [OF recorded_view [OF view]]) (simp_all add: proof_recorded_fields)
  show ?thesis
    unfolding incremental_accept_verified_close_proof_def eq check using running [unfolded eq]
    by (simp add: fin fail_closed_def eq Let_def split: sum.split)
qed

end
