(* ===== verification/IncrementalCheckpoint.thy ===== *)
theory IncrementalCheckpoint
  imports IncrementalOrder
begin

text \<open>
  The checkpoint of an incremental state: its model and the rule for replacing a stored one
  (\<open>pipeline/r1_incremental_checkpoint.py\<close>), and the export and recovery of a state
  (\<open>pipeline/r1_incremental_evidence.py\<close>). The digests of canonical JSON are parameters; a stored
  file is the payload parsed from it, which is why validation follows the reading.
\<close>

section \<open>The model\<close>

record causal_policy_identity =
  cpi_policy_id :: string
  cpi_version :: string
  cpi_config_hash :: string

definition validate_causal_policy_identity :: "('a causal_policy_identity_scheme) \<Rightarrow> unit result" where
  "validate_causal_policy_identity p = raise_if
     (\<exists>x \<in> set [cpi_policy_id p, cpi_version p, cpi_config_hash p]. blank x \<or> \<not> unpadded x)
     (ValueError ''policy identity values must be non-blank and unpadded'')"

record checkpoint_selector = causal_policy_identity +
  csi_event_count :: int

definition validate_checkpoint_selector :: "checkpoint_selector \<Rightarrow> unit result" where
  "validate_checkpoint_selector p = seq (validate_causal_policy_identity p)
     (raise_if (csi_event_count p < 1) (ValueError ''lineage_event_count''))"

text \<open>The lifecycle is one of two literals, although policies have three.\<close>

record checkpoint_approved = causal_policy_identity +
  cai_family_id :: string
  cai_lifecycle :: policy_lifecycle

definition validate_checkpoint_approved :: "checkpoint_approved \<Rightarrow> unit result" where
  "validate_checkpoint_approved p = seq (validate_causal_policy_identity p)
     (raise_if (cai_lifecycle p \<notin> {Development, Frozen}) (ValueError ''lifecycle''))"

record incremental_checkpoint =
  cp_generation :: int
  cp_run_id :: string
  cp_entity_id :: string
  cp_run_start :: datetime
  cp_family_id :: string
  cp_contract :: partition_contract
  cp_selector :: checkpoint_selector
  cp_approved :: checkpoint_approved
  cp_candidate :: "causal_policy_identity option"
  cp_chunks :: "event_chunk list"
  cp_closed :: "run_closed option"
  cp_receipt :: "close_receipt option"
  cp_proof :: "close_proof option"
  cp_validated_at :: "datetime option"
  cp_status :: incremental_status
  cp_close_mode :: "close_mode option"
  cp_boundary_at :: "datetime option"
  cp_available_at :: "datetime option"
  cp_digests :: "(string \<times> string) list"
  cp_diagnostics :: "string list"
  cp_sha :: string

record checkpoint_digests =
  kd_evidence :: "evidence \<Rightarrow> string"
  kd_content :: "incremental_checkpoint \<Rightarrow> string"

definition checkpoint_content_sha :: "checkpoint_digests \<Rightarrow> incremental_checkpoint \<Rightarrow> string" where
  "checkpoint_content_sha kd c = kd_content kd (c\<lparr>cp_sha := []\<rparr>)"

definition require_checkpoint_content_hash :: "checkpoint_digests \<Rightarrow> incremental_checkpoint \<Rightarrow> unit result" where
  "require_checkpoint_content_hash kd c = raise_if (cp_sha c \<noteq> checkpoint_content_sha kd c)
     (ValueError ''checkpoint_content_sha256 does not match canonical content'')"

definition chunk_sort_key :: "event_chunk \<Rightarrow> string \<times> string \<times> string \<times> int \<times> string" where
  "chunk_sort_key c = (pt_host_id (ck_partition c), pt_source (ck_partition c), pt_channel (ck_partition c), ck_sequence c, ck_chunk_id c)"

definition chunk_identity :: "event_chunk \<Rightarrow> string \<times> string \<times> string \<times> string \<times> string" where
  "chunk_identity c = (pt_run_id (ck_partition c), pt_host_id (ck_partition c), pt_source (ck_partition c), pt_channel (ck_partition c),
     ck_chunk_id c)"

definition validate_checkpoint_time :: "datetime \<Rightarrow> unit result" where
  "validate_checkpoint_time t = require_utc ''incremental checkpoint times'' t"

definition option_list :: "'a option \<Rightarrow> 'a list" where
  "option_list x = (case x of None \<Rightarrow> [] | Some y \<Rightarrow> [y])"

text \<open>Some of the five trusted bindings is missing.\<close>

definition binding_missing :: "incremental_checkpoint \<Rightarrow> bool" where
  "binding_missing c \<longleftrightarrow> cp_closed c = None \<or> cp_receipt c = None \<or> cp_proof c = None \<or> cp_validated_at c = None \<or> cp_candidate c = None"

definition validate_checkpoint_contract :: "checkpoint_digests \<Rightarrow> incremental_checkpoint \<Rightarrow> unit result" where
  "validate_checkpoint_contract kd c = seq (raise_first
     [(rq_target_host (cp_contract c) \<noteq> cp_entity_id c, ValueError ''checkpoint partition contract must match entity_id''),
      (cp_chunks c \<noteq> sort_key chunk_sort_key (cp_chunks c), ValueError ''accepted_chunks must use canonical ordering''),
      (has_duplicates (map chunk_identity (cp_chunks c)), ValueError ''accepted_chunks must contain unique scoped identities''),
      (\<exists>k \<in> set (cp_chunks c). pt_run_id (ck_partition k) \<noteq> cp_run_id c, ValueError ''accepted chunk run_id must match checkpoint run_id''),
      (is_some_and (cp_closed c) (\<lambda>rc. cl_run_id rc \<noteq> cp_run_id c), ValueError ''accepted run_closed must match checkpoint run_id''),
      (cp_receipt c \<noteq> None \<and> cp_closed c = None, ValueError ''accepted close receipt requires accepted run_closed''),
      (cp_proof c \<noteq> None \<and> binding_missing c, ValueError ''stored verified proof requires every trusted binding''),
      (cp_status c = Finalized \<and> cp_close_mode c = Some VerifiedCloseProof \<and> binding_missing c,
         ValueError ''verified proof checkpoint is missing a trusted binding''),
      (cp_status c = Finalized \<and> (cp_close_mode c = None \<or> cp_boundary_at c = None \<or> cp_available_at c = None),
         ValueError ''finalized checkpoint requires close_mode and availability boundaries''),
      (\<not> is_terminal_status (cp_status c) \<and> cp_digests c \<noteq> [], ValueError ''provisional checkpoint must not contain Evidence digests''),
      (cp_digests c \<noteq> sort_key fst (cp_digests c), ValueError ''Evidence digests must use canonical ordering'')])
     (require_checkpoint_content_hash kd c)"

definition validate_checkpoint :: "string set \<Rightarrow> checkpoint_digests \<Rightarrow> proof_digests \<Rightarrow> incremental_checkpoint \<Rightarrow> incremental_checkpoint result" where
  "validate_checkpoint event_types kd pd c =
     seq (raise_if (cp_generation c < 0) (ValueError ''generation''))
     (seq (check_each (\<lambda>s. raise_if (blank s \<or> \<not> unpadded s) (ValueError ''incremental checkpoint identities must be non-blank and unpadded''))
        [cp_run_id c, cp_entity_id c, cp_family_id c])
     (seq (check_each validate_checkpoint_time (cp_run_start c # option_list (cp_validated_at c) @ option_list (cp_boundary_at c)
        @ option_list (cp_available_at c)))
     (bnd (validate_partition_contract (cp_contract c)) (\<lambda>contract.
     seq (validate_checkpoint_selector (cp_selector c))
     (seq (validate_checkpoint_approved (cp_approved c))
     (seq (check_each validate_causal_policy_identity (option_list (cp_candidate c)))
     (bnd (map_result (validate_event_chunk event_types) (cp_chunks c)) (\<lambda>chunks.
     bnd (map_result validate_run_closed (option_list (cp_closed c))) (\<lambda>closes.
     bnd (map_result (validate_close_proof pd) (option_list (cp_proof c))) (\<lambda>proofs.
     seq (check_each (\<lambda>(i, sha). validate_sha256 sha) (cp_digests c))
     (seq (validate_sha256 (cp_sha c))
     (seq (validate_checkpoint_contract kd c) (Inr c)))))))))))))"

definition build_checkpoint :: "string set \<Rightarrow> checkpoint_digests \<Rightarrow> proof_digests \<Rightarrow> incremental_checkpoint \<Rightarrow> incremental_checkpoint result" where
  "build_checkpoint event_types kd pd c = validate_checkpoint event_types kd pd (c\<lparr>cp_sha := checkpoint_content_sha kd c\<rparr>)"

section \<open>Storing\<close>

definition load_checkpoint :: "string set \<Rightarrow> checkpoint_digests \<Rightarrow> proof_digests \<Rightarrow> incremental_checkpoint \<Rightarrow> incremental_checkpoint result" where
  "load_checkpoint event_types kd pd payload = (case validate_checkpoint event_types kd pd payload of
     Inl e \<Rightarrow> Inl (ValueError ''R1 incremental checkpoint is invalid or corrupted'') | Inr c \<Rightarrow> Inr c)"

text \<open>The result and what the file holds afterwards; the replacement of the file is atomic.\<close>

definition write_checkpoint :: "string set \<Rightarrow> checkpoint_digests \<Rightarrow> proof_digests \<Rightarrow> incremental_checkpoint \<Rightarrow> incremental_checkpoint option
    \<Rightarrow> unit result \<times> incremental_checkpoint option" where
  "write_checkpoint event_types kd pd c file = (case file of
     None \<Rightarrow> (Inr (), Some c)
   | Some payload \<Rightarrow> (case load_checkpoint event_types kd pd payload of
       Inl e \<Rightarrow> (Inl e, file)
     | Inr existing \<Rightarrow>
         if cp_generation c < cp_generation existing
           then (Inl (ValueError ''checkpoint generation must not move backwards''), file)
         else if cp_generation c = cp_generation existing then
           (if cp_sha c = cp_sha existing then (Inr (), file)
            else (Inl (ValueError ''checkpoint generation was reused with different content''), file))
         else (Inr (), Some c)))"

definition validate_finalized_evidence :: "checkpoint_digests \<Rightarrow> incremental_checkpoint \<Rightarrow> evidence list \<Rightarrow> close_mode option \<Rightarrow> unit result" where
  "validate_finalized_evidence kd c evidences expected = raise_first
     [(cp_status c \<noteq> Finalized, ValueError ''Evidence output requires a finalized checkpoint''),
      (cp_close_mode c = None \<or> (expected \<noteq> None \<and> cp_close_mode c \<noteq> expected),
         ValueError ''checkpoint close_mode is not valid for this Evidence output''),
      (map (\<lambda>e. (evd_id e, kd_evidence kd e)) (sort_key evd_id evidences) \<noteq> cp_digests c,
         ValueError ''Evidence identity/content does not match checkpoint digests'')]"

section \<open>Export\<close>

definition selector_identity :: "selector_policy \<Rightarrow> checkpoint_selector" where
  "selector_identity p = \<lparr>cpi_policy_id = slp_policy_id p, cpi_version = slp_version p, cpi_config_hash = slp_config_hash p,
     csi_event_count = slp_event_count p\<rparr>"

definition candidate_identity :: "candidate_policy \<Rightarrow> causal_policy_identity" where
  "candidate_identity p = \<lparr>cpi_policy_id = cnp_policy_id p, cpi_version = cnp_version p, cpi_config_hash = cnp_config_hash p\<rparr>"

definition generation_of :: "incremental_state \<Rightarrow> int" where
  "generation_of s = int (length (in_chunks s)) + (if in_closed s \<noteq> None then 1 else 0)
     + (if is_terminal_status (sn_status (in_snapshot s)) then 1 else 0)"

definition checkpoint_of :: "checkpoint_digests \<Rightarrow> partition_contract \<Rightarrow> string \<Rightarrow> policy_lifecycle \<Rightarrow> incremental_state \<Rightarrow> incremental_checkpoint" where
  "checkpoint_of kd contract family lifecycle s = (let cfg = in_config s; sn = in_snapshot s in
     \<lparr>cp_generation = generation_of s, cp_run_id = ic_run_id cfg, cp_entity_id = ic_entity_id cfg, cp_run_start = ic_run_start cfg,
      cp_family_id = ic_family_id cfg, cp_contract = contract, cp_selector = selector_identity (ic_selector cfg),
      cp_approved = \<lparr>cpi_policy_id = ap_policy_id (ic_approved cfg), cpi_version = ap_version (ic_approved cfg),
        cpi_config_hash = ap_config_hash (ic_approved cfg), cai_family_id = family, cai_lifecycle = lifecycle\<rparr>,
      cp_candidate = map_option candidate_identity (in_candidate_policy s),
      cp_chunks = sort_key chunk_sort_key (map snd (in_chunks s)), cp_closed = in_closed s, cp_receipt = in_receipt s,
      cp_proof = in_proof s, cp_validated_at = map_option pv_validated_at (in_validation s), cp_status = sn_status sn,
      cp_close_mode = sn_close_mode sn, cp_boundary_at = sn_boundary_at sn, cp_available_at = sn_available_at sn,
      cp_digests = map (\<lambda>e. (evd_id e, kd_evidence kd e)) (sort_key evd_id (sn_evidences sn)),
      cp_diagnostics = sn_diagnostics sn, cp_sha = []\<rparr>)"

definition export_checkpoint :: "string set \<Rightarrow> checkpoint_digests \<Rightarrow> proof_digests \<Rightarrow> incremental_state \<Rightarrow> incremental_checkpoint result" where
  "export_checkpoint event_types kd pd s = (case ic_contract (in_config s) of
     None \<Rightarrow> Inl (ValueError ''durable checkpoint requires a required-partition contract'')
   | Some contract \<Rightarrow> (case (ap_family_id (ic_approved (in_config s)), ap_lifecycle (ic_approved (in_config s))) of
       (Some family, Some lifecycle) \<Rightarrow>
         seq (check_each validate_causal_policy_identity (option_list (map_option candidate_identity (in_candidate_policy s))))
           (build_checkpoint event_types kd pd (checkpoint_of kd contract family lifecycle s))
     | _ \<Rightarrow> Inl (ValueError ''durable checkpoint requires a family-bound approved policy'')))"

section \<open>Recovery\<close>

definition validate_checkpoint_policy_inputs :: "incremental_checkpoint \<Rightarrow> selector_policy \<Rightarrow> approved_policy \<Rightarrow> unit result" where
  "validate_checkpoint_policy_inputs c selector approved = raise_first
     [(cp_selector c \<noteq> selector_identity selector, ValueError ''checkpoint selector policy identity does not match supplied policy''),
      ((cpi_policy_id (cp_approved c), cpi_version (cp_approved c), cpi_config_hash (cp_approved c), Some (cai_family_id (cp_approved c)),
          Some (cai_lifecycle (cp_approved c)))
         \<noteq> (ap_policy_id approved, ap_version approved, ap_config_hash approved, ap_family_id approved, ap_lifecycle approved),
         ValueError ''checkpoint approved policy identity does not match supplied policy'')]"

definition validate_restored_snapshot :: "checkpoint_digests \<Rightarrow> incremental_checkpoint \<Rightarrow> incremental_snapshot \<Rightarrow> unit result" where
  "validate_restored_snapshot kd c sn = seq (raise_first
     [(sn_status sn \<noteq> cp_status c, ValueError ''restored incremental status does not match checkpoint''),
      (sn_close_mode sn \<noteq> cp_close_mode c, ValueError ''restored close mode does not match checkpoint''),
      (map_option instant (sn_boundary_at sn) \<noteq> map_option instant (cp_boundary_at c),
         ValueError ''restored candidate boundary does not match checkpoint''),
      (map_option instant (sn_available_at sn) \<noteq> map_option instant (cp_available_at c),
         ValueError ''restored availability does not match checkpoint'')])
     (if cp_status c = Finalized then validate_finalized_evidence kd c (sn_evidences sn) (cp_close_mode c)
      else raise_if (sn_evidences sn \<noteq> [] \<or> cp_digests c \<noteq> [])
        (ValueError ''non-finalized checkpoint must not contain Evidence output''))"

fun replay_chunks :: "'l chunk_ingress \<Rightarrow> stream_digests \<Rightarrow> event_chunk list \<Rightarrow> incremental_state \<times> 'l
    \<Rightarrow> unit result \<times> incremental_state \<times> 'l" where
  "replay_chunks ingress sd [] sl = (Inr (), sl)"
| "replay_chunks ingress sd (c # cs) sl = (case incremental_accept_chunk ingress sd c sl of
     (Inl e, sl') \<Rightarrow> (Inl e, sl')
   | (Inr sn, sl') \<Rightarrow> replay_chunks ingress sd cs sl')"

text \<open>A method was called for its effect: its exception goes on, its value is dropped.\<close>

definition effect_of :: "'a result \<times> 's \<Rightarrow> 's result" where
  "effect_of x = bnd (fst x) (\<lambda>y. Inr (snd x))"

definition replay_close :: "run_closed option \<Rightarrow> incremental_state \<Rightarrow> incremental_state result" where
  "replay_close rc s = (case rc of None \<Rightarrow> Inr s | Some rc \<Rightarrow> effect_of (incremental_accept_run_closed rc s))"

text \<open>What the caller of the recovery trusts beside the checkpoint.\<close>

record recovery_binding =
  rb_policy :: "candidate_policy option"
  rb_receipt :: "close_receipt option"
  rb_seal_id :: "string option"
  rb_projection_sha :: "string option"

definition recovery_clock :: "incremental_checkpoint \<Rightarrow> datetime \<Rightarrow> datetime" where
  "recovery_clock c now = (case cp_available_at c of
     Some t \<Rightarrow> if cp_close_mode c = Some VerifiedCloseProof then t else now | None \<Rightarrow> now)"

definition trusted_of :: "incremental_checkpoint \<Rightarrow> recovery_binding \<Rightarrow> trusted_binding option" where
  "trusted_of c rb = (case (cp_validated_at c, cp_closed c, rb_policy rb, rb_receipt rb, rb_seal_id rb, rb_projection_sha rb) of
     (Some t, Some rc, Some policy, Some receipt, Some seal_id, Some sha) \<Rightarrow>
       Some \<lparr>tb_closed = rc, tb_receipt = receipt, tb_policy = policy, tb_seal_id = seal_id, tb_projection_sha = sha, tb_validated_at = t\<rparr>
   | _ \<Rightarrow> None)"

definition replay_verified_close :: "evidence_namer \<Rightarrow> proof_digests \<Rightarrow> stream_digests \<Rightarrow> datetime \<Rightarrow> incremental_checkpoint
    \<Rightarrow> recovery_binding \<Rightarrow> incremental_state \<Rightarrow> incremental_state result" where
  "replay_verified_close nm pd sd now c rb s = (case cp_proof c of
     None \<Rightarrow> if cp_status c \<noteq> FailedClosed then Inl (ValueError ''verified proof checkpoint is missing its proof'')
       else Inr (fail_closed (cp_diagnostics c) s)
   | Some p \<Rightarrow> (case trusted_of c rb of
       None \<Rightarrow> Inl (ValueError ''verified proof recovery requires every trusted binding'')
     | Some b \<Rightarrow>
         seq (validate_causal_policy_identity (candidate_identity (tb_policy b)))
         (seq (raise_first
           [(cp_candidate c \<noteq> Some (candidate_identity (tb_policy b)), ValueError ''checkpoint candidate policy identity does not match supplied policy''),
            (cp_receipt c \<noteq> Some (tb_receipt b), ValueError ''checkpoint close receipt does not match trusted receipt'')])
         (effect_of (incremental_accept_verified_close_proof nm pd sd now p b s)))))"

definition replay_terminal :: "evidence_namer \<Rightarrow> proof_digests \<Rightarrow> stream_digests \<Rightarrow> datetime \<Rightarrow> incremental_checkpoint
    \<Rightarrow> recovery_binding \<Rightarrow> incremental_state \<Rightarrow> incremental_state result" where
  "replay_terminal nm pd sd now c rb s = (case cp_close_mode c of
     None \<Rightarrow> Inr s
   | Some RunEndFallback \<Rightarrow> (case cp_boundary_at c of
       None \<Rightarrow> Inl (ValueError ''fallback checkpoint is missing authoritative run_end'')
     | Some t \<Rightarrow> effect_of (finalize_at_run_end nm pd t s))
   | Some VerifiedCloseProof \<Rightarrow> replay_verified_close nm pd sd now c rb s)"

definition recovered_config :: "incremental_checkpoint \<Rightarrow> selector_policy \<Rightarrow> approved_policy \<Rightarrow> incremental_config" where
  "recovered_config c selector approved = \<lparr>ic_run_id = cp_run_id c, ic_entity_id = cp_entity_id c, ic_run_start = cp_run_start c,
     ic_family_id = cp_family_id c, ic_selector = selector, ic_approved = approved, ic_contract = Some (cp_contract c)\<rparr>"

definition restore_from_checkpoint :: "evidence_namer \<Rightarrow> proof_digests \<Rightarrow> stream_digests \<Rightarrow> checkpoint_digests \<Rightarrow> 'l chunk_ingress
    \<Rightarrow> datetime \<Rightarrow> incremental_checkpoint \<Rightarrow> selector_policy \<Rightarrow> approved_policy \<Rightarrow> recovery_binding \<Rightarrow> 'l
    \<Rightarrow> incremental_state result \<times> 'l" where
  "restore_from_checkpoint nm pd sd kd ingress now c selector approved rb l =
     (case seq (validate_checkpoint_policy_inputs c selector approved) (new_incremental (recovered_config c selector approved)) of
        Inl e \<Rightarrow> (Inl e, l)
      | Inr s \<Rightarrow> (case replay_chunks ingress sd (cp_chunks c) (s, l) of
          (r, s', l') \<Rightarrow>
            (seq r (bnd (replay_close (cp_closed c) s') (\<lambda>s'.
             bnd (replay_terminal nm pd sd (recovery_clock c now) c rb s') (\<lambda>s'.
             seq (validate_restored_snapshot kd c (in_snapshot s')) (Inr s')))), l')))"

end
