(* ===== verification/IncrementalRecovery.thy ===== *)
theory IncrementalRecovery
  imports IncrementalCheckpoint
begin

text \<open>
  Recovery: a state rebuilt from its checkpoint shows what the state showed. The recovery redelivers
  the stored chunks, so it needs an ingress that answers a known chunk with a duplicate; the
  interface is the locale \<open>replaying_ingress\<close>, interpreted on the ingress over the ledger.
\<close>

section \<open>The interface of the ingress\<close>

locale replaying_ingress =
  fixes ingress :: "'l chunk_ingress" and known :: "event_chunk \<Rightarrow> 'l \<Rightarrow> bool"
  assumes known_duplicate: "known c l \<Longrightarrow> ingress c l = (Inr (delivery_result_of False []), l)"

text \<open>An ingress that also remembers what it admitted.\<close>

locale recording_ingress = replaying_ingress +
  fixes valid :: "'l \<Rightarrow> bool" and good :: "event_chunk \<Rightarrow> bool"
  assumes admitted_known: "valid l \<Longrightarrow> good c \<Longrightarrow> ingress c l = (Inr a, l') \<Longrightarrow> known c l'"
    and known_kept: "valid l \<Longrightarrow> good c \<Longrightarrow> ingress c l = (r, l') \<Longrightarrow> known d l \<Longrightarrow> known d l'"
    and valid_kept: "valid l \<Longrightarrow> good c \<Longrightarrow> ingress c l = (r, l') \<Longrightarrow> valid l'"

section \<open>Replaying the chunks\<close>

lemma event_updates_total:
  "(\<And>e h. e \<in> set es \<Longrightarrow> map_of known (k, ev_event_id e) = Some h \<Longrightarrow> h = sd_event sd e) \<Longrightarrow> \<exists>us. event_updates sd k known es = Inr us"
proof (induction es)
  case (Cons e es)
  obtain us where us: "event_updates sd k known es = Inr us"
    using Cons.IH [OF Cons.prems [OF list.set_intros(2)]] by blast
  show ?case
  proof (cases "map_of known (k, ev_event_id e)")
    case (Some h)
    moreover have "h = sd_event sd e" by (rule Cons.prems [OF _ Some]) simp
    ultimately show ?thesis using us by simp
  qed (use us in simp)
next
  case Nil
  show ?case by simp
qed

text \<open>The chunks of a state are consistent with each other, so any of them can be stored in a part of it.\<close>

lemma chunk_list:
  assumes "chunks_inv event_types sd s"
  shows "in_chunks s = map (\<lambda>c. (chunk_key c, c)) (map snd (in_chunks s))"
proof -
  have "map (\<lambda>x. (chunk_key (snd x), snd x)) (in_chunks s) = in_chunks s"
    by (rule map_idI) (use assms in \<open>auto simp: chunks_inv_def\<close>)
  then show ?thesis by (simp add: comp_def)
qed

lemma accepted_set: "accepted_chunks s = set (map snd (in_chunks s))"
  by (simp add: accepted_chunks_def)

lemma accepted_inj:
  assumes "chunks_inv event_types sd s"
  shows "inj_on chunk_key (accepted_chunks s)"
    "inj_on (\<lambda>c. (partition_key (ck_partition c), ck_sequence c)) (accepted_chunks s)"
    "fst ` set (in_chunk_hashes s) = chunk_key ` accepted_chunks s"
proof -
  have fsts: "map fst (in_chunks s) = map chunk_key (map snd (in_chunks s))" by (subst chunk_list [OF assms]) (simp add: comp_def)
  have "distinct (map chunk_key (map snd (in_chunks s)))" unfolding fsts [symmetric] using assms by (simp add: chunks_inv_def)
  then show "inj_on chunk_key (accepted_chunks s)" unfolding accepted_set by (simp only: distinct_map)
  have "distinct (map (\<lambda>c. (partition_key (ck_partition c), ck_sequence c)) (map snd (in_chunks s)))"
    using assms sequences_eq [OF assms] by (simp add: chunks_inv_def comp_def)
  then show "inj_on (\<lambda>c. (partition_key (ck_partition c), ck_sequence c)) (accepted_chunks s)" unfolding accepted_set by (simp only: distinct_map)
  have "in_chunk_hashes s = map (\<lambda>(k, c). (k, chunk_sha sd c)) (in_chunks s)" using assms by (simp add: chunks_inv_def)
  then have "fst ` set (in_chunk_hashes s) = set (map fst (in_chunks s))" by (simp add: image_image case_prod_beta)
  then show "fst ` set (in_chunk_hashes s) = chunk_key ` accepted_chunks s" unfolding fsts accepted_set by (simp add: image_image)
qed

lemma sequence_entry:
  assumes "chunks_inv event_types sd s"
  shows "((k, n), i) \<in> set (in_sequences s) \<longleftrightarrow> (\<exists>c \<in> accepted_chunks s. partition_key (ck_partition c) = k \<and> ck_sequence c = n \<and> ck_chunk_id c = i)"
proof -
  have "set (in_sequences s) = (\<lambda>c. ((partition_key (ck_partition c), ck_sequence c), ck_chunk_id c)) ` accepted_chunks s"
    by (subst sequences_eq [OF assms]) (simp add: accepted_set image_image)
  then show ?thesis by (simp add: image_iff) metis
qed

text \<open>The hash of an event is a function of its key.\<close>

lemma hash_entry:
  assumes "events_inv sd s" "c \<in> accepted_chunks s" "e \<in> set (ck_events c)"
  shows "((partition_key (ck_partition c), ev_event_id e), sd_event sd e) \<in> set (in_event_hashes s)"
proof -
  have "((partition_key (ck_partition c), ev_event_id e), e) \<in> event_entries (accepted_chunks s)"
    unfolding event_entries_def using assms(2,3) by blast
  from imageI [OF this, of "\<lambda>(k, e). (k, sd_event sd e)"] show ?thesis using assms(1) by (simp add: events_inv_def)
qed

lemma part_of_state:
  assumes inv: "chunks_inv event_types sd s" "events_inv sd s" and part: "chunks_inv event_types sd t" "events_inv sd t"
    and sub: "accepted_chunks t \<subseteq> accepted_chunks s" and c: "c \<in> accepted_chunks s"
  shows "c \<notin> accepted_chunks t \<Longrightarrow> map_of (in_chunk_hashes t) (chunk_key c) = None"
    "map_of (in_sequences t) (partition_key (ck_partition c), ck_sequence c) = Some i \<Longrightarrow> i = ck_chunk_id c"
    "e \<in> set (ck_events c) \<Longrightarrow> map_of (in_event_hashes t) (partition_key (ck_partition c), ev_event_id e) = Some h \<Longrightarrow> h = sd_event sd e"
proof -
  show "map_of (in_chunk_hashes t) (chunk_key c) = None" if "c \<notin> accepted_chunks t"
    unfolding map_of_None_fst accepted_inj(3) [OF part(1)]
    using that sub c inj_on_image_mem_iff [OF accepted_inj(1) [OF inv(1)]] by blast
  show "i = ck_chunk_id c" if i: "map_of (in_sequences t) (partition_key (ck_partition c), ck_sequence c) = Some i"
  proof -
    obtain d where d: "d \<in> accepted_chunks t" "partition_key (ck_partition d) = partition_key (ck_partition c)"
      "ck_sequence d = ck_sequence c" "ck_chunk_id d = i" using map_of_SomeD [OF i] unfolding sequence_entry [OF part(1)] by blast
    have "d = c" by (rule inj_onD [OF accepted_inj(2) [OF inv(1)]]) (use d sub c in auto)
    with d(4) show ?thesis by simp
  qed
  show "h = sd_event sd e" if e: "e \<in> set (ck_events c)" and h: "map_of (in_event_hashes t) (partition_key (ck_partition c), ev_event_id e) = Some h"
  proof -
    have hashes: "set (in_event_hashes x) = (\<lambda>(k, e). (k, sd_event sd e)) ` event_entries (accepted_chunks x)" if "events_inv sd x" for x
      using that by (simp add: events_inv_def)
    have "event_entries (accepted_chunks t) \<subseteq> event_entries (accepted_chunks s)" using sub unfolding event_entries_def by blast
    then have "set (in_event_hashes t) \<subseteq> set (in_event_hashes s)" unfolding hashes [OF inv(2)] hashes [OF part(2)] by (rule image_mono)
    then have "((partition_key (ck_partition c), ev_event_id e), h) \<in> set (in_event_hashes s)" using map_of_SomeD [OF h] by blast
    with hash_entry [OF inv(2) c e] inv(2) show ?thesis unfolding events_inv_def by (metis eq_key_imp_eq_value)
  qed
qed

text \<open>An open state: nothing terminal, no close, no proof.\<close>

definition open_state :: "incremental_state \<Rightarrow> bool" where
  "open_state t \<longleftrightarrow> \<not> is_terminal_status (sn_status (in_snapshot t)) \<and> in_closed t = None \<and> in_proof t = None"

context replaying_ingress
begin

lemma replay_chunk:
  assumes s: "incremental_inv event_types sd nm pd cfg s" and t: "incremental_inv event_types sd nm pd cfg t" "open_state t"
    and sub: "accepted_chunks t \<subseteq> accepted_chunks s" and c: "c \<in> accepted_chunks s" "c \<notin> accepted_chunks t" "known c l"
  obtains sn t' where "incremental_accept_chunk ingress sd c (t, l) = (Inr sn, t', l)" "incremental_inv event_types sd nm pd cfg t'"
    "open_state t'" "accepted_chunks t' = insert c (accepted_chunks t)"
proof -
  have inv: "chunks_inv event_types sd s" "events_inv sd s" "chunks_inv event_types sd t" "events_inv sd t" "in_config s = in_config t"
    and start: "is_utc (ic_run_start (in_config t))" using s t(1) by (simp_all add: incremental_inv_def)
  note part = part_of_state [OF inv(1-4) sub c(1)]
  have ok: "chunk_ok event_types c" and scope: "check_chunk_scope sd c t = Inr ()"
    using inv(1,5) c(1) by (auto simp: chunks_inv_def accepted_chunks_def check_scope_ok)
  have new: "map_of (in_chunk_hashes t) (partition_key (ck_partition c), ck_chunk_id c) = None"
    using part(1) c(2) by (simp add: chunk_key_def)
  obtain us where us: "event_updates sd (partition_key (ck_partition c)) (in_event_hashes t) (ck_events c) = Inr us"
    using event_updates_total [OF part(3)] by blast
  then have sub_us: "set us \<subseteq> set (ck_events c)" using event_updates_ok by fastforce
  have fresh: "\<not> is_some_and (map_of (in_sequences t) (partition_key (ck_partition c), ck_sequence c)) (\<lambda>i. i \<noteq> ck_chunk_id c)"
    using part(2) by (cases "map_of (in_sequences t) (partition_key (ck_partition c), ck_sequence c)") auto
  have check: "check_new_chunk sd c t = Inr us"
    using t(2) us fresh by (simp add: check_new_chunk_def Let_def open_state_def)
  have admit: "check_admission c us (delivery_result_of False []) = Inr ()"
    using sub_us by (auto simp: check_admission_def approved_ids_def delivery_result_of_def)
  obtain sn where sn: "refresh (store_chunk sd c us t) = (Inr sn, (store_chunk sd c us t)\<lparr>in_snapshot := sn\<rparr>)" "\<not> is_terminal_status (sn_status sn)"
    using refresh_total [of "store_chunk sd c us t"] start by auto
  let ?t = "(store_chunk sd c us t)\<lparr>in_snapshot := sn\<rparr>"
  have step: "incremental_accept_chunk ingress sd c (t, l) = (Inr sn, ?t, l)"
    by (simp add: incremental_accept_chunk_def scope new check admit known_duplicate [OF c(3)] sn)
  have "incremental_inv event_types sd nm pd cfg ?t"
    using step_inv [OF incremental_step.deliver_chunk [OF ok step] t(1)] by blast
  moreover have "open_state ?t" using t(2) sn(2) by (simp add: open_state_def)
  moreover have "accepted_chunks ?t = insert c (accepted_chunks t)"
    using stored_chunk(1) [OF inv(3,4) ok scope _ check] new by (simp add: accepted_chunks_def chunk_key_def)
  ultimately show thesis using that step by blast
qed

lemma replay_all:
  assumes s: "incremental_inv event_types sd nm pd cfg s"
  shows "incremental_inv event_types sd nm pd cfg t \<Longrightarrow> open_state t \<Longrightarrow> accepted_chunks t \<subseteq> accepted_chunks s \<Longrightarrow> distinct cs \<Longrightarrow>
    set cs \<subseteq> accepted_chunks s - accepted_chunks t \<Longrightarrow> \<forall>c \<in> set cs. known c l \<Longrightarrow>
    \<exists>t'. replay_chunks ingress sd cs (t, l) = (Inr (), t', l) \<and> incremental_inv event_types sd nm pd cfg t' \<and> open_state t'
      \<and> accepted_chunks t' = accepted_chunks t \<union> set cs"
proof (induction cs arbitrary: t)
  case (Cons c cs)
  have c: "c \<in> accepted_chunks s" "c \<notin> accepted_chunks t" "known c l" using Cons.prems(5,6) by auto
  obtain sn t1 where t1: "incremental_accept_chunk ingress sd c (t, l) = (Inr sn, t1, l)" "incremental_inv event_types sd nm pd cfg t1"
    "open_state t1" "accepted_chunks t1 = insert c (accepted_chunks t)"
    using replay_chunk [OF s Cons.prems(1,2,3) c] by blast
  have "\<exists>t'. replay_chunks ingress sd cs (t1, l) = (Inr (), t', l) \<and> incremental_inv event_types sd nm pd cfg t' \<and> open_state t'
      \<and> accepted_chunks t' = accepted_chunks t1 \<union> set cs"
    by (rule Cons.IH [OF t1(2,3)]) (use Cons.prems t1(4) c(1) in auto)
  with t1 show ?case by auto
qed simp

end

context recording_ingress
begin

text \<open>Whatever a delivery does, the ingress keeps knowing the chunks the state has accepted.\<close>

lemma accepted_known:
  assumes step: "incremental_accept_chunk ingress sd c (s, l) = (r, s', l')" and inv: "incremental_inv event_types sd nm pd cfg s"
    and ok: "valid l" "good c" "chunk_ok event_types c" and known: "\<forall>d \<in> accepted_chunks s. known d l"
  shows "\<forall>d \<in> accepted_chunks s'. known d l'"
proof -
  have start: "is_utc (ic_run_start (in_config s))" and data: "chunks_inv event_types sd s" "events_inv sd s"
    using inv by (simp_all add: incremental_inv_def)
  have "l' = l \<or> (\<exists>a. ingress c l = (a, l'))"
    using step by (auto simp: incremental_accept_chunk_def split: sum.splits option.splits prod.splits if_splits)
  then have kept: "known d l'" if "known d l" for d using that known_kept [OF ok(1,2)] by blast
  from step start show ?thesis
  proof (cases rule: accept_chunk_cases)
    case kept
    with known \<open>\<And>d. known d l \<Longrightarrow> known d l'\<close> show ?thesis by blast
  next
    case (stored us admission sn)
    have "accepted_chunks s' = insert c (accepted_chunks s)"
      using stored_chunk(1) [OF data ok(3) stored(1,2,3)] stored(11) by (simp add: accepted_chunks_def)
    with known kept admitted_known [OF ok(1,2) stored(4)] show ?thesis by simp
  qed
qed

end

section \<open>How a state was closed\<close>

text \<open>The fields a finalisation leaves alone.\<close>

lemma closes_fields:
  assumes "proof_recorded s s0" "closes_from s0 s'"
  shows "in_closed s' = in_closed s" "accepted_chunks s' = accepted_chunks s" "in_chunks s' = in_chunks s" "in_config s' = in_config s"
    "in_proof s' = in_proof s0"
proof -
  have s': "s' = s0\<lparr>in_snapshot := in_snapshot s'\<rparr>" using assms(2) unfolding closes_from_def by blast
  have same: "in_closed s0 = in_closed s \<and> in_chunks s0 = in_chunks s \<and> in_config s0 = in_config s"
    using assms(1) by (auto simp: proof_recorded_def)
  show "in_closed s' = in_closed s" "in_config s' = in_config s" "in_proof s' = in_proof s0" by (subst s', use same in simp)+
  show "in_chunks s' = in_chunks s" by (subst s', use same in simp)
  then show "accepted_chunks s' = accepted_chunks s" by (simp only: accepted_chunks_def)
qed

definition close_check :: "incremental_config \<Rightarrow> run_closed \<Rightarrow> unit result" where
  "close_check cfg rc = (if ic_contract cfg = None then require_entity_partition cfg rc else require_exact_target_partitions cfg (cl_finals rc))"

lemma accept_close_new:
  assumes "in_closed s = None" "cl_run_id rc = ic_run_id (in_config s)"
  shows "incremental_accept_run_closed rc s = (case close_check (in_config s) rc of Inl e \<Rightarrow> (Inl e, s) | Inr u \<Rightarrow> refresh (s\<lparr>in_closed := Some rc\<rparr>))"
  by (simp add: incremental_accept_run_closed_def close_check_def assms)

lemma step_config:
  assumes "incremental_inv event_types sd nm pd cfg s" "incremental_step event_types ingress sd nm pd (s, l) (s', l')"
  shows "in_config s' = in_config s"
  using step_inv [OF assms(2,1)] assms(1) by (simp add: incremental_inv_def)

lemma step_close_checked:
  assumes step: "incremental_step event_types ingress sd nm pd (s, l) (s', l')" and inv: "incremental_inv event_types sd nm pd cfg s"
    and checked: "\<And>rc. in_closed s = Some rc \<Longrightarrow> close_check (in_config s) rc = Inr ()"
  shows "in_closed s' = Some rc \<Longrightarrow> close_check (in_config s') rc = Inr ()"
proof -
  have start: "is_utc (ic_run_start (in_config s))" using inv by (simp add: incremental_inv_def)
  have snap: "snapshot_inv nm pd sd s" using inv by (simp add: incremental_inv_def)
  assume rc: "in_closed s' = Some rc"
  have "in_closed s' = in_closed s \<or> (in_closed s = None \<and> close_check (in_config s) rc = Inr ())"
    using step
  proof cases
    case (deliver_chunk c r)
    from deliver_chunk(2) start show ?thesis by (cases rule: accept_chunk_cases) simp_all
  next
    case (deliver_close d r)
    from deliver_close(3) start show ?thesis
    proof (cases rule: accept_close_cases)
      case (closed sn)
      then have "d = rc" using rc by simp
      with closed(1,2,4,7) deliver_close(3) show ?thesis
        by (cases "close_check (in_config s) rc") (auto simp: accept_close_new)
    qed simp
  next
    case (run_end t r)
    from closes_fields(1) [OF proof_recorded_refl run_end_inv(3) [OF run_end(2) snap]] show ?thesis ..
  next
    case (verified_close now p b r)
    from verified_close_inv(3) [OF verified_close(2) snap] obtain s0 where "proof_recorded s s0" "closes_from s0 s'" by blast
    then have "in_closed s' = in_closed s" by (rule closes_fields(1))
    then show ?thesis ..
  qed simp
  then show ?thesis using checked rc step_config [OF inv step] by auto
qed

text \<open>A terminal state was made so by one finalisation of a reachable state that was not.\<close>

lemma terminal_origin:
  "incremental_reachable event_types ingress sd nm pd cfg sl \<Longrightarrow> is_terminal_status (sn_status (in_snapshot (fst sl))) \<Longrightarrow>
    \<exists>s0 l0. incremental_reachable event_types ingress sd nm pd cfg (s0, l0) \<and> \<not> is_terminal_status (sn_status (in_snapshot s0))
      \<and> ((\<exists>t r. finalize_at_run_end nm pd t s0 = (r, fst sl))
         \<or> (\<exists>now p b r. incremental_accept_verified_close_proof nm pd sd now p b s0 = (r, fst sl)))"
proof (induction rule: incremental_reachable.induct)
  case (created s l)
  have "in_closed s = None" using created(1) by (auto simp: new_incremental_def empty_incremental_def)
  with new_incremental_inv [OF created(1), of event_types sd nm pd] created(2) show ?case
    by (auto simp: incremental_inv_def snapshot_inv_def)
next
  case (stepped sl sl')
  obtain s l s' l' where sl: "sl = (s, l)" "sl' = (s', l')" by (cases sl; cases sl')
  note step = stepped(2) [unfolded sl] and inv = reachable_inv [OF stepped(1), unfolded sl fst_conv]
  have start: "is_utc (ic_run_start (in_config s))" using inv by (simp add: incremental_inv_def)
  show ?case
  proof (cases "is_terminal_status (sn_status (in_snapshot s))")
    case True
    then have "s' = s" using step_inv [OF step inv] by blast
    with stepped(3) True show ?thesis by (simp add: sl)
  next
    case False
    have "(\<exists>t r. finalize_at_run_end nm pd t s = (r, s')) \<or> (\<exists>now p b r. incremental_accept_verified_close_proof nm pd sd now p b s = (r, s'))"
      using step
    proof cases
      case (deliver_chunk c r)
      from deliver_chunk(2) start have "\<not> is_terminal_status (sn_status (in_snapshot s'))"
        by (cases rule: accept_chunk_cases) (use False in simp_all)
      with stepped(4) sl show ?thesis by simp
    next
      case (deliver_close rc r)
      from deliver_close(3) start have "\<not> is_terminal_status (sn_status (in_snapshot s'))"
        by (cases rule: accept_close_cases) (use False in simp_all)
      with stepped(4) sl show ?thesis by simp
    next
      case ledger_moves
      with stepped(4) sl False show ?thesis by simp
    qed blast+
    with False stepped(1) sl show ?thesis by auto
  qed
qed

lemma fail_closed_fields [simp]:
  "in_proof (fail_closed ds s) = in_proof s" "in_closed (fail_closed ds s) = in_closed s" "sn_available_at (in_snapshot (fail_closed ds s)) = None"
  "sn_diagnostics (in_snapshot (fail_closed ds s)) = ds" "sn_status (in_snapshot (fail_closed ds s)) = FailedClosed"
  "sn_evidences (in_snapshot (fail_closed ds s)) = []"
  by (simp_all add: fail_closed_def plain_snapshot_def)

lemma closed_snapshot_fields [simp]:
  "sn_close_mode (closed_snapshot st f t q ds) = Some (fi_mode f)" "sn_boundary_at (closed_snapshot st f t q ds) = Some (fi_boundary_at f)"
  "sn_available_at (closed_snapshot st f t q ds) = Some t" "sn_status (closed_snapshot st f t q ds) = st"
  by (simp_all add: closed_snapshot_def plain_snapshot_def)

lemma finish_result:
  assumes "finish_evidence pd f r t s0 = (res, s)" "is_terminal_status (sn_status (in_snapshot s))" "\<not> is_terminal_status (sn_status (in_snapshot s0))"
  shows "res = Inr (in_snapshot s) \<and> sn_close_mode (in_snapshot s) = Some (fi_mode f) \<and> sn_boundary_at (in_snapshot s) = Some (fi_boundary_at f)
     \<and> sn_available_at (in_snapshot s) = Some t"
proof (cases "\<exists>e \<in> set (ser_evidences r). instant t < instant (evd_timestamp e)")
  case True
  then have "finish_evidence pd f r t s0 = put_snapshot (closed_snapshot FailedClosed f t r
      (fi_diagnostics f @ [''Evidence timestamp must not exceed causal available_at''])) s0" by (simp only: finish_evidence_def if_True)
  with assms(1) show ?thesis by (auto simp: put_snapshot_def)
next
  case False
  show ?thesis
  proof (cases "availability_of r t")
    case (Inl e)
    with assms False have "s = s0" unfolding finish_evidence_def by simp
    with assms(2,3) show ?thesis by simp
  next
    case (Inr av)
    with assms(1) False show ?thesis unfolding finish_evidence_def by (auto simp: put_snapshot_def)
  qed
qed

text \<open>A reading of the clock is already rounded.\<close>

lemma ceil_idem:
  assumes "ceil_utc_clock_observation field now = Inr t"
  shows "ceil_utc_clock_observation field' t = Inr t"
proof -
  have "w + (1000 - w mod 1000) = 1000 * (w div 1000 + 1)" for w :: int by (simp add: minus_mod_eq_mult_div [symmetric] algebra_simps)
  then have "(w + (1000 - w mod 1000)) mod 1000 = 0" for w :: int by (simp only: mod_mult_self1_is_0)
  then have "microsecond (add_delta u (1000 - microsecond u mod 1000)) mod 1000 = 0" for u
    by (simp add: microsecond_def add_delta_def mod_mod_cancel)
  with assms show ?thesis by (auto simp: ceil_utc_clock_observation_def Let_def split: if_splits)
qed

text \<open>The branches of a finalisation.\<close>

definition unselected_snapshot :: "finalisation \<Rightarrow> selected_evidence_result \<Rightarrow> incremental_snapshot" where
  "unselected_snapshot f r = (closed_snapshot FailedClosed f (fi_available_at f) r
     (fi_diagnostics f @ map selector_text (slr_diagnostics (ser_selector_result r)) @ map diagnostic_text (ser_diagnostics r)))
     \<lparr>sn_extraction_diagnostics := ser_diagnostics r\<rparr>"

definition run_pipeline :: "evidence_namer \<Rightarrow> finalisation \<Rightarrow> incremental_state \<Rightarrow> selected_evidence_result result" where
  "run_pipeline nm f s = run_r1_evidence_pipeline_with_selector nm (final_events f s) (ic_selector (in_config s))
     (ic_approved (in_config s)) (Some (ic_run_start (in_config s)))"

lemma finalise_eq:
  "finalise nm pd now f s = (case run_pipeline nm f s of
     Inl e \<Rightarrow> (Inl e, s)
   | Inr r \<Rightarrow>
       if slr_selection (ser_selector_result r) = None \<or> ser_diagnostics r \<noteq> [] then put_snapshot (unselected_snapshot f r) s
       else if fi_observe f then (case evidence_ready_at now (fi_available_at f) of
         Inl (ds, e) \<Rightarrow> (Inl e, fail_closed ds s)
       | Inr t \<Rightarrow> finish_evidence pd f r t s)
       else finish_evidence pd f r (fi_available_at f) s)"
  unfolding finalise_def run_pipeline_def final_events_def unselected_snapshot_def ..

lemma finalise_branches:
  assumes "finalise nm pd now f s0 = (r, s)"
  obtains (raised) e where "r = Inl e" "s = s0"
  | (unselected) q where "run_pipeline nm f s0 = Inr q" "slr_selection (ser_selector_result q) = None \<or> ser_diagnostics q \<noteq> []"
      "r = Inr (unselected_snapshot f q)" "s = s0\<lparr>in_snapshot := unselected_snapshot f q\<rparr>"
  | (clock) ds e where "fi_observe f" "r = Inl e" "s = fail_closed ds s0"
  | (finished) q t where "run_pipeline nm f s0 = Inr q" "\<not> (slr_selection (ser_selector_result q) = None \<or> ser_diagnostics q \<noteq> [])"
      "if fi_observe f then evidence_ready_at now (fi_available_at f) = Inr t else t = fi_available_at f" "finish_evidence pd f q t s0 = (r, s)"
proof (cases "run_pipeline nm f s0")
  case (Inl e)
  with assms have "r = Inl e" "s = s0" by (simp_all add: finalise_eq)
  then show thesis by (rule raised)
next
  case (Inr q)
  note run = assms [unfolded finalise_eq Inr sum.case]
  show thesis
  proof (cases "slr_selection (ser_selector_result q) = None \<or> ser_diagnostics q \<noteq> []")
    case True
    with run show thesis by (intro unselected [OF Inr True]) (auto simp: put_snapshot_def)
  next
    case False
    show thesis
    proof (cases "fi_observe f")
      case obs: True
      show thesis
      proof (cases "evidence_ready_at now (fi_available_at f)")
        case (Inl x)
        obtain ds e where "x = (ds, e)" by (cases x)
        with Inl run obs False show thesis by (intro clock) auto
      next
        case (Inr t)
        with finished [OF \<open>run_pipeline nm f s0 = Inr q\<close> False, of t] run obs False show thesis by simp
      qed
    next
      case obs: False
      with finished [OF Inr False, of "fi_available_at f"] run False show thesis by simp
    qed
  qed
qed

lemma finalise_result:
  assumes step: "finalise nm pd now f s0 = (r, s)" and open0: "\<not> is_terminal_status (sn_status (in_snapshot s0))"
    and terminal: "is_terminal_status (sn_status (in_snapshot s))"
  shows "(r = Inr (in_snapshot s) \<and> sn_close_mode (in_snapshot s) = Some (fi_mode f) \<and> sn_boundary_at (in_snapshot s) = Some (fi_boundary_at f)
       \<and> sn_available_at (in_snapshot s) \<noteq> None)
     \<or> (fi_observe f \<and> sn_available_at (in_snapshot s) = None)"
  using step
proof (cases rule: finalise_branches)
  case (finished q t)
  from finish_result [OF finished(4) terminal open0] show ?thesis by simp
qed (use open0 terminal in \<open>simp_all add: unselected_snapshot_def\<close>)

lemma finalise_again:
  assumes step: "finalise nm pd now f s0 = (r, s)" and open0: "\<not> is_terminal_status (sn_status (in_snapshot s0))"
    and terminal: "is_terminal_status (sn_status (in_snapshot s))" and at_time: "sn_available_at (in_snapshot s) = Some t"
  shows "finalise nm pd t f s0 = (r, s)"
  using step
proof (cases rule: finalise_branches)
  case (unselected q)
  then show ?thesis by (simp add: finalise_eq put_snapshot_def)
next
  case (finished q u)
  from finish_result [OF finished(4) terminal open0] at_time have "u = t" by simp
  have "evidence_ready_at t (fi_available_at f) = Inr t" if "fi_observe f"
    using finished(3) that ceil_idem [of "''evidence_ready_at''" now t "''evidence_ready_at''"] \<open>u = t\<close>
    by (auto simp: evidence_ready_at_def split: sum.splits if_splits)
  with finished \<open>u = t\<close> show ?thesis by (auto simp: finalise_eq)
qed (use open0 terminal at_time in simp_all)

lemma run_end_result:
  assumes "finalize_at_run_end nm pd t s0 = (r, s)" "\<not> is_terminal_status (sn_status (in_snapshot s0))" "is_terminal_status (sn_status (in_snapshot s))"
  shows "r = Inr (in_snapshot s) \<and> sn_close_mode (in_snapshot s) = Some RunEndFallback \<and> sn_boundary_at (in_snapshot s) = Some t"
proof (cases "bnd (validate_utc_milliseconds ''authoritative_run_end'' t) (\<lambda>run_end.
    seq (raise_if (instant run_end < instant (ic_run_start (in_config s0))) (ValueError ''authoritative_run_end must not precede run_start''))
    (Inr run_end))")
  case (Inl e)
  with assms show ?thesis by (auto simp: finalize_at_run_end_def)
next
  case (Inr run_end)
  then have run_end: "run_end = t" by auto
  note run = assms(1) [unfolded finalize_at_run_end_def Inr sum.case run_end]
  show ?thesis
  proof (cases "in_closed s0 = None")
    case True
    with run assms(2,3) show ?thesis by auto
  next
    case closed: False
    show ?thesis
    proof (cases "chunk_coverage_diagnostics s0 = []")
      case True
      show ?thesis
      proof (cases "require_watermark_coverage s0 t")
        case (Inl e)
        with run closed True assms(2,3) show ?thesis by auto
      next
        case (Inr u)
        with run closed True assms(2) have "finalise nm pd t \<lparr>fi_boundary_at = t, fi_available_at = t, fi_mode = RunEndFallback,
               fi_diagnostics = [''Role2-safe verified close proof is unavailable; used run_end fallback''],
               fi_cutoff = Some t, fi_version = ''v0.1'', fi_observe = False\<rparr> s0 = (r, s)" by simp
        from finalise_result [OF this assms(2,3)] show ?thesis by simp
      qed
    next
      case False
      with run closed assms(2) show ?thesis by (auto simp: put_snapshot_def plain_snapshot_def)
    qed
  qed
qed

end
