(* ===== verification/IncrementalRestore.thy ===== *)
theory IncrementalRestore
  imports IncrementalRecovery
begin

text \<open>
  The round trip of a checkpoint: what \<open>restore_from_checkpoint\<close> rebuilds from an exported
  checkpoint, first up to the accepted close, then through the finalisation that closed the state.
\<close>

section \<open>What a reachable state says of its close\<close>

lemma closed_checked:
  "incremental_reachable event_types ingress sd nm pd cfg sl \<Longrightarrow> in_closed (fst sl) = Some rc \<Longrightarrow> close_check cfg rc = Inr ()"
proof (induction arbitrary: rc rule: incremental_reachable.induct)
  case (created s l)
  then show ?case by (auto simp: new_incremental_def empty_incremental_def)
next
  case (stepped sl sl')
  obtain s l s' l' where sl: "sl = (s, l)" "sl' = (s', l')" by (cases sl; cases sl')
  note inv = reachable_inv [OF stepped(1), unfolded sl fst_conv]
  have cfg: "in_config s = cfg" using inv by (simp add: incremental_inv_def)
  have checked: "close_check (in_config s) d = Inr ()" if "in_closed s = Some d" for d
    unfolding cfg by (rule stepped.IH) (simp add: sl that)
  have "close_check (in_config s') rc = Inr ()"
    by (rule step_close_checked [OF stepped(2) [unfolded sl] inv checked]) (use stepped.prems sl in simp_all)
  moreover have "in_config s' = cfg" using step_config [OF inv stepped(2) [unfolded sl]] cfg by simp
  ultimately show ?case by simp
qed

lemma reachable_created:
  "incremental_reachable event_types ingress sd nm pd cfg sl \<Longrightarrow> \<exists>s. new_incremental cfg = Inr s"
  by (induction rule: incremental_reachable.induct) auto

lemma new_open:
  assumes "new_incremental cfg = Inr s"
  shows "open_state s" "accepted_chunks s = {}"
proof -
  have "in_closed s = None" "in_proof s = None" "in_chunks s = []" using assms by (auto simp: new_incremental_def empty_incremental_def)
  then show "open_state s" "accepted_chunks s = {}"
    using new_incremental_inv [OF assms, of "{}" undefined undefined undefined]
    by (auto simp: open_state_def accepted_chunks_def incremental_inv_def snapshot_inv_def)
qed

lemma replayed_close:
  assumes inv: "incremental_inv event_types sd nm pd cfg t" and t: "open_state t"
    and rc: "\<And>d. rc = Some d \<Longrightarrow> run_closed_ok d \<and> cl_run_id d = ic_run_id cfg \<and> close_check cfg d = Inr ()"
  shows "\<exists>t'. replay_close rc t = Inr t' \<and> incremental_inv event_types sd nm pd cfg t' \<and> \<not> is_terminal_status (sn_status (in_snapshot t'))
    \<and> in_closed t' = rc \<and> in_proof t' = None \<and> accepted_chunks t' = accepted_chunks t"
proof (cases rc)
  case None
  with inv t show ?thesis by (simp add: replay_close_def open_state_def)
next
  case (Some d)
  have cfg: "in_config t = cfg" and start: "is_utc (ic_run_start (in_config t))" using inv by (simp_all add: incremental_inv_def)
  obtain sn where sn: "refresh (t\<lparr>in_closed := Some d\<rparr>) = (Inr sn, t\<lparr>in_closed := Some d, in_snapshot := sn\<rparr>)" "\<not> is_terminal_status (sn_status sn)"
    using refresh_total [of "t\<lparr>in_closed := Some d\<rparr>"] start by auto
  have step: "incremental_accept_run_closed d t = (Inr sn, t\<lparr>in_closed := Some d, in_snapshot := sn\<rparr>)"
    using accept_close_new [of t d] t rc [OF Some] sn by (simp add: cfg open_state_def)
  have "run_closed_ok d" using rc [OF Some] by simp
  from step_inv [OF incremental_step.deliver_close [OF this step] inv]
  have "incremental_inv event_types sd nm pd cfg (t\<lparr>in_closed := Some d, in_snapshot := sn\<rparr>)" by blast
  then show ?thesis using Some step sn(2) t by (simp add: replay_close_def effect_of_def accepted_chunks_def open_state_def)
qed

section \<open>What a checkpoint holds\<close>

lemma validate_checkpoint_id: "validate_checkpoint event_types kd pd c = Inr c' \<Longrightarrow> c' = c"
  by (simp add: validate_checkpoint_def)

lemma exportD:
  assumes "export_checkpoint event_types kd pd s = Inr c"
  obtains contract family lifecycle sha where "ic_contract (in_config s) = Some contract" "ap_family_id (ic_approved (in_config s)) = Some family"
    "ap_lifecycle (ic_approved (in_config s)) = Some lifecycle" "c = (checkpoint_of kd contract family lifecycle s)\<lparr>cp_sha := sha\<rparr>"
    "\<And>p. in_candidate_policy s = Some p \<Longrightarrow> validate_causal_policy_identity (candidate_identity p) = Inr ()"
proof -
  obtain contract family lifecycle where some: "ic_contract (in_config s) = Some contract" "ap_family_id (ic_approved (in_config s)) = Some family"
    "ap_lifecycle (ic_approved (in_config s)) = Some lifecycle"
    and run: "check_each validate_causal_policy_identity (option_list (map_option candidate_identity (in_candidate_policy s))) = Inr ()"
      "build_checkpoint event_types kd pd (checkpoint_of kd contract family lifecycle s) = Inr c"
    using assms by (auto simp: export_checkpoint_def split: option.splits)
  have "validate_causal_policy_identity (candidate_identity p) = Inr ()" if "in_candidate_policy s = Some p" for p
    using run(1) that by (simp add: option_list_def)
  moreover have "c = (checkpoint_of kd contract family lifecycle s)\<lparr>cp_sha := checkpoint_content_sha kd (checkpoint_of kd contract family lifecycle s)\<rparr>"
    using validate_checkpoint_id run(2) unfolding build_checkpoint_def by blast
  ultimately show thesis using that some by blast
qed

lemma checkpoint_of_fields [simp]:
  "cp_selector (checkpoint_of kd contract family lifecycle s) = selector_identity (ic_selector (in_config s))"
  "cp_chunks (checkpoint_of kd contract family lifecycle s) = sort_key chunk_sort_key (map snd (in_chunks s))"
  "cp_closed (checkpoint_of kd contract family lifecycle s) = in_closed s"
  "cp_receipt (checkpoint_of kd contract family lifecycle s) = in_receipt s"
  "cp_proof (checkpoint_of kd contract family lifecycle s) = in_proof s"
  "cp_candidate (checkpoint_of kd contract family lifecycle s) = map_option candidate_identity (in_candidate_policy s)"
  "cp_validated_at (checkpoint_of kd contract family lifecycle s) = map_option pv_validated_at (in_validation s)"
  "cp_status (checkpoint_of kd contract family lifecycle s) = sn_status (in_snapshot s)"
  "cp_close_mode (checkpoint_of kd contract family lifecycle s) = sn_close_mode (in_snapshot s)"
  "cp_boundary_at (checkpoint_of kd contract family lifecycle s) = sn_boundary_at (in_snapshot s)"
  "cp_available_at (checkpoint_of kd contract family lifecycle s) = sn_available_at (in_snapshot s)"
  "cp_digests (checkpoint_of kd contract family lifecycle s) = map (\<lambda>e. (evd_id e, kd_evidence kd e)) (sort_key evd_id (sn_evidences (in_snapshot s)))"
  "cp_diagnostics (checkpoint_of kd contract family lifecycle s) = sn_diagnostics (in_snapshot s)"
  by (simp_all add: checkpoint_of_def Let_def)

lemma checkpoint_inputs_ok:
  assumes "ap_family_id (ic_approved (in_config s)) = Some family" "ap_lifecycle (ic_approved (in_config s)) = Some lifecycle"
    "ic_contract (in_config s) = Some contract"
  shows "validate_checkpoint_policy_inputs (checkpoint_of kd contract family lifecycle s\<lparr>cp_sha := sha\<rparr>) (ic_selector (in_config s)) (ic_approved (in_config s)) = Inr ()"
    "recovered_config (checkpoint_of kd contract family lifecycle s\<lparr>cp_sha := sha\<rparr>) (ic_selector (in_config s)) (ic_approved (in_config s)) = in_config s"
  using assms by (simp_all add: validate_checkpoint_policy_inputs_def recovered_config_def checkpoint_of_def Let_def)

text \<open>A snapshot equal to the exported one passes the last check.\<close>

lemma restored_snapshot_ok:
  assumes inv: "incremental_inv event_types sd nm pd cfg s"
  shows "validate_restored_snapshot kd (checkpoint_of kd contract family lifecycle s\<lparr>cp_sha := sha\<rparr>) (in_snapshot s) = Inr ()"
proof (cases "sn_status (in_snapshot s) = Finalized")
  case True
  then have "sn_close_mode (in_snapshot s) \<noteq> None" using inv by (auto simp: incremental_inv_def snapshot_inv_def confirmed_def)
  with True show ?thesis by (simp add: validate_restored_snapshot_def validate_finalized_evidence_def)
next
  case False
  then have "sn_evidences (in_snapshot s) = []" using inv by (auto simp: incremental_inv_def snapshot_inv_def)
  with False show ?thesis by (simp add: validate_restored_snapshot_def)
qed

section \<open>The finalisation of a verified close\<close>

text \<open>What \<open>accept_verified_close_proof\<close> records, and the finalisation it asks for.\<close>

definition recorded :: "close_proof \<Rightarrow> proof_validation \<Rightarrow> trusted_binding \<Rightarrow> incremental_state \<Rightarrow> incremental_state" where
  "recorded p v b s = s\<lparr>in_proof := Some p, in_validation := Some v, in_receipt := Some (tb_receipt b), in_candidate_policy := Some (tb_policy b)\<rparr>"

definition verified_finalisation :: "close_proof \<Rightarrow> datetime \<Rightarrow> finalisation" where
  "verified_finalisation p t = \<lparr>fi_boundary_at = pf_boundary_at p, fi_available_at = t, fi_mode = VerifiedCloseProof,
     fi_diagnostics = [''Role2-safe verified close proof finalized incremental Evidence''],
     fi_cutoff = None, fi_version = ''v0.2'', fi_observe = True\<rparr>"

lemma recorded_fields [simp]:
  "in_proof (recorded p v b s) = Some p" "in_validation (recorded p v b s) = Some v" "in_receipt (recorded p v b s) = Some (tb_receipt b)"
  "in_candidate_policy (recorded p v b s) = Some (tb_policy b)" "in_snapshot (recorded p v b s) = in_snapshot s"
  by (simp_all add: recorded_def)

lemma verified_close_open:
  assumes "\<not> is_terminal_status (sn_status (in_snapshot s))"
  shows "incremental_accept_verified_close_proof nm pd sd now p b s =
    (if ic_contract (in_config s) = None
     then (Inl (ValueError ''verified close proof requires an explicit required-partition contract''), s)
     else if in_closed s = None then (Inl (ValueError ''accepted run_closed is required before verified proof finalization''), s)
     else if in_closed s \<noteq> Some (tb_closed b)
       then (Inl (ValueError ''verified proof run_closed does not match incremental state''),
         fail_closed [''verified proof run_closed does not match incremental state''] s)
     else if chunk_coverage_diagnostics s \<noteq> []
       then (Inr (in_snapshot (fail_closed (chunk_coverage_diagnostics s) s)), fail_closed (chunk_coverage_diagnostics s) s)
     else (case check_verified_close pd sd p b s of
         Inl e \<Rightarrow> (Inl e, fail_closed [''verified close proof validation failed: '' @ exn_text e] s)
       | Inr (v, t) \<Rightarrow> finalise nm pd now (verified_finalisation p t) (recorded p v b s)))"
  unfolding incremental_accept_verified_close_proof_def verified_finalisation_def recorded_def Let_def if_not_P [OF assms] ..

lemma verified_close_eq:
  assumes "ic_contract (in_config s) \<noteq> None" "\<not> is_terminal_status (sn_status (in_snapshot s))" "in_closed s = Some (tb_closed b)"
    "chunk_coverage_diagnostics s = []" "check_verified_close pd sd p b s = Inr (v, t)"
  shows "incremental_accept_verified_close_proof nm pd sd now p b s = finalise nm pd now (verified_finalisation p t) (recorded p v b s)"
  unfolding verified_close_open [OF assms(2)] if_not_P [OF assms(1)] assms(3-5) by simp

lemma verified_close_branches:
  assumes step: "incremental_accept_verified_close_proof nm pd sd now p b s0 = (r, s)" and open0: "\<not> is_terminal_status (sn_status (in_snapshot s0))"
    and terminal: "is_terminal_status (sn_status (in_snapshot s))"
  obtains (failed) ds where "s = fail_closed ds s0"
  | (final) v t where "ic_contract (in_config s0) \<noteq> None" "in_closed s0 = Some (tb_closed b)" "chunk_coverage_diagnostics s0 = []"
      "check_verified_close pd sd p b s0 = Inr (v, t)" "finalise nm pd now (verified_finalisation p t) (recorded p v b s0) = (r, s)"
proof (cases "ic_contract (in_config s0) = None \<or> in_closed s0 = None")
  case True
  with step [unfolded verified_close_open [OF open0]] have "s = s0" by (auto split: if_splits)
  with open0 terminal show thesis by simp
next
  case False
  then have keep: "ic_contract (in_config s0) \<noteq> None" "in_closed s0 \<noteq> None" by simp_all
  note run = step [unfolded verified_close_open [OF open0] if_not_P [OF keep(1)] if_not_P [OF keep(2)]]
  show thesis
  proof (cases "in_closed s0 = Some (tb_closed b) \<and> chunk_coverage_diagnostics s0 = []")
    case closed: True
    show thesis
    proof (cases "check_verified_close pd sd p b s0")
      case (Inl e)
      with run closed have "s = fail_closed [''verified close proof validation failed: '' @ exn_text e] s0" by simp
      then show thesis by (rule failed)
    next
      case (Inr x)
      obtain v t where x: "x = (v, t)" by (cases x)
      note check = Inr [unfolded x]
      show thesis by (rule final [of v t]) (use run keep closed check in simp_all)
    qed
  next
    case unclosed: False
    with run have "\<exists>ds. s = fail_closed ds s0" by (auto split: if_splits)
    then show thesis using failed by blast
  qed
qed

lemma finalise_keeps_record:
  assumes "finalise nm pd now f s0 = (r, s)"
  shows "in_proof s = in_proof s0" "in_validation s = in_validation s0" "in_receipt s = in_receipt s0"
    "in_candidate_policy s = in_candidate_policy s0"
proof -
  have "\<exists>sn. s = s0\<lparr>in_snapshot := sn\<rparr>"
    using assms
  proof (cases rule: finalise_cases)
    case kept
    then show ?thesis by (intro exI [of _ "in_snapshot s0"]) simp
  next
    case failed
    then show ?thesis by (auto simp: failed_state_def)
  next
    case (final t q)
    then show ?thesis by blast
  qed
  then show "in_proof s = in_proof s0" "in_validation s = in_validation s0" "in_receipt s = in_receipt s0"
    "in_candidate_policy s = in_candidate_policy s0" by auto
qed

text \<open>A state closed by a proof repeats the same close when the clock shows the recorded time.\<close>

lemma verified_again:
  assumes step: "incremental_accept_verified_close_proof nm pd sd now p b s0 = (r, s)" and open0: "\<not> is_terminal_status (sn_status (in_snapshot s0))"
    and terminal: "is_terminal_status (sn_status (in_snapshot s))" and at_time: "sn_available_at (in_snapshot s) = Some u"
  shows "incremental_accept_verified_close_proof nm pd sd u p b s0 = (Inr (in_snapshot s), s)"
    "\<exists>v t. check_verified_close pd sd p b s0 = Inr (v, t) \<and> in_validation s = Some v \<and> in_closed s0 = Some (tb_closed b)"
    "in_proof s = Some p" "in_receipt s = Some (tb_receipt b)" "in_candidate_policy s = Some (tb_policy b)"
    "sn_close_mode (in_snapshot s) = Some VerifiedCloseProof"
proof -
  obtain v t where final: "ic_contract (in_config s0) \<noteq> None" "in_closed s0 = Some (tb_closed b)" "chunk_coverage_diagnostics s0 = []"
    "check_verified_close pd sd p b s0 = Inr (v, t)" "finalise nm pd now (verified_finalisation p t) (recorded p v b s0) = (r, s)"
    using step open0 terminal
  proof (cases rule: verified_close_branches)
    case (failed ds)
    then have False using at_time by simp
    then show thesis ..
  next
    case (final v t)
    then show thesis by (rule that)
  qed
  have open1: "\<not> is_terminal_status (sn_status (in_snapshot (recorded p v b s0)))" using open0 by simp
  from finalise_result [OF final(5) open1 terminal] at_time
  have res: "r = Inr (in_snapshot s)" "sn_close_mode (in_snapshot s) = Some VerifiedCloseProof" by (auto simp: verified_finalisation_def)
  from finalise_again [OF final(5) open1 terminal at_time] verified_close_eq [OF final(1) open0 final(2,3,4)]
  show "incremental_accept_verified_close_proof nm pd sd u p b s0 = (Inr (in_snapshot s), s)" by (simp add: res)
  from finalise_keeps_record [OF final(5)] final(2,4) res(2)
  show "\<exists>v t. check_verified_close pd sd p b s0 = Inr (v, t) \<and> in_validation s = Some v \<and> in_closed s0 = Some (tb_closed b)"
    "in_proof s = Some p" "in_receipt s = Some (tb_receipt b)" "in_candidate_policy s = Some (tb_policy b)"
    "sn_close_mode (in_snapshot s) = Some VerifiedCloseProof" by auto
qed

lemma validate_proof_binding:
  assumes "validate_proof pd sd p rc receipt policy ex t = Inr v"
  shows "pf_seal_id p = ex_seal_id ex" "pf_projection_sha p = ex_projection_sha ex" "pv_validated_at v = t" "pv_proof v = p"
  using assms by (simp_all add: validate_proof_def) auto

lemma verified_binding:
  assumes "check_verified_close pd sd p b s = Inr (v, t)"
  shows "tb_seal_id b = pf_seal_id p" "tb_projection_sha b = pf_projection_sha p" "tb_validated_at b = pv_validated_at v"
  using check_verified_closeD(3) [OF assms] validate_proof_binding [of pd sd p "tb_closed b" "tb_receipt b" "tb_policy b" _ "tb_validated_at b" v]
  by (auto simp: expectation_of_def)

section \<open>The round trip\<close>

text \<open>What the caller must supply again: the inputs the state recorded.\<close>

definition recovery_binding_of :: "incremental_state \<Rightarrow> recovery_binding" where
  "recovery_binding_of s = \<lparr>rb_policy = in_candidate_policy s, rb_receipt = in_receipt s, rb_seal_id = map_option pf_seal_id (in_proof s),
     rb_projection_sha = map_option pf_projection_sha (in_proof s)\<rparr>"

text \<open>The proof a state keeps belongs to the close it shows.\<close>

definition proof_settled :: "incremental_state \<Rightarrow> bool" where
  "proof_settled s \<longleftrightarrow> in_proof s = None
     \<or> (sn_close_mode (in_snapshot s) = Some VerifiedCloseProof \<and> sn_available_at (in_snapshot s) \<noteq> None)"

context replaying_ingress
begin

lemma restore_open:
  assumes reach: "incremental_reachable event_types ingress0 sd nm pd cfg (s, l0)" and known: "\<forall>d \<in> accepted_chunks s. known d l"
    and cs: "distinct cs" "set cs = accepted_chunks s"
  obtains t0 t1 t where "new_incremental cfg = Inr t0" "replay_chunks ingress sd cs (t0, l) = (Inr (), t1, l)" "replay_close (in_closed s) t1 = Inr t"
    "incremental_inv event_types sd nm pd cfg t" "\<not> is_terminal_status (sn_status (in_snapshot t))" "in_closed t = in_closed s"
    "in_proof t = None" "accepted_chunks t = accepted_chunks s"
proof -
  note inv = reachable_inv [OF reach, unfolded fst_conv]
  obtain t0 where t0: "new_incremental cfg = Inr t0" using reachable_created [OF reach] by blast
  note new = new_open [OF t0] and inv0 = new_incremental_inv [OF t0, of event_types sd nm pd]
  obtain t1 where t1: "replay_chunks ingress sd cs (t0, l) = (Inr (), t1, l)" "incremental_inv event_types sd nm pd cfg t1" "open_state t1"
    "accepted_chunks t1 = accepted_chunks s"
    using replay_all [OF inv inv0 new(1) _ cs(1), of l] new(2) cs(2) known by auto
  have "run_closed_ok d \<and> cl_run_id d = ic_run_id cfg \<and> close_check cfg d = Inr ()" if "in_closed s = Some d" for d
    using that inv closed_checked [OF reach, of d] by (simp add: incremental_inv_def)
  from replayed_close [OF t1(2,3) this] t1(4) that [OF t0 t1(1)] show thesis by auto
qed

end

text \<open>An open state was not closed in any mode.\<close>

lemma open_mode:
  assumes "incremental_inv event_types sd nm pd cfg s" "\<not> is_terminal_status (sn_status (in_snapshot s))"
  shows "sn_close_mode (in_snapshot s) = None"
proof -
  have plain: "sn_close_mode sn = None" if "provisional_snapshot s ds = Inr sn" for sn ds
    using that by (auto simp: provisional_snapshot_def plain_snapshot_def)
  show ?thesis by (rule plain [where ds = "chunk_coverage_diagnostics s"]) (use assms in \<open>simp add: incremental_inv_def\<close>)
qed

text \<open>The open state \<open>t\<close> has the inputs of \<open>s\<close>; replaying the close of \<open>s\<close> shows what \<open>s\<close> shows.\<close>

definition replays :: "incremental_state \<Rightarrow> incremental_state result \<Rightarrow> bool" where
  "replays s x \<longleftrightarrow> (\<exists>s'. x = Inr s' \<and> in_snapshot s' = in_snapshot s \<and> accepted_chunks s' = accepted_chunks s \<and> in_closed s' = in_closed s)"

lemma replays_effect:
  assumes "outcome x = (Inr (in_snapshot s), in_snapshot s)" "snd x = s'" "accepted_chunks s' = accepted_chunks s" "in_closed s' = in_closed s"
  shows "replays s (effect_of x)"
  using assms by (auto simp: replays_def effect_of_def outcome_def)

lemma replayed_run_end:
  assumes view: "same_view s0 t" and "in_proof s0 = in_proof t" and accepted: "accepted_chunks s0 = accepted_chunks t"
    and inv: "incremental_inv event_types sd nm pd cfg s0" "incremental_inv event_types sd nm pd cfg t"
    and step: "finalize_at_run_end nm pd u s0 = (Inr (in_snapshot s), s)"
  shows "replays s (effect_of (finalize_at_run_end nm pd u t))"
proof -
  have snap: "snapshot_inv nm pd sd s0" "snapshot_inv nm pd sd t" using inv by (simp_all add: incremental_inv_def)
  obtain r s' where s': "finalize_at_run_end nm pd u t = (r, s')" by (cases "finalize_at_run_end nm pd u t")
  note eq = closes_fields [OF proof_recorded_refl run_end_inv(3) [OF step snap(1)]]
    and eq' = closes_fields [OF proof_recorded_refl run_end_inv(3) [OF s' snap(2)]]
  have "in_closed s0 = in_closed t" using view by (simp add: same_view_def)
  moreover have "outcome (finalize_at_run_end nm pd u t) = (Inr (in_snapshot s), in_snapshot s)"
    unfolding run_end_view [OF view assms(2), symmetric] step by simp
  ultimately show ?thesis
    using eq eq' accepted by (intro replays_effect [where s' = s']) (simp_all add: s')
qed

lemma replayed_verified:
  assumes view: "same_view s0 t" and open0: "\<not> is_terminal_status (sn_status (in_snapshot s0))" and accepted: "accepted_chunks s0 = accepted_chunks t"
    and inv: "incremental_inv event_types sd nm pd cfg s0" "incremental_inv event_types sd nm pd cfg t"
    and step: "incremental_accept_verified_close_proof nm pd sd u p b s0 = (Inr (in_snapshot s), s)"
  shows "replays s (effect_of (incremental_accept_verified_close_proof nm pd sd u p b t))"
proof -
  have snap: "snapshot_inv nm pd sd s0" "snapshot_inv nm pd sd t" using inv by (simp_all add: incremental_inv_def)
  obtain r s' where s': "incremental_accept_verified_close_proof nm pd sd u p b t = (r, s')"
    by (cases "incremental_accept_verified_close_proof nm pd sd u p b t")
  obtain s1 t1 where closes: "proof_recorded s0 s1" "closes_from s1 s" "proof_recorded t t1" "closes_from t1 s'"
    using verified_close_inv(3) [OF step snap(1)] verified_close_inv(3) [OF s' snap(2)] by blast
  note eq = closes_fields [OF closes(1,2)] and eq' = closes_fields [OF closes(3,4)]
  have "in_closed s0 = in_closed t" using view by (simp add: same_view_def)
  moreover have "outcome (incremental_accept_verified_close_proof nm pd sd u p b t) = (Inr (in_snapshot s), in_snapshot s)"
    unfolding verified_close_view [OF view open0, symmetric] step by simp
  ultimately show ?thesis
    using eq eq' accepted by (intro replays_effect [where s' = s']) (simp_all add: s')
qed

lemma fail_closed_view:
  assumes "same_view s0 t" "accepted_chunks s0 = accepted_chunks t"
  shows "replays (fail_closed ds s0) (Inr (fail_closed ds t))"
  using assms by (auto simp: replays_def fail_closed_def same_view_def accepted_chunks_def)

text \<open>The three ways a checkpoint of \<open>s\<close> is closed again.\<close>

lemma replayed_terminal:
  assumes reach: "incremental_reachable event_types ingress sd nm pd cfg (s, l)"
    and inj: "inj_on (sd_event sd) (events_of (accepted_chunks s))" and settled: "proof_settled s"
    and t: "incremental_inv event_types sd nm pd cfg t" "\<not> is_terminal_status (sn_status (in_snapshot t))"
    and same: "in_closed t = in_closed s" "in_proof t = None" "accepted_chunks t = accepted_chunks s"
    and c: "c = (checkpoint_of kd contract family lifecycle s)\<lparr>cp_sha := sha\<rparr>" and contract: "ic_contract cfg \<noteq> None"
    and candidate: "\<And>p. in_candidate_policy s = Some p \<Longrightarrow> validate_causal_policy_identity (candidate_identity p) = Inr ()"
  shows "replays s (replay_terminal nm pd sd (recovery_clock c now) c (recovery_binding_of s) t)"
proof (cases "is_terminal_status (sn_status (in_snapshot s))")
  case False
  note inv = reachable_inv [OF reach, unfolded fst_conv]
  have "same_view s t" by (rule same_inputs_same_view [OF inv t(1) inj]) (use same t(2) False in simp_all)
  then have "in_snapshot t = in_snapshot s" by (simp add: same_view_def)
  with open_mode [OF inv False] same show ?thesis by (simp add: replay_terminal_def replays_def c)
next
  case terminal: True
  obtain s0 l0 where s0: "incremental_reachable event_types ingress sd nm pd cfg (s0, l0)" "\<not> is_terminal_status (sn_status (in_snapshot s0))"
    and how: "(\<exists>u r. finalize_at_run_end nm pd u s0 = (r, s)) \<or> (\<exists>now p b r. incremental_accept_verified_close_proof nm pd sd now p b s0 = (r, s))"
    using terminal_origin [OF reach] terminal unfolding fst_conv by blast
  note inv = reachable_inv [OF s0(1), unfolded fst_conv]
  have snap: "snapshot_inv nm pd sd s0" and cfg: "in_config s0 = cfg" using inv by (simp_all add: incremental_inv_def)
  have "\<exists>s1. proof_recorded s0 s1 \<and> closes_from s1 s"
    using how run_end_inv(3) [OF _ snap] verified_close_inv(3) [OF _ snap] proof_recorded_refl by blast
  then obtain s1 where closes: "proof_recorded s0 s1" "closes_from s1 s" by blast
  note eq = closes_fields [OF closes]
  have view: "same_view s0 t"
    by (rule same_inputs_same_view [OF inv t(1)]) (use same t(2) s0(2) eq inj in simp_all)
  have accepted: "accepted_chunks s0 = accepted_chunks t" using eq same by simp
  from how show ?thesis
  proof (elim disjE exE)
    fix u r assume step: "finalize_at_run_end nm pd u s0 = (r, s)"
    from run_end_result [OF step s0(2) terminal]
    have res: "r = Inr (in_snapshot s)" "sn_close_mode (in_snapshot s) = Some RunEndFallback" "sn_boundary_at (in_snapshot s) = Some u" by simp_all
    have "in_proof s = None" using settled res(2) by (simp add: proof_settled_def)
    then have "in_proof s0 = in_proof t" using closes_fields(5) [OF proof_recorded_refl run_end_inv(3) [OF step snap]] same by simp
    from replayed_run_end [OF view this accepted inv t(1)] step res show ?thesis by (simp add: replay_terminal_def c)
  next
    fix now' p b r assume step: "incremental_accept_verified_close_proof nm pd sd now' p b s0 = (r, s)"
    show ?thesis
    proof (cases "in_proof s = None")
      case True
      from step s0(2) terminal obtain ds where "s = fail_closed ds s0"
      proof (cases rule: verified_close_branches)
        case (final v w)
        from finalise_keeps_record(1) [OF final(5)] True show thesis by simp
      qed blast
      moreover have "sn_close_mode (in_snapshot (fail_closed ds s0)) = Some VerifiedCloseProof" using contract cfg by (simp add: fail_closed_def)
      ultimately show ?thesis
        using fail_closed_view [OF view accepted, of ds] True by (simp add: replay_terminal_def replay_verified_close_def c)
    next
      case False
      then obtain u where u: "sn_available_at (in_snapshot s) = Some u" using settled by (auto simp: proof_settled_def)
      note again = verified_again [OF step s0(2) terminal u]
      obtain v w where v: "check_verified_close pd sd p b s0 = Inr (v, w)" "in_validation s = Some v" "in_closed s0 = Some (tb_closed b)"
        using again(2) by blast
      have trusted: "trusted_of c (recovery_binding_of s) = Some b"
        using again(3-5) v(2,3) eq(1) verified_binding [OF v(1)] by (simp add: trusted_of_def recovery_binding_of_def c)
      have "recovery_clock c now = u" using again(6) u by (simp add: recovery_clock_def c)
      moreover have "validate_causal_policy_identity (candidate_identity (tb_policy b)) = Inr ()" using candidate again(5) by simp
      ultimately show ?thesis
        using replayed_verified [OF view s0(2) accepted inv t(1) again(1)] trusted again(3-6)
        by (simp add: replay_terminal_def replay_verified_close_def c)
    qed
  qed
qed

context replaying_ingress
begin

lemma restore_exported:
  assumes reach: "incremental_reachable event_types ingress0 sd nm pd cfg (s, l0)" and export: "export_checkpoint event_types kd pd s = Inr c"
    and known: "\<forall>d \<in> accepted_chunks s. known d l" and inj: "inj_on (sd_event sd) (events_of (accepted_chunks s))"
    and settled: "proof_settled s"
  shows "\<exists>s'. restore_from_checkpoint nm pd sd kd ingress now c (ic_selector cfg) (ic_approved cfg) (recovery_binding_of s) l = (Inr s', l)
    \<and> in_snapshot s' = in_snapshot s \<and> accepted_chunks s' = accepted_chunks s \<and> in_closed s' = in_closed s"
proof -
  note inv = reachable_inv [OF reach, unfolded fst_conv]
  have cfg: "in_config s = cfg" and chunks: "chunks_inv event_types sd s" using inv by (simp_all add: incremental_inv_def)
  obtain contract family lifecycle sha where some: "ic_contract cfg = Some contract" "ap_family_id (ic_approved cfg) = Some family"
    "ap_lifecycle (ic_approved cfg) = Some lifecycle" and c: "c = (checkpoint_of kd contract family lifecycle s)\<lparr>cp_sha := sha\<rparr>"
    and candidate: "\<And>p. in_candidate_policy s = Some p \<Longrightarrow> validate_causal_policy_identity (candidate_identity p) = Inr ()"
    using exportD [OF export] unfolding cfg by metis
  have "distinct (map chunk_key (map snd (in_chunks s)))"
    using chunks chunk_list [OF chunks] by (metis (no_types, lifting) chunks_inv_def fst_conv map_eq_conv map_map comp_def)
  then have cs: "distinct (cp_chunks c)" "set (cp_chunks c) = accepted_chunks s"
    by (simp_all add: c accepted_set distinct_map del: map_map)
  obtain t0 t1 t where t: "new_incremental cfg = Inr t0" "replay_chunks ingress sd (cp_chunks c) (t0, l) = (Inr (), t1, l)"
    "replay_close (in_closed s) t1 = Inr t" "incremental_inv event_types sd nm pd cfg t" "\<not> is_terminal_status (sn_status (in_snapshot t))"
    "in_closed t = in_closed s" "in_proof t = None" "accepted_chunks t = accepted_chunks s"
    using restore_open [OF reach known cs] by blast
  have "ic_contract cfg \<noteq> None" using some(1) by simp
  from replayed_terminal [OF reach inj settled t(4-8) c this candidate, where now = now]
  obtain s' where s': "replay_terminal nm pd sd (recovery_clock c now) c (recovery_binding_of s) t = Inr s'" "in_snapshot s' = in_snapshot s"
    "accepted_chunks s' = accepted_chunks s" "in_closed s' = in_closed s" unfolding replays_def by blast
  note inputs = checkpoint_inputs_ok [where s = s and kd = kd and sha = sha, unfolded cfg, OF some(2,3,1)]
  have "cp_closed c = in_closed s" by (simp add: c)
  with inputs t(1-3) s' restored_snapshot_ok [OF inv, where kd = kd and contract = contract and family = family and lifecycle = lifecycle and sha = sha]
  show ?thesis by (simp add: restore_from_checkpoint_def c [symmetric])
qed

end

section \<open>The ingress over the ledger\<close>

text \<open>The ingress with the clock its dead letters are stamped with.\<close>

definition clocked_ingress :: "dead_letter_sink \<Rightarrow> stream_digests \<Rightarrow> (datetime \<times> ledger stream_state) chunk_ingress" where
  "clocked_ingress sink sd c l = (case accept_chunk sink sd (fst l) c (snd l) of (r, st') \<Rightarrow> (r, (fst l, st')))"

text \<open>The ledger has the chunk.\<close>

definition chunk_stored :: "stream_digests \<Rightarrow> event_chunk \<Rightarrow> datetime \<times> ledger stream_state \<Rightarrow> bool" where
  "chunk_stored sd c l \<longleftrightarrow> ledger_wf (si_ledger (snd l)) \<and> shas_ok (event_shas sd c) \<and> chunk_sha sd c = ck_sha c
     \<and> chunk_in sd c (si_ledger (snd l))"

lemma chunk_in_extends: "ledger_extends l l' \<Longrightarrow> chunk_in sd c l \<Longrightarrow> chunk_in sd c l'"
  by (auto simp: ledger_extends_def chunk_in_def chunk_recorded_def dest: set_mono_prefix)

lemma clocked_effect:
  assumes wf: "ledger_wf (si_ledger (snd l))" and c: "chunk_ok event_types c" "event_ids_ok c" and sd: "digests_ok sd"
    and step: "clocked_ingress sink sd c l = (r, l')"
  shows "ledger_wf (si_ledger (snd l'))" "ledger_extends (si_ledger (snd l)) (si_ledger (snd l'))"
    "r = Inr a \<Longrightarrow> chunk_stored sd c l'"
proof -
  obtain st' where st': "accept_chunk sink sd (fst l) c (snd l) = (r, st')" "l' = (fst l, st')"
    using step by (auto simp: clocked_ingress_def split: prod.splits)
  note effect = accept_chunk_effect [OF wf c sd st'(1)]
  have "si_ledger st' = si_ledger (snd l) \<or> ledger_step event_types sd (si_ledger (snd l)) (si_ledger st')"
    using effect by (auto simp: delivery_effect_def split: sum.splits if_splits)
  then show wf': "ledger_wf (si_ledger (snd l'))" and "ledger_extends (si_ledger (snd l)) (si_ledger (snd l'))"
    using wf ledger_step_wf [OF _ sd wf] ledger_step_extends st'(2) by (auto simp: ledger_extends_def)
  show "chunk_stored sd c l'" if "r = Inr a"
    using effect that wf' st'(2) event_shas_ok [OF c sd] by (simp add: delivery_effect_def settled_def chunk_stored_def)
qed

interpretation ledger_ingress: recording_ingress "clocked_ingress sink sd" "chunk_stored sd" "\<lambda>l. ledger_wf (si_ledger (snd l))"
    "\<lambda>c. chunk_ok event_types c \<and> event_ids_ok c \<and> digests_ok sd"
  for sink sd event_types
proof unfold_locales
  show "clocked_ingress sink sd c l = (Inr (delivery_result_of False []), l)" if "chunk_stored sd c l" for c l
    using that accept_chunk_duplicate [of "snd l" sd c sink "fst l"] by (simp add: chunk_stored_def clocked_ingress_def)
  show "chunk_stored sd c l'" if "ledger_wf (si_ledger (snd l))" "chunk_ok event_types c \<and> event_ids_ok c \<and> digests_ok sd"
    "clocked_ingress sink sd c l = (Inr a, l')" for c l a l'
    using that clocked_effect(3) by blast
  show "chunk_stored sd d l'" if "ledger_wf (si_ledger (snd l))" "chunk_ok event_types c \<and> event_ids_ok c \<and> digests_ok sd"
    "clocked_ingress sink sd c l = (r, l')" "chunk_stored sd d l" for c l r l' d
    using that clocked_effect(1,2) chunk_in_extends unfolding chunk_stored_def by blast
  show "ledger_wf (si_ledger (snd l'))" if "ledger_wf (si_ledger (snd l))" "chunk_ok event_types c \<and> event_ids_ok c \<and> digests_ok sd"
    "clocked_ingress sink sd c l = (r, l')" for c l r l'
    using that clocked_effect(1) by blast
qed

end
