(* ===== verification/CloseChain.thy ===== *)
theory CloseChain
  imports IncrementalRestore
begin

text \<open>
  The chain of a verified close: the seal the scenario side issues, the proof issued from it, and the
  finalisation the proof allows on the side that extracts the Evidence.
\<close>

section \<open>The seal\<close>

lemma issued_sealD:
  assumes "issue_seal seal_id run rc actions boundary row completion policy emitted_at = Inr s"
  shows "s = \<lparr>sl_seal_id = seal_id, sl_run_id = rm_run_id run, sl_family_id = cnp_family_id policy,
        sl_run_type = rm_run_type run, sl_close_id = cl_close_id rc, sl_partitions = cl_finals rc,
        sl_policy = identity_of_policy policy, sl_boundary = boundary, sl_emitted_at = emitted_at\<rparr>"
    "validate_seal s = Inr s" "\<exists>b. validate_seal_binding s run rc actions row completion policy = Inr b"
    "instant (cl_emitted_at rc) \<le> instant emitted_at"
  using assms by (auto simp: issue_seal_def validate_seal_def not_less)

lemma validate_seal_fields:
  assumes "validate_seal s = Inr s'"
  shows "is_utc (bat_completed_at (sl_boundary s))" "ms_aligned (bat_completed_at (sl_boundary s))" "is_utc (sl_emitted_at s)" "ms_aligned (sl_emitted_at s)"
    "instant (bat_completed_at (sl_boundary s)) \<le> instant (sl_emitted_at s)" "sl_partitions s \<noteq> []"
    "\<And>w. w \<in> set (sl_partitions s) \<Longrightarrow> pt_run_id (fw_partition w) = sl_run_id s"
  using assms by (auto simp: validate_seal_def validate_seal_scope_def validate_attestation_def not_less)

lemma seal_binding_fields:
  assumes "validate_seal_binding s run rc actions row completion policy = Inr b"
  shows "b = \<lparr>vb_run_id = sl_run_id s, vb_seal_id = sl_seal_id s, vb_close_id = sl_close_id s,
      vb_boundary_at = bat_completed_at (sl_boundary s), vb_seal_at = sl_emitted_at s\<rparr>"
    "sl_run_id s = cl_run_id rc" "sl_close_id s = cl_close_id rc" "sl_partitions s = cl_finals rc" "sl_policy s = identity_of_policy policy"
    "sl_family_id s = cnp_family_id policy" "rm_run_id run = cl_run_id rc"
    "\<And>w. w \<in> set (cl_finals rc) \<Longrightarrow> instant (bat_completed_at (sl_boundary s)) \<le> instant (fw_at w)"
    "instant (cl_emitted_at rc) \<le> instant (sl_emitted_at s)"
    "instant (xr_timestamp row) = instant (bcm_started_at completion)" "instant (bat_completed_at (sl_boundary s)) = instant (bcm_completed_at completion)"
    "instant (add_delta (rm_start_time run) (sa_offset (last actions) * 1000000)) \<le> instant (xr_timestamp row)"
    "instant (rm_start_time run) \<le> instant (bat_completed_at (sl_boundary s))"
    "\<And>t. rm_end_time run = Some t \<Longrightarrow> instant (bat_completed_at (sl_boundary s)) \<le> instant t"
  using assms
  by (auto simp: validate_seal_binding_def validate_run_binding_def validate_verified_boundary_def
      validate_boundary_action_completion_def validate_boundary_within_run_def not_less)

section \<open>The proof\<close>

lemma validate_close_proof_id: "validate_close_proof pd p = Inr p' \<Longrightarrow> p' = p"
  by (simp add: validate_close_proof_def)

lemma issued_proofD:
  assumes issue: "issue_close_proof pd sd proof_id host_id b s rc receipt policy created = Inr p" and seal: "validate_seal s = Inr s"
  shows "validate_close_proof pd p = Inr p" "validate_accepted_close_receipt sd receipt rc = Inr ()"
    "validate_source_binding b s rc policy host_id = Inr ()" "seal_projection_sha pd s host_id = Inr (pf_projection_sha p)"
    "proof_projection p = seal_projection_of s host_id" "pf_proof_id p = proof_id" "pf_created_at p = created"
    "pf_closed_sha p = sd_closed sd rc" "pf_close_emitted_at p = cl_emitted_at rc" "pf_close_id p = cl_close_id rc" "pf_partitions p = cl_finals rc"
proof -
  let ?p = "\<lambda>projection sha. \<lparr>pf_proof_id = proof_id, pf_run_id = sl_run_id s, pf_host_id = host_id, pf_family_id = sl_family_id s,
         pf_policy = sl_policy s, pf_seal_id = sl_seal_id s, pf_projection_sha = projection, pf_close_id = cl_close_id rc,
         pf_closed_sha = sd_closed sd rc, pf_close_emitted_at = cl_emitted_at rc, pf_boundary_at = vb_boundary_at b,
         pf_partitions = cl_finals rc, pf_seal_at = vb_seal_at b, pf_created_at = created, pf_sha = sha\<rparr>"
  from issue have "validate_accepted_close_receipt sd receipt rc = Inr () \<and> validate_source_binding b s rc policy host_id = Inr ()
      \<and> (\<exists>projection sha. seal_projection_sha pd s host_id = Inr projection \<and> validate_close_proof pd (?p projection sha) = Inr p)"
    by (auto simp: issue_close_proof_def Let_def)
  then obtain projection sha where run: "validate_accepted_close_receipt sd receipt rc = Inr ()" "validate_source_binding b s rc policy host_id = Inr ()"
    "seal_projection_sha pd s host_id = Inr projection" and built: "validate_close_proof pd (?p projection sha) = Inr p" by blast
  have p: "p = ?p projection sha" using validate_close_proof_id [OF built] .
  have valid: "validate_close_proof pd p = Inr p" using built p by simp
  show "validate_close_proof pd p = Inr p" "validate_accepted_close_receipt sd receipt rc = Inr ()"
    "validate_source_binding b s rc policy host_id = Inr ()" by (fact valid run)+
  show "seal_projection_sha pd s host_id = Inr (pf_projection_sha p)" "pf_proof_id p = proof_id" "pf_created_at p = created"
    "pf_closed_sha p = sd_closed sd rc" "pf_close_emitted_at p = cl_emitted_at rc" "pf_close_id p = cl_close_id rc" "pf_partitions p = cl_finals rc"
    using p run(3) by auto
  have utc: "is_utc (vb_boundary_at b)" "is_utc (vb_seal_at b)" using valid p by (auto simp: validate_close_proof_def)
  have bind: "instant (vb_boundary_at b) = instant (bat_completed_at (sl_boundary s))" "instant (vb_seal_at b) = instant (sl_emitted_at s)"
    "sl_close_id s = cl_close_id rc" "sl_partitions s = cl_finals rc" using run(2) by (auto simp: validate_source_binding_def)
  then have "vb_boundary_at b = bat_completed_at (sl_boundary s)" "vb_seal_at b = sl_emitted_at s"
    using utc validate_seal_fields(1,3) [OF seal] instant_inject by blast+
  then show "proof_projection p = seal_projection_of s host_id" using p bind by (auto simp: proof_projection_def seal_projection_of_def)
qed

lemma close_proof_fields:
  assumes "validate_close_proof pd p = Inr p"
  shows "require_proof_content_hash pd p = Inr ()" "pf_seal_id p \<noteq> []" "unpadded (pf_seal_id p)" "sha256_ok (pf_projection_sha p)"
    "run_id_ok (pf_run_id p)" "unpadded (pf_run_id p)" "validate_pair_identifier (pf_family_id p) = Inr ()"
    "\<And>w. w \<in> set (pf_partitions p) \<Longrightarrow> instant (pf_boundary_at p) \<le> instant (fw_at w)"
    "instant (pf_close_emitted_at p) \<le> instant (pf_seal_at p)" "instant (pf_seal_at p) \<le> instant (pf_created_at p)"
    "is_utc (pf_boundary_at p)" "ms_aligned (pf_boundary_at p)"
  using assms by (auto simp: validate_close_proof_def validate_scope_and_hash_def not_less)

text \<open>A proof issued from a valid seal passes the validation of the other side.\<close>

lemma issued_proof_valid:
  assumes issue: "issue_close_proof pd sd proof_id host_id b s rc receipt policy created = Inr p" and seal: "validate_seal s = Inr s"
    and ex: "ex_run_id ex = cl_run_id rc" "ex_family_id ex = cnp_family_id policy" "ex_seal_id ex = sl_seal_id s"
      "ex_projection_sha ex = pf_projection_sha p"
    and partition: "ex_partition ex \<in> fw_partition ` set (cl_finals rc)" "pt_host_id (ex_partition ex) = host_id"
    and at_time: "is_utc t" "ms_aligned t" "instant created \<le> instant t"
  shows "validate_proof pd sd p rc receipt policy ex t = Inr \<lparr>pv_proof = p, pv_validated_at = t\<rparr>"
proof -
  note d = issued_proofD [OF issue seal]
  note f = close_proof_fields [OF d(1)]
  have bind: "sl_run_id s = cl_run_id rc" "sl_family_id s = cnp_family_id policy" "sl_policy s = identity_of_policy policy"
    using d(3) by (auto simp: validate_source_binding_def)
  have proj: "pf_run_id p = sl_run_id s" "pf_host_id p = host_id" "pf_family_id p = sl_family_id s" "pf_seal_id p = sl_seal_id s"
    "pf_policy p = sl_policy s" using d(5) by (simp_all add: proof_projection_def seal_projection_of_def)
  have digest: "pd_projection pd (proof_projection p) = pf_projection_sha p"
    using d(4,5) by (simp add: seal_projection_sha_def)
  have run: "pt_run_id (ex_partition ex) = cl_run_id rc"
    using partition(1) validate_seal_fields(7) [OF seal] d(3) bind(1) by (auto simp: validate_source_binding_def)
  have "validate_required_identifier (pf_run_id p) = Inr ()" "validate_run_id (pf_run_id p) = Inr ()"
    using f(5,6) run_id_ok_nonempty [of "pf_run_id p"] unpadded_nonempty_not_blank [of "pf_run_id p"]
    by (simp_all add: validate_required_identifier_def validate_run_id_ok)
  moreover have "\<not> instant (pf_seal_at p) < instant (cl_emitted_at rc)" using f(9) d(9) by simp
  moreover have "\<not> (\<exists>w \<in> set (cl_finals rc). instant (fw_at w) < instant (pf_boundary_at p))" using f(8) d(11) by (auto simp: not_less)
  ultimately show ?thesis
    using d f ex partition at_time bind proj digest run
    by (simp add: validate_proof_def)
qed

section \<open>From the proof to the Evidence\<close>

definition required_partition :: "incremental_config \<Rightarrow> string \<times> string \<Rightarrow> stream_partition" where
  "required_partition cfg i = \<lparr>pt_run_id = ic_run_id cfg, pt_host_id = ic_entity_id cfg, pt_source = fst i, pt_channel = snd i\<rparr>"

text \<open>An accepted close names every required partition.\<close>

lemma required_partition_closed:
  assumes "require_exact_target_partitions cfg ws = Inr ()" "i \<in> set (required_identities cfg)"
  shows "required_partition cfg i \<in> fw_partition ` set ws"
proof -
  have "i \<in> set (map (\<lambda>w. (pt_source (fw_partition w), pt_channel (fw_partition w)))
        (filter (\<lambda>w. pt_run_id (fw_partition w) = ic_run_id cfg \<and> pt_host_id (fw_partition w) = ic_entity_id cfg) ws))"
    using assms by (simp only: require_exact_target_partitions_def raise_if_ok) blast
  then obtain w where "w \<in> set ws" "pt_run_id (fw_partition w) = ic_run_id cfg" "pt_host_id (fw_partition w) = ic_entity_id cfg"
    "i = (pt_source (fw_partition w), pt_channel (fw_partition w))" by auto
  then have "required_partition cfg i = fw_partition w" by (simp add: required_partition_def)
  with \<open>w \<in> set ws\<close> show ?thesis by blast
qed

text \<open>Every selector Event was ingested at a usable time, no later than \<open>t\<close>.\<close>

definition ingested_by :: "incremental_state \<Rightarrow> datetime \<Rightarrow> bool" where
  "ingested_by s t \<longleftrightarrow> instant (ic_run_start (in_config s)) \<le> instant t
     \<and> (\<forall>e \<in> set (ordered_events s). \<exists>u. ev_ingest_time e = Some u \<and> is_utc u \<and> ms_aligned u \<and> instant u \<le> instant t)"

lemma latest_input_total:
  assumes "ingested_by s t"
  shows "\<exists>u. latest_verified_input_ingest_time s = Inr u \<and> instant u \<le> instant t"
proof -
  let ?ts = "map (\<lambda>e. the (ev_ingest_time e)) (ordered_events s)"
  have ok: "\<exists>u. ev_ingest_time e = Some u \<and> is_utc u \<and> ms_aligned u \<and> instant u \<le> instant t" if "e \<in> set (ordered_events s)" for e
    using assms that by (simp add: ingested_by_def)
  have "map_result (\<lambda>e. case ev_ingest_time e of
         None \<Rightarrow> Inl (ValueError ''missing_or_invalid_ingest_time'')
       | Some t \<Rightarrow> (case validate_utc_milliseconds ''Event ingest_time'' t of
           Inl e \<Rightarrow> Inl (ValueError ''missing_or_invalid_ingest_time'') | Inr t \<Rightarrow> Inr t)) (ordered_events s) = Inr ?ts"
  proof (rule map_result_total)
    fix e assume "e \<in> set (ordered_events s)"
    from ok [OF this] obtain u where u: "ev_ingest_time e = Some u" "is_utc u" "ms_aligned u" by blast
    then have v: "validate_utc_milliseconds ''Event ingest_time'' u = Inr u" by simp
    show "(case ev_ingest_time e of
         None \<Rightarrow> Inl (ValueError ''missing_or_invalid_ingest_time'')
       | Some t \<Rightarrow> (case validate_utc_milliseconds ''Event ingest_time'' t of
           Inl e \<Rightarrow> Inl (ValueError ''missing_or_invalid_ingest_time'') | Inr t \<Rightarrow> Inr t)) = Inr (the (ev_ingest_time e))"
      by (simp only: u(1) option.case v sum.case option.sel)
  qed
  then have latest: "latest_verified_input_ingest_time s = (if ?ts = [] then Inr (ic_run_start (in_config s)) else latest_timestamp ?ts)"
    by (simp add: latest_verified_input_ingest_time_def)
  show ?thesis
  proof (cases "?ts = []")
    case True
    with latest assms show ?thesis by (simp add: ingested_by_def)
  next
    case False
    from latest_timestamp_ok [OF this] obtain u where "latest_timestamp ?ts = Inr u" "u \<in> set ?ts" by blast
    with latest False ok show ?thesis by fastforce
  qed
qed

lemma watermark_coverage_iff:
  assumes "in_closed s = Some rc"
  shows "require_watermark_coverage s t = Inr () \<longleftrightarrow> (\<exists>w \<in> set (cl_finals rc). is_selector_partition (in_config s) (fw_partition w))
    \<and> (\<forall>w \<in> set (cl_finals rc). is_selector_partition (in_config s) (fw_partition w) \<longrightarrow> instant t \<le> instant (fw_at w))"
  by (auto simp: require_watermark_coverage_def assms filter_empty_conv not_less)

definition trusted_by :: "candidate_seal \<Rightarrow> run_closed \<Rightarrow> close_receipt \<Rightarrow> candidate_policy \<Rightarrow> close_proof \<Rightarrow> datetime \<Rightarrow> trusted_binding" where
  "trusted_by seal rc receipt policy p t = \<lparr>tb_closed = rc, tb_receipt = receipt, tb_policy = policy, tb_seal_id = sl_seal_id seal,
     tb_projection_sha = pf_projection_sha p, tb_validated_at = t\<rparr>"

lemma trusted_by_fields [simp]:
  "tb_closed (trusted_by seal rc receipt policy p t) = rc" "tb_receipt (trusted_by seal rc receipt policy p t) = receipt"
  "tb_policy (trusted_by seal rc receipt policy p t) = policy" "tb_validated_at (trusted_by seal rc receipt policy p t) = t"
  by (simp_all add: trusted_by_def)

lemma issued_proof_checked:
  assumes issue: "issue_close_proof pd sd proof_id (ic_entity_id (in_config s)) b seal rc receipt policy created = Inr p"
    and seal: "validate_seal seal = Inr seal"
    and closed: "in_closed s = Some rc" "run_closed_ok rc" "cl_run_id rc = ic_run_id (in_config s)"
    and exact: "require_exact_target_partitions (in_config s) (cl_finals rc) = Inr ()" "required_identities (in_config s) \<noteq> []"
    and family: "ic_family_id (in_config s) = cnp_family_id policy"
    and at_time: "is_utc t" "ms_aligned t" "instant created \<le> instant t" "ingested_by s t"
  shows "\<exists>u. check_verified_close pd sd p (trusted_by seal rc receipt policy p t) s = Inr (\<lparr>pv_proof = p, pv_validated_at = t\<rparr>, u)
    \<and> instant u = instant t"
proof -
  let ?cfg = "in_config s" and ?b = "trusted_by seal rc receipt policy p t" and ?v = "\<lparr>pv_proof = p, pv_validated_at = t\<rparr>"
  note d = issued_proofD [OF issue seal]
  note f = close_proof_fields [OF d(1)]
  let ?is = "sort (remdups (required_identities ?cfg))" and ?ps = "map (required_partition ?cfg) (sort (remdups (required_identities ?cfg)))"
  have partition: "required_partition ?cfg i \<in> fw_partition ` set (cl_finals rc)" if "i \<in> set ?is" for i
    using required_partition_closed [OF exact(1)] that by simp
  have parts: "required_stream_partitions ?cfg = Inr ?ps"
    unfolding required_stream_partitions_def
  proof (rule map_result_total)
    fix i assume "i \<in> set ?is"
    from partition [OF this] have "partition_ok (required_partition ?cfg i)" using closed(2) by (auto simp: run_closed_ok_def final_ok_def)
    then have v: "validate_stream_partition (required_partition ?cfg i) = Inr ()" by simp
    show "(case i of (source, channel) \<Rightarrow> let p = \<lparr>pt_run_id = ic_run_id ?cfg, pt_host_id = ic_entity_id ?cfg, pt_source = source,
        pt_channel = channel\<rparr> in seq (validate_stream_partition p) (Inr p)) = Inr (required_partition ?cfg i)"
      using v by (cases i) (simp add: required_partition_def Let_def del: validate_stream_partition_ok)
  qed
  have valid: "validate_proof pd sd p rc receipt policy (expectation_of ?cfg ?b q) t = Inr ?v" if "q \<in> set ?ps" for q
    by (rule issued_proof_valid [OF issue seal])
      (use that partition closed(3) family at_time in \<open>auto simp: expectation_of_def trusted_by_def required_partition_def\<close>)
  have vs: "map_result (\<lambda>q. validate_proof pd sd p rc receipt policy (expectation_of ?cfg ?b q) t) ?ps = Inr (map (\<lambda>q. ?v) ?ps)"
    by (rule map_result_total [OF valid])
  obtain q qs where ps: "?ps = q # qs" using exact(2) by (cases ?ps) (simp_all add: sort_Nil)
  have water: "require_watermark_coverage s (pf_boundary_at p) = Inr ()"
  proof -
    obtain i where i: "i \<in> set ?is" using exact(2) by (metis ex_in_conv set_empty2 set_remdups set_sort)
    from partition [OF this] obtain w where "w \<in> set (cl_finals rc)" "fw_partition w = required_partition ?cfg i" by force
    with i have "\<exists>w \<in> set (cl_finals rc). is_selector_partition ?cfg (fw_partition w)"
      by (intro bexI [of _ w]) (simp_all add: is_selector_partition_def required_partition_def)
    with f(8) d(11) show ?thesis unfolding watermark_coverage_iff [OF closed(1)] by auto
  qed
  obtain latest where latest: "latest_verified_input_ingest_time s = Inr latest" "instant latest \<le> instant t"
    using latest_input_total [OF at_time(4)] by blast
  let ?ts = "[cl_emitted_at rc, pf_boundary_at p, pf_seal_at p, pf_created_at p, t, latest]"
  have le: "instant (cl_emitted_at rc) \<le> instant (pf_seal_at p)" "instant (pf_seal_at p) \<le> instant t" "instant (pf_boundary_at p) \<le> instant (pf_seal_at p)"
  proof -
    show "instant (cl_emitted_at rc) \<le> instant (pf_seal_at p)" using f(9) d(9) by simp
    show "instant (pf_seal_at p) \<le> instant t" using f(10) d(7) at_time(3) by simp
    show "instant (pf_boundary_at p) \<le> instant (pf_seal_at p)"
      using validate_seal_fields(5) [OF seal] d(5) by (simp add: proof_projection_def seal_projection_of_def)
  qed
  obtain u where u: "latest_timestamp ?ts = Inr u" "u \<in> set ?ts" "\<forall>x \<in> set ?ts. instant x \<le> instant u"
    using latest_timestamp_ok [of ?ts] by blast
  have "instant u = instant t" using u(2,3) le latest(2) at_time(3) d(7) by auto
  with u(1) show ?thesis
    using parts exact(1) vs ps water latest(1) d(11)
    by (simp add: check_verified_close_def del: latest_timestamp.simps)
qed

section \<open>When a finalisation confirms\<close>

text \<open>The identities an availability record accepts.\<close>

definition citable :: "selected_evidence_result \<Rightarrow> bool" where
  "citable q \<longleftrightarrow> (\<forall>e \<in> set (ser_evidences q). \<not> blank (evd_id e) \<and> unpadded (evd_id e) \<and> is_utc (evd_timestamp e) \<and> evd_event_ids e \<noteq> []
     \<and> validate_causal_ids (evd_event_ids e) = Inr ()
     \<and> validate_causal_ids (case ser_lineage_input q of None \<Rightarrow> [] | Some i \<Rightarrow> lin_context_event_ids i) = Inr ())"

definition availability_entry :: "selected_evidence_result \<Rightarrow> datetime \<Rightarrow> evidence \<Rightarrow> causal_availability" where
  "availability_entry q t e = \<lparr>ca_evidence_id = evd_id e, ca_timestamp = evd_timestamp e, ca_available_at = t, ca_event_ids = evd_event_ids e,
     ca_context_event_ids = (case ser_lineage_input q of None \<Rightarrow> [] | Some i \<Rightarrow> lin_context_event_ids i)\<rparr>"

lemma validate_causal_availability_ok:
  "validate_causal_availability a = Inr a' \<longleftrightarrow> a' = a \<and> \<not> blank (ca_evidence_id a) \<and> unpadded (ca_evidence_id a) \<and> is_utc (ca_timestamp a)
     \<and> is_utc (ca_available_at a) \<and> ca_event_ids a \<noteq> [] \<and> validate_causal_ids (ca_event_ids a) = Inr () \<and> validate_causal_ids (ca_context_event_ids a) = Inr ()"
  by (auto simp: validate_causal_availability_def)

lemma availability_entries:
  assumes "availability_of q t = Inr av"
  shows "av = map (availability_entry q t) (ser_evidences q)"
proof -
  have "list_all2 (\<lambda>e a. validate_causal_availability (availability_entry q t e) = Inr a) (ser_evidences q) av"
    using assms by (simp add: availability_of_def availability_entry_def map_result_ok)
  then have "list_all2 (\<lambda>e a. a = availability_entry q t e) (ser_evidences q) av"
    by (rule list_all2_mono) (simp add: validate_causal_availability_ok)
  then show ?thesis by (auto simp: list_all2_conv_all_nth list_eq_iff_nth_eq)
qed

lemma availability_iff:
  assumes "is_utc t"
  shows "availability_of q t = Inr av \<longleftrightarrow> citable q \<and> av = map (availability_entry q t) (ser_evidences q)"
proof -
  have "availability_of q t = Inr av \<longleftrightarrow> list_all2 (\<lambda>e a. validate_causal_availability (availability_entry q t e) = Inr a) (ser_evidences q) av"
    by (simp add: availability_of_def availability_entry_def map_result_ok)
  also have "\<dots> \<longleftrightarrow> list_all2 (\<lambda>e a. a = availability_entry q t e) (ser_evidences q) av \<and> citable q"
    unfolding validate_causal_availability_ok citable_def using assms
    by (auto simp: list_all2_conv_all_nth availability_entry_def all_set_conv_all_nth)
  also have "list_all2 (\<lambda>e a. a = availability_entry q t e) (ser_evidences q) av \<longleftrightarrow> av = map (availability_entry q t) (ser_evidences q)"
    by (auto simp: list_all2_conv_all_nth list_eq_iff_nth_eq)
  finally show ?thesis by blast
qed

definition finalized_snapshot :: "proof_digests \<Rightarrow> finalisation \<Rightarrow> selected_evidence_result \<Rightarrow> datetime \<Rightarrow> close_proof option \<Rightarrow> incremental_snapshot" where
  "finalized_snapshot pd f q t p = (closed_snapshot Finalized f t q (fi_diagnostics f))
     \<lparr>sn_evidences := ser_evidences q, sn_availability := map (availability_entry q t) (ser_evidences q),
      sn_proof_id := map_option pf_proof_id p, sn_proof_sha := map_option (pd_whole pd) p\<rparr>"

text \<open>The selector and the extraction found one lineage and nothing to object.\<close>

definition selects :: "evidence_namer \<Rightarrow> finalisation \<Rightarrow> incremental_state \<Rightarrow> selected_evidence_result \<Rightarrow> bool" where
  "selects nm f s q \<longleftrightarrow> run_pipeline nm f s = Inr q \<and> slr_selection (ser_selector_result q) \<noteq> None \<and> ser_diagnostics q = []"

definition release_time :: "datetime \<Rightarrow> finalisation \<Rightarrow> datetime \<Rightarrow> bool" where
  "release_time now f t \<longleftrightarrow> (if fi_observe f then evidence_ready_at now (fi_available_at f) = Inr t else t = fi_available_at f)"

lemma finish_finalized:
  assumes "\<forall>e \<in> set (ser_evidences q). instant (evd_timestamp e) \<le> instant t" "citable q" "is_utc t"
  shows "finish_evidence pd f q t s = (Inr (finalized_snapshot pd f q t (in_proof s)), s\<lparr>in_snapshot := finalized_snapshot pd f q t (in_proof s)\<rparr>)"
proof -
  have "\<not> (\<exists>e \<in> set (ser_evidences q). instant t < instant (evd_timestamp e))" using assms(1) by (auto simp: not_less)
  moreover have "availability_of q t = Inr (map (availability_entry q t) (ser_evidences q))" using availability_iff [OF assms(3)] assms(2) by blast
  ultimately show ?thesis by (simp add: finish_evidence_def finalized_snapshot_def put_snapshot_def)
qed

lemma finalise_finalized:
  assumes "selects nm f s q" "release_time now f t" "\<forall>e \<in> set (ser_evidences q). instant (evd_timestamp e) \<le> instant t" "citable q" "is_utc t"
  shows "finalise nm pd now f s = (Inr (finalized_snapshot pd f q t (in_proof s)), s\<lparr>in_snapshot := finalized_snapshot pd f q t (in_proof s)\<rparr>)"
  using assms(1,2) finish_finalized [OF assms(3-5)] by (auto simp: finalise_eq selects_def release_time_def)

lemma finalise_finalized_iff:
  assumes open_s: "\<not> is_terminal_status (sn_status (in_snapshot s))" and utc: "\<And>t. release_time now f t \<Longrightarrow> is_utc t"
  shows "sn_status (in_snapshot (snd (finalise nm pd now f s))) = Finalized \<longleftrightarrow>
    (\<exists>q t. selects nm f s q \<and> release_time now f t \<and> (\<forall>e \<in> set (ser_evidences q). instant (evd_timestamp e) \<le> instant t) \<and> citable q)"
    (is "?l \<longleftrightarrow> ?r")
proof
  assume ?r
  then obtain q t where "selects nm f s q" "release_time now f t" "\<forall>e \<in> set (ser_evidences q). instant (evd_timestamp e) \<le> instant t" "citable q" by blast
  from finalise_finalized [OF this utc, of pd] \<open>release_time now f t\<close> show ?l by (simp add: finalized_snapshot_def)
next
  assume ?l
  obtain r s' where step: "finalise nm pd now f s = (r, s')" by (cases "finalise nm pd now f s")
  from step show ?r
  proof (cases rule: finalise_branches)
    case (finished q t)
    have sel: "selects nm f s q" "release_time now f t" using finished(1-3) by (auto simp: selects_def release_time_def)
    from finished(4) show ?thesis
    proof (cases rule: finish_cases)
      case (final av)
      from final(1) availability_iff [OF utc [OF sel(2)]] final(2) sel show ?thesis by blast
    qed (use \<open>?l\<close> step open_s in \<open>auto simp: failed_state_def is_terminal_status_def\<close>)
  qed (use \<open>?l\<close> step open_s in \<open>auto simp: unselected_snapshot_def is_terminal_status_def\<close>)
qed

lemma ready_total:
  assumes "is_utc now" "instant at_time \<le> instant now"
  shows "\<exists>t. evidence_ready_at now at_time = Inr t \<and> is_utc t \<and> instant now \<le> instant t"
proof -
  have "\<exists>t. ceil_utc_clock_observation ''evidence_ready_at'' now = Inr t \<and> is_utc t \<and> instant now \<le> instant t"
    using assms(1) by (auto simp: ceil_utc_clock_observation_def Let_def require_utc_ok add_delta_def is_utc_def instant_def)
  then show ?thesis using assms(2) by (auto simp: evidence_ready_at_def)
qed

end
