(* ===== verification/IncrementalProperties.thy ===== *)
theory IncrementalProperties
  imports CloseChain LineageProperties StreamProperties
begin

text \<open>
  The properties of the incremental Evidence path: what a confirmed state rests on, when the two
  closes confirm, that neither the order of deliveries nor a crash between them changes what is
  confirmed, and the chain from the seal of the scenario to the Evidence.
\<close>

section \<open>A sample run\<close>

definition live_event :: "string \<Rightarrow> int \<Rightarrow> string \<Rightarrow> string \<Rightarrow> string option \<Rightarrow> string \<Rightarrow> normalized_event" where
  "live_event i t kind g pg name = (lineage_sample_event i t kind g pg name)
     \<lparr>ev_run_id := sample_run_id, ev_ingest_time := Some (utc (t + 1000))\<rparr>"

definition live_chunk1 :: event_chunk where
  "live_chunk1 = sample_chunk ''c1'' 1 [live_event ''A'' 1000000 ''process_create'' ''g1'' None ''sshd'',
     live_event ''B'' 3000000 ''process_create'' ''g2'' (Some ''g1'') ''nc'']"

definition live_chunk2 :: event_chunk where
  "live_chunk2 = sample_chunk ''c2'' 2 [live_event ''C'' 5000000 ''network_connection'' ''g2'' None ''nc'']"

definition live_close :: run_closed where
  "live_close = sample_close\<lparr>cl_finals := map (\<lambda>w. w\<lparr>fw_covered := 2\<rparr>) (cl_finals sample_close)\<rparr>"

abbreviation "live_types \<equiv> {''process_create'', ''network_connection''}"

text \<open>A digest of Events that tells the three apart.\<close>

definition live_digests :: stream_digests where
  "live_digests = sample_digests\<lparr>sd_event := (\<lambda>e. replicate 63 CHR ''a'' @ [if ev_event_id e = ''A'' then CHR ''1'' else if ev_event_id e = ''B'' then CHR ''2'' else CHR ''3''])\<rparr>"

definition live_proofs :: proof_digests where
  "live_proofs = \<lparr>pd_content = \<lambda>p. sample_sha, pd_whole = \<lambda>p. sample_sha, pd_projection = \<lambda>p. sample_sha\<rparr>"

definition live_checkpoints :: checkpoint_digests where
  "live_checkpoints = \<lparr>kd_evidence = \<lambda>e. sample_sha, kd_content = \<lambda>c. sample_sha\<rparr>"

definition live_config :: incremental_config where
  "live_config = \<lparr>ic_run_id = sample_run_id, ic_entity_id = ''h1'', ic_run_start = utc 2000000, ic_family_id = ''f1'',
     ic_selector = sample_selector, ic_approved = lineage_policy_sample\<lparr>ap_family_id := Some ''f1'', ap_lifecycle := Some Development\<rparr>,
     ic_contract = Some sample_contract\<rparr>"

type_synonym live_state = "incremental_state \<times> datetime \<times> ledger stream_state"

definition live_start :: live_state where
  "live_start = (projr (new_incremental live_config), utc 9000000, sample_state)"

definition deliver_live :: "event_chunk \<Rightarrow> live_state \<Rightarrow> live_state" where
  "deliver_live c sl = snd (incremental_accept_chunk (clocked_ingress file_sink live_digests) live_digests c sl)"

definition close_live :: "live_state \<Rightarrow> live_state" where
  "close_live sl = (snd (incremental_accept_run_closed live_close (fst sl)), snd sl)"

definition live_closed :: live_state where
  "live_closed = close_live (deliver_live live_chunk2 (deliver_live live_chunk1 live_start))"

definition live_swapped :: live_state where
  "live_swapped = close_live (deliver_live live_chunk1 (deliver_live live_chunk2 live_start))"

definition live_final :: live_state where
  "live_final = (snd (finalize_at_run_end sample_namer live_proofs (utc 5000000) (fst live_closed)), snd live_closed)"

lemma live_chunks_ok: "chunk_ok live_types live_chunk1" "chunk_ok live_types live_chunk2"
proof -
  have "validate_event_chunk live_types live_chunk1 = Inr live_chunk1 \<and> validate_event_chunk live_types live_chunk2 = Inr live_chunk2" by code_simp
  then show "chunk_ok live_types live_chunk1" "chunk_ok live_types live_chunk2" by (simp_all add: validate_event_chunk_ok)
qed

lemma live_close_ok: "run_closed_ok live_close"
proof -
  have "validate_run_closed live_close = Inr live_close" by code_simp
  then show ?thesis by (simp add: validate_run_closed_ok)
qed

lemma live_created: "new_incremental live_config = Inr (fst live_start)"
proof -
  have "\<not> isl (new_incremental live_config)" by code_simp
  then show ?thesis by (simp add: live_start_def)
qed

text \<open>What a state shows, read off once.\<close>

definition live_view :: "incremental_state \<Rightarrow> incremental_status \<times> bool \<times> bool \<times> bool \<times> event_chunk list \<times> string list" where
  "live_view s = (sn_status (in_snapshot s), in_closed s = Some live_close, in_proof s = None, chunk_coverage_diagnostics s = [],
     map snd (in_chunks s), map evd_id (sn_evidences (in_snapshot s)))"

lemma live_status:
  "live_view (fst live_closed) = (Provisional, True, True, True, [live_chunk1, live_chunk2], [])"
  by code_simp

lemma live_swapped_status:
  "live_view (fst live_swapped) = (Provisional, True, True, True, [live_chunk2, live_chunk1], [])"
  by code_simp

lemma live_final_status:
  "live_view (fst live_final) = (Finalized, True, True, True, [live_chunk1, live_chunk2], [''d'', ''f''])"
  by code_simp

lemmas live_views = live_status [unfolded live_view_def] live_swapped_status [unfolded live_view_def] live_final_status [unfolded live_view_def]

lemma live_steps:
  "chunk_ok live_types c \<Longrightarrow> incremental_step live_types (clocked_ingress file_sink live_digests) live_digests nm pd sl (deliver_live c sl)"
  "incremental_step live_types (clocked_ingress file_sink live_digests) live_digests nm pd sl (close_live sl)"
proof -
  obtain s l where sl: "sl = (s, l)" by (cases sl)
  obtain r s' l' where step: "incremental_accept_chunk (clocked_ingress file_sink live_digests) live_digests c (s, l) = (r, s', l')"
    by (cases "incremental_accept_chunk (clocked_ingress file_sink live_digests) live_digests c (s, l)")
  show "incremental_step live_types (clocked_ingress file_sink live_digests) live_digests nm pd sl (deliver_live c sl)" if "chunk_ok live_types c"
    using incremental_step.deliver_chunk [OF that step] by (simp add: deliver_live_def sl step)
  obtain r' s'' where close: "incremental_accept_run_closed live_close s = (r', s'')" by (cases "incremental_accept_run_closed live_close s")
  show "incremental_step live_types (clocked_ingress file_sink live_digests) live_digests nm pd sl (close_live sl)"
    using incremental_step.deliver_close [OF live_close_ok close] by (simp add: close_live_def sl close)
qed

lemma live_reachable:
  "incremental_reachable live_types (clocked_ingress file_sink live_digests) live_digests nm pd live_config (fst live_closed, snd live_closed)"
  "incremental_reachable live_types (clocked_ingress file_sink live_digests) live_digests nm pd live_config (fst live_swapped, snd live_swapped)"
proof -
  have start: "incremental_reachable live_types (clocked_ingress file_sink live_digests) live_digests nm pd live_config live_start"
    using incremental_reachable.created [OF live_created] by (metis prod.collapse)
  note step = incremental_reachable.stepped [OF _ live_steps(1)] and close = incremental_reachable.stepped [OF _ live_steps(2)]
  show "incremental_reachable live_types (clocked_ingress file_sink live_digests) live_digests nm pd live_config (fst live_closed, snd live_closed)"
    unfolding prod.collapse live_closed_def by (rule close [OF step [OF step [OF start live_chunks_ok(1)] live_chunks_ok(2)]])
  show "incremental_reachable live_types (clocked_ingress file_sink live_digests) live_digests nm pd live_config (fst live_swapped, snd live_swapped)"
    unfolding prod.collapse live_swapped_def by (rule close [OF step [OF step [OF start live_chunks_ok(2)] live_chunks_ok(1)]])
qed

lemma live_final_reachable:
  "incremental_reachable live_types (clocked_ingress file_sink live_digests) live_digests sample_namer live_proofs live_config (fst live_final, snd live_final)"
proof -
  obtain r s' where "finalize_at_run_end sample_namer live_proofs (utc 5000000) (fst live_closed) = (r, s')"
    by (cases "finalize_at_run_end sample_namer live_proofs (utc 5000000) (fst live_closed)")
  from incremental_step.run_end [OF this, of live_types "clocked_ingress file_sink live_digests" live_digests "snd live_closed"] this
  show ?thesis using incremental_reachable.stepped [OF live_reachable(1)] by (simp add: live_final_def)
qed

lemma live_accepted:
  "accepted_chunks (fst live_closed) = {live_chunk1, live_chunk2}" "accepted_chunks (fst live_swapped) = {live_chunk1, live_chunk2}"
  "accepted_chunks (fst live_final) = {live_chunk1, live_chunk2}"
  unfolding accepted_set using live_views by (auto simp del: set_map)

text \<open>The ledger has what the state accepted.\<close>

lemma live_delivered:
  assumes "incremental_reachable live_types (clocked_ingress file_sink live_digests) live_digests nm pd live_config (fst sl, snd sl)"
    and "ledger_wf (si_ledger (snd (snd sl)))" "chunk_ok live_types c" "event_ids_ok c"
    and "\<forall>d \<in> accepted_chunks (fst sl). chunk_stored live_digests d (snd sl)"
  shows "ledger_wf (si_ledger (snd (snd (deliver_live c sl))))
    \<and> (\<forall>d \<in> accepted_chunks (fst (deliver_live c sl)). chunk_stored live_digests d (snd (deliver_live c sl)))"
proof -
  obtain s l where sl: "sl = (s, l)" by (cases sl)
  obtain r s' l' where step: "incremental_accept_chunk (clocked_ingress file_sink live_digests) live_digests c (s, l) = (r, s', l')"
    by (cases "incremental_accept_chunk (clocked_ingress file_sink live_digests) live_digests c (s, l)")
  have good: "chunk_ok live_types c \<and> event_ids_ok c \<and> digests_ok live_digests"
    using assms(3,4) by (simp add: digests_ok_def live_digests_def sample_digests_def digest_ok_def sample_sha_def)
  note inv = reachable_inv [OF assms(1) [unfolded sl], unfolded fst_conv snd_conv]
  have "l' = l \<or> (\<exists>a. clocked_ingress file_sink live_digests c l = (a, l'))"
    using step by (auto simp: incremental_accept_chunk_def split: sum.splits option.splits prod.splits if_splits)
  moreover have "ledger_wf (si_ledger (snd l))" using assms(2) sl by simp
  ultimately have "ledger_wf (si_ledger (snd l'))"
    by (elim disjE exE) (simp, erule ledger_ingress.valid_kept [OF _ good])
  moreover have "\<forall>d \<in> accepted_chunks s'. chunk_stored live_digests d l'"
    by (rule ledger_ingress.accepted_known [OF step inv _ good assms(3)]) (use assms(2,5) sl in simp_all)
  ultimately show ?thesis by (simp add: deliver_live_def sl step)
qed

lemma live_digests_separate: "inj_on (sd_event live_digests) (events_of {live_chunk1, live_chunk2})"
  by (simp add: events_of_def live_chunk1_def live_chunk2_def sample_chunk_def inj_on_def live_digests_def live_event_def lineage_sample_event_def)

section \<open>A sample seal\<close>

definition live_action :: boundary_action where
  "live_action = \<lparr>ba_action_id = ''a1'', ba_step = ''s1'', ba_type = ''t1''\<rparr>"

definition live_policy :: candidate_policy where
  "live_policy = \<lparr>cnp_config_path = ''p'', cnp_canonical_path = ''p'', cnp_config_hash = sample_sha, cnp_policy_id = ''cp'', cnp_version = ''1'',
     cnp_family_id = ''f1'', cnp_normal_boundary = live_action, cnp_attack_boundary = live_action,
     cnp_normal_processes = [\<lparr>op_role = ''r'', op_image = ''nc''\<rparr>], cnp_attack_processes = [\<lparr>op_role = ''r'', op_image = ''nc''\<rparr>],
     cnp_terminal_states = [''exited''], cnp_forbid_actions = True, cnp_protected_names = [''sshd'']\<rparr>"

definition live_attestation :: boundary_attestation where
  "live_attestation = \<lparr>ba_action_id = ''a1'', ba_step = ''s1'', ba_type = ''t1'', bat_completed_at = utc 5000000,
     bat_processes = [\<lparr>pt_role = ''r'', pt_image = ''nc'', pt_process_guid = ''g2'', pt_terminal_state = ''exited''\<rparr>]\<rparr>"

definition live_completion :: boundary_completion where
  "live_completion = \<lparr>ba_action_id = ''a1'', ba_step = ''s1'', ba_type = ''t1'', bcm_run_id = sample_run_id, bcm_started_at = utc 3000000,
     bcm_completed_at = utc 5000000, bcm_source = RemoteSessionClose\<rparr>"

definition live_row :: execution_row where
  "live_row = \<lparr>xr_run_id = sample_run_id, xr_action_id = ''a1'', xr_timestamp = utc 3000000, xr_type = ''t1'', xr_description = ''d''\<rparr>"

definition live_run :: run_metadata where
  "live_run = \<lparr>rm_run_id = sample_run_id, rm_scenario_id = ''sc'', rm_run_type = AttackRun, rm_target_host = ''h1'', rm_start_time = utc 2000000,
     rm_end_time = Some (utc 6000000), rm_family_id = Some ''f1'', rm_reference_time = None, rm_schema_versions = []\<rparr>"

definition live_scenario :: "scenario_action list" where
  "live_scenario = [\<lparr>ba_action_id = ''a1'', ba_step = ''s1'', ba_type = ''t1'', sa_offset = 1\<rparr>]"

definition issue_live :: "candidate_seal result" where
  "issue_live = issue_seal ''seal-1'' live_run live_close live_scenario live_attestation live_row live_completion live_policy (utc 8000000)"

definition live_boundary :: verified_boundary where
  "live_boundary = \<lparr>vb_run_id = sample_run_id, vb_seal_id = ''seal-1'', vb_close_id = ''x1'', vb_boundary_at = utc 5000000, vb_seal_at = utc 8000000\<rparr>"

definition live_receipt :: close_receipt where
  "live_receipt = \<lparr>ct_run_id = sample_run_id, ct_close_id = ''x1'', ct_sha = sample_sha\<rparr>"

lemma live_known: "\<forall>d \<in> accepted_chunks (fst live_final). chunk_stored live_digests d (snd live_final)"
proof -
  let ?R = "incremental_reachable live_types (clocked_ingress file_sink live_digests) live_digests sample_namer live_proofs live_config"
  let ?ok = "\<lambda>sl. ledger_wf (si_ledger (snd (snd sl))) \<and> (\<forall>d \<in> accepted_chunks (fst sl). chunk_stored live_digests d (snd sl))"
  have ids: "event_ids_ok live_chunk1" "event_ids_ok live_chunk2" by code_simp+
  have start: "?R (fst live_start, snd live_start)" using incremental_reachable.created [OF live_created] .
  have "accepted_chunks (fst live_start) = {}" using new_open(2) [OF live_created] .
  then have "?ok live_start" using empty_ledger_wf by (simp add: live_start_def sample_state_def)
  then have one: "?ok (deliver_live live_chunk1 live_start)" using live_delivered [OF start _ live_chunks_ok(1) ids(1)] by blast
  have "?R (deliver_live live_chunk1 live_start)" using incremental_reachable.stepped [OF start [unfolded prod.collapse] live_steps(1) [OF live_chunks_ok(1)]] .
  then have "?R (fst (deliver_live live_chunk1 live_start), snd (deliver_live live_chunk1 live_start))" by simp
  from live_delivered [OF this _ live_chunks_ok(2) ids(2)] one
  have "?ok (deliver_live live_chunk2 (deliver_live live_chunk1 live_start))" by blast
  moreover have "snd live_final = snd (deliver_live live_chunk2 (deliver_live live_chunk1 live_start))"
    by (simp add: live_final_def live_closed_def close_live_def)
  moreover have "map snd (in_chunks (fst (deliver_live live_chunk2 (deliver_live live_chunk1 live_start)))) = [live_chunk1, live_chunk2]"
    by code_simp
  then have "accepted_chunks (fst (deliver_live live_chunk2 (deliver_live live_chunk1 live_start))) = {live_chunk1, live_chunk2}"
    by (simp add: accepted_set flip: set_map)
  then have "accepted_chunks (fst live_final) = accepted_chunks (fst (deliver_live live_chunk2 (deliver_live live_chunk1 live_start)))"
    using live_accepted(3) by simp
  ultimately show ?thesis by simp
qed

definition live_seal :: candidate_seal where
  "live_seal = projr issue_live"

definition live_proof :: close_proof where
  "live_proof = projr (issue_close_proof live_proofs live_digests ''proof-1'' ''h1'' live_boundary live_seal live_close live_receipt live_policy (utc 8500000))"


definition live_checkpoint :: incremental_checkpoint where
  "live_checkpoint = projr (export_checkpoint live_types live_checkpoints live_proofs (fst live_final))"

lemma live_sealed: "issue_live = Inr live_seal" "validate_completion live_completion = Inr live_completion"
proof -
  have "\<not> isl issue_live" by code_simp
  then show "issue_live = Inr live_seal" by (simp add: live_seal_def)
  show "validate_completion live_completion = Inr live_completion" by code_simp
qed


lemma live_issued:
  "issue_close_proof live_proofs live_digests ''proof-1'' ''h1'' live_boundary live_seal live_close live_receipt live_policy (utc 8500000) = Inr live_proof"
proof -
  have "\<not> isl (issue_close_proof live_proofs live_digests ''proof-1'' ''h1'' live_boundary live_seal live_close live_receipt live_policy (utc 8500000))"
    by code_simp
  then show ?thesis by (simp add: live_proof_def)
qed

lemma live_exported: "export_checkpoint live_types live_checkpoints live_proofs (fst live_final) = Inr live_checkpoint"
proof -
  have "\<not> isl (export_checkpoint live_types live_checkpoints live_proofs (fst live_final))" by code_simp
  then show ?thesis by (simp add: live_checkpoint_def)
qed

section \<open>Confirmed states\<close>

text \<open>Whatever is delivered to a state that is finalized or failed closed, whichever close is
  tried on it again and however the ledger moves in between, the state stays exactly as it is.\<close>

theorem terminal_state_final:
  assumes "incremental_reachable event_types ingress sd nm pd cfg (s, l)" "is_terminal_status (sn_status (in_snapshot s))"
    and "(incremental_step event_types ingress sd nm pd)\<^sup>*\<^sup>* (s, l) (s', l')"
  shows "s' = s"
proof -
  have "fst sl' = s \<and> incremental_reachable event_types ingress sd nm pd cfg sl'"
    if "(incremental_step event_types ingress sd nm pd)\<^sup>*\<^sup>* (s, l) sl'" for sl'
    using that
  proof (induction rule: rtranclp_induct)
    case base
    then show ?case using assms(1) by simp
  next
    case (step sl sl')
    obtain u v u' v' where sl: "sl = (u, v)" "sl' = (u', v')" by (cases sl; cases sl')
    from step.IH sl have u: "u = s" and reach: "incremental_reachable event_types ingress sd nm pd cfg (u, v)" by auto
    have "u' = u" using step_inv [OF step(2) [unfolded sl] reachable_inv [OF reach, unfolded fst_conv]] assms(2) u by simp
    with incremental_reachable.stepped [OF reach step(2) [unfolded sl]] u sl show ?case by simp
  qed
  from this [OF assms(3)] show ?thesis by simp
qed

theorem terminal_state_final_witness:
  "snd (finalize_at_run_end sample_namer live_proofs (utc 4000000) (fst live_final)) = fst live_final"
proof -
  obtain r s' where step: "finalize_at_run_end sample_namer live_proofs (utc 4000000) (fst live_final) = (r, s')"
    by (cases "finalize_at_run_end sample_namer live_proofs (utc 4000000) (fst live_final)")
  have terminal: "is_terminal_status (sn_status (in_snapshot (fst live_final)))" using live_views(3) by (simp add: is_terminal_status_def)
  have "(incremental_step live_types (clocked_ingress file_sink live_digests) live_digests sample_namer live_proofs)\<^sup>*\<^sup>*
      (fst live_final, snd live_final) (s', snd live_final)"
    by (rule r_into_rtranclp) (rule incremental_step.run_end [OF step])
  from terminal_state_final [OF live_final_reachable terminal this] step show ?thesis by simp
qed





section \<open>Order and recovery\<close>

text \<open>C26: two open states that accepted the same chunks and the same close show the same snapshot and
  both closes give the same result on them, whatever was the order of the deliveries, the redeliveries
  and the refusals in between, and whatever the ledgers.\<close>

theorem delivery_order_irrelevant:
  assumes "incremental_reachable event_types ingress sd nm pd cfg (s, l)" "incremental_reachable event_types ingress' sd nm pd cfg (s', l')"
    and "inj_on (sd_event sd) (events_of (accepted_chunks s))"
    and "accepted_chunks s' = accepted_chunks s" "in_closed s' = in_closed s" "in_proof s' = in_proof s"
    and "\<not> is_terminal_status (sn_status (in_snapshot s))" "\<not> is_terminal_status (sn_status (in_snapshot s'))"
  shows "in_snapshot s' = in_snapshot s
    \<and> (\<forall>t. fst (finalize_at_run_end nm pd t s') = fst (finalize_at_run_end nm pd t s)
        \<and> in_snapshot (snd (finalize_at_run_end nm pd t s')) = in_snapshot (snd (finalize_at_run_end nm pd t s)))
    \<and> (\<forall>now p b. fst (incremental_accept_verified_close_proof nm pd sd now p b s') = fst (incremental_accept_verified_close_proof nm pd sd now p b s)
        \<and> in_snapshot (snd (incremental_accept_verified_close_proof nm pd sd now p b s'))
          = in_snapshot (snd (incremental_accept_verified_close_proof nm pd sd now p b s)))"
proof -
  have view: "same_view s s'"
    by (rule same_inputs_same_view [OF reachable_inv [OF assms(1), unfolded fst_conv] reachable_inv [OF assms(2), unfolded fst_conv] assms(3)])
      (use assms(4-8) in simp_all)
  show ?thesis
    using view run_end_view [OF view assms(6) [symmetric]] verified_close_view [OF view assms(7)]
    by (simp add: same_view_def outcome_def)
qed

theorem delivery_order_irrelevant_witness:
  "in_snapshot (fst live_swapped) = in_snapshot (fst live_closed)
    \<and> fst (finalize_at_run_end sample_namer live_proofs (utc 5000000) (fst live_swapped))
      = fst (finalize_at_run_end sample_namer live_proofs (utc 5000000) (fst live_closed))"
  using delivery_order_irrelevant [OF live_reachable(1)
      live_reachable(2), of sample_namer live_proofs]
    live_views(1,2) live_digests_separate
  by (simp add: live_accepted is_terminal_status_def)

text \<open>C23: recovering a state from its exported checkpoint, with the inputs it recorded supplied again
  and over a ledger that has the accepted chunks, succeeds without touching the ledger and gives
  the same chunks, the same close and the same snapshot, Evidence and availability included.\<close>

theorem checkpoint_roundtrip:
  assumes "incremental_reachable event_types (clocked_ingress sink sd) sd nm pd cfg (s, l)" "export_checkpoint event_types kd pd s = Inr c"
    and "\<forall>d \<in> accepted_chunks s. chunk_stored sd d l'" "inj_on (sd_event sd) (events_of (accepted_chunks s))" "proof_settled s"
  shows "\<exists>s'. restore_from_checkpoint nm pd sd kd (clocked_ingress sink' sd) now c (ic_selector cfg) (ic_approved cfg) (recovery_binding_of s) l' = (Inr s', l')
    \<and> in_snapshot s' = in_snapshot s \<and> accepted_chunks s' = accepted_chunks s \<and> in_closed s' = in_closed s"
  using ledger_ingress.restore_exported [OF assms] .

theorem checkpoint_roundtrip_witness:
  "\<exists>s'. restore_from_checkpoint sample_namer live_proofs live_digests live_checkpoints (clocked_ingress file_sink live_digests) (utc 0) live_checkpoint
      (ic_selector live_config) (ic_approved live_config) (recovery_binding_of (fst live_final)) (snd live_final) = (Inr s', snd live_final)
    \<and> in_snapshot s' = in_snapshot (fst live_final) \<and> map evd_id (sn_evidences (in_snapshot s')) = [''d'', ''f'']"
proof -
  have "\<exists>s'. restore_from_checkpoint sample_namer live_proofs live_digests live_checkpoints (clocked_ingress file_sink live_digests) (utc 0) live_checkpoint
      (ic_selector live_config) (ic_approved live_config) (recovery_binding_of (fst live_final)) (snd live_final) = (Inr s', snd live_final)
    \<and> in_snapshot s' = in_snapshot (fst live_final) \<and> accepted_chunks s' = accepted_chunks (fst live_final) \<and> in_closed s' = in_closed (fst live_final)"
    by (rule checkpoint_roundtrip [OF live_final_reachable live_exported live_known])
      (use live_digests_separate live_views in \<open>simp_all add: live_accepted proof_settled_def\<close>)
  then show ?thesis using live_views by auto
qed

section \<open>The verified close\<close>

text \<open>A seal is only issued for a boundary that the run can have reached: planned offset, start of
  the action, completion and the final watermarks of the close follow each other, the completion lies
  within the run, and the seal is not older than the close or the completion; and the issued seal
  passes the binding check of whoever verifies it.\<close>

theorem issued_seal_chronology:
  assumes "issue_seal seal_id run rc actions boundary row completion policy emitted_at = Inr s" "validate_completion completion = Inr completion"
  shows "validate_seal_binding s run rc actions row completion policy
      = Inr \<lparr>vb_run_id = rm_run_id run, vb_seal_id = seal_id, vb_close_id = cl_close_id rc,
          vb_boundary_at = bat_completed_at boundary, vb_seal_at = emitted_at\<rparr>
    \<and> instant (rm_start_time run) + sa_offset (last actions) * 1000000 \<le> instant (xr_timestamp row)
    \<and> instant (xr_timestamp row) \<le> instant (bat_completed_at boundary)
    \<and> (\<forall>w \<in> set (cl_finals rc). instant (bat_completed_at boundary) \<le> instant (fw_at w))
    \<and> instant (rm_start_time run) \<le> instant (bat_completed_at boundary)
    \<and> (\<forall>t. rm_end_time run = Some t \<longrightarrow> instant (bat_completed_at boundary) \<le> instant t)
    \<and> instant (bat_completed_at boundary) \<le> instant emitted_at \<and> instant (cl_emitted_at rc) \<le> instant emitted_at"
proof -
  note d = issued_sealD [OF assms(1)]
  obtain b where b: "validate_seal_binding s run rc actions row completion policy = Inr b" using d(3) by blast
  note f = seal_binding_fields [OF b]
  have "instant (bcm_started_at completion) \<le> instant (bcm_completed_at completion)"
    using assms(2) by (auto simp: validate_completion_def not_less)
  moreover have "instant (add_delta (rm_start_time run) (sa_offset (last actions) * 1000000)) = instant (rm_start_time run) + sa_offset (last actions) * 1000000"
    by (simp add: add_delta_def instant_def)
  ultimately show ?thesis using b f d(1,4) validate_seal_fields(5) [OF d(2)] by simp
qed

theorem issued_seal_chronology_witness:
  "validate_seal_binding live_seal live_run live_close live_scenario live_row live_completion live_policy
      = Inr \<lparr>vb_run_id = rm_run_id live_run, vb_seal_id = ''seal-1'', vb_close_id = cl_close_id live_close,
          vb_boundary_at = bat_completed_at live_attestation, vb_seal_at = utc 8000000\<rparr>
    \<and> instant (bat_completed_at live_attestation) \<le> instant (utc 8000000)"
  using issued_seal_chronology [OF live_sealed(1) [unfolded issue_live_def] live_sealed(2)] by blast

text \<open>a proof that the extracting side accepts against the trusted digest of a seal, with a digest
  that tells the two projections apart if they differ, shows exactly what that seal says; it belongs to the accepted close and
  was not made after it was validated.\<close>

theorem accepted_proof_binds_seal:
  assumes "validate_proof pd sd p rc receipt policy ex t = Inr v" "seal_projection_sha pd s host_id = Inr (ex_projection_sha ex)"
    and "inj_on (pd_projection pd) {proof_projection p, seal_projection_of s host_id}"
  shows "pv_proof v = p \<and> pf_boundary_at p = bat_completed_at (sl_boundary s) \<and> pf_seal_at p = sl_emitted_at s
    \<and> pf_host_id p = host_id \<and> pf_run_id p = sl_run_id s \<and> pf_policy p = sl_policy s \<and> sl_policy s = identity_of_policy policy
    \<and> pf_partitions p = sl_partitions s \<and> sl_partitions s = cl_finals rc \<and> sl_close_id s = cl_close_id rc
    \<and> instant (pf_created_at p) \<le> instant (pv_validated_at v)"
proof -
  have "pd_projection pd (proof_projection p) = pd_projection pd (seal_projection_of s host_id)"
    using assms(1,2) by (auto simp: validate_proof_def seal_projection_sha_def)
  then have "proof_projection p = seal_projection_of s host_id" by (rule inj_onD [OF assms(3)]) simp_all
  with assms(1) show ?thesis
    by (auto simp: validate_proof_def proof_projection_def seal_projection_of_def not_less)
qed

theorem accepted_proof_binds_seal_witness:
  "pf_boundary_at live_proof = bat_completed_at (sl_boundary live_seal) \<and> pf_partitions live_proof = sl_partitions live_seal"
proof -
  let ?ex = "\<lparr>ex_run_id = sample_run_id, ex_family_id = ''f1'', ex_partition = sample_partition, ex_seal_id = ''seal-1'', ex_projection_sha = sample_sha\<rparr>"
  have "\<not> isl (validate_proof live_proofs live_digests live_proof live_close live_receipt live_policy
      \<lparr>ex_run_id = sample_run_id, ex_family_id = ''f1'', ex_partition = sample_partition, ex_seal_id = ''seal-1'', ex_projection_sha = sample_sha\<rparr>
      (utc 9000000))" by code_simp
  then obtain v where v: "validate_proof live_proofs live_digests live_proof live_close live_receipt live_policy ?ex (utc 9000000) = Inr v"
    by (metis isl_def sum.exhaust)
  have digest: "seal_projection_sha live_proofs live_seal ''h1'' = Inr (ex_projection_sha ?ex)" by code_simp
  have "proof_projection live_proof = seal_projection_of live_seal ''h1''"
    using issued_proofD(5) [OF live_issued issued_sealD(2) [OF live_sealed(1) [unfolded issue_live_def]]] .
  then have "inj_on (pd_projection live_proofs) {proof_projection live_proof, seal_projection_of live_seal ''h1''}" by simp
  from accepted_proof_binds_seal [OF v digest this] show ?thesis by blast
qed



end
