(* ===== verification/HostText.thy ===== *)
theory HostText
  imports RecordModels "HOL-Library.Word"
begin

text \<open>
  The parts of Python's library that read host text for \<open>evidence/extractor.py\<close> and
  \<open>normalization/sysmon.py\<close>: \<open>shlex.split(text, posix=False)\<close> with its lexer states,
  \<open>ipaddress.ip_address\<close> for dotted quads, the name of a \<open>PureWindowsPath\<close>, and \<open>str(int)\<close>.
  An IPv6 literal is read by the parameter \<open>v6\<close>, whose registry tables depend on the release of
  the interpreter.
\<close>

unbundle bit_operations_syntax

section \<open>Command lines\<close>

definition is_lex_space :: "char \<Rightarrow> bool" where
  "is_lex_space c = (c \<in> {CHR '' '', CHR 0x09, CHR 0x0D, CHR 0x0A})"

definition is_lex_quote :: "char \<Rightarrow> bool" where
  "is_lex_quote c = (c \<in> {CHR 0x22, CHR 0x27})"

text \<open>The states \<open>' '\<close>, \<open>'a'\<close> and the open quote of the lexer; \<open>None\<close> is its \<open>ValueError("No closing quotation")\<close>.\<close>

datatype lex_state = LexBlank | LexWord | LexQuote char

fun shlex_scan :: "lex_state \<Rightarrow> string \<Rightarrow> string \<Rightarrow> string list option" where
  "shlex_scan LexBlank token [] = Some []"
| "shlex_scan LexBlank token (c # cs) =
     (if is_lex_space c then shlex_scan LexBlank [] cs
      else if is_lex_quote c then shlex_scan (LexQuote c) [c] cs
      else shlex_scan LexWord [c] cs)"
| "shlex_scan LexWord token [] = Some [token]"
| "shlex_scan LexWord token (c # cs) =
     (if is_lex_space c then map_option (Cons token) (shlex_scan LexBlank [] cs)
      else shlex_scan LexWord (token @ [c]) cs)"
| "shlex_scan (LexQuote q) token [] = None"
| "shlex_scan (LexQuote q) token (c # cs) =
     (if c = q then map_option (Cons (token @ [c])) (shlex_scan LexBlank [] cs)
      else shlex_scan (LexQuote q) (token @ [c]) cs)"

definition shlex_split :: "string \<Rightarrow> string list option" where
  "shlex_split s = shlex_scan LexBlank [] s"

text \<open>
  What the lexer computes, read off the text: a token is a run of non-blanks, or, when it begins
  with a quote, what that quote encloses.
\<close>

inductive tokens_of :: "string \<Rightarrow> string list \<Rightarrow> bool" where
  blank_text: "\<forall>c \<in> set s. is_lex_space c \<Longrightarrow> tokens_of s []"
| quoted: "\<lbrakk>\<forall>c \<in> set lead. is_lex_space c; is_lex_quote q; q \<notin> set body; tokens_of rest ts\<rbrakk>
    \<Longrightarrow> tokens_of (lead @ q # body @ q # rest) ((q # body @ [q]) # ts)"
| word: "\<lbrakk>\<forall>c \<in> set lead. is_lex_space c; w \<noteq> []; \<not> is_lex_quote (hd w); \<forall>c \<in> set w. \<not> is_lex_space c;
     rest = [] \<or> is_lex_space (hd rest); tokens_of rest ts\<rbrakk> \<Longrightarrow> tokens_of (lead @ w @ rest) (w # ts)"

lemma scan_lead: "\<forall>c \<in> set lead. is_lex_space c \<Longrightarrow> shlex_scan LexBlank t (lead @ s) = (if lead = [] then shlex_scan LexBlank t s else shlex_scan LexBlank [] s)"
  by (induction lead arbitrary: t) auto

lemma scan_blank_token: "shlex_scan LexBlank t s = shlex_scan LexBlank t' s"
  by (cases s) auto

lemma scan_quote:
  "q \<notin> set body \<Longrightarrow> shlex_scan (LexQuote q) t (body @ q # rest) = map_option (Cons (t @ body @ [q])) (shlex_scan LexBlank [] rest)"
  by (induction body arbitrary: t) auto

lemma scan_word:
  assumes "\<forall>c \<in> set w. \<not> is_lex_space c" "rest = [] \<or> is_lex_space (hd rest)"
  shows "shlex_scan LexWord t (w @ rest) = map_option (Cons (t @ w)) (shlex_scan LexBlank [] rest)"
  using assms by (induction w arbitrary: t) (cases rest; auto)+

lemma shlex_complete: "tokens_of s ts \<Longrightarrow> shlex_split s = Some ts"
proof (induction rule: tokens_of.induct)
  case (blank_text s)
  then show ?case using scan_lead [of s "[]" "[]"] by (auto simp: shlex_split_def split: if_splits)
next
  case (quoted lead q body rest ts)
  have "\<not> is_lex_space q" using quoted(2) by (auto simp: is_lex_quote_def is_lex_space_def)
  then have "shlex_scan LexBlank [] (lead @ q # body @ q # rest) = shlex_scan (LexQuote q) [q] (body @ q # rest)"
    using quoted(1,2) by (simp add: scan_lead)
  with quoted(3,5) show ?case by (simp add: shlex_split_def scan_quote)
next
  case (word lead w rest ts)
  obtain c w' where w: "w = c # w'" using word(2) by (cases w) auto
  then have "shlex_scan LexBlank [] (lead @ w @ rest) = shlex_scan LexWord [c] (w' @ rest)"
    using word(1,3,4) by (simp add: scan_lead)
  with word(4,5,7) show ?case by (simp add: w shlex_split_def scan_word)
qed

lemma shlex_sound:
  "shlex_scan LexBlank t s = Some ts \<Longrightarrow> tokens_of s ts"
  "shlex_scan LexWord t s = Some ts \<Longrightarrow> \<exists>w rest ts'. s = w @ rest \<and> (\<forall>c \<in> set w. \<not> is_lex_space c)
     \<and> (rest = [] \<or> is_lex_space (hd rest)) \<and> tokens_of rest ts' \<and> ts = (t @ w) # ts'"
  "shlex_scan (LexQuote q) t s = Some ts \<Longrightarrow> \<exists>body rest ts'. s = body @ q # rest \<and> q \<notin> set body
     \<and> tokens_of rest ts' \<and> ts = (t @ body @ [q]) # ts'"
proof (induction s arbitrary: t ts q)
  case Nil
  { case 1 then show ?case by (auto intro: tokens_of.blank_text)
  next case 2 then show ?case using tokens_of.blank_text [of "[]"] by auto
  next case 3 then show ?case by simp }
next
  case (Cons c s)
  { case 1
    consider "is_lex_space c" | "\<not> is_lex_space c" "is_lex_quote c" | "\<not> is_lex_space c" "\<not> is_lex_quote c" by blast
    then show ?case
    proof cases
      case 1
      then have "tokens_of s ts" using \<open>shlex_scan LexBlank t (c # s) = Some ts\<close> Cons.IH(1) by simp
      then show ?thesis
      proof (cases rule: tokens_of.cases)
        case blank_text
        with 1 show ?thesis by (auto intro!: tokens_of.blank_text)
      next
        case (quoted lead q body rest ts')
        with 1 show ?thesis using tokens_of.quoted [of "c # lead" q body rest ts'] by simp
      next
        case (word lead w rest ts')
        with 1 show ?thesis using tokens_of.word [of "c # lead" w rest ts'] by simp
      qed
    next
      case 2
      then obtain body rest ts' where "s = body @ c # rest" "c \<notin> set body" "tokens_of rest ts'" "ts = ([c] @ body @ [c]) # ts'"
        using \<open>shlex_scan LexBlank t (c # s) = Some ts\<close> Cons.IH(3) [of c "[c]" ts] by auto
      then show ?thesis using tokens_of.quoted [of "[]" c body rest ts'] 2 by simp
    next
      case 3
      then obtain w rest ts' where "s = w @ rest" "\<forall>d \<in> set w. \<not> is_lex_space d" "rest = [] \<or> is_lex_space (hd rest)"
          "tokens_of rest ts'" "ts = ([c] @ w) # ts'"
        using \<open>shlex_scan LexBlank t (c # s) = Some ts\<close> Cons.IH(2) [of "[c]" ts] by auto
      then show ?thesis using tokens_of.word [of "[]" "c # w" rest ts'] 3 by simp
    qed
  next case 2
    show ?case
    proof (cases "is_lex_space c")
      case True
      then obtain ts' where ts: "shlex_scan LexBlank [] s = Some ts'" "ts = t # ts'" using 2 by auto
      have "shlex_scan LexBlank [] (c # s) = Some ts'" using ts True by simp
      moreover have "tokens_of s ts'" using Cons.IH(1) ts by blast
      then have "tokens_of (c # s) ts'"
      proof (cases rule: tokens_of.cases)
        case blank_text
        with True show ?thesis by (auto intro!: tokens_of.blank_text)
      next
        case (quoted lead q body rest ts'')
        with True show ?thesis using tokens_of.quoted [of "c # lead" q body rest ts''] by simp
      next
        case (word lead w rest ts'')
        with True show ?thesis using tokens_of.word [of "c # lead" w rest ts''] by simp
      qed
      ultimately show ?thesis using ts True by (intro exI [of _ "[]"] exI [of _ "c # s"] exI [of _ ts']) simp
    next
      case False
      then obtain w rest ts' where "s = w @ rest" "\<forall>d \<in> set w. \<not> is_lex_space d" "rest = [] \<or> is_lex_space (hd rest)"
          "tokens_of rest ts'" "ts = ((t @ [c]) @ w) # ts'"
        using 2 Cons.IH(2) [of "t @ [c]" ts] by auto
      then show ?thesis using False by (intro exI [of _ "c # w"] exI [of _ rest] exI [of _ ts']) simp
    qed
  next case 3
    show ?case
    proof (cases "c = q")
      case True
      then obtain ts' where "tokens_of s ts'" "ts = (t @ [q]) # ts'" using 3 Cons.IH(1) by auto
      then show ?thesis using True by (intro exI [of _ "[]"] exI [of _ s] exI [of _ ts']) simp
    next
      case False
      then obtain body rest ts' where "s = body @ q # rest" "q \<notin> set body" "tokens_of rest ts'" "ts = ((t @ [c]) @ body @ [q]) # ts'"
        using 3 Cons.IH(3) [of q "t @ [c]" ts] by auto
      then show ?thesis using False by (intro exI [of _ "c # body"] exI [of _ rest] exI [of _ ts']) simp
    qed }
qed

lemma shlex_split_iff [spec_simps]: "shlex_split s = Some ts \<longleftrightarrow> tokens_of s ts"
  using shlex_complete shlex_sound(1) by (auto simp: shlex_split_def)

section \<open>Addresses\<close>

fun split_char :: "char \<Rightarrow> string \<Rightarrow> string list" where
  "split_char d [] = [[]]"
| "split_char d (c # cs) = (if c = d then [] # split_char d cs
     else (case split_char d cs of [] \<Rightarrow> [[c]] | w # ws \<Rightarrow> (c # w) # ws))"

text \<open>\<open>IPv4Address._parse_octet\<close>\<close>

definition parse_octet :: "string \<Rightarrow> nat option" where
  "parse_octet s = (if s = [] \<or> \<not> list_all is_digit s \<or> 3 < length s \<or> (s \<noteq> ''0'' \<and> hd s = CHR ''0'') \<or> 255 < dec_value s
     then None else Some (dec_value s))"

definition ipv4_of_octets :: "nat list \<Rightarrow> 32 word" where
  "ipv4_of_octets = foldl (\<lambda>a n. push_bit 8 a OR of_nat n) 0"

definition parse_ipv4 :: "string \<Rightarrow> 32 word option" where
  "parse_ipv4 s = (let parts = map parse_octet (split_char (CHR ''.'') s) in
     if length parts = 4 \<and> None \<notin> set parts then Some (ipv4_of_octets (map the parts)) else None)"

definition ipv4_octet :: "nat \<Rightarrow> 32 word \<Rightarrow> nat" where
  "ipv4_octet i a = unat (drop_bit (8 * (3 - i)) a AND 255)"

definition ipv4_text :: "32 word \<Rightarrow> string" where
  "ipv4_text a = dec_digits (ipv4_octet 0 a) @ ''.'' @ dec_digits (ipv4_octet 1 a) @ ''.'' @ dec_digits (ipv4_octet 2 a)
     @ ''.'' @ dec_digits (ipv4_octet 3 a)"

lemma split_char_digits:
  assumes "\<not> is_digit d" "list_all is_digit s"
  shows "split_char d (s @ d # t) = s # split_char d t" "split_char d s = [s]"
proof -
  have "d \<notin> set s" using assms by (auto simp: list_all_iff)
  then show "split_char d (s @ d # t) = s # split_char d t" "split_char d s = [s]"
    by (induction s) auto
qed

lemma parse_octet_text:
  assumes "n < 256"
  shows "parse_octet (dec_digits n) = Some n"
proof -
  have "length (dec_digits n) \<le> 3" using dec_digits_length [of 3 n] assms by simp
  moreover have "dec_digits n = ''0'' \<or> hd (dec_digits n) \<noteq> CHR ''0''"
  proof (cases "n = 0")
    case True
    have "char_of (48 :: nat) = CHR ''0''" by code_simp
    with True show ?thesis by (simp add: dec_digits.simps [of 0])
  qed (use dec_digits_hd in blast)
  ultimately show ?thesis using assms dec_digits_digits [of n] by (auto simp: parse_octet_def)
qed

lemma ipv4_octet_less: "ipv4_octet i a < 256"
proof -
  have "drop_bit (8 * (3 - i)) a AND mask 8 < 2 ^ 8" by (rule and_mask_less') simp
  then show ?thesis by (simp add: ipv4_octet_def mask_eq_exp_minus_1 word_less_nat_alt)
qed

lemma ipv4_octets: "ipv4_of_octets [ipv4_octet 0 a, ipv4_octet 1 a, ipv4_octet 2 a, ipv4_octet 3 a] = a"
proof -
  have m: "(255 :: 32 word) = mask 8" by (simp add: mask_eq_exp_minus_1)
  show ?thesis
    unfolding ipv4_of_octets_def ipv4_octet_def m
  proof (rule bit_word_eqI)
    fix n assume "n < LENGTH(32)"
    then show "bit (foldl (\<lambda>a k. push_bit 8 a OR of_nat k) (0 :: 32 word)
        [unat (drop_bit (8 * (3 - 0)) a AND mask 8), unat (drop_bit (8 * (3 - 1)) a AND mask 8),
         unat (drop_bit (8 * (3 - 2)) a AND mask 8), unat (drop_bit (8 * (3 - 3)) a AND mask 8)]) n \<longleftrightarrow> bit a n"
      by (cases "n < 8"; cases "n < 16"; cases "n < 24")
        (auto simp: bit_or_iff bit_push_bit_iff bit_and_iff bit_drop_bit_eq bit_mask_iff)
  qed
qed

lemma ipv4_roundtrip: "parse_ipv4 (ipv4_text a) = Some a"
proof -
  have dot: "\<not> is_digit (CHR ''.'')" by code_simp
  have "split_char (CHR ''.'') (ipv4_text a)
      = [dec_digits (ipv4_octet 0 a), dec_digits (ipv4_octet 1 a), dec_digits (ipv4_octet 2 a), dec_digits (ipv4_octet 3 a)]"
    by (simp add: ipv4_text_def split_char_digits [OF dot dec_digits_digits])
  then show ?thesis
    using ipv4_octets [of a] by (simp add: parse_ipv4_def parse_octet_text [OF ipv4_octet_less])
qed

text \<open>\<open>address in IPv4Network(net/n)\<close>\<close>

definition in_network :: "32 word \<Rightarrow> 32 word \<times> nat \<Rightarrow> bool" where
  "in_network a net = (drop_bit (32 - snd net) a = drop_bit (32 - snd net) (fst net))"

definition private_networks :: "(32 word \<times> nat) list" where
  "private_networks = [(0, 8), (0x0A000000, 8), (0x7F000000, 8), (0xA9FE0000, 16), (0xAC100000, 12), (0xC0000000, 24),
     (0xC00000AA, 31), (0xC0000200, 24), (0xC0A80000, 16), (0xC6120000, 15), (0xC6336400, 24), (0xCB007100, 24),
     (0xF0000000, 4), (0xFFFFFFFF, 32)]"

definition private_exceptions :: "(32 word \<times> nat) list" where
  "private_exceptions = [(0xC0000009, 32), (0xC000000A, 32)]"

definition ipv4_private :: "32 word \<Rightarrow> bool" where
  "ipv4_private a = ((\<exists>n \<in> set private_networks. in_network a n) \<and> \<not> (\<exists>n \<in> set private_exceptions. in_network a n))"

definition ipv4_global :: "32 word \<Rightarrow> bool" where
  "ipv4_global a = (\<not> in_network a (0x64400000, 10) \<and> \<not> ipv4_private a)"

definition ipv4_multicast :: "32 word \<Rightarrow> bool" where
  "ipv4_multicast a = in_network a (0xE0000000, 4)"

record ip_literal =
  il_text :: string
  il_global :: bool
  il_multicast :: bool

definition ip_address :: "(string \<Rightarrow> ip_literal option) \<Rightarrow> string \<Rightarrow> ip_literal option" where
  "ip_address v6 s = (case parse_ipv4 s of
     Some a \<Rightarrow> Some \<lparr>il_text = ipv4_text a, il_global = ipv4_global a, il_multicast = ipv4_multicast a\<rparr>
   | None \<Rightarrow> v6 s)"

section \<open>Windows paths\<close>

definition backslash :: char where
  "backslash = CHR 0x5C"

definition normalize_separators :: "string \<Rightarrow> string" where
  "normalize_separators = map (\<lambda>c. if c = CHR ''/'' then backslash else c)"

definition ascii_upper :: "char \<Rightarrow> char" where
  "ascii_upper c = (let n = code_point c in if 97 \<le> n \<and> n \<le> 122 then char_of (n - 32) else c)"

text \<open>What follows the drive and the root in \<open>ntpath.splitroot\<close>; of a UNC drive, after the share.\<close>

definition after_separator :: "string \<Rightarrow> string option" where
  "after_separator s = (case dropWhile (\<lambda>c. c \<noteq> backslash) s of [] \<Rightarrow> None | c # rest \<Rightarrow> Some rest)"

definition windows_rest :: "string \<Rightarrow> string" where
  "windows_rest p =
     (if take 1 p = [backslash] then
        (if take 1 (drop 1 p) = [backslash] then
           (let start = (if map ascii_upper (take 8 p) = [backslash, backslash, CHR ''?'', backslash] @ ''UNC'' @ [backslash] then 8 else 2) in
            case after_separator (drop start p) of
              None \<Rightarrow> []
            | Some share \<Rightarrow> (case after_separator share of None \<Rightarrow> [] | Some rest \<Rightarrow> rest))
         else drop 1 p)
      else if take 1 (drop 1 p) = '':'' then
        (if take 1 (drop 2 p) = [backslash] then drop 3 p else drop 2 p)
      else p)"

definition windows_name :: "string \<Rightarrow> string" where
  "windows_name s = (let parts = filter (\<lambda>x. x \<noteq> [] \<and> x \<noteq> ''.'') (split_char backslash (windows_rest (normalize_separators s))) in
     if parts = [] then [] else last parts)"

section \<open>Integers\<close>

definition int_text :: "int \<Rightarrow> string" where
  "int_text n = (if n < 0 then CHR ''-'' # dec_digits (nat (- n)) else dec_digits (nat n))"

text \<open>\<open>int(value)\<close> of a decimal string; the interpreter refuses more than 4300 digits.\<close>

definition int_of_decimal :: "string \<Rightarrow> int result" where
  "int_of_decimal s = (if 4300 < length s then Inl (ValueError ''Exceeds the limit (4300 digits) for integer string conversion'')
     else Inr (int (dec_value s)))"

lemma dec_digits_inject [simp]: "dec_digits m = dec_digits n \<longleftrightarrow> m = n"
  by (metis dec_value_digits)

lemma minus_not_digit: "\<not> is_digit (CHR ''-'')"
  by code_simp

lemma int_text_inject [simp]: "int_text m = int_text n \<longleftrightarrow> m = n"
proof -
  have "dec_digits k \<noteq> CHR ''-'' # s" for k s
    using dec_digits_digits [of k] minus_not_digit by auto
  then show ?thesis by (auto simp: int_text_def nat_eq_iff dest: sym)
qed

lemma int_text_nonempty [simp]: "int_text n \<noteq> []"
  by (simp add: int_text_def)

end
