(* ===== verification/SysmonInput.thy ===== *)
theory SysmonInput
  imports HostText
begin

text \<open>
  \<open>collection/collector/sysmon_jsonl.py\<close> and \<open>normalization/sysmon.py\<close>: from the lines of a Sysmon
  JSONL file to normalized Events. Parameters: \<open>loads\<close> (\<open>json.loads\<close>), \<open>fromiso\<close>
  (\<open>datetime.fromisoformat\<close>, whose value is naive when the text has no offset), \<open>event_namer\<close> (the
  UUID of the JSON text of its five arguments) and the managed vocabulary \<open>event_types\<close>.
\<close>

section \<open>Raw records\<close>

datatype json = JNull | JBool bool | JInt int | JFloat py_float | JStr string | JList "json list" | JObj "(string \<times> json) list"

type_synonym json_dict = "(string \<times> json) list"

record sysmon_record =
  sy_record_no :: int
  sy_data :: json_dict

definition read_line :: "(string \<Rightarrow> json option) \<Rightarrow> int \<Rightarrow> string \<Rightarrow> sysmon_record result" where
  "read_line loads n line =
     (if blank line then Inl (ValueError ''blank lines are not valid JSONL records'')
      else (case loads line of
        None \<Rightarrow> Inl (ValueError ''invalid JSON'')
      | Some (JObj data) \<Rightarrow> Inr \<lparr>sy_record_no = n, sy_data = data\<rparr>
      | Some _ \<Rightarrow> Inl (ValueError ''a Sysmon JSONL record must be a JSON object'')))"

fun read_lines :: "(string \<Rightarrow> json option) \<Rightarrow> int \<Rightarrow> string list \<Rightarrow> sysmon_record list result" where
  "read_lines loads n [] = Inr []"
| "read_lines loads n (line # ls) = bnd (read_line loads n line) (\<lambda>r. bnd (read_lines loads (n + 1) ls) (\<lambda>rs. Inr (r # rs)))"

definition read_sysmon_jsonl :: "(string \<Rightarrow> json option) \<Rightarrow> string list \<Rightarrow> sysmon_record list result" where
  "read_sysmon_jsonl loads ls = read_lines loads 1 ls"

section \<open>Fields\<close>

definition required_event_id :: "sysmon_record \<Rightarrow> int result" where
  "required_event_id r = (case map_of (sy_data r) ''EventId'' of
     Some (JInt n) \<Rightarrow> Inr n | _ \<Rightarrow> Inl (TypeError ''Sysmon EventId must be an integer''))"

definition required_record_id :: "sysmon_record \<Rightarrow> int result" where
  "required_record_id r = (case map_of (sy_data r) ''RecordId'' of
     Some (JInt n) \<Rightarrow> Inr n | _ \<Rightarrow> Inl (TypeError ''Sysmon RecordId must be an integer''))"

definition required_mapping :: "sysmon_record \<Rightarrow> string \<Rightarrow> json_dict result" where
  "required_mapping r key = (case map_of (sy_data r) key of
     Some (JObj d) \<Rightarrow> Inr d | _ \<Rightarrow> Inl (TypeError (''Sysmon '' @ key @ '' must be a JSON object'')))"

definition required_string :: "json_dict \<Rightarrow> string \<Rightarrow> string result" where
  "required_string d key = (case map_of d key of
     Some (JStr s) \<Rightarrow> if blank s then Inl (ValueError (''Sysmon '' @ key @ '' must be a non-blank string'')) else Inr s
   | _ \<Rightarrow> Inl (ValueError (''Sysmon '' @ key @ '' must be a non-blank string'')))"

definition optional_string :: "json_dict \<Rightarrow> string \<Rightarrow> string option result" where
  "optional_string d key = (case map_of d key of
     None \<Rightarrow> Inr None | Some JNull \<Rightarrow> Inr None | Some (JStr s) \<Rightarrow> Inr (Some s)
   | _ \<Rightarrow> Inl (TypeError (''Sysmon '' @ key @ '' must be a string when present'')))"

text \<open>\<open>str.isdecimal\<close> on the code points below 256.\<close>

definition is_decimal :: "string \<Rightarrow> bool" where
  "is_decimal s = (s \<noteq> [] \<and> list_all is_digit s)"

definition optional_integer :: "json_dict \<Rightarrow> string \<Rightarrow> int option result" where
  "optional_integer d key = (case map_of d key of
     None \<Rightarrow> Inr None | Some JNull \<Rightarrow> Inr None
   | Some (JStr s) \<Rightarrow> if is_decimal s then bnd (int_of_decimal s) (\<lambda>n. Inr (Some n))
       else Inl (ValueError (''Sysmon '' @ key @ '' must be a decimal integer when present''))
   | _ \<Rightarrow> Inl (ValueError (''Sysmon '' @ key @ '' must be a decimal integer when present'')))"

text \<open>\<open>PureWindowsPath(value).name if value else None\<close>\<close>

definition path_name :: "string option \<Rightarrow> string option" where
  "path_name v = (case v of None \<Rightarrow> None | Some s \<Rightarrow> if s = [] then None else Some (windows_name s))"

section \<open>Times\<close>

definition parse_datetime :: "(string \<Rightarrow> datetime option) \<Rightarrow> string \<Rightarrow> string \<Rightarrow> datetime result" where
  "parse_datetime fromiso field s = (case fromiso s of
     None \<Rightarrow> Inl (ValueError (''Sysmon '' @ field @ '' must be an ISO 8601 datetime'')) | Some d \<Rightarrow> Inr d)"

definition truncate_to_milliseconds :: "datetime \<Rightarrow> datetime" where
  "truncate_to_milliseconds d = d\<lparr>wall := wall d - microsecond d + microsecond d div 1000 * 1000\<rparr>"

definition parse_sysmon_utc_time :: "(string \<Rightarrow> datetime option) \<Rightarrow> string \<Rightarrow> datetime result" where
  "parse_sysmon_utc_time fromiso s = bnd (parse_datetime fromiso ''UtcTime'' s) (\<lambda>parsed.
     let aware = (if utcoffset parsed = None then parsed\<lparr>utcoffset := Some 0\<rparr> else parsed)
     in Inr (truncate_to_milliseconds (astimezone_utc aware)))"

definition parse_iso_utc_time :: "(string \<Rightarrow> datetime option) \<Rightarrow> string \<Rightarrow> datetime result" where
  "parse_iso_utc_time fromiso s = bnd (parse_datetime fromiso ''TimeCreated'' s) (\<lambda>parsed.
     if utcoffset parsed = None then Inl (ValueError ''Sysmon TimeCreated must include timezone information'')
     else Inr (truncate_to_milliseconds (astimezone_utc parsed)))"

section \<open>Events\<close>

record normalization_context =
  nc_run_id :: string
  nc_raw_log_id :: string
  nc_segment_no :: int

type_synonym event_namer = "string \<Rightarrow> string \<Rightarrow> int \<Rightarrow> int \<Rightarrow> int \<Rightarrow> string"

definition normalized_event_id :: "event_namer \<Rightarrow> sysmon_record \<Rightarrow> normalization_context \<Rightarrow> string result" where
  "normalized_event_id en r nc = bnd (required_record_id r) (\<lambda>rid.
     Inr (''evt-'' @ en (nc_run_id nc) (nc_raw_log_id nc) (nc_segment_no nc) (sy_record_no r) rid))"

definition sysmon_raw_ref :: "sysmon_record \<Rightarrow> int \<Rightarrow> normalization_context \<Rightarrow> raw_log_reference" where
  "sysmon_raw_ref r rid nc = \<lparr>rl_raw_log_id = nc_raw_log_id nc, rl_source_record_id = Some (int_text rid), rl_segment_no = nc_segment_no nc,
     rl_record_no = sy_record_no r, rl_parser_id = Some ''sysmon-normalizer'', rl_parser_version = Some ''v0.3''\<rparr>"

definition sysmon_event :: "sysmon_record \<Rightarrow> normalization_context \<Rightarrow> string \<Rightarrow> datetime \<Rightarrow> datetime \<Rightarrow> string \<Rightarrow> int \<Rightarrow> string
    \<Rightarrow> string option \<Rightarrow> process_info \<Rightarrow> network_info option \<Rightarrow> normalized_event" where
  "sysmon_event r nc eid event_time record_time host rid event_type user process network =
     \<lparr>ev_event_id = eid, ev_run_id = nc_run_id nc, ev_timestamp = event_time, ev_timestamp_source = EventTime,
      ev_event_time = Some event_time, ev_record_time = Some record_time, ev_ingest_time = None, ev_host_id = host,
      ev_source = ''sysmon'', ev_source_layer = RawTelemetry, ev_source_event_id = int_text rid, ev_event_type = event_type,
      ev_raw_ref = sysmon_raw_ref r rid nc, ev_user = user, ev_process = Some process, ev_network = network\<rparr>"

definition normalize_sysmon_process_create :: "string set \<Rightarrow> event_namer \<Rightarrow> (string \<Rightarrow> datetime option) \<Rightarrow> normalization_context
    \<Rightarrow> sysmon_record \<Rightarrow> normalized_event result" where
  "normalize_sysmon_process_create event_types en fromiso nc r =
     bnd (required_event_id r) (\<lambda>eid.
     seq (raise_if (eid \<noteq> 1) (ValueError ''normalize_sysmon_process_create requires Sysmon Event ID 1''))
     (bnd (required_mapping r ''EventData'') (\<lambda>d.
     bnd (required_string d ''UtcTime'') (\<lambda>utc_time.
     bnd (parse_sysmon_utc_time fromiso utc_time) (\<lambda>event_time.
     bnd (required_string (sy_data r) ''TimeCreated'') (\<lambda>created.
     bnd (parse_iso_utc_time fromiso created) (\<lambda>record_time.
     bnd (required_string d ''Image'') (\<lambda>image.
     bnd (optional_string d ''ParentImage'') (\<lambda>parent_image.
     bnd (normalized_event_id en r nc) (\<lambda>name.
     bnd (required_string (sy_data r) ''Computer'') (\<lambda>host.
     bnd (required_record_id r) (\<lambda>rid.
     bnd (optional_string d ''User'') (\<lambda>user.
     bnd (optional_integer d ''ProcessId'') (\<lambda>pid.
     bnd (optional_string d ''ProcessGuid'') (\<lambda>guid.
     bnd (optional_string d ''CommandLine'') (\<lambda>command_line.
     bnd (optional_integer d ''ParentProcessId'') (\<lambda>parent_pid.
     bnd (optional_string d ''ParentProcessGuid'') (\<lambda>parent_guid.
     validate_event event_types (sysmon_event r nc name event_time record_time host rid ''process_create'' user
       \<lparr>pi_pid = pid, pi_process_guid = guid, pi_name = Some (windows_name image), pi_path = Some image, pi_command_line = command_line,
        pi_parent_pid = parent_pid, pi_parent_process_guid = parent_guid, pi_parent_name = path_name parent_image\<rparr>
       None)))))))))))))))))))"

definition normalize_sysmon_network_connection :: "string set \<Rightarrow> event_namer \<Rightarrow> (string \<Rightarrow> datetime option) \<Rightarrow> normalization_context
    \<Rightarrow> sysmon_record \<Rightarrow> normalized_event result" where
  "normalize_sysmon_network_connection event_types en fromiso nc r =
     bnd (required_event_id r) (\<lambda>eid.
     seq (raise_if (eid \<noteq> 3) (ValueError ''normalize_sysmon_network_connection requires Sysmon Event ID 3''))
     (bnd (required_mapping r ''EventData'') (\<lambda>d.
     bnd (required_string d ''UtcTime'') (\<lambda>utc_time.
     bnd (parse_sysmon_utc_time fromiso utc_time) (\<lambda>event_time.
     bnd (required_string (sy_data r) ''TimeCreated'') (\<lambda>created.
     bnd (parse_iso_utc_time fromiso created) (\<lambda>record_time.
     bnd (optional_string d ''Image'') (\<lambda>image.
     bnd (normalized_event_id en r nc) (\<lambda>name.
     bnd (required_string (sy_data r) ''Computer'') (\<lambda>host.
     bnd (required_record_id r) (\<lambda>rid.
     bnd (optional_string d ''User'') (\<lambda>user.
     bnd (optional_integer d ''ProcessId'') (\<lambda>pid.
     bnd (optional_string d ''ProcessGuid'') (\<lambda>guid.
     bnd (optional_string d ''CommandLine'') (\<lambda>command_line.
     bnd (optional_integer d ''ParentProcessId'') (\<lambda>parent_pid.
     bnd (optional_string d ''ParentImage'') (\<lambda>parent_image.
     bnd (optional_string d ''Protocol'') (\<lambda>protocol.
     bnd (optional_string d ''SourceIp'') (\<lambda>src_ip.
     bnd (optional_integer d ''SourcePort'') (\<lambda>src_port.
     bnd (optional_string d ''DestinationIp'') (\<lambda>dst_ip.
     bnd (optional_integer d ''DestinationPort'') (\<lambda>dst_port.
     validate_event event_types (sysmon_event r nc name event_time record_time host rid ''network_connection'' user
       \<lparr>pi_pid = pid, pi_process_guid = guid, pi_name = path_name image, pi_path = image, pi_command_line = command_line,
        pi_parent_pid = parent_pid, pi_parent_process_guid = None, pi_parent_name = path_name parent_image\<rparr>
       (Some \<lparr>ni_protocol = protocol, ni_src_ip = src_ip, ni_src_port = src_port, ni_dst_ip = dst_ip, ni_dst_port = dst_port\<rparr>))))))))))))))))))))))))"

text \<open>\<open>_normalize_sysmon_record\<close> of \<open>pipeline/event_evidence.py\<close>.\<close>

definition normalize_sysmon_record :: "string set \<Rightarrow> event_namer \<Rightarrow> (string \<Rightarrow> datetime option) \<Rightarrow> normalization_context
    \<Rightarrow> sysmon_record \<Rightarrow> normalized_event result" where
  "normalize_sysmon_record event_types en fromiso nc r = (case map_of (sy_data r) ''EventId'' of
     Some (JInt n) \<Rightarrow>
       if n = 1 then normalize_sysmon_process_create event_types en fromiso nc r
       else if n = 3 then normalize_sysmon_network_connection event_types en fromiso nc r
       else Inl (ValueError ''Sysmon record has unsupported EventId; S0 supports only Event IDs 1 and 3'')
   | _ \<Rightarrow> Inl (TypeError ''Sysmon record EventId must be an integer''))"

section \<open>What a normalized Event says of its record\<close>

lemma truncate_to_milliseconds_eq: "truncate_to_milliseconds d = truncate_ms d"
proof -
  have "wall d mod 1000000 mod 1000 = wall d mod 1000" by (simp add: mod_mod_cancel)
  moreover have "wall d mod 1000000 div 1000 * 1000 = wall d mod 1000000 - wall d mod 1000000 mod 1000"
    by (simp only: minus_mod_eq_div_mult)
  ultimately have "wall d - wall d mod 1000000 + wall d mod 1000000 div 1000 * 1000 = wall d - wall d mod 1000" by simp
  then show ?thesis by (simp add: truncate_to_milliseconds_def truncate_ms_def microsecond_def)
qed

lemma aware_instant: "utcoffset d = None \<Longrightarrow> instant (d\<lparr>utcoffset := Some 0\<rparr>) = instant d"
  by (simp add: instant_def)

lemma parsed_times:
  "parse_sysmon_utc_time fromiso s = Inr t \<longleftrightarrow> (\<exists>d. fromiso s = Some d \<and> t = truncate_ms (utc (instant d)))"
  "parse_iso_utc_time fromiso s = Inr t \<longleftrightarrow> (\<exists>d. fromiso s = Some d \<and> utcoffset d \<noteq> None \<and> t = truncate_ms (utc (instant d)))"
proof -
  show "parse_sysmon_utc_time fromiso s = Inr t \<longleftrightarrow> (\<exists>d. fromiso s = Some d \<and> t = truncate_ms (utc (instant d)))"
  proof (cases "fromiso s")
    case (Some d)
    then show ?thesis
      by (cases "utcoffset d = None")
        (auto simp: parse_sysmon_utc_time_def parse_datetime_def truncate_to_milliseconds_eq Let_def aware_instant
          astimezone_utc_def)
  qed (simp add: parse_sysmon_utc_time_def parse_datetime_def)
  show "parse_iso_utc_time fromiso s = Inr t \<longleftrightarrow> (\<exists>d. fromiso s = Some d \<and> utcoffset d \<noteq> None \<and> t = truncate_ms (utc (instant d)))"
  proof (cases "fromiso s")
    case (Some d)
    then show ?thesis
      by (cases "utcoffset d = None")
        (auto simp: parse_iso_utc_time_def parse_datetime_def truncate_to_milliseconds_eq astimezone_utc_def)
  qed (simp add: parse_iso_utc_time_def parse_datetime_def)
qed

lemma required_fields [validity]:
  "required_event_id r = Inr n \<longleftrightarrow> map_of (sy_data r) ''EventId'' = Some (JInt n)"
  "required_record_id r = Inr n \<longleftrightarrow> map_of (sy_data r) ''RecordId'' = Some (JInt n)"
  "required_mapping r key = Inr d \<longleftrightarrow> map_of (sy_data r) key = Some (JObj d)"
  "required_string dd key = Inr s \<longleftrightarrow> map_of dd key = Some (JStr s) \<and> \<not> blank s"
  by (auto simp: required_event_id_def required_record_id_def required_mapping_def required_string_def
      split: option.splits json.splits if_splits)

text \<open>What both normalizers put into an Event.\<close>

definition normalizes :: "event_namer \<Rightarrow> (string \<Rightarrow> datetime option) \<Rightarrow> normalization_context \<Rightarrow> sysmon_record \<Rightarrow> normalized_event \<Rightarrow> bool" where
  "normalizes en fromiso nc r e \<longleftrightarrow> (\<exists>d utc_time created occ made rid host.
     map_of (sy_data r) ''EventData'' = Some (JObj d) \<and> map_of d ''UtcTime'' = Some (JStr utc_time) \<and> fromiso utc_time = Some occ
     \<and> map_of (sy_data r) ''TimeCreated'' = Some (JStr created) \<and> fromiso created = Some made
     \<and> map_of (sy_data r) ''RecordId'' = Some (JInt rid) \<and> map_of (sy_data r) ''Computer'' = Some (JStr host)
     \<and> ev_event_id e = ''evt-'' @ en (nc_run_id nc) (nc_raw_log_id nc) (nc_segment_no nc) (sy_record_no r) rid
     \<and> ev_run_id e = nc_run_id nc \<and> ev_host_id e = host \<and> ev_source_event_id e = int_text rid \<and> ev_source_layer e = RawTelemetry
     \<and> ev_timestamp e = truncate_ms (utc (instant occ)) \<and> ev_record_time e = Some (truncate_ms (utc (instant made)))
     \<and> ev_raw_ref e = sysmon_raw_ref r rid nc
     \<and> (map_of (sy_data r) ''EventId'' = Some (JInt 1) \<and> ev_event_type e = ''process_create'' \<and> ev_network e = None
        \<or> map_of (sy_data r) ''EventId'' = Some (JInt 3) \<and> ev_event_type e = ''network_connection'' \<and> ev_network e \<noteq> None))"

lemma process_create_normalizes:
  assumes "normalize_sysmon_process_create event_types en fromiso nc r = Inr e"
  shows "event_ok event_types e \<and> normalizes en fromiso nc r e"
proof -
  from assms show ?thesis
    unfolding normalize_sysmon_process_create_def bnd_ok seq_ok raise_if_ok validity parsed_times normalized_event_id_def
    apply (elim exE conjE)
    apply (intro conjI)
     apply simp
    unfolding normalizes_def
    apply (simp add: sysmon_event_def)
    done
qed

lemma network_connection_normalizes:
  assumes "normalize_sysmon_network_connection event_types en fromiso nc r = Inr e"
  shows "event_ok event_types e \<and> normalizes en fromiso nc r e"
proof -
  from assms show ?thesis
    unfolding normalize_sysmon_network_connection_def bnd_ok seq_ok raise_if_ok validity parsed_times normalized_event_id_def
    apply (elim exE conjE)
    apply (intro conjI)
     apply simp
    unfolding normalizes_def
    apply (simp add: sysmon_event_def)
    done
qed

lemma normalize_record_ok:
  assumes "normalize_sysmon_record event_types en fromiso nc r = Inr e"
  shows "event_ok event_types e \<and> normalizes en fromiso nc r e"
  using assms process_create_normalizes network_connection_normalizes
  by (auto simp: normalize_sysmon_record_def split: option.splits json.splits if_splits)

lemma read_lines_ok:
  "read_lines loads n ls = Inr rs \<Longrightarrow> map sy_record_no rs = map (\<lambda>i. n + int i) [0..<length ls]
     \<and> (\<forall>r \<in> set rs. \<exists>line \<in> set ls. loads line = Some (JObj (sy_data r)))"
proof (induction ls arbitrary: n rs)
  case Nil
  then show ?case by simp
next
  case (Cons line ls)
  then obtain r rs' where rs: "rs = r # rs'" "read_line loads n line = Inr r" "read_lines loads (n + 1) ls = Inr rs'" by auto
  have r: "sy_record_no r = n" "loads line = Some (JObj (sy_data r))"
    using rs(2) by (auto simp: read_line_def split: if_splits option.splits json.splits)
  have "map (\<lambda>i. n + int i) [0..<length (line # ls)] = n # map (\<lambda>i. n + 1 + int i) [0..<length ls]"
    unfolding length_Cons upt_conv_Cons [OF zero_less_Suc] by (simp add: map_Suc_upt [symmetric] o_def del: upt_Suc)
  with Cons.IH [OF rs(3)] r show ?case by (auto simp: rs(1))
qed

lemma list_all2_right: "list_all2 P xs ys \<Longrightarrow> y \<in> set ys \<Longrightarrow> \<exists>x \<in> set xs. P x y"
  by (induction rule: list_all2_induct) auto

text \<open>A namer that tells the records of a file apart gives the Events of one file different identifiers.\<close>

lemma normalized_ids_distinct:
  assumes "inj (\<lambda>(d, x). en (nc_run_id nc) (nc_raw_log_id nc) (nc_segment_no nc) d x)" "distinct (map sy_record_no rs)" "list_all2 (normalizes en fromiso nc) rs es"
  shows "distinct (map ev_event_id es)"
proof -
  have differ: "ev_event_id e \<noteq> ev_event_id e'" if n: "normalizes en fromiso nc r e" "normalizes en fromiso nc r' e'" "sy_record_no r \<noteq> sy_record_no r'" for r e r' e'
  proof
    assume "ev_event_id e = ev_event_id e'"
    then obtain x x' where "en (nc_run_id nc) (nc_raw_log_id nc) (nc_segment_no nc) (sy_record_no r) x
        = en (nc_run_id nc) (nc_raw_log_id nc) (nc_segment_no nc) (sy_record_no r') x'"
      using n(1,2) unfolding normalizes_def by (metis same_append_eq)
    then have "(sy_record_no r, x) = (sy_record_no r', x')"
      by - (rule injD [OF assms(1)], simp only: prod.case)
    with n(3) show False by blast
  qed
  show ?thesis
    using assms(3,2)
  proof (induction rule: list_all2_induct)
    case Nil
    then show ?case by simp
  next
    case (Cons r rs e es)
    have "ev_event_id e \<noteq> ev_event_id e'" if in_es: "e' \<in> set es" for e'
    proof -
      obtain r' where "r' \<in> set rs" "normalizes en fromiso nc r' e'"
        using list_all2_right [OF Cons.hyps(2) in_es] by blast
      moreover from this have "sy_record_no r \<noteq> sy_record_no r'" using Cons.prems by auto
      ultimately show ?thesis using differ [OF Cons.hyps(1)] by blast
    qed
    with Cons show ?case by auto
  qed
qed

end
