(* ===== verification/EvidenceExtractor.thy ===== *)
theory EvidenceExtractor
  imports SysmonInput
begin

text \<open>
  \<open>evidence/extractor.py\<close>, the S0 rules that turn one Event into at most one Evidence, and
  \<open>pipeline/event_evidence.py\<close>, the loop that normalizes the records of a file and extracts as it
  goes. The measurement and progress callbacks of the loop observe only. The UUID of the identity
  of an Evidence is the parameter \<open>evn\<close>.
\<close>

section \<open>The rules\<close>

type_synonym s0_namer = "string \<Rightarrow> string \<Rightarrow> string \<Rightarrow> string \<Rightarrow> string"

definition s0_extractor_version :: string where
  "s0_extractor_version = ''s0-v0.1''"

definition powershell_process_names :: "string set" where
  "powershell_process_names = {''powershell.exe'', ''pwsh.exe''}"

definition script_interpreter_process_names :: "string set" where
  "script_interpreter_process_names = {''powershell.exe'', ''pwsh.exe'', ''cmd.exe'', ''wscript.exe'', ''cscript.exe''}"

definition encoded_command_options :: "string set" where
  "encoded_command_options = {''-e'', ''-ec'', ''-enc'', ''-encodedcommand''}"

definition command_boundary_options :: "string set" where
  "command_boundary_options = {''-f'', ''-file'', ''-c'', ''-command''}"

definition normalized_string :: "string option \<Rightarrow> string option" where
  "normalized_string v = map_option (\<lambda>s. str_casefold (str_strip s)) v"

definition strip_matching_quotes :: "string \<Rightarrow> string" where
  "strip_matching_quotes s = (if 2 \<le> length s \<and> hd s = last s \<and> hd s \<in> {CHR 0x22, CHR 0x27} then butlast (tl s) else s)"

fun scan_options :: "string list \<Rightarrow> string option" where
  "scan_options [] = None"
| "scan_options (t # ts) = (let n = str_casefold (strip_matching_quotes t) in
     if n \<in> command_boundary_options then None else if n \<in> encoded_command_options then Some n else scan_options ts)"

definition find_encoded_command_option :: "string \<Rightarrow> string option" where
  "find_encoded_command_option command_line = (case shlex_split command_line of None \<Rightarrow> None | Some tokens \<Rightarrow> scan_options tokens)"

definition required_identity :: "string \<Rightarrow> string \<Rightarrow> unit result" where
  "required_identity key s = raise_if (s = []) (ValueError (key @ '' must be a non-empty string''))"

definition new_evidence :: "s0_namer \<Rightarrow> normalized_event \<Rightarrow> string \<Rightarrow> (string \<times> feature_value) list \<Rightarrow> evidence result" where
  "new_evidence evn e ty features =
     seq (required_identity ''event_id'' (ev_event_id e))
     (seq (required_identity ''run_id'' (ev_run_id e))
     (seq (required_identity ''host_id'' (ev_host_id e))
     (validate_evidence
       \<lparr>evd_id = ''E-'' @ evn (ev_run_id e) (ev_event_id e) ty s0_extractor_version, evd_run_id = ev_run_id e, evd_timestamp = ev_timestamp e,
        evd_entity_id = ev_host_id e, evd_type = ty, evd_event_ids = [ev_event_id e], evd_source_layer = ev_source_layer e,
        evd_channel = FusionFeature, evd_extractor_version = s0_extractor_version, evd_technique_ids = [], evd_features = features\<rparr>)))"

definition extract_encoded_powershell_command :: "s0_namer \<Rightarrow> normalized_event \<Rightarrow> evidence option result" where
  "extract_encoded_powershell_command evn e = (case ev_process e of None \<Rightarrow> Inr None | Some p \<Rightarrow>
     (case normalized_string (pi_name p) of None \<Rightarrow> Inr None | Some name \<Rightarrow>
       if name \<notin> powershell_process_names then Inr None
       else (case pi_command_line p of None \<Rightarrow> Inr None | Some command_line \<Rightarrow>
         (case find_encoded_command_option command_line of None \<Rightarrow> Inr None | Some opt \<Rightarrow>
           bnd (new_evidence evn e ''encoded_powershell_command'' [(''process_name'', FeatStr name), (''matched_option'', FeatStr opt)])
             (\<lambda>x. Inr (Some x))))))"

definition optional_text :: "string option \<Rightarrow> feature_value" where
  "optional_text v = (case v of None \<Rightarrow> FeatNone | Some s \<Rightarrow> FeatStr s)"

definition optional_number :: "int option \<Rightarrow> feature_value" where
  "optional_number v = (case v of None \<Rightarrow> FeatNone | Some n \<Rightarrow> FeatInt n)"

definition extract_script_interpreter_external_connection :: "s0_namer \<Rightarrow> (string \<Rightarrow> ip_literal option) \<Rightarrow> normalized_event
    \<Rightarrow> evidence option result" where
  "extract_script_interpreter_external_connection evn v6 e = (case (ev_process e, ev_network e) of
     (Some p, Some n) \<Rightarrow>
       (case normalized_string (pi_name p) of None \<Rightarrow> Inr None | Some name \<Rightarrow>
         if name \<notin> script_interpreter_process_names then Inr None
         else (case ni_dst_ip n of None \<Rightarrow> Inr None | Some destination \<Rightarrow>
           (case ip_address v6 (str_strip destination) of None \<Rightarrow> Inr None | Some ip \<Rightarrow>
             if \<not> il_global ip \<or> il_multicast ip then Inr None
             else bnd (new_evidence evn e ''script_interpreter_external_connection''
                 [(''process_name'', FeatStr name), (''protocol'', optional_text (normalized_string (ni_protocol n))),
                  (''dst_ip'', FeatStr (il_text ip)), (''dst_port'', optional_number (ni_dst_port n))])
               (\<lambda>x. Inr (Some x)))))
   | _ \<Rightarrow> Inr None)"

definition extract_evidence :: "s0_namer \<Rightarrow> (string \<Rightarrow> ip_literal option) \<Rightarrow> normalized_event \<Rightarrow> evidence list result" where
  "extract_evidence evn v6 e =
     bnd (if ev_event_type e = ''process_create'' then extract_encoded_powershell_command evn e
          else if ev_event_type e = ''network_connection'' then extract_script_interpreter_external_connection evn v6 e
          else Inr None)
       (\<lambda>x. Inr (case x of None \<Rightarrow> [] | Some evidence \<Rightarrow> [evidence]))"

section \<open>The loop over the records\<close>

record normalized_artifacts =
  na_events :: "normalized_event list"
  na_evidences :: "evidence list"

fun normalize_loop :: "(sysmon_record \<Rightarrow> normalized_event result) \<Rightarrow> (normalized_event \<Rightarrow> evidence list result)
    \<Rightarrow> normalized_artifacts \<Rightarrow> sysmon_record list \<Rightarrow> normalized_artifacts result" where
  "normalize_loop normalise extract acc [] = Inr acc"
| "normalize_loop normalise extract acc (r # rs) =
     bnd (normalise r) (\<lambda>e. bnd (extract e) (\<lambda>evs.
     normalize_loop normalise extract (acc\<lparr>na_events := na_events acc @ [e], na_evidences := na_evidences acc @ evs\<rparr>) rs))"

definition normalize_sysmon_and_extract_evidence :: "string set \<Rightarrow> event_namer \<Rightarrow> (string \<Rightarrow> datetime option) \<Rightarrow> s0_namer
    \<Rightarrow> (string \<Rightarrow> ip_literal option) \<Rightarrow> normalization_context \<Rightarrow> sysmon_record list \<Rightarrow> normalized_artifacts result" where
  "normalize_sysmon_and_extract_evidence event_types en fromiso evn v6 nc rs =
     normalize_loop (normalize_sysmon_record event_types en fromiso nc) (extract_evidence evn v6) \<lparr>na_events = [], na_evidences = []\<rparr> rs"

section \<open>When a rule fires\<close>

lemma first_Cons:
  assumes "\<not> P t" "Q t"
  shows "(\<exists>pre u post. t # ts = pre @ u # post \<and> P u \<and> (\<forall>v \<in> set pre. Q v))
    \<longleftrightarrow> (\<exists>pre u post. ts = pre @ u # post \<and> P u \<and> (\<forall>v \<in> set pre. Q v))"
proof
  assume "\<exists>pre u post. t # ts = pre @ u # post \<and> P u \<and> (\<forall>v \<in> set pre. Q v)"
  then obtain pre u post where *: "t # ts = pre @ u # post" "P u" "\<forall>v \<in> set pre. Q v" by blast
  then obtain pre' where "pre = t # pre'" using assms(1) by (cases pre) auto
  with * show "\<exists>pre u post. ts = pre @ u # post \<and> P u \<and> (\<forall>v \<in> set pre. Q v)" by auto
next
  assume "\<exists>pre u post. ts = pre @ u # post \<and> P u \<and> (\<forall>v \<in> set pre. Q v)"
  then obtain pre u post where "ts = pre @ u # post" "P u" "\<forall>v \<in> set pre. Q v" by blast
  with assms(2) show "\<exists>pre u post. t # ts = pre @ u # post \<and> P u \<and> (\<forall>v \<in> set pre. Q v)"
    by (intro exI [of _ "t # pre"] exI [of _ u] exI [of _ post]) simp
qed

text \<open>The option that decides: the first boundary or encoded option among the tokens.\<close>

lemma scan_options_iff:
  "scan_options ts = Some n \<longleftrightarrow> (\<exists>pre t post. ts = pre @ t # post \<and> n = str_casefold (strip_matching_quotes t)
     \<and> n \<in> encoded_command_options
     \<and> (\<forall>u \<in> set pre. str_casefold (strip_matching_quotes u) \<notin> command_boundary_options \<union> encoded_command_options))"
proof (induction ts)
  case Nil
  then show ?case by simp
next
  case (Cons t ts)
  let ?n = "str_casefold (strip_matching_quotes t)"
  have disj: "command_boundary_options \<inter> encoded_command_options = {}"
    by (auto simp: command_boundary_options_def encoded_command_options_def)
  consider "?n \<in> command_boundary_options" | "?n \<in> encoded_command_options" "?n \<notin> command_boundary_options"
    | "?n \<notin> command_boundary_options \<union> encoded_command_options" by blast
  then show ?case
  proof cases
    case 1
    then have "?n \<notin> encoded_command_options" using disj by blast
    with 1 show ?thesis by (auto simp: Cons_eq_append_conv)
  next
    case 2
    then show ?thesis by (auto simp: Cons_eq_append_conv intro: exI [of _ "[]"])
  next
    case 3
    then have "scan_options (t # ts) = scan_options ts" by (simp add: Let_def)
    moreover have "\<not> (n = ?n \<and> n \<in> encoded_command_options)" "?n \<notin> command_boundary_options \<union> encoded_command_options"
      using 3 by auto
    note first_Cons [where Q = "\<lambda>u. str_casefold (strip_matching_quotes u) \<notin> command_boundary_options \<union> encoded_command_options"
        and P = "\<lambda>u. n = str_casefold (strip_matching_quotes u) \<and> n \<in> encoded_command_options", OF this, unfolded conj_assoc]
    ultimately show ?thesis using Cons.IH by (simp only:)
  qed
qed

definition encoded_command :: "normalized_event \<Rightarrow> string \<Rightarrow> string \<Rightarrow> bool" where
  "encoded_command e name opt \<longleftrightarrow> ev_event_type e = ''process_create''
     \<and> (\<exists>p command_line. ev_process e = Some p \<and> normalized_string (pi_name p) = Some name \<and> name \<in> powershell_process_names
        \<and> pi_command_line p = Some command_line \<and> find_encoded_command_option command_line = Some opt)"

definition external_connection :: "(string \<Rightarrow> ip_literal option) \<Rightarrow> normalized_event \<Rightarrow> string \<Rightarrow> network_info \<Rightarrow> ip_literal \<Rightarrow> bool" where
  "external_connection v6 e name n ip \<longleftrightarrow> ev_event_type e = ''network_connection''
     \<and> (\<exists>p destination. ev_process e = Some p \<and> ev_network e = Some n \<and> normalized_string (pi_name p) = Some name
        \<and> name \<in> script_interpreter_process_names \<and> ni_dst_ip n = Some destination
        \<and> ip_address v6 (str_strip destination) = Some ip \<and> il_global ip \<and> \<not> il_multicast ip)"

definition s0_evidence :: "s0_namer \<Rightarrow> normalized_event \<Rightarrow> string \<Rightarrow> (string \<times> feature_value) list \<Rightarrow> evidence" where
  "s0_evidence evn e ty features =
     \<lparr>evd_id = ''E-'' @ evn (ev_run_id e) (ev_event_id e) ty s0_extractor_version, evd_run_id = ev_run_id e, evd_timestamp = ev_timestamp e,
      evd_entity_id = ev_host_id e, evd_type = ty, evd_event_ids = [ev_event_id e], evd_source_layer = ev_source_layer e,
      evd_channel = FusionFeature, evd_extractor_version = s0_extractor_version, evd_technique_ids = [], evd_features = features\<rparr>"

lemma new_evidence_event_ok:
  "event_ok event_types e \<Longrightarrow> new_evidence evn e ty features = Inr (s0_evidence evn e ty features)"
  using timestamp_source_ok [of e]
  by (simp add: new_evidence_def required_identity_def validate_evidence_def timestamp_must_be_utc_def s0_evidence_def event_ok_def require_utc_def is_utc_def raise_if_def)

text \<open>The whole extractor on a valid Event: no exception, and the two rules.\<close>

definition s0_rules :: "s0_namer \<Rightarrow> (string \<Rightarrow> ip_literal option) \<Rightarrow> normalized_event \<Rightarrow> evidence set" where
  "s0_rules evn v6 e =
     {s0_evidence evn e ''encoded_powershell_command'' [(''process_name'', FeatStr name), (''matched_option'', FeatStr opt)] | name opt.
        encoded_command e name opt}
     \<union> {s0_evidence evn e ''script_interpreter_external_connection''
          [(''process_name'', FeatStr name), (''protocol'', optional_text (normalized_string (ni_protocol n))),
           (''dst_ip'', FeatStr (il_text ip)), (''dst_port'', optional_number (ni_dst_port n))] | name n ip.
        external_connection v6 e name n ip}"

lemma extract_process_create:
  assumes "event_ok event_types e"
  shows "extract_encoded_powershell_command evn e = Inr (case ev_process e of None \<Rightarrow> None | Some p \<Rightarrow>
     (case normalized_string (pi_name p) of None \<Rightarrow> None | Some name \<Rightarrow>
       if name \<notin> powershell_process_names then None
       else (case pi_command_line p of None \<Rightarrow> None | Some command_line \<Rightarrow>
         map_option (\<lambda>opt. s0_evidence evn e ''encoded_powershell_command''
           [(''process_name'', FeatStr name), (''matched_option'', FeatStr opt)]) (find_encoded_command_option command_line))))"
  unfolding extract_encoded_powershell_command_def new_evidence_event_ok [OF assms]
  by (simp split: option.split)

lemma extract_network_connection:
  assumes "event_ok event_types e"
  shows "extract_script_interpreter_external_connection evn v6 e = Inr (case (ev_process e, ev_network e) of
     (Some p, Some n) \<Rightarrow>
       (case normalized_string (pi_name p) of None \<Rightarrow> None | Some name \<Rightarrow>
         if name \<notin> script_interpreter_process_names then None
         else (case ni_dst_ip n of None \<Rightarrow> None | Some destination \<Rightarrow>
           (case ip_address v6 (str_strip destination) of None \<Rightarrow> None | Some ip \<Rightarrow>
             if \<not> il_global ip \<or> il_multicast ip then None
             else Some (s0_evidence evn e ''script_interpreter_external_connection''
                 [(''process_name'', FeatStr name), (''protocol'', optional_text (normalized_string (ni_protocol n))),
                  (''dst_ip'', FeatStr (il_text ip)), (''dst_port'', optional_number (ni_dst_port n))]))))
   | _ \<Rightarrow> None)"
  unfolding extract_script_interpreter_external_connection_def new_evidence_event_ok [OF assms]
  by (simp split: option.split)

lemma extract_evidence_rules:
  assumes ok: "event_ok event_types e"
  shows "\<exists>evs. extract_evidence evn v6 e = Inr evs \<and> set evs = s0_rules evn v6 e \<and> length evs \<le> 1"
proof -
  consider (process) "ev_event_type e = ''process_create''" | (network) "ev_event_type e = ''network_connection''"
    | (other) "ev_event_type e \<notin> {''process_create'', ''network_connection''}" by blast
  then show ?thesis
  proof cases
    case process
    then show ?thesis
      by (auto simp: extract_evidence_def extract_process_create [OF ok] s0_rules_def encoded_command_def external_connection_def
          split: option.split)
  next
    case network
    then show ?thesis
      by (auto simp: extract_evidence_def extract_network_connection [OF ok] s0_rules_def encoded_command_def external_connection_def
          split: option.split)
  next
    case other
    then show ?thesis by (simp add: extract_evidence_def s0_rules_def encoded_command_def external_connection_def)
  qed
qed

lemma s0_evidence_fields [simp]:
  "evd_run_id (s0_evidence evn e ty fs) = ev_run_id e" "evd_timestamp (s0_evidence evn e ty fs) = ev_timestamp e"
  "evd_entity_id (s0_evidence evn e ty fs) = ev_host_id e" "evd_type (s0_evidence evn e ty fs) = ty"
  "evd_event_ids (s0_evidence evn e ty fs) = [ev_event_id e]" "evd_features (s0_evidence evn e ty fs) = fs"
  "evd_id (s0_evidence evn e ty fs) = ''E-'' @ evn (ev_run_id e) (ev_event_id e) ty s0_extractor_version"
  "evd_channel (s0_evidence evn e ty fs) = FusionFeature" "evd_source_layer (s0_evidence evn e ty fs) = ev_source_layer e"
  by (simp_all add: s0_evidence_def)

lemma s0_rules_fields:
  assumes "v \<in> s0_rules evn v6 e"
  shows "evd_run_id v = ev_run_id e" "evd_timestamp v = ev_timestamp e" "evd_entity_id v = ev_host_id e"
    "evd_event_ids v = [ev_event_id e]" "evd_id v = ''E-'' @ evn (ev_run_id e) (ev_event_id e) (evd_type v) s0_extractor_version"
    "evd_type v \<in> {''encoded_powershell_command'', ''script_interpreter_external_connection''}" "evd_channel v = FusionFeature"
  using assms by (auto simp: s0_rules_def)

section \<open>The loop\<close>

lemma normalize_loop_ok:
  "normalize_loop normalise extract acc rs = Inr na \<longleftrightarrow> (\<exists>es evss. list_all2 (\<lambda>r e. normalise r = Inr e) rs es
     \<and> list_all2 (\<lambda>e evs. extract e = Inr evs) es evss
     \<and> na = acc\<lparr>na_events := na_events acc @ es, na_evidences := na_evidences acc @ concat evss\<rparr>)"
proof (induction rs arbitrary: acc)
  case Nil
  then show ?case by auto
next
  case (Cons r rs)
  show ?case
  proof
    assume "normalize_loop normalise extract acc (r # rs) = Inr na"
    then obtain e evs where step: "normalise r = Inr e" "extract e = Inr evs"
        "normalize_loop normalise extract (acc\<lparr>na_events := na_events acc @ [e], na_evidences := na_evidences acc @ evs\<rparr>) rs = Inr na" by auto
    then obtain es evss where "list_all2 (\<lambda>r e. normalise r = Inr e) rs es" "list_all2 (\<lambda>e evs. extract e = Inr evs) es evss"
        "na = acc\<lparr>na_events := (na_events acc @ [e]) @ es, na_evidences := (na_evidences acc @ evs) @ concat evss\<rparr>"
      unfolding Cons.IH by auto
    with step show "\<exists>es evss. list_all2 (\<lambda>r e. normalise r = Inr e) (r # rs) es \<and> list_all2 (\<lambda>e evs. extract e = Inr evs) es evss
        \<and> na = acc\<lparr>na_events := na_events acc @ es, na_evidences := na_evidences acc @ concat evss\<rparr>"
      by (intro exI [of _ "e # es"] exI [of _ "evs # evss"]) simp
  next
    assume "\<exists>es evss. list_all2 (\<lambda>r e. normalise r = Inr e) (r # rs) es \<and> list_all2 (\<lambda>e evs. extract e = Inr evs) es evss
        \<and> na = acc\<lparr>na_events := na_events acc @ es, na_evidences := na_evidences acc @ concat evss\<rparr>"
    then obtain e es evs evss where "normalise r = Inr e" "extract e = Inr evs" "list_all2 (\<lambda>r e. normalise r = Inr e) rs es"
        "list_all2 (\<lambda>e evs. extract e = Inr evs) es evss"
        "na = acc\<lparr>na_events := na_events acc @ e # es, na_evidences := na_evidences acc @ evs @ concat evss\<rparr>"
      by (auto simp: list_all2_Cons1)
    then show "normalize_loop normalise extract acc (r # rs) = Inr na"
      using Cons.IH [of "acc\<lparr>na_events := na_events acc @ [e], na_evidences := na_evidences acc @ evs\<rparr>"] by auto
  qed
qed

lemma normalized_file_ok:
  assumes "normalize_sysmon_and_extract_evidence event_types en fromiso evn v6 nc rs = Inr na"
  shows "list_all2 (\<lambda>r e. event_ok event_types e \<and> normalizes en fromiso nc r e) rs (na_events na)
    \<and> set (na_evidences na) = (\<Union>e \<in> set (na_events na). s0_rules evn v6 e)
    \<and> map_result (extract_evidence evn v6) (na_events na) = Inr (map (\<lambda>e. projr (extract_evidence evn v6 e)) (na_events na))
    \<and> na_evidences na = concat (map (\<lambda>e. projr (extract_evidence evn v6 e)) (na_events na))"
proof -
  obtain evss where es: "list_all2 (\<lambda>r e. normalize_sysmon_record event_types en fromiso nc r = Inr e) rs (na_events na)"
    and evs: "list_all2 (\<lambda>e evs. extract_evidence evn v6 e = Inr evs) (na_events na) evss" "na_evidences na = concat evss"
    using assms by (auto simp: normalize_sysmon_and_extract_evidence_def normalize_loop_ok)
  have good: "list_all2 (\<lambda>r e. event_ok event_types e \<and> normalizes en fromiso nc r e) rs (na_events na)"
    using es normalize_record_ok by (rule list_all2_mono)
  have evss: "evss = map (\<lambda>e. projr (extract_evidence evn v6 e)) (na_events na)"
    using evs(1) by (induction rule: list_all2_induct) auto
  have rules: "set (projr (extract_evidence evn v6 e)) = s0_rules evn v6 e" if "e \<in> set (na_events na)" for e
    using list_all2_right [OF good that] extract_evidence_rules by force
  have "map_result (extract_evidence evn v6) (na_events na) = Inr evss"
    using evs(1) by (simp add: map_result_ok)
  with good evs(2) show ?thesis using rules by (simp add: evss)
qed

end
