(* ===== verification/S0Replay.thy ===== *)
theory S0Replay
  imports EvidenceExtractor FusionConfig
begin

text \<open>
  \<open>integration/s0_replay_window.py\<close>: the fixed replay window of an S0 run, the margin filter in
  front of the extractor and the Fusion pipeline of every expected host; \<open>pipeline/fusion.py\<close>: its
  caller in the First Cycle, with the snapshot of the configuration.
\<close>

section \<open>The window\<close>

definition s0_replay_duration :: int where
  "s0_replay_duration = 660 * 1000000"

definition validate_s0_run_id :: "string \<Rightarrow> unit result" where
  "validate_s0_run_id s = raise_if (blank s \<or> \<not> unpadded s) (ValueError ''run_id must be a non-blank string without surrounding whitespace'')"

definition validate_expected_entity_ids :: "string list \<Rightarrow> string list result" where
  "validate_expected_entity_ids ids =
     seq (raise_first
       [(ids = [], ValueError ''expected_entity_ids must not be empty''),
        (\<exists>i \<in> set ids. blank i \<or> \<not> unpadded i, ValueError ''expected_entity_ids must hold non-blank strings without surrounding whitespace''),
        (has_duplicates ids, ValueError ''expected_entity_ids must not contain duplicates'')])
     (Inr (sort ids))"

definition validate_replay_step :: "valid_config \<Rightarrow> unit result" where
  "validate_replay_step c = bnd (duration_of (vc_step_size c)) (\<lambda>step.
     raise_if (s0_replay_duration \<le> 0 \<or> s0_replay_duration mod step \<noteq> 0)
       (ValueError ''S0 replay policy requires replay_duration_sec to be divisible by step_size_sec''))"

record s0_replay_window =
  rw_start :: datetime
  rw_end :: datetime
  rw_observed_end :: datetime

definition is_covered :: "s0_replay_window \<Rightarrow> bool" where
  "is_covered w = (instant (rw_end w) \<le> instant (rw_observed_end w))"

definition derive_s0_replay_window :: "datetime \<Rightarrow> datetime \<Rightarrow> s0_replay_window result" where
  "derive_s0_replay_window start_time end_time =
     seq (require_utc ''start_time'' start_time)
     (seq (require_utc ''end_time'' end_time)
     (seq (raise_if (instant end_time < instant start_time) (ValueError ''end_time must not be earlier than start_time''))
     (Inr \<lparr>rw_start = start_time, rw_end = add_delta start_time s0_replay_duration, rw_observed_end = end_time\<rparr>)))"

section \<open>The margin filter\<close>

record event_selection =
  sn_run_id :: string
  sn_included :: "normalized_event list"
  sn_before :: nat
  sn_after :: nat
  sn_min :: "datetime option"
  sn_max :: "datetime option"

definition exclude_event :: "s0_replay_window \<Rightarrow> normalized_event \<Rightarrow> event_selection \<Rightarrow> event_selection" where
  "exclude_event w e s =
     (let s = (if instant (ev_timestamp e) < instant (rw_start w) then s\<lparr>sn_before := sn_before s + 1\<rparr> else s\<lparr>sn_after := sn_after s + 1\<rparr>);
          s = (case sn_min s of None \<Rightarrow> s\<lparr>sn_min := Some (ev_timestamp e)\<rparr>
             | Some t \<Rightarrow> if instant (ev_timestamp e) < instant t then s\<lparr>sn_min := Some (ev_timestamp e)\<rparr> else s)
      in case sn_max s of None \<Rightarrow> s\<lparr>sn_max := Some (ev_timestamp e)\<rparr>
         | Some t \<Rightarrow> if instant t < instant (ev_timestamp e) then s\<lparr>sn_max := Some (ev_timestamp e)\<rparr> else s)"

definition inside :: "s0_replay_window \<Rightarrow> normalized_event \<Rightarrow> bool" where
  "inside w e = (instant (rw_start w) \<le> instant (ev_timestamp e) \<and> instant (ev_timestamp e) \<le> instant (rw_end w))"

fun select_events :: "s0_replay_window \<Rightarrow> event_selection \<Rightarrow> normalized_event list \<Rightarrow> event_selection result" where
  "select_events w s [] = Inr s"
| "select_events w s (e # es) =
     (if ev_run_id e \<noteq> sn_run_id s then Inl (ValueError ''NormalizedEvent run_id must match the replay run_id'')
      else if inside w e then select_events w (s\<lparr>sn_included := sn_included s @ [e]\<rparr>) es
      else select_events w (exclude_event w e s) es)"

definition select_s0_replay_events :: "normalized_event list \<Rightarrow> string \<Rightarrow> s0_replay_window \<Rightarrow> event_selection result" where
  "select_s0_replay_events events run_id w =
     seq (validate_s0_run_id run_id)
     (select_events w \<lparr>sn_run_id = run_id, sn_included = [], sn_before = 0, sn_after = 0, sn_min = None, sn_max = None\<rparr> events)"

section \<open>Fusion of every expected host\<close>

record s0_runtime_result =
  sr_run_id :: string
  sr_window :: s0_replay_window
  sr_selection :: event_selection
  sr_not_evaluated_reason :: "string option"
  sr_fusion_results :: "fusion_result list"
  sr_stopping_traces :: "stopping_trace list"

definition unexpected_hosts :: "normalized_event list \<Rightarrow> string list \<Rightarrow> string list" where
  "unexpected_hosts events ids = sort (filter (\<lambda>h. h \<notin> set ids) (remdups (map ev_host_id events)))"

definition event_order :: "normalized_event \<Rightarrow> int \<times> string" where
  "event_order e = (instant (ev_timestamp e), ev_event_id e)"

definition host_request :: "string \<Rightarrow> s0_replay_window \<Rightarrow> string \<Rightarrow> run_request" where
  "host_request run_id w entity_id =
     \<lparr>rq_run_id = run_id, rq_entity_id = entity_id, rq_run_start = rw_start w, rq_run_end = rw_observed_end w\<rparr>"

definition run_s0_runtime_fusion :: "s0_namer \<Rightarrow> (string \<Rightarrow> ip_literal option) \<Rightarrow> valid_config \<Rightarrow> normalized_event list
    \<Rightarrow> string \<Rightarrow> datetime \<Rightarrow> datetime \<Rightarrow> string list \<Rightarrow> s0_runtime_result result" where
  "run_s0_runtime_fusion evn v6 c events run_id start_time end_time expected =
     seq (validate_replay_step c)
     (bnd (derive_s0_replay_window start_time end_time) (\<lambda>w.
     bnd (validate_expected_entity_ids expected) (\<lambda>ids.
     bnd (select_s0_replay_events events run_id w) (\<lambda>selection.
     seq (raise_if (unexpected_hosts events ids \<noteq> []) (ValueError ''NormalizedEvent host_id is not in expected_entity_ids''))
     (if \<not> is_covered w then
        bnd (map_result (\<lambda>i. build_not_evaluated_fusion_result (sn_run_id selection) i (vc_metadata c)) ids) (\<lambda>results.
        bnd (map_result (\<lambda>i. validate_stopping_trace \<lparr>tr_run_id = sn_run_id selection, tr_entity_id = i,
          tr_config_version = fm_config_version (vc_metadata c), tr_points = []\<rparr>) ids) (\<lambda>traces.
        Inr \<lparr>sr_run_id = sn_run_id selection, sr_window = w, sr_selection = selection,
          sr_not_evaluated_reason = Some ''insufficient_observation'', sr_fusion_results = results, sr_stopping_traces = traces\<rparr>))
      else
        bnd (map_result (extract_evidence evn v6) (sort_key event_order (sn_included selection))) (\<lambda>evidences.
        bnd (map_result (\<lambda>i. run_fusion_pipeline_from_config c (filter (\<lambda>v. evd_entity_id v = i) (concat evidences))
          (host_request (sn_run_id selection) w i) (Some (rw_end w))) ids) (\<lambda>results.
        Inr \<lparr>sr_run_id = sn_run_id selection, sr_window = w, sr_selection = selection, sr_not_evaluated_reason = None,
          sr_fusion_results = map pl_fusion results, sr_stopping_traces = map pl_trace results\<rparr>)))))))"

section \<open>The snapshot of the configuration\<close>

record runtime_config_snapshot =
  cs_run_id :: string
  cs_entity_id :: string
  cs_config :: valid_config

text \<open>The fields copied from the validated configuration, which the snapshot validates again.\<close>

definition runtime_fields :: "valid_config \<Rightarrow> fusion_config" where
  "runtime_fields c =
     \<lparr>fc_config_version = fm_config_version (vc_metadata c), fc_model_version = fm_model_version (vc_metadata c),
      fc_window = \<lparr>wc_window_size_sec = Number (Finite (vc_window_size c))\<rparr>,
      fc_replay = \<lparr>rc_step_size_sec = Number (Finite (vc_step_size c))\<rparr>,
      fc_scoring = \<lparr>sc_method = fm_method (vc_metadata c), sc_scorer_version = fm_scorer_version (vc_metadata c),
        sc_profile_id = fm_profile_id (vc_metadata c), sc_evidence_types = vc_evidence_types c\<rparr>,
      fc_stopping = \<lparr>stc_threshold_on = Number (vc_threshold_on c), stc_threshold_off = Number (vc_threshold_off c),
        stc_persistence_k = Inr (vc_persistence_k c)\<rparr>\<rparr>"

definition build_fusion_runtime_config_snapshot :: "bool \<Rightarrow> valid_config \<Rightarrow> string \<Rightarrow> string \<Rightarrow> runtime_config_snapshot result" where
  "build_fusion_runtime_config_snapshot nan_ok c run_id entity_id =
     bnd (validate_runtime_config nan_ok run_id entity_id (runtime_fields c)) (\<lambda>c'.
     Inr \<lparr>cs_run_id = run_id, cs_entity_id = entity_id, cs_config = c'\<rparr>)"

record s0_fusion_result =
  sf_fusion :: fusion_result
  sf_trace :: stopping_trace
  sf_config :: runtime_config_snapshot

text \<open>\<open>load\<close> is the outcome of loading the configuration file.\<close>

definition run_s0_fusion_with_trace :: "bool \<Rightarrow> s0_namer \<Rightarrow> (string \<Rightarrow> ip_literal option) \<Rightarrow> valid_config result \<Rightarrow> string
    \<Rightarrow> run_metadata \<Rightarrow> normalized_event list \<Rightarrow> s0_fusion_result result" where
  "run_s0_fusion_with_trace nan_ok evn v6 load entity_id run_metadata events = (case rm_end_time run_metadata of
     None \<Rightarrow> Inl (ValueError ''Fusion requires a completed RunMetadata end_time'')
   | Some end_time \<Rightarrow>
       bnd load (\<lambda>c.
       bnd (build_fusion_runtime_config_snapshot nan_ok c (rm_run_id run_metadata) entity_id) (\<lambda>snapshot.
       bnd (run_s0_runtime_fusion evn v6 c events (rm_run_id run_metadata) (rm_start_time run_metadata) end_time [entity_id]) (\<lambda>r.
       case (sr_fusion_results r, sr_stopping_traces r) of
         ([fusion], [trace]) \<Rightarrow> Inr \<lparr>sf_fusion = fusion, sf_trace = trace, sf_config = snapshot\<rparr>
       | _ \<Rightarrow> Inl (ValueError ''not exactly one value to unpack'')))))"

section \<open>Lemmas\<close>

lemma entity_ids_ok [validity]:
  "validate_expected_entity_ids ids = Inr ids' \<longleftrightarrow> ids' = sort ids \<and> ids \<noteq> [] \<and> distinct ids \<and> (\<forall>i \<in> set ids. \<not> blank i \<and> unpadded i)"
  by (auto simp: validate_expected_entity_ids_def)

lemma s0_run_id_ok [validity]: "validate_s0_run_id s = Inr u \<longleftrightarrow> \<not> blank s \<and> unpadded s"
  by (auto simp: validate_s0_run_id_def)

lemma window_ok [validity]:
  "derive_s0_replay_window start_time end_time = Inr w \<longleftrightarrow> is_utc start_time \<and> is_utc end_time \<and> instant start_time \<le> instant end_time
     \<and> w = \<lparr>rw_start = start_time, rw_end = add_delta start_time s0_replay_duration, rw_observed_end = end_time\<rparr>"
  by (auto simp: derive_s0_replay_window_def not_less)

lemma exclude_event_fields [simp]:
  "sn_run_id (exclude_event w e s) = sn_run_id s" "sn_included (exclude_event w e s) = sn_included s"
  "sn_before (exclude_event w e s) + sn_after (exclude_event w e s) = Suc (sn_before s + sn_after s)"
  by (auto simp: exclude_event_def Let_def split: option.split)

lemma select_events_ok:
  "select_events w s events = Inr s' \<Longrightarrow> (\<forall>e \<in> set events. ev_run_id e = sn_run_id s) \<and> sn_run_id s' = sn_run_id s
     \<and> sn_included s' = sn_included s @ filter (inside w) events
     \<and> sn_before s' + sn_after s' = sn_before s + sn_after s + length (filter (\<lambda>e. \<not> inside w e) events)"
proof (induction events arbitrary: s)
  case Nil
  then show ?case by simp
next
  case (Cons e es)
  show ?case
  proof (cases "inside w e")
    case True
    with Cons.prems Cons.IH [of "s\<lparr>sn_included := sn_included s @ [e]\<rparr>"] show ?thesis by (auto split: if_splits)
  next
    case False
    with Cons.prems have "ev_run_id e = sn_run_id s" "select_events w (exclude_event w e s) es = Inr s'" by (auto split: if_splits)
    with Cons.IH [of "exclude_event w e s"] False exclude_event_fields [of w e s] show ?thesis by simp
  qed
qed

lemma select_events_total:
  "\<forall>e \<in> set events. ev_run_id e = sn_run_id s \<Longrightarrow> \<exists>s'. select_events w s events = Inr s'"
  by (induction events arbitrary: s) auto

lemma selection_ok:
  "select_s0_replay_events events run_id w = Inr s \<Longrightarrow> sn_run_id s = run_id \<and> sn_included s = filter (inside w) events
     \<and> (\<forall>e \<in> set events. ev_run_id e = run_id) \<and> \<not> blank run_id
     \<and> length (sn_included s) + sn_before s + sn_after s = length events"
proof -
  assume s: "select_s0_replay_events events run_id w = Inr s"
  have "length (filter (inside w) events) + length (filter (\<lambda>e. \<not> inside w e) events) = length events"
    by (rule sum_length_filter_compl)
  moreover have "\<not> blank run_id" "select_events w \<lparr>sn_run_id = run_id, sn_included = [], sn_before = 0, sn_after = 0, sn_min = None, sn_max = None\<rparr> events = Inr s"
    using s by (simp_all add: select_s0_replay_events_def validity)
  ultimately show ?thesis using select_events_ok by fastforce
qed

lemma unexpected_hosts_iff: "unexpected_hosts events ids = [] \<longleftrightarrow> ev_host_id ` set events \<subseteq> set ids"
proof -
  have "set (unexpected_hosts events ids) = ev_host_id ` set events - set ids" by (auto simp: unexpected_hosts_def)
  then show ?thesis by (metis Diff_eq_empty_iff set_empty)
qed

text \<open>The Evidence of the covered window in replay order.\<close>

definition window_evidences :: "s0_namer \<Rightarrow> (string \<Rightarrow> ip_literal option) \<Rightarrow> s0_replay_window \<Rightarrow> normalized_event list \<Rightarrow> evidence list" where
  "window_evidences evn v6 w events =
     concat (map (\<lambda>e. projr (extract_evidence evn v6 e)) (sort_key event_order (filter (inside w) events)))"

lemma extracted:
  assumes "event_ok event_types e"
  shows "extract_evidence evn v6 e = Inr (projr (extract_evidence evn v6 e))"
    "set (projr (extract_evidence evn v6 e)) = s0_rules evn v6 e" "length (projr (extract_evidence evn v6 e)) \<le> 1"
proof -
  obtain evs where "extract_evidence evn v6 e = Inr evs" "set evs = s0_rules evn v6 e" "length evs \<le> 1"
    using extract_evidence_rules [OF assms] by blast
  then show "extract_evidence evn v6 e = Inr (projr (extract_evidence evn v6 e))"
    "set (projr (extract_evidence evn v6 e)) = s0_rules evn v6 e" "length (projr (extract_evidence evn v6 e)) \<le> 1" by simp_all
qed

lemma extract_valid_events:
  assumes "\<forall>e \<in> set events. event_ok event_types e"
  shows "map_result (extract_evidence evn v6) events = Inr (map (\<lambda>e. projr (extract_evidence evn v6 e)) events)"
  by (rule map_result_total) (rule extracted(1), use assms in blast)

lemma window_evidences_set:
  assumes "\<forall>e \<in> set events. event_ok event_types e"
  shows "set (window_evidences evn v6 w events) = (\<Union>e \<in> {e \<in> set events. inside w e}. s0_rules evn v6 e)"
proof -
  have "set (projr (extract_evidence evn v6 e)) = s0_rules evn v6 e" if "e \<in> set events" for e
    using extracted(2) assms that by blast
  then show ?thesis by (auto simp: window_evidences_def)
qed

lemma sorted_concat_keys:
  assumes "sorted (map f es)" "\<forall>e \<in> set es. length (g e) \<le> (1 :: nat) \<and> (\<forall>v \<in> set (g e). h v = f e)"
  shows "sorted (map h (concat (map g es)))"
  using assms
proof (induction es)
  case (Cons e es)
  have "sorted (map h (g e))" using Cons.prems(2) by (cases "g e") auto
  moreover have "h v = f e" if "v \<in> set (g e)" for v using Cons.prems(2) that by simp
  moreover have "f e \<le> h v" if v: "e' \<in> set es" "v \<in> set (g e')" for e' v
  proof -
    have "f e \<le> f e'" using Cons.prems(1) v(1) by simp
    then show ?thesis using Cons.prems(2) v by simp
  qed
  ultimately show ?case using Cons by (auto simp: sorted_append)
qed simp

lemma window_evidences_sorted:
  assumes ok: "\<forall>e \<in> set events. event_ok event_types e"
  shows "sorted (map evd_at (window_evidences evn v6 w events))"
  unfolding window_evidences_def
proof (rule sorted_concat_keys)
  have "sorted (map event_order (sort_key event_order (filter (inside w) events)))" by simp
  then have "sorted (map fst (map event_order (sort_key event_order (filter (inside w) events))))"
    by (simp only: sorted_map sorted_wrt_map) (erule sorted_wrt_mono_rel [rotated], auto simp: less_eq_prod_def)
  then show "sorted (map (\<lambda>e. instant (ev_timestamp e)) (sort_key event_order (filter (inside w) events)))"
    by (simp add: event_order_def comp_def)
  show "\<forall>e \<in> set (sort_key event_order (filter (inside w) events)). length (projr (extract_evidence evn v6 e)) \<le> 1
      \<and> (\<forall>v \<in> set (projr (extract_evidence evn v6 e)). evd_at v = instant (ev_timestamp e))"
  proof
    fix e assume "e \<in> set (sort_key event_order (filter (inside w) events))"
    then have "event_ok event_types e" using ok by simp
    note ex = extracted(2,3) [OF this, of evn v6]
    show "length (projr (extract_evidence evn v6 e)) \<le> 1 \<and> (\<forall>v \<in> set (projr (extract_evidence evn v6 e)). evd_at v = instant (ev_timestamp e))"
      unfolding ex(1) using ex(2) s0_rules_fields(2) by auto
  qed
qed

section \<open>A covered run\<close>

text \<open>The Evidence of one host, and what the Fusion result of the host says about it.\<close>

definition host_evidences :: "s0_namer \<Rightarrow> (string \<Rightarrow> ip_literal option) \<Rightarrow> s0_replay_window \<Rightarrow> normalized_event list \<Rightarrow> string \<Rightarrow> evidence list" where
  "host_evidences evn v6 w events i = filter (\<lambda>v. evd_entity_id v = i) (window_evidences evn v6 w events)"

definition detects_first :: "temporal_replay_runner \<Rightarrow> evidence list \<Rightarrow> run_request \<Rightarrow> datetime \<Rightarrow> fusion_result \<Rightarrow> bool" where
  "detects_first r es rq replay_end fr \<longleftrightarrow> fusion_contract fr \<and> fr_status fr \<noteq> NotEvaluated
     \<and> (let traj = trajectory_over r (pipeline_points r rq (Some replay_end)) (event_time_active r es)
        in case fr_time fr of None \<Rightarrow> never_fires (rn_stopping_policy r) traj
         | Some t \<Rightarrow> (\<exists>sc. fr_score fr = Some sc \<and> first_detection (rn_stopping_policy r) traj t sc
             \<and> fr_evidence_ids fr = contributing_evidence_ids (rn_scorer r) (event_time_active r es t)))"

lemma config_pipeline_exact:
  assumes v: "config_ok nan_ok managed c" "vc_threshold_on c \<noteq> NaN" "vc_threshold_off c \<noteq> NaN" "vc_step_size c \<le> 1000000000"
    and build: "build_runner c = Inr r"
    and rq: "request_wf rq" "rq_run_id rq \<noteq> []" "boundary_wf rq (Some d)" "aligned (rn_step_size r) rq (Some d)"
      "evidences_wf rq d es" "ms_aligned (rq_run_start rq)"
  shows "\<exists>pl. run_fusion_pipeline_from_config c es rq (Some d) = Inr pl \<and> detects_first r es rq d (pl_fusion pl)
    \<and> fr_run_id (pl_fusion pl) = rq_run_id rq \<and> fr_entity_id (pl_fusion pl) = rq_entity_id rq
    \<and> map tp_timestamp (tr_points (pl_trace pl)) = pipeline_points r rq (Some d)"
proof -
  have r: "runner_wf r" "timedelta_seconds (vc_step_size c) = Some (rn_step_size r)"
    using build_runner_ok [OF v(1-3)] build by auto
  have end_at: "effective_end rq (Some d) = d" by (simp add: effective_end_def)
  obtain pl where pl: "run_fusion_pipeline_from_config c es rq (Some d) = Inr pl"
    using config_pipeline_total [OF v r(2) rq(1-4) _ rq(6)] rq(5) end_at by auto
  then obtain r' where run: "run_fusion_pipeline r es rq (Some d) (vc_metadata c) = Inr (pl, r')"
    using build by (auto simp: run_fusion_pipeline_from_config_def)
  have ok: "pipeline_input_ok r es rq (Some d) (vc_metadata c)"
    using r rq v(1) end_at by (simp add: pipeline_input_ok_def config_ok_def)
  obtain res w' fr where parts: "run r es rq (Some d) = Inr (res, r\<lparr>rn_window_engine := w'\<rparr>)"
      "build_fusion_result res (rq_run_id rq) (rq_entity_id rq) (vc_metadata c) = Inr fr"
      "fr_run_id fr = rq_run_id rq" "fr_entity_id fr = rq_entity_id rq"
    using pipeline_parts [OF ok] by blast
  have "pl_fusion pl = fr" using run parts(1,2) by (auto simp: run_fusion_pipeline_def)
  with parts(3,4) have ids: "fr_run_id (pl_fusion pl) = rq_run_id rq" "fr_entity_id (pl_fusion pl) = rq_entity_id rq" by simp_all
  show ?thesis
    using run_fusion_pipeline_result [OF ok run] pl ids by (auto simp: detects_first_def Let_def)
qed

lemma host_evidences_wf:
  assumes ok: "\<forall>e \<in> set events. event_ok event_types e" and run: "\<forall>e \<in> set events. ev_run_id e = run_id"
  shows "evidences_wf (host_request run_id w i) (rw_end w) (host_evidences evn v6 w events i)"
proof -
  have "sorted (map evd_at (host_evidences evn v6 w events i))"
    unfolding host_evidences_def by (rule sorted_filter) (rule window_evidences_sorted [OF ok])
  moreover have "is_utc (evd_timestamp v) \<and> evidence_key v = (run_id, i) \<and> instant (rw_start w) \<le> evd_at v \<and> evd_at v \<le> instant (rw_end w)"
    if v: "v \<in> set (host_evidences evn v6 w events i)" for v
  proof -
    obtain e where e: "e \<in> set events" "inside w e" "v \<in> s0_rules evn v6 e" "evd_entity_id v = i"
      using v window_evidences_set [OF ok] by (auto simp: host_evidences_def)
    note f = s0_rules_fields [OF e(3)]
    have "is_utc (ev_timestamp e)" using ok e(1) timestamp_source_ok [of e] by (auto simp: event_ok_def)
    with e f run show ?thesis by (simp add: inside_def evidence_key_def)
  qed
  ultimately show ?thesis by (simp add: evidences_wf_def host_request_def)
qed

definition s0_input_ok :: "string set \<Rightarrow> normalized_event list \<Rightarrow> string \<Rightarrow> string list \<Rightarrow> bool" where
  "s0_input_ok event_types events run_id expected \<longleftrightarrow> \<not> blank run_id \<and> unpadded run_id
     \<and> expected \<noteq> [] \<and> distinct expected \<and> (\<forall>i \<in> set expected. \<not> blank i \<and> unpadded i)
     \<and> (\<forall>e \<in> set events. event_ok event_types e \<and> ev_run_id e = run_id \<and> ev_host_id e \<in> set expected)"

definition s0_window :: "datetime \<Rightarrow> datetime \<Rightarrow> s0_replay_window" where
  "s0_window start_time end_time = \<lparr>rw_start = start_time, rw_end = add_delta start_time s0_replay_duration, rw_observed_end = end_time\<rparr>"

lemma s0_prefix:
  assumes input: "s0_input_ok event_types events run_id expected" and step: "validate_replay_step c = Inr ()"
    and t: "is_utc start_time" "is_utc end_time" "instant start_time \<le> instant end_time"
  obtains s where "select_s0_replay_events events run_id (s0_window start_time end_time) = Inr s"
    "sn_run_id s = run_id" "sn_included s = filter (inside (s0_window start_time end_time)) events"
    "derive_s0_replay_window start_time end_time = Inr (s0_window start_time end_time)"
    "validate_expected_entity_ids expected = Inr (sort expected)" "unexpected_hosts events (sort expected) = []"
proof -
  obtain s where s: "select_s0_replay_events events run_id (s0_window start_time end_time) = Inr s"
    using input select_events_total [of events "\<lparr>sn_run_id = run_id, sn_included = [], sn_before = 0, sn_after = 0, sn_min = None, sn_max = None\<rparr>"
        "s0_window start_time end_time"]
    by (auto simp: select_s0_replay_events_def s0_input_ok_def validity)
  show thesis
    by (rule that [OF s]) (use selection_ok [OF s] input t in \<open>auto simp: s0_input_ok_def validity s0_window_def unexpected_hosts_iff\<close>)
qed

lemma s0_runtime_covered:
  assumes input: "s0_input_ok event_types events run_id expected" and step: "validate_replay_step c = Inr ()"
    and v: "config_ok nan_ok managed c" "vc_threshold_on c \<noteq> NaN" "vc_threshold_off c \<noteq> NaN" "vc_step_size c \<le> 1000000000"
    and build: "build_runner c = Inr r"
    and t: "is_utc start_time" "ms_aligned start_time" "is_utc end_time" "instant start_time + s0_replay_duration \<le> instant end_time"
  defines "w \<equiv> s0_window start_time end_time"
  shows "\<exists>res. run_s0_runtime_fusion evn v6 c events run_id start_time end_time expected = Inr res
    \<and> sr_not_evaluated_reason res = None \<and> sr_window res = w
    \<and> list_all2 (\<lambda>i fr. fr_run_id fr = run_id \<and> fr_entity_id fr = i
        \<and> detects_first r (host_evidences evn v6 w events i) (host_request run_id w i) (rw_end w) fr) (sort expected) (sr_fusion_results res)
    \<and> list_all2 (\<lambda>i tr. map tp_timestamp (tr_points tr) = pipeline_points r (host_request run_id w i) (Some (rw_end w)))
        (sort expected) (sr_stopping_traces res)"
proof -
  have order: "instant start_time \<le> instant end_time" using t(4) by (simp add: s0_replay_duration_def)
  obtain s where s: "select_s0_replay_events events run_id w = Inr s" "sn_run_id s = run_id" "sn_included s = filter (inside w) events"
    "derive_s0_replay_window start_time end_time = Inr w" "validate_expected_entity_ids expected = Inr (sort expected)"
    "unexpected_hosts events (sort expected) = []"
    unfolding w_def by (rule s0_prefix [OF input step t(1,3) order])
  have ok: "\<forall>e \<in> set events. event_ok event_types e" "\<forall>e \<in> set events. ev_run_id e = run_id"
    and ids: "\<not> blank run_id" "\<forall>i \<in> set expected. \<not> blank i"
    using input by (auto simp: s0_input_ok_def)
  have covered: "is_covered w" using t(4) by (simp add: is_covered_def w_def s0_window_def)
  have evs: "map_result (extract_evidence evn v6) (sort_key event_order (sn_included s))
      = Inr (map (\<lambda>e. projr (extract_evidence evn v6 e)) (sort_key event_order (filter (inside w) events)))"
    unfolding s(3) by (rule extract_valid_events [of _ event_types]) (use ok in simp)
  let ?pipe = "\<lambda>i. run_fusion_pipeline_from_config c (host_evidences evn v6 w events i) (host_request run_id w i) (Some (rw_end w))"
  have step_at: "timedelta_seconds (vc_step_size c) = Some (rn_step_size r)" using build_runner_ok [OF v(1-3)] build by auto
  then have divides: "s0_replay_duration mod rn_step_size r = 0" using step by (simp add: validate_replay_step_def duration_of_def)
  have one: "\<exists>pl. ?pipe i = Inr pl \<and> detects_first r (host_evidences evn v6 w events i) (host_request run_id w i) (rw_end w) (pl_fusion pl)
      \<and> fr_run_id (pl_fusion pl) = run_id \<and> fr_entity_id (pl_fusion pl) = i
      \<and> map tp_timestamp (tr_points (pl_trace pl)) = pipeline_points r (host_request run_id w i) (Some (rw_end w))" if i: "i \<in> set expected" for i
  proof -
    have "request_wf (host_request run_id w i)" "rq_run_id (host_request run_id w i) \<noteq> []" "boundary_wf (host_request run_id w i) (Some (rw_end w))"
      "aligned (rn_step_size r) (host_request run_id w i) (Some (rw_end w))" "ms_aligned (rq_run_start (host_request run_id w i))"
      using t order ids i divides
      by (auto simp: request_wf_def host_request_def boundary_wf_def aligned_def effective_end_def w_def s0_window_def s0_replay_duration_def)
    from config_pipeline_exact [OF v build this(1-4) host_evidences_wf [OF ok, where i = i and w = w] this(5)]
    show ?thesis by (simp add: host_request_def)
  qed
  define pls where "pls = map (\<lambda>i. projr (?pipe i)) (sort expected)"
  have pls: "map_result ?pipe (sort expected) = Inr pls"
    unfolding pls_def by (rule map_result_total) (use one in force)
  have "run_s0_runtime_fusion evn v6 c events run_id start_time end_time expected
      = Inr \<lparr>sr_run_id = run_id, sr_window = w, sr_selection = s, sr_not_evaluated_reason = None,
          sr_fusion_results = map pl_fusion pls, sr_stopping_traces = map pl_trace pls\<rparr>"
    using step s covered evs pls
    by (simp add: run_s0_runtime_fusion_def host_evidences_def window_evidences_def)
  moreover have "list_all2 (\<lambda>i pl. ?pipe i = Inr pl) (sort expected) pls" using pls by (simp only: map_result_ok)
  then have "list_all2 (\<lambda>i pl. detects_first r (host_evidences evn v6 w events i) (host_request run_id w i) (rw_end w) (pl_fusion pl)
      \<and> fr_run_id (pl_fusion pl) = run_id \<and> fr_entity_id (pl_fusion pl) = i
      \<and> map tp_timestamp (tr_points (pl_trace pl)) = pipeline_points r (host_request run_id w i) (Some (rw_end w))) (sort expected) pls"
    by (rule list.rel_mono_strong) (use one in force)
  ultimately show ?thesis by (auto simp: list.rel_map elim: list.rel_mono_strong)
qed

text \<open>A run observed for less than the replay duration is not evaluated, for every expected host.\<close>

lemma s0_runtime_uncovered:
  assumes input: "s0_input_ok event_types events run_id expected" and step: "validate_replay_step c = Inr ()"
    and md: "metadata_ok (vc_metadata c)"
    and t: "is_utc start_time" "is_utc end_time" "instant start_time \<le> instant end_time" "instant end_time < instant start_time + s0_replay_duration"
  shows "\<exists>res. run_s0_runtime_fusion evn v6 c events run_id start_time end_time expected = Inr res
    \<and> sr_not_evaluated_reason res = Some ''insufficient_observation''
    \<and> list_all2 (\<lambda>i fr. fr_run_id fr = run_id \<and> fr_entity_id fr = i \<and> fr_status fr = NotEvaluated \<and> fr_time fr = None) (sort expected) (sr_fusion_results res)
    \<and> list_all2 (\<lambda>i tr. tr_entity_id tr = i \<and> tr_points tr = []) (sort expected) (sr_stopping_traces res)"
proof -
  let ?w = "s0_window start_time end_time"
  obtain s where s: "select_s0_replay_events events run_id ?w = Inr s" "sn_run_id s = run_id" "sn_included s = filter (inside ?w) events"
    "derive_s0_replay_window start_time end_time = Inr ?w" "validate_expected_entity_ids expected = Inr (sort expected)"
    "unexpected_hosts events (sort expected) = []"
    by (rule s0_prefix [OF input step t(1-3)])
  have uncovered: "\<not> is_covered ?w" using t(4) by (simp add: is_covered_def s0_window_def)
  have ids: "run_id \<noteq> []" "\<forall>i \<in> set expected. i \<noteq> []" using input by (auto simp: s0_input_ok_def)
  let ?fr = "\<lambda>i. \<lparr>fr_run_id = run_id, fr_entity_id = i, fr_time = None, fr_status = NotEvaluated, fr_score = None, fr_evidence_ids = [],
      fr_config_version = fm_config_version (vc_metadata c), fr_profile_id = fm_profile_id (vc_metadata c),
      fr_model_version = fm_model_version (vc_metadata c), fr_scoring_method = fm_method (vc_metadata c),
      fr_scorer_version = fm_scorer_version (vc_metadata c), fr_episodes = []\<rparr>"
  let ?tr = "\<lambda>i. \<lparr>tr_run_id = run_id, tr_entity_id = i, tr_config_version = fm_config_version (vc_metadata c), tr_points = []\<rparr>"
  have "map_result (\<lambda>i. build_not_evaluated_fusion_result run_id i (vc_metadata c)) (sort expected) = Inr (map ?fr (sort expected))"
    by (rule map_result_total) (use ids md in \<open>simp add: build_not_evaluated_fusion_result_def validity metadata_ok_def fusion_contract_def metadata_nonempty_def\<close>)
  moreover have "map_result (\<lambda>i. validate_stopping_trace (?tr i)) (sort expected) = Inr (map ?tr (sort expected))"
    by (rule map_result_total) (use ids md in \<open>simp add: validity metadata_ok_def\<close>)
  ultimately have "run_s0_runtime_fusion evn v6 c events run_id start_time end_time expected
      = Inr \<lparr>sr_run_id = run_id, sr_window = ?w, sr_selection = s, sr_not_evaluated_reason = Some ''insufficient_observation'',
          sr_fusion_results = map ?fr (sort expected), sr_stopping_traces = map ?tr (sort expected)\<rparr>"
    using step s uncovered by (simp add: run_s0_runtime_fusion_def)
  then show ?thesis by (simp add: list.rel_map list.rel_refl)
qed

end
