(* ===== verification/DecisionStore.thy ===== *)
theory DecisionStore
  imports FastHandoff S0Replay
begin

text \<open>
  What the First Cycle stores: the snapshot of the run time (\<open>common/models/runtime_snapshot.py\<close>), the
  repositories over the tables (\<open>storage/repositories/\<close>) and \<open>pipeline/persistence.py\<close>, which saves
  the results of one run in one transaction and keeps the decisions of a scope in a chain.

  A table is a partial map from its primary key, the decisions are a list in the order of insertion.
  A row holds the model its JSON column stores; a \<open>get\<close> validates it again. A connection is the
  committed state and the state its transaction sees. The constraints that repeat the validators in
  SQL and the advisory locks, which serialise the transactions of one scope, are not modelled.
\<close>

section \<open>The snapshot of the run time\<close>

record decision_snapshot =
  ds_decision_id :: string
  ds_run_id :: string
  ds_entity_id :: string
  ds_detection :: detection_result
  ds_fusion :: fusion_result
  ds_trace :: stopping_trace
  ds_config :: "runtime_config_snapshot option"

definition validate_trace_presence :: "fusion_result \<Rightarrow> stopping_trace \<Rightarrow> unit result" where
  "validate_trace_presence f t =
     (if fr_status f = NotEvaluated
      then raise_if (tr_points t \<noteq> []) (ValueError ''not_evaluated FusionResult requires an empty FusionStoppingTrace'')
      else raise_if (tr_points t = []) (ValueError ''FusionResult requires a non-empty FusionStoppingTrace''))"

definition validate_config_binding :: "runtime_config_snapshot \<Rightarrow> fusion_result \<Rightarrow> stopping_trace \<Rightarrow> unit result" where
  "validate_config_binding c f t = (let md = vc_metadata (cs_config c) in raise_first
     [(fm_config_version md \<noteq> fr_config_version f, ValueError ''config_version must match FusionResult scoring_config_version''),
      (fm_config_version md \<noteq> tr_config_version t, ValueError ''config_version must match FusionStoppingTrace scoring_config_version''),
      (fm_profile_id md \<noteq> fr_profile_id f, ValueError ''scoring profile_id must match FusionResult scoring_profile_id''),
      (fm_method md \<noteq> fr_scoring_method f, ValueError ''scoring method must match FusionResult scoring_method''),
      (fm_scorer_version md \<noteq> fr_scorer_version f, ValueError ''scoring scorer_version must match FusionResult scorer_version''),
      (fm_model_version md \<noteq> fr_model_version f, ValueError ''model_version must match FusionResult model_version'')])"

definition validate_runtime_contracts :: "decision_snapshot \<Rightarrow> unit result" where
  "validate_runtime_contracts s =
     seq (raise_first
       [(dr_run_id (ds_detection s) \<noteq> ds_run_id s, ValueError ''DetectionResult run_id must match DecisionRuntimeSnapshot run_id''),
        (fr_run_id (ds_fusion s) \<noteq> ds_run_id s, ValueError ''FusionResult run_id must match DecisionRuntimeSnapshot run_id''),
        (tr_run_id (ds_trace s) \<noteq> ds_run_id s, ValueError ''FusionStoppingTrace run_id must match DecisionRuntimeSnapshot run_id''),
        (dr_entity_id (ds_detection s) \<noteq> ds_entity_id s, ValueError ''DetectionResult entity_id must match DecisionRuntimeSnapshot entity_id''),
        (fr_entity_id (ds_fusion s) \<noteq> ds_entity_id s, ValueError ''FusionResult entity_id must match DecisionRuntimeSnapshot entity_id''),
        (tr_entity_id (ds_trace s) \<noteq> ds_entity_id s, ValueError ''FusionStoppingTrace entity_id must match DecisionRuntimeSnapshot entity_id''),
        (tr_config_version (ds_trace s) \<noteq> fr_config_version (ds_fusion s),
           ValueError ''FusionStoppingTrace scoring_config_version must match FusionResult scoring_config_version'')])
     (seq (validate_trace_presence (ds_fusion s) (ds_trace s))
     (case ds_config s of None \<Rightarrow> Inr () | Some c \<Rightarrow>
       seq (raise_first
         [(cs_run_id c \<noteq> ds_run_id s, ValueError ''FusionRuntimeConfigSnapshot run_id must match DecisionRuntimeSnapshot run_id''),
          (cs_entity_id c \<noteq> ds_entity_id s, ValueError ''FusionRuntimeConfigSnapshot entity_id must match DecisionRuntimeSnapshot entity_id'')])
       (validate_config_binding c (ds_fusion s) (ds_trace s))))"

definition validate_decision_snapshot :: "decision_snapshot \<Rightarrow> decision_snapshot result" where
  "validate_decision_snapshot s =
     seq (raise_first
       [(ds_decision_id s = [], ValueError ''string_too_short''), (ds_run_id s = [], ValueError ''string_too_short''),
        (ds_entity_id s = [], ValueError ''string_too_short'')])
     (seq (validate_runtime_contracts s) (Inr s))"

definition build_decision_runtime_snapshot :: "decision_result \<Rightarrow> detection_result \<Rightarrow> fusion_result \<Rightarrow> stopping_trace
    \<Rightarrow> runtime_config_snapshot \<Rightarrow> decision_snapshot result" where
  "build_decision_runtime_snapshot d detection f t c =
     seq (raise_first
       [(dc_fast_status d \<noteq> dr_status detection, ValueError ''DecisionResult fast_status must match DetectionResult detector_status''),
        (\<not> same_time (dc_detector_time d) (dr_time detection), ValueError ''DecisionResult detector_time must match DetectionResult detector_time''),
        (dc_fusion_status d \<noteq> fr_status f, ValueError ''DecisionResult fusion_status must match FusionResult fusion_status''),
        (\<not> same_time (dc_fusion_time d) (fr_time f), ValueError ''DecisionResult fusion_time must match FusionResult fusion_time'')])
     (validate_decision_snapshot
       \<lparr>ds_decision_id = dc_decision_id d, ds_run_id = dc_run_id d, ds_entity_id = dc_entity_id d, ds_detection = detection,
        ds_fusion = f, ds_trace = t, ds_config = Some c\<rparr>)"

section \<open>The tables\<close>

type_synonym scope = "string \<times> string"

record store =
  st_runs :: "string \<rightharpoonup> run_metadata"
  st_events :: "string \<rightharpoonup> normalized_event"
  st_fusion :: "scope \<rightharpoonup> fusion_result"
  st_traces :: "scope \<rightharpoonup> stopping_trace"
  st_configs :: "scope \<rightharpoonup> runtime_config_snapshot"
  st_detections :: "scope \<rightharpoonup> detection_result"
  st_decisions :: "decision_result list"
  st_snapshots :: "decision_snapshot list"

definition empty_store :: store where
  "empty_store = \<lparr>st_runs = (\<lambda>_. None), st_events = (\<lambda>_. None), st_fusion = (\<lambda>_. None), st_traces = (\<lambda>_. None),
     st_configs = (\<lambda>_. None), st_detections = (\<lambda>_. None), st_decisions = [], st_snapshots = []\<rparr>"

definition save_run :: "run_metadata \<Rightarrow> store \<Rightarrow> store" where
  "save_run r st = st\<lparr>st_runs := (st_runs st)(rm_run_id r \<mapsto> r)\<rparr>"

definition get_run :: "string \<Rightarrow> store \<Rightarrow> run_metadata option result" where
  "get_run run_id st = (case st_runs st run_id of None \<Rightarrow> Inr None | Some r \<Rightarrow> bnd (validate_run_metadata r) (\<lambda>r. Inr (Some r)))"

definition save_event :: "normalized_event \<Rightarrow> store \<Rightarrow> store" where
  "save_event e st = st\<lparr>st_events := (st_events st)(ev_event_id e \<mapsto> e)\<rparr>"

definition get_event :: "string set \<Rightarrow> string \<Rightarrow> store \<Rightarrow> normalized_event option result" where
  "get_event event_types i st = (case st_events st i of None \<Rightarrow> Inr None | Some e \<Rightarrow> bnd (validate_event event_types e) (\<lambda>e. Inr (Some e)))"

definition save_fusion :: "fusion_result \<Rightarrow> store \<Rightarrow> store" where
  "save_fusion f st = st\<lparr>st_fusion := (st_fusion st)((fr_run_id f, fr_entity_id f) \<mapsto> f)\<rparr>"

definition save_trace :: "stopping_trace \<Rightarrow> store \<Rightarrow> store" where
  "save_trace t st = st\<lparr>st_traces := (st_traces st)((tr_run_id t, tr_entity_id t) \<mapsto> t)\<rparr>"

definition save_config :: "runtime_config_snapshot \<Rightarrow> store \<Rightarrow> store" where
  "save_config c st = st\<lparr>st_configs := (st_configs st)((cs_run_id c, cs_entity_id c) \<mapsto> c)\<rparr>"

definition save_detection :: "detection_result \<Rightarrow> store \<Rightarrow> store" where
  "save_detection d st = st\<lparr>st_detections := (st_detections st)((dr_run_id d, dr_entity_id d) \<mapsto> d)\<rparr>"

definition get_fusion :: "scope \<Rightarrow> store \<Rightarrow> fusion_result option result" where
  "get_fusion sc st = (case st_fusion st sc of None \<Rightarrow> Inr None | Some f \<Rightarrow> bnd (validate_fusion_result f) (\<lambda>f. Inr (Some f)))"

definition get_trace :: "scope \<Rightarrow> store \<Rightarrow> stopping_trace option result" where
  "get_trace sc st = (case st_traces st sc of None \<Rightarrow> Inr None | Some t \<Rightarrow> bnd (validate_stopping_trace t) (\<lambda>t. Inr (Some t)))"

definition get_config :: "bool \<Rightarrow> scope \<Rightarrow> store \<Rightarrow> runtime_config_snapshot option result" where
  "get_config nan_ok sc st = (case st_configs st sc of None \<Rightarrow> Inr None
     | Some c \<Rightarrow> bnd (build_fusion_runtime_config_snapshot nan_ok (cs_config c) (cs_run_id c) (cs_entity_id c)) (\<lambda>c. Inr (Some c)))"

definition get_detection :: "scope \<Rightarrow> store \<Rightarrow> detection_result option result" where
  "get_detection sc st = (case st_detections st sc of None \<Rightarrow> Inr None | Some d \<Rightarrow> bnd (validate_detection_result d) (\<lambda>d. Inr (Some d)))"

text \<open>The two tables joined: whether the run exists, and its Event.\<close>

definition get_event_by_run :: "string set \<Rightarrow> string \<Rightarrow> string \<Rightarrow> store \<Rightarrow> (bool \<times> normalized_event option) result" where
  "get_event_by_run event_types run_id i st = (case st_runs st run_id of
     None \<Rightarrow> Inr (False, None)
   | Some _ \<Rightarrow> (case st_events st i of
       None \<Rightarrow> Inr (True, None)
     | Some e \<Rightarrow> if ev_run_id e \<noteq> run_id then Inr (True, None) else bnd (validate_event event_types e) (\<lambda>e. Inr (True, Some e))))"

text \<open>An \<open>INSERT\<close> without \<open>ON CONFLICT\<close>: the primary key refuses a second row.\<close>

definition save_decision :: "decision_result \<Rightarrow> store \<Rightarrow> store result" where
  "save_decision d st = (if dc_decision_id d \<in> dc_decision_id ` set (st_decisions st) then Inl (RuntimeError ''UniqueViolation'')
     else Inr (st\<lparr>st_decisions := st_decisions st @ [d]\<rparr>))"

definition save_snapshot :: "decision_snapshot \<Rightarrow> store \<Rightarrow> store result" where
  "save_snapshot s st =
     (if ds_decision_id s \<in> ds_decision_id ` set (st_snapshots st) then Inl (RuntimeError ''UniqueViolation'')
      else if (ds_decision_id s, ds_run_id s, ds_entity_id s) \<notin> (\<lambda>d. (dc_decision_id d, dc_run_id d, dc_entity_id d)) ` set (st_decisions st)
        then Inl (RuntimeError ''ForeignKeyViolation'')
      else Inr (st\<lparr>st_snapshots := st_snapshots st @ [s]\<rparr>))"

definition decision_by_id :: "string \<Rightarrow> decision_result list \<Rightarrow> decision_result option" where
  "decision_by_id i ds = find (\<lambda>d. dc_decision_id d = i) ds"

definition get_decision :: "string \<Rightarrow> store \<Rightarrow> decision_result option result" where
  "get_decision i st = (case decision_by_id i (st_decisions st) of
     None \<Rightarrow> Inr None | Some d \<Rightarrow> bnd (validate_decision_result d) (\<lambda>d. Inr (Some d)))"

definition in_scope :: "scope \<Rightarrow> decision_result \<Rightarrow> bool" where
  "in_scope sc d = ((dc_run_id d, dc_entity_id d) = sc)"

definition list_by_scope :: "scope \<Rightarrow> store \<Rightarrow> decision_result list result" where
  "list_by_scope sc st = map_result validate_decision_result (filter (in_scope sc) (st_decisions st))"

definition current_heads :: "decision_result list \<Rightarrow> decision_result list" where
  "current_heads ds = filter (\<lambda>d. Some (dc_decision_id d) \<notin> dc_supersedes ` set ds) ds"

definition get_current_head :: "scope \<Rightarrow> store \<Rightarrow> decision_result option result" where
  "get_current_head sc st = (let ds = filter (in_scope sc) (st_decisions st) in
     case take 2 (current_heads ds) of
       [] \<Rightarrow> if ds = [] then Inr None else Inl (RuntimeError ''no current Decision head'')
     | [d] \<Rightarrow> bnd (validate_decision_result d) (\<lambda>d. Inr (Some d))
     | _ \<Rightarrow> Inl (RuntimeError ''multiple current Decision heads''))"

definition get_with_decision :: "string \<Rightarrow> store \<Rightarrow> (decision_result \<times> decision_snapshot option) option result" where
  "get_with_decision i st = (case decision_by_id i (st_decisions st) of
     None \<Rightarrow> Inr None
   | Some d \<Rightarrow>
       let snap = find (\<lambda>s. (ds_decision_id s, ds_run_id s, ds_entity_id s) = (dc_decision_id d, dc_run_id d, dc_entity_id d)) (st_snapshots st) in
       bnd (validate_decision_result d) (\<lambda>d. case snap of
         None \<Rightarrow> Inr (Some (d, None)) | Some s \<Rightarrow> bnd (validate_decision_snapshot s) (\<lambda>s. Inr (Some (d, Some s)))))"

definition get_snapshot :: "string \<Rightarrow> store \<Rightarrow> decision_snapshot option result" where
  "get_snapshot i st = (case find (\<lambda>s. ds_decision_id s = i) (st_snapshots st) of
     None \<Rightarrow> Inr None | Some s \<Rightarrow> bnd (validate_decision_snapshot s) (\<lambda>s. Inr (Some s)))"

section \<open>Transactions\<close>

record connection =
  cx_autocommit :: bool
  cx_isolation :: "string option"
  cx_committed :: store
  cx_working :: store

definition commit :: "connection \<Rightarrow> connection" where
  "commit cx = cx\<lparr>cx_committed := cx_working cx\<rparr>"

definition rollback :: "connection \<Rightarrow> connection" where
  "rollback cx = cx\<lparr>cx_working := cx_committed cx\<rparr>"

definition validate_decision_transaction_contract :: "connection \<Rightarrow> unit result" where
  "validate_decision_transaction_contract cx = raise_first
     [(cx_autocommit cx, RuntimeError ''Decision lifecycle requires autocommit disabled''),
      (case cx_isolation cx of None \<Rightarrow> True
         | Some s \<Rightarrow> map (\<lambda>c. if c = CHR ''_'' then CHR '' '' else c) (map lower_char s) \<noteq> ''read committed'',
       RuntimeError ''Decision lifecycle requires READ COMMITTED isolation'')]"

definition validate_existing_decision_scope :: "decision_result \<Rightarrow> scope \<Rightarrow> unit result" where
  "validate_existing_decision_scope existing sc =
     raise_if (\<not> in_scope sc existing) (RuntimeError ''decision_id already exists in a different scope'')"

text \<open>The head a candidate expects: before the Hybrid step, in the view of the transaction.\<close>

definition expected_supersedes :: "string \<Rightarrow> scope \<Rightarrow> store \<Rightarrow> string option result" where
  "expected_supersedes decision_id sc st =
     bnd (get_decision decision_id st) (\<lambda>existing. case existing of
       Some d \<Rightarrow> seq (validate_existing_decision_scope d sc) (Inr (dc_supersedes d))
     | None \<Rightarrow> bnd (get_current_head sc st) (\<lambda>head. Inr (map_option dc_decision_id head)))"

definition resolve_expected_supersedes_decision_id :: "string \<Rightarrow> scope \<Rightarrow> connection \<Rightarrow> string option result \<times> connection" where
  "resolve_expected_supersedes_decision_id decision_id sc cx =
     (case seq (validate_decision_transaction_contract cx) (expected_supersedes decision_id sc (cx_working cx)) of
        Inl e \<Rightarrow> (Inl e, rollback cx) | Inr v \<Rightarrow> (Inr v, cx))"

section \<open>Saving the results of a run\<close>

record result_set =
  rs_run :: run_metadata
  rs_events :: "normalized_event list"
  rs_fusion :: fusion_result
  rs_trace :: stopping_trace
  rs_config :: runtime_config_snapshot
  rs_detection :: detection_result
  rs_decision :: decision_result

definition validate_result_scope :: "result_set \<Rightarrow> unit result" where
  "validate_result_scope rs = (let run_id = rm_run_id (rs_run rs); target_host = rm_target_host (rs_run rs);
       runs = [fr_run_id (rs_fusion rs), tr_run_id (rs_trace rs), cs_run_id (rs_config rs), dr_run_id (rs_detection rs), dc_run_id (rs_decision rs)];
       entities = [fr_entity_id (rs_fusion rs), tr_entity_id (rs_trace rs), cs_entity_id (rs_config rs), dr_entity_id (rs_detection rs),
         dc_entity_id (rs_decision rs)] in
     seq (raise_first
       [(\<exists>e \<in> set (rs_events rs). ev_run_id e \<noteq> run_id, ValueError ''NormalizedEvent run_id must match RunMetadata before persistence''),
        (\<exists>e \<in> set (rs_events rs). ev_host_id e \<noteq> target_host, ValueError ''NormalizedEvent host_id must match RunMetadata target_host''),
        (\<exists>r \<in> set runs. r \<noteq> run_id, ValueError ''result run_id must match RunMetadata before persistence''),
        (\<exists>i \<in> set entities. i \<noteq> target_host, ValueError ''result entity_id must match RunMetadata target_host''),
        (card (set entities) \<noteq> 1, ValueError ''Fusion Runtime, Detection, and Decision results must share one entity_id''),
        (tr_config_version (rs_trace rs) \<noteq> fr_config_version (rs_fusion rs),
           ValueError ''FusionStoppingTrace scoring_config_version must match FusionResult before persistence'')])
     (seq (validate_config_binding (rs_config rs) (rs_fusion rs) (rs_trace rs))
     (validate_trace_presence (rs_fusion rs) (rs_trace rs))))"

definition decision_scope :: "decision_result \<Rightarrow> scope" where
  "decision_scope d = (dc_run_id d, dc_entity_id d)"

text \<open>The statements of \<open>_persist\<close> inside its transaction.\<close>

definition save_results :: "bool \<Rightarrow> result_set \<Rightarrow> store \<Rightarrow> store result" where
  "save_results with_run rs st = (let d = rs_decision rs; sc = decision_scope d in
     bnd (get_decision (dc_decision_id d) st) (\<lambda>existing. case existing of
       Some x \<Rightarrow> seq (validate_existing_decision_scope x sc)
         (if x = d then Inr st else Inl (RuntimeError ''decision_id already exists with different content''))
     | None \<Rightarrow>
         bnd (get_current_head sc st) (\<lambda>head.
         seq (raise_if (map_option dc_decision_id head \<noteq> dc_supersedes d) (RuntimeError ''current Decision head changed''))
         (bnd (build_decision_runtime_snapshot d (rs_detection rs) (rs_fusion rs) (rs_trace rs) (rs_config rs)) (\<lambda>snap.
         let st = (if with_run then save_run (rs_run rs) st else st);
             st = fold save_event (rs_events rs) st;
             st = save_detection (rs_detection rs) (save_config (rs_config rs) (save_trace (rs_trace rs) (save_fusion (rs_fusion rs) st)))
         in bnd (save_decision d st) (\<lambda>st. save_snapshot snap st))))))"

definition persist :: "bool \<Rightarrow> bool \<Rightarrow> result_set \<Rightarrow> connection \<Rightarrow> unit result \<times> connection" where
  "persist with_commit with_run rs cx = (case save_results with_run rs (cx_working cx) of
     Inl e \<Rightarrow> (Inl e, rollback cx)
   | Inr st \<Rightarrow> (Inr (), if with_commit then commit (cx\<lparr>cx_working := st\<rparr>) else cx\<lparr>cx_working := st\<rparr>))"

definition persist_s0_results :: "bool \<Rightarrow> result_set \<Rightarrow> connection \<Rightarrow> unit result \<times> connection" where
  "persist_s0_results with_commit rs cx = (case seq (validate_result_scope rs) (validate_decision_transaction_contract cx) of
     Inl e \<Rightarrow> (Inl e, rollback cx) | Inr u \<Rightarrow> persist with_commit True rs cx)"

definition require_registered_r1_run :: "run_metadata \<Rightarrow> store \<Rightarrow> unit result" where
  "require_registered_r1_run r st = bnd (get_run (rm_run_id r) st) (\<lambda>registered. case registered of
     None \<Rightarrow> Inl (ValueError ''R1 results require a Run registered by its owner'')
   | Some x \<Rightarrow> raise_if (rm_target_host x \<noteq> rm_target_host r \<or> instant (rm_start_time x) \<noteq> instant (rm_start_time r)
         \<or> \<not> same_time (rm_end_time x) (rm_end_time r))
       (ValueError ''registered Run host or bounds differ from the R1 input''))"

definition persist_r1_results :: "result_set \<Rightarrow> connection \<Rightarrow> unit result \<times> connection" where
  "persist_r1_results rs cx =
     (case seq (require_registered_r1_run (rs_run rs) (cx_working cx))
         (seq (validate_result_scope rs) (validate_decision_transaction_contract cx)) of
        Inl e \<Rightarrow> (Inl e, rollback cx) | Inr u \<Rightarrow> persist True False rs cx)"

end
