(* ===== verification/FirstCycle.thy ===== *)
theory FirstCycle
  imports DecisionStore
begin

text \<open>
  One First Cycle invocation: the inputs of \<open>pipeline/cli.py\<close>, the artifacts of
  \<open>pipeline/s0_artifacts.py\<close>, the Fast path of \<open>pipeline/fast.py\<close>, the Hybrid step of
  \<open>pipeline/hybrid.py\<close>, the summary of \<open>pipeline/reporting.py\<close> and the stages of
  \<open>pipeline/runner.py\<close>, which end in \<open>persist_s0_results\<close>.

  What a file holds is an input: \<open>None\<close> when it cannot be read or parsed, otherwise the fields its
  model names, not yet validated. The observers of the run time swallow every exception and change
  no result; they are left out.
\<close>

section \<open>Inputs\<close>

record input_files =
  fi_run_metadata :: "run_metadata option"
  fi_manifest :: "json option"
  fi_sysmon_name :: string
  fi_sysmon_sha :: "string option"
  fi_sysmon_lines :: "string list option"
  fi_fast :: fast_files
  fi_fast_hits :: "fast_hit list"
  fi_fast_trace :: fast_trace
  fi_fast_selection :: "fast_selection option"
  fi_fusion_config :: "fusion_config option"

record pipeline_inputs =
  in_entity_id :: string
  in_decision_id :: string
  in_decision_config_version :: string

definition validate_identifier :: "string \<Rightarrow> string \<Rightarrow> string result" where
  "validate_identifier v name = (if blank v \<or> \<not> unpadded v
     then Inl (ValueError (name @ '' must be a non-blank identifier without surrounding whitespace'')) else Inr v)"

text \<open>\<open>distinct\<close> and \<open>missing\<close>: whether the resolved paths differ, and which of them is no file.\<close>

definition parse_cli_args :: "bool \<Rightarrow> string list \<Rightarrow> string \<Rightarrow> string \<Rightarrow> string \<Rightarrow> pipeline_inputs result" where
  "parse_cli_args paths_distinct missing entity_id decision_id config_version =
     seq (raise_first
       [(\<not> paths_distinct, ValueError ''Pipeline input paths must be distinct''),
        (missing \<noteq> [], ValueError ''Pipeline input path must be an existing file'')])
     (bnd (validate_identifier entity_id ''entity_id'') (\<lambda>e.
     bnd (validate_identifier decision_id ''decision_id'') (\<lambda>d.
     bnd (validate_identifier config_version ''decision_config_version'') (\<lambda>v.
     Inr \<lparr>in_entity_id = e, in_decision_id = d, in_decision_config_version = v\<rparr>))))"

section \<open>Artifacts\<close>

definition evtx_filename :: string where
  "evtx_filename = ''sysmon-0001.evtx''"

definition jsonl_filename :: string where
  "jsonl_filename = ''sysmon-0001.jsonl''"

definition path_segments :: "string \<Rightarrow> string list" where
  "path_segments p = split_char (CHR ''/'') (map (\<lambda>c. if c = backslash then CHR ''/'' else c) p)"

definition manifest_artifact_name :: "json option \<Rightarrow> string \<Rightarrow> string result" where
  "manifest_artifact_name raw run_id = (case raw of
     Some (JStr p) \<Rightarrow>
       if blank p then Inl (ValueError ''path must be a non-empty string'')
       else let segments = path_segments p; name = last segments in
         seq (raise_first
           [(\<exists>s \<in> set segments. s = ''..'' \<or> s = ''.'', ValueError ''path must not contain relative segments''),
            (name = [], ValueError ''path must not end with a separator''),
            (name \<notin> {evtx_filename, jsonl_filename}, ValueError ''unexpected artifact file name''),
            (drop (length segments - 4) segments \<noteq> [''raw'', run_id, ''telemetry'', name], ValueError ''path must end with the tail of the run'')])
         (Inr name)
   | _ \<Rightarrow> Inl (ValueError ''path must be a non-empty string''))"

text \<open>The loop over the items: the JSONL candidates and the EVTX items, in order.\<close>

fun classify_items :: "string \<Rightarrow> json_dict list \<Rightarrow> json_dict list \<Rightarrow> json list \<Rightarrow> (json_dict list \<times> json_dict list) result" where
  "classify_items run_id candidates evtx [] = Inr (candidates, evtx)"
| "classify_items run_id candidates evtx (JObj item # items) =
     bnd (manifest_artifact_name (map_of item ''path'') run_id) (\<lambda>name.
       if name = jsonl_filename then classify_items run_id (candidates @ [item]) evtx items
       else if name = evtx_filename then classify_items run_id candidates (evtx @ [item]) items
       else classify_items run_id candidates evtx items)"
| "classify_items run_id candidates evtx (_ # items) = Inl (TypeError ''manifest items must be JSON objects'')"

definition is_sysmon_telemetry :: "json_dict \<Rightarrow> bool" where
  "is_sysmon_telemetry item \<longleftrightarrow> map_of item ''layer'' = Some (JStr ''raw_telemetry'') \<and> map_of item ''source'' = Some (JStr ''sysmon'')"

definition is_sha256 :: "json option \<Rightarrow> bool" where
  "is_sha256 v = (case v of Some (JStr s) \<Rightarrow> length s = 64 \<and> list_all (\<lambda>c. lower_char c \<in> set ''0123456789abcdef'') s | _ \<Rightarrow> False)"

definition raw_log_id_of :: "json_dict \<Rightarrow> string result" where
  "raw_log_id_of item = (case map_of item ''raw_log_id'' of
     Some (JStr s) \<Rightarrow> if blank s \<or> \<not> unpadded s then Inl (ValueError ''Sysmon JSONL manifest item must define a non-blank raw_log_id'') else Inr s
   | _ \<Rightarrow> Inl (ValueError ''Sysmon JSONL manifest item must define a non-blank raw_log_id''))"

definition parent_evtx :: "string \<Rightarrow> json_dict \<Rightarrow> json_dict list \<Rightarrow> json_dict result" where
  "parent_evtx run_id item evtx =
     bnd (manifest_artifact_name (map_of item ''derived_from'') run_id) (\<lambda>name.
     if name \<noteq> evtx_filename then Inl (ValueError ''Sysmon JSONL manifest item must derive from sysmon-0001.evtx'')
     else (case filter (\<lambda>p. map_of p ''path'' = map_of item ''derived_from'') evtx of
         [parent] \<Rightarrow> Inr parent
       | _ \<Rightarrow> Inl (ValueError ''Sysmon JSONL derived_from must resolve to exactly one EVTX manifest item'')))"

definition validate_sysmon_manifest_item :: "input_files \<Rightarrow> json_dict \<Rightarrow> string \<Rightarrow> (string \<times> string) result" where
  "validate_sysmon_manifest_item fi manifest run_id = (case map_of manifest ''items'' of
     Some (JList items) \<Rightarrow>
       bnd (classify_items run_id [] [] items) (\<lambda>(candidates, evtx). case candidates of
         [item] \<Rightarrow>
           seq (raise_first
             [(fi_sysmon_name fi \<noteq> jsonl_filename, ValueError ''sysmon_jsonl path must name sysmon-0001.jsonl''),
              (\<not> is_sysmon_telemetry item, ValueError ''Sysmon JSONL manifest item must be raw_telemetry from sysmon'')])
           (bnd (raw_log_id_of item) (\<lambda>raw_log_id.
           bnd (parent_evtx run_id item evtx) (\<lambda>parent.
           seq (raise_first
             [(\<not> is_sysmon_telemetry parent, ValueError ''Sysmon JSONL parent EVTX must be raw_telemetry from sysmon''),
              (\<not> is_sha256 (map_of item ''sha256''), ValueError ''Sysmon JSONL manifest item must define a SHA-256 value'')])
           (case fi_sysmon_sha fi of None \<Rightarrow> Inl (RuntimeError ''OSError'')
            | Some actual \<Rightarrow> (case map_of item ''sha256'' of
                Some (JStr expected) \<Rightarrow> if actual \<noteq> map lower_char expected
                  then Inl (ValueError ''Sysmon JSONL SHA-256 must match the manifest'') else Inr (raw_log_id, actual)
              | _ \<Rightarrow> Inl AssertionError)))))
       | _ \<Rightarrow> Inl (ValueError ''manifest must contain exactly one Sysmon JSONL item''))
   | _ \<Rightarrow> Inl (TypeError ''manifest items must be an array''))"

record s0_artifacts =
  sa_run_metadata :: run_metadata
  sa_records :: "sysmon_record list"
  sa_context :: normalization_context

definition read_run_metadata :: "input_files \<Rightarrow> run_metadata result" where
  "read_run_metadata fi = (case fi_run_metadata fi of
     None \<Rightarrow> Inl (ValueError ''run_metadata is not a valid RunMetadata artifact'')
   | Some rm \<Rightarrow> (case validate_run_metadata rm of
       Inl e \<Rightarrow> Inl (ValueError ''run_metadata is not a valid RunMetadata artifact'') | Inr rm \<Rightarrow> Inr rm))"

definition read_json_object :: "json option \<Rightarrow> json_dict result" where
  "read_json_object j = (case j of
     None \<Rightarrow> Inl (ValueError ''manifest is not valid JSON'')
   | Some (JObj d) \<Rightarrow> Inr d
   | Some _ \<Rightarrow> Inl (TypeError ''manifest must be a JSON object''))"

definition read_sysmon_records :: "(string \<Rightarrow> json option) \<Rightarrow> input_files \<Rightarrow> sysmon_record list result" where
  "read_sysmon_records loads fi = (case fi_sysmon_lines fi of
     None \<Rightarrow> Inl (ValueError ''Sysmon JSONL is not readable'')
   | Some ls \<Rightarrow> (case read_sysmon_jsonl loads ls of
       Inl e \<Rightarrow> Inl (ValueError ''Sysmon JSONL is not readable'')
     | Inr records \<Rightarrow> seq (raise_if (records = []) (ValueError ''Sysmon JSONL must contain at least one record'')) (Inr records)))"

definition load_s0_pipeline_artifacts :: "(string \<Rightarrow> json option) \<Rightarrow> input_files \<Rightarrow> s0_artifacts result" where
  "load_s0_pipeline_artifacts loads fi =
     bnd (read_run_metadata fi) (\<lambda>rm.
     bnd (read_json_object (fi_manifest fi)) (\<lambda>manifest.
     seq (raise_if (map_of manifest ''run_id'' \<noteq> Some (JStr (rm_run_id rm))) (ValueError ''manifest run_id must match run_metadata run_id''))
     (bnd (validate_sysmon_manifest_item fi manifest (rm_run_id rm)) (\<lambda>(raw_log_id, sha).
     bnd (read_sysmon_records loads fi) (\<lambda>records.
     Inr \<lparr>sa_run_metadata = rm, sa_records = records,
          sa_context = \<lparr>nc_run_id = rm_run_id rm, nc_raw_log_id = raw_log_id, nc_segment_no = 1\<rparr>\<rparr>)))))"

section \<open>The Fast path\<close>

definition direct_host_entity_mapper :: "string \<Rightarrow> string option" where
  "direct_host_entity_mapper host = Some host"

definition read_fast_detection_selection :: "input_files \<Rightarrow> fast_selection result" where
  "read_fast_detection_selection fi = (case fi_fast_selection fi of
     None \<Rightarrow> Inl (ValueError ''FastDetectionSelection is not valid'')
   | Some s \<Rightarrow> (case validate_fast_selection s of Inl e \<Rightarrow> Inl (ValueError ''FastDetectionSelection is not valid'') | Inr s \<Rightarrow> Inr s))"

definition load_s0_fast_detection :: "input_files \<Rightarrow> pipeline_inputs \<Rightarrow> run_metadata \<Rightarrow> adapter_result result" where
  "load_s0_fast_detection fi ins rm =
     bnd (read_fast_detection_selection fi) (\<lambda>sel.
     bnd (read_fast_hit_handoff (fi_fast fi) (fi_fast_hits fi) (fi_fast_trace fi) (rm_run_id rm)) (\<lambda>handoff.
     adapt_fast_hit_handoff (fi_fast fi) direct_host_entity_mapper handoff (in_entity_id ins) sel))"

section \<open>The Hybrid step\<close>

definition reread_decision :: "decision_result \<Rightarrow> decision_result result" where
  "reread_decision d = validate_decision_result (d\<lparr>dc_fusion_time := json_time (dc_fusion_time d),
     dc_detector_time := json_time (dc_detector_time d), dc_t_e := json_time (dc_t_e d)\<rparr>)"

definition combine_parallel_decision :: "(py_float \<Rightarrow> py_float option) \<Rightarrow> pipeline_inputs \<Rightarrow> adapter_result \<Rightarrow> fusion_result
    \<Rightarrow> string option \<Rightarrow> decision_result result" where
  "combine_parallel_decision jf ins fast fusion supersedes =
     bnd (combine_fast_adapter_result jf fast fusion (in_decision_id ins) (in_decision_config_version ins) True supersedes) reread_decision"

definition combine_with_lifecycle_resolution :: "(py_float \<Rightarrow> py_float option) \<Rightarrow> pipeline_inputs \<Rightarrow> adapter_result \<Rightarrow> fusion_result
    \<Rightarrow> string \<Rightarrow> connection \<Rightarrow> decision_result result \<times> connection" where
  "combine_with_lifecycle_resolution jf ins fast fusion run_id cx =
     (case resolve_expected_supersedes_decision_id (in_decision_id ins) (run_id, in_entity_id ins) cx of
        (Inl e, cx) \<Rightarrow> (Inl e, cx)
      | (Inr expected, cx) \<Rightarrow> (case combine_parallel_decision jf ins fast fusion expected of
          Inl e \<Rightarrow> (Inl e, rollback cx) | Inr d \<Rightarrow> (Inr d, cx)))"

section \<open>The run\<close>

record execution_summary =
  su_run_id :: string
  su_entity_id :: string
  su_event_count :: nat
  su_evidence_count :: nat
  su_fusion_status :: detection_status
  su_detector_status :: detection_status
  su_decision_path :: "decision_path option"

definition build_execution_summary :: "s0_artifacts \<Rightarrow> normalized_artifacts \<Rightarrow> fusion_result \<Rightarrow> adapter_result \<Rightarrow> decision_result
    \<Rightarrow> execution_summary" where
  "build_execution_summary sa na fusion fast d =
     \<lparr>su_run_id = rm_run_id (sa_run_metadata sa), su_entity_id = dc_entity_id d, su_event_count = length (na_events na),
      su_evidence_count = length (na_evidences na), su_fusion_status = fr_status fusion,
      su_detector_status = dr_status (ar_detection fast), su_decision_path = dc_path d\<rparr>"

text \<open>What the run takes from its surroundings.\<close>

record cycle_env =
  ce_event_types :: "string set"
  ce_managed :: "string set"
  ce_nan_ok :: bool
  ce_loads :: "string \<Rightarrow> json option"
  ce_fromiso :: "string \<Rightarrow> datetime option"
  ce_event_namer :: event_namer
  ce_evidence_namer :: s0_namer
  ce_v6 :: "string \<Rightarrow> ip_literal option"
  ce_json_float :: "py_float \<Rightarrow> py_float option"

definition load_fusion_config :: "cycle_env \<Rightarrow> input_files \<Rightarrow> valid_config result" where
  "load_fusion_config ce fi = (case fi_fusion_config fi of
     None \<Rightarrow> Inl (TypeError ''Fusion config root must be a mapping'')
   | Some c \<Rightarrow> validate_fusion_config (ce_nan_ok ce) (ce_managed ce) c)"

text \<open>The stages in front of the connection: artifacts, Events and Evidence, Fusion and Fast.\<close>

definition run_stages :: "cycle_env \<Rightarrow> input_files \<Rightarrow> pipeline_inputs
    \<Rightarrow> (s0_artifacts \<times> normalized_artifacts \<times> s0_fusion_result \<times> adapter_result) result" where
  "run_stages ce fi ins =
     bnd (load_s0_pipeline_artifacts (ce_loads ce) fi) (\<lambda>sa.
     bnd (normalize_sysmon_and_extract_evidence (ce_event_types ce) (ce_event_namer ce) (ce_fromiso ce) (ce_evidence_namer ce) (ce_v6 ce)
       (sa_context sa) (sa_records sa)) (\<lambda>na.
     bnd (run_s0_fusion_with_trace (ce_nan_ok ce) (ce_evidence_namer ce) (ce_v6 ce) (load_fusion_config ce fi) (in_entity_id ins)
       (sa_run_metadata sa) (na_events na)) (\<lambda>sf.
     bnd (load_s0_fast_detection fi ins (sa_run_metadata sa)) (\<lambda>fast.
     Inr (sa, na, sf, fast)))))"

definition result_set_of :: "s0_artifacts \<Rightarrow> normalized_artifacts \<Rightarrow> s0_fusion_result \<Rightarrow> adapter_result \<Rightarrow> decision_result \<Rightarrow> result_set" where
  "result_set_of sa na sf fast d =
     \<lparr>rs_run = sa_run_metadata sa, rs_events = na_events na, rs_fusion = sf_fusion sf, rs_trace = sf_trace sf, rs_config = sf_config sf,
      rs_detection = ar_detection fast, rs_decision = d\<rparr>"

definition run_first_cycle_pipeline :: "cycle_env \<Rightarrow> input_files \<Rightarrow> pipeline_inputs \<Rightarrow> connection \<Rightarrow> execution_summary result \<times> connection" where
  "run_first_cycle_pipeline ce fi ins cx = (case run_stages ce fi ins of
     Inl e \<Rightarrow> (Inl e, cx)
   | Inr (sa, na, sf, fast) \<Rightarrow>
       (case combine_with_lifecycle_resolution (ce_json_float ce) ins fast (sf_fusion sf) (rm_run_id (sa_run_metadata sa)) cx of
          (Inl e, cx) \<Rightarrow> (Inl e, cx)
        | (Inr d, cx) \<Rightarrow> (case persist_s0_results True (result_set_of sa na sf fast d) cx of
            (Inl e, cx) \<Rightarrow> (Inl e, cx)
          | (Inr u, cx) \<Rightarrow> (Inr (build_execution_summary sa na (sf_fusion sf) fast d), cx))))"

end
