(* ===== verification/DecisionChain.thy ===== *)
theory DecisionChain
  imports DecisionStore
begin

text \<open>
  The decisions of a scope form a chain: each supersedes the one before it. The interface a log of
  decisions offers for that (\<open>superseding_log\<close>), what follows from it, and that the store keeps it;
  the invariant of the store over every sequence of transactions.
\<close>

section \<open>Chains\<close>

fun chain_from :: "string option \<Rightarrow> decision_result list \<Rightarrow> bool" where
  "chain_from prev [] = True"
| "chain_from prev (d # ds) = (dc_supersedes d = prev \<and> chain_from (Some (dc_decision_id d)) ds)"

definition head_id :: "decision_result list \<Rightarrow> string option" where
  "head_id ds = (if ds = [] then None else Some (dc_decision_id (last ds)))"

lemma chain_from_snoc:
  "chain_from prev (ds @ [d]) \<longleftrightarrow> chain_from prev ds \<and> dc_supersedes d = (if ds = [] then prev else Some (dc_decision_id (last ds)))"
  by (induction ds arbitrary: prev) auto

lemma chain_supersedes: "chain_from prev ds \<Longrightarrow> map dc_supersedes ds = butlast (prev # map (Some \<circ> dc_decision_id) ds)"
  by (induction ds arbitrary: prev) (auto split: if_splits)

lemma chain_heads:
  assumes "chain_from None ds" "distinct (map dc_decision_id ds)" "ds \<noteq> []"
  shows "current_heads ds = [last ds]"
proof -
  obtain xs d where ds: "ds = xs @ [d]" using assms(3) by (metis rev_exhaust)
  have "set (map dc_supersedes ds) = set (butlast (None # map (Some \<circ> dc_decision_id) ds))"
    using chain_supersedes [OF assms(1)] by simp
  moreover have "butlast (None # map (Some \<circ> dc_decision_id) ds) = None # map (Some \<circ> dc_decision_id) xs"
    by (simp add: ds)
  ultimately have sup: "dc_supersedes ` set ds = insert None ((Some \<circ> dc_decision_id) ` set xs)" by simp
  have "current_heads ds = filter (\<lambda>y. dc_decision_id y \<notin> dc_decision_id ` set xs) (xs @ [d])"
    unfolding current_heads_def sup unfolding ds by (rule filter_cong) auto
  moreover have "dc_decision_id d \<notin> dc_decision_id ` set xs" using assms(2) by (auto simp: ds)
  ultimately show ?thesis by (simp add: ds filter_empty_conv)
qed

section \<open>The interface of a log\<close>

definition scope_log :: "scope \<Rightarrow> decision_result list \<Rightarrow> decision_result list" where
  "scope_log sc ds = filter (in_scope sc) ds"

definition linear_log :: "decision_result list \<Rightarrow> bool" where
  "linear_log ds \<longleftrightarrow> distinct (map dc_decision_id ds) \<and> (\<forall>sc. chain_from None (scope_log sc ds))"

lemma linear_logD:
  assumes "linear_log ds"
  shows "distinct (map dc_decision_id ds)" "chain_from None (scope_log sc ds)" "distinct (map dc_decision_id (scope_log sc ds))"
  using assms unfolding linear_log_def scope_log_def by (blast, blast, simp add: distinct_map_filter)

lemma linear_logI:
  "distinct (map dc_decision_id ds) \<Longrightarrow> (\<And>sc. chain_from None (scope_log sc ds)) \<Longrightarrow> linear_log ds"
  unfolding linear_log_def by blast

locale superseding_log =
  fixes log_of :: "'s \<Rightarrow> decision_result list"
    and put :: "'a \<Rightarrow> 's \<Rightarrow> 's result"
    and entry :: "'a \<Rightarrow> decision_result"
  assumes put_known: "decision_by_id (dc_decision_id (entry a)) (log_of s) = Some x \<Longrightarrow> put a s = Inr s' \<Longrightarrow> s' = s \<and> x = entry a"
    and put_new: "decision_by_id (dc_decision_id (entry a)) (log_of s) = None \<Longrightarrow> put a s = Inr s' \<Longrightarrow>
      log_of s' = log_of s @ [entry a] \<and> map dc_decision_id (current_heads (scope_log (decision_scope (entry a)) (log_of s))) =
        (case dc_supersedes (entry a) of None \<Rightarrow> [] | Some i \<Rightarrow> [i])"
begin

lemma scope_head:
  assumes "linear_log (log_of s)"
  shows "map dc_decision_id (current_heads (scope_log sc (log_of s))) = (case head_id (scope_log sc (log_of s)) of None \<Rightarrow> [] | Some i \<Rightarrow> [i])"
proof (cases "scope_log sc (log_of s) = []")
  case True
  then show ?thesis by (simp add: head_id_def current_heads_def)
next
  case False
  from chain_heads [OF linear_logD(2,3) [OF assms] this] False show ?thesis by (simp add: head_id_def)
qed

lemma put_linear:
  assumes lin: "linear_log (log_of s)" and put: "put a s = Inr s'"
  shows "linear_log (log_of s')"
    "s' = s \<and> entry a \<in> set (log_of s) \<or> log_of s' = log_of s @ [entry a] \<and> dc_decision_id (entry a) \<notin> dc_decision_id ` set (log_of s)
      \<and> dc_supersedes (entry a) = head_id (scope_log (decision_scope (entry a)) (log_of s))"
proof -
  let ?d = "entry a" and ?ds = "log_of s"
  have "linear_log (log_of s') \<and> (s' = s \<and> ?d \<in> set ?ds \<or> log_of s' = ?ds @ [?d] \<and> dc_decision_id ?d \<notin> dc_decision_id ` set ?ds
      \<and> dc_supersedes ?d = head_id (scope_log (decision_scope ?d) ?ds))"
  proof (cases "decision_by_id (dc_decision_id ?d) ?ds")
    case (Some x)
    then have "x \<in> set ?ds" by (auto simp: decision_by_id_def find_Some_iff)
    with put_known [OF Some put] lin show ?thesis by auto
  next
    case None
    then have new: "dc_decision_id ?d \<notin> dc_decision_id ` set ?ds" by (auto simp: decision_by_id_def find_None_iff)
    note p = put_new [OF None put]
    have "(case dc_supersedes ?d of None \<Rightarrow> [] | Some i \<Rightarrow> [i]) = (case head_id (scope_log (decision_scope ?d) ?ds) of None \<Rightarrow> [] | Some i \<Rightarrow> [i])"
      using p scope_head [OF lin] by simp
    then have sup: "dc_supersedes ?d = head_id (scope_log (decision_scope ?d) ?ds)"
      by (cases "dc_supersedes ?d"; cases "head_id (scope_log (decision_scope ?d) ?ds)") simp_all
    have "chain_from None (scope_log sc (?ds @ [?d]))" for sc
    proof (cases "in_scope sc ?d")
      case True
      then have "sc = decision_scope ?d" by (simp add: in_scope_def decision_scope_def)
      then have log: "scope_log sc (?ds @ [?d]) = scope_log sc ?ds @ [?d]" using True by (simp add: scope_log_def)
      show ?thesis
        unfolding log chain_from_snoc using linear_logD(2) [OF lin] sup \<open>sc = decision_scope ?d\<close> by (simp add: head_id_def)
    next
      case False
      then have "scope_log sc (?ds @ [?d]) = scope_log sc ?ds" by (simp add: scope_log_def)
      with linear_logD(2) [OF lin] show ?thesis by simp
    qed
    then have "linear_log (?ds @ [?d])" using linear_logD(1) [OF lin] new by (intro linear_logI) simp_all
    with new p sup show ?thesis by simp
  qed
  then show "linear_log (log_of s')"
    "s' = s \<and> ?d \<in> set ?ds \<or> log_of s' = ?ds @ [?d] \<and> dc_decision_id ?d \<notin> dc_decision_id ` set ?ds
      \<and> dc_supersedes ?d = head_id (scope_log (decision_scope ?d) ?ds)" by blast+
qed

text \<open>Of two entries made against the same head only one gets in.\<close>

lemma put_stale:
  assumes lin: "linear_log (log_of s)" and first: "put a s = Inr s'" "dc_decision_id (entry a) \<notin> dc_decision_id ` set (log_of s)"
    and second: "decision_scope (entry b) = decision_scope (entry a)" "dc_supersedes (entry b) = dc_supersedes (entry a)"
      "dc_decision_id (entry b) \<noteq> dc_decision_id (entry a)" "dc_decision_id (entry b) \<notin> dc_decision_id ` set (log_of s)"
  shows "\<exists>e. put b s' = Inl e"
proof (rule ccontr)
  assume "\<nexists>e. put b s' = Inl e"
  then obtain s'' where put: "put b s' = Inr s''" by (cases "put b s'") auto
  have one: "log_of s' = log_of s @ [entry a]" "dc_supersedes (entry a) = head_id (scope_log (decision_scope (entry a)) (log_of s))"
    using put_linear(2) [OF lin first(1)] first(2) by auto
  have "entry b \<notin> set (log_of s')" using second(3,4) one(1) by auto
  then have "dc_supersedes (entry b) = head_id (scope_log (decision_scope (entry b)) (log_of s'))"
    using put_linear(2) [OF put_linear(1) [OF lin first(1)] put] by auto
  also have "\<dots> = Some (dc_decision_id (entry a))"
    using one(1) second(1) by (simp add: scope_log_def head_id_def in_scope_def decision_scope_def)
  finally have head: "head_id (scope_log (decision_scope (entry a)) (log_of s)) = Some (dc_decision_id (entry a))"
    using second(2) one(2) by simp
  then have "dc_decision_id (entry a) \<in> dc_decision_id ` set (scope_log (decision_scope (entry a)) (log_of s))"
    by (metis head_id_def image_eqI last_in_set option.distinct(1) option.inject)
  with first(2) show False by (auto simp: scope_log_def)
qed

end

section \<open>The store is such a log\<close>

lemma get_head_ok:
  "get_current_head sc st = Inr h \<Longrightarrow> map dc_decision_id (current_heads (scope_log sc (st_decisions st)))
     = (case map_option dc_decision_id h of None \<Rightarrow> [] | Some i \<Rightarrow> [i])"
proof -
  assume h: "get_current_head sc st = Inr h"
  let ?hs = "current_heads (scope_log sc (st_decisions st))"
  consider "?hs = []" | d where "?hs = [d]" | d d' ds where "?hs = d # d' # ds" by (metis list.exhaust)
  then show ?thesis
    using h by cases (auto simp: get_current_head_def scope_log_def current_heads_def validity Let_def split: if_splits)
qed

lemma fold_save_events [simp]:
  "st_decisions (fold save_event es st) = st_decisions st" "st_snapshots (fold save_event es st) = st_snapshots st"
  "st_runs (fold save_event es st) = st_runs st" "st_fusion (fold save_event es st) = st_fusion st"
  "st_traces (fold save_event es st) = st_traces st" "st_configs (fold save_event es st) = st_configs st"
  "st_detections (fold save_event es st) = st_detections st"
  by (induction es arbitrary: st) (simp_all add: save_event_def)

lemma save_fields [simp]:
  "st_decisions (save_run r st) = st_decisions st" "st_decisions (save_fusion f st) = st_decisions st" "st_decisions (save_trace t st) = st_decisions st"
  "st_decisions (save_config c st) = st_decisions st" "st_decisions (save_detection d st) = st_decisions st"
  "st_snapshots (save_run r st) = st_snapshots st" "st_snapshots (save_fusion f st) = st_snapshots st" "st_snapshots (save_trace t st) = st_snapshots st"
  "st_snapshots (save_config c st) = st_snapshots st" "st_snapshots (save_detection d st) = st_snapshots st"
  by (simp_all add: save_run_def save_fusion_def save_trace_def save_config_def save_detection_def)

text \<open>The state of the tables after the results of a new decision.\<close>

definition with_results :: "bool \<Rightarrow> result_set \<Rightarrow> decision_snapshot \<Rightarrow> store \<Rightarrow> store" where
  "with_results with_run rs snap st =
     save_detection (rs_detection rs) (save_config (rs_config rs) (save_trace (rs_trace rs) (save_fusion (rs_fusion rs)
       (fold save_event (rs_events rs) (if with_run then save_run (rs_run rs) st else st)))))
     \<lparr>st_decisions := st_decisions st @ [rs_decision rs], st_snapshots := st_snapshots st @ [snap]\<rparr>"

lemma save_results_cases:
  assumes "save_results w rs st = Inr st'"
  obtains (known) "decision_by_id (dc_decision_id (rs_decision rs)) (st_decisions st) = Some (rs_decision rs)" "st' = st"
  | (new) snap h where "decision_by_id (dc_decision_id (rs_decision rs)) (st_decisions st) = None"
      "get_current_head (decision_scope (rs_decision rs)) st = Inr h" "map_option dc_decision_id h = dc_supersedes (rs_decision rs)"
      "build_decision_runtime_snapshot (rs_decision rs) (rs_detection rs) (rs_fusion rs) (rs_trace rs) (rs_config rs) = Inr snap"
      "st' = with_results w rs snap st"
proof (cases "decision_by_id (dc_decision_id (rs_decision rs)) (st_decisions st)")
  case (Some x)
  with assms known show thesis
    by (auto simp: save_results_def get_decision_def validity Let_def split: if_splits)
next
  case None
  with assms obtain h snap where "get_current_head (decision_scope (rs_decision rs)) st = Inr h" "map_option dc_decision_id h = dc_supersedes (rs_decision rs)"
      "build_decision_runtime_snapshot (rs_decision rs) (rs_detection rs) (rs_fusion rs) (rs_trace rs) (rs_config rs) = Inr snap"
      "st' = with_results w rs snap st"
    by (auto simp: save_results_def get_decision_def Let_def with_results_def save_decision_def save_snapshot_def split: if_splits)
  with None new show thesis by blast
qed

interpretation store_log: superseding_log st_decisions "save_results w" rs_decision
proof
  fix a st x st'
  assume "decision_by_id (dc_decision_id (rs_decision a)) (st_decisions st) = Some x" "save_results w a st = Inr st'"
  then show "st' = st \<and> x = rs_decision a" by (elim save_results_cases) auto
next
  fix a st st'
  assume "decision_by_id (dc_decision_id (rs_decision a)) (st_decisions st) = None" "save_results w a st = Inr st'"
  then show "st_decisions st' = st_decisions st @ [rs_decision a]
      \<and> map dc_decision_id (current_heads (scope_log (decision_scope (rs_decision a)) (st_decisions st)))
        = (case dc_supersedes (rs_decision a) of None \<Rightarrow> [] | Some i \<Rightarrow> [i])"
    by (elim save_results_cases) (auto simp: with_results_def dest: get_head_ok)
qed

end
