(* ===== verification/StoreTransactions.thy ===== *)
theory StoreTransactions
  imports DecisionChain
begin

text \<open>
  The transactions of the store as a step relation and the invariant they keep: the decisions of
  every scope are a chain, every decision has the snapshot of its run, and the result tables of a
  scope hold what its current decision was made from.
\<close>

section \<open>Atomicity\<close>

lemma persist_failure:
  "persist c w rs cx = (Inl e, cx') \<Longrightarrow> cx' = rollback cx \<and> cx_committed cx' = cx_committed cx \<and> cx_working cx' = cx_committed cx"
  by (auto simp: persist_def rollback_def split: sum.splits)

lemma persist_success:
  "persist c w rs cx = (Inr u, cx') \<Longrightarrow> save_results w rs (cx_working cx) = Inr (cx_working cx')
     \<and> cx_committed cx' = (if c then cx_working cx' else cx_committed cx)"
  by (auto simp: persist_def commit_def split: sum.splits if_splits)

lemma persist_s0_cases:
  assumes "persist_s0_results c rs cx = (r, cx')"
  obtains (refused) e where "r = Inl e" "cx_committed cx' = cx_committed cx" "cx_working cx' = cx_committed cx"
  | (saved) "r = Inr ()" "validate_result_scope rs = Inr ()" "validate_decision_transaction_contract cx = Inr ()"
      "save_results True rs (cx_working cx) = Inr (cx_working cx')" "cx_committed cx' = (if c then cx_working cx' else cx_committed cx)"
proof (cases "seq (validate_result_scope rs) (validate_decision_transaction_contract cx)")
  case (Inl e)
  then have "r = Inl e" "cx' = rollback cx" using assms by (simp_all add: persist_s0_results_def)
  then show thesis by (intro refused) (simp_all add: rollback_def)
next
  case (Inr u)
  then have "persist c True rs cx = (r, cx')" using assms by (simp add: persist_s0_results_def)
  with Inr persist_failure persist_success refused saved show thesis by (cases r) (fastforce)+
qed

lemma persist_r1_cases:
  assumes "persist_r1_results rs cx = (r, cx')"
  obtains (refused) e where "r = Inl e" "cx_committed cx' = cx_committed cx" "cx_working cx' = cx_committed cx"
  | (saved) "r = Inr ()" "require_registered_r1_run (rs_run rs) (cx_working cx) = Inr ()" "validate_result_scope rs = Inr ()"
      "validate_decision_transaction_contract cx = Inr ()"
      "save_results False rs (cx_working cx) = Inr (cx_working cx')" "cx_committed cx' = cx_working cx'"
proof (cases "seq (require_registered_r1_run (rs_run rs) (cx_working cx)) (seq (validate_result_scope rs) (validate_decision_transaction_contract cx))")
  case (Inl e)
  then have "r = Inl e" "cx' = rollback cx" using assms by (simp_all add: persist_r1_results_def)
  then show thesis by (intro refused) (simp_all add: rollback_def)
next
  case (Inr u)
  then have "persist True False rs cx = (r, cx')" using assms by (simp add: persist_r1_results_def)
  with Inr persist_failure persist_success refused saved show thesis by (cases r) (fastforce)+
qed

section \<open>Transactions\<close>

text \<open>A transaction begins in the committed state and ends committed or rolled back.\<close>

inductive transaction :: "store \<Rightarrow> store \<Rightarrow> bool" where
  s0: "\<lbrakk>validate_decision_result (rs_decision rs) = Inr (rs_decision rs); cx_committed cx = st; cx_working cx = st;
     persist_s0_results True rs cx = (r, cx')\<rbrakk> \<Longrightarrow> transaction st (cx_committed cx')"
| r1: "\<lbrakk>validate_decision_result (rs_decision rs) = Inr (rs_decision rs); cx_committed cx = st; cx_working cx = st;
     persist_r1_results rs cx = (r, cx')\<rbrakk> \<Longrightarrow> transaction st (cx_committed cx')"

definition reachable_store :: "store \<Rightarrow> bool" where
  "reachable_store st \<longleftrightarrow> transaction\<^sup>*\<^sup>* empty_store st"

lemma transaction_cases:
  assumes "transaction st st'"
  obtains "st' = st"
  | w rs where "save_results w rs st = Inr st'" "validate_decision_result (rs_decision rs) = Inr (rs_decision rs)" "validate_result_scope rs = Inr ()"
      "w \<or> require_registered_r1_run (rs_run rs) st = Inr ()"
  using assms
proof cases
  case (s0 rs cx r cx')
  from s0(5) show thesis by (cases rule: persist_s0_cases) (use s0 that in auto)
next
  case (r1 rs cx r cx')
  from r1(5) show thesis by (cases rule: persist_r1_cases) (use r1 that in auto)
qed

section \<open>The invariant\<close>

definition snapshot_of :: "decision_result \<Rightarrow> decision_snapshot \<Rightarrow> bool" where
  "snapshot_of d s \<longleftrightarrow> ds_decision_id s = dc_decision_id d \<and> ds_run_id s = dc_run_id d \<and> ds_entity_id s = dc_entity_id d
     \<and> validate_decision_snapshot s = Inr s
     \<and> dr_status (ds_detection s) = dc_fast_status d \<and> same_time (dc_detector_time d) (dr_time (ds_detection s))
     \<and> fr_status (ds_fusion s) = dc_fusion_status d \<and> same_time (dc_fusion_time d) (fr_time (ds_fusion s))"

text \<open>The result tables of a scope show the run behind its current decision.\<close>

definition shows_head :: "store \<Rightarrow> scope \<Rightarrow> bool" where
  "shows_head st sc \<longleftrightarrow> scope_log sc (st_decisions st) = []
     \<or> (\<exists>s \<in> set (st_snapshots st). snapshot_of (last (scope_log sc (st_decisions st))) s
          \<and> st_fusion st sc = Some (ds_fusion s) \<and> st_traces st sc = Some (ds_trace s) \<and> st_configs st sc = ds_config s
          \<and> st_detections st sc = Some (ds_detection s))"

definition store_ok :: "store \<Rightarrow> bool" where
  "store_ok st \<longleftrightarrow> linear_log (st_decisions st) \<and> (\<forall>d \<in> set (st_decisions st). validate_decision_result d = Inr d)
     \<and> list_all2 snapshot_of (st_decisions st) (st_snapshots st) \<and> (\<forall>sc. shows_head st sc)
     \<and> dc_run_id ` set (st_decisions st) \<subseteq> dom (st_runs st)"

lemma built_snapshot:
  assumes "build_decision_runtime_snapshot d detection f t c = Inr snap"
  shows "snapshot_of d snap" "ds_detection snap = detection" "ds_fusion snap = f" "ds_trace snap = t" "ds_config snap = Some c"
    "(fr_run_id f, fr_entity_id f) = decision_scope d" "(tr_run_id t, tr_entity_id t) = decision_scope d"
    "(cs_run_id c, cs_entity_id c) = decision_scope d" "(dr_run_id detection, dr_entity_id detection) = decision_scope d"
  using assms
  by (auto simp: build_decision_runtime_snapshot_def validate_decision_snapshot_def validate_runtime_contracts_def snapshot_of_def decision_scope_def)

lemma with_results_tables:
  fixes w :: bool and st :: store
  assumes "build_decision_runtime_snapshot (rs_decision rs) (rs_detection rs) (rs_fusion rs) (rs_trace rs) (rs_config rs) = Inr snap"
  defines "st' \<equiv> with_results w rs snap st" and "sc \<equiv> decision_scope (rs_decision rs)"
  shows "st_fusion st' = (st_fusion st)(sc \<mapsto> ds_fusion snap)" "st_traces st' = (st_traces st)(sc \<mapsto> ds_trace snap)"
    "st_configs st' = (st_configs st)(sc := ds_config snap)" "st_detections st' = (st_detections st)(sc \<mapsto> ds_detection snap)"
    "st_decisions st' = st_decisions st @ [rs_decision rs]" "st_snapshots st' = st_snapshots st @ [snap]"
    "st_runs st' = (if w then (st_runs st)(rm_run_id (rs_run rs) \<mapsto> rs_run rs) else st_runs st)"
  unfolding st'_def sc_def built_snapshot(2-5) [OF assms(1)] with_results_def save_fusion_def save_trace_def save_config_def save_detection_def
    built_snapshot(6-9) [OF assms(1)]
  by (simp_all add: save_run_def)

lemma store_ok_empty: "store_ok empty_store"
  by (simp add: store_ok_def empty_store_def linear_log_def scope_log_def shows_head_def)

lemma save_results_ok:
  assumes ok: "store_ok st" and save: "save_results w rs st = Inr st'" and valid: "validate_decision_result (rs_decision rs) = Inr (rs_decision rs)"
    and scope: "validate_result_scope rs = Inr ()" and run: "w \<or> require_registered_r1_run (rs_run rs) st = Inr ()"
  shows "store_ok st'"
  using save
proof (cases rule: save_results_cases)
  case known
  with ok show ?thesis by simp
next
  case (new snap h)
  let ?d = "rs_decision rs"
  note t = with_results_tables [OF new(4), where w = w and st = st, folded new(5)]
  have lin: "linear_log (st_decisions st')" using store_log.put_linear(1) [OF _ save] ok by (simp add: store_ok_def)
  have snap: "snapshot_of ?d snap" by (rule built_snapshot(1) [OF new(4)])
  have "shows_head st' sc" for sc
  proof (cases "sc = decision_scope ?d")
    case True
    then have "in_scope sc ?d" by (simp add: in_scope_def decision_scope_def)
    then have "last (scope_log sc (st_decisions st')) = ?d" by (simp add: t scope_log_def)
    with True snap show ?thesis by (simp add: shows_head_def t)
  next
    case False
    then have "\<not> in_scope sc ?d" by (auto simp: in_scope_def decision_scope_def)
    then have "scope_log sc (st_decisions st') = scope_log sc (st_decisions st)" by (simp add: t scope_log_def)
    moreover have "shows_head st sc" using ok unfolding store_ok_def by blast
    ultimately show ?thesis using False by (auto simp: shows_head_def t)
  qed
  moreover have "dc_run_id ?d = rm_run_id (rs_run rs)" using scope by (simp add: validate_result_scope_def Let_def)
  then have at: "dc_run_id ?d \<in> dom (st_runs st')" and old: "dom (st_runs st) \<subseteq> dom (st_runs st')"
    using run by (auto simp: t require_registered_r1_run_def get_run_def split: option.splits)
  have "dc_run_id ` set (st_decisions st @ [?d]) \<subseteq> dom (st_runs st')"
    using at subset_trans [OF _ old, of "dc_run_id ` set (st_decisions st)"] ok by (simp add: store_ok_def)
  ultimately show ?thesis
    using ok lin valid snap unfolding store_ok_def t(5,6) by (simp add: list_all2_appendI)
qed

lemma transaction_ok: "transaction st st' \<Longrightarrow> store_ok st \<Longrightarrow> store_ok st'"
  by (elim transaction_cases) (use save_results_ok in blast)+

lemma reachable_store_ok: "reachable_store st \<Longrightarrow> store_ok st"
  unfolding reachable_store_def by (induction rule: rtranclp_induct) (use store_ok_empty transaction_ok in blast)+

section \<open>The head of a scope\<close>

lemma current_head:
  assumes "store_ok st"
  shows "get_current_head sc st = Inr (if scope_log sc (st_decisions st) = [] then None else Some (last (scope_log sc (st_decisions st))))"
proof (cases "scope_log sc (st_decisions st) = []")
  case True
  then show ?thesis by (simp add: get_current_head_def scope_log_def [symmetric] current_heads_def)
next
  case False
  let ?log = "scope_log sc (st_decisions st)"
  have lin: "linear_log (st_decisions st)" using assms by (simp add: store_ok_def)
  have "current_heads ?log = [last ?log]" by (rule chain_heads [OF linear_logD(2,3) [OF lin] False])
  moreover have "last ?log \<in> set (st_decisions st)" using last_in_set [OF False] by (simp add: scope_log_def)
  then have "validate_decision_result (last ?log) = Inr (last ?log)" using assms by (simp add: store_ok_def)
  ultimately show ?thesis using False by (simp add: get_current_head_def scope_log_def [symmetric])
qed

lemma current_head_id: "store_ok st \<Longrightarrow> get_current_head sc st = Inr h \<Longrightarrow> map_option dc_decision_id h = head_id (scope_log sc (st_decisions st))"
  using current_head [of st sc] by (auto simp: head_id_def)

lemma get_stored:
  assumes "store_ok st"
  shows "get_decision i st = Inr (decision_by_id i (st_decisions st))"
proof (cases "decision_by_id i (st_decisions st)")
  case (Some d)
  then have "d \<in> set (st_decisions st)" by (auto simp: decision_by_id_def find_Some_iff)
  then have "validate_decision_result d = Inr d" using assms by (simp add: store_ok_def)
  with Some show ?thesis by (simp add: get_decision_def)
qed (simp add: get_decision_def)

text \<open>When the results of a run are accepted.\<close>

lemma save_results_iff:
  assumes ok: "store_ok st"
  shows "(\<exists>st'. save_results w rs st = Inr st') \<longleftrightarrow>
    rs_decision rs \<in> set (st_decisions st)
    \<or> dc_decision_id (rs_decision rs) \<notin> dc_decision_id ` set (st_decisions st)
      \<and> dc_supersedes (rs_decision rs) = head_id (scope_log (decision_scope (rs_decision rs)) (st_decisions st))
      \<and> (\<exists>snap. build_decision_runtime_snapshot (rs_decision rs) (rs_detection rs) (rs_fusion rs) (rs_trace rs) (rs_config rs) = Inr snap)"
proof (cases "decision_by_id (dc_decision_id (rs_decision rs)) (st_decisions st)")
  case (Some x)
  have x: "x \<in> set (st_decisions st)" "dc_decision_id x = dc_decision_id (rs_decision rs)"
    using Some by (auto simp: decision_by_id_def find_Some_iff)
  have "inj_on dc_decision_id (set (st_decisions st))" using ok by (simp add: store_ok_def linear_log_def distinct_map)
  then have "x = rs_decision rs \<longleftrightarrow> rs_decision rs \<in> set (st_decisions st)" using x by (auto dest: inj_onD)
  moreover have "(\<exists>st'. save_results w rs st = Inr st') \<longleftrightarrow> x = rs_decision rs"
    using get_stored [OF ok, of "dc_decision_id (rs_decision rs)"] Some
    by (auto simp: save_results_def validate_existing_decision_scope_def in_scope_def decision_scope_def Let_def)
  moreover have "dc_decision_id (rs_decision rs) \<in> dc_decision_id ` set (st_decisions st)" using x by (metis image_eqI)
  ultimately show ?thesis by blast
next
  case None
  then have new: "dc_decision_id (rs_decision rs) \<notin> dc_decision_id ` set (st_decisions st)" by (auto simp: decision_by_id_def find_None_iff)
  then have notin: "rs_decision rs \<notin> set (st_decisions st)" by blast
  let ?sc = "decision_scope (rs_decision rs)"
  have head: "get_current_head ?sc st = Inr (if scope_log ?sc (st_decisions st) = [] then None else Some (last (scope_log ?sc (st_decisions st))))"
    by (rule current_head [OF ok])
  have hid: "map_option dc_decision_id (if scope_log ?sc (st_decisions st) = [] then None else Some (last (scope_log ?sc (st_decisions st))))
      = head_id (scope_log ?sc (st_decisions st))" by (simp add: head_id_def)
  show ?thesis
  proof (cases "build_decision_runtime_snapshot (rs_decision rs) (rs_detection rs) (rs_fusion rs) (rs_trace rs) (rs_config rs)")
    case (Inl e)
    then show ?thesis using None new notin by (auto elim: save_results_cases)
  next
    case (Inr snap)
    have fresh: "ds_decision_id snap \<notin> ds_decision_id ` set (st_snapshots st)"
    proof -
      have "list_all2 snapshot_of (st_decisions st) (st_snapshots st)" using ok by (simp add: store_ok_def)
      then have "map ds_decision_id (st_snapshots st) = map dc_decision_id (st_decisions st)"
        by (induction rule: list_all2_induct) (auto simp: snapshot_of_def)
      then have "ds_decision_id ` set (st_snapshots st) = dc_decision_id ` set (st_decisions st)" by (metis set_map)
      with new built_snapshot(1) [OF Inr] show ?thesis by (simp add: snapshot_of_def)
    qed
    have "save_results w rs st = Inr (with_results w rs snap st)" if "dc_supersedes (rs_decision rs) = head_id (scope_log ?sc (st_decisions st))"
      using get_stored [OF ok, of "dc_decision_id (rs_decision rs)"] None head hid that Inr new fresh built_snapshot(1) [OF Inr]
      by (simp add: save_results_def Let_def save_decision_def save_snapshot_def with_results_def snapshot_of_def)
    moreover have "dc_supersedes (rs_decision rs) = head_id (scope_log ?sc (st_decisions st))" if "save_results w rs st = Inr st'" for st'
      using that None head hid by (auto elim!: save_results_cases)
    ultimately show ?thesis using new notin Inr by blast
  qed
qed

text \<open>What a candidate is told to supersede is what its persistence asks for, as long as nobody commits in between.\<close>

lemma resolved_head:
  assumes "store_ok st"
  shows "expected_supersedes i sc st = (case decision_by_id i (st_decisions st) of
     Some d \<Rightarrow> if in_scope sc d then Inr (dc_supersedes d) else Inl (RuntimeError ''decision_id already exists in a different scope'')
   | None \<Rightarrow> Inr (head_id (scope_log sc (st_decisions st))))"
  using get_stored [OF assms, of i] current_head [OF assms, of sc]
  by (auto simp: expected_supersedes_def validate_existing_decision_scope_def head_id_def split: option.split)

end
