(* ===== verification/FirstCycleFacts.thy ===== *)
theory FirstCycleFacts
  imports FirstCycle StoreTransactions
begin

text \<open>
  The First Cycle end to end: what a run that returns has computed and stored, and that a run that
  raises stores nothing.
\<close>

section \<open>The decision\<close>

lemma combine_results_args:
  "combine_results jf d f ca = Inr dec \<Longrightarrow> dc_supersedes dec = ca_supersedes ca \<and> dc_decision_id dec = ca_decision_id ca
     \<and> dc_config_version dec = ca_config_version ca \<and> validate_decision_result dec = Inr dec
     \<and> dc_source_hit_ids dec = ca_source_hit_ids ca"
  by (auto simp: combine_results_def validate_decision_result_ok)

lemma reread_decision_id: "times_ok d \<Longrightarrow> validate_decision_result d = Inr d \<Longrightarrow> reread_decision d = Inr d"
  using json_time_id [of "dc_fusion_time d"] json_time_id [of "dc_detector_time d"] json_time_id [of "dc_t_e d"]
  by (simp add: reread_decision_def times_ok_def)

lemma parallel_decision:
  assumes "combine_parallel_decision jf ins fast fusion sup_id = Inr d"
  shows "validate_decision_result d = Inr d" "dc_supersedes d = sup_id" "dc_decision_id d = in_decision_id ins"
    "dc_run_id d = fr_run_id fusion" "dc_entity_id d = fr_entity_id fusion"
    "(dc_t_e d, dc_path d, dc_winning d) = verdict (dr_status (ar_detection fast)) (fr_status fusion) (dc_detector_time d) (dc_fusion_time d)"
    "dc_source_hit_ids d = Some (ar_source_hit_ids fast)"
proof -
  obtain d0 where d0: "combine_results jf (ar_detection fast) fusion
       \<lparr>ca_decision_id = in_decision_id ins, ca_config_version = in_decision_config_version ins, ca_parallel_required = True,
        ca_source_hit_ids = Some (ar_source_hit_ids fast), ca_selected_hit_id = ar_selected_hit_id fast, ca_supersedes = sup_id\<rparr> = Inr d0"
      "reread_decision d0 = Inr d"
    using assms by (auto simp: combine_parallel_decision_def combine_fast_adapter_result_def)
  note sound = combine_results_sound [OF d0(1)] and args = combine_results_args [OF d0(1)]
  have [simp]: "d = d0" using d0(2) reread_decision_id sound args by simp
  show "validate_decision_result d = Inr d" "dc_supersedes d = sup_id" "dc_decision_id d = in_decision_id ins"
    "dc_run_id d = fr_run_id fusion" "dc_entity_id d = fr_entity_id fusion"
    "(dc_t_e d, dc_path d, dc_winning d) = verdict (dr_status (ar_detection fast)) (fr_status fusion) (dc_detector_time d) (dc_fusion_time d)"
    "dc_source_hit_ids d = Some (ar_source_hit_ids fast)"
    using sound args by (simp_all add: decision_contract_def)
qed

section \<open>The stages\<close>

lemma run_returns:
  assumes "run_first_cycle_pipeline ce fi ins cx = (Inr su, cx')"
  obtains sa na sf fast d expected where "run_stages ce fi ins = Inr (sa, na, sf, fast)"
    "expected_supersedes (in_decision_id ins) (rm_run_id (sa_run_metadata sa), in_entity_id ins) (cx_working cx) = Inr expected"
    "combine_parallel_decision (ce_json_float ce) ins fast (sf_fusion sf) expected = Inr d"
    "persist_s0_results True (result_set_of sa na sf fast d) cx = (Inr (), cx')"
    "su = build_execution_summary sa na (sf_fusion sf) fast d"
  using assms
  by (auto simp: run_first_cycle_pipeline_def combine_with_lifecycle_resolution_def resolve_expected_supersedes_decision_id_def
      split: sum.splits prod.splits)

lemma run_raises:
  assumes "run_first_cycle_pipeline ce fi ins cx = (Inl e, cx')"
  shows "cx_committed cx' = cx_committed cx"
proof (cases "run_stages ce fi ins")
  case (Inl e')
  with assms show ?thesis by (simp add: run_first_cycle_pipeline_def)
next
  case (Inr stages)
  obtain sa na sf fast where stages: "stages = (sa, na, sf, fast)" by (cases stages)
  obtain r cx1 where mid: "combine_with_lifecycle_resolution (ce_json_float ce) ins fast (sf_fusion sf) (rm_run_id (sa_run_metadata sa)) cx = (r, cx1)"
    by fastforce
  have keep: "cx_committed cx1 = cx_committed cx"
    using mid by (auto simp: combine_with_lifecycle_resolution_def resolve_expected_supersedes_decision_id_def rollback_def split: sum.splits)
  show ?thesis
  proof (cases r)
    case (Inl e')
    with assms Inr stages mid keep show ?thesis by (simp add: run_first_cycle_pipeline_def)
  next
    case (Inr d)
    obtain r2 cx2 where p: "persist_s0_results True (result_set_of sa na sf fast d) cx1 = (r2, cx2)" by fastforce
    with assms \<open>run_stages ce fi ins = Inr stages\<close> stages mid Inr have "r2 = Inl e" "cx2 = cx'"
      by (auto simp: run_first_cycle_pipeline_def split: sum.splits)
    with p have "cx_committed cx' = cx_committed cx1" by (auto elim: persist_s0_cases)
    with keep show ?thesis by simp
  qed
qed

lemma stages_ok:
  assumes "run_stages ce fi ins = Inr (sa, na, sf, fast)"
  shows "load_s0_pipeline_artifacts (ce_loads ce) fi = Inr sa"
    "normalize_sysmon_and_extract_evidence (ce_event_types ce) (ce_event_namer ce) (ce_fromiso ce) (ce_evidence_namer ce) (ce_v6 ce)
       (sa_context sa) (sa_records sa) = Inr na"
    "run_s0_fusion_with_trace (ce_nan_ok ce) (ce_evidence_namer ce) (ce_v6 ce) (load_fusion_config ce fi) (in_entity_id ins)
       (sa_run_metadata sa) (na_events na) = Inr sf"
    "load_s0_fast_detection fi ins (sa_run_metadata sa) = Inr fast"
  using assms by (auto simp: run_stages_def)

lemma artifacts_ok:
  assumes "load_s0_pipeline_artifacts loads fi = Inr sa"
  shows "validate_run_metadata (sa_run_metadata sa) = Inr (sa_run_metadata sa)" "fi_run_metadata fi = Some (sa_run_metadata sa)"
    "nc_run_id (sa_context sa) = rm_run_id (sa_run_metadata sa)" "sa_records sa \<noteq> []"
    "\<exists>ls. fi_sysmon_lines fi = Some ls \<and> read_sysmon_jsonl loads ls = Inr (sa_records sa)"
  using assms
  by (auto simp: load_s0_pipeline_artifacts_def read_run_metadata_def read_sysmon_records_def validity split: option.splits sum.splits prod.splits)

lemma fast_detection_scope:
  assumes "load_s0_fast_detection fi ins rm = Inr fast"
  shows "dr_entity_id (ar_detection fast) = in_entity_id ins"
proof -
  obtain sel handoff where "adapt_fast_hit_handoff (fi_fast fi) direct_host_entity_mapper handoff (in_entity_id ins) sel = Inr fast"
    using assms by (auto simp: load_s0_fast_detection_def)
  then show ?thesis
    by (cases "fs_status sel")
      (auto simp: adapt_fast_hit_handoff_def new_adapter_result_def no_detection_def validity Let_def split: option.splits)
qed

section \<open>A run that returns\<close>

lemma list_all2_left: "list_all2 P xs ys \<Longrightarrow> x \<in> set xs \<Longrightarrow> \<exists>y \<in> set ys. P x y"
  by (induction rule: list_all2_induct) auto

lemma stored_decision:
  assumes ok: "store_ok st" and d: "d \<in> set (st_decisions st)"
  obtains snap where "get_with_decision (dc_decision_id d) st = Inr (Some (d, Some snap))" "snapshot_of d snap" "snap \<in> set (st_snapshots st)"
proof -
  have dist: "distinct (map dc_decision_id (st_decisions st))" using ok by (simp add: store_ok_def linear_log_def)
  have all: "list_all2 snapshot_of (st_decisions st) (st_snapshots st)" using ok by (simp add: store_ok_def)
  have "decision_by_id (dc_decision_id d) (st_decisions st) \<noteq> None" using d by (auto simp: decision_by_id_def find_None_iff)
  then obtain x where x: "decision_by_id (dc_decision_id d) (st_decisions st) = Some x" by blast
  then have "x \<in> set (st_decisions st)" "dc_decision_id x = dc_decision_id d" by (auto simp: decision_by_id_def find_Some_iff)
  with dist d have same: "x = d" by (auto simp: distinct_map dest: inj_onD)
  have key: "snapshot_of y s \<Longrightarrow> (ds_decision_id s, ds_run_id s, ds_entity_id s) = (dc_decision_id y, dc_run_id y, dc_entity_id y)" for y s
    by (simp add: snapshot_of_def)
  let ?P = "\<lambda>s. (ds_decision_id s, ds_run_id s, ds_entity_id s) = (dc_decision_id d, dc_run_id d, dc_entity_id d)"
  obtain s0 where "s0 \<in> set (st_snapshots st)" "snapshot_of d s0"
    using list_all2_left [OF all d] by blast
  then have "find ?P (st_snapshots st) \<noteq> None" using key by (auto simp: find_None_iff)
  then obtain s where s: "find ?P (st_snapshots st) = Some s" by blast
  then have mem: "s \<in> set (st_snapshots st)" and ids: "?P s" by (auto simp: find_Some_iff)
  obtain y where y: "y \<in> set (st_decisions st)" "snapshot_of y s"
    using list_all2_right [OF all mem] by blast
  then have "dc_decision_id y = dc_decision_id d" using key [OF y(2)] ids by simp
  with dist d y(1) have "y = d" by (auto simp: distinct_map dest: inj_onD)
  with y(2) have snap: "snapshot_of d s" by simp
  have "validate_decision_result d = Inr d" "validate_decision_snapshot s = Inr s"
    using ok d snap by (auto simp: store_ok_def snapshot_of_def)
  with x same s have "get_with_decision (dc_decision_id d) st = Inr (Some (d, Some s))" by (simp add: get_with_decision_def Let_def)
  then show thesis using that snap mem by blast
qed

lemma first_cycle_commits:
  assumes ok: "store_ok st" and cx: "cx_committed cx = st" "cx_working cx = st"
    and run: "run_first_cycle_pipeline ce fi ins cx = (Inr su, cx')"
  obtains sa na sf fast d where "run_stages ce fi ins = Inr (sa, na, sf, fast)" "transaction st (cx_committed cx')"
    "su = build_execution_summary sa na (sf_fusion sf) fast d" "dc_decision_id d = in_decision_id ins"
    "decision_scope d = (rm_run_id (sa_run_metadata sa), in_entity_id ins)"
    "(dc_t_e d, dc_path d, dc_winning d) = verdict (dr_status (ar_detection fast)) (fr_status (sf_fusion sf)) (dc_detector_time d) (dc_fusion_time d)"
    "cx_committed cx' = st \<and> d \<in> set (st_decisions st)
     \<or> st_decisions (cx_committed cx') = st_decisions st @ [d] \<and> dc_supersedes d = head_id (scope_log (decision_scope d) (st_decisions st))"
    "d \<in> set (st_decisions (cx_committed cx'))"
  using run
proof (cases rule: run_returns)
  case (1 sa na sf fast d expected)
  note d = parallel_decision [OF 1(3)]
  let ?rs = "result_set_of sa na sf fast d"
  have rs: "rs_decision ?rs = d" "rs_run ?rs = sa_run_metadata sa" "rs_detection ?rs = ar_detection fast" by (simp_all add: result_set_of_def)
  have t: "transaction st (cx_committed cx')"
    using transaction.s0 [of ?rs cx st "Inr ()" cx'] d(1) rs(1) cx 1(4) by simp
  from 1(4) have saved: "validate_result_scope ?rs = Inr ()" "save_results True ?rs st = Inr (cx_working cx')" "cx_committed cx' = cx_working cx'"
    by (auto elim: persist_s0_cases simp: cx)
  have "dc_run_id d = rm_run_id (sa_run_metadata sa)" "dc_entity_id d = dr_entity_id (ar_detection fast)"
    using saved(1) by (auto simp: validate_result_scope_def Let_def rs)
  then have scope: "decision_scope d = (rm_run_id (sa_run_metadata sa), in_entity_id ins)"
    using fast_detection_scope [OF stages_ok(4) [OF 1(1)]] by (simp add: decision_scope_def)
  have put: "d \<in> set (st_decisions (cx_committed cx'))
    \<and> (cx_committed cx' = st \<and> d \<in> set (st_decisions st)
     \<or> st_decisions (cx_committed cx') = st_decisions st @ [d] \<and> dc_supersedes d = head_id (scope_log (decision_scope d) (st_decisions st)))"
    using saved(2)
  proof (cases rule: save_results_cases)
    case known
    then have "d \<in> set (st_decisions st)" by (auto simp: decision_by_id_def find_Some_iff rs)
    with known saved(3) show ?thesis by simp
  next
    case (new snap h)
    have "st_decisions (cx_committed cx') = st_decisions st @ [d]" using with_results_tables(5) [OF new(4), of True st] new(5) saved(3) rs by simp
    moreover have "dc_supersedes d = head_id (scope_log (decision_scope d) (st_decisions st))"
      using current_head_id [OF ok, of "decision_scope d" h] new(2,3) rs by simp
    ultimately show ?thesis by simp
  qed
  show thesis by (rule that [OF 1(1) t 1(5) d(3) scope d(6)]) (use put in blast)+
qed

section \<open>What the Fusion of a run says\<close>

lemma runtime_input:
  assumes "run_s0_runtime_fusion evn v6 c events run_id start_time end_time expected = Inr res" "\<forall>e \<in> set events. event_ok event_types e"
  shows "s0_input_ok event_types events run_id expected" "validate_replay_step c = Inr ()" "is_utc start_time" "is_utc end_time"
    "instant start_time \<le> instant end_time"
proof -
  obtain w ids s where parts: "validate_replay_step c = Inr ()" "derive_s0_replay_window start_time end_time = Inr w"
      "validate_expected_entity_ids expected = Inr ids" "select_s0_replay_events events run_id w = Inr s" "unexpected_hosts events ids = []"
    using assms(1) by (auto simp: run_s0_runtime_fusion_def)
  have "unpadded run_id" using parts(4) by (auto simp: select_s0_replay_events_def validity)
  then show "s0_input_ok event_types events run_id expected" "validate_replay_step c = Inr ()" "is_utc start_time" "is_utc end_time"
    "instant start_time \<le> instant end_time"
    using parts assms(2) selection_ok [OF parts(4)] by (auto simp: s0_input_ok_def validity unexpected_hosts_iff)
qed

lemma unpack_one:
  "(case xs of [x] \<Rightarrow> (case ys of [y] \<Rightarrow> Inr (f x y) | _ \<Rightarrow> Inl e) | _ \<Rightarrow> Inl e) = Inr z \<longleftrightarrow> (\<exists>x y. xs = [x] \<and> ys = [y] \<and> f x y = z)"
  by (auto split: list.splits)

lemma fusion_stage:
  assumes "run_s0_fusion_with_trace nan_ok evn v6 load i rm events = Inr sf"
  obtains c end_time res where "load = Inr c" "rm_end_time rm = Some end_time"
    "run_s0_runtime_fusion evn v6 c events (rm_run_id rm) (rm_start_time rm) end_time [i] = Inr res"
    "sr_fusion_results res = [sf_fusion sf]" "sr_stopping_traces res = [sf_trace sf]"
proof (cases "rm_end_time rm")
  case None
  with assms show thesis by (simp add: run_s0_fusion_with_trace_def)
next
  case (Some end_time)
  with assms show thesis
    using that by (auto simp: run_s0_fusion_with_trace_def unpack_one)
qed

definition fusion_verdict :: "temporal_replay_runner \<Rightarrow> evidence list \<Rightarrow> string \<Rightarrow> s0_replay_window \<Rightarrow> string \<Rightarrow> fusion_result \<Rightarrow> bool" where
  "fusion_verdict r es run_id w i fr \<longleftrightarrow> fr_run_id fr = run_id \<and> fr_entity_id fr = i
     \<and> (if is_covered w then detects_first r es (host_request run_id w i) (rw_end w) fr else fr_status fr = NotEvaluated \<and> fr_time fr = None)"

lemma runtime_verdict:
  assumes run: "run_s0_runtime_fusion evn v6 c events run_id start_time end_time [i] = Inr res" and ok: "\<forall>e \<in> set events. event_ok event_types e"
    and v: "config_ok nan_ok managed c" "vc_threshold_on c \<noteq> NaN" "vc_threshold_off c \<noteq> NaN" "vc_step_size c \<le> 1000000000" "build_runner c = Inr r"
    and ms: "ms_aligned start_time" and one: "sr_fusion_results res = [fr]"
  shows "fusion_verdict r (host_evidences evn v6 (s0_window start_time end_time) events i) run_id (s0_window start_time end_time) i fr"
proof -
  note input = runtime_input [OF run ok]
  let ?w = "s0_window start_time end_time"
  show ?thesis
  proof (cases "is_covered ?w")
    case True
    then have "instant start_time + s0_replay_duration \<le> instant end_time" by (simp add: is_covered_def s0_window_def)
    from s0_runtime_covered [OF input(1,2) v input(3) ms input(4) this, of evn v6] run one True show ?thesis
      by (auto simp: fusion_verdict_def)
  next
    case False
    then have late: "instant end_time < instant start_time + s0_replay_duration" by (simp add: is_covered_def s0_window_def)
    have "metadata_ok (vc_metadata c)" using v(1) by (simp add: config_ok_def)
    from s0_runtime_uncovered [OF input(1,2) this input(3-5) late, of evn v6] run one False show ?thesis
      by (auto simp: fusion_verdict_def)
  qed
qed

lemma events_of_run:
  assumes "run_stages ce fi ins = Inr (sa, na, sf, fast)"
  shows "list_all2 (\<lambda>r e. event_ok (ce_event_types ce) e \<and> normalizes (ce_event_namer ce) (ce_fromiso ce) (sa_context sa) r e) (sa_records sa) (na_events na)"
    "\<forall>e \<in> set (na_events na). event_ok (ce_event_types ce) e"
proof -
  show all: "list_all2 (\<lambda>r e. event_ok (ce_event_types ce) e \<and> normalizes (ce_event_namer ce) (ce_fromiso ce) (sa_context sa) r e) (sa_records sa) (na_events na)"
    using normalized_file_ok [OF stages_ok(2) [OF assms]] by blast
  show "\<forall>e \<in> set (na_events na). event_ok (ce_event_types ce) e"
    using list_all2_right [OF all] by blast
qed

end
