(* ===== verification/FirstCycleProperties.thy ===== *)
theory FirstCycleProperties
  imports FirstCycleFacts DecisionProperties FusionProperties
begin

text \<open>
  The properties of the First Cycle: normalization and extraction, the Fusion of a run, the decision
  store and the run end to end, each with a concrete instance.
\<close>

section \<open>A sample run\<close>

definition cycle_path :: "string \<Rightarrow> json" where
  "cycle_path name = JStr (''C:/S0/data/raw/'' @ sample_run_id @ ''/telemetry/'' @ name)"

definition cycle_manifest :: json where
  "cycle_manifest = JObj [(''run_id'', JStr sample_run_id), (''items'', JList
     [JObj [(''path'', cycle_path evtx_filename), (''layer'', JStr ''raw_telemetry''), (''source'', JStr ''sysmon'')],
      JObj [(''path'', cycle_path jsonl_filename), (''layer'', JStr ''raw_telemetry''), (''source'', JStr ''sysmon''),
        (''raw_log_id'', JStr ''log''), (''derived_from'', cycle_path evtx_filename), (''sha256'', JStr (replicate 64 (CHR ''a'')))]])]"

definition cycle_loads :: "string \<Rightarrow> json option" where
  "cycle_loads line = (if line = ''l1'' then Some (JObj
     [(''EventId'', JInt 1), (''RecordId'', JInt 7), (''TimeCreated'', JStr ''t1''), (''Computer'', JStr ''h1''),
      (''EventData'', JObj [(''UtcTime'', JStr ''t1''), (''Image'', JStr (''C:'' @ [backslash] @ ''powershell.exe'')),
        (''CommandLine'', JStr ''powershell.exe -enc QQ'')])])
   else None)"

definition cycle_fromiso :: "string \<Rightarrow> datetime option" where
  "cycle_fromiso s = (if s = ''t1'' then Some (utc 60000000) else None)"

definition cycle_env :: cycle_env where
  "cycle_env = \<lparr>ce_event_types = {''process_create'', ''network_connection''}, ce_managed = {''encoded_powershell_command''},
     ce_nan_ok = False, ce_loads = cycle_loads, ce_fromiso = cycle_fromiso,
     ce_event_namer = (\<lambda>a b c d x. a @ ''/'' @ b @ int_text d), ce_evidence_namer = (\<lambda>a b c d. a @ b @ c),
     ce_v6 = (\<lambda>_. None), ce_json_float = sample_json_float\<rparr>"

definition cycle_config :: fusion_config where
  "cycle_config = sample_config\<lparr>fc_scoring := (fc_scoring sample_config)\<lparr>sc_evidence_types := [''encoded_powershell_command'']\<rparr>\<rparr>"

definition cycle_valid_config :: valid_config where
  "cycle_valid_config = sample_valid_config\<lparr>vc_evidence_types := [''encoded_powershell_command'']\<rparr>"

definition cycle_run :: run_metadata where
  "cycle_run = \<lparr>rm_run_id = sample_run_id, rm_scenario_id = ''S0'', rm_run_type = AttackRun, rm_target_host = ''h1'', rm_start_time = utc 0,
     rm_end_time = Some (utc 100000000), rm_family_id = None, rm_reference_time = None, rm_schema_versions = []\<rparr>"

definition cycle_record :: sysmon_record where
  "cycle_record = \<lparr>sy_record_no = 1, sy_data = (case cycle_loads ''l1'' of Some (JObj d) \<Rightarrow> d | _ \<Rightarrow> [])\<rparr>"

definition cycle_context :: normalization_context where
  "cycle_context = \<lparr>nc_run_id = sample_run_id, nc_raw_log_id = ''log'', nc_segment_no = 1\<rparr>"

definition cycle_event :: normalized_event where
  "cycle_event = \<lparr>ev_event_id = ''evt-'' @ sample_run_id @ ''/log1'', ev_run_id = sample_run_id, ev_timestamp = utc 60000000,
     ev_timestamp_source = EventTime, ev_event_time = Some (utc 60000000), ev_record_time = Some (utc 60000000), ev_ingest_time = None,
     ev_host_id = ''h1'', ev_source = ''sysmon'', ev_source_layer = RawTelemetry, ev_source_event_id = ''7'', ev_event_type = ''process_create'',
     ev_raw_ref = \<lparr>rl_raw_log_id = ''log'', rl_source_record_id = Some ''7'', rl_segment_no = 1, rl_record_no = 1,
       rl_parser_id = Some ''sysmon-normalizer'', rl_parser_version = Some ''v0.3''\<rparr>,
     ev_user = None, ev_process = Some \<lparr>pi_pid = None, pi_process_guid = None, pi_name = Some ''powershell.exe'',
       pi_path = Some (''C:'' @ [backslash] @ ''powershell.exe''), pi_command_line = Some ''powershell.exe -enc QQ'',
       pi_parent_pid = None, pi_parent_process_guid = None, pi_parent_name = None\<rparr>, ev_network = None\<rparr>"

definition cycle_evidence :: evidence where
  "cycle_evidence = s0_evidence (ce_evidence_namer cycle_env) cycle_event ''encoded_powershell_command''
     [(''process_name'', FeatStr ''powershell.exe''), (''matched_option'', FeatStr ''-enc'')]"

definition cycle_fast_result :: adapter_result where
  "cycle_fast_result = \<lparr>ar_detection = \<lparr>dr_run_id = sample_run_id, dr_entity_id = ''h1'', dr_time = Some (utc 1000000), dr_status = Detected,
     dr_detector_id = Some ''hayabusa'', dr_rule_id = Some ''r1'', dr_rule_version = Some ''1'', dr_severity = Some SevUnknown\<rparr>,
     ar_source_hit_ids = [hit_id_of sample_run_id 1, hit_id_of sample_run_id 2], ar_selected_hit_id = Some (hit_id_of sample_run_id 2)\<rparr>"

definition cycle_runtime :: s0_runtime_result where
  "cycle_runtime = \<lparr>sr_run_id = sample_run_id, sr_window = s0_window (utc 0) (utc 100000000),
     sr_selection = \<lparr>sn_run_id = sample_run_id, sn_included = [cycle_event], sn_before = 0, sn_after = 0, sn_min = None, sn_max = None\<rparr>,
     sr_not_evaluated_reason = Some ''insufficient_observation'',
     sr_fusion_results = [\<lparr>fr_run_id = sample_run_id, fr_entity_id = ''h1'', fr_time = None, fr_status = NotEvaluated, fr_score = None,
       fr_evidence_ids = [], fr_config_version = ''c1'', fr_profile_id = ''p1'', fr_model_version = None, fr_scoring_method = ''simple_score'',
       fr_scorer_version = ''v1'', fr_episodes = []\<rparr>],
     sr_stopping_traces = [\<lparr>tr_run_id = sample_run_id, tr_entity_id = ''h1'', tr_config_version = ''c1'', tr_points = []\<rparr>]\<rparr>"

definition cycle_files :: input_files where
  "cycle_files = \<lparr>fi_run_metadata = Some cycle_run, fi_manifest = Some cycle_manifest, fi_sysmon_name = jsonl_filename,
     fi_sysmon_sha = Some (replicate 64 (CHR ''a'')), fi_sysmon_lines = Some [''l1''], fi_fast = sample_files,
     fi_fast_hits = fho_records sample_handoff, fi_fast_trace = fho_trace sample_handoff,
     fi_fast_selection = Some \<lparr>fs_status = Detected, fs_hit_id = Some (hit_id_of sample_run_id 2), fs_severity = None\<rparr>,
     fi_fusion_config = Some cycle_config\<rparr>"

definition cycle_inputs :: "string \<Rightarrow> pipeline_inputs" where
  "cycle_inputs d = \<lparr>in_entity_id = ''h1'', in_decision_id = d, in_decision_config_version = ''d1''\<rparr>"

definition cycle_connection :: "store \<Rightarrow> connection" where
  "cycle_connection st = \<lparr>cx_autocommit = False, cx_isolation = Some ''read committed'', cx_committed = st, cx_working = st\<rparr>"





lemma cycle_normalized: "normalize_sysmon_and_extract_evidence (ce_event_types cycle_env) (ce_event_namer cycle_env) (ce_fromiso cycle_env) (ce_evidence_namer cycle_env) (ce_v6 cycle_env)
       cycle_context [cycle_record] = Inr \<lparr>na_events = [cycle_event], na_evidences = [cycle_evidence]\<rparr>"
  by code_simp


lemma cycle_step: "validate_replay_step cycle_valid_config = Inr ()"
  by (simp add: validate_replay_step_def duration_of_def cycle_valid_config_def sample_valid_config_def whole_seconds s0_replay_duration_def)

lemma cycle_selection: "select_s0_replay_events [cycle_event] sample_run_id (s0_window (utc 0) (utc 100000000))
     = Inr \<lparr>sn_run_id = sample_run_id, sn_included = [cycle_event], sn_before = 0, sn_after = 0, sn_min = None, sn_max = None\<rparr>"
  by code_simp

lemma cycle_window: "derive_s0_replay_window (utc 0) (utc 100000000) = Inr (s0_window (utc 0) (utc 100000000))"
  "is_covered (s0_window (utc 0) (utc 100000000)) = False" "validate_expected_entity_ids [''h1''] = Inr [''h1'']" "unexpected_hosts [cycle_event] [''h1''] = []"
  by code_simp+

lemma cycle_unevaluated:
  "build_not_evaluated_fusion_result sample_run_id ''h1'' (vc_metadata cycle_valid_config) = Inr \<lparr>fr_run_id = sample_run_id, fr_entity_id = ''h1'', fr_time = None, fr_status = NotEvaluated, fr_score = None,
       fr_evidence_ids = [], fr_config_version = ''c1'', fr_profile_id = ''p1'', fr_model_version = None, fr_scoring_method = ''simple_score'',
       fr_scorer_version = ''v1'', fr_episodes = []\<rparr>"
  "validate_stopping_trace \<lparr>tr_run_id = sample_run_id, tr_entity_id = ''h1'', tr_config_version = fm_config_version (vc_metadata cycle_valid_config), tr_points = []\<rparr>
    = Inr \<lparr>tr_run_id = sample_run_id, tr_entity_id = ''h1'', tr_config_version = ''c1'', tr_points = []\<rparr>"
  by code_simp+

lemma cycle_fusion: "run_s0_runtime_fusion (ce_evidence_namer cycle_env) (ce_v6 cycle_env) cycle_valid_config [cycle_event] sample_run_id (utc 0) (utc 100000000) [''h1''] = Inr cycle_runtime"
  by (simp add: run_s0_runtime_fusion_def cycle_step cycle_window cycle_selection cycle_unevaluated cycle_runtime_def)

lemma cycle_snapshot: "build_fusion_runtime_config_snapshot False cycle_valid_config sample_run_id ''h1''
    = Inr \<lparr>cs_run_id = sample_run_id, cs_entity_id = ''h1'', cs_config = cycle_valid_config\<rparr>"
  using not_blank_samples whole_seconds one_second_aligned run_id_ok_nonempty [OF sample_run_id_ok(1)]
  by (simp add: build_fusion_runtime_config_snapshot_def validate_runtime_config_def validate_runtime_window_size_sec_def
      validate_runtime_step_size_sec_def validate_runtime_scoring_def validate_runtime_stopping_def
      check_positive_def check_unit_def reject_boolean_count_def validity runtime_fields_def cycle_valid_config_def
      sample_valid_config_def sample_run_id_def in_unit_def blank_iff is_space_def code_point_def unpadded_def str_strip_def Let_def)

lemma cycle_config_valid: "load_fusion_config cycle_env cycle_files = Inr cycle_valid_config"
  using not_blank_samples whole_seconds one_second_aligned
  by (simp add: load_fusion_config_def cycle_files_def cycle_env_def validate_fusion_config_def validity cycle_config_def sample_config_def cycle_valid_config_def
      sample_valid_config_def in_unit_def blank_iff is_space_def code_point_def unpadded_def str_strip_def Let_def)


definition cycle_decision :: "string \<Rightarrow> string option \<Rightarrow> decision_result" where
  "cycle_decision i before = \<lparr>dc_run_id = sample_run_id, dc_decision_id = i, dc_entity_id = ''h1'', dc_fast_status = Detected, dc_fusion_status = NotEvaluated,
     dc_fusion_time = None, dc_detector_time = Some (utc 1000000), dc_t_e = None, dc_path = None, dc_winning = None,
     dc_reason = ''Required parallel evaluation was not completed'', dc_config_version = ''d1'', dc_evidence_ids = Some [], dc_model_version = None,
     dc_rule_version = Some ''1'', dc_source_hit_ids = Some [hit_id_of sample_run_id 1, hit_id_of sample_run_id 2],
     dc_selected_hit_id = Some (hit_id_of sample_run_id 2), dc_detector_set_version = None, dc_supersedes = before\<rparr>"

definition cycle_result :: "string \<Rightarrow> string option \<Rightarrow> result_set" where
  "cycle_result i before = \<lparr>rs_run = cycle_run, rs_events = [cycle_event], rs_fusion = hd (sr_fusion_results cycle_runtime), rs_trace = hd (sr_stopping_traces cycle_runtime),
     rs_config = \<lparr>cs_run_id = sample_run_id, cs_entity_id = ''h1'', cs_config = cycle_valid_config\<rparr>,
     rs_detection = ar_detection cycle_fast_result, rs_decision = cycle_decision i before\<rparr>"

lemma cycle_decision_fields [simp]:
  "rs_decision (cycle_result i before) = cycle_decision i before" "dc_decision_id (cycle_decision i before) = i"
  "dc_supersedes (cycle_decision i before) = before" "decision_scope (cycle_decision i before) = (sample_run_id, ''h1'')"
  by (simp_all add: cycle_result_def cycle_decision_def decision_scope_def)

lemma empty_decisions: "st_decisions empty_store = []"
  by (simp add: empty_store_def)


definition first_store :: store where
  "first_store = projr (save_results True (cycle_result ''D1'' None) empty_store)"

lemma cycle_scope: "validate_result_scope (cycle_result ''D1'' None) = Inr ()"
  by code_simp

lemma cycle_valid_decision: "validate_decision_result (cycle_decision ''D1'' None) = Inr (cycle_decision ''D1'' None)"
  "validate_decision_result (cycle_decision ''D2'' (Some ''D1'')) = Inr (cycle_decision ''D2'' (Some ''D1''))"
  by code_simp+

lemma cycle_contract: "validate_decision_transaction_contract (cycle_connection st) = Inr ()"
proof -
  have "map (\<lambda>c. if c = CHR ''_'' then CHR '' '' else c) (map lower_char ''read committed'') = ''read committed''" by code_simp
  then show ?thesis by (simp add: validate_decision_transaction_contract_def cycle_connection_def)
qed

lemma first_saved: "save_results True (cycle_result ''D1'' None) empty_store = Inr first_store"
proof -
  have "\<not> isl (save_results True (cycle_result ''D1'' None) empty_store)" by code_simp
  then show ?thesis by (simp add: first_store_def)
qed

lemma first_decisions: "st_decisions first_store = [cycle_decision ''D1'' None]"
  by code_simp

lemma first_transaction: "transaction empty_store first_store"
proof -
  have "persist_s0_results True (cycle_result ''D1'' None) (cycle_connection empty_store)
      = (Inr (), commit ((cycle_connection empty_store)\<lparr>cx_working := first_store\<rparr>))"
    using first_saved cycle_scope cycle_contract [of empty_store] by (simp add: persist_s0_results_def persist_def) (simp add: cycle_connection_def)
  from transaction.s0 [OF _ _ _ this, of empty_store] show ?thesis
    using cycle_valid_decision(1) by (simp add: commit_def cycle_connection_def cycle_result_def)
qed

lemma first_reachable: "reachable_store first_store"
  using first_transaction by (auto simp: reachable_store_def)



lemma cycle_fields [simp]:
  "rm_run_id cycle_run = sample_run_id" "in_entity_id (cycle_inputs i) = ''h1''" "in_decision_id (cycle_inputs i) = i"
  "ce_json_float cycle_env = sample_json_float" "cx_working (cycle_connection st) = st" "cx_committed (cycle_connection st) = st"
  by (simp_all add: cycle_run_def cycle_inputs_def cycle_env_def cycle_connection_def)


section \<open>The run\<close>



text \<open>A First Cycle run that raises, in whatever stage, leaves the store as it was.\<close>

theorem failed_first_cycle_stores_nothing:
  assumes "run_first_cycle_pipeline ce fi ins cx = (Inl e, cx')"
  shows "cx_committed cx' = cx_committed cx"
  using assms by (rule run_raises)

lemma failed_first_cycle_stores_nothing_witness:
  "\<exists>e cx'. run_first_cycle_pipeline cycle_env (cycle_files\<lparr>fi_run_metadata := None\<rparr>) (cycle_inputs ''D1'') (cycle_connection first_store) = (Inl e, cx')
    \<and> cx_committed cx' = first_store"
proof -
  have run: "run_first_cycle_pipeline cycle_env (cycle_files\<lparr>fi_run_metadata := None\<rparr>) (cycle_inputs ''D1'') (cycle_connection first_store)
      = (Inl (ValueError ''run_metadata is not a valid RunMetadata artifact''), cycle_connection first_store)"
    by (simp add: run_first_cycle_pipeline_def run_stages_def load_s0_pipeline_artifacts_def read_run_metadata_def cycle_files_def)
  from failed_first_cycle_stores_nothing [OF run] run show ?thesis by (simp add: cycle_connection_def)
qed


text \<open>C28: The Fusion of a run that passed its stages is exact: over a covered window it reports the first
  detection of the score of the host's Evidence, extracted from the Events inside the window, and
  otherwise that the run was not evaluated.\<close>

theorem first_cycle_fusion_exact:
  assumes run: "run_stages ce fi ins = Inr (sa, na, sf, fast)" and cfg: "load_fusion_config ce fi = Inr c" "\<not> ce_nan_ok ce"
    "vc_step_size c \<le> 1000000000" "build_runner c = Inr r"
    and t: "rm_end_time (sa_run_metadata sa) = Some end_time" "ms_aligned (rm_start_time (sa_run_metadata sa))"
  defines "w \<equiv> s0_window (rm_start_time (sa_run_metadata sa)) end_time"
  shows "fusion_verdict r (host_evidences (ce_evidence_namer ce) (ce_v6 ce) w (na_events na) (in_entity_id ins))
    (rm_run_id (sa_run_metadata sa)) w (in_entity_id ins) (sf_fusion sf)"
proof -
  obtain res where res: "run_s0_runtime_fusion (ce_evidence_namer ce) (ce_v6 ce) c (na_events na) (rm_run_id (sa_run_metadata sa))
      (rm_start_time (sa_run_metadata sa)) end_time [in_entity_id ins] = Inr res" "sr_fusion_results res = [sf_fusion sf]"
    by (rule fusion_stage [OF stages_ok(3) [OF run]]) (use cfg(1) t(1) in auto)
  obtain fc where "validate_fusion_config False (ce_managed ce) fc = Inr c" using cfg(1,2) by (auto simp: load_fusion_config_def split: option.splits)
  then have ok: "config_ok False (ce_managed ce) c" by (rule fusion_config_ok)
  then have "vc_threshold_on c \<noteq> NaN" "vc_threshold_off c \<noteq> NaN" by (auto simp: config_ok_def in_unit_def)
  from runtime_verdict [OF res(1) events_of_run(2) [OF run] ok this cfg(3,4) t(2) res(2)] show ?thesis by (simp add: w_def)
qed

definition long_files :: input_files where
  "long_files = cycle_files\<lparr>fi_run_metadata := Some (cycle_run\<lparr>rm_end_time := Some (utc 660000000)\<rparr>)\<rparr>"

lemma long_artifacts: "load_s0_pipeline_artifacts cycle_loads long_files
    = Inr \<lparr>sa_run_metadata = cycle_run\<lparr>rm_end_time := Some (utc 660000000)\<rparr>, sa_records = [cycle_record], sa_context = cycle_context\<rparr>"
  by code_simp

lemma long_fast: "load_s0_fast_detection long_files (cycle_inputs i) (cycle_run\<lparr>rm_end_time := Some (utc 660000000)\<rparr>) = Inr cycle_fast_result"
  by code_simp

lemma long_config: "load_fusion_config cycle_env long_files = Inr cycle_valid_config"
  using cycle_config_valid by (simp add: long_files_def load_fusion_config_def)

lemma cycle_runner: obtains r where "build_runner cycle_valid_config = Inr r"
proof -
  have "validate_fusion_config False (ce_managed cycle_env) cycle_config = Inr cycle_valid_config"
    using cycle_config_valid by (simp add: load_fusion_config_def cycle_files_def cycle_env_def)
  from accepted_config_builds [OF this] show thesis using that by (auto split: sum.splits)
qed

lemma first_cycle_fusion_exact_witness:
  "\<exists>sa na sf fast r. run_stages cycle_env long_files (cycle_inputs ''D1'') = Inr (sa, na, sf, fast)
    \<and> detects_first r (host_evidences (ce_evidence_namer cycle_env) (ce_v6 cycle_env) (s0_window (utc 0) (utc 660000000)) [cycle_event] ''h1'')
      (host_request sample_run_id (s0_window (utc 0) (utc 660000000)) ''h1'') (rw_end (s0_window (utc 0) (utc 660000000))) (sf_fusion sf)"
proof -
  let ?rm = "cycle_run\<lparr>rm_end_time := Some (utc 660000000)\<rparr>" and ?na = "\<lparr>na_events = [cycle_event], na_evidences = [cycle_evidence]\<rparr>"
  obtain r where r: "build_runner cycle_valid_config = Inr r" by (rule cycle_runner)
  have ev: "event_ok (ce_event_types cycle_env) cycle_event" using normalized_file_ok [OF cycle_normalized] by simp
  have v: "config_ok False (ce_managed cycle_env) cycle_valid_config"
    using cycle_config_valid fusion_config_ok by (auto simp: load_fusion_config_def cycle_env_def split: option.splits)
  have nan: "vc_threshold_on cycle_valid_config \<noteq> NaN" "vc_threshold_off cycle_valid_config \<noteq> NaN" "vc_step_size cycle_valid_config \<le> 1000000000"
    by (simp_all add: cycle_valid_config_def sample_valid_config_def)
  have input: "s0_input_ok (ce_event_types cycle_env) [cycle_event] sample_run_id [''h1'']"
    by (rule runtime_input(1) [OF cycle_fusion]) (use ev in simp)
  have window: "is_utc (utc 0)" "ms_aligned (utc 0)" "is_utc (utc 660000000)" "instant (utc 0) + s0_replay_duration \<le> instant (utc 660000000)"
    by (simp_all add: s0_replay_duration_def ms_aligned_iff utc_def is_utc_def instant_def)
  obtain res where res: "run_s0_runtime_fusion (ce_evidence_namer cycle_env) (ce_v6 cycle_env) cycle_valid_config [cycle_event] sample_run_id
      (utc 0) (utc 660000000) [''h1''] = Inr res" "length (sr_fusion_results res) = 1" "length (sr_stopping_traces res) = 1"
    using s0_runtime_covered [OF input cycle_step v nan r window, of "ce_evidence_namer cycle_env" "ce_v6 cycle_env"]
    by (auto dest!: list_all2_lengthD)
  then obtain f t where one: "sr_fusion_results res = [f]" "sr_stopping_traces res = [t]" by (auto simp: length_Suc_conv)
  have fus: "\<exists>sf. run_s0_fusion_with_trace (ce_nan_ok cycle_env) (ce_evidence_namer cycle_env) (ce_v6 cycle_env) (load_fusion_config cycle_env long_files) ''h1''
      ?rm [cycle_event] = Inr sf"
    using cycle_snapshot res(1) one by (simp add: run_s0_fusion_with_trace_def long_config) (simp add: cycle_env_def cycle_run_def)
  have l: "ce_loads cycle_env = cycle_loads" by (simp add: cycle_env_def)
  obtain sf where run: "run_stages cycle_env long_files (cycle_inputs ''D1'')
      = Inr (\<lparr>sa_run_metadata = ?rm, sa_records = [cycle_record], sa_context = cycle_context\<rparr>, ?na, sf, cycle_fast_result)"
    using fus long_artifacts cycle_normalized long_fast by (auto simp: run_stages_def l)
  have "\<not> ce_nan_ok cycle_env" by (simp add: cycle_env_def)
  from first_cycle_fusion_exact [OF run long_config this nan(3) r, of "utc 660000000"] window(2) run show ?thesis
    by (auto simp: fusion_verdict_def is_covered_def s0_window_def s0_replay_duration_def cycle_run_def)
qed


section \<open>Events and Evidence\<close>

lemma split_at_separator:
  assumes "c \<notin> set xs" "c \<notin> set xs'" "xs @ c # ys = xs' @ c # ys'"
  shows "xs = xs' \<and> ys = ys'"
  using assms by (induction xs arbitrary: xs') (auto simp: Cons_eq_append_conv append_eq_Cons_conv)

lemma int_text_no_slash: "CHR ''/'' \<notin> set (int_text n)"
proof -
  have "\<not> is_digit (CHR ''/'')" by code_simp
  then have "CHR ''/'' \<notin> set (dec_digits m)" for m using dec_digits_digits [of m] by (auto simp: list_all_iff)
  then show ?thesis by (simp add: int_text_def)
qed

lemma record_names_inj: "inj (\<lambda>(d, x). int_text d @ ''/'' @ int_text x)"
proof (rule injI)
  fix p q :: "int \<times> int"
  obtain d x where p: "p = (d, x)" by (cases p)
  obtain d' x' where q: "q = (d', x')" by (cases q)
  assume "(case p of (d, x) \<Rightarrow> int_text d @ ''/'' @ int_text x) = (case q of (d, x) \<Rightarrow> int_text d @ ''/'' @ int_text x)"
  then have "int_text d @ CHR ''/'' # int_text x = int_text d' @ CHR ''/'' # int_text x'" by (simp add: p q)
  from split_at_separator [OF int_text_no_slash int_text_no_slash this] show "p = q" by (simp add: p q)
qed

text \<open>C29: Every Event of a Sysmon file is a valid Event of its record, in the order of the lines and with
  their numbers, and no two Events have the same identifier when the namer tells the records of a
  file apart.\<close>

theorem normalized_events_traceable:
  assumes "read_sysmon_jsonl loads ls = Inr rs"
    and "normalize_sysmon_and_extract_evidence event_types en fromiso evn v6 nc rs = Inr na"
    and names: "inj (\<lambda>(d, x). en (nc_run_id nc) (nc_raw_log_id nc) (nc_segment_no nc) d x)"
  shows "list_all2 (\<lambda>r e. event_ok event_types e \<and> normalizes en fromiso nc r e) rs (na_events na)
    \<and> map sy_record_no rs = map (\<lambda>i. 1 + int i) [0..<length ls] \<and> distinct (map ev_event_id (na_events na))"
proof -
  have all: "list_all2 (\<lambda>r e. event_ok event_types e \<and> normalizes en fromiso nc r e) rs (na_events na)"
    using normalized_file_ok [OF assms(2)] by blast
  have nos: "map sy_record_no rs = map (\<lambda>i. 1 + int i) [0..<length ls]"
    using read_lines_ok assms(1) unfolding read_sysmon_jsonl_def by blast
  then have "distinct (map sy_record_no rs)" by (simp add: distinct_map inj_on_def)
  moreover have "list_all2 (normalizes en fromiso nc) rs (na_events na)" by (rule list_all2_mono [OF all]) simp
  ultimately have "distinct (map ev_event_id (na_events na))" using normalized_ids_distinct [where en = en and nc = nc, OF names] by blast
  with all nos show ?thesis by blast
qed

lemma normalized_events_traceable_witness:
  "\<exists>na. normalize_sysmon_and_extract_evidence {''process_create''} (\<lambda>a b c d x. int_text d @ ''/'' @ int_text x) cycle_fromiso
      (ce_evidence_namer cycle_env) (ce_v6 cycle_env) cycle_context [cycle_record, cycle_record\<lparr>sy_record_no := 2\<rparr>] = Inr na
    \<and> length (na_events na) = 2 \<and> distinct (map ev_event_id (na_events na))"
proof -
  let ?run = "normalize_sysmon_and_extract_evidence {''process_create''} (\<lambda>a b c d x. int_text d @ ''/'' @ int_text x) cycle_fromiso
      (ce_evidence_namer cycle_env) (ce_v6 cycle_env) cycle_context [cycle_record, cycle_record\<lparr>sy_record_no := 2\<rparr>]"
  have "\<not> isl ?run" by code_simp
  then obtain na where na: "?run = Inr na" by (cases ?run) auto
  have rs: "read_sysmon_jsonl cycle_loads [''l1'', ''l1''] = Inr [cycle_record, cycle_record\<lparr>sy_record_no := 2\<rparr>]" by code_simp
  have "inj (\<lambda>(d, x). int_text d @ ''/'' @ int_text x)" by (rule record_names_inj)
  from normalized_events_traceable [OF rs na this] na show ?thesis by (auto dest: list_all2_lengthD)
qed

text \<open>C30: The extractor never raises on a valid Event and returns exactly the Evidence the two rules give:
  one for a PowerShell process created with an encoded command, one for a script interpreter that
  connects to a global unicast address, each about the Event and named after it.\<close>

theorem s0_extraction_exact:
  assumes "event_ok event_types e"
  shows "\<exists>evs. extract_evidence evn v6 e = Inr evs \<and> set evs = s0_rules evn v6 e \<and> length evs \<le> 1"
  using assms by (rule extract_evidence_rules)

lemma s0_extraction_exact_witness:
  "\<exists>evs. extract_evidence (ce_evidence_namer cycle_env) (ce_v6 cycle_env) cycle_event = Inr evs
    \<and> set evs = s0_rules (ce_evidence_namer cycle_env) (ce_v6 cycle_env) cycle_event \<and> length evs \<le> 1"
proof -
  have "event_ok (ce_event_types cycle_env) cycle_event" using normalized_file_ok [OF cycle_normalized] by simp
  from s0_extraction_exact [OF this] show ?thesis .
qed

text \<open>C31: The detector finds an encoded command exactly when the command line splits into tokens, by the
  grammar of \<open>shlex\<close>, among which an encoded option comes before any option that ends the options of
  the host, whatever its case and quotes.\<close>

theorem encoded_option_exact:
  "find_encoded_command_option command_line = Some opt \<longleftrightarrow>
    (\<exists>pre t post. tokens_of command_line (pre @ t # post) \<and> opt = str_casefold (strip_matching_quotes t) \<and> opt \<in> encoded_command_options
      \<and> list_all (\<lambda>u. str_casefold (strip_matching_quotes u) \<notin> command_boundary_options \<union> encoded_command_options) pre)"
  by (auto simp: find_encoded_command_option_def scan_options_iff shlex_split_iff [symmetric] list_all_iff split: option.splits)

section \<open>The decision store\<close>

text \<open>C32: In every store the pipelines can reach the identifiers of the decisions differ, the decisions of
  a scope form one chain in which each names the one before it, the query for the current decision
  finds the end of the chain, and the result tables of the scope show the run behind it.\<close>

theorem decision_history_linear:
  assumes "reachable_store st"
  shows "distinct (map dc_decision_id (st_decisions st)) \<and> chain_from None (scope_log sc (st_decisions st))
    \<and> get_current_head sc st = Inr (if scope_log sc (st_decisions st) = [] then None else Some (last (scope_log sc (st_decisions st))))
    \<and> shows_head st sc"
proof -
  have ok: "store_ok st" by (rule reachable_store_ok [OF assms])
  then have lin: "linear_log (st_decisions st)" by (simp add: store_ok_def)
  have "shows_head st sc" using ok unfolding store_ok_def by blast
  then show ?thesis using linear_logD [OF lin] current_head [OF ok] lin by (simp add: linear_log_def)
qed

lemma decision_history_linear_witness:
  "get_current_head (sample_run_id, ''h1'') first_store = Inr (Some (cycle_decision ''D1'' None)) \<and> shows_head first_store (sample_run_id, ''h1'')"
  using decision_history_linear [OF first_reachable, of "(sample_run_id, ''h1'')"]
  by (simp add: first_decisions scope_log_def in_scope_def cycle_decision_def)



text \<open>Of two candidates of one scope made against the same current decision only the first gets in:
  persisting the second raises and rolls its transaction back.\<close>

theorem stale_decision_refused:
  assumes "reachable_store st" "save_results w a st = Inr st'"
    and "decision_scope (rs_decision b) = decision_scope (rs_decision a)" "dc_supersedes (rs_decision b) = dc_supersedes (rs_decision a)"
    and "dc_decision_id (rs_decision b) \<noteq> dc_decision_id (rs_decision a)"
    and "dc_decision_id (rs_decision a) \<notin> dc_decision_id ` set (st_decisions st)" "dc_decision_id (rs_decision b) \<notin> dc_decision_id ` set (st_decisions st)"
    and "cx_working cx = st'"
  shows "\<exists>e. persist with_commit w b cx = (Inl e, rollback cx)"
proof -
  have "linear_log (st_decisions st)" using reachable_store_ok [OF assms(1)] by (simp add: store_ok_def)
  from store_log.put_stale [OF this assms(2,6,3,4,5,7)] assms(8) show ?thesis by (auto simp: persist_def)
qed

lemma stale_decision_refused_witness:
  "\<exists>e. persist True True (cycle_result ''D2'' None) (cycle_connection first_store) = (Inl e, rollback (cycle_connection first_store))"
  by (rule stale_decision_refused [where st = empty_store and a = "cycle_result ''D1'' None" and st' = first_store])
    (simp_all add: reachable_store_def first_saved empty_decisions)



end
