(* ===== verification/PolicyRegistry.thy ===== *)
theory PolicyRegistry
  imports LineageEvidence SysmonInput
begin

text \<open>
  The policies a repository manages: the registry of approved lineages
  (\<open>evidence/r1_approved_lineage_policy.py\<close>) and the one of reference policies, with the choice of
  the reference Event of a run (\<open>evidence/r1_reference_policy.py\<close>).

  What \<open>yaml.load\<close> makes of a file is an input, \<open>None\<close> when it is not YAML; the mappings inside are
  built by the constructor below. The SHA-256 of the canonical JSON of a policy is a parameter.
\<close>

section \<open>Registry files\<close>

text \<open>\<open>_construct_unique_mapping\<close>: a mapping with a repeated key is an error.\<close>

fun construct_unique_mapping :: "(string \<times> 'a) list \<Rightarrow> (string \<times> 'a) list \<Rightarrow> (string \<times> 'a) list result" where
  "construct_unique_mapping mapping [] = Inr mapping"
| "construct_unique_mapping mapping ((key, v) # nodes) =
     (if map_of mapping key \<noteq> None then Inl (ValueError ''found duplicate key'')
      else construct_unique_mapping (mapping @ [(key, v)]) nodes)"

record 'a policy_registry =
  rg_config_version :: string
  rg_policies :: "'a list"

record 'a registry_file =
  rf_is_file :: bool
  rf_data :: "'a policy_registry option"

definition validate_lookup_identity :: "string \<Rightarrow> string \<Rightarrow> unit result" where
  "validate_lookup_identity field v = raise_first
     [(blank v, ValueError (field @ '' must be a non-blank string'')),
      (\<not> unpadded v, ValueError (field @ '' must not contain surrounding whitespace''))]"

lemma validate_lookup_identity_ok [simp]: "validate_lookup_identity field v = Inr u \<longleftrightarrow> \<not> blank v \<and> unpadded v"
  by (cases u) (simp add: validate_lookup_identity_def)

text \<open>The loop of both loaders: the policies in order, each identity once.\<close>

fun build_unique :: "('c \<Rightarrow> string \<times> string) \<Rightarrow> ('c \<Rightarrow> 'p result) \<Rightarrow> (string \<times> string) set \<Rightarrow> 'c list \<Rightarrow> 'p list result" where
  "build_unique ident build identities [] = Inr []"
| "build_unique ident build identities (c # cs) =
     seq (raise_if (ident c \<in> identities) (ValueError ''policy identities must be unique''))
     (bnd (build c) (\<lambda>p. bnd (build_unique ident build (insert (ident c) identities) cs) (\<lambda>ps. Inr (p # ps))))"

lemma build_unique_ok:
  "build_unique ident build seen cs = Inr ps \<longleftrightarrow>
     distinct (map ident cs) \<and> ident ` set cs \<inter> seen = {} \<and> list_all2 (\<lambda>c p. build c = Inr p) cs ps"
  by (induction cs arbitrary: seen ps) (auto simp: list_all2_Cons1)

section \<open>Approved lineages\<close>

record approved_config =
  acf_policy_id :: string
  acf_version :: string
  acf_approved_lineage :: "string list"
  acf_family_id :: "string option"
  acf_lifecycle :: "policy_lifecycle option"

definition validate_policy_identity_and_lineage :: "approved_config \<Rightarrow> unit result" where
  "validate_policy_identity_and_lineage c = raise_first
     [(blank (acf_policy_id c) \<or> blank (acf_version c), ValueError ''policy identity values must not be blank''),
      (\<not> unpadded (acf_policy_id c) \<or> \<not> unpadded (acf_version c), ValueError ''policy identity values must not contain surrounding whitespace''),
      (acf_approved_lineage c = [], ValueError ''approved_lineage min_length''),
      (\<exists>n \<in> set (acf_approved_lineage c). blank n, ValueError ''approved_lineage must not contain blank values''),
      (\<exists>n \<in> set (acf_approved_lineage c). \<not> unpadded n, ValueError ''approved_lineage must not contain surrounding whitespace'')]"

definition validate_legacy_config :: "approved_config \<Rightarrow> unit result" where
  "validate_legacy_config c = seq (validate_policy_identity_and_lineage c)
     (raise_if (acf_family_id c \<noteq> None \<or> acf_lifecycle c \<noteq> None) (ValueError ''extra_forbidden''))"

definition validate_family_bound_config :: "approved_config \<Rightarrow> unit result" where
  "validate_family_bound_config c = seq (validate_policy_identity_and_lineage c)
     (case (acf_family_id c, acf_lifecycle c) of
        (Some f, Some l) \<Rightarrow> validate_pair_identifier f | _ \<Rightarrow> Inl (ValueError ''missing''))"

definition load_approved_registry :: "approved_config registry_file \<Rightarrow> approved_config list result" where
  "load_approved_registry f =
     (if \<not> rf_is_file f then Inl (RuntimeError ''FileNotFoundError'')
      else (case rf_data f of
        None \<Rightarrow> Inl (ValueError ''R1 approved lineage policy config is not valid YAML'')
      | Some d \<Rightarrow>
          if rg_config_version d \<notin> {''v0.1'', ''v0.2''} then Inl (ValueError ''R1 approved lineage policy config does not match v0.1 or v0.2'')
          else (case seq (raise_if (rg_policies d = []) (ValueError ''policies min_length''))
              (check_each (if rg_config_version d = ''v0.1'' then validate_legacy_config else validate_family_bound_config) (rg_policies d)) of
            Inl e \<Rightarrow> Inl (ValueError (''R1 approved lineage policy config does not match '' @ rg_config_version d))
          | Inr u \<Rightarrow> Inr (rg_policies d))))"

definition build_approved_policy :: "(approved_config \<Rightarrow> string) \<Rightarrow> approved_config \<Rightarrow> approved_policy result" where
  "build_approved_policy hash c = new_approved_policy \<lparr>ap_policy_id = acf_policy_id c, ap_version = acf_version c,
     ap_config_hash = hash c, ap_lineage = acf_approved_lineage c, ap_family_id = acf_family_id c, ap_lifecycle = acf_lifecycle c\<rparr>"

definition load_r1_approved_lineage_policies :: "(approved_config \<Rightarrow> string) \<Rightarrow> approved_config registry_file \<Rightarrow> approved_policy list result" where
  "load_r1_approved_lineage_policies hash f = bnd (load_approved_registry f)
     (build_unique (\<lambda>c. (acf_policy_id c, acf_version c)) (build_approved_policy hash) {})"

definition load_r1_approved_lineage_policy :: "(approved_config \<Rightarrow> string) \<Rightarrow> approved_config registry_file
    \<Rightarrow> string \<Rightarrow> string \<Rightarrow> approved_policy result" where
  "load_r1_approved_lineage_policy hash f policy_id version =
     seq (validate_lookup_identity ''policy_id'' policy_id)
     (seq (validate_lookup_identity ''version'' version)
     (bnd (load_r1_approved_lineage_policies hash f) (\<lambda>ps.
      case find (\<lambda>p. ap_policy_id p = policy_id \<and> ap_version p = version) ps of
        None \<Rightarrow> Inl (ValueError ''R1 approved lineage policy was not found'') | Some p \<Rightarrow> Inr p)))"

lemma policy_found: "find P xs = Some x \<Longrightarrow> x \<in> set xs \<and> P x"
  by (induction xs) (auto split: if_splits)

lemma new_approved_policy_facts:
  assumes "new_approved_policy r = Inr p"
  shows "p = r" "ap_lineage p \<noteq> []" "\<not> blank (ap_config_hash p)" "(ap_family_id p = None) = (ap_lifecycle p = None)"
proof -
  have r: "r = p \<and> ap_lineage r \<noteq> [] \<and> \<not> blank (ap_config_hash r) \<and> (ap_family_id r = None) = (ap_lifecycle r = None)"
    using assms unfolding new_approved_policy_def by (simp only: seq_ok raise_first.simps if_Inl_ok not_not) simp
  then show p: "p = r" by simp
  show "ap_lineage p \<noteq> []" "\<not> blank (ap_config_hash p)" "(ap_family_id p = None) = (ap_lifecycle p = None)"
    unfolding p using conjunct2 [OF r] by simp_all
qed

text \<open>A policy that was loaded carries the identity it was asked for and a lineage of names.\<close>

lemma loaded_policy:
  assumes "load_r1_approved_lineage_policy hash f policy_id version = Inr p"
  shows "ap_policy_id p = policy_id" "ap_version p = version" "ap_lineage p \<noteq> []" "\<not> blank (ap_config_hash p)"
    "(ap_family_id p = None) = (ap_lifecycle p = None)"
proof -
  obtain ps where loaded: "load_r1_approved_lineage_policies hash f = Inr ps"
    and f: "find (\<lambda>p. ap_policy_id p = policy_id \<and> ap_version p = version) ps = Some p"
    using assms unfolding load_r1_approved_lineage_policy_def by (simp split: option.splits) blast
  obtain cs where "build_unique (\<lambda>c. (acf_policy_id c, acf_version c)) (build_approved_policy hash) {} cs = Inr ps"
    using loaded unfolding load_r1_approved_lineage_policies_def by (cases "load_approved_registry f") simp_all
  then have ps: "list_all2 (\<lambda>c p. build_approved_policy hash c = Inr p) cs ps" unfolding build_unique_ok by simp
  have p: "p \<in> set ps" "ap_policy_id p = policy_id" "ap_version p = version"
    using policy_found [OF f] by simp_all
  from list_all2_right [OF ps p(1)] obtain c where c: "build_approved_policy hash c = Inr p" by blast
  show "ap_policy_id p = policy_id" "ap_version p = version" by (rule p)+
  show "ap_lineage p \<noteq> []" "\<not> blank (ap_config_hash p)" "(ap_family_id p = None) = (ap_lifecycle p = None)"
    by (rule new_approved_policy_facts [OF c [unfolded build_approved_policy_def]])+
qed

section \<open>Reference policies\<close>

text \<open>The fields that are no literals.\<close>

record reference_config =
  rcf_policy_id :: string
  rcf_version :: string
  rcf_family_id :: string
  rcf_reference_action_id :: string
  rcf_require_process_id :: bool
  rcf_reference_process_name :: string
  rcf_candidate_window_sec :: int
  rcf_expected_evaluation_horizon_sec :: int

definition validate_reference_config :: "reference_config \<Rightarrow> unit result" where
  "validate_reference_config c =
     (let texts = [rcf_policy_id c, rcf_version c, rcf_reference_action_id c, rcf_reference_process_name c] in
      seq (raise_first
       [(\<exists>s \<in> set texts. blank s, ValueError ''reference policy string values must not be blank''),
        (\<exists>s \<in> set texts. \<not> unpadded s, ValueError ''reference policy string values must not contain surrounding whitespace'')])
     (seq (validate_pair_identifier (rcf_family_id c))
     (raise_first
       [(rcf_candidate_window_sec c \<le> 0, ValueError ''candidate_window_sec greater_than 0''),
        (rcf_expected_evaluation_horizon_sec c \<le> 0, ValueError ''expected_evaluation_horizon_sec greater_than 0'')])))"

record reference_policy = reference_config +
  rfp_canonical_path :: string
  rfp_config_hash :: string

definition load_reference_registry :: "reference_config registry_file \<Rightarrow> reference_config list result" where
  "load_reference_registry f =
     (if \<not> rf_is_file f then Inl (RuntimeError ''FileNotFoundError'')
      else (case rf_data f of
        None \<Rightarrow> Inl (ValueError ''R1 reference policy config is not valid YAML'')
      | Some d \<Rightarrow>
          (case seq (raise_if (rg_config_version d \<noteq> ''v0.1'' \<or> rg_policies d = []) (ValueError ''registry''))
              (check_each validate_reference_config (rg_policies d)) of
            Inl e \<Rightarrow> Inl (ValueError ''R1 reference policy config does not match v0.1'')
          | Inr u \<Rightarrow> Inr (rg_policies d))))"

text \<open>\<open>relative\<close> is the path of the file below the root of the repository, if it is below it.\<close>

definition reference_config_path :: "string option \<Rightarrow> reference_config \<Rightarrow> string \<Rightarrow> string" where
  "reference_config_path relative c config_hash = (case relative of
     Some path \<Rightarrow> path
   | None \<Rightarrow> ''external-policy:'' @ rcf_policy_id c @ ''/'' @ rcf_version c @ ''@'' @ config_hash)"

definition build_reference_policy :: "(reference_config \<Rightarrow> string) \<Rightarrow> string option \<Rightarrow> reference_config \<Rightarrow> reference_policy result" where
  "build_reference_policy hash relative c = Inr \<lparr>rcf_policy_id = rcf_policy_id c, rcf_version = rcf_version c,
     rcf_family_id = rcf_family_id c, rcf_reference_action_id = rcf_reference_action_id c,
     rcf_require_process_id = rcf_require_process_id c, rcf_reference_process_name = rcf_reference_process_name c,
     rcf_candidate_window_sec = rcf_candidate_window_sec c,
     rcf_expected_evaluation_horizon_sec = rcf_expected_evaluation_horizon_sec c,
     rfp_canonical_path = reference_config_path relative c (hash c), rfp_config_hash = hash c\<rparr>"

definition load_r1_reference_policies :: "(reference_config \<Rightarrow> string) \<Rightarrow> string option \<Rightarrow> reference_config registry_file
    \<Rightarrow> reference_policy list result" where
  "load_r1_reference_policies hash relative f = bnd (load_reference_registry f)
     (build_unique (\<lambda>c. (rcf_policy_id c, rcf_version c)) (build_reference_policy hash relative) {})"

definition load_r1_reference_policy :: "(reference_config \<Rightarrow> string) \<Rightarrow> string option \<Rightarrow> reference_config registry_file
    \<Rightarrow> string \<Rightarrow> string \<Rightarrow> reference_policy result" where
  "load_r1_reference_policy hash relative f policy_id version =
     seq (validate_lookup_identity ''policy_id'' policy_id)
     (seq (validate_lookup_identity ''version'' version)
     (bnd (load_r1_reference_policies hash relative f) (\<lambda>ps.
      case find (\<lambda>p. rcf_policy_id p = policy_id \<and> rcf_version p = version) ps of
        None \<Rightarrow> Inl (ValueError ''R1 reference policy was not found'') | Some p \<Rightarrow> Inr p)))"

section \<open>The reference Event\<close>

record wmi_action_result =
  wa_action_id :: string
  wa_action_type :: string
  wa_invocation_method :: string
  wa_invoked_at :: datetime
  wa_return_value :: int
  wa_process_id :: "int option"

record reference_selection =
  rsl_run_id :: string
  rsl_entity_id :: string
  rsl_target_host :: string
  rsl_reference_action_id :: string
  rsl_reference_time :: datetime
  rsl_reference_source_event_id :: string
  rsl_reference_event_id :: string
  rsl_action_process_id :: "int option"
  rsl_policy_id :: string
  rsl_policy_version :: string
  rsl_policy_config_hash :: string
  rsl_policy_config_path :: string
  rsl_scenario_horizon_sec :: int
  rsl_expected_horizon_sec :: int
  rsl_horizon_matches :: bool

definition validate_policy_binding :: "reference_policy \<Rightarrow> string \<Rightarrow> string \<Rightarrow> int \<Rightarrow> unit result" where
  "validate_policy_binding p family version horizon =
     seq (validate_pair_identifier family)
     (seq (raise_if (family \<noteq> rcf_family_id p) (ValueError ''scenario family_id does not match reference policy family_id''))
     (seq (validate_lookup_identity ''reference_policy_version'' version)
     (raise_first
       [(version \<noteq> rcf_version p, ValueError ''RunMetadata reference_policy_version does not match reference policy''),
        (horizon \<noteq> rcf_expected_evaluation_horizon_sec p, ValueError ''scenario evaluation_horizon_sec does not match reference policy'')])))"

definition validate_action_result :: "reference_policy \<Rightarrow> wmi_action_result \<Rightarrow> unit result" where
  "validate_action_result p a =
     seq (raise_first
       [(wa_action_id a \<noteq> rcf_reference_action_id p, ValueError ''WMI action result does not match reference_action_id''),
        (wa_action_type a \<noteq> ''wmi_process_create'', ValueError ''WMI action result does not match policy action_type''),
        (wa_invocation_method a \<noteq> ''Win32_Process.Create'', ValueError ''WMI action result does not match policy invocation_method'')])
     (seq (require_utc ''WMI A01 invocation time'' (wa_invoked_at a))
     (raise_first
       [(wa_return_value a \<noteq> 0, ValueError ''WMI A01 did not succeed''),
        (rcf_require_process_id p \<and> \<not> is_some_and (wa_process_id a) (\<lambda>n. 1 \<le> n), ValueError ''WMI A01 must return a valid ProcessId'')]))"

definition validate_a01_anchor :: "wmi_action_result \<Rightarrow> datetime \<Rightarrow> unit result" where
  "validate_a01_anchor a started =
     seq (require_utc ''A01 execution record start time'' started)
     (raise_if (instant (wa_invoked_at a) \<noteq> instant started) (ValueError ''WMI invoked_at_utc must match the A01 execution record start time''))"

definition validated_string_set :: "string \<Rightarrow> string list \<Rightarrow> string set result" where
  "validated_string_set field vs = seq (raise_if (\<exists>v \<in> set vs. blank v) (ValueError (field @ '' must contain non-blank strings''))) (Inr (set vs))"

definition is_reference_source :: "normalized_event \<Rightarrow> string \<Rightarrow> string \<Rightarrow> bool" where
  "is_reference_source e run_id host \<longleftrightarrow> ev_run_id e = run_id \<and> ev_host_id e = host \<and> ev_source e = ''sysmon''
     \<and> ev_source_layer e = RawTelemetry \<and> ev_event_type e = ''process_create''"

definition matches_reference_event :: "normalized_event \<Rightarrow> reference_policy \<Rightarrow> string set \<Rightarrow> wmi_action_result
    \<Rightarrow> string \<Rightarrow> string \<Rightarrow> bool" where
  "matches_reference_event e p guids a run_id host \<longleftrightarrow> is_reference_source e run_id host
     \<and> (case ev_process e of None \<Rightarrow> False | Some pr \<Rightarrow>
          is_some_and (pi_process_guid pr) (\<lambda>g. g \<in> guids) \<and> pi_pid pr = wa_process_id a \<and> pi_parent_process_guid pr \<noteq> None
          \<and> is_some_and (pi_name pr) (\<lambda>n. str_casefold n = str_casefold (rcf_reference_process_name p)))"

definition has_wmi_context_parent :: "normalized_event \<Rightarrow> normalized_event list \<Rightarrow> string set \<Rightarrow> string \<Rightarrow> string \<Rightarrow> bool" where
  "has_wmi_context_parent candidate events guids run_id host = (case ev_process candidate of
     None \<Rightarrow> False
   | Some pr \<Rightarrow> (case pi_parent_process_guid pr of
       None \<Rightarrow> False
     | Some pg \<Rightarrow> ev_run_id candidate = run_id \<and> ev_host_id candidate = host
         \<and> (\<exists>c \<in> set events. is_reference_source c run_id host
              \<and> (case ev_process c of None \<Rightarrow> False | Some cp \<Rightarrow> pi_process_guid cp = Some pg \<and> pg \<in> guids
                   \<and> is_some_and (pi_name cp) (\<lambda>n. str_casefold n = ''wmiprvse.exe'')))))"

definition validate_sysmon_record_id :: "normalized_event \<Rightarrow> string result" where
  "validate_sysmon_record_id e = (case rl_source_record_id (ev_raw_ref e) of
     None \<Rightarrow> Inl (ValueError ''R1 reference raw_ref.source_record_id must be canonical decimal'')
   | Some s \<Rightarrow> seq (raise_first
       [(\<not> is_decimal s \<or> dec_digits (dec_value s) \<noteq> s, ValueError ''R1 reference raw_ref.source_record_id must be canonical decimal''),
        (ev_source_event_id e \<noteq> s, ValueError ''R1 reference source_event_id must match raw_ref.source_record_id'')]) (Inr s))"

text \<open>The loop over the structural candidates: the ones inside the window with their record ids.\<close>

fun reference_candidates :: "datetime \<Rightarrow> datetime \<Rightarrow> normalized_event list \<Rightarrow> (normalized_event \<times> datetime \<times> string) list result" where
  "reference_candidates lo hi [] = Inr []"
| "reference_candidates lo hi (e # es) = (case ev_event_time e of
     None \<Rightarrow> Inl (ValueError ''R1 reference Event must carry parsed Sysmon EventData.UtcTime'')
   | Some t \<Rightarrow>
       if ev_timestamp_source e \<noteq> EventTime then Inl (ValueError ''R1 reference Event must carry parsed Sysmon EventData.UtcTime'')
       else if \<not> (instant lo \<le> instant t \<and> instant t \<le> instant hi) then reference_candidates lo hi es
       else bnd (validate_sysmon_record_id e) (\<lambda>i. bnd (reference_candidates lo hi es) (\<lambda>cs. Inr ((e, t, i) # cs))))"

definition resolve_r1_wmi_reference :: "normalized_event list \<Rightarrow> reference_policy \<Rightarrow> string \<Rightarrow> string \<Rightarrow> string \<Rightarrow> string \<Rightarrow> int
    \<Rightarrow> wmi_action_result \<Rightarrow> datetime \<Rightarrow> string list \<Rightarrow> string list \<Rightarrow> reference_selection result" where
  "resolve_r1_wmi_reference events p run_id host family version horizon a started attributed lineage =
     seq (validate_policy_binding p family version horizon)
     (seq (validate_action_result p a)
     (seq (validate_lookup_identity ''expected_run_id'' run_id)
     (seq (validate_lookup_identity ''target_host'' host)
     (seq (validate_a01_anchor a started)
     (bnd (validated_string_set ''action_attributed_event_ids'' attributed) (\<lambda>ids.
     bnd (validated_string_set ''lineage_process_guids'' lineage) (\<lambda>guids.
     bnd (reference_candidates started (add_delta started (1000000 * rcf_candidate_window_sec p))
       (filter (\<lambda>e. ev_event_id e \<in> ids \<and> matches_reference_event e p guids a run_id host
          \<and> has_wmi_context_parent e events guids run_id host) events)) (\<lambda>candidates.
     case candidates of
       [(e, t, i)] \<Rightarrow> Inr \<lparr>rsl_run_id = ev_run_id e, rsl_entity_id = ev_host_id e, rsl_target_host = ev_host_id e,
         rsl_reference_action_id = rcf_reference_action_id p, rsl_reference_time = t, rsl_reference_source_event_id = i,
         rsl_reference_event_id = ev_event_id e, rsl_action_process_id = wa_process_id a, rsl_policy_id = rcf_policy_id p,
         rsl_policy_version = rcf_version p, rsl_policy_config_hash = rfp_config_hash p, rsl_policy_config_path = rfp_canonical_path p,
         rsl_scenario_horizon_sec = horizon, rsl_expected_horizon_sec = rcf_expected_evaluation_horizon_sec p,
         rsl_horizon_matches = True\<rparr>
     | _ \<Rightarrow> Inl (ValueError ''R1 reference candidate count must be exactly 1'')))))))))"

definition validate_normal_reference_fields :: "string option \<Rightarrow> datetime option \<Rightarrow> string option \<Rightarrow> unit result" where
  "validate_normal_reference_fields action time source =
     raise_if (action \<noteq> None \<or> time \<noteq> None \<or> source \<noteq> None) (ValueError ''Normal Run reference fields must all be null'')"

text \<open>The candidates are the structural candidates of the window, in order; their times all come from the Event.\<close>

lemma reference_candidates_ok:
  "reference_candidates lo hi es = Inr cs \<longleftrightarrow>
     (\<forall>e \<in> set es. ev_event_time e \<noteq> None \<and> ev_timestamp_source e = EventTime)
     \<and> list_all2 (\<lambda>e (e', t, i). e' = e \<and> ev_event_time e = Some t \<and> validate_sysmon_record_id e = Inr i)
         (filter (\<lambda>e. is_some_and (ev_event_time e) (\<lambda>t. instant lo \<le> instant t \<and> instant t \<le> instant hi)) es) cs"
proof (induction es arbitrary: cs)
  case Nil
  then show ?case by auto
next
  case (Cons e es)
  show ?case
  proof (cases "ev_event_time e")
    case None
    then show ?thesis by simp
  next
    case (Some t)
    with Cons show ?thesis by (auto simp: list_all2_Cons1)
  qed
qed

text \<open>The reference of a run is the only attributed process of the action in the window after it.\<close>

lemma resolved_reference:
  assumes "resolve_r1_wmi_reference events p run_id host family version horizon a started attributed lineage = Inr s"
  shows "rsl_run_id s = run_id" "rsl_entity_id s = host" "rsl_target_host s = host" "rsl_reference_event_id s \<in> set attributed"
    "rsl_action_process_id s = wa_process_id a" "rsl_horizon_matches s" "rsl_scenario_horizon_sec s = rsl_expected_horizon_sec s"
    "instant started \<le> instant (rsl_reference_time s)"
    "instant (rsl_reference_time s) \<le> instant started + 1000000 * rcf_candidate_window_sec p"
    "\<exists>e \<in> set events. ev_event_id e = rsl_reference_event_id s \<and> matches_reference_event e p (set lineage) a run_id host"
proof -
  let ?P = "\<lambda>e. ev_event_id e \<in> set attributed \<and> matches_reference_event e p (set lineage) a run_id host
     \<and> has_wmi_context_parent e events (set lineage) run_id host"
  let ?in = "\<lambda>e. is_some_and (ev_event_time e) (\<lambda>t. instant started \<le> instant t \<and> instant t \<le> instant started + 1000000 * rcf_candidate_window_sec p)"
  let ?s = "\<lambda>e t i. \<lparr>rsl_run_id = ev_run_id e, rsl_entity_id = ev_host_id e, rsl_target_host = ev_host_id e,
         rsl_reference_action_id = rcf_reference_action_id p, rsl_reference_time = t, rsl_reference_source_event_id = i,
         rsl_reference_event_id = ev_event_id e, rsl_action_process_id = wa_process_id a, rsl_policy_id = rcf_policy_id p,
         rsl_policy_version = rcf_version p, rsl_policy_config_hash = rfp_config_hash p, rsl_policy_config_path = rfp_canonical_path p,
         rsl_scenario_horizon_sec = horizon, rsl_expected_horizon_sec = rcf_expected_evaluation_horizon_sec p, rsl_horizon_matches = True\<rparr>"
  obtain cs where cs: "reference_candidates started (add_delta started (1000000 * rcf_candidate_window_sec p)) (filter ?P events) = Inr cs"
    and r: "(case cs of [(e, t, i)] \<Rightarrow> Inr (?s e t i) | _ \<Rightarrow> Inl (ValueError ''R1 reference candidate count must be exactly 1'')) = Inr s"
    and h: "horizon = rcf_expected_evaluation_horizon_sec p"
    using assms by (auto simp: resolve_r1_wmi_reference_def validated_string_set_def validate_policy_binding_def)
  obtain e t i where c: "reference_candidates started (add_delta started (1000000 * rcf_candidate_window_sec p)) (filter ?P events) = Inr [(e, t, i)]"
    and s: "s = ?s e t i" using cs r by (cases cs; cases "tl cs"; cases "hd cs") auto
  have one: "list_all2 (\<lambda>e (e', t, i). e' = e \<and> ev_event_time e = Some t \<and> validate_sysmon_record_id e = Inr i)
      (filter ?in (filter ?P events)) [(e, t, i)]"
    using c unfolding reference_candidates_ok by simp
  then have f: "filter ?in (filter ?P events) = [e]" and t: "ev_event_time e = Some t" by (auto simp: list_all2_Cons2)
  have "e \<in> set (filter ?in (filter ?P events))" unfolding f by simp
  then have e: "e \<in> set events" "?P e" "?in e" by simp_all
  then show "rsl_run_id s = run_id" "rsl_entity_id s = host" "rsl_target_host s = host" "rsl_reference_event_id s \<in> set attributed"
    "rsl_action_process_id s = wa_process_id a" "rsl_horizon_matches s" "rsl_scenario_horizon_sec s = rsl_expected_horizon_sec s"
    "instant started \<le> instant (rsl_reference_time s)"
    "instant (rsl_reference_time s) \<le> instant started + 1000000 * rcf_candidate_window_sec p"
    "\<exists>e \<in> set events. ev_event_id e = rsl_reference_event_id s \<and> matches_reference_event e p (set lineage) a run_id host"
    using t h by (auto simp: s matches_reference_event_def is_reference_source_def)
qed

end
