(* ===== verification/EvidenceArtifacts.thy ===== *)
theory EvidenceArtifacts
  imports IncrementalCheckpoint PolicyRegistry LineageFacts
begin

text \<open>
  The artifacts of an R1 run (\<open>pipeline/r1_artifacts.py\<close>): the Evidence as JSON lines and the
  extraction summary that describes them, written once and read back with every check of the
  reader; and the runs that take their policy from the registry (\<open>pipeline/r1_automated.py\<close>).

  A directory maps file names to contents. \<open>json.dumps\<close> and \<open>json.loads\<close>, the JSON of the Pydantic
  models, SHA-256 and whether a link can be made are parameters.
\<close>

record collection_provenance =
  cpv_run_id :: string
  cpv_target_host :: string
  cpv_scenario_identifier :: string
  cpv_scenario_version :: string
  cpv_policy_path :: string
  cpv_policy_id :: string
  cpv_policy_version :: string
  cpv_policy_config_hash :: string
  cpv_loader_identity :: "string \<times> string \<times> string"
  cpv_scenario_horizon_sec :: int
  cpv_expected_horizon_sec :: int
  cpv_horizon_matches :: bool
  cpv_reference_action_id :: string
  cpv_reference_time :: datetime
  cpv_reference_source_event_id :: string
  cpv_reference_event_id :: string
  cpv_action_process_id :: "int option"
  cpv_execution_commit :: string

record artifact_io =
  io_dumps :: "json \<Rightarrow> string"
  io_loads :: "string \<Rightarrow> json option"
  io_dump_evidence :: "evidence \<Rightarrow> string"
  io_parse_evidence :: "string \<Rightarrow> evidence option"
  io_dump_collection :: "collection_provenance \<Rightarrow> string"
  io_parse_collection :: "string \<Rightarrow> collection_provenance option"
  io_sha :: "string \<Rightarrow> string"
  io_link :: "string \<Rightarrow> bool"

type_synonym directory = "string \<Rightarrow> string option"

section \<open>Publication\<close>

text \<open>The files are linked in order; when one link fails, the ones already made are taken back.\<close>

fun link_files :: "artifact_io \<Rightarrow> (string \<times> string) list \<Rightarrow> string list \<Rightarrow> directory \<Rightarrow> unit result \<times> directory" where
  "link_files io [] published dir = (Inr (), dir)"
| "link_files io ((target, content) # files) published dir =
     (if dir target \<noteq> None then (Inl (FileExistsError target), dir |` (- set published))
      else if \<not> io_link io target then (Inl (RuntimeError ''OSError''), dir |` (- set published))
      else link_files io files (published @ [target]) (dir(target \<mapsto> content)))"

definition publish_files :: "artifact_io \<Rightarrow> (string \<times> string) list \<Rightarrow> directory \<Rightarrow> unit result \<times> directory" where
  "publish_files io files dir = link_files io files [] dir"

lemma link_files_spec:
  assumes "link_files io files published dir = (r, dir')" "distinct (published @ map fst files)"
    "\<And>t. t \<in> set published \<Longrightarrow> dir0 t = None" "\<And>t. t \<notin> set published \<Longrightarrow> dir t = dir0 t"
  shows "(case r of Inl e \<Rightarrow> dir' = dir0 | Inr u \<Rightarrow> dir' = dir ++ map_of files \<and> (\<forall>t \<in> fst ` set files. dir0 t = None))"
  using assms
proof (induction files arbitrary: published dir)
  case Nil
  then show ?case by auto
next
  case (Cons f files)
  obtain t c where f: "f = (t, c)" by fastforce
  show ?case
  proof (cases "dir t \<noteq> None \<or> \<not> io_link io t")
    case True
    then have "dir' = dir |` (- set published)" "\<exists>e. r = Inl e" using Cons.prems(1) f by (auto split: if_splits)
    moreover have "dir |` (- set published) = dir0"
      using Cons.prems(3,4) by (intro ext) (auto simp: restrict_map_def)
    ultimately show ?thesis by auto
  next
    case False
    then have step: "link_files io files (published @ [t]) (dir(t \<mapsto> c)) = (r, dir')" using Cons.prems(1) f by simp
    have new: "dir0 t = None" using Cons.prems(2,4) False f by auto
    have ih: "(case r of Inl e \<Rightarrow> dir' = dir0 | Inr u \<Rightarrow> dir' = (dir(t \<mapsto> c)) ++ map_of files \<and> (\<forall>t \<in> fst ` set files. dir0 t = None))"
      using Cons.prems new f by (intro Cons.IH [OF step]) auto
    have "map_of files t = None" using Cons.prems(2) f by (simp add: map_of_eq_None_iff)
    then have eq: "(dir(t \<mapsto> c)) ++ map_of files = dir ++ map_of (f # files)"
      using f by (intro ext) (auto simp: map_add_def split: option.splits)
    show ?thesis using ih new f unfolding eq by (cases r) (simp_all del: map_of.simps)
  qed
qed

text \<open>Publication is all or nothing.\<close>

lemma publish_files_atomic:
  assumes "publish_files io files dir = (r, dir')" "distinct (map fst files)"
  shows "(case r of Inl e \<Rightarrow> dir' = dir | Inr u \<Rightarrow> dir' = dir ++ map_of files \<and> (\<forall>t \<in> fst ` set files. dir t = None))"
  using link_files_spec [OF assms(1) [unfolded publish_files_def], of dir] assms(2) by simp

section \<open>The extraction summary\<close>

record lineage_provenance =
  lpv_anchor_event_id :: string
  lpv_terminal_event_id :: string
  lpv_policy_id :: string
  lpv_policy_version :: string
  lpv_policy_config_hash :: string
  lpv_context_event_ids :: "string list"

datatype selector_status = SelectorSelected | SelectorFailed

record selector_provenance =
  spv_policy_id :: string
  spv_version :: string
  spv_config_hash :: string
  spv_status :: selector_status
  spv_diagnostics :: "selector_diagnostic list"

definition new_selector_provenance :: "selector_provenance \<Rightarrow> selector_provenance result" where
  "new_selector_provenance p = seq (raise_first
     [(blank (spv_policy_id p), ValueError ''policy_id must be a non-blank string''),
      (blank (spv_version p), ValueError ''version must be a non-blank string''),
      (blank (spv_config_hash p), ValueError ''config_hash must be a non-blank string''),
      (spv_status p = SelectorSelected \<and> spv_diagnostics p \<noteq> [], ValueError ''selected selector provenance must not contain diagnostics''),
      (spv_status p = SelectorFailed \<and> spv_diagnostics p = [], ValueError ''failed selector provenance requires diagnostics'')])
     (Inr p)"

datatype extraction_status = ExtractionCompleted | ExtractionFailed

record extraction_summary =
  xs_run_id :: string
  xs_extractor_version :: string
  xs_input_event_count :: "int option"
  xs_evidence_count :: "int option"
  xs_status :: extraction_status
  xs_lineage_inputs :: "lineage_provenance list option"
  xs_warnings :: "string list"
  xs_diagnostics :: "extraction_diagnostic list"
  xs_error_type :: "string option"
  xs_error_message :: "string option"
  xs_evidence_sha :: "string option"
  xs_selector :: "selector_provenance option"

record evidence_artifact_run =
  ar_evidences :: "evidence list"
  ar_summary :: extraction_summary
  ar_summary_sha :: string

text \<open>The tuple of strings lineage inputs are sorted by.\<close>

definition lineage_provenance_key :: "lineage_provenance \<Rightarrow> string \<times> string \<times> string \<times> string \<times> string \<times> string list" where
  "lineage_provenance_key p = (lpv_anchor_event_id p, lpv_terminal_event_id p, lpv_policy_id p, lpv_policy_version p,
     lpv_policy_config_hash p, lpv_context_event_ids p)"

lemma lineage_provenance_key_inject: "lineage_provenance_key p = lineage_provenance_key q \<Longrightarrow> p = q"
  by (cases p; cases q) (simp add: lineage_provenance_key_def)

definition provenance_of_input :: "lineage_input \<Rightarrow> lineage_provenance" where
  "provenance_of_input i = (let p = lin_approved_policy i in
     \<lparr>lpv_anchor_event_id = lin_anchor_event_id i, lpv_terminal_event_id = lin_terminal_event_id i, lpv_policy_id = ap_policy_id p,
      lpv_policy_version = ap_version p, lpv_policy_config_hash = ap_config_hash p, lpv_context_event_ids = lin_context_event_ids i\<rparr>)"

definition lineage_input_provenance :: "lineage_input list \<Rightarrow> lineage_provenance list" where
  "lineage_input_provenance inputs = sort_key lineage_provenance_key (map provenance_of_input inputs)"

definition r1_candidate_evidence_types :: "string \<Rightarrow> string set option" where
  "r1_candidate_evidence_types version = (if version = r1_extractor_version
     then Some {remote_process_network_follow_on, remote_session_process_lineage_deviation} else None)"

definition validate_artifact_run_id :: "string \<Rightarrow> unit result" where
  "validate_artifact_run_id s = seq (validate_required_identifier s) (validate_run_id s)"

definition validate_lineage_provenance :: "lineage_provenance \<Rightarrow> unit result" where
  "validate_lineage_provenance p = raise_first
     [(has_duplicates (lpv_context_event_ids p), ValueError ''context_event_ids must contain unique Event IDs''),
      (lpv_context_event_ids p \<noteq> [] \<and> hd (lpv_context_event_ids p) \<noteq> lpv_anchor_event_id p,
         ValueError ''context_event_ids must start with anchor_event_id''),
      (lpv_terminal_event_id p \<in> set (lpv_context_event_ids p), ValueError ''terminal_event_id must not be a context Event'')]"

definition validate_selector_contract :: "extraction_summary \<Rightarrow> unit result" where
  "validate_selector_contract s = (case xs_selector s of
     None \<Rightarrow> Inr ()
   | Some sel \<Rightarrow> (let inputs = (case xs_lineage_inputs s of None \<Rightarrow> [] | Some ps \<Rightarrow> ps) in
       if spv_status sel = SelectorSelected
       then raise_if (inputs = []) (ValueError ''selected selector provenance requires a lineage input'')
       else raise_first
         [(inputs \<noteq> [], ValueError ''failed selector provenance must not contain lineage inputs''),
          (xs_status s = ExtractionCompleted \<and> xs_evidence_count s \<noteq> Some 0, ValueError ''failed selector provenance must not contain Evidence'')]))"

definition validate_summary_status :: "extraction_summary \<Rightarrow> unit result" where
  "validate_summary_status s =
     (if xs_status s = ExtractionCompleted then raise_first
       [(xs_input_event_count s = None \<or> xs_evidence_count s = None, ValueError ''completed summary requires Event and Evidence counts''),
        (xs_lineage_inputs s = None, ValueError ''completed summary requires lineage_inputs provenance''),
        (xs_error_type s \<noteq> None \<or> xs_error_message s \<noteq> None, ValueError ''completed summary must not contain extraction errors''),
        (\<not> is_some_and (xs_evidence_sha s) sha256_ok, ValueError ''completed summary requires a SHA-256 value'')]
      else raise_first
       [(xs_evidence_count s \<noteq> None \<or> xs_evidence_sha s \<noteq> None, ValueError ''failed summary must not describe a completed Evidence artifact''),
        (xs_diagnostics s \<noteq> [], ValueError ''failed summary must not store extraction exceptions as diagnostics''),
        (xs_error_type s \<in> {None, Some []} \<or> xs_error_message s = None, ValueError ''failed summary requires error_type and error_message'')])"

definition validate_summary_contract :: "extraction_summary \<Rightarrow> unit result" where
  "validate_summary_contract s =
     seq (validate_artifact_run_id (xs_run_id s))
     (seq (raise_first
       [(is_some_and (xs_input_event_count s) (\<lambda>n. n < 0), ValueError ''input_event_count must not be negative''),
        (is_some_and (xs_evidence_count s) (\<lambda>n. n < 0), ValueError ''evidence_count must not be negative'')])
     (seq (case xs_lineage_inputs s of None \<Rightarrow> Inr () | Some ps \<Rightarrow>
         seq (raise_if (ps \<noteq> sort_key lineage_provenance_key ps) (ValueError ''lineage_inputs must use the canonical ordering of the writer''))
           (check_each validate_lineage_provenance ps))
     (seq (validate_selector_contract s) (validate_summary_status s))))"

section \<open>Serialization\<close>

definition json_text_option :: "string option \<Rightarrow> json" where
  "json_text_option v = (case v of None \<Rightarrow> JNull | Some s \<Rightarrow> JStr s)"

definition json_count :: "int option \<Rightarrow> json" where
  "json_count v = (case v of None \<Rightarrow> JNull | Some n \<Rightarrow> JInt n)"

definition json_texts :: "string list \<Rightarrow> json" where
  "json_texts ss = JList (map JStr ss)"

definition extraction_status_text :: "extraction_status \<Rightarrow> string" where
  "extraction_status_text s = (case s of ExtractionCompleted \<Rightarrow> ''completed'' | ExtractionFailed \<Rightarrow> ''failed'')"

definition selector_status_text :: "selector_status \<Rightarrow> string" where
  "selector_status_text s = (case s of SelectorSelected \<Rightarrow> ''selected'' | SelectorFailed \<Rightarrow> ''failed'')"

text \<open>The fields are listed in the order of \<open>sort_keys=True\<close>.\<close>

definition lineage_payload :: "lineage_provenance \<Rightarrow> json" where
  "lineage_payload p = JObj ([(''anchor_event_id'', JStr (lpv_anchor_event_id p))]
     @ (if lpv_context_event_ids p = [] then [] else [(''context_event_ids'', json_texts (lpv_context_event_ids p))])
     @ [(''policy_config_hash'', JStr (lpv_policy_config_hash p)), (''policy_id'', JStr (lpv_policy_id p)),
        (''policy_version'', JStr (lpv_policy_version p)), (''terminal_event_id'', JStr (lpv_terminal_event_id p))])"

definition selector_payload :: "selector_provenance \<Rightarrow> json" where
  "selector_payload p = JObj [(''config_hash'', JStr (spv_config_hash p)), (''diagnostics'', json_texts (map selector_text (spv_diagnostics p))),
     (''policy_id'', JStr (spv_policy_id p)), (''status'', JStr (selector_status_text (spv_status p))), (''version'', JStr (spv_version p))]"

definition summary_payload :: "extraction_summary \<Rightarrow> json" where
  "summary_payload s = JObj
     ([(''diagnostics'', json_texts (map diagnostic_text (xs_diagnostics s))), (''error_message'', json_text_option (xs_error_message s)),
       (''error_type'', json_text_option (xs_error_type s)), (''evidence_artifact_sha256'', json_text_option (xs_evidence_sha s)),
       (''evidence_count'', json_count (xs_evidence_count s)), (''extractor_version'', JStr (xs_extractor_version s)),
       (''input_event_count'', json_count (xs_input_event_count s)),
       (''lineage_inputs'', case xs_lineage_inputs s of None \<Rightarrow> JNull | Some ps \<Rightarrow> JList (map lineage_payload ps)),
       (''run_id'', JStr (xs_run_id s))]
      @ (case xs_selector s of None \<Rightarrow> [] | Some p \<Rightarrow> [(''selector'', selector_payload p)])
      @ [(''status'', JStr (extraction_status_text (xs_status s))), (''telemetry_completeness'', JStr ''not_provided''),
         (''warnings'', json_texts (xs_warnings s))])"

definition newline :: string where
  "newline = [CHR 0x0A]"

definition serialize_summary :: "artifact_io \<Rightarrow> extraction_summary \<Rightarrow> string" where
  "serialize_summary io s = io_dumps io (summary_payload s) @ newline"

definition serialize_evidences :: "artifact_io \<Rightarrow> evidence list \<Rightarrow> string" where
  "serialize_evidences io es = concat (map (\<lambda>e. io_dump_evidence io e @ newline) es)"

section \<open>Reading\<close>

text \<open>\<open>str.splitlines\<close>\<close>

definition is_line_break :: "char \<Rightarrow> bool" where
  "is_line_break c = (let n = code_point c in (10 \<le> n \<and> n \<le> 13) \<or> (28 \<le> n \<and> n \<le> 30) \<or> n = 133)"

definition after_break :: "char \<Rightarrow> string \<Rightarrow> string" where
  "after_break c cs = (if code_point c = 13 \<and> take 1 cs = newline then tl cs else cs)"

lemma after_break_length [simp]: "length (after_break c cs) \<le> length cs"
  by (simp add: after_break_def)

function split_lines :: "string \<Rightarrow> string \<Rightarrow> string list" where
  "split_lines line [] = (if line = [] then [] else [line])"
| "split_lines line (c # cs) = (if is_line_break c then line # split_lines [] (after_break c cs) else split_lines (line @ [c]) cs)"
  by pat_completeness auto
termination by (relation "measure (\<lambda>(line, cs). length cs)") (auto simp: le_imp_less_Suc)

lemma split_lines_plain: "list_all (\<lambda>c. \<not> is_line_break c) xs \<Longrightarrow> split_lines line (xs @ newline @ rest) = (line @ xs) # split_lines [] rest"
  by (induction xs arbitrary: line) (auto simp: newline_def is_line_break_def code_point_def after_break_def)

text \<open>What an item of the payload holds.\<close>

definition is_text :: "json option \<Rightarrow> bool" where
  "is_text v = (case v of Some (JStr s) \<Rightarrow> \<not> blank s | _ \<Rightarrow> False)"

definition is_count_or_null :: "json option \<Rightarrow> bool" where
  "is_count_or_null v = (case v of Some JNull \<Rightarrow> True | Some (JInt n) \<Rightarrow> True | _ \<Rightarrow> False)"

definition is_text_or_null :: "json option \<Rightarrow> bool" where
  "is_text_or_null v = (case v of Some JNull \<Rightarrow> True | Some (JStr s) \<Rightarrow> True | _ \<Rightarrow> False)"

definition is_string :: "json \<Rightarrow> bool" where
  "is_string v = (case v of JStr s \<Rightarrow> True | _ \<Rightarrow> False)"

definition is_texts :: "(json \<Rightarrow> bool) \<Rightarrow> json option \<Rightarrow> bool" where
  "is_texts P v = (case v of Some (JList vs) \<Rightarrow> list_all P vs | _ \<Rightarrow> False)"

definition summary_field_names :: "string set" where
  "summary_field_names = {''run_id'', ''extractor_version'', ''input_event_count'', ''evidence_count'', ''status'',
     ''telemetry_completeness'', ''lineage_inputs'', ''warnings'', ''diagnostics'', ''error_type'', ''error_message'',
     ''evidence_artifact_sha256'', ''selector''}"

definition lineage_field_names :: "string set" where
  "lineage_field_names = {''anchor_event_id'', ''terminal_event_id'', ''policy_id'', ''policy_version'', ''policy_config_hash'',
     ''context_event_ids''}"

definition selector_field_names :: "string set" where
  "selector_field_names = {''policy_id'', ''version'', ''config_hash'', ''status'', ''diagnostics''}"

definition with_default :: "string \<Rightarrow> json \<Rightarrow> json_dict \<Rightarrow> json_dict" where
  "with_default key v d = (if map_of d key = None then d @ [(key, v)] else d)"

definition validate_selector_payload :: "json option \<Rightarrow> unit result" where
  "validate_selector_payload v = (case v of
     Some JNull \<Rightarrow> Inr ()
   | Some (JObj d) \<Rightarrow> raise_first
       [(fst ` set d \<noteq> selector_field_names, TypeError ''selector must match the selector provenance contract''),
        (\<exists>k \<in> {''policy_id'', ''version'', ''config_hash'', ''status''}. \<not> is_text (map_of d k), TypeError ''selector field must be a non-blank string''),
        (\<not> is_texts is_string (map_of d ''diagnostics''), TypeError ''selector diagnostics must be an array of strings'')]
   | _ \<Rightarrow> Inl (TypeError ''selector must match the selector provenance contract''))"

definition validate_lineage_item :: "json \<Rightarrow> unit result" where
  "validate_lineage_item v = (case v of
     JObj d \<Rightarrow>
       seq (raise_if (fst ` set d \<notin> {lineage_field_names, lineage_field_names - {''context_event_ids''}})
         (TypeError ''lineage_inputs items must match the provenance contract''))
       (let d = with_default ''context_event_ids'' (JList []) d in
        raise_first
         [(\<exists>k \<in> lineage_field_names - {''context_event_ids''}. \<not> is_text (map_of d k), TypeError ''lineage_inputs provenance values must be non-blank strings''),
          (\<not> is_texts (\<lambda>i. is_text (Some i)) (map_of d ''context_event_ids''), TypeError ''context_event_ids must be an array of non-blank strings'')])
   | _ \<Rightarrow> Inl (TypeError ''lineage_inputs items must match the provenance contract''))"

definition validate_summary_payload :: "json \<Rightarrow> json_dict result" where
  "validate_summary_payload payload = (case payload of
     JObj d \<Rightarrow>
       seq (raise_if (fst ` set d \<notin> {summary_field_names, summary_field_names - {''selector''}})
         (ValueError ''R1 extraction summary fields do not match the writer contract''))
       (let d = with_default ''selector'' JNull d in
        seq (raise_first
         [(\<exists>k \<in> {''run_id'', ''extractor_version''}. \<not> is_text (map_of d k), TypeError ''must be a non-blank string''),
          (\<exists>k \<in> {''input_event_count'', ''evidence_count''}. \<not> is_count_or_null (map_of d k), TypeError ''must be an integer or null''),
          (\<exists>k \<in> {''warnings'', ''diagnostics''}. \<not> is_texts is_string (map_of d k), TypeError ''must be an array of strings''),
          (\<exists>k \<in> {''error_type'', ''error_message'', ''evidence_artifact_sha256''}. \<not> is_text_or_null (map_of d k), TypeError ''must be a string or null'')])
        (seq (validate_selector_payload (map_of d ''selector''))
        (seq (case map_of d ''lineage_inputs'' of
             Some JNull \<Rightarrow> Inr ()
           | Some (JList items) \<Rightarrow> check_each validate_lineage_item items
           | _ \<Rightarrow> Inl (TypeError ''lineage_inputs must be an array or null''))
        (Inr d))))
   | _ \<Rightarrow> Inl (TypeError ''R1 extraction summary must be a JSON object''))"

section \<open>The summary of a payload\<close>

text \<open>\<open>TypeAdapter(R1ExtractionSummary).validate_python\<close> on a payload that passed the checks above.\<close>

definition text_at :: "json_dict \<Rightarrow> string \<Rightarrow> string result" where
  "text_at d k = (case map_of d k of Some (JStr s) \<Rightarrow> Inr s | _ \<Rightarrow> Inl (ValueError ''string_type''))"

definition text_option_at :: "json_dict \<Rightarrow> string \<Rightarrow> string option result" where
  "text_option_at d k = (case map_of d k of Some (JStr s) \<Rightarrow> Inr (Some s) | Some JNull \<Rightarrow> Inr None | _ \<Rightarrow> Inl (ValueError ''string_type''))"

definition count_at :: "json_dict \<Rightarrow> string \<Rightarrow> int option result" where
  "count_at d k = (case map_of d k of Some (JInt n) \<Rightarrow> Inr (Some n) | Some JNull \<Rightarrow> Inr None | _ \<Rightarrow> Inl (ValueError ''int_type''))"

definition texts_at :: "json_dict \<Rightarrow> string \<Rightarrow> string list result" where
  "texts_at d k = (case map_of d k of
     Some (JList vs) \<Rightarrow> map_result (\<lambda>v. case v of JStr s \<Rightarrow> Inr s | _ \<Rightarrow> Inl (ValueError ''string_type'')) vs
   | _ \<Rightarrow> Inl (ValueError ''tuple_type''))"

definition literal_of :: "('a \<Rightarrow> string) \<Rightarrow> 'a list \<Rightarrow> string \<Rightarrow> 'a result" where
  "literal_of text options s = (case find (\<lambda>x. text x = s) options of None \<Rightarrow> Inl (ValueError ''literal_error'') | Some x \<Rightarrow> Inr x)"

definition extraction_diagnostics :: "extraction_diagnostic list" where
  "extraction_diagnostics = [ExMissingProcessGuid, ExTruncatedLineage, ExLineageCycle, ExDuplicateProcessGuid, ExMissingOrBlankProcessName]"

definition selector_diagnostics :: "selector_diagnostic list" where
  "selector_diagnostics = [EmptyEventBatch, MixedRunScope, MixedHostScope, DuplicateEventId, MissingProcessGuid, DuplicateProcessGuid,
     NoTerminalCandidate, AmbiguousTerminalCandidate, TruncatedLineage, LineageCycle, TemporalInversion]"

definition lineage_of_payload :: "json \<Rightarrow> lineage_provenance result" where
  "lineage_of_payload v = (case v of
     JObj d \<Rightarrow> (let d = with_default ''context_event_ids'' (JList []) d in
       bnd (text_at d ''anchor_event_id'') (\<lambda>anchor. bnd (text_at d ''terminal_event_id'') (\<lambda>terminal.
       bnd (text_at d ''policy_id'') (\<lambda>i. bnd (text_at d ''policy_version'') (\<lambda>version. bnd (text_at d ''policy_config_hash'') (\<lambda>h.
       bnd (texts_at d ''context_event_ids'') (\<lambda>ctx.
       Inr \<lparr>lpv_anchor_event_id = anchor, lpv_terminal_event_id = terminal, lpv_policy_id = i, lpv_policy_version = version,
         lpv_policy_config_hash = h, lpv_context_event_ids = ctx\<rparr>)))))))
   | _ \<Rightarrow> Inl (ValueError ''dataclass_type''))"

definition selector_of_payload :: "json option \<Rightarrow> selector_provenance option result" where
  "selector_of_payload v = (case v of
     Some JNull \<Rightarrow> Inr None
   | Some (JObj d) \<Rightarrow>
       bnd (text_at d ''policy_id'') (\<lambda>i. bnd (text_at d ''version'') (\<lambda>version. bnd (text_at d ''config_hash'') (\<lambda>h.
       bnd (bnd (text_at d ''status'') (literal_of selector_status_text [SelectorSelected, SelectorFailed])) (\<lambda>status.
       bnd (bnd (texts_at d ''diagnostics'') (map_result (literal_of selector_text selector_diagnostics))) (\<lambda>ds.
       bnd (new_selector_provenance \<lparr>spv_policy_id = i, spv_version = version, spv_config_hash = h, spv_status = status,
         spv_diagnostics = ds\<rparr>) (\<lambda>p. Inr (Some p)))))))
   | _ \<Rightarrow> Inl (ValueError ''dataclass_type''))"

definition summary_of_payload :: "json_dict \<Rightarrow> extraction_summary result" where
  "summary_of_payload d =
     bnd (text_at d ''run_id'') (\<lambda>run_id. bnd (text_at d ''extractor_version'') (\<lambda>version.
     bnd (count_at d ''input_event_count'') (\<lambda>n. bnd (count_at d ''evidence_count'') (\<lambda>m.
     bnd (bnd (text_at d ''status'') (literal_of extraction_status_text [ExtractionCompleted, ExtractionFailed])) (\<lambda>status.
     bnd (bnd (text_at d ''telemetry_completeness'') (\<lambda>t. raise_if (t \<noteq> ''not_provided'') (ValueError ''literal_error''))) (\<lambda>u.
     bnd (case map_of d ''lineage_inputs'' of Some JNull \<Rightarrow> Inr None
        | Some (JList vs) \<Rightarrow> bnd (map_result lineage_of_payload vs) (\<lambda>ps. Inr (Some ps))
        | _ \<Rightarrow> Inl (ValueError ''tuple_type'')) (\<lambda>inputs.
     bnd (texts_at d ''warnings'') (\<lambda>warnings.
     bnd (bnd (texts_at d ''diagnostics'') (map_result (literal_of diagnostic_text extraction_diagnostics))) (\<lambda>ds.
     bnd (text_option_at d ''error_type'') (\<lambda>ty. bnd (text_option_at d ''error_message'') (\<lambda>msg.
     bnd (text_option_at d ''evidence_artifact_sha256'') (\<lambda>sha. bnd (selector_of_payload (map_of d ''selector'')) (\<lambda>sel.
     Inr \<lparr>xs_run_id = run_id, xs_extractor_version = version, xs_input_event_count = n, xs_evidence_count = m, xs_status = status,
       xs_lineage_inputs = inputs, xs_warnings = warnings, xs_diagnostics = ds, xs_error_type = ty, xs_error_message = msg,
       xs_evidence_sha = sha, xs_selector = sel\<rparr>)))))))))))))"

section \<open>Writing and loading\<close>

definition evidence_filename :: string where
  "evidence_filename = ''r1_evidence.jsonl''"

definition summary_filename :: string where
  "summary_filename = ''r1_extraction_summary.json''"

definition collection_filename :: string where
  "collection_filename = ''r1_collection_provenance.json''"

definition prepare_output_paths :: "bool \<Rightarrow> directory \<Rightarrow> unit result" where
  "prepare_output_paths with_collection dir =
     raise_if (\<exists>t \<in> {evidence_filename, summary_filename} \<union> (if with_collection then {collection_filename} else {}). dir t \<noteq> None)
       (FileExistsError ''R1 artifact files must not already exist'')"

definition validate_event_run_scope :: "normalized_event list \<Rightarrow> string \<Rightarrow> unit result" where
  "validate_event_run_scope events run_id =
     raise_if (\<exists>e \<in> set events. ev_run_id e \<noteq> run_id) (ValueError ''all events must belong to the requested run_id'')"

definition exn_type_name :: "exn \<Rightarrow> string" where
  "exn_type_name e = (case e of ValueError m \<Rightarrow> ''ValueError'' | TypeError m \<Rightarrow> ''TypeError'' | RuntimeError m \<Rightarrow> ''RuntimeError''
     | KeyError m \<Rightarrow> ''KeyError'' | AssertionError \<Rightarrow> ''AssertionError'' | FileExistsError m \<Rightarrow> ''FileExistsError''
     | LateStreamEventError m \<Rightarrow> ''LateStreamEventError'')"

definition failed_summary :: "string \<Rightarrow> normalized_event list \<Rightarrow> lineage_input list \<Rightarrow> selector_provenance option \<Rightarrow> exn \<Rightarrow> extraction_summary" where
  "failed_summary run_id events inputs selector e = \<lparr>xs_run_id = run_id, xs_extractor_version = r1_extractor_version,
     xs_input_event_count = Some (int (length events)), xs_evidence_count = None, xs_status = ExtractionFailed,
     xs_lineage_inputs = Some (lineage_input_provenance inputs), xs_warnings = [], xs_diagnostics = [],
     xs_error_type = Some (exn_type_name e), xs_error_message = Some (exn_text e), xs_evidence_sha = None, xs_selector = selector\<rparr>"

definition completed_summary :: "artifact_io \<Rightarrow> string \<Rightarrow> normalized_event list \<Rightarrow> lineage_input list \<Rightarrow> selector_provenance option
    \<Rightarrow> extraction_result \<Rightarrow> extraction_summary" where
  "completed_summary io run_id events inputs selector r = \<lparr>xs_run_id = run_id, xs_extractor_version = r1_extractor_version,
     xs_input_event_count = Some (int (length events)), xs_evidence_count = Some (int (length (exr_evidences r))),
     xs_status = ExtractionCompleted, xs_lineage_inputs = Some (lineage_input_provenance inputs), xs_warnings = [],
     xs_diagnostics = exr_diagnostics r, xs_error_type = None, xs_error_message = None,
     xs_evidence_sha = Some (io_sha io (serialize_evidences io (exr_evidences r))), xs_selector = selector\<rparr>"

definition serialize_collection_provenance :: "artifact_io \<Rightarrow> collection_provenance \<Rightarrow> string" where
  "serialize_collection_provenance io p = io_dump_collection io p @ newline"

definition artifact_files :: "artifact_io \<Rightarrow> evidence list \<Rightarrow> extraction_summary \<Rightarrow> collection_provenance option \<Rightarrow> (string \<times> string) list" where
  "artifact_files io es s coll = [(evidence_filename, serialize_evidences io es), (summary_filename, serialize_summary io s)]
     @ (case coll of None \<Rightarrow> [] | Some p \<Rightarrow> [(collection_filename, serialize_collection_provenance io p)])"

definition run_and_write_r1_evidence_artifacts :: "artifact_io \<Rightarrow> evidence_namer \<Rightarrow> normalized_event list \<Rightarrow> string \<Rightarrow> lineage_input list
    \<Rightarrow> selector_provenance option \<Rightarrow> collection_provenance option \<Rightarrow> directory \<Rightarrow> evidence_artifact_run result \<times> directory" where
  "run_and_write_r1_evidence_artifacts io nm events run_id inputs selector coll dir =
     (case seq (validate_artifact_run_id run_id) (prepare_output_paths (coll \<noteq> None) dir) of
        Inl e \<Rightarrow> (Inl e, dir)
      | Inr u \<Rightarrow>
          (case seq (validate_event_run_scope events run_id) (run_r1_evidence_pipeline_with_diagnostics nm events inputs) of
             Inl e \<Rightarrow> (Inl e, snd (publish_files io
               [(summary_filename, serialize_summary io (failed_summary run_id events inputs selector e))] dir))
           | Inr r \<Rightarrow>
               (let s = completed_summary io run_id events inputs selector r in
                case validate_summary_contract s of
                  Inl e \<Rightarrow> (Inl e, dir)
                | Inr u \<Rightarrow>
                    (case publish_files io (artifact_files io (exr_evidences r) s coll) dir of
                       (Inl e, dir') \<Rightarrow> (Inl e, dir')
                     | (Inr u, dir') \<Rightarrow> (Inr \<lparr>ar_evidences = exr_evidences r, ar_summary = s,
                         ar_summary_sha = io_sha io (serialize_summary io s)\<rparr>, dir')))))"

definition read_summary_artifact :: "artifact_io \<Rightarrow> directory \<Rightarrow> (extraction_summary \<times> string) result" where
  "read_summary_artifact io dir = (case dir summary_filename of
     None \<Rightarrow> Inl (ValueError ''R1 extraction summary is not valid JSON'')
   | Some content \<Rightarrow> (case io_loads io content of
       None \<Rightarrow> Inl (ValueError ''R1 extraction summary is not valid JSON'')
     | Some payload \<Rightarrow>
         (case bnd (validate_summary_payload payload) (\<lambda>d. bnd (summary_of_payload d) (\<lambda>s. seq (validate_summary_contract s) (Inr s))) of
            Inl e \<Rightarrow> Inl (ValueError ''R1 extraction summary does not match the writer contract'')
          | Inr s \<Rightarrow> Inr (s, io_sha io content))))"

definition read_evidence_line :: "artifact_io \<Rightarrow> string \<Rightarrow> evidence result" where
  "read_evidence_line io line =
     (if blank line then Inl (ValueError ''R1 Evidence JSONL contains a blank line'')
      else (case io_parse_evidence io line of
        None \<Rightarrow> Inl (ValueError ''invalid Evidence JSON'')
      | Some e \<Rightarrow> (case validate_evidence e of Inl x \<Rightarrow> Inl (ValueError ''invalid Evidence JSON'') | Inr e \<Rightarrow> Inr e)))"

definition read_evidences :: "artifact_io \<Rightarrow> string \<Rightarrow> evidence list result" where
  "read_evidences io content = map_result (read_evidence_line io) (split_lines [] content)"

definition matches_lineage_deviation_provenance :: "evidence \<Rightarrow> lineage_provenance \<Rightarrow> bool" where
  "matches_lineage_deviation_provenance e p \<longleftrightarrow>
     last (evd_event_ids e) = lpv_terminal_event_id p
     \<and> (if lpv_context_event_ids p \<noteq> []
        then lpv_anchor_event_id p \<in> set (lpv_context_event_ids p) \<and> set (evd_event_ids e) \<inter> set (lpv_context_event_ids p) = {}
        else hd (evd_event_ids e) = lpv_anchor_event_id p)
     \<and> map_of (evd_features e) ''policy_id'' = Some (FeatStr (lpv_policy_id p))
     \<and> map_of (evd_features e) ''version'' = Some (FeatStr (lpv_policy_version p))
     \<and> map_of (evd_features e) ''config_hash'' = Some (FeatStr (lpv_policy_config_hash p))"

definition validate_evidence_lineage_provenance :: "lineage_provenance list \<Rightarrow> evidence \<Rightarrow> unit result" where
  "validate_evidence_lineage_provenance inputs e =
     (if evd_type e = remote_session_process_lineage_deviation
      then raise_if (\<not> (\<exists>p \<in> set inputs. matches_lineage_deviation_provenance e p))
        (ValueError ''lineage deviation Evidence does not match summary lineage/policy provenance'')
      else raise_if (evd_type e = remote_process_network_follow_on \<and> \<not> (\<exists>p \<in> set inputs. hd (evd_event_ids e) = lpv_terminal_event_id p))
        (ValueError ''network follow-on Evidence does not match summary terminal provenance''))"

text \<open>The loop over the Evidence, with the identifiers seen so far.\<close>

fun check_loaded_evidences :: "extraction_summary \<Rightarrow> string set \<Rightarrow> lineage_provenance list \<Rightarrow> string set \<Rightarrow> evidence list \<Rightarrow> unit result" where
  "check_loaded_evidences s types inputs seen [] = Inr ()"
| "check_loaded_evidences s types inputs seen (e # es) =
     seq (raise_first
       [(evd_id e \<in> seen, ValueError ''R1 Evidence JSONL contains duplicate evidence_id''),
        (evd_run_id e \<noteq> xs_run_id s, ValueError ''Evidence run_id does not match the extraction summary''),
        (evd_extractor_version e \<noteq> xs_extractor_version s, ValueError ''Evidence extractor_version does not match the extraction summary''),
        (evd_type e \<notin> types, ValueError ''Evidence evidence_type is not supported by the R1 extractor_version'')])
     (seq (validate_evidence_lineage_provenance inputs e) (check_loaded_evidences s types inputs (insert (evd_id e) seen) es))"

definition validate_completed_artifacts :: "evidence list \<Rightarrow> extraction_summary \<Rightarrow> unit result" where
  "validate_completed_artifacts es s =
     seq (raise_first
       [(xs_evidence_count s \<noteq> Some (int (length es)), ValueError ''R1 Evidence count does not match the extraction summary''),
        (es \<noteq> sort_key r1_evidence_sort_key es, ValueError ''R1 Evidence JSONL does not use the canonical ordering of the writer'')])
     (case r1_candidate_evidence_types (xs_extractor_version s) of
        None \<Rightarrow> Inl (ValueError ''unsupported R1 extractor_version in extraction summary'')
      | Some types \<Rightarrow> (case xs_lineage_inputs s of
          None \<Rightarrow> Inl (ValueError ''completed summary requires lineage_inputs provenance'')
        | Some inputs \<Rightarrow> check_loaded_evidences s types inputs {} es))"

definition load_r1_evidence_artifacts :: "artifact_io \<Rightarrow> directory \<Rightarrow> evidence_artifact_run result" where
  "load_r1_evidence_artifacts io dir =
     bnd (read_summary_artifact io dir) (\<lambda>(s, sha).
     seq (raise_if (xs_status s \<noteq> ExtractionCompleted) (ValueError ''failed R1 extraction artifact cannot be loaded as Evidence''))
     (case dir evidence_filename of
        None \<Rightarrow> Inl (ValueError ''R1 Evidence JSONL is not readable'')
      | Some content \<Rightarrow>
          seq (raise_if (Some (io_sha io content) \<noteq> xs_evidence_sha s) (ValueError ''R1 Evidence JSONL SHA-256 does not match the extraction summary''))
          (bnd (read_evidences io content) (\<lambda>es.
           seq (validate_completed_artifacts es s) (Inr \<lparr>ar_evidences = es, ar_summary = s, ar_summary_sha = sha\<rparr>)))))"

definition load_r1_extraction_summary :: "artifact_io \<Rightarrow> directory \<Rightarrow> extraction_summary result" where
  "load_r1_extraction_summary io dir = bnd (read_summary_artifact io dir) (\<lambda>(s, sha). Inr s)"

section \<open>Collection provenance\<close>

definition validate_collection_provenance :: "collection_provenance \<Rightarrow> collection_provenance result" where
  "validate_collection_provenance p =
     (let texts = [cpv_run_id p, cpv_target_host p, cpv_scenario_identifier p, cpv_scenario_version p, cpv_policy_path p, cpv_policy_id p,
        cpv_policy_version p, cpv_policy_config_hash p, cpv_reference_action_id p, cpv_reference_source_event_id p,
        cpv_reference_event_id p, cpv_execution_commit p] in
      seq (raise_first
        [(\<exists>t \<in> set texts. blank t \<or> \<not> unpadded t, ValueError ''collection provenance string values must be non-blank and unpadded''),
         (\<not> (case cpv_loader_identity p of (i, v, h) \<Rightarrow> list_all (\<lambda>t. \<not> blank t \<and> unpadded t) [i, v, h]),
            ValueError ''reference policy identity values must be non-blank and unpadded''),
         (cpv_scenario_horizon_sec p \<le> 0 \<or> cpv_expected_horizon_sec p \<le> 0, ValueError ''greater_than 0''),
         (\<not> is_some_and (cpv_action_process_id p) (\<lambda>n. 0 < n), ValueError ''action_process_id greater_than 0'')])
      (seq (validate_artifact_run_id (cpv_run_id p))
      (seq (raise_first
        [(cpv_loader_identity p \<noteq> (cpv_policy_id p, cpv_policy_version p, cpv_policy_config_hash p),
            ValueError ''loader-selected policy identity must match reference policy fields''),
         (cpv_horizon_matches p \<noteq> (cpv_scenario_horizon_sec p = cpv_expected_horizon_sec p),
            ValueError ''horizon_matches must describe the recorded horizon values''),
         (\<not> cpv_horizon_matches p, ValueError ''mismatched evaluation horizons must fail before artifact publication'')])
      (Inr p))))"

definition build_r1_collection_provenance :: "reference_selection \<Rightarrow> string \<Rightarrow> string \<Rightarrow> string \<Rightarrow> string \<Rightarrow> collection_provenance result" where
  "build_r1_collection_provenance s run_id scenario version execution_commit =
     seq (validate_artifact_run_id run_id)
     (seq (raise_first
       [(rsl_run_id s \<noteq> run_id, ValueError ''reference selection run_id must match the requested run_id''),
        (rsl_entity_id s \<noteq> rsl_target_host s, ValueError ''reference selection entity_id must match its target_host'')])
     (validate_collection_provenance \<lparr>cpv_run_id = run_id, cpv_target_host = rsl_target_host s, cpv_scenario_identifier = scenario,
        cpv_scenario_version = version, cpv_policy_path = rsl_policy_config_path s, cpv_policy_id = rsl_policy_id s,
        cpv_policy_version = rsl_policy_version s, cpv_policy_config_hash = rsl_policy_config_hash s,
        cpv_loader_identity = (rsl_policy_id s, rsl_policy_version s, rsl_policy_config_hash s),
        cpv_scenario_horizon_sec = rsl_scenario_horizon_sec s, cpv_expected_horizon_sec = rsl_expected_horizon_sec s,
        cpv_horizon_matches = rsl_horizon_matches s, cpv_reference_action_id = rsl_reference_action_id s,
        cpv_reference_time = rsl_reference_time s, cpv_reference_source_event_id = rsl_reference_source_event_id s,
        cpv_reference_event_id = rsl_reference_event_id s, cpv_action_process_id = rsl_action_process_id s,
        cpv_execution_commit = execution_commit\<rparr>))"

definition write_r1_collection_provenance :: "artifact_io \<Rightarrow> reference_selection \<Rightarrow> string \<Rightarrow> string \<Rightarrow> string \<Rightarrow> string \<Rightarrow> directory
    \<Rightarrow> collection_provenance result \<times> directory" where
  "write_r1_collection_provenance io s run_id scenario version execution_commit dir =
     (case bnd (build_r1_collection_provenance s run_id scenario version execution_commit) (\<lambda>p.
        seq (raise_if (dir collection_filename \<noteq> None) (FileExistsError ''R1 artifact files must not already exist'')) (Inr p)) of
        Inl e \<Rightarrow> (Inl e, dir)
      | Inr p \<Rightarrow> (case publish_files io [(collection_filename, serialize_collection_provenance io p)] dir of
          (Inl e, dir') \<Rightarrow> (Inl e, dir') | (Inr u, dir') \<Rightarrow> (Inr p, dir')))"

definition load_r1_collection_provenance :: "artifact_io \<Rightarrow> directory \<Rightarrow> collection_provenance result" where
  "load_r1_collection_provenance io dir = (case dir collection_filename of
     None \<Rightarrow> Inl (ValueError ''R1 collection provenance does not match the writer contract'')
   | Some content \<Rightarrow> (case io_parse_collection io content of
       None \<Rightarrow> Inl (ValueError ''R1 collection provenance does not match the writer contract'')
     | Some p \<Rightarrow> (case validate_collection_provenance p of
         Inl e \<Rightarrow> Inl (ValueError ''R1 collection provenance does not match the writer contract'') | Inr p \<Rightarrow> Inr p)))"

section \<open>Automated runs\<close>

definition validate_automated_policy_family :: "string option \<Rightarrow> approved_policy \<Rightarrow> unit result" where
  "validate_automated_policy_family family p =
     (if ap_family_id p = None then (case family of None \<Rightarrow> Inr () | Some f \<Rightarrow> validate_policy_family_binding f p)
      else (case family of
        None \<Rightarrow> Inl (ValueError ''scenario_family_id is required for a family-bound approved policy'')
      | Some f \<Rightarrow> validate_policy_family_binding f p))"

definition run_r1_evidence_pipeline_from_policy :: "evidence_namer \<Rightarrow> (approved_config \<Rightarrow> string) \<Rightarrow> approved_config registry_file
    \<Rightarrow> normalized_event list \<Rightarrow> selector_policy \<Rightarrow> string \<Rightarrow> string \<Rightarrow> string option \<Rightarrow> datetime option \<Rightarrow> selected_evidence_result result" where
  "run_r1_evidence_pipeline_from_policy nm hash registry events selector policy_id version family run_start =
     bnd (load_r1_approved_lineage_policy hash registry policy_id version) (\<lambda>policy.
     seq (validate_automated_policy_family family policy)
     (run_r1_evidence_pipeline_with_selector nm events selector policy run_start))"

definition selector_provenance_of :: "selector_policy \<Rightarrow> selector_result \<Rightarrow> selector_provenance" where
  "selector_provenance_of selector r = \<lparr>spv_policy_id = slp_policy_id selector, spv_version = slp_version selector,
     spv_config_hash = slp_config_hash selector, spv_status = (if slr_selection r \<noteq> None then SelectorSelected else SelectorFailed),
     spv_diagnostics = slr_diagnostics r\<rparr>"

record automated_artifact_run =
  aar_pipeline_result :: selected_evidence_result
  aar_artifact_run :: evidence_artifact_run

definition run_and_write_artifacts_from_policy :: "artifact_io \<Rightarrow> evidence_namer \<Rightarrow> (approved_config \<Rightarrow> string) \<Rightarrow> approved_config registry_file
    \<Rightarrow> normalized_event list \<Rightarrow> string \<Rightarrow> selector_policy \<Rightarrow> string \<Rightarrow> string \<Rightarrow> string option \<Rightarrow> datetime option
    \<Rightarrow> collection_provenance option \<Rightarrow> directory \<Rightarrow> automated_artifact_run result \<times> directory" where
  "run_and_write_artifacts_from_policy io nm hash registry events run_id selector policy_id version family run_start coll dir =
     (case bnd (run_r1_evidence_pipeline_from_policy nm hash registry events selector policy_id version family run_start) (\<lambda>r.
        bnd (new_selector_provenance (selector_provenance_of selector (ser_selector_result r))) (\<lambda>sel. Inr (r, sel))) of
        Inl e \<Rightarrow> (Inl e, dir)
      | Inr (r, sel) \<Rightarrow>
          (case run_and_write_r1_evidence_artifacts io nm events run_id (option_list (ser_lineage_input r)) (Some sel) coll dir of
             (Inl e, dir') \<Rightarrow> (Inl e, dir')
           | (Inr a, dir') \<Rightarrow> (Inr \<lparr>aar_pipeline_result = r, aar_artifact_run = a\<rparr>, dir')))"

record wmi_collection_request =
  wr_run_id :: string
  wr_target_host :: string
  wr_family_id :: string
  wr_approved_policy :: "string \<times> string"
  wr_reference_policy :: "string \<times> string"
  wr_horizon_sec :: int
  wr_action_result :: wmi_action_result
  wr_a01_started_at :: datetime
  wr_attributed_event_ids :: "string list"
  wr_lineage_process_guids :: "string list"
  wr_scenario_identifier :: string
  wr_scenario_version :: string
  wr_execution_commit :: string
  wr_run_start :: "datetime option"

definition run_and_write_r1_wmi_collection_artifacts :: "artifact_io \<Rightarrow> evidence_namer \<Rightarrow> (approved_config \<Rightarrow> string)
    \<Rightarrow> approved_config registry_file \<Rightarrow> (reference_config \<Rightarrow> string) \<Rightarrow> string option \<Rightarrow> reference_config registry_file
    \<Rightarrow> normalized_event list \<Rightarrow> selector_policy \<Rightarrow> wmi_collection_request \<Rightarrow> directory
    \<Rightarrow> (reference_selection \<times> collection_provenance \<times> automated_artifact_run) result \<times> directory" where
  "run_and_write_r1_wmi_collection_artifacts io nm ahash aregistry rhash relative rregistry events selector w dir =
     (case bnd (load_r1_approved_lineage_policy ahash aregistry (fst (wr_approved_policy w)) (snd (wr_approved_policy w))) (\<lambda>approved.
        seq (validate_automated_policy_family (Some (wr_family_id w)) approved)
        (bnd (load_r1_reference_policy rhash relative rregistry (fst (wr_reference_policy w)) (snd (wr_reference_policy w))) (\<lambda>reference.
         bnd (resolve_r1_wmi_reference events reference (wr_run_id w) (wr_target_host w) (wr_family_id w) (snd (wr_reference_policy w))
           (wr_horizon_sec w) (wr_action_result w) (wr_a01_started_at w) (wr_attributed_event_ids w) (wr_lineage_process_guids w)) (\<lambda>selection.
         bnd (build_r1_collection_provenance selection (wr_run_id w) (wr_scenario_identifier w) (wr_scenario_version w) (wr_execution_commit w))
           (\<lambda>coll. Inr (selection, coll)))))) of
        Inl e \<Rightarrow> (Inl e, dir)
      | Inr (selection, coll) \<Rightarrow>
          (case run_and_write_artifacts_from_policy io nm ahash aregistry events (wr_run_id w) selector (fst (wr_approved_policy w))
              (snd (wr_approved_policy w)) (Some (wr_family_id w)) (wr_run_start w) (Some coll) dir of
             (Inl e, dir') \<Rightarrow> (Inl e, dir')
           | (Inr a, dir') \<Rightarrow> (Inr (selection, coll, a), dir')))"

end
