(* ===== verification/CausalPipeline.thy ===== *)
theory CausalPipeline
  imports EvidenceArtifacts S0Replay
begin

text \<open>
  The causal replay of a finished R1 run: the availability envelope built from the loaded artifacts
  (\<open>pipeline/r1_causal_availability.py\<close>), the strict join and the replay
  (\<open>pipeline/r1_causal_replay.py\<close>), the provenance and its artifacts
  (\<open>pipeline/r1_causal_replay_artifacts.py\<close>) and the check of the evaluation
  (\<open>evaluation/causal_inputs.py\<close>).

  The canonical JSON of a model and its reader are parameters beside those of the R1 artifacts. The
  type tests on arguments and the \<open>extra="forbid"\<close> of the models are the types here.
\<close>

section \<open>The availability envelope\<close>

record causal_envelope =
  ce_contract_version :: string
  ce_run_id :: string
  ce_entity_id :: string
  ce_run_start :: datetime
  ce_run_end :: datetime
  ce_watermark_at :: datetime
  ce_watermark_basis :: string
  ce_selector :: causal_policy_identity
  ce_approved :: causal_policy_identity
  ce_extractor_version :: string
  ce_evidence_count :: int
  ce_evidence_sha :: string
  ce_summary_sha :: string
  ce_evidences :: "causal_availability list"

definition causal_contract_version :: string where
  "causal_contract_version = ''v0.1''"

definition causal_watermark_basis :: string where
  "causal_watermark_basis = ''authoritative_run_end''"

definition require_identity_text :: "string \<Rightarrow> string \<Rightarrow> unit result" where
  "require_identity_text msg s = raise_if (blank s \<or> \<not> unpadded s) (ValueError msg)"

definition validate_availability_record :: "causal_envelope \<Rightarrow> causal_availability \<Rightarrow> unit result" where
  "validate_availability_record c a = raise_first
     [(instant (ca_timestamp a) < instant (ce_run_start c), ValueError ''Evidence timestamp must not be earlier than authoritative run_start''),
      (instant (ce_run_end c) < instant (ca_timestamp a), ValueError ''Evidence timestamp must not exceed authoritative run_end''),
      (instant (ca_available_at a) \<noteq> instant (ce_run_end c), ValueError ''R1 whole-episode Evidence available_at must equal run_end'')]"

definition validate_envelope_contract :: "causal_envelope \<Rightarrow> unit result" where
  "validate_envelope_contract c =
     seq (raise_first
       [(instant (ce_run_end c) < instant (ce_run_start c), ValueError ''run_end must not be earlier than run_start''),
        (instant (ce_watermark_at c) \<noteq> instant (ce_run_end c), ValueError ''whole-episode watermark_at must equal authoritative run_end''),
        (ce_evidence_count c \<noteq> int (length (ce_evidences c)), ValueError ''source_evidence_count must match availability records''),
        (ce_evidences c \<noteq> sort_key causal_sort_key (ce_evidences c), ValueError ''availability records must use canonical ordering''),
        (has_duplicates (map ca_evidence_id (ce_evidences c)), ValueError ''availability records must contain unique evidence_id values'')])
     (check_each (validate_availability_record c) (ce_evidences c))"

definition validate_causal_envelope :: "causal_envelope \<Rightarrow> causal_envelope result" where
  "validate_causal_envelope c =
     seq (raise_if (ce_contract_version c \<noteq> causal_contract_version) (ValueError ''literal_error''))
     (seq (check_each (require_identity_text ''causal envelope identity values must be non-blank and unpadded'') [ce_run_id c, ce_entity_id c])
     (seq (check_each (require_utc ''causal envelope time'') [ce_run_start c, ce_run_end c, ce_watermark_at c])
     (seq (raise_if (ce_watermark_basis c \<noteq> causal_watermark_basis) (ValueError ''literal_error''))
     (seq (check_each validate_causal_policy_identity [ce_selector c, ce_approved c])
     (seq (require_identity_text ''causal envelope identity values must be non-blank and unpadded'' (ce_extractor_version c))
     (seq (raise_first
       [(ce_evidence_count c < 0, ValueError ''greater_than_equal''),
        (\<not> sha256_ok (ce_evidence_sha c), ValueError ''source artifact hashes must be lowercase SHA-256''),
        (\<not> sha256_ok (ce_summary_sha c), ValueError ''source artifact hashes must be lowercase SHA-256'')])
     (bnd (map_result validate_causal_availability (ce_evidences c)) (\<lambda>av.
      seq (validate_envelope_contract c) (Inr c)))))))))"

definition validate_envelope_builder_inputs :: "run_metadata \<Rightarrow> approved_policy \<Rightarrow> unit result" where
  "validate_envelope_builder_inputs run_metadata approved =
     seq (raise_if (rm_end_time run_metadata = None) (ValueError ''causal availability requires authoritative RunMetadata.end_time''))
     (case rm_family_id run_metadata of
        None \<Rightarrow> Inl (ValueError ''causal availability requires RunMetadata.family_id'')
      | Some family \<Rightarrow> validate_policy_family_binding family approved)"

text \<open>\<open>R1CausalPolicyIdentity(...)\<close>, which validates what it is given.\<close>

definition new_policy_identity :: "string \<Rightarrow> string \<Rightarrow> string \<Rightarrow> causal_policy_identity result" where
  "new_policy_identity i version h = (let p = \<lparr>cpi_policy_id = i, cpi_version = version, cpi_config_hash = h\<rparr> in
     seq (validate_causal_policy_identity p) (Inr p))"

definition causal_selector_identity :: "selector_policy \<Rightarrow> causal_policy_identity result" where
  "causal_selector_identity p = new_policy_identity (slp_policy_id p) (slp_version p) (slp_config_hash p)"

definition approved_policy_identity :: "approved_policy \<Rightarrow> causal_policy_identity result" where
  "approved_policy_identity p = new_policy_identity (ap_policy_id p) (ap_version p) (ap_config_hash p)"

definition lineage_policy_identity :: "lineage_provenance \<Rightarrow> causal_policy_identity result" where
  "lineage_policy_identity p = new_policy_identity (lpv_policy_id p) (lpv_policy_version p) (lpv_policy_config_hash p)"

definition selector_provenance_identity :: "selector_provenance \<Rightarrow> causal_policy_identity result" where
  "selector_provenance_identity p = new_policy_identity (spv_policy_id p) (spv_version p) (spv_config_hash p)"

definition availability_record :: "run_metadata \<Rightarrow> datetime \<Rightarrow> lineage_provenance \<Rightarrow> evidence \<Rightarrow> causal_availability result" where
  "availability_record run_metadata run_end lineage e =
     seq (raise_first
       [(evd_run_id e \<noteq> rm_run_id run_metadata, ValueError ''Evidence run_id must match RunMetadata run_id''),
        (evd_entity_id e \<noteq> rm_target_host run_metadata, ValueError ''Evidence entity_id must match RunMetadata target_host''),
        (evd_at e < instant (rm_start_time run_metadata), ValueError ''Evidence timestamp must not be earlier than authoritative run_start''),
        (instant run_end < evd_at e, ValueError ''Evidence timestamp must not exceed authoritative run_end'')])
     (validate_causal_availability \<lparr>ca_evidence_id = evd_id e, ca_timestamp = evd_timestamp e, ca_available_at = run_end,
        ca_event_ids = evd_event_ids e, ca_context_event_ids = lpv_context_event_ids lineage\<rparr>)"

definition build_envelope_from_artifacts :: "evidence_artifact_run \<Rightarrow> run_metadata \<Rightarrow> selector_policy \<Rightarrow> approved_policy
    \<Rightarrow> causal_envelope result" where
  "build_envelope_from_artifacts a run_metadata selector approved = (let s = ar_summary a in
     seq (validate_envelope_builder_inputs run_metadata approved)
     (seq (raise_first
       [(xs_run_id s \<noteq> rm_run_id run_metadata, ValueError ''Evidence artifact run_id must match RunMetadata run_id''),
        (xs_diagnostics s \<noteq> [], ValueError ''causal availability requires an artifact without extraction diagnostics'')])
     (case xs_selector s of
        None \<Rightarrow> Inl (ValueError ''manual or legacy artifact without selector provenance is not causal input'')
      | Some sel \<Rightarrow>
          seq (raise_if (spv_status sel \<noteq> SelectorSelected) (ValueError ''causal availability requires a selected whole-episode lineage''))
          (bnd (causal_selector_identity selector) (\<lambda>expected.
           bnd (selector_provenance_identity sel) (\<lambda>actual.
           seq (raise_if (actual \<noteq> expected) (ValueError ''selector provenance does not match the supplied selector policy''))
           (case xs_lineage_inputs s of
              Some [lineage] \<Rightarrow>
                bnd (approved_policy_identity approved) (\<lambda>expected_approved.
                bnd (lineage_policy_identity lineage) (\<lambda>actual_approved.
                seq (raise_if (actual_approved \<noteq> expected_approved) (ValueError ''approved policy provenance does not match the supplied policy''))
                (case (xs_evidence_sha s, rm_end_time run_metadata) of
                   (None, end_time) \<Rightarrow> Inl (ValueError ''completed Evidence artifact must include its validated SHA-256'')
                 | (Some sha, None) \<Rightarrow> Inl AssertionError
                 | (Some sha, Some run_end) \<Rightarrow>
                     bnd (map_result (availability_record run_metadata run_end lineage) (ar_evidences a)) (\<lambda>records.
                     validate_causal_envelope \<lparr>ce_contract_version = causal_contract_version, ce_run_id = rm_run_id run_metadata,
                       ce_entity_id = rm_target_host run_metadata, ce_run_start = rm_start_time run_metadata, ce_run_end = run_end,
                       ce_watermark_at = run_end, ce_watermark_basis = causal_watermark_basis, ce_selector = actual,
                       ce_approved = actual_approved, ce_extractor_version = xs_extractor_version s,
                       ce_evidence_count = int (length (ar_evidences a)), ce_evidence_sha = sha, ce_summary_sha = ar_summary_sha a,
                       ce_evidences = sort_key causal_sort_key records\<rparr>))))
            | _ \<Rightarrow> Inl (ValueError ''causal availability requires one selected lineage provenance input''))))))))"

definition build_r1_causal_availability_envelope :: "artifact_io \<Rightarrow> directory \<Rightarrow> run_metadata \<Rightarrow> selector_policy \<Rightarrow> approved_policy
    \<Rightarrow> causal_envelope result" where
  "build_r1_causal_availability_envelope io dir run_metadata selector approved =
     seq (validate_envelope_builder_inputs run_metadata approved)
     (bnd (load_r1_evidence_artifacts io dir) (\<lambda>a. build_envelope_from_artifacts a run_metadata selector approved))"

section \<open>The strict join\<close>

record causal_replay_input =
  cri_scheduled :: "scheduled_evidence list"

definition check_envelope_run :: "causal_envelope \<Rightarrow> run_metadata \<Rightarrow> approved_policy \<Rightarrow> unit result" where
  "check_envelope_run c run_metadata approved = (case rm_end_time run_metadata of
     None \<Rightarrow> Inl (ValueError ''causal replay requires authoritative RunMetadata.end_time'')
   | Some end_time \<Rightarrow>
       seq (raise_first
         [(ce_run_id c \<noteq> rm_run_id run_metadata, ValueError ''causal envelope run_id must match RunMetadata run_id''),
          (ce_entity_id c \<noteq> rm_target_host run_metadata, ValueError ''causal envelope entity_id must match RunMetadata target_host''),
          (instant (ce_run_start c) \<noteq> instant (rm_start_time run_metadata), ValueError ''causal envelope run_start must match RunMetadata start_time''),
          (instant (ce_run_end c) \<noteq> instant end_time, ValueError ''causal envelope run_end must match RunMetadata end_time'')])
       (case rm_family_id run_metadata of
          None \<Rightarrow> Inl (ValueError ''causal replay requires RunMetadata.family_id'')
        | Some family \<Rightarrow> validate_policy_family_binding family approved))"

definition check_summary_envelope :: "evidence_artifact_run \<Rightarrow> causal_envelope \<Rightarrow> unit result" where
  "check_summary_envelope a c = (let s = ar_summary a; n = int (length (ar_evidences a)) in raise_first
     [(xs_status s \<noteq> ExtractionCompleted, ValueError ''causal replay requires a completed Evidence artifact''),
      (xs_run_id s \<noteq> ce_run_id c, ValueError ''Evidence summary run_id must match causal envelope run_id''),
      (xs_diagnostics s \<noteq> [], ValueError ''causal replay requires an artifact without extraction diagnostics''),
      (xs_evidence_count s \<noteq> Some n, ValueError ''Evidence summary count must match loaded Evidence''),
      (ce_evidence_count c \<noteq> n, ValueError ''causal envelope count must match loaded Evidence''),
      (xs_extractor_version s \<noteq> ce_extractor_version c, ValueError ''causal envelope extractor version must match Evidence summary''),
      (xs_evidence_sha s \<noteq> Some (ce_evidence_sha c), ValueError ''causal envelope Evidence SHA-256 must match loaded artifact''),
      (ar_summary_sha a \<noteq> ce_summary_sha c, ValueError ''causal envelope summary SHA-256 must match loaded artifact'')])"

text \<open>The selector and the policies of the summary, the envelope and the caller; the lineage comes back.\<close>

definition joined_lineage :: "extraction_summary \<Rightarrow> causal_envelope \<Rightarrow> approved_policy \<Rightarrow> lineage_provenance result" where
  "joined_lineage s c approved = (case xs_selector s of
     None \<Rightarrow> Inl (ValueError ''causal replay requires selected selector provenance'')
   | Some sel \<Rightarrow>
       seq (raise_if (spv_status sel \<noteq> SelectorSelected) (ValueError ''causal replay requires selected selector provenance''))
       (bnd (selector_provenance_identity sel) (\<lambda>i.
        seq (raise_if (i \<noteq> ce_selector c) (ValueError ''selector identity must match the causal envelope''))
        (case xs_lineage_inputs s of
           Some [lineage] \<Rightarrow>
             bnd (lineage_policy_identity lineage) (\<lambda>p.
             seq (raise_if (p \<noteq> ce_approved c) (ValueError ''approved policy identity must match the causal envelope''))
             (bnd (approved_policy_identity approved) (\<lambda>q.
              seq (raise_if (p \<noteq> q) (ValueError ''loaded approved policy identity must match the causal envelope''))
              (Inr lineage))))
         | _ \<Rightarrow> Inl (ValueError ''causal replay requires one lineage provenance input'')))))"

fun index_evidences :: "causal_envelope \<Rightarrow> string set \<Rightarrow> evidence list \<Rightarrow> unit result" where
  "index_evidences c ids [] = Inr ()"
| "index_evidences c ids (e # es) =
     seq (raise_first
       [(evd_id e \<in> ids, ValueError ''loaded Evidence IDs must be unique''),
        (evd_run_id e \<noteq> ce_run_id c, ValueError ''Evidence run_id must match the causal envelope''),
        (evd_entity_id e \<noteq> ce_entity_id c, ValueError ''Evidence entity_id must match the causal envelope'')])
     (index_evidences c (insert (evd_id e) ids) es)"

definition join_availability :: "causal_availability list \<Rightarrow> lineage_provenance \<Rightarrow> evidence \<Rightarrow> scheduled_evidence result" where
  "join_availability av lineage e = (case map_of (map (\<lambda>a. (ca_evidence_id a, a)) av) (evd_id e) of
     None \<Rightarrow> Inl (KeyError (evd_id e))
   | Some a \<Rightarrow>
       seq (raise_first
         [(instant (ca_timestamp a) \<noteq> evd_at e, ValueError ''availability timestamp must match Evidence timestamp''),
          (ca_event_ids a \<noteq> evd_event_ids e, ValueError ''availability event_ids must match Evidence event_ids''),
          (ca_context_event_ids a \<noteq> lpv_context_event_ids lineage, ValueError ''availability context_event_ids must match lineage provenance''),
          (instant (ca_available_at a) < instant (ca_timestamp a), ValueError ''available_at must not be earlier than Evidence timestamp'')])
       (Inr \<lparr>sch_evidence = e, sch_available_at = ca_available_at a\<rparr>))"

definition prepare_r1_causal_replay_input :: "evidence_artifact_run \<Rightarrow> causal_envelope \<Rightarrow> run_metadata \<Rightarrow> approved_policy
    \<Rightarrow> causal_replay_input result" where
  "prepare_r1_causal_replay_input a c run_metadata approved =
     bnd (validate_causal_envelope c) (\<lambda>c.
     seq (check_envelope_run c run_metadata approved)
     (seq (check_summary_envelope a c)
     (bnd (joined_lineage (ar_summary a) c approved) (\<lambda>lineage.
      seq (index_evidences c {} (ar_evidences a))
      (seq (raise_first
        [(has_duplicates (map ca_evidence_id (ce_evidences c)), ValueError ''availability Evidence IDs must be unique''),
         (evd_id ` set (ar_evidences a) \<noteq> ca_evidence_id ` set (ce_evidences c),
            ValueError ''Evidence and availability ID sets must match exactly'')])
      (bnd (map_result (join_availability (ce_evidences c) lineage) (ar_evidences a)) (\<lambda>scheduled.
       Inr \<lparr>cri_scheduled = sort_key schedule_key scheduled\<rparr>)))))))"

section \<open>Replay provenance\<close>

record causal_replay_io = artifact_io +
  cio_dump_fusion :: "fusion_result \<Rightarrow> string"
  cio_parse_fusion :: "string \<Rightarrow> fusion_result option"
  cio_dump_trace :: "stopping_trace \<Rightarrow> string"
  cio_parse_trace :: "string \<Rightarrow> stopping_trace option"
  cio_dump_envelope :: "causal_envelope \<Rightarrow> string"

record replay_provenance =
  crp_contract_version :: string
  crp_run_id :: string
  crp_entity_id :: string
  crp_envelope_version :: string
  crp_evidence_sha :: string
  crp_summary_sha :: string
  crp_selector :: causal_policy_identity
  crp_approved :: causal_policy_identity
  crp_watermark_at :: datetime
  crp_watermark_basis :: string
  crp_gate :: string
  crp_ordering :: string
  crp_start :: datetime
  crp_end :: datetime
  crp_step_size :: rat
  crp_partial :: bool
  crp_points :: "datetime list"
  crp_config :: runtime_config_snapshot
  crp_fusion_sha :: string
  crp_trace_sha :: string
  crp_status :: detection_status
  crp_time :: "datetime option"
  crp_evidence_ids :: "string list"
  crp_episode_ids :: "string list"
  crp_commit :: string

record provenance_io = causal_replay_io +
  pio_dump_provenance :: "replay_provenance \<Rightarrow> string"
  pio_parse_provenance :: "string \<Rightarrow> replay_provenance option"

definition availability_gate_contract :: string where
  "availability_gate_contract = ''available_at <= replay_time''"

definition replay_ordering_contract :: string where
  "replay_ordering_contract = ''(available_at, timestamp, evidence_id)''"

fun pairwise_gaps :: "datetime list \<Rightarrow> int list" where
  "pairwise_gaps (a # b # ts) = (instant b - instant a) # pairwise_gaps (b # ts)"
| "pairwise_gaps ts = []"

definition validate_replay_points :: "datetime list \<Rightarrow> unit result" where
  "validate_replay_points ts = raise_if (\<exists>g \<in> set (pairwise_gaps ts). g \<le> 0)
     (ValueError ''evaluated replay points must be strictly increasing'')"

definition validate_replay_cadence :: "replay_provenance \<Rightarrow> int \<Rightarrow> unit result" where
  "validate_replay_cadence p step = (let gaps = pairwise_gaps (crp_points p) in raise_first
     [(step = 0, RuntimeError ''ZeroDivisionError''),
      (crp_partial p \<noteq> ((instant (crp_end p) - instant (crp_start p)) mod step \<noteq> 0),
         ValueError ''terminal_partial_tick must describe the replay boundaries''),
      (\<exists>g \<in> set (if crp_partial p then butlast gaps else gaps). g \<noteq> step, ValueError ''replay points must follow the configured cadence''),
      (gaps \<noteq> [] \<and> crp_partial p \<and> \<not> (0 < last gaps \<and> last gaps < step), ValueError ''terminal partial tick must be shorter than the cadence'')])"

definition validate_provenance_contract :: "replay_provenance \<Rightarrow> unit result" where
  "validate_provenance_contract p =
     seq (raise_first
       [(instant (crp_end p) < instant (crp_start p), ValueError ''replay_end must not be earlier than replay_start''),
        (instant (hd (crp_points p)) \<noteq> instant (crp_start p), ValueError ''evaluated replay points must start at replay_start''),
        (instant (last (crp_points p)) \<noteq> instant (crp_end p), ValueError ''evaluated replay points must end at replay_end''),
        (instant (crp_watermark_at p) \<noteq> instant (crp_end p), ValueError ''whole-episode watermark must match replay_end''),
        (cs_run_id (crp_config p) \<noteq> crp_run_id p, ValueError ''Fusion runtime config run_id must match provenance run_id''),
        (cs_entity_id (crp_config p) \<noteq> crp_entity_id p, ValueError ''Fusion runtime config entity_id must match provenance entity_id''),
        (vc_step_size (cs_config (crp_config p)) \<noteq> crp_step_size p, ValueError ''replay cadence must match the Fusion runtime config'')])
     (bnd (duration_of (crp_step_size p)) (\<lambda>step.
      seq (validate_replay_cadence p step)
      (raise_first
       [(is_some_and (crp_time p) (\<lambda>t. instant t \<notin> instant ` set (crp_points p)), ValueError ''fusion_time must be an evaluated causal replay point''),
        (crp_status p = Detected \<and> crp_time p = None, ValueError ''detected causal replay must include fusion_time''),
        (crp_status p \<noteq> Detected \<and> crp_time p \<noteq> None, ValueError ''non-detected causal replay must not include fusion_time''),
        (has_duplicates (crp_evidence_ids p), ValueError ''contributing Evidence IDs must be unique''),
        (has_duplicates (crp_episode_ids p), ValueError ''Fusion episode IDs must be unique'')])))"

definition validate_replay_provenance :: "replay_provenance \<Rightarrow> replay_provenance result" where
  "validate_replay_provenance p = (let text = require_identity_text ''causal replay provenance strings must be non-blank and unpadded'';
       time = require_utc ''causal replay provenance times''; sha = (\<lambda>h. raise_if (\<not> sha256_ok h) (ValueError ''artifact hashes must be lowercase SHA-256'')) in
     seq (raise_if (crp_contract_version p \<noteq> causal_contract_version) (ValueError ''literal_error''))
     (seq (check_each text [crp_run_id p, crp_entity_id p, crp_envelope_version p])
     (seq (check_each sha [crp_evidence_sha p, crp_summary_sha p])
     (seq (check_each validate_causal_policy_identity [crp_selector p, crp_approved p])
     (seq (time (crp_watermark_at p))
     (seq (text (crp_watermark_basis p))
     (seq (raise_first
       [(crp_gate p \<noteq> availability_gate_contract, ValueError ''literal_error''),
        (crp_ordering p \<noteq> replay_ordering_contract, ValueError ''literal_error'')])
     (seq (check_each time [crp_start p, crp_end p])
     (seq (raise_first
       [(crp_step_size p \<le> 0, ValueError ''greater_than''),
        (crp_points p = [], ValueError ''evaluated_replay_points min_length'')])
     (seq (check_each time (crp_points p))
     (seq (validate_replay_points (crp_points p))
     (seq (check_each sha [crp_fusion_sha p, crp_trace_sha p])
     (seq (check_each time (option_list (crp_time p)))
     (seq (text (crp_commit p))
     (seq (validate_provenance_contract p) (Inr p))))))))))))))))"

section \<open>The replay\<close>

text \<open>\<open>_serialize_canonical_model\<close> ends the JSON with a newline.\<close>

definition serialize_causal_fusion_result :: "'a causal_replay_io_scheme \<Rightarrow> fusion_result \<Rightarrow> string" where
  "serialize_causal_fusion_result io fr = cio_dump_fusion io fr @ newline"

definition serialize_causal_stopping_trace :: "'a causal_replay_io_scheme \<Rightarrow> stopping_trace \<Rightarrow> string" where
  "serialize_causal_stopping_trace io t = cio_dump_trace io t @ newline"

definition serialize_replay_provenance :: "provenance_io \<Rightarrow> replay_provenance \<Rightarrow> string" where
  "serialize_replay_provenance io p = pio_dump_provenance io p @ newline"

definition serialize_envelope :: "'a causal_replay_io_scheme \<Rightarrow> causal_envelope \<Rightarrow> string" where
  "serialize_envelope io c = cio_dump_envelope io c @ newline"

record causal_pipeline_result =
  cpl_replay :: temporal_replay_result
  cpl_fusion :: fusion_result
  cpl_trace :: stopping_trace
  cpl_config :: runtime_config_snapshot
  cpl_provenance :: replay_provenance

definition replay_request :: "causal_envelope \<Rightarrow> run_request" where
  "replay_request c = \<lparr>rq_run_id = ce_run_id c, rq_entity_id = ce_entity_id c, rq_run_start = ce_run_start c, rq_run_end = ce_run_end c\<rparr>"

definition replay_provenance_of :: "provenance_io \<Rightarrow> causal_envelope \<Rightarrow> valid_config \<Rightarrow> int \<Rightarrow> string \<Rightarrow> temporal_replay_result
    \<Rightarrow> fusion_result \<Rightarrow> stopping_trace \<Rightarrow> runtime_config_snapshot \<Rightarrow> replay_provenance" where
  "replay_provenance_of io c config step commit rr fr trace snapshot = \<lparr>crp_contract_version = causal_contract_version,
     crp_run_id = ce_run_id c, crp_entity_id = ce_entity_id c, crp_envelope_version = ce_contract_version c,
     crp_evidence_sha = ce_evidence_sha c, crp_summary_sha = ce_summary_sha c, crp_selector = ce_selector c,
     crp_approved = ce_approved c, crp_watermark_at = ce_watermark_at c, crp_watermark_basis = ce_watermark_basis c,
     crp_gate = availability_gate_contract, crp_ordering = replay_ordering_contract, crp_start = ce_run_start c,
     crp_end = ce_run_end c, crp_step_size = vc_step_size config,
     crp_partial = ((instant (ce_run_end c) - instant (ce_run_start c)) mod step \<noteq> 0),
     crp_points = map sp_timestamp (rr_trajectory rr), crp_config = snapshot,
     crp_fusion_sha = io_sha io (serialize_causal_fusion_result io fr), crp_trace_sha = io_sha io (serialize_causal_stopping_trace io trace),
     crp_status = fr_status fr, crp_time = fr_time fr, crp_evidence_ids = fr_evidence_ids fr,
     crp_episode_ids = map fer_id (fr_episodes fr), crp_commit = commit\<rparr>"

definition run_r1_causal_replay :: "bool \<Rightarrow> provenance_io \<Rightarrow> evidence_artifact_run \<Rightarrow> causal_envelope \<Rightarrow> run_metadata
    \<Rightarrow> approved_policy \<Rightarrow> valid_config \<Rightarrow> string \<Rightarrow> causal_pipeline_result result" where
  "run_r1_causal_replay nan_ok io a c run_metadata approved config commit =
     bnd (prepare_r1_causal_replay_input a c run_metadata approved) (\<lambda>inp.
     bnd (build_runner config) (\<lambda>runner.
     bnd (run_causal runner (cri_scheduled inp) (replay_request c)) (\<lambda>rr.
     bnd (build_fusion_result rr (ce_run_id c) (ce_entity_id c) (vc_metadata config)) (\<lambda>fr.
     bnd (build_stopping_trace (ce_run_id c) (ce_entity_id c) (fm_config_version (vc_metadata config)) (rr_stopping_trace rr)) (\<lambda>trace.
     bnd (build_fusion_runtime_config_snapshot nan_ok config (ce_run_id c) (ce_entity_id c)) (\<lambda>snapshot.
     bnd (validate_replay_provenance (replay_provenance_of io c config (rn_step_size runner) commit rr fr trace snapshot)) (\<lambda>p.
     Inr \<lparr>cpl_replay = rr, cpl_fusion = fr, cpl_trace = trace, cpl_config = snapshot, cpl_provenance = p\<rparr>)))))))"

section \<open>The replay artifacts\<close>

definition provenance_filename :: string where
  "provenance_filename = ''r1_causal_replay_provenance.json''"

definition causal_fusion_filename :: string where
  "causal_fusion_filename = ''r1_causal_fusion_result.json''"

definition causal_trace_filename :: string where
  "causal_trace_filename = ''r1_causal_fusion_stopping_trace.json''"

text \<open>A path and the digest of what was written to it.\<close>

type_synonym model_artifact = "string \<times> string"

record replay_artifact_set =
  ras_fusion :: model_artifact
  ras_trace :: model_artifact
  ras_provenance :: "replay_provenance \<times> model_artifact"

definition publish_replay_files :: "provenance_io \<Rightarrow> (string \<times> string) list \<Rightarrow> directory \<Rightarrow> unit result \<times> directory" where
  "publish_replay_files io files dir = (case find (\<lambda>(target, content). dir target \<noteq> None) files of
     Some (target, content) \<Rightarrow> (Inl (FileExistsError target), dir)
   | None \<Rightarrow> link_files (artifact_io.truncate io) files [] dir)"

definition write_r1_causal_replay_provenance :: "provenance_io \<Rightarrow> replay_provenance \<Rightarrow> directory
    \<Rightarrow> (replay_provenance \<times> model_artifact) result \<times> directory" where
  "write_r1_causal_replay_provenance io p dir = (let content = serialize_replay_provenance io p in
     case publish_replay_files io [(provenance_filename, content)] dir of
       (Inl e, dir') \<Rightarrow> (Inl e, dir')
     | (Inr u, dir') \<Rightarrow> (Inr (p, provenance_filename, io_sha io content), dir'))"

definition replay_files :: "provenance_io \<Rightarrow> fusion_result \<Rightarrow> stopping_trace \<Rightarrow> replay_provenance \<Rightarrow> (string \<times> string) list" where
  "replay_files io fr trace p = [(causal_fusion_filename, serialize_causal_fusion_result io fr),
     (causal_trace_filename, serialize_causal_stopping_trace io trace), (provenance_filename, serialize_replay_provenance io p)]"

definition write_r1_causal_replay_artifacts :: "provenance_io \<Rightarrow> fusion_result \<Rightarrow> stopping_trace \<Rightarrow> replay_provenance \<Rightarrow> directory
    \<Rightarrow> replay_artifact_set result \<times> directory" where
  "write_r1_causal_replay_artifacts io fr trace p dir =
     (case raise_first
        [(io_sha io (serialize_causal_fusion_result io fr) \<noteq> crp_fusion_sha p, ValueError ''FusionResult bytes do not match replay provenance''),
         (io_sha io (serialize_causal_stopping_trace io trace) \<noteq> crp_trace_sha p, ValueError ''FusionStoppingTrace bytes do not match replay provenance'')] of
        Inl e \<Rightarrow> (Inl e, dir)
      | Inr u \<Rightarrow>
          (case publish_replay_files io (replay_files io fr trace p) dir of
             (Inl e, dir') \<Rightarrow> (Inl e, dir')
           | (Inr u, dir') \<Rightarrow> (Inr
               \<lparr>ras_fusion = (causal_fusion_filename, io_sha io (serialize_causal_fusion_result io fr)),
                ras_trace = (causal_trace_filename, io_sha io (serialize_causal_stopping_trace io trace)),
                ras_provenance = (p, provenance_filename, io_sha io (serialize_replay_provenance io p))\<rparr>, dir')))"

record replay_artifact_run =
  rar_fusion :: fusion_result
  rar_trace :: stopping_trace
  rar_provenance :: replay_provenance

text \<open>\<open>read_bytes\<close> and \<open>model_validate_json\<close>.\<close>

definition read_file :: "directory \<Rightarrow> string \<Rightarrow> string result" where
  "read_file dir name = (case dir name of None \<Rightarrow> Inl (RuntimeError ''FileNotFoundError'') | Some content \<Rightarrow> Inr content)"

definition parse_model :: "(string \<Rightarrow> 'a option) \<Rightarrow> ('a \<Rightarrow> 'a result) \<Rightarrow> string \<Rightarrow> 'a result" where
  "parse_model parse validate content = (case parse content of None \<Rightarrow> Inl (ValueError ''json_invalid'') | Some x \<Rightarrow> validate x)"

definition validate_loaded_trace :: "stopping_trace \<Rightarrow> stopping_trace result" where
  "validate_loaded_trace t = build_stopping_trace (tr_run_id t) (tr_entity_id t) (tr_config_version t) (tr_points t)"

definition load_r1_causal_replay_provenance :: "provenance_io \<Rightarrow> directory \<Rightarrow> replay_provenance result" where
  "load_r1_causal_replay_provenance io dir =
     bnd (read_file dir provenance_filename) (parse_model (pio_parse_provenance io) validate_replay_provenance)"

definition load_r1_causal_replay_artifacts :: "provenance_io \<Rightarrow> directory \<Rightarrow> replay_artifact_run result" where
  "load_r1_causal_replay_artifacts io dir =
     bnd (read_file dir causal_fusion_filename) (\<lambda>fusion_content.
     bnd (read_file dir causal_trace_filename) (\<lambda>trace_content.
     bnd (read_file dir provenance_filename) (\<lambda>provenance_content.
     bnd (parse_model (cio_parse_fusion io) validate_fusion_result fusion_content) (\<lambda>fr.
     bnd (parse_model (cio_parse_trace io) validate_loaded_trace trace_content) (\<lambda>trace.
     bnd (parse_model (pio_parse_provenance io) validate_replay_provenance provenance_content) (\<lambda>p.
     seq (raise_first
       [(io_sha io fusion_content \<noteq> crp_fusion_sha p, ValueError ''stored FusionResult SHA-256 does not match replay provenance''),
        (io_sha io trace_content \<noteq> crp_trace_sha p, ValueError ''stored FusionStoppingTrace SHA-256 does not match replay provenance'')])
     (Inr \<lparr>rar_fusion = fr, rar_trace = trace, rar_provenance = p\<rparr>)))))))"

definition run_and_write_r1_causal_replay :: "bool \<Rightarrow> provenance_io \<Rightarrow> evidence_artifact_run \<Rightarrow> causal_envelope \<Rightarrow> run_metadata
    \<Rightarrow> approved_policy \<Rightarrow> valid_config \<Rightarrow> string \<Rightarrow> directory \<Rightarrow> (causal_pipeline_result \<times> replay_artifact_set) result \<times> directory" where
  "run_and_write_r1_causal_replay nan_ok io a c run_metadata approved config commit dir =
     (case run_r1_causal_replay nan_ok io a c run_metadata approved config commit of
        Inl e \<Rightarrow> (Inl e, dir)
      | Inr r \<Rightarrow> (case write_r1_causal_replay_artifacts io (cpl_fusion r) (cpl_trace r) (cpl_provenance r) dir of
          (Inl e, dir') \<Rightarrow> (Inl e, dir')
        | (Inr artifacts, dir') \<Rightarrow> (Inr (r, artifacts), dir')))"

section \<open>The check of the evaluation\<close>

record causal_replay_pins =
  pin_provenance :: string
  pin_envelope :: string

definition validate_replay_pins :: "causal_replay_pins \<Rightarrow> unit result" where
  "validate_replay_pins p = check_each (\<lambda>h. raise_if (\<not> sha256_ok h) (ValueError ''string_pattern_mismatch'')) [pin_provenance p, pin_envelope p]"

record causal_evaluation_input =
  cei_provenance :: replay_provenance
  cei_envelope :: causal_envelope
  cei_trace :: stopping_trace

text \<open>What is available at a point of the trace, and inside its window.\<close>

definition available_in_window :: "int \<Rightarrow> causal_envelope \<Rightarrow> datetime \<Rightarrow> bool" where
  "available_in_window window c t \<longleftrightarrow> (\<exists>a \<in> set (ce_evidences c). instant (ca_available_at a) \<le> instant t
     \<and> instant t - window \<le> instant (ca_timestamp a) \<and> instant (ca_timestamp a) \<le> instant t)"

definition check_provenance_bindings :: "provenance_io \<Rightarrow> causal_evaluation_input \<Rightarrow> causal_replay_pins \<Rightarrow> run_metadata
    \<Rightarrow> datetime \<Rightarrow> datetime \<Rightarrow> unit result" where
  "check_provenance_bindings io v pins run_metadata start stop = (let p = cei_provenance v; c = cei_envelope v; trace = cei_trace v in raise_first
     [(io_sha io (serialize_replay_provenance io p) \<noteq> pin_provenance pins, ValueError ''causal provenance does not match the pinned execution hash''),
      (io_sha io (serialize_envelope io c) \<noteq> pin_envelope pins, ValueError ''causal envelope does not match the pinned execution hash''),
      (\<exists>s \<in> {(crp_run_id p, crp_entity_id p), (ce_run_id c, ce_entity_id c), (tr_run_id trace, tr_entity_id trace)}.
         s \<noteq> (rm_run_id run_metadata, rm_target_host run_metadata), ValueError ''causal artifact Run/entity mismatch''),
      (instant (ce_run_start c) \<noteq> instant (rm_start_time run_metadata) \<or> Some (instant (ce_run_end c)) \<noteq> map_option instant (rm_end_time run_metadata),
         ValueError ''causal envelope must match authoritative Run boundaries''),
      (instant (crp_start p) \<noteq> instant (ce_run_start c) \<or> instant (crp_end p) \<noteq> instant (ce_run_end c),
         ValueError ''causal replay must match envelope boundaries''),
      (instant start \<noteq> instant (crp_start p) \<or> instant stop \<noteq> instant (crp_end p), ValueError ''Fusion observation must match causal replay boundaries''),
      (crp_envelope_version p \<noteq> ce_contract_version c, ValueError ''causal envelope version mismatch''),
      (crp_evidence_sha p \<noteq> ce_evidence_sha c, ValueError ''causal provenance/envelope mismatch: source_evidence_artifact_sha256''),
      (crp_summary_sha p \<noteq> ce_summary_sha c, ValueError ''causal provenance/envelope mismatch: source_extraction_summary_sha256''),
      (crp_selector p \<noteq> ce_selector c, ValueError ''causal provenance/envelope mismatch: selector_policy_identity''),
      (crp_approved p \<noteq> ce_approved c, ValueError ''causal provenance/envelope mismatch: approved_policy_identity''),
      (instant (crp_watermark_at p) \<noteq> instant (ce_watermark_at c), ValueError ''causal provenance/envelope mismatch: watermark_at''),
      (crp_watermark_basis p \<noteq> ce_watermark_basis c, ValueError ''causal provenance/envelope mismatch: watermark_basis'')])"

definition check_provenance_outputs :: "provenance_io \<Rightarrow> replay_provenance \<Rightarrow> stopping_trace \<Rightarrow> fusion_result \<Rightarrow> unit result" where
  "check_provenance_outputs io p trace fr = (let md = vc_metadata (cs_config (crp_config p)) in raise_first
     [(io_sha io (serialize_causal_fusion_result io fr) \<noteq> crp_fusion_sha p, ValueError ''FusionResult does not match causal provenance hash''),
      (io_sha io (serialize_causal_stopping_trace io trace) \<noteq> crp_trace_sha p, ValueError ''stopping trace does not match causal provenance hash''),
      (crp_status p \<noteq> fr_status fr, ValueError ''causal provenance/FusionResult mismatch: fusion_status''),
      (map_option instant (crp_time p) \<noteq> map_option instant (fr_time fr), ValueError ''causal provenance/FusionResult mismatch: fusion_time''),
      (crp_evidence_ids p \<noteq> fr_evidence_ids fr, ValueError ''causal contributing Evidence mismatch''),
      (crp_episode_ids p \<noteq> map fer_id (fr_episodes fr), ValueError ''causal episode identity mismatch''),
      (fm_config_version md \<noteq> fr_config_version fr, ValueError ''causal runtime config version mismatch''),
      (fm_model_version md \<noteq> fr_model_version fr, ValueError ''causal runtime model version mismatch''),
      (fr_scoring_method fr \<noteq> fm_method md, ValueError ''causal runtime config mismatch: scoring_method''),
      (fr_scorer_version fr \<noteq> fm_scorer_version md, ValueError ''causal runtime config mismatch: scorer_version''),
      (fr_profile_id fr \<noteq> fm_profile_id md, ValueError ''causal runtime config mismatch: scoring_profile_id''),
      (tr_config_version trace \<noteq> fm_config_version md, ValueError ''causal trace config version mismatch''),
      (map (instant \<circ> tp_timestamp) (tr_points trace) \<noteq> map instant (crp_points p), ValueError ''causal trace must cover every evaluated replay point'')])"

definition check_trace_point :: "int \<Rightarrow> causal_envelope \<Rightarrow> trace_point \<Rightarrow> unit result" where
  "check_trace_point window c p = raise_if (\<not> available_in_window window c (tp_timestamp p) \<and> \<not> feq (tp_score p) (Finite 0))
     (ValueError ''causal trace score precedes available in-window Evidence'')"

definition check_episode_evidence :: "int \<Rightarrow> causal_envelope \<Rightarrow> datetime \<Rightarrow> string \<Rightarrow> unit result" where
  "check_episode_evidence window c start i = (case map_of (rev (map (\<lambda>a. (ca_evidence_id a, a)) (ce_evidences c))) i of
     None \<Rightarrow> Inl (ValueError ''causal episode references unknown Evidence'')
   | Some a \<Rightarrow> raise_first
       [(instant start < instant (ca_available_at a), ValueError ''causal episode precedes Evidence availability''),
        (\<not> (instant start - window \<le> instant (ca_timestamp a) \<and> instant (ca_timestamp a) \<le> instant start),
           ValueError ''causal episode Evidence is outside the event-time window'')])"

definition check_causal_episode :: "int \<Rightarrow> causal_envelope \<Rightarrow> stopping_trace \<Rightarrow> episode_result \<Rightarrow> unit result" where
  "check_causal_episode window c trace ep =
     (let points = map_of (rev (map (\<lambda>p. (instant (tp_timestamp p), p)) (tr_points trace))) in
      case (points (instant (fer_start ep)), Option.bind (map_option instant (fer_end ep)) points) of
        (Some p, Some q) \<Rightarrow>
          seq (raise_if (tp_state p \<noteq> On \<or> \<not> feq (tp_score p) (fer_score_at_start ep)) (ValueError ''causal episode start must match stopping trace''))
          (case fer_evidence_ids ep of
             None \<Rightarrow> Inl (TypeError ''NoneType object is not iterable'')
           | Some ids \<Rightarrow> check_each (check_episode_evidence window c (fer_start ep)) ids)
      | _ \<Rightarrow> Inl (ValueError ''causal episode boundaries must be evaluated replay points''))"

definition validate_causal_replay :: "provenance_io \<Rightarrow> causal_evaluation_input \<Rightarrow> causal_replay_pins \<Rightarrow> run_metadata \<Rightarrow> fusion_result
    \<Rightarrow> datetime \<Rightarrow> datetime \<Rightarrow> unit result" where
  "validate_causal_replay io v pins run_metadata fr start stop =
     seq (check_provenance_bindings io v pins run_metadata start stop)
     (seq (check_provenance_outputs io (cei_provenance v) (cei_trace v) fr)
     (bnd (duration_of (vc_window_size (cs_config (crp_config (cei_provenance v))))) (\<lambda>window.
      seq (check_each (check_trace_point window (cei_envelope v)) (tr_points (cei_trace v)))
      (check_each (check_causal_episode window (cei_envelope v) (cei_trace v)) (fr_episodes fr)))))"

end
