(* ===== verification/CausalPipelineFacts.thy ===== *)
theory CausalPipelineFacts
  imports CausalPipeline CloseChain
begin

text \<open>
  What the causal replay of a finished run rests on: the trace marks the start of every episode, the
  replay points follow the cadence, and a join that passes schedules every Evidence at the end of the
  run.
\<close>

section \<open>The trace marks the start of an episode\<close>

definition marks :: "trace_point list \<Rightarrow> datetime \<Rightarrow> py_float \<Rightarrow> bool" where
  "marks tr t sc \<longleftrightarrow> (\<exists>q \<in> set tr. tp_timestamp q = t \<and> tp_score q = sc \<and> tp_state q = On)"

definition starts_marked :: "policy_run \<Rightarrow> bool" where
  "starts_marked s \<longleftrightarrow> (\<forall>ep \<in> set (pr_episodes s). marks (pr_trace s) (fep_start ep) (fep_score_at_start ep))
     \<and> (\<forall>t sc. pr_start s = Some t \<longrightarrow> pr_start_score s = Some sc \<longrightarrow> marks (pr_trace s) t sc)"

lemma marks_observe: "marks (pr_trace s) t sc \<Longrightarrow> marks (pr_trace (observe p cnt s)) t sc"
  by (auto simp: marks_def observe_def)

lemma marks_new: "pr_active s \<Longrightarrow> marks (pr_trace (observe p cnt s)) (sp_timestamp p) (sp_score p)"
  by (simp add: marks_def observe_def)

lemma observe_fields [simp]: "pr_episodes (observe p cnt s) = pr_episodes s" "pr_start (observe p cnt s) = pr_start s"
  "pr_start_score (observe p cnt s) = pr_start_score s" "pr_active (observe p cnt s) = pr_active s"
  by (simp_all add: observe_def)

lemma marked_observe:
  assumes "starts_marked s" "pr_trace s' = pr_trace s" "pr_episodes s' = pr_episodes s"
    "pr_start s' = pr_start s" "pr_start_score s' = pr_start_score s"
  shows "starts_marked (observe p cnt s')"
  using assms marks_observe [of s' _ _ p cnt] by (simp add: starts_marked_def)

lemma closed_marked:
  assumes "close_episode a s t reason = Inr ep" "starts_marked s"
  shows "marks (pr_trace s) (fep_start ep) (fep_score_at_start ep)"
  using assms by (auto simp: close_episode_def starts_marked_def split: option.splits)

lemma eval_point_marked:
  assumes "eval_point pol a s p = Inr s'" "starts_marked s"
  shows "starts_marked s'"
proof -
  let ?s = "s\<lparr>pr_previous := Some (sp_timestamp p)\<rparr>"
  have m: "starts_marked ?s" using assms(2) by (simp add: starts_marked_def)
  have step: "(if pr_active ?s then active_point pol a ?s p else Inr (idle_point pol ?s p)) = Inr s'"
    using assms(1) unfolding eval_point_def seq_ok Let_def by (blast dest: conjunct2)
  show ?thesis
  proof (cases "pr_active ?s")
    case False
    then have s': "s' = idle_point pol ?s p" using step by simp
    show ?thesis
    proof (cases "persistence_k pol \<le> (if fle (threshold_on pol) (sp_score p) then pr_consecutive ?s + 1 else 0)")
      case True
      then show ?thesis using m marks_observe [of ?s] unfolding s' idle_point_def Let_def
        by (auto simp: starts_marked_def marks_def observe_def)
    next
      case False
      then show ?thesis unfolding s' idle_point_def Let_def if_not_P [OF False]
        by (intro marked_observe [OF m]) simp_all
    qed
  next
    case True
    then have act: "active_point pol a ?s p = Inr s'" using step by simp
    show ?thesis
    proof (cases "flt (sp_score p) (threshold_off pol)")
      case False
      with act show ?thesis by (auto simp: active_point_def intro: marked_observe [OF m] split: if_splits)
    next
      case True
      with act obtain ep where ep: "close_episode a ?s (sp_timestamp p) Released = Inr ep"
          "s' = observe p None (?s\<lparr>pr_episodes := pr_episodes ?s @ [ep], pr_active := False,
             pr_consecutive := 0, pr_start := None, pr_start_score := None, pr_peak := None\<rparr>)"
        by (auto simp: active_point_def)
      from closed_marked [OF ep(1) m] m show ?thesis
        unfolding ep(2) by (auto simp: starts_marked_def marks_def observe_def)
    qed
  qed
qed

lemma eval_points_marked: "eval_points pol a s ps = Inr s' \<Longrightarrow> starts_marked s \<Longrightarrow> starts_marked s'"
proof (induction ps arbitrary: s)
  case (Cons p ps)
  from Cons.prems(1) obtain s1 where "eval_point pol a s p = Inr s1" "eval_points pol a s1 ps = Inr s'" by auto
  with Cons.IH Cons.prems(2) eval_point_marked show ?case by blast
qed simp

lemma evaluate_marked:
  assumes "evaluate pol a traj = Inr (r, tr)" "ep \<in> set (sr_episodes r)"
  shows "marks tr (fep_start ep) (fep_score_at_start ep)"
proof -
  obtain s where s: "eval_points pol a initial_run traj = Inr s" "finish_run a s = Inr r" "tr = pr_trace s"
    using assms(1) by (auto simp: evaluate_def)
  have m: "starts_marked s"
    by (rule eval_points_marked [OF s(1)]) (simp add: starts_marked_def initial_run_def)
  then have "\<forall>ep \<in> set (sr_episodes r). marks (pr_trace s) (fep_start ep) (fep_score_at_start ep)"
    using s(2) closed_marked [OF _ m] by (auto simp: finish_run_def starts_marked_def split: option.splits if_splits)
  with assms(2) s(3) show ?thesis by simp
qed

section \<open>The replay points\<close>

lemma gaps_snoc: "ts \<noteq> [] \<Longrightarrow> pairwise_gaps (ts @ [p]) = pairwise_gaps ts @ [instant p - instant (last ts)]"
  by (induction ts rule: pairwise_gaps.induct) auto

lemma gaps_positive: "(\<forall>g \<in> set (pairwise_gaps ts). 0 < g) \<longleftrightarrow> sorted_wrt (<) (map instant ts)"
proof (induction ts rule: pairwise_gaps.induct)
  case (1 a b ts)
  then show ?case by (auto intro: less_trans)
qed simp_all

lemma cadence_gaps: "g \<in> set (pairwise_gaps (cadence step until t)) \<Longrightarrow> g = step"
proof (induction step until t rule: cadence.induct)
  case (1 step until t)
  show ?case
  proof (cases "instant t \<le> instant until \<and> 0 < step")
    case True
    then have eq: "cadence step until t = t # cadence step until (add_delta t step)" by (simp add: cadence_step)
    show ?thesis
    proof (cases "cadence step until (add_delta t step)")
      case Nil
      with 1(2) eq show ?thesis by simp
    next
      case (Cons b ts)
      then have "b = add_delta t step" by (subst (asm) cadence.simps) (simp split: if_splits)
      then have "instant b = instant t + step" by simp
      with 1 eq Cons True show ?thesis by auto
    qed
  next
    case False
    with 1(2) show ?thesis by (simp add: cadence_stop)
  qed
qed

text \<open>The last point of the cadence is within a step of the end.\<close>

lemma cadence_last_gap:
  assumes "0 < step" "instant t \<le> instant until"
  shows "instant until - instant (last (cadence step until t)) = (instant until - instant t) mod step"
  using assms
proof (induction step until t rule: cadence.induct)
  case (1 step until t)
  show ?case
  proof (cases "instant t + step \<le> instant until")
    case True
    then have ne: "cadence step until (add_delta t step) \<noteq> []" using 1(2) by (simp add: cadence_step)
    have "instant until - instant (last (cadence step until (add_delta t step))) = (instant until - (instant t + step)) mod step"
      using 1 True by simp
    also have "\<dots> = (instant until - instant t) mod step" by (metis diff_diff_eq minus_mod_self2)
    finally show ?thesis using ne 1(2,3) by (simp add: cadence_step)
  next
    case False
    with 1(2,3) show ?thesis by (simp add: cadence_step cadence_end)
  qed
qed

lemma replay_points_cadence:
  assumes "0 < step" "instant start \<le> instant stop"
  defines "ps \<equiv> causal_replay_points step start stop" and "partial \<equiv> (instant stop - instant start) mod step \<noteq> 0"
  shows "ps \<noteq> []" "instant (hd ps) = instant start"
    "\<forall>g \<in> set (if partial then butlast (pairwise_gaps ps) else pairwise_gaps ps). g = step"
    "pairwise_gaps ps \<noteq> [] \<and> partial \<longrightarrow> 0 < last (pairwise_gaps ps) \<and> last (pairwise_gaps ps) < step"
proof -
  let ?cs = "cadence step stop start"
  have cs: "?cs = start # cadence step stop (add_delta start step)" using assms(1,2) by (simp add: cadence_step)
  have gap: "instant stop - instant (last ?cs) = (instant stop - instant start) mod step"
    using assms(1,2) by (rule cadence_last_gap)
  have bounds: "0 \<le> (instant stop - instant start) mod step" "(instant stop - instant start) mod step < step"
    using assms(1) by simp_all
  have ps: "ps = (if partial then ?cs @ [stop] else ?cs)"
    using gap by (auto simp: ps_def partial_def causal_replay_points_def Let_def)
  show "ps \<noteq> []" unfolding ps using cs by simp
  show "instant (hd ps) = instant start" unfolding ps using cs by simp
  have gaps: "pairwise_gaps ps = (if partial then pairwise_gaps ?cs @ [(instant stop - instant start) mod step] else pairwise_gaps ?cs)"
    unfolding ps using gaps_snoc [of ?cs stop] gap cs by simp
  show "\<forall>g \<in> set (if partial then butlast (pairwise_gaps ps) else pairwise_gaps ps). g = step"
    unfolding gaps using cadence_gaps by auto
  show "pairwise_gaps ps \<noteq> [] \<and> partial \<longrightarrow> 0 < last (pairwise_gaps ps) \<and> last (pairwise_gaps ps) < step"
    unfolding gaps using bounds by (auto simp: partial_def)
qed

section \<open>The envelope\<close>

lemma map_result_check:
  assumes "\<And>x y. f x = Inr y \<Longrightarrow> y = x"
  shows "map_result f xs = Inr ys \<longleftrightarrow> ys = xs \<and> (\<forall>x \<in> set xs. f x = Inr x)"
proof (induction xs arbitrary: ys)
  case (Cons x xs)
  show ?case using assms [of x] by (auto simp: Cons.IH)
qed auto

lemma map_result_image:
  assumes "map_result f xs = Inr ys" "\<And>x y. x \<in> set xs \<Longrightarrow> f x = Inr y \<Longrightarrow> y = g x"
  shows "ys = map g xs"
  using assms
proof (induction xs arbitrary: ys)
  case (Cons x xs)
  from Cons.prems(1) obtain y zs where "f x = Inr y" "map_result f xs = Inr zs" "ys = y # zs" by auto
  with Cons.IH Cons.prems(2) show ?case by auto
qed simp

lemma require_identity_text_ok [simp]: "require_identity_text msg s = Inr u \<longleftrightarrow> \<not> blank s \<and> unpadded s"
  by (cases u) (auto simp: require_identity_text_def)

definition availability_ok :: "causal_envelope \<Rightarrow> causal_availability \<Rightarrow> bool" where
  "availability_ok c a \<longleftrightarrow> validate_causal_availability a = Inr a \<and> instant (ce_run_start c) \<le> instant (ca_timestamp a)
     \<and> instant (ca_timestamp a) \<le> instant (ce_run_end c) \<and> instant (ca_available_at a) = instant (ce_run_end c)"

lemma validate_causal_envelope_ok:
  "validate_causal_envelope c = Inr c' \<longleftrightarrow> c' = c \<and> ce_contract_version c = causal_contract_version
     \<and> \<not> blank (ce_run_id c) \<and> unpadded (ce_run_id c) \<and> \<not> blank (ce_entity_id c) \<and> unpadded (ce_entity_id c)
     \<and> is_utc (ce_run_start c) \<and> is_utc (ce_run_end c) \<and> is_utc (ce_watermark_at c) \<and> ce_watermark_basis c = causal_watermark_basis
     \<and> validate_causal_policy_identity (ce_selector c) = Inr () \<and> validate_causal_policy_identity (ce_approved c) = Inr ()
     \<and> \<not> blank (ce_extractor_version c) \<and> unpadded (ce_extractor_version c) \<and> sha256_ok (ce_evidence_sha c) \<and> sha256_ok (ce_summary_sha c)
     \<and> instant (ce_run_start c) \<le> instant (ce_run_end c) \<and> instant (ce_watermark_at c) = instant (ce_run_end c)
     \<and> ce_evidence_count c = int (length (ce_evidences c)) \<and> ce_evidences c = sort_key causal_sort_key (ce_evidences c)
     \<and> distinct (map ca_evidence_id (ce_evidences c)) \<and> (\<forall>a \<in> set (ce_evidences c). availability_ok c a)"
proof -
  have av: "map_result validate_causal_availability xs = Inr ys \<longleftrightarrow> ys = xs \<and> (\<forall>a \<in> set xs. validate_causal_availability a = Inr a)" for xs ys
    by (rule map_result_check) (simp add: validate_causal_availability_ok)
  have rec: "validate_availability_record c a = Inr () \<longleftrightarrow> instant (ce_run_start c) \<le> instant (ca_timestamp a)
      \<and> instant (ca_timestamp a) \<le> instant (ce_run_end c) \<and> instant (ca_available_at a) = instant (ce_run_end c)" for a
    by (simp add: validate_availability_record_def not_less)
  show ?thesis
    unfolding validate_causal_envelope_def validate_envelope_contract_def seq_ok bnd_ok av availability_ok_def
    by (simp only: check_each_ok rec raise_first.simps if_Inl_ok raise_if_ok has_duplicates_iff not_not require_identity_text_ok require_utc_ok)
      (auto simp: not_less)
qed

section \<open>The join\<close>

definition at_run_end :: "datetime \<Rightarrow> evidence \<Rightarrow> scheduled_evidence" where
  "at_run_end t e = \<lparr>sch_evidence = e, sch_available_at = t\<rparr>"

lemma index_evidences_ok:
  "index_evidences c ids es = Inr u \<longleftrightarrow> distinct (map evd_id es) \<and> evd_id ` set es \<inter> ids = {}
     \<and> (\<forall>e \<in> set es. evidence_key e = (ce_run_id c, ce_entity_id c))"
proof (cases u, induction es arbitrary: ids)
  case (Cons e es)
  then show ?case by (auto simp: evidence_key_def)
qed simp

lemma map_of_availability:
  "distinct (map ca_evidence_id av) \<Longrightarrow> map_of (map (\<lambda>a. (ca_evidence_id a, a)) av) i = Some a \<longleftrightarrow> a \<in> set av \<and> ca_evidence_id a = i"
  by (subst map_of_eq_Some_iff) (auto simp: comp_def)

lemma join_availability_ok:
  assumes c: "validate_causal_envelope c = Inr c"
  shows "join_availability (ce_evidences c) lineage e = Inr s \<longleftrightarrow> s = at_run_end (ce_run_end c) e
    \<and> (\<exists>a \<in> set (ce_evidences c). ca_evidence_id a = evd_id e \<and> instant (ca_timestamp a) = evd_at e \<and> ca_event_ids a = evd_event_ids e
         \<and> ca_context_event_ids a = lpv_context_event_ids lineage)"
proof -
  note env = c [unfolded validate_causal_envelope_ok]
  let ?m = "map_of (map (\<lambda>a. (ca_evidence_id a, a)) (ce_evidences c)) (evd_id e)"
  have m: "?m = Some a \<longleftrightarrow> a \<in> set (ce_evidences c) \<and> ca_evidence_id a = evd_id e" for a
    using env by (intro map_of_availability) simp
  have same: "ca_available_at a = ce_run_end c \<and> instant (ca_timestamp a) \<le> instant (ca_available_at a)" if "a \<in> set (ce_evidences c)" for a
  proof -
    have "availability_ok c a" using env that by blast
    then show ?thesis using env instant_inject [of "ca_available_at a" "ce_run_end c"]
      by (simp add: availability_ok_def validate_causal_availability_ok)
  qed
  show ?thesis
  proof (cases ?m)
    case None
    then have "\<nexists>a. a \<in> set (ce_evidences c) \<and> ca_evidence_id a = evd_id e" using m by (metis option.distinct(1))
    with None show ?thesis unfolding join_availability_def by auto
  next
    case (Some a)
    then have a: "a \<in> set (ce_evidences c)" "ca_evidence_id a = evd_id e" using m by auto
    have unique: "b = a" if "b \<in> set (ce_evidences c)" "ca_evidence_id b = evd_id e" for b
      using m [of b] that Some by simp
    let ?match = "\<lambda>b. instant (ca_timestamp b) = evd_at e \<and> ca_event_ids b = evd_event_ids e \<and> ca_context_event_ids b = lpv_context_event_ids lineage"
    have "(\<exists>b \<in> set (ce_evidences c). ca_evidence_id b = evd_id e \<and> ?match b) \<longleftrightarrow> ?match a"
      using a unique by metis
    moreover have "join_availability (ce_evidences c) lineage e = Inr s \<longleftrightarrow> ?match a \<and> s = at_run_end (ce_run_end c) e"
      unfolding join_availability_def Some option.case seq_ok raise_first.simps if_Inl_ok not_not
      using same [OF a(1)] by (auto simp: at_run_end_def not_less)
    ultimately show ?thesis by blast
  qed
qed

lemma map_result_all: "map_result f xs = Inr ys \<Longrightarrow> x \<in> set xs \<Longrightarrow> \<exists>y \<in> set ys. f x = Inr y"
proof (induction xs arbitrary: ys)
  case (Cons z xs)
  from Cons.prems(1) obtain y zs where "f z = Inr y" "map_result f xs = Inr zs" "ys = y # zs" by auto
  with Cons.IH Cons.prems(2) show ?case by auto
qed simp

text \<open>A join that passes: every Evidence of the artifact, available at the end of the run.\<close>

lemma prepared_input:
  assumes "prepare_r1_causal_replay_input a c run_metadata approved = Inr inp"
  shows "validate_causal_envelope c = Inr c" "cri_scheduled inp = sort_key schedule_key (map (at_run_end (ce_run_end c)) (ar_evidences a))"
    "distinct (map evd_id (ar_evidences a))"
    "\<And>e. e \<in> set (ar_evidences a) \<Longrightarrow> evidence_key e = (ce_run_id c, ce_entity_id c)
       \<and> instant (ce_run_start c) \<le> evd_at e \<and> evd_at e \<le> instant (ce_run_end c)"
    "evd_id ` set (ar_evidences a) = ca_evidence_id ` set (ce_evidences c)"
    "check_envelope_run c run_metadata approved = Inr ()" "check_summary_envelope a c = Inr ()"
    "\<And>e. e \<in> set (ar_evidences a) \<Longrightarrow> \<exists>v \<in> set (ce_evidences c). ca_evidence_id v = evd_id e \<and> instant (ca_timestamp v) = evd_at e"
proof -
  show c: "validate_causal_envelope c = Inr c"
    using assms by (auto simp: prepare_r1_causal_replay_input_def validate_causal_envelope_ok)
  obtain lineage scheduled where parts: "check_envelope_run c run_metadata approved = Inr ()" "check_summary_envelope a c = Inr ()"
      "index_evidences c {} (ar_evidences a) = Inr ()" "evd_id ` set (ar_evidences a) = ca_evidence_id ` set (ce_evidences c)"
      "map_result (join_availability (ce_evidences c) lineage) (ar_evidences a) = Inr scheduled"
      "inp = \<lparr>cri_scheduled = sort_key schedule_key scheduled\<rparr>"
    using assms unfolding prepare_r1_causal_replay_input_def c bnd.simps by auto
  have "scheduled = map (at_run_end (ce_run_end c)) (ar_evidences a)"
    by (rule map_result_image [OF parts(5)]) (simp add: join_availability_ok [OF c])
  with parts(6) show "cri_scheduled inp = sort_key schedule_key (map (at_run_end (ce_run_end c)) (ar_evidences a))" by simp
  show "distinct (map evd_id (ar_evidences a))" using parts(3) by (simp add: index_evidences_ok)
  show "evd_id ` set (ar_evidences a) = ca_evidence_id ` set (ce_evidences c)" by (rule parts(4))
  show "check_envelope_run c run_metadata approved = Inr ()" "check_summary_envelope a c = Inr ()" by (rule parts)+
  fix e assume e: "e \<in> set (ar_evidences a)"
  obtain s where "join_availability (ce_evidences c) lineage e = Inr s"
    using map_result_all [OF parts(5) e] by blast
  then obtain v where v: "v \<in> set (ce_evidences c)" "ca_evidence_id v = evd_id e" "instant (ca_timestamp v) = evd_at e"
    by (auto simp: join_availability_ok [OF c])
  have "availability_ok c v" using c v(1) by (simp add: validate_causal_envelope_ok)
  with v e parts(3) show "evidence_key e = (ce_run_id c, ce_entity_id c)
       \<and> instant (ce_run_start c) \<le> evd_at e \<and> evd_at e \<le> instant (ce_run_end c)"
    by (simp add: availability_ok_def index_evidences_ok)
  from v show "\<exists>v \<in> set (ce_evidences c). ca_evidence_id v = evd_id e \<and> instant (ca_timestamp v) = evd_at e" by blast
qed

text \<open>What the builder made, the join takes.\<close>

lemma new_policy_identity_ok:
  "new_policy_identity i v h = Inr p \<longleftrightarrow> p = \<lparr>cpi_policy_id = i, cpi_version = v, cpi_config_hash = h\<rparr> \<and> validate_causal_policy_identity p = Inr ()"
  by (auto simp: new_policy_identity_def Let_def)

lemma builder_inputs_ok:
  "validate_envelope_builder_inputs m p = Inr u \<longleftrightarrow> rm_end_time m \<noteq> None
     \<and> (\<exists>f. rm_family_id m = Some f \<and> validate_policy_family_binding f p = Inr ())"
  by (cases u; cases "rm_family_id m") (auto simp: validate_envelope_builder_inputs_def)

definition availability_of_evidence :: "datetime \<Rightarrow> lineage_provenance \<Rightarrow> evidence \<Rightarrow> causal_availability" where
  "availability_of_evidence t lineage e = \<lparr>ca_evidence_id = evd_id e, ca_timestamp = evd_timestamp e, ca_available_at = t,
     ca_event_ids = evd_event_ids e, ca_context_event_ids = lpv_context_event_ids lineage\<rparr>"

lemma availability_record_ok:
  "availability_record m t lineage e = Inr r \<longleftrightarrow> r = availability_of_evidence t lineage e
     \<and> evd_run_id e = rm_run_id m \<and> evd_entity_id e = rm_target_host m \<and> instant (rm_start_time m) \<le> evd_at e \<and> evd_at e \<le> instant t
     \<and> validate_causal_availability r = Inr r"
  unfolding availability_record_def availability_of_evidence_def seq_ok raise_first.simps if_Inl_ok not_less
  by (auto simp: validate_causal_availability_ok)

lemma built_envelope:
  assumes "build_envelope_from_artifacts a m selector approved = Inr c"
  obtains sel lineage run_end sha i p where
    "validate_envelope_builder_inputs m approved = Inr ()" "xs_run_id (ar_summary a) = rm_run_id m" "xs_diagnostics (ar_summary a) = []"
    "xs_selector (ar_summary a) = Some sel" "spv_status sel = SelectorSelected" "xs_lineage_inputs (ar_summary a) = Some [lineage]"
    "xs_evidence_sha (ar_summary a) = Some sha" "rm_end_time m = Some run_end"
    "selector_provenance_identity sel = Inr i" "causal_selector_identity selector = Inr i"
    "lineage_policy_identity lineage = Inr p" "approved_policy_identity approved = Inr p"
    "\<forall>e \<in> set (ar_evidences a). availability_record m run_end lineage e = Inr (availability_of_evidence run_end lineage e)"
    "c = \<lparr>ce_contract_version = causal_contract_version, ce_run_id = rm_run_id m, ce_entity_id = rm_target_host m,
       ce_run_start = rm_start_time m, ce_run_end = run_end, ce_watermark_at = run_end, ce_watermark_basis = causal_watermark_basis,
       ce_selector = i, ce_approved = p, ce_extractor_version = xs_extractor_version (ar_summary a),
       ce_evidence_count = int (length (ar_evidences a)), ce_evidence_sha = sha, ce_summary_sha = ar_summary_sha a,
       ce_evidences = sort_key causal_sort_key (map (availability_of_evidence run_end lineage) (ar_evidences a))\<rparr>"
    "validate_causal_envelope c = Inr c"
proof -
  note b = assms [unfolded build_envelope_from_artifacts_def Let_def seq_ok]
  obtain sel where sel: "xs_selector (ar_summary a) = Some sel" using b by (cases "xs_selector (ar_summary a)") auto
  note b = b [unfolded sel option.case]
  from b obtain i where sel2: "spv_status sel = SelectorSelected" "selector_provenance_identity sel = Inr i" "causal_selector_identity selector = Inr i"
    by auto
  have "\<exists>lineage. xs_lineage_inputs (ar_summary a) = Some [lineage]"
  proof (cases "xs_lineage_inputs (ar_summary a)")
    case (Some l)
    with b show ?thesis by (cases l; cases "tl l") auto
  qed (use b in auto)
  then obtain lineage where lin: "xs_lineage_inputs (ar_summary a) = Some [lineage]" by blast
  have sha: "\<exists>sha. xs_evidence_sha (ar_summary a) = Some sha"
    using b lin by (cases "xs_evidence_sha (ar_summary a)"; cases "rm_end_time m") auto
  then obtain sha where sha: "xs_evidence_sha (ar_summary a) = Some sha" by blast
  obtain run_end where run_end: "rm_end_time m = Some run_end" using b by (auto simp: builder_inputs_ok)
  note b = b [unfolded lin sha run_end option.case list.case prod.case]
  from b obtain p records where p: "lineage_policy_identity lineage = Inr p" "approved_policy_identity approved = Inr p"
      "map_result (availability_record m run_end lineage) (ar_evidences a) = Inr records"
      and c: "validate_causal_envelope \<lparr>ce_contract_version = causal_contract_version, ce_run_id = rm_run_id m, ce_entity_id = rm_target_host m,
       ce_run_start = rm_start_time m, ce_run_end = run_end, ce_watermark_at = run_end, ce_watermark_basis = causal_watermark_basis,
       ce_selector = i, ce_approved = p, ce_extractor_version = xs_extractor_version (ar_summary a),
       ce_evidence_count = int (length (ar_evidences a)), ce_evidence_sha = sha, ce_summary_sha = ar_summary_sha a,
       ce_evidences = sort_key causal_sort_key records\<rparr> = Inr c"
    using sel2 by auto
  have records: "records = map (availability_of_evidence run_end lineage) (ar_evidences a)"
    by (rule map_result_image [OF p(3)]) (simp add: availability_record_ok)
  have each: "\<forall>e \<in> set (ar_evidences a). availability_record m run_end lineage e = Inr (availability_of_evidence run_end lineage e)"
  proof
    fix e assume "e \<in> set (ar_evidences a)"
    then obtain y where "availability_record m run_end lineage e = Inr y" using map_result_all [OF p(3)] by blast
    then show "availability_record m run_end lineage e = Inr (availability_of_evidence run_end lineage e)"
      by (metis availability_record_ok)
  qed
  from c have same: "c = \<lparr>ce_contract_version = causal_contract_version, ce_run_id = rm_run_id m, ce_entity_id = rm_target_host m,
       ce_run_start = rm_start_time m, ce_run_end = run_end, ce_watermark_at = run_end, ce_watermark_basis = causal_watermark_basis,
       ce_selector = i, ce_approved = p, ce_extractor_version = xs_extractor_version (ar_summary a),
       ce_evidence_count = int (length (ar_evidences a)), ce_evidence_sha = sha, ce_summary_sha = ar_summary_sha a,
       ce_evidences = sort_key causal_sort_key records\<rparr>" by (simp add: validate_causal_envelope_ok)
  show thesis
  proof (rule that [OF _ _ _ sel sel2(1) lin sha run_end sel2(2,3) p(1,2) each])
    show "validate_envelope_builder_inputs m approved = Inr ()" "xs_run_id (ar_summary a) = rm_run_id m" "xs_diagnostics (ar_summary a) = []"
      using b by auto
    show "c = \<lparr>ce_contract_version = causal_contract_version, ce_run_id = rm_run_id m, ce_entity_id = rm_target_host m,
       ce_run_start = rm_start_time m, ce_run_end = run_end, ce_watermark_at = run_end, ce_watermark_basis = causal_watermark_basis,
       ce_selector = i, ce_approved = p, ce_extractor_version = xs_extractor_version (ar_summary a),
       ce_evidence_count = int (length (ar_evidences a)), ce_evidence_sha = sha, ce_summary_sha = ar_summary_sha a,
       ce_evidences = sort_key causal_sort_key (map (availability_of_evidence run_end lineage) (ar_evidences a))\<rparr>"
      using same records by simp
    show "validate_causal_envelope c = Inr c" using c same by simp
  qed
qed

lemma built_envelope_joins:
  assumes "build_envelope_from_artifacts a m selector approved = Inr c"
    and "xs_status (ar_summary a) = ExtractionCompleted" "xs_evidence_count (ar_summary a) = Some (int (length (ar_evidences a)))"
  shows "\<exists>inp. prepare_r1_causal_replay_input a c m approved = Inr inp"
proof -
  obtain sel lineage run_end sha i p where b: "validate_envelope_builder_inputs m approved = Inr ()"
    "xs_run_id (ar_summary a) = rm_run_id m" "xs_diagnostics (ar_summary a) = []"
    "xs_selector (ar_summary a) = Some sel" "spv_status sel = SelectorSelected" "xs_lineage_inputs (ar_summary a) = Some [lineage]"
    "xs_evidence_sha (ar_summary a) = Some sha" "rm_end_time m = Some run_end"
    "selector_provenance_identity sel = Inr i" "causal_selector_identity selector = Inr i"
    "lineage_policy_identity lineage = Inr p" "approved_policy_identity approved = Inr p"
    and each: "\<forall>e \<in> set (ar_evidences a). availability_record m run_end lineage e = Inr (availability_of_evidence run_end lineage e)"
    and c: "c = \<lparr>ce_contract_version = causal_contract_version, ce_run_id = rm_run_id m, ce_entity_id = rm_target_host m,
       ce_run_start = rm_start_time m, ce_run_end = run_end, ce_watermark_at = run_end, ce_watermark_basis = causal_watermark_basis,
       ce_selector = i, ce_approved = p, ce_extractor_version = xs_extractor_version (ar_summary a),
       ce_evidence_count = int (length (ar_evidences a)), ce_evidence_sha = sha, ce_summary_sha = ar_summary_sha a,
       ce_evidences = sort_key causal_sort_key (map (availability_of_evidence run_end lineage) (ar_evidences a))\<rparr>"
    and valid: "validate_causal_envelope c = Inr c"
    by (rule built_envelope [OF assms(1)])
  have av: "set (ce_evidences c) = availability_of_evidence run_end lineage ` set (ar_evidences a)" by (simp add: c)
  have id: "ca_evidence_id (availability_of_evidence run_end lineage e) = evd_id e" for e by (simp add: availability_of_evidence_def)
  have dist: "distinct (map ca_evidence_id (ce_evidences c))" using valid by (simp add: validate_causal_envelope_ok)
  then have "distinct (map ca_evidence_id (map (availability_of_evidence run_end lineage) (ar_evidences a)))"
    unfolding c causal_envelope.simps by (metis distinct_map distinct_sort set_sort)
  then have ids: "distinct (map evd_id (ar_evidences a))" by (simp add: comp_def id)
  have run: "check_envelope_run c m approved = Inr ()"
    using b(1,8) by (auto simp: check_envelope_run_def c builder_inputs_ok)
  have summary: "check_summary_envelope a c = Inr ()"
    using b(2,3,7) assms(2,3) by (simp add: check_summary_envelope_def c)
  have lin: "joined_lineage (ar_summary a) c approved = Inr lineage"
    using b(4-6,9-12) by (simp add: joined_lineage_def c)
  have index: "index_evidences c {} (ar_evidences a) = Inr ()"
    using ids each by (auto simp: index_evidences_ok c availability_record_ok evidence_key_def)
  have names: "evd_id ` set (ar_evidences a) = ca_evidence_id ` set (ce_evidences c)"
    unfolding av image_image id ..
  have "join_availability (ce_evidences c) lineage e = Inr (at_run_end (ce_run_end c) e)" if "e \<in> set (ar_evidences a)" for e
  proof -
    have "availability_of_evidence run_end lineage e \<in> set (ce_evidences c)" using that av by simp
    then show ?thesis unfolding join_availability_ok [OF valid]
      by (intro conjI refl bexI [of _ "availability_of_evidence run_end lineage e"]) (simp_all add: availability_of_evidence_def)
  qed
  then have "map_result (join_availability (ce_evidences c) lineage) (ar_evidences a) = Inr (map (at_run_end (ce_run_end c)) (ar_evidences a))"
    by (rule map_result_total)
  then have "prepare_r1_causal_replay_input a c m approved
      = Inr \<lparr>cri_scheduled = sort_key schedule_key (map (at_run_end (ce_run_end c)) (ar_evidences a))\<rparr>"
    using dist names
    by (simp add: prepare_r1_causal_replay_input_def valid run summary lin index del: index_evidences.simps)
  then show ?thesis by blast
qed

end
