(* ===== verification/WholeEpisode.thy ===== *)
theory WholeEpisode
  imports CausalPipelineFacts
begin

text \<open>
  What a causal replay on a whole-episode envelope computes: nothing is available before the end of
  the run, so the last point decides alone; its provenance is valid, and the evaluation accepts it.
\<close>

section \<open>A configuration and its snapshot\<close>

lemma runtime_fields_back:
  "validate_runtime_config nan_ok run_id entity_id (runtime_fields v) = Inr v' \<Longrightarrow> v' = v"
  by (cases v; cases "vc_metadata v"; cases "fm_model_version (vc_metadata v)")
    (auto simp: validate_runtime_config_def runtime_fields_def validate_runtime_window_size_sec_def
      validate_runtime_step_size_sec_def validate_runtime_stopping_def validity reject_boolean_count_def split: if_splits)

lemma runtime_config_eqs:
  "validate_runtime_window_size_sec = validate_window_size_sec" "validate_runtime_step_size_sec = validate_step_size_sec"
  "validate_runtime_scoring = validate_scoring_config UNIV" "validate_runtime_stopping = validate_stopping_config False"
  by (simp_all add: fun_eq_iff validate_runtime_window_size_sec_def validate_window_size_sec_def
      validate_runtime_step_size_sec_def validate_step_size_sec_def validate_runtime_scoring_def
      validate_scoring_config_def validate_managed_evidence_types_def validate_runtime_stopping_def
      validate_stopping_config_def seq_unit)

text \<open>The snapshot of a loaded configuration without a NaN is accepted.\<close>

lemma snapshot_total:
  assumes "validate_fusion_config False managed fc = Inr v" "\<not> blank run_id" "\<not> blank entity_id"
  shows "build_fusion_runtime_config_snapshot nan_ok v run_id entity_id = Inr \<lparr>cs_run_id = run_id, cs_entity_id = entity_id, cs_config = v\<rparr>"
proof -
  have "\<exists>v'. validate_runtime_config nan_ok run_id entity_id (runtime_fields v) = Inr v'"
    using assms unfolding validate_runtime_config_def runtime_config_eqs
    by (cases "fc_model_version fc") (auto simp: validate_fusion_config_def validity runtime_fields_def)
  then obtain v' where v': "validate_runtime_config nan_ok run_id entity_id (runtime_fields v) = Inr v'" by blast
  with runtime_fields_back [OF v'] show ?thesis by (simp add: build_fusion_runtime_config_snapshot_def)
qed

section \<open>Nothing is available before the end\<close>

definition whole_schedule :: "datetime \<Rightarrow> evidence list \<Rightarrow> scheduled_evidence list" where
  "whole_schedule t es = sort_key schedule_key (map (at_run_end t) es)"

lemma set_whole_schedule [simp]: "set (whole_schedule t es) = at_run_end t ` set es"
  by (simp add: whole_schedule_def)

lemma whole_active_before: "instant p < instant t \<Longrightarrow> causal_active r (whole_schedule t es) p = []"
proof -
  assume "instant p < instant t"
  then have "set (causal_active r (whole_schedule t es) p) = {}"
    by (auto simp: set_causal_active known_by_def at_run_end_def)
  then show ?thesis by simp
qed

lemma whole_active_end: "instant p = instant t \<Longrightarrow> set (causal_active r (whole_schedule t es) p)
    = {e \<in> set es. in_window (we_window_size (rn_window_engine r)) (instant t) e}"
  by (force simp: set_causal_active known_by_def at_run_end_def image_iff)

lemma causal_points_split:
  assumes "runner_wf r" "request_wf rq"
  obtains ps where "causal_points r rq = ps @ [rq_run_end rq]" "\<forall>p \<in> set ps. instant p < instant (rq_run_end rq)"
proof -
  have utc: "is_utc (rq_run_start rq)" "is_utc (rq_run_end rq)" "instant (rq_run_start rq) \<le> instant (rq_run_end rq)" "0 < rn_step_size r"
    using assms by (auto simp: request_wf_def runner_wf_def)
  note points = causal_points_ok [OF utc]
  have ne: "causal_points r rq \<noteq> []" using replay_points_cadence(1) [OF utc(4,3)] by (simp add: causal_points_def)
  have "last (causal_points r rq) = rq_run_end rq"
    using points(2,3) ne utc(2) instant_inject [of "last (causal_points r rq)" "rq_run_end rq"] by (simp add: causal_points_def)
  then have eq: "causal_points r rq = butlast (causal_points r rq) @ [rq_run_end rq]"
    using append_butlast_last_id [OF ne] by simp
  have "sorted_wrt (<) (map instant (butlast (causal_points r rq) @ [rq_run_end rq]))"
    using points(1) eq by (simp add: causal_points_def)
  then have "\<forall>p \<in> set (butlast (causal_points r rq)). instant p < instant (rq_run_end rq)" by (simp add: sorted_wrt_append)
  with eq that show ?thesis by blast
qed

lemma cold_without_evidence:
  assumes "runner_wf r"
  shows "\<not> hot (rn_stopping_policy r) (score_point_at (engine_collaborators (rn_scorer r)) p [])"
  using hot_has_evidence [OF assms, of p "[]"] by (auto simp: contributing_evidence_ids_def)

text \<open>A trajectory that is cold up to its last point fires there only, and only when one point is enough.\<close>

lemma last_point_fires:
  assumes wf: "policy_wf pol" and cold: "\<forall>p \<in> set ps. \<not> hot pol p"
  shows "fires_at pol (ps @ [q]) i \<and> i < length (ps @ [q]) \<longleftrightarrow> i = length ps \<and> persistence_k pol = 1 \<and> hot pol q"
proof -
  have k: "1 \<le> persistence_k pol" using wf by (simp add: policy_wf_def)
  have early: "\<not> fires pol (take (Suc i) ps)" if i: "i < length ps" for i
    using fires_last_hot [OF wf, of "take i ps" "ps ! i"] cold i by (auto simp: take_Suc_conv_app_nth)
  have suffix: "hot_suffix pol (ps @ [q]) = (if hot pol q then 1 else 0)"
  proof -
    have "takeWhile (hot pol) (rev ps) = []" using cold by (cases ps rule: rev_cases) auto
    then show ?thesis by (simp add: hot_suffix_def)
  qed
  have "fires pol (ps @ [q]) \<longleftrightarrow> persistence_k pol = 1 \<and> hot pol q"
    unfolding fires_iff_hot_suffix [OF k] suffix using k by auto
  then show ?thesis using early [of i] by (cases "i < length ps") (auto simp: fires_at_def less_Suc_eq)
qed

lemma whole_episode_decision:
  assumes wf: "policy_wf pol" and cold: "\<forall>p \<in> set ps. \<not> hot pol p" and spec: "detection_spec pol (ps @ [q]) sr"
  shows "sr_status sr = (if persistence_k pol = 1 \<and> hot pol q then Detected else Miss)
    \<and> sr_time sr = (if persistence_k pol = 1 \<and> hot pol q then Some (sp_timestamp q) else None)
    \<and> sr_score sr = (if persistence_k pol = 1 \<and> hot pol q then Some (sp_score q) else None)"
proof (cases "sr_time sr")
  case None
  with spec have "never_fires pol (ps @ [q])" "sr_status sr = Miss" "sr_score sr = None" by (auto simp: detection_spec_def)
  moreover have "\<not> (persistence_k pol = 1 \<and> hot pol q)"
    using last_point_fires [OF wf cold, of q "length ps"] calculation(1) by (auto simp: never_fires_def)
  ultimately show ?thesis using None by auto
next
  case (Some t)
  with spec obtain sc where sc: "sr_status sr = Detected" "sr_score sr = Some sc" "first_detection pol (ps @ [q]) t sc"
    by (auto simp: detection_spec_def)
  then obtain i where i: "first_fire pol (ps @ [q]) i" "t = sp_timestamp ((ps @ [q]) ! i)" "sc = sp_score ((ps @ [q]) ! i)"
    by (auto simp: first_detection_def)
  then have "i = length ps" "persistence_k pol = 1" "hot pol q"
    using last_point_fires [OF wf cold, of q i] by (auto simp: first_fire_def)
  with i Some sc show ?thesis by simp
qed

section \<open>A replay that returns\<close>

lemma trace_points_same: "map_result validate_trace_point xs = Inr ys \<Longrightarrow> ys = xs"
  using map_result_check [of validate_trace_point xs ys] by (auto simp: validate_trace_point_ok)

lemma causal_replay_parts:
  assumes ok: "config_ok n managed config" and run: "run_r1_causal_replay nan_ok io a c m approved config commit = Inr r"
  obtains runner where "build_runner config = Inr runner" "runner_wf runner"
    "timedelta_seconds (vc_step_size config) = Some (rn_step_size runner)"
    "timedelta_seconds (vc_window_size config) = Some (we_window_size (rn_window_engine runner))"
    "prepare_r1_causal_replay_input a c m approved = Inr \<lparr>cri_scheduled = whole_schedule (ce_run_end c) (ar_evidences a)\<rparr>"
    "request_wf (replay_request c)" "schedule_wf (replay_request c) (whole_schedule (ce_run_end c) (ar_evidences a))"
    "run_causal runner (whole_schedule (ce_run_end c) (ar_evidences a)) (replay_request c) = Inr (cpl_replay r)"
    "build_fusion_result (cpl_replay r) (ce_run_id c) (ce_entity_id c) (vc_metadata config) = Inr (cpl_fusion r)"
    "build_stopping_trace (ce_run_id c) (ce_entity_id c) (fm_config_version (vc_metadata config)) (rr_stopping_trace (cpl_replay r)) = Inr (cpl_trace r)"
    "cpl_config r = \<lparr>cs_run_id = ce_run_id c, cs_entity_id = ce_entity_id c, cs_config = config\<rparr>"
    "cpl_provenance r = replay_provenance_of io c config (rn_step_size runner) commit (cpl_replay r) (cpl_fusion r) (cpl_trace r) (cpl_config r)"
    "validate_replay_provenance (cpl_provenance r) = Inr (cpl_provenance r)"
proof -
  obtain inp runner rr fr trace snapshot p where s: "prepare_r1_causal_replay_input a c m approved = Inr inp"
      "build_runner config = Inr runner" "run_causal runner (cri_scheduled inp) (replay_request c) = Inr rr"
      "build_fusion_result rr (ce_run_id c) (ce_entity_id c) (vc_metadata config) = Inr fr"
      "build_stopping_trace (ce_run_id c) (ce_entity_id c) (fm_config_version (vc_metadata config)) (rr_stopping_trace rr) = Inr trace"
      "build_fusion_runtime_config_snapshot nan_ok config (ce_run_id c) (ce_entity_id c) = Inr snapshot"
      "validate_replay_provenance (replay_provenance_of io c config (rn_step_size runner) commit rr fr trace snapshot) = Inr p"
      "r = \<lparr>cpl_replay = rr, cpl_fusion = fr, cpl_trace = trace, cpl_config = snapshot, cpl_provenance = p\<rparr>"
    using run by (auto simp: run_r1_causal_replay_def)
  have "vc_threshold_on config \<noteq> NaN" "vc_threshold_off config \<noteq> NaN"
    using build_runner_nan [OF ok] s(2) by auto
  then have runner: "runner_wf runner" "timedelta_seconds (vc_step_size config) = Some (rn_step_size runner)"
      "timedelta_seconds (vc_window_size config) = Some (we_window_size (rn_window_engine runner))"
    using build_runner_ok [OF ok] s(2) by auto
  have inp: "inp = \<lparr>cri_scheduled = whole_schedule (ce_run_end c) (ar_evidences a)\<rparr>"
    using prepared_input(2) [OF s(1)] by (cases inp) (simp add: whole_schedule_def)
  have snap: "snapshot = \<lparr>cs_run_id = ce_run_id c, cs_entity_id = ce_entity_id c, cs_config = config\<rparr>"
    using s(6) runtime_fields_back by (auto simp: build_fusion_runtime_config_snapshot_def)
  have p: "p = replay_provenance_of io c config (rn_step_size runner) commit rr fr trace snapshot"
    using s(7) unfolding validate_replay_provenance_def Let_def seq_ok by (metis sum.inject(2))
  have acc: "request_wf (replay_request c) \<and> schedule_wf (replay_request c) (cri_scheduled inp)"
    by (rule run_causal_accepts [OF runner(1) s(3)])
  show thesis
    using that [of runner] s runner inp snap p acc by simp
qed

lemma replay_provenance_fields:
  assumes "config_ok n managed config" "run_r1_causal_replay nan_ok io a c m approved config commit = Inr r"
  shows "crp_fusion_sha (cpl_provenance r) = io_sha io (serialize_causal_fusion_result io (cpl_fusion r))
    \<and> crp_trace_sha (cpl_provenance r) = io_sha io (serialize_causal_stopping_trace io (cpl_trace r)) \<and> crp_commit (cpl_provenance r) = commit"
proof -
  obtain runner where "build_runner config = Inr runner" "cpl_provenance r = replay_provenance_of io c config (rn_step_size runner) commit (cpl_replay r) (cpl_fusion r) (cpl_trace r) (cpl_config r)"
    by (rule causal_replay_parts [OF assms])
  then show ?thesis by (simp add: replay_provenance_of_def)
qed

lemma causal_replay_result:
  assumes ok: "config_ok n managed config" and run: "run_r1_causal_replay nan_ok io a c m approved config commit = Inr r"
    and runner: "build_runner config = Inr runner"
  defines "rq \<equiv> replay_request c" and "ss \<equiv> whole_schedule (ce_run_end c) (ar_evidences a)"
  shows "replay_outcome runner (run_args rq (ce_run_end c) RunEnd) (trajectory_over runner (causal_points runner rq) (causal_active runner ss))
      (snapshots_over runner (causal_points runner rq) (causal_active runner ss)) (cpl_replay r)"
    "fusion_contract (cpl_fusion r)"
    "fr_status (cpl_fusion r) = sr_status (rr_stopping_result (cpl_replay r))" "fr_time (cpl_fusion r) = sr_time (rr_stopping_result (cpl_replay r))"
    "fr_evidence_ids (cpl_fusion r) = (case fr_time (cpl_fusion r) of None \<Rightarrow> []
         | Some t \<Rightarrow> contributing_evidence_ids (rn_scorer runner) (causal_active runner ss t))"
    "fr_episodes (cpl_fusion r) = map (built_episode runner (causal_active runner ss)) (sr_episodes (rr_stopping_result (cpl_replay r)))"
    "fr_run_id (cpl_fusion r) = ce_run_id c" "fr_entity_id (cpl_fusion r) = ce_entity_id c"
    "cpl_trace r = \<lparr>tr_run_id = ce_run_id c, tr_entity_id = ce_entity_id c, tr_config_version = fm_config_version (vc_metadata config),
       tr_points = rr_stopping_trace (cpl_replay r)\<rparr>"
proof -
  obtain runner' where "build_runner config = Inr runner'" and w: "runner_wf runner'"
    and parts: "prepare_r1_causal_replay_input a c m approved = Inr \<lparr>cri_scheduled = ss\<rparr>"
    "request_wf rq" "schedule_wf rq ss" "run_causal runner' ss rq = Inr (cpl_replay r)"
    "build_fusion_result (cpl_replay r) (ce_run_id c) (ce_entity_id c) (vc_metadata config) = Inr (cpl_fusion r)"
    "build_stopping_trace (ce_run_id c) (ce_entity_id c) (fm_config_version (vc_metadata config)) (rr_stopping_trace (cpl_replay r)) = Inr (cpl_trace r)"
    using causal_replay_parts [OF ok run] unfolding rq_def ss_def by metis
  then have [simp]: "runner' = runner" using runner by simp
  note wf = w [simplified]
  have rqf: "rq_run_id rq = ce_run_id c" "rq_entity_id rq = ce_entity_id c" "rq_run_start rq = ce_run_start c" "rq_run_end rq = ce_run_end c"
    by (simp_all add: rq_def replay_request_def)
  have env: "validate_causal_envelope c = Inr c" by (rule prepared_input(1) [OF parts(1)])
  have md: "metadata_ok (vc_metadata config)" using ok by (simp add: config_ok_def)
  show out: "replay_outcome runner (run_args rq (ce_run_end c) RunEnd) (trajectory_over runner (causal_points runner rq) (causal_active runner ss))
      (snapshots_over runner (causal_points runner rq) (causal_active runner ss)) (cpl_replay r)"
    using run_causal_spec [OF wf parts(2,3)] parts(4) rqf(4) by auto
  note points = causal_points_wf [OF wf parts(2)]
  have "is_utc (ce_run_end c)" "rq_run_id rq \<noteq> []" "\<not> blank (rq_entity_id rq)"
    using env rqf not_blank_nonempty by (auto simp: validate_causal_envelope_ok)
  from build_fusion_result_total [OF wf points(1) _ this md out] points(2) parts(5)
  show "fusion_contract (cpl_fusion r)"
    "fr_status (cpl_fusion r) = sr_status (rr_stopping_result (cpl_replay r))" "fr_time (cpl_fusion r) = sr_time (rr_stopping_result (cpl_replay r))"
    "fr_evidence_ids (cpl_fusion r) = (case fr_time (cpl_fusion r) of None \<Rightarrow> []
         | Some t \<Rightarrow> contributing_evidence_ids (rn_scorer runner) (causal_active runner ss t))"
    "fr_episodes (cpl_fusion r) = map (built_episode runner (causal_active runner ss)) (sr_episodes (rr_stopping_result (cpl_replay r)))"
    "fr_run_id (cpl_fusion r) = ce_run_id c" "fr_entity_id (cpl_fusion r) = ce_entity_id c"
    by (simp_all add: rqf)
  show "cpl_trace r = \<lparr>tr_run_id = ce_run_id c, tr_entity_id = ce_entity_id c, tr_config_version = fm_config_version (vc_metadata config),
       tr_points = rr_stopping_trace (cpl_replay r)\<rparr>"
    using parts(6) trace_points_same by (auto simp: build_stopping_trace_def validate_stopping_trace_ok)
qed

section \<open>The decision at the end\<close>

lemma whole_trajectory:
  assumes "runner_wf runner" "request_wf rq"
  obtains ps where "trajectory_over runner (causal_points runner rq) (causal_active runner (whole_schedule (rq_run_end rq) es))
      = ps @ [score_point_at (engine_collaborators (rn_scorer runner)) (rq_run_end rq) (causal_active runner (whole_schedule (rq_run_end rq) es) (rq_run_end rq))]"
    "\<forall>p \<in> set ps. \<not> hot (rn_stopping_policy runner) p"
proof -
  obtain ps where ps: "causal_points runner rq = ps @ [rq_run_end rq]" "\<forall>p \<in> set ps. instant p < instant (rq_run_end rq)"
    by (rule causal_points_split [OF assms])
  let ?pt = "\<lambda>p. score_point_at (engine_collaborators (rn_scorer runner)) p (causal_active runner (whole_schedule (rq_run_end rq) es) p)"
  have "\<not> hot (rn_stopping_policy runner) (?pt p)" if "p \<in> set ps" for p
  proof -
    have "causal_active runner (whole_schedule (rq_run_end rq) es) p = []"
      using ps(2) that by (intro whole_active_before) simp
    then show ?thesis using cold_without_evidence [OF assms(1)] by simp
  qed
  with that [of "map ?pt ps"] show ?thesis by (simp add: trajectory_over_def ps(1))
qed

lemma whole_episode_result:
  assumes ok: "config_ok n managed config" and run: "run_r1_causal_replay nan_ok io a c m approved config commit = Inr r"
    and runner: "build_runner config = Inr runner"
  defines "active \<equiv> filter (in_window (we_window_size (rn_window_engine runner)) (instant (ce_run_end c))) (ar_evidences a)"
  defines "hits \<equiv> vc_persistence_k config = 1 \<and> fle (vc_threshold_on config) (score (rn_scorer runner) active)"
  shows "fr_status (cpl_fusion r) = (if hits then Detected else Miss) \<and> fr_time (cpl_fusion r) = (if hits then Some (ce_run_end c) else None)
    \<and> fr_evidence_ids (cpl_fusion r) = (if hits then contributing_evidence_ids (rn_scorer runner) active else [])"
proof -
  obtain runner' where "build_runner config = Inr runner'" and w: "runner_wf runner'" and rq: "request_wf (replay_request c)"
    by (rule causal_replay_parts [OF ok run])
  then have wf: "runner_wf runner" using runner by simp
  have e: "rq_run_end (replay_request c) = ce_run_end c" by (simp add: replay_request_def)
  let ?ss = "whole_schedule (ce_run_end c) (ar_evidences a)"
  let ?co = "engine_collaborators (rn_scorer runner)"
  obtain ps where ps: "trajectory_over runner (causal_points runner (replay_request c)) (causal_active runner ?ss)
      = ps @ [score_point_at ?co (ce_run_end c) (causal_active runner ?ss (ce_run_end c))]"
      "\<forall>p \<in> set ps. \<not> hot (rn_stopping_policy runner) p"
    using whole_trajectory [OF wf rq, of "ar_evidences a"] unfolding e by blast
  note res = causal_replay_result [OF ok run runner]
  have pol: "policy_wf (rn_stopping_policy runner)" using wf by (simp add: runner_wf_def)
  have spec: "detection_spec (rn_stopping_policy runner) (ps @ [score_point_at ?co (ce_run_end c) (causal_active runner ?ss (ce_run_end c))])
      (rr_stopping_result (cpl_replay r))"
    using res(1) ps(1) by (simp add: replay_outcome_def)
  have set: "set (causal_active runner ?ss (ce_run_end c)) = set active"
    unfolding active_def by (simp add: whole_active_end)
  have same: "score (rn_scorer runner) (causal_active runner ?ss (ce_run_end c)) = score (rn_scorer runner) active"
      "contributing_evidence_ids (rn_scorer runner) (causal_active runner ?ss (ce_run_end c)) = contributing_evidence_ids (rn_scorer runner) active"
    using simple.score_of_set [OF set] simple.ids_of_set [OF set] by auto
  have policy: "rn_stopping_policy runner = \<lparr>threshold_on = vc_threshold_on config, threshold_off = vc_threshold_off config,
      persistence_k = vc_persistence_k config\<rparr>"
    using runner by (auto simp: build_runner_def new_replay_runner_def new_stopping_policy_ok)
  have "hits \<longleftrightarrow> persistence_k (rn_stopping_policy runner) = 1
      \<and> hot (rn_stopping_policy runner) (score_point_at ?co (ce_run_end c) (causal_active runner ?ss (ce_run_end c)))"
    by (simp add: hits_def policy hot_def score_point_at_def engine_collaborators_def same)
  then show ?thesis
    using whole_episode_decision [OF pol ps(2) spec] res(3-5) same(2) by (simp add: score_point_at_def)
qed

section \<open>The evaluation accepts it\<close>

lemma whole_active_known:
  assumes env: "validate_causal_envelope c = Inr c" and e: "e \<in> set (causal_active runner (whole_schedule (ce_run_end c) es) t)"
    and known: "\<And>e. e \<in> set es \<Longrightarrow> \<exists>v \<in> set (ce_evidences c). ca_evidence_id v = evd_id e \<and> instant (ca_timestamp v) = evd_at e"
  shows "\<exists>v \<in> set (ce_evidences c). ca_evidence_id v = evd_id e \<and> instant (ca_available_at v) \<le> instant t
    \<and> instant t - we_window_size (rn_window_engine runner) \<le> instant (ca_timestamp v) \<and> instant (ca_timestamp v) \<le> instant t"
proof -
  have e': "e \<in> set es" "instant (ce_run_end c) \<le> instant t" "in_window (we_window_size (rn_window_engine runner)) (instant t) e"
    using e by (auto simp: set_causal_active known_by_def at_run_end_def)
  obtain v where v: "v \<in> set (ce_evidences c)" "ca_evidence_id v = evd_id e" "instant (ca_timestamp v) = evd_at e"
    using known [OF e'(1)] by blast
  have "availability_ok c v" using env v(1) by (simp add: validate_causal_envelope_ok)
  with v e'(2,3) show ?thesis by (auto simp: availability_ok_def in_window_def)
qed

lemma map_of_rev_key:
  "distinct (map f xs) \<Longrightarrow> x \<in> set xs \<Longrightarrow> map_of (rev (map (\<lambda>x. (f x, x)) xs)) (f x) = Some x"
  by (intro map_of_is_SomeI) (auto simp: rev_map [symmetric] comp_def)

lemma score_without_evidence: "score sc [] = Finite 0"
  by (simp add: score_def active_types_def)

lemma trace_score_ok:
  assumes "available_in_window window c t \<or> active = []" "q = score sc active"
  shows "check_trace_point window c \<lparr>tp_timestamp = t, tp_score = q, tp_persistence = n, tp_state = st\<rparr> = Inr ()"
  using assms by (auto simp: check_trace_point_def score_without_evidence feq_def)

lemma list_all2_in_right: "list_all2 P xs ys \<Longrightarrow> y \<in> set ys \<Longrightarrow> \<exists>x \<in> set xs. P x y"
  by (induction rule: list_all2_induct) auto

lemma list_all2_in_left: "list_all2 P xs ys \<Longrightarrow> x \<in> set xs \<Longrightarrow> \<exists>y \<in> set ys. P x y"
  by (induction rule: list_all2_induct) auto

definition evaluation_of :: "causal_envelope \<Rightarrow> causal_pipeline_result \<Rightarrow> causal_evaluation_input" where
  "evaluation_of c r = \<lparr>cei_provenance = cpl_provenance r, cei_envelope = c, cei_trace = cpl_trace r\<rparr>"

definition pins_of :: "provenance_io \<Rightarrow> causal_envelope \<Rightarrow> causal_pipeline_result \<Rightarrow> causal_replay_pins" where
  "pins_of io c r = \<lparr>pin_provenance = io_sha io (serialize_replay_provenance io (cpl_provenance r)), pin_envelope = io_sha io (serialize_envelope io c)\<rparr>"

lemma envelope_run_facts:
  "check_envelope_run c m approved = Inr u \<Longrightarrow> ce_run_id c = rm_run_id m \<and> ce_entity_id c = rm_target_host m
     \<and> instant (ce_run_start c) = instant (rm_start_time m) \<and> (\<exists>t. rm_end_time m = Some t \<and> instant t = instant (ce_run_end c))"
  by (cases "rm_end_time m"; cases u) (auto simp: check_envelope_run_def)

lemma evaluation_accepts:
  assumes ok: "config_ok n managed config" and run: "run_r1_causal_replay nan_ok io a c m approved config commit = Inr r"
  shows "validate_causal_replay io (evaluation_of c r) (pins_of io c r) m (cpl_fusion r) (ce_run_start c) (ce_run_end c) = Inr ()"
proof -
  obtain runner where runner: "build_runner config = Inr runner" "runner_wf runner"
    "timedelta_seconds (vc_window_size config) = Some (we_window_size (rn_window_engine runner))"
    and join: "prepare_r1_causal_replay_input a c m approved = Inr \<lparr>cri_scheduled = whole_schedule (ce_run_end c) (ar_evidences a)\<rparr>"
    and rq: "request_wf (replay_request c)"
    and built: "build_fusion_result (cpl_replay r) (ce_run_id c) (ce_entity_id c) (vc_metadata config) = Inr (cpl_fusion r)"
    and cfg: "cpl_config r = \<lparr>cs_run_id = ce_run_id c, cs_entity_id = ce_entity_id c, cs_config = config\<rparr>"
    and prov: "cpl_provenance r = replay_provenance_of io c config (rn_step_size runner) commit (cpl_replay r) (cpl_fusion r) (cpl_trace r) (cpl_config r)"
    by (rule causal_replay_parts [OF ok run])
  let ?ss = "whole_schedule (ce_run_end c) (ar_evidences a)"
  let ?active = "causal_active runner ?ss"
  let ?points = "causal_points runner (replay_request c)"
  let ?traj = "trajectory_over runner ?points ?active"
  let ?tr = "rr_stopping_trace (cpl_replay r)" and ?sr = "rr_stopping_result (cpl_replay r)"
  let ?w = "we_window_size (rn_window_engine runner)"
  let ?a = "run_args (replay_request c) (ce_run_end c) RunEnd"
  note res = causal_replay_result [OF ok run runner(1)]
  note inp = prepared_input [OF join]
  have env: "ce_contract_version c = ce_contract_version c" "validate_causal_envelope c = Inr c" using inp(1) by auto
  have traj: "rr_trajectory (cpl_replay r) = ?traj" "list_all2 traced ?traj ?tr"
      "evaluate (rn_stopping_policy runner) ?a ?traj = Inr (?sr, ?tr)"
      "episodes_spec (rn_stopping_policy runner) ?a ?traj ?sr"
    using res(1) by (auto simp: replay_outcome_def)
  note points = causal_points_wf [OF runner(2) rq]
  have times: "map (instant \<circ> tp_timestamp) ?tr = map (instant \<circ> sp_timestamp) ?traj"
    using list_all2_traced_times [OF traj(2)] .
  have traj_times: "map (instant \<circ> sp_timestamp) ?traj = map instant ?points"
    by (simp add: trajectory_over_def comp_def)
  have bindings: "check_provenance_bindings io (evaluation_of c r) (pins_of io c r) m (ce_run_start c) (ce_run_end c) = Inr ()"
    using envelope_run_facts [OF inp(6)] res(9)
    by (auto simp: check_provenance_bindings_def evaluation_of_def pins_of_def prov replay_provenance_of_def)
  have fields: "fr_config_version (cpl_fusion r) = fm_config_version (vc_metadata config)" "fr_model_version (cpl_fusion r) = fm_model_version (vc_metadata config)"
      "fr_scoring_method (cpl_fusion r) = fm_method (vc_metadata config)" "fr_scorer_version (cpl_fusion r) = fm_scorer_version (vc_metadata config)"
      "fr_profile_id (cpl_fusion r) = fm_profile_id (vc_metadata config)"
    using built by (auto simp: build_fusion_result_def Let_def validate_fusion_result_ok)
  have outputs: "check_provenance_outputs io (cpl_provenance r) (cpl_trace r) (cpl_fusion r) = Inr ()"
    using fields times traj(1) res(9)
    by (simp add: check_provenance_outputs_def prov replay_provenance_of_def cfg comp_def)
  have known: "\<exists>v \<in> set (ce_evidences c). ca_evidence_id v = evd_id e \<and> instant (ca_available_at v) \<le> instant t
      \<and> instant t - ?w \<le> instant (ca_timestamp v) \<and> instant (ca_timestamp v) \<le> instant t"
    if "e \<in> set (?active t)" for e t
    using whole_active_known [OF env(2) that inp(8)] .
  have scores: "check_trace_point ?w c q = Inr ()" if q: "q \<in> set ?tr" for q
  proof -
    obtain p where p: "p \<in> set ?traj" "traced p q" using list_all2_in_right [OF traj(2) q] by blast
    then obtain t where t: "t \<in> set ?points" "p = score_point_at (engine_collaborators (rn_scorer runner)) t (?active t)"
      by (auto simp: trajectory_over_def)
    have "available_in_window ?w c t \<or> ?active t = []"
      using known [of "hd (?active t)" t] by (cases "?active t") (auto simp: available_in_window_def)
    then show ?thesis
      using trace_score_ok [of ?w c t "?active t" _ "rn_scorer runner" "tp_persistence q" "tp_state q"] p(2) t(2)
      by (cases q) (simp add: traced_def score_point_at_def engine_collaborators_def)
  qed
  have distinct: "distinct (map (instant \<circ> tp_timestamp) ?tr)"
    unfolding times traj_times using points(1) by (simp add: strict_sorted_iff)
  have lookup: "map_of (rev (map (\<lambda>p. (instant (tp_timestamp p), p)) ?tr)) (instant (tp_timestamp q)) = Some q" if "q \<in> set ?tr" for q
    using map_of_rev_key [of "instant \<circ> tp_timestamp" ?tr q] distinct that by (simp add: comp_def)
  have episodes: "check_causal_episode ?w c (cpl_trace r) e = Inr ()" if e: "e \<in> set (fr_episodes (cpl_fusion r))" for e
  proof -
    obtain ep where ep: "ep \<in> set (sr_episodes ?sr)" "e = built_episode runner ?active ep" using e res(6) by auto
    have of: "episode_of (rn_stopping_policy runner) ?a ?traj ep" using traj(4) ep(1) by (simp add: episodes_spec_def)
    obtain q where q: "q \<in> set ?tr" "tp_timestamp q = fep_start ep" "tp_score q = fep_score_at_start ep" "tp_state q = On"
      using evaluate_marked [OF traj(3) ep(1)] by (auto simp: marks_def)
    have "\<exists>q' \<in> set ?tr. instant (tp_timestamp q') = instant (fep_end ep)"
    proof -
      have "instant (fep_end ep) \<in> instant ` set ?points"
      proof (cases "fep_end_reason ep = Released")
        case True
        with of obtain pre seg post where "?traj = pre @ seg @ post" "post \<noteq> []" "fep_end ep = sp_timestamp (hd post)"
          by (auto simp: episode_of_def)
        then have "hd post \<in> set ?traj" "fep_end ep = sp_timestamp (hd post)" by (auto dest: hd_in_set)
        then show ?thesis by (auto simp: trajectory_over_def)
      next
        case False
        with of have "fep_end ep = ce_run_end c" by (auto simp: episode_of_def run_args_def)
        moreover obtain ps where "?points = ps @ [rq_run_end (replay_request c)]"
          by (rule causal_points_split [OF runner(2) rq])
        ultimately show ?thesis by (simp add: replay_request_def)
      qed
      then have "instant (fep_end ep) \<in> set (map (instant \<circ> tp_timestamp) ?tr)" unfolding times traj_times by simp
      then show ?thesis by auto
    qed
    then obtain q' where q': "q' \<in> set ?tr" "instant (tp_timestamp q') = instant (fep_end ep)" by blast
    obtain p where "p \<in> set ?traj" "sp_timestamp p = fep_start ep" "sp_score p = fep_score_at_start ep"
      using episode_start_point [OF _ of] runner(2) by (auto simp: runner_wf_def)
    then obtain es where es: "score (rn_scorer runner) es = fep_score_at_start ep"
      by (auto simp: trajectory_over_def score_point_at_def engine_collaborators_def)
    moreover have "in_unit (score (rn_scorer runner) es)"
      using score_in_unit runner(2) by (simp add: runner_wf_def)
    ultimately have "in_unit (fep_score_at_start ep)" unfolding es by blast
    then have "feq (tp_score q) (fep_score_at_start ep)" using q(3) by (auto simp: in_unit_Finite feq_def)
    moreover have "check_each (check_episode_evidence ?w c (fep_start ep)) (contributing_evidence_ids (rn_scorer runner) (?active (fep_start ep))) = Inr ()"
    proof -
      have "check_episode_evidence ?w c (fep_start ep) i = Inr ()"
        if i: "i \<in> set (contributing_evidence_ids (rn_scorer runner) (?active (fep_start ep)))" for i
      proof -
        obtain x where "x \<in> set (?active (fep_start ep))" "i = evd_id x"
          using i unfolding set_contributing_evidence_ids by blast
        then obtain v where v: "v \<in> set (ce_evidences c)" "ca_evidence_id v = i" "instant (ca_available_at v) \<le> instant (fep_start ep)"
            "instant (fep_start ep) - ?w \<le> instant (ca_timestamp v)" "instant (ca_timestamp v) \<le> instant (fep_start ep)"
          using known by blast
        have "map_of (rev (map (\<lambda>a. (ca_evidence_id a, a)) (ce_evidences c))) (ca_evidence_id v) = Some v"
          using env(2) v(1) by (intro map_of_rev_key) (auto simp: validate_causal_envelope_ok)
        with v show ?thesis by (simp add: check_episode_evidence_def)
      qed
      then show ?thesis by simp
    qed
    ultimately show ?thesis
      using lookup [OF q(1)] lookup [OF q'(1)] q q' res(9)
      by (simp add: check_causal_episode_def ep(2) built_episode_def)
  qed
  show ?thesis
    using bindings outputs scores episodes runner(3) res(9)
    by (simp add: validate_causal_replay_def evaluation_of_def prov replay_provenance_of_def cfg duration_of_def)
qed

section \<open>The replay returns\<close>

lemma first_detection_point: "first_detection pol traj t sc \<Longrightarrow> \<exists>p \<in> set traj. sp_timestamp p = t"
  by (auto simp: first_detection_def first_fire_def)

lemma causal_points_aligned_ms:
  assumes "step mod 1000 = 0" "ms_aligned start" "ms_aligned stop" "p \<in> set (causal_replay_points step start stop)"
  shows "ms_aligned p"
  using assms cadence_ms_aligned [OF assms(1,2)] by (auto simp: causal_replay_points_def Let_def split: if_splits)

text \<open>The provenance of an outcome is valid.\<close>

lemma provenance_valid:
  assumes env: "validate_causal_envelope c = Inr c" and r: "runner_wf runner" and rq: "request_wf (replay_request c)"
    and step: "timedelta_seconds (vc_step_size config) = Some (rn_step_size runner)" "0 < vc_step_size config"
    and out: "rr_trajectory rr = trajectory_over runner (causal_points runner (replay_request c)) active"
      "detection_spec (rn_stopping_policy runner) (rr_trajectory rr) (rr_stopping_result rr)"
    and fr: "fr_status fr = sr_status (rr_stopping_result rr)" "fr_time fr = sr_time (rr_stopping_result rr)" "fusion_contract fr"
      "distinct (fr_evidence_ids fr)"
    and sha: "sha256_ok (io_sha io (serialize_causal_fusion_result io fr))" "sha256_ok (io_sha io (serialize_causal_stopping_trace io trace))"
    and commit: "\<not> blank commit" "unpadded commit"
  defines "snapshot \<equiv> \<lparr>cs_run_id = ce_run_id c, cs_entity_id = ce_entity_id c, cs_config = config\<rparr>"
  shows "validate_replay_provenance (replay_provenance_of io c config (rn_step_size runner) commit rr fr trace snapshot)
    = Inr (replay_provenance_of io c config (rn_step_size runner) commit rr fr trace snapshot)"
proof -
  let ?p = "replay_provenance_of io c config (rn_step_size runner) commit rr fr trace snapshot"
  let ?points = "causal_replay_points (rn_step_size runner) (ce_run_start c) (ce_run_end c)"
  note e = env [unfolded validate_causal_envelope_ok]
  have pos: "0 < rn_step_size runner" "instant (ce_run_start c) \<le> instant (ce_run_end c)" using r e by (auto simp: runner_wf_def)
  have utc: "is_utc (ce_run_start c)" "is_utc (ce_run_end c)" using e by auto
  note cad = replay_points_cadence [OF pos]
  note ok = causal_points_ok [OF utc pos(2,1)]
  have pts: "crp_points ?p = ?points"
    by (simp add: replay_provenance_of_def out(1) trajectory_over_def causal_points_def replay_request_def comp_def score_point_at_def)
  have fields: "crp_start ?p = ce_run_start c" "crp_end ?p = ce_run_end c" "crp_step_size ?p = vc_step_size config"
      "crp_partial ?p = ((instant (ce_run_end c) - instant (ce_run_start c)) mod rn_step_size runner \<noteq> 0)"
      "crp_time ?p = fr_time fr" "crp_status ?p = fr_status fr" "crp_evidence_ids ?p = fr_evidence_ids fr"
      "crp_episode_ids ?p = map fer_id (fr_episodes fr)"
    by (simp_all add: replay_provenance_of_def)
  have cadence: "validate_replay_cadence ?p (rn_step_size runner) = Inr ()"
    unfolding validate_replay_cadence_def Let_def pts fields raise_first.simps if_Inl_ok using cad pos by auto
  have time: "is_utc t \<and> instant t \<in> instant ` set ?points \<and> fr_status fr = Detected" if "fr_time fr = Some t" for t
  proof -
    have det: "sr_time (rr_stopping_result rr) = Some t" "sr_status (rr_stopping_result rr) = Detected"
        "\<exists>sc. first_detection (rn_stopping_policy runner) (rr_trajectory rr) t sc"
      using out(2) that fr(2) by (auto simp: detection_spec_def)
    from det(3) have "t \<in> set ?points"
      using first_detection_point by (fastforce simp: out(1) trajectory_over_def causal_points_def replay_request_def)
    with ok(2) det(2) fr(1) show ?thesis by auto
  qed
  have miss: "fr_time fr = None \<Longrightarrow> fr_status fr \<noteq> Detected"
    using out(2) fr(1,2) by (auto simp: detection_spec_def)
  have contract: "validate_provenance_contract ?p = Inr ()"
    unfolding validate_provenance_contract_def fields pts duration_of_def step(1) option.case bnd.simps cadence seq.simps
    using cad(2) ok(3) pos(2) e time miss fr(3,4)
    by (cases "fr_time fr") (auto simp: replay_provenance_of_def snapshot_def fusion_contract_def)
  have points_ok: "validate_replay_points ?points = Inr ()"
    using gaps_positive [of ?points] ok(1) by (force simp: validate_replay_points_def)
  have "check_each (require_utc s) (option_list (fr_time fr)) = Inr ()" for s
    using time by (cases "fr_time fr") (auto simp: option_list_def)
  then show ?thesis
    unfolding validate_replay_provenance_def Let_def contract pts fields points_ok
    using e sha commit step(2) ok(2) cad(1)
    by (simp add: replay_provenance_of_def causal_contract_version_def causal_watermark_basis_def validate_causal_policy_identity_def)
      (simp add: blank_def unpadded_def str_strip_def is_space_def code_point_def)
qed

lemma contributing_distinct: "distinct (contributing_evidence_ids sc es)"
  by (simp add: contributing_evidence_ids_def)

lemma availability_utc: "availability_record m t lineage e = Inr (availability_of_evidence t lineage e) \<Longrightarrow> is_utc (evd_timestamp e)"
  by (simp add: availability_record_ok validate_causal_availability_ok availability_of_evidence_def)

text \<open>The envelope built from completed artifacts is replayed, whatever they hold.\<close>

lemma causal_replay_total:
  assumes c: "build_envelope_from_artifacts a m selector approved = Inr c"
    and a: "xs_status (ar_summary a) = ExtractionCompleted" "xs_evidence_count (ar_summary a) = Some (int (length (ar_evidences a)))"
    and cfg: "validate_fusion_config False managed fc = Inr config" "vc_step_size config \<le> 1000000000"
    and ms: "ms_aligned (ce_run_start c)" "ms_aligned (ce_run_end c)"
    and sha: "\<And>s. sha256_ok (io_sha io s)" and commit: "\<not> blank commit" "unpadded commit"
  shows "\<exists>r. run_r1_causal_replay nan_ok io a c m approved config commit = Inr r"
proof -
  obtain inp where inp: "prepare_r1_causal_replay_input a c m approved = Inr inp"
    using built_envelope_joins [OF c a] by blast
  note env = prepared_input(1) [OF inp]
  note e = env [unfolded validate_causal_envelope_ok]
  have ok: "config_ok False managed config" by (rule fusion_config_ok [OF cfg(1)])
  then have nan: "vc_threshold_on config \<noteq> NaN" "vc_threshold_off config \<noteq> NaN"
    by (auto simp: config_ok_def in_unit_def)
  obtain runner where runner: "build_runner config = Inr runner" "runner_wf runner"
      "timedelta_seconds (vc_step_size config) = Some (rn_step_size runner)"
    using build_runner_ok [OF ok nan] by blast
  let ?rq = "replay_request c" and ?ss = "cri_scheduled inp"
  have rq: "request_wf ?rq" "rq_run_id ?rq \<noteq> []" "\<not> blank (rq_entity_id ?rq)"
    using e not_blank_nonempty by (auto simp: request_wf_def replay_request_def)
  have utc: "is_utc (evd_timestamp x)" if "x \<in> set (ar_evidences a)" for x
    using built_envelope [OF c] availability_utc that by metis
  have ss: "schedule_wf ?rq ?ss"
    using prepared_input(2-4) [OF inp] e utc
    by (auto simp: schedule_wf_def scheduled_ok_def at_run_end_def replay_request_def comp_def distinct_map inj_on_def)
  obtain rr where rr: "run_causal runner ?ss ?rq = Inr rr"
    "replay_outcome runner (run_args ?rq (rq_run_end ?rq) RunEnd) (trajectory_over runner (causal_points runner ?rq) (causal_active runner ?ss))
      (snapshots_over runner (causal_points runner ?rq) (causal_active runner ?ss)) rr"
    using run_causal_spec [OF runner(2) rq(1) ss] by blast
  note points = causal_points_wf [OF runner(2) rq(1)]
  have end_utc: "is_utc (rq_run_end ?rq)" using rq(1) by (simp add: request_wf_def)
  have md: "metadata_ok (vc_metadata config)" using ok by (simp add: config_ok_def)
  obtain fr where fr: "build_fusion_result rr (ce_run_id c) (ce_entity_id c) (vc_metadata config) = Inr fr" "fusion_contract fr"
      "fr_status fr = sr_status (rr_stopping_result rr)" "fr_time fr = sr_time (rr_stopping_result rr)"
      "fr_evidence_ids fr = (case fr_time fr of None \<Rightarrow> [] | Some t \<Rightarrow> contributing_evidence_ids (rn_scorer runner) (causal_active runner ?ss t))"
    using build_fusion_result_total [OF runner(2) points end_utc rq(2,3) md rr(2)] by (auto simp: replay_request_def)
  have "str_ms_aligned (vc_step_size config)" "0 < vc_step_size config"
    using ok by (auto simp: config_ok_def)
  then have "rn_step_size runner = 1000 * round_rat (vc_step_size config * 1000)"
    using timedelta_seconds_ms [of "vc_step_size config"] cfg(2) runner(3) by simp
  then have step: "rn_step_size runner mod 1000 = 0" by simp
  have aligned: "\<forall>p \<in> set (causal_points runner ?rq). ms_aligned p"
    using causal_points_aligned_ms [OF step ms] by (simp add: causal_points_def replay_request_def)
  have traj: "trajectory_ok (ce_run_end c) (trajectory_over runner (causal_points runner ?rq) (causal_active runner ?ss))"
    using trajectory_ok_over [OF _ points] runner(2) by (simp add: runner_wf_def replay_request_def)
  have ids: "ce_run_id c \<noteq> []" "ce_entity_id c \<noteq> []" "fm_config_version (vc_metadata config) \<noteq> []"
    using e md not_blank_nonempty by (auto simp: metadata_ok_def)
  have traced: "list_all2 traced (trajectory_over runner (causal_points runner ?rq) (causal_active runner ?ss)) (rr_stopping_trace rr)"
    using rr(2) by (simp add: replay_outcome_def)
  have "\<forall>p \<in> set (trajectory_over runner (causal_points runner ?rq) (causal_active runner ?ss)). ms_aligned (sp_timestamp p)"
    using aligned by (auto simp: trajectory_over_def)
  then obtain trace where trace: "build_stopping_trace (ce_run_id c) (ce_entity_id c) (fm_config_version (vc_metadata config)) (rr_stopping_trace rr) = Inr trace"
    using build_stopping_trace_ok [OF traced traj ids] by blast
  let ?snap = "\<lparr>cs_run_id = ce_run_id c, cs_entity_id = ce_entity_id c, cs_config = config\<rparr>"
  have snap: "build_fusion_runtime_config_snapshot nan_ok config (ce_run_id c) (ce_entity_id c) = Inr ?snap"
    using snapshot_total [OF cfg(1)] e by blast
  have "distinct (fr_evidence_ids fr)" unfolding fr(5) by (cases "fr_time fr") (simp_all add: contributing_distinct)
  then have "validate_replay_provenance (replay_provenance_of io c config (rn_step_size runner) commit rr fr trace ?snap)
      = Inr (replay_provenance_of io c config (rn_step_size runner) commit rr fr trace ?snap)"
    using rr(2) fr sha commit \<open>0 < vc_step_size config\<close>
    by (intro provenance_valid [OF env runner(2) rq(1) runner(3), where active = "causal_active runner ?ss"])
      (simp_all add: replay_outcome_def)
  then show ?thesis by (simp add: run_r1_causal_replay_def inp runner(1) rr(1) fr(1) trace snap)
qed

section \<open>The artifacts of a replay\<close>

lemma publish_replay_atomic:
  assumes "publish_replay_files io files dir = (r, dir')" "distinct (map fst files)"
  shows "(case r of Inl e \<Rightarrow> dir' = dir | Inr u \<Rightarrow> dir' = dir ++ map_of files \<and> (\<forall>t \<in> fst ` set files. dir t = None))"
proof (cases "find (\<lambda>(target, content). dir target \<noteq> None) files")
  case None
  with assms(1) have "link_files (artifact_io.truncate io) files [] dir = (r, dir')" by (simp add: publish_replay_files_def)
  from link_files_spec [OF this, of dir] assms(2) show ?thesis by simp
next
  case (Some x)
  with assms(1) show ?thesis by (cases x) (auto simp: publish_replay_files_def)
qed

lemma replay_files_distinct: "distinct (map fst (replay_files io fr trace p))"
  by (simp add: replay_files_def causal_fusion_filename_def causal_trace_filename_def provenance_filename_def)

lemma replay_files_lookup:
  "map_of (replay_files io fr trace p) causal_fusion_filename = Some (serialize_causal_fusion_result io fr)"
  "map_of (replay_files io fr trace p) causal_trace_filename = Some (serialize_causal_stopping_trace io trace)"
  "map_of (replay_files io fr trace p) provenance_filename = Some (serialize_replay_provenance io p)"
  by (simp_all add: replay_files_def causal_fusion_filename_def causal_trace_filename_def provenance_filename_def)

lemma written_replay:
  assumes "run_and_write_r1_causal_replay nan_ok io a c m approved config commit dir = (res, dir')"
  shows "(case res of
      Inl e \<Rightarrow> dir' = dir
    | Inr (r, files) \<Rightarrow> run_r1_causal_replay nan_ok io a c m approved config commit = Inr r
        \<and> dir' = dir ++ map_of (replay_files io (cpl_fusion r) (cpl_trace r) (cpl_provenance r))
        \<and> list_all (\<lambda>t. dir t = None) [causal_fusion_filename, causal_trace_filename, provenance_filename])"
proof (cases "run_r1_causal_replay nan_ok io a c m approved config commit")
  case (Inl e)
  with assms show ?thesis by (auto simp: run_and_write_r1_causal_replay_def)
next
  case (Inr r)
  let ?files = "replay_files io (cpl_fusion r) (cpl_trace r) (cpl_provenance r)"
  obtain x d where pub: "publish_replay_files io ?files dir = (x, d)" by fastforce
  note atomic = publish_replay_atomic [OF pub replay_files_distinct]
  have names: "fst ` set ?files = {causal_fusion_filename, causal_trace_filename, provenance_filename}" by (auto simp: replay_files_def)
  obtain w where w: "write_r1_causal_replay_artifacts io (cpl_fusion r) (cpl_trace r) (cpl_provenance r) dir = w" by blast
  show ?thesis
  proof (cases "fst w")
    case (Inl e)
    then have "snd w = dir" using w atomic pub
      by (cases x) (auto simp: write_r1_causal_replay_artifacts_def split: if_splits)
    with Inl Inr w assms show ?thesis by (cases w) (auto simp: run_and_write_r1_causal_replay_def)
  next
    case (Inr s)
    then have "x = Inr ()" "snd w = d" using w pub
      by (cases x; auto simp: write_r1_causal_replay_artifacts_def split: if_splits)+
    with Inr \<open>run_r1_causal_replay nan_ok io a c m approved config commit = Inr r\<close> w assms atomic names show ?thesis
      by (cases w) (auto simp: run_and_write_r1_causal_replay_def)
  qed
qed

lemma loaded_replay:
  assumes ok: "config_ok n managed config"
    and w: "run_and_write_r1_causal_replay nan_ok io a c m approved config commit dir = (Inr (r, files), dir')"
    and codec: "cio_parse_fusion io (serialize_causal_fusion_result io (cpl_fusion r)) = Some (cpl_fusion r)"
      "cio_parse_trace io (serialize_causal_stopping_trace io (cpl_trace r)) = Some (cpl_trace r)"
      "pio_parse_provenance io (serialize_replay_provenance io (cpl_provenance r)) = Some (cpl_provenance r)"
  shows "load_r1_causal_replay_artifacts io dir'
    = Inr \<lparr>rar_fusion = cpl_fusion r, rar_trace = cpl_trace r, rar_provenance = cpl_provenance r\<rparr>"
proof -
  have run: "run_r1_causal_replay nan_ok io a c m approved config commit = Inr r"
    and dir: "dir' = dir ++ map_of (replay_files io (cpl_fusion r) (cpl_trace r) (cpl_provenance r))"
    using written_replay [OF w] by auto
  obtain runner where "build_runner config = Inr runner"
    and built: "build_fusion_result (cpl_replay r) (ce_run_id c) (ce_entity_id c) (vc_metadata config) = Inr (cpl_fusion r)"
    and trace: "build_stopping_trace (ce_run_id c) (ce_entity_id c) (fm_config_version (vc_metadata config)) (rr_stopping_trace (cpl_replay r)) = Inr (cpl_trace r)"
    and prov: "cpl_provenance r = replay_provenance_of io c config (rn_step_size runner) commit (cpl_replay r) (cpl_fusion r) (cpl_trace r) (cpl_config r)"
    and valid: "validate_replay_provenance (cpl_provenance r) = Inr (cpl_provenance r)"
    by (rule causal_replay_parts [OF ok run])
  have "validate_fusion_result (cpl_fusion r) = Inr (cpl_fusion r)"
    using built by (auto simp: build_fusion_result_def Let_def validate_fusion_result_ok)
  moreover have "validate_loaded_trace (cpl_trace r) = Inr (cpl_trace r)"
    using trace trace_points_same by (fastforce simp: validate_loaded_trace_def build_stopping_trace_def validate_stopping_trace_ok)
  moreover have sha: "io_sha io (serialize_causal_fusion_result io (cpl_fusion r)) = crp_fusion_sha (cpl_provenance r)"
      "io_sha io (serialize_causal_stopping_trace io (cpl_trace r)) = crp_trace_sha (cpl_provenance r)"
    by (simp_all add: prov replay_provenance_of_def)
  ultimately show ?thesis
    by (simp add: load_r1_causal_replay_artifacts_def read_file_def parse_model_def dir map_add_def replay_files_lookup codec valid)
qed

end
