(* ===== verification/EvidenceArtifactFacts.thy ===== *)
theory EvidenceArtifactFacts
  imports EvidenceArtifacts
begin

text \<open>
  The artifacts of an R1 run: what the writer publishes passes every check of the reader and reads
  back as it was, and a call that fails leaves at most the summary of its failure.
\<close>

section \<open>The summary reads back\<close>

lemma text_at_simp [simp]: "map_of d k = Some (JStr s) \<Longrightarrow> text_at d k = Inr s"
  by (simp add: text_at_def)

lemma map_json_texts: "map_result (\<lambda>v. case v of JStr s \<Rightarrow> Inr s | _ \<Rightarrow> Inl (ValueError ''string_type'')) (map JStr ss) = Inr ss"
  by (induction ss) auto

lemma texts_back: "map_of d k = Some (json_texts ss) \<Longrightarrow> texts_at d k = Inr ss"
  using map_json_texts [of ss] by (simp add: texts_at_def json_texts_def)

lemma is_texts_json [simp]: "is_texts P (Some (json_texts ss)) = list_all (\<lambda>s. P (JStr s)) ss"
  by (simp add: is_texts_def json_texts_def list_all_iff)

lemma is_text_JStr [simp]: "is_text (Some (JStr s)) = (\<not> blank s)"
  by (simp add: is_text_def)

lemma is_string_JStr [simp]: "is_string (JStr s)"
  by (simp add: is_string_def)

lemma lineage_back: "lineage_of_payload (lineage_payload p) = Inr p"
proof (cases "lpv_context_event_ids p = []")
  case True
  then have "texts_at [(''anchor_event_id'', JStr (lpv_anchor_event_id p)), (''policy_config_hash'', JStr (lpv_policy_config_hash p)),
      (''policy_id'', JStr (lpv_policy_id p)), (''policy_version'', JStr (lpv_policy_version p)),
      (''terminal_event_id'', JStr (lpv_terminal_event_id p)), (''context_event_ids'', JList [])] ''context_event_ids'' = Inr []"
    by (simp add: texts_at_def)
  with True show ?thesis by (simp add: lineage_of_payload_def lineage_payload_def with_default_def)
next
  case False
  have "texts_at [(''anchor_event_id'', JStr (lpv_anchor_event_id p)), (''context_event_ids'', json_texts (lpv_context_event_ids p)),
      (''policy_config_hash'', JStr (lpv_policy_config_hash p)), (''policy_id'', JStr (lpv_policy_id p)),
      (''policy_version'', JStr (lpv_policy_version p)), (''terminal_event_id'', JStr (lpv_terminal_event_id p))] ''context_event_ids''
     = Inr (lpv_context_event_ids p)" by (rule texts_back) simp
  with False show ?thesis by (simp add: lineage_of_payload_def lineage_payload_def with_default_def)
qed

definition provenance_texts_ok :: "lineage_provenance \<Rightarrow> bool" where
  "provenance_texts_ok p \<longleftrightarrow> \<not> blank (lpv_anchor_event_id p) \<and> \<not> blank (lpv_terminal_event_id p) \<and> \<not> blank (lpv_policy_id p)
     \<and> \<not> blank (lpv_policy_version p) \<and> \<not> blank (lpv_policy_config_hash p) \<and> list_all (\<lambda>c. \<not> blank c) (lpv_context_event_ids p)"

lemma lineage_item_ok: "provenance_texts_ok p \<Longrightarrow> validate_lineage_item (lineage_payload p) = Inr ()"
proof (cases "lpv_context_event_ids p = []")
  case True
  assume "provenance_texts_ok p"
  with True show ?thesis
    by (auto simp: validate_lineage_item_def lineage_payload_def with_default_def provenance_texts_ok_def lineage_field_names_def is_texts_def)
next
  case False
  assume "provenance_texts_ok p"
  with False show ?thesis
    by (auto simp: validate_lineage_item_def lineage_payload_def with_default_def provenance_texts_ok_def lineage_field_names_def)
qed

lemma selector_text_back: "literal_of selector_text selector_diagnostics (selector_text d) = Inr d"
  by (cases d) (simp_all add: literal_of_def selector_diagnostics_def selector_text_def)

lemma diagnostic_text_back: "literal_of diagnostic_text extraction_diagnostics (diagnostic_text d) = Inr d"
  by (cases d) (simp_all add: literal_of_def extraction_diagnostics_def diagnostic_text_def)

lemma literals_back: "(\<And>x. literal_of text options (text x) = Inr x) \<Longrightarrow> map_result (literal_of text options) (map text xs) = Inr xs"
  by (induction xs) auto

lemma selector_back:
  assumes "new_selector_provenance p = Inr p"
  shows "selector_of_payload (Some (selector_payload p)) = Inr (Some p)" "validate_selector_payload (Some (selector_payload p)) = Inr ()"
proof -
  let ?d = "[(''config_hash'', JStr (spv_config_hash p)), (''diagnostics'', json_texts (map selector_text (spv_diagnostics p))),
     (''policy_id'', JStr (spv_policy_id p)), (''status'', JStr (selector_status_text (spv_status p))), (''version'', JStr (spv_version p))]"
  have nb: "\<not> blank (spv_policy_id p)" "\<not> blank (spv_version p)" "\<not> blank (spv_config_hash p)"
    using assms unfolding new_selector_provenance_def by simp_all
  have st: "literal_of selector_status_text [SelectorSelected, SelectorFailed] (selector_status_text (spv_status p)) = Inr (spv_status p)"
    "\<not> blank (selector_status_text (spv_status p))"
    by (cases "spv_status p"; simp add: literal_of_def selector_status_text_def; code_simp)+
  have "texts_at ?d ''diagnostics'' = Inr (map selector_text (spv_diagnostics p))" by (rule texts_back) simp
  moreover have "map_result (literal_of selector_text selector_diagnostics) (map selector_text (spv_diagnostics p)) = Inr (spv_diagnostics p)"
    by (rule literals_back) (rule selector_text_back)
  ultimately show "selector_of_payload (Some (selector_payload p)) = Inr (Some p)"
    using st assms by (cases p) (simp add: selector_of_payload_def selector_payload_def)
  show "validate_selector_payload (Some (selector_payload p)) = Inr ()"
    using nb st by (auto simp: validate_selector_payload_def selector_payload_def selector_field_names_def list_all_iff)
qed

lemma count_back: "map_of d k = Some (json_count n) \<Longrightarrow> count_at d k = Inr n"
  by (cases n) (simp_all add: count_at_def json_count_def)

lemma text_option_back: "map_of d k = Some (json_text_option v) \<Longrightarrow> text_option_at d k = Inr v"
  by (cases v) (simp_all add: text_option_at_def json_text_option_def)

definition summary_texts_ok :: "extraction_summary \<Rightarrow> bool" where
  "summary_texts_ok s \<longleftrightarrow> \<not> blank (xs_run_id s) \<and> \<not> blank (xs_extractor_version s)
     \<and> (case xs_lineage_inputs s of None \<Rightarrow> True | Some ps \<Rightarrow> list_all provenance_texts_ok ps)
     \<and> (case xs_selector s of None \<Rightarrow> True | Some p \<Rightarrow> new_selector_provenance p = Inr p)"

lemma summary_names:
  assumes "summary_payload s = JObj d"
  shows "fst ` set d \<in> {summary_field_names, summary_field_names - {''selector''}}"
proof -
  let ?pre = "[''diagnostics'', ''error_message'', ''error_type'', ''evidence_artifact_sha256'', ''evidence_count'', ''extractor_version'',
    ''input_event_count'', ''lineage_inputs'', ''run_id'']" and ?post = "[''status'', ''telemetry_completeness'', ''warnings'']"
  have "map fst d = ?pre @ (if xs_selector s = None then [] else [''selector'']) @ ?post"
    using assms by (cases "xs_selector s") (auto simp: summary_payload_def)
  then have "fst ` set d = set (?pre @ (if xs_selector s = None then [] else [''selector'']) @ ?post)" by (metis list.set_map)
  moreover have "set (?pre @ ?post) = summary_field_names - {''selector''}" by code_simp
  moreover have "set (?pre @ [''selector''] @ ?post) = summary_field_names" by code_simp
  ultimately show ?thesis by (cases "xs_selector s") simp_all
qed

lemma summary_dict:
  assumes "summary_payload s = JObj d"
  defines "d' \<equiv> with_default ''selector'' JNull d"
  shows "map_of d' ''run_id'' = Some (JStr (xs_run_id s))" "map_of d' ''extractor_version'' = Some (JStr (xs_extractor_version s))"
    "map_of d' ''input_event_count'' = Some (json_count (xs_input_event_count s))" "map_of d' ''evidence_count'' = Some (json_count (xs_evidence_count s))"
    "map_of d' ''status'' = Some (JStr (extraction_status_text (xs_status s)))" "map_of d' ''telemetry_completeness'' = Some (JStr ''not_provided'')"
    "map_of d' ''lineage_inputs'' = Some (case xs_lineage_inputs s of None \<Rightarrow> JNull | Some ps \<Rightarrow> JList (map lineage_payload ps))"
    "map_of d' ''warnings'' = Some (json_texts (xs_warnings s))" "map_of d' ''diagnostics'' = Some (json_texts (map diagnostic_text (xs_diagnostics s)))"
    "map_of d' ''error_type'' = Some (json_text_option (xs_error_type s))" "map_of d' ''error_message'' = Some (json_text_option (xs_error_message s))"
    "map_of d' ''evidence_artifact_sha256'' = Some (json_text_option (xs_evidence_sha s))"
    "map_of d' ''selector'' = Some (case xs_selector s of None \<Rightarrow> JNull | Some p \<Rightarrow> selector_payload p)"
proof -
  have "d = (case summary_payload s of JObj x \<Rightarrow> x)" using assms(1) by simp
  then have d: "d' = with_default ''selector'' JNull (case summary_payload s of JObj x \<Rightarrow> x)" by (simp add: d'_def)
  show "map_of d' ''run_id'' = Some (JStr (xs_run_id s))" "map_of d' ''extractor_version'' = Some (JStr (xs_extractor_version s))"
    "map_of d' ''input_event_count'' = Some (json_count (xs_input_event_count s))" "map_of d' ''evidence_count'' = Some (json_count (xs_evidence_count s))"
    "map_of d' ''status'' = Some (JStr (extraction_status_text (xs_status s)))" "map_of d' ''telemetry_completeness'' = Some (JStr ''not_provided'')"
    "map_of d' ''lineage_inputs'' = Some (case xs_lineage_inputs s of None \<Rightarrow> JNull | Some ps \<Rightarrow> JList (map lineage_payload ps))"
    "map_of d' ''warnings'' = Some (json_texts (xs_warnings s))" "map_of d' ''diagnostics'' = Some (json_texts (map diagnostic_text (xs_diagnostics s)))"
    "map_of d' ''error_type'' = Some (json_text_option (xs_error_type s))" "map_of d' ''error_message'' = Some (json_text_option (xs_error_message s))"
    "map_of d' ''evidence_artifact_sha256'' = Some (json_text_option (xs_evidence_sha s))"
    "map_of d' ''selector'' = Some (case xs_selector s of None \<Rightarrow> JNull | Some p \<Rightarrow> selector_payload p)"
    unfolding d by (cases "xs_selector s"; simp add: summary_payload_def with_default_def)+
qed

lemma json_option_simps [simp]:
  "is_count_or_null (Some (json_count n))" "is_text_or_null (Some (json_text_option v))"
  by (cases n; simp add: is_count_or_null_def json_count_def) (cases v; simp add: is_text_or_null_def json_text_option_def)

lemma summary_back:
  assumes ok: "summary_texts_ok s"
  shows "bnd (validate_summary_payload (summary_payload s)) summary_of_payload = Inr s"
proof -
  obtain d where d: "summary_payload s = JObj d" by (simp add: summary_payload_def)
  let ?d = "with_default ''selector'' JNull d"
  note f = summary_dict [OF d]
  have sel: "validate_selector_payload (map_of ?d ''selector'') = Inr ()" "selector_of_payload (map_of ?d ''selector'') = Inr (xs_selector s)"
    unfolding f(13) using ok selector_back
    by (auto simp: summary_texts_ok_def validate_selector_payload_def selector_of_payload_def split: option.splits)
  have lin: "(case map_of ?d ''lineage_inputs'' of Some JNull \<Rightarrow> Inr () | Some (JList items) \<Rightarrow> check_each validate_lineage_item items
      | _ \<Rightarrow> Inl (TypeError ''lineage_inputs must be an array or null'')) = Inr ()"
    unfolding f(7) using ok by (auto simp: summary_texts_ok_def list_all_iff lineage_item_ok split: option.splits)
  have valid: "validate_summary_payload (summary_payload s) = Inr ?d"
    unfolding validate_summary_payload_def d json.case Let_def sel lin
    using summary_names [OF d] ok by (auto simp: f summary_texts_ok_def list_all_iff)
  have inputs: "(case map_of ?d ''lineage_inputs'' of Some JNull \<Rightarrow> Inr None
        | Some (JList vs) \<Rightarrow> bnd (map_result lineage_of_payload vs) (\<lambda>ps. Inr (Some ps))
        | _ \<Rightarrow> Inl (ValueError ''tuple_type'')) = Inr (xs_lineage_inputs s)"
  proof (cases "xs_lineage_inputs s")
    case (Some ps)
    have "map_result lineage_of_payload (map lineage_payload ps) = Inr ps" by (induction ps) (auto simp: lineage_back)
    with Some show ?thesis unfolding f(7) by simp
  qed (simp add: f(7))
  have status: "literal_of extraction_status_text [ExtractionCompleted, ExtractionFailed] (extraction_status_text (xs_status s)) = Inr (xs_status s)"
    by (cases "xs_status s") (simp_all add: literal_of_def extraction_status_text_def)
  have ds: "map_result (literal_of diagnostic_text extraction_diagnostics) (map diagnostic_text (xs_diagnostics s)) = Inr (xs_diagnostics s)"
    by (rule literals_back) (rule diagnostic_text_back)
  have "summary_of_payload ?d = Inr s"
    unfolding summary_of_payload_def inputs sel
    by (simp add: f(1,2,5,6) count_back [OF f(3)] count_back [OF f(4)] texts_back [OF f(8)] texts_back [OF f(9)] text_option_back [OF f(10)]
        text_option_back [OF f(11)] text_option_back [OF f(12)] status ds)
  with valid show ?thesis by simp
qed

section \<open>The lines read back\<close>

definition evidence_codec_ok :: "artifact_io \<Rightarrow> evidence \<Rightarrow> bool" where
  "evidence_codec_ok io e \<longleftrightarrow> io_parse_evidence io (io_dump_evidence io e) = Some e \<and> \<not> blank (io_dump_evidence io e)
     \<and> list_all (\<lambda>c. \<not> is_line_break c) (io_dump_evidence io e)"

lemma evidences_back:
  assumes "\<forall>e \<in> set es. evidence_codec_ok io e \<and> validate_evidence e = Inr e"
  shows "read_evidences io (serialize_evidences io es) = Inr es"
proof -
  have "split_lines [] (serialize_evidences io es) = map (io_dump_evidence io) es" using assms
    by (induction es) (auto simp: serialize_evidences_def evidence_codec_ok_def split_lines_plain)
  moreover have "map_result (read_evidence_line io) (map (io_dump_evidence io) es) = Inr es" using assms
    by (induction es) (auto simp: read_evidence_line_def evidence_codec_ok_def)
  ultimately show ?thesis by (simp add: read_evidences_def)
qed

section \<open>The Evidence of any lineage inputs\<close>

lemma index_events_keys:
  assumes "index_events_by_id es d = Inr d'" "\<And>k e. map_of d k = Some e \<Longrightarrow> ev_event_id e = k \<and> e \<in> S"
  shows "map_of d' k = Some e \<Longrightarrow> ev_event_id e = k \<and> e \<in> S \<union> set es"
  using assms
proof (induction es arbitrary: d S)
  case (Cons x es)
  have "ev_event_id e = k \<and> e \<in> (S \<union> {x}) \<union> set es"
    using Cons.prems by (intro Cons.IH [of "d @ [(ev_event_id x, x)]" "S \<union> {x}"]) (auto simp: map_add_def split: option.splits if_splits)
  then show ?case by auto
qed auto

lemma index_events_distinct_ids:
  "index_events_by_id es d = Inr d' \<Longrightarrow> distinct (map ev_event_id es)"
proof (induction es arbitrary: d)
  case (Cons x es)
  have step: "index_events_by_id es (d @ [(ev_event_id x, x)]) = Inr d'" using Cons.prems by simp
  have fresh: "index_events_by_id ys d0 = Inr d' \<Longrightarrow> map_of d0 k \<noteq> None \<Longrightarrow> k \<notin> ev_event_id ` set ys" for ys d0 k
  proof (induction ys arbitrary: d0)
    case (Cons y ys)
    then have "map_of d0 (ev_event_id y) = None" "index_events_by_id ys (d0 @ [(ev_event_id y, y)]) = Inr d'" by auto
    then show ?case using Cons.IH [of "d0 @ [(ev_event_id y, y)]"] Cons.prems(2) by (auto simp: map_add_def split: option.splits)
  qed simp
  have "map_of (d @ [(ev_event_id x, x)]) (ev_event_id x) \<noteq> None" by (auto simp: map_add_def split: option.splits)
  from fresh [OF step this] Cons.IH [OF step] show ?case by simp
qed simp

text \<open>What a published Evidence is, whatever the inputs were.\<close>

definition published_evidence :: "string \<Rightarrow> lineage_provenance list \<Rightarrow> evidence \<Rightarrow> bool" where
  "published_evidence run_id ps e \<longleftrightarrow> evd_run_id e = run_id \<and> evd_extractor_version e = r1_extractor_version \<and> validate_evidence e = Inr e
     \<and> evd_type e \<in> {remote_process_network_follow_on, remote_session_process_lineage_deviation}
     \<and> validate_evidence_lineage_provenance ps e = Inr ()"

lemma evidence_types_differ: "remote_process_network_follow_on \<noteq> remote_session_process_lineage_deviation"
  by (simp add: remote_process_network_follow_on_def remote_session_process_lineage_deviation_def)

lemma follow_on_provenance:
  "evd_type e = remote_process_network_follow_on \<Longrightarrow> p \<in> set ps \<Longrightarrow> hd (evd_event_ids e) = lpv_terminal_event_id p
    \<Longrightarrow> validate_evidence_lineage_provenance ps e = Inr ()"
  using evidence_types_differ by (auto simp: validate_evidence_lineage_provenance_def)

lemma deviation_provenance:
  "evd_type e = remote_session_process_lineage_deviation \<Longrightarrow> p \<in> set ps \<Longrightarrow> matches_lineage_deviation_provenance e p
    \<Longrightarrow> validate_evidence_lineage_provenance ps e = Inr ()"
  by (auto simp: validate_evidence_lineage_provenance_def)

lemma follow_on_published:
  assumes "extract_follow_on nm t n = Inr es" "e \<in> set es" "ev_run_id t = run_id" "p \<in> set ps" "lpv_terminal_event_id p = ev_event_id t"
  shows "published_evidence run_id ps e"
proof -
  obtain ts where "validate_evidence (r1_evidence (nm_follow_on nm (ev_run_id t) (sort [ev_event_id t, ev_event_id n])) t ts
      remote_process_network_follow_on [ev_event_id t, ev_event_id n] []) = Inr e"
    using assms(1,2) by (auto simp: extract_follow_on_def Let_def split: if_splits option.splits)
  then have v: "validate_evidence e = Inr e" and e: "e = r1_evidence (nm_follow_on nm (ev_run_id t) (sort [ev_event_id t, ev_event_id n])) t ts
      remote_process_network_follow_on [ev_event_id t, ev_event_id n] []" by (auto simp: validate_evidence_ok)
  have "validate_evidence_lineage_provenance ps e = Inr ()"
    by (rule follow_on_provenance [OF _ assms(4)]) (simp_all add: e r1_evidence_def assms(5))
  with v assms(3) show ?thesis by (simp add: published_evidence_def) (simp add: e r1_evidence_def)
qed

lemma reconstruct_complete_unique:
  "lco_status (reconstruct_loop indexed anchor_guid observed seen current) = LineageComplete \<Longrightarrow> \<not> 1 < length (events_for indexed anchor_guid)"
proof (induction indexed anchor_guid observed seen current rule: reconstruct_loop.induct)
  case (1 indexed anchor_guid observed seen current)
  show ?case
  proof (cases "\<exists>g pg parent rest. process_guid current = Some g \<and> \<not> 1 < length (events_for indexed g) \<and> g \<noteq> anchor_guid
      \<and> parent_process_guid current = Some pg \<and> pg \<notin> seen \<and> events_for indexed pg = parent # rest
      \<and> \<not> 1 < length (events_for indexed pg) \<and> is_parent_edge current parent")
    case False
    with "1.prems" show ?thesis
      by (subst (asm) reconstruct_loop.simps) (auto simp: truncated_def split: option.splits list.splits if_splits)
  next
    case True
    then obtain g pg parent rest where p: "process_guid current = Some g" "\<not> 1 < length (events_for indexed g)" "g \<noteq> anchor_guid"
      "parent_process_guid current = Some pg" "pg \<notin> seen" "\<not> 1 < length (events_for indexed pg)" "events_for indexed pg = parent # rest"
      "is_parent_edge current parent" by auto
    have "reconstruct_loop indexed anchor_guid observed seen current
        = reconstruct_loop indexed anchor_guid (observed @ [parent]) (insert pg seen) parent"
      using p by (subst reconstruct_loop.simps) simp
    with "1.prems" show ?thesis using "1.IH" [OF p(1,2,3,4,5,6,7)] p(8) by simp
  qed
qed

text \<open>Every eligible Event of the scope is indexed when the ids are unique.\<close>

lemma indexed_event:
  assumes ids: "distinct (map ev_event_id events)" and x: "x \<in> set events" "is_eligible_process_event x"
    and scope: "ev_run_id x = ev_run_id t" "ev_host_id x = ev_host_id t" and a: "a \<in> set events" "t \<in> set events"
  shows "x \<in> set (index_process_events events a t)"
proof -
  let ?step = "\<lambda>by_id e. if map_of by_id (ev_event_id e) \<noteq> None \<or> \<not> is_eligible_process_event e
       \<or> ev_run_id e \<noteq> ev_run_id t \<or> ev_host_id e \<noteq> ev_host_id t then by_id else by_id @ [(ev_event_id e, e)]"
  have keep: "map_of d k = Some y \<Longrightarrow> map_of (foldl ?step d es) k = Some y" for d es k y
  proof (induction es arbitrary: d)
    case (Cons e es)
    have "map_of (?step d e) k = Some y" using Cons.prems by (auto simp: map_add_def split: option.splits)
    then have "map_of (foldl ?step (?step d e) es) k = Some y" by (rule Cons.IH)
    then show ?case by (simp only: foldl_Cons)
  qed simp
  have key: "(\<And>k y. map_of d k = Some y \<Longrightarrow> ev_event_id y = k \<and> y \<in> S) \<Longrightarrow> x \<in> set es \<Longrightarrow> S \<union> set es \<subseteq> set events \<Longrightarrow>
      map_of (foldl ?step d es) (ev_event_id x) = Some x" for d es S
  proof (induction es arbitrary: d S)
    case (Cons e es)
    have inv: "ev_event_id y = k \<and> y \<in> insert e S" if "map_of (?step d e) k = Some y" for k y
      using that Cons.prems(1) [of k y] by (auto simp: map_add_def split: option.splits if_splits)
    show ?case
    proof (cases "x \<in> set es")
      case True
      have sub: "insert e S \<union> set es \<subseteq> set events" using Cons.prems(3) by auto
      have "map_of (foldl ?step (?step d e) es) (ev_event_id x) = Some x" by (rule Cons.IH [OF inv True sub])
      then show ?thesis by (simp only: foldl_Cons)
    next
      case False
      then have e: "e = x" using Cons.prems(2) by simp
      have "map_of (?step d e) (ev_event_id x) = Some x"
      proof (cases "map_of d (ev_event_id x)")
        case None
        with x scope show ?thesis by (simp add: e map_add_def)
      next
        case (Some y)
        then have "ev_event_id y = ev_event_id x" "y \<in> set events" using Cons.prems(1,3) by auto
        then have "y = x" using ids x(1) by (auto simp: distinct_map inj_on_def)
        with Some show ?thesis by (simp add: e)
      qed
      then have "map_of (foldl ?step (?step d e) es) (ev_event_id x) = Some x" by (rule keep)
      then show ?thesis by (simp only: foldl_Cons)
    qed
  qed simp
  have sub: "{} \<union> set (events @ [a, t]) \<subseteq> set events" and xin: "x \<in> set (events @ [a, t])" using a x(1) by simp_all
  have "map_of (foldl ?step [] (events @ [a, t])) (ev_event_id x) = Some x" by (rule key [OF _ xin sub]) simp
  then have "(ev_event_id x, x) \<in> set (foldl ?step [] (events @ [a, t]))" by (rule map_of_SomeD)
  then have "snd (ev_event_id x, x) \<in> snd ` set (foldl ?step [] (events @ [a, t]))" by (rule imageI)
  then show ?thesis unfolding index_process_events_def by (simp only: snd_conv set_map)
qed

text \<open>A complete lineage starts at the anchor itself and ends at the terminal.\<close>

lemma complete_lineage:
  assumes ids: "distinct (map ev_event_id events)" and a: "a \<in> set events" "t \<in> set events"
    and elig: "is_eligible_process_event a" "is_eligible_process_event t" and scope: "ev_run_id a = ev_run_id t" "ev_host_id a = ev_host_id t"
    and c: "lco_status (reconstruct_process_lineage events a t) = LineageComplete"
  shows "hd (lco_events (reconstruct_process_lineage events a t)) = a" "last (lco_events (reconstruct_process_lineage events a t)) = t"
    "lco_events (reconstruct_process_lineage events a t) \<noteq> []"
proof -
  let ?xs = "lco_events (reconstruct_process_lineage events a t)" and ?i = "index_process_events events a t"
  obtain g h where gh: "process_guid a = Some g" "process_guid t = Some h" using elig by (auto simp: is_eligible_process_event_def)
  note facts = reconstruction_facts [of events a t]
  show "last ?xs = t" "?xs \<noteq> []" using facts by simp_all
  have r: "reconstruct_process_lineage events a t = reconstruct_loop ?i g [t] {h} t" by (simp add: reconstruct_process_lineage_def gh)
  have one: "\<not> 1 < length (events_for ?i g)" using reconstruct_complete_unique c unfolding r by blast
  have tin: "t \<in> set ?i" and ain: "a \<in> set ?i" using indexed_event [OF ids] a elig scope by auto
  obtain more where m: "?xs = rev ([t] @ more)" "set ([t] @ more) \<subseteq> set ?i \<union> {t}"
    using reconstruct_loop_facts [of "[t]" t ?i t "{h}" g] gh unfolding r by auto
  have "hd ?xs \<in> set ?xs" using facts by simp
  then have "hd ?xs \<in> set ?i" using m tin by auto
  moreover have "process_guid (hd ?xs) = Some g" using facts c gh by simp
  ultimately have "hd ?xs \<in> set (events_for ?i g)" "a \<in> set (events_for ?i g)" using ain gh by (auto simp: events_for_def)
  with one show "hd ?xs = a" by (cases "events_for ?i g"; cases "tl (events_for ?i g)") auto
qed

lemma deviation_published:
  assumes ids: "distinct (map ev_event_id events)" and a: "a \<in> set events" "t \<in> set events"
    and x: "extract_lineage_deviation nm events a t policy ctx = Inr r" and e: "e \<in> set (exr_evidences r)" and run: "ev_run_id t = run_id"
    and p: "p \<in> set ps" "lpv_terminal_event_id p = ev_event_id t" "lpv_anchor_event_id p = ev_event_id a" "lpv_context_event_ids p = ctx"
      "lpv_policy_id p = ap_policy_id policy" "lpv_policy_version p = ap_version policy" "lpv_policy_config_hash p = ap_config_hash policy"
    and pv: "validate_lineage_provenance p = Inr ()"
  shows "published_evidence run_id ps e"
proof -
  let ?c = "reconstruct_process_lineage events a t"
  have elig: "is_eligible_process_event a" "is_eligible_process_event t" and scope: "ev_run_id a = ev_run_id t" "ev_host_id a = ev_host_id t"
    and c: "lco_status ?c = LineageComplete"
    using x e by (auto simp: extract_lineage_deviation_def Let_def split: if_splits option.splits)
  obtain es where es: "evidence_events (lco_events ?c) ctx = Inr es"
    using x e elig scope c by (auto simp: extract_lineage_deviation_def Let_def split: if_splits option.splits)
  obtain ts where v: "validate_evidence (r1_evidence (nm_deviation nm (ev_run_id t) (sort (map ev_event_id es)) (ap_policy_id policy) (ap_version policy) (ap_config_hash policy))
      t ts remote_session_process_lineage_deviation (map ev_event_id es) (policy_features policy)) = Inr e"
    using x e elig scope c es by (auto simp: extract_lineage_deviation_def Let_def split: if_splits option.splits)
  then have e_eq: "e = r1_evidence (nm_deviation nm (ev_run_id t) (sort (map ev_event_id es)) (ap_policy_id policy) (ap_version policy) (ap_config_hash policy))
      t ts remote_session_process_lineage_deviation (map ev_event_id es) (policy_features policy)" and ve: "validate_evidence e = Inr e"
    by (auto simp: validate_evidence_ok)
  note lin = complete_lineage [OF ids a elig scope c]
  have es_eq: "es = filter (\<lambda>e. ev_event_id e \<notin> set ctx) (lco_events ?c)" "es \<noteq> []" using es by (auto simp: evidence_events_def Let_def)
  have pv': "ctx \<noteq> [] \<Longrightarrow> hd ctx = ev_event_id a" "ev_event_id t \<notin> set ctx"
    using pv p by (auto simp: validate_lineage_provenance_def)
  have last: "last (map ev_event_id es) = ev_event_id t"
    using last_filter [OF lin(3), of "\<lambda>e. ev_event_id e \<notin> set ctx"] pv'(2) lin(2) es_eq by (simp add: last_map)
  have "matches_lineage_deviation_provenance e p"
  proof (cases "ctx = []")
    case True
    then have "hd (map ev_event_id es) = ev_event_id a" using lin es_eq by (simp add: hd_map)
    with True last p show ?thesis by (simp add: matches_lineage_deviation_provenance_def e_eq r1_evidence_def policy_features_def)
  next
    case False
    then have "ev_event_id a \<in> set ctx" using pv'(1) by (metis list.set_sel(1))
    moreover have "set (map ev_event_id es) \<inter> set ctx = {}" using es_eq(1) by auto
    ultimately show ?thesis using False last p by (simp add: matches_lineage_deviation_provenance_def e_eq r1_evidence_def policy_features_def)
  qed
  then have "validate_evidence_lineage_provenance ps e = Inr ()" by (intro deviation_provenance [OF _ p(1)]) (simp_all add: e_eq r1_evidence_def)
  with ve run show ?thesis by (simp add: published_evidence_def) (simp add: e_eq r1_evidence_def)
qed

lemma first_by_id_distinct: "distinct (map evd_id (first_by_id es))"
proof -
  let ?step = "\<lambda>d e. if map_of d (evd_id e) = None then d @ [(evd_id e, e)] else d"
  have "(\<forall>x \<in> set d. fst x = evd_id (snd x)) \<and> distinct (map fst d) \<Longrightarrow>
      (\<forall>x \<in> set (foldl ?step d es). fst x = evd_id (snd x)) \<and> distinct (map fst (foldl ?step d es))" for d
  proof (induction es arbitrary: d)
    case (Cons e es)
    have "(\<forall>x \<in> set (?step d e). fst x = evd_id (snd x)) \<and> distinct (map fst (?step d e))"
      using Cons.prems by (auto simp: map_of_eq_None_iff)
    from Cons.IH [OF this] show ?case unfolding foldl_Cons .
  qed simp
  from this [of "[]"] have k: "\<forall>x \<in> set (foldl ?step [] es). fst x = evd_id (snd x)" "distinct (map fst (foldl ?step [] es))" by simp_all
  then have "map evd_id (first_by_id es) = map fst (foldl ?step [] es)" unfolding first_by_id_def map_map by (intro map_cong) auto
  with k(2) show ?thesis by simp
qed

lemma terminals_subset: "set (terminals_of resolved) \<subseteq> (\<lambda>(i, a, t). t) ` set resolved"
proof -
  have "snd ` set (foldl (\<lambda>d (i, anchor, terminal). AList.update (ev_event_id terminal) terminal d) d resolved)
      \<subseteq> snd ` set d \<union> (\<lambda>(i, a, t). t) ` set resolved" for d :: "(string \<times> normalized_event) list"
  proof (induction resolved arbitrary: d)
    case (Cons x resolved)
    obtain i a t where x: "x = (i, a, t)" by (cases x) auto
    have sub: "snd ` set (AList.update k v d) \<subseteq> insert v (snd ` set d)" for k :: string and v :: normalized_event
      by (induction d) (auto split: if_splits)
    let ?d = "AList.update (ev_event_id t) t d"
    have "snd ` set (foldl (\<lambda>d (i, anchor, terminal). AList.update (ev_event_id terminal) terminal d) ?d resolved)
        \<subseteq> snd ` set ?d \<union> (\<lambda>(i, a, t). t) ` set resolved" by (rule Cons)
    also have "\<dots> \<subseteq> insert t (snd ` set d) \<union> (\<lambda>(i, a, t). t) ` set resolved" using sub by blast
    also have "\<dots> = snd ` set d \<union> (\<lambda>(i, a, t). t) ` set (x # resolved)" by (simp add: x)
    finally show ?case by (simp add: x)
  qed simp
  from this [of "[]"] show ?thesis by (simp add: terminals_of_def)
qed

lemma required_event_ok:
  assumes "index_events_by_id events [] = Inr d" "required_event d i = Inr e"
  shows "ev_event_id e = i" "e \<in> set events"
  using index_events_keys [OF assms(1), of "{}" i e] assms(2) by (auto simp: required_event_def split: option.splits)

lemma pipeline_published:
  assumes run: "run_r1_evidence_pipeline_with_diagnostics nm events inputs = Inr r"
    and scope: "\<forall>e \<in> set events. ev_run_id e = run_id"
    and prov: "\<forall>i \<in> set inputs. validate_lineage_provenance (provenance_of_input i) = Inr ()"
  shows "\<forall>e \<in> set (exr_evidences r). published_evidence run_id (lineage_input_provenance inputs) e"
    "distinct (map evd_id (exr_evidences r))" "sort_key r1_evidence_sort_key (exr_evidences r) = exr_evidences r"
proof -
  obtain d resolved fs xs where d: "index_events_by_id events [] = Inr d" and res: "resolve_lineage_inputs inputs d = Inr resolved"
    and fs: "extract_network_follow_on_candidates nm events (terminals_of resolved) = Inr fs"
    and xs: "map_result (\<lambda>(i, anchor, terminal). extract_lineage_deviation nm events anchor terminal (lin_approved_policy i) (lin_context_event_ids i)) resolved = Inr xs"
    and r: "r = \<lparr>exr_evidences = sort_key r1_evidence_sort_key (first_by_id (fs @ concat (map exr_evidences xs))),
       exr_diagnostics = sorted_list_of_set (set (concat (map exr_diagnostics xs)))\<rparr>"
    using run by (auto simp: run_r1_evidence_pipeline_with_diagnostics_def)
  let ?ps = "lineage_input_provenance inputs"
  note ids = index_events_distinct_ids [OF d]
  have resolved: "i \<in> set inputs \<and> ev_event_id a = lin_anchor_event_id i \<and> ev_event_id t = lin_terminal_event_id i \<and> a \<in> set events \<and> t \<in> set events"
    if "(i, a, t) \<in> set resolved" for i a t
  proof -
    have "list_all2 (\<lambda>i y. bnd (required_event d (lin_anchor_event_id i)) (\<lambda>anchor.
     bnd (required_event d (lin_terminal_event_id i)) (\<lambda>terminal. Inr (i, anchor, terminal))) = Inr y) inputs resolved"
      using res by (simp add: resolve_lineage_inputs_def map_result_ok)
    from list_all2_right [OF this that] obtain j where "j \<in> set inputs"
      and j: "bnd (required_event d (lin_anchor_event_id j)) (\<lambda>anchor.
     bnd (required_event d (lin_terminal_event_id j)) (\<lambda>terminal. Inr (j, anchor, terminal))) = Inr (i, a, t)" by blast
    then have "j = i" "required_event d (lin_anchor_event_id i) = Inr a" "required_event d (lin_terminal_event_id i) = Inr t" by auto
    with \<open>j \<in> set inputs\<close> required_event_ok [OF d] show ?thesis by blast
  qed
  have p: "provenance_of_input i \<in> set ?ps" if "i \<in> set inputs" for i using that by (simp add: lineage_input_provenance_def)
  have follow: "published_evidence run_id ?ps e" if "e \<in> set fs" for e
  proof -
    obtain ess where ess: "map_result (\<lambda>terminal. case process_guid terminal of None \<Rightarrow> Inr []
       | Some g \<Rightarrow> bnd (map_result (extract_follow_on nm terminal)
           (sort_key (\<lambda>e. (ev_at e, ev_event_id e)) (networks_by_key events (ev_run_id terminal, ev_host_id terminal, g)))) (\<lambda>ess. Inr (concat ess)))
       (sort_key (\<lambda>e. (ev_at e, ev_event_id e)) (terminals_of resolved)) = Inr ess" and "fs = concat ess"
      using fs by (auto simp: extract_network_follow_on_candidates_def)
    with that obtain es where "es \<in> set ess" "e \<in> set es" by auto
    from list_all2_right [OF ess [unfolded map_result_ok] this(1)] obtain t where t: "t \<in> set (terminals_of resolved)"
      and es: "(case process_guid t of None \<Rightarrow> Inr [] | Some g \<Rightarrow> bnd (map_result (extract_follow_on nm t)
           (sort_key (\<lambda>e. (ev_at e, ev_event_id e)) (networks_by_key events (ev_run_id t, ev_host_id t, g)))) (\<lambda>ess. Inr (concat ess))) = Inr es"
      by auto
    obtain i a where i: "(i, a, t) \<in> set resolved" using t terminals_subset [of resolved] by auto
    obtain n fs' where n: "extract_follow_on nm t n = Inr fs'" "e \<in> set fs'"
    proof (cases "process_guid t")
      case None
      with es \<open>e \<in> set es\<close> show ?thesis by simp
    next
      case (Some g)
      then obtain ys where ys: "map_result (extract_follow_on nm t)
           (sort_key (\<lambda>e. (ev_at e, ev_event_id e)) (networks_by_key events (ev_run_id t, ev_host_id t, g))) = Inr ys" "es = concat ys"
        using es by auto
      then obtain y where "y \<in> set ys" "e \<in> set y" using \<open>e \<in> set es\<close> by auto
      with list_all2_right [OF ys(1) [unfolded map_result_ok]] that show ?thesis by blast
    qed
    have "lpv_terminal_event_id (provenance_of_input i) = ev_event_id t" using resolved [OF i] by (simp add: provenance_of_input_def Let_def)
    with resolved [OF i] p scope show ?thesis by (intro follow_on_published [OF n]) auto
  qed
  have deviation: "published_evidence run_id ?ps e" if "x \<in> set xs" "e \<in> set (exr_evidences x)" for x e
  proof -
    from list_all2_right [OF xs [unfolded map_result_ok] that(1)] obtain i a t where i: "(i, a, t) \<in> set resolved"
      and x: "extract_lineage_deviation nm events a t (lin_approved_policy i) (lin_context_event_ids i) = Inr x" by auto
    note f = resolved [OF i]
    show ?thesis
      by (rule deviation_published [OF ids _ _ x that(2), where p = "provenance_of_input i"])
        (use f scope prov p in \<open>auto simp: provenance_of_input_def Let_def\<close>)
  qed
  have "\<forall>e \<in> set (fs @ concat (map exr_evidences xs)). published_evidence run_id ?ps e" using follow deviation by auto
  then show "\<forall>e \<in> set (exr_evidences r). published_evidence run_id ?ps e"
    using first_by_id_facts [of "fs @ concat (map exr_evidences xs)"] unfolding r by simp blast
  show "sort_key r1_evidence_sort_key (exr_evidences r) = exr_evidences r" by (simp add: r sort_key_id_if_sorted)
  have "mset (map evd_id (exr_evidences r)) = mset (map evd_id (first_by_id (fs @ concat (map exr_evidences xs))))" by (simp add: r)
  then show "distinct (map evd_id (exr_evidences r))" using first_by_id_distinct mset_eq_imp_distinct_iff by blast
qed

section \<open>What is published loads\<close>

lemma loaded_evidences_ok:
  "\<forall>e \<in> set es. published_evidence (xs_run_id s) ps e \<Longrightarrow> xs_extractor_version s = r1_extractor_version \<Longrightarrow> distinct (map evd_id es)
    \<Longrightarrow> evd_id ` set es \<inter> seen = {}
    \<Longrightarrow> check_loaded_evidences s {remote_process_network_follow_on, remote_session_process_lineage_deviation} ps seen es = Inr ()"
  by (induction es arbitrary: seen) (auto simp: published_evidence_def)

lemma lineage_inputs_contract:
  assumes "validate_summary_contract s = Inr ()" "xs_lineage_inputs s = Some (lineage_input_provenance inputs)"
  shows "\<forall>i \<in> set inputs. validate_lineage_provenance (provenance_of_input i) = Inr ()"
  using assms by (auto simp: validate_summary_contract_def lineage_input_provenance_def)

definition input_texts_ok :: "lineage_input \<Rightarrow> bool" where
  "input_texts_ok i \<longleftrightarrow> new_lineage_input i = Inr i \<and> new_approved_policy (lin_approved_policy i) = Inr (lin_approved_policy i)"

lemma input_provenance_texts:
  assumes "input_texts_ok i"
  shows "provenance_texts_ok (provenance_of_input i)"
proof -
  have "new_lineage_input i = Inr i" "new_approved_policy (lin_approved_policy i) = Inr (lin_approved_policy i)" using assms by (simp_all add: input_texts_ok_def)
  then show ?thesis
    unfolding new_lineage_input_def new_approved_policy_def by (simp add: provenance_texts_ok_def provenance_of_input_def Let_def list_all_iff)
qed

lemma artifact_run_id_not_blank: "validate_artifact_run_id s = Inr () \<Longrightarrow> \<not> blank s"
  by (auto simp: validate_artifact_run_id_def validate_required_identifier_def blank_def unpadded_def)

lemma extractor_version_not_blank: "\<not> blank r1_extractor_version"
  by code_simp

lemma artifact_files_distinct: "distinct (map fst (artifact_files io es s coll))"
  by (auto simp: artifact_files_def evidence_filename_def summary_filename_def collection_filename_def split: option.splits)

lemma published_artifacts:
  assumes run: "run_and_write_r1_evidence_artifacts io nm events run_id inputs selector coll dir = (Inr a, dir')"
    and texts: "list_all input_texts_ok inputs" "\<And>p. selector = Some p \<Longrightarrow> new_selector_provenance p = Inr p"
    and codec: "io_loads io (serialize_summary io (ar_summary a)) = Some (summary_payload (ar_summary a))" "list_all (evidence_codec_ok io) (ar_evidences a)"
  shows "load_r1_evidence_artifacts io dir' = Inr a"
    "dir' = dir ++ map_of (artifact_files io (ar_evidences a) (ar_summary a) coll)"
    "\<exists>r. run_r1_evidence_pipeline_with_diagnostics nm events inputs = Inr r \<and> ar_evidences a = exr_evidences r
       \<and> ar_summary a = completed_summary io run_id events inputs selector r"
    "\<forall>e \<in> set (ar_evidences a). published_evidence run_id (lineage_input_provenance inputs) e" "distinct (map evd_id (ar_evidences a))"
proof -
  obtain r where start: "validate_artifact_run_id run_id = Inr ()" and scope: "validate_event_run_scope events run_id = Inr ()"
    and r: "run_r1_evidence_pipeline_with_diagnostics nm events inputs = Inr r"
    and contract: "validate_summary_contract (completed_summary io run_id events inputs selector r) = Inr ()"
    and pub: "publish_files io (artifact_files io (exr_evidences r) (completed_summary io run_id events inputs selector r) coll) dir = (Inr (), dir')"
    and a: "a = \<lparr>ar_evidences = exr_evidences r, ar_summary = completed_summary io run_id events inputs selector r,
      ar_summary_sha = io_sha io (serialize_summary io (completed_summary io run_id events inputs selector r))\<rparr>"
    using run by (auto simp: run_and_write_r1_evidence_artifacts_def Let_def split: sum.splits prod.splits)
  let ?s = "completed_summary io run_id events inputs selector r" and ?es = "exr_evidences r"
  have inputs: "xs_lineage_inputs ?s = Some (lineage_input_provenance inputs)" by (simp add: completed_summary_def)
  note pp = pipeline_published [OF r _ lineage_inputs_contract [OF contract inputs], of run_id]
  have ev: "\<forall>e \<in> set events. ev_run_id e = run_id" using scope by (auto simp: validate_event_run_scope_def)
  note pe = pp(1) [OF ev] and ds = pp(2) [OF ev] and sorted = pp(3) [OF ev]
  show "dir' = dir ++ map_of (artifact_files io (ar_evidences a) (ar_summary a) coll)"
    using publish_files_atomic [OF pub artifact_files_distinct] by (simp add: a)
  then have files: "dir' summary_filename = Some (serialize_summary io ?s)" "dir' evidence_filename = Some (serialize_evidences io ?es)"
    by (auto simp: a map_add_def artifact_files_def evidence_filename_def summary_filename_def collection_filename_def split: option.splits)
  have "summary_texts_ok ?s"
    using start texts artifact_run_id_not_blank extractor_version_not_blank
    by (auto simp: summary_texts_ok_def completed_summary_def list_all_iff lineage_input_provenance_def input_provenance_texts split: option.splits)
  note reads = summary_back [OF this]
  have summary: "read_summary_artifact io dir' = Inr (?s, io_sha io (serialize_summary io ?s))"
    using reads contract codec(1) by (auto simp: read_summary_artifact_def files a)
  have codec': "\<forall>e \<in> set ?es. evidence_codec_ok io e \<and> validate_evidence e = Inr e"
    using codec(2) pe by (auto simp: a list_all_iff published_evidence_def)
  have loaded: "check_loaded_evidences ?s {remote_process_network_follow_on, remote_session_process_lineage_deviation}
      (lineage_input_provenance inputs) {} ?es = Inr ()"
    using pe ds by (intro loaded_evidences_ok) (auto simp: completed_summary_def)
  have "validate_completed_artifacts ?es ?s = Inr ()"
    using loaded sorted by (simp add: validate_completed_artifacts_def inputs r1_candidate_evidence_types_def)
      (simp add: completed_summary_def)
  then show "load_r1_evidence_artifacts io dir' = Inr a"
    using summary evidences_back [OF codec'] by (simp add: load_r1_evidence_artifacts_def files a) (simp add: completed_summary_def)
  show "\<exists>r. run_r1_evidence_pipeline_with_diagnostics nm events inputs = Inr r \<and> ar_evidences a = exr_evidences r
       \<and> ar_summary a = completed_summary io run_id events inputs selector r" using r by (simp add: a)
  show "\<forall>e \<in> set (ar_evidences a). published_evidence run_id (lineage_input_provenance inputs) e" "distinct (map evd_id (ar_evidences a))"
    using pe ds by (simp_all add: a)
qed

text \<open>What a load that returns says about the summary.\<close>

lemma loaded_completed:
  assumes "load_r1_evidence_artifacts io dir = Inr a"
  shows "xs_status (ar_summary a) = ExtractionCompleted \<and> xs_evidence_count (ar_summary a) = Some (int (length (ar_evidences a)))"
proof -
  obtain x where "(case x of (s, sha) \<Rightarrow> seq (raise_if (xs_status s \<noteq> ExtractionCompleted) (ValueError ''failed R1 extraction artifact cannot be loaded as Evidence''))
     (case dir evidence_filename of
        None \<Rightarrow> Inl (ValueError ''R1 Evidence JSONL is not readable'')
      | Some content \<Rightarrow>
          seq (raise_if (Some (io_sha io content) \<noteq> xs_evidence_sha s) (ValueError ''R1 Evidence JSONL SHA-256 does not match the extraction summary''))
          (bnd (read_evidences io content) (\<lambda>es.
           seq (validate_completed_artifacts es s) (Inr \<lparr>ar_evidences = es, ar_summary = s, ar_summary_sha = sha\<rparr>))))) = Inr a"
    using assms unfolding load_r1_evidence_artifacts_def bnd_ok by blast
  moreover obtain s sha where "x = (s, sha)" by fastforce
  ultimately have k: "xs_status s = ExtractionCompleted" "(case dir evidence_filename of
        None \<Rightarrow> Inl (ValueError ''R1 Evidence JSONL is not readable'')
      | Some content \<Rightarrow>
          seq (raise_if (Some (io_sha io content) \<noteq> xs_evidence_sha s) (ValueError ''R1 Evidence JSONL SHA-256 does not match the extraction summary''))
          (bnd (read_evidences io content) (\<lambda>es.
           seq (validate_completed_artifacts es s) (Inr \<lparr>ar_evidences = es, ar_summary = s, ar_summary_sha = sha\<rparr>)))) = Inr a"
    by auto
  obtain content where content: "dir evidence_filename = Some content" using k(2) by (cases "dir evidence_filename") auto
  obtain es where es: "validate_completed_artifacts es s = Inr ()" "\<lparr>ar_evidences = es, ar_summary = s, ar_summary_sha = sha\<rparr> = a"
    using k(2) unfolding content option.case seq_ok bnd_ok by blast
  have "xs_evidence_count s = Some (int (length es))"
    using es(1) unfolding validate_completed_artifacts_def seq_ok raise_first.simps if_Inl_ok by blast
  with k(1) show ?thesis by (simp flip: es(2))
qed

section \<open>A call that fails\<close>

text \<open>It changes nothing, or it adds the summary of its failure; nothing that was there is touched.\<close>

lemma artifact_writes:
  assumes run: "run_and_write_r1_evidence_artifacts io nm events run_id inputs selector coll dir = (res, dir')"
  shows "case res of
     Inl e \<Rightarrow> dir' = dir \<or> dir summary_filename = None
       \<and> dir' = dir(summary_filename \<mapsto> serialize_summary io (failed_summary run_id events inputs selector e))
   | Inr a \<Rightarrow> dir' = dir ++ map_of (artifact_files io (ar_evidences a) (ar_summary a) coll)
       \<and> (\<forall>t \<in> fst ` set (artifact_files io (ar_evidences a) (ar_summary a) coll). dir t = None)"
proof (cases "seq (validate_artifact_run_id run_id) (prepare_output_paths (coll \<noteq> None) dir)")
  case (Inl e)
  with run show ?thesis by (auto simp: run_and_write_r1_evidence_artifacts_def)
next
  case (Inr u)
  note start = this
  show ?thesis
  proof (cases "seq (validate_event_run_scope events run_id) (run_r1_evidence_pipeline_with_diagnostics nm events inputs)")
    case (Inl e)
    let ?files = "[(summary_filename, serialize_summary io (failed_summary run_id events inputs selector e))]"
    obtain p d where p: "publish_files io ?files dir = (p, d)" by fastforce
    have "res = Inl e" "dir' = d" using run start Inl p by (auto simp: run_and_write_r1_evidence_artifacts_def)
    then show ?thesis using publish_files_atomic [OF p] by (auto split: sum.splits)
  next
    case (Inr r)
    let ?s = "completed_summary io run_id events inputs selector r"
    show ?thesis
    proof (cases "validate_summary_contract ?s")
      case (Inl e)
      with run start Inr show ?thesis by (auto simp: run_and_write_r1_evidence_artifacts_def Let_def)
    next
      case (Inr v)
      let ?files = "artifact_files io (exr_evidences r) ?s coll"
      obtain p d where p: "publish_files io ?files dir = (p, d)" by fastforce
      have "dir' = d \<and> (case p of Inl e \<Rightarrow> res = Inl e | Inr u \<Rightarrow> res = Inr \<lparr>ar_evidences = exr_evidences r, ar_summary = ?s,
          ar_summary_sha = io_sha io (serialize_summary io ?s)\<rparr>)"
        using run start \<open>seq (validate_event_run_scope events run_id) _ = Inr r\<close> Inr p
        by (cases p) (auto simp: run_and_write_r1_evidence_artifacts_def Let_def)
      then show ?thesis using publish_files_atomic [OF p artifact_files_distinct] by (cases p) auto
    qed
  qed
qed

section \<open>Automated runs\<close>

lemma new_lineage_input_same: "new_lineage_input i = Inr j \<Longrightarrow> j = i"
  by (auto simp: new_lineage_input_def)

text \<open>The artifacts of an automated run hold the Evidence of its pipeline result.\<close>

lemma automated_artifacts:
  assumes run: "run_and_write_artifacts_from_policy io nm hash registry events run_id selector policy_id version family run_start coll dir = (Inr a, dir')"
  defines "r \<equiv> aar_pipeline_result a" and "x \<equiv> aar_artifact_run a"
  shows "\<exists>policy. load_r1_approved_lineage_policy hash registry policy_id version = Inr policy
      \<and> validate_automated_policy_family family policy = Inr ()
      \<and> run_r1_evidence_pipeline_with_selector nm events selector policy run_start = Inr r"
    "run_and_write_r1_evidence_artifacts io nm events run_id (option_list (ser_lineage_input r))
       (Some (selector_provenance_of selector (ser_selector_result r))) coll dir = (Inr x, dir')"
    "new_selector_provenance (selector_provenance_of selector (ser_selector_result r)) = Inr (selector_provenance_of selector (ser_selector_result r))"
proof -
  have same: "new_selector_provenance p = Inr q \<Longrightarrow> q = p" for p q by (auto simp: new_selector_provenance_def)
  obtain r' x' where a: "a = \<lparr>aar_pipeline_result = r', aar_artifact_run = x'\<rparr>"
    and r: "run_r1_evidence_pipeline_from_policy nm hash registry events selector policy_id version family run_start = Inr r'"
    and sel: "new_selector_provenance (selector_provenance_of selector (ser_selector_result r')) = Inr (selector_provenance_of selector (ser_selector_result r'))"
    and x: "run_and_write_r1_evidence_artifacts io nm events run_id (option_list (ser_lineage_input r'))
       (Some (selector_provenance_of selector (ser_selector_result r'))) coll dir = (Inr x', dir')"
    using run same by (auto simp: run_and_write_artifacts_from_policy_def split: sum.splits prod.splits)
  then show "\<exists>policy. load_r1_approved_lineage_policy hash registry policy_id version = Inr policy
      \<and> validate_automated_policy_family family policy = Inr ()
      \<and> run_r1_evidence_pipeline_with_selector nm events selector policy run_start = Inr r"
    by (auto simp: r_def run_r1_evidence_pipeline_from_policy_def)
  show "run_and_write_r1_evidence_artifacts io nm events run_id (option_list (ser_lineage_input r))
       (Some (selector_provenance_of selector (ser_selector_result r))) coll dir = (Inr x, dir')" using x by (simp add: r_def x_def a)
  show "new_selector_provenance (selector_provenance_of selector (ser_selector_result r)) = Inr (selector_provenance_of selector (ser_selector_result r))"
    using sel by (simp add: r_def a)
qed

end
