(* ===== verification/ReplayProperties.thy ===== *)
theory ReplayProperties
  imports WholeEpisode EvidenceArtifactFacts FusionProperties LineageProperties DecisionProperties
begin

text \<open>
  The properties of the R1 artifacts and of the causal replay on them, each with a witness: the batch
  of three Events under a run id, published, read back, scheduled at the end of the run and replayed.
\<close>

section \<open>A sample run\<close>

definition replay_events :: "normalized_event list" where
  "replay_events = map (\<lambda>e. e\<lparr>ev_run_id := sample_run_id\<rparr>) lineage_batch"

definition replay_policy :: approved_policy where
  "replay_policy = lineage_policy_sample\<lparr>ap_family_id := Some ''fam'', ap_lifecycle := Some Development\<rparr>"

definition replay_lineage_input :: lineage_input where
  "replay_lineage_input = \<lparr>lin_anchor_event_id = ''A'', lin_terminal_event_id = ''B'', lin_approved_policy = replay_policy,
     lin_context_event_ids = [''A'']\<rparr>"

definition replay_selector :: selector_provenance where
  "replay_selector = \<lparr>spv_policy_id = ''p'', spv_version = ''1'', spv_config_hash = ''c'', spv_status = SelectorSelected, spv_diagnostics = []\<rparr>"

definition zero_sha :: string where
  "zero_sha = replicate 64 (CHR ''0'')"

definition replay_extraction :: extraction_result where
  "replay_extraction = (case run_r1_evidence_pipeline_with_diagnostics sample_namer replay_events [replay_lineage_input] of
     Inr r \<Rightarrow> r | Inl e \<Rightarrow> \<lparr>exr_evidences = [], exr_diagnostics = []\<rparr>)"

definition replay_artifact_io :: artifact_io where
  "replay_artifact_io = \<lparr>io_dumps = (\<lambda>j. ''s''), io_loads = (\<lambda>s. None), io_dump_evidence = evd_id,
     io_parse_evidence = (\<lambda>s. find (\<lambda>e. evd_id e = s) (exr_evidences replay_extraction)), io_dump_collection = (\<lambda>p. ''c''),
     io_parse_collection = (\<lambda>s. None), io_sha = (\<lambda>s. zero_sha), io_link = (\<lambda>t. True)\<rparr>"

definition replay_summary :: extraction_summary where
  "replay_summary = completed_summary replay_artifact_io sample_run_id replay_events [replay_lineage_input] (Some replay_selector) replay_extraction"

definition replay_store_io :: artifact_io where
  "replay_store_io = replay_artifact_io\<lparr>io_loads := (\<lambda>s. Some (summary_payload replay_summary))\<rparr>"

definition replay_artifacts :: evidence_artifact_run where
  "replay_artifacts = \<lparr>ar_evidences = exr_evidences replay_extraction, ar_summary = replay_summary, ar_summary_sha = zero_sha\<rparr>"

definition replay_directory :: directory where
  "replay_directory = Map.empty ++ map_of (artifact_files replay_store_io (exr_evidences replay_extraction) replay_summary None)"

definition replay_run :: run_metadata where
  "replay_run = \<lparr>rm_run_id = sample_run_id, rm_scenario_id = ''R1'', rm_run_type = AttackRun, rm_target_host = ''h1'', rm_start_time = utc 2000,
     rm_end_time = Some (utc 2002000), rm_family_id = Some ''fam'', rm_reference_time = None, rm_schema_versions = []\<rparr>"

definition replay_envelope :: causal_envelope where
  "replay_envelope = (case build_envelope_from_artifacts replay_artifacts replay_run sample_selector replay_policy of
     Inr c \<Rightarrow> c | Inl e \<Rightarrow> \<lparr>ce_contract_version = [], ce_run_id = [], ce_entity_id = [], ce_run_start = utc 0, ce_run_end = utc 0,
       ce_watermark_at = utc 0, ce_watermark_basis = [], ce_selector = \<lparr>cpi_policy_id = [], cpi_version = [], cpi_config_hash = []\<rparr>,
       ce_approved = \<lparr>cpi_policy_id = [], cpi_version = [], cpi_config_hash = []\<rparr>, ce_extractor_version = [], ce_evidence_count = 0,
       ce_evidence_sha = [], ce_summary_sha = [], ce_evidences = []\<rparr>)"

text \<open>Both Evidence types are scored, and one point above the threshold is enough.\<close>

definition replay_types :: "string list" where
  "replay_types = [remote_session_process_lineage_deviation, remote_process_network_follow_on]"

definition sample_replay_config :: fusion_config where
  "sample_replay_config = sample_config\<lparr>fc_scoring := (fc_scoring sample_config)\<lparr>sc_evidence_types := replay_types\<rparr>,
     fc_stopping := (fc_stopping sample_config)\<lparr>stc_persistence_k := Inr 1\<rparr>\<rparr>"

definition replay_valid_config :: valid_config where
  "replay_valid_config = sample_valid_config\<lparr>vc_evidence_types := replay_types, vc_persistence_k := 1\<rparr>"

definition replay_io :: provenance_io where
  "replay_io = artifact_io.extend replay_store_io \<lparr>cio_dump_fusion = (\<lambda>r. ''f''), cio_parse_fusion = (\<lambda>s. None), cio_dump_trace = (\<lambda>t. ''t''),
     cio_parse_trace = (\<lambda>s. None), cio_dump_envelope = (\<lambda>c. ''e''), pio_dump_provenance = (\<lambda>p. ''p''), pio_parse_provenance = (\<lambda>s. None)\<rparr>"

lemma replay_published: "run_and_write_r1_evidence_artifacts replay_store_io sample_namer replay_events sample_run_id [replay_lineage_input]
    (Some replay_selector) None Map.empty = (Inr replay_artifacts, replay_directory)"
proof -
  have start: "seq (validate_artifact_run_id sample_run_id) (prepare_output_paths False Map.empty) = Inr ()"
    "validate_event_run_scope replay_events sample_run_id = Inr ()" by code_simp+
  have r: "run_r1_evidence_pipeline_with_diagnostics sample_namer replay_events [replay_lineage_input] = Inr replay_extraction" by code_simp
  have s: "completed_summary replay_store_io sample_run_id replay_events [replay_lineage_input] (Some replay_selector) replay_extraction = replay_summary"
    by (simp add: replay_summary_def completed_summary_def replay_store_io_def serialize_evidences_def)
  have contract: "validate_summary_contract replay_summary = Inr ()" by code_simp
  have link: "io_link replay_store_io t" "io_sha replay_store_io x = zero_sha" for t x
    unfolding replay_store_io_def replay_artifact_io_def by simp_all
  have pub: "publish_files replay_store_io (artifact_files replay_store_io (exr_evidences replay_extraction) replay_summary None) Map.empty
      = (Inr (), replay_directory)"
    by (simp add: publish_files_def artifact_files_def link evidence_filename_def summary_filename_def replay_directory_def fun_upd_twist)
  show ?thesis using start r s contract pub by (simp add: run_and_write_r1_evidence_artifacts_def replay_artifacts_def link Let_def)
qed

lemma replay_loaded: "load_r1_evidence_artifacts replay_store_io replay_directory = Inr replay_artifacts"
  by code_simp

lemma replay_envelope_built: "build_r1_causal_availability_envelope replay_store_io replay_directory replay_run sample_selector replay_policy = Inr replay_envelope"
  by code_simp

lemma replay_from_artifacts: "build_envelope_from_artifacts replay_artifacts replay_run sample_selector replay_policy = Inr replay_envelope"
  by code_simp

lemma replay_types_ok: "distinct replay_types" "\<forall>ty \<in> set replay_types. \<not> blank ty \<and> unpadded ty" "replay_types \<noteq> []"
  by code_simp+

lemma sample_replay_config_valid: "validate_fusion_config False (set replay_types) sample_replay_config = Inr replay_valid_config"
  using not_blank_samples whole_seconds one_second_aligned replay_types_ok
  by (simp add: validate_fusion_config_def validity sample_replay_config_def replay_valid_config_def sample_config_def sample_valid_config_def in_unit_def)

lemma replay_envelope_fields: "ce_run_start replay_envelope = utc 2000" "ce_run_end replay_envelope = utc 2002000"
  "ms_aligned (utc 2000)" "ms_aligned (utc 2002000)"
  by code_simp+

lemma zero_sha_ok: "sha256_ok (io_sha replay_io s)"
proof -
  have "io_sha replay_io s = zero_sha" by (simp add: replay_io_def artifact_io.defs replay_store_io_def replay_artifact_io_def)
  moreover have "sha256_ok zero_sha" by code_simp
  ultimately show ?thesis by simp
qed

lemma not_blank_commit: "\<not> blank ''abc''" "unpadded ''abc''"
  by code_simp+

lemma replay_runs: "\<exists>r. run_r1_causal_replay False replay_io replay_artifacts replay_envelope replay_run replay_policy replay_valid_config ''abc'' = Inr r"
  using replay_envelope_fields zero_sha_ok not_blank_commit
  by (intro causal_replay_total [OF replay_from_artifacts _ _ sample_replay_config_valid])
    (simp_all add: replay_artifacts_def replay_summary_def completed_summary_def replay_valid_config_def sample_valid_config_def)

section \<open>The artifacts\<close>

text \<open>C35: what a completed extraction returns is what the reader loads from the directory it wrote, with
  every check of the reader: the digests, the counts, the order, the run, the supported types and the
  lineage every Evidence names. The JSON of the summary and of each Evidence must read back, and an
  Evidence must fit on one line.\<close>

theorem published_artifacts_load:
  assumes "run_and_write_r1_evidence_artifacts io nm events run_id inputs selector coll dir = (Inr a, dir')"
    "list_all input_texts_ok inputs" "list_all (\<lambda>p. new_selector_provenance p = Inr p) (option_list selector)"
    "io_loads io (serialize_summary io (ar_summary a)) = Some (summary_payload (ar_summary a))"
    "list_all (evidence_codec_ok io) (ar_evidences a)"
  shows "load_r1_evidence_artifacts io dir' = Inr a
    \<and> (\<exists>r. run_r1_evidence_pipeline_with_diagnostics nm events inputs = Inr r \<and> ar_evidences a = exr_evidences r)
    \<and> list_all (published_evidence run_id (lineage_input_provenance inputs)) (ar_evidences a) \<and> distinct (map evd_id (ar_evidences a))"
proof -
  have sel: "\<And>p. selector = Some p \<Longrightarrow> new_selector_provenance p = Inr p" using assms(3) by (simp add: option_list_def)
  show ?thesis
    using published_artifacts [OF assms(1,2) sel assms(4,5)] by (auto simp: list_all_iff)
qed

theorem published_artifacts_load_witness:
  "load_r1_evidence_artifacts replay_store_io replay_directory = Inr replay_artifacts \<and> map evd_id (ar_evidences replay_artifacts) = [''d'', ''f'']"
proof -
  have "list_all input_texts_ok [replay_lineage_input]" "list_all (\<lambda>p. new_selector_provenance p = Inr p) (option_list (Some replay_selector))"
    "list_all (evidence_codec_ok replay_store_io) (ar_evidences replay_artifacts)" "map evd_id (ar_evidences replay_artifacts) = [''d'', ''f'']"
    by code_simp+
  moreover have "io_loads replay_store_io (serialize_summary replay_store_io (ar_summary replay_artifacts)) = Some (summary_payload (ar_summary replay_artifacts))"
    by (simp add: replay_artifacts_def replay_store_io_def)
  ultimately show ?thesis using published_artifacts_load [OF replay_published] by blast
qed

text \<open>C36: an extraction never touches a file that is there. When it returns, exactly its files are new;
  when it raises, the directory is as it was or holds, as the only new file, the summary of the failure.\<close>

theorem artifact_publication_atomic:
  "case run_and_write_r1_evidence_artifacts io nm events run_id inputs selector coll dir of
     (Inl e, dir') \<Rightarrow> dir' = dir \<or> dir summary_filename = None
       \<and> dir' = dir(summary_filename \<mapsto> serialize_summary io (failed_summary run_id events inputs selector e))
   | (Inr a, dir') \<Rightarrow> dir' = dir ++ map_of (artifact_files io (ar_evidences a) (ar_summary a) coll)
       \<and> list_all (\<lambda>f. dir (fst f) = None) (artifact_files io (ar_evidences a) (ar_summary a) coll)"
proof -
  obtain res dir' where run: "run_and_write_r1_evidence_artifacts io nm events run_id inputs selector coll dir = (res, dir')" by fastforce
  from artifact_writes [OF run] show ?thesis unfolding run by (cases res) (auto simp: list_all_iff)
qed

section \<open>The causal replay\<close>

text \<open>C37: when the artifacts load and the envelope builder accepts them, the replay of the run returns, for
  every configuration the loader accepts: the strict join passes, no step of the replay raises, and the
  provenance is valid.\<close>

theorem loaded_artifacts_replay:
  assumes "load_r1_evidence_artifacts aio dir = Inr a" "build_r1_causal_availability_envelope aio dir m selector approved = Inr c"
    "validate_fusion_config False managed fc = Inr config" "vc_step_size config \<le> 1000000000"
    "ms_aligned (ce_run_start c)" "ms_aligned (ce_run_end c)"
    "\<And>s. sha256_ok (io_sha io s)" "\<not> blank commit" "unpadded commit"
  shows "\<exists>r. run_r1_causal_replay nan_ok io a c m approved config commit = Inr r"
proof -
  have built: "build_envelope_from_artifacts a m selector approved = Inr c"
    using assms(1,2) by (simp add: build_r1_causal_availability_envelope_def)
  show ?thesis by (rule causal_replay_total [OF built _ _ assms(3-9)]) (simp_all add: loaded_completed [OF assms(1)])
qed

theorem loaded_artifacts_replay_witness:
  "\<exists>r. run_r1_causal_replay False replay_io replay_artifacts replay_envelope replay_run replay_policy replay_valid_config ''abc'' = Inr r"
  using replay_envelope_fields zero_sha_ok not_blank_commit
  by (intro loaded_artifacts_replay [OF replay_loaded replay_envelope_built sample_replay_config_valid])
    (simp_all add: replay_valid_config_def sample_valid_config_def)

text \<open>C38: a whole-episode replay decides at the end of the run or never. Every Evidence becomes available at
  the authoritative run end, so the replay detects exactly when one point is enough (\<open>persistence_k\<close> is 1)
  and the Evidence in the window before the run end reaches the threshold; with a larger \<open>persistence_k\<close>
  every run is a miss.\<close>

theorem whole_episode_decides_at_end:
  assumes "validate_fusion_config n managed fc = Inr config" "timedelta_seconds (vc_window_size config) = Some window"
    "run_r1_causal_replay nan_ok io a c m approved config commit = Inr r"
  shows "let active = filter (in_window window (instant (ce_run_end c))) (ar_evidences a);
      scorer = \<lparr>ss_profile_types = set (vc_evidence_types config)\<rparr>;
      hit = vc_persistence_k config = 1 \<and> fle (vc_threshold_on config) (score scorer active)
    in fr_status (cpl_fusion r) = (if hit then Detected else Miss) \<and> fr_time (cpl_fusion r) = (if hit then Some (ce_run_end c) else None)
      \<and> fr_evidence_ids (cpl_fusion r) = (if hit then contributing_evidence_ids scorer active else [])"
proof -
  have ok: "config_ok n managed config" by (rule fusion_config_ok [OF assms(1)])
  obtain runner where runner: "build_runner config = Inr runner"
    "timedelta_seconds (vc_window_size config) = Some (we_window_size (rn_window_engine runner))"
    by (rule causal_replay_parts [OF ok assms(3)])
  have "vc_threshold_on config \<noteq> NaN" "vc_threshold_off config \<noteq> NaN" using build_runner_nan [OF ok] runner(1) by auto
  then have "rn_scorer runner = \<lparr>ss_profile_types = set (vc_evidence_types config)\<rparr>" using build_runner_ok [OF ok] runner(1) by auto
  then show ?thesis using whole_episode_result [OF ok assms(3) runner(1)] runner(2) assms(2) by (simp add: Let_def)
qed

theorem whole_episode_decides_at_end_witness:
  "\<exists>r. run_r1_causal_replay False replay_io replay_artifacts replay_envelope replay_run replay_policy replay_valid_config ''abc'' = Inr r
    \<and> fr_status (cpl_fusion r) = Detected \<and> fr_time (cpl_fusion r) = Some (utc 2002000) \<and> fr_evidence_ids (cpl_fusion r) = [''d'', ''f'']"
proof -
  obtain r where r: "run_r1_causal_replay False replay_io replay_artifacts replay_envelope replay_run replay_policy replay_valid_config ''abc'' = Inr r"
    using replay_runs by blast
  have window: "timedelta_seconds (vc_window_size replay_valid_config) = Some 3000000"
    using whole_seconds by (simp add: replay_valid_config_def sample_valid_config_def)
  let ?scorer = "\<lparr>ss_profile_types = set (vc_evidence_types replay_valid_config)\<rparr>"
  have active: "filter (in_window 3000000 (instant (utc 2002000))) (ar_evidences replay_artifacts) = ar_evidences replay_artifacts"
    "contributing_evidence_ids ?scorer (ar_evidences replay_artifacts) = [''d'', ''f'']"
    "ss_profile_types ?scorer \<subseteq> evd_type ` {e \<in> set (ar_evidences replay_artifacts). evd_channel e = FusionFeature}"
    by code_simp+
  have "score ?scorer (ar_evidences replay_artifacts) = Finite 1"
    using active(3) replay_types_ok by (intro score_full) (simp_all add: scorer_wf_def replay_valid_config_def)
  then show ?thesis
    using whole_episode_decides_at_end [OF sample_replay_config_valid window r] r active replay_envelope_fields
    by (simp add: replay_valid_config_def sample_valid_config_def Let_def)
qed

text \<open>C39: the evaluation accepts what the replay produced: with the digests of the provenance and of the
  envelope as pins, none of its checks on the bindings, the trace and the episodes raises.\<close>

theorem evaluation_accepts_replay:
  assumes "validate_fusion_config n managed fc = Inr config" "run_r1_causal_replay nan_ok io a c m approved config commit = Inr r"
  shows "validate_causal_replay io (evaluation_of c r) (pins_of io c r) m (cpl_fusion r) (ce_run_start c) (ce_run_end c) = Inr ()"
  using evaluation_accepts [OF fusion_config_ok [OF assms(1)] assms(2)] .

theorem evaluation_accepts_replay_witness:
  "\<exists>r. run_r1_causal_replay False replay_io replay_artifacts replay_envelope replay_run replay_policy replay_valid_config ''abc'' = Inr r
    \<and> validate_causal_replay replay_io (evaluation_of replay_envelope r) (pins_of replay_io replay_envelope r) replay_run (cpl_fusion r)
        (utc 2000) (utc 2002000) = Inr ()"
proof -
  obtain r where r: "run_r1_causal_replay False replay_io replay_artifacts replay_envelope replay_run replay_policy replay_valid_config ''abc'' = Inr r"
    using replay_runs by blast
  with evaluation_accepts_replay [OF sample_replay_config_valid r] show ?thesis by (auto simp: replay_envelope_fields)
qed

text \<open>C40: the artifacts a replay published are read back as its Fusion result, its trace and its provenance;
  none of the three files was there before.\<close>

theorem replay_artifacts_load:
  assumes "validate_fusion_config n managed fc = Inr config"
    "run_and_write_r1_causal_replay nan_ok io a c m approved config commit dir = (Inr (r, files), dir')"
    "cio_parse_fusion io (serialize_causal_fusion_result io (cpl_fusion r)) = Some (cpl_fusion r)"
    "cio_parse_trace io (serialize_causal_stopping_trace io (cpl_trace r)) = Some (cpl_trace r)"
    "pio_parse_provenance io (serialize_replay_provenance io (cpl_provenance r)) = Some (cpl_provenance r)"
  shows "load_r1_causal_replay_artifacts io dir' = Inr \<lparr>rar_fusion = cpl_fusion r, rar_trace = cpl_trace r, rar_provenance = cpl_provenance r\<rparr>
    \<and> list_all (\<lambda>t. dir t = None) [causal_fusion_filename, causal_trace_filename, provenance_filename]"
  using loaded_replay [OF fusion_config_ok [OF assms(1)] assms(2-5)] written_replay [OF assms(2)] by simp

text \<open>The files of the sample replay, read by parsers that know its models.\<close>

definition reading_io :: "causal_pipeline_result \<Rightarrow> provenance_io" where
  "reading_io r = replay_io\<lparr>cio_parse_fusion := (\<lambda>s. Some (cpl_fusion r)), cio_parse_trace := (\<lambda>s. Some (cpl_trace r)),
     pio_parse_provenance := (\<lambda>s. Some (cpl_provenance r))\<rparr>"

lemma reading_io_same:
  "serialize_causal_fusion_result (reading_io q) = serialize_causal_fusion_result replay_io"
  "serialize_causal_stopping_trace (reading_io q) = serialize_causal_stopping_trace replay_io"
  "serialize_replay_provenance (reading_io q) = serialize_replay_provenance replay_io" "io_sha (reading_io q) = io_sha replay_io"
  by (simp_all add: fun_eq_iff reading_io_def serialize_causal_fusion_result_def serialize_causal_stopping_trace_def serialize_replay_provenance_def)

lemma reading_io_run: "run_r1_causal_replay n (reading_io q) a c m p config commit = run_r1_causal_replay n replay_io a c m p config commit"
  by (simp add: run_r1_causal_replay_def replay_provenance_of_def [abs_def] reading_io_same)

theorem replay_artifacts_load_witness:
  "\<exists>io r dir'. run_r1_causal_replay False io replay_artifacts replay_envelope replay_run replay_policy replay_valid_config ''abc'' = Inr r
    \<and> load_r1_causal_replay_artifacts io dir' = Inr \<lparr>rar_fusion = cpl_fusion r, rar_trace = cpl_trace r, rar_provenance = cpl_provenance r\<rparr>"
proof -
  obtain r where r: "run_r1_causal_replay False replay_io replay_artifacts replay_envelope replay_run replay_policy replay_valid_config ''abc'' = Inr r"
    using replay_runs by blast
  let ?io = "reading_io r"
  have run: "run_r1_causal_replay False ?io replay_artifacts replay_envelope replay_run replay_policy replay_valid_config ''abc'' = Inr r"
    using r by (simp add: reading_io_run)
  note fields = replay_provenance_fields [OF fusion_config_ok [OF sample_replay_config_valid] run]
  have link: "io_link (artifact_io.truncate ?io) t" for t
    by (simp add: reading_io_def replay_io_def artifact_io.defs replay_store_io_def replay_artifact_io_def)
  obtain files dir' where w: "run_and_write_r1_causal_replay False ?io replay_artifacts replay_envelope replay_run replay_policy replay_valid_config ''abc'' Map.empty
      = (Inr (r, files), dir')"
    by (simp add: run_and_write_r1_causal_replay_def run write_r1_causal_replay_artifacts_def publish_replay_files_def replay_files_def link
        fields causal_fusion_filename_def causal_trace_filename_def provenance_filename_def)
  have "load_r1_causal_replay_artifacts ?io dir' = Inr \<lparr>rar_fusion = cpl_fusion r, rar_trace = cpl_trace r, rar_provenance = cpl_provenance r\<rparr>"
    using replay_artifacts_load [OF sample_replay_config_valid w] by (simp add: reading_io_def)
  with run show ?thesis by (intro exI conjI)
qed

end
