(* ===== verification/Spec2Isabelle.thy ===== *)
theory Spec2Isabelle
  imports FusionProperties DecisionProperties StreamProperties LineageProperties IncrementalProperties FirstCycleProperties
    ReplayProperties
begin

text \<open>
  A verification development of the incident awareness engine (\<open>src/incident_awareness\<close> under src/).

  \<^bold>\<open>The program.\<close> The engine turns telemetry of a run into Evidence, scores the Evidence in a sliding
  window of event time, lets a stopping policy decide when the score means an incident (the Fusion
  path), combines that with the verdict of a rule detector (the Fast path) and stores the results.
  Two routes lead to the Evidence. In a First Cycle (S0) run the artifacts of one invocation are read,
  every Sysmon record becomes an Event and at most one Evidence per rule. In an R1 run chunks of
  Events arrive on a stream; a ledger admits each of them once and in order, a lineage selector finds
  the one process lineage of the run, and the Evidence of two Events each is confirmed when the run
  is closed, either by watermarks or by a proof that rests on a verified seal. A checkpoint lets this
  state survive a crash. A whole R1 run can also be treated offline: its Evidence is published as files
  that are never overwritten, an envelope says when each Evidence was available, and the causal replay
  joins both, runs the Fusion and publishes its result for the evaluation.

  \<^bold>\<open>Theories and sources.\<close> Every definition carries the name of the function, class or field it
  translates; a class is a record, \<open>__init__\<close> is \<open>new_...\<close>, the validators of a Pydantic model are
  \<open>validate_...\<close> on the record of the raw values and return the record the model holds.

    \<^item> Shared: \<open>Prelude\<close> (exceptions as \<open>exn + 'a\<close>, datetimes as microseconds with an offset, strings,
      sorting by a key), \<open>Floats\<close> (comparison with NaN, the rounded quotient of two integers).
    \<^item> Fusion: \<open>FusionModels\<close> (common/models/evidence.py, fusion.py), \<open>WindowEngine\<close>, \<open>SimpleScore\<close>,
      \<open>StoppingPolicy\<close>, \<open>TemporalReplay\<close>, \<open>FusionPipeline\<close> (pipeline.py, result_builder.py),
      \<open>FusionConfig\<close> (all of decision/fusion/, and common/models/fusion_runtime_config.py).
      \<open>ReplayCorrectness\<close> and \<open>CausalReplay\<close> say what the two replays compute; \<open>FusionProperties\<close>.
    \<^item> Records and decisions: \<open>RecordModels\<close> (common/models/run.py, event.py, result.py), \<open>Hybrid\<close>
      (decision/hybrid.py), \<open>FastHandoff\<close> (detection/fast_hit_adapter.py, fast_runner.py,
      integration/fast_hit_handoff.py), \<open>FastSelection\<close> (detection/fast_selection.py, fast_episodes.py);
      \<open>DecisionProperties\<close>.
    \<^item> Stream: \<open>StreamModels\<close> (common/models/r1_stream.py, r1_required_partition.py,
      r1_record_position_close.py), \<open>StreamLedger\<close> (the two delivery repositories of
      storage/repositories/), \<open>StreamIngress\<close> (pipeline/r1_stream_ingress.py and the spool of
      r1_stream_wiring.py), \<open>StreamGuard\<close> (r1_stream_boundary.py). \<open>LedgerFacts\<close>, \<open>LedgerSteps\<close> and
      \<open>StreamDelivery\<close> treat the ledger as a transition system; \<open>StreamProperties\<close>.
    \<^item> Lineage: \<open>LineageSelector\<close> (collection/r1_pair_identity.py, evidence/r1_selector.py),
      \<open>LineageEvidence\<close> (evidence/r1_multi_event.py, r1_approved_lineage_policy.py, r1_provenance.py,
      pipeline/r1_evidence.py), \<open>LineageFacts\<close>, \<open>LineageProperties\<close>.
    \<^item> Incremental Evidence: \<open>CandidateSeal\<close> and \<open>CloseProof\<close> (collection/r1_candidate_generation_seal.py,
      r1_role2_verified_close_proof.py), \<open>IncrementalCheckpoint\<close>, \<open>IncrementalEvidence\<close> (the files of the
      same name under pipeline/ with the prefix r1). \<open>IncrementalFacts\<close> has the steps and the invariant,
      \<open>IncrementalCorrectness\<close> and \<open>IncrementalOrder\<close> what holds in every reachable state,
      \<open>IncrementalRecovery\<close> and \<open>IncrementalRestore\<close> the way back from a checkpoint, \<open>CloseChain\<close> the
      way from the seal to the confirmed Evidence; \<open>IncrementalProperties\<close>.
    \<^item> First Cycle: \<open>HostText\<close> (the parts of the standard library that read command lines and addresses),
      \<open>SysmonInput\<close> (collection/collector/sysmon_jsonl.py, normalization/sysmon.py), \<open>EvidenceExtractor\<close>
      (evidence/extractor.py, pipeline/event_evidence.py), \<open>S0Replay\<close> (integration/s0_replay_window.py,
      pipeline/fusion.py), \<open>DecisionStore\<close> (common/models/runtime_snapshot.py, the run, event and result
      repositories, pipeline/persistence.py), \<open>FirstCycle\<close> (pipeline/cli.py, s0_artifacts.py, fast.py,
      hybrid.py, reporting.py, runner.py). \<open>DecisionChain\<close> and \<open>StoreTransactions\<close> are about the store,
      \<open>FirstCycleFacts\<close> about a whole run; \<open>FirstCycleProperties\<close>.
    \<^item> Artifacts and causal replay: \<open>PolicyRegistry\<close> (the loaders of evidence/r1_approved_lineage_policy.py
      and all of r1_reference_policy.py), \<open>EvidenceArtifacts\<close> (pipeline/r1_artifacts.py, r1_automated.py),
      \<open>CausalPipeline\<close> (pipeline/r1_causal_availability.py, r1_causal_replay.py,
      r1_causal_replay_artifacts.py, evaluation/causal_inputs.py). \<open>EvidenceArtifactFacts\<close> has what a
      publication leaves in the directory and that the reader accepts it, \<open>CausalPipelineFacts\<close> the
      cadence of the replay points and the join, \<open>WholeEpisode\<close> that the replay of a run returns, when it
      decides and that its checks and files hold; \<open>ReplayProperties\<close>.

  \<^bold>\<open>Interfaces.\<close> A locale stands where one part relies on another: the
  window and the scorer the replay runner calls, the chunk ledger of the ingress, the replaying and
  recording ingress of a recovery, the superseding log of the
  decisions. Each is interpreted on the model's own definitions in the theory of the provider.

  \<^bold>\<open>What the lemmas show.\<close> Each component has the exact condition under which its validators accept
  (collected in \<open>validity\<close>), the behaviour of its operations on every branch, and the invariant they
  keep. The properties, numbered C1 and on, stand in the theories named \<open>...Properties\<close>: detection is the
  first sustained crossing and the episodes are disjoint stretches of the trajectory; a causal replay
  never looks ahead; the decision is the truth table of both paths; a delivery is accepted at most
  once and its events are forwarded exactly once; a confirmed lineage rests on exactly the Events of
  the run; neither the order of the deliveries nor a crash changes what is confirmed; what a First
  Cycle run stores is what its stages computed, and a run that raises stores nothing; published artifacts
  read back as what was computed, and the causal replay of a whole run returns, decides at the run end or
  never, and passes the checks of the evaluation.

  \<^bold>\<open>Loops and bounds.\<close> All recursion is structural or has a measure: the cadence of a replay decreases
  the time left to the boundary and needs a positive step, which \<open>new_replay_runner\<close> enforces; there is
  no fuel. Configured durations become whole microseconds below \<open>10^9\<close> days, the range of \<open>timedelta\<close>;
  properties of a configured step assume at most \<open>10^9\<close> seconds, where the rounded float arithmetic of
  the validators and of \<open>timedelta\<close> is exact on the millisecond grid. Python integers are
  unbounded and are \<open>int\<close> or \<open>nat\<close>; the program has no fixed-width arithmetic.

  \<^bold>\<open>Parameters.\<close> What is not under src/ is an argument: the vocabularies of the managed Evidence types and
  the Event types (files loaded at run time), whether Pydantic accepts NaN (\<open>nan_ok\<close>), \<open>json.loads\<close>,
  \<open>datetime.strptime\<close> and \<open>datetime.fromisoformat\<close>, \<open>ipaddress.IPv6Address\<close>, the readers of files, the
  clock, uuid-based namers, and the canonical-JSON SHA-256 digests (\<open>stream_digests\<close>, \<open>proof_digests\<close>,
  \<open>checkpoint_digests\<close>, \<open>artifact_io\<close>, \<open>provenance_io\<close>, with the JSON codecs of the artifacts). Where a property
  needs a digest or a namer to tell two values apart, or a codec to read back what it wrote, it says so as
  a hypothesis on the values concerned.

  \<^bold>\<open>Not modelled.\<close> Overflow of \<open>datetime\<close> beyond year 9999; that Pydantic collects several errors (the
  model raises the first); serializers and JSON schemas; fields whose only value is a literal; the text
  of some exception messages; code points from 256 on in the text operations; SQL constraints that
  repeat a validator, advisory locks, and the list queries of the repositories; the temporary names of
  published files (a directory maps names to contents, a hard link fails or succeeds); the observers of the
  run time, which get copies of the results.
  Whole parts left out are listed with their reasons in the manifest: the collection tools and their
  validators, the dashboard, the evaluation and its baselines, the workers on AWS, migrations and
  scripts; the causal replay of incremental Evidence with the consumer that writes its envelope.
\<close>

end
